(* ===== verification/Vault_Prelude.thy ===== *)
theory Vault_Prelude
  imports Main "HOL-Library.Word" "HOL-Library.Char_ord" "HOL-Library.List_Lexorder"
    "HOL-Library.Sublist"
begin

text \<open>
  Shared vocabulary of the MCP Vault development.

  \<^item> Rust results: \<open>Result<T, E>\<close> is the sum \<open>'e + 'a\<close>, written with \<open>Err\<close> and \<open>Ok\<close>.
  \<^item> Stateful code that may fail: a function from a state to a result and the state reached, so
    that an early return keeps every effect that happened before it (\<open>bind_x\<close>, \<open>throw_x\<close>).
    The predicate \<open>within\<close> says that every run of such a program moves the state along a given
    relation; its rules are collected in \<open>within_rules\<close>.
  \<^item> SQL tables: lists of rows, read with \<open>find_row\<close> and changed with \<open>update_rows\<close>.
  \<^item> Rust strings: a \<open>str\<close> is the list of the bytes of its UTF-8 encoding, a \<open>string\<close> here, so
    \<open>length\<close> is \<open>str::len\<close> and a search for an ASCII character is a search for its byte.
\<close>

named_theorems within_rules \<open>programs that move the state along a relation\<close>
named_theorems x_simps \<open>symbolic execution of stateful programs\<close>

section \<open>Results\<close>

abbreviation Ok :: "'a \<Rightarrow> 'e + 'a" where
  "Ok x \<equiv> Inr x"

abbreviation Err :: "'e \<Rightarrow> 'e + 'a" where
  "Err e \<equiv> Inl e"

definition bind_r :: "'e + 'a \<Rightarrow> ('a \<Rightarrow> 'e + 'b) \<Rightarrow> 'e + 'b" where
  "bind_r r f = (case r of Err e \<Rightarrow> Err e | Ok x \<Rightarrow> f x)"

definition map_err :: "('e \<Rightarrow> 'f) \<Rightarrow> 'e + 'a \<Rightarrow> 'f + 'a" where
  "map_err h r = (case r of Err e \<Rightarrow> Err (h e) | Ok x \<Rightarrow> Ok x)"

definition ok_or :: "'e \<Rightarrow> 'a option \<Rightarrow> 'e + 'a" where
  "ok_or e v = (case v of None \<Rightarrow> Err e | Some x \<Rightarrow> Ok x)"

definition is_ok :: "'e + 'a \<Rightarrow> bool" where
  "is_ok r = (case r of Err _ \<Rightarrow> False | Ok _ \<Rightarrow> True)"

lemma bind_r_simps [simp]: "bind_r (Ok x) f = f x" "bind_r (Err e) f = Err e"
  by (simp_all add: bind_r_def)

lemma map_err_simps [simp]: "map_err h (Ok x) = Ok x" "map_err h (Err e) = Err (h e)"
  by (simp_all add: map_err_def)

lemma ok_or_simps [simp]: "ok_or e None = Err e" "ok_or e (Some x) = Ok x"
  by (simp_all add: ok_or_def)

lemma is_ok_simps [simp]: "is_ok (Ok x)" "\<not> is_ok (Err e)"
  by (simp_all add: is_ok_def)

lemma bind_r_Ok_conv: "bind_r r f = Ok y \<longleftrightarrow> (\<exists>x. r = Ok x \<and> f x = Ok y)"
  by (cases r) auto

lemma map_err_Ok_conv [simp]: "map_err h r = Ok x \<longleftrightarrow> r = Ok x"
  by (cases r) auto

lemma ok_or_Ok_conv [simp]: "ok_or e v = Ok x \<longleftrightarrow> v = Some x"
  by (cases v) auto

lemma is_ok_iff: "is_ok r \<longleftrightarrow> (\<exists>x. r = Ok x)"
  by (cases r) auto

section \<open>Programs with state and failure\<close>

type_synonym ('s, 'e, 'a) prog = "'s \<Rightarrow> ('e + 'a) \<times> 's"

definition return_x :: "'a \<Rightarrow> ('s, 'e, 'a) prog" where
  "return_x x s = (Ok x, s)"

definition throw_x :: "'e \<Rightarrow> ('s, 'e, 'a) prog" where
  "throw_x e s = (Err e, s)"

definition bind_x :: "('s, 'e, 'a) prog \<Rightarrow> ('a \<Rightarrow> ('s, 'e, 'b) prog) \<Rightarrow> ('s, 'e, 'b) prog" where
  "bind_x m f s = (case m s of (Err e, s') \<Rightarrow> (Err e, s') | (Ok x, s') \<Rightarrow> f x s')"

definition then_x :: "('s, 'e, 'a) prog \<Rightarrow> ('s, 'e, 'b) prog \<Rightarrow> ('s, 'e, 'b) prog" where
  "then_x m n = bind_x m (\<lambda>_. n)"

definition lift_x :: "'e + 'a \<Rightarrow> ('s, 'e, 'a) prog" where
  "lift_x r s = (r, s)"

definition gets_x :: "('s \<Rightarrow> 'a) \<Rightarrow> ('s, 'e, 'a) prog" where
  "gets_x f s = (Ok (f s), s)"

definition asks_x :: "('s \<Rightarrow> 'e + 'a) \<Rightarrow> ('s, 'e, 'a) prog" where
  "asks_x f s = (f s, s)"

definition modify_x :: "('s \<Rightarrow> 's) \<Rightarrow> ('s, 'e, unit) prog" where
  "modify_x f s = (Ok (), f s)"

definition when_x :: "bool \<Rightarrow> ('s, 'e, unit) prog \<Rightarrow> ('s, 'e, unit) prog" where
  "when_x b m = (if b then m else return_x ())"

definition catch_x :: "('s, 'e, 'a) prog \<Rightarrow> ('e \<Rightarrow> ('s, 'f, 'a) prog) \<Rightarrow> ('s, 'f, 'a) prog" where
  "catch_x m h s = (case m s of (Err e, s') \<Rightarrow> h e s' | (Ok x, s') \<Rightarrow> (Ok x, s'))"

definition try_x :: "('s, 'e, 'a) prog \<Rightarrow> ('e + 'a \<Rightarrow> ('s, 'f, 'b) prog) \<Rightarrow> ('s, 'f, 'b) prog" where
  \<comment> \<open>\<open>match call { Ok(..) => .., Err(..) => .. }\<close>\<close>
  "try_x m f s = f (fst (m s)) (snd (m s))"

definition ignore_x :: "('s, 'e, 'a) prog \<Rightarrow> ('s, 'f, unit) prog" where
  \<comment> \<open>\<open>let _ = call;\<close>: the effects are kept, the result is dropped\<close>
  "ignore_x m s = (Ok (), snd (m s))"

definition mapErr_x :: "('e \<Rightarrow> 'f) \<Rightarrow> ('s, 'e, 'a) prog \<Rightarrow> ('s, 'f, 'a) prog" where
  "mapErr_x h m s = (map_err h (fst (m s)), snd (m s))"

lemmas prog_defs = return_x_def throw_x_def bind_x_def then_x_def lift_x_def gets_x_def asks_x_def
  modify_x_def when_x_def catch_x_def try_x_def ignore_x_def mapErr_x_def

lemma return_x_run [simp]: "return_x x s = (Ok x, s)" by (simp add: return_x_def)
lemma throw_x_run [simp]: "throw_x e s = (Err e, s)" by (simp add: throw_x_def)
lemma lift_x_run [simp]: "lift_x r s = (r, s)" by (simp add: lift_x_def)
lemma gets_x_run [simp]: "gets_x f s = (Ok (f s), s)" by (simp add: gets_x_def)
lemma asks_x_run [simp]: "asks_x f s = (f s, s)" by (simp add: asks_x_def)
lemma modify_x_run [simp]: "modify_x f s = (Ok (), f s)" by (simp add: modify_x_def)

lemma bind_x_Ok: "m s = (Ok x, s') \<Longrightarrow> bind_x m f s = f x s'"
  by (simp add: bind_x_def)

lemma bind_x_Err: "m s = (Err e, s') \<Longrightarrow> bind_x m f s = (Err e, s')"
  by (simp add: bind_x_def)

lemma bind_x_Ok_conv: "bind_x m f s = (Ok y, s') \<longleftrightarrow> (\<exists>x s1. m s = (Ok x, s1) \<and> f x s1 = (Ok y, s'))"
  by (auto simp: bind_x_def split: prod.splits sum.splits)

lemma bind_x_run [simp]:
  "bind_x (return_x x) f s = f x s"
  "bind_x (throw_x e) f s = (Err e, s)"
  "bind_x (gets_x g) f s = f (g s) s"
  "bind_x (modify_x h) f' s = f' () (h s)"
  by (simp_all add: bind_x_def)

lemma bind_x_lift [simp]:
  "bind_x (lift_x (Ok x)) f s = f x s" "bind_x (lift_x (Err e)) f s = (Err e, s)"
  by (simp_all add: bind_x_def)

lemma when_x_simps [simp]: "when_x True m = m" "when_x False m = return_x ()"
  by (simp_all add: when_x_def)

text \<open>Every run of a program moves the state along a relation.\<close>

definition within :: "('s \<Rightarrow> 's \<Rightarrow> bool) \<Rightarrow> ('s, 'e, 'a) prog \<Rightarrow> bool" where
  "within R m \<longleftrightarrow> (\<forall>s. R s (snd (m s)))"

lemma withinD: "within R m \<Longrightarrow> m s = (r, s') \<Longrightarrow> R s s'"
  unfolding within_def by (metis snd_conv)

lemma withinI: "(\<And>s. R s (snd (m s))) \<Longrightarrow> within R m"
  by (simp add: within_def)

locale step_order =
  fixes R :: "'s \<Rightarrow> 's \<Rightarrow> bool"
  assumes step_refl: "R s s"
    and step_trans: "R s t \<Longrightarrow> R t u \<Longrightarrow> R s u"
begin

lemma within_pure:
  "within R (return_x x)" "within R (throw_x e)" "within R (lift_x r)" "within R (gets_x g)"
  "within R (asks_x h)"
  by (auto simp: within_def step_refl)

lemma within_bind:
  assumes "within R m" and "\<And>x. within R (f x)"
  shows "within R (bind_x m f)"
  unfolding within_def
proof
  fix s
  obtain r s' where m: "m s = (r, s')" by (cases "m s")
  with assms(1) have 1: "R s s'" by (rule withinD)
  show "R s (snd (bind_x m f s))"
  proof (cases r)
    case (Inl e)
    with m 1 show ?thesis by (simp add: bind_x_def)
  next
    case (Inr x)
    have "R s' (snd (f x s'))" using assms(2) by (simp add: within_def)
    with 1 m Inr show ?thesis by (auto simp: bind_x_def intro: step_trans)
  qed
qed

lemma within_then: "within R m \<Longrightarrow> within R n \<Longrightarrow> within R (then_x m n)"
  by (simp add: then_x_def within_bind)

lemma within_when: "(b \<Longrightarrow> within R m) \<Longrightarrow> within R (when_x b m)"
  by (cases b) (simp_all add: within_pure)

lemma within_catch:
  assumes "within R m" and "\<And>e. within R (h e)"
  shows "within R (catch_x m h)"
  unfolding within_def
proof
  fix s
  obtain r s' where m: "m s = (r, s')" by (cases "m s")
  with assms(1) have 1: "R s s'" by (rule withinD)
  show "R s (snd (catch_x m h s))"
  proof (cases r)
    case (Inl e)
    have "R s' (snd (h e s'))" using assms(2) by (simp add: within_def)
    with 1 m Inl show ?thesis by (auto simp: catch_x_def intro: step_trans)
  next
    case (Inr x)
    with m 1 show ?thesis by (simp add: catch_x_def)
  qed
qed

lemma within_try:
  assumes "within R m" and "\<And>r. within R (f r)"
  shows "within R (try_x m f)"
  using assms by (auto simp: within_def try_x_def intro: step_trans)

lemma within_ignore: "within R m \<Longrightarrow> within R (ignore_x m)"
  by (simp add: within_def ignore_x_def)

lemma within_mapErr: "within R m \<Longrightarrow> within R (mapErr_x h m)"
  by (simp add: within_def mapErr_x_def)

lemma bind_post:
  assumes run: "bind_x m f s = (res, s')"
    and first: "\<And>r1 s1. m s = (r1, s1) \<Longrightarrow> R s s1"
    and rest: "\<And>y s1. m s = (Ok y, s1) \<Longrightarrow> f y s1 = (res, s') \<Longrightarrow> R s1 s' \<and> (\<forall>v. res = Ok v \<longrightarrow> P v)"
  shows "R s s' \<and> (\<forall>v. res = Ok v \<longrightarrow> P v)"
proof -
  obtain r1 s1 where m: "m s = (r1, s1)" by (rule prod.exhaust)
  show ?thesis
  proof (cases r1)
    case (Inl e)
    then show ?thesis using run m first by (auto simp: bind_x_def)
  next
    case (Inr y)
    then have "f y s1 = (res, s')" using run m by (simp add: bind_x_def)
    from rest [OF m [unfolded Inr] this] show ?thesis using step_trans [OF first [OF m]] by simp
  qed
qed

lemmas within_core = within_pure within_bind within_then within_when within_catch within_try within_ignore
  within_mapErr

end

text \<open>Several relations kept at once, and the case splits that programs are built with.\<close>

lemma within_split:
  "(\<And>x. v = Some x \<Longrightarrow> within R (f x)) \<Longrightarrow> (v = None \<Longrightarrow> within R g) \<Longrightarrow>
     within R (case v of None \<Rightarrow> g | Some x \<Rightarrow> f x)"
  "(b \<Longrightarrow> within R m) \<Longrightarrow> (\<not> b \<Longrightarrow> within R n) \<Longrightarrow> within R (if b then m else n)"
  "(\<And>e. r = Inl e \<Longrightarrow> within R (h e)) \<Longrightarrow> (\<And>x. r = Inr x \<Longrightarrow> within R (k x)) \<Longrightarrow>
     within R (case r of Inl e \<Rightarrow> h e | Inr x \<Rightarrow> k x)"
  by (auto split: option.splits sum.splits)

text \<open>Invariants of transition systems, and conditions that hold along a run.\<close>

locale inductive_invariant =
  fixes init :: "'s \<Rightarrow> bool" and step :: "'s \<Rightarrow> 's \<Rightarrow> bool" and inv :: "'s \<Rightarrow> bool"
  assumes inv_init: "init s \<Longrightarrow> inv s"
    and inv_step: "inv s \<Longrightarrow> step s t \<Longrightarrow> inv t"
begin

lemma inv_run: "step\<^sup>*\<^sup>* s t \<Longrightarrow> inv s \<Longrightarrow> inv t"
  by (induction rule: rtranclp_induct) (auto intro: inv_step)

lemma inv_reachable: "init s \<Longrightarrow> step\<^sup>*\<^sup>* s t \<Longrightarrow> inv t"
  using inv_init inv_run by blast

end

section \<open>Tables\<close>

definition find_row :: "('r \<Rightarrow> bool) \<Rightarrow> 'r list \<Rightarrow> 'r option" where
  "find_row P rows = List.find P rows"

definition update_rows :: "('r \<Rightarrow> bool) \<Rightarrow> ('r \<Rightarrow> 'r) \<Rightarrow> 'r list \<Rightarrow> 'r list" where
  "update_rows P f rows = map (\<lambda>r. if P r then f r else r) rows"

definition rows_affected :: "('r \<Rightarrow> bool) \<Rightarrow> 'r list \<Rightarrow> nat" where
  "rows_affected P rows = length (filter P rows)"

lemma find_row_simps [simp]:
  "find_row P [] = None"
  "find_row P (r # rows) = (if P r then Some r else find_row P rows)"
  by (simp_all add: find_row_def)

lemma update_rows_simps [simp]:
  "update_rows P f [] = []"
  "update_rows P f (r # rows) = (if P r then f r else r) # update_rows P f rows"
  by (simp_all add: update_rows_def)

lemma rows_affected_simps [simp]:
  "rows_affected P [] = 0"
  "rows_affected P (r # rows) = (if P r then Suc (rows_affected P rows) else rows_affected P rows)"
  by (simp_all add: rows_affected_def)

lemma find_row_Some: "find_row P rows = Some r \<Longrightarrow> r \<in> set rows \<and> P r"
  by (induction rows) (auto split: if_splits)

lemma find_row_None: "find_row P rows = None \<longleftrightarrow> (\<forall>r \<in> set rows. \<not> P r)"
  by (induction rows) auto

lemma find_row_append:
  "find_row P (xs @ ys) = (case find_row P xs of None \<Rightarrow> find_row P ys | Some r \<Rightarrow> Some r)"
  by (induction xs) auto

lemma find_row_update:
  assumes "\<And>r. k (f r) = k r"
  shows "find_row (\<lambda>r. k r = i) (update_rows (\<lambda>r. k r = j) f rows) =
    (if i = j then map_option f (find_row (\<lambda>r. k r = j) rows) else find_row (\<lambda>r. k r = i) rows)"
  by (induction rows) (auto simp: assms)

lemma find_row_update_keep:
  assumes "\<And>r. K (f r) = K r"
  shows "find_row K (update_rows P f rows) = map_option (\<lambda>r. if P r then f r else r) (find_row K rows)"
  by (induction rows) (auto simp: assms)

lemma length_update_rows [simp]: "length (update_rows P f rows) = length rows"
  by (simp add: update_rows_def)

lemma set_update_rows: "set (update_rows P f rows) = (\<lambda>r. if P r then f r else r) ` set rows"
  by (simp add: update_rows_def)

lemma update_rows_none: "rows_affected P rows = 0 \<Longrightarrow> update_rows P f rows = rows"
  by (induction rows) (auto split: if_splits)

lemma map_update_rows: "(\<And>r. P r \<Longrightarrow> g (f r) = g r) \<Longrightarrow> map g (update_rows P f rows) = map g rows"
  by (auto simp: update_rows_def)

text \<open>Rows found by a key: the key column is unique, the update keeps it.\<close>

lemma find_row_key_unique:
  "distinct (map k rows) \<Longrightarrow> r \<in> set rows \<Longrightarrow> find_row (\<lambda>x. k x = k r) rows = Some r"
  by (induction rows) (auto simp: image_iff)

lemma rows_affected_key:
  "distinct (map k rows) \<Longrightarrow> r \<in> set rows \<Longrightarrow> Q r \<Longrightarrow>
     rows_affected (\<lambda>x. k x = k r \<and> Q x) rows = 1"
proof (induction rows)
  case Nil
  then show ?case by simp
next
  case (Cons a rows)
  have none: "rows_affected (\<lambda>x. k x = k r \<and> Q x) rows = 0" if "k a = k r"
    using Cons.prems(1) that
    by (simp add: rows_affected_def filter_empty_conv) (metis image_eqI)
  show ?case using Cons none by (cases "a = r") (auto simp: image_iff)
qed

lemma distinct_map_update_rows:
  assumes "distinct (map k rows)" "rows_affected P rows \<le> 1"
    and "\<And>r. P r \<Longrightarrow> k (f r) = k'" "\<And>r. r \<in> set rows \<Longrightarrow> \<not> P r \<Longrightarrow> k r \<noteq> k'"
  shows "distinct (map k (update_rows P f rows))"
  using assms
proof (induction rows)
  case Nil
  then show ?case by simp
next
  case (Cons a rows)
  show ?case
  proof (cases "P a")
    case True
    then have none: "rows_affected P rows = 0" using Cons.prems(2) by simp
    then have "\<forall>r \<in> set rows. \<not> P r" by (auto simp: rows_affected_def filter_empty_conv)
    with True Cons.prems show ?thesis
      by (auto simp: update_rows_none [OF none])
  next
    case False
    then show ?thesis using Cons
      by (auto simp: set_update_rows image_iff split: if_splits)
  qed
qed

lemma rows_affected_pos: "0 < rows_affected P rows \<longleftrightarrow> (\<exists>r \<in> set rows. P r)"
  by (induction rows) auto

section \<open>Strings\<close>

abbreviation byte_of :: "char \<Rightarrow> nat" where
  "byte_of c \<equiv> of_char c"

fun any_control :: "string \<Rightarrow> bool" where
  \<comment> \<open>\<open>s.chars().any(char::is_control)\<close>: U+0000..U+001F, U+007F and U+0080..U+009F (0xC2 0x80..0x9F)\<close>
  "any_control [] = False"
| "any_control (c # cs) =
     (byte_of c < 32 \<or> byte_of c = 127
      \<or> (byte_of c = 194 \<and> (case cs of [] \<Rightarrow> False | d # _ \<Rightarrow> 128 \<le> byte_of d \<and> byte_of d \<le> 159))
      \<or> any_control cs)"

fun split_on :: "char \<Rightarrow> string \<Rightarrow> string list" where
  \<comment> \<open>\<open>s.split(d)\<close> for an ASCII character: empty pieces are kept\<close>
  "split_on d [] = [[]]"
| "split_on d (c # cs) =
     (if c = d then [] # split_on d cs
      else (case split_on d cs of [] \<Rightarrow> [[c]] | s # ss \<Rightarrow> (c # s) # ss))"

fun join_with :: "char \<Rightarrow> string list \<Rightarrow> string" where
  "join_with d [] = []"
| "join_with d [s] = s"
| "join_with d (s # ss) = s @ d # join_with d ss"

definition strip_prefix :: "string \<Rightarrow> string \<Rightarrow> string option" where
  "strip_prefix p s = (if prefix p s then Some (drop (length p) s) else None)"

definition strip_suffix :: "string \<Rightarrow> string \<Rightarrow> string option" where
  "strip_suffix p s = (if suffix p s then Some (take (length s - length p) s) else None)"

fun split_inclusive :: "char \<Rightarrow> string \<Rightarrow> string list" where
  \<comment> \<open>\<open>s.split_inclusive(d)\<close>: every piece but perhaps the last ends with the separator\<close>
  "split_inclusive d [] = []"
| "split_inclusive d (c # cs) =
     (if c = d then [c] # split_inclusive d cs
      else (case split_inclusive d cs of [] \<Rightarrow> [[c]] | s # ss \<Rightarrow> (c # s) # ss))"

lemma split_on_nonempty [simp]: "split_on d s \<noteq> []"
  by (cases s) (auto split: list.splits)

lemma join_split: "join_with d (split_on d s) = s"
proof (induction s)
  case Nil
  then show ?case by simp
next
  case (Cons c cs)
  obtain t ts where ts: "split_on d cs = t # ts"
    using split_on_nonempty by (meson list.exhaust)
  show ?case using Cons ts by (cases ts) auto
qed

lemma split_on_no_sep: "d \<notin> set s \<Longrightarrow> split_on d s = [s]"
  by (induction s) auto

lemma split_on_append: "d \<notin> set s \<Longrightarrow> split_on d (s @ d # t) = s # split_on d t"
  by (induction s) auto

lemma split_on_pieces: "s \<in> set (split_on d t) \<Longrightarrow> d \<notin> set s"
proof (induction t arbitrary: s)
  case Nil
  then show ?case by simp
next
  case (Cons c cs)
  obtain u us where us: "split_on d cs = u # us"
    using split_on_nonempty by (meson list.exhaust)
  show ?case using Cons us by (auto split: if_splits)
qed

lemma split_join: "ss \<noteq> [] \<Longrightarrow> \<forall>s \<in> set ss. d \<notin> set s \<Longrightarrow> split_on d (join_with d ss) = ss"
proof (induction d ss rule: join_with.induct)
  case (1 d)
  then show ?case by simp
next
  case (2 d s)
  then show ?case by (simp add: split_on_no_sep)
next
  case (3 d s v va)
  then show ?case by (simp add: split_on_append)
qed

lemma split_on_snoc: "split_on d (s @ d # t) = split_on d s @ split_on d t"
proof (induction s)
  case Nil
  then show ?case by simp
next
  case (Cons c cs)
  then show ?case by (auto split: list.splits)
qed

lemma concat_split_inclusive [simp]: "concat (split_inclusive d s) = s"
  by (induction s) (auto split: list.splits)

lemma split_inclusive_nonempty: "[] \<notin> set (split_inclusive d s)"
  by (induction s) (auto split: list.splits)

lemma strip_prefix_Some [simp]: "strip_prefix p s = Some t \<longleftrightarrow> s = p @ t"
  by (auto simp: strip_prefix_def prefix_def)

lemma strip_prefix_append [simp]: "strip_prefix p (p @ t) = Some t"
  by simp

end
