(* ===== verification/Maintenance.thy ===== *)
theory Maintenance
  imports Vault_Prelude
begin

text \<open>
  The process-wide maintenance gate (crates/domain/src/maintenance.rs).

  The first part has the gate's operations as functions on its state. The second part runs them
  concurrently: \<open>try_start\<close> and the drop of a guard take no lock, so each of their atomic
  instructions is a step of its own (\<open>start_phase\<close>); \<open>set\<close>, \<open>try_begin_mode\<close>, \<open>restore_to\<close> and the
  drop of a lease hold the transition mutex and write \<open>mode\<close>, the only cell a starting operation
  reads, at most once, so each is one step. Atomics are sequentially consistent in the model. The
  counters are \<open>int\<close>: the invariant shows that they count live guards, so neither end of \<open>usize\<close> is
  reached.
\<close>

section \<open>The gate\<close>

datatype maintenance_mode = Normal | ReadOnly | Offline

fun mode_as_str :: "maintenance_mode \<Rightarrow> string" where
  "mode_as_str Normal = ''normal''"
| "mode_as_str ReadOnly = ''read_only''"
| "mode_as_str Offline = ''offline''"

definition mode_allows_read :: "maintenance_mode \<Rightarrow> bool" where
  "mode_allows_read m \<longleftrightarrow> m \<noteq> Offline"

definition mode_allows_write :: "maintenance_mode \<Rightarrow> bool" where
  "mode_allows_write m \<longleftrightarrow> m = Normal"

record maintenance_state =
  gate_mode :: maintenance_mode
  maintenance_active :: bool
  active_operations :: int
  active_writes :: int

definition gate_new :: maintenance_state where
  "gate_new = \<lparr>gate_mode = Normal, maintenance_active = False, active_operations = 0,
               active_writes = 0\<rparr>"

definition gate_set :: "maintenance_mode \<Rightarrow> maintenance_state \<Rightarrow> maintenance_state" where
  "gate_set m g =
     (if maintenance_active g \<and> m \<noteq> Offline then g
      else (let g1 = g\<lparr>gate_mode := m\<rparr>
            in if m \<noteq> Offline then g1\<lparr>maintenance_active := False\<rparr> else g1))"

definition allows_read :: "maintenance_state \<Rightarrow> bool" where
  "allows_read g = mode_allows_read (gate_mode g)"

definition allows_write :: "maintenance_state \<Rightarrow> bool" where
  "allows_write g = mode_allows_write (gate_mode g)"

record maintenance_lease =
  previous :: maintenance_mode
  released :: bool
  token_active :: bool

definition compare_exchange_mode ::
  "maintenance_mode \<Rightarrow> maintenance_mode \<Rightarrow> maintenance_state \<Rightarrow> bool \<times> maintenance_state" where
  "compare_exchange_mode expected new g =
     (if gate_mode g = expected then (True, g\<lparr>gate_mode := new\<rparr>) else (False, g))"

definition try_begin_mode ::
  "maintenance_mode \<Rightarrow> maintenance_state \<Rightarrow> maintenance_lease option \<times> maintenance_state" where
  "try_begin_mode target g =
     (if maintenance_active g then (None, g)
      else
        (let g1 = g\<lparr>maintenance_active := True\<rparr>;
             prev = gate_mode g1
         in if prev = Offline \<and> target \<noteq> Offline then (None, g1\<lparr>maintenance_active := False\<rparr>)
            else
              (let (ok, g2) =
                     (if prev \<noteq> target then compare_exchange_mode prev target g1 else (True, g1))
               in if \<not> ok then (None, g2\<lparr>maintenance_active := False\<rparr>)
                  else (Some \<lparr>previous = prev, released = False, token_active = True\<rparr>, g2))))"

definition try_begin_offline ::
  "maintenance_state \<Rightarrow> maintenance_lease option \<times> maintenance_state" where
  "try_begin_offline = try_begin_mode Offline"

definition try_begin_read_only ::
  "maintenance_state \<Rightarrow> maintenance_lease option \<times> maintenance_state" where
  "try_begin_read_only = try_begin_mode ReadOnly"

definition is_drained :: "maintenance_state \<Rightarrow> bool" where
  "is_drained g \<longleftrightarrow> active_operations g = 0 \<and> active_writes g = 0"

definition token_is_valid :: "maintenance_lease \<Rightarrow> maintenance_state \<Rightarrow> bool" where
  "token_is_valid l g \<longleftrightarrow>
     token_active l \<and> gate_mode g = Offline \<and> active_operations g = 0 \<and> active_writes g = 0"

definition restore_to ::
  "maintenance_mode \<Rightarrow> maintenance_lease \<Rightarrow> maintenance_state \<Rightarrow>
     maintenance_lease \<times> maintenance_state" where
  "restore_to m l g =
     (l\<lparr>token_active := False, released := True\<rparr>,
      g\<lparr>gate_mode := m, maintenance_active := False\<rparr>)"

definition restore ::
  "maintenance_lease \<Rightarrow> maintenance_state \<Rightarrow> maintenance_lease \<times> maintenance_state" where
  "restore l g = restore_to (previous l) l g"

definition drop_lease ::
  "maintenance_lease \<Rightarrow> maintenance_state \<Rightarrow> maintenance_lease \<times> maintenance_state" where
  "drop_lease l g =
     (if released l then (l, g)
      else (l\<lparr>token_active := False\<rparr>, g\<lparr>maintenance_active := False\<rparr>))"

definition allowed :: "bool \<Rightarrow> maintenance_mode \<Rightarrow> bool" where
  "allowed write m = (if write then mode_allows_write m else mode_allows_read m)"

definition try_start :: "bool \<Rightarrow> maintenance_state \<Rightarrow> bool option \<times> maintenance_state" where
  \<comment> \<open>the guard is its flag \<open>write\<close>; this is the run without interference\<close>
  "try_start write g =
     (if \<not> allowed write (gate_mode g) then (None, g)
      else
        (let g1 = g\<lparr>active_operations := active_operations g + 1\<rparr>;
             g2 = (if write then g1\<lparr>active_writes := active_writes g1 + 1\<rparr> else g1)
         in if allowed write (gate_mode g2) then (Some write, g2)
            else
              (let g3 = (if write then g2\<lparr>active_writes := active_writes g2 - 1\<rparr> else g2)
               in (None, g3\<lparr>active_operations := active_operations g3 - 1\<rparr>))))"

definition drop_guard :: "bool \<Rightarrow> maintenance_state \<Rightarrow> maintenance_state" where
  "drop_guard write g =
     (let g1 = (if write then g\<lparr>active_writes := active_writes g - 1\<rparr> else g)
      in g1\<lparr>active_operations := active_operations g1 - 1\<rparr>)"

section \<open>Interleaved execution\<close>

datatype start_phase =
    Idle
  | Checked bool       \<comment> \<open>the first mode check passed\<close>
  | OpsCounted bool    \<comment> \<open>\<open>active_operations\<close> incremented\<close>
  | Counted bool       \<comment> \<open>\<open>active_writes\<close> incremented too, for a write\<close>
  | Admitted bool      \<comment> \<open>the second check passed: the caller holds the guard\<close>
  | Rollback bool      \<comment> \<open>the second check failed\<close>
  | Closing            \<comment> \<open>\<open>active_operations\<close> still to be decremented\<close>

definition begin_start :: "bool \<Rightarrow> maintenance_state \<Rightarrow> start_phase" where
  "begin_start write g = (if allowed write (gate_mode g) then Checked write else Idle)"

fun advance :: "start_phase \<Rightarrow> maintenance_state \<Rightarrow> start_phase \<times> maintenance_state" where
  "advance Idle g = (Idle, g)"
| "advance (Checked w) g = (OpsCounted w, g\<lparr>active_operations := active_operations g + 1\<rparr>)"
| "advance (OpsCounted w) g =
     (Counted w, if w then g\<lparr>active_writes := active_writes g + 1\<rparr> else g)"
| "advance (Counted w) g =
     (if allowed w (gate_mode g) then Admitted w else Rollback w, g)"
| "advance (Rollback w) g =
     (Closing, if w then g\<lparr>active_writes := active_writes g - 1\<rparr> else g)"
| "advance (Admitted w) g =
     (Closing, if w then g\<lparr>active_writes := active_writes g - 1\<rparr> else g)"
| "advance Closing g = (Idle, g\<lparr>active_operations := active_operations g - 1\<rparr>)"

record gate_system =
  sys_gate :: maintenance_state
  sys_threads :: "start_phase list"
  sys_leases :: "(maintenance_lease \<times> bool) list"  \<comment> \<open>a lease and whether it was dropped\<close>

definition sys_new :: gate_system where
  "sys_new = \<lparr>sys_gate = gate_new, sys_threads = [], sys_leases = []\<rparr>"

definition lease_held :: "maintenance_lease \<times> bool \<Rightarrow> bool" where
  "lease_held ld \<longleftrightarrow> \<not> released (fst ld) \<and> \<not> snd ld"

inductive gate_step :: "gate_system \<Rightarrow> gate_system \<Rightarrow> bool" where
  spawn: "gate_step s (s\<lparr>sys_threads := sys_threads s @ [Idle]\<rparr>)"
| start: "i < length (sys_threads s) \<Longrightarrow> sys_threads s ! i = Idle \<Longrightarrow>
    gate_step s (s\<lparr>sys_threads := (sys_threads s)[i := begin_start w (sys_gate s)]\<rparr>)"
| adv: "i < length (sys_threads s) \<Longrightarrow> advance (sys_threads s ! i) (sys_gate s) = (p, g) \<Longrightarrow>
    gate_step s (s\<lparr>sys_gate := g, sys_threads := (sys_threads s)[i := p]\<rparr>)"
| set: "gate_step s (s\<lparr>sys_gate := gate_set m (sys_gate s)\<rparr>)"
| begin_lease: "m \<noteq> Normal \<Longrightarrow> try_begin_mode m (sys_gate s) = (Some l, g) \<Longrightarrow>
    gate_step s (s\<lparr>sys_gate := g, sys_leases := sys_leases s @ [(l, False)]\<rparr>)"
| begin_refused: "m \<noteq> Normal \<Longrightarrow> try_begin_mode m (sys_gate s) = (None, g) \<Longrightarrow>
    gate_step s (s\<lparr>sys_gate := g\<rparr>)"
| restore: "k < length (sys_leases s) \<Longrightarrow> lease_held (sys_leases s ! k) \<Longrightarrow>
    restore_to m (fst (sys_leases s ! k)) (sys_gate s) = (l, g) \<Longrightarrow>
    gate_step s (s\<lparr>sys_gate := g, sys_leases := (sys_leases s)[k := (l, False)]\<rparr>)"
| drop: "k < length (sys_leases s) \<Longrightarrow> \<not> snd (sys_leases s ! k) \<Longrightarrow>
    drop_lease (fst (sys_leases s ! k)) (sys_gate s) = (l, g) \<Longrightarrow>
    gate_step s (s\<lparr>sys_gate := g, sys_leases := (sys_leases s)[k := (l, True)]\<rparr>)"

definition gate_reachable :: "gate_system \<Rightarrow> bool" where
  "gate_reachable s \<longleftrightarrow> gate_step\<^sup>*\<^sup>* sys_new s"

text \<open>Runs along which every state satisfies a condition.\<close>

inductive run_while :: "(gate_system \<Rightarrow> bool) \<Rightarrow> gate_system \<Rightarrow> gate_system \<Rightarrow> bool" for P where
  here: "P s \<Longrightarrow> run_while P s s"
| more: "run_while P s t \<Longrightarrow> gate_step t u \<Longrightarrow> P u \<Longrightarrow> run_while P s u"

definition holds_operation :: "start_phase \<Rightarrow> bool" where
  "holds_operation p = (case p of Idle \<Rightarrow> False | Checked _ \<Rightarrow> False | _ \<Rightarrow> True)"

definition holds_write :: "start_phase \<Rightarrow> bool" where
  "holds_write p \<longleftrightarrow> p = Counted True \<or> p = Admitted True \<or> p = Rollback True"

definition tally :: "('a \<Rightarrow> bool) \<Rightarrow> 'a list \<Rightarrow> int" where
  "tally P xs = int (length (filter P xs))"

definition counters_ok :: "gate_system \<Rightarrow> bool" where
  "counters_ok s \<longleftrightarrow>
     active_operations (sys_gate s) = tally holds_operation (sys_threads s) \<and>
     active_writes (sys_gate s) = tally holds_write (sys_threads s)"

definition leases_ok :: "gate_system \<Rightarrow> bool" where
  "leases_ok s \<longleftrightarrow>
     tally lease_held (sys_leases s) = (if maintenance_active (sys_gate s) then 1 else 0) \<and>
     (maintenance_active (sys_gate s) \<longrightarrow> gate_mode (sys_gate s) \<noteq> Normal) \<and>
     (\<forall>ld \<in> set (sys_leases s). token_active (fst ld) \<longrightarrow> lease_held ld)"

text \<open>A write that passed its first check just before an Offline lease was taken.\<close>

definition offline_race :: gate_system where
  "offline_race =
     \<lparr>sys_gate = \<lparr>gate_mode = Offline, maintenance_active = True, active_operations = 0,
                  active_writes = 0\<rparr>,
      sys_threads = [Checked True],
      sys_leases = [(\<lparr>previous = Normal, released = False, token_active = True\<rparr>, False)]\<rparr>"

definition offline_race_counted :: gate_system where
  "offline_race_counted =
     offline_race\<lparr>sys_gate := (sys_gate offline_race)\<lparr>active_operations := 1\<rparr>,
                  sys_threads := [OpsCounted True]\<rparr>"

section \<open>Lemmas\<close>

inductive_cases gate_stepE: "gate_step s t"

lemma tally_Nil [simp]: "tally P [] = 0"
  by (simp add: tally_def)

lemma tally_append [simp]: "tally P (xs @ ys) = tally P xs + tally P ys"
  by (simp add: tally_def)

lemma tally_single [simp]: "tally P [x] = (if P x then 1 else 0)"
  by (simp add: tally_def)

lemma tally_update:
  assumes "i < length xs"
  shows "tally P (xs[i := x]) = tally P xs - (if P (xs ! i) then 1 else 0) + (if P x then 1 else 0)"
proof -
  have xs: "xs = take i xs @ [xs ! i] @ drop (Suc i) xs" using assms by (simp add: id_take_nth_drop)
  have upd: "xs[i := x] = take i xs @ [x] @ drop (Suc i) xs"
    using assms by (simp add: upd_conv_take_nth_drop)
  have "tally P xs = tally P (take i xs) + (if P (xs ! i) then 1 else 0) + tally P (drop (Suc i) xs)"
    by (subst xs) (simp only: tally_append tally_single)
  then show ?thesis by (simp only: upd tally_append tally_single)
qed

lemma tally_zero: "tally P xs = 0 \<longleftrightarrow> (\<forall>x \<in> set xs. \<not> P x)"
  by (auto simp: tally_def filter_empty_conv)

lemma holds_simps [simp]:
  "\<not> holds_operation Idle" "\<not> holds_operation (Checked w)" "holds_operation (OpsCounted w)"
  "holds_operation (Counted w)" "holds_operation (Admitted w)" "holds_operation (Rollback w)"
  "holds_operation Closing"
  "\<not> holds_write Idle" "\<not> holds_write (Checked w)" "\<not> holds_write (OpsCounted w)"
  "holds_write (Counted w) = w" "holds_write (Admitted w) = w" "holds_write (Rollback w) = w"
  "\<not> holds_write Closing"
  by (auto simp: holds_operation_def holds_write_def)

lemma begin_start_holds [simp]:
  "\<not> holds_operation (begin_start w g)" "\<not> holds_write (begin_start w g)"
  by (auto simp: begin_start_def)

text \<open>The operations that hold the transition lock leave the counters alone.\<close>

lemma locked_counters [simp]:
  "active_operations (gate_set m g) = active_operations g"
  "active_writes (gate_set m g) = active_writes g"
  by (auto simp: gate_set_def Let_def)

lemma begin_counters:
  "try_begin_mode m g = (r, g') \<Longrightarrow>
     active_operations g' = active_operations g \<and> active_writes g' = active_writes g"
  by (auto simp: try_begin_mode_def compare_exchange_mode_def Let_def split: if_splits)

lemma lease_counters:
  "restore_to m l g = (l', g') \<Longrightarrow>
     active_operations g' = active_operations g \<and> active_writes g' = active_writes g"
  "drop_lease l g = (l', g') \<Longrightarrow>
     active_operations g' = active_operations g \<and> active_writes g' = active_writes g"
  by (auto simp: restore_to_def drop_lease_def split: if_splits)

lemma try_begin_mode_result:
  "try_begin_mode m g =
     (if maintenance_active g \<or> (gate_mode g = Offline \<and> m \<noteq> Offline) then (None, g)
      else (Some \<lparr>previous = gate_mode g, released = False, token_active = True\<rparr>,
            g\<lparr>gate_mode := m, maintenance_active := True\<rparr>))"
  by (auto simp: try_begin_mode_def compare_exchange_mode_def Let_def)

lemma advance_locked:
  "advance p g = (p', g') \<Longrightarrow>
     gate_mode g' = gate_mode g \<and> maintenance_active g' = maintenance_active g"
  by (cases p) (auto split: if_splits)

lemma counters_step:
  assumes "gate_step s t" "counters_ok s"
  shows "counters_ok t"
  using assms(1)
proof cases
  case (adv i p g)
  then show ?thesis using assms(2)
    by (cases "sys_threads s ! i") (auto simp: counters_ok_def tally_update split: if_splits)
qed (use assms(2) in \<open>auto simp: counters_ok_def tally_update dest: begin_counters lease_counters\<close>)

lemma lease_token_step:
  assumes "\<forall>ld \<in> set xs. token_active (fst ld) \<longrightarrow> lease_held ld" "\<not> token_active (fst y)"
  shows "\<forall>ld \<in> set (xs[k := y]). token_active (fst ld) \<longrightarrow> lease_held ld"
  using assms by (auto dest!: subsetD [OF set_update_subset_insert])

lemma leases_step:
  assumes "gate_step s t" "leases_ok s"
  shows "leases_ok t"
  using assms(1)
proof cases
  case (adv i p g)
  then show ?thesis using assms(2) advance_locked [OF adv(3)] by (simp add: leases_ok_def)
next
  case (begin_lease m l g)
  then show ?thesis using assms(2)
    by (auto simp: leases_ok_def try_begin_mode_result lease_held_def split: if_splits)
next
  case (begin_refused m g)
  then show ?thesis using assms(2) by (auto simp: leases_ok_def try_begin_mode_result split: if_splits)
next
  case (restore k m l g)
  have held: "0 < tally lease_held (sys_leases s)"
    using restore nth_mem tally_zero [of lease_held "sys_leases s"]
    by (metis of_nat_0_le_iff order_less_le tally_def)
  have "\<forall>ld \<in> set (sys_leases t). token_active (fst ld) \<longrightarrow> lease_held ld"
    using assms(2) restore lease_token_step [of "sys_leases s" "(l, False)" k]
    by (auto simp: leases_ok_def restore_to_def)
  then show ?thesis using assms(2) restore held
    by (auto simp: leases_ok_def restore_to_def tally_update split: if_splits)
      (auto simp: lease_held_def)
next
  case (drop k l g)
  have "\<not> token_active l"
    using assms(2) drop nth_mem [OF drop(2)]
    by (auto simp: leases_ok_def lease_held_def drop_lease_def split: if_splits)
  then have "\<forall>ld \<in> set (sys_leases t). token_active (fst ld) \<longrightarrow> lease_held ld"
    using assms(2) drop lease_token_step [of "sys_leases s" "(l, True)" k]
    by (auto simp: leases_ok_def)
  moreover have "maintenance_active (sys_gate s)" if "\<not> released (fst (sys_leases s ! k))"
    using drop(2,3) assms(2) nth_mem [OF drop(2)] tally_zero [of lease_held "sys_leases s"] that
    by (force simp: leases_ok_def lease_held_def split: if_splits)
  ultimately show ?thesis using assms(2) drop
    by (auto simp: leases_ok_def drop_lease_def tally_update split: if_splits)
      (auto simp: lease_held_def)
qed (use assms(2) in \<open>auto simp: leases_ok_def gate_set_def Let_def\<close>)

interpretation counters: inductive_invariant "\<lambda>s. s = sys_new" gate_step counters_ok
proof unfold_locales
  show "s = sys_new \<Longrightarrow> counters_ok s" for s
    by (simp add: sys_new_def gate_new_def counters_ok_def)
  show "counters_ok s \<Longrightarrow> gate_step s t \<Longrightarrow> counters_ok t" for s t by (rule counters_step)
qed

interpretation leases: inductive_invariant "\<lambda>s. s = sys_new" gate_step leases_ok
proof unfold_locales
  show "s = sys_new \<Longrightarrow> leases_ok s" for s
    by (simp add: sys_new_def gate_new_def leases_ok_def)
  show "leases_ok s \<Longrightarrow> gate_step s t \<Longrightarrow> leases_ok t" for s t by (rule leases_step)
qed

lemma reachable_counters: "gate_reachable s \<Longrightarrow> counters_ok s"
  unfolding gate_reachable_def by (rule counters.inv_reachable) (rule refl)

lemma reachable_leases: "gate_reachable s \<Longrightarrow> leases_ok s"
  unfolding gate_reachable_def by (rule leases.inv_reachable) (rule refl)

lemma step_admits:
  assumes "gate_step s t" "Admitted w \<in> set (sys_threads t)" "Admitted w \<notin> set (sys_threads s)"
  shows "allowed w (gate_mode (sys_gate s))"
  using assms(1)
proof cases
  case (start i w')
  then show ?thesis using assms(2,3)
    by (auto simp: begin_start_def split: if_splits dest!: subsetD [OF set_update_subset_insert])
next
  case (adv i p g)
  then have "p = Admitted w"
    using assms(2,3) by (auto dest!: subsetD [OF set_update_subset_insert])
  then show ?thesis using adv by (cases "sys_threads s ! i") (auto split: if_splits)
qed (use assms(2,3) in auto)

lemma run_while_P: "run_while P s t \<Longrightarrow> P s \<and> P t"
  by (induction rule: run_while.induct) auto

lemma run_while_no_admission:
  assumes "run_while (\<lambda>s. \<not> allowed w (gate_mode (sys_gate s))) s t"
    and "Admitted w \<notin> set (sys_threads s)"
  shows "Admitted w \<notin> set (sys_threads t)"
  using assms
proof (induction rule: run_while.induct)
  case (more t u)
  then show ?case using step_admits run_while_P by blast
qed

lemma drained_not_admitted:
  assumes "counters_ok s" "is_drained (sys_gate s)"
  shows "Admitted w \<notin> set (sys_threads s)"
  using assms tally_zero [of holds_operation "sys_threads s"]
  by (auto simp: counters_ok_def is_drained_def)

lemma run_while_mono: "run_while P s t \<Longrightarrow> (\<And>u. P u \<Longrightarrow> Q u) \<Longrightarrow> run_while Q s t"
  by (induction rule: run_while.induct) (auto intro: run_while.intros)

lemma run_while_reachable:
  "run_while P s t \<Longrightarrow> gate_reachable s \<Longrightarrow> run_while (\<lambda>u. P u \<and> gate_reachable u) s t"
proof (induction rule: run_while.induct)
  case (more s t u)
  then have "gate_reachable t" using run_while_P by blast
  with more show ?case
    by (auto simp: gate_reachable_def intro: run_while.more rtranclp.rtrancl_into_rtrancl)
qed (simp add: run_while.here)

lemma offline_race_reachable: "gate_reachable offline_race"
proof -
  let ?s1 = "sys_new\<lparr>sys_threads := [Idle]\<rparr>" and ?s2 = "sys_new\<lparr>sys_threads := [Checked True]\<rparr>"
  have 1: "gate_step sys_new ?s1" using gate_step.spawn [of sys_new] by (simp add: sys_new_def)
  have 2: "gate_step ?s1 ?s2"
    using gate_step.start [of 0 ?s1 True]
    by (simp add: sys_new_def begin_start_def allowed_def mode_allows_write_def gate_new_def)
  have 3: "gate_step ?s2 offline_race"
    using gate_step.begin_lease [of Offline ?s2]
    by (simp add: sys_new_def offline_race_def gate_new_def try_begin_mode_result)
  show ?thesis unfolding gate_reachable_def using 1 2 3
    by (meson rtranclp.rtrancl_into_rtrancl rtranclp.rtrancl_refl)
qed

lemma offline_race_step: "gate_step offline_race offline_race_counted"
  using gate_step.adv [of 0 offline_race]
  by (simp add: offline_race_def offline_race_counted_def)

lemma offline_race_run:
  "P offline_race \<Longrightarrow> P offline_race_counted \<Longrightarrow> run_while P offline_race offline_race_counted"
  using offline_race_step by (blast intro: run_while.intros)

section \<open>Properties\<close>

text \<open>
  C5: Offline maintenance excludes data-plane work. Once the mode is Offline and the counters have
  drained, then for as long as the mode stays Offline, whatever the interleaving of starting,
  finishing and backing-out operations, no operation is admitted, although some may be counted
  while they back out.
\<close>

theorem offline_drained_excludes_operations:
  assumes "gate_reachable s" "is_drained (sys_gate s)"
    and "run_while (\<lambda>s. gate_mode (sys_gate s) = Offline) s t"
  shows "Admitted w \<notin> set (sys_threads t)"
proof (rule run_while_no_admission)
  show "run_while (\<lambda>s. \<not> allowed w (gate_mode (sys_gate s))) s t"
    using assms(3)
    by (rule run_while_mono) (auto simp: allowed_def mode_allows_read_def mode_allows_write_def)
  show "Admitted w \<notin> set (sys_threads s)"
    using reachable_counters [OF assms(1)] assms(2) by (rule drained_not_admitted)
qed

theorem offline_drained_witness:
  "active_operations (sys_gate offline_race_counted) = 1 \<and> Admitted True \<notin> set (sys_threads offline_race_counted)"
  by (rule conjI, simp add: offline_race_counted_def,
      rule offline_drained_excludes_operations [OF offline_race_reachable])
    (intro offline_race_run | simp add: is_drained_def offline_race_def offline_race_counted_def)+

text \<open>
  C6: maintenance ownership is exclusive. In every reachable state at most one lease is held, one
  is held exactly when \<open>maintenance_active\<close> is set, while it is held the mode is not Normal, and a
  permit token that is valid belongs to a held lease and proves that no operation is admitted.
\<close>

theorem maintenance_ownership:
  assumes "gate_reachable s"
  shows "tally lease_held (sys_leases s) = (if maintenance_active (sys_gate s) then 1 else 0) \<and>
    (maintenance_active (sys_gate s) \<longrightarrow> \<not> allowed True (gate_mode (sys_gate s))) \<and>
    (\<forall>ld \<in> set (sys_leases s). token_is_valid (fst ld) (sys_gate s) \<longrightarrow>
       lease_held ld \<and> (\<forall>w. Admitted w \<notin> set (sys_threads s)))"
  using reachable_leases [OF assms] drained_not_admitted [OF reachable_counters [OF assms]]
  by (auto simp: leases_ok_def allowed_def mode_allows_write_def token_is_valid_def is_drained_def)

theorem maintenance_ownership_witness:
  "tally lease_held (sys_leases offline_race) = 1 \<and>
   \<not> allowed True (gate_mode (sys_gate offline_race))"
  using maintenance_ownership [OF offline_race_reachable] by (simp add: offline_race_def)

text \<open>
  While a lease is held no new write is admitted, and once the writes have drained none is
  running: the protocol of a backup, which holds a ReadOnly lease and waits for the writes.
\<close>

theorem lease_excludes_writes:
  assumes "gate_reachable s" "active_writes (sys_gate s) = 0"
    and "run_while (\<lambda>s. maintenance_active (sys_gate s)) s t"
  shows "Admitted True \<notin> set (sys_threads t)"
proof (rule run_while_no_admission)
  show "run_while (\<lambda>s. \<not> allowed True (gate_mode (sys_gate s))) s t"
    using run_while_reachable [OF assms(3,1)]
    by (rule run_while_mono)
      (auto simp: allowed_def mode_allows_write_def leases_ok_def dest!: reachable_leases)
  show "Admitted True \<notin> set (sys_threads s)"
    using reachable_counters [OF assms(1)] assms(2) tally_zero [of holds_write "sys_threads s"]
    by (auto simp: counters_ok_def)
qed

theorem lease_excludes_writes_witness:
  "Admitted True \<notin> set (sys_threads offline_race_counted)"
  by (rule lease_excludes_writes [OF offline_race_reachable])
    (intro offline_race_run | simp add: offline_race_def offline_race_counted_def)+

text \<open>
  run without interference the interleaved phases compute \<open>try_start\<close>: an operation is admitted
  exactly when the mode allows it, a refused one leaves the gate as it was, and dropping the guard
  undoes the admission.
\<close>

lemma try_start_correct:
  "try_start w g =
     (if allowed w (gate_mode g)
      then (Some w, g\<lparr>active_operations := active_operations g + 1,
                      active_writes := active_writes g + (if w then 1 else 0)\<rparr>)
      else (None, g)) \<and>
   (allowed w (gate_mode g) \<longrightarrow>
      (let (p1, g1) = advance (begin_start w g) g; (p2, g2) = advance p1 g1; (p3, g3) = advance p2 g2
       in p3 = Admitted w \<and> try_start w g = (Some w, g3) \<and> drop_guard w g3 = g \<and>
          (let (p4, g4) = advance p3 g3; (p5, g5) = advance p4 g4 in p5 = Idle \<and> g5 = g)))"
  by (cases w) (simp_all add: try_start_def begin_start_def drop_guard_def Let_def)

end
