(* ===== verification/Patch.thy ===== *)
theory Patch
  imports Vault_Prelude
begin

text \<open>
  Exact text edits (crates/vault-core/src/patch.rs): unified diffs and heading sections, over UTF-8
  bytes. The line splitting, whitespace splitting and integer parsing of the Rust standard library
  that the code calls come first. \<open>splice_hunks\<close> is the reference: what a list of structured hunks
  does to a list of lines, without cursors and counters.
\<close>

section \<open>Standard library\<close>

abbreviation newline :: char where
  "newline \<equiv> CHR 0x0A"

abbreviation carriage_return :: char where
  "carriage_return \<equiv> CHR 0x0D"

definition chomp_line :: "string \<Rightarrow> string" where
  "chomp_line l =
     (case strip_suffix [newline] l of None \<Rightarrow> l
      | Some t \<Rightarrow> (case strip_suffix [carriage_return] t of None \<Rightarrow> t | Some u \<Rightarrow> u))"

definition rust_lines :: "string \<Rightarrow> string list" where
  \<comment> \<open>\<open>str::lines\<close>\<close>
  "rust_lines s = map chomp_line (split_inclusive newline s)"

definition bytes_at :: "nat list \<Rightarrow> string \<Rightarrow> bool" where
  "bytes_at bs s \<longleftrightarrow> take (length bs) (map byte_of s) = bs"

definition white_space_len :: "string \<Rightarrow> nat" where
  \<comment> \<open>bytes of the Unicode \<open>White_Space\<close> character at the start of the string, 0 if there is none\<close>
  "white_space_len s =
     (case s of [] \<Rightarrow> 0
      | c # _ \<Rightarrow>
        if (9 \<le> byte_of c \<and> byte_of c \<le> 13) \<or> byte_of c = 32 then 1
        else if bytes_at [0xC2, 0x85] s \<or> bytes_at [0xC2, 0xA0] s then 2
        else if bytes_at [0xE1, 0x9A, 0x80] s \<or> bytes_at [0xE2, 0x80, 0xA8] s
             \<or> bytes_at [0xE2, 0x80, 0xA9] s \<or> bytes_at [0xE2, 0x80, 0xAF] s
             \<or> bytes_at [0xE2, 0x81, 0x9F] s \<or> bytes_at [0xE3, 0x80, 0x80] s
             \<or> (\<exists>k \<in> set [0x80..<0x8B]. bytes_at [0xE2, 0x80, k] s) then 3
        else 0)"

fun split_whitespace_from :: "string \<Rightarrow> string \<Rightarrow> string list" where
  "split_whitespace_from cur [] = (if cur = [] then [] else [cur])"
| "split_whitespace_from cur (c # cs) =
     (let n = white_space_len (c # cs)
      in if n = 0 then split_whitespace_from (cur @ [c]) cs
         else (if cur = [] then [] else [cur]) @ split_whitespace_from [] (drop (n - 1) cs))"

definition split_whitespace :: "string \<Rightarrow> string list" where
  "split_whitespace s = split_whitespace_from [] s"

definition USIZE_MAX :: nat where
  "USIZE_MAX = 2 ^ 64 - 1"

fun parse_digits :: "nat \<Rightarrow> string \<Rightarrow> nat option" where
  "parse_digits acc [] = Some acc"
| "parse_digits acc (c # cs) =
     (if 48 \<le> byte_of c \<and> byte_of c \<le> 57 then
        (let v = acc * 10 + (byte_of c - 48)
         in if v > USIZE_MAX then None else parse_digits v cs)
      else None)"

definition parse_usize :: "string \<Rightarrow> nat option" where
  \<comment> \<open>\<open>str::parse::<usize>\<close>: a leading \<open>+\<close> is accepted, a bare sign or an empty string is not\<close>
  "parse_usize s =
     (case s of [] \<Rightarrow> None
      | c # cs \<Rightarrow>
          (if c = CHR ''+'' then (if cs = [] then None else parse_digits 0 cs)
           else parse_digits 0 s))"

definition split_once_at :: "char \<Rightarrow> string \<Rightarrow> string \<times> string option" where
  \<comment> \<open>\<open>splitn(2, d)\<close>: the first part and the rest, if the separator occurs\<close>
  "split_once_at d s =
     (takeWhile (\<lambda>c. c \<noteq> d) s,
      case dropWhile (\<lambda>c. c \<noteq> d) s of [] \<Rightarrow> None | _ # rest \<Rightarrow> Some rest)"

definition split_first_char :: "string \<Rightarrow> (char \<times> string) option" where
  \<comment> \<open>\<open>split_at_checked(1)\<close>: \<open>None\<close> on the empty string and inside a multi-byte character\<close>
  "split_first_char s =
     (case s of [] \<Rightarrow> None | c # cs \<Rightarrow> if byte_of c < 128 then Some (c, cs) else None)"

fun position :: "('a \<Rightarrow> bool) \<Rightarrow> 'a list \<Rightarrow> nat option" where
  "position P [] = None"
| "position P (x # xs) = (if P x then Some 0 else map_option Suc (position P xs))"

section \<open>patch.rs\<close>

datatype patch_error = InvalidPatch string

definition split_lines :: "string \<Rightarrow> string list" where
  "split_lines v = (if v = [] then [] else split_inclusive newline v)"

definition line_content :: "string \<Rightarrow> string" where
  "line_content v =
     (let without_newline = (case strip_suffix [newline] v of None \<Rightarrow> v | Some t \<Rightarrow> t)
      in case strip_suffix [carriage_return] without_newline of
           None \<Rightarrow> without_newline | Some t \<Rightarrow> t)"

definition with_newline :: "string \<Rightarrow> string" where
  "with_newline v = v @ [newline]"

definition heading_level :: "string \<Rightarrow> nat option" where
  "heading_level v =
     (let level = length (takeWhile (\<lambda>c. c = CHR ''#'') v)
      in if 1 \<le> level \<and> level \<le> 6 then Some level else None)"

definition parse_range :: "string \<Rightarrow> patch_error + nat \<times> nat" where
  "parse_range v =
     (let (first, second) = split_once_at (CHR '','') v
      in bind_r (ok_or (InvalidPatch ''hunk range start is invalid'') (parse_usize first)) (\<lambda>start.
         bind_r (case second of
             None \<Rightarrow> Ok 1
           | Some count \<Rightarrow>
               ok_or (InvalidPatch ''hunk range count is invalid'') (parse_usize count)) (\<lambda>count.
         Ok (start, count))))"

definition parse_hunk_header :: "string \<Rightarrow> patch_error + nat \<times> nat \<times> nat" where
  "parse_hunk_header line =
     (let fields = split_whitespace line
      in if length fields < 3 then Err (InvalidPatch ''hunk header is invalid'')
         else
           bind_r (ok_or (InvalidPatch ''old hunk range is invalid'')
                     (strip_prefix ''-'' (fields ! 1))) (\<lambda>old_text.
           bind_r (parse_range old_text) (\<lambda>old.
           bind_r (ok_or (InvalidPatch ''new hunk range is invalid'')
                     (strip_prefix ''+'' (fields ! 2))) (\<lambda>new_text.
           bind_r (parse_range new_text) (\<lambda>new.
           Ok (fst old, snd old, snd new))))))"

type_synonym hunk_state = "string list \<times> string list \<times> nat \<times> nat \<times> nat"
  \<comment> \<open>lines left, output, cursor, lines consumed, lines produced\<close>

fun hunk_body ::
  "string list \<Rightarrow> string list \<Rightarrow> string list \<Rightarrow> nat \<Rightarrow> nat \<Rightarrow> nat \<Rightarrow> patch_error + hunk_state" where
  "hunk_body original [] out cursor consumed produced = Ok ([], out, cursor, consumed, produced)"
| "hunk_body original (l # ls) out cursor consumed produced =
     (if prefix ''@@ '' l then Ok (l # ls, out, cursor, consumed, produced)
      else if prefix (CHR 0x5C # '' No newline'') l
        then hunk_body original ls out cursor consumed produced
      else
        (case split_first_char l of
           None \<Rightarrow> Err (InvalidPatch ''empty hunk line'')
         | Some (kind, payload) \<Rightarrow>
             if kind = CHR '' '' then
               (if length original \<le> cursor then Err (InvalidPatch ''context exceeds file'')
                else if line_content (original ! cursor) \<noteq> payload
                  then Err (InvalidPatch ''context does not match'')
                else hunk_body original ls (out @ [original ! cursor]) (cursor + 1)
                       (consumed + 1) (produced + 1))
             else if kind = CHR ''-'' then
               (if length original \<le> cursor then Err (InvalidPatch ''removal exceeds file'')
                else if line_content (original ! cursor) \<noteq> payload
                  then Err (InvalidPatch ''removal does not match'')
                else hunk_body original ls out (cursor + 1) (consumed + 1) produced)
             else if kind = CHR ''+'' then
               hunk_body original ls (out @ [with_newline payload]) cursor consumed (produced + 1)
             else Err (InvalidPatch ''unknown hunk line'')))"

lemma hunk_body_shrinks:
  "hunk_body original ls out cursor co pn = Ok (rest, out', cursor', co', pn') \<Longrightarrow>
     length rest \<le> length ls"
proof (induction ls arbitrary: out cursor co pn)
  case (Cons l ls)
  show ?case using Cons.prems
    by (auto split: if_splits option.splits dest!: Cons.IH)
qed simp

function diff_loop ::
  "string list \<Rightarrow> string list \<Rightarrow> string list \<Rightarrow> nat \<Rightarrow> bool \<Rightarrow>
     patch_error + string list \<times> nat \<times> bool" where
  "diff_loop original [] out cursor saw = Ok (out, cursor, saw)"
| "diff_loop original (l # ls) out cursor saw =
     (if prefix ''--- '' l \<or> prefix ''+++ '' l then diff_loop original ls out cursor saw
      else if \<not> prefix ''@@ '' l then diff_loop original ls out cursor saw
      else
        (case parse_hunk_header l of
           Err e \<Rightarrow> Err e
         | Ok (old_start, old_count, new_count) \<Rightarrow>
             (if old_start = 0 then Err (InvalidPatch ''hunk starts before the file'')
              else
                (let old_index = old_start - 1
                 in if old_index < cursor \<or> length original < old_index
                      then Err (InvalidPatch ''hunk offset is not exact'')
                    else
                      (case hunk_body original ls
                              (out @ take (old_index - cursor) (drop cursor original))
                              old_index 0 0 of
                         Err e \<Rightarrow> Err e
                       | Ok (rest, out', cursor', consumed, produced) \<Rightarrow>
                           (if consumed \<noteq> old_count \<or> produced \<noteq> new_count
                              then Err (InvalidPatch ''hunk line counts do not match'')
                            else diff_loop original rest out' cursor' True))))))"
  by pat_completeness auto
termination
  by (relation "measure (\<lambda>(original, ls, out, cursor, saw). length ls)")
    (auto dest: hunk_body_shrinks)

definition apply_unified_diff :: "string \<Rightarrow> string \<Rightarrow> patch_error + string" where
  "apply_unified_diff original patch =
     (let original_lines = split_lines original
      in bind_r (diff_loop original_lines (rust_lines patch) [] 0 False) (\<lambda>(out, cursor, saw_hunk).
         if \<not> saw_hunk then Err (InvalidPatch ''patch contains no hunks'')
         else Ok (concat (out @ drop cursor original_lines))))"

definition insert_after_heading :: "string \<Rightarrow> string \<Rightarrow> string \<Rightarrow> patch_error + string" where
  "insert_after_heading original heading insertion =
     (let ls = split_lines original
      in bind_r (ok_or (InvalidPatch ''heading was not found'')
                   (position (\<lambda>l. line_content l = heading) ls)) (\<lambda>index.
         Ok (concat (take (index + 1) ls @ split_lines insertion @ drop (index + 1) ls))))"

definition stops_section :: "nat \<Rightarrow> string \<Rightarrow> bool" where
  "stops_section level l =
     (case heading_level (line_content l) of None \<Rightarrow> False | Some nxt \<Rightarrow> nxt \<le> level)"

definition section_end :: "nat \<Rightarrow> nat \<Rightarrow> string list \<Rightarrow> nat" where
  "section_end level start ls =
     (case position (stops_section level) (drop (start + 1) ls) of
        None \<Rightarrow> length ls | Some i \<Rightarrow> start + 1 + i)"

definition replace_heading_section :: "string \<Rightarrow> string \<Rightarrow> string \<Rightarrow> patch_error + string" where
  "replace_heading_section original heading replacement =
     (let ls = split_lines original
      in bind_r (ok_or (InvalidPatch ''heading was not found'')
                   (position (\<lambda>l. line_content l = heading) ls)) (\<lambda>start.
         bind_r (ok_or (InvalidPatch ''heading is invalid'') (heading_level heading)) (\<lambda>level.
         Ok (concat (take (start + 1) ls @ split_lines replacement
                     @ drop (section_end level start ls) ls)))))"

section \<open>Reference: structured hunks\<close>

datatype hunk_edit = Keep string | Drop string | Add string

datatype hunk = Hunk (hunk_header: string) (hunk_edits: "hunk_edit list")

fun render_edit :: "hunk_edit \<Rightarrow> string" where
  "render_edit (Keep s) = CHR '' '' # s"
| "render_edit (Drop s) = CHR ''-'' # s"
| "render_edit (Add s) = CHR ''+'' # s"

fun render_hunk :: "hunk \<Rightarrow> string list" where
  "render_hunk (Hunk h es) = h # map render_edit es"

definition old_lines :: "hunk_edit list \<Rightarrow> nat" where
  "old_lines es = length (filter (\<lambda>e. case e of Add _ \<Rightarrow> False | _ \<Rightarrow> True) es)"

definition new_lines :: "hunk_edit list \<Rightarrow> nat" where
  "new_lines es = length (filter (\<lambda>e. case e of Drop _ \<Rightarrow> False | _ \<Rightarrow> True) es)"

definition hunk_ok :: "nat \<Rightarrow> hunk \<Rightarrow> bool" where
  \<comment> \<open>the header names the position and the counts of the edits\<close>
  "hunk_ok start h \<longleftrightarrow>
     prefix ''@@ '' (hunk_header h) \<and>
     parse_hunk_header (hunk_header h)
       = Ok (start + 1, old_lines (hunk_edits h), new_lines (hunk_edits h))"

fun splice_edits :: "hunk_edit list \<Rightarrow> string list \<Rightarrow> (string list \<times> string list) option" where
  "splice_edits [] ls = Some ([], ls)"
| "splice_edits (Add s # es) ls =
     (case splice_edits es ls of None \<Rightarrow> None | Some (new, rest) \<Rightarrow> Some (with_newline s # new, rest))"
| "splice_edits (Keep s # es) [] = None"
| "splice_edits (Keep s # es) (l # ls) =
     (if line_content l = s
      then (case splice_edits es ls of None \<Rightarrow> None | Some (new, rest) \<Rightarrow> Some (l # new, rest))
      else None)"
| "splice_edits (Drop s # es) [] = None"
| "splice_edits (Drop s # es) (l # ls) =
     (if line_content l = s then splice_edits es ls else None)"

fun splice_hunks :: "nat \<Rightarrow> (nat \<times> hunk) list \<Rightarrow> string list \<Rightarrow> string list option" where
  \<comment> \<open>\<open>pos\<close> lines were already passed; \<open>ls\<close> are the lines from there on\<close>
  "splice_hunks pos [] ls = Some ls"
| "splice_hunks pos ((start, h) # hs) ls =
     (if start < pos \<or> pos + length ls < start then None
      else
        (case splice_edits (hunk_edits h) (drop (start - pos) ls) of
           None \<Rightarrow> None
         | Some (new, rest) \<Rightarrow>
             map_option (\<lambda>tail. take (start - pos) ls @ new @ tail)
               (splice_hunks (start + old_lines (hunk_edits h)) hs rest)))"

definition terminated :: "string \<Rightarrow> bool" where
  "terminated l \<longleftrightarrow> (\<exists>t. l = t @ [newline] \<and> newline \<notin> set t)"

section \<open>Lemmas\<close>

lemma split_lines_simp [simp]: "split_lines v = split_inclusive newline v"
  by (simp add: split_lines_def)

lemma position_Some:
  "position P xs = Some i \<longleftrightarrow> i < length xs \<and> P (xs ! i) \<and> (\<forall>j < i. \<not> P (xs ! j))"
proof (induction xs arbitrary: i)
  case (Cons x xs)
  show ?case
    by (cases i) (auto simp: Cons.IH nth_Cons split: nat.splits if_splits)
qed simp

lemma position_None: "position P xs = None \<longleftrightarrow> (\<forall>x \<in> set xs. \<not> P x)"
  by (induction xs) auto

lemma count_lines_simps [simp]:
  "old_lines [] = 0" "old_lines (Add s # es) = old_lines es"
  "old_lines (Keep s # es) = Suc (old_lines es)" "old_lines (Drop s # es) = Suc (old_lines es)"
  "new_lines [] = 0" "new_lines (Add s # es) = Suc (new_lines es)"
  "new_lines (Keep s # es) = Suc (new_lines es)" "new_lines (Drop s # es) = new_lines es"
  by (simp_all add: old_lines_def new_lines_def)

lemma splice_edits_rest:
  "splice_edits es ls = Some (new, rest) \<Longrightarrow>
     rest = drop (old_lines es) ls \<and> old_lines es \<le> length ls"
  by (induction es ls arbitrary: new rest rule: splice_edits.induct)
    (auto split: option.splits if_splits)

lemma render_edit_simps [simp]:
  "\<not> prefix ''@@ '' (render_edit e)" "\<not> prefix (CHR 0x5C # t) (render_edit e)"
  by (cases e; simp)+

lemma hunk_body_edit:
  "cursor < length original \<Longrightarrow>
   hunk_body original (render_edit (Keep p) # ls) out cursor co pn =
     (if line_content (original ! cursor) = p
      then hunk_body original ls (out @ [original ! cursor]) (Suc cursor) (Suc co) (Suc pn)
      else Err (InvalidPatch ''context does not match''))"
  "cursor < length original \<Longrightarrow>
   hunk_body original (render_edit (Drop p) # ls) out cursor co pn =
     (if line_content (original ! cursor) = p
      then hunk_body original ls out (Suc cursor) (Suc co) pn
      else Err (InvalidPatch ''removal does not match''))"
  "hunk_body original (render_edit (Add p) # ls) out cursor co pn =
     hunk_body original ls (out @ [with_newline p]) cursor co (Suc pn)"
  "length original \<le> cursor \<Longrightarrow>
     \<not> is_ok (hunk_body original (render_edit (Keep p) # ls) out cursor co pn)"
  "length original \<le> cursor \<Longrightarrow>
     \<not> is_ok (hunk_body original (render_edit (Drop p) # ls) out cursor co pn)"
  by (simp_all add: split_first_char_def)

lemma hunk_body_splice:
  assumes "tail = [] \<or> prefix ''@@ '' (hd tail)"
    and "splice_edits es (drop cursor original) = Some (new, rest)"
  shows "hunk_body original (map render_edit es @ tail) out cursor co pn =
     Ok (tail, out @ new, cursor + old_lines es, co + old_lines es, pn + new_lines es)"
  using assms(2)
proof (induction es arbitrary: out cursor co pn new)
  case Nil
  then show ?case using assms(1) by (cases tail) auto
next
  case (Cons e es)
  have d: "drop cursor original = original ! cursor # drop (Suc cursor) original"
    if "cursor < length original" using that by (simp add: Cons_nth_drop_Suc)
  show ?case
  proof (cases e)
    case (Add s)
    then obtain new' where "splice_edits es (drop cursor original) = Some (new', rest)"
        "new = with_newline s # new'"
      using Cons.prems by (auto split: option.splits)
    with Add show ?thesis by (simp del: hunk_body.simps render_edit.simps
        add: hunk_body_edit Cons.IH)
  next
    case (Keep s)
    then have c: "cursor < length original" using Cons.prems
      by (cases "cursor < length original") auto
    obtain new' where "splice_edits es (drop (Suc cursor) original) = Some (new', rest)"
        "new = original ! cursor # new'" "line_content (original ! cursor) = s"
      using Cons.prems Keep d [OF c] by (auto split: option.splits if_splits)
    with Keep c show ?thesis by (simp del: hunk_body.simps render_edit.simps
        add: hunk_body_edit Cons.IH)
  next
    case (Drop s)
    then have c: "cursor < length original" using Cons.prems
      by (cases "cursor < length original") auto
    have "splice_edits es (drop (Suc cursor) original) = Some (new, rest)"
        "line_content (original ! cursor) = s"
      using Cons.prems Drop d [OF c] by (auto split: option.splits if_splits)
    with Drop c show ?thesis by (simp del: hunk_body.simps render_edit.simps
        add: hunk_body_edit Cons.IH)
  qed
qed

lemma hunk_body_no_splice:
  assumes "splice_edits es (drop cursor original) = None"
  shows "\<not> is_ok (hunk_body original (map render_edit es @ tail) out cursor co pn)"
  using assms
proof (induction es arbitrary: out cursor co pn)
  case Nil
  then show ?case by simp
next
  case (Cons e es)
  have d: "drop cursor original = original ! cursor # drop (Suc cursor) original"
    if "cursor < length original" using that by (simp add: Cons_nth_drop_Suc)
  show ?case
  proof (cases "cursor < length original")
    case True
    show ?thesis using Cons.prems d [OF True] True
      by (cases e) (simp_all del: hunk_body.simps render_edit.simps
          add: hunk_body_edit Cons.IH split: option.splits prod.splits if_splits)
  next
    case False
    show ?thesis using Cons.prems False
      by (cases e) (simp_all del: hunk_body.simps render_edit.simps
          add: hunk_body_edit Cons.IH split: option.splits prod.splits)
  qed
qed

lemma diff_loop_hunk:
  assumes "hunk_ok start h" "cursor \<le> start" "start \<le> length original"
  shows "diff_loop original (render_hunk h @ tail) out cursor saw =
    (case hunk_body original (map render_edit (hunk_edits h) @ tail)
            (out @ take (start - cursor) (drop cursor original)) start 0 0 of
       Err e \<Rightarrow> Err e
     | Ok (rest, out', cursor', consumed, produced) \<Rightarrow>
         (if consumed \<noteq> old_lines (hunk_edits h) \<or> produced \<noteq> new_lines (hunk_edits h)
            then Err (InvalidPatch ''hunk line counts do not match'')
          else diff_loop original rest out' cursor' True))"
proof -
  have "\<not> prefix ''--- '' (hunk_header h)" "\<not> prefix ''+++ '' (hunk_header h)"
    using assms(1) by (auto simp: hunk_ok_def prefix_def)
  moreover obtain hd es where h: "h = Hunk hd es" by (cases h)
  ultimately show ?thesis using assms unfolding h hunk.sel by (simp add: hunk_ok_def Let_def)
qed

lemma render_hunks_head:
  assumes "\<forall>(start, h) \<in> set hs. hunk_ok start h"
  shows "concat (map (\<lambda>sh. render_hunk (snd sh)) hs) = [] \<or>
         prefix ''@@ '' (hd (concat (map (\<lambda>sh. render_hunk (snd sh)) hs)))"
proof (cases hs)
  case (Cons a list)
  obtain st h' es where "a = (st, Hunk h' es)" by (cases a; cases "snd a") auto
  then show ?thesis using assms Cons by (auto simp: hunk_ok_def)
qed simp

lemma diff_loop_splice:
  assumes "\<forall>(start, h) \<in> set hs. hunk_ok start h" "cursor \<le> length original"
    and "splice_hunks cursor hs (drop cursor original) = Some res"
  shows "\<exists>out' cursor'.
     diff_loop original (concat (map (\<lambda>sh. render_hunk (snd sh)) hs)) out cursor saw
       = Ok (out', cursor', saw \<or> hs \<noteq> []) \<and>
     out' @ drop cursor' original = out @ res"
  using assms
proof (induction hs arbitrary: out cursor saw res)
  case Nil
  then show ?case by auto
next
  case (Cons sh hs)
  obtain start h where sh: "sh = (start, h)" by (cases sh)
  let ?es = "hunk_edits h" and ?tail = "concat (map (\<lambda>sh. render_hunk (snd sh)) hs)"
  have ok: "hunk_ok start h" "\<forall>(start, h) \<in> set hs. hunk_ok start h" using Cons.prems(1) sh by auto
  have rng: "cursor \<le> start" "start \<le> length original"
    using Cons.prems(2,3) sh by (auto split: if_splits)
  obtain new tail' where new: "splice_edits ?es (drop start original)
        = Some (new, drop (old_lines ?es) (drop start original))"
      "splice_hunks (start + old_lines ?es) hs (drop (old_lines ?es) (drop start original))
        = Some tail'"
      "res = take (start - cursor) (drop cursor original) @ new @ tail'"
      "start + old_lines ?es \<le> length original"
    using Cons.prems(3) sh rng splice_edits_rest
    by (fastforce split: if_splits option.splits prod.splits)
  have body: "hunk_body original (map render_edit ?es @ ?tail) out2 start 0 0 =
      Ok (?tail, out2 @ new, start + old_lines ?es, old_lines ?es, new_lines ?es)" for out2
    using hunk_body_splice [OF render_hunks_head [OF ok(2)] new(1)] by simp
  show ?case
    using Cons.IH [OF ok(2) new(4), of tail'
        "out @ take (start - cursor) (drop cursor original) @ new" True] new(2,3)
    by (simp add: sh diff_loop_hunk [OF ok(1) rng] body add.commute)
qed

lemma diff_loop_no_splice:
  assumes "\<forall>(start, h) \<in> set hs. hunk_ok start h" "cursor \<le> length original"
    and "splice_hunks cursor hs (drop cursor original) = None"
  shows "\<not> is_ok (diff_loop original (concat (map (\<lambda>sh. render_hunk (snd sh)) hs)) out cursor saw)"
  using assms
proof (induction hs arbitrary: out cursor saw)
  case Nil
  then show ?case by simp
next
  case (Cons sh hs)
  obtain start h where sh: "sh = (start, h)" by (cases sh)
  let ?es = "hunk_edits h" and ?tail = "concat (map (\<lambda>sh. render_hunk (snd sh)) hs)"
  have ok: "hunk_ok start h" "\<forall>(start, h) \<in> set hs. hunk_ok start h" using Cons.prems(1) sh by auto
  show ?case
  proof (cases "cursor \<le> start \<and> start \<le> length original")
    case False
    have "\<not> prefix ''--- '' (hunk_header h)" "\<not> prefix ''+++ '' (hunk_header h)"
      using ok(1) by (auto simp: hunk_ok_def prefix_def)
    then show ?thesis using ok(1) False Cons.prems(2) by (cases h) (auto simp: sh hunk_ok_def)
  next
    case True
    then have rng: "cursor \<le> start" "start \<le> length original" by auto
    note step = diff_loop_hunk [OF ok(1) rng]
    show ?thesis
    proof (cases "splice_edits ?es (drop start original)")
      case None
      note bad = hunk_body_no_splice [OF None]
      show ?thesis unfolding sh
        using bad [of ?tail "out @ take (start - cursor) (drop cursor original)" 0 0]
        by (auto simp: step is_ok_iff split: sum.splits)
    next
      case (Some nr)
      then obtain new where new: "splice_edits ?es (drop start original)
            = Some (new, drop (old_lines ?es) (drop start original))"
          "start + old_lines ?es \<le> length original"
        using splice_edits_rest rng by (cases nr) fastforce
      have body: "hunk_body original (map render_edit ?es @ ?tail) out2 start 0 0 =
          Ok (?tail, out2 @ new, start + old_lines ?es, old_lines ?es, new_lines ?es)" for out2
        using hunk_body_splice [OF render_hunks_head [OF ok(2)] new(1)] by simp
      have "splice_hunks (start + old_lines ?es) hs (drop (start + old_lines ?es) original) = None"
        using Cons.prems(2,3) rng new sh by (simp add: add.commute)
      from Cons.IH [OF ok(2) new(2) this] show ?thesis
        by (simp add: sh step body)
    qed
  qed
qed

text \<open>Lines survive concatenation as long as each but the last ends with a newline.\<close>

lemma split_inclusive_line:
  "d \<notin> set t \<Longrightarrow> split_inclusive d (t @ d # rest) = (t @ [d]) # split_inclusive d rest"
  by (induction t) auto

lemma split_inclusive_terminated:
  "\<forall>l \<in> set ls. terminated l \<Longrightarrow>
     split_inclusive newline (concat ls @ rest) = ls @ split_inclusive newline rest"
  by (induction ls) (auto simp: terminated_def split_inclusive_line)

lemma split_inclusive_pieces:
  "l \<in> set (butlast (split_inclusive newline s)) \<Longrightarrow> terminated l"
proof (induction s arbitrary: l)
  case (Cons c s)
  show ?case
  proof (cases "split_inclusive newline s")
    case Nil
    then show ?thesis using Cons.prems by (auto split: if_splits)
  next
    case (Cons a as)
    note ne = Cons
    have IH: "\<And>l. l \<in> set (butlast (a # as)) \<Longrightarrow> terminated l" using Cons.IH ne by simp
    show ?thesis
    proof (cases "c = newline")
      case True
      then have "l = [newline] \<or> l \<in> set (butlast (a # as))" using Cons.prems ne by auto
      then show ?thesis using IH by (auto simp: terminated_def intro: exI [of _ "[]"])
    next
      case False
      have "as \<noteq> [] \<Longrightarrow> terminated (c # a)"
        using IH [of a] False by (auto simp: terminated_def intro: exI [of _ "c # t" for t])
      then show ?thesis using Cons.prems ne False IH by (cases as) auto
    qed
  qed
qed simp

lemma split_inclusive_drop:
  "split_inclusive newline (concat (drop k (split_inclusive newline s)))
     = drop k (split_inclusive newline s)"
proof (cases "k < length (split_inclusive newline s)")
  case True
  let ?ls = "split_inclusive newline s"
  have "\<forall>l \<in> set (take k ?ls). terminated l"
  proof
    fix l assume "l \<in> set (take k ?ls)"
    then have "l \<in> set (butlast ?ls)"
      using True by (metis in_set_takeD take_butlast)
    then show "terminated l" by (rule split_inclusive_pieces)
  qed
  then have "split_inclusive newline (concat (take k ?ls) @ concat (drop k ?ls))
      = take k ?ls @ split_inclusive newline (concat (drop k ?ls))"
    by (rule split_inclusive_terminated)
  moreover have "concat (take k ?ls) @ concat (drop k ?ls) = s"
    by (metis append_take_drop_id concat_append concat_split_inclusive)
  ultimately show ?thesis by (metis append_take_drop_id same_append_eq)
qed simp

lemma split_inclusive_last:
  "split_inclusive d s \<noteq> [] \<Longrightarrow> d \<notin> set (butlast (last (split_inclusive d s)))"
proof (induction s)
  case (Cons c s)
  show ?case
  proof (cases "split_inclusive d s")
    case Nil
    then show ?thesis by simp
  next
    case (Cons a as)
    have "a \<noteq> []" using split_inclusive_nonempty [of d s] Cons by auto
    then show ?thesis using Cons.IH Cons by auto
  qed
qed simp

lemma split_inclusive_all_terminated:
  "s = [] \<or> last s = newline \<Longrightarrow> \<forall>l \<in> set (split_inclusive newline s). terminated l"
proof (induction s rule: rev_induct)
  case (snoc c s)
  then have c: "c = newline" by simp
  show ?case
  proof (cases "split_inclusive newline (s @ [c])" rule: rev_cases)
    case (snoc ls l)
    have "concat (ls @ [l]) = s @ [newline]"
      using snoc c by (metis concat_split_inclusive)
    moreover have "l \<noteq> []"
      using snoc split_inclusive_nonempty [of newline "s @ [c]"] by auto
    ultimately have "last l = newline" by (metis append_is_Nil_conv concat.simps concat_append
          last_appendR last_snoc append_Nil2)
    moreover have "newline \<notin> set (butlast l)"
      using split_inclusive_last [of newline "s @ [c]"] snoc by auto
    ultimately have "terminated l" using \<open>l \<noteq> []\<close>
      by (metis append_butlast_last_id terminated_def)
    then show ?thesis using snoc split_inclusive_pieces [of _ "s @ [c]"] by auto
  qed simp
qed simp

lemma position_append:
  "\<forall>x \<in> set xs. \<not> P x \<Longrightarrow>
     position P (xs @ ys) = map_option (\<lambda>i. length xs + i) (position P ys)"
  by (cases "position P ys"; induction xs) auto

lemma position_split:
  "position P xs = Some i \<longleftrightarrow>
     (\<exists>pre x post. xs = pre @ x # post \<and> length pre = i \<and> P x \<and> (\<forall>y \<in> set pre. \<not> P y))"
proof
  assume "position P xs = Some i"
  then have "i < length xs" "P (xs ! i)" "\<forall>j < i. \<not> P (xs ! j)" by (simp_all add: position_Some)
  then have "xs = take i xs @ xs ! i # drop (Suc i) xs \<and> length (take i xs) = i \<and> P (xs ! i) \<and>
      (\<forall>y \<in> set (take i xs). \<not> P y)"
    by (auto simp: id_take_nth_drop in_set_conv_nth)
  then show "\<exists>pre x post. xs = pre @ x # post \<and> length pre = i \<and> P x \<and> (\<forall>y \<in> set pre. \<not> P y)"
    by blast
qed (auto simp: position_append)

lemma section_end_append:
  assumes "\<forall>l \<in> set body. \<not> stops_section level l"
    and "rest = [] \<or> stops_section level (hd rest)" and "length pre = start"
  shows "section_end level start (pre @ h # body @ rest) = length pre + 1 + length body"
proof -
  have "position (stops_section level) rest = (if rest = [] then None else Some 0)"
    using assms(2) by (cases rest) auto
  moreover have "position (stops_section level) (body @ rest) =
      map_option (\<lambda>i. length body + i) (position (stops_section level) rest)"
    using assms(1) by (rule position_append)
  ultimately show ?thesis using assms(3)
    by (simp add: section_end_def)
qed

lemma section_split:
  obtains body rest where "ls = body @ rest" "\<forall>l \<in> set body. \<not> stops_section level l"
    "rest = [] \<or> stops_section level (hd rest)"
proof -
  have "ls = takeWhile (\<lambda>l. \<not> stops_section level l) ls @ dropWhile (\<lambda>l. \<not> stops_section level l) ls"
    by simp
  moreover have "\<forall>l \<in> set (takeWhile (\<lambda>l. \<not> stops_section level l) ls). \<not> stops_section level l"
    by (auto dest: set_takeWhileD)
  ultimately show thesis using that hd_dropWhile by blast
qed

lemma replace_heading_section_split:
  assumes "split_lines original = pre @ l # body @ rest" "line_content l = heading"
    and "\<forall>y \<in> set pre. line_content y \<noteq> heading" "heading_level heading = Some level"
    and "\<forall>x \<in> set body. \<not> stops_section level x" "rest = [] \<or> stops_section level (hd rest)"
  shows "replace_heading_section original heading replacement =
     Ok (concat pre @ l @ replacement @ concat rest)"
proof -
  have "position (\<lambda>l. line_content l = heading) (split_lines original) = Some (length pre)"
    using assms(1-3) by (auto simp: position_append)
  moreover have "section_end level (length pre) (pre @ l # body @ rest)
      = length pre + 1 + length body"
    using assms(5,6) by (rule section_end_append) simp
  ultimately show ?thesis using assms(1,4) by (simp add: replace_heading_section_def)
qed

lemmas patch_eval = Let_def strip_prefix_def rust_lines_def chomp_line_def strip_suffix_def suffix_def prefix_def
  split_whitespace_def white_space_len_def bytes_at_def parse_hunk_header_def parse_range_def
  split_once_at_def parse_usize_def USIZE_MAX_def split_first_char_def line_content_def
  with_newline_def heading_level_def stops_section_def section_end_def

section \<open>Properties\<close>

text \<open>
  C40: \<open>apply_unified_diff\<close> implements exact patching. For a patch whose lines render a non-empty list
  of hunks, each with a header that states its position and counts, the cursor-and-counter loop
  computes the reference \<open>splice_hunks\<close>: it succeeds exactly when every kept and dropped line is
  found at its stated place, and then the text outside the hunks is unchanged byte for byte.
\<close>

theorem apply_unified_diff_exact:
  assumes "rust_lines patch = concat (map (\<lambda>sh. render_hunk (snd sh)) hs)" "hs \<noteq> []"
    and "\<forall>(start, h) \<in> set hs. hunk_ok start h"
  shows "case splice_hunks 0 hs (split_lines original) of
           Some out \<Rightarrow> apply_unified_diff original patch = Ok (concat out)
         | None \<Rightarrow> \<not> is_ok (apply_unified_diff original patch)"
proof (cases "splice_hunks 0 hs (split_lines original)")
  case None
  then show ?thesis
    using diff_loop_no_splice [OF assms(3), of 0 "split_lines original" "[]" False] assms(1)
    by (auto simp: apply_unified_diff_def Let_def is_ok_iff bind_r_Ok_conv)
next
  case (Some out)
  then obtain out' cursor' where
    "diff_loop (split_lines original) (rust_lines patch) [] 0 False = Ok (out', cursor', True)"
    "out' @ drop cursor' (split_lines original) = out"
    using diff_loop_splice [OF assms(3), of 0 "split_lines original" out "[]" False] assms(1,2)
    by auto
  then show ?thesis using Some by (auto simp: apply_unified_diff_def Let_def)
qed

theorem apply_unified_diff_exact_witness:
  "apply_unified_diff (''a'' @ [newline] @ ''b'' @ [newline])
     (''@@ -2,1 +2,1 @@'' @ [newline] @ ''-b'' @ [newline] @ ''+c'' @ [newline])
   = Ok (''a'' @ [newline] @ ''c'' @ [newline])"
proof -
  let ?hs = "[(1, Hunk ''@@ -2,1 +2,1 @@'' [Drop ''b'', Add ''c''])]"
  have "rust_lines (''@@ -2,1 +2,1 @@'' @ [newline] @ ''-b'' @ [newline] @ ''+c'' @ [newline])
      = concat (map (\<lambda>sh. render_hunk (snd sh)) ?hs)" by (simp add: patch_eval)
  moreover have "parse_hunk_header ''@@ -2,1 +2,1 @@'' = Ok (2, 1, 1)" by (simp add: patch_eval)
  then have "\<forall>(start, h) \<in> set ?hs. hunk_ok start h" by (simp add: hunk_ok_def numeral_2_eq_2)
  ultimately show ?thesis
    using apply_unified_diff_exact [of "''@@ -2,1 +2,1 @@'' @ [newline] @ ''-b'' @ [newline] @ ''+c'' @ [newline]"
        ?hs "''a'' @ [newline] @ ''b'' @ [newline]"]
    by (simp add: patch_eval)
qed

text \<open>
  \<open>insert_after_heading\<close> succeeds exactly when some line is the heading, and then the result is
  the original text with the insertion right after the first such line, nothing else changed.
\<close>

lemma insert_after_heading_spec:
  "insert_after_heading original heading insertion = Ok result \<longleftrightarrow>
     (\<exists>pre l post. split_lines original = pre @ l # post \<and> line_content l = heading \<and>
        (\<forall>y \<in> set pre. line_content y \<noteq> heading) \<and>
        result = concat pre @ l @ insertion @ concat post)"
proof
  assume "insert_after_heading original heading insertion = Ok result"
  then obtain index where
      pos: "position (\<lambda>l. line_content l = heading) (split_lines original) = Some index" and
      res: "result = concat (take (index + 1) (split_lines original) @ split_lines insertion
                       @ drop (index + 1) (split_lines original))"
    unfolding insert_after_heading_def Let_def bind_r_Ok_conv ok_or_Ok_conv by blast
  from pos obtain pre l post where sp: "split_lines original = pre @ l # post" "length pre = index"
      "line_content l = heading" "\<forall>y \<in> set pre. line_content y \<noteq> heading"
    unfolding position_split by blast
  have "result = concat pre @ l @ insertion @ concat post"
    unfolding res sp(1) sp(2) [symmetric] by simp
  with sp show "\<exists>pre l post. split_lines original = pre @ l # post \<and> line_content l = heading \<and>
      (\<forall>y \<in> set pre. line_content y \<noteq> heading) \<and> result = concat pre @ l @ insertion @ concat post"
    by blast
next
  assume "\<exists>pre l post. split_lines original = pre @ l # post \<and> line_content l = heading \<and>
      (\<forall>y \<in> set pre. line_content y \<noteq> heading) \<and> result = concat pre @ l @ insertion @ concat post"
  then obtain pre l post where sp: "split_lines original = pre @ l # post"
      "line_content l = heading" "\<forall>y \<in> set pre. line_content y \<noteq> heading"
      "result = concat pre @ l @ insertion @ concat post" by blast
  then have "position (\<lambda>l. line_content l = heading) (split_lines original) = Some (length pre)"
    unfolding position_split by blast
  with sp show "insert_after_heading original heading insertion = Ok result"
    unfolding insert_after_heading_def Let_def by simp
qed

theorem insert_after_heading_witness:
  "insert_after_heading (''# A'' @ [newline] @ ''x'') ''# A'' (''y'' @ [newline])
     = Ok (''# A'' @ [newline] @ ''y'' @ [newline] @ ''x'')"
  unfolding insert_after_heading_spec
  by (rule exI [of _ "[]"], rule exI [of _ "''# A'' @ [newline]"], rule exI [of _ "[''x'']"])
    (simp add: patch_eval)

text \<open>
  Replacing a heading section is last-writer-wins: if the first replacement contains no heading
  of the same or a higher level and ends with a newline, and the heading line does too, then
  replacing again gives what the second replacement alone gives on the original text.
\<close>

theorem replace_heading_section_absorbs:
  assumes "replace_heading_section original heading r1 = Ok text1"
    and "heading_level heading = Some level"
    and "\<forall>l \<in> set (split_lines r1). \<not> stops_section level l \<and> line_content l \<noteq> heading"
    and "r1 = [] \<or> last r1 = newline"
    and "\<forall>l \<in> set (split_lines original). line_content l = heading \<longrightarrow> terminated l"
  shows "replace_heading_section text1 heading r2 = replace_heading_section original heading r2"
proof -
  obtain pre l post where sp: "split_lines original = pre @ l # post" "line_content l = heading"
      "\<forall>y \<in> set pre. line_content y \<noteq> heading"
    using assms(1) by (auto simp: replace_heading_section_def Let_def bind_r_Ok_conv position_split)
  obtain body rest where br: "post = body @ rest" "\<forall>x \<in> set body. \<not> stops_section level x"
      "rest = [] \<or> stops_section level (hd rest)"
    by (rule section_split)
  note direct = replace_heading_section_split [OF sp(1) [unfolded br(1)] sp(2,3) assms(2) br(2,3)]
  have text1: "text1 = concat (pre @ l # split_lines r1) @ concat rest"
    using assms(1) direct [of r1] by simp
  have "terminated x" if "x \<in> set pre" for x
    using that sp(1) by (intro split_inclusive_pieces [of _ original]) (simp add: butlast_append)
  then have "\<forall>x \<in> set (pre @ l # split_lines r1). terminated x"
    using assms(4,5) sp(1,2) split_inclusive_all_terminated by auto
  then have "split_lines text1 = (pre @ l # split_lines r1) @ split_inclusive newline (concat rest)"
    unfolding text1 split_lines_simp by (rule split_inclusive_terminated)
  moreover have "split_inclusive newline (concat rest) = rest"
    using split_inclusive_drop [of "length pre + 1 + length body" original] sp(1) br(1) by simp
  ultimately have "split_lines text1 = pre @ l # split_lines r1 @ rest" by simp
  from replace_heading_section_split [OF this sp(2,3) assms(2) _ br(3)] assms(3)
  show ?thesis by (simp add: direct)
qed

theorem replace_heading_section_absorbs_witness:
  "replace_heading_section (''# A'' @ [newline] @ ''x'' @ [newline]) ''# A'' ''z'' =
   replace_heading_section (''# A'' @ [newline] @ ''y'') ''# A'' ''z''"
  by (rule replace_heading_section_absorbs [where ?r1.0 = "''x'' @ [newline]" and level = 1])
    (simp_all add: replace_heading_section_def terminated_def patch_eval)

text \<open>
  An inserted line is glued to a context line that lacks its final newline: the patch that adds
  a line \<open>b\<close> after the only line \<open>a\<close> of a file without a trailing newline yields one line \<open>ab\<close>.
\<close>

theorem diff_glues_unterminated_line:
  "apply_unified_diff ''a'' (''@@ -1,1 +1,2 @@'' @ [newline] @ '' a'' @ [newline] @ ''+b'')
     = Ok (''ab'' @ [newline])"
  by (simp add: apply_unified_diff_def patch_eval)

end
