(* ===== verification/Domain_Types.thy ===== *)
theory Domain_Types
  imports Vault_Prelude
begin

text \<open>
  Identifiers, errors and labels of the domain crate (crates/domain/src): \<open>error.rs\<close>,
  \<open>revision.rs\<close>, \<open>permission.rs\<close>, \<open>actor.rs\<close> and \<open>vault.rs\<close>.

  A UUID is its 128 bits. \<open>Revision\<close> is a \<open>u64\<close> that SQLite stores as an \<open>i64\<close>, so both widths are
  kept. A \<open>BTreeSet\<close> of an enum is the sorted duplicate-free list of its elements. The locale
  \<open>label_codec\<close> is the contract of every pair of \<open>as_str\<close> and \<open>parse\<close> functions of the code base
  (stable database and wire labels); the enums of this and of later theories interpret it.
\<close>

section \<open>Scalars and identifiers\<close>

type_synonym u64 = "64 word"
type_synonym uuid = "128 word"
type_synonym vault_id = uuid
type_synonym file_id = uuid
type_synonym operation_id = uuid
type_synonym revision_id = uuid
type_synonym event_id = uuid
type_synonym job_id = uuid
type_synonym revision = u64

datatype vault_path = VaultPath (path_text: string)

section \<open>Errors\<close>

datatype path_error =
    Absolute | Traversal | EmptySegment | Backslash | Nul | ControlCharacter
  | EncodedUnsafeComponent | InvalidPercentEncoding | InvalidUtf8 | TooDeep | TooLong
  | SegmentTooLong | InvalidPlatformCharacter | ReservedPlatformName | TrailingSpaceOrPeriod

datatype domain_error =
    InvalidValue string string
  | InvalidPath path_error
  | ReservedPath vault_path
  | PathNotManaged
  | PathCollision vault_path vault_path
  | InvalidContentRoot
  | VaultMismatch vault_id vault_id
  | NegativeRevision
  | RevisionOverflow
  | PreconditionFailed string
  | DomainRevisionConflict revision revision
  | UnsafeFilesystemEntry string

section \<open>Labels: the contract of as-str and parse\<close>

locale label_codec =
  fixes as_str :: "'a \<Rightarrow> string" and parse :: "string \<Rightarrow> 'e + 'a"
  assumes parse_as_str: "parse (as_str x) = Ok x"
    and as_str_parse: "parse s = Ok x \<Longrightarrow> as_str x = s"
begin

lemma as_str_inj: "as_str x = as_str y \<Longrightarrow> x = y"
  by (metis parse_as_str sum.inject(2))

lemma parse_Ok_iff: "parse s = Ok x \<longleftrightarrow> s = as_str x"
  using parse_as_str as_str_parse by blast

lemma parse_rejects: "(\<forall>x. s \<noteq> as_str x) \<Longrightarrow> \<exists>e. parse s = Err e"
  by (cases "parse s") (auto simp: parse_Ok_iff)

end

section \<open>Revisions (revision.rs)\<close>

definition revision_as_i64 :: "revision \<Rightarrow> domain_error + int" where
  "revision_as_i64 r = (if uint r < 2 ^ 63 then Ok (uint r) else Err RevisionOverflow)"

definition revision_next :: "revision \<Rightarrow> domain_error + revision" where
  "revision_next r = (if uint r + 1 < 2 ^ 64 then Ok (r + 1) else Err RevisionOverflow)"

definition revision_try_from :: "int \<Rightarrow> domain_error + revision" where
  \<comment> \<open>the argument is an \<open>i64\<close>, so it is below \<open>2 ^ 63\<close>\<close>
  "revision_try_from v = (if 0 \<le> v then Ok (of_int v) else Err NegativeRevision)"

datatype write_precondition = Unconditional | CreateOnly | ExactRevision revision

definition precondition_check :: "write_precondition \<Rightarrow> revision option \<Rightarrow> domain_error + unit" where
  "precondition_check p current =
     (case p of
        Unconditional \<Rightarrow> Ok ()
      | CreateOnly \<Rightarrow>
          (if current = None then Ok () else Err (PreconditionFailed ''entry already exists''))
      | ExactRevision expected \<Rightarrow>
          (case current of
             Some actual \<Rightarrow>
               (if actual = expected then Ok () else Err (DomainRevisionConflict expected actual))
           | None \<Rightarrow> Err (PreconditionFailed ''entry does not exist'')))"

section \<open>Scopes and permissions (permission.rs)\<close>

datatype scope =
    VaultDiscover | VaultRead | VaultWrite | VaultDelete | VaultHistory
  | MemoryRead | MemoryWrite | MemoryManage

datatype permission =
    DiscoverVault | ReadVault | WriteVault | DeleteVault | ReadHistory
  | ReadMemory | WriteMemory | ManageMemory

definition scope_ALL :: "scope list" where
  "scope_ALL = [VaultDiscover, VaultRead, VaultWrite, VaultDelete, VaultHistory,
                MemoryRead, MemoryWrite, MemoryManage]"

fun scope_permission :: "scope \<Rightarrow> permission" where
  "scope_permission VaultDiscover = DiscoverVault"
| "scope_permission VaultRead = ReadVault"
| "scope_permission VaultWrite = WriteVault"
| "scope_permission VaultDelete = DeleteVault"
| "scope_permission VaultHistory = ReadHistory"
| "scope_permission MemoryRead = ReadMemory"
| "scope_permission MemoryWrite = WriteMemory"
| "scope_permission MemoryManage = ManageMemory"

fun scope_display :: "scope \<Rightarrow> string" where
  "scope_display VaultDiscover = ''vault:discover''"
| "scope_display VaultRead = ''vault:read''"
| "scope_display VaultWrite = ''vault:write''"
| "scope_display VaultDelete = ''vault:delete''"
| "scope_display VaultHistory = ''vault:history''"
| "scope_display MemoryRead = ''memory:read''"
| "scope_display MemoryWrite = ''memory:write''"
| "scope_display MemoryManage = ''memory:manage''"

definition scope_from_str :: "string \<Rightarrow> domain_error + scope" where
  "scope_from_str v =
     (if v = ''vault:discover'' then Ok VaultDiscover
      else if v = ''vault:read'' then Ok VaultRead
      else if v = ''vault:write'' then Ok VaultWrite
      else if v = ''vault:delete'' then Ok VaultDelete
      else if v = ''vault:history'' then Ok VaultHistory
      else if v = ''memory:read'' then Ok MemoryRead
      else if v = ''memory:write'' then Ok MemoryWrite
      else if v = ''memory:manage'' then Ok MemoryManage
      else Err (InvalidValue ''scope'' ''is not supported''))"

text \<open>The derived order of the enum is the order of its constructors.\<close>

fun scope_rank :: "scope \<Rightarrow> nat" where
  "scope_rank VaultDiscover = 0"
| "scope_rank VaultRead = 1"
| "scope_rank VaultWrite = 2"
| "scope_rank VaultDelete = 3"
| "scope_rank VaultHistory = 4"
| "scope_rank MemoryRead = 5"
| "scope_rank MemoryWrite = 6"
| "scope_rank MemoryManage = 7"

lemma scope_rank_inj: "scope_rank a = scope_rank b \<Longrightarrow> a = b"
  by (cases a; cases b) simp_all

instantiation scope :: linorder
begin

definition less_eq_scope :: "scope \<Rightarrow> scope \<Rightarrow> bool" where
  "less_eq_scope a b \<longleftrightarrow> scope_rank a \<le> scope_rank b"

definition less_scope :: "scope \<Rightarrow> scope \<Rightarrow> bool" where
  "less_scope a b \<longleftrightarrow> scope_rank a < scope_rank b"

instance
  by standard (auto simp: less_eq_scope_def less_scope_def intro: scope_rank_inj)

end

text \<open>\<open>ScopeSet\<close>: a \<open>BTreeSet<Scope>\<close>, iterated in increasing order.\<close>

type_synonym scope_set = "scope list"

definition scopeset_insert :: "scope_set \<Rightarrow> scope \<Rightarrow> bool \<times> scope_set" where
  "scopeset_insert ss sc = (if sc \<in> set ss then (False, ss) else (True, insort sc ss))"

definition scopeset_contains :: "scope_set \<Rightarrow> scope \<Rightarrow> bool" where
  "scopeset_contains ss sc \<longleftrightarrow> sc \<in> set ss"

definition scopeset_from_iter :: "scope list \<Rightarrow> scope_set" where
  "scopeset_from_iter xs = fold (\<lambda>sc ss. snd (scopeset_insert ss sc)) xs []"

definition scopeset_permissions :: "scope_set \<Rightarrow> permission list" where
  \<comment> \<open>collected into a \<open>BTreeSet<Permission>\<close>: \<open>scope_permission\<close> keeps the order and is injective\<close>
  "scopeset_permissions ss = map scope_permission ss"

definition permissions_contain :: "permission list \<Rightarrow> permission \<Rightarrow> bool" where
  "permissions_contain ps p \<longleftrightarrow> p \<in> set ps"

section \<open>Actors and source planes (actor.rs)\<close>

datatype actor_type =
    ActorAdmin | ActorWebDavCredential | ActorMcpPat | ActorMcpOAuthSubject
  | ActorReconciler | ActorMemoryWorker | ActorSystem

datatype source_plane =
    PlaneAdmin | PlaneWebDav | PlaneMcp | PlaneReconciliation | PlaneMemory | PlaneSystem

fun source_plane_as_str :: "source_plane \<Rightarrow> string" where
  "source_plane_as_str PlaneAdmin = ''admin''"
| "source_plane_as_str PlaneWebDav = ''webdav''"
| "source_plane_as_str PlaneMcp = ''mcp''"
| "source_plane_as_str PlaneReconciliation = ''reconciliation''"
| "source_plane_as_str PlaneMemory = ''memory''"
| "source_plane_as_str PlaneSystem = ''system''"

definition source_plane_from_str :: "string \<Rightarrow> domain_error + source_plane" where
  "source_plane_from_str v =
     (if v = ''admin'' then Ok PlaneAdmin
      else if v = ''webdav'' then Ok PlaneWebDav
      else if v = ''mcp'' then Ok PlaneMcp
      else if v = ''reconciliation'' then Ok PlaneReconciliation
      else if v = ''memory'' then Ok PlaneMemory
      else if v = ''system'' then Ok PlaneSystem
      else Err (InvalidValue ''source plane'' ''is not supported''))"

definition MAX_ACTOR_ID_BYTES :: nat where
  "MAX_ACTOR_ID_BYTES = 256"

type_synonym actor_id = string

definition actor_id_new :: "string \<Rightarrow> domain_error + actor_id" where
  "actor_id_new v =
     (if v = [] then Err (InvalidValue ''actor ID'' ''must not be empty'')
      else if length v > MAX_ACTOR_ID_BYTES then Err (InvalidValue ''actor ID'' ''is too long'')
      else if any_control v
        then Err (InvalidValue ''actor ID'' ''must not contain control characters'')
      else Ok v)"

record actor =
  actor_type :: actor_type
  actor_id :: "actor_id option"

definition actor_identified :: "actor_type \<Rightarrow> actor_id \<Rightarrow> actor" where
  "actor_identified t i = \<lparr>actor_type = t, actor_id = Some i\<rparr>"

definition actor_system :: actor where
  "actor_system = \<lparr>actor_type = ActorSystem, actor_id = None\<rparr>"

section \<open>Vault slugs and contexts (vault.rs)\<close>

definition MAX_SLUG_BYTES :: nat where
  "MAX_SLUG_BYTES = 64"

definition is_ascii_lowercase :: "char \<Rightarrow> bool" where
  "is_ascii_lowercase c \<longleftrightarrow> 97 \<le> byte_of c \<and> byte_of c \<le> 122"

definition is_ascii_digit :: "char \<Rightarrow> bool" where
  "is_ascii_digit c \<longleftrightarrow> 48 \<le> byte_of c \<and> byte_of c \<le> 57"

type_synonym vault_slug = string

definition vault_slug_new :: "string \<Rightarrow> domain_error + vault_slug" where
  "vault_slug_new v =
     (if v = [] then Err (InvalidValue ''Vault slug'' ''must not be empty'')
      else if length v > MAX_SLUG_BYTES then Err (InvalidValue ''Vault slug'' ''is too long'')
      else if \<not> (\<forall>b \<in> set v. is_ascii_lowercase b \<or> is_ascii_digit b \<or> b = CHR ''-'')
        then Err (InvalidValue ''Vault slug''
               ''must contain only lowercase ASCII letters, digits, and hyphens'')
      else if \<not> is_ascii_lowercase (v ! 0) \<and> \<not> is_ascii_digit (v ! 0)
        then Err (InvalidValue ''Vault slug'' ''must start with a letter or digit'')
      else if \<not> is_ascii_lowercase (v ! (length v - 1)) \<and> \<not> is_ascii_digit (v ! (length v - 1))
        then Err (InvalidValue ''Vault slug'' ''must end with a letter or digit'')
      else Ok v)"

text \<open>
  An absolute host path is the list of its components after the root directory, as
  \<open>Path::components\<close> yields them on Unix: the leading \<open>/\<close> is \<open>RootDir\<close>, repeated and trailing
  separators and every \<open>.\<close> after the root disappear, \<open>..\<close> is \<open>ParentDir\<close>.
\<close>

datatype path_component = RootDir | CurDir | ParentDir | NormalComponent string

fun component_of :: "string \<Rightarrow> path_component list" where
  "component_of s =
     (if s = [] \<or> s = ''.'' then [] else if s = ''..'' then [ParentDir] else [NormalComponent s])"

definition path_components :: "string \<Rightarrow> path_component list" where
  \<comment> \<open>\<open>Path::new(s).components()\<close> on Unix\<close>
  "path_components s =
     (if prefix ''/'' s then RootDir # concat (map component_of (split_on (CHR ''/'') s))
      else (case split_on (CHR ''/'') s of
              first # rest \<Rightarrow>
                (if first = ''.'' then [CurDir] else component_of first)
                  @ concat (map component_of rest)))"

type_synonym host_root = "string list"

definition is_absolute :: "string \<Rightarrow> bool" where
  "is_absolute s \<longleftrightarrow> prefix ''/'' s"

fun push_components :: "path_component list \<Rightarrow> domain_error + host_root" where
  \<comment> \<open>the loop of \<open>normalize_content_root\<close>; the accumulator is an absolute path\<close>
  "push_components [] = Ok []"
| "push_components (RootDir # cs) = push_components cs"
| "push_components (CurDir # cs) = push_components cs"
| "push_components (ParentDir # cs) = Err InvalidContentRoot"
| "push_components (NormalComponent s # cs) =
     bind_r (push_components cs) (\<lambda>rest. Ok (s # rest))"

definition normalize_content_root :: "string \<Rightarrow> domain_error + host_root" where
  \<comment> \<open>\<open>normalized.parent().is_none()\<close> holds of the root directory alone\<close>
  "normalize_content_root p =
     (if \<not> is_absolute p \<or> p = [] then Err InvalidContentRoot
      else bind_r (push_components (path_components p)) (\<lambda>normalized.
        if normalized = [] then Err InvalidContentRoot else Ok normalized))"

record vault_context =
  ctx_id :: vault_id
  ctx_slug :: vault_slug
  ctx_content_root :: host_root
  ctx_settings_revision :: revision

definition vault_context_new ::
  "vault_id \<Rightarrow> vault_slug \<Rightarrow> string \<Rightarrow> revision \<Rightarrow> domain_error + vault_context" where
  "vault_context_new i slug root settings_rev =
     bind_r (normalize_content_root root) (\<lambda>content_root.
       Ok \<lparr>ctx_id = i, ctx_slug = slug, ctx_content_root = content_root,
           ctx_settings_revision = settings_rev\<rparr>)"

definition is_same_vault :: "vault_context \<Rightarrow> vault_context \<Rightarrow> bool" where
  "is_same_vault a b \<longleftrightarrow> ctx_id a = ctx_id b"

definition ensure_same_vault :: "vault_context \<Rightarrow> vault_context \<Rightarrow> domain_error + unit" where
  "ensure_same_vault a b =
     (if is_same_vault a b then Ok () else Err (VaultMismatch (ctx_id a) (ctx_id b)))"

section \<open>Lemmas\<close>

interpretation scope_label: label_codec scope_display scope_from_str
proof unfold_locales
  show "scope_from_str (scope_display x) = Ok x" for x
    by (cases x) (simp_all add: scope_from_str_def)
  show "scope_from_str s = Ok x \<Longrightarrow> scope_display x = s" for s x
    by (auto simp: scope_from_str_def split: if_splits)
qed

interpretation plane_label: label_codec source_plane_as_str source_plane_from_str
proof unfold_locales
  show "source_plane_from_str (source_plane_as_str x) = Ok x" for x
    by (cases x) (simp_all add: source_plane_from_str_def)
  show "source_plane_from_str s = Ok x \<Longrightarrow> source_plane_as_str x = s" for s x
    by (auto simp: source_plane_from_str_def split: if_splits)
qed

lemma revision_next_Ok: "revision_next r = Ok r' \<longleftrightarrow> uint r + 1 < 2 ^ 64 \<and> r' = r + 1"
  by (auto simp: revision_next_def)

lemma uint_revision_next: "revision_next r = Ok r' \<Longrightarrow> uint r' = uint r + 1"
  by (auto simp: revision_next_Ok uint_word_ariths)

lemma revision_next_gt: "revision_next r = Ok r' \<Longrightarrow> r < r'"
  by (simp add: word_less_def uint_revision_next)

lemma revision_i64_round: "revision_as_i64 r = Ok v \<Longrightarrow> revision_try_from v = Ok r"
  by (auto simp: revision_as_i64_def revision_try_from_def split: if_splits)

lemma scopeset_insert_set: "set (snd (scopeset_insert ss sc)) = insert sc (set ss)"
  by (auto simp: scopeset_insert_def set_insort_key)

lemma scopeset_insert_sorted:
  "sorted ss \<Longrightarrow> distinct ss \<Longrightarrow>
     sorted (snd (scopeset_insert ss sc)) \<and> distinct (snd (scopeset_insert ss sc))"
  by (auto simp: scopeset_insert_def sorted_insort distinct_insort)

lemma scopeset_fold:
  "set (fold (\<lambda>sc ss. snd (scopeset_insert ss sc)) xs ys) = set ys \<union> set xs \<and>
   (sorted ys \<and> distinct ys \<longrightarrow>
     sorted (fold (\<lambda>sc ss. snd (scopeset_insert ss sc)) xs ys) \<and>
     distinct (fold (\<lambda>sc ss. snd (scopeset_insert ss sc)) xs ys))"
proof (induction xs arbitrary: ys)
  case Nil
  then show ?case by simp
next
  case (Cons a xs)
  show ?case
    using Cons.IH [of "snd (scopeset_insert ys a)"] scopeset_insert_sorted [of ys a]
    by (auto simp: scopeset_insert_set)
qed

lemma scope_permission_inj: "scope_permission a = scope_permission b \<Longrightarrow> a = b"
  by (cases a; cases b) simp_all

lemma push_components_no_parent:
  "push_components cs = Ok r \<Longrightarrow> ParentDir \<notin> set cs \<and> (\<forall>s \<in> set r. NormalComponent s \<in> set cs)"
  by (induction cs arbitrary: r rule: push_components.induct) (auto simp: bind_r_Ok_conv)

end
