(* ===== verification/Vault_Paths.thy ===== *)
theory Vault_Paths
  imports Domain_Types
begin

text \<open>
  Logical Vault paths (crates/domain/src/path.rs): parsing, decoding, the path operations, the
  reserved namespace and the filesystem-entry policy.

  Two functions are parameters. \<open>nfc\<close> is \<open>UnicodeNormalization::nfc\<close> of the crate
  unicode-normalization; \<open>percent_decode\<close> is \<open>percent_decode_str(..).decode_utf8()\<close> of the crate
  percent-encoding (\<open>None\<close> when the bytes are not UTF-8). \<open>lower\<close> is
  \<open>chars().flat_map(char::to_lowercase).collect()\<close>, whose table is Unicode data: what is used of it
  is stated as a hypothesis.
\<close>

section \<open>Parsing\<close>

definition MAX_PATH_BYTES :: nat where "MAX_PATH_BYTES = 4096"
definition MAX_SEGMENTS :: nat where "MAX_SEGMENTS = 64"
definition MAX_SEGMENT_BYTES :: nat where "MAX_SEGMENT_BYTES = 255"

definition to_ascii_uppercase :: "char \<Rightarrow> char" where
  "to_ascii_uppercase c =
     (if 97 \<le> byte_of c \<and> byte_of c \<le> 122 then char_of (byte_of c - 32) else c)"

definition reserved_device_names :: "string list" where
  "reserved_device_names =
     [''CON'', ''PRN'', ''AUX'', ''NUL'',
      ''COM1'', ''COM2'', ''COM3'', ''COM4'', ''COM5'', ''COM6'', ''COM7'', ''COM8'', ''COM9'',
      ''LPT1'', ''LPT2'', ''LPT3'', ''LPT4'', ''LPT5'', ''LPT6'', ''LPT7'', ''LPT8'', ''LPT9'']"

definition is_windows_reserved_name :: "string \<Rightarrow> bool" where
  "is_windows_reserved_name segment =
     (let stem = hd (split_on (CHR ''.'') segment)
      in map to_ascii_uppercase stem \<in> set reserved_device_names)"

definition platform_invalid :: "char list" where
  "platform_invalid = [CHR '':'', CHR ''*'', CHR ''?'', CHR 0x22, CHR ''<'', CHR ''>'', CHR ''|'']"

definition validate_segment :: "string \<Rightarrow> path_error + unit" where
  "validate_segment segment =
     (if segment = ''.'' \<or> segment = ''..'' then Err Traversal
      else if length segment > MAX_SEGMENT_BYTES then Err SegmentTooLong
      else if suffix '' '' segment \<or> suffix ''.'' segment then Err TrailingSpaceOrPeriod
      else if \<exists>c \<in> set segment. c \<in> set platform_invalid then Err InvalidPlatformCharacter
      else if is_windows_reserved_name segment then Err ReservedPlatformName
      else Ok ())"

fun validate_segments :: "string list \<Rightarrow> path_error + unit" where
  "validate_segments [] = Ok ()"
| "validate_segments (s # ss) = bind_r (validate_segment s) (\<lambda>_. validate_segments ss)"

definition hex_value :: "char \<Rightarrow> nat option" where
  "hex_value c =
     (let v = byte_of c in
      if 48 \<le> v \<and> v \<le> 57 then Some (v - 48)
      else if 97 \<le> v \<and> v \<le> 102 then Some (v - 97 + 10)
      else if 65 \<le> v \<and> v \<le> 70 then Some (v - 65 + 10)
      else None)"

definition hex_pair :: "char \<Rightarrow> char \<Rightarrow> nat option" where
  "hex_pair a b =
     (case hex_value a of None \<Rightarrow> None
      | Some x \<Rightarrow> (case hex_value b of None \<Rightarrow> None | Some y \<Rightarrow> Some (x * 16 + y)))"

definition unsafe_byte :: "nat \<Rightarrow> bool" where
  "unsafe_byte v \<longleftrightarrow> v = 0 \<or> v = 46 \<or> v = 47 \<or> v = 92"

fun validate_percent_encoding :: "string \<Rightarrow> path_error + unit" where
  "validate_percent_encoding [] = Ok ()"
| "validate_percent_encoding (c # cs) =
     (if c = CHR ''%'' then
        (case cs of
           a # b # rest \<Rightarrow>
             (if hex_value a = None \<or> hex_value b = None then Err InvalidPercentEncoding
              else validate_percent_encoding rest)
         | _ \<Rightarrow> Err InvalidPercentEncoding)
      else validate_percent_encoding cs)"

fun reject_encoded_unsafe_components :: "string \<Rightarrow> path_error + unit" where
  "reject_encoded_unsafe_components (c # a # b # rest) =
     (if c = CHR ''%'' then
        (case hex_pair a b of
           None \<Rightarrow> reject_encoded_unsafe_components (a # b # rest)
         | Some v \<Rightarrow>
             (let nested_unsafe = v = 37 \<and>
                    (case rest of d # e # _ \<Rightarrow>
                        (case hex_pair d e of None \<Rightarrow> False | Some n \<Rightarrow> unsafe_byte n)
                     | _ \<Rightarrow> False)
              in if unsafe_byte v \<or> nested_unsafe then Err EncodedUnsafeComponent
                 else reject_encoded_unsafe_components (a # b # rest)))
      else reject_encoded_unsafe_components (a # b # rest))"
| "reject_encoded_unsafe_components _ = Ok ()"

definition vault_root :: vault_path where
  "vault_root = VaultPath []"

definition parse_path :: "(string \<Rightarrow> string) \<Rightarrow> string \<Rightarrow> domain_error + vault_path" where
  "parse_path nfc input =
     (if input = [] then Ok vault_root
      else bind_r (map_err InvalidPath (reject_encoded_unsafe_components input)) (\<lambda>_.
        if prefix ''/'' input then Err (InvalidPath Absolute)
        else if CHR 0x5C \<in> set input then Err (InvalidPath Backslash)
        else if CHR 0x00 \<in> set input then Err (InvalidPath Nul)
        else if any_control input then Err (InvalidPath ControlCharacter)
        else
          (let normalized = nfc input
           in if length normalized > MAX_PATH_BYTES then Err (InvalidPath TooLong)
              else
                (let segments = split_on (CHR ''/'') normalized
                 in if length segments > MAX_SEGMENTS then Err (InvalidPath TooDeep)
                    else if [] \<in> set segments then Err (InvalidPath EmptySegment)
                    else bind_r (map_err InvalidPath (validate_segments segments)) (\<lambda>_.
                      Ok (VaultPath normalized))))))"

definition from_url_path ::
  "(string \<Rightarrow> string) \<Rightarrow> (string \<Rightarrow> string option) \<Rightarrow> string \<Rightarrow> domain_error + vault_path" where
  "from_url_path nfc percent_decode input =
     (let without_mount_leading_slash =
        (case strip_prefix ''/'' input of None \<Rightarrow> input | Some rest \<Rightarrow> rest)
      in bind_r (map_err InvalidPath (validate_percent_encoding without_mount_leading_slash)) (\<lambda>_.
         bind_r (ok_or (InvalidPath InvalidUtf8) (percent_decode without_mount_leading_slash))
           (\<lambda>decoded. parse_path nfc decoded)))"

section \<open>Path operations\<close>

definition is_root :: "vault_path \<Rightarrow> bool" where
  "is_root p \<longleftrightarrow> path_text p = []"

definition depth :: "vault_path \<Rightarrow> nat" where
  "depth p = (if is_root p then 0 else length (split_on (CHR ''/'') (path_text p)))"

definition segments :: "vault_path \<Rightarrow> string list" where
  "segments p = filter (\<lambda>s. s \<noteq> []) (split_on (CHR ''/'') (path_text p))"

definition file_name :: "vault_path \<Rightarrow> string option" where
  "file_name p = (if segments p = [] then None else Some (last (segments p)))"

definition rsplit_once :: "char \<Rightarrow> string \<Rightarrow> (string \<times> string) option" where
  "rsplit_once d s =
     (if d \<in> set s
      then Some (rev (tl (dropWhile (\<lambda>c. c \<noteq> d) (rev s))), rev (takeWhile (\<lambda>c. c \<noteq> d) (rev s)))
      else None)"

definition parent :: "vault_path \<Rightarrow> vault_path option" where
  "parent p =
     (if is_root p then None
      else (case rsplit_once (CHR ''/'') (path_text p) of
              Some (front, _) \<Rightarrow> Some (VaultPath front)
            | None \<Rightarrow> Some vault_root))"

definition join :: "(string \<Rightarrow> string) \<Rightarrow> vault_path \<Rightarrow> vault_path \<Rightarrow> domain_error + vault_path" where
  "join nfc p child =
     (if is_root p then Ok child
      else if is_root child then Ok p
      else parse_path nfc (path_text p @ ''/'' @ path_text child))"

definition starts_with :: "vault_path \<Rightarrow> vault_path \<Rightarrow> bool" where
  "starts_with p ancestor \<longleftrightarrow>
     is_root ancestor \<or> path_text p = path_text ancestor \<or>
     (case strip_prefix (path_text ancestor) (path_text p) of
        None \<Rightarrow> False | Some sfx \<Rightarrow> prefix ''/'' sfx)"

datatype path_case_sensitivity = Sensitive | Insensitive

definition comparison_key ::
  "(string \<Rightarrow> string) \<Rightarrow> vault_path \<Rightarrow> path_case_sensitivity \<Rightarrow> string" where
  "comparison_key lower p sensitivity =
     (case sensitivity of Sensitive \<Rightarrow> path_text p | Insensitive \<Rightarrow> lower (path_text p))"

fun detect_collision_loop ::
  "(vault_path \<Rightarrow> string) \<Rightarrow> (string \<rightharpoonup> vault_path) \<Rightarrow> vault_path list \<Rightarrow> domain_error + unit" where
  "detect_collision_loop key seen [] = Ok ()"
| "detect_collision_loop key seen (p # ps) =
     (case seen (key p) of
        Some first \<Rightarrow> Err (PathCollision first p)
      | None \<Rightarrow> detect_collision_loop key (seen(key p \<mapsto> p)) ps)"

definition detect_path_collisions ::
  "(string \<Rightarrow> string) \<Rightarrow> vault_path list \<Rightarrow> path_case_sensitivity \<Rightarrow> domain_error + unit" where
  "detect_path_collisions lower paths sensitivity =
     detect_collision_loop (\<lambda>p. comparison_key lower p sensitivity) Map.empty paths"

section \<open>The reserved namespace\<close>

record path_policy =
  reserved_root :: vault_path
  case_sensitivity :: path_case_sensitivity

definition path_policy_default :: path_policy where
  \<comment> \<open>\<open>VaultPath::parse("_mcp-vault").expect(..)\<close>: see \<open>default_reserved_root_parses\<close>\<close>
  "path_policy_default =
     \<lparr>reserved_root = VaultPath ''_mcp-vault'', case_sensitivity = Insensitive\<rparr>"

definition path_policy_new ::
  "vault_path \<Rightarrow> path_case_sensitivity \<Rightarrow> domain_error + path_policy" where
  "path_policy_new root sensitivity =
     (if is_root root then Err (InvalidValue ''reserved path root'' ''must not be the Vault root'')
      else Ok \<lparr>reserved_root = root, case_sensitivity = sensitivity\<rparr>)"

definition is_reserved :: "(string \<Rightarrow> string) \<Rightarrow> path_policy \<Rightarrow> vault_path \<Rightarrow> bool" where
  "is_reserved lower pol p =
     (let path_key = comparison_key lower p (case_sensitivity pol);
          root_key = comparison_key lower (reserved_root pol) (case_sensitivity pol)
      in path_key = root_key \<or>
         (case strip_prefix root_key path_key of None \<Rightarrow> False | Some sfx \<Rightarrow> prefix ''/'' sfx))"

definition validate_user_path ::
  "(string \<Rightarrow> string) \<Rightarrow> path_policy \<Rightarrow> vault_path \<Rightarrow> domain_error + unit" where
  "validate_user_path lower pol p =
     (if is_reserved lower pol p then Err (ReservedPath p) else Ok ())"

definition validate_managed_path ::
  "(string \<Rightarrow> string) \<Rightarrow> path_policy \<Rightarrow> vault_path \<Rightarrow> domain_error + unit" where
  "validate_managed_path lower pol p =
     (if is_reserved lower pol p then Ok () else Err PathNotManaged)"

section \<open>Filesystem entries\<close>

datatype entry_kind =
    RegularFile | Directory | Symlink | BlockDevice | CharacterDevice | Socket | Fifo | OtherKind

fun entry_kind_as_str :: "entry_kind \<Rightarrow> string" where
  "entry_kind_as_str RegularFile = ''regular_file''"
| "entry_kind_as_str Directory = ''directory''"
| "entry_kind_as_str Symlink = ''symlink''"
| "entry_kind_as_str BlockDevice = ''block_device''"
| "entry_kind_as_str CharacterDevice = ''character_device''"
| "entry_kind_as_str Socket = ''socket''"
| "entry_kind_as_str Fifo = ''fifo''"
| "entry_kind_as_str OtherKind = ''other''"

record filesystem_policy =
  allow_symlinks :: bool
  allow_special_files :: bool

definition filesystem_policy_default :: filesystem_policy where
  "filesystem_policy_default = \<lparr>allow_symlinks = False, allow_special_files = False\<rparr>"

definition validate_entry_kind :: "filesystem_policy \<Rightarrow> entry_kind \<Rightarrow> domain_error + unit" where
  "validate_entry_kind pol kind =
     (case kind of
        RegularFile \<Rightarrow> Ok ()
      | Directory \<Rightarrow> Ok ()
      | Symlink \<Rightarrow>
          (if allow_symlinks pol then Ok ()
           else Err (UnsafeFilesystemEntry (entry_kind_as_str kind)))
      | _ \<Rightarrow>
          (if allow_special_files pol then Ok ()
           else Err (UnsafeFilesystemEntry (entry_kind_as_str kind))))"

section \<open>Well-formed paths\<close>

definition valid_segment :: "string \<Rightarrow> bool" where
  "valid_segment s \<longleftrightarrow> s \<noteq> [] \<and> validate_segment s = Ok ()"

definition wf_path :: "vault_path \<Rightarrow> bool" where
  \<comment> \<open>the invariant of the newtype \<open>VaultPath\<close>\<close>
  "wf_path p \<longleftrightarrow> is_root p \<or>
     (length (path_text p) \<le> MAX_PATH_BYTES \<and>
      length (split_on (CHR ''/'') (path_text p)) \<le> MAX_SEGMENTS \<and>
      (\<forall>s \<in> set (split_on (CHR ''/'') (path_text p)). valid_segment s))"

lemma validate_segments_Ok: "validate_segments ss = Ok () \<longleftrightarrow> (\<forall>s \<in> set ss. validate_segment s = Ok ())"
  by (induction ss) (auto simp: bind_r_Ok_conv)

lemma wf_path_root [simp]: "wf_path vault_root"
  by (simp add: wf_path_def vault_root_def is_root_def)

lemma parse_path_wf_aux: "parse_path nfc s = Ok p \<Longrightarrow> wf_path p"
  by (cases "s = []")
    (auto simp: parse_path_def Let_def bind_r_Ok_conv wf_path_def valid_segment_def is_root_def
      vault_root_def validate_segments_Ok split: if_splits)

lemma valid_segment_facts:
  assumes "valid_segment s"
  shows "s \<noteq> []" "s \<noteq> ''.''" "s \<noteq> ''..''" "length s \<le> 255"
    "\<not> suffix '' '' s" "\<not> suffix ''.'' s" "\<not> is_windows_reserved_name s"
    "\<forall>c \<in> set s. c \<notin> set platform_invalid"
  using assms by (auto simp: valid_segment_def validate_segment_def MAX_SEGMENT_BYTES_def
      split: if_splits)

lemma segments_nonroot:
  assumes "wf_path p" "\<not> is_root p"
  shows "segments p = split_on (CHR ''/'') (path_text p)"
proof -
  have "\<forall>s \<in> set (split_on (CHR ''/'') (path_text p)). s \<noteq> []"
    using assms by (auto simp: wf_path_def valid_segment_def)
  then show ?thesis by (simp add: segments_def filter_id_conv)
qed

lemma segments_root [simp]: "is_root p \<Longrightarrow> segments p = []"
  by (simp add: segments_def is_root_def)

lemma segments_vault_root [simp]: "segments vault_root = []"
  by (simp add: vault_root_def is_root_def)

lemma join_with_append:
  "xs \<noteq> [] \<Longrightarrow> ys \<noteq> [] \<Longrightarrow> join_with d (xs @ ys) = join_with d xs @ d # join_with d ys"
proof (induction d xs rule: join_with.induct)
  case (2 d s)
  then show ?case by (cases ys) auto
qed auto

lemma split_on_inject: "split_on d s = split_on d t \<longleftrightarrow> s = t"
  by (metis join_split)


lemma split_on_eq_sing_Nil [simp]: "split_on d s = [[]] \<longleftrightarrow> s = []"
  by (metis split_on.simps(1) split_on_inject)

lemma path_text_segments:
  assumes "wf_path p"
  shows "path_text p = join_with (CHR ''/'') (segments p)"
  using segments_nonroot [OF assms]
  by (cases "is_root p") (auto simp: join_split is_root_def segments_root)

lemma depth_segments: "wf_path p \<Longrightarrow> depth p = length (segments p)"
  by (cases "is_root p") (simp_all add: depth_def segments_nonroot)

lemma reject_encoded_no_percent:
  "CHR ''%'' \<notin> set s \<Longrightarrow> reject_encoded_unsafe_components s = Ok ()"
  by (induction s rule: reject_encoded_unsafe_components.induct) auto

lemma prefix_slash: "prefix ''/'' t \<longleftrightarrow> (\<exists>u. t = CHR ''/'' # u)"
  by (auto simp: prefix_def)

lemma split_on_append_prefix:
  "prefix (split_on d a) (split_on d s) \<longleftrightarrow> s = a \<or> (\<exists>u. s = a @ d # u)"
proof
  assume "prefix (split_on d a) (split_on d s)"
  then obtain r where r: "split_on d s = split_on d a @ r" by (auto simp: prefix_def)
  show "s = a \<or> (\<exists>u. s = a @ d # u)"
  proof (cases "r = []")
    case True
    with r show ?thesis by (simp add: split_on_inject)
  next
    case False
    have "s = join_with d (split_on d a @ r)" by (metis r join_split)
    also have "\<dots> = a @ d # join_with d r" using False by (simp add: join_with_append join_split)
    finally show ?thesis by blast
  qed
qed (auto simp: split_on_snoc)

lemma starts_with_text:
  "starts_with p a \<longleftrightarrow> is_root a \<or> path_text p = path_text a \<or>
     (\<exists>u. path_text p = path_text a @ CHR ''/'' # u)"
  by (auto simp: starts_with_def prefix_slash split: option.splits)

lemma rsplit_once_split:
  assumes "d \<in> set s"
  shows "\<exists>a b. rsplit_once d s = Some (a, b) \<and> s = a @ d # b \<and> d \<notin> set b"
proof -
  let ?t = "takeWhile (\<lambda>c. c \<noteq> d) (rev s)"
  obtain c r where w: "dropWhile (\<lambda>c. c \<noteq> d) (rev s) = c # r"
    using assms by (cases "dropWhile (\<lambda>c. c \<noteq> d) (rev s)") (auto simp: dropWhile_eq_Nil_conv)
  have "c = d" using hd_dropWhile [of "\<lambda>c. c \<noteq> d" "rev s"] w by simp
  moreover have "rev s = ?t @ c # r" by (metis takeWhile_dropWhile_id w)
  ultimately have "s = rev r @ d # rev ?t" by (simp add: rev_swap)
  moreover have "d \<notin> set (rev ?t)" by (auto dest: set_takeWhileD)
  ultimately show ?thesis using assms w by (auto simp: rsplit_once_def)
qed

lemma wf_path_intro:
  assumes "\<forall>s \<in> set ss. valid_segment s \<and> CHR ''/'' \<notin> set s" "ss \<noteq> []"
    and "length ss \<le> MAX_SEGMENTS" "length (join_with (CHR ''/'') ss) \<le> MAX_PATH_BYTES"
  shows "wf_path (VaultPath (join_with (CHR ''/'') ss)) \<and>
         segments (VaultPath (join_with (CHR ''/'') ss)) = ss"
proof -
  have split: "split_on (CHR ''/'') (join_with (CHR ''/'') ss) = ss"
    using assms by (intro split_join) auto
  then have "wf_path (VaultPath (join_with (CHR ''/'') ss))"
    using assms by (auto simp: wf_path_def)
  moreover have "\<not> is_root (VaultPath (join_with (CHR ''/'') ss))"
    using split assms by (auto simp: is_root_def valid_segment_def)
  ultimately show ?thesis using segments_nonroot split by simp
qed

lemma set_join_with: "set (join_with d ss) \<subseteq> insert d (\<Union> (set ` set ss))"
  by (induction d ss rule: join_with.induct) auto

lemma parse_accepts:
  assumes "\<forall>s \<in> set ss. valid_segment s \<and> CHR ''/'' \<notin> set s \<and> CHR ''%'' \<notin> set s
                          \<and> CHR 0x5C \<notin> set s" "ss \<noteq> []"
    and "\<not> any_control (join_with (CHR ''/'') ss)"
    and "length ss \<le> MAX_SEGMENTS" "length (join_with (CHR ''/'') ss) \<le> MAX_PATH_BYTES"
    and "nfc (join_with (CHR ''/'') ss) = join_with (CHR ''/'') ss"
  shows "parse_path nfc (join_with (CHR ''/'') ss) = Ok (VaultPath (join_with (CHR ''/'') ss))"
proof -
  let ?s = "join_with (CHR ''/'') ss"
  have split: "split_on (CHR ''/'') ?s = ss" using assms by (intro split_join) auto
  have chars: "CHR ''%'' \<notin> set ?s" "CHR 0x5C \<notin> set ?s"
    using set_join_with [of "CHR ''/''" ss] assms(1) by auto
  have nul: "CHR 0x00 \<notin> set t" if "\<not> any_control t" for t
    using that by (induction t) auto
  have ne: "?s \<noteq> []" "\<not> prefix ''/'' ?s"
    using split assms(1,2) by (auto simp: prefix_slash valid_segment_def)
  show ?thesis using assms chars nul [OF assms(3)] ne split
    by (auto simp: parse_path_def reject_encoded_no_percent Let_def bind_r_Ok_conv
        validate_segments_Ok valid_segment_def)
qed

lemma detect_collision_loop_Ok:
  "detect_collision_loop key seen ps = Ok () \<longleftrightarrow>
     distinct (map key ps) \<and> (\<forall>p \<in> set ps. seen (key p) = None)"
  by (induction ps arbitrary: seen) (auto split: option.splits simp: image_iff)

lemma detect_collision_loop_Err:
  assumes "detect_collision_loop key seen ps = Err (PathCollision a b)"
    and "\<forall>k p. seen k = Some p \<longrightarrow> key p = k"
  shows "key a = key b \<and> b \<in> set ps \<and> (a \<in> set ps \<or> seen (key a) = Some a)"
  using assms
proof (induction ps arbitrary: seen)
  case Nil
  then show ?case by simp
next
  case (Cons p ps)
  show ?case
  proof (cases "seen (key p)")
    case None
    let ?seen = "seen(key p \<mapsto> p)"
    have "detect_collision_loop key ?seen ps = Err (PathCollision a b)"
      using Cons.prems(1) None by simp
    moreover have "\<forall>k q. ?seen k = Some q \<longrightarrow> key q = k" using Cons.prems(2) by simp
    ultimately have "key a = key b \<and> b \<in> set ps \<and> (a \<in> set ps \<or> ?seen (key a) = Some a)"
      by (rule Cons.IH)
    then show ?thesis by (auto split: if_splits)
  next
    case (Some first)
    with Cons show ?thesis by auto
  qed
qed

lemma detect_collision_loop_kind:
  "detect_collision_loop key seen ps = Err e \<Longrightarrow> \<exists>a b. e = PathCollision a b"
  by (induction ps arbitrary: seen) (auto split: option.splits)

lemmas path_eval = wf_path_def valid_segment_def validate_segment_def MAX_SEGMENT_BYTES_def
  MAX_SEGMENTS_def MAX_PATH_BYTES_def suffix_def prefix_def is_root_def platform_invalid_def
  is_windows_reserved_name_def reserved_device_names_def to_ascii_uppercase_def char_of_def

lemma default_reserved_root_parses:
  "nfc ''_mcp-vault'' = ''_mcp-vault'' \<Longrightarrow>
     parse_path nfc ''_mcp-vault'' = Ok (reserved_root path_policy_default)"
  by (simp add: parse_path_def path_policy_default_def path_eval)

section \<open>Properties\<close>

text \<open>
  C33: a path that parses can never leave the content root: it has at most 64 segments and 4096
  bytes, and every segment is a non-empty ordinary name of at most 255 bytes without separators,
  neither \<open>.\<close> nor \<open>..\<close>, not a device name, not ending in a space or period.
\<close>

theorem parse_path_safe:
  assumes "parse_path nfc s = Ok p"
  shows "depth p \<le> 64 \<and> length (path_text p) \<le> 4096 \<and>
    (\<forall>seg \<in> set (segments p). seg \<noteq> [] \<and> seg \<noteq> ''.'' \<and> seg \<noteq> ''..'' \<and> CHR ''/'' \<notin> set seg \<and>
       length seg \<le> 255 \<and> \<not> is_windows_reserved_name seg \<and> \<not> suffix '' '' seg \<and>
       \<not> suffix ''.'' seg)"
proof (cases "is_root p")
  case True
  then show ?thesis by (simp add: depth_def is_root_def)
next
  case False
  have wf: "wf_path p" using assms by (rule parse_path_wf_aux)
  have seg: "segments p = split_on (CHR ''/'') (path_text p)" using wf False by (rule segments_nonroot)
  have "depth p \<le> 64 \<and> length (path_text p) \<le> 4096"
    using wf False by (simp add: wf_path_def depth_def MAX_SEGMENTS_def MAX_PATH_BYTES_def)
  moreover have "valid_segment x \<and> CHR ''/'' \<notin> set x" if "x \<in> set (segments p)" for x
    using that wf False split_on_pieces by (auto simp: seg wf_path_def)
  ultimately show ?thesis using valid_segment_facts by blast
qed

theorem parse_path_safe_witness:
  "parse_path id ''notes/day.md'' = Ok (VaultPath ''notes/day.md'') \<and>
   depth (VaultPath ''notes/day.md'') \<le> 64"
proof -
  have "parse_path id ''notes/day.md'' = Ok (VaultPath ''notes/day.md'')"
    by (simp add: parse_path_def path_eval)
  with parse_path_safe [OF this] show ?thesis by blast
qed

text \<open>
  Printing a path and parsing it back gives its segments: for every list of valid names
  (no separators, no percent sign, no control characters) in normal form, within the limits, the
  joined text parses to a path with exactly these segments.
\<close>

theorem parse_segments_roundtrip:
  assumes "\<forall>s \<in> set ss. valid_segment s \<and> CHR ''/'' \<notin> set s \<and> CHR ''%'' \<notin> set s
                          \<and> CHR 0x5C \<notin> set s" "ss \<noteq> []"
    and "\<not> any_control (join_with (CHR ''/'') ss)"
    and "length ss \<le> 64" "length (join_with (CHR ''/'') ss) \<le> 4096"
    and "nfc (join_with (CHR ''/'') ss) = join_with (CHR ''/'') ss"
  shows "\<exists>p. parse_path nfc (join_with (CHR ''/'') ss) = Ok p \<and> segments p = ss \<and>
             depth p = length ss \<and> parse_path nfc (path_text p) = Ok p"
proof -
  note lims = assms(4,5) [folded MAX_SEGMENTS_def MAX_PATH_BYTES_def]
  let ?p = "VaultPath (join_with (CHR ''/'') ss)"
  have "parse_path nfc (join_with (CHR ''/'') ss) = Ok ?p"
    using assms(1-3,6) lims by (intro parse_accepts) (auto simp: MAX_SEGMENTS_def MAX_PATH_BYTES_def)
  moreover have "wf_path ?p \<and> segments ?p = ss"
    using assms lims by (intro wf_path_intro) (auto simp: MAX_SEGMENTS_def MAX_PATH_BYTES_def)
  ultimately show ?thesis by (auto simp: depth_segments)
qed

theorem parse_segments_roundtrip_witness:
  "\<exists>p. parse_path id ''a/b.md'' = Ok p \<and> segments p = [''a'', ''b.md''] \<and> depth p = 2 \<and>
       parse_path id (path_text p) = Ok p"
  using parse_segments_roundtrip [of "[''a'', ''b.md'']" id]
  by (simp add: path_eval numeral_2_eq_2)

text \<open>
  The textual ancestor test of \<open>starts_with\<close> is the prefix order on segments: \<open>notes-old\<close> is
  not beneath \<open>notes\<close>, and the Vault root is above everything.
\<close>

theorem starts_with_segments:
  assumes "wf_path p" "wf_path a"
  shows "starts_with p a \<longleftrightarrow> prefix (segments a) (segments p)"
proof (cases "is_root a \<or> is_root p")
  case True
  then show ?thesis using assms segments_nonroot
    by (auto simp: starts_with_text is_root_def segments_root)
next
  case False
  then show ?thesis using assms
    by (simp add: starts_with_text segments_nonroot split_on_append_prefix)
qed

theorem starts_with_segments_witness:
  "starts_with (VaultPath ''a/b'') (VaultPath ''a'') \<longleftrightarrow>
     prefix (segments (VaultPath ''a'')) (segments (VaultPath ''a/b''))"
  by (rule starts_with_segments)
    (simp_all add: path_eval)

text \<open>
  The parent of a non-root path always exists, is a valid path, and drops exactly the last
  segment, which is the path's file name.
\<close>

theorem parent_file_name:
  assumes "wf_path p" "\<not> is_root p"
  shows "\<exists>q name. parent p = Some q \<and> wf_path q \<and> file_name p = Some name \<and>
           segments p = segments q @ [name] \<and> depth p = Suc (depth q)"
proof (cases "CHR ''/'' \<in> set (path_text p)")
  case True
  then obtain a b where ab: "rsplit_once (CHR ''/'') (path_text p) = Some (a, b)"
      "path_text p = a @ CHR ''/'' # b" "CHR ''/'' \<notin> set b"
    using rsplit_once_split by blast
  have segs: "split_on (CHR ''/'') (path_text p) = split_on (CHR ''/'') a @ [b]"
    using ab by (simp add: split_on_snoc split_on_no_sep)
  then have wf: "wf_path (VaultPath a)" "a \<noteq> []"
    using assms ab(2) by (auto simp: wf_path_def valid_segment_def is_root_def)
  then have "segments (VaultPath a) = split_on (CHR ''/'') a"
    using segments_nonroot [of "VaultPath a"] by (simp add: is_root_def)
  then show ?thesis using assms ab segs wf
    by (auto simp: parent_def file_name_def segments_nonroot depth_segments)
next
  case False
  then have "split_on (CHR ''/'') (path_text p) = [path_text p]" by (rule split_on_no_sep)
  then show ?thesis using assms False
    by (auto simp: parent_def file_name_def rsplit_once_def segments_nonroot depth_segments
        is_root_def vault_root_def [symmetric] intro: exI [of _ vault_root])
qed

theorem parent_file_name_witness:
  "\<exists>q name. parent (VaultPath ''a/b'') = Some q \<and> wf_path q \<and>
     file_name (VaultPath ''a/b'') = Some name \<and>
     segments (VaultPath ''a/b'') = segments q @ [name] \<and>
     depth (VaultPath ''a/b'') = Suc (depth q)"
  by (rule parent_file_name)
    (simp_all add: path_eval)

text \<open>
  \<open>detect_path_collisions\<close> accepts a list of paths exactly when no two positions have the same
  comparison key; when it refuses, the pair it names does collide and both paths are of the list.
\<close>

theorem detect_path_collisions_correct:
  "(detect_path_collisions lower paths sens = Ok () \<longleftrightarrow>
      distinct (map (\<lambda>p. comparison_key lower p sens) paths)) \<and>
   (detect_path_collisions lower paths sens \<noteq> Ok () \<longrightarrow>
      (\<exists>a b. detect_path_collisions lower paths sens = Err (PathCollision a b) \<and>
         a \<in> set paths \<and> b \<in> set paths \<and>
         comparison_key lower a sens = comparison_key lower b sens))"
proof (intro conjI impI)
  show "detect_path_collisions lower paths sens = Ok () \<longleftrightarrow>
      distinct (map (\<lambda>p. comparison_key lower p sens) paths)"
    by (simp add: detect_path_collisions_def detect_collision_loop_Ok)
next
  assume "detect_path_collisions lower paths sens \<noteq> Ok ()"
  then obtain e where e: "detect_path_collisions lower paths sens = Err e"
    by (cases "detect_path_collisions lower paths sens") auto
  then obtain a b where "e = PathCollision a b"
    using detect_collision_loop_kind unfolding detect_path_collisions_def by blast
  with e detect_collision_loop_Err [of "\<lambda>p. comparison_key lower p sens" Map.empty paths a b]
  show "\<exists>a b. detect_path_collisions lower paths sens = Err (PathCollision a b) \<and>
         a \<in> set paths \<and> b \<in> set paths \<and>
         comparison_key lower a sens = comparison_key lower b sens"
    unfolding detect_path_collisions_def by auto
qed

theorem detect_path_collisions_witness:
  "\<exists>a b. detect_path_collisions (map to_ascii_uppercase) [VaultPath ''a'', VaultPath ''A''] Insensitive
       = Err (PathCollision a b) \<and> a \<in> {VaultPath ''a'', VaultPath ''A''}"
proof -
  have "detect_path_collisions (map to_ascii_uppercase) [VaultPath ''a'', VaultPath ''A''] Insensitive
      \<noteq> Ok ()"
    by code_simp
  with detect_path_collisions_correct [of "map to_ascii_uppercase"
      "[VaultPath ''a'', VaultPath ''A'']" Insensitive]
  show ?thesis by auto
qed

text \<open>
  The reserved namespace is closed downwards: everything beneath a service-managed path is
  service-managed too, so a user path can never reach into the reserved tree. The case mapping is
  assumed to work character by character and to fix the separator.
\<close>

theorem reserved_closed_downwards:
  assumes "\<forall>s t. lower (s @ t) = lower s @ lower t" "lower ''/'' = ''/''"
    and "is_reserved lower pol p" "starts_with q p" "\<not> is_root p"
  shows "is_reserved lower pol q \<and>
         validate_user_path lower pol q = Err (ReservedPath q) \<and>
         validate_managed_path lower pol q = Ok ()"
proof -
  let ?key = "\<lambda>x. comparison_key lower x (case_sensitivity pol)"
  have low: "lower (s @ CHR ''/'' # u) = lower s @ CHR ''/'' # lower u" for s u
    using assms(1,2) by (metis append_Cons append_Nil)
  have "?key q = ?key p \<or> (\<exists>u. ?key q = ?key p @ CHR ''/'' # u)"
    using assms(4,5) low
    by (auto simp: starts_with_text comparison_key_def split: path_case_sensitivity.splits)
  then have "is_reserved lower pol q" using assms(3)
    by (auto simp: is_reserved_def Let_def prefix_slash split: option.splits)
  then show ?thesis by (simp add: validate_user_path_def validate_managed_path_def)
qed

theorem reserved_closed_downwards_witness:
  "is_reserved id path_policy_default (VaultPath ''_mcp-vault/history'') \<and>
   validate_user_path id path_policy_default (VaultPath ''_mcp-vault/history'')
     = Err (ReservedPath (VaultPath ''_mcp-vault/history'')) \<and>
   validate_managed_path id path_policy_default (VaultPath ''_mcp-vault/history'') = Ok ()"
  by (rule reserved_closed_downwards [where p = "VaultPath ''_mcp-vault''"])
    (simp_all add: is_reserved_def path_policy_default_def comparison_key_def starts_with_text
      is_root_def)

end
