(* ===== verification/File_State.thy ===== *)
theory File_State
  imports Vault_Paths "HOL-Library.Product_Lexorder"
begin

text \<open>
  The file repository of the state crate (crates/state/src/files.rs, with error.rs and the
  semantic-qualification hook of semantic_memory.rs).

  The SQLite database is a record of tables, each a list of rows in insertion order. A row has typed
  columns: the text of a UUID, label or path is not stored separately, because every row is written
  from the typed value. A journal payload is \<open>None\<close> when its JSON does not decode as a
  \<open>CorePayload\<close>. Each statement checks the constraints of the schema (migrations 0001, 0002, 0033):
  primary keys, UNIQUE columns and foreign keys; a violation is \<open>Database\<close>. A write returns the new
  database only with \<open>Ok\<close>: on an error the transaction is rolled back and the caller keeps the old
  one. The process-wide write gate serialises the writes, so each is one step.

  Clock readings and fresh identifiers are arguments (\<open>commit_env\<close>); \<open>uuid_str\<close> prints a UUID and
  \<open>sha256\<close> is the hash of the crate sha2, in lower-case hexadecimal.
\<close>

section \<open>Errors and labels\<close>

datatype db_error = UniqueViolation | ForeignKeyViolation | OtherDatabaseError

datatype state_error =
    Database db_error
  | Migration
  | SchemaIncompatible
  | InvalidDomain domain_error
  | JsonError
  | InvalidInput string
  | Conflict
  | Connection string
  | StateFilesystem string
  | IntegrityFailure
  | CommitHookRejected string

datatype entry_type = EntryFile | EntryDirectory

fun entry_type_as_str :: "entry_type \<Rightarrow> string" where
  "entry_type_as_str EntryFile = ''file''"
| "entry_type_as_str EntryDirectory = ''directory''"

definition entry_type_parse :: "string \<Rightarrow> state_error + entry_type" where
  "entry_type_parse v =
     (if v = ''file'' then Ok EntryFile
      else if v = ''directory'' then Ok EntryDirectory
      else Err (InvalidInput ''stored entry type is invalid''))"

datatype file_operation =
    OpCreate | OpReplace | OpPatch | OpAppend | OpMove | OpCopy | OpDelete | OpRestore
  | OpExternalChange

fun file_operation_as_str :: "file_operation \<Rightarrow> string" where
  "file_operation_as_str OpCreate = ''create''"
| "file_operation_as_str OpReplace = ''replace''"
| "file_operation_as_str OpPatch = ''patch''"
| "file_operation_as_str OpAppend = ''append''"
| "file_operation_as_str OpMove = ''move''"
| "file_operation_as_str OpCopy = ''copy''"
| "file_operation_as_str OpDelete = ''delete''"
| "file_operation_as_str OpRestore = ''restore''"
| "file_operation_as_str OpExternalChange = ''external_change''"

definition file_operation_parse :: "string \<Rightarrow> state_error + file_operation" where
  "file_operation_parse v =
     (if v = ''create'' then Ok OpCreate
      else if v = ''replace'' then Ok OpReplace
      else if v = ''patch'' then Ok OpPatch
      else if v = ''append'' then Ok OpAppend
      else if v = ''move'' then Ok OpMove
      else if v = ''copy'' then Ok OpCopy
      else if v = ''delete'' then Ok OpDelete
      else if v = ''restore'' then Ok OpRestore
      else if v = ''external_change'' then Ok OpExternalChange
      else Err (InvalidInput ''stored file operation is invalid''))"

datatype journal_state =
    Prepared | FileCommitted | MetadataCommitted | RolledBack | NeedsReviewState | Superseded
  | Discarded

fun journal_state_as_str :: "journal_state \<Rightarrow> string" where
  "journal_state_as_str Prepared = ''prepared''"
| "journal_state_as_str FileCommitted = ''file_committed''"
| "journal_state_as_str MetadataCommitted = ''metadata_committed''"
| "journal_state_as_str RolledBack = ''rolled_back''"
| "journal_state_as_str NeedsReviewState = ''needs_review''"
| "journal_state_as_str Superseded = ''superseded''"
| "journal_state_as_str Discarded = ''discarded''"

definition journal_state_parse :: "string \<Rightarrow> state_error + journal_state" where
  "journal_state_parse v =
     (if v = ''prepared'' then Ok Prepared
      else if v = ''file_committed'' then Ok FileCommitted
      else if v = ''metadata_committed'' then Ok MetadataCommitted
      else if v = ''rolled_back'' then Ok RolledBack
      else if v = ''needs_review'' then Ok NeedsReviewState
      else if v = ''superseded'' then Ok Superseded
      else if v = ''discarded'' then Ok Discarded
      else Err (InvalidInput ''stored journal state is invalid''))"

fun actor_type_label :: "actor_type \<Rightarrow> string" where
  \<comment> \<open>the serde \<open>snake_case\<close> label without its quotes\<close>
  "actor_type_label ActorAdmin = ''admin''"
| "actor_type_label ActorWebDavCredential = ''webdav_credential''"
| "actor_type_label ActorMcpPat = ''mcp_pat''"
| "actor_type_label ActorMcpOAuthSubject = ''mcp_oauth_subject''"
| "actor_type_label ActorReconciler = ''reconciler''"
| "actor_type_label ActorMemoryWorker = ''memory_worker''"
| "actor_type_label ActorSystem = ''system''"

section \<open>Rows and inputs\<close>

datatype json = JNull | JBool bool | JInt int | JStr string | JObj "(string \<times> json) list"

record outbox_event_input =
  oe_type :: string
  oe_aggregate_type :: string
  oe_aggregate_id :: string
  oe_payload :: json

record core_payload =
  cp_operation_id :: operation_id
  cp_file_id :: file_id
  cp_entry_type :: string
  cp_operation :: string
  cp_path :: vault_path
  cp_path_before :: "vault_path option"
  cp_path_after :: "vault_path option"
  cp_expected_revision :: "revision option"
  cp_require_absent :: bool
  cp_tombstone_archive_path :: "vault_path option"
  cp_content_hash :: "string option"
  cp_history_blob_hash :: "string option"
  cp_size :: u64
  cp_modified_at :: "int option"
  cp_filesystem_identity :: "string option"
  cp_deleted_at :: "int option"
  cp_actor :: actor
  cp_source_plane :: source_plane
  cp_idempotency_key :: "string option"
  cp_audit_action :: string
  cp_audit_metadata :: json
  cp_request_id :: "string option"
  cp_outbox_events :: "outbox_event_input list"

record file_record =
  fr_id :: file_id
  fr_vault :: vault_id
  fr_path :: vault_path
  fr_entry_type :: entry_type
  fr_revision :: revision
  fr_content_hash :: "string option"
  fr_size :: u64
  fr_modified_at :: int
  fr_identity :: "string option"
  fr_deleted_at :: "int option"
  fr_created_at :: int
  fr_updated_at :: int

definition is_active :: "file_record \<Rightarrow> bool" where
  "is_active f \<longleftrightarrow> fr_deleted_at f = None"

record file_revision_record =
  rr_id :: revision_id
  rr_vault :: vault_id
  rr_file :: file_id
  rr_revision :: revision
  rr_operation :: file_operation
  rr_path_before :: "vault_path option"
  rr_path_after :: "vault_path option"
  rr_content_hash :: "string option"
  rr_history_blob_hash :: "string option"
  rr_size :: "u64 option"
  rr_actor_type :: string
  rr_actor_id :: "actor_id option"
  rr_source_plane :: source_plane
  rr_idempotency_key :: "string option"
  rr_created_at :: int

record journal_record =
  jr_id :: operation_id
  jr_vault :: vault_id
  jr_operation :: file_operation
  jr_state :: journal_state
  jr_source_path :: "vault_path option"
  jr_destination_path :: "vault_path option"
  jr_prior_file_id :: "file_id option"
  jr_expected_revision :: "revision option"
  jr_prior_hash :: "string option"
  jr_proposed_hash :: "string option"
  jr_temp_path :: "vault_path option"
  jr_payload :: "core_payload option"
  jr_idempotency_key :: "string option"
  jr_created_at :: int
  jr_updated_at :: int
  jr_error :: "string option"

record prepare_operation_input =
  po_id :: operation_id
  po_operation :: file_operation
  po_source_path :: "vault_path option"
  po_destination_path :: "vault_path option"
  po_prior_file_id :: "file_id option"
  po_expected_revision :: "revision option"
  po_prior_hash :: "string option"
  po_proposed_hash :: "string option"
  po_temp_path :: "vault_path option"
  po_payload :: "core_payload option"
  po_idempotency_key :: "string option"

record supersede_create_witness =
  sw_operation_id :: operation_id
  sw_path :: vault_path
  sw_prior_file_id :: file_id
  sw_replacement_file_id :: file_id
  sw_replacement_revision :: revision
  sw_physical_hash :: string

datatype supersede_create_result = Applied | AlreadyApplied | NotProven

record commit_mutation_input =
  ci_operation_id :: operation_id
  ci_file_id :: file_id
  ci_entry_type :: entry_type
  ci_path :: vault_path
  ci_path_before :: "vault_path option"
  ci_path_after :: "vault_path option"
  ci_expected_revision :: "revision option"
  ci_require_absent :: bool
  ci_tombstone_archive_path :: "vault_path option"
  ci_content_hash :: "string option"
  ci_history_blob_hash :: "string option"
  ci_size :: u64
  ci_modified_at :: int
  ci_filesystem_identity :: "string option"
  ci_deleted_at :: "int option"
  ci_operation :: file_operation
  ci_actor :: actor
  ci_source_plane :: source_plane
  ci_idempotency_key :: "string option"
  ci_audit_action :: string
  ci_audit_metadata :: json
  ci_request_id :: "string option"
  ci_outbox_events :: "outbox_event_input list"

record mutation_commit_result =
  mc_file :: file_record
  mc_revision :: file_revision_record

datatype idempotency_lookup =
    Committed "core_payload option" file_record file_revision_record
  | InFlightLookup operation_id journal_state "core_payload option"

datatype commit_hook_phase = HookMetadataTransactionStarted | HookOutboxInserted

datatype vault_status = VaultActive | VaultMaintenance | VaultDisabled | VaultErrorStatus

record vault_row =
  vr_id :: vault_id
  vr_slug :: vault_slug
  vr_content_root :: host_root
  vr_status :: vault_status

record audit_row =
  au_id :: event_id
  au_occurred_at :: int
  au_request_id :: "string option"
  au_vault :: vault_id
  au_plane :: string
  au_actor_type :: string
  au_actor_id :: "string option"
  au_action :: string
  au_target_type :: string
  au_target_id :: string
  au_target_path_hash :: string
  au_result :: string
  au_metadata :: json

record outbox_row =
  ob_id :: event_id
  ob_vault :: "vault_id option"
  ob_event_type :: string
  ob_aggregate_type :: string
  ob_aggregate_id :: string
  ob_payload :: json
  ob_created_at :: int
  ob_available_at :: int
  ob_claimed_by :: "string option"
  ob_claimed_until :: "int option"
  ob_delivered_at :: "int option"
  ob_attempts :: nat
  ob_last_error :: "string option"
  ob_dead_lettered :: bool
  ob_dead_letter_reason :: "string option"

record semantic_source_row =
  ss_vault :: vault_id
  ss_source_id :: string
  ss_file :: file_id
  ss_path :: vault_path
  ss_current_hash :: string
  ss_authorization_revision :: int
  ss_eligible :: bool
  ss_invalid_reason :: "string option"
  ss_pending_rebuild :: bool
  ss_generation :: int
  ss_updated_at :: int

record semantic_card_row =
  sc_vault :: vault_id
  sc_card_id :: string
  sc_source_id :: string
  sc_eligibility :: string
  sc_updated_at :: int

record semantic_evidence_row =
  se_vault :: vault_id
  se_source_id :: string
  se_validation_status :: string

record file_db =
  db_vaults :: "vault_row list"
  db_files :: "file_record list"
  db_revisions :: "file_revision_record list"
  db_journal :: "journal_record list"
  db_audit :: "audit_row list"
  db_outbox :: "outbox_row list"
  db_migration_version :: "int option"
  db_semantic_tables :: bool
  db_sources :: "semantic_source_row list"
  db_cards :: "semantic_card_row list"
  db_evidence :: "semantic_evidence_row list"

record commit_env =
  ce_now :: int
  ce_revision_id :: revision_id
  ce_audit_id :: event_id
  ce_event_id :: "nat \<Rightarrow> event_id"

section \<open>Reads\<close>

definition get_by_path :: "vault_context \<Rightarrow> vault_path \<Rightarrow> bool \<Rightarrow> file_db \<Rightarrow> file_record option" where
  "get_by_path ctx p include_deleted db =
     find_row (\<lambda>r. fr_vault r = ctx_id ctx \<and> fr_path r = p \<and> (include_deleted \<or> is_active r))
       (db_files db)"

definition get_active :: "vault_context \<Rightarrow> vault_path \<Rightarrow> file_db \<Rightarrow> file_record option" where
  "get_active ctx p db = get_by_path ctx p False db"

definition get_any_by_path :: "vault_context \<Rightarrow> vault_path \<Rightarrow> file_db \<Rightarrow> file_record option" where
  "get_any_by_path ctx p db = get_by_path ctx p True db"

definition get_by_id :: "vault_context \<Rightarrow> file_id \<Rightarrow> file_db \<Rightarrow> file_record option" where
  "get_by_id ctx i db =
     find_row (\<lambda>r. fr_vault r = ctx_id ctx \<and> fr_id r = i) (db_files db)"

definition find_unique_active_by_historical_path_revision ::
  "vault_context \<Rightarrow> vault_path \<Rightarrow> revision \<Rightarrow> file_db \<Rightarrow> state_error + file_record option" where
  "find_unique_active_by_historical_path_revision ctx p rv db =
     bind_r (map_err InvalidDomain (revision_as_i64 rv)) (\<lambda>_.
       Ok (case filter (\<lambda>f. fr_vault f = ctx_id ctx \<and> is_active f \<and>
                 (\<exists>h \<in> set (db_revisions db). rr_vault h = ctx_id ctx \<and> rr_file h = fr_id f \<and>
                    rr_revision h = rv \<and> (rr_path_before h = Some p \<or> rr_path_after h = Some p)))
               (db_files db) of
             [f] \<Rightarrow> Some f | _ \<Rightarrow> None))"

definition list_active_entries :: "vault_context \<Rightarrow> file_db \<Rightarrow> file_record list" where
  "list_active_entries ctx db =
     sort_key (\<lambda>r. path_text (fr_path r))
       (filter (\<lambda>r. fr_vault r = ctx_id ctx \<and> is_active r) (db_files db))"

definition get_revision ::
  "vault_context \<Rightarrow> file_id \<Rightarrow> revision \<Rightarrow> file_db \<Rightarrow> state_error + file_revision_record option" where
  "get_revision ctx i rv db =
     bind_r (map_err InvalidDomain (revision_as_i64 rv)) (\<lambda>_.
       Ok (find_row (\<lambda>r. rr_vault r = ctx_id ctx \<and> rr_file r = i \<and> rr_revision r = rv)
             (db_revisions db)))"

definition list_revisions :: "vault_context \<Rightarrow> file_id \<Rightarrow> file_db \<Rightarrow> file_revision_record list" where
  "list_revisions ctx i db =
     sort_key rr_revision
       (filter (\<lambda>r. rr_vault r = ctx_id ctx \<and> rr_file r = i) (db_revisions db))"

definition list_recent_revisions ::
  "vault_context \<Rightarrow> nat \<Rightarrow> file_db \<Rightarrow> state_error + file_revision_record list" where
  "list_recent_revisions ctx limit db =
     (if limit = 0 \<or> 200 < limit
      then Err (InvalidInput ''recent revision limit must be between 1 and 200'')
      else Ok (take limit (rev (sort_key (\<lambda>r. (rr_created_at r, rr_id r))
             (filter (\<lambda>r. rr_vault r = ctx_id ctx) (db_revisions db))))))"

definition count_outbox_events :: "vault_context \<Rightarrow> string \<Rightarrow> file_db \<Rightarrow> nat" where
  "count_outbox_events ctx aggregate db =
     rows_affected (\<lambda>r. ob_vault r = Some (ctx_id ctx) \<and> ob_aggregate_id r = aggregate) (db_outbox db)"

definition count_audit_entries :: "vault_context \<Rightarrow> string \<Rightarrow> file_db \<Rightarrow> nat" where
  "count_audit_entries ctx target db =
     rows_affected (\<lambda>r. au_vault r = ctx_id ctx \<and> au_target_id r = target) (db_audit db)"

definition validate_idempotency_key :: "string \<Rightarrow> state_error + unit" where
  "validate_idempotency_key key =
     (if key = [] \<or> length key > 256 \<or> any_control key
      then Err (InvalidInput ''idempotency key is invalid'') else Ok ())"

definition find_idempotency ::
  "vault_context \<Rightarrow> string \<Rightarrow> file_db \<Rightarrow> state_error + idempotency_lookup option" where
  "find_idempotency ctx key db =
     bind_r (validate_idempotency_key key) (\<lambda>_.
       (case find_row (\<lambda>j. jr_vault j = ctx_id ctx \<and> jr_idempotency_key j = Some key)
               (db_journal db) of
          None \<Rightarrow> Ok None
        | Some journal \<Rightarrow>
            (case find_row (\<lambda>r. rr_vault r = ctx_id ctx \<and> rr_idempotency_key r = Some key)
                    (db_revisions db) of
               Some rv \<Rightarrow>
                 bind_r (ok_or (InvalidInput ''revision file entry is missing'')
                           (get_by_id ctx (rr_file rv) db)) (\<lambda>file.
                   Ok (Some (Committed (jr_payload journal) file rv)))
             | None \<Rightarrow>
                 Ok (Some (InFlightLookup (jr_id journal) (jr_state journal)
                             (jr_payload journal))))))"

definition list_incomplete :: "vault_context \<Rightarrow> file_db \<Rightarrow> journal_record list" where
  "list_incomplete ctx db =
     sort_key jr_created_at
       (filter (\<lambda>j. jr_vault j = ctx_id ctx \<and> jr_state j \<in> {Prepared, FileCommitted})
          (db_journal db))"

definition list_needs_review :: "vault_context \<Rightarrow> file_db \<Rightarrow> journal_record list" where
  "list_needs_review ctx db =
     sort_key jr_created_at
       (filter (\<lambda>j. jr_vault j = ctx_id ctx \<and> jr_state j = NeedsReviewState) (db_journal db))"

definition summarize_incomplete ::
  "vault_context \<Rightarrow> file_db \<Rightarrow> (file_operation \<times> journal_state \<times> nat) list" where
  "summarize_incomplete ctx db =
     (let open_rows = filter (\<lambda>j. jr_vault j = ctx_id ctx \<and>
            jr_state j \<in> {Prepared, FileCommitted, NeedsReviewState}) (db_journal db);
          keys = remdups (map (\<lambda>j. (jr_operation j, jr_state j)) open_rows)
      in map (\<lambda>(op, st). (op, st,
             rows_affected (\<lambda>j. jr_operation j = op \<and> jr_state j = st) open_rows))
           (sort_key (\<lambda>(op, st). (file_operation_as_str op, journal_state_as_str st)) keys))"

section \<open>Journal writes\<close>

definition vault_registered :: "vault_id \<Rightarrow> file_db \<Rightarrow> bool" where
  "vault_registered v db \<longleftrightarrow> (\<exists>r \<in> set (db_vaults db). vr_id r = v)"

definition journal_key_taken :: "vault_id \<Rightarrow> string option \<Rightarrow> file_db \<Rightarrow> bool" where
  \<comment> \<open>the unique index on \<open>(vault_id, idempotency_key) WHERE idempotency_key IS NOT NULL\<close>\<close>
  "journal_key_taken v key db \<longleftrightarrow>
     key \<noteq> None \<and> (\<exists>j \<in> set (db_journal db). jr_vault j = v \<and> jr_idempotency_key j = key)"

definition prepare_operation ::
  "int \<Rightarrow> vault_context \<Rightarrow> prepare_operation_input \<Rightarrow> file_db \<Rightarrow>
     state_error + journal_record \<times> file_db" where
  "prepare_operation now ctx input db =
     bind_r (case po_idempotency_key input of
               Some key \<Rightarrow> validate_idempotency_key key | None \<Rightarrow> Ok ()) (\<lambda>_.
     bind_r (case po_expected_revision input of
               Some r \<Rightarrow> map_err InvalidDomain (revision_as_i64 r) | None \<Rightarrow> Ok 0) (\<lambda>_.
     if (\<exists>j \<in> set (db_journal db). jr_id j = po_id input)
        \<or> journal_key_taken (ctx_id ctx) (po_idempotency_key input) db
       then Err (Database UniqueViolation)
     else if \<not> vault_registered (ctx_id ctx) db then Err (Database ForeignKeyViolation)
     else
       (let row = \<lparr>jr_id = po_id input, jr_vault = ctx_id ctx, jr_operation = po_operation input,
              jr_state = Prepared, jr_source_path = po_source_path input,
              jr_destination_path = po_destination_path input,
              jr_prior_file_id = po_prior_file_id input,
              jr_expected_revision = po_expected_revision input, jr_prior_hash = po_prior_hash input,
              jr_proposed_hash = po_proposed_hash input, jr_temp_path = po_temp_path input,
              jr_payload = po_payload input, jr_idempotency_key = po_idempotency_key input,
              jr_created_at = now, jr_updated_at = now, jr_error = None\<rparr>
        in Ok (row, db\<lparr>db_journal := db_journal db @ [row]\<rparr>))))"

definition coalesce :: "'a option \<Rightarrow> 'a option \<Rightarrow> 'a option" where
  "coalesce a b = (case a of Some x \<Rightarrow> Some x | None \<Rightarrow> b)"

definition update_journal ::
  "vault_context \<Rightarrow> operation_id \<Rightarrow> journal_state set \<Rightarrow> (journal_record \<Rightarrow> journal_record) \<Rightarrow>
     state_error \<Rightarrow> file_db \<Rightarrow> state_error + unit \<times> file_db" where
  \<comment> \<open>\<open>UPDATE operation_journal SET .. WHERE vault_id = ? AND id = ? AND state IN ..\<close>, then the
      check that one row was affected\<close>
  "update_journal ctx oid states f e db =
     (let hit = (\<lambda>j. jr_vault j = ctx_id ctx \<and> jr_id j = oid \<and> jr_state j \<in> states)
      in if rows_affected hit (db_journal db) \<noteq> 1 then Err e
         else Ok ((), db\<lparr>db_journal := update_rows hit f (db_journal db)\<rparr>))"

definition mark_file_committed ::
  "int \<Rightarrow> vault_context \<Rightarrow> operation_id \<Rightarrow> string option \<Rightarrow> file_db \<Rightarrow> state_error + unit \<times> file_db" where
  "mark_file_committed now ctx oid proposed =
     update_journal ctx oid {Prepared}
       (\<lambda>j. j\<lparr>jr_state := FileCommitted, jr_proposed_hash := coalesce proposed (jr_proposed_hash j),
              jr_updated_at := now\<rparr>)
       (InvalidInput ''journal is not prepared'')"

definition set_proposed_hash ::
  "int \<Rightarrow> vault_context \<Rightarrow> operation_id \<Rightarrow> string \<Rightarrow> file_db \<Rightarrow> state_error + unit \<times> file_db" where
  "set_proposed_hash now ctx oid proposed db =
     (if proposed = [] \<or> 128 < length proposed then Err (InvalidInput ''proposed hash is invalid'')
      else update_journal ctx oid {Prepared}
             (\<lambda>j. j\<lparr>jr_proposed_hash := Some proposed, jr_updated_at := now\<rparr>)
             (InvalidInput ''journal is not prepared'') db)"

definition update_operation_payload ::
  "int \<Rightarrow> vault_context \<Rightarrow> operation_id \<Rightarrow> core_payload \<Rightarrow> string option \<Rightarrow> file_db \<Rightarrow>
     state_error + unit \<times> file_db" where
  "update_operation_payload now ctx oid payload proposed =
     update_journal ctx oid {Prepared}
       (\<lambda>j. j\<lparr>jr_payload := Some payload, jr_proposed_hash := coalesce proposed (jr_proposed_hash j),
              jr_updated_at := now\<rparr>)
       (InvalidInput ''journal is not prepared'')"

definition mark_terminal ::
  "int \<Rightarrow> vault_context \<Rightarrow> operation_id \<Rightarrow> journal_state \<Rightarrow> string option \<Rightarrow> file_db \<Rightarrow>
     state_error + unit \<times> file_db" where
  "mark_terminal now ctx oid st err =
     update_journal ctx oid {Prepared, FileCommitted}
       (\<lambda>j. j\<lparr>jr_state := st, jr_error := err, jr_updated_at := now\<rparr>)
       (InvalidInput ''journal is already terminal'')"

definition mark_rolled_back ::
  "int \<Rightarrow> vault_context \<Rightarrow> operation_id \<Rightarrow> string option \<Rightarrow> file_db \<Rightarrow> state_error + unit \<times> file_db" where
  "mark_rolled_back now ctx oid err = mark_terminal now ctx oid RolledBack err"

definition mark_needs_review ::
  "int \<Rightarrow> vault_context \<Rightarrow> operation_id \<Rightarrow> string \<Rightarrow> file_db \<Rightarrow> state_error + unit \<times> file_db" where
  "mark_needs_review now ctx oid err = mark_terminal now ctx oid NeedsReviewState (Some err)"

fun discard_loop ::
  "int \<Rightarrow> vault_context \<Rightarrow> journal_record list \<Rightarrow> file_db \<Rightarrow> state_error + unit \<times> file_db" where
  "discard_loop now ctx [] db = Ok ((), db)"
| "discard_loop now ctx (j # js) db =
     (if jr_vault j \<noteq> ctx_id ctx \<or> jr_state j \<notin> {Prepared, FileCommitted, NeedsReviewState}
      then Err (InvalidInput ''legacy memory journal is outside the discardable state'')
      else
        (let hit = (\<lambda>r. jr_vault r = ctx_id ctx \<and> jr_id r = jr_id j \<and> jr_state r = jr_state j \<and>
                        jr_updated_at r = jr_updated_at j)
         in if rows_affected hit (db_journal db) \<noteq> 1 then Err Conflict
            else discard_loop now ctx js
                   (db\<lparr>db_journal := update_rows hit (\<lambda>r. r\<lparr>jr_state := Discarded,
                         jr_error := Some ''discarded by legacy memory initialization'',
                         jr_updated_at := now\<rparr>) (db_journal db)\<rparr>)))"

definition discard_legacy_memory_journals ::
  "int \<Rightarrow> vault_context \<Rightarrow> journal_record list \<Rightarrow> file_db \<Rightarrow> state_error + unit \<times> file_db" where
  "discard_legacy_memory_journals now ctx js db =
     (if js = [] then Ok ((), db) else discard_loop now ctx js db)"

section \<open>The metadata commit\<close>

definition semantic_schema_present :: "file_db \<Rightarrow> state_error + bool" where
  "semantic_schema_present db =
     (case db_migration_version db of
        None \<Rightarrow> Ok False
      | Some v \<Rightarrow>
          (if v < 34 then Ok False
           else if \<not> db_semantic_tables db then Err IntegrityFailure
           else Ok True))"

definition invalidate_source ::
  "vault_id \<Rightarrow> file_id \<Rightarrow> string \<Rightarrow> int option \<Rightarrow> int \<Rightarrow> file_db \<Rightarrow> state_error + bool \<times> file_db" where
  "invalidate_source v i reason authorization now db =
     bind_r (semantic_schema_present db) (\<lambda>present.
       if \<not> present then Ok (False, db)
       else
         (let hit = (\<lambda>s. ss_vault s = v \<and> ss_file s = i);
              sources = update_rows hit (\<lambda>s. s\<lparr>ss_eligible := False, ss_pending_rebuild := True,
                  ss_invalid_reason := Some reason, ss_generation := ss_generation s + 1,
                  ss_authorization_revision :=
                    (case authorization of Some a \<Rightarrow> a | None \<Rightarrow> ss_authorization_revision s),
                  ss_updated_at := now\<rparr>) (db_sources db)
          in if rows_affected hit (db_sources db) = 0 then Ok (False, db\<lparr>db_sources := sources\<rparr>)
             else
               (let sid = map_option ss_source_id (find_row hit sources);
                    cards = update_rows (\<lambda>c. sc_vault c = v \<and> Some (sc_source_id c) = sid)
                      (\<lambda>c. c\<lparr>sc_eligibility := ''invalidated'', sc_updated_at := now\<rparr>) (db_cards db);
                    evidence = update_rows (\<lambda>e. se_vault e = v \<and> Some (se_source_id e) = sid)
                      (\<lambda>e. e\<lparr>se_validation_status := ''invalidated''\<rparr>) (db_evidence db)
                in Ok (True, db\<lparr>db_sources := sources, db_cards := cards, db_evidence := evidence\<rparr>))))"

definition apply_file_mutation_qualification ::
  "vault_id \<Rightarrow> file_id \<Rightarrow> vault_path \<Rightarrow> string \<Rightarrow> string option \<Rightarrow> int \<Rightarrow> file_db \<Rightarrow>
     state_error + unit \<times> file_db" where
  "apply_file_mutation_qualification v i p operation content_hash now db =
     bind_r (semantic_schema_present db) (\<lambda>present.
       if \<not> present then Ok ((), db)
       else
         (case map_option ss_current_hash
                 (find_row (\<lambda>s. ss_vault s = v \<and> ss_file s = i) (db_sources db)) of
            None \<Rightarrow> Ok ((), db)
          | Some current_hash \<Rightarrow>
              (if operation = ''move'' \<and> content_hash = Some current_hash then
                 Ok ((), db\<lparr>db_sources := update_rows (\<lambda>s. ss_vault s = v \<and> ss_file s = i \<and>
                              ss_current_hash s = current_hash)
                            (\<lambda>s. s\<lparr>ss_path := p, ss_updated_at := now\<rparr>) (db_sources db)\<rparr>)
               else if operation = ''delete'' \<or> operation = ''restore''
                       \<or> content_hash \<noteq> Some current_hash then
                 bind_r (invalidate_source v i ''source_changed'' None now db)
                   (\<lambda>(_, db'). Ok ((), db'))
               else Ok ((), db))))"

definition validate_event :: "outbox_event_input \<Rightarrow> state_error + unit" where
  "validate_event e =
     (if oe_type e = [] \<or> oe_aggregate_type e = [] \<or> oe_aggregate_id e = []
      then Err (InvalidInput ''outbox event identity is invalid'') else Ok ())"

definition outbox_row_of :: "int \<Rightarrow> vault_id \<Rightarrow> event_id \<Rightarrow> outbox_event_input \<Rightarrow> outbox_row" where
  "outbox_row_of now v i e =
     \<lparr>ob_id = i, ob_vault = Some v, ob_event_type = oe_type e,
      ob_aggregate_type = oe_aggregate_type e, ob_aggregate_id = oe_aggregate_id e,
      ob_payload = oe_payload e, ob_created_at = now, ob_available_at = now,
      ob_claimed_by = None, ob_claimed_until = None, ob_delivered_at = None,
      ob_attempts = 0, ob_last_error = None, ob_dead_lettered = False, ob_dead_letter_reason = None\<rparr>"

fun insert_outbox ::
  "int \<Rightarrow> vault_id \<Rightarrow> (nat \<Rightarrow> event_id) \<Rightarrow> nat \<Rightarrow> outbox_event_input list \<Rightarrow> file_db \<Rightarrow>
     state_error + unit \<times> file_db" where
  "insert_outbox now v fresh n [] db = Ok ((), db)"
| "insert_outbox now v fresh n (e # es) db =
     bind_r (validate_event e) (\<lambda>_.
       if (\<exists>r \<in> set (db_outbox db). ob_id r = fresh n) then Err (Database UniqueViolation)
       else insert_outbox now v fresh (n + 1) es
         (db\<lparr>db_outbox := db_outbox db @ [outbox_row_of now v (fresh n) e]\<rparr>))"

definition archive_tombstone ::
  "int \<Rightarrow> vault_id \<Rightarrow> commit_mutation_input \<Rightarrow> file_record option \<Rightarrow> file_db \<Rightarrow>
     state_error + unit \<times> file_db" where
  "archive_tombstone now v input destination db =
     (case ci_tombstone_archive_path input of
        None \<Rightarrow> Ok ((), db)
      | Some archive_path \<Rightarrow>
          (case destination of
             None \<Rightarrow> Err (InvalidInput ''tombstone archive was requested without a destination'')
           | Some dest \<Rightarrow>
               (if fr_deleted_at dest = None \<or> fr_id dest = ci_file_id input
                then Err (InvalidInput ''tombstone archive target is not a prior destination'')
                else if (\<exists>r \<in> set (db_files db). fr_vault r = v \<and> fr_path r = archive_path)
                then Err (InvalidInput ''tombstone archive path is already occupied'')
                else
                  (let hit = (\<lambda>r. fr_vault r = v \<and> fr_id r = fr_id dest \<and> fr_deleted_at r \<noteq> None)
                   in if rows_affected hit (db_files db) \<noteq> 1
                      then Err (InvalidInput ''tombstone archive update did not match one row'')
                      else Ok ((), db\<lparr>db_files := update_rows hit
                             (\<lambda>r. r\<lparr>fr_path := archive_path, fr_updated_at := now\<rparr>)
                             (db_files db)\<rparr>)))))"

definition check_expected ::
  "commit_mutation_input \<Rightarrow> file_record option \<Rightarrow> state_error + unit" where
  "check_expected input current =
     (case ci_expected_revision input of
        Some expected \<Rightarrow>
          (case current of
             None \<Rightarrow> Err (InvalidDomain (PreconditionFailed ''entry does not exist''))
           | Some c \<Rightarrow>
               (if \<not> is_active c \<and> ci_operation input \<noteq> OpRestore
                then Err (InvalidDomain (PreconditionFailed ''entry is deleted''))
                else if fr_revision c \<noteq> expected
                then Err (InvalidDomain (DomainRevisionConflict expected (fr_revision c)))
                else Ok ()))
      | None \<Rightarrow>
          (case current of
             None \<Rightarrow> Ok ()
           | Some c \<Rightarrow>
               (if is_active c \<and> ci_require_absent input
                then Err (InvalidDomain (PreconditionFailed ''entry already exists''))
                else Ok ())))"

definition size_as_i64 :: "u64 \<Rightarrow> state_error + int" where
  "size_as_i64 n =
     (if uint n < 2 ^ 63 then Ok (uint n) else Err (InvalidInput ''file size is too large''))"

definition file_row ::
  "vault_id \<Rightarrow> commit_mutation_input \<Rightarrow> revision \<Rightarrow> int \<Rightarrow> int \<Rightarrow> file_record" where
  "file_row v input next created now =
     \<lparr>fr_id = ci_file_id input, fr_vault = v, fr_path = ci_path input,
      fr_entry_type = ci_entry_type input, fr_revision = next,
      fr_content_hash = ci_content_hash input, fr_size = ci_size input,
      fr_modified_at = ci_modified_at input, fr_identity = ci_filesystem_identity input,
      fr_deleted_at = ci_deleted_at input, fr_created_at = created, fr_updated_at = now\<rparr>"

definition store_entry ::
  "int \<Rightarrow> vault_id \<Rightarrow> commit_mutation_input \<Rightarrow> file_record option \<Rightarrow> revision \<Rightarrow> file_db \<Rightarrow>
     state_error + unit \<times> file_db" where
  "store_entry now v input current next db =
     bind_r (map_err InvalidDomain (revision_as_i64 next)) (\<lambda>_.
     bind_r (size_as_i64 (ci_size input)) (\<lambda>_.
     (let taken = (\<exists>r \<in> set (db_files db). fr_vault r = v \<and> fr_path r = ci_path input \<and>
                     fr_id r \<noteq> ci_file_id input)
      in case current of
        Some c \<Rightarrow>
          bind_r (map_err InvalidDomain (revision_as_i64 (fr_revision c))) (\<lambda>_.
            (let hit = (\<lambda>r. fr_vault r = v \<and> fr_id r = ci_file_id input \<and>
                            fr_revision r = fr_revision c)
             in if rows_affected hit (db_files db) \<noteq> 1
                then bind_r (map_err InvalidDomain (revision_next (fr_revision c))) (\<lambda>n.
                       Err (InvalidDomain (DomainRevisionConflict (fr_revision c) n)))
                else if taken then Err (Database UniqueViolation)
                else Ok ((), db\<lparr>db_files := update_rows hit
                       (\<lambda>r. file_row v input next (fr_created_at r) now) (db_files db)\<rparr>)))
      | None \<Rightarrow>
          (if taken \<or> (\<exists>r \<in> set (db_files db). fr_id r = ci_file_id input)
           then Err (Database UniqueViolation)
           else if \<not> vault_registered v db then Err (Database ForeignKeyViolation)
           else Ok ((), db\<lparr>db_files := db_files db @ [file_row v input next now now]\<rparr>)))))"

definition insert_revision ::
  "file_revision_record \<Rightarrow> file_db \<Rightarrow> state_error + unit \<times> file_db" where
  "insert_revision row db =
     (if (\<exists>r \<in> set (db_revisions db). rr_id r = rr_id row
           \<or> (rr_vault r = rr_vault row \<and> rr_file r = rr_file row \<and> rr_revision r = rr_revision row)
           \<or> (rr_vault r = rr_vault row \<and> rr_idempotency_key row \<noteq> None
               \<and> rr_idempotency_key r = rr_idempotency_key row))
      then Err (Database UniqueViolation)
      else if \<not> (\<exists>f \<in> set (db_files db). fr_vault f = rr_vault row \<and> fr_id f = rr_file row)
      then Err (Database ForeignKeyViolation)
      else Ok ((), db\<lparr>db_revisions := db_revisions db @ [row]\<rparr>))"

definition insert_audit :: "audit_row \<Rightarrow> file_db \<Rightarrow> state_error + unit \<times> file_db" where
  "insert_audit row db =
     (if (\<exists>r \<in> set (db_audit db). au_id r = au_id row) then Err (Database UniqueViolation)
      else if \<not> vault_registered (au_vault row) db then Err (Database ForeignKeyViolation)
      else Ok ((), db\<lparr>db_audit := db_audit db @ [row]\<rparr>))"

definition check_destination ::
  "commit_mutation_input \<Rightarrow> file_record option \<Rightarrow> state_error + unit" where
  "check_destination input destination =
     (case destination of
        None \<Rightarrow> Ok ()
      | Some d \<Rightarrow>
          (if ci_require_absent input \<and> fr_deleted_at d = None \<and> fr_id d \<noteq> ci_file_id input
           then Err (InvalidDomain (PreconditionFailed ''destination already exists''))
           else Ok ()))"

definition check_tombstone_reuse ::
  "commit_mutation_input \<Rightarrow> file_record option \<Rightarrow> state_error + unit" where
  "check_tombstone_reuse input destination =
     (case destination of
        None \<Rightarrow> Ok ()
      | Some d \<Rightarrow>
          (if fr_deleted_at d \<noteq> None \<and> fr_id d \<noteq> ci_file_id input
              \<and> ci_tombstone_archive_path input = None
           then Err (InvalidInput ''destination tombstone must be reused explicitly'')
           else Ok ()))"

definition revision_row ::
  "commit_env \<Rightarrow> vault_id \<Rightarrow> commit_mutation_input \<Rightarrow> file_record option \<Rightarrow> revision \<Rightarrow>
     file_revision_record" where
  "revision_row env v input current next =
     \<lparr>rr_id = ce_revision_id env, rr_vault = v, rr_file = ci_file_id input, rr_revision = next,
      rr_operation = ci_operation input,
      rr_path_before = coalesce (ci_path_before input) (map_option fr_path current),
      rr_path_after = coalesce (ci_path_after input) (Some (ci_path input)),
      rr_content_hash = ci_content_hash input, rr_history_blob_hash = ci_history_blob_hash input,
      rr_size = Some (ci_size input),
      rr_actor_type = actor_type_label (actor_type (ci_actor input)),
      rr_actor_id = actor_id (ci_actor input), rr_source_plane = ci_source_plane input,
      rr_idempotency_key = ci_idempotency_key input, rr_created_at = ce_now env\<rparr>"

definition commit_audit_row ::
  "(uuid \<Rightarrow> string) \<Rightarrow> (string \<Rightarrow> string) \<Rightarrow> commit_env \<Rightarrow> vault_id \<Rightarrow> commit_mutation_input \<Rightarrow>
     audit_row" where
  "commit_audit_row uuid_str sha256 env v input =
     \<lparr>au_id = ce_audit_id env, au_occurred_at = ce_now env, au_request_id = ci_request_id input,
      au_vault = v, au_plane = source_plane_as_str (ci_source_plane input),
      au_actor_type = actor_type_label (actor_type (ci_actor input)),
      au_actor_id = actor_id (ci_actor input), au_action = ci_audit_action input,
      au_target_type = ''file'', au_target_id = uuid_str (ci_file_id input),
      au_target_path_hash = sha256 (path_text (ci_path input)), au_result = ''success'',
      au_metadata = ci_audit_metadata input\<rparr>"

definition run_hook ::
  "(commit_hook_phase \<Rightarrow> string option) \<Rightarrow> commit_hook_phase \<Rightarrow> state_error + unit" where
  "run_hook hook phase =
     (case hook phase of None \<Rightarrow> Ok () | Some m \<Rightarrow> Err (CommitHookRejected m))"

definition finish_journal ::
  "int \<Rightarrow> vault_context \<Rightarrow> operation_id \<Rightarrow> file_db \<Rightarrow> state_error + unit \<times> file_db" where
  "finish_journal now ctx oid =
     update_journal ctx oid {FileCommitted}
       (\<lambda>j. j\<lparr>jr_state := MetadataCommitted, jr_updated_at := now, jr_error := None\<rparr>)
       (InvalidInput ''journal is not file-committed'')"

definition next_revision_of :: "file_record option \<Rightarrow> state_error + revision" where
  "next_revision_of current =
     (case current of
        Some c \<Rightarrow> map_err InvalidDomain (revision_next (fr_revision c))
      | None \<Rightarrow> Ok 1)"

definition commit_mutation ::
  "(uuid \<Rightarrow> string) \<Rightarrow> (string \<Rightarrow> string) \<Rightarrow> commit_env \<Rightarrow> (commit_hook_phase \<Rightarrow> string option) \<Rightarrow>
     vault_context \<Rightarrow> commit_mutation_input \<Rightarrow> file_db \<Rightarrow>
     state_error + mutation_commit_result \<times> file_db" where
  "commit_mutation uuid_str sha256 env hook ctx input db =
     (let v = ctx_id ctx; now = ce_now env;
          current = get_by_id ctx (ci_file_id input) db;
          destination = get_any_by_path ctx (ci_path input) db
      in
      bind_r (run_hook hook HookMetadataTransactionStarted) (\<lambda>_.
      bind_r (check_destination input destination) (\<lambda>_.
      bind_r (archive_tombstone now v input destination db) (\<lambda>(_, db1).
      bind_r (check_expected input current) (\<lambda>_.
      bind_r (if ci_operation input = OpMove \<and> current = None
              then Err (InvalidInput ''move file entry is missing'') else Ok ()) (\<lambda>_.
      bind_r (check_tombstone_reuse input destination) (\<lambda>_.
      bind_r (next_revision_of current) (\<lambda>next.
      bind_r (store_entry now v input current next db1) (\<lambda>(_, db2).
      bind_r (insert_revision (revision_row env v input current next) db2) (\<lambda>(_, db3).
      bind_r (apply_file_mutation_qualification v (ci_file_id input) (ci_path input)
                (file_operation_as_str (ci_operation input)) (ci_content_hash input) now db3)
        (\<lambda>(_, db4).
      bind_r (insert_audit (commit_audit_row uuid_str sha256 env v input) db4) (\<lambda>(_, db5).
      bind_r (insert_outbox now v (ce_event_id env) 0 (ci_outbox_events input) db5) (\<lambda>(_, db6).
      bind_r (run_hook hook HookOutboxInserted) (\<lambda>_.
      bind_r (finish_journal now ctx (ci_operation_id input) db6) (\<lambda>(_, db7).
      Ok (\<lparr>mc_file = file_row v input next
                          (case current of Some c \<Rightarrow> fr_created_at c | None \<Rightarrow> now) now,
           mc_revision = revision_row env v input current next\<rparr>, db7))))))))))))))))"

section \<open>Replayed creates\<close>

definition create_payload_matches ::
  "operation_id \<Rightarrow> file_id \<Rightarrow> supersede_create_witness \<Rightarrow> core_payload \<Rightarrow> bool" where
  \<comment> \<open>the fields of a create payload that the adjudication reads, for the old and the new journal\<close>
  "create_payload_matches oid fid w p \<longleftrightarrow>
     cp_operation p = file_operation_as_str OpCreate \<and> cp_file_id p = fid \<and> cp_path p = sw_path w \<and>
     cp_content_hash p = Some (sw_physical_hash w) \<and> cp_operation_id p = oid \<and>
     cp_entry_type p = entry_type_as_str EntryFile \<and> cp_path_before p = None \<and>
     cp_path_after p = Some (sw_path w) \<and> cp_deleted_at p = None \<and> cp_require_absent p"

definition create_journal_matches ::
  "vault_context \<Rightarrow> file_id \<Rightarrow> supersede_create_witness \<Rightarrow> journal_record \<Rightarrow> bool" where
  "create_journal_matches ctx fid w j \<longleftrightarrow>
     jr_vault j = ctx_id ctx \<and> jr_operation j = OpCreate \<and>
     jr_destination_path j = Some (sw_path w) \<and>
     (\<forall>s. jr_source_path j = Some s \<longrightarrow> s = sw_path w) \<and>
     jr_prior_file_id j = Some fid \<and> jr_expected_revision j = None \<and> jr_prior_hash j = None \<and>
     jr_proposed_hash j = Some (sw_physical_hash w)"

lemma create_journal_matches_code [code]:
  "create_journal_matches ctx fid w j \<longleftrightarrow>
     jr_vault j = ctx_id ctx \<and> jr_operation j = OpCreate \<and>
     jr_destination_path j = Some (sw_path w) \<and>
     (case jr_source_path j of None \<Rightarrow> True | Some s \<Rightarrow> s = sw_path w) \<and>
     jr_prior_file_id j = Some fid \<and> jr_expected_revision j = None \<and> jr_prior_hash j = None \<and>
     jr_proposed_hash j = Some (sw_physical_hash w)"
  by (auto simp: create_journal_matches_def split: option.splits)

definition supersede_eligible :: "bool \<Rightarrow> journal_record \<Rightarrow> bool" where
  "supersede_eligible allow_reviewed j \<longleftrightarrow>
     jr_state j = FileCommitted \<or>
     (allow_reviewed \<and> jr_state j = NeedsReviewState \<and>
      jr_error j = Some ''recovery metadata destination already exists'')"

definition replacement_proven ::
  "vault_context \<Rightarrow> supersede_create_witness \<Rightarrow> journal_record \<Rightarrow> file_record \<Rightarrow>
     file_revision_record \<Rightarrow> journal_record \<Rightarrow> bool" where
  "replacement_proven ctx w j active replacement c \<longleftrightarrow>
     create_journal_matches ctx (sw_replacement_file_id w) w c \<and>
     jr_state c = MetadataCommitted \<and> jr_id c \<noteq> sw_operation_id w \<and>
     jr_updated_at c = rr_created_at replacement \<and> jr_created_at j < jr_created_at c \<and>
     jr_created_at c \<le> rr_created_at replacement \<and>
     (case jr_payload c of
        None \<Rightarrow> False
      | Some p \<Rightarrow> create_payload_matches (jr_id c) (sw_replacement_file_id w) w p \<and>
                  cp_size p = fr_size active)"

definition supersede_audit_row ::
  "(uuid \<Rightarrow> string) \<Rightarrow> (string \<Rightarrow> string) \<Rightarrow> event_id \<Rightarrow> int \<Rightarrow> vault_context \<Rightarrow>
     supersede_create_witness \<Rightarrow> operation_id \<Rightarrow> audit_row" where
  "supersede_audit_row uuid_str sha256 aid now ctx w replacement_id =
     \<lparr>au_id = aid, au_occurred_at = now, au_request_id = None, au_vault = ctx_id ctx,
      au_plane = ''system'', au_actor_type = ''system'', au_actor_id = None,
      au_action = ''file.recovery_superseded'', au_target_type = ''operation_journal'',
      au_target_id = uuid_str (sw_operation_id w),
      au_target_path_hash = sha256 (path_text (sw_path w)), au_result = ''success'',
      au_metadata = JObj [(''reason'', JStr ''verified_later_create''),
        (''operation_id'', JStr (uuid_str (sw_operation_id w))),
        (''replacement_operation_id'', JStr (uuid_str replacement_id)),
        (''replacement_file_id'', JStr (uuid_str (sw_replacement_file_id w))),
        (''replacement_revision'', JInt (uint (sw_replacement_revision w))),
        (''content_hash'', JStr (sw_physical_hash w))]\<rparr>"

definition supersede_witness ::
  "vault_context \<Rightarrow> supersede_create_witness \<Rightarrow> journal_record \<Rightarrow> file_db \<Rightarrow> operation_id option" where
  \<comment> \<open>the evidence checks; \<open>Some\<close> names the later create that proves the replacement\<close>
  "supersede_witness ctx w j db =
     (case jr_payload j of
        None \<Rightarrow> None
      | Some payload \<Rightarrow>
          (if \<not> create_journal_matches ctx (sw_prior_file_id w) w j
              \<or> \<not> create_payload_matches (sw_operation_id w) (sw_prior_file_id w) w payload
           then None
           else if (\<exists>f \<in> set (db_files db). fr_vault f = ctx_id ctx \<and> fr_id f = sw_prior_file_id w)
                \<or> (\<exists>r \<in> set (db_revisions db). rr_vault r = ctx_id ctx \<and>
                      rr_file r = sw_prior_file_id w)
           then None
           else
             (case get_active ctx (sw_path w) db of
                None \<Rightarrow> None
              | Some active \<Rightarrow>
                  (if fr_id active \<noteq> sw_replacement_file_id w \<or> fr_id active = sw_prior_file_id w
                      \<or> fr_revision active \<noteq> sw_replacement_revision w
                      \<or> fr_content_hash active \<noteq> Some (sw_physical_hash w)
                      \<or> fr_entry_type active \<noteq> EntryFile \<or> cp_size payload \<noteq> fr_size active
                   then None
                   else
                     (case find_row (\<lambda>r. rr_vault r = ctx_id ctx \<and>
                              rr_file r = sw_replacement_file_id w \<and>
                              rr_revision r = sw_replacement_revision w) (db_revisions db) of
                        None \<Rightarrow> None
                      | Some replacement \<Rightarrow>
                          (if rr_operation replacement \<noteq> OpCreate \<or> rr_path_before replacement \<noteq> None
                              \<or> rr_path_after replacement \<noteq> Some (sw_path w)
                              \<or> rr_content_hash replacement \<noteq> Some (sw_physical_hash w)
                              \<or> rr_size replacement \<noteq> Some (fr_size active)
                           then None
                           else
                             (case find_row (replacement_proven ctx w j active replacement)
                                     (db_journal db) of
                                None \<Rightarrow> None
                              | Some c \<Rightarrow>
                                  (if (\<exists>k \<in> set (db_journal db). jr_vault k = ctx_id ctx \<and>
                                        (jr_source_path k = Some (sw_path w)
                                          \<or> jr_destination_path k = Some (sw_path w)) \<and>
                                        jr_id k \<noteq> sw_operation_id w \<and>
                                        jr_state k \<in> {Prepared, FileCommitted, NeedsReviewState})
                                   then None else Some (jr_id c)))))))))"

definition supersede_replayed_create_inner ::
  "(uuid \<Rightarrow> string) \<Rightarrow> (string \<Rightarrow> string) \<Rightarrow> event_id \<Rightarrow> int \<Rightarrow> vault_context \<Rightarrow>
     supersede_create_witness \<Rightarrow> bool \<Rightarrow> file_db \<Rightarrow>
     state_error + supersede_create_result \<times> file_db" where
  "supersede_replayed_create_inner uuid_str sha256 aid now ctx w allow_reviewed db =
     (case find_row (\<lambda>j. jr_vault j = ctx_id ctx \<and> jr_id j = sw_operation_id w) (db_journal db) of
        None \<Rightarrow> Ok (NotProven, db)
      | Some j \<Rightarrow>
          bind_r (map_err InvalidDomain (revision_as_i64 (sw_replacement_revision w))) (\<lambda>_.
            if \<not> supersede_eligible allow_reviewed j
            then Ok (if jr_state j = Superseded then AlreadyApplied else NotProven, db)
            else
              (case supersede_witness ctx w j db of
                 None \<Rightarrow> Ok (NotProven, db)
               | Some replacement_id \<Rightarrow>
                   (case update_journal ctx (sw_operation_id w) {jr_state j}
                           (\<lambda>r. r\<lparr>jr_state := Superseded, jr_updated_at := now,
                                  jr_error := Some ''superseded by verified later create''\<rparr>)
                           Conflict db of
                      Err _ \<Rightarrow> Ok (NotProven, db)
                    | Ok (_, db1) \<Rightarrow>
                        bind_r (insert_audit (supersede_audit_row uuid_str sha256 aid now ctx w
                                  replacement_id) db1)
                          (\<lambda>(_, db2). Ok (Applied, db2))))))"

definition supersede_replayed_create ::
  "(uuid \<Rightarrow> string) \<Rightarrow> (string \<Rightarrow> string) \<Rightarrow> event_id \<Rightarrow> int \<Rightarrow> vault_context \<Rightarrow>
     supersede_create_witness \<Rightarrow> file_db \<Rightarrow> state_error + supersede_create_result \<times> file_db" where
  "supersede_replayed_create uuid_str sha256 aid now ctx w db =
     supersede_replayed_create_inner uuid_str sha256 aid now ctx w False db"

definition supersede_reviewed_replayed_create ::
  "(uuid \<Rightarrow> string) \<Rightarrow> (string \<Rightarrow> string) \<Rightarrow> event_id \<Rightarrow> int \<Rightarrow> vault_context \<Rightarrow>
     supersede_create_witness \<Rightarrow> file_db \<Rightarrow> state_error + supersede_create_result \<times> file_db" where
  "supersede_reviewed_replayed_create uuid_str sha256 aid now ctx w db =
     supersede_replayed_create_inner uuid_str sha256 aid now ctx w True db"

end
