(* ===== verification/File_Repository.thy ===== *)
theory File_Repository
  imports File_State
begin

text \<open>
  What every write of the file repository keeps (crates/state/src/files.rs).

  \<^item> \<open>journal_evolves\<close>: journal rows are never deleted, their identity is fixed, and their state only
    moves along the lifecycle of \<open>JournalState\<close>.
  \<^item> \<open>history_grows\<close>: revision, audit and outbox rows are only appended; a file row keeps its
    identity and its revision number never decreases.
  \<^item> \<open>other_vaults_same\<close>: rows of other Vaults are untouched.
  \<^item> \<open>db_ok\<close>: the uniqueness constraints, and the history of every file is gapless: its revision rows
    are numbered exactly from 1 to its current revision.

  The three relations interpret the locale \<open>step_order\<close>; the labels interpret \<open>label_codec\<close>.
\<close>

section \<open>Relations between database states\<close>

fun journal_next :: "journal_state \<Rightarrow> journal_state \<Rightarrow> bool" where
  "journal_next Prepared t = (t \<in> {FileCommitted, RolledBack, NeedsReviewState, Discarded})"
| "journal_next FileCommitted t =
     (t \<in> {MetadataCommitted, RolledBack, NeedsReviewState, Superseded, Discarded})"
| "journal_next NeedsReviewState t = (t \<in> {Superseded, Discarded})"
| "journal_next MetadataCommitted t = False"
| "journal_next RolledBack t = False"
| "journal_next Superseded t = False"
| "journal_next Discarded t = False"

definition journal_row_evolves :: "journal_record \<Rightarrow> journal_record \<Rightarrow> bool" where
  "journal_row_evolves j k \<longleftrightarrow>
     jr_id k = jr_id j \<and> jr_vault k = jr_vault j \<and> jr_operation k = jr_operation j \<and>
     jr_destination_path k = jr_destination_path j \<and> jr_temp_path k = jr_temp_path j \<and>
     jr_idempotency_key k = jr_idempotency_key j \<and> jr_created_at k = jr_created_at j \<and>
     journal_next\<^sup>*\<^sup>* (jr_state j) (jr_state k)"

definition extends_by :: "('r \<Rightarrow> 'r \<Rightarrow> bool) \<Rightarrow> 'r list \<Rightarrow> 'r list \<Rightarrow> bool" where
  "extends_by R xs ys \<longleftrightarrow> length xs \<le> length ys \<and> (\<forall>i < length xs. R (xs ! i) (ys ! i))"

definition journal_evolves :: "file_db \<Rightarrow> file_db \<Rightarrow> bool" where
  "journal_evolves db db' \<longleftrightarrow> extends_by journal_row_evolves (db_journal db) (db_journal db')"

definition file_row_evolves :: "file_record \<Rightarrow> file_record \<Rightarrow> bool" where
  "file_row_evolves f g \<longleftrightarrow>
     fr_id g = fr_id f \<and> fr_vault g = fr_vault f \<and> fr_created_at g = fr_created_at f \<and>
     fr_revision f \<le> fr_revision g"

definition history_grows :: "file_db \<Rightarrow> file_db \<Rightarrow> bool" where
  "history_grows db db' \<longleftrightarrow>
     prefix (db_revisions db) (db_revisions db') \<and> prefix (db_audit db) (db_audit db') \<and>
     prefix (db_outbox db) (db_outbox db') \<and>
     extends_by file_row_evolves (db_files db) (db_files db')"

definition other_vaults_same :: "vault_id \<Rightarrow> file_db \<Rightarrow> file_db \<Rightarrow> bool" where
  "other_vaults_same v db db' \<longleftrightarrow>
     db_vaults db' = db_vaults db \<and>
     filter (\<lambda>r. fr_vault r \<noteq> v) (db_files db') = filter (\<lambda>r. fr_vault r \<noteq> v) (db_files db) \<and>
     filter (\<lambda>r. rr_vault r \<noteq> v) (db_revisions db') = filter (\<lambda>r. rr_vault r \<noteq> v) (db_revisions db) \<and>
     filter (\<lambda>r. jr_vault r \<noteq> v) (db_journal db') = filter (\<lambda>r. jr_vault r \<noteq> v) (db_journal db) \<and>
     filter (\<lambda>r. au_vault r \<noteq> v) (db_audit db') = filter (\<lambda>r. au_vault r \<noteq> v) (db_audit db) \<and>
     filter (\<lambda>r. ob_vault r \<noteq> Some v) (db_outbox db')
       = filter (\<lambda>r. ob_vault r \<noteq> Some v) (db_outbox db) \<and>
     filter (\<lambda>r. ss_vault r \<noteq> v) (db_sources db') = filter (\<lambda>r. ss_vault r \<noteq> v) (db_sources db) \<and>
     filter (\<lambda>r. sc_vault r \<noteq> v) (db_cards db') = filter (\<lambda>r. sc_vault r \<noteq> v) (db_cards db) \<and>
     filter (\<lambda>r. se_vault r \<noteq> v) (db_evidence db') = filter (\<lambda>r. se_vault r \<noteq> v) (db_evidence db)"

definition db_step :: "vault_id \<Rightarrow> file_db \<Rightarrow> file_db \<Rightarrow> bool" where
  "db_step v db db' \<longleftrightarrow>
     journal_evolves db db' \<and> history_grows db db' \<and> other_vaults_same v db db'"

definition rev_key :: "file_revision_record \<Rightarrow> vault_id \<times> file_id \<times> revision" where
  "rev_key r = (rr_vault r, rr_file r, rr_revision r)"

definition gapless :: "file_record list \<Rightarrow> file_revision_record list \<Rightarrow> bool" where
  "gapless fs rs \<longleftrightarrow>
     (\<forall>f \<in> set fs. \<forall>n. (fr_vault f, fr_id f, n) \<in> rev_key ` set rs \<longleftrightarrow> 1 \<le> n \<and> n \<le> fr_revision f)"

definition files_keys :: "file_record list \<Rightarrow> bool" where
  "files_keys fs \<longleftrightarrow>
     distinct (map fr_id fs) \<and> distinct (map (\<lambda>r. (fr_vault r, fr_path r)) fs)"

definition revisions_owned :: "file_record list \<Rightarrow> file_revision_record list \<Rightarrow> bool" where
  "revisions_owned fs rs \<longleftrightarrow>
     distinct (map rev_key rs) \<and>
     (\<forall>r \<in> set rs. \<exists>f \<in> set fs. fr_vault f = rr_vault r \<and> fr_id f = rr_file r)"

definition journal_keys :: "journal_record list \<Rightarrow> bool" where
  "journal_keys js \<longleftrightarrow>
     distinct (map jr_id js) \<and>
     (\<forall>j \<in> set js. \<forall>k \<in> set js. jr_vault j = jr_vault k \<longrightarrow> jr_idempotency_key j \<noteq> None \<longrightarrow>
        jr_idempotency_key j = jr_idempotency_key k \<longrightarrow> jr_id j = jr_id k)"

definition db_ok :: "file_db \<Rightarrow> bool" where
  "db_ok db \<longleftrightarrow>
     files_keys (db_files db) \<and> revisions_owned (db_files db) (db_revisions db) \<and>
     gapless (db_files db) (db_revisions db) \<and> journal_keys (db_journal db)"

text \<open>The writes of the repository, in any order and with any arguments.\<close>

inductive repo_write :: "vault_context \<Rightarrow> file_db \<Rightarrow> file_db \<Rightarrow> bool" for ctx where
  w_prepare: "prepare_operation now ctx input db = Ok (j, db') \<Longrightarrow> repo_write ctx db db'"
| w_file_committed: "mark_file_committed now ctx oid h db = Ok (u, db') \<Longrightarrow> repo_write ctx db db'"
| w_proposed: "set_proposed_hash now ctx oid h2 db = Ok (u, db') \<Longrightarrow> repo_write ctx db db'"
| w_payload: "update_operation_payload now ctx oid p h db = Ok (u, db') \<Longrightarrow> repo_write ctx db db'"
| w_rolled_back: "mark_rolled_back now ctx oid e db = Ok (u, db') \<Longrightarrow> repo_write ctx db db'"
| w_needs_review: "mark_needs_review now ctx oid e2 db = Ok (u, db') \<Longrightarrow> repo_write ctx db db'"
| w_discard: "discard_legacy_memory_journals now ctx js db = Ok (u, db') \<Longrightarrow> repo_write ctx db db'"
| w_commit: "commit_mutation uuid_str sha256 env hook ctx ci db = Ok (res, db') \<Longrightarrow> repo_write ctx db db'"
| w_supersede: "supersede_replayed_create_inner uuid_str sha256 aid now ctx w rv db = Ok (sr, db') \<Longrightarrow>
    repo_write ctx db db'"

definition db_empty :: "vault_row list \<Rightarrow> int option \<Rightarrow> bool \<Rightarrow> file_db" where
  "db_empty vaults version tables =
     \<lparr>db_vaults = vaults, db_files = [], db_revisions = [], db_journal = [], db_audit = [],
      db_outbox = [], db_migration_version = version, db_semantic_tables = tables,
      db_sources = [], db_cards = [], db_evidence = []\<rparr>"

definition repo_writes :: "file_db \<Rightarrow> file_db \<Rightarrow> bool" where
  "repo_writes db db' \<longleftrightarrow> (\<exists>ctx. repo_write ctx db db')"

text \<open>A small database for the witnesses: one Vault, and a create whose file phase is done.\<close>

definition example_ctx :: vault_context where
  "example_ctx = \<lparr>ctx_id = 7, ctx_slug = ''home'', ctx_content_root = [''srv'', ''home''],
                  ctx_settings_revision = 1\<rparr>"

definition example_prepare :: prepare_operation_input where
  "example_prepare =
     \<lparr>po_id = 100, po_operation = OpCreate, po_source_path = None,
      po_destination_path = Some (VaultPath ''a.md''), po_prior_file_id = Some 1,
      po_expected_revision = None, po_prior_hash = None, po_proposed_hash = None,
      po_temp_path = None, po_payload = None, po_idempotency_key = Some ''k1''\<rparr>"

definition example_db0 :: file_db where
  "example_db0 = db_empty [\<lparr>vr_id = 7, vr_slug = ''home'', vr_content_root = [''srv'', ''home''],
                            vr_status = VaultActive\<rparr>] None False"

definition result_db :: "state_error + 'a \<times> file_db \<Rightarrow> file_db \<Rightarrow> file_db" where
  "result_db r db = (case r of Err _ \<Rightarrow> db | Ok (_, db') \<Rightarrow> db')"

definition example_db1 :: file_db where
  "example_db1 = result_db (prepare_operation 10 example_ctx example_prepare example_db0) example_db0"

definition example_db2 :: file_db where
  "example_db2 = result_db (mark_file_committed 11 example_ctx 100 (Some ''aa'') example_db1) example_db1"

definition example_commit :: commit_mutation_input where
  "example_commit =
     \<lparr>ci_operation_id = 100, ci_file_id = 1, ci_entry_type = EntryFile,
      ci_path = VaultPath ''a.md'', ci_path_before = None, ci_path_after = None,
      ci_expected_revision = None, ci_require_absent = True, ci_tombstone_archive_path = None,
      ci_content_hash = Some ''aa'', ci_history_blob_hash = Some ''aa'', ci_size = 5,
      ci_modified_at = 12, ci_filesystem_identity = None, ci_deleted_at = None,
      ci_operation = OpCreate, ci_actor = actor_system, ci_source_plane = PlaneSystem,
      ci_idempotency_key = Some ''k1'', ci_audit_action = ''file.create'',
      ci_audit_metadata = JNull, ci_request_id = None,
      ci_outbox_events = [\<lparr>oe_type = ''FileCreated'', oe_aggregate_type = ''file'',
                            oe_aggregate_id = ''1'', oe_payload = JNull\<rparr>]\<rparr>"

definition example_env :: commit_env where
  "example_env = \<lparr>ce_now = 12, ce_revision_id = 200, ce_audit_id = 300,
                  ce_event_id = (\<lambda>n. word_of_nat (400 + n))\<rparr>"

definition example_result :: "state_error + mutation_commit_result \<times> file_db" where
  "example_result =
     commit_mutation (\<lambda>_. ''id'') id example_env (\<lambda>_. None) example_ctx example_commit example_db2"

definition example_replace :: commit_mutation_input where
  "example_replace = example_commit\<lparr>ci_operation_id := 101, ci_expected_revision := Some 1,
     ci_require_absent := False, ci_operation := OpReplace, ci_idempotency_key := None\<rparr>"

definition example_db3 :: file_db where
  "example_db3 = result_db example_result example_db2"

definition example_db4 :: file_db where
  "example_db4 =
     (let p = example_prepare\<lparr>po_id := 101, po_operation := OpReplace, po_idempotency_key := None\<rparr>;
          db = result_db (prepare_operation 20 example_ctx p example_db3) example_db3
      in result_db (mark_file_committed 21 example_ctx 101 (Some ''bb'') db) db)"

text \<open>A create that was replayed: operation 100 stayed at \<open>FileCommitted\<close>, 101 committed.\<close>

definition example_payload :: "operation_id \<Rightarrow> file_id \<Rightarrow> core_payload" where
  "example_payload oid fid =
     \<lparr>cp_operation_id = oid, cp_file_id = fid, cp_entry_type = ''file'', cp_operation = ''create'',
      cp_path = VaultPath ''a.md'', cp_path_before = None, cp_path_after = Some (VaultPath ''a.md''),
      cp_expected_revision = None, cp_require_absent = True, cp_tombstone_archive_path = None,
      cp_content_hash = Some ''aa'', cp_history_blob_hash = Some ''aa'', cp_size = 5,
      cp_modified_at = Some 0, cp_filesystem_identity = None, cp_deleted_at = None,
      cp_actor = actor_system, cp_source_plane = PlaneSystem, cp_idempotency_key = None,
      cp_audit_action = ''file.create'', cp_audit_metadata = JNull, cp_request_id = None,
      cp_outbox_events = []\<rparr>"

definition example_replayed :: file_db where
  "example_replayed =
     (let prep = (\<lambda>oid fid. example_prepare\<lparr>po_id := oid, po_prior_file_id := Some fid,
            po_payload := Some (example_payload oid fid), po_idempotency_key := None\<rparr>);
          d1 = result_db (prepare_operation 10 example_ctx (prep 100 1) example_db0) example_db0;
          d2 = result_db (mark_file_committed 11 example_ctx 100 (Some ''aa'') d1) d1;
          d3 = result_db (prepare_operation 12 example_ctx (prep 101 2) d2) d2;
          d4 = result_db (mark_file_committed 13 example_ctx 101 (Some ''aa'') d3) d3
      in result_db (commit_mutation (\<lambda>_. ''id'') id (example_env\<lparr>ce_now := 14\<rparr>) (\<lambda>_. None) example_ctx
           (example_commit\<lparr>ci_operation_id := 101, ci_file_id := 2, ci_idempotency_key := None\<rparr>) d4) d4)"

definition example_witness :: supersede_create_witness where
  "example_witness = \<lparr>sw_operation_id = 100, sw_path = VaultPath ''a.md'', sw_prior_file_id = 1,
     sw_replacement_file_id = 2, sw_replacement_revision = 1, sw_physical_hash = ''aa''\<rparr>"

section \<open>The relations are orders\<close>

lemma extends_by_refl: "(\<And>x. R x x) \<Longrightarrow> extends_by R xs xs"
  by (simp add: extends_by_def)

lemma extends_by_trans:
  assumes "\<And>x y z. R x y \<Longrightarrow> R y z \<Longrightarrow> R x z" "extends_by R xs ys" "extends_by R ys zs"
  shows "extends_by R xs zs"
  unfolding extends_by_def
proof (intro conjI allI impI)
  show "length xs \<le> length zs" using assms(2,3) by (simp add: extends_by_def)
  fix i assume i: "i < length xs"
  then have "R (xs ! i) (ys ! i)" "R (ys ! i) (zs ! i)"
    using assms(2,3) by (auto simp: extends_by_def)
  then show "R (xs ! i) (zs ! i)" by (rule assms(1))
qed

lemma extends_by_append: "(\<And>x. R x x) \<Longrightarrow> extends_by R xs (xs @ ys)"
  by (simp add: extends_by_def nth_append)

lemma extends_by_update:
  "(\<And>x. R x x) \<Longrightarrow> (\<And>x. x \<in> set xs \<Longrightarrow> P x \<Longrightarrow> R x (f x)) \<Longrightarrow> extends_by R xs (update_rows P f xs)"
  by (auto simp: extends_by_def update_rows_def)

lemma journal_row_evolves_refl: "journal_row_evolves j j"
  by (simp add: journal_row_evolves_def)

lemma journal_row_evolves_trans:
  "journal_row_evolves i j \<Longrightarrow> journal_row_evolves j k \<Longrightarrow> journal_row_evolves i k"
  by (auto simp: journal_row_evolves_def)

lemma file_row_evolves_refl: "file_row_evolves f f"
  by (simp add: file_row_evolves_def)

lemma file_row_evolves_trans: "file_row_evolves f g \<Longrightarrow> file_row_evolves g h \<Longrightarrow> file_row_evolves f h"
  by (auto simp: file_row_evolves_def)

interpretation journal_order: step_order journal_evolves
proof unfold_locales
  show "journal_evolves s s" for s
    by (simp add: journal_evolves_def extends_by_refl journal_row_evolves_refl)
  show "journal_evolves s t \<Longrightarrow> journal_evolves t u \<Longrightarrow> journal_evolves s u" for s t u
    unfolding journal_evolves_def by (rule extends_by_trans [OF journal_row_evolves_trans])
qed

interpretation history_order: step_order history_grows
proof unfold_locales
  show "history_grows s s" for s
    by (simp add: history_grows_def extends_by_refl file_row_evolves_refl)
  show "history_grows s t \<Longrightarrow> history_grows t u \<Longrightarrow> history_grows s u" for s t u
    unfolding history_grows_def
    by (auto intro: prefix_order.trans extends_by_trans [OF file_row_evolves_trans])
qed

interpretation db_order: step_order "db_step v"
proof unfold_locales
  show "db_step v s s" for s
    by (simp add: db_step_def journal_order.step_refl history_order.step_refl other_vaults_same_def)
  show "db_step v s t \<Longrightarrow> db_step v t u \<Longrightarrow> db_step v s u" for s t u
    using journal_order.step_trans [of s t u] history_order.step_trans [of s t u]
    by (simp add: db_step_def other_vaults_same_def)
qed

section \<open>Labels\<close>

interpretation entry_label: label_codec entry_type_as_str entry_type_parse
proof unfold_locales
  show "entry_type_parse (entry_type_as_str x) = Ok x" for x
    by (cases x) (simp_all add: entry_type_parse_def)
  show "entry_type_parse s = Ok x \<Longrightarrow> entry_type_as_str x = s" for s x
    by (auto simp: entry_type_parse_def split: if_splits)
qed

interpretation operation_label: label_codec file_operation_as_str file_operation_parse
proof unfold_locales
  show "file_operation_parse (file_operation_as_str x) = Ok x" for x
    by (cases x) (simp_all add: file_operation_parse_def)
  show "file_operation_parse s = Ok x \<Longrightarrow> file_operation_as_str x = s" for s x
    by (auto simp: file_operation_parse_def split: if_splits)
qed

interpretation journal_label: label_codec journal_state_as_str journal_state_parse
proof unfold_locales
  show "journal_state_parse (journal_state_as_str x) = Ok x" for x
    by (cases x) (simp_all add: journal_state_parse_def)
  show "journal_state_parse s = Ok x \<Longrightarrow> journal_state_as_str x = s" for s x
    by (auto simp: journal_state_parse_def split: if_splits)
qed

section \<open>Every write is a step\<close>

lemma filter_update_other:
  "(\<And>r. P r \<Longrightarrow> \<not> Q r \<and> \<not> Q (f r)) \<Longrightarrow> filter Q (update_rows P f rows) = filter Q rows"
  by (induction rows) auto

lemma db_step_files:
  assumes "extends_by file_row_evolves (db_files db) files"
    and "filter (\<lambda>r. fr_vault r \<noteq> v) files = filter (\<lambda>r. fr_vault r \<noteq> v) (db_files db)"
  shows "db_step v db (db\<lparr>db_files := files\<rparr>)"
  using assms
  by (simp add: db_step_def journal_evolves_def history_grows_def other_vaults_same_def
      extends_by_refl journal_row_evolves_refl)

lemma db_step_journal:
  assumes "extends_by journal_row_evolves (db_journal db) journal"
    and "filter (\<lambda>r. jr_vault r \<noteq> v) journal = filter (\<lambda>r. jr_vault r \<noteq> v) (db_journal db)"
  shows "db_step v db (db\<lparr>db_journal := journal\<rparr>)"
  using assms
  by (simp add: db_step_def journal_evolves_def history_grows_def other_vaults_same_def
      extends_by_refl file_row_evolves_refl)

lemma extends_by_same [simp]:
  "extends_by journal_row_evolves js js" "extends_by file_row_evolves fs fs"
  by (simp_all add: extends_by_refl journal_row_evolves_refl file_row_evolves_refl)

lemmas db_step_simps = db_step_def journal_evolves_def history_grows_def other_vaults_same_def

lemma update_journal_step:
  assumes "update_journal ctx oid states f e db = Ok (u, db')"
    and "\<And>j. jr_state j \<in> states \<Longrightarrow> journal_row_evolves j (f j)"
  shows "db_step (ctx_id ctx) db db'"
proof -
  let ?hit = "\<lambda>j. jr_vault j = ctx_id ctx \<and> jr_id j = oid \<and> jr_state j \<in> states"
  have db': "db' = db\<lparr>db_journal := update_rows ?hit f (db_journal db)\<rparr>"
    using assms(1) by (auto simp: update_journal_def Let_def split: if_splits)
  show ?thesis unfolding db'
  proof (rule db_step_journal)
    show "extends_by journal_row_evolves (db_journal db) (update_rows ?hit f (db_journal db))"
      using assms(2) by (intro extends_by_update journal_row_evolves_refl) auto
    show "filter (\<lambda>r. jr_vault r \<noteq> ctx_id ctx) (update_rows ?hit f (db_journal db))
        = filter (\<lambda>r. jr_vault r \<noteq> ctx_id ctx) (db_journal db)"
      using assms(2) by (intro filter_update_other) (auto simp: journal_row_evolves_def)
  qed
qed

lemma update_journal_same:
  assumes "update_journal ctx oid states f e db = Ok (u, db')"
  shows "db' = db\<lparr>db_journal := db_journal db'\<rparr>"
  using assms by (auto simp: update_journal_def Let_def split: if_splits)

lemma prepare_operation_step:
  assumes "prepare_operation now ctx input db = Ok (j, db')"
  shows "db_step (ctx_id ctx) db db'"
proof -
  have "db' = db\<lparr>db_journal := db_journal db @ [j]\<rparr> \<and> jr_vault j = ctx_id ctx"
    using assms
    by (auto simp: prepare_operation_def bind_r_Ok_conv Let_def split: if_splits option.splits)
  then show ?thesis
    by (auto intro!: db_step_journal extends_by_append journal_row_evolves_refl)
qed

lemma journal_writes_step:
  "mark_file_committed now ctx oid h db = Ok (u, db') \<Longrightarrow> db_step (ctx_id ctx) db db'"
  "set_proposed_hash now ctx oid h2 db = Ok (u, db') \<Longrightarrow> db_step (ctx_id ctx) db db'"
  "update_operation_payload now ctx oid p h db = Ok (u, db') \<Longrightarrow> db_step (ctx_id ctx) db db'"
  "mark_rolled_back now ctx oid e db = Ok (u, db') \<Longrightarrow> db_step (ctx_id ctx) db db'"
  "mark_needs_review now ctx oid e2 db = Ok (u, db') \<Longrightarrow> db_step (ctx_id ctx) db db'"
  by (auto simp: mark_file_committed_def set_proposed_hash_def update_operation_payload_def
      mark_rolled_back_def mark_needs_review_def mark_terminal_def journal_row_evolves_def
      split: if_splits intro!: r_into_rtranclp elim!: update_journal_step)

lemma discard_loop_step:
  "discard_loop now ctx js db = Ok (u, db') \<Longrightarrow> db_step (ctx_id ctx) db db'"
proof (induction js arbitrary: db)
  case Nil
  then show ?case by (simp add: db_order.step_refl)
next
  case (Cons j js)
  let ?hit = "\<lambda>r. jr_vault r = ctx_id ctx \<and> jr_id r = jr_id j \<and> jr_state r = jr_state j \<and>
                   jr_updated_at r = jr_updated_at j"
  let ?f = "\<lambda>r. r\<lparr>jr_state := Discarded,
      jr_error := Some ''discarded by legacy memory initialization'', jr_updated_at := now\<rparr>"
  let ?db1 = "db\<lparr>db_journal := update_rows ?hit ?f (db_journal db)\<rparr>"
  have open_state: "jr_state j \<in> {Prepared, FileCommitted, NeedsReviewState}"
    and rest: "discard_loop now ctx js ?db1 = Ok (u, db')"
    using Cons.prems by (auto simp: Let_def split: if_splits)
  have "db_step (ctx_id ctx) db ?db1"
  proof (rule db_step_journal)
    show "extends_by journal_row_evolves (db_journal db) (update_rows ?hit ?f (db_journal db))"
      using open_state
      by (intro extends_by_update journal_row_evolves_refl)
        (auto simp: journal_row_evolves_def intro!: r_into_rtranclp)
    show "filter (\<lambda>r. jr_vault r \<noteq> ctx_id ctx) (update_rows ?hit ?f (db_journal db))
        = filter (\<lambda>r. jr_vault r \<noteq> ctx_id ctx) (db_journal db)"
      by (rule filter_update_other) auto
  qed
  with Cons.IH [OF rest] show ?case by (blast intro: db_order.step_trans)
qed

lemma insert_outbox_step:
  "insert_outbox now v fresh n es db = Ok (u, db') \<Longrightarrow>
     db_step v db db' \<and> db' = db\<lparr>db_outbox := db_outbox db'\<rparr> \<and>
     length (db_outbox db') = length (db_outbox db) + length es"
proof (induction es arbitrary: n db)
  case Nil
  then show ?case by (simp add: db_order.step_refl)
next
  case (Cons e es)
  let ?db1 = "db\<lparr>db_outbox := db_outbox db @ [outbox_row_of now v (fresh n) e]\<rparr>"
  have rest: "insert_outbox now v fresh (n + 1) es ?db1 = Ok (u, db')"
    using Cons.prems by (auto simp: bind_r_Ok_conv split: if_splits)
  have "db_step v db ?db1" by (simp add: db_step_simps outbox_row_of_def)
  then show ?case
    using Cons.IH [OF rest] by (auto intro: db_order.step_trans)
qed

lemma insert_audit_step:
  "insert_audit row db = Ok (u, db') \<Longrightarrow> db_step (au_vault row) db db' \<and>
     db' = db\<lparr>db_audit := db_audit db @ [row]\<rparr>"
  by (auto simp: insert_audit_def db_step_simps split: if_splits)

lemma insert_revision_step:
  "insert_revision row db = Ok (u, db') \<Longrightarrow> db_step (rr_vault row) db db' \<and>
     db' = db\<lparr>db_revisions := db_revisions db @ [row]\<rparr>"
  by (auto simp: insert_revision_def db_step_simps split: if_splits)

lemma invalidate_source_step:
  "invalidate_source v i reason a now db = Ok (b, db') \<Longrightarrow> db_step v db db' \<and>
     db' = db\<lparr>db_sources := db_sources db', db_cards := db_cards db', db_evidence := db_evidence db'\<rparr>"
  by (auto simp: invalidate_source_def bind_r_Ok_conv Let_def db_step_simps split: if_splits
      intro!: filter_update_other)

lemma qualification_step:
  "apply_file_mutation_qualification v i p operation h now db = Ok (u, db') \<Longrightarrow> db_step v db db' \<and>
     db' = db\<lparr>db_sources := db_sources db', db_cards := db_cards db', db_evidence := db_evidence db'\<rparr>"
  by (auto simp: apply_file_mutation_qualification_def bind_r_Ok_conv db_order.step_refl
      split: if_splits option.splits dest!: invalidate_source_step)
    (auto simp: db_step_simps intro!: filter_update_other)

lemma archive_tombstone_step:
  assumes "archive_tombstone now v input destination db = Ok (u, db')"
  shows "db_step v db db' \<and> db' = db\<lparr>db_files := db_files db'\<rparr>"
proof (cases "ci_tombstone_archive_path input")
  case None
  then show ?thesis using assms by (simp add: archive_tombstone_def db_order.step_refl)
next
  case (Some a)
  then obtain d where d: "destination = Some d"
    using assms by (cases destination) (auto simp: archive_tombstone_def)
  have "db' = db\<lparr>db_files := update_rows
      (\<lambda>r. fr_vault r = v \<and> fr_id r = fr_id d \<and> fr_deleted_at r \<noteq> None)
      (\<lambda>r. r\<lparr>fr_path := a, fr_updated_at := now\<rparr>) (db_files db)\<rparr>"
    using assms Some d by (simp add: archive_tombstone_def Let_def split: if_splits)
  then show ?thesis
    by (auto intro!: db_step_files extends_by_update file_row_evolves_refl filter_update_other)
      (simp add: file_row_evolves_def)
qed

lemma store_entry_Some:
  assumes "store_entry now v input (Some c) next db = Ok (u, db')"
  shows "db' = db\<lparr>db_files := update_rows
      (\<lambda>r. fr_vault r = v \<and> fr_id r = ci_file_id input \<and> fr_revision r = fr_revision c)
      (\<lambda>r. file_row v input next (fr_created_at r) now) (db_files db)\<rparr> \<and>
    rows_affected (\<lambda>r. fr_vault r = v \<and> fr_id r = ci_file_id input \<and> fr_revision r = fr_revision c)
      (db_files db) = 1 \<and>
    (\<forall>r \<in> set (db_files db). fr_vault r = v \<longrightarrow> fr_path r = ci_path input \<longrightarrow>
       fr_id r = ci_file_id input)"
  using assms by (auto simp: store_entry_def bind_r_Ok_conv Let_def split: if_splits)

lemma store_entry_None:
  assumes "store_entry now v input None next db = Ok (u, db')"
  shows "db' = db\<lparr>db_files := db_files db @ [file_row v input next now now]\<rparr> \<and>
    (\<forall>r \<in> set (db_files db). fr_id r \<noteq> ci_file_id input) \<and>
    (\<forall>r \<in> set (db_files db). \<not> (fr_vault r = v \<and> fr_path r = ci_path input))"
  using assms by (auto simp: store_entry_def bind_r_Ok_conv Let_def split: if_splits)

lemma file_row_simps [simp]:
  "fr_id (file_row v input next created now) = ci_file_id input"
  "fr_vault (file_row v input next created now) = v"
  "fr_path (file_row v input next created now) = ci_path input"
  "fr_revision (file_row v input next created now) = next"
  "fr_created_at (file_row v input next created now) = created"
  "fr_content_hash (file_row v input next created now) = ci_content_hash input"
  "fr_deleted_at (file_row v input next created now) = ci_deleted_at input"
  "fr_entry_type (file_row v input next created now) = ci_entry_type input"
  "fr_size (file_row v input next created now) = ci_size input"
  by (simp_all add: file_row_def)

lemma commit_rows_simps [simp]:
  "rr_vault (revision_row env v input current nxt) = v"
  "rr_file (revision_row env v input current nxt) = ci_file_id input"
  "rr_revision (revision_row env v input current nxt) = nxt"
  "rr_operation (revision_row env v input current nxt) = ci_operation input"
  "rr_content_hash (revision_row env v input current nxt) = ci_content_hash input"
  "rr_history_blob_hash (revision_row env v input current nxt) = ci_history_blob_hash input"
  "rr_idempotency_key (revision_row env v input current nxt) = ci_idempotency_key input"
  "au_vault (commit_audit_row uuid_str sha256 env v input) = v"
  by (simp_all add: revision_row_def commit_audit_row_def)

lemma store_entry_step:
  assumes "store_entry now v input current next db = Ok (u, db')"
    and "\<And>c. current = Some c \<Longrightarrow> fr_revision c \<le> next"
  shows "db_step v db db' \<and> db' = db\<lparr>db_files := db_files db'\<rparr>"
proof (cases current)
  case None
  then show ?thesis using store_entry_None assms(1)
    by (force intro!: db_step_files extends_by_append file_row_evolves_refl)
next
  case (Some c)
  let ?hit = "\<lambda>r. fr_vault r = v \<and> fr_id r = ci_file_id input \<and> fr_revision r = fr_revision c"
  have db': "db' = db\<lparr>db_files := update_rows ?hit
      (\<lambda>r. file_row v input next (fr_created_at r) now) (db_files db)\<rparr>"
    using store_entry_Some assms(1) Some by blast
  have "db_step v db db'" unfolding db' using assms(2) [OF Some]
    by (intro db_step_files extends_by_update file_row_evolves_refl filter_update_other)
      (auto simp: file_row_evolves_def)
  with db' show ?thesis by simp
qed

text \<open>A successful commit, taken apart.\<close>

lemma commit_mutation_cases:
  assumes "commit_mutation uuid_str sha256 env hook ctx input db = Ok (res, db7)"
  obtains nxt db1 db2 db3 db4 db5 db6 where
    "check_destination input (get_any_by_path ctx (ci_path input) db) = Ok ()"
    "archive_tombstone (ce_now env) (ctx_id ctx) input (get_any_by_path ctx (ci_path input) db) db
       = Ok ((), db1)"
    "check_expected input (get_by_id ctx (ci_file_id input) db) = Ok ()"
    "check_tombstone_reuse input (get_any_by_path ctx (ci_path input) db) = Ok ()"
    "next_revision_of (get_by_id ctx (ci_file_id input) db) = Ok nxt"
    "store_entry (ce_now env) (ctx_id ctx) input (get_by_id ctx (ci_file_id input) db) nxt db1
       = Ok ((), db2)"
    "insert_revision (revision_row env (ctx_id ctx) input (get_by_id ctx (ci_file_id input) db) nxt)
       db2 = Ok ((), db3)"
    "apply_file_mutation_qualification (ctx_id ctx) (ci_file_id input) (ci_path input)
       (file_operation_as_str (ci_operation input)) (ci_content_hash input) (ce_now env) db3
       = Ok ((), db4)"
    "insert_audit (commit_audit_row uuid_str sha256 env (ctx_id ctx) input) db4 = Ok ((), db5)"
    "insert_outbox (ce_now env) (ctx_id ctx) (ce_event_id env) 0 (ci_outbox_events input) db5
       = Ok ((), db6)"
    "finish_journal (ce_now env) ctx (ci_operation_id input) db6 = Ok ((), db7)"
    "res = \<lparr>mc_file = file_row (ctx_id ctx) input nxt
               (case get_by_id ctx (ci_file_id input) db of
                  Some c \<Rightarrow> fr_created_at c | None \<Rightarrow> ce_now env) (ce_now env),
            mc_revision = revision_row env (ctx_id ctx) input
               (get_by_id ctx (ci_file_id input) db) nxt\<rparr>"
    "hook HookMetadataTransactionStarted = None" "hook HookOutboxInserted = None"
  using assms
  by (auto simp: commit_mutation_def Let_def bind_r_Ok_conv run_hook_def split: option.splits)

lemma next_revision_of_Some:
  assumes "next_revision_of (Some c) = Ok n"
  shows "uint n = uint (fr_revision c) + 1" "fr_revision c < n"
proof -
  show "uint n = uint (fr_revision c) + 1"
    using assms by (simp add: next_revision_of_def uint_revision_next)
  then show "fr_revision c < n" by (simp add: word_less_def)
qed

lemma get_by_id_Some:
  "get_by_id ctx i db = Some c \<Longrightarrow> c \<in> set (db_files db) \<and> fr_vault c = ctx_id ctx \<and> fr_id c = i"
  by (auto simp: get_by_id_def dest: find_row_Some)

lemma get_by_id_None:
  "get_by_id ctx i db = None \<Longrightarrow> f \<in> set (db_files db) \<Longrightarrow> fr_id f = i \<Longrightarrow> fr_vault f \<noteq> ctx_id ctx"
  by (auto simp: get_by_id_def find_row_None)

lemma commit_mutation_step:
  assumes "commit_mutation uuid_str sha256 env hook ctx input db = Ok (res, db')"
  shows "db_step (ctx_id ctx) db db'"
  using assms
proof (rule commit_mutation_cases)
  fix nxt db1 db2 db3 db4 db5 db6
  assume a: "archive_tombstone (ce_now env) (ctx_id ctx) input
        (get_any_by_path ctx (ci_path input) db) db = Ok ((), db1)"
    and n: "next_revision_of (get_by_id ctx (ci_file_id input) db) = Ok nxt"
    and b: "store_entry (ce_now env) (ctx_id ctx) input (get_by_id ctx (ci_file_id input) db) nxt db1
        = Ok ((), db2)"
    and c: "insert_revision (revision_row env (ctx_id ctx) input
        (get_by_id ctx (ci_file_id input) db) nxt) db2 = Ok ((), db3)"
    and d: "apply_file_mutation_qualification (ctx_id ctx) (ci_file_id input) (ci_path input)
        (file_operation_as_str (ci_operation input)) (ci_content_hash input) (ce_now env) db3
        = Ok ((), db4)"
    and e: "insert_audit (commit_audit_row uuid_str sha256 env (ctx_id ctx) input) db4 = Ok ((), db5)"
    and f: "insert_outbox (ce_now env) (ctx_id ctx) (ce_event_id env) 0 (ci_outbox_events input) db5
        = Ok ((), db6)"
    and g: "finish_journal (ce_now env) ctx (ci_operation_id input) db6 = Ok ((), db')"
  have "db_step (ctx_id ctx) db1 db2"
    using store_entry_step [OF b] n next_revision_of_Some(2) by (fastforce intro: order.strict_implies_order)
  moreover have "db_step (ctx_id ctx) db2 db3"
    using insert_revision_step [OF c, THEN conjunct1] by simp
  moreover have "db_step (ctx_id ctx) db4 db5"
    using insert_audit_step [OF e, THEN conjunct1] by simp
  moreover have "db_step (ctx_id ctx) db6 db'"
    using g unfolding finish_journal_def
    by (rule update_journal_step) (auto simp: journal_row_evolves_def intro!: r_into_rtranclp)
  ultimately show ?thesis
    using archive_tombstone_step [OF a] qualification_step [OF d] insert_outbox_step [OF f]
    by (blast intro: db_order.step_trans)
qed

lemma supersede_step:
  assumes "supersede_replayed_create_inner uuid_str sha256 aid now ctx w rv db = Ok (res, db')"
  shows "db_step (ctx_id ctx) db db'"
proof (cases "db' = db")
  case True
  then show ?thesis by (simp add: db_order.step_refl)
next
  case False
  then obtain j db1 aud where j: "supersede_eligible rv j"
      "update_journal ctx (sw_operation_id w) {jr_state j}
         (\<lambda>r. r\<lparr>jr_state := Superseded, jr_updated_at := now,
                jr_error := Some ''superseded by verified later create''\<rparr>) Conflict db = Ok ((), db1)"
      "insert_audit aud db1 = Ok ((), db')" "au_vault aud = ctx_id ctx"
    using assms
    by (auto simp: supersede_replayed_create_inner_def bind_r_Ok_conv supersede_audit_row_def
        split: option.splits if_splits sum.splits)
  have "db_step (ctx_id ctx) db db1"
    using j(2) by (rule update_journal_step)
      (use j(1) in \<open>auto simp: supersede_eligible_def journal_row_evolves_def intro!: r_into_rtranclp\<close>)
  then show ?thesis using insert_audit_step [OF j(3)] j(4) by (auto intro: db_order.step_trans)
qed

section \<open>The invariant\<close>

lemma update_journal_Ok:
  "update_journal ctx oid states f e db = Ok (u, db') \<longleftrightarrow>
     rows_affected (\<lambda>j. jr_vault j = ctx_id ctx \<and> jr_id j = oid \<and> jr_state j \<in> states) (db_journal db) = 1
     \<and> db' = db\<lparr>db_journal := update_rows
          (\<lambda>j. jr_vault j = ctx_id ctx \<and> jr_id j = oid \<and> jr_state j \<in> states) f (db_journal db)\<rparr>"
  by (auto simp: update_journal_def Let_def)

lemma commit_mutation_tables:
  assumes "commit_mutation uuid_str sha256 env hook ctx input db = Ok (res, db')"
  obtains nxt db1 db2 where
    "next_revision_of (get_by_id ctx (ci_file_id input) db) = Ok nxt"
    "archive_tombstone (ce_now env) (ctx_id ctx) input (get_any_by_path ctx (ci_path input) db) db
       = Ok ((), db1)"
    "store_entry (ce_now env) (ctx_id ctx) input (get_by_id ctx (ci_file_id input) db) nxt db1
       = Ok ((), db2)"
    "insert_revision (mc_revision res) db2 = Ok ((), db2\<lparr>db_revisions := db_revisions db'\<rparr>)"
    "db_files db' = db_files db2" "db_revisions db' = db_revisions db @ [mc_revision res]"
    "rows_affected (\<lambda>j. jr_vault j = ctx_id ctx \<and> jr_id j = ci_operation_id input \<and>
       jr_state j \<in> {FileCommitted}) (db_journal db) = 1"
    "db_journal db' = update_rows (\<lambda>j. jr_vault j = ctx_id ctx \<and> jr_id j = ci_operation_id input \<and>
       jr_state j \<in> {FileCommitted})
       (\<lambda>j. j\<lparr>jr_state := MetadataCommitted, jr_updated_at := ce_now env, jr_error := None\<rparr>)
       (db_journal db)"
    "length (db_outbox db') = length (db_outbox db) + length (ci_outbox_events input)"
    "mc_revision res = revision_row env (ctx_id ctx) input (get_by_id ctx (ci_file_id input) db) nxt"
    "mc_file res = file_row (ctx_id ctx) input nxt
       (case get_by_id ctx (ci_file_id input) db of
          Some c \<Rightarrow> fr_created_at c | None \<Rightarrow> ce_now env) (ce_now env)"
    "check_expected input (get_by_id ctx (ci_file_id input) db) = Ok ()"
    "check_destination input (get_any_by_path ctx (ci_path input) db) = Ok ()"
  using assms
proof (rule commit_mutation_cases)
  fix nxt db1 db2 db3 db4 db5 db6
  assume a: "archive_tombstone (ce_now env) (ctx_id ctx) input
        (get_any_by_path ctx (ci_path input) db) db = Ok ((), db1)"
    and n: "next_revision_of (get_by_id ctx (ci_file_id input) db) = Ok nxt"
    and b: "store_entry (ce_now env) (ctx_id ctx) input (get_by_id ctx (ci_file_id input) db) nxt db1
        = Ok ((), db2)"
    and c: "insert_revision (revision_row env (ctx_id ctx) input
        (get_by_id ctx (ci_file_id input) db) nxt) db2 = Ok ((), db3)"
    and d: "apply_file_mutation_qualification (ctx_id ctx) (ci_file_id input) (ci_path input)
        (file_operation_as_str (ci_operation input)) (ci_content_hash input) (ce_now env) db3
        = Ok ((), db4)"
    and e: "insert_audit (commit_audit_row uuid_str sha256 env (ctx_id ctx) input) db4 = Ok ((), db5)"
    and f: "insert_outbox (ce_now env) (ctx_id ctx) (ce_event_id env) 0 (ci_outbox_events input) db5
        = Ok ((), db6)"
    and g: "finish_journal (ce_now env) ctx (ci_operation_id input) db6 = Ok ((), db')"
    and r: "res = \<lparr>mc_file = file_row (ctx_id ctx) input nxt
               (case get_by_id ctx (ci_file_id input) db of
                  Some c \<Rightarrow> fr_created_at c | None \<Rightarrow> ce_now env) (ce_now env),
            mc_revision = revision_row env (ctx_id ctx) input
               (get_by_id ctx (ci_file_id input) db) nxt\<rparr>"
    and chk: "check_expected input (get_by_id ctx (ci_file_id input) db) = Ok ()"
      "check_destination input (get_any_by_path ctx (ci_path input) db) = Ok ()"
  have t1: "db_revisions db1 = db_revisions db" "db_journal db1 = db_journal db"
      "db_outbox db1 = db_outbox db"
    using archive_tombstone_step [OF a] by (metis file_db.select_convs file_db.surjective
        file_db.update_convs(2))+
  have "\<And>c. get_by_id ctx (ci_file_id input) db = Some c \<Longrightarrow> fr_revision c \<le> nxt"
    using n next_revision_of_Some(2) by fastforce
  from store_entry_step [OF b this] have t2: "db_revisions db2 = db_revisions db1"
      "db_journal db2 = db_journal db1" "db_outbox db2 = db_outbox db1"
    by (metis file_db.select_convs file_db.surjective file_db.update_convs(2))+
  have t3: "db3 = db2\<lparr>db_revisions := db_revisions db2 @ [mc_revision res]\<rparr>"
    using insert_revision_step [OF c] r by simp
  have t4: "db_files db4 = db_files db3" "db_revisions db4 = db_revisions db3"
      "db_journal db4 = db_journal db3" "db_outbox db4 = db_outbox db3"
    using qualification_step [OF d, THEN conjunct2]
    by (metis file_db.select_convs file_db.surjective file_db.update_convs(9-11))+
  have t5: "db5 = db4\<lparr>db_audit := db_audit db4 @ [commit_audit_row uuid_str sha256 env (ctx_id ctx) input]\<rparr>"
    using insert_audit_step [OF e] by simp
  have t6: "db_files db6 = db_files db5" "db_revisions db6 = db_revisions db5"
      "db_journal db6 = db_journal db5"
      "length (db_outbox db6) = length (db_outbox db5) + length (ci_outbox_events input)"
    using insert_outbox_step [OF f]
    by (metis file_db.select_convs file_db.surjective file_db.update_convs(6))+
  note t7 = g [unfolded finish_journal_def update_journal_Ok]
  show thesis
    by (rule that [OF n a b _ _ _ _ _ _ _ _ chk])
      (use c r t1 t2 t3 t4 t5 t6 t7 in simp_all)
qed

lemma archive_tombstone_keys:
  assumes "archive_tombstone now v input destination db = Ok (u, db1)" "files_keys (db_files db)"
  shows "files_keys (db_files db1) \<and>
    (\<lambda>f. (fr_vault f, fr_id f, fr_revision f)) ` set (db_files db1)
      = (\<lambda>f. (fr_vault f, fr_id f, fr_revision f)) ` set (db_files db)"
proof (cases "ci_tombstone_archive_path input")
  case None
  then show ?thesis using assms by (simp add: archive_tombstone_def)
next
  case (Some a)
  then obtain d where d: "destination = Some d"
    using assms by (cases destination) (auto simp: archive_tombstone_def)
  let ?hit = "\<lambda>r. fr_vault r = v \<and> fr_id r = fr_id d \<and> fr_deleted_at r \<noteq> None"
  let ?f = "\<lambda>r. r\<lparr>fr_path := a, fr_updated_at := now\<rparr>"
  have db1: "db1 = db\<lparr>db_files := update_rows ?hit ?f (db_files db)\<rparr>"
    and one: "rows_affected ?hit (db_files db) = 1"
    and free: "\<forall>r \<in> set (db_files db). \<not> (fr_vault r = v \<and> fr_path r = a)"
    using assms Some d by (simp_all add: archive_tombstone_def Let_def split: if_splits)
  have "distinct (map (\<lambda>r. (fr_vault r, fr_path r)) (update_rows ?hit ?f (db_files db)))"
    using assms(2) one free
    by (intro distinct_map_update_rows [where k' = "(v, a)"]) (auto simp: files_keys_def)
  moreover have "map fr_id (update_rows ?hit ?f (db_files db)) = map fr_id (db_files db)"
    by (rule map_update_rows) simp
  moreover have "map (\<lambda>f. (fr_vault f, fr_id f, fr_revision f)) (db_files db1)
      = map (\<lambda>f. (fr_vault f, fr_id f, fr_revision f)) (db_files db)"
    unfolding db1 by (simp add: map_update_rows)
  from arg_cong [OF this, of set] have "(\<lambda>f. (fr_vault f, fr_id f, fr_revision f)) ` set (db_files db1)
      = (\<lambda>f. (fr_vault f, fr_id f, fr_revision f)) ` set (db_files db)"
    by simp
  ultimately show ?thesis using assms(2) by (simp add: db1 files_keys_def)
qed

lemma gapless_cong:
  assumes "(\<lambda>f. (fr_vault f, fr_id f, fr_revision f)) ` set fs
         = (\<lambda>f. (fr_vault f, fr_id f, fr_revision f)) ` set gs"
  shows "gapless fs rs = gapless gs rs" "revisions_owned fs rs = revisions_owned gs rs"
proof -
  have "gapless fs rs \<longleftrightarrow> (\<forall>(v, i, c) \<in> (\<lambda>f. (fr_vault f, fr_id f, fr_revision f)) ` set fs.
      \<forall>n. (v, i, n) \<in> rev_key ` set rs \<longleftrightarrow> 1 \<le> n \<and> n \<le> c)" for fs
    by (auto simp: gapless_def)
  from this [of fs] this [of gs] show "gapless fs rs = gapless gs rs" by (simp only: assms)
  have "revisions_owned fs rs \<longleftrightarrow> distinct (map rev_key rs) \<and> (\<forall>r \<in> set rs.
      \<exists>(v, i, c) \<in> (\<lambda>f. (fr_vault f, fr_id f, fr_revision f)) ` set fs. v = rr_vault r \<and> i = rr_file r)"
    for fs by (auto simp: revisions_owned_def)
  from this [of fs] this [of gs] show "revisions_owned fs rs = revisions_owned gs rs"
    by (simp only: assms)
qed

lemma files_keys_unique:
  "files_keys fs \<Longrightarrow> f \<in> set fs \<Longrightarrow> g \<in> set fs \<Longrightarrow> fr_id f = fr_id g \<Longrightarrow> f = g"
  by (simp add: files_keys_def distinct_map inj_on_def)

lemma rows_affected_witness: "rows_affected P rows = 1 \<Longrightarrow> \<exists>r \<in> set rows. P r"
  using rows_affected_pos [of P rows] by simp

lemma updated_row:
  assumes "rows_affected P rows = 1"
  shows "\<exists>r \<in> set rows. P r \<and> f r \<in> set (update_rows P f rows)"
proof -
  obtain r where "r \<in> set rows" "P r" using rows_affected_witness [OF assms] by blast
  then show ?thesis by (force simp: set_update_rows)
qed

lemma updated_row_ex:
  "rows_affected P rows = 1 \<Longrightarrow> (\<And>r. P r \<Longrightarrow> Q (f r)) \<Longrightarrow> \<exists>r \<in> set (update_rows P f rows). Q r"
  using updated_row [of P rows f] by blast

lemma store_entry_keys:
  assumes "store_entry now v input current nxt db = Ok (u, db')" "files_keys (db_files db)"
  shows "files_keys (db_files db')"
proof (cases current)
  case None
  then show ?thesis using store_entry_None assms by (fastforce simp: files_keys_def)
next
  case (Some c)
  let ?hit = "\<lambda>r. fr_vault r = v \<and> fr_id r = ci_file_id input \<and> fr_revision r = fr_revision c"
  let ?f = "\<lambda>r. file_row v input nxt (fr_created_at r) now"
  have db': "db' = db\<lparr>db_files := update_rows ?hit ?f (db_files db)\<rparr>"
    and one: "rows_affected ?hit (db_files db) = 1"
    and free: "\<forall>r \<in> set (db_files db). fr_vault r = v \<longrightarrow> fr_path r = ci_path input \<longrightarrow>
       fr_id r = ci_file_id input"
    using store_entry_Some assms(1) Some by blast+
  obtain h where h: "h \<in> set (db_files db)" "?hit h"
    using rows_affected_witness [OF one] by blast
  have other: "(fr_vault r, fr_path r) \<noteq> (v, ci_path input)"
    if "r \<in> set (db_files db)" "\<not> ?hit r" for r
  proof
    assume eq: "(fr_vault r, fr_path r) = (v, ci_path input)"
    then have "fr_id r = ci_file_id input" using free that(1) by simp
    then have "r = h" using files_keys_unique [OF assms(2) that(1) h(1)] h(2) by simp
    with that(2) h(2) show False by simp
  qed
  have "distinct (map (\<lambda>r. (fr_vault r, fr_path r)) (update_rows ?hit ?f (db_files db)))"
  proof (rule distinct_map_update_rows [where k' = "(v, ci_path input)"])
    show "distinct (map (\<lambda>r. (fr_vault r, fr_path r)) (db_files db))"
      using assms(2) by (simp add: files_keys_def)
    show "rows_affected ?hit (db_files db) \<le> 1" using one by simp
  qed (use other in simp_all)
  moreover have "map fr_id (update_rows ?hit ?f (db_files db)) = map fr_id (db_files db)"
    by (rule map_update_rows) simp
  ultimately show ?thesis using assms(2) by (simp add: db' files_keys_def)
qed

lemma word_le_next: "uint n = uint c + 1 \<Longrightarrow> (m \<le> n) = (m \<le> c \<or> m = n)" for m n c :: u64
  by (auto simp: word_le_def word_uint_eq_iff)

lemma word_one_le_next: "uint n = uint c + 1 \<Longrightarrow> 1 \<le> n" for n c :: u64
  by (simp add: word_le_def)

lemma store_revision_gapless:
  assumes "store_entry now v input current nxt db = Ok (u, db')" "files_keys (db_files db)"
    and "next_revision_of current = Ok nxt"
    and "gapless (db_files db) rs" "revisions_owned (db_files db) rs"
    and "rev_key row = (v, ci_file_id input, nxt)"
  shows "gapless (db_files db') (rs @ [row])"
proof (cases current)
  case None
  then have nxt: "nxt = 1" using assms(3) by (simp add: next_revision_of_def)
  have files: "db_files db' = db_files db @ [file_row v input nxt now now]"
    and fresh: "\<forall>r \<in> set (db_files db). fr_id r \<noteq> ci_file_id input"
    using store_entry_None [OF assms(1) [unfolded None]] by auto
  have none: "(v, ci_file_id input, n) \<notin> rev_key ` set rs" for n
    using assms(5) fresh by (auto simp: revisions_owned_def rev_key_def)
  have one: "(1 \<le> n \<and> n \<le> 1) = (n = 1)" for n :: u64
    by (auto simp: word_le_def word_uint_eq_iff)
  have key: "set (map rev_key (rs @ [row])) = insert (v, ci_file_id input, 1) (rev_key ` set rs)"
    using assms(6) nxt by auto
  show ?thesis unfolding gapless_def
  proof (intro ballI allI)
    fix f n assume "f \<in> set (db_files db')"
    then consider "f \<in> set (db_files db)" | "f = file_row v input nxt now now" by (auto simp: files)
    then show "(fr_vault f, fr_id f, n) \<in> rev_key ` set (rs @ [row]) \<longleftrightarrow> 1 \<le> n \<and> n \<le> fr_revision f"
    proof cases
      case 1
      then show ?thesis using assms(4) fresh key by (auto simp: gapless_def)
    next
      case 2
      then show ?thesis using none key one [of n] nxt by auto
    qed
  qed
next
  case (Some c)
  let ?hit = "\<lambda>r. fr_vault r = v \<and> fr_id r = ci_file_id input \<and> fr_revision r = fr_revision c"
  have files: "db_files db' = update_rows ?hit (\<lambda>r. file_row v input nxt (fr_created_at r) now)
      (db_files db)"
    and one: "rows_affected ?hit (db_files db) = 1"
    using store_entry_Some [OF assms(1) [unfolded Some]] by auto
  obtain h where h: "h \<in> set (db_files db)" "?hit h"
    using rows_affected_witness [OF one] by blast
  have uniq: "r = h" if "r \<in> set (db_files db)" "fr_id r = ci_file_id input" for r
    using files_keys_unique [OF assms(2) that(1) h(1)] that(2) h(2) by simp
  have nx: "uint nxt = uint (fr_revision c) + 1"
    using assms(3) Some next_revision_of_Some(1) by simp
  show ?thesis unfolding gapless_def
  proof (intro ballI allI)
    fix f n assume "f \<in> set (db_files db')"
    then obtain r where r: "r \<in> set (db_files db)"
        "f = (if ?hit r then file_row v input nxt (fr_created_at r) now else r)"
      by (auto simp: files set_update_rows)
    have old: "(fr_vault r, fr_id r, n) \<in> rev_key ` set rs \<longleftrightarrow> 1 \<le> n \<and> n \<le> fr_revision r"
      using assms(4) r(1) by (auto simp: gapless_def)
    show "(fr_vault f, fr_id f, n) \<in> rev_key ` set (rs @ [row]) \<longleftrightarrow> 1 \<le> n \<and> n \<le> fr_revision f"
    proof (cases "?hit r")
      case True
      then show ?thesis using old r assms(6) word_le_next [OF nx, of n] word_one_le_next [OF nx]
        by auto
    next
      case False
      then have "fr_id r \<noteq> ci_file_id input" using uniq r(1) h by auto
      then show ?thesis using old r False assms(6) by auto
    qed
  qed
qed

lemma journal_keys_update:
  assumes "journal_keys js" "\<And>j. P j \<Longrightarrow> journal_row_evolves j (f j)"
  shows "journal_keys (update_rows P f js)"
proof -
  have "map jr_id (update_rows P f js) = map jr_id js"
    using assms(2) by (intro map_update_rows) (auto simp: journal_row_evolves_def)
  moreover have "\<exists>j \<in> set js. jr_id k = jr_id j \<and> jr_vault k = jr_vault j \<and>
      jr_idempotency_key k = jr_idempotency_key j" if "k \<in> set (update_rows P f js)" for k
    using that assms(2) by (auto simp: set_update_rows journal_row_evolves_def split: if_splits)
  ultimately show ?thesis using assms(1) unfolding journal_keys_def by (metis (no_types, lifting))
qed

lemma db_ok_journal:
  assumes "db_ok db" "journal_keys js"
  shows "db_ok (db\<lparr>db_journal := js\<rparr>)"
  using assms by (simp add: db_ok_def)

lemma update_journal_ok:
  assumes "update_journal ctx oid states f e db = Ok (u, db')" "db_ok db"
    and "\<And>j. jr_state j \<in> states \<Longrightarrow> journal_row_evolves j (f j)"
  shows "db_ok db'"
proof -
  have "journal_keys (update_rows (\<lambda>j. jr_vault j = ctx_id ctx \<and> jr_id j = oid \<and> jr_state j \<in> states)
      f (db_journal db))"
    using assms(2,3) by (intro journal_keys_update) (auto simp: db_ok_def)
  with assms show ?thesis by (auto simp: update_journal_Ok intro: db_ok_journal)
qed

lemma prepare_operation_Ok:
  assumes "prepare_operation now ctx input db = Ok (j, db')"
  shows "db' = db\<lparr>db_journal := db_journal db @ [j]\<rparr>" "jr_vault j = ctx_id ctx"
    "jr_id j = po_id input" "jr_idempotency_key j = po_idempotency_key input" "jr_state j = Prepared"
    "jr_payload j = po_payload input" "jr_operation j = po_operation input"
    "\<forall>k \<in> set (db_journal db). jr_id k \<noteq> po_id input"
    "\<not> journal_key_taken (ctx_id ctx) (po_idempotency_key input) db"
  using assms
  by (auto simp: prepare_operation_def bind_r_Ok_conv Let_def split: if_splits option.splits)

lemma journal_keys_snoc:
  assumes "journal_keys js" "\<forall>k \<in> set js. jr_id k \<noteq> jr_id j"
    and "jr_idempotency_key j \<noteq> None \<Longrightarrow>
      \<forall>k \<in> set js. \<not> (jr_vault k = jr_vault j \<and> jr_idempotency_key k = jr_idempotency_key j)"
  shows "journal_keys (js @ [j])"
  unfolding journal_keys_def
proof (intro conjI ballI impI)
  show "distinct (map jr_id (js @ [j]))" using assms(1,2) by (auto simp: journal_keys_def)
  fix a b
  assume "a \<in> set (js @ [j])" "b \<in> set (js @ [j])" and v: "jr_vault a = jr_vault b"
    and k: "jr_idempotency_key a \<noteq> None" "jr_idempotency_key a = jr_idempotency_key b"
  then consider "a \<in> set js" "b \<in> set js" | "a = j" "b = j" | "a = j" "b \<in> set js" | "a \<in> set js" "b = j"
    by auto
  then show "jr_id a = jr_id b"
  proof cases
    case 1
    then show ?thesis using assms(1) v k unfolding journal_keys_def by blast
  next
    case 2
    then show ?thesis by simp
  next
    case 3
    then have "\<not> (jr_vault b = jr_vault j \<and> jr_idempotency_key b = jr_idempotency_key j)"
      using assms(3) k(1) by blast
    with 3 v k show ?thesis by simp
  next
    case 4
    then have "jr_idempotency_key j \<noteq> None" using k by simp
    from bspec [OF assms(3) [OF this] 4(1)] 4 v k show ?thesis by simp
  qed
qed

lemma prepare_operation_ok:
  assumes "prepare_operation now ctx input db = Ok (j, db')" "db_ok db"
  shows "db_ok db'"
proof -
  note p = prepare_operation_Ok [OF assms(1)]
  have "journal_keys (db_journal db @ [j])"
    using assms(2) p(2-4,8,9) by (intro journal_keys_snoc) (auto simp: db_ok_def journal_key_taken_def)
  with assms(2) p(1) show ?thesis by (simp add: db_ok_journal)
qed

lemma extends_by_mem: "extends_by R xs ys \<Longrightarrow> x \<in> set xs \<Longrightarrow> \<exists>y \<in> set ys. R x y"
  by (auto simp: extends_by_def in_set_conv_nth intro!: bexI [OF _ nth_mem])

lemma revisions_owned_evolves:
  assumes "revisions_owned fs rs" "extends_by file_row_evolves fs gs"
  shows "revisions_owned gs rs"
  unfolding revisions_owned_def
proof (intro conjI ballI)
  show "distinct (map rev_key rs)" using assms(1) by (simp add: revisions_owned_def)
  fix r assume "r \<in> set rs"
  then obtain f where f: "f \<in> set fs" "fr_vault f = rr_vault r" "fr_id f = rr_file r"
    using assms(1) by (auto simp: revisions_owned_def)
  obtain g where "g \<in> set gs" "file_row_evolves f g" using extends_by_mem [OF assms(2) f(1)] by blast
  with f show "\<exists>g \<in> set gs. fr_vault g = rr_vault r \<and> fr_id g = rr_file r"
    by (auto simp: file_row_evolves_def)
qed

lemma insert_revision_owned:
  assumes "insert_revision row db = Ok (u, db\<lparr>db_revisions := rs'\<rparr>)"
    and "revisions_owned (db_files db) (db_revisions db)"
  shows "revisions_owned (db_files db) rs'"
proof -
  have "rs' = db_revisions db @ [row]"
    using arg_cong [OF insert_revision_step [OF assms(1), THEN conjunct2], of db_revisions] by simp
  moreover have "rev_key row \<notin> rev_key ` set (db_revisions db)"
      "\<exists>f \<in> set (db_files db). fr_vault f = rr_vault row \<and> fr_id f = rr_file row"
    using assms(1) by (auto simp: insert_revision_def rev_key_def split: if_splits)
  ultimately show ?thesis using assms(2) by (auto simp: revisions_owned_def)
qed

lemma commit_mutation_ok:
  assumes "commit_mutation uuid_str sha256 env hook ctx input db = Ok (res, db')" "db_ok db"
  shows "db_ok db'"
  using assms(1)
proof (rule commit_mutation_tables)
  fix nxt db1 db2
  assume n: "next_revision_of (get_by_id ctx (ci_file_id input) db) = Ok nxt"
    and a: "archive_tombstone (ce_now env) (ctx_id ctx) input
        (get_any_by_path ctx (ci_path input) db) db = Ok ((), db1)"
    and b: "store_entry (ce_now env) (ctx_id ctx) input (get_by_id ctx (ci_file_id input) db) nxt db1
        = Ok ((), db2)"
    and c: "insert_revision (mc_revision res) db2 = Ok ((), db2\<lparr>db_revisions := db_revisions db'\<rparr>)"
    and t: "db_files db' = db_files db2" "db_revisions db' = db_revisions db @ [mc_revision res]"
    and j: "db_journal db' = update_rows (\<lambda>j. jr_vault j = ctx_id ctx \<and>
        jr_id j = ci_operation_id input \<and> jr_state j \<in> {FileCommitted})
       (\<lambda>j. j\<lparr>jr_state := MetadataCommitted, jr_updated_at := ce_now env, jr_error := None\<rparr>)
       (db_journal db)"
    and m: "mc_revision res
        = revision_row env (ctx_id ctx) input (get_by_id ctx (ci_file_id input) db) nxt"
  have ok: "files_keys (db_files db)" "gapless (db_files db) (db_revisions db)"
      "revisions_owned (db_files db) (db_revisions db)" "journal_keys (db_journal db)"
    using assms(2) by (simp_all add: db_ok_def)
  note k1 = archive_tombstone_keys [OF a ok(1)]
  note g1 = gapless_cong [OF k1 [THEN conjunct2], of "db_revisions db"]
  have "files_keys (db_files db2)" using store_entry_keys [OF b] k1 by blast
  moreover have "gapless (db_files db2) (db_revisions db @ [mc_revision res])"
    using store_revision_gapless [OF b _ n] k1 g1 ok(2,3) by (simp add: m rev_key_def)
  moreover have "revisions_owned (db_files db2) (db_revisions db')"
  proof (rule insert_revision_owned [OF c])
    have "db_revisions db2 @ [mc_revision res] = db_revisions db'"
      using arg_cong [OF insert_revision_step [OF c, THEN conjunct2], of db_revisions] by simp
    then have "db_revisions db2 = db_revisions db" by (simp add: t)
    moreover have "extends_by file_row_evolves (db_files db) (db_files db2)"
      using commit_mutation_step [OF assms(1)] t by (simp add: db_step_def history_grows_def)
    ultimately show "revisions_owned (db_files db2) (db_revisions db2)"
      using ok(3) revisions_owned_evolves by simp
  qed
  moreover have "journal_keys (db_journal db')"
    unfolding j using ok(4)
    by (rule journal_keys_update) (auto simp: journal_row_evolves_def intro!: r_into_rtranclp)
  ultimately show ?thesis by (simp add: db_ok_def t)
qed

lemma journal_updates_evolve:
  "jr_state j \<in> {Prepared} \<Longrightarrow> journal_row_evolves j
     (j\<lparr>jr_state := FileCommitted, jr_proposed_hash := h, jr_updated_at := now\<rparr>)"
  "journal_row_evolves j (j\<lparr>jr_proposed_hash := h, jr_updated_at := now\<rparr>)"
  "journal_row_evolves j (j\<lparr>jr_payload := p, jr_proposed_hash := h, jr_updated_at := now\<rparr>)"
  "jr_state j \<in> {Prepared, FileCommitted} \<Longrightarrow> st \<in> {RolledBack, NeedsReviewState} \<Longrightarrow>
     journal_row_evolves j (j\<lparr>jr_state := st, jr_error := e, jr_updated_at := now\<rparr>)"
  by (auto simp: journal_row_evolves_def intro!: r_into_rtranclp)

lemma journal_writes_ok:
  "mark_file_committed now ctx oid h db = Ok (u, db') \<Longrightarrow> db_ok db \<Longrightarrow> db_ok db'"
  "set_proposed_hash now ctx oid h2 db = Ok (u, db') \<Longrightarrow> db_ok db \<Longrightarrow> db_ok db'"
  "update_operation_payload now ctx oid p h db = Ok (u, db') \<Longrightarrow> db_ok db \<Longrightarrow> db_ok db'"
  "mark_rolled_back now ctx oid e db = Ok (u, db') \<Longrightarrow> db_ok db \<Longrightarrow> db_ok db'"
  "mark_needs_review now ctx oid e2 db = Ok (u, db') \<Longrightarrow> db_ok db \<Longrightarrow> db_ok db'"
  unfolding mark_file_committed_def set_proposed_hash_def update_operation_payload_def
    mark_rolled_back_def mark_needs_review_def mark_terminal_def
  by (auto split: if_splits elim!: update_journal_ok intro: journal_updates_evolve)

lemma discard_loop_ok: "discard_loop now ctx js db = Ok (u, db') \<Longrightarrow> db_ok db \<Longrightarrow> db_ok db'"
proof (induction js arbitrary: db)
  case (Cons j js)
  let ?hit = "\<lambda>r. jr_vault r = ctx_id ctx \<and> jr_id r = jr_id j \<and> jr_state r = jr_state j \<and>
                   jr_updated_at r = jr_updated_at j"
  let ?f = "\<lambda>r. r\<lparr>jr_state := Discarded,
      jr_error := Some ''discarded by legacy memory initialization'', jr_updated_at := now\<rparr>"
  have open_state: "jr_state j \<in> {Prepared, FileCommitted, NeedsReviewState}"
    and rest: "discard_loop now ctx js (db\<lparr>db_journal := update_rows ?hit ?f (db_journal db)\<rparr>)
      = Ok (u, db')"
    using Cons.prems by (auto simp: Let_def split: if_splits)
  have "journal_keys (update_rows ?hit ?f (db_journal db))"
    using Cons.prems(2) open_state
    by (intro journal_keys_update)
      (auto simp: db_ok_def journal_row_evolves_def intro!: r_into_rtranclp)
  then show ?case using Cons.IH [OF rest] db_ok_journal [OF Cons.prems(2)] by blast
qed simp

lemma supersede_Ok:
  assumes "supersede_replayed_create_inner uuid_str sha256 aid now ctx w rv db = Ok (res, db')"
  obtains "res \<noteq> Applied" "db' = db"
  | j rid db1 where "res = Applied"
      "find_row (\<lambda>j. jr_vault j = ctx_id ctx \<and> jr_id j = sw_operation_id w) (db_journal db) = Some j"
      "supersede_eligible rv j" "supersede_witness ctx w j db = Some rid"
      "update_journal ctx (sw_operation_id w) {jr_state j}
         (\<lambda>r. r\<lparr>jr_state := Superseded, jr_updated_at := now,
                jr_error := Some ''superseded by verified later create''\<rparr>) Conflict db = Ok ((), db1)"
      "insert_audit (supersede_audit_row uuid_str sha256 aid now ctx w rid) db1 = Ok ((), db')"
  using assms
  by (auto simp: supersede_replayed_create_inner_def bind_r_Ok_conv
      split: option.splits if_splits sum.splits)

lemma supersede_ok:
  assumes "supersede_replayed_create_inner uuid_str sha256 aid now ctx w rv db = Ok (res, db')"
    and "db_ok db"
  shows "db_ok db'"
  using assms(1)
proof (cases rule: supersede_Ok)
  case 1
  then show ?thesis using assms(2) by simp
next
  case (2 j rid db1)
  have "db_ok db1" using 2(5) assms(2)
    by (rule update_journal_ok)
      (use 2(3) in \<open>auto simp: supersede_eligible_def journal_row_evolves_def intro!: r_into_rtranclp\<close>)
  then show ?thesis using insert_audit_step [OF 2(6)] by (auto simp: db_ok_def)
qed

lemma repo_write_step: "repo_write ctx db db' \<Longrightarrow> db_step (ctx_id ctx) db db'"
  by (induction rule: repo_write.induct)
    (auto intro: prepare_operation_step journal_writes_step discard_loop_step commit_mutation_step
      supersede_step db_order.step_refl simp: discard_legacy_memory_journals_def split: if_splits)

lemma repo_write_ok: "repo_write ctx db db' \<Longrightarrow> db_ok db \<Longrightarrow> db_ok db'"
  by (induction rule: repo_write.induct)
    (auto intro: prepare_operation_ok journal_writes_ok discard_loop_ok commit_mutation_ok
      supersede_ok simp: discard_legacy_memory_journals_def split: if_splits)

interpretation repository: inductive_invariant
  "\<lambda>db. \<exists>vs n b. db = db_empty vs n b" repo_writes db_ok
proof unfold_locales
  show "\<exists>vs n b. db = db_empty vs n b \<Longrightarrow> db_ok db" for db
    by (auto simp: db_empty_def db_ok_def files_keys_def revisions_owned_def gapless_def
        journal_keys_def)
  show "db_ok s \<Longrightarrow> repo_writes s t \<Longrightarrow> db_ok t" for s t
    by (auto simp: repo_writes_def intro: repo_write_ok)
qed

lemma repo_run_step: "(repo_write ctx)\<^sup>*\<^sup>* db db' \<Longrightarrow> db_step (ctx_id ctx) db db'"
  by (induction rule: rtranclp_induct)
    (auto intro: db_order.step_refl db_order.step_trans repo_write_step)

lemma repo_writes_journal: "repo_writes\<^sup>*\<^sup>* db db' \<Longrightarrow> journal_evolves db db'"
proof (induction rule: rtranclp_induct)
  case (step y z)
  then obtain ctx where "repo_write ctx y z" by (auto simp: repo_writes_def)
  from repo_write_step [OF this] step.IH show ?case using journal_order.step_trans by (auto simp: db_step_def)
qed (rule journal_order.step_refl)

lemma journal_final_stays:
  assumes "journal_next\<^sup>*\<^sup>* s t" "s \<in> {MetadataCommitted, RolledBack, Superseded, Discarded}"
  shows "t = s"
  using assms by (induction rule: rtranclp_induct) auto

lemma example_prepared:
  "\<exists>j. prepare_operation 10 example_ctx example_prepare example_db0 = Ok (j, example_db1)"
  by (auto simp: example_db1_def result_db_def prepare_operation_def example_ctx_def
      example_prepare_def example_db0_def db_empty_def validate_idempotency_key_def Let_def
      journal_key_taken_def vault_registered_def)

lemma example_committed:
  "mark_file_committed 11 example_ctx 100 (Some ''aa'') example_db1 = Ok ((), example_db2)"
  by (simp add: example_db2_def result_db_def example_db1_def prepare_operation_def example_ctx_def
      example_prepare_def example_db0_def db_empty_def validate_idempotency_key_def Let_def
      journal_key_taken_def vault_registered_def mark_file_committed_def update_journal_def)

lemma example_result_eval:
  "case example_result of Err _ \<Rightarrow> False
   | Ok (res, db') \<Rightarrow> fr_revision (mc_file res) = 1 \<and> length (db_outbox db') = 1"
  by code_simp

lemma example_result_Ok:
  obtains res db' where "example_result = Ok (res, db')" "fr_revision (mc_file res) = 1"
    "length (db_outbox db') = 1"
  using example_result_eval by (auto split: sum.splits)

lemma example_run:
  "repo_write example_ctx example_db0 example_db1" "repo_write example_ctx example_db1 example_db2"
  using example_prepared example_committed by (auto intro: w_prepare w_file_committed)

lemma example_db2_reachable: "repo_writes\<^sup>*\<^sup>* example_db0 example_db2"
  using example_run by (meson converse_rtranclp_into_rtranclp r_into_rtranclp repo_writes_def)

lemma example_db2_ok: "db_ok example_db2"
  using repository.inv_reachable [OF _ example_db2_reachable] by (auto simp: example_db0_def)

lemma get_by_id_unique:
  assumes "files_keys (db_files db)" "f \<in> set (db_files db)" "fr_vault f = ctx_id ctx" "fr_id f = i"
  shows "get_by_id ctx i db = Some f"
proof (cases "get_by_id ctx i db")
  case None
  then show ?thesis using assms by (auto simp: get_by_id_def find_row_None)
next
  case (Some g)
  then show ?thesis using get_by_id_Some [OF Some] files_keys_unique assms by auto
qed

lemma get_any_by_path_unique:
  assumes "files_keys (db_files db)" "f \<in> set (db_files db)" "fr_vault f = ctx_id ctx" "fr_path f = p"
  shows "get_any_by_path ctx p db = Some f"
proof -
  have inj: "inj_on (\<lambda>r. (fr_vault r, fr_path r)) (set (db_files db))"
    using assms(1) by (simp add: files_keys_def distinct_map)
  show ?thesis
  proof (cases "get_any_by_path ctx p db")
    case None
    then show ?thesis using assms by (auto simp: get_any_by_path_def get_by_path_def find_row_None)
  next
    case (Some g)
    then have "g \<in> set (db_files db)" "fr_vault g = ctx_id ctx" "fr_path g = p"
      by (auto simp: get_any_by_path_def get_by_path_def dest: find_row_Some)
    then show ?thesis using Some assms inj_onD [OF inj, of g f] by simp
  qed
qed

lemma store_entry_row:
  assumes run: "store_entry now v input current nxt db = Ok (u, db')"
    and same: "\<And>c r. current = Some c \<Longrightarrow> r \<in> set (db_files db) \<Longrightarrow> fr_id r = ci_file_id input \<Longrightarrow>
      fr_created_at r = fr_created_at c"
  shows "file_row v input nxt (case current of Some c \<Rightarrow> fr_created_at c | None \<Rightarrow> now) now \<in> set (db_files db')"
proof (cases current)
  case None
  then show ?thesis using store_entry_None [of now v input nxt db u db'] run by auto
next
  case (Some c)
  note st = store_entry_Some [OF run [unfolded Some]]
  let ?hit = "\<lambda>r. fr_vault r = v \<and> fr_id r = ci_file_id input \<and> fr_revision r = fr_revision c"
  obtain r where r: "r \<in> set (db_files db)" "?hit r"
    using rows_affected_witness [OF st [THEN conjunct2, THEN conjunct1]] by blast
  then have "file_row v input nxt (fr_created_at r) now \<in> set (db_files db')"
    using st by (auto simp: set_update_rows intro: rev_image_eqI)
  then show ?thesis using same [OF Some r(1)] r(2) Some by simp
qed

lemma store_entry_others:
  assumes run: "store_entry now v input current nxt db = Ok (u, db')"
  shows "filter (\<lambda>f. fr_id f \<noteq> ci_file_id input) (db_files db') =
    filter (\<lambda>f. fr_id f \<noteq> ci_file_id input) (db_files db)"
proof (cases current)
  case None
  then show ?thesis using store_entry_None [of now v input nxt db u db'] run by simp
next
  case (Some c)
  then show ?thesis
    using store_entry_Some [OF run [unfolded Some]] by (auto intro!: filter_update_other)
qed

lemma archived_rows:
  assumes "archive_tombstone now v input destination db = Ok (u, db1)" "r \<in> set (db_files db1)"
  shows "\<exists>r0 \<in> set (db_files db). fr_id r0 = fr_id r \<and> fr_created_at r0 = fr_created_at r"
proof (cases "ci_tombstone_archive_path input")
  case None
  then show ?thesis using assms by (auto simp: archive_tombstone_def)
next
  case (Some a)
  then obtain d where "destination = Some d" using assms(1) by (cases destination) (auto simp: archive_tombstone_def)
  then have "db_files db1 = update_rows (\<lambda>r. fr_vault r = v \<and> fr_id r = fr_id d \<and> fr_deleted_at r \<noteq> None)
      (\<lambda>r. r\<lparr>fr_path := a, fr_updated_at := now\<rparr>) (db_files db)"
    using assms(1) Some by (auto simp: archive_tombstone_def Let_def split: if_split_asm)
  then obtain r0 where "r0 \<in> set (db_files db)" "r = r0 \<or> r = r0\<lparr>fr_path := a, fr_updated_at := now\<rparr>"
    using assms(2) by (auto simp: set_update_rows split: if_split_asm)
  then show ?thesis by (intro bexI [of _ r0]) auto
qed

lemma insert_outbox_rows:
  "insert_outbox now v fresh n es db = Ok (u, db') \<Longrightarrow>
     db' = db\<lparr>db_outbox := db_outbox db @
       map (\<lambda>i. outbox_row_of now v (fresh (n + i)) (es ! i)) [0..<length es]\<rparr>"
proof (induction es arbitrary: n db)
  case (Cons e es)
  have "insert_outbox now v fresh (n + 1) es
      (db\<lparr>db_outbox := db_outbox db @ [outbox_row_of now v (fresh n) e]\<rparr>) = Ok (u, db')"
    using Cons.prems by (auto simp: bind_r_Ok_conv split: if_split_asm)
  from Cons.IH [OF this] show ?case by (simp add: map_upt_Suc del: upt_Suc)
qed simp

lemma commit_mutation_rows:
  assumes "commit_mutation uuid_str sha256 env hook ctx input db = Ok (res, db')"
  shows "db_audit db' = db_audit db @ [commit_audit_row uuid_str sha256 env (ctx_id ctx) input]"
    "db_outbox db' = db_outbox db @ map (\<lambda>i. outbox_row_of (ce_now env) (ctx_id ctx) (ce_event_id env i)
       (ci_outbox_events input ! i)) [0..<length (ci_outbox_events input)]"
  using assms
proof (atomize (full), rule commit_mutation_cases)
  fix nxt db1 db2 db3 db4 db5 db6
  assume a: "archive_tombstone (ce_now env) (ctx_id ctx) input
        (get_any_by_path ctx (ci_path input) db) db = Ok ((), db1)"
    and n: "next_revision_of (get_by_id ctx (ci_file_id input) db) = Ok nxt"
    and b: "store_entry (ce_now env) (ctx_id ctx) input (get_by_id ctx (ci_file_id input) db) nxt db1
        = Ok ((), db2)"
    and c: "insert_revision (revision_row env (ctx_id ctx) input
        (get_by_id ctx (ci_file_id input) db) nxt) db2 = Ok ((), db3)"
    and d: "apply_file_mutation_qualification (ctx_id ctx) (ci_file_id input) (ci_path input)
        (file_operation_as_str (ci_operation input)) (ci_content_hash input) (ce_now env) db3
        = Ok ((), db4)"
    and e: "insert_audit (commit_audit_row uuid_str sha256 env (ctx_id ctx) input) db4 = Ok ((), db5)"
    and f: "insert_outbox (ce_now env) (ctx_id ctx) (ce_event_id env) 0 (ci_outbox_events input) db5
        = Ok ((), db6)"
    and g: "finish_journal (ce_now env) ctx (ci_operation_id input) db6 = Ok ((), db')"
  have t1: "db_audit db1 = db_audit db" "db_outbox db1 = db_outbox db"
    using archive_tombstone_step [OF a] by (metis file_db.select_convs file_db.surjective
        file_db.update_convs(2))+
  have "\<And>c. get_by_id ctx (ci_file_id input) db = Some c \<Longrightarrow> fr_revision c \<le> nxt"
    using n next_revision_of_Some(2) by fastforce
  from store_entry_step [OF b this] have t2: "db_audit db2 = db_audit db1" "db_outbox db2 = db_outbox db1"
    by (metis file_db.select_convs file_db.surjective file_db.update_convs(2))+
  have t3: "db_audit db3 = db_audit db2" "db_outbox db3 = db_outbox db2"
    using insert_revision_step [OF c] by simp_all
  have t4: "db_audit db4 = db_audit db3" "db_outbox db4 = db_outbox db3"
    using qualification_step [OF d, THEN conjunct2]
    by (metis file_db.select_convs file_db.surjective file_db.update_convs(9-11))+
  show "db_audit db' = db_audit db @ [commit_audit_row uuid_str sha256 env (ctx_id ctx) input] \<and>
    db_outbox db' = db_outbox db @ map (\<lambda>i. outbox_row_of (ce_now env) (ctx_id ctx) (ce_event_id env i)
       (ci_outbox_events input ! i)) [0..<length (ci_outbox_events input)]"
    using t1 t2 t3 t4 insert_audit_step [OF e] insert_outbox_rows [OF f]
      g [unfolded finish_journal_def update_journal_Ok] by simp
qed

section \<open>Properties\<close>

text \<open>
  C35: the repository invariant. In every database reached from an empty one by any sequence of the
  repository's writes, file identifiers and live or deleted paths are unique within a Vault,
  journal identifiers and idempotency keys are unique, every revision row has its file, and the
  history of every file is gapless: revision \<open>n\<close> exists exactly for \<open>1 \<le> n \<le> current\<close>.
\<close>

theorem repository_invariant:
  assumes "repo_writes\<^sup>*\<^sup>* (db_empty vaults version tables) db"
  shows "distinct (map fr_id (db_files db)) \<and>
    distinct (map (\<lambda>f. (fr_vault f, fr_path f)) (db_files db)) \<and>
    distinct (map jr_id (db_journal db)) \<and>
    (\<forall>r \<in> set (db_revisions db). \<exists>f \<in> set (db_files db). fr_vault f = rr_vault r \<and> fr_id f = rr_file r) \<and>
    (\<forall>f \<in> set (db_files db). \<forall>n.
       (\<exists>r \<in> set (db_revisions db). rr_vault r = fr_vault f \<and> rr_file r = fr_id f \<and> rr_revision r = n)
       \<longleftrightarrow> 1 \<le> n \<and> n \<le> fr_revision f)"
proof -
  have ok: "db_ok db" using repository.inv_reachable assms by blast
  have "(\<exists>r \<in> set (db_revisions db). rr_vault r = v \<and> rr_file r = i \<and> rr_revision r = n)
      \<longleftrightarrow> (v, i, n) \<in> rev_key ` set (db_revisions db)" for v i n
    by (force simp: rev_key_def)
  then show ?thesis using ok
    by (simp add: db_ok_def files_keys_def journal_keys_def revisions_owned_def gapless_def)
qed

theorem repository_invariant_witness:
  "distinct (map jr_id (db_journal example_db2)) \<and> distinct (map fr_id (db_files example_db2))"
  using repository_invariant [OF example_db2_reachable [unfolded example_db0_def]] by blast

text \<open>
  History is append-only. Whatever the file repository writes for one Vault, revision, audit and
  outbox rows already stored stay as they are; a file row keeps its identity and its revision number
  never decreases; a journal row that is final (committed, rolled back, superseded or discarded)
  stays so; and no file row of another Vault changes.
\<close>

theorem repository_append_only:
  assumes "(repo_write ctx)\<^sup>*\<^sup>* db db'"
  shows "prefix (db_revisions db) (db_revisions db') \<and> prefix (db_audit db) (db_audit db') \<and>
    prefix (db_outbox db) (db_outbox db') \<and>
    (\<forall>i < length (db_files db). fr_id (db_files db' ! i) = fr_id (db_files db ! i) \<and>
       fr_revision (db_files db ! i) \<le> fr_revision (db_files db' ! i)) \<and>
    (\<forall>i < length (db_journal db). jr_id (db_journal db' ! i) = jr_id (db_journal db ! i) \<and>
       (jr_state (db_journal db ! i) \<in> {MetadataCommitted, RolledBack, Superseded, Discarded} \<longrightarrow>
          jr_state (db_journal db' ! i) = jr_state (db_journal db ! i))) \<and>
    filter (\<lambda>f. fr_vault f \<noteq> ctx_id ctx) (db_files db')
      = filter (\<lambda>f. fr_vault f \<noteq> ctx_id ctx) (db_files db)"
  using repo_run_step [OF assms] journal_final_stays
  by (simp add: db_step_def history_grows_def journal_evolves_def extends_by_def
      journal_row_evolves_def file_row_evolves_def other_vaults_same_def)

theorem repository_append_only_witness:
  "prefix (db_revisions example_db1) (db_revisions example_db2) \<and>
   jr_id (db_journal example_db2 ! 0) = jr_id (db_journal example_db1 ! 0)"
proof -
  have "length (db_journal example_db1) = 1" by code_simp
  with repository_append_only [OF r_into_rtranclp [where r = "repo_write example_ctx", OF example_run(2)]]
  show ?thesis by simp
qed

text \<open>
  C34: what a metadata commit writes, table by table. A successful \<open>commit_mutation\<close> returns the file
  row and the revision row built from the request, with the previous revision number plus one (1 for
  a new file) and the creation time of the entry it replaces. That file row is the one found by the
  file's identifier and by its path; unless a tombstone is archived no row of another file changes.
  Exactly the returned revision row, the audit row of the request and one pending outbox row per
  event, in their order, are appended, and of the journal exactly the operation's file-committed
  row becomes \<open>MetadataCommitted\<close>.
\<close>

theorem commit_mutation_result:
  fixes ctx db input
  defines "current \<equiv> get_by_id ctx (ci_file_id input) db" and "v \<equiv> ctx_id ctx"
  assumes run: "commit_mutation uuid_str sha256 env hook ctx input db = Ok (res, db')" and ok: "db_ok db"
  shows "\<exists>nxt. uint nxt = (case current of None \<Rightarrow> 1 | Some c \<Rightarrow> uint (fr_revision c) + 1) \<and>
    mc_file res = file_row v input nxt (case current of Some c \<Rightarrow> fr_created_at c | None \<Rightarrow> ce_now env) (ce_now env) \<and>
    mc_revision res = revision_row env v input current nxt \<and>
    get_by_id ctx (ci_file_id input) db' = Some (mc_file res) \<and>
    get_any_by_path ctx (ci_path input) db' = Some (mc_file res) \<and>
    (ci_tombstone_archive_path input = None \<longrightarrow>
       filter (\<lambda>f. fr_id f \<noteq> ci_file_id input) (db_files db') = filter (\<lambda>f. fr_id f \<noteq> ci_file_id input) (db_files db)) \<and>
    db_revisions db' = db_revisions db @ [mc_revision res] \<and>
    db_audit db' = db_audit db @ [commit_audit_row uuid_str sha256 env v input] \<and>
    db_outbox db' = db_outbox db @ map (\<lambda>i. outbox_row_of (ce_now env) v (ce_event_id env i)
       (ci_outbox_events input ! i)) [0..<length (ci_outbox_events input)] \<and>
    (\<exists>j \<in> set (db_journal db). jr_vault j = v \<and> jr_id j = ci_operation_id input \<and> jr_state j = FileCommitted) \<and>
    db_journal db' = map (\<lambda>j. if jr_vault j = v \<and> jr_id j = ci_operation_id input \<and> jr_state j = FileCommitted
       then j\<lparr>jr_state := MetadataCommitted, jr_updated_at := ce_now env, jr_error := None\<rparr> else j) (db_journal db)"
  using run
proof (rule commit_mutation_tables)
  fix nxt db1 db2
  assume n: "next_revision_of (get_by_id ctx (ci_file_id input) db) = Ok nxt"
    and a: "archive_tombstone (ce_now env) (ctx_id ctx) input (get_any_by_path ctx (ci_path input) db) db
       = Ok ((), db1)"
    and b: "store_entry (ce_now env) (ctx_id ctx) input (get_by_id ctx (ci_file_id input) db) nxt db1
        = Ok ((), db2)"
    and t: "db_files db' = db_files db2" "db_revisions db' = db_revisions db @ [mc_revision res]"
    and one: "rows_affected (\<lambda>j. jr_vault j = ctx_id ctx \<and> jr_id j = ci_operation_id input \<and>
        jr_state j \<in> {FileCommitted}) (db_journal db) = 1"
    and j: "db_journal db' = update_rows (\<lambda>j. jr_vault j = ctx_id ctx \<and>
        jr_id j = ci_operation_id input \<and> jr_state j \<in> {FileCommitted})
       (\<lambda>j. j\<lparr>jr_state := MetadataCommitted, jr_updated_at := ce_now env, jr_error := None\<rparr>)
       (db_journal db)"
    and rv: "mc_revision res = revision_row env (ctx_id ctx) input (get_by_id ctx (ci_file_id input) db) nxt"
    and m: "mc_file res = file_row (ctx_id ctx) input nxt
       (case get_by_id ctx (ci_file_id input) db of
          Some c \<Rightarrow> fr_created_at c | None \<Rightarrow> ce_now env) (ce_now env)"
  have keys: "files_keys (db_files db)" "files_keys (db_files db')"
    using ok commit_mutation_ok [OF run ok] by (simp_all add: db_ok_def)
  have "fr_created_at r = fr_created_at c"
    if c: "get_by_id ctx (ci_file_id input) db = Some c" and r: "r \<in> set (db_files db1)" "fr_id r = ci_file_id input"
    for c r
  proof -
    obtain r0 where r0: "r0 \<in> set (db_files db)" "fr_id r0 = fr_id r" "fr_created_at r0 = fr_created_at r"
      using archived_rows [OF a r(1)] by blast
    then have "r0 = c" using files_keys_unique [OF keys(1), of r0 c] get_by_id_Some [OF c] r(2) by simp
    then show ?thesis using r0(3) by simp
  qed
  from store_entry_row [OF b this] have row: "mc_file res \<in> set (db_files db')" unfolding m t(1) .
  have "fr_vault (mc_file res) = ctx_id ctx" "fr_id (mc_file res) = ci_file_id input" "fr_path (mc_file res) = ci_path input"
    by (simp_all add: m)
  note stored = get_by_id_unique [OF keys(2) row this(1,2)] get_any_by_path_unique [OF keys(2) row this(1,3)]
  have "uint nxt = (case current of None \<Rightarrow> 1 | Some c \<Rightarrow> uint (fr_revision c) + 1)"
    using n next_revision_of_Some(1) unfolding current_def
    by (cases "get_by_id ctx (ci_file_id input) db") (auto simp: next_revision_of_def)
  moreover have "filter (\<lambda>f. fr_id f \<noteq> ci_file_id input) (db_files db') = filter (\<lambda>f. fr_id f \<noteq> ci_file_id input) (db_files db)"
    if "ci_tombstone_archive_path input = None"
    using store_entry_others [OF b] a that t(1) by (simp add: archive_tombstone_def)
  ultimately show ?thesis
    unfolding current_def v_def
    using m rv stored t(2) commit_mutation_rows [OF run] rows_affected_witness [OF one] j
    by (intro exI [of _ nxt]) (auto simp: update_rows_def)
qed

theorem commit_mutation_result_witness:
  "\<exists>res db'. example_result = Ok (res, db') \<and> fr_revision (mc_file res) = 1 \<and>
     get_any_by_path example_ctx (VaultPath ''a.md'') db' = Some (mc_file res) \<and>
     db_audit db' = db_audit example_db2 @ [commit_audit_row (\<lambda>_. ''id'') id example_env (ctx_id example_ctx) example_commit] \<and>
     map ob_event_type (db_outbox db') = map ob_event_type (db_outbox example_db2) @ [''FileCreated'']"
proof (rule example_result_Ok)
  fix res db' assume r: "example_result = Ok (res, db')" "fr_revision (mc_file res) = 1"
  from commit_mutation_result [OF r(1) [unfolded example_result_def] example_db2_ok]
  have "get_any_by_path example_ctx (ci_path example_commit) db' = Some (mc_file res)"
    "db_audit db' = db_audit example_db2 @ [commit_audit_row (\<lambda>_. ''id'') id example_env (ctx_id example_ctx) example_commit]"
    "db_outbox db' = db_outbox example_db2 @ map (\<lambda>i. outbox_row_of (ce_now example_env) (ctx_id example_ctx)
       (ce_event_id example_env i) (ci_outbox_events example_commit ! i)) [0..<length (ci_outbox_events example_commit)]"
    by blast+
  moreover have "ci_path example_commit = VaultPath ''a.md''"
    "map oe_type (ci_outbox_events example_commit) = [''FileCreated'']" "length (ci_outbox_events example_commit) = 1"
    by (simp_all add: example_commit_def)
  ultimately show ?thesis using r by (intro exI conjI) (auto simp: outbox_row_of_def)
qed

text \<open>
  Optimistic concurrency at the metadata boundary. If the caller expects a revision, a commit
  can only succeed when the stored entry exists with exactly that revision, is live unless the
  operation is a restore, and the new revision is its successor; a stale expectation never commits.
\<close>

theorem commit_mutation_optimistic:
  assumes "ci_expected_revision input = Some expected"
    and "commit_mutation uuid_str sha256 env hook ctx input db = Ok (res, db')"
  shows "\<exists>c. get_by_id ctx (ci_file_id input) db = Some c \<and> fr_revision c = expected \<and>
     (is_active c \<or> ci_operation input = OpRestore) \<and>
     uint (fr_revision (mc_file res)) = uint expected + 1"
  using assms(2)
proof (rule commit_mutation_tables)
  fix nxt
  assume n: "next_revision_of (get_by_id ctx (ci_file_id input) db) = Ok nxt"
    and m: "mc_file res = file_row (ctx_id ctx) input nxt
       (case get_by_id ctx (ci_file_id input) db of
          Some c \<Rightarrow> fr_created_at c | None \<Rightarrow> ce_now env) (ce_now env)"
    and chk: "check_expected input (get_by_id ctx (ci_file_id input) db) = Ok ()"
  then show ?thesis using assms(1) next_revision_of_Some(1)
    by (auto simp: check_expected_def split: option.splits if_splits)
qed

theorem commit_mutation_optimistic_witness:
  "\<exists>c. get_by_id example_ctx 1 example_db4 = Some c \<and> fr_revision c = 1"
proof -
  have "case commit_mutation (\<lambda>_. ''id'') id (example_env\<lparr>ce_now := 22, ce_revision_id := 201,
      ce_audit_id := 301, ce_event_id := \<lambda>n. word_of_nat (500 + n)\<rparr>) (\<lambda>_. None) example_ctx
      example_replace example_db4 of Err _ \<Rightarrow> False | Ok _ \<Rightarrow> True" by code_simp
  then obtain res db' where "commit_mutation (\<lambda>_. ''id'') id (example_env\<lparr>ce_now := 22,
      ce_revision_id := 201, ce_audit_id := 301, ce_event_id := \<lambda>n. word_of_nat (500 + n)\<rparr>)
      (\<lambda>_. None) example_ctx example_replace example_db4 = Ok (res, db')"
    by (auto split: sum.splits)
  from commit_mutation_optimistic [OF _ this, of 1] show ?thesis
    by (auto simp: example_replace_def example_commit_def)
qed

text \<open>
  C36: an idempotency key is used by at most one operation of a Vault, for ever: once an operation
  was prepared with a key, no later \<open>prepare_operation\<close> of this Vault with that key succeeds, whatever
  writes of the file repository ran in between, for this Vault or others, a rollback or a commit of
  the first one included.
\<close>

theorem idempotency_key_used_once:
  assumes "prepare_operation now ctx input db = Ok (j, db1)" "po_idempotency_key input = Some key"
    and "repo_writes\<^sup>*\<^sup>* db1 db2" "po_idempotency_key input2 = Some key"
  shows "\<not> is_ok (prepare_operation now2 ctx input2 db2)"
proof
  assume "is_ok (prepare_operation now2 ctx input2 db2)"
  then obtain j2 db3 where "prepare_operation now2 ctx input2 db2 = Ok (j2, db3)"
    by (auto simp: is_ok_iff)
  then have free: "\<not> journal_key_taken (ctx_id ctx) (Some key) db2"
    using prepare_operation_Ok(9) assms(4) by metis
  note p = prepare_operation_Ok [OF assms(1)]
  have j: "j \<in> set (db_journal db1)" using p(1) by simp
  have evolves: "extends_by journal_row_evolves (db_journal db1) (db_journal db2)"
    using repo_writes_journal [OF assms(3)] by (simp add: journal_evolves_def)
  from extends_by_mem [OF evolves j] obtain k where
    k: "k \<in> set (db_journal db2)" "journal_row_evolves j k" by blast
  have "jr_vault k = ctx_id ctx" "jr_idempotency_key k = Some key"
    using k(2) p(2,4) assms(2) by (simp_all add: journal_row_evolves_def)
  with k(1) have "journal_key_taken (ctx_id ctx) (Some key) db2"
    unfolding journal_key_taken_def by blast
  with free show False by contradiction
qed

theorem idempotency_key_used_once_witness:
  "\<not> is_ok (prepare_operation 20 example_ctx (example_prepare\<lparr>po_id := 101\<rparr>) example_db2)"
proof -
  obtain j where "prepare_operation 10 example_ctx example_prepare example_db0 = Ok (j, example_db1)"
    using example_prepared by blast
  from idempotency_key_used_once [OF this, of "''k1''" example_db2 "example_prepare\<lparr>po_id := 101\<rparr>"]
  show ?thesis using r_into_rtranclp [where r = repo_writes, of example_db1 example_db2] example_run(2)
    by (auto simp: example_prepare_def repo_writes_def)
qed

text \<open>
  Adjudicating a replayed create is safe. \<open>Applied\<close> is only returned when the superseded
  intent's file identifier has no entry and no revision, a later committed create of another file
  owns the path with the physically verified hash, and the adjudication changes no file and no
  revision row: only the journal row becomes \<open>Superseded\<close> and one audit row is added.
\<close>

theorem supersede_applied_sound:
  assumes "supersede_replayed_create_inner uuid_str sha256 aid now ctx w rv db = Ok (Applied, db')"
  shows "db_files db' = db_files db \<and> db_revisions db' = db_revisions db \<and>
    length (db_audit db') = Suc (length (db_audit db)) \<and>
    (\<exists>j \<in> set (db_journal db'). jr_id j = sw_operation_id w \<and> jr_state j = Superseded) \<and>
    get_by_id ctx (sw_prior_file_id w) db = None \<and>
    (\<exists>f. get_active ctx (sw_path w) db = Some f \<and> fr_id f = sw_replacement_file_id w \<and>
       fr_id f \<noteq> sw_prior_file_id w \<and> fr_content_hash f = Some (sw_physical_hash w))"
  using assms
proof (cases rule: supersede_Ok)
  case 1
  then show ?thesis by simp
next
  case (2 j rid db1)
  have aud: "db' = db1\<lparr>db_audit := db_audit db1 @ [supersede_audit_row uuid_str sha256 aid now ctx w rid]\<rparr>"
    using insert_audit_step [OF 2(6)] by simp
  note upd = 2(5) [unfolded update_journal_Ok]
  have sup: "\<exists>j \<in> set (db_journal db1). jr_id j = sw_operation_id w \<and> jr_state j = Superseded"
    using updated_row_ex [OF upd [THEN conjunct1], of
        "\<lambda>k. jr_id k = sw_operation_id w \<and> jr_state k = Superseded"
        "\<lambda>r. r\<lparr>jr_state := Superseded, jr_updated_at := now,
                jr_error := Some ''superseded by verified later create''\<rparr>"] upd
    by simp
  have "get_by_id ctx (sw_prior_file_id w) db = None"
    using 2(4) by (auto simp: supersede_witness_def get_by_id_def find_row_None
        split: option.splits if_splits)
  moreover have "\<exists>f. get_active ctx (sw_path w) db = Some f \<and> fr_id f = sw_replacement_file_id w \<and>
       fr_id f \<noteq> sw_prior_file_id w \<and> fr_content_hash f = Some (sw_physical_hash w)"
    using 2(4) by (auto simp: supersede_witness_def split: option.splits if_splits)
  ultimately show ?thesis using aud sup upd by simp
qed

theorem supersede_applied_sound_witness:
  "\<exists>f. get_active example_ctx (VaultPath ''a.md'') example_replayed = Some f \<and> fr_id f = 2"
proof -
  let ?run = "supersede_replayed_create_inner (\<lambda>_. ''id'') id 999 30 example_ctx example_witness False
      example_replayed"
  have "case ?run of Ok (Applied, _) \<Rightarrow> True | _ \<Rightarrow> False" by code_simp
  then obtain db' where "?run = Ok (Applied, db')"
    by (auto split: sum.splits supersede_create_result.splits)
  from supersede_applied_sound [OF this] show ?thesis by (auto simp: example_witness_def)
qed

end
