(* ===== verification/Host_FS.thy ===== *)
theory Host_FS
  imports Vault_Paths "HOL-Library.AList"
begin

text \<open>
  The platform below crates/storage-fs: directory trees and the descriptor-relative system calls
  that the Unix adapter issues (openat, statat, mkdirat, renameat, renameat2 with RENAME_NOREPLACE,
  linkat, unlinkat, write, fsync), with their POSIX effect when they succeed.

  Which call fails, and how, is not fixed: every call first consults a schedule of faults. A
  \<open>Fail\<close> makes the call return an error number (a write may already have stored some bytes), a
  \<open>Stop\<close> ends the process there, after which no call has an effect. Statements about the adapter
  quantify over the schedule, so they cover every combination of I/O errors and every crash point.
  A call with no fault left succeeds or reports the error its arguments call for.

  The abstraction is \<open>look\<close>: a tree as a flat map from paths to entries. The lemmas of \<open>fs_view\<close>
  give the effect of each tree update on that map.
\<close>

named_theorems fs_view \<open>effect of tree updates on the flat view of a file system\<close>

section \<open>Directory trees\<close>

type_synonym bytes = string

record file_attr =
  at_modified :: "int option"
  at_identity :: "(u64 \<times> u64) option"
  at_dir_size :: u64

datatype node =
    FileNode (node_content: bytes) (node_durable: bool) (node_attr: file_attr)
  | DirNode (node_attr: file_attr) (node_entries: "(string \<times> node) list")
  | SpecialNode (special_kind: entry_kind) (node_attr: file_attr)

fun kind_of :: "node \<Rightarrow> entry_kind" where
  "kind_of (FileNode _ _ _) = RegularFile"
| "kind_of (DirNode _ _) = Directory"
| "kind_of (SpecialNode k _) = (if k = RegularFile \<or> k = Directory then OtherKind else k)"
  \<comment> \<open>only the first two constructors report these kinds\<close>

fun is_dir :: "node \<Rightarrow> bool" where
  "is_dir (DirNode _ _) = True"
| "is_dir _ = False"

fun node_at :: "node \<Rightarrow> string list \<Rightarrow> node option" where
  "node_at n [] = Some n"
| "node_at (DirNode a es) (s # ss) =
     (case map_of es s of None \<Rightarrow> None | Some c \<Rightarrow> node_at c ss)"
| "node_at _ (s # ss) = None"

fun put_at :: "node \<Rightarrow> string list \<Rightarrow> node option \<Rightarrow> node" where
  \<comment> \<open>set or remove the entry at a path whose parent is a directory\<close>
  "put_at (DirNode a es) [s] v =
     DirNode a (case v of None \<Rightarrow> AList.delete s es | Some c \<Rightarrow> AList.update s c es)"
| "put_at (DirNode a es) (s # t # ss) v =
     DirNode a (case map_of es s of None \<Rightarrow> es
                | Some c \<Rightarrow> AList.update s (put_at c (t # ss) v) es)"
| "put_at n _ v = n"

fun shallow :: "node \<Rightarrow> node" where
  "shallow (DirNode a es) = DirNode a []"
| "shallow n = n"

definition look :: "node \<Rightarrow> string list \<Rightarrow> node option" where
  "look n p = map_option shallow (node_at n p)"

lemma kind_of_shallow [simp]: "kind_of (shallow n) = kind_of n"
  by (cases n) simp_all

lemma is_dir_shallow [simp]: "is_dir (shallow n) = is_dir n"
  by (cases n) simp_all

lemma shallow_file [simp]: "shallow n = FileNode c d a \<longleftrightarrow> n = FileNode c d a"
  by (cases n) simp_all

lemma shallow_special [simp]: "shallow n = SpecialNode k a \<longleftrightarrow> n = SpecialNode k a"
  by (cases n) simp_all

lemma look_Nil [simp]: "look n [] = Some (shallow n)"
  by (simp add: look_def)

lemma look_DirNode [simp]:
  "look (DirNode a es) (s # ss) = (case map_of es s of None \<Rightarrow> None | Some c \<Rightarrow> look c ss)"
  by (simp add: look_def split: option.splits)

lemma look_leaf [simp]:
  "look (FileNode c d a) (s # ss) = None" "look (SpecialNode k a) (s # ss) = None"
  by (simp_all add: look_def)

lemma node_at_append:
  "node_at n (p @ q) = (case node_at n p of None \<Rightarrow> None | Some m \<Rightarrow> node_at m q)"
  by (induction n p rule: node_at.induct) (auto split: option.splits)

lemma look_append:
  "look n (p @ q) = (case node_at n p of None \<Rightarrow> None | Some m \<Rightarrow> look m q)"
  by (simp add: look_def node_at_append split: option.splits)

lemma look_below_dir:
  assumes "look n (p @ s # ss) \<noteq> None"
  shows "\<exists>m. look n p = Some m \<and> is_dir m"
proof -
  obtain m where m: "node_at n p = Some m" and "look m (s # ss) \<noteq> None"
    using assms by (auto simp: look_append split: option.splits)
  then have "is_dir m" by (cases m) auto
  with m show ?thesis by (simp add: look_def)
qed

lemma node_at_look_dir: "(\<exists>m. look n p = Some m \<and> is_dir m) \<longleftrightarrow> (\<exists>m. node_at n p = Some m \<and> is_dir m)"
  by (auto simp: look_def)

definition dir_at :: "node \<Rightarrow> string list \<Rightarrow> bool" where
  "dir_at n p \<longleftrightarrow> (case look n p of None \<Rightarrow> False | Some m \<Rightarrow> is_dir m)"

lemma dir_atD: "dir_at n p \<Longrightarrow> \<exists>a es. node_at n p = Some (DirNode a es)"
  by (cases "node_at n p") (auto simp: dir_at_def look_def elim: is_dir.elims)

lemma dir_at_Cons:
  "dir_at (DirNode a es) (s # ss) \<longleftrightarrow> (\<exists>c. map_of es s = Some c \<and> dir_at c ss)"
  by (simp add: dir_at_def split: option.splits)

text \<open>Setting an entry below an existing directory changes that subtree and nothing else.\<close>

lemma look_put_at [fs_view]:
  assumes "dir_at n d"
  shows "look (put_at n (d @ [s]) v) q =
    (if prefix (d @ [s]) q
     then (case v of None \<Rightarrow> None | Some c \<Rightarrow> look c (drop (Suc (length d)) q))
     else look n q)"
  using assms
proof (induction d arbitrary: n q)
  case Nil
  then obtain a es where n: "n = DirNode a es" by (auto dest: dir_atD)
  show ?case
    by (cases q) (auto simp: n delete_conv update_conv' split: option.splits)
next
  case (Cons t d)
  obtain a es where n: "n = DirNode a es"
    using Cons.prems by (cases n) (auto simp: dir_at_def)
  obtain c where c: "map_of es t = Some c" "dir_at c d"
    using Cons.prems by (auto simp: n dir_at_Cons)
  have put: "put_at (DirNode a es) (t # d @ [s]) v =
      DirNode a (AList.update t (put_at c (d @ [s]) v) es)"
    by (cases d) (simp_all add: c)
  show ?case
    by (cases q) (use c in \<open>auto simp: put n update_conv' Cons.IH [OF c(2)] split: option.splits\<close>)
qed

lemma dir_at_put_at:
  assumes "dir_at n d" "\<not> prefix (d @ [s]) q" "dir_at n q"
  shows "dir_at (put_at n (d @ [s]) v) q"
  using assms by (simp add: dir_at_def look_put_at)

lemma dir_at_parent: "look n (d @ [s]) \<noteq> None \<Longrightarrow> dir_at n d"
  using look_below_dir [of n d s "[]"] by (auto simp: dir_at_def)

section \<open>The host\<close>

datatype errno =
    LOOP | EXIST | NOENT | NOTDIR | ISDIR | NOTEMPTY | INVAL | NOSYS | OPNOTSUPP | NOTSUP | PERM
  | ACCESS | OtherErrno nat | Stopped

datatype fault = Fine | Fail errno nat | Stop nat

record host =
  h_roots :: "host_root \<Rightarrow> node option"
  h_faults :: "fault list"
  h_stopped :: bool
  h_attr :: "nat \<Rightarrow> file_attr"
  h_inodes :: nat
  h_symlink_errno :: errno
  h_available :: u64
  h_total :: u64

fun hard_error :: "errno \<Rightarrow> errno" where
  \<comment> \<open>a fault never reports an entry as missing or present against the tree\<close>
  "hard_error NOENT = OtherErrno 5"
| "hard_error EXIST = OtherErrno 5"
| "hard_error Stopped = OtherErrno 5"
| "hard_error e = e"

definition syscall ::
  "(nat \<Rightarrow> host \<Rightarrow> host) \<Rightarrow> (host \<Rightarrow> (errno + 'a) \<times> host) \<Rightarrow> (host, errno, 'a) prog" where
  \<comment> \<open>\<open>partial k\<close> is what a failing call may leave behind\<close>
  "syscall partial act h =
     (if h_stopped h then (Err Stopped, h)
      else (case h_faults h of
              [] \<Rightarrow> act h
            | Fine # fs \<Rightarrow> act (h\<lparr>h_faults := fs\<rparr>)
            | Fail e k # fs \<Rightarrow> (Err (hard_error e), partial k (h\<lparr>h_faults := fs\<rparr>))
            | Stop k # fs \<Rightarrow> (Err Stopped, partial k (h\<lparr>h_faults := fs, h_stopped := True\<rparr>))))"

abbreviation simple_call :: "(host \<Rightarrow> (errno + 'a) \<times> host) \<Rightarrow> (host, errno, 'a) prog" where
  "simple_call act \<equiv> syscall (\<lambda>_ h. h) act"

definition set_root :: "host_root \<Rightarrow> node option \<Rightarrow> host \<Rightarrow> host" where
  "set_root r v h = h\<lparr>h_roots := (h_roots h)(r := v)\<rparr>"

definition host_at :: "host \<Rightarrow> host_root \<Rightarrow> string list \<Rightarrow> node option" where
  "host_at h r p = (case h_roots h r of None \<Rightarrow> None | Some t \<Rightarrow> node_at t p)"

definition host_put :: "host_root \<Rightarrow> string list \<Rightarrow> node option \<Rightarrow> host \<Rightarrow> host" where
  "host_put r p v h =
     (case h_roots h r of None \<Rightarrow> h | Some t \<Rightarrow> set_root r (Some (put_at t p v)) h)"

definition host_dir :: "host \<Rightarrow> host_root \<Rightarrow> string list \<Rightarrow> bool" where
  "host_dir h r p = (case host_at h r p of None \<Rightarrow> False | Some n \<Rightarrow> is_dir n)"

definition fresh_attr :: "host \<Rightarrow> file_attr" where
  "fresh_attr h = h_attr h (h_inodes h)"

definition next_inode :: "host \<Rightarrow> host" where
  "next_inode h = h\<lparr>h_inodes := Suc (h_inodes h)\<rparr>"

section \<open>System calls\<close>

definition sys_root_kind :: "host_root \<Rightarrow> (host, errno, entry_kind) prog" where
  \<comment> \<open>\<open>symlink_metadata\<close> of a configured root\<close>
  "sys_root_kind r = simple_call (\<lambda>h.
     (case h_roots h r of None \<Rightarrow> Err NOENT | Some t \<Rightarrow> Ok (kind_of t), h))"

definition sys_create_root :: "host_root \<Rightarrow> (host, errno, unit) prog" where
  \<comment> \<open>\<open>create_dir_all\<close> of a configured root\<close>
  "sys_create_root r = simple_call (\<lambda>h.
     (case h_roots h r of
        None \<Rightarrow> (Ok (), next_inode (set_root r (Some (DirNode (fresh_attr h) [])) h))
      | Some t \<Rightarrow> (if is_dir t then Ok () else Err EXIST, h)))"

definition sys_open_dir :: "host_root \<Rightarrow> string list \<Rightarrow> (host, errno, unit) prog" where
  \<comment> \<open>\<open>openat\<close> with O_DIRECTORY and O_NOFOLLOW\<close>
  "sys_open_dir r p = simple_call (\<lambda>h.
     (case host_at h r p of
        None \<Rightarrow> Err NOENT
      | Some (DirNode _ _) \<Rightarrow> Ok ()
      | Some (SpecialNode Symlink _) \<Rightarrow> Err (h_symlink_errno h)
      | Some _ \<Rightarrow> Err NOTDIR, h))"

definition sys_stat :: "host_root \<Rightarrow> string list \<Rightarrow> (host, errno, entry_kind) prog" where
  \<comment> \<open>\<open>statat\<close> with AT_SYMLINK_NOFOLLOW\<close>
  "sys_stat r p = simple_call (\<lambda>h.
     (case host_at h r p of None \<Rightarrow> Err NOENT | Some n \<Rightarrow> Ok (kind_of n), h))"

definition sys_open_file :: "host_root \<Rightarrow> string list \<Rightarrow> (host, errno, node) prog" where
  \<comment> \<open>\<open>openat\<close> with O_RDONLY and O_NOFOLLOW: the entry as the descriptor sees it\<close>
  "sys_open_file r p = simple_call (\<lambda>h.
     (case host_at h r p of
        None \<Rightarrow> Err NOENT
      | Some (SpecialNode Symlink _) \<Rightarrow> Err LOOP
      | Some n \<Rightarrow> Ok n, h))"

definition sys_fstat :: "node \<Rightarrow> (host, errno, node) prog" where
  \<comment> \<open>metadata through the descriptor of an opened file\<close>
  "sys_fstat n = simple_call (\<lambda>h. (Ok n, h))"

definition sys_fstat_dir :: "host_root \<Rightarrow> string list \<Rightarrow> (host, errno, node) prog" where
  \<comment> \<open>metadata through the descriptor of an opened directory\<close>
  "sys_fstat_dir r p = simple_call (\<lambda>h. (ok_or NOENT (host_at h r p), h))"

definition sys_read :: "node \<Rightarrow> (host, errno, bytes) prog" where
  \<comment> \<open>read an opened regular file to its end\<close>
  "sys_read n = simple_call (\<lambda>h.
     (case n of FileNode c _ _ \<Rightarrow> Ok c | DirNode _ _ \<Rightarrow> Err ISDIR | SpecialNode _ _ \<Rightarrow> Err INVAL, h))"

definition sys_free_space :: "(host, errno, u64) prog" where
  "sys_free_space = simple_call (\<lambda>h. (Ok (h_available h), h))"

definition sys_total_space :: "(host, errno, u64) prog" where
  "sys_total_space = simple_call (\<lambda>h. (Ok (h_total h), h))"

definition sys_mkdir :: "host_root \<Rightarrow> string list \<Rightarrow> (host, errno, unit) prog" where
  "sys_mkdir r p = simple_call (\<lambda>h.
     (case host_at h r p of
        Some _ \<Rightarrow> (Err EXIST, h)
      | None \<Rightarrow>
          if \<not> host_dir h r (butlast p) then (Err NOENT, h)
          else (Ok (), next_inode (host_put r p (Some (DirNode (fresh_attr h) [])) h))))"

definition sys_create_excl :: "host_root \<Rightarrow> string list \<Rightarrow> (host, errno, unit) prog" where
  \<comment> \<open>\<open>openat\<close> with O_CREAT and O_EXCL\<close>
  "sys_create_excl r p = simple_call (\<lambda>h.
     (case host_at h r p of
        Some _ \<Rightarrow> (Err EXIST, h)
      | None \<Rightarrow>
          if \<not> host_dir h r (butlast p) then (Err NOENT, h)
          else (Ok (), next_inode (host_put r p (Some (FileNode [] False (fresh_attr h))) h))))"

definition append_bytes :: "host_root \<Rightarrow> string list \<Rightarrow> bytes \<Rightarrow> host \<Rightarrow> host" where
  "append_bytes r p bs h =
     (case host_at h r p of
        Some (FileNode c _ a) \<Rightarrow> host_put r p (Some (FileNode (c @ bs) False a)) h
      | _ \<Rightarrow> h)"

definition sys_write :: "host_root \<Rightarrow> string list \<Rightarrow> bytes \<Rightarrow> (host, errno, unit) prog" where
  \<comment> \<open>\<open>write_all\<close> on the descriptor of a temporary file; a failure may leave a prefix\<close>
  "sys_write r p bs =
     syscall (\<lambda>k. append_bytes r p (take k bs)) (\<lambda>h. (Ok (), append_bytes r p bs h))"

definition sys_sync_file :: "host_root \<Rightarrow> string list \<Rightarrow> (host, errno, unit) prog" where
  "sys_sync_file r p = simple_call (\<lambda>h.
     (Ok (), case host_at h r p of
               Some (FileNode c _ a) \<Rightarrow> host_put r p (Some (FileNode c True a)) h
             | _ \<Rightarrow> h))"

definition sys_sync_dir :: "host_root \<Rightarrow> string list \<Rightarrow> (host, errno, unit) prog" where
  "sys_sync_dir r p = simple_call (\<lambda>h. (Ok (), h))"

definition move_node :: "host_root \<Rightarrow> string list \<Rightarrow> string list \<Rightarrow> node \<Rightarrow> host \<Rightarrow> host" where
  "move_node r p q n h = host_put r q (Some n) (host_put r p None h)"

definition sys_rename_noreplace ::
  "host_root \<Rightarrow> string list \<Rightarrow> string list \<Rightarrow> (host, errno, unit) prog" where
  "sys_rename_noreplace r p q = simple_call (\<lambda>h.
     (case host_at h r p of
        None \<Rightarrow> (Err NOENT, h)
      | Some n \<Rightarrow>
          (if host_at h r q \<noteq> None then (Err EXIST, h)
           else if prefix p q then (Err INVAL, h)
           else if \<not> host_dir h r (butlast q) then (Err NOENT, h)
           else (Ok (), move_node r p q n h))))"

definition replaceable :: "node \<Rightarrow> node option \<Rightarrow> errno + unit" where
  \<comment> \<open>what \<open>rename\<close> allows an entry to replace\<close>
  "replaceable n old =
     (case old of
        None \<Rightarrow> Ok ()
      | Some (DirNode _ es) \<Rightarrow>
          (if \<not> is_dir n then Err ISDIR else if es \<noteq> [] then Err NOTEMPTY else Ok ())
      | Some _ \<Rightarrow> (if is_dir n then Err NOTDIR else Ok ()))"

definition sys_rename :: "host_root \<Rightarrow> string list \<Rightarrow> string list \<Rightarrow> (host, errno, unit) prog" where
  "sys_rename r p q = simple_call (\<lambda>h.
     (case host_at h r p of
        None \<Rightarrow> (Err NOENT, h)
      | Some n \<Rightarrow>
          (if p = q then (Ok (), h)
           else if prefix p q then (Err INVAL, h)
           else if \<not> host_dir h r (butlast q) then (Err NOENT, h)
           else (case replaceable n (host_at h r q) of
                   Err e \<Rightarrow> (Err e, h)
                 | Ok _ \<Rightarrow> (Ok (), move_node r p q n h)))))"

definition sys_link :: "host_root \<Rightarrow> string list \<Rightarrow> string list \<Rightarrow> (host, errno, unit) prog" where
  "sys_link r p q = simple_call (\<lambda>h.
     (case host_at h r p of
        None \<Rightarrow> (Err NOENT, h)
      | Some n \<Rightarrow>
          (if is_dir n then (Err PERM, h)
           else if host_at h r q \<noteq> None then (Err EXIST, h)
           else if \<not> host_dir h r (butlast q) then (Err NOENT, h)
           else (Ok (), host_put r q (Some n) h))))"

definition sys_unlink :: "host_root \<Rightarrow> string list \<Rightarrow> (host, errno, unit) prog" where
  "sys_unlink r p = simple_call (\<lambda>h.
     (case host_at h r p of
        None \<Rightarrow> (Err NOENT, h)
      | Some n \<Rightarrow> (if is_dir n then (Err ISDIR, h) else (Ok (), host_put r p None h))))"

definition sys_rmdir :: "host_root \<Rightarrow> string list \<Rightarrow> (host, errno, unit) prog" where
  "sys_rmdir r p = simple_call (\<lambda>h.
     (case host_at h r p of
        None \<Rightarrow> (Err NOENT, h)
      | Some (DirNode _ es) \<Rightarrow>
          (if es \<noteq> [] then (Err NOTEMPTY, h) else (Ok (), host_put r p None h))
      | Some _ \<Rightarrow> (Err NOTDIR, h)))"

definition sys_read_dir :: "host_root \<Rightarrow> string list \<Rightarrow> (host, errno, (string \<times> node) list) prog" where
  "sys_read_dir r p = simple_call (\<lambda>h.
     (case host_at h r p of
        None \<Rightarrow> Err NOENT | Some (DirNode _ es) \<Rightarrow> Ok es | Some _ \<Rightarrow> Err NOTDIR, h))"

section \<open>The flat view of a host\<close>

definition view :: "host \<Rightarrow> host_root \<Rightarrow> string list \<Rightarrow> node option" where
  "view h r p = map_option shallow (host_at h r p)"

lemma view_look: "view h r p = (case h_roots h r of None \<Rightarrow> None | Some t \<Rightarrow> look t p)"
  by (simp add: view_def host_at_def look_def split: option.splits)

lemma view_cong: "h_roots h' = h_roots h \<Longrightarrow> view h' = view h"
  by (intro ext) (simp only: view_look)

lemma view_None: "view h r p = None \<longleftrightarrow> host_at h r p = None"
  by (simp add: view_def)

lemma view_FileNode: "view h r p = Some (FileNode c b a) \<longleftrightarrow> host_at h r p = Some (FileNode c b a)"
  by (auto simp: view_def)

lemma view_kind: "view h r p = Some m \<Longrightarrow> \<exists>n. host_at h r p = Some n \<and> kind_of n = kind_of m"
  by (auto simp: view_def)

lemma host_dir_view: "host_dir h r p \<longleftrightarrow> (\<exists>m. view h r p = Some m \<and> is_dir m)"
  by (auto simp: host_dir_def view_def split: option.splits)

lemma host_dir_tree: "host_dir h r p \<longleftrightarrow> (\<exists>t. h_roots h r = Some t \<and> dir_at t p)"
  by (auto simp: host_dir_view view_look dir_at_def split: option.splits)

lemma host_dir_parent: "host_at h r (d @ [s]) \<noteq> None \<Longrightarrow> host_dir h r d"
proof -
  assume *: "host_at h r (d @ [s]) \<noteq> None"
  then obtain t where t: "h_roots h r = Some t" by (auto simp: host_at_def split: option.splits)
  with * have "look t (d @ [s]) \<noteq> None" by (simp add: host_at_def look_def)
  then have "dir_at t d" by (rule dir_at_parent)
  with t show ?thesis by (auto simp: host_dir_tree)
qed

lemma view_below_none: "view h r p = None \<Longrightarrow> view h r (p @ q) = None"
  by (simp add: view_None host_at_def node_at_append split: option.splits)

lemma view_below_leaf:
  "view h r p = Some n \<Longrightarrow> \<not> is_dir n \<Longrightarrow> q \<noteq> [] \<Longrightarrow> view h r (p @ q) = None"
  by (cases q; cases n) (auto simp: view_def host_at_def node_at_append split: option.splits)

lemma view_put [fs_view]:
  assumes "host_dir h r d"
  shows "view (host_put r (d @ [s]) v h) r' q =
    (if r' = r \<and> prefix (d @ [s]) q
     then (case v of None \<Rightarrow> None | Some c \<Rightarrow> look c (drop (Suc (length d)) q))
     else view h r' q)"
  using assms
  by (auto simp: host_dir_tree host_put_def set_root_def view_look look_put_at)

lemma view_put_leaf:
  assumes "host_dir h r d" "c = FileNode x b a"
    and "view h r (d @ [s]) = None \<or> (\<exists>n. view h r (d @ [s]) = Some n \<and> \<not> is_dir n)"
  shows "view (host_put r (d @ [s]) (Some c) h) r' q =
    (if r' = r \<and> q = d @ [s] then Some c else view h r' q)"
proof (cases "r' = r \<and> prefix (d @ [s]) q")
  case True
  then obtain u where q: "q = (d @ [s]) @ u" by (auto simp: prefix_def)
  have below: "u \<noteq> [] \<Longrightarrow> view h r q = None"
    using assms(3) view_below_none [of h r "d @ [s]" u] view_below_leaf [of h r "d @ [s]" _ u]
    by (auto simp: q)
  show ?thesis using True assms(1,2) below by (cases u) (auto simp: view_put q look_def)
next
  case False
  then show ?thesis using assms(1) by (auto simp: view_put)
qed

lemma view_put_none:
  assumes "host_dir h r d" "view h r (d @ [s]) = Some n" "\<not> is_dir n"
  shows "view (host_put r (d @ [s]) None h) r' q =
    (if r' = r \<and> q = d @ [s] then None else view h r' q)"
proof (cases "r' = r \<and> prefix (d @ [s]) q")
  case True
  then obtain u where q: "q = (d @ [s]) @ u" by (auto simp: prefix_def)
  have "u \<noteq> [] \<Longrightarrow> view h r q = None"
    using view_below_leaf [OF assms(2,3)] by (simp add: q)
  then show ?thesis using True assms(1) by (cases u) (auto simp: view_put q)
next
  case False
  then show ?thesis using assms(1) by (auto simp: view_put)
qed

text \<open>Calls that read leave the trees alone.\<close>

definition same_fs :: "host \<Rightarrow> host \<Rightarrow> bool" where
  "same_fs h h' \<longleftrightarrow> h_roots h' = h_roots h"

interpretation same_fs: step_order same_fs
  by unfold_locales (auto simp: same_fs_def)

lemma same_fs_view: "same_fs h h' \<Longrightarrow> view h' = view h"
  unfolding same_fs_def by (rule view_cong)

lemma same_fs_host: "same_fs h h' \<Longrightarrow> host_at h' = host_at h"
  unfolding same_fs_def by (intro ext) (simp only: host_at_def)

lemma same_fs_dir: "same_fs h h' \<Longrightarrow> host_dir h' = host_dir h"
  by (intro ext) (simp only: host_dir_def same_fs_host)

lemma same_fs_dirD:
  "same_fs h h' \<Longrightarrow> host_dir h r p \<Longrightarrow> host_dir h' r p"
  "same_fs h h' \<Longrightarrow> host_dir h' r p \<Longrightarrow> host_dir h r p"
  by (simp_all only: same_fs_dir)

lemma syscall_same:
  "(\<And>h. same_fs h (snd (act h))) \<Longrightarrow> within same_fs (simple_call act)"
  by (auto simp: within_def syscall_def same_fs_def split: list.splits fault.splits)

lemma reads_same_fs [within_rules]:
  "within same_fs (sys_root_kind r)" "within same_fs (sys_open_dir r p)"
  "within same_fs (sys_stat r p)" "within same_fs (sys_open_file r p)"
  "within same_fs (sys_fstat n)" "within same_fs (sys_fstat_dir r p)" "within same_fs (sys_read n)"
  "within same_fs sys_free_space" "within same_fs sys_total_space"
  "within same_fs (sys_sync_dir r p)" "within same_fs (sys_read_dir r p)"
  unfolding sys_root_kind_def sys_open_dir_def sys_stat_def sys_open_file_def sys_fstat_def
    sys_fstat_dir_def sys_read_def sys_free_space_def sys_total_space_def sys_sync_dir_def
    sys_read_dir_def
  by (rule syscall_same; simp add: same_fs_def)+

end
