(* ===== verification/Storage.thy ===== *)
theory Storage
  imports Host_FS
begin

text \<open>
  The filesystem adapter (crates/storage-fs/src/lib.rs, error.rs, platform/unix.rs): root-relative
  no-follow access, phased atomic writes, moves and deletes of one Vault's content root.

  An opened directory is its configured root and its path from there. A file opened for reading
  is the entry the descriptor was opened on. Blocking tasks run to their end or the process stops,
  so \<open>TaskCancelled\<close> is not raised. Modes and directory fsync have no effect in the model.
  \<open>externals\<close> collects the functions of other crates: Unicode normalisation and lower case, the
  UTF-8 check of host names, SHA-256 and the text of a UUID.
\<close>

record externals =
  x_nfc :: "string \<Rightarrow> string"
  x_lower :: "string \<Rightarrow> string"
  x_utf8 :: "string \<Rightarrow> bool"
  x_sha256 :: "bytes \<Rightarrow> 8 word list"
  x_uuid_str :: "uuid \<Rightarrow> string"

section \<open>Errors\<close>

datatype error_kind = KNotFound | KAlreadyExists | KOther errno

datatype storage_error =
    StorageDomain domain_error
  | StorageIo string error_kind
  | UnsafeEntry string
  | DestinationExists
  | AtomicCreateUnsupported
  | SourceNotFound
  | InvalidOperation string
  | InsufficientDiskSpace u64 u64
  | InvalidContentHash
  | HistoryNotFound
  | RootNotDirectory
  | RootSymlink
  | TaskCancelled

definition unsafe_entry :: "entry_kind \<Rightarrow> storage_error" where
  "unsafe_entry k = UnsafeEntry (entry_kind_as_str k)"

fun errno_kind :: "errno \<Rightarrow> error_kind" where
  "errno_kind NOENT = KNotFound"
| "errno_kind EXIST = KAlreadyExists"
| "errno_kind e = KOther e"

definition errno_error :: "string \<Rightarrow> errno \<Rightarrow> storage_error" where
  "errno_error op e = (if e = LOOP then unsafe_entry Symlink else StorageIo op (errno_kind e))"

definition errno_std :: "string \<Rightarrow> errno \<Rightarrow> storage_error" where
  "errno_std op e = StorageIo op (errno_kind e)"

type_synonym 'a io = "(host, storage_error, 'a) prog"

definition call :: "string \<Rightarrow> (host, errno, 'a) prog \<Rightarrow> 'a io" where
  "call op m = mapErr_x (errno_error op) m"

definition call_std :: "string \<Rightarrow> (host, errno, 'a) prog \<Rightarrow> 'a io" where
  "call_std op m = mapErr_x (errno_std op) m"

section \<open>Options and metadata\<close>

datatype durability_policy = Strict | Relaxed | NoSync
datatype destination_policy = MustNotExist | ReplaceExisting

record storage_options =
  durability :: durability_policy
  minimum_free_bytes :: u64
  directory_mode :: "32 word"
  fs_policy :: filesystem_policy

definition storage_options_default :: storage_options where
  "storage_options_default =
     \<lparr>durability = Strict, minimum_free_bytes = 16 * 1024 * 1024, directory_mode = 493,
      fs_policy = filesystem_policy_default\<rparr>"

record disk_space_info =
  total_bytes :: u64
  available_bytes :: u64

datatype content_hash = ContentHash (hash_bytes: "8 word list")

definition hex_digit_value :: "char \<Rightarrow> 8 word option" where
  "hex_digit_value c =
     (let v = byte_of c in
      if 48 \<le> v \<and> v \<le> 57 then Some (of_nat v - 48)
      else if 97 \<le> v \<and> v \<le> 102 then Some (of_nat v - 97 + 10)
      else if 65 \<le> v \<and> v \<le> 70 then Some (of_nat v - 65 + 10)
      else None)"

fun hex_bytes :: "string \<Rightarrow> storage_error + 8 word list" where
  \<comment> \<open>the loop over \<open>chunks_exact(2)\<close>\<close>
  "hex_bytes (a # b # rest) =
     bind_r (ok_or InvalidContentHash (hex_digit_value a)) (\<lambda>high.
     bind_r (ok_or InvalidContentHash (hex_digit_value b)) (\<lambda>low.
     bind_r (hex_bytes rest) (\<lambda>bs. Ok (or (push_bit 4 high) low # bs))))"
| "hex_bytes _ = Ok []"

definition from_hex :: "string \<Rightarrow> storage_error + content_hash" where
  "from_hex v =
     (if length v \<noteq> 64 then Err InvalidContentHash
      else bind_r (hex_bytes v) (\<lambda>bs. Ok (ContentHash bs)))"

definition hex_char :: "8 word \<Rightarrow> char" where
  "hex_char d = (if d < 10 then char_of (48 + unat d) else char_of (87 + unat d))"

definition as_hex :: "content_hash \<Rightarrow> string" where
  "as_hex h = concat (map (\<lambda>b. [hex_char (drop_bit 4 b), hex_char (take_bit 4 b)]) (hash_bytes h))"

definition hash_prefix :: "content_hash \<Rightarrow> string" where
  "hash_prefix h = take 2 (as_hex h)"

record file_metadata =
  fm_path :: "vault_path option"
  fm_kind :: entry_kind
  fm_size :: u64
  fm_modified_at :: "int option"
  fm_identity :: "(u64 \<times> u64) option"

definition system_time_millis :: "int \<Rightarrow> int option" where
  "system_time_millis v = (if 0 \<le> v \<and> v < 2 ^ 63 then Some v else None)"

fun node_size :: "node \<Rightarrow> u64" where
  "node_size (FileNode c _ _) = of_nat (length c)"
| "node_size (DirNode a _) = at_dir_size a"
| "node_size (SpecialNode _ a) = at_dir_size a"

definition metadata_of :: "vault_path option \<Rightarrow> entry_kind \<Rightarrow> node \<Rightarrow> file_metadata" where
  "metadata_of p kind n =
     \<lparr>fm_path = p, fm_kind = kind, fm_size = node_size n,
      fm_modified_at = Option.bind (at_modified (node_attr n)) system_time_millis,
      fm_identity = at_identity (node_attr n)\<rparr>"

definition validate_entry :: "filesystem_policy \<Rightarrow> entry_kind \<Rightarrow> storage_error + unit" where
  "validate_entry pol kind =
     (if kind \<noteq> RegularFile \<and> kind \<noteq> Directory then Err (unsafe_entry kind)
      else map_err StorageDomain (validate_entry_kind pol kind))"

section \<open>Descriptor-relative operations (platform/unix.rs)\<close>

record parent_dir =
  pd_root :: host_root
  pd_segments :: "string list"

definition child :: "parent_dir \<Rightarrow> string \<Rightarrow> string list" where
  "child d leaf = pd_segments d @ [leaf]"

definition open_root :: "host_root \<Rightarrow> unit io" where
  "open_root r =
     bind_x (call_std ''inspect storage root'' (sys_root_kind r)) (\<lambda>k.
       if k = Symlink then throw_x RootSymlink
       else if k \<noteq> Directory then throw_x RootNotDirectory
       else call ''open storage root'' (sys_open_dir r []))"

definition open_directory :: "host_root \<Rightarrow> parent_dir io" where
  "open_directory r =
     bind_x (open_root r) (\<lambda>_. return_x \<lparr>pd_root = r, pd_segments = []\<rparr>)"

definition open_child_directory :: "parent_dir \<Rightarrow> string \<Rightarrow> parent_dir io" where
  "open_child_directory d name =
     bind_x (call ''open directory component'' (sys_open_dir (pd_root d) (child d name)))
       (\<lambda>_. return_x (d\<lparr>pd_segments := child d name\<rparr>))"

fun open_parents :: "bool \<Rightarrow> parent_dir \<Rightarrow> string list \<Rightarrow> parent_dir io" where
  "open_parents create_missing d [] = return_x d"
| "open_parents create_missing d (s # ss) =
     try_x (open_child_directory d s) (\<lambda>r.
       case r of
         Ok d' \<Rightarrow> open_parents create_missing d' ss
       | Err (StorageIo op k) \<Rightarrow>
           (if k = KNotFound \<and> create_missing then
              try_x (sys_mkdir (pd_root d) (child d s)) (\<lambda>made.
                case made of
                  Err e \<Rightarrow>
                    (if errno_kind e = KAlreadyExists
                     then bind_x (open_child_directory d s) (\<lambda>d'. open_parents create_missing d' ss)
                     else throw_x (errno_error ''create parent directory'' e))
                | Ok _ \<Rightarrow>
                    bind_x (open_child_directory d s) (\<lambda>d'. open_parents create_missing d' ss))
            else throw_x (StorageIo op k))
       | Err e \<Rightarrow> throw_x e)"

definition open_parent_with_leaf :: "host_root \<Rightarrow> vault_path \<Rightarrow> bool \<Rightarrow> (parent_dir \<times> string) io" where
  "open_parent_with_leaf r p create_missing =
     bind_x (open_root r) (\<lambda>_.
       if segments p = [] then throw_x (InvalidOperation ''the Vault root has no leaf entry'')
       else bind_x (open_parents create_missing \<lparr>pd_root = r, pd_segments = []\<rparr>
                      (butlast (segments p)))
              (\<lambda>d. return_x (d, last (segments p))))"

definition entry_kind_at :: "parent_dir \<Rightarrow> string \<Rightarrow> entry_kind option io" where
  "entry_kind_at d leaf =
     try_x (sys_stat (pd_root d) (child d leaf)) (\<lambda>r.
       case r of
         Ok k \<Rightarrow> return_x (Some k)
       | Err e \<Rightarrow>
           (if errno_kind e = KNotFound then return_x None
            else throw_x (errno_error ''inspect filesystem entry'' e)))"

definition open_relative_directory :: "host_root \<Rightarrow> vault_path \<Rightarrow> bool \<Rightarrow> parent_dir io" where
  "open_relative_directory r relative create_missing =
     (if is_root relative then open_directory r
      else
        bind_x (open_parent_with_leaf r relative create_missing) (\<lambda>(d, leaf).
        bind_x (entry_kind_at d leaf) (\<lambda>k.
          case k of
            Some Directory \<Rightarrow> open_child_directory d leaf
          | Some kind \<Rightarrow> throw_x (unsafe_entry kind)
          | None \<Rightarrow>
              (if create_missing then
                 bind_x (call ''create relative directory'' (sys_mkdir r (child d leaf)))
                   (\<lambda>_. open_child_directory d leaf)
               else throw_x SourceNotFound))))"

definition create_directory_all :: "host_root \<Rightarrow> vault_path \<Rightarrow> unit io" where
  "create_directory_all r p =
     (if is_root p then open_root r
      else
        bind_x (open_parent_with_leaf r p True) (\<lambda>(d, leaf).
        bind_x (entry_kind_at d leaf) (\<lambda>k.
          case k of
            Some Directory \<Rightarrow> return_x ()
          | Some kind \<Rightarrow> throw_x (unsafe_entry kind)
          | None \<Rightarrow>
              try_x (sys_mkdir r (child d leaf)) (\<lambda>made.
                case made of
                  Ok _ \<Rightarrow> return_x ()
                | Err e \<Rightarrow>
                    (if errno_kind e = KAlreadyExists then
                       bind_x (entry_kind_at d leaf) (\<lambda>k'.
                         case k' of
                           Some Directory \<Rightarrow> return_x ()
                         | Some kind \<Rightarrow> throw_x (unsafe_entry kind)
                         | None \<Rightarrow> throw_x (errno_error ''create directory'' e))
                     else throw_x (errno_error ''create directory'' e))))))"

definition open_regular :: "parent_dir \<Rightarrow> string \<Rightarrow> node io" where
  "open_regular d leaf =
     bind_x (entry_kind_at d leaf) (\<lambda>k.
       case k of
         Some RegularFile \<Rightarrow> call ''open file'' (sys_open_file (pd_root d) (child d leaf))
       | Some kind \<Rightarrow> throw_x (unsafe_entry kind)
       | None \<Rightarrow> throw_x SourceNotFound)"

definition metadata_at :: "parent_dir \<Rightarrow> string \<Rightarrow> entry_kind \<Rightarrow> node io" where
  "metadata_at d leaf kind =
     (case kind of
        RegularFile \<Rightarrow>
          bind_x (open_regular d leaf)
            (\<lambda>n. call_std ''read filesystem metadata'' (sys_fstat n))
      | Directory \<Rightarrow>
          bind_x (mapErr_x (\<lambda>e. case e of StorageIo _ k \<Rightarrow> StorageIo ''open directory metadata'' k
                                 | other \<Rightarrow> other) (open_child_directory d leaf))
            (\<lambda>_. call_std ''read filesystem metadata''
                   (sys_fstat_dir (pd_root d) (child d leaf)))
      | _ \<Rightarrow> call_std ''read filesystem metadata'' (sys_fstat_dir (pd_root d) (child d leaf)))"

definition prepare_temp :: "parent_dir \<Rightarrow> string \<Rightarrow> unit io" where
  "prepare_temp d name =
     call ''create temporary file'' (sys_create_excl (pd_root d) (child d name))"

definition cleanup_temp :: "parent_dir \<Rightarrow> string \<Rightarrow> unit io" where
  "cleanup_temp d name = ignore_x (sys_unlink (pd_root d) (child d name))"

definition validate_destination :: "parent_dir \<Rightarrow> string \<Rightarrow> destination_policy \<Rightarrow> unit io" where
  "validate_destination d target policy =
     bind_x (entry_kind_at d target) (\<lambda>k.
       case k of
         None \<Rightarrow> return_x ()
       | Some RegularFile \<Rightarrow>
           (if policy = ReplaceExisting then return_x () else throw_x DestinationExists)
       | Some Directory \<Rightarrow> throw_x (InvalidOperation ''destination is a directory'')
       | Some kind \<Rightarrow> throw_x (unsafe_entry kind))"

definition sync_parent :: "parent_dir \<Rightarrow> durability_policy \<Rightarrow> unit io" where
  "sync_parent d dur =
     when_x (dur = Strict)
       (call_std ''sync parent directory'' (sys_sync_dir (pd_root d) (pd_segments d)))"

definition rename_noreplace_unsupported :: "errno \<Rightarrow> bool" where
  "rename_noreplace_unsupported e \<longleftrightarrow> e = INVAL \<or> e = NOSYS \<or> e = OPNOTSUPP \<or> e = NOTSUP"

definition map_atomic_link_error :: "errno \<Rightarrow> storage_error" where
  "map_atomic_link_error e =
     (if e = EXIST then DestinationExists
      else if e = NOSYS \<or> e = OPNOTSUPP \<or> e = NOTSUP \<or> e = PERM then AtomicCreateUnsupported
      else errno_error ''atomically link file'' e)"

definition commit_temp_noreplace ::
  "parent_dir \<Rightarrow> string \<Rightarrow> string \<Rightarrow> errno + unit \<Rightarrow> unit io" where
  "commit_temp_noreplace d temp_name target rename_result =
     (case rename_result of
        Ok _ \<Rightarrow> return_x ()
      | Err e \<Rightarrow>
          (if e = EXIST then throw_x DestinationExists
           else if \<not> rename_noreplace_unsupported e
           then throw_x (errno_error ''atomically rename file'' e)
           else
             bind_x (mapErr_x map_atomic_link_error
                       (sys_link (pd_root d) (child d temp_name) (child d target))) (\<lambda>_.
             try_x (sys_unlink (pd_root d) (child d temp_name)) (\<lambda>u.
               case u of
                 Ok _ \<Rightarrow> return_x ()
               | Err e' \<Rightarrow>
                   (if e' = NOENT then return_x ()
                    else throw_x (errno_error ''remove linked temporary file'' e'))))))"

definition commit_temp ::
  "parent_dir \<Rightarrow> string \<Rightarrow> string \<Rightarrow> destination_policy \<Rightarrow> durability_policy \<Rightarrow> unit io" where
  "commit_temp d temp_name target policy dur =
     try_x (validate_destination d target policy) (\<lambda>v.
       case v of
         Err e \<Rightarrow> bind_x (cleanup_temp d temp_name) (\<lambda>_. throw_x e)
       | Ok _ \<Rightarrow>
           try_x (case policy of
                    MustNotExist \<Rightarrow>
                      try_x (sys_rename_noreplace (pd_root d) (child d temp_name) (child d target))
                        (commit_temp_noreplace d temp_name target)
                  | ReplaceExisting \<Rightarrow>
                      call ''atomically rename file''
                        (sys_rename (pd_root d) (child d temp_name) (child d target)))
             (\<lambda>result.
                case result of
                  Err e \<Rightarrow> bind_x (cleanup_temp d temp_name) (\<lambda>_. throw_x e)
                | Ok _ \<Rightarrow> sync_parent d dur))"

definition move_entry_at ::
  "parent_dir \<Rightarrow> string \<Rightarrow> parent_dir \<Rightarrow> string \<Rightarrow> destination_policy \<Rightarrow> durability_policy \<Rightarrow>
     unit io" where
  "move_entry_at src source_name dst destination_name policy dur =
     bind_x (entry_kind_at src source_name) (\<lambda>k.
       case k of
         None \<Rightarrow> throw_x SourceNotFound
       | Some source_kind \<Rightarrow>
           (if source_kind \<noteq> RegularFile \<and> source_kind \<noteq> Directory
            then throw_x (unsafe_entry source_kind)
            else
              bind_x (validate_destination dst destination_name policy) (\<lambda>_.
              bind_x
                (case policy of
                   MustNotExist \<Rightarrow>
                     try_x (sys_rename_noreplace (pd_root src) (child src source_name)
                              (child dst destination_name)) (\<lambda>r.
                       case r of
                         Ok _ \<Rightarrow> return_x ()
                       | Err e \<Rightarrow>
                           (if e = EXIST then throw_x DestinationExists
                            else if rename_noreplace_unsupported e then
                              bind_x (validate_destination dst destination_name MustNotExist) (\<lambda>_.
                                call ''move filesystem entry''
                                  (sys_rename (pd_root src) (child src source_name)
                                     (child dst destination_name)))
                            else throw_x (errno_error ''move filesystem entry'' e)))
                 | ReplaceExisting \<Rightarrow>
                     call ''move filesystem entry''
                       (sys_rename (pd_root src) (child src source_name)
                          (child dst destination_name))) (\<lambda>_.
              bind_x (sync_parent src dur) (\<lambda>_.
                when_x (pd_segments src \<noteq> pd_segments dst) (sync_parent dst dur))))))"

definition delete_entry :: "parent_dir \<Rightarrow> string \<Rightarrow> durability_policy \<Rightarrow> unit io" where
  "delete_entry d leaf dur =
     bind_x (entry_kind_at d leaf) (\<lambda>k.
       case k of
         None \<Rightarrow> throw_x SourceNotFound
       | Some RegularFile \<Rightarrow>
           bind_x (call ''delete filesystem entry'' (sys_unlink (pd_root d) (child d leaf)))
             (\<lambda>_. sync_parent d dur)
       | Some Directory \<Rightarrow>
           bind_x (call ''delete filesystem entry'' (sys_rmdir (pd_root d) (child d leaf)))
             (\<lambda>_. sync_parent d dur)
       | Some other \<Rightarrow> throw_x (unsafe_entry other))"

section \<open>Vault storage\<close>

record vault_storage =
  vs_vault_id :: vault_id
  vs_root :: host_root
  vs_path_policy :: path_policy
  vs_options :: storage_options

definition vault_storage_new :: "vault_context \<Rightarrow> path_policy \<Rightarrow> storage_options \<Rightarrow> vault_storage" where
  "vault_storage_new ctx pol opts =
     \<lparr>vs_vault_id = ctx_id ctx, vs_root = ctx_content_root ctx, vs_path_policy = pol,
      vs_options = opts\<rparr>"

definition validate_path_for ::
  "externals \<Rightarrow> vault_storage \<Rightarrow> vault_path \<Rightarrow> bool \<Rightarrow> storage_error + unit" where
  "validate_path_for x st p managed =
     map_err StorageDomain
       (if managed then validate_managed_path (x_lower x) (vs_path_policy st) p
        else validate_user_path (x_lower x) (vs_path_policy st) p)"

definition validate_write_path_for ::
  "externals \<Rightarrow> vault_storage \<Rightarrow> vault_path \<Rightarrow> bool \<Rightarrow> storage_error + unit" where
  "validate_write_path_for x st p managed =
     bind_r (validate_path_for x st p managed) (\<lambda>_.
       if is_root p then Err (InvalidOperation ''the Vault root is not an entry'') else Ok ())"

definition ensure_directory_root :: "string \<Rightarrow> string \<Rightarrow> host_root \<Rightarrow> unit io" where
  \<comment> \<open>\<open>ensure_configured_directory\<close> is the same code with its own labels\<close>
  "ensure_directory_root create_label inspect_label r =
     try_x (sys_root_kind r) (\<lambda>k.
       case k of
         Ok Symlink \<Rightarrow> throw_x RootSymlink
       | Ok Directory \<Rightarrow> return_x ()
       | Ok _ \<Rightarrow> throw_x RootNotDirectory
       | Err e \<Rightarrow>
           (if errno_kind e = KNotFound then call_std create_label (sys_create_root r)
            else throw_x (errno_std inspect_label e)))"

definition ensure_root :: "vault_storage \<Rightarrow> unit io" where
  "ensure_root st =
     bind_x (ensure_directory_root ''create storage root'' ''inspect storage root'' (vs_root st))
       (\<lambda>_. open_root (vs_root st))"

definition disk_space_for :: "disk_space_info io" where
  "disk_space_for =
     bind_x (call_std ''read available disk space'' sys_free_space) (\<lambda>available.
     bind_x (call_std ''read total disk space'' sys_total_space) (\<lambda>total.
       return_x \<lparr>total_bytes = total, available_bytes = available\<rparr>))"

definition ensure_free_space :: "storage_options \<Rightarrow> unit io" where
  "ensure_free_space opts =
     bind_x disk_space_for (\<lambda>space.
       if available_bytes space < minimum_free_bytes opts
       then throw_x (InsufficientDiskSpace (available_bytes space) (minimum_free_bytes opts))
       else return_x ())"

definition is_root_empty :: "vault_storage \<Rightarrow> bool io" where
  "is_root_empty st =
     bind_x (ensure_root st) (\<lambda>_.
     bind_x (open_root (vs_root st)) (\<lambda>_.
     bind_x (call_std ''inspect Vault root entries'' (sys_read_dir (vs_root st) [])) (\<lambda>es.
       return_x (es = []))))"

definition create_dir_all :: "externals \<Rightarrow> vault_storage \<Rightarrow> vault_path \<Rightarrow> bool \<Rightarrow> unit io" where
  "create_dir_all x st p managed =
     bind_x (lift_x (validate_path_for x st p managed)) (\<lambda>_.
     bind_x (ensure_root st) (\<lambda>_.
       create_directory_all (vs_root st) p))"

definition stat :: "externals \<Rightarrow> vault_storage \<Rightarrow> vault_path \<Rightarrow> bool \<Rightarrow> file_metadata io" where
  "stat x st p managed =
     bind_x (lift_x (validate_path_for x st p managed)) (\<lambda>_.
     bind_x (ensure_root st) (\<lambda>_.
       if is_root p then
         bind_x (open_root (vs_root st)) (\<lambda>_.
         bind_x (call_std ''read storage root metadata'' (sys_fstat_dir (vs_root st) [])) (\<lambda>n.
           return_x (metadata_of (Some p) Directory n)))
       else
         bind_x (open_parent_with_leaf (vs_root st) p False) (\<lambda>(d, leaf).
         bind_x (entry_kind_at d leaf) (\<lambda>k.
           case k of
             None \<Rightarrow> throw_x SourceNotFound
           | Some kind \<Rightarrow>
               bind_x (lift_x (validate_entry (fs_policy (vs_options st)) kind)) (\<lambda>_.
               bind_x (metadata_at d leaf kind) (\<lambda>n.
                 if kind_of n = Symlink then throw_x (unsafe_entry Symlink)
                 else return_x (metadata_of (Some p) kind n)))))))"

record read_file =
  rf_node :: node
  rf_metadata :: file_metadata

definition open_read_validated :: "vault_storage \<Rightarrow> vault_path \<Rightarrow> read_file io" where
  "open_read_validated st p =
     (if is_root p then throw_x (InvalidOperation ''the Vault root is not a file'')
      else
        bind_x (ensure_root st) (\<lambda>_.
        bind_x (open_parent_with_leaf (vs_root st) p False) (\<lambda>(d, leaf).
        bind_x (entry_kind_at d leaf) (\<lambda>k.
          case k of
            None \<Rightarrow> throw_x SourceNotFound
          | Some kind \<Rightarrow>
              bind_x (lift_x (validate_entry (fs_policy (vs_options st)) kind)) (\<lambda>_.
                if kind \<noteq> RegularFile
                then throw_x (InvalidOperation ''entry is not a regular file'')
                else
                  bind_x (open_regular d leaf) (\<lambda>n.
                  bind_x (call_std ''read opened file metadata'' (sys_fstat n)) (\<lambda>m.
                    return_x \<lparr>rf_node = n, rf_metadata = metadata_of (Some p) kind m\<rparr>)))))))"

definition open_read :: "externals \<Rightarrow> vault_storage \<Rightarrow> vault_path \<Rightarrow> bool \<Rightarrow> read_file io" where
  "open_read x st p managed =
     bind_x (lift_x (validate_path_for x st p managed)) (\<lambda>_. open_read_validated st p)"

datatype read_event = Chunk bytes | ReadError error_kind

fun hash_reader :: "externals \<Rightarrow> bytes \<Rightarrow> u64 \<Rightarrow> read_event list \<Rightarrow> storage_error + u64 \<times> content_hash" where
  \<comment> \<open>the hasher is the bytes fed to it; a read of no bytes is the end of the stream\<close>
  "hash_reader x hasher n [] = Ok (n, ContentHash (x_sha256 x hasher))"
| "hash_reader x hasher n (ReadError k # _) = Err (StorageIo ''read source stream'' k)"
| "hash_reader x hasher n (Chunk bs # events) =
     (if bs = [] then Ok (n, ContentHash (x_sha256 x hasher))
      else if uint n + int (length bs) \<ge> 2 ^ 64
      then Err (InvalidOperation ''stream size overflow'')
      else hash_reader x (hasher @ bs) (n + of_nat (length bs)) events)"

definition hash_file ::
  "externals \<Rightarrow> vault_storage \<Rightarrow> vault_path \<Rightarrow> bool \<Rightarrow> (u64 \<times> content_hash) io" where
  "hash_file x st p managed =
     bind_x (open_read x st p managed) (\<lambda>rf.
     bind_x (call_std ''read source stream'' (sys_read (rf_node rf))) (\<lambda>content.
       lift_x (hash_reader x [] 0 [Chunk content])))"

fun entry_kind_coarse :: "node \<Rightarrow> entry_kind" where
  \<comment> \<open>the classification of directory listings, which does not tell special files apart\<close>
  "entry_kind_coarse (DirNode _ _) = Directory"
| "entry_kind_coarse (FileNode _ _ _) = RegularFile"
| "entry_kind_coarse (SpecialNode k _) = (if k = Symlink then Symlink else OtherKind)"

definition sys_entry_metadata :: "node \<Rightarrow> (host, errno, node) prog" where
  "sys_entry_metadata n = simple_call (\<lambda>h. (Ok n, h))"

fun list_entries ::
  "externals \<Rightarrow> vault_storage \<Rightarrow> vault_path \<Rightarrow> (string \<times> node) list \<Rightarrow> file_metadata list io" where
  "list_entries x st p [] = return_x []"
| "list_entries x st p ((name, n) # es) =
     (if \<not> x_utf8 x name then list_entries x st p es
      else
        bind_x (lift_x (map_err StorageDomain
            (bind_r (parse_path (x_nfc x) name)
               (\<lambda>c. if is_root p then Ok c else join (x_nfc x) p c)))) (\<lambda>child_path.
          if is_reserved (x_lower x) (vs_path_policy st) child_path then list_entries x st p es
          else
            bind_x (call_std ''read Vault entry metadata'' (sys_entry_metadata n)) (\<lambda>m.
              if \<not> is_ok (validate_entry (fs_policy (vs_options st)) (entry_kind_coarse m))
              then list_entries x st p es
              else bind_x (list_entries x st p es) (\<lambda>rest.
                     return_x (metadata_of (Some child_path) (entry_kind_coarse m) m # rest)))))"

definition list_directory :: "externals \<Rightarrow> vault_storage \<Rightarrow> vault_path \<Rightarrow> file_metadata list io" where
  "list_directory x st p =
     bind_x (lift_x (validate_path_for x st p False)) (\<lambda>_.
     bind_x (ensure_root st) (\<lambda>_.
     bind_x (open_relative_directory (vs_root st) p False) (\<lambda>d.
     bind_x (call_std ''list Vault directory'' (sys_read_dir (vs_root st) (pd_segments d))) (\<lambda>es.
       list_entries x st p (sort_key fst es)))))"

section \<open>Phased atomic writes\<close>

datatype temporary_path = TemporaryPath (as_path: vault_path)

definition temporary_prefix :: string where
  "temporary_prefix = ''.mcp-vault-tmp-''"

definition temporary_path_parse :: "vault_path \<Rightarrow> storage_error + temporary_path" where
  "temporary_path_parse p =
     (case file_name p of
        None \<Rightarrow> Err (InvalidOperation ''temporary path has no file name'')
      | Some name \<Rightarrow>
          (if \<not> prefix temporary_prefix name
           then Err (InvalidOperation ''temporary path name is invalid'')
           else Ok (TemporaryPath p)))"

definition temporary_name :: "string \<Rightarrow> string \<Rightarrow> string" where
  \<comment> \<open>\<open>simple\<close> is the text of the fresh UUID\<close>
  "temporary_name pre simple = ''.'' @ pre @ ''-'' @ simple"

definition temporary_path_for ::
  "externals \<Rightarrow> vault_storage \<Rightarrow> vault_path \<Rightarrow> bool \<Rightarrow> string \<Rightarrow> storage_error + temporary_path" where
  "temporary_path_for x st p managed simple =
     bind_r (validate_write_path_for x st p managed) (\<lambda>_.
     bind_r (map_err StorageDomain (parse_path (x_nfc x) (temporary_name ''mcp-vault-tmp'' simple)))
       (\<lambda>name.
     bind_r (case parent p of
               Some up \<Rightarrow> map_err StorageDomain (join (x_nfc x) up name)
             | None \<Rightarrow> Ok name)
       (\<lambda>q. Ok (TemporaryPath q))))"

record write_progress =
  wp_size :: u64
  wp_content_hash :: content_hash

record write_receipt =
  wr_path :: vault_path
  wr_size :: u64
  wr_content_hash :: content_hash
  wr_metadata :: file_metadata

record atomic_write =
  aw_storage :: vault_storage
  aw_path :: vault_path
  aw_managed :: bool
  aw_destination :: destination_policy
  aw_parent :: "parent_dir option"
  aw_leaf :: string
  aw_temp_name :: string
  aw_temp_file :: "(host_root \<times> string list) option"
  aw_progress :: "write_progress option"
  aw_hasher :: "bytes option"
  aw_streamed_size :: u64
  aw_synced :: bool

definition begin_atomic_write_at ::
  "externals \<Rightarrow> vault_storage \<Rightarrow> vault_path \<Rightarrow> destination_policy \<Rightarrow> temporary_path \<Rightarrow> bool \<Rightarrow>
     atomic_write io" where
  "begin_atomic_write_at x st p destination temporary managed =
     bind_x (lift_x (validate_write_path_for x st p managed)) (\<lambda>_.
       if parent p \<noteq> parent (as_path temporary)
       then throw_x (InvalidOperation ''temporary path is outside the destination directory'')
       else
         bind_x (ensure_root st) (\<lambda>_.
         bind_x (ensure_free_space (vs_options st)) (\<lambda>_.
           case file_name (as_path temporary) of
             None \<Rightarrow> throw_x (InvalidOperation ''temporary path has no file name'')
           | Some temp_name \<Rightarrow>
               bind_x (open_parent_with_leaf (vs_root st) p False) (\<lambda>(d, leaf).
               bind_x (prepare_temp d temp_name) (\<lambda>_.
                 return_x \<lparr>aw_storage = st, aw_path = p, aw_managed = managed,
                   aw_destination = destination, aw_parent = Some d, aw_leaf = leaf,
                   aw_temp_name = temp_name, aw_temp_file = Some (pd_root d, child d temp_name),
                   aw_progress = None, aw_hasher = Some [], aw_streamed_size = 0,
                   aw_synced = False\<rparr>)))))"

type_synonym 'a aw_io = "(host \<times> atomic_write, storage_error, 'a) prog"

definition on_host :: "'a io \<Rightarrow> 'a aw_io" where
  "on_host m s = (let (r, h) = m (fst s) in (r, (h, snd s)))"

definition update_aw :: "(atomic_write \<Rightarrow> atomic_write) \<Rightarrow> unit aw_io" where
  "update_aw f = modify_x (\<lambda>(h, w). (h, f w))"

definition write_chunk :: "bytes \<Rightarrow> unit aw_io" where
  "write_chunk bs =
     bind_x (gets_x snd) (\<lambda>w.
       if aw_progress w \<noteq> None \<or> aw_hasher w = None
       then throw_x (InvalidOperation ''atomic write stream is already finalized'')
       else (case aw_temp_file w of
          None \<Rightarrow> throw_x (InvalidOperation ''atomic write is closed'')
        | Some (r, f) \<Rightarrow>
            bind_x (on_host (call_std ''write temporary file'' (sys_write r f bs))) (\<lambda>_.
              if uint (aw_streamed_size w) + int (length bs) \<ge> 2 ^ 64
              then throw_x (InvalidOperation ''stream size overflow'')
              else update_aw (\<lambda>w. w\<lparr>aw_hasher := map_option (\<lambda>a. a @ bs) (aw_hasher w),
                     aw_streamed_size := aw_streamed_size w + of_nat (length bs)\<rparr>))))"

definition finish :: "externals \<Rightarrow> write_progress aw_io" where
  "finish x =
     bind_x (gets_x snd) (\<lambda>w.
       case aw_progress w of
         Some progress \<Rightarrow> return_x progress
       | None \<Rightarrow>
           (case aw_hasher w of
              None \<Rightarrow> throw_x (InvalidOperation ''atomic write stream is closed'')
            | Some bytes \<Rightarrow>
                (let progress = \<lparr>wp_size = aw_streamed_size w,
                                 wp_content_hash = ContentHash (x_sha256 x bytes)\<rparr>
                 in bind_x (update_aw (\<lambda>w. w\<lparr>aw_hasher := None, aw_progress := Some progress\<rparr>))
                      (\<lambda>_. return_x progress))))"

definition abort :: "unit aw_io" where
  "abort =
     bind_x (gets_x snd) (\<lambda>w.
     bind_x (update_aw (\<lambda>w. w\<lparr>aw_hasher := None, aw_progress := None, aw_temp_file := None,
               aw_parent := None\<rparr>)) (\<lambda>_.
       case aw_parent w of
         None \<Rightarrow> return_x ()
       | Some d \<Rightarrow> on_host (cleanup_temp d (aw_temp_name w))))"

fun write_events :: "read_event list \<Rightarrow> unit aw_io" where
  "write_events [] = return_x ()"
| "write_events (ReadError k # _) = throw_x (StorageIo ''read source stream'' k)"
| "write_events (Chunk bs # events) =
     (if bs = [] then return_x () else bind_x (write_chunk bs) (\<lambda>_. write_events events))"

definition write_from :: "externals \<Rightarrow> read_event list \<Rightarrow> write_progress aw_io" where
  "write_from x reader =
     bind_x (gets_x snd) (\<lambda>w.
       if aw_progress w \<noteq> None
       then throw_x (InvalidOperation ''atomic write was already streamed'')
       else catch_x (bind_x (write_events reader) (\<lambda>_. finish x))
              (\<lambda>e. bind_x abort (\<lambda>_. throw_x e)))"

definition sync_file :: "durability_policy \<Rightarrow> host_root \<times> string list \<Rightarrow> unit io" where
  "sync_file dur f =
     (case dur of
        Strict \<Rightarrow> call_std ''sync temporary file'' (sys_sync_file (fst f) (snd f))
      | Relaxed \<Rightarrow> call_std ''sync temporary file data'' (sys_sync_file (fst f) (snd f))
      | NoSync \<Rightarrow> return_x ())"

definition sync :: "unit aw_io" where
  "sync =
     bind_x (gets_x snd) (\<lambda>w.
       if aw_progress w = None then throw_x (InvalidOperation ''atomic write has no payload'')
       else (case aw_temp_file w of
          None \<Rightarrow> throw_x (InvalidOperation ''atomic write is closed'')
        | Some f \<Rightarrow>
            try_x (on_host (sync_file (durability (vs_options (aw_storage w))) f)) (\<lambda>r.
              case r of
                Ok _ \<Rightarrow> update_aw (\<lambda>w. w\<lparr>aw_synced := True\<rparr>)
              | Err e \<Rightarrow> bind_x abort (\<lambda>_. throw_x e))))"

definition commit :: "externals \<Rightarrow> atomic_write \<Rightarrow> write_receipt io" where
  "commit x w =
     (case aw_progress w of
        None \<Rightarrow> throw_x (InvalidOperation ''atomic write has no payload'')
      | Some progress \<Rightarrow>
          (if \<not> aw_synced w
           then throw_x (InvalidOperation ''atomic write was not synced before commit'')
           else (case aw_parent w of
              None \<Rightarrow> throw_x (InvalidOperation ''atomic write is closed'')
            | Some d \<Rightarrow>
                bind_x (commit_temp d (aw_temp_name w) (aw_leaf w) (aw_destination w)
                          (durability (vs_options (aw_storage w)))) (\<lambda>_.
                bind_x (stat x (aw_storage w) (aw_path w) (aw_managed w)) (\<lambda>metadata.
                  return_x \<lparr>wr_path = aw_path w, wr_size = wp_size progress,
                    wr_content_hash = wp_content_hash progress, wr_metadata = metadata\<rparr>)))))"

definition with_write :: "atomic_write \<Rightarrow> 'a aw_io \<Rightarrow> ('a \<times> atomic_write) io" where
  \<comment> \<open>run calls on an owned \<open>AtomicWrite\<close>\<close>
  "with_write w m h = (let (r, (h', w')) = m (h, w) in (map_sum id (\<lambda>a. (a, w')) r, h'))"

definition write_atomic ::
  "externals \<Rightarrow> vault_storage \<Rightarrow> vault_path \<Rightarrow> string \<Rightarrow> read_event list \<Rightarrow> destination_policy \<Rightarrow>
     write_receipt io" where
  "write_atomic x st p simple reader destination =
     bind_x (lift_x (temporary_path_for x st p False simple)) (\<lambda>temporary.
     bind_x (begin_atomic_write_at x st p destination temporary False) (\<lambda>w.
     bind_x (with_write w (bind_x (write_from x reader) (\<lambda>_. sync))) (\<lambda>(_, w').
       commit x w')))"

definition write_bytes ::
  "externals \<Rightarrow> vault_storage \<Rightarrow> vault_path \<Rightarrow> string \<Rightarrow> bytes \<Rightarrow> destination_policy \<Rightarrow>
     write_receipt io" where
  "write_bytes x st p simple bs destination = write_atomic x st p simple [Chunk bs] destination"

section \<open>Copy, move, delete\<close>

definition copy_file ::
  "externals \<Rightarrow> vault_storage \<Rightarrow> vault_path \<Rightarrow> vault_path \<Rightarrow> string \<Rightarrow> destination_policy \<Rightarrow>
     write_receipt io" where
  "copy_file x st source destination simple policy =
     bind_x (lift_x (validate_write_path_for x st destination False)) (\<lambda>_.
     bind_x (open_read x st source False) (\<lambda>rf.
     try_x (sys_read (rf_node rf)) (\<lambda>r.
       write_atomic x st destination simple
         (case r of Ok content \<Rightarrow> [Chunk content] | Err e \<Rightarrow> [ReadError (errno_kind e)]) policy)))"

definition move_entry ::
  "externals \<Rightarrow> vault_storage \<Rightarrow> vault_path \<Rightarrow> vault_path \<Rightarrow> destination_policy \<Rightarrow> unit io" where
  "move_entry x st source destination policy =
     bind_x (lift_x (validate_write_path_for x st source False)) (\<lambda>_.
     bind_x (lift_x (validate_write_path_for x st destination False)) (\<lambda>_.
       if source = destination
       then throw_x (InvalidOperation ''source and destination match'')
       else
         bind_x (ensure_root st) (\<lambda>_.
         bind_x (open_parent_with_leaf (vs_root st) source False) (\<lambda>(source_parent, source_name).
         bind_x (open_parent_with_leaf (vs_root st) destination False)
           (\<lambda>(destination_parent, destination_name).
           move_entry_at source_parent source_name destination_parent destination_name policy
             (durability (vs_options st)))))))"

definition delete_validated :: "vault_storage \<Rightarrow> vault_path \<Rightarrow> unit io" where
  "delete_validated st p =
     bind_x (ensure_root st) (\<lambda>_.
     bind_x (open_parent_with_leaf (vs_root st) p False) (\<lambda>(d, leaf).
       delete_entry d leaf (durability (vs_options st))))"

definition delete :: "externals \<Rightarrow> vault_storage \<Rightarrow> vault_path \<Rightarrow> bool \<Rightarrow> unit io" where
  "delete x st p managed =
     bind_x (lift_x (validate_write_path_for x st p managed)) (\<lambda>_. delete_validated st p)"

definition remove_temporary :: "vault_storage \<Rightarrow> temporary_path \<Rightarrow> unit io" where
  "remove_temporary st temporary =
     bind_x (ensure_root st) (\<lambda>_.
     bind_x (open_parent_with_leaf (vs_root st) (as_path temporary) False) (\<lambda>(d, leaf).
     bind_x (entry_kind_at d leaf) (\<lambda>k.
       case k of
         None \<Rightarrow> return_x ()
       | Some RegularFile \<Rightarrow> cleanup_temp d leaf
       | Some kind \<Rightarrow> throw_x (unsafe_entry kind))))"

end
