(* ===== verification/Storage_Safety.thy ===== *)
theory Storage_Safety
  imports Storage
begin

text \<open>
  Theorems about the filesystem adapter: which calls only read, what a phased write may change
  under every schedule of I/O errors and crashes, and that it succeeds when the host does.
\<close>

section \<open>Calls that leave the trees alone\<close>

lemma within_mono: "within R m \<Longrightarrow> (\<And>s t. R s t \<Longrightarrow> Q s t) \<Longrightarrow> within Q m"
  by (simp add: within_def)

lemma call_same [within_rules]:
  "within same_fs m \<Longrightarrow> within same_fs (call op m)"
  "within same_fs m \<Longrightarrow> within same_fs (call_std op m)"
  by (simp_all add: call_def call_std_def same_fs.within_mapErr)

lemma open_root_same [within_rules]: "within same_fs (open_root r)"
  by (auto simp: open_root_def intro!: same_fs.within_core within_rules)

lemma open_directory_same [within_rules]: "within same_fs (open_directory r)"
  by (auto simp: open_directory_def intro!: same_fs.within_core within_rules)

lemma open_child_same [within_rules]: "within same_fs (open_child_directory d s)"
  by (auto simp: open_child_directory_def intro!: same_fs.within_core within_rules)

lemma open_parents_same [within_rules]: "within same_fs (open_parents False d ss)"
  by (induction ss arbitrary: d)
    (auto intro!: same_fs.within_core within_rules split: sum.splits storage_error.splits)

lemma open_parent_same [within_rules]: "within same_fs (open_parent_with_leaf r p False)"
  by (auto simp: open_parent_with_leaf_def intro!: same_fs.within_core within_rules)

lemma entry_kind_same [within_rules]: "within same_fs (entry_kind_at d s)"
  by (auto simp: entry_kind_at_def intro!: same_fs.within_core within_rules split: sum.splits)

lemma open_regular_same [within_rules]: "within same_fs (open_regular d s)"
  by (auto simp: open_regular_def intro!: same_fs.within_core within_rules
      split: option.splits entry_kind.splits)

lemma metadata_at_same [within_rules]: "within same_fs (metadata_at d s k)"
  by (auto simp: metadata_at_def intro!: same_fs.within_core within_rules
      split: entry_kind.splits)

lemma validate_destination_same [within_rules]: "within same_fs (validate_destination d s pol)"
  by (auto simp: validate_destination_def intro!: same_fs.within_core within_rules
      split: option.splits entry_kind.splits)

lemma sync_parent_same [within_rules]: "within same_fs (sync_parent d dur)"
  by (auto simp: sync_parent_def intro!: same_fs.within_core within_rules)

lemma free_space_same [within_rules]: "within same_fs (ensure_free_space opts)"
  by (auto simp: ensure_free_space_def disk_space_for_def intro!: same_fs.within_core within_rules)

section \<open>The root\<close>

definition root_step :: "host_root \<Rightarrow> host \<Rightarrow> host \<Rightarrow> bool" where
  \<comment> \<open>at most the missing root directory is created\<close>
  "root_step r h h' \<longleftrightarrow> same_fs h h' \<or>
     (h_roots h r = None \<and> (\<exists>a. h_roots h' = (h_roots h)(r := Some (DirNode a []))))"

lemma root_step_view:
  assumes "root_step r h h'"
  shows "(r', q) \<noteq> (r, []) \<Longrightarrow> view h' r' q = view h r' q"
    and "view h' r [] \<noteq> view h r [] \<Longrightarrow> view h r [] = None \<and> host_dir h' r []"
proof -
  consider (same) "same_fs h h'"
    | (new) a where "h_roots h r = None" "h_roots h' = (h_roots h)(r := Some (DirNode a []))"
    using assms by (auto simp: root_step_def)
  then have "((r', q) \<noteq> (r, []) \<longrightarrow> view h' r' q = view h r' q) \<and>
    (view h' r [] \<noteq> view h r [] \<longrightarrow> view h r [] = None \<and> host_dir h' r [])"
  proof cases
    case same
    then show ?thesis by (simp add: same_fs_view)
  next
    case new
    then show ?thesis
      by (cases q) (auto simp: view_look host_dir_view split: option.splits)
  qed
  then show "(r', q) \<noteq> (r, []) \<Longrightarrow> view h' r' q = view h r' q"
    and "view h' r [] \<noteq> view h r [] \<Longrightarrow> view h r [] = None \<and> host_dir h' r []" by auto
qed

lemma create_root_step: "root_step r h (snd (sys_create_root r h))"
  by (auto simp: sys_create_root_def syscall_def root_step_def same_fs_def set_root_def
      next_inode_def split: list.splits fault.splits option.splits)

lemma root_step_trans: "root_step r h h1 \<Longrightarrow> root_step r h1 h2 \<Longrightarrow> root_step r h h2"
  by (auto simp: root_step_def same_fs_def)

interpretation root_step: step_order "root_step r" for r
  by unfold_locales (simp add: root_step_def same_fs.step_refl, rule root_step_trans)

lemma same_root: "within same_fs m \<Longrightarrow> within (root_step r) m"
  by (erule within_mono) (simp add: root_step_def)

lemma ensure_root_step: "within (root_step (vs_root st)) (ensure_root st)"
proof -
  have "within (root_step (vs_root st)) (sys_create_root (vs_root st))"
    using create_root_step by (simp add: within_def)
  then show ?thesis
    unfolding ensure_root_def ensure_directory_root_def
    by (auto intro!: root_step.within_core same_root [OF open_root_same] same_root [OF reads_same_fs(1)]
        simp: call_std_def split: sum.splits entry_kind.splits)
qed

section \<open>What resolution guarantees\<close>

lemma sys_open_dir_Ok: "sys_open_dir r p h = (Ok u, h') \<Longrightarrow> host_dir h r p \<and> same_fs h h'"
  by (auto simp: sys_open_dir_def syscall_def host_dir_def host_at_def same_fs_def
      split: list.splits fault.splits option.splits node.splits entry_kind.splits if_splits)

lemma call_Ok [simp]: "call op m h = (Ok u, h') \<longleftrightarrow> m h = (Ok u, h')"
  "call_std op m h = (Ok u, h') \<longleftrightarrow> m h = (Ok u, h')"
  by (cases "m h"; simp add: call_def call_std_def mapErr_x_def)+

lemma bind_x_cases:
  assumes "bind_x m f s = (res, s')"
  obtains (err) e where "m s = (Err e, s')" "res = Err e"
  | (ok) y s1 where "m s = (Ok y, s1)" "f y s1 = (res, s')"
proof (cases "m s")
  case (Pair r s1)
  then show ?thesis using assms err ok by (cases r) (auto simp: bind_x_def)
qed

lemma open_child_Ok:
  assumes "open_child_directory d s h = (Ok d', h')"
  shows "d' = d\<lparr>pd_segments := child d s\<rparr> \<and> host_dir h (pd_root d) (child d s) \<and> same_fs h h'"
  using assms by (auto simp: open_child_directory_def bind_x_Ok_conv dest: sys_open_dir_Ok)

lemma open_parents_Ok:
  assumes "open_parents False d ss h = (Ok d', h')" "host_dir h (pd_root d) (pd_segments d)"
  shows "pd_root d' = pd_root d \<and> pd_segments d' = pd_segments d @ ss \<and>
    host_dir h (pd_root d) (pd_segments d @ ss) \<and> same_fs h h'"
  using assms
proof (induction ss arbitrary: d h)
  case Nil
  then show ?case by (simp add: same_fs.step_refl)
next
  case (Cons s ss)
  obtain r h1 where r: "open_child_directory d s h = (r, h1)" by (cases "open_child_directory d s h")
  show ?case
  proof (cases r)
    case (Inl e)
    then show ?thesis using Cons.prems(1) r by (cases e) (simp_all add: try_x_def)
  next
    case (Inr d1)
    note child = open_child_Ok [OF r [unfolded Inr]]
    have "open_parents False d1 ss h1 = (Ok d', h')"
      using Cons.prems(1) r Inr by (simp add: try_x_def)
    moreover have "host_dir h1 (pd_root d1) (pd_segments d1)"
      using child same_fs_dirD(1) [of h h1] by simp
    ultimately have "pd_root d' = pd_root d1 \<and> pd_segments d' = pd_segments d1 @ ss \<and>
      host_dir h1 (pd_root d1) (pd_segments d1 @ ss) \<and> same_fs h1 h'"
      by (rule Cons.IH)
    then show ?thesis
      using child same_fs.step_trans by (auto simp: child_def same_fs_dir)
  qed
qed

lemma open_root_Ok: "open_root r h = (Ok u, h') \<Longrightarrow> host_dir h r [] \<and> same_fs h h'"
proof -
  assume *: "open_root r h = (Ok u, h')"
  then obtain k h1 where 1: "sys_root_kind r h = (Ok k, h1)" and
    2: "sys_open_dir r [] h1 = (Ok u, h')"
    by (auto simp: open_root_def bind_x_Ok_conv split: if_splits)
  have "same_fs h h1" using reads_same_fs(1) 1 by (rule withinD)
  with sys_open_dir_Ok [OF 2] show ?thesis
    using same_fs.step_trans by (auto simp: same_fs_dir)
qed

lemma open_parent_Ok:
  assumes "open_parent_with_leaf r p False h = (Ok (d, leaf), h')"
  shows "pd_root d = r \<and> child d leaf = segments p \<and> pd_segments d = butlast (segments p) \<and>
    segments p \<noteq> [] \<and> host_dir h r (pd_segments d) \<and> same_fs h h'"
proof -
  obtain h1 where 1: "open_root r h = (Ok (), h1)"
    and ne: "segments p \<noteq> []" and leaf: "leaf = last (segments p)"
    and 2: "open_parents False \<lparr>pd_root = r, pd_segments = []\<rparr> (butlast (segments p)) h1 = (Ok d, h')"
    using assms by (auto simp: open_parent_with_leaf_def bind_x_Ok_conv split: if_splits)
  note o = open_root_Ok [OF 1]
  have "host_dir h1 r []" using o same_fs_dirD(1) by blast
  with open_parents_Ok [OF 2]
  have "pd_root d = r \<and> pd_segments d = butlast (segments p) \<and>
    host_dir h1 r (butlast (segments p)) \<and> same_fs h1 h'" by simp
  then show ?thesis
    using o ne leaf same_fs.step_trans by (auto simp: child_def same_fs_dir)
qed

section \<open>The temporary file\<close>

definition tmp_only :: "host_root \<Rightarrow> string list \<Rightarrow> host \<Rightarrow> host \<Rightarrow> bool" where
  "tmp_only r t h h' \<longleftrightarrow> (\<forall>r' q. (r', q) \<noteq> (r, t) \<longrightarrow> view h' r' q = view h r' q)"

interpretation tmp_only: step_order "tmp_only r t" for r t
  by unfold_locales (auto simp: tmp_only_def)

lemma same_tmp: "same_fs h h' \<Longrightarrow> tmp_only r t h h'"
  by (simp add: tmp_only_def same_fs_view)

lemma tmp_only_dir:
  assumes "tmp_only r (d @ [s]) h h'" "host_dir h r d"
  shows "host_dir h' r d"
proof -
  have "view h' r d = view h r d" using assms(1) by (simp add: tmp_only_def)
  with assms(2) show ?thesis by (simp add: host_dir_view)
qed

lemma syscall_cases:
  assumes "syscall partial act h = (res, h')"
  obtains (stopped) "h' = h" "res = Err Stopped" "h_stopped h"
  | (runs) h1 where "same_fs h h1" "act h1 = (res, h')"
  | (fails) h1 k e where "same_fs h h1" "h' = partial k h1" "res = Err e" "e \<noteq> NOENT" "e \<noteq> EXIST"
proof (cases "h_stopped h")
  case True
  then show ?thesis using assms stopped by (simp add: syscall_def)
next
  case False
  show ?thesis
  proof (cases "h_faults h")
    case Nil
    then show ?thesis using assms False runs [of h] by (simp add: syscall_def same_fs_def)
  next
    case (Cons f fs)
    have sf: "same_fs h (h\<lparr>h_faults := fs\<rparr>)" "same_fs h (h\<lparr>h_faults := fs, h_stopped := True\<rparr>)"
      by (simp_all add: same_fs_def)
    show ?thesis
    proof (cases f)
      case Fine
      then show ?thesis using assms False Cons runs [OF sf(1)] by (simp add: syscall_def)
    next
      case (Fail e k)
      have "hard_error e \<noteq> NOENT" "hard_error e \<noteq> EXIST" by (cases e; simp)+
      then show ?thesis using assms False Cons Fail fails [OF sf(1), of k "hard_error e"]
        by (auto simp: syscall_def)
    next
      case (Stop k)
      then show ?thesis using assms False Cons fails [OF sf(2), of k Stopped]
        by (auto simp: syscall_def)
    qed
  qed
qed

lemma sys_create_excl_spec:
  assumes "sys_create_excl r (d @ [s]) h = (res, h')"
  shows "tmp_only r (d @ [s]) h h'"
    and "res = Ok () \<Longrightarrow> host_dir h' r d \<and> view h r (d @ [s]) = None \<and>
           (\<exists>a. view h' r (d @ [s]) = Some (FileNode [] False a))"
proof -
  have "tmp_only r (d @ [s]) h h' \<and> (res = Ok () \<longrightarrow> host_dir h' r d \<and> view h r (d @ [s]) = None \<and>
      (\<exists>a. view h' r (d @ [s]) = Some (FileNode [] False a)))"
    using assms unfolding sys_create_excl_def
  proof (cases rule: syscall_cases)
    case (runs h1)
    show ?thesis
    proof (cases "host_at h1 r (d @ [s]) \<noteq> None \<or> \<not> host_dir h1 r d")
      case True
      then have "h' = h1" "res \<noteq> Ok ()" using runs(2) by (auto split: option.splits if_splits)
      then show ?thesis using runs(1) by (simp add: same_tmp)
    next
      case False
      then have none: "view h1 r (d @ [s]) = None" and dir: "host_dir h1 r d"
        by (simp_all add: view_None)
      have h': "h' = next_inode (host_put r (d @ [s]) (Some (FileNode [] False (fresh_attr h1))) h1)"
        using runs(2) False by (auto split: if_splits)
      have "view h' = view (host_put r (d @ [s]) (Some (FileNode [] False (fresh_attr h1))) h1)"
        unfolding h' by (rule view_cong) (simp add: next_inode_def)
      then have v: "view h' r' q = (if r' = r \<and> q = d @ [s] then Some (FileNode [] False (fresh_attr h1))
          else view h r' q)" for r' q
        using view_put_leaf [OF dir refl] none same_fs_view [OF runs(1)] by simp
      have "host_dir h' r d" using dir same_fs_dirD(2) [OF runs(1)] by (simp add: host_dir_view v)
      then show ?thesis using none same_fs_view [OF runs(1)] by (auto simp: tmp_only_def v)
    qed
  qed (auto simp: tmp_only.step_refl same_tmp)
  then show "tmp_only r (d @ [s]) h h'"
    and "res = Ok () \<Longrightarrow> host_dir h' r d \<and> view h r (d @ [s]) = None \<and>
      (\<exists>a. view h' r (d @ [s]) = Some (FileNode [] False a))" by auto
qed

lemma put_file_view:
  assumes "host_at h r (d @ [s]) = Some (FileNode c b a)"
  shows "view (host_put r (d @ [s]) (Some (FileNode c' b' a)) h) r' q =
    (if r' = r \<and> q = d @ [s] then Some (FileNode c' b' a) else view h r' q)"
proof -
  have "view h r (d @ [s]) = Some (FileNode c b a)" using assms by (simp add: view_FileNode)
  moreover have "host_dir h r d" by (rule host_dir_parent [of h r d s]) (simp add: assms)
  ultimately show ?thesis by (simp add: view_put_leaf)
qed

lemma append_bytes_spec:
  "tmp_only r (d @ [s]) h (append_bytes r (d @ [s]) bs h)"
  "view h r (d @ [s]) = Some (FileNode c b a) \<Longrightarrow>
     view (append_bytes r (d @ [s]) bs h) r (d @ [s]) = Some (FileNode (c @ bs) False a)"
  by (auto simp: append_bytes_def tmp_only_def put_file_view view_FileNode
      split: option.splits node.splits)

lemma sys_write_spec:
  assumes "sys_write r (d @ [s]) bs h = (res, h')"
  shows "tmp_only r (d @ [s]) h h'"
    and "res = Ok () \<Longrightarrow> view h r (d @ [s]) = Some (FileNode c b a) \<Longrightarrow>
           view h' r (d @ [s]) = Some (FileNode (c @ bs) False a)"
proof -
  have "tmp_only r (d @ [s]) h h' \<and>
    (res = Ok () \<longrightarrow> view h r (d @ [s]) = Some (FileNode c b a) \<longrightarrow>
       view h' r (d @ [s]) = Some (FileNode (c @ bs) False a))"
    using assms unfolding sys_write_def
  proof (cases rule: syscall_cases)
    case (runs h1)
    then show ?thesis
      using append_bytes_spec tmp_only.step_trans [OF same_tmp [OF runs(1)]] same_fs_view [OF runs(1)]
      by auto
  next
    case (fails h1 k e)
    then show ?thesis
      using append_bytes_spec(1) tmp_only.step_trans [OF same_tmp [OF fails(1)]] by auto
  qed (auto simp: tmp_only.step_refl)
  then show "tmp_only r (d @ [s]) h h'"
    and "res = Ok () \<Longrightarrow> view h r (d @ [s]) = Some (FileNode c b a) \<Longrightarrow>
      view h' r (d @ [s]) = Some (FileNode (c @ bs) False a)" by auto
qed

lemma sys_sync_spec:
  assumes "sys_sync_file r (d @ [s]) h = (res, h')"
  shows "tmp_only r (d @ [s]) h h'"
    and "res = Ok () \<Longrightarrow> view h r (d @ [s]) = Some (FileNode c b a) \<Longrightarrow>
           view h' r (d @ [s]) = Some (FileNode c True a)"
proof -
  have "tmp_only r (d @ [s]) h h' \<and>
    (res = Ok () \<longrightarrow> view h r (d @ [s]) = Some (FileNode c b a) \<longrightarrow>
       view h' r (d @ [s]) = Some (FileNode c True a))"
    using assms unfolding sys_sync_file_def
  proof (cases rule: syscall_cases)
    case (runs h1)
    have v: "view h1 = view h" by (rule same_fs_view [OF runs(1)])
    have "tmp_only r (d @ [s]) h1 h'"
      using runs(2) by (auto simp: tmp_only_def put_file_view split: option.splits node.splits)
    then have "tmp_only r (d @ [s]) h h'"
      using same_tmp [OF runs(1)] tmp_only.step_trans by blast
    moreover have "view h' r (d @ [s]) = Some (FileNode c True a)"
      if "view h r (d @ [s]) = Some (FileNode c b a)"
      using runs(2) that put_file_view [of h1 r d s c b a c True]
      by (auto simp: v [symmetric] view_FileNode)
    ultimately show ?thesis by simp
  qed (auto simp: tmp_only.step_refl same_tmp)
  then show "tmp_only r (d @ [s]) h h'"
    and "res = Ok () \<Longrightarrow> view h r (d @ [s]) = Some (FileNode c b a) \<Longrightarrow>
      view h' r (d @ [s]) = Some (FileNode c True a)" by auto
qed

lemma sys_unlink_spec:
  assumes "sys_unlink r (d @ [s]) h = (res, h')"
  shows "tmp_only r (d @ [s]) h h'"
    and "res = Ok () \<or> res = Err NOENT \<Longrightarrow> view h' r (d @ [s]) = None"
proof -
  have "tmp_only r (d @ [s]) h h' \<and> (res = Ok () \<or> res = Err NOENT \<longrightarrow> view h' r (d @ [s]) = None)"
    using assms unfolding sys_unlink_def
  proof (cases rule: syscall_cases)
    case (runs h1)
    show ?thesis
    proof (cases "host_at h1 r (d @ [s])")
      case None
      then show ?thesis using runs by (auto simp: same_tmp view_None)
    next
      case (Some n)
      show ?thesis
      proof (cases "is_dir n")
        case True
        then show ?thesis using runs Some by (auto simp: same_tmp)
      next
        case False
        have n: "view h1 r (d @ [s]) = Some (shallow n)" using Some by (simp add: view_def)
        have dir: "host_dir h1 r d" by (rule host_dir_parent [of h1 r d s]) (simp add: Some)
        have "h' = host_put r (d @ [s]) None h1" using runs(2) Some False by simp
        then have "view h' r' q = (if r' = r \<and> q = d @ [s] then None else view h r' q)" for r' q
          using view_put_none [OF dir n] False same_fs_view [OF runs(1)] by simp
        then show ?thesis by (simp add: tmp_only_def)
      qed
    qed
  qed (auto simp: tmp_only.step_refl same_tmp)
  then show "tmp_only r (d @ [s]) h h'"
    and "res = Ok () \<or> res = Err NOENT \<Longrightarrow> view h' r (d @ [s]) = None" by auto
qed

lemma cleanup_temp_spec:
  "cleanup_temp d s h = (res, h') \<Longrightarrow> res = Ok () \<and> tmp_only (pd_root d) (child d s) h h'"
  unfolding cleanup_temp_def ignore_x_def child_def
  by (cases "sys_unlink (pd_root d) (pd_segments d @ [s]) h") (auto dest: sys_unlink_spec(1))

section \<open>Installing the temporary file\<close>

definition leaf_or_none :: "node option \<Rightarrow> bool" where
  "leaf_or_none v \<longleftrightarrow> (\<forall>n. v = Some n \<longrightarrow> \<not> is_dir n)"

lemma move_file_view:
  assumes "host_at h r (d @ [s]) = Some (FileNode c b a)" "s \<noteq> l"
    and "leaf_or_none (view h r (d @ [l]))"
  shows "view (move_node r (d @ [s]) (d @ [l]) (FileNode c b a) h) r' q =
    (if r' = r \<and> q = d @ [l] then Some (FileNode c b a)
     else if r' = r \<and> q = d @ [s] then None else view h r' q)"
proof -
  let ?h1 = "host_put r (d @ [s]) None h"
  have dir: "host_dir h r d" by (rule host_dir_parent [of h r d s]) (simp add: assms)
  have v1: "view ?h1 r' q = (if r' = r \<and> q = d @ [s] then None else view h r' q)" for r' q
    using view_put_none [OF dir, of s "FileNode c b a"] assms(1) by (simp add: view_FileNode)
  have "host_dir ?h1 r d" using dir by (simp add: host_dir_view v1)
  moreover have "view ?h1 r (d @ [l]) = None \<or> (\<exists>n. view ?h1 r (d @ [l]) = Some n \<and> \<not> is_dir n)"
    using assms(2,3) by (cases "view h r (d @ [l])") (auto simp: v1 leaf_or_none_def)
  ultimately show ?thesis
    unfolding move_node_def by (simp add: view_put_leaf v1)
qed

definition installed ::
  "host_root \<Rightarrow> string list \<Rightarrow> string list \<Rightarrow> node \<Rightarrow> host \<Rightarrow> host \<Rightarrow> bool" where
  \<comment> \<open>the entry is at the target, the temporary name is gone, all else is as before\<close>
  "installed r t q n h h' \<longleftrightarrow> (\<forall>r' x. view h' r' x =
     (if r' = r \<and> x = q then Some n else if r' = r \<and> x = t then None else view h r' x))"

lemma sys_rename_noreplace_spec:
  assumes "sys_rename_noreplace r (d @ [s]) (d @ [l]) h = (res, h')" "s \<noteq> l"
    and "view h r (d @ [s]) = Some (FileNode c b a)"
  shows "res = Ok () \<and> view h r (d @ [l]) = None \<and>
      installed r (d @ [s]) (d @ [l]) (FileNode c b a) h h' \<or>
    (\<exists>e. res = Err e \<and> e \<noteq> NOENT) \<and> same_fs h h'"
  using assms(1) unfolding sys_rename_noreplace_def
proof (cases rule: syscall_cases)
  case (runs h1)
  have v: "view h1 = view h" by (rule same_fs_view [OF runs(1)])
  have t: "host_at h1 r (d @ [s]) = Some (FileNode c b a)"
    using assms(3) by (simp add: v [symmetric] view_FileNode)
  have dir: "host_dir h1 r d" by (rule host_dir_parent [of h1 r d s]) (simp add: t)
  show ?thesis
  proof (cases "host_at h1 r (d @ [l]) = None")
    case True
    then have "leaf_or_none (view h1 r (d @ [l]))" by (simp add: leaf_or_none_def view_def)
    from move_file_view [OF t assms(2) this] show ?thesis
      using runs(2) True t dir assms(2)
      by (auto simp: installed_def v [symmetric] view_None)
  next
    case False
    then show ?thesis using runs t by auto
  qed
qed (auto simp: same_fs_def)

lemma replaceable_file: "replaceable (FileNode c b a) old = Ok u \<Longrightarrow> leaf_or_none (map_option shallow old)"
  by (auto simp: replaceable_def leaf_or_none_def split: option.splits node.splits if_splits)

lemma sys_rename_spec:
  assumes "sys_rename r (d @ [s]) (d @ [l]) h = (res, h')" "s \<noteq> l"
    and "view h r (d @ [s]) = Some (FileNode c b a)"
  shows "res = Ok () \<and> leaf_or_none (view h r (d @ [l])) \<and>
      installed r (d @ [s]) (d @ [l]) (FileNode c b a) h h' \<or>
    (\<exists>e. res = Err e \<and> e \<noteq> NOENT) \<and> same_fs h h'"
  using assms(1) unfolding sys_rename_def
proof (cases rule: syscall_cases)
  case (runs h1)
  have v: "view h1 = view h" by (rule same_fs_view [OF runs(1)])
  have t: "host_at h1 r (d @ [s]) = Some (FileNode c b a)"
    using assms(3) by (simp add: v [symmetric] view_FileNode)
  have dir: "host_dir h1 r d" by (rule host_dir_parent [of h1 r d s]) (simp add: t)
  show ?thesis
  proof (cases "replaceable (FileNode c b a) (host_at h1 r (d @ [l]))")
    case (Inl e)
    then have "e \<noteq> NOENT"
      by (auto simp: replaceable_def split: option.splits node.splits if_splits)
    then show ?thesis using runs t dir Inl assms(2) by auto
  next
    case (Inr u)
    then have leaf: "leaf_or_none (view h1 r (d @ [l]))"
      unfolding view_def by (rule replaceable_file)
    from move_file_view [OF t assms(2) leaf] show ?thesis
      using runs(2) t dir assms(2) Inr leaf by (auto simp: installed_def v [symmetric])
  qed
qed (auto simp: same_fs_def)

lemma sys_link_spec:
  assumes "sys_link r (d @ [s]) (d @ [l]) h = (res, h')" "s \<noteq> l"
    and "view h r (d @ [s]) = Some (FileNode c b a)"
  shows "res = Ok () \<and> view h r (d @ [l]) = None \<and>
      (\<forall>r' x. view h' r' x = (if r' = r \<and> x = d @ [l] then Some (FileNode c b a) else view h r' x)) \<or>
    (\<exists>e. res = Err e) \<and> same_fs h h'"
  using assms(1) unfolding sys_link_def
proof (cases rule: syscall_cases)
  case (runs h1)
  have v: "view h1 = view h" by (rule same_fs_view [OF runs(1)])
  have t: "host_at h1 r (d @ [s]) = Some (FileNode c b a)"
    using assms(3) by (simp add: v [symmetric] view_FileNode)
  have dir: "host_dir h1 r d" by (rule host_dir_parent [of h1 r d s]) (simp add: t)
  show ?thesis
  proof (cases "host_at h1 r (d @ [l]) = None")
    case True
    then have none: "view h1 r (d @ [l]) = None" by (simp add: view_None)
    have "view (host_put r (d @ [l]) (Some (FileNode c b a)) h1) r' x =
        (if r' = r \<and> x = d @ [l] then Some (FileNode c b a) else view h1 r' x)" for r' x
      using view_put_leaf [OF dir refl] none by simp
    then show ?thesis using runs(2) True t dir none by (simp add: v)
  next
    case False
    then show ?thesis using runs t by auto
  qed
qed (auto simp: same_fs_def)

text \<open>
  The commit of a complete temporary file: the target keeps its entry or holds the file, under
  every fault; nothing but the target and the temporary name changes.
\<close>

definition commit_ok ::
  "destination_policy \<Rightarrow> host_root \<Rightarrow> string list \<Rightarrow> string list \<Rightarrow> node \<Rightarrow> host \<Rightarrow> host \<Rightarrow> bool" where
  "commit_ok pol r t q n h h' \<longleftrightarrow>
     (\<forall>r' x. (r', x) \<noteq> (r, t) \<longrightarrow> (r', x) \<noteq> (r, q) \<longrightarrow> view h' r' x = view h r' x) \<and>
     (view h' r q = view h r q \<or>
      view h' r q = Some n \<and> (if pol = MustNotExist then view h r q = None
                               else leaf_or_none (view h r q)))"

lemma commit_ok_tmp:
  "tmp_only r t h h' \<Longrightarrow> t \<noteq> q \<Longrightarrow> commit_ok pol r t q n h h'"
  by (simp add: commit_ok_def tmp_only_def)

lemma commit_ok_then_tmp:
  "commit_ok pol r t q n h h1 \<Longrightarrow> tmp_only r t h1 h' \<Longrightarrow> t \<noteq> q \<Longrightarrow> commit_ok pol r t q n h h'"
  by (simp add: commit_ok_def tmp_only_def)

lemma same_then_commit:
  "same_fs h h1 \<Longrightarrow> commit_ok pol r t q n h1 h' \<Longrightarrow> commit_ok pol r t q n h h'"
  by (drule same_fs_view) (auto simp: commit_ok_def split: if_splits)

lemma installed_commit_ok:
  "installed r t q n h h' \<Longrightarrow> (if pol = MustNotExist then view h r q = None else leaf_or_none (view h r q)) \<Longrightarrow>
     commit_ok pol r t q n h h'"
  by (auto simp: installed_def commit_ok_def)

lemma same_then_installed: "same_fs h h1 \<Longrightarrow> installed r t q n h1 h' \<Longrightarrow> installed r t q n h h'"
  by (drule same_fs_view) (simp add: installed_def)

lemma installed_then_same: "installed r t q n h h1 \<Longrightarrow> same_fs h1 h' \<Longrightarrow> installed r t q n h h'"
  by (drule same_fs_view) (simp add: installed_def)

lemma commit_ok_then_same: "commit_ok pol r t q n h h1 \<Longrightarrow> same_fs h1 h' \<Longrightarrow> commit_ok pol r t q n h h'"
  by (drule same_fs_view) (simp add: commit_ok_def)

lemma link_install:
  assumes t: "view h r (d @ [s]) = Some (FileNode c b a)" and ne: "s \<noteq> l"
    and run: "commit_temp_noreplace \<lparr>pd_root = r, pd_segments = d\<rparr> s l (Err e0) h = (res, h')"
    and e0: "rename_noreplace_unsupported e0" "e0 \<noteq> EXIST"
  shows "commit_ok MustNotExist r (d @ [s]) (d @ [l]) (FileNode c b a) h h' \<and>
    (res = Ok () \<longrightarrow> installed r (d @ [s]) (d @ [l]) (FileNode c b a) h h')"
proof -
  obtain lr h1 where l: "sys_link r (d @ [s]) (d @ [l]) h = (lr, h1)" by (rule prod.exhaust)
  obtain ur h2 where u: "sys_unlink r (d @ [s]) h1 = (ur, h2)" by (rule prod.exhaust)
  note ls = sys_link_spec [OF l ne t]
  show ?thesis
  proof (cases lr)
    case (Inl e)
    then have "h' = h1" "res \<noteq> Ok ()"
      using run l e0 by (auto simp: commit_temp_noreplace_def child_def bind_x_def mapErr_x_def)
    moreover have "same_fs h h1" using ls Inl by auto
    ultimately show ?thesis using commit_ok_tmp [OF same_tmp] ne by simp
  next
    case (Inr v)
    then have none: "view h r (d @ [l]) = None"
      and v1: "view h1 r' x = (if r' = r \<and> x = d @ [l] then Some (FileNode c b a) else view h r' x)" for r' x
      using ls by auto
    have h': "h' = h2" and res: "res = Ok () \<longrightarrow> ur = Ok () \<or> ur = Err NOENT"
      using run l u Inr e0
      by (auto simp: commit_temp_noreplace_def child_def bind_x_def mapErr_x_def try_x_def
          split: sum.splits if_splits)
    have tmp: "tmp_only r (d @ [s]) h1 h2" by (rule sys_unlink_spec(1) [OF u])
    have "installed r (d @ [s]) (d @ [l]) (FileNode c b a) h h'" if "res = Ok ()"
      using sys_unlink_spec(2) [OF u] res that tmp ne
      by (auto simp: installed_def tmp_only_def h' v1)
    moreover have "commit_ok MustNotExist r (d @ [s]) (d @ [l]) (FileNode c b a) h h'"
      using tmp none ne by (auto simp: commit_ok_def tmp_only_def h' v1)
    ultimately show ?thesis by simp
  qed
qed

lemma noreplace_install:
  assumes t: "view h r (d @ [s]) = Some (FileNode c b a)" and ne: "s \<noteq> l"
    and run: "try_x (sys_rename_noreplace r (d @ [s]) (d @ [l]))
      (commit_temp_noreplace \<lparr>pd_root = r, pd_segments = d\<rparr> s l) h = (res, h')"
  shows "commit_ok MustNotExist r (d @ [s]) (d @ [l]) (FileNode c b a) h h' \<and>
    (res = Ok () \<longrightarrow> installed r (d @ [s]) (d @ [l]) (FileNode c b a) h h')"
proof -
  obtain rr h1 where rn: "sys_rename_noreplace r (d @ [s]) (d @ [l]) h = (rr, h1)" by (rule prod.exhaust)
  note rs = sys_rename_noreplace_spec [OF rn ne t]
  show ?thesis
  proof (cases rr)
    case (Inr v)
    then have "h' = h1" "res = Ok ()" using run rn by (auto simp: try_x_def commit_temp_noreplace_def)
    then show ?thesis using rs Inr installed_commit_ok [of r "d @ [s]" "d @ [l]" _ h h1 MustNotExist]
      by auto
  next
    case (Inl e)
    then have same: "same_fs h h1" using rs by auto
    then have t1: "view h1 r (d @ [s]) = Some (FileNode c b a)" using t by (simp add: same_fs_view)
    show ?thesis
    proof (cases "rename_noreplace_unsupported e \<and> e \<noteq> EXIST")
      case True
      then have "commit_ok MustNotExist r (d @ [s]) (d @ [l]) (FileNode c b a) h1 h' \<and>
          (res = Ok () \<longrightarrow> installed r (d @ [s]) (d @ [l]) (FileNode c b a) h1 h')"
        using run rn Inl by (intro link_install [OF t1 ne]) (auto simp: try_x_def)
      then show ?thesis using same_then_commit [OF same] same_then_installed [OF same] by blast
    next
      case False
      then have "h' = h1" "res \<noteq> Ok ()"
        using run rn Inl by (auto simp: try_x_def commit_temp_noreplace_def split: if_splits)
      then show ?thesis using commit_ok_tmp [OF same_tmp [OF same]] ne by simp
    qed
  qed
qed

lemma install_phase:
  assumes t: "view h r (d @ [s]) = Some (FileNode c b a)" and ne: "s \<noteq> l"
    and run: "(case pol of
        MustNotExist \<Rightarrow> try_x (sys_rename_noreplace r (d @ [s]) (d @ [l]))
          (commit_temp_noreplace \<lparr>pd_root = r, pd_segments = d\<rparr> s l)
      | ReplaceExisting \<Rightarrow> call op (sys_rename r (d @ [s]) (d @ [l]))) h = (res, h')"
  shows "commit_ok pol r (d @ [s]) (d @ [l]) (FileNode c b a) h h' \<and>
    (res = Ok () \<longrightarrow> installed r (d @ [s]) (d @ [l]) (FileNode c b a) h h')"
proof (cases pol)
  case MustNotExist
  then show ?thesis using noreplace_install [OF t ne] run by simp
next
  case ReplaceExisting
  obtain rr h1 where rn: "sys_rename r (d @ [s]) (d @ [l]) h = (rr, h1)" by (rule prod.exhaust)
  then have h': "h' = h1" and res: "res = Ok () \<longleftrightarrow> rr = Ok ()"
    using run ReplaceExisting by (cases rr; auto simp: call_def mapErr_x_def)+
  from sys_rename_spec [OF rn ne t] show ?thesis
  proof
    assume "rr = Ok () \<and> leaf_or_none (view h r (d @ [l])) \<and>
      installed r (d @ [s]) (d @ [l]) (FileNode c b a) h h1"
    then show ?thesis using installed_commit_ok [of r "d @ [s]" "d @ [l]" _ h h1 pol] ReplaceExisting
      by (simp add: h')
  next
    assume "(\<exists>e. rr = Err e \<and> e \<noteq> NOENT) \<and> same_fs h h1"
    then show ?thesis using commit_ok_tmp [OF same_tmp, of h h1] ne res by (auto simp: h')
  qed
qed

lemma commit_temp_spec:
  assumes run: "commit_temp d s l pol dur h = (res, h')" and ne: "s \<noteq> l"
    and t: "view h (pd_root d) (child d s) = Some (FileNode c b a)"
  shows "commit_ok pol (pd_root d) (child d s) (child d l) (FileNode c b a) h h'"
    and "res = Ok () \<Longrightarrow> installed (pd_root d) (child d s) (child d l) (FileNode c b a) h h'"
proof -
  let ?n = "FileNode c b a" and ?t = "child d s" and ?q = "child d l" and ?r = "pd_root d"
  have tq: "?t \<noteq> ?q" using ne by (simp add: child_def)
  obtain v h1 where v: "validate_destination d l pol h = (v, h1)" by (rule prod.exhaust)
  have s1: "same_fs h h1" using validate_destination_same v by (rule withinD)
  then have t1: "view h1 ?r ?t = Some ?n" using t by (simp add: same_fs_view)
  let ?phase = "case pol of
      MustNotExist \<Rightarrow> try_x (sys_rename_noreplace ?r ?t ?q) (commit_temp_noreplace d s l)
    | ReplaceExisting \<Rightarrow> call ''atomically rename file'' (sys_rename ?r ?t ?q)"
  obtain p h2 where p: "?phase h1 = (p, h2)" by (rule prod.exhaust)
  have phase: "commit_ok pol ?r ?t ?q ?n h1 h2 \<and> (p = Ok () \<longrightarrow> installed ?r ?t ?q ?n h1 h2)"
    using install_phase [OF t1 [unfolded child_def] ne,
        where pol = pol and op = "''atomically rename file''" and res = p and h' = h2] p
    by (cases pol; cases d) (simp_all add: child_def)
  have "commit_ok pol ?r ?t ?q ?n h h' \<and> (res = Ok () \<longrightarrow> installed ?r ?t ?q ?n h h')"
  proof (cases v)
    case (Inl e)
    obtain cr h3 where c: "cleanup_temp d s h1 = (cr, h3)" by (rule prod.exhaust)
    have "h' = h3" "res \<noteq> Ok ()"
      using run v Inl c cleanup_temp_spec [OF c] by (auto simp: commit_temp_def try_x_def bind_x_def)
    then show ?thesis
      using commit_ok_tmp [OF tmp_only.step_trans [OF same_tmp [OF s1]] tq] cleanup_temp_spec [OF c]
      by simp
  next
    case (Inr u)
    show ?thesis
    proof (cases p)
      case (Inl e)
      obtain cr h3 where c: "cleanup_temp d s h2 = (cr, h3)" by (rule prod.exhaust)
      have "h' = h3" "res \<noteq> Ok ()"
        using run v Inr Inl p c cleanup_temp_spec [OF c]
        by (auto simp: commit_temp_def try_x_def bind_x_def)
      then show ?thesis
        using commit_ok_then_tmp [OF same_then_commit [OF s1 phase [THEN conjunct1]] _ tq]
          cleanup_temp_spec [OF c] by simp
    next
      case (Inr u')
      have "sync_parent d dur h2 = (res, h')"
        using run v \<open>v = Inr u\<close> Inr p by (auto simp: commit_temp_def try_x_def)
      with sync_parent_same have "same_fs h2 h'" by (rule withinD)
      moreover have "commit_ok pol ?r ?t ?q ?n h h2" "installed ?r ?t ?q ?n h h2"
        using phase Inr same_then_commit [OF s1] same_then_installed [OF s1] by auto
      ultimately show ?thesis using commit_ok_then_same installed_then_same by blast
    qed
  qed
  then show "commit_ok pol ?r ?t ?q ?n h h'" "res = Ok () \<Longrightarrow> installed ?r ?t ?q ?n h h'" by auto
qed

section \<open>Streaming\<close>

fun payload :: "read_event list \<Rightarrow> bytes" where
  \<comment> \<open>what a reader delivers before its end or its error\<close>
  "payload [] = []"
| "payload (ReadError k # _) = []"
| "payload (Chunk bs # events) = (if bs = [] then [] else bs @ payload events)"

fun delivers :: "read_event list \<Rightarrow> bool" where
  \<comment> \<open>the reader reaches its end without an error\<close>
  "delivers [] = True"
| "delivers (ReadError k # _) = False"
| "delivers (Chunk bs # events) = (bs = [] \<or> delivers events)"

definition streaming :: "host \<Rightarrow> atomic_write \<Rightarrow> parent_dir \<Rightarrow> bytes \<Rightarrow> file_attr \<Rightarrow> bool" where
  \<comment> \<open>a write in progress: the temporary file holds the bytes that were hashed\<close>
  "streaming h w d c a \<longleftrightarrow>
     aw_parent w = Some d \<and> aw_temp_file w = Some (pd_root d, child d (aw_temp_name w)) \<and>
     aw_progress w = None \<and> aw_hasher w = Some c \<and> aw_streamed_size w = of_nat (length c) \<and>
     (\<exists>b. view h (pd_root d) (child d (aw_temp_name w)) = Some (FileNode c b a))"

lemma on_host_run: "m h = (r, h') \<Longrightarrow> on_host m (h, w) = (r, (h', w))"
  by (simp add: on_host_def)

definition aw_same :: "atomic_write \<Rightarrow> atomic_write \<Rightarrow> bool" where
  "aw_same w w' \<longleftrightarrow> aw_storage w' = aw_storage w \<and> aw_path w' = aw_path w \<and>
     aw_managed w' = aw_managed w \<and> aw_destination w' = aw_destination w \<and>
     aw_parent w' = aw_parent w \<and> aw_leaf w' = aw_leaf w \<and> aw_temp_name w' = aw_temp_name w \<and>
     aw_temp_file w' = aw_temp_file w"

lemma aw_same_refl [simp]: "aw_same w w"
  by (simp add: aw_same_def)

lemma aw_same_trans: "aw_same w w1 \<Longrightarrow> aw_same w1 w2 \<Longrightarrow> aw_same w w2"
  by (simp add: aw_same_def)

lemma aw_same_temp: "aw_same w w' \<Longrightarrow> aw_temp_name w' = aw_temp_name w \<and> aw_parent w' = aw_parent w"
  by (simp add: aw_same_def)

lemma write_chunk_run:
  assumes "aw_progress w = None" "aw_hasher w = Some c" "aw_temp_file w = Some (r, t)"
  shows "write_chunk bs (h, w) =
    (case sys_write r t bs h of
       (Err e, h1) \<Rightarrow> (Err (errno_std ''write temporary file'' e), (h1, w))
     | (Ok _, h1) \<Rightarrow>
         if uint (aw_streamed_size w) + int (length bs) \<ge> 2 ^ 64
         then (Err (InvalidOperation ''stream size overflow''), (h1, w))
         else (Ok (), (h1, w\<lparr>aw_hasher := Some (c @ bs),
                              aw_streamed_size := aw_streamed_size w + of_nat (length bs)\<rparr>)))"
  using assms
  by (cases "sys_write r t bs h"; cases "fst (sys_write r t bs h)")
    (simp_all add: write_chunk_def on_host_def call_std_def mapErr_x_def bind_x_def update_aw_def)

lemma write_chunk_spec:
  assumes w: "streaming h w d c a" and run: "write_chunk bs (h, w) = (res, (h', w'))"
  shows "tmp_only (pd_root d) (child d (aw_temp_name w)) h h'"
    and "aw_same w w'"
    and "res = Ok () \<Longrightarrow> streaming h' w' d (c @ bs) a"
proof -
  let ?t = "child d (aw_temp_name w)"
  obtain sr h1 where sw: "sys_write (pd_root d) ?t bs h = (sr, h1)" by (rule prod.exhaust)
  note spec = sys_write_spec [OF sw [unfolded child_def]]
  have parts: "aw_progress w = None" "aw_hasher w = Some c" "aw_temp_file w = Some (pd_root d, ?t)"
    "aw_streamed_size w = of_nat (length c)"
    using w by (simp_all add: streaming_def)
  let ?w1 = "w\<lparr>aw_hasher := Some (c @ bs), aw_streamed_size := aw_streamed_size w + of_nat (length bs)\<rparr>"
  have "h' = h1 \<and> (res \<noteq> Ok () \<and> w' = w \<or> sr = Ok () \<and> w' = ?w1)"
  proof (cases sr)
    case (Inl e)
    then show ?thesis using run write_chunk_run [OF parts(1-3), of bs h] sw by auto
  next
    case (Inr u)
    then show ?thesis
      using run write_chunk_run [OF parts(1-3), of bs h] sw
      by (cases "uint (aw_streamed_size w) + int (length bs) \<ge> 2 ^ 64") auto
  qed
  then have h': "h' = h1" and w': "w' = w \<or> w' = ?w1" and ok: "res = Ok () \<longrightarrow> sr = Ok () \<and> w' = ?w1"
    by auto
  show "tmp_only (pd_root d) ?t h h'" using spec(1) by (simp add: h' child_def)
  show "aw_same w w'" using w' by (auto simp: aw_same_def)
  show "streaming h' w' d (c @ bs) a" if "res = Ok ()"
    using ok that w spec(2) by (auto simp: streaming_def h' child_def)
qed

lemma write_events_spec:
  assumes "streaming h w d c a" and "write_events evs (h, w) = (res, (h', w'))"
  shows "tmp_only (pd_root d) (child d (aw_temp_name w)) h h' \<and>
    aw_same w w' \<and>
    (res = Ok () \<longrightarrow> streaming h' w' d (c @ payload evs) a \<and> delivers evs)"
  using assms
proof (induction evs arbitrary: h w c)
  case Nil
  then have "res = Ok ()" "h' = h" "w' = w" by simp_all
  then show ?case using Nil.prems(1) by (simp add: tmp_only.step_refl)
next
  case (Cons e evs)
  show ?case
  proof (cases e)
    case (ReadError k)
    then have "res \<noteq> Ok ()" "h' = h" "w' = w" using Cons.prems(2) by auto
    then show ?thesis by (simp add: tmp_only.step_refl)
  next
    case (Chunk bs)
    show ?thesis
    proof (cases "bs = []")
      case True
      then have "res = Ok ()" "h' = h" "w' = w" using Cons.prems(2) Chunk by simp_all
      then show ?thesis using Cons.prems(1) Chunk True by (simp add: tmp_only.step_refl)
    next
      case False
      obtain cr h1 w1 where wc: "write_chunk bs (h, w) = (cr, (h1, w1))" by (metis prod.exhaust)
      note spec = write_chunk_spec [OF Cons.prems(1) wc]
      show ?thesis
      proof (cases cr)
        case (Inl err)
        then have "h' = h1 \<and> w' = w1 \<and> res \<noteq> Ok ()"
          using Cons.prems(2) Chunk False wc by (auto simp: bind_x_def)
        then show ?thesis using spec(1,2) by simp
      next
        case (Inr u)
        then have st: "streaming h1 w1 d (c @ bs) a" using spec(3) by simp
        have rest: "write_events evs (h1, w1) = (res, (h', w'))"
          using Cons.prems(2) Chunk False wc Inr by (simp add: bind_x_def)
        note IH = Cons.IH [OF st rest]
        have "tmp_only (pd_root d) (child d (aw_temp_name w)) h h'"
          using spec(1) IH aw_same_temp [OF spec(2)] tmp_only.step_trans by auto
        then show ?thesis using IH Chunk False aw_same_trans [OF spec(2)] by simp
      qed
    qed
  qed
qed

lemma abort_spec:
  assumes "aw_parent w = Some d" "abort (h, w) = (res, (h', w'))"
  shows "res = Ok () \<and> tmp_only (pd_root d) (child d (aw_temp_name w)) h h'"
proof -
  obtain cr h1 where c: "cleanup_temp d (aw_temp_name w) h = (cr, h1)" by (rule prod.exhaust)
  note cleanup_temp_spec [OF c]
  then show ?thesis using assms c by (auto simp: abort_def update_aw_def on_host_def)
qed

lemma abort_throw:
  assumes "aw_parent w = Some d" "bind_x abort (\<lambda>_. throw_x e) (h, w) = (res, (h', w'))"
  shows "res = Err e \<and> tmp_only (pd_root d) (child d (aw_temp_name w)) h h'"
proof -
  obtain ar h1 w1 where a: "abort (h, w) = (ar, (h1, w1))" by (metis prod.exhaust)
  note abort_spec [OF assms(1) a]
  then show ?thesis using assms(2) a by (auto simp: bind_x_def)
qed

definition payload_ready ::
  "externals \<Rightarrow> host \<Rightarrow> atomic_write \<Rightarrow> parent_dir \<Rightarrow> bytes \<Rightarrow> bool \<Rightarrow> file_attr \<Rightarrow> bool" where
  \<comment> \<open>the stream is complete: size and hash are those of the temporary file\<close>
  "payload_ready x h w d c b a \<longleftrightarrow>
     aw_parent w = Some d \<and> aw_temp_file w = Some (pd_root d, child d (aw_temp_name w)) \<and>
     aw_progress w = Some \<lparr>wp_size = of_nat (length c), wp_content_hash = ContentHash (x_sha256 x c)\<rparr> \<and>
     view h (pd_root d) (child d (aw_temp_name w)) = Some (FileNode c b a)"

lemma finish_run:
  assumes "streaming h w d c a"
  shows "\<exists>w' p b. finish x (h, w) = (Ok p, (h, w')) \<and> payload_ready x h w' d c b a \<and> aw_same w w'"
  using assms
  by (auto simp: finish_def streaming_def payload_ready_def aw_same_def update_aw_def Let_def)

lemma write_from_spec:
  assumes w: "streaming h w d [] a" and run: "write_from x reader (h, w) = (res, (h', w'))"
  shows "tmp_only (pd_root d) (child d (aw_temp_name w)) h h'"
    and "res = Ok p \<Longrightarrow> aw_same w w' \<and> delivers reader \<and> (\<exists>b. payload_ready x h' w' d (payload reader) b a)"
proof -
  obtain er h1 w1 where e: "write_events reader (h, w) = (er, (h1, w1))" by (metis prod.exhaust)
  note spec = write_events_spec [OF w e, simplified]
  have none: "aw_progress w = None" and par: "aw_parent w = Some d" using w by (simp_all add: streaming_def)
  have "tmp_only (pd_root d) (child d (aw_temp_name w)) h h' \<and>
    (\<forall>p. res = Ok p \<longrightarrow> aw_same w w' \<and> delivers reader \<and>
       (\<exists>b. payload_ready x h' w' d (payload reader) b a))"
  proof (cases er)
    case (Inl err)
    then have "bind_x abort (\<lambda>_. throw_x err) (h1, w1) = (res, (h', w'))"
      using run none e by (simp add: write_from_def catch_x_def bind_x_def)
    moreover have "aw_parent w1 = Some d" using spec par by (simp add: aw_same_def)
    ultimately have "res = Err err \<and> tmp_only (pd_root d) (child d (aw_temp_name w1)) h1 h'"
      by (metis abort_throw)
    then show ?thesis using spec aw_same_temp tmp_only.step_trans by auto
  next
    case (Inr u)
    then have st: "streaming h1 w1 d (payload reader) a" and del: "delivers reader" using spec by auto
    obtain w2 p b where f: "finish x (h1, w1) = (Ok p, (h1, w2))"
      "payload_ready x h1 w2 d (payload reader) b a" "aw_same w1 w2"
      using finish_run [OF st] by blast
    have "h' = h1" "w' = w2"
      using run none e Inr f(1) by (simp_all add: write_from_def catch_x_def bind_x_def)
    then show ?thesis using spec f(2,3) del aw_same_trans by blast
  qed
  then show "tmp_only (pd_root d) (child d (aw_temp_name w)) h h'"
    and "res = Ok p \<Longrightarrow> aw_same w w' \<and> delivers reader \<and> (\<exists>b. payload_ready x h' w' d (payload reader) b a)"
    by auto
qed

lemma sync_file_spec:
  assumes "sync_file dur (pd_root d, child d s) h = (res, h')"
  shows "tmp_only (pd_root d) (child d s) h h'"
    and "res = Ok () \<Longrightarrow> view h (pd_root d) (child d s) = Some (FileNode c b a) \<Longrightarrow>
      \<exists>b'. view h' (pd_root d) (child d s) = Some (FileNode c b' a) \<and> (dur \<noteq> NoSync \<longrightarrow> b')"
proof -
  obtain sr h1 where sy: "sys_sync_file (pd_root d) (child d s) h = (sr, h1)" by (rule prod.exhaust)
  note spec = sys_sync_spec [OF sy [unfolded child_def]]
  have "dur = NoSync \<and> h' = h \<or> dur \<noteq> NoSync \<and> h' = h1 \<and> (res = Ok () \<longrightarrow> sr = Ok ())"
    using assms sy by (cases dur; cases sr) (auto simp: sync_file_def call_std_def mapErr_x_def)
  then show "tmp_only (pd_root d) (child d s) h h'"
    and "res = Ok () \<Longrightarrow> view h (pd_root d) (child d s) = Some (FileNode c b a) \<Longrightarrow>
      \<exists>b'. view h' (pd_root d) (child d s) = Some (FileNode c b' a) \<and> (dur \<noteq> NoSync \<longrightarrow> b')"
    using spec by (auto simp: child_def tmp_only.step_refl)
qed

lemma sync_spec:
  assumes w: "payload_ready x h w d c b a" and run: "sync (h, w) = (res, (h', w'))"
  shows "tmp_only (pd_root d) (child d (aw_temp_name w)) h h'"
    and "res = Ok () \<Longrightarrow> aw_same w w' \<and> aw_synced w' \<and>
      (\<exists>b'. payload_ready x h' w' d c b' a \<and> (durability (vs_options (aw_storage w)) \<noteq> NoSync \<longrightarrow> b'))"
proof -
  let ?dur = "durability (vs_options (aw_storage w))"
  obtain sr h1 where sy: "sync_file ?dur (pd_root d, child d (aw_temp_name w)) h = (sr, h1)" by (rule prod.exhaust)
  note spec = sync_file_spec [OF sy]
  have parts: "aw_progress w \<noteq> None" "aw_temp_file w = Some (pd_root d, child d (aw_temp_name w))"
    "aw_parent w = Some d" "view h (pd_root d) (child d (aw_temp_name w)) = Some (FileNode c b a)"
    using w by (simp_all add: payload_ready_def)
  have "tmp_only (pd_root d) (child d (aw_temp_name w)) h h' \<and>
    (res = Ok () \<longrightarrow> aw_same w w' \<and> aw_synced w' \<and>
      (\<exists>b'. payload_ready x h' w' d c b' a \<and> (?dur \<noteq> NoSync \<longrightarrow> b')))"
  proof (cases sr)
    case (Inl err)
    then have "bind_x abort (\<lambda>_. throw_x err) (h1, w) = (res, (h', w'))"
      using run parts sy by (simp add: sync_def try_x_def on_host_def)
    from abort_throw [OF parts(3) this] show ?thesis
      using spec(1) tmp_only.step_trans by auto
  next
    case (Inr u)
    then have "h' = h1" "w' = w\<lparr>aw_synced := True\<rparr>" "sr = Ok ()"
      using run parts sy by (simp_all add: sync_def try_x_def on_host_def update_aw_def)
    then show ?thesis
      using spec(1) spec(2) [OF _ parts(4)] w by (auto simp: aw_same_def payload_ready_def)
  qed
  then show "tmp_only (pd_root d) (child d (aw_temp_name w)) h h'"
    and "res = Ok () \<Longrightarrow> aw_same w w' \<and> aw_synced w' \<and>
      (\<exists>b'. payload_ready x h' w' d c b' a \<and> (?dur \<noteq> NoSync \<longrightarrow> b'))" by auto
qed

section \<open>The whole write\<close>

definition frame_except :: "(host_root \<times> string list) set \<Rightarrow> host \<Rightarrow> host \<Rightarrow> bool" where
  "frame_except S h h' \<longleftrightarrow> (\<forall>r q. (r, q) \<notin> S \<longrightarrow> view h' r q = view h r q)"

interpretation frame_except: step_order "frame_except S" for S
  by unfold_locales (auto simp: frame_except_def)

lemma frame_intros:
  "same_fs h h' \<Longrightarrow> frame_except S h h'"
  "root_step r h h' \<Longrightarrow> (r, []) \<in> S \<Longrightarrow> frame_except S h h'"
  "tmp_only r t h h' \<Longrightarrow> (r, t) \<in> S \<Longrightarrow> frame_except S h h'"
  "commit_ok pol r t q n h h' \<Longrightarrow> (r, t) \<in> S \<Longrightarrow> (r, q) \<in> S \<Longrightarrow> frame_except S h h'"
proof -
  show "same_fs h h' \<Longrightarrow> frame_except S h h'" by (simp add: frame_except_def same_fs_view)
  show "root_step r h h' \<Longrightarrow> (r, []) \<in> S \<Longrightarrow> frame_except S h h'"
  proof -
    assume step: "root_step r h h'" and "(r, []) \<in> S"
    then have "(r', q) \<noteq> (r, [])" if "(r', q) \<notin> S" for r' q using that by auto
    with root_step_view(1) [OF step] show "frame_except S h h'" unfolding frame_except_def by blast
  qed
  show "tmp_only r t h h' \<Longrightarrow> (r, t) \<in> S \<Longrightarrow> frame_except S h h'"
    by (auto simp: frame_except_def tmp_only_def)
  show "commit_ok pol r t q n h h' \<Longrightarrow> (r, t) \<in> S \<Longrightarrow> (r, q) \<in> S \<Longrightarrow> frame_except S h h'"
    by (auto simp: frame_except_def commit_ok_def)
qed

lemma frame_viewD: "frame_except S h h' \<Longrightarrow> (r, q) \<notin> S \<Longrightarrow> view h' r q = view h r q"
  by (simp add: frame_except_def)

lemma prepare_temp_spec:
  assumes "prepare_temp d t h = (res, h')"
  shows "tmp_only (pd_root d) (child d t) h h'"
    and "res = Ok () \<Longrightarrow> view h (pd_root d) (child d t) = None \<and>
      (\<exists>a. view h' (pd_root d) (child d t) = Some (FileNode [] False a))"
proof -
  obtain cr h1 where c: "sys_create_excl (pd_root d) (pd_segments d @ [t]) h = (cr, h1)" by (rule prod.exhaust)
  have "prepare_temp d t h = (map_err (errno_error ''create temporary file'') cr, h1)"
    unfolding prepare_temp_def child_def call_def mapErr_x_def c by simp
  then have "h' = h1" "res = Ok () \<longrightarrow> cr = Ok ()" using assms by auto
  then show "tmp_only (pd_root d) (child d t) h h'"
    and "res = Ok () \<Longrightarrow> view h (pd_root d) (child d t) = None \<and>
      (\<exists>a. view h' (pd_root d) (child d t) = Some (FileNode [] False a))"
    using sys_create_excl_spec [OF c] by (auto simp: child_def)
qed

definition begun ::
  "vault_storage \<Rightarrow> vault_path \<Rightarrow> destination_policy \<Rightarrow> bool \<Rightarrow> string \<Rightarrow> atomic_write \<Rightarrow> parent_dir \<Rightarrow> bool" where
  "begun st p pol managed t w d \<longleftrightarrow>
     aw_storage w = st \<and> aw_path w = p \<and> aw_destination w = pol \<and> aw_managed w = managed \<and>
     aw_temp_name w = t \<and> aw_parent w = Some d \<and> pd_root d = vs_root st \<and>
     segments p \<noteq> [] \<and> child d (aw_leaf w) = segments p \<and> pd_segments d = butlast (segments p)"

lemma prepared_write_spec:
  assumes run: "bind_x (open_parent_with_leaf (vs_root st) p False) (\<lambda>(d, leaf).
      bind_x (prepare_temp d t) (\<lambda>_. return_x \<lparr>aw_storage = st, aw_path = p, aw_managed = managed,
        aw_destination = pol, aw_parent = Some d, aw_leaf = leaf, aw_temp_name = t,
        aw_temp_file = Some (pd_root d, child d t), aw_progress = None, aw_hasher = Some [],
        aw_streamed_size = 0, aw_synced = False\<rparr>)) h = (res, h')"
    and S: "(vs_root st, butlast (segments p) @ [t]) \<in> S"
  shows "frame_except S h h' \<and>
    (\<forall>w. res = Ok w \<longrightarrow> (\<exists>d a. begun st p pol managed t w d \<and> streaming h' w d [] a))"
  using run
proof (cases rule: bind_x_cases)
  case (err e)
  then show ?thesis using withinD [OF open_parent_same err(1)] by (simp add: frame_intros(1))
next
  case (ok y h1)
  obtain d leaf where y: "y = (d, leaf)" by (cases y)
  note op = open_parent_Ok [OF ok(1) [unfolded y]]
  have loc: "child d t = butlast (segments p) @ [t]" using op by (simp add: child_def)
  have f1: "frame_except S h h1" using op by (simp add: frame_intros(1))
  have rest: "bind_x (prepare_temp d t) (\<lambda>_. return_x \<lparr>aw_storage = st, aw_path = p,
        aw_managed = managed, aw_destination = pol, aw_parent = Some d, aw_leaf = leaf,
        aw_temp_name = t, aw_temp_file = Some (pd_root d, child d t), aw_progress = None,
        aw_hasher = Some [], aw_streamed_size = 0, aw_synced = False\<rparr>) h1 = (res, h')"
    using ok(2) y by simp
  then show ?thesis
  proof (cases rule: bind_x_cases)
    case (err e)
    have "frame_except S h1 h'" using prepare_temp_spec(1) [OF err(1)] S op by (simp add: loc frame_intros(3))
    then show ?thesis using f1 err(2) frame_except.step_trans by blast
  next
    case (ok u h2)
    note ts = prepare_temp_spec [OF ok(1)]
    have "h' = h2" and res: "res = Ok \<lparr>aw_storage = st, aw_path = p,
        aw_managed = managed, aw_destination = pol, aw_parent = Some d, aw_leaf = leaf,
        aw_temp_name = t, aw_temp_file = Some (pd_root d, child d t), aw_progress = None,
        aw_hasher = Some [], aw_streamed_size = 0, aw_synced = False\<rparr>"
      using ok(2) by auto
    moreover have "frame_except S h1 h2" using ts(1) S op by (simp add: loc frame_intros(3))
    moreover obtain a where "view h2 (pd_root d) (child d t) = Some (FileNode [] False a)"
      using ts(2) by auto
    ultimately show ?thesis
      using f1 frame_except.step_trans op by (auto simp: begun_def streaming_def)
  qed
qed

lemma begin_spec:
  assumes run: "begin_atomic_write_at x st p pol tp managed h = (res, h')"
    and t: "file_name (as_path tp) = Some t"
    and S: "(vs_root st, []) \<in> S" "(vs_root st, butlast (segments p) @ [t]) \<in> S"
  shows "frame_except S h h' \<and>
    (\<forall>w. res = Ok w \<longrightarrow> (\<exists>d a. begun st p pol managed t w d \<and> streaming h' w d [] a))"
  using run [unfolded begin_atomic_write_at_def]
proof (cases rule: bind_x_cases)
  case (err e)
  then show ?thesis by (simp add: frame_except.step_refl)
next
  case (ok u h0)
  then have h0: "h0 = h" by simp
  show ?thesis
  proof (cases "parent p = parent (as_path tp)")
    case False
    then show ?thesis using ok h0 by (auto simp: frame_except.step_refl)
  next
    case True
    have "bind_x (ensure_root st) (\<lambda>_. bind_x (ensure_free_space (vs_options st)) (\<lambda>_.
        bind_x (open_parent_with_leaf (vs_root st) p False) (\<lambda>(d, leaf).
        bind_x (prepare_temp d t) (\<lambda>_. return_x \<lparr>aw_storage = st, aw_path = p, aw_managed = managed,
          aw_destination = pol, aw_parent = Some d, aw_leaf = leaf, aw_temp_name = t,
          aw_temp_file = Some (pd_root d, child d t), aw_progress = None, aw_hasher = Some [],
          aw_streamed_size = 0, aw_synced = False\<rparr>)))) h = (res, h')"
      using ok(2) True t h0 by simp
    then show ?thesis
    proof (cases rule: bind_x_cases)
      case (err e)
      then show ?thesis using frame_intros(2) [OF withinD [OF ensure_root_step err(1)] S(1)] by simp
    next
      case (ok u1 h1)
      have f1: "frame_except S h h1"
        using frame_intros(2) [OF withinD [OF ensure_root_step ok(1)] S(1)] .
      from ok(2) show ?thesis
      proof (cases rule: bind_x_cases)
        case (err e)
        then have "frame_except S h1 h'" using frame_intros(1) [OF withinD [OF free_space_same err(1)]] by simp
        then show ?thesis using f1 err(2) frame_except.step_trans by blast
      next
        case (ok u2 h2)
        have "frame_except S h1 h2" using frame_intros(1) [OF withinD [OF free_space_same ok(1)]] .
        then show ?thesis
          using f1 prepared_write_spec [OF ok(2) S(2)] frame_except.step_trans by blast
      qed
    qed
  qed
qed

lemma stream_spec:
  assumes w: "streaming h w d [] a"
    and run: "with_write w (bind_x (write_from x reader) (\<lambda>_. sync)) h = (res, h')"
  shows "tmp_only (pd_root d) (child d (aw_temp_name w)) h h' \<and>
    (\<forall>u w'. res = Ok (u, w') \<longrightarrow> aw_same w w' \<and> aw_synced w' \<and> delivers reader \<and>
       (\<exists>b. payload_ready x h' w' d (payload reader) b a \<and>
          (durability (vs_options (aw_storage w)) \<noteq> NoSync \<longrightarrow> b)))"
proof -
  obtain r h1 w1 where r: "bind_x (write_from x reader) (\<lambda>_. sync) (h, w) = (r, (h1, w1))"
    by (metis prod.exhaust)
  have h1: "h' = h1" and res: "res = map_sum id (\<lambda>u. (u, w1)) r"
    using run r by (auto simp: with_write_def)
  from r show ?thesis
  proof (cases rule: bind_x_cases)
    case (err e)
    then show ?thesis using write_from_spec(1) [OF w err(1)] h1 res by simp
  next
    case (ok pr s2)
    obtain h2 w2 where s2: "s2 = (h2, w2)" by (cases s2)
    note wf = write_from_spec [OF w ok(1) [unfolded s2]]
    obtain b where ready: "payload_ready x h2 w2 d (payload reader) b a" and same: "aw_same w w2"
      and del: "delivers reader" using wf(2) by blast
    note sy = sync_spec [OF ready ok(2) [unfolded s2]]
    have st: "aw_storage w2 = aw_storage w" "aw_temp_name w2 = aw_temp_name w"
      using same by (simp_all add: aw_same_def)
    have "tmp_only (pd_root d) (child d (aw_temp_name w)) h h'"
      using wf(1) sy(1) h1 st tmp_only.step_trans by auto
    then show ?thesis
      using sy(2) aw_same_trans [OF same] del by (cases r) (auto simp: res h1 st)
  qed
qed

lemma stat_step: "within (root_step (vs_root st)) (stat x st p managed)"
  unfolding stat_def
  by (auto intro!: root_step.within_core ensure_root_step same_root [OF open_root_same]
      same_root [OF call_same(2) [OF reads_same_fs(6)]] same_root [OF open_parent_same]
      same_root [OF entry_kind_same] same_root [OF metadata_at_same]
      split: option.splits)

definition old_or_new ::
  "destination_policy \<Rightarrow> durability_policy \<Rightarrow> host_root \<Rightarrow> string list \<Rightarrow> bytes \<Rightarrow> host \<Rightarrow> host \<Rightarrow> bool" where
  "old_or_new pol dur r q c h h' \<longleftrightarrow>
     view h' r q = view h r q \<or>
     (\<exists>b a. view h' r q = Some (FileNode c b a) \<and> (dur \<noteq> NoSync \<longrightarrow> b) \<and>
       (if pol = MustNotExist then view h r q = None else leaf_or_none (view h r q)))"

lemma old_or_new_frame:
  "frame_except S h h1 \<Longrightarrow> (r, q) \<notin> S \<Longrightarrow> old_or_new pol dur r q c h1 h' \<Longrightarrow> old_or_new pol dur r q c h h'"
  by (drule (1) frame_viewD) (auto simp: old_or_new_def split: if_splits)

lemma old_or_new_refl: "frame_except S h h' \<Longrightarrow> (r, q) \<notin> S \<Longrightarrow> old_or_new pol dur r q c h h'"
  by (simp add: old_or_new_def frame_viewD)

lemma commit_spec:
  assumes w: "payload_ready x h w d c b a" "aw_synced w" "begun st p pol managed t w d"
    and ne: "t \<noteq> last (segments p)" and b: "durability (vs_options st) \<noteq> NoSync \<longrightarrow> b"
    and S: "S = {(vs_root st, []), (vs_root st, butlast (segments p) @ [t]), (vs_root st, segments p)}"
    and run: "commit x w h = (res, h')"
  shows "frame_except S h h' \<and>
    old_or_new pol (durability (vs_options st)) (vs_root st) (segments p) c h h' \<and>
    (\<forall>rec. res = Ok rec \<longrightarrow> view h' (vs_root st) (segments p) = Some (FileNode c b a) \<and>
       view h' (vs_root st) (butlast (segments p) @ [t]) = None \<and>
       wr_size rec = of_nat (length c) \<and> wr_content_hash rec = ContentHash (x_sha256 x c))"
proof -
  let ?r = "vs_root st" and ?q = "segments p" and ?t = "butlast (segments p) @ [t]"
  let ?dur = "durability (vs_options st)"
  have leaf: "aw_leaf w = last ?q" and qn: "?q \<noteq> []" and r: "pd_root d = ?r"
    and q: "child d (aw_leaf w) = ?q" and tt: "child d (aw_temp_name w) = ?t" and tn: "aw_temp_name w = t"
    and dest: "aw_destination w = pol"
    using w(3) by (auto simp: begun_def child_def dest: arg_cong [where f = last])
  have tq: "?t \<noteq> ?q" using ne by (metis last_snoc)
  have v: "view h (pd_root d) (child d (aw_temp_name w)) = Some (FileNode c b a)"
    and st: "aw_storage w = st"
    using w by (simp_all add: payload_ready_def begun_def)
  have run1: "bind_x (commit_temp d (aw_temp_name w) (aw_leaf w) pol ?dur) (\<lambda>_.
      bind_x (stat x st (aw_path w) (aw_managed w)) (\<lambda>metadata.
        return_x \<lparr>wr_path = aw_path w, wr_size = of_nat (length c),
          wr_content_hash = ContentHash (x_sha256 x c), wr_metadata = metadata\<rparr>)) h = (res, h')"
    using run w(1,2) st dest by (simp add: commit_def payload_ready_def)
  have step: "frame_except S h h1 \<and> old_or_new pol ?dur ?r ?q c h h1"
    and inst: "cr = Ok () \<Longrightarrow> view h1 ?r ?q = Some (FileNode c b a) \<and> view h1 ?r ?t = None"
    if cr: "commit_temp d (aw_temp_name w) (aw_leaf w) pol ?dur h = (cr, h1)" for cr h1
  proof -
    have ne': "aw_temp_name w \<noteq> aw_leaf w" using ne by (simp add: tn leaf)
    note spec = commit_temp_spec [OF cr ne' v, unfolded r q tt]
    show "frame_except S h h1 \<and> old_or_new pol ?dur ?r ?q c h h1"
      using frame_intros(4) [OF spec(1)] spec(1) b by (auto simp: S old_or_new_def commit_ok_def)
    show "cr = Ok () \<Longrightarrow> view h1 ?r ?q = Some (FileNode c b a) \<and> view h1 ?r ?t = None"
      using spec(2) tq by (auto simp: installed_def)
  qed
  from run1 show ?thesis
  proof (cases rule: bind_x_cases)
    case (err e)
    then show ?thesis using step [OF err(1)] by simp
  next
    case (ok u h1)
    have cr: "commit_temp d (aw_temp_name w) (aw_leaf w) pol ?dur h = (Ok (), h1)" using ok(1) by simp
    obtain sr h2 where sr: "stat x st (aw_path w) (aw_managed w) h1 = (sr, h2)" by (rule prod.exhaust)
    have h2: "h' = h2" and rec: "\<forall>rec. res = Ok rec \<longrightarrow> wr_size rec = of_nat (length c) \<and>
        wr_content_hash rec = ContentHash (x_sha256 x c)"
      using ok(2) sr by (cases sr; auto simp: bind_x_def)+
    have rs: "root_step ?r h1 h'" unfolding h2 using stat_step sr by (rule withinD)
    have same: "view h' ?r z = view h1 ?r z" if "z \<noteq> []" for z
      using root_step_view(1) [OF rs, of ?r z] that by simp
    have "frame_except S h1 h'" using rs by (rule frame_intros(2)) (simp add: S)
    then have "frame_except S h h'" using step [OF cr] frame_except.step_trans by blast
    then show ?thesis
      using step [OF cr] inst [OF cr] same [of ?q] same [of ?t] qn rec by (auto simp: old_or_new_def)
  qed
qed

text \<open>
  C29: The atomic write of the filesystem adapter (\<^verbatim>\<open>VaultStorage::write_atomic\<close>), under every
  schedule of I/O errors and every crash point: the destination keeps the entry it had or holds
  exactly the bytes the reader delivered (flushed, unless syncing is switched off), with
  \<open>MustNotExist\<close> an existing entry is never replaced and with \<open>ReplaceExisting\<close> a directory never
  is, and nothing but the destination, the temporary name and a missing content root changes. When
  it reports success the destination holds the reader's complete bytes, the temporary name is gone
  and the receipt carries their length and SHA-256.
\<close>

theorem write_atomic_all_or_nothing:
  assumes run: "write_atomic x st p simple reader pol h = (res, h')"
    and tmp: "temporary_path_for x st p False simple = Ok tp" "file_name (as_path tp) = Some t"
    and fresh: "t \<noteq> last (segments p)" and p: "segments p \<noteq> []"
  shows "(\<forall>r q. (r, q) \<notin> {(vs_root st, []), (vs_root st, butlast (segments p) @ [t]), (vs_root st, segments p)} \<longrightarrow>
            view h' r q = view h r q) \<and>
    (view h' (vs_root st) (segments p) = view h (vs_root st) (segments p) \<or>
     (\<exists>durable a. view h' (vs_root st) (segments p) = Some (FileNode (payload reader) durable a) \<and>
        (durability (vs_options st) \<noteq> NoSync \<longrightarrow> durable) \<and>
        (if pol = MustNotExist then view h (vs_root st) (segments p) = None
         else leaf_or_none (view h (vs_root st) (segments p))))) \<and>
    (\<forall>rec. res = Ok rec \<longrightarrow> delivers reader \<and>
       (\<exists>durable a. view h' (vs_root st) (segments p) = Some (FileNode (payload reader) durable a)) \<and>
       view h' (vs_root st) (butlast (segments p) @ [t]) = None \<and>
       wr_size rec = of_nat (length (payload reader)) \<and>
       wr_content_hash rec = ContentHash (x_sha256 x (payload reader)))"
proof -
  let ?r = "vs_root st" and ?q = "segments p" and ?t = "butlast (segments p) @ [t]"
  let ?S = "{(?r, []), (?r, ?t), (?r, ?q)}" and ?T = "{(?r, []), (?r, ?t)}"
  let ?dur = "durability (vs_options st)"
  have tq: "?t \<noteq> ?q" using fresh by (metis last_snoc)
  have widen: "frame_except ?S a b" if "frame_except ?T a b" for a b
    using that by (auto simp: frame_except_def)
  have q: "(?r, ?q) \<notin> ?T" using p tq by simp
  have "frame_except ?S h h' \<and> old_or_new pol ?dur ?r ?q (payload reader) h h' \<and>
    (\<forall>rec. res = Ok rec \<longrightarrow> delivers reader \<and>
       (\<exists>durable a. view h' ?r ?q = Some (FileNode (payload reader) durable a)) \<and> view h' ?r ?t = None \<and>
       wr_size rec = of_nat (length (payload reader)) \<and>
       wr_content_hash rec = ContentHash (x_sha256 x (payload reader)))"
  proof -
    have "bind_x (begin_atomic_write_at x st p pol tp False) (\<lambda>w.
        bind_x (with_write w (bind_x (write_from x reader) (\<lambda>_. sync))) (\<lambda>(_, w'). commit x w')) h = (res, h')"
      using run tmp(1) by (simp add: write_atomic_def)
    then show ?thesis
    proof (cases rule: bind_x_cases)
      case (err e)
      then have "frame_except ?T h h'" using begin_spec [OF err(1) tmp(2)] by simp
      then show ?thesis using widen old_or_new_refl [OF _ q] err(2) by blast
    next
      case (ok w h1)
      have f1: "frame_except ?T h h1" using begin_spec [OF ok(1) tmp(2)] by simp
      obtain d a where w: "begun st p pol False t w d" "streaming h1 w d [] a"
        using begin_spec [OF ok(1) tmp(2), of "?T"] by auto
      have loc: "pd_root d = ?r" "child d (aw_temp_name w) = ?t" "aw_storage w = st"
        using w(1) by (simp_all add: begun_def child_def)
      from ok(2) show ?thesis
      proof (cases rule: bind_x_cases)
        case (err e)
        then have "frame_except ?T h1 h'"
          using stream_spec [OF w(2) err(1)] loc frame_intros(3) by auto
        then have "frame_except ?T h h'" using f1 frame_except.step_trans by blast
        then show ?thesis using widen old_or_new_refl [OF _ q] err(2) by blast
      next
        case (ok y h2)
        obtain u w' where y: "y = (u, w')" by (cases y)
        note spec = stream_spec [OF w(2) ok(1)]
        have "frame_except ?T h1 h2" using spec loc frame_intros(3) by auto
        then have f2: "frame_except ?T h h2" using f1 frame_except.step_trans by blast
        obtain b where b: "payload_ready x h2 w' d (payload reader) b a" "aw_synced w'" "aw_same w w'"
          "delivers reader" "?dur \<noteq> NoSync \<longrightarrow> b"
          using spec y loc(3) by auto
        have "begun st p pol False t w' d" using w(1) b(3) by (simp add: begun_def aw_same_def)
        from commit_spec [OF b(1,2) this fresh b(5) refl, of res h'] ok(2) y
        show ?thesis
          using b(4) widen [OF f2] frame_except.step_trans old_or_new_frame [OF f2 q] by auto
      qed
    qed
  qed
  then show ?thesis by (auto simp: frame_except_def old_or_new_def)
qed

section \<open>Success on a healthy host\<close>

definition quiet :: "host \<Rightarrow> bool" where
  "quiet h \<longleftrightarrow> h_faults h = [] \<and> \<not> h_stopped h"

definition succeeds :: "(host, 'e, 'a) prog \<Rightarrow> host \<Rightarrow> ('a \<Rightarrow> host \<Rightarrow> bool) \<Rightarrow> bool" where
  "succeeds m h P \<longleftrightarrow> (\<exists>y h'. m h = (Ok y, h') \<and> quiet h' \<and> P y h')"

lemma succeedsI: "m h = (Ok y, h') \<Longrightarrow> quiet h' \<Longrightarrow> P y h' \<Longrightarrow> succeeds m h P"
  by (auto simp: succeeds_def)

lemma succeeds_bind:
  "succeeds m h Q \<Longrightarrow> (\<And>y h1. quiet h1 \<Longrightarrow> Q y h1 \<Longrightarrow> succeeds (f y) h1 P) \<Longrightarrow> succeeds (bind_x m f) h P"
  unfolding succeeds_def by (metis bind_x_Ok)

lemma succeeds_call:
  "succeeds m h P \<Longrightarrow> succeeds (call op m) h P" "succeeds m h P \<Longrightarrow> succeeds (call_std op m) h P"
  by (auto simp: succeeds_def)

lemma succeeds_return: "quiet h \<Longrightarrow> P y h \<Longrightarrow> succeeds (return_x y) h P"
  by (rule succeedsI) simp_all

lemma quiet_syscall [simp]: "quiet h \<Longrightarrow> syscall partial act h = act h"
  by (simp add: syscall_def quiet_def)

lemma quiet_updates [simp]:
  "quiet (host_put r p v h) = quiet h" "quiet (next_inode h) = quiet h" "quiet (set_root r v h) = quiet h"
  "quiet (move_node r p q n h) = quiet h"
  by (auto simp: quiet_def host_put_def next_inode_def set_root_def move_node_def split: option.splits)

lemma quiet_append [simp]: "quiet (append_bytes r p bs h) = quiet h"
  by (auto simp: append_bytes_def split: option.splits node.splits)

lemma host_dir_prefix: "host_dir h r (p @ q) \<Longrightarrow> host_dir h r p"
proof (cases q)
  case (Cons s ss)
  assume "host_dir h r (p @ q)"
  then have "host_at h r (p @ s # ss) \<noteq> None" using Cons by (auto simp: host_dir_def split: option.splits)
  then obtain n where n: "host_at h r p = Some n" "node_at n (s # ss) \<noteq> None"
    by (auto simp: host_at_def node_at_append split: option.splits)
  then show ?thesis by (cases n) (simp_all add: host_dir_def)
qed simp

lemma open_dir_quiet: "quiet h \<Longrightarrow> host_dir h r p \<Longrightarrow> sys_open_dir r p h = (Ok (), h)"
  by (auto simp: sys_open_dir_def host_dir_def split: option.splits node.splits)

lemma root_kind_quiet: "quiet h \<Longrightarrow> host_dir h r [] \<Longrightarrow> sys_root_kind r h = (Ok Directory, h)"
  by (auto simp: sys_root_kind_def host_dir_def host_at_def split: option.splits elim: is_dir.elims)

lemma open_root_quiet: "quiet h \<Longrightarrow> host_dir h r [] \<Longrightarrow> open_root r h = (Ok (), h)"
  by (simp add: open_root_def root_kind_quiet open_dir_quiet bind_x_def call_def call_std_def mapErr_x_def)

lemma ensure_root_quiet: "quiet h \<Longrightarrow> host_dir h (vs_root st) [] \<Longrightarrow> ensure_root st h = (Ok (), h)"
  by (simp add: ensure_root_def ensure_directory_root_def root_kind_quiet open_root_quiet bind_x_def try_x_def)

lemma free_space_quiet:
  "quiet h \<Longrightarrow> minimum_free_bytes opts \<le> h_available h \<Longrightarrow> ensure_free_space opts h = (Ok (), h)"
  by (simp add: ensure_free_space_def disk_space_for_def sys_free_space_def sys_total_space_def
      bind_x_def call_std_def mapErr_x_def not_less)

lemma open_parents_quiet:
  assumes "quiet h" "host_dir h (pd_root d) (pd_segments d @ ss)"
  shows "open_parents create d ss h = (Ok (d\<lparr>pd_segments := pd_segments d @ ss\<rparr>), h)"
  using assms(2)
proof (induction ss arbitrary: d)
  case (Cons s ss)
  have "host_dir h (pd_root d) (child d s)"
    using Cons.prems host_dir_prefix [of h "pd_root d" "child d s" ss] by (simp add: child_def)
  then have "open_child_directory d s h = (Ok (d\<lparr>pd_segments := child d s\<rparr>), h)"
    using assms(1) by (simp add: open_child_directory_def open_dir_quiet bind_x_def call_def mapErr_x_def)
  then show ?case using Cons by (simp add: try_x_def child_def)
qed simp

lemma open_parent_quiet:
  assumes "quiet h" "host_dir h r (butlast (segments p))" "segments p \<noteq> []"
  shows "open_parent_with_leaf r p create h =
    (Ok (\<lparr>pd_root = r, pd_segments = butlast (segments p)\<rparr>, last (segments p)), h)"
proof -
  have "host_dir h r []" using assms(2) host_dir_prefix [of h r "[]" "butlast (segments p)"] by simp
  then show ?thesis
    using assms open_parents_quiet [of h "\<lparr>pd_root = r, pd_segments = []\<rparr>" "butlast (segments p)" create]
    by (simp add: open_parent_with_leaf_def open_root_quiet bind_x_def)
qed

lemma entry_kind_quiet:
  "quiet h \<Longrightarrow> entry_kind_at d s h = (Ok (map_option kind_of (view h (pd_root d) (child d s))), h)"
  by (simp add: entry_kind_at_def sys_stat_def try_x_def view_def split: option.splits)

lemma validate_destination_quiet:
  "quiet h \<Longrightarrow> view h (pd_root d) (child d s) = None \<or>
     pol = ReplaceExisting \<and> (\<exists>c b a. view h (pd_root d) (child d s) = Some (FileNode c b a)) \<Longrightarrow>
   validate_destination d s pol h = (Ok (), h)"
  by (auto simp: validate_destination_def entry_kind_quiet bind_x_def)

lemma begin_quiet:
  assumes "quiet h" "validate_write_path_for x st p managed = Ok ()"
    and "parent p = parent (as_path tp)" "file_name (as_path tp) = Some t" "segments p \<noteq> []"
    and "host_dir h (vs_root st) (butlast (segments p))"
    and "view h (vs_root st) (butlast (segments p) @ [t]) = None"
    and "minimum_free_bytes (vs_options st) \<le> h_available h"
  shows "\<exists>w h1. begin_atomic_write_at x st p pol tp managed h = (Ok w, h1) \<and> quiet h1"
proof -
  have root: "host_dir h (vs_root st) []"
    using assms(6) host_dir_prefix [of h "vs_root st" "[]" "butlast (segments p)"] by simp
  have create: "\<exists>h1. sys_create_excl (vs_root st) (butlast (segments p) @ [t]) h = (Ok (), h1) \<and> quiet h1"
    using assms(1,6,7) by (simp add: sys_create_excl_def view_None)
  then obtain h1 where "sys_create_excl (vs_root st) (butlast (segments p) @ [t]) h = (Ok (), h1)" "quiet h1"
    by blast
  then show ?thesis
    using assms root
    by (simp add: begin_atomic_write_at_def bind_x_def ensure_root_quiet free_space_quiet
        open_parent_quiet prepare_temp_def child_def call_def mapErr_x_def)
qed

lemma write_chunk_quiet:
  assumes "streaming h w d c a" "quiet h" "length c + length bs < 2 ^ 64"
  shows "\<exists>h' w'. write_chunk bs (h, w) = (Ok (), (h', w')) \<and> quiet h'"
proof -
  have parts: "aw_progress w = None" "aw_hasher w = Some c"
    "aw_temp_file w = Some (pd_root d, child d (aw_temp_name w))" "aw_streamed_size w = of_nat (length c)"
    using assms(1) by (simp_all add: streaming_def)
  have "uint (aw_streamed_size w) = int (length c)"
    using assms(3) by (simp add: parts(4) unsigned_of_nat take_bit_nat_eq_self)
  then have "\<not> uint (aw_streamed_size w) + int (length bs) \<ge> 2 ^ 64" using assms(3) by simp
  then show ?thesis
    using write_chunk_run [OF parts(1-3), of bs h] assms(2) by (simp add: sys_write_def)
qed

lemma write_events_quiet:
  "streaming h w d c a \<Longrightarrow> quiet h \<Longrightarrow> delivers evs \<Longrightarrow> length c + length (payload evs) < 2 ^ 64 \<Longrightarrow>
     \<exists>h' w'. write_events evs (h, w) = (Ok (), (h', w')) \<and> quiet h'"
proof (induction evs arbitrary: h w c)
  case (Cons e evs)
  obtain bs where e: "e = Chunk bs" using Cons.prems(3) by (cases e) auto
  show ?case
  proof (cases "bs = []")
    case False
    obtain h1 w1 where 1: "write_chunk bs (h, w) = (Ok (), (h1, w1))" "quiet h1"
      using write_chunk_quiet [OF Cons.prems(1,2), of bs] Cons.prems(4) e False by auto
    have "streaming h1 w1 d (c @ bs) a" using write_chunk_spec(3) [OF Cons.prems(1) 1(1)] by simp
    from Cons.IH [OF this 1(2)] show ?thesis using Cons.prems e False 1(1) by (simp add: bind_x_def)
  qed (use Cons.prems e in simp)
qed simp

lemma stream_quiet:
  assumes "streaming h w d [] a" "quiet h" "delivers reader" "length (payload reader) < 2 ^ 64"
  shows "\<exists>w' h'. with_write w (bind_x (write_from x reader) (\<lambda>_. sync)) h = (Ok ((), w'), h') \<and> quiet h'"
proof -
  obtain h1 w1 where 1: "write_events reader (h, w) = (Ok (), (h1, w1))" "quiet h1"
    using write_events_quiet [OF assms(1-3)] assms(4) by auto
  have "streaming h1 w1 d (payload reader) a" using write_events_spec [OF assms(1) 1(1)] by simp
  from finish_run [OF this] obtain w2 p b where 2: "finish x (h1, w1) = (Ok p, (h1, w2))"
    "payload_ready x h1 w2 d (payload reader) b a" by blast
  have "aw_progress w = None" using assms(1) by (simp add: streaming_def)
  with 1 2 have wf: "write_from x reader (h, w) = (Ok p, (h1, w2))"
    by (simp add: write_from_def catch_x_def bind_x_def)
  have "\<exists>h2. sync_file dur f h1 = (Ok (), h2) \<and> quiet h2" for dur f
    using 1(2) by (cases dur) (auto simp: sync_file_def sys_sync_file_def call_std_def mapErr_x_def
        split: option.splits node.splits)
  then obtain h2 where 3: "sync_file (durability (vs_options (aw_storage w2)))
      (pd_root d, child d (aw_temp_name w2)) h1 = (Ok (), h2)" "quiet h2" by blast
  have "sync (h1, w2) = (Ok (), (h2, w2\<lparr>aw_synced := True\<rparr>))"
    using 2(2) 3 by (simp add: sync_def payload_ready_def try_x_def on_host_def update_aw_def)
  with wf 3(2) show ?thesis by (simp add: with_write_def bind_x_def)
qed

lemma install_quiet:
  assumes q: "quiet h" and ne: "s \<noteq> l" and t: "view h r (d @ [s]) = Some (FileNode c b a)"
    and dst: "view h r (d @ [l]) = None \<or>
      pol = ReplaceExisting \<and> (\<exists>c b a. view h r (d @ [l]) = Some (FileNode c b a))"
  shows "\<exists>h'. commit_temp \<lparr>pd_root = r, pd_segments = d\<rparr> s l pol dur h = (Ok (), h') \<and> quiet h'"
proof -
  let ?d = "\<lparr>pd_root = r, pd_segments = d\<rparr>"
  have v: "validate_destination ?d l pol h = (Ok (), h)"
    using validate_destination_quiet [OF q, of ?d l pol] dst by (simp add: child_def)
  have t': "host_at h r (d @ [s]) = Some (FileNode c b a)" using t by (simp add: view_FileNode)
  have dir: "host_dir h r d" by (rule host_dir_parent [of h r d s]) (simp add: t')
  have sync: "sync_parent ?d dur h1 = (Ok (), h1)" if "quiet h1" for h1
    using that by (cases "dur = Strict") (simp_all add: sync_parent_def sys_sync_dir_def call_std_def mapErr_x_def)
  show ?thesis
  proof (cases pol)
    case MustNotExist
    then have "host_at h r (d @ [l]) = None" using dst by (simp add: view_None)
    then have "sys_rename_noreplace r (d @ [s]) (d @ [l]) h =
        (Ok (), move_node r (d @ [s]) (d @ [l]) (FileNode c b a) h)"
      using q t' dir ne by (simp add: sys_rename_noreplace_def)
    then show ?thesis using v q sync MustNotExist
      by (simp add: commit_temp_def commit_temp_noreplace_def try_x_def child_def)
  next
    case ReplaceExisting
    have "replaceable (FileNode c b a) (host_at h r (d @ [l])) = Ok ()"
      using dst by (auto simp: view_None view_FileNode replaceable_def)
    then have "sys_rename r (d @ [s]) (d @ [l]) h =
        (Ok (), move_node r (d @ [s]) (d @ [l]) (FileNode c b a) h)"
      using q t' dir ne by (simp add: sys_rename_def)
    then show ?thesis using v q sync ReplaceExisting
      by (simp add: commit_temp_def try_x_def child_def call_def mapErr_x_def)
  qed
qed

lemma stat_quiet:
  assumes "quiet h" "validate_path_for x st p managed = Ok ()" "segments p \<noteq> []"
    and "view h (vs_root st) (segments p) = Some (FileNode c b a)"
  shows "\<exists>m. stat x st p managed h = (Ok m, h)"
proof -
  let ?d = "\<lparr>pd_root = vs_root st, pd_segments = butlast (segments p)\<rparr>" and ?l = "last (segments p)"
  have loc: "child ?d ?l = segments p" using assms(3) by (simp add: child_def)
  have n: "host_at h (vs_root st) (segments p) = Some (FileNode c b a)" using assms(4) by (simp add: view_FileNode)
  have dir: "host_dir h (vs_root st) (butlast (segments p))"
    by (rule host_dir_parent [of h _ _ "last (segments p)"]) (simp add: assms(3) n)
  have root: "host_dir h (vs_root st) []"
    using dir host_dir_prefix [of h "vs_root st" "[]" "butlast (segments p)"] by simp
  have nr: "\<not> is_root p" using assms(3) by auto
  have k: "entry_kind_at ?d ?l h = (Ok (Some RegularFile), h)"
    using entry_kind_quiet [OF assms(1), of ?d ?l] assms(4) loc by simp
  have "metadata_at ?d ?l RegularFile h = (Ok (FileNode c b a), h)"
    using k n loc assms(1)
    by (simp add: metadata_at_def open_regular_def bind_x_def call_def call_std_def mapErr_x_def
        sys_open_file_def sys_fstat_def)
  then show ?thesis
    using assms(1-3) root nr k
    by (simp add: stat_def bind_x_def ensure_root_quiet open_parent_quiet [OF assms(1) dir assms(3)]
        validate_entry_def validate_entry_kind_def)
qed

text \<open>
  C30: On a host that reports no faults, a write to a user path whose parent directory exists
  succeeds: with room on the disk, a fresh temporary name, a reader that reaches its end and a
  destination that is free (or a regular file under \<open>ReplaceExisting\<close>), \<^verbatim>\<open>write_atomic\<close> returns a
  receipt with the length and hash of the bytes read, and the destination then reads back as
  exactly those bytes.
\<close>

theorem write_atomic_succeeds:
  assumes host: "quiet h" "host_dir h (vs_root st) (butlast (segments p))"
      "minimum_free_bytes (vs_options st) \<le> h_available h"
    and path: "validate_write_path_for x st p False = Ok ()" "segments p \<noteq> []"
    and tmp: "temporary_path_for x st p False simple = Ok tp" "parent (as_path tp) = parent p"
      "file_name (as_path tp) = Some t" "t \<noteq> last (segments p)"
      "view h (vs_root st) (butlast (segments p) @ [t]) = None"
    and dst: "view h (vs_root st) (segments p) = None \<or>
      pol = ReplaceExisting \<and> (\<exists>c b a. view h (vs_root st) (segments p) = Some (FileNode c b a))"
    and reader: "delivers reader" "length (payload reader) < 2 ^ 64"
  shows "\<exists>rec h' durable a. write_atomic x st p simple reader pol h = (Ok rec, h') \<and>
    wr_size rec = of_nat (length (payload reader)) \<and>
    wr_content_hash rec = ContentHash (x_sha256 x (payload reader)) \<and>
    view h' (vs_root st) (segments p) = Some (FileNode (payload reader) durable a)"
proof -
  let ?r = "vs_root st" and ?q = "segments p" and ?t = "butlast (segments p) @ [t]"
  let ?S = "{(?r, []), (?r, ?t)}"
  have tq: "?t \<noteq> ?q" using tmp(4) by (metis last_snoc)
  have q: "(?r, ?q) \<notin> ?S" using path(2) tq by simp
  obtain w h1 where 1: "begin_atomic_write_at x st p pol tp False h = (Ok w, h1)" "quiet h1"
    using begin_quiet [OF host(1) path(1) tmp(2) [symmetric] tmp(3) path(2) host(2) tmp(5) host(3)] by blast
  note spec1 = begin_spec [OF 1(1) tmp(3), of ?S]
  obtain d a where d: "begun st p pol False t w d" "streaming h1 w d [] a" using spec1 by auto
  have loc: "pd_root d = ?r" "child d (aw_temp_name w) = ?t" "pd_segments d = butlast ?q"
    using d(1) by (simp_all add: begun_def child_def)
  obtain w' h2 where 2: "with_write w (bind_x (write_from x reader) (\<lambda>_. sync)) h1 = (Ok ((), w'), h2)"
      "quiet h2"
    using stream_quiet [OF d(2) 1(2) reader] by blast
  note spec2 = stream_spec [OF d(2) 2(1)]
  obtain b where b: "payload_ready x h2 w' d (payload reader) b a" "aw_synced w'" "aw_same w w'"
    using spec2 by auto
  have bw: "begun st p pol False t w' d" using d(1) b(3) by (simp add: begun_def aw_same_def)
  have "tmp_only ?r ?t h1 h2" using spec2 loc by simp
  then have "frame_except ?S h1 h2" by (rule frame_intros(3)) simp
  then have "frame_except ?S h h2" using spec1 frame_except.step_trans by blast
  then have v: "view h2 ?r ?q = view h ?r ?q" using q by (rule frame_viewD)
  have dd: "d = \<lparr>pd_root = ?r, pd_segments = butlast ?q\<rparr>" using loc by simp
  have "view h2 ?r (butlast ?q @ [t]) = Some (FileNode (payload reader) b a)"
    using b(1) bw loc by (simp add: payload_ready_def begun_def child_def)
  from install_quiet [OF 2(2) tmp(4) this, of pol "durability (vs_options st)"]
  obtain h3 where 3: "commit_temp d t (last ?q) pol (durability (vs_options st)) h2 = (Ok (), h3)" "quiet h3"
    using dst v path(2) by (auto simp: dd)
  have lf: "aw_leaf w' = last ?q" using bw by (metis begun_def child_def last_snoc)
  have "installed ?r ?t ?q (FileNode (payload reader) b a) h2 h3"
    using commit_temp_spec(2) [OF 3(1) tmp(4), of "payload reader" b a] b(1) bw loc path(2)
    by (simp add: payload_ready_def begun_def child_def)
  then have v3: "view h3 ?r ?q = Some (FileNode (payload reader) b a)" by (simp add: installed_def)
  have "validate_path_for x st p False = Ok ()"
    using path(1) by (auto simp: validate_write_path_for_def bind_r_Ok_conv)
  from stat_quiet [OF 3(2) this path(2) v3] obtain m where m: "stat x st p False h3 = (Ok m, h3)" by blast
  have "commit x w' h2 = (Ok \<lparr>wr_path = p, wr_size = of_nat (length (payload reader)),
      wr_content_hash = ContentHash (x_sha256 x (payload reader)), wr_metadata = m\<rparr>, h3)"
    using b(1,2) bw 3(1) m lf by (simp add: commit_def payload_ready_def begun_def bind_x_def)
  then have "write_atomic x st p simple reader pol h = (Ok \<lparr>wr_path = p,
      wr_size = of_nat (length (payload reader)),
      wr_content_hash = ContentHash (x_sha256 x (payload reader)), wr_metadata = m\<rparr>, h3)"
    using 1 2 tmp(1) by (simp add: write_atomic_def bind_x_def)
  with v3 show ?thesis by (metis write_receipt.select_convs(2,3))
qed

section \<open>Examples\<close>

definition example_attr :: file_attr where
  "example_attr = \<lparr>at_modified = Some 5, at_identity = Some (1, 7), at_dir_size = 0\<rparr>"

definition example_host :: "fault list \<Rightarrow> host" where
  "example_host faults =
     \<lparr>h_roots = (\<lambda>r. if r = [''srv'', ''v''] then Some (DirNode example_attr
         [(''notes'', DirNode example_attr [(''old.md'', FileNode ''old'' True example_attr)])])
        else None),
      h_faults = faults, h_stopped = False, h_attr = (\<lambda>_. example_attr), h_inodes = 0,
      h_symlink_errno = NOTDIR, h_available = 1000000000, h_total = 1000000000\<rparr>"

definition example_externals :: externals where
  "example_externals =
     \<lparr>x_nfc = id, x_lower = id, x_utf8 = (\<lambda>_. True),
      x_sha256 = (\<lambda>bs. replicate 32 (of_nat (length bs))), x_uuid_str = (\<lambda>_. ''u'')\<rparr>"

definition example_storage :: vault_storage where
  "example_storage =
     \<lparr>vs_vault_id = 1, vs_root = [''srv'', ''v''], vs_path_policy = path_policy_default,
      vs_options = storage_options_default\<rparr>"

text \<open>A replacement interrupted by a crash in the middle of the stream, and one that succeeds.\<close>

theorem write_atomic_all_or_nothing_witness:
  "let (res, h') = write_atomic example_externals example_storage (VaultPath ''notes/old.md'') ''7''
       [Chunk ''new text''] ReplaceExisting (example_host (replicate 12 Fine @ [Stop 3]))
   in \<not> is_ok res \<and>
      (view h' [''srv'', ''v''] [''notes'', ''old.md''] = Some (FileNode ''old'' True example_attr) \<or>
       (\<exists>b a. view h' [''srv'', ''v''] [''notes'', ''old.md''] = Some (FileNode ''new text'' b a)))"
proof -
  let ?run = "write_atomic example_externals example_storage (VaultPath ''notes/old.md'') ''7''
       [Chunk ''new text''] ReplaceExisting (example_host (replicate 12 Fine @ [Stop 3]))"
  obtain res h' where run: "?run = (res, h')" by (rule prod.exhaust)
  let ?p = "VaultPath ''notes/old.md''" and ?tp = "TemporaryPath (VaultPath ''notes/.mcp-vault-tmp-7'')"
  have err: "\<not> is_ok (fst ?run)" by code_simp
  have tmp: "temporary_path_for example_externals example_storage ?p False ''7'' = Ok ?tp" by code_simp
  have name: "file_name (as_path ?tp) = Some ''.mcp-vault-tmp-7''" by code_simp
  have fresh: "''.mcp-vault-tmp-7'' \<noteq> last (segments ?p)" "segments ?p \<noteq> []" by code_simp+
  have old: "view (example_host (replicate 12 Fine @ [Stop 3])) (vs_root example_storage) (segments ?p)
      = Some (FileNode ''old'' True example_attr)" by code_simp
  have loc: "vs_root example_storage = [''srv'', ''v'']" "segments ?p = [''notes'', ''old.md'']" by code_simp+
  have "payload [Chunk ''new text''] = ''new text''" by simp
  with write_atomic_all_or_nothing [OF run tmp name fresh, THEN conjunct2, THEN conjunct1, unfolded old] loc
  have "view h' [''srv'', ''v''] [''notes'', ''old.md''] = Some (FileNode ''old'' True example_attr) \<or>
       (\<exists>b a. view h' [''srv'', ''v''] [''notes'', ''old.md''] = Some (FileNode ''new text'' b a))"
    by (simp only:) blast
  with err run show ?thesis by simp
qed

theorem write_atomic_succeeds_witness:
  "\<exists>rec h' durable a. write_atomic example_externals example_storage (VaultPath ''notes/a.md'') ''7''
     [Chunk ''ab'', Chunk ''c''] MustNotExist (example_host []) = (Ok rec, h') \<and> wr_size rec = 3 \<and>
     view h' [''srv'', ''v''] [''notes'', ''a.md''] = Some (FileNode ''abc'' durable a)"
proof -
  let ?h = "example_host []" and ?st = example_storage and ?x = example_externals
  let ?p = "VaultPath ''notes/a.md''" and ?tp = "TemporaryPath (VaultPath ''notes/.mcp-vault-tmp-7'')"
  let ?reader = "[Chunk ''ab'', Chunk ''c'']"
  have seg: "segments ?p = [''notes'', ''a.md'']" by code_simp
  have r: "vs_root ?st = [''srv'', ''v'']" by code_simp
  have 1: "quiet ?h" by (simp add: quiet_def example_host_def)
  have 2: "host_dir ?h (vs_root ?st) (butlast (segments ?p))" by code_simp
  have 3: "minimum_free_bytes (vs_options ?st) \<le> h_available ?h" by code_simp
  have 4: "validate_write_path_for ?x ?st ?p False = Ok ()" by code_simp
  have 5: "temporary_path_for ?x ?st ?p False ''7'' = Ok ?tp" by code_simp
  have 6: "parent (as_path ?tp) = parent ?p" by code_simp
  have 7: "file_name (as_path ?tp) = Some ''.mcp-vault-tmp-7''" by code_simp
  have 8: "view ?h (vs_root ?st) (butlast (segments ?p) @ [''.mcp-vault-tmp-7'']) = None" by code_simp
  have 9: "view ?h (vs_root ?st) (segments ?p) = None" by code_simp
  have "\<exists>rec h' durable a. write_atomic ?x ?st ?p ''7'' ?reader MustNotExist ?h = (Ok rec, h') \<and>
      wr_size rec = of_nat (length (payload ?reader)) \<and>
      wr_content_hash rec = ContentHash (x_sha256 ?x (payload ?reader)) \<and>
      view h' (vs_root ?st) (segments ?p) = Some (FileNode (payload ?reader) durable a)"
    by (rule write_atomic_succeeds [OF 1 2 3 4 _ 5 6 7 _ 8 disjI1 [OF 9]]) (simp_all add: seg)
  then show ?thesis unfolding seg r by auto
qed

end
