(* ===== verification/Storage_Entries.thy ===== *)
theory Storage_Entries
  imports Storage_Safety
begin

text \<open>
  Moves, deletions and directory creation of the filesystem adapter, under every schedule of I/O
  errors and crashes, and what the user plane can reach.
\<close>

section \<open>Moving and removing subtrees\<close>

definition moved :: "host_root \<Rightarrow> string list \<Rightarrow> string list \<Rightarrow> host \<Rightarrow> host \<Rightarrow> bool" where
  "moved r p q h h' \<longleftrightarrow> (\<forall>r' z. view h' r' z =
     (if r' = r \<and> prefix q z then view h r (p @ drop (length q) z)
      else if r' = r \<and> prefix p z then None else view h r' z))"

definition removed :: "host_root \<Rightarrow> string list \<Rightarrow> host \<Rightarrow> host \<Rightarrow> bool" where
  "removed r p h h' \<longleftrightarrow>
     (\<forall>r' z. view h' r' z = (if (r', z) = (r, p) then None else view h r' z)) \<and>
     (\<forall>z. z \<noteq> [] \<longrightarrow> view h r (p @ z) = None)"

lemma view_node_below: "host_at h r p = Some n \<Longrightarrow> look n z = view h r (p @ z)"
  by (cases "h_roots h r") (simp_all add: view_def look_def host_at_def node_at_append)

lemma move_node_view:
  assumes src: "host_at h r (d @ [s]) = Some n" and dir: "host_dir h r e"
    and np: "\<not> prefix (d @ [s]) (e @ [l])"
  shows "moved r (d @ [s]) (e @ [l]) h (move_node r (d @ [s]) (e @ [l]) n h)"
proof -
  let ?h1 = "host_put r (d @ [s]) None h"
  have dd: "host_dir h r d" by (rule host_dir_parent [of h r d s]) (simp add: src)
  have v1: "view ?h1 r' z = (if r' = r \<and> prefix (d @ [s]) z then None else view h r' z)" for r' z
    using view_put [OF dd, of s None] by simp
  have "\<not> prefix (d @ [s]) e" using np by simp
  then have "host_dir ?h1 r e" using dir by (simp add: host_dir_view v1)
  from view_put [OF this, of l "Some n"] show ?thesis
    unfolding move_node_def moved_def by (simp add: v1 view_node_below [OF src])
qed

lemma rename_noreplace_move:
  assumes "sys_rename_noreplace r (d @ [s]) (e @ [l]) h = (res, h')"
  shows "res = Ok () \<and> view h r (e @ [l]) = None \<and> moved r (d @ [s]) (e @ [l]) h h' \<or>
    (\<exists>err. res = Err err) \<and> same_fs h h'"
  using assms unfolding sys_rename_noreplace_def
proof (cases rule: syscall_cases)
  case (runs h1)
  have v: "view h1 = view h" by (rule same_fs_view [OF runs(1)])
  show ?thesis
  proof (cases "host_at h1 r (d @ [s]) = None \<or> host_at h1 r (e @ [l]) \<noteq> None \<or>
      prefix (d @ [s]) (e @ [l]) \<or> \<not> host_dir h1 r e")
    case True
    then show ?thesis using runs by (auto split: option.splits if_splits)
  next
    case False
    then obtain n where n: "host_at h1 r (d @ [s]) = Some n" by auto
    have "moved r (d @ [s]) (e @ [l]) h1 h'"
      using move_node_view [OF n, of e l] runs(2) n False by (auto split: if_splits)
    moreover have "res = Ok ()" using runs(2) n False by (auto split: if_splits)
    ultimately show ?thesis using False by (simp add: moved_def v view_None [symmetric])
  qed
qed (auto simp: same_fs_def)

lemma rename_move:
  assumes "sys_rename r (d @ [s]) (e @ [l]) h = (res, h')" "d @ [s] \<noteq> e @ [l]"
  shows "res = Ok () \<and> moved r (d @ [s]) (e @ [l]) h h' \<or> (\<exists>err. res = Err err) \<and> same_fs h h'"
  using assms(1) unfolding sys_rename_def
proof (cases rule: syscall_cases)
  case (runs h1)
  have v: "view h1 = view h" by (rule same_fs_view [OF runs(1)])
  show ?thesis
  proof (cases "host_at h1 r (d @ [s])")
    case None
    then show ?thesis using runs by auto
  next
    case (Some n)
    show ?thesis
    proof (cases "prefix (d @ [s]) (e @ [l]) \<or> \<not> host_dir h1 r e \<or>
        replaceable n (host_at h1 r (e @ [l])) \<noteq> Ok ()")
      case True
      then have "h' = h1 \<and> (\<exists>err. res = Err err)"
        using runs(2) Some assms(2)
        by (cases "replaceable n (host_at h1 r (e @ [l]))") (auto split: if_splits dest: sym)
      then show ?thesis using runs(1) by simp
    next
      case False
      then have "res = Ok () \<and> h' = move_node r (d @ [s]) (e @ [l]) n h1"
        using runs(2) Some assms(2) by (simp split: if_splits)
      then show ?thesis
        using move_node_view [OF Some, of e l] False by (simp add: moved_def v)
    qed
  qed
qed (auto simp: same_fs_def)

lemma same_moved: "same_fs h h1 \<Longrightarrow> moved r p q h1 h' \<Longrightarrow> moved r p q h h'"
  by (drule same_fs_view) (simp add: moved_def)

lemma moved_same: "moved r p q h h1 \<Longrightarrow> same_fs h1 h' \<Longrightarrow> moved r p q h h'"
  by (drule same_fs_view) (simp add: moved_def)

lemma errno_kind_NOENT: "errno_kind e = KNotFound \<longleftrightarrow> e = NOENT"
  by (cases e) simp_all

lemma entry_kind_run:
  "entry_kind_at d l h =
    (case sys_stat (pd_root d) (child d l) h of
       (Ok k, h1) \<Rightarrow> (Ok (Some k), h1)
     | (Err e, h1) \<Rightarrow> if e = NOENT then (Ok None, h1)
                    else (Err (errno_error ''inspect filesystem entry'' e), h1))"
  by (cases "sys_stat (pd_root d) (child d l) h"; cases "fst (sys_stat (pd_root d) (child d l) h)")
    (simp_all add: entry_kind_at_def try_x_def errno_kind_NOENT)

lemma entry_kind_Ok:
  assumes "entry_kind_at d l h = (Ok k, h')"
  shows "k = map_option kind_of (view h (pd_root d) (child d l))"
proof -
  obtain sr h2 where s: "sys_stat (pd_root d) (child d l) h = (sr, h2)" by (rule prod.exhaust)
  have "sr = (case view h (pd_root d) (child d l) of None \<Rightarrow> Err NOENT | Some n \<Rightarrow> Ok (kind_of n)) \<or>
      (\<exists>e. sr = Err e \<and> e \<noteq> NOENT)"
    using s unfolding sys_stat_def
  proof (cases rule: syscall_cases)
    case (runs h3)
    then show ?thesis using same_fs_host [OF runs(1)]
      by (cases "host_at h (pd_root d) (child d l)") (simp_all add: view_def)
  qed auto
  moreover have "k = None \<longrightarrow> sr = Err NOENT" "\<forall>kk. k = Some kk \<longrightarrow> sr = Ok kk"
    using trans [OF assms [symmetric] entry_kind_run, unfolded s] by (auto split: sum.splits if_splits)
  ultimately show ?thesis by (cases k) (auto split: option.splits)
qed

lemma validate_destination_Ok:
  assumes "validate_destination d l pol h = (Ok u, h')"
  shows "view h (pd_root d) (child d l) = None \<or>
    pol = ReplaceExisting \<and> (\<exists>n. view h (pd_root d) (child d l) = Some n \<and> kind_of n = RegularFile)"
proof -
  obtain k h1 where k: "entry_kind_at d l h = (Ok k, h1)"
    and rest: "(case k of None \<Rightarrow> return_x () | Some RegularFile \<Rightarrow>
         (if pol = ReplaceExisting then return_x () else throw_x DestinationExists)
       | Some Directory \<Rightarrow> throw_x (InvalidOperation ''destination is a directory'')
       | Some kind \<Rightarrow> throw_x (unsafe_entry kind)) h1 = (Ok u, h')"
    using assms unfolding validate_destination_def bind_x_Ok_conv by blast
  have "k = None \<or> k = Some RegularFile \<and> pol = ReplaceExisting"
  proof (cases k)
    case (Some kk)
    then show ?thesis using rest by (cases kk; cases pol) simp_all
  qed simp
  then show ?thesis using entry_kind_Ok [OF k] by auto
qed

definition move_result ::
  "destination_policy \<Rightarrow> host_root \<Rightarrow> string list \<Rightarrow> string list \<Rightarrow> host \<Rightarrow> host \<Rightarrow> bool" where
  \<comment> \<open>the whole subtree is at its new place, and the policy allowed what was there\<close>
  "move_result pol r p q h h' \<longleftrightarrow> moved r p q h h' \<and>
     (view h r q = None \<or> pol = ReplaceExisting \<and> (\<exists>n. view h r q = Some n \<and> kind_of n = RegularFile))"

lemma same_move_result: "same_fs h h1 \<Longrightarrow> move_result pol r p q h1 h' \<Longrightarrow> move_result pol r p q h h'"
  using same_moved by (auto simp: move_result_def dest: same_fs_view)

lemma move_result_same: "move_result pol r p q h h1 \<Longrightarrow> same_fs h1 h' \<Longrightarrow> move_result pol r p q h h'"
  using moved_same by (auto simp: move_result_def)

lemma rename_phase:
  assumes run: "(case pol of
      MustNotExist \<Rightarrow> try_x (sys_rename_noreplace r (child src s) (child dst l)) (\<lambda>rr.
        case rr of Ok _ \<Rightarrow> return_x ()
        | Err e \<Rightarrow> (if e = EXIST then throw_x DestinationExists
            else if rename_noreplace_unsupported e then
              bind_x (validate_destination dst l MustNotExist) (\<lambda>_.
                call op (sys_rename r (child src s) (child dst l)))
            else throw_x (errno_error op e)))
    | ReplaceExisting \<Rightarrow> call op (sys_rename r (child src s) (child dst l))) h = (res, h')"
    and roots: "pd_root dst = r" and ne: "child src s \<noteq> child dst l"
    and dst: "view h r (child dst l) = None \<or>
      pol = ReplaceExisting \<and> (\<exists>n. view h r (child dst l) = Some n \<and> kind_of n = RegularFile)"
  shows "res = Ok () \<and> move_result pol r (child src s) (child dst l) h h' \<or>
    (\<exists>e. res = Err e) \<and> same_fs h h'"
proof -
  let ?p = "child src s" and ?q = "child dst l"
  have plain: "rr = Ok () \<and> move_result pol r ?p ?q h0 h1 \<or> (\<exists>e. rr = Err e) \<and> same_fs h0 h1"
    if "call op (sys_rename r ?p ?q) h0 = (rr, h1)" "view h0 = view h" for rr h0 h1
  proof -
    obtain rr' h1' where sr: "sys_rename r ?p ?q h0 = (rr', h1')" by (rule prod.exhaust)
    have "h1' = h1" "rr = map_err (errno_error op) rr'"
      using that(1) unfolding call_def mapErr_x_def sr by auto
    with sr rename_move [of r "pd_segments src" s "pd_segments dst" l h0 rr' h1] ne dst that(2)
    show ?thesis by (auto simp: child_def move_result_def)
  qed
  show ?thesis
  proof (cases pol)
    case ReplaceExisting
    then show ?thesis using plain [of h res h'] run by simp
  next
    case MustNotExist
    obtain rr h1 where rr: "sys_rename_noreplace r ?p ?q h = (rr, h1)" by (rule prod.exhaust)
    note spec = rename_noreplace_move [OF rr [unfolded child_def], folded child_def]
    show ?thesis
    proof (cases rr)
      case (Inr u)
      then show ?thesis using run MustNotExist rr spec by (auto simp: try_x_def move_result_def)
    next
      case (Inl e)
      then have same: "same_fs h h1" using spec by simp
      show ?thesis
      proof (cases "rename_noreplace_unsupported e \<and> e \<noteq> EXIST")
        case False
        then have "h' = h1 \<and> (\<exists>e. res = Err e)"
          using run MustNotExist rr Inl by (auto simp: try_x_def split: if_splits)
        then show ?thesis using same by simp
      next
        case True
        then have "bind_x (validate_destination dst l MustNotExist)
            (\<lambda>_. call op (sys_rename r ?p ?q)) h1 = (res, h')"
          using run MustNotExist rr Inl by (simp add: try_x_def)
        then show ?thesis
        proof (cases rule: bind_x_cases)
          case (err e)
          then show ?thesis
            using withinD [OF validate_destination_same err(1)] same same_fs.step_trans by blast
        next
          case (ok u h2)
          have s2: "same_fs h h2"
            using withinD [OF validate_destination_same ok(1)] same same_fs.step_trans by blast
          show ?thesis
            using plain [OF ok(2) same_fs_view [OF s2]] same_move_result [OF s2] same_fs.step_trans [OF s2]
            by blast
        qed
      qed
    qed
  qed
qed

lemma move_entry_at_spec:
  assumes run: "move_entry_at src s dst l pol dur h = (res, h')"
    and roots: "pd_root src = r" "pd_root dst = r" and ne: "child src s \<noteq> child dst l"
  shows "move_result pol r (child src s) (child dst l) h h' \<or> (\<exists>e. res = Err e) \<and> same_fs h h'"
  using run [unfolded move_entry_at_def]
proof (cases rule: bind_x_cases)
  case (err e)
  then show ?thesis using withinD [OF entry_kind_same err(1)] by simp
next
  case (ok k h1)
  have s1: "same_fs h h1" by (rule withinD [OF entry_kind_same ok(1)])
  show ?thesis
  proof (cases "k = Some RegularFile \<or> k = Some Directory")
    case False
    then show ?thesis using ok(2) s1 by (auto split: option.splits if_splits)
  next
    case True
    then have "bind_x (validate_destination dst l pol) (\<lambda>_. bind_x (case pol of
        MustNotExist \<Rightarrow> try_x (sys_rename_noreplace r (child src s) (child dst l)) (\<lambda>rr.
          case rr of Ok _ \<Rightarrow> return_x ()
          | Err e \<Rightarrow> (if e = EXIST then throw_x DestinationExists
              else if rename_noreplace_unsupported e then
                bind_x (validate_destination dst l MustNotExist) (\<lambda>_.
                  call ''move filesystem entry'' (sys_rename r (child src s) (child dst l)))
              else throw_x (errno_error ''move filesystem entry'' e)))
      | ReplaceExisting \<Rightarrow> call ''move filesystem entry'' (sys_rename r (child src s) (child dst l)))
      (\<lambda>_. bind_x (sync_parent src dur) (\<lambda>_.
         when_x (pd_segments src \<noteq> pd_segments dst) (sync_parent dst dur)))) h1 = (res, h')"
      using ok(2) roots(1) by auto
    then show ?thesis
    proof (cases rule: bind_x_cases)
      case (err e)
      then show ?thesis
        using withinD [OF validate_destination_same err(1)] s1 same_fs.step_trans by blast
    next
      case (ok u h2)
      have s2: "same_fs h h2"
        using withinD [OF validate_destination_same ok(1)] s1 same_fs.step_trans by blast
      have d2: "view h2 r (child dst l) = None \<or>
          pol = ReplaceExisting \<and> (\<exists>n. view h2 r (child dst l) = Some n \<and> kind_of n = RegularFile)"
        using validate_destination_Ok [OF ok(1)] roots(2)
          same_fs_view [OF withinD [OF validate_destination_same ok(1)]] by simp
      from ok(2) show ?thesis
      proof (cases rule: bind_x_cases)
        case (err e)
        from rename_phase [OF err(1) roots(2) ne d2] show ?thesis
          using s2 err(2) same_fs.step_trans by blast
      next
        case (ok u' h3)
        have "move_result pol r (child src s) (child dst l) h2 h3"
          using rename_phase [OF ok(1) roots(2) ne d2] by simp
        moreover have "within same_fs (bind_x (sync_parent src dur) (\<lambda>_.
            when_x (pd_segments src \<noteq> pd_segments dst) (sync_parent dst dur)))"
          by (auto intro!: same_fs.within_core sync_parent_same)
        then have "same_fs h3 h'" using ok(2) by (rule withinD)
        ultimately show ?thesis
          using same_move_result [OF s2] move_result_same by blast
      qed
    qed
  qed
qed

lemma root_step_same: "root_step r h h' \<Longrightarrow> host_dir h r [] \<Longrightarrow> same_fs h h'"
  by (auto simp: root_step_def host_dir_tree)

lemma ensure_root_same: "ensure_root st h = (res, h') \<Longrightarrow> host_dir h (vs_root st) [] \<Longrightarrow> same_fs h h'"
  by (rule root_step_same [OF withinD [OF ensure_root_step]])

text \<open>
  C31: Moving an entry (\<^verbatim>\<open>VaultStorage::move_entry\<close>) under every schedule of faults: afterwards
  the whole subtree of the source is at the destination and gone from the source, or every tree is
  as it was. It never replaces a directory or a special file, with \<open>MustNotExist\<close> it replaces
  nothing, and success means that the subtree moved.
\<close>

theorem move_entry_all_or_nothing:
  assumes "move_entry x st s d pol h = (res, h')" "segments s \<noteq> segments d"
    and root: "host_dir h (vs_root st) []"
  shows "(res = Ok () \<longrightarrow> move_result pol (vs_root st) (segments s) (segments d) h h') \<and>
    (move_result pol (vs_root st) (segments s) (segments d) h h' \<or> view h' = view h)"
proof -
  let ?moved = "move_result pol (vs_root st) (segments s) (segments d)"
  let ?inner = "bind_x (ensure_root st) (\<lambda>_.
        bind_x (open_parent_with_leaf (vs_root st) s False) (\<lambda>(sp, sn).
        bind_x (open_parent_with_leaf (vs_root st) d False) (\<lambda>(dp, dn).
          move_entry_at sp sn dp dn pol (durability (vs_options st)))))"
  have inner: "?moved h h1 \<or> (\<exists>e. r = Err e) \<and> same_fs h h1" if "?inner h = (r, h1)" for r h1
    using that
  proof (cases rule: bind_x_cases)
    case (err e)
    then show ?thesis using ensure_root_same [OF err(1) root] by simp
  next
    case (ok u h2)
    have s2: "same_fs h h2" by (rule ensure_root_same [OF ok(1) root])
    from ok(2) show ?thesis
    proof (cases rule: bind_x_cases)
      case (err e)
      then show ?thesis using withinD [OF open_parent_same err(1)] s2 same_fs.step_trans by blast
    next
      case (ok y h3)
      obtain sp sn where y: "y = (sp, sn)" by (cases y)
      note o1 = open_parent_Ok [OF ok(1) [unfolded y]]
      have s3: "same_fs h h3" using o1 s2 same_fs.step_trans by blast
      from ok(2) [unfolded y prod.case] show ?thesis
      proof (cases rule: bind_x_cases)
        case (err e)
        then show ?thesis using withinD [OF open_parent_same err(1)] s3 same_fs.step_trans by blast
      next
        case (ok z h4)
        obtain dp dn where z: "z = (dp, dn)" by (cases z)
        note o2 = open_parent_Ok [OF ok(1) [unfolded z]]
        have s4: "same_fs h h4" using o2 s3 same_fs.step_trans by blast
        from move_entry_at_spec [OF ok(2) [unfolded z prod.case], of "vs_root st"] o1 o2 assms(2)
        show ?thesis using same_move_result [OF s4] same_fs.step_trans [OF s4] by auto
      qed
    qed
  qed
  have "(\<exists>e. res = Err e) \<and> h' = h \<or> ?inner h = (res, h')"
  proof (cases "validate_write_path_for x st s False")
    case (Inl e)
    then have "res = Err e" "h' = h" using assms(1) by (simp_all add: move_entry_def)
    then show ?thesis by simp
  next
    case s: (Inr u)
    show ?thesis
    proof (cases "validate_write_path_for x st d False")
      case (Inl e)
      then have "res = Err e" "h' = h" using assms(1) s by (simp_all add: move_entry_def)
      then show ?thesis by simp
    next
      case (Inr u')
      have "s \<noteq> d" using assms(2) by auto
      then show ?thesis using assms(1) s Inr by (simp add: move_entry_def)
    qed
  qed
  then show ?thesis
  proof
    assume "(\<exists>e. res = Err e) \<and> h' = h"
    then show ?thesis by auto
  next
    assume "?inner h = (res, h')"
    from inner [OF this] show ?thesis using same_fs_view [of h h'] by auto
  qed
qed

section \<open>Deletion\<close>

lemma sys_unlink_removed:
  assumes "sys_unlink r (d @ [s]) h = (res, h')"
  shows "res = Ok () \<and> removed r (d @ [s]) h h' \<and> view h r (d @ [s]) \<noteq> None \<or>
    (\<exists>e. res = Err e) \<and> same_fs h h'"
  using assms unfolding sys_unlink_def
proof (cases rule: syscall_cases)
  case (runs h1)
  have v: "view h1 = view h" by (rule same_fs_view [OF runs(1)])
  show ?thesis
  proof (cases "host_at h1 r (d @ [s])")
    case None
    then show ?thesis using runs by auto
  next
    case (Some n)
    show ?thesis
    proof (cases "is_dir n")
      case True
      then show ?thesis using runs Some by auto
    next
      case False
      have n: "view h1 r (d @ [s]) = Some (shallow n)" using Some by (simp add: view_def)
      have dir: "host_dir h1 r d" by (rule host_dir_parent [of h1 r d s]) (simp add: Some)
      have h': "h' = host_put r (d @ [s]) None h1" "res = Ok ()" using runs(2) Some False by simp_all
      have "\<forall>z. z \<noteq> [] \<longrightarrow> view h r ((d @ [s]) @ z) = None"
        using view_below_leaf [OF n] False by (simp add: v)
      then show ?thesis
        using view_put_none [OF dir n] False h' n by (simp add: removed_def v)
    qed
  qed
qed (auto simp: same_fs_def)

lemma sys_rmdir_removed:
  assumes "sys_rmdir r (d @ [s]) h = (res, h')"
  shows "res = Ok () \<and> removed r (d @ [s]) h h' \<and> view h r (d @ [s]) \<noteq> None \<or>
    (\<exists>e. res = Err e) \<and> same_fs h h'"
  using assms unfolding sys_rmdir_def
proof (cases rule: syscall_cases)
  case (runs h1)
  have v: "view h1 = view h" by (rule same_fs_view [OF runs(1)])
  show ?thesis
  proof (cases "\<exists>a. host_at h1 r (d @ [s]) = Some (DirNode a [])")
    case False
    then have "h' = h1 \<and> (\<exists>e. res = Err e)"
      using runs(2) by (auto split: option.splits node.splits if_splits)
    then show ?thesis using runs(1) by simp
  next
    case True
    then obtain a where n: "host_at h1 r (d @ [s]) = Some (DirNode a [])" by blast
    have dir: "host_dir h1 r d" by (rule host_dir_parent [of h1 r d s]) (simp add: n)
    have h': "h' = host_put r (d @ [s]) None h1" "res = Ok ()" using runs(2) n by simp_all
    have below: "view h r ((d @ [s]) @ z) = None" if "z \<noteq> []" for z
      using that view_node_below [OF n, of z] by (cases z) (simp_all add: v)
    have "view h' r' z = (if (r', z) = (r, d @ [s]) then None else view h r' z)" for r' z
    proof (cases "r' = r \<and> prefix (d @ [s]) z")
      case True
      then obtain w where "z = (d @ [s]) @ w" by (auto simp: prefix_def)
      then show ?thesis using True below [of w] by (cases w) (auto simp: h' view_put [OF dir] v)
    next
      case False
      then show ?thesis by (auto simp: h' view_put [OF dir] v)
    qed
    then show ?thesis using below h' n by (simp add: removed_def v [symmetric] view_def)
  qed
qed (auto simp: same_fs_def)

lemma delete_entry_spec:
  assumes "delete_entry d l dur h = (res, h')"
  shows "removed (pd_root d) (child d l) h h' \<and> view h (pd_root d) (child d l) \<noteq> None \<or>
    (\<exists>e. res = Err e) \<and> same_fs h h'"
  using assms [unfolded delete_entry_def]
proof (cases rule: bind_x_cases)
  case (err e)
  then show ?thesis using withinD [OF entry_kind_same err(1)] by simp
next
  case (ok k h1)
  let ?r = "pd_root d" and ?p = "child d l"
  have s1: "same_fs h h1" by (rule withinD [OF entry_kind_same ok(1)])
  have phase: "removed ?r ?p h h' \<and> view h ?r ?p \<noteq> None \<or> (\<exists>e. res = Err e) \<and> same_fs h h'"
    if run: "bind_x (call ''delete filesystem entry'' m) (\<lambda>_. sync_parent d dur) h1 = (res, h')"
      and spec: "\<And>r h2. m h1 = (r, h2) \<Longrightarrow>
        r = Ok () \<and> removed ?r ?p h1 h2 \<and> view h1 ?r ?p \<noteq> None \<or> (\<exists>e. r = Err e) \<and> same_fs h1 h2"
    for m :: "(host, errno, unit) prog"
  proof -
    obtain mr h2 where m: "m h1 = (mr, h2)" by (rule prod.exhaust)
    have v: "view h1 = view h" by (rule same_fs_view [OF s1])
    from run show ?thesis
    proof (cases rule: bind_x_cases)
      case (err e)
      then have "h' = h2" "\<exists>e. mr = Err e"
        using m by (cases mr; simp add: call_def mapErr_x_def)+
      then show ?thesis using spec [OF m] s1 err(2) same_fs.step_trans by auto
    next
      case (ok u h3)
      then have h3: "h3 = h2" "mr = Ok ()" using m by simp_all
      have s3: "same_fs h3 h'" by (rule withinD [OF sync_parent_same ok(2)])
      have "removed ?r ?p h1 h2" "view h1 ?r ?p \<noteq> None" using spec [OF m] h3 by auto
      then show ?thesis using same_fs_view [OF s3] by (simp add: removed_def v h3)
    qed
  qed
  show ?thesis
  proof (cases k)
    case None
    then show ?thesis using ok(2) s1 by auto
  next
    case (Some kk)
    show ?thesis
    proof (cases kk)
      case RegularFile
      then show ?thesis using phase [of "sys_unlink ?r ?p"] ok(2) Some sys_unlink_removed
        by (simp add: child_def)
    next
      case Directory
      then show ?thesis using phase [of "sys_rmdir ?r ?p"] ok(2) Some sys_rmdir_removed
        by (simp add: child_def)
    qed (use ok(2) s1 Some in auto)
  qed
qed

text \<open>
  Deleting an entry (\<^verbatim>\<open>VaultStorage::delete\<close> and \<^verbatim>\<open>delete_managed\<close>) under every schedule of
  faults: either exactly that entry is gone, and nothing was below it, or every tree is as it was.
  Success means that the entry existed and is gone.
\<close>

theorem delete_all_or_nothing:
  assumes "delete x st p managed h = (res, h')" and root: "host_dir h (vs_root st) []"
  shows "(res = Ok () \<longrightarrow> view h (vs_root st) (segments p) \<noteq> None \<and> removed (vs_root st) (segments p) h h') \<and>
    (removed (vs_root st) (segments p) h h' \<or> view h' = view h)"
proof -
  have "removed (vs_root st) (segments p) h h' \<and> view h (vs_root st) (segments p) \<noteq> None \<or>
      (\<exists>e. res = Err e) \<and> same_fs h h'"
    using assms(1) [unfolded delete_def]
  proof (cases rule: bind_x_cases)
    case (err e)
    then show ?thesis by (simp add: same_fs_def)
  next
    case (ok u h1)
    then have "delete_validated st p h = (res, h')" by simp
    then show ?thesis unfolding delete_validated_def
    proof (cases rule: bind_x_cases)
      case (err e)
      then show ?thesis using ensure_root_same [OF err(1) root] by simp
    next
      case (ok u h2)
      have s2: "same_fs h h2" by (rule ensure_root_same [OF ok(1) root])
      from ok(2) show ?thesis
      proof (cases rule: bind_x_cases)
        case (err e)
        then show ?thesis using withinD [OF open_parent_same err(1)] s2 same_fs.step_trans by blast
      next
        case (ok y h3)
        obtain d l where y: "y = (d, l)" by (cases y)
        note o = open_parent_Ok [OF ok(1) [unfolded y]]
        have s3: "same_fs h h3" using o s2 same_fs.step_trans by blast
        from delete_entry_spec [OF ok(2) [unfolded y prod.case]] o show ?thesis
          using same_fs.step_trans [OF s3] by (auto simp: removed_def same_fs_view [OF s3])
      qed
    qed
  qed
  then show ?thesis using same_fs_view [of h h'] by auto
qed

text \<open>A move stopped after the rename but before the directory is flushed, and a deletion.\<close>

theorem move_entry_all_or_nothing_witness:
  "let (res, h') = move_entry example_externals example_storage (VaultPath ''notes/old.md'')
       (VaultPath ''old.md'') MustNotExist (example_host (replicate 12 Fine @ [Stop 0]))
   in (move_result MustNotExist [''srv'', ''v''] [''notes'', ''old.md''] [''old.md'']
         (example_host (replicate 12 Fine @ [Stop 0])) h' \<or>
       view h' = view (example_host (replicate 12 Fine @ [Stop 0])))"
proof -
  let ?h = "example_host (replicate 12 Fine @ [Stop 0])"
  let ?s = "VaultPath ''notes/old.md''" and ?d = "VaultPath ''old.md''"
  obtain res h' where run: "move_entry example_externals example_storage ?s ?d MustNotExist ?h = (res, h')"
    by (rule prod.exhaust)
  have seg: "segments ?s = [''notes'', ''old.md'']" "segments ?d = [''old.md'']" by code_simp+
  have r: "vs_root example_storage = [''srv'', ''v'']" by code_simp
  have ne: "segments ?s \<noteq> segments ?d" by (simp add: seg)
  have root: "host_dir ?h (vs_root example_storage) []" by code_simp
  from move_entry_all_or_nothing [OF run ne root] show ?thesis by (simp only: run seg r Let_def prod.case)
qed

theorem delete_all_or_nothing_witness:
  "let (res, h') = delete example_externals example_storage (VaultPath ''notes/old.md'') False (example_host [])
   in res = Ok () \<and> removed [''srv'', ''v''] [''notes'', ''old.md''] (example_host []) h'"
proof -
  let ?h = "example_host []" and ?p = "VaultPath ''notes/old.md''"
  obtain res h' where run: "delete example_externals example_storage ?p False ?h = (res, h')"
    by (rule prod.exhaust)
  have "fst (delete example_externals example_storage ?p False ?h) = Ok ()" by code_simp
  then have ok: "res = Ok ()" by (simp add: run)
  have seg: "segments ?p = [''notes'', ''old.md'']" by code_simp
  have r: "vs_root example_storage = [''srv'', ''v'']" by code_simp
  have root: "host_dir ?h (vs_root example_storage) []" by code_simp
  from delete_all_or_nothing [OF run root] ok show ?thesis by (simp add: run seg r)
qed

end
