(* ===== verification/History.thy ===== *)
theory History
  imports Storage_Entries
begin

text \<open>
  The content-addressed history store (\<^verbatim>\<open>HistoryStore\<close> of crates/storage-fs/src/lib.rs). Blobs live
  at \<open><history-root>/<vault-id>/blobs/<first two digits>/<64 digits>\<close>; a blob is streamed to a
  temporary file in the blob root, hashed, and renamed to its address.
\<close>

section \<open>The store\<close>

record history_store =
  hs_vault_id :: vault_id
  hs_root :: host_root
  hs_blob_root :: vault_path
  hs_options :: storage_options

record history_blob =
  hb_content_hash :: content_hash
  hb_size :: u64
  hb_created :: bool

fun normal_components :: "path_component list \<Rightarrow> host_root" where
  "normal_components [] = []"
| "normal_components (NormalComponent s # cs) = s # normal_components cs"
| "normal_components (_ # cs) = normal_components cs"

definition validate_private_root :: "string \<Rightarrow> storage_error + unit" where
  "validate_private_root p =
     (if \<not> is_absolute p \<or> p = [] then Err (StorageDomain InvalidContentRoot)
      else if ParentDir \<in> set (path_components p) then Err (StorageDomain InvalidContentRoot)
      else Ok ())"

definition history_store_new ::
  "externals \<Rightarrow> vault_context \<Rightarrow> string \<Rightarrow> storage_options \<Rightarrow> storage_error + history_store" where
  "history_store_new x ctx root opts =
     bind_r (validate_private_root root) (\<lambda>_.
     bind_r (map_err StorageDomain
               (parse_path (x_nfc x) (x_uuid_str x (ctx_id ctx) @ ''/blobs''))) (\<lambda>blob_root.
       Ok \<lparr>hs_vault_id = ctx_id ctx, hs_root = normal_components (path_components root),
           hs_blob_root = blob_root, hs_options = opts\<rparr>))"

definition history_ensure_root :: "history_store \<Rightarrow> unit io" where
  "history_ensure_root hs =
     bind_x (ensure_directory_root ''create history root'' ''inspect history root'' (hs_root hs)) (\<lambda>_.
     bind_x (open_relative_directory (hs_root hs) (hs_blob_root hs) True) (\<lambda>_. return_x ()))"

fun stream_to_file ::
  "externals \<Rightarrow> host_root \<times> string list \<Rightarrow> bytes \<Rightarrow> u64 \<Rightarrow> read_event list \<Rightarrow> (u64 \<times> content_hash) io" where
  "stream_to_file x f hasher n [] = return_x (n, ContentHash (x_sha256 x hasher))"
| "stream_to_file x f hasher n (ReadError k # _) = throw_x (StorageIo ''read source stream'' k)"
| "stream_to_file x f hasher n (Chunk bs # events) =
     (if bs = [] then return_x (n, ContentHash (x_sha256 x hasher))
      else
        bind_x (call_std ''write temporary file'' (sys_write (fst f) (snd f) bs)) (\<lambda>_.
          if uint n + int (length bs) \<ge> 2 ^ 64
          then throw_x (InvalidOperation ''stream size overflow'')
          else stream_to_file x f (hasher @ bs) (n + of_nat (length bs)) events))"

definition commit_temp_between ::
  "parent_dir \<Rightarrow> string \<Rightarrow> parent_dir \<Rightarrow> string \<Rightarrow> durability_policy \<Rightarrow> unit io" where
  "commit_temp_between src temp_name dst target dur =
     bind_x (validate_destination dst target MustNotExist) (\<lambda>_.
     try_x (call ''atomically install history blob''
              (sys_rename (pd_root src) (child src temp_name) (child dst target))) (\<lambda>result.
       case result of
         Err e \<Rightarrow> bind_x (cleanup_temp src temp_name) (\<lambda>_. throw_x e)
       | Ok _ \<Rightarrow>
           bind_x (sync_parent src dur) (\<lambda>_.
             when_x (pd_segments src \<noteq> pd_segments dst) (sync_parent dst dur))))"

definition cleaning :: "parent_dir \<Rightarrow> string \<Rightarrow> 'a io \<Rightarrow> 'a io" where
  \<comment> \<open>an error of the call removes the temporary file before it is returned\<close>
  "cleaning d temp_name m = catch_x m (\<lambda>e. bind_x (cleanup_temp d temp_name) (\<lambda>_. throw_x e))"

definition install_blob ::
  "history_store \<Rightarrow> vault_path \<Rightarrow> parent_dir \<Rightarrow> string \<Rightarrow> u64 \<Rightarrow> content_hash \<Rightarrow> history_blob io" where
  "install_blob hs prefix_relative temp_parent temp_name n hash =
     bind_x (open_relative_directory (hs_root hs) prefix_relative False) (\<lambda>dst.
     bind_x (entry_kind_at dst (as_hex hash)) (\<lambda>k.
       case k of
         Some RegularFile \<Rightarrow>
           bind_x (cleanup_temp temp_parent temp_name) (\<lambda>_.
             return_x \<lparr>hb_content_hash = hash, hb_size = n, hb_created = False\<rparr>)
       | Some kind \<Rightarrow> throw_x (unsafe_entry kind)
       | None \<Rightarrow>
           bind_x (commit_temp_between temp_parent temp_name dst (as_hex hash)
                     (durability (hs_options hs))) (\<lambda>_.
             return_x \<lparr>hb_content_hash = hash, hb_size = n, hb_created = True\<rparr>)))"

definition put :: "externals \<Rightarrow> history_store \<Rightarrow> string \<Rightarrow> read_event list \<Rightarrow> history_blob io" where
  "put x hs simple reader =
     bind_x (history_ensure_root hs) (\<lambda>_.
     bind_x (ensure_free_space (hs_options hs)) (\<lambda>_.
     let temp_name = temporary_name ''mcp-vault-history-tmp'' simple in
     bind_x (open_relative_directory (hs_root hs) (hs_blob_root hs) True) (\<lambda>d.
     bind_x (prepare_temp d temp_name) (\<lambda>_.
     let f = (pd_root d, child d temp_name) in
     bind_x (cleaning d temp_name (stream_to_file x f [] 0 reader)) (\<lambda>(n, hash).
     bind_x (cleaning d temp_name (sync_file (durability (hs_options hs)) f)) (\<lambda>_.
     bind_x (lift_x (map_err StorageDomain (parse_path (x_nfc x) (hash_prefix hash)))) (\<lambda>pre.
     bind_x (lift_x (map_err StorageDomain (join (x_nfc x) (hs_blob_root hs) pre))) (\<lambda>prefix_relative.
     bind_x (cleaning d temp_name (open_relative_directory (hs_root hs) prefix_relative True)) (\<lambda>_.
     cleaning d temp_name (install_blob hs prefix_relative d temp_name n hash))))))))))"

definition put_bytes :: "externals \<Rightarrow> history_store \<Rightarrow> string \<Rightarrow> bytes \<Rightarrow> history_blob io" where
  "put_bytes x hs simple bs = put x hs simple [Chunk bs]"

definition history_missing :: "storage_error \<Rightarrow> storage_error" where
  "history_missing e =
     (case e of SourceNotFound \<Rightarrow> HistoryNotFound
      | StorageIo op k \<Rightarrow> (if k = KNotFound then HistoryNotFound else e)
      | _ \<Rightarrow> e)"

definition history_open :: "externals \<Rightarrow> history_store \<Rightarrow> content_hash \<Rightarrow> read_file io" where
  "history_open x hs hash =
     bind_x (lift_x (map_err StorageDomain (parse_path (x_nfc x) (hash_prefix hash)))) (\<lambda>pre.
     bind_x (lift_x (map_err StorageDomain (join (x_nfc x) (hs_blob_root hs) pre))) (\<lambda>relative_root.
     bind_x (mapErr_x history_missing (open_relative_directory (hs_root hs) relative_root False)) (\<lambda>d.
     bind_x (mapErr_x history_missing (entry_kind_at d (as_hex hash))) (\<lambda>k.
       case k of
         None \<Rightarrow> throw_x HistoryNotFound
       | Some kind \<Rightarrow>
           bind_x (lift_x (validate_entry (fs_policy (hs_options hs)) kind)) (\<lambda>_.
             if kind \<noteq> RegularFile then throw_x HistoryNotFound
             else
               bind_x (open_regular d (as_hex hash)) (\<lambda>n.
               bind_x (call_std ''read history metadata'' (sys_fstat n)) (\<lambda>m.
                 return_x \<lparr>rf_node = n, rf_metadata = metadata_of None kind m\<rparr>)))))))"

definition history_contains :: "externals \<Rightarrow> history_store \<Rightarrow> content_hash \<Rightarrow> bool io" where
  "history_contains x hs hash =
     try_x (history_open x hs hash) (\<lambda>r.
       case r of Ok _ \<Rightarrow> return_x True
       | Err e \<Rightarrow> (if e = HistoryNotFound then return_x False else throw_x e))"

section \<open>Content addresses\<close>

lemma hex_char_value: "d < 16 \<Longrightarrow> hex_digit_value (hex_char d) = Some d"
proof (cases d rule: word_nat_cases)
  case (1 n)
  moreover assume "d < 16"
  ultimately have "n < 16" by (simp add: word_less_nat_alt unsigned_of_nat take_bit_nat_eq_self)
  then have "n \<in> {0..<16}" by simp
  then show ?thesis
    unfolding 1 by (auto simp: atLeastLessThan_nat_numeral hex_char_def hex_digit_value_def Let_def)
qed

lemma byte_digits: "or (push_bit 4 (drop_bit 4 b)) (take_bit 4 b) = (b :: 8 word)"
  by (rule bit_word_eqI) (auto simp: bit_simps)

lemma digits_small: "drop_bit 4 b < (16 :: 8 word)" "take_bit 4 b < (16 :: 8 word)"
proof -
  have "unat (drop_bit 4 b) < 16" 
    using unsigned_less [of b, where ?'a = nat] by (simp add: drop_bit_eq_div unat_div_distrib)
  then show "drop_bit 4 b < (16 :: 8 word)" by (simp add: word_less_nat_alt)
  have "unat (take_bit 4 b) < 16" by (simp add: take_bit_eq_mod unat_mod_distrib)
  then show "take_bit 4 b < (16 :: 8 word)" by (simp add: word_less_nat_alt)
qed

lemma hex_bytes_as_hex:
  "hex_bytes (concat (map (\<lambda>b. [hex_char (drop_bit 4 b), hex_char (take_bit 4 b)]) bs)) = Ok bs"
  by (induction bs) (simp_all add: hex_char_value digits_small byte_digits)

lemma length_as_hex: "length (as_hex h) = 2 * length (hash_bytes h)"
proof -
  have "length (concat (map (\<lambda>b. [hex_char (drop_bit 4 b), hex_char (take_bit 4 b)]) bs)) = 2 * length bs" for bs
    by (induction bs) simp_all
  then show ?thesis by (simp add: as_hex_def)
qed

lemma from_hex_as_hex: "length (hash_bytes h) = 32 \<Longrightarrow> from_hex (as_hex h) = Ok h"
  using length_as_hex [of h] hex_bytes_as_hex [of "hash_bytes h"]
  by (simp add: from_hex_def as_hex_def)

text \<open>
  Printing a 32-byte content address and parsing it gives the address back, and the text of
  two addresses agrees only when the addresses do.
\<close>

theorem content_hash_roundtrip:
  assumes "length (hash_bytes a) = 32"
  shows "from_hex (as_hex a) = Ok a \<and> length (as_hex a) = 64 \<and>
    (\<forall>b. length (hash_bytes b) = 32 \<longrightarrow> as_hex b = as_hex a \<longrightarrow> b = a)"
proof -
  have "b = a" if "length (hash_bytes b) = 32" "as_hex b = as_hex a" for b
    using from_hex_as_hex [OF assms] from_hex_as_hex [OF that(1)] that(2) by simp
  then show ?thesis using assms length_as_hex [of a] from_hex_as_hex [OF assms] by simp
qed

theorem content_hash_roundtrip_witness:
  "from_hex (as_hex (ContentHash (replicate 31 7 @ [255]))) = Ok (ContentHash (replicate 31 7 @ [255]))"
  using content_hash_roundtrip [of "ContentHash (replicate 31 7 @ [255])"] by simp

section \<open>Creating directories\<close>

definition grows_dirs :: "host \<Rightarrow> host \<Rightarrow> bool" where
  "grows_dirs h h' \<longleftrightarrow> (\<forall>r q. view h' r q = view h r q \<or>
     view h r q = None \<and> (\<exists>n. view h' r q = Some n \<and> is_dir n))"

lemma grows_dirs_trans: "grows_dirs h h1 \<Longrightarrow> grows_dirs h1 h2 \<Longrightarrow> grows_dirs h h2"
  unfolding grows_dirs_def by (metis option.distinct(1))

interpretation grows_dirs: step_order grows_dirs
  by unfold_locales (simp add: grows_dirs_def, rule grows_dirs_trans)

lemma same_grows: "same_fs h h' \<Longrightarrow> grows_dirs h h'"
  by (simp add: grows_dirs_def same_fs_view)

lemma within_same_grows: "within same_fs m \<Longrightarrow> within grows_dirs m"
  by (erule within_mono) (rule same_grows)

lemma grows_dir: "grows_dirs h h' \<Longrightarrow> host_dir h r p \<Longrightarrow> host_dir h' r p"
  unfolding grows_dirs_def host_dir_view by (metis option.distinct(1))

lemma sys_mkdir_grows: "within grows_dirs (sys_mkdir r (d @ [s]))"
proof (rule withinI)
  fix h
  obtain res h' where run: "sys_mkdir r (d @ [s]) h = (res, h')" by (rule prod.exhaust)
  have "grows_dirs h h'" using run unfolding sys_mkdir_def
  proof (cases rule: syscall_cases)
    case (runs h1)
    show ?thesis
    proof (cases "host_at h1 r (d @ [s]) = None \<and> host_dir h1 r d")
      case False
      then have "h' = h1" using runs(2) by (auto split: option.splits if_splits)
      then show ?thesis using runs(1) by (simp add: same_grows)
    next
      case True
      let ?n = "DirNode (fresh_attr h1) []"
      have "view h' = view (host_put r (d @ [s]) (Some ?n) h1)"
        using runs(2) True by (auto simp: next_inode_def intro: view_cong split: if_splits)
      moreover have "view h1 r ((d @ [s]) @ z) = None" for z
        using view_below_none [of h1 r "d @ [s]" z] True by (simp add: view_None)
      then have "view (host_put r (d @ [s]) (Some ?n) h1) r' q = view h1 r' q \<or>
          view h1 r' q = None \<and> (\<exists>n. view (host_put r (d @ [s]) (Some ?n) h1) r' q = Some n \<and> is_dir n)" for r' q
        using view_put [of h1 r d s "Some ?n" r' q] True
        by (cases "drop (Suc (length d)) q") (auto simp: prefix_def)
      ultimately show ?thesis
        using same_fs_view [OF runs(1)] by (simp add: grows_dirs_def)
    qed
  qed (auto simp: grows_dirs.step_refl same_grows)
  then show "grows_dirs h (snd (sys_mkdir r (d @ [s]) h))" by (simp add: run)
qed

lemma root_step_grows: "root_step r h h' \<Longrightarrow> grows_dirs h h'"
proof -
  assume step: "root_step r h h'"
  have "view h' r' q = view h r' q \<or> view h r' q = None \<and> (\<exists>n. view h' r' q = Some n \<and> is_dir n)" for r' q
  proof (cases "(r', q) = (r, [])")
    case True
    then show ?thesis using root_step_view(2) [OF step] by (auto simp: host_dir_view)
  next
    case False
    then show ?thesis using root_step_view(1) [OF step] by blast
  qed
  then show ?thesis by (simp add: grows_dirs_def)
qed

lemma open_child_run:
  assumes "open_child_directory d s h = (res, h')"
  shows "same_fs h h' \<and> (\<forall>d'. res = Ok d' \<longrightarrow> d' = d\<lparr>pd_segments := child d s\<rparr> \<and> host_dir h' (pd_root d) (child d s))"
proof (cases res)
  case (Inl e)
  then show ?thesis using withinD [OF open_child_same assms] by simp
next
  case (Inr d')
  then show ?thesis using open_child_Ok [OF assms [unfolded Inr]] same_fs_dirD(1) by auto
qed

lemma open_parents_err:
  assumes "open_child_directory d s h = (Err e, h1)"
  shows "open_parents create d (s # ss) h =
    (if create \<and> (\<exists>op. e = StorageIo op KNotFound) then
       (case sys_mkdir (pd_root d) (child d s) h1 of
          (Err e', h2) \<Rightarrow>
            if errno_kind e' = KAlreadyExists
            then bind_x (open_child_directory d s) (\<lambda>d'. open_parents create d' ss) h2
            else (Err (errno_error ''create parent directory'' e'), h2)
        | (Ok _, h2) \<Rightarrow> bind_x (open_child_directory d s) (\<lambda>d'. open_parents create d' ss) h2)
     else (Err e, h1))"
  using assms
  by (cases e; cases "sys_mkdir (pd_root d) (child d s) h1";
      cases "fst (sys_mkdir (pd_root d) (child d s) h1)") (simp_all add: try_x_def)

lemma open_parents_grows:
  assumes "open_parents create d ss h = (res, h')" "host_dir h (pd_root d) (pd_segments d)"
  shows "grows_dirs h h' \<and> (\<forall>d'. res = Ok d' \<longrightarrow> pd_root d' = pd_root d \<and>
    pd_segments d' = pd_segments d @ ss \<and> host_dir h' (pd_root d) (pd_segments d @ ss))"
  using assms
proof (induction ss arbitrary: d h)
  case Nil
  then show ?case by (auto simp: grows_dirs.step_refl)
next
  case (Cons s ss)
  have enter: "grows_dirs h2 h' \<and> (\<forall>d'. res = Ok d' \<longrightarrow> pd_root d' = pd_root d \<and>
      pd_segments d' = pd_segments d @ s # ss \<and> host_dir h' (pd_root d) (pd_segments d @ s # ss))"
    if "open_child_directory d s h1 = (Ok d1, h2)" "open_parents create d1 ss h2 = (res, h')" for d1 h1 h2
  proof -
    have d1: "pd_root d1 = pd_root d" "pd_segments d1 = pd_segments d @ [s]"
      and dir: "host_dir h2 (pd_root d1) (pd_segments d1)"
      using open_child_run [OF that(1)] by (simp_all add: child_def)
    show ?thesis
      using Cons.IH [OF that(2) dir, unfolded d1 append.assoc append_Cons append_Nil] .
  qed
  obtain r1 h1 where r1: "open_child_directory d s h = (r1, h1)" by (rule prod.exhaust)
  have g1: "grows_dirs h h1" using open_child_run [OF r1] same_grows by blast
  show ?case
  proof (cases r1)
    case (Inr d1)
    then have "open_parents create d1 ss h1 = (res, h')" using Cons.prems(1) r1 by (simp add: try_x_def)
    then show ?thesis using enter [OF r1 [unfolded Inr]] grows_dirs.step_trans [OF g1] by blast
  next
    case (Inl e)
    obtain mr h2 where m: "sys_mkdir (pd_root d) (child d s) h1 = (mr, h2)" by (rule prod.exhaust)
    have g2: "grows_dirs h h2"
      using g1 withinD [OF sys_mkdir_grows [of "pd_root d" "pd_segments d" s]] m grows_dirs.step_trans
      by (metis child_def)
    have "(\<exists>e'. res = Err e') \<and> (h' = h1 \<or> h' = h2) \<or>
        bind_x (open_child_directory d s) (\<lambda>d'. open_parents create d' ss) h2 = (res, h')"
    proof (cases "create \<and> (\<exists>op. e = StorageIo op KNotFound)")
      case False
      have "(res, h') = (Err e, h1)"
        using open_parents_err [OF r1 [unfolded Inl], of create ss] Cons.prems(1) by (simp only: False if_False)
      then show ?thesis by simp
    next
      case True
      have run: "(res, h') = (case (mr, h2) of
          (Err e', h2) \<Rightarrow>
            if errno_kind e' = KAlreadyExists
            then bind_x (open_child_directory d s) (\<lambda>d'. open_parents create d' ss) h2
            else (Err (errno_error ''create parent directory'' e'), h2)
        | (Ok _, h2) \<Rightarrow> bind_x (open_child_directory d s) (\<lambda>d'. open_parents create d' ss) h2)"
        using Cons.prems(1) [unfolded open_parents_err [OF r1 [unfolded Inl]] m if_P [OF True]] by (rule sym)
      show ?thesis
      proof (cases mr)
        case (Inl e')
        then show ?thesis using run by (cases "errno_kind e' = KAlreadyExists") auto
      next
        case (Inr u)
        then show ?thesis using run by auto
      qed
    qed
    then show ?thesis
    proof (elim disjE)
      assume "(\<exists>e'. res = Err e') \<and> (h' = h1 \<or> h' = h2)"
      then show ?thesis using g1 g2 by auto
    next
      assume "bind_x (open_child_directory d s) (\<lambda>d'. open_parents create d' ss) h2 = (res, h')"
      then show ?thesis
      proof (cases rule: bind_x_cases)
        case (err e')
        then have "grows_dirs h2 h'" using open_child_run [OF err(1)] same_grows by blast
        then show ?thesis using g2 err(2) grows_dirs.step_trans by blast
      next
        case (ok d1 h3)
        have "grows_dirs h2 h3" using open_child_run [OF ok(1)] same_grows by blast
        then show ?thesis using enter [OF ok] g2 grows_dirs.step_trans by blast
      qed
    qed
  qed
qed

lemma open_parent_grows:
  assumes "open_parent_with_leaf r p create h = (res, h')"
  shows "grows_dirs h h' \<and> (\<forall>d l. res = Ok (d, l) \<longrightarrow> pd_root d = r \<and> child d l = segments p \<and>
    host_dir h' r (pd_segments d))"
  using assms [unfolded open_parent_with_leaf_def]
proof (cases rule: bind_x_cases)
  case (err e)
  then show ?thesis using same_grows [OF withinD [OF open_root_same err(1)]] by simp
next
  case (ok u h1)
  have h1: "same_fs h h1" "host_dir h1 r []"
    using open_root_Ok [OF ok(1)] same_fs_dirD(1) by blast+
  show ?thesis
  proof (cases "segments p = []")
    case True
    then show ?thesis using ok(2) same_grows [OF h1(1)] by auto
  next
    case False
    then have "bind_x (open_parents create \<lparr>pd_root = r, pd_segments = []\<rparr> (butlast (segments p)))
        (\<lambda>d. return_x (d, last (segments p))) h1 = (res, h')" using ok(2) by simp
    then show ?thesis
    proof (cases rule: bind_x_cases)
      case (err e)
      then show ?thesis
        using open_parents_grows [OF err(1)] h1(2) grows_dirs.step_trans [OF same_grows [OF h1(1)]]
        by simp
    next
      case (ok d h2)
      from open_parents_grows [OF ok(1)] h1(2)
      have "grows_dirs h1 h2" "pd_root d = r" "pd_segments d = butlast (segments p)"
        "host_dir h2 r (butlast (segments p))" by auto
      then show ?thesis
        using ok(2) False grows_dirs.step_trans [OF same_grows [OF h1(1)]] by (auto simp: child_def)
    qed
  qed
qed

lemma open_relative_grows:
  assumes "open_relative_directory r p create h = (res, h')"
  shows "grows_dirs h h' \<and> (\<forall>d. res = Ok d \<longrightarrow> pd_root d = r \<and> pd_segments d = segments p \<and>
    host_dir h' r (segments p))"
proof (cases "is_root p")
  case True
  then have "open_directory r h = (res, h')" using assms by (simp add: open_relative_directory_def)
  then show ?thesis unfolding open_directory_def
  proof (cases rule: bind_x_cases)
    case (err e)
    then show ?thesis using same_grows [OF withinD [OF open_root_same err(1)]] by simp
  next
    case (ok u h1)
    then show ?thesis
      using open_root_Ok [OF ok(1)] same_fs_dirD(1) same_grows True by auto
  qed
next
  case False
  then have "bind_x (open_parent_with_leaf r p create) (\<lambda>(d, leaf).
        bind_x (entry_kind_at d leaf) (\<lambda>k.
          case k of
            Some Directory \<Rightarrow> open_child_directory d leaf
          | Some kind \<Rightarrow> throw_x (unsafe_entry kind)
          | None \<Rightarrow>
              (if create then
                 bind_x (call ''create relative directory'' (sys_mkdir r (child d leaf)))
                   (\<lambda>_. open_child_directory d leaf)
               else throw_x SourceNotFound))) h = (res, h')"
    using assms by (simp add: open_relative_directory_def)
  then show ?thesis
  proof (cases rule: bind_x_cases)
    case (err e)
    then show ?thesis using open_parent_grows [OF err(1)] by simp
  next
    case (ok y h1)
    obtain d leaf where y: "y = (d, leaf)" by (cases y)
    have d: "grows_dirs h h1" "pd_root d = r" "child d leaf = segments p"
      using open_parent_grows [OF ok(1)] y by auto
    have enter: "grows_dirs h h' \<and> (\<forall>d'. res = Ok d' \<longrightarrow> pd_root d' = r \<and> pd_segments d' = segments p \<and>
        host_dir h' r (segments p))"
      if "open_child_directory d leaf h2 = (res, h')" "grows_dirs h h2" for h2
      using open_child_run [OF that(1)] that(2) d(2,3) same_grows grows_dirs.step_trans by fastforce
    from ok(2) [unfolded y prod.case] show ?thesis
    proof (cases rule: bind_x_cases)
      case (err e)
      then show ?thesis
        using d(1) same_grows [OF withinD [OF entry_kind_same err(1)]] grows_dirs.step_trans by blast
    next
      case (ok k h2)
      have g2: "grows_dirs h h2"
        using d(1) same_grows [OF withinD [OF entry_kind_same ok(1)]] grows_dirs.step_trans by blast
      show ?thesis
      proof (cases k)
        case (Some kk)
        show ?thesis
        proof (cases "kk = Directory")
          case True
          then show ?thesis using enter [OF _ g2] ok(2) Some by simp
        next
          case False
          then have "h' = h2 \<and> (\<exists>e. res = Err e)" using ok(2) Some by (cases kk) auto
          then show ?thesis using g2 by auto
        qed
      next
        case None
        show ?thesis
        proof (cases create)
          case False
          then show ?thesis using ok(2) None g2 by auto
        next
          case True
          have mk: "within grows_dirs (call op (sys_mkdir r (child d leaf)))" for op
            unfolding call_def child_def by (rule grows_dirs.within_mapErr [OF sys_mkdir_grows])
          from ok(2) None True have "bind_x (call ''create relative directory'' (sys_mkdir r (child d leaf)))
              (\<lambda>_. open_child_directory d leaf) h2 = (res, h')" by simp
          then show ?thesis
          proof (cases rule: bind_x_cases)
            case (err e)
            then show ?thesis using g2 withinD [OF mk err(1)] grows_dirs.step_trans by blast
          next
            case (ok u h3)
            then show ?thesis using enter g2 withinD [OF mk ok(1)] grows_dirs.step_trans by blast
          qed
        qed
      qed
    qed
  qed
qed

section \<open>Storing a blob\<close>

definition hist_step ::
  "host_root \<Rightarrow> string list \<Rightarrow> string list option \<Rightarrow> bytes \<Rightarrow> host \<Rightarrow> host \<Rightarrow> bool" where
  \<comment> \<open>apart from the temporary file, entries only appear: directories anywhere, and one file at
     the address \<open>q\<close> with the content \<open>c\<close>\<close>
  "hist_step r t q c h h' \<longleftrightarrow> (\<forall>r' z. (r', z) \<noteq> (r, t) \<longrightarrow> view h' r' z = view h r' z \<or>
     view h r' z = None \<and> (\<exists>n. view h' r' z = Some n \<and>
       (is_dir n \<or> r' = r \<and> Some z = q \<and> (\<exists>b a. n = FileNode c b a))))"

interpretation hist_step: step_order "hist_step r t q c" for r t q c
proof
  show "hist_step r t q c h h" for h by (simp add: hist_step_def)
  show "hist_step r t q c h h2" if "hist_step r t q c h h1" "hist_step r t q c h1 h2" for h h1 h2
    unfolding hist_step_def
  proof (intro allI impI)
    fix r' z
    assume ne: "(r', z) \<noteq> (r, t)"
    note that(1) [unfolded hist_step_def, rule_format, OF ne] that(2) [unfolded hist_step_def, rule_format, OF ne]
    then show "view h2 r' z = view h r' z \<or> view h r' z = None \<and> (\<exists>n. view h2 r' z = Some n \<and>
       (is_dir n \<or> r' = r \<and> Some z = q \<and> (\<exists>b a. n = FileNode c b a)))"
      by (metis option.distinct(1))
  qed
qed

lemma hist_intros:
  "same_fs h h' \<Longrightarrow> hist_step r t q c h h'"
  "grows_dirs h h' \<Longrightarrow> hist_step r t q c h h'"
  "tmp_only r t h h' \<Longrightarrow> hist_step r t q c h h'"
proof -
  show "same_fs h h' \<Longrightarrow> hist_step r t q c h h'" by (simp add: hist_step_def same_fs_view)
  show "grows_dirs h h' \<Longrightarrow> hist_step r t q c h h'" unfolding grows_dirs_def hist_step_def by blast
  show "tmp_only r t h h' \<Longrightarrow> hist_step r t q c h h'" unfolding tmp_only_def hist_step_def by blast
qed

lemma grows_file:
  assumes "grows_dirs h h'" "view h r q = Some n"
  shows "view h' r q = Some n"
proof -
  have "view h' r q = view h r q" using assms unfolding grows_dirs_def by (metis option.distinct(1))
  with assms(2) show ?thesis by simp
qed

lemma stream_to_file_spec:
  assumes "stream_to_file x (pd_root d, child d s) c n reader h = (res, h')"
    "view h (pd_root d) (child d s) = Some (FileNode c b a)" "n = of_nat (length c)"
  shows "tmp_only (pd_root d) (child d s) h h' \<and> (\<forall>m hash. res = Ok (m, hash) \<longrightarrow>
    delivers reader \<and> m = of_nat (length (c @ payload reader)) \<and>
    hash = ContentHash (x_sha256 x (c @ payload reader)) \<and>
    (\<exists>b'. view h' (pd_root d) (child d s) = Some (FileNode (c @ payload reader) b' a)))"
  using assms
proof (induction reader arbitrary: c n h b)
  case Nil
  then show ?case by (auto simp: tmp_only.step_refl)
next
  case (Cons ev reader)
  show ?case
  proof (cases ev)
    case (ReadError k)
    then show ?thesis using Cons.prems by (auto simp: tmp_only.step_refl)
  next
    case (Chunk bs)
    show ?thesis
    proof (cases "bs = []")
      case True
      then show ?thesis using Cons.prems Chunk by (auto simp: tmp_only.step_refl)
    next
      case False
      have "bind_x (call_std ''write temporary file'' (sys_write (pd_root d) (child d s) bs)) (\<lambda>_.
          if uint n + int (length bs) \<ge> 2 ^ 64 then throw_x (InvalidOperation ''stream size overflow'')
          else stream_to_file x (pd_root d, child d s) (c @ bs) (n + of_nat (length bs)) reader) h = (res, h')"
        using Cons.prems(1) Chunk False by simp
      then show ?thesis
      proof (cases rule: bind_x_cases)
        case (err e)
        then show ?thesis
          using sys_write_spec(1) [OF prod.collapse [symmetric]]
          by (auto simp: call_std_def mapErr_x_def child_def split: prod.splits)
      next
        case (ok u h1)
        have "sys_write (pd_root d) (pd_segments d @ [s]) bs h = (Ok (), h1)"
          using ok(1) by (simp add: child_def)
        from sys_write_spec [OF this]
        have w: "tmp_only (pd_root d) (child d s) h h1"
          "view h1 (pd_root d) (child d s) = Some (FileNode (c @ bs) False a)"
          using Cons.prems(2) by (auto simp: child_def)
        show ?thesis
        proof (cases "uint n + int (length bs) \<ge> 2 ^ 64")
          case True
          then show ?thesis using ok(2) w(1) by auto
        next
          case False': False
          have "stream_to_file x (pd_root d, child d s) (c @ bs) (n + of_nat (length bs)) reader h1 = (res, h')"
            using ok(2) False' by simp
          from Cons.IH [OF this w(2)] Cons.prems(3)
          show ?thesis using Chunk False tmp_only.step_trans [OF w(1)] by auto
        qed
      qed
    qed
  qed
qed

lemma cleaning_cases:
  assumes "cleaning d s m h = (res, h')"
  obtains (ok) y where "m h = (Ok y, h')" "res = Ok y"
  | (err) e h1 where "m h = (Err e, h1)" "res = Err e" "tmp_only (pd_root d) (child d s) h1 h'"
proof -
  obtain r1 h1 where m: "m h = (r1, h1)" by (rule prod.exhaust)
  show ?thesis
  proof (cases r1)
    case (Inr y)
    then have "res = Ok y \<and> h' = h1" using assms m by (auto simp: cleaning_def catch_x_def)
    with m Inr show ?thesis by (intro ok [of y]) simp_all
  next
    case (Inl e)
    obtain cr h2 where c: "cleanup_temp d s h1 = (cr, h2)" by (rule prod.exhaust)
    note cl = cleanup_temp_spec [OF c]
    have "res = Err e \<and> h' = h2"
      using assms m Inl c cl by (auto simp: cleaning_def catch_x_def bind_x_def)
    then show ?thesis using err [of e h1] m Inl cl by simp
  qed
qed

lemma commit_between_spec:
  assumes run: "commit_temp_between src s dst l dur h = (res, h')" and root: "pd_root dst = pd_root src"
    and ne: "child src s \<noteq> child dst l"
    and fil: "view h (pd_root src) (child src s) = Some (FileNode c b a)"
  shows "hist_step (pd_root src) (child src s) (Some (child dst l)) c h h' \<and>
    (is_ok res \<longrightarrow> view h' (pd_root src) (child dst l) = Some (FileNode c b a))"
  using run [unfolded commit_temp_between_def]
proof (cases rule: bind_x_cases)
  case (err e)
  then show ?thesis using hist_intros(1) [OF withinD [OF validate_destination_same err(1)]] by simp
next
  case (ok u h1)
  let ?r = "pd_root src" and ?t = "child src s" and ?q = "child dst l"
  have none: "view h ?r ?q = None" using validate_destination_Ok [OF ok(1)] root by simp
  have s1: "same_fs h h1" by (rule withinD [OF validate_destination_same ok(1)])
  obtain rr h2 where rn: "sys_rename ?r ?t ?q h1 = (rr, h2)" by (rule prod.exhaust)
  show ?thesis
  proof (cases "rr = Ok ()")
    case False
    then obtain e where e: "rr = Err e" by (cases rr) auto
    then have same: "same_fs h1 h2"
      using rename_move [OF rn [unfolded child_def]] ne by (auto simp: child_def)
    have "bind_x (cleanup_temp src s) (\<lambda>_. throw_x (errno_error ''atomically install history blob'' e)) h2
        = (res, h')"
      using ok(2) rn e by (simp add: try_x_def call_def mapErr_x_def)
    moreover obtain cr h3 where c: "cleanup_temp src s h2 = (cr, h3)" by (rule prod.exhaust)
    ultimately have "h' = h3" "\<not> is_ok res" "tmp_only ?r ?t h2 h'"
      using cleanup_temp_spec [OF c] by (auto simp: bind_x_def)
    moreover have "hist_step ?r ?t (Some ?q) c h h2"
      by (rule hist_step.step_trans [OF hist_intros(1) [OF s1] hist_intros(1) [OF same]])
    ultimately show ?thesis using hist_step.step_trans hist_intros(3) by blast
  next
    case True
    then have mv: "moved ?r ?t ?q h1 h2"
      using rename_move [OF rn [unfolded child_def]] ne by (auto simp: child_def)
    have "bind_x (sync_parent src dur) (\<lambda>_. when_x (pd_segments src \<noteq> pd_segments dst) (sync_parent dst dur)) h2
        = (res, h')"
      using ok(2) rn True by (simp add: try_x_def call_def mapErr_x_def)
    moreover have "within same_fs (bind_x (sync_parent src dur)
        (\<lambda>_. when_x (pd_segments src \<noteq> pd_segments dst) (sync_parent dst dur)))"
      by (intro same_fs.within_bind same_fs.within_when sync_parent_same)
    ultimately have s2: "same_fs h2 h'" by (rule withinD [rotated])
    have mv: "moved ?r ?t ?q h h'" using mv s1 s2 same_moved moved_same by blast
    have below: "view h ?r (?t @ z) = None" if "z \<noteq> []" for z
      by (rule view_below_leaf [OF fil _ that]) simp
    have v: "view h' r' z = (if r' = ?r \<and> z = ?q then Some (FileNode c b a) else view h r' z)"
      if "(r', z) \<noteq> (?r, ?t)" for r' z
    proof (cases "r' = ?r \<and> prefix ?q z")
      case True
      then obtain y where y: "z = ?q @ y" by (auto simp: prefix_def)
      then show ?thesis
        using mv True below [of y] fil view_below_none [OF none] by (cases "y = []") (auto simp: moved_def)
    next
      case False
      then have "view h' r' z = (if r' = ?r \<and> prefix ?t z then None else view h r' z)" "\<not> (r' = ?r \<and> z = ?q)"
        using mv by (auto simp: moved_def)
      moreover have "view h r' z = None" if "r' = ?r" "prefix ?t z"
        using that \<open>(r', z) \<noteq> (?r, ?t)\<close> by (metis below append_Nil2 prefixE)
      ultimately show ?thesis by auto
    qed
    have "hist_step ?r ?t (Some ?q) c h h'" unfolding hist_step_def using none by (auto simp: v)
    moreover have "view h' ?r ?q = Some (FileNode c b a)" using v [of ?r ?q] ne by auto
    ultimately show ?thesis by simp
  qed
qed

lemma install_blob_spec:
  assumes run: "install_blob hs p d s n hash h = (res, h')" and root: "pd_root d = hs_root hs"
    and ne: "child d s \<noteq> segments p @ [as_hex hash]"
    and fil: "view h (hs_root hs) (child d s) = Some (FileNode c b a)"
  shows "hist_step (hs_root hs) (child d s) (Some (segments p @ [as_hex hash])) c h h' \<and>
    (\<forall>blob. res = Ok blob \<longrightarrow> hb_content_hash blob = hash \<and> hb_size blob = n \<and>
      (\<exists>f. view h' (hs_root hs) (segments p @ [as_hex hash]) = Some f \<and> kind_of f = RegularFile \<and>
        (hb_created blob \<longrightarrow> f = FileNode c b a)))"
  using run [unfolded install_blob_def]
proof (cases rule: bind_x_cases)
  case (err e)
  then show ?thesis using open_relative_grows [OF err(1)] hist_intros(2) by blast
next
  case (ok dst h1)
  let ?q = "segments p @ [as_hex hash]"
  have o: "grows_dirs h h1" "pd_root dst = hs_root hs" "child dst (as_hex hash) = ?q"
    using open_relative_grows [OF ok(1)] by (auto simp: child_def)
  from ok(2) show ?thesis
  proof (cases rule: bind_x_cases)
    case (err e)
    then show ?thesis
      using hist_step.step_trans [OF hist_intros(2) [OF o(1)] hist_intros(1) [OF withinD [OF entry_kind_same err(1)]]]
      by simp
  next
    case (ok k h2)
    have s2: "same_fs h1 h2" by (rule withinD [OF entry_kind_same ok(1)])
    note h2 = hist_step.step_trans [OF hist_intros(2) [OF o(1)] hist_intros(1) [OF s2]]
    have k: "k = map_option kind_of (view h1 (hs_root hs) ?q)" using entry_kind_Ok [OF ok(1)] o by simp
    have f2: "view h2 (hs_root hs) (child d s) = Some (FileNode c b a)"
      using grows_file [OF o(1) fil] same_fs_view [OF s2] by simp
    show ?thesis
    proof (cases k)
      case None
      then have "bind_x (commit_temp_between d s dst (as_hex hash) (durability (hs_options hs))) (\<lambda>_.
          return_x \<lparr>hb_content_hash = hash, hb_size = n, hb_created = True\<rparr>) h2 = (res, h')"
        using ok(2) by simp
      then obtain cr where "commit_temp_between d s dst (as_hex hash) (durability (hs_options hs)) h2 = (cr, h')"
          "\<forall>blob. res = Ok blob \<longrightarrow> is_ok cr \<and> blob = \<lparr>hb_content_hash = hash, hb_size = n, hb_created = True\<rparr>"
        by (cases rule: bind_x_cases) auto
      with commit_between_spec [OF this(1)] ne f2 root o(2,3) show ?thesis
        using hist_step.step_trans [OF h2] by auto
    next
      case (Some kk)
      show ?thesis
      proof (cases "kk = RegularFile")
        case False
        then have "h' = h2" "\<not> is_ok res" using ok(2) Some by (cases kk; auto)+
        then show ?thesis using h2 by auto
      next
        case True
        then have "map_option kind_of (view h2 (hs_root hs) ?q) = Some RegularFile"
          using k Some same_fs_view [OF s2] by simp
        then obtain f where f: "view h2 (hs_root hs) ?q = Some f" "kind_of f = RegularFile" by auto
        have "bind_x (cleanup_temp d s) (\<lambda>_. return_x \<lparr>hb_content_hash = hash, hb_size = n, hb_created = False\<rparr>) h2
            = (res, h')" using ok(2) Some True by simp
        moreover obtain cr h3 where c: "cleanup_temp d s h2 = (cr, h3)" by (rule prod.exhaust)
        ultimately have r: "res = Ok \<lparr>hb_content_hash = hash, hb_size = n, hb_created = False\<rparr>" "h' = h3"
          and t: "tmp_only (hs_root hs) (child d s) h2 h3"
          using cleanup_temp_spec [OF c] root by (auto simp: bind_x_def)
        have "view h3 (hs_root hs) ?q = Some f" using t f(1) ne by (simp add: tmp_only_def)
        then show ?thesis using r f(2) hist_step.step_trans [OF h2 hist_intros(3) [OF t]] by simp
      qed
    qed
  qed
qed

definition blob_address :: "externals \<Rightarrow> history_store \<Rightarrow> content_hash \<Rightarrow> string list option" where
  "blob_address x hs hash =
     (case parse_path (x_nfc x) (hash_prefix hash) of
        Err _ \<Rightarrow> None
      | Ok pre \<Rightarrow> (case join (x_nfc x) (hs_blob_root hs) pre of
          Err _ \<Rightarrow> None | Ok p \<Rightarrow> Some (segments p @ [as_hex hash])))"

definition blobs_ok :: "externals \<Rightarrow> history_store \<Rightarrow> host \<Rightarrow> bool" where
  \<comment> \<open>every file at an address holds the content the address names\<close>
  "blobs_ok x hs h \<longleftrightarrow> (\<forall>hash q c b a. length (hash_bytes hash) = 32 \<longrightarrow>
     blob_address x hs hash = Some q \<longrightarrow> view h (hs_root hs) q = Some (FileNode c b a) \<longrightarrow>
     ContentHash (x_sha256 x c) = hash)"

lemma as_hex_not_temp:
  assumes "length (hash_bytes hash) = 32"
  shows "as_hex hash \<noteq> temporary_name pre simple"
proof -
  obtain b bs where "hash_bytes hash = b # bs" using assms by (cases "hash_bytes hash") auto
  then have "as_hex hash = hex_char (drop_bit 4 b) # tl (as_hex hash)" by (simp add: as_hex_def)
  moreover have "hex_char (drop_bit 4 b) \<noteq> CHR ''.''"
    using hex_char_value [OF digits_small(1), of b] by (auto simp: hex_digit_value_def)
  ultimately show ?thesis by (metis append_Cons list.inject temporary_name_def)
qed

lemma ensure_directory_root_grows: "within grows_dirs (ensure_directory_root l1 l2 r)"
proof -
  have "within (root_step r) (sys_create_root r)" using create_root_step by (simp add: within_def)
  then have "within (root_step r) (ensure_directory_root l1 l2 r)"
    unfolding ensure_directory_root_def
    by (auto intro!: root_step.within_core same_root [OF reads_same_fs(1)]
        simp: call_std_def split: sum.splits entry_kind.splits)
  then show ?thesis by (rule within_mono) (rule root_step_grows)
qed

lemma history_ensure_root_grows: "within grows_dirs (history_ensure_root hs)"
proof -
  have "within grows_dirs (open_relative_directory r p create)" for r p create
    by (rule withinI) (metis open_relative_grows prod.collapse)
  then show ?thesis
    unfolding history_ensure_root_def
    by (intro grows_dirs.within_core ensure_directory_root_grows)
qed

lemma cleaning_step:
  assumes "cleaning d s m h = (res, h')" "pd_root d = r" "child d s = t"
    and "\<And>r1 h1. m h = (r1, h1) \<Longrightarrow> hist_step r t q c h h1"
  shows "hist_step r t q c h h'"
  using assms(1)
proof (cases rule: cleaning_cases)
  case (ok y)
  then show ?thesis using assms(4) by blast
next
  case (err e h1)
  show ?thesis
    using assms(4) [OF err(1)] hist_intros(3) [OF err(3) [unfolded assms(2,3)]] by (rule hist_step.step_trans)
qed

lemma cleaning_Ok: "cleaning d s m h = (Ok y, h') \<Longrightarrow> m h = (Ok y, h')"
  by (erule cleaning_cases) auto

definition blob_stored :: "history_store \<Rightarrow> string list option \<Rightarrow> bytes \<Rightarrow> host \<Rightarrow> history_blob \<Rightarrow> bool" where
  "blob_stored hs q c h blob \<longleftrightarrow> (\<exists>z f. q = Some z \<and> view h (hs_root hs) z = Some f \<and>
     kind_of f = RegularFile \<and> (hb_created blob \<longrightarrow>
       (\<exists>b a. f = FileNode c b a \<and> (durability (hs_options hs) \<noteq> NoSync \<longrightarrow> b))))"

lemma put_tail:
  assumes run: "bind_x (lift_x (map_err StorageDomain (parse_path (x_nfc x) (hash_prefix hash)))) (\<lambda>pre.
      bind_x (lift_x (map_err StorageDomain (join (x_nfc x) (hs_blob_root hs) pre))) (\<lambda>p.
      bind_x (cleaning d s (open_relative_directory (hs_root hs) p True)) (\<lambda>_.
        cleaning d s (install_blob hs p d s n hash)))) h = (res, h')"
    and d: "pd_root d = hs_root hs" "s \<noteq> as_hex hash"
    and fil: "view h (hs_root hs) (child d s) = Some (FileNode c b a)"
    and b: "durability (hs_options hs) \<noteq> NoSync \<Longrightarrow> b"
  shows "hist_step (hs_root hs) (child d s) (blob_address x hs hash) c h h' \<and>
    (\<forall>blob. res = Ok blob \<longrightarrow> hb_content_hash blob = hash \<and> hb_size blob = n \<and>
      blob_stored hs (blob_address x hs hash) c h' blob)"
proof (cases "parse_path (x_nfc x) (hash_prefix hash)")
  case (Inl e)
  then show ?thesis using run by (auto simp: hist_step.step_refl)
next
  case pre: (Inr pre)
  show ?thesis
  proof (cases "join (x_nfc x) (hs_blob_root hs) pre")
    case (Inl e)
    then show ?thesis using run pre by (auto simp: hist_step.step_refl)
  next
    case (Inr p)
    let ?q = "segments p @ [as_hex hash]"
    have addr: "blob_address x hs hash = Some ?q" using pre Inr by (simp add: blob_address_def)
    have ne: "child d s \<noteq> ?q" using d(2) by (simp add: child_def)
    from run have "bind_x (cleaning d s (open_relative_directory (hs_root hs) p True)) (\<lambda>_.
        cleaning d s (install_blob hs p d s n hash)) h = (res, h')" using pre Inr by simp
    then show ?thesis
    proof (rule hist_step.bind_post)
      show "hist_step (hs_root hs) (child d s) (blob_address x hs hash) c h h1"
        if "cleaning d s (open_relative_directory (hs_root hs) p True) h = (r1, h1)" for r1 h1
        by (rule cleaning_step [OF that d(1) refl]) (blast dest: open_relative_grows hist_intros(2))
      fix y h1
      assume open_ok: "cleaning d s (open_relative_directory (hs_root hs) p True) h = (Ok y, h1)"
        and inst: "cleaning d s (install_blob hs p d s n hash) h1 = (res, h')"
      have "grows_dirs h h1" using open_relative_grows [OF cleaning_Ok [OF open_ok]] by simp
      from grows_file [OF this fil]
      have f1: "view h1 (hs_root hs) (child d s) = Some (FileNode c b a)" .
      note spec = install_blob_spec [OF _ d(1) ne f1]
      have "hist_step (hs_root hs) (child d s) (Some ?q) c h1 h'"
        by (rule cleaning_step [OF inst d(1) refl]) (blast dest: spec)
      moreover have "hb_content_hash blob = hash \<and> hb_size blob = n \<and> blob_stored hs (Some ?q) c h' blob"
        if "res = Ok blob" for blob
      proof -
        from inst that have "install_blob hs p d s n hash h1 = (Ok blob, h')" by (auto dest: cleaning_Ok)
        from spec [OF this] b show ?thesis by (auto simp: blob_stored_def)
      qed
      ultimately show "hist_step (hs_root hs) (child d s) (blob_address x hs hash) c h1 h' \<and>
        (\<forall>blob. res = Ok blob \<longrightarrow> hb_content_hash blob = hash \<and> hb_size blob = n \<and>
          blob_stored hs (blob_address x hs hash) c h' blob)" by (simp add: addr)
    qed
  qed
qed

lemma put_spec:
  assumes run: "put x hs simple reader h = (res, h')"
    and t: "t = segments (hs_blob_root hs) @ [temporary_name ''mcp-vault-history-tmp'' simple]"
    and hash: "hash = ContentHash (x_sha256 x (payload reader))" "length (hash_bytes hash) = 32"
  shows "hist_step (hs_root hs) t (blob_address x hs hash) (payload reader) h h' \<and>
    (\<forall>blob. res = Ok blob \<longrightarrow> delivers reader \<and> hb_content_hash blob = hash \<and>
      hb_size blob = of_nat (length (payload reader)) \<and>
      blob_stored hs (blob_address x hs hash) (payload reader) h' blob)"
  using run [unfolded put_def Let_def]
proof (elim hist_step.bind_post)
  let ?s = "temporary_name ''mcp-vault-history-tmp'' simple"
  let ?R = "hist_step (hs_root hs) t (blob_address x hs hash) (payload reader)"
  show "?R h h1" if "history_ensure_root hs h = (r1, h1)" for r1 h1
    by (rule hist_intros(2) [OF withinD [OF history_ensure_root_grows that]])
  show "?R h1 h2" if "ensure_free_space (hs_options hs) h1 = (r1, h2)" for r1 h1 h2
    by (rule hist_intros(1) [OF withinD [OF free_space_same that]])
  show "?R h1 h2" if "open_relative_directory (hs_root hs) (hs_blob_root hs) True h1 = (r1, h2)" for r1 h1 h2
    using open_relative_grows [OF that] hist_intros(2) by blast
  fix d h3 h2
  assume "open_relative_directory (hs_root hs) (hs_blob_root hs) True h2 = (Ok d, h3)"
  then have d: "pd_root d = hs_root hs" "child d ?s = t"
    using open_relative_grows by (auto simp: t child_def)
  show "?R h3 h4" if "prepare_temp d ?s h3 = (r1, h4)" for r1 h4
    using prepare_temp_spec(1) [OF that] d hist_intros(3) by auto
  fix u h4
  assume "prepare_temp d ?s h3 = (Ok u, h4)"
  then obtain a where f4: "view h4 (pd_root d) (child d ?s) = Some (FileNode [] False a)"
    using prepare_temp_spec(2) by fastforce
  note stream = stream_to_file_spec [OF _ f4, of x 0 reader, simplified]
  show "?R h4 h5"
    if "cleaning d ?s (stream_to_file x (pd_root d, child d ?s) [] 0 reader) h4 = (r1, h5)" for r1 h5
    using that d by (rule cleaning_step) (metis stream d hist_intros(3))
  fix y h5
  assume "cleaning d ?s (stream_to_file x (pd_root d, child d ?s) [] 0 reader) h4 = (Ok y, h5)"
  from stream [OF cleaning_Ok [OF this]]
  obtain b where y: "y = (of_nat (length (payload reader)), hash)" "delivers reader"
    and f5: "view h5 (pd_root d) (child d ?s) = Some (FileNode (payload reader) b a)"
    by (cases y) (auto simp: hash(1))
  let ?dur = "durability (hs_options hs)"
  assume "(case y of (n, hash) \<Rightarrow> bind_x (cleaning d ?s (sync_file ?dur (pd_root d, child d ?s))) (\<lambda>_.
     bind_x (lift_x (map_err StorageDomain (parse_path (x_nfc x) (hash_prefix hash)))) (\<lambda>pre.
     bind_x (lift_x (map_err StorageDomain (join (x_nfc x) (hs_blob_root hs) pre))) (\<lambda>p.
     bind_x (cleaning d ?s (open_relative_directory (hs_root hs) p True)) (\<lambda>_.
     cleaning d ?s (install_blob hs p d ?s n hash)))))) h5 = (res, h')"
  then show "?R h5 h' \<and> (\<forall>blob. res = Ok blob \<longrightarrow> delivers reader \<and> hb_content_hash blob = hash \<and>
      hb_size blob = of_nat (length (payload reader)) \<and>
      blob_stored hs (blob_address x hs hash) (payload reader) h' blob)"
    unfolding y(1) prod.case
  proof (rule hist_step.bind_post)
    show "?R h5 h6" if "cleaning d ?s (sync_file ?dur (pd_root d, child d ?s)) h5 = (r1, h6)" for r1 h6
      using that d by (rule cleaning_step) (metis sync_file_spec(1) d hist_intros(3))
    fix v h6
    assume "cleaning d ?s (sync_file ?dur (pd_root d, child d ?s)) h5 = (Ok v, h6)"
    from sync_file_spec(2) [OF cleaning_Ok [OF this] _ f5]
    obtain b' where f6: "view h6 (hs_root hs) (child d ?s) = Some (FileNode (payload reader) b' a)"
      "?dur \<noteq> NoSync \<Longrightarrow> b'" by (auto simp: d)
    assume "bind_x (lift_x (map_err StorageDomain (parse_path (x_nfc x) (hash_prefix hash)))) (\<lambda>pre.
     bind_x (lift_x (map_err StorageDomain (join (x_nfc x) (hs_blob_root hs) pre))) (\<lambda>p.
     bind_x (cleaning d ?s (open_relative_directory (hs_root hs) p True)) (\<lambda>_.
     cleaning d ?s (install_blob hs p d ?s (of_nat (length (payload reader))) hash)))) h6 = (res, h')"
    from put_tail [OF this d(1) as_hex_not_temp [OF hash(2), symmetric] f6]
    show "?R h6 h' \<and> (\<forall>blob. res = Ok blob \<longrightarrow> delivers reader \<and> hb_content_hash blob = hash \<and>
      hb_size blob = of_nat (length (payload reader)) \<and>
      blob_stored hs (blob_address x hs hash) (payload reader) h' blob)"
      by (simp add: d y(2))
  qed
qed

lemma blob_address_last:
  "blob_address x hs hash = Some q \<Longrightarrow> q \<noteq> [] \<and> last q = as_hex hash"
  by (auto simp: blob_address_def split: sum.splits)

lemma blob_address_inject:
  assumes "blob_address x hs a = Some q" "blob_address x hs b = Some q"
    "length (hash_bytes a) = 32" "length (hash_bytes b) = 32"
  shows "a = b"
proof -
  have "as_hex a = as_hex b" using blob_address_last [OF assms(1)] blob_address_last [OF assms(2)] by simp
  moreover have "from_hex (as_hex h) = Ok h" if "length (hash_bytes h) = 32" for h
    by (rule from_hex_as_hex [OF that])
  ultimately show ?thesis using assms(3,4) by (metis Inr_inject)
qed

lemma hist_step_blobs:
  assumes step: "hist_step (hs_root hs) t (blob_address x hs hash) c h h'"
    and t: "t = segments (hs_blob_root hs) @ [temporary_name pre simple]"
    and hash: "hash = ContentHash (x_sha256 x c)" "length (hash_bytes hash) = 32"
    and ok: "blobs_ok x hs h"
  shows "blobs_ok x hs h'"
  unfolding blobs_ok_def
proof (intro allI impI)
  fix g q d b a
  assume g: "length (hash_bytes g) = 32" "blob_address x hs g = Some q"
    and f: "view h' (hs_root hs) q = Some (FileNode d b a)"
  have "q \<noteq> t" using blob_address_last [OF g(2)] as_hex_not_temp [OF g(1)] by (metis t last_snoc)
  then have "view h' (hs_root hs) q = view h (hs_root hs) q \<or>
      blob_address x hs hash = Some q \<and> d = c"
    using step [unfolded hist_step_def, rule_format, of "hs_root hs" q] f by auto
  then show "ContentHash (x_sha256 x d) = g"
  proof
    assume "view h' (hs_root hs) q = view h (hs_root hs) q"
    then show ?thesis using ok g f unfolding blobs_ok_def by metis
  next
    assume "blob_address x hs hash = Some q \<and> d = c"
    then show ?thesis using blob_address_inject [OF _ g(2) hash(2) g(1)] hash(1) by simp
  qed
qed

text \<open>
  C32: Storing a history blob under every schedule of I/O errors and crashes, for a digest of 32
  bytes: apart from the temporary file every entry that existed is unchanged; if every stored file
  was named by the digest of its content it still is, so no crash leaves a torn blob at an
  address; and success means that the whole stream was read, that the reported hash and size are
  its own, and that a regular file is stored at its address, synced unless syncing is off when this
  call created it.
\<close>

theorem history_put_safe:
  assumes run: "put x hs simple reader h = (res, h')"
    and sha: "\<And>bs. length (x_sha256 x bs) = 32"
  shows "(\<forall>r q n. (r, q) \<noteq> (hs_root hs, segments (hs_blob_root hs) @
        [temporary_name ''mcp-vault-history-tmp'' simple]) \<longrightarrow>
      view h r q = Some n \<longrightarrow> view h' r q = Some n) \<and>
    (blobs_ok x hs h \<longrightarrow> blobs_ok x hs h') \<and>
    (\<forall>blob. res = Ok blob \<longrightarrow> delivers reader \<and>
      hb_content_hash blob = ContentHash (x_sha256 x (payload reader)) \<and>
      hb_size blob = of_nat (length (payload reader)) \<and>
      blob_stored hs (blob_address x hs (hb_content_hash blob)) (payload reader) h' blob)"
proof -
  let ?hash = "ContentHash (x_sha256 x (payload reader))"
  have len: "length (hash_bytes ?hash) = 32" by (simp add: sha)
  note spec = put_spec [OF run refl refl len]
  have "view h' r q = Some n"
    if "(r, q) \<noteq> (hs_root hs, segments (hs_blob_root hs) @ [temporary_name ''mcp-vault-history-tmp'' simple])"
      "view h r q = Some n" for r q n
    using spec that unfolding hist_step_def by (metis option.distinct(1))
  moreover have "blobs_ok x hs h \<longrightarrow> blobs_ok x hs h'"
    using hist_step_blobs [OF conjunct1 [OF spec] refl refl len] by simp
  ultimately show ?thesis using spec by auto
qed

lemma open_relative_same: "within same_fs (open_relative_directory r p False)"
  by (auto simp: open_relative_directory_def intro!: same_fs.within_core within_rules
      split: option.splits entry_kind.splits)

lemma sys_open_file_Ok:
  assumes "sys_open_file r p h = (Ok n, h')"
  shows "same_fs h h' \<and> view h r p = Some (shallow n)"
  using assms unfolding sys_open_file_def
proof (cases rule: syscall_cases)
  case (runs h1)
  then show ?thesis using same_fs_host [OF runs(1)]
    by (auto simp: view_def split: option.splits node.splits if_splits entry_kind.splits)
qed auto

lemma open_regular_Ok:
  assumes "open_regular d l h = (Ok n, h')"
  obtains h1 where "sys_open_file (pd_root d) (child d l) h1 = (Ok n, h')" "same_fs h h1"
  using assms [unfolded open_regular_def]
proof (cases rule: bind_x_cases)
  case (ok k h1)
  have "k = Some RegularFile \<and> call ''open file'' (sys_open_file (pd_root d) (child d l)) h1 = (Ok n, h')"
    using ok(2) by (cases k) (auto split: entry_kind.splits)
  then show ?thesis using that [of h1] withinD [OF entry_kind_same ok(1)] by simp
qed simp

lemma history_open_at:
  assumes "history_open x hs hash h = (Ok rf, h')"
  shows "same_fs h h' \<and> (\<exists>q. blob_address x hs hash = Some q \<and>
    view h (hs_root hs) q = Some (shallow (rf_node rf)) \<and> kind_of (rf_node rf) = RegularFile)"
proof -
  obtain pre p d k n h1 h2 h3 where pre: "parse_path (x_nfc x) (hash_prefix hash) = Ok pre"
    and p: "join (x_nfc x) (hs_blob_root hs) pre = Ok p"
    and d: "mapErr_x history_missing (open_relative_directory (hs_root hs) p False) h = (Ok d, h1)"
    and k: "mapErr_x history_missing (entry_kind_at d (as_hex hash)) h1 = (Ok (Some k), h2)"
    and n: "open_regular d (as_hex hash) h2 = (Ok n, h3)" "rf_node rf = n"
    and fin: "\<exists>m. call_std ''read history metadata'' (sys_fstat n) h3 = (Ok m, h')" and kk: "k = RegularFile"
    using assms unfolding history_open_def bind_x_Ok_conv
    by (auto simp: bind_x_Ok_conv split: option.splits if_splits)
  have d': "open_relative_directory (hs_root hs) p False h = (Ok d, h1)"
    and k': "entry_kind_at d (as_hex hash) h1 = (Ok (Some k), h2)"
    using d k by (auto simp: mapErr_x_def map_err_Ok_conv prod_eq_iff)
  obtain h4 where n': "sys_open_file (pd_root d) (child d (as_hex hash)) h4 = (Ok n, h3)" "same_fs h2 h4"
    by (rule open_regular_Ok [OF n(1)])
  have loc: "pd_root d = hs_root hs" "child d (as_hex hash) = segments p @ [as_hex hash]"
    using open_relative_grows [OF d'] by (simp_all add: child_def)
  have same: "same_fs h h1" "same_fs h1 h2" "same_fs h3 h'"
    using withinD [OF open_relative_same d'] withinD [OF entry_kind_same k'] fin
    by (auto dest: withinD [OF reads_same_fs(5)])
  have s4: "same_fs h h4" using same(1,2) n'(2) same_fs.step_trans by blast
  have o: "same_fs h4 h3" "view h4 (hs_root hs) (segments p @ [as_hex hash]) = Some (shallow n)"
    using sys_open_file_Ok [OF n'(1)] loc by simp_all
  have v: "view h (hs_root hs) (segments p @ [as_hex hash]) = Some (shallow n)"
    using o(2) same_fs_view [OF s4] by simp
  then have "kind_of n = RegularFile"
    using entry_kind_Ok [OF k'] same_fs_view [OF same(1)] loc kk by simp
  moreover have "same_fs h h'" using s4 o(1) same(3) same_fs.step_trans by blast
  moreover have "blob_address x hs hash = Some (segments p @ [as_hex hash])"
    using pre p by (simp add: blob_address_def)
  ultimately show ?thesis using v n(2) by blast
qed

text \<open>
  Opening a blob by its address changes nothing, and as long as every stored file is named by
  the digest of its content, what \<^verbatim>\<open>HistoryStore::open\<close> returns for an address is a regular file
  with exactly the content the address names.
\<close>

theorem history_open_content:
  assumes "history_open x hs hash h = (Ok rf, h')" "blobs_ok x hs h" "length (hash_bytes hash) = 32"
  shows "same_fs h h' \<and> kind_of (rf_node rf) = RegularFile \<and>
    (\<forall>c b a. rf_node rf = FileNode c b a \<longrightarrow> ContentHash (x_sha256 x c) = hash)"
  using history_open_at [OF assms(1)] assms(2,3) unfolding blobs_ok_def by fastforce

text \<open>A store whose root does not exist yet; the first blob is interrupted by a crash.\<close>

definition example_history :: history_store where
  "example_history =
     \<lparr>hs_vault_id = 1, hs_root = [''srv'', ''h''], hs_blob_root = VaultPath ''u/blobs'',
      hs_options = storage_options_default\<rparr>"

theorem history_put_safe_witness:
  "let (res, h') = put example_externals example_history ''7'' [Chunk ''ab'', Chunk ''c'']
       (example_host (replicate 15 Fine @ [Stop 1]))
   in view h' [''srv'', ''v''] [''notes'', ''old.md''] = Some (FileNode ''old'' True example_attr) \<and>
      blobs_ok example_externals example_history h'"
proof -
  let ?h = "example_host (replicate 15 Fine @ [Stop 1])"
  let ?run = "put example_externals example_history ''7'' [Chunk ''ab'', Chunk ''c''] ?h"
  obtain res h' where run: "?run = (res, h')" by (rule prod.exhaust)
  have sha: "length (x_sha256 example_externals bs) = 32" for bs by (simp add: example_externals_def)
  have old: "view ?h [''srv'', ''v''] [''notes'', ''old.md''] = Some (FileNode ''old'' True example_attr)"
    by code_simp
  have "view ?h (hs_root example_history) q = None" for q
    by (simp add: example_history_def example_host_def view_def host_at_def)
  then have "blobs_ok example_externals example_history ?h" by (simp add: blobs_ok_def)
  moreover have "[''srv'', ''v''] \<noteq> hs_root example_history" by (simp add: example_history_def)
  ultimately have "view h' [''srv'', ''v''] [''notes'', ''old.md''] = Some (FileNode ''old'' True example_attr)"
      "blobs_ok example_externals example_history h'"
    using history_put_safe [OF run sha] old by blast+
  then show ?thesis unfolding Let_def run prod.case by blast
qed

definition example_blob_host :: host where
  "example_blob_host = (example_host [])\<lparr>h_roots := (\<lambda>r. if r = [''srv'', ''h''] then
     Some (DirNode example_attr [(''u'', DirNode example_attr [(''blobs'', DirNode example_attr
       [(''03'', DirNode example_attr
         [(concat (replicate 32 ''03''), FileNode ''abc'' True example_attr)])])])]) else None)\<rparr>"

lemma example_blob_only:
  assumes "view example_blob_host [''srv'', ''h''] q = Some (FileNode c b a)"
  shows "q = [''u'', ''blobs'', ''03'', concat (replicate 32 ''03'')] \<and> c = ''abc''"
  using assms
  by (cases q; cases "tl q"; cases "tl (tl q)"; cases "tl (tl (tl q))"; cases "tl (tl (tl (tl q)))")
    (auto simp: view_def host_at_def example_blob_host_def split: if_splits)

theorem history_open_content_witness:
  "case history_open example_externals example_history (ContentHash (replicate 32 3)) example_blob_host of
     (Ok rf, h') \<Rightarrow> same_fs example_blob_host h' \<and> kind_of (rf_node rf) = RegularFile
   | _ \<Rightarrow> False"
proof -
  let ?hash = "ContentHash (replicate 32 3)"
  let ?run = "history_open example_externals example_history ?hash example_blob_host"
  have "as_hex ?hash = concat (map (\<lambda>b. as_hex (ContentHash [b])) (replicate 32 3))"
    by (simp add: as_hex_def)
  moreover have "as_hex (ContentHash [3]) = ''03''" by code_simp
  ultimately have hex: "as_hex ?hash = concat (replicate 32 ''03'')" by (simp only: map_replicate)
  have "is_ok (fst ?run)" unfolding history_open_def hash_prefix_def hex by code_simp
  then obtain rf h' where run: "?run = (Ok rf, h')" by (cases ?run; cases "fst ?run") auto
  have len: "length (hash_bytes ?hash) = 32" by simp
  have "ContentHash (x_sha256 example_externals ''abc'') = ?hash" by (simp add: example_externals_def)
  moreover have "g = ?hash"
    if "length (hash_bytes g) = 32" "blob_address example_externals example_history g = Some q"
      "last q = as_hex ?hash" for g q
    using blob_address_last [OF that(2)] that(3) from_hex_as_hex [OF that(1)] from_hex_as_hex [OF len] by simp
  ultimately have "blobs_ok example_externals example_history example_blob_host"
    unfolding blobs_ok_def by (auto simp: example_history_def hex dest!: example_blob_only)
  from history_open_content [OF run this len] show ?thesis by (simp add: run)
qed

end
