(* ===== verification/Locks.thy ===== *)
theory Locks
  imports Vault_Paths "HOL-Library.List_Lexorder" "HOL-Library.Char_ord"
begin

text \<open>
  In-process locking of vault namespaces and paths (crates/vault-core/src/lock.rs).

  The managers keep a hash map from keys to weak references of mutexes. A mutex lives as long as
  some task has a strong reference to it, as a guard or in the list it is still waiting for. The
  model runs any number of tasks: each operation of the service takes at most the namespace lock
  of a vault and then one set of path locks of the same vault, and may be cancelled at any point.
  The body of an \<open>acquire\<close> between taking and releasing the map's own mutex is one step.
\<close>

section \<open>Keys\<close>

datatype lock_key = LockKey (lk_vault: vault_id) (lk_path: string)

instantiation lock_key :: linorder
begin

definition less_eq_lock_key :: "lock_key \<Rightarrow> lock_key \<Rightarrow> bool" where
  "less_eq_lock_key a b \<longleftrightarrow>
     lk_vault a < lk_vault b \<or> lk_vault a = lk_vault b \<and> lk_path a \<le> lk_path b"

definition less_lock_key :: "lock_key \<Rightarrow> lock_key \<Rightarrow> bool" where
  "less_lock_key a b \<longleftrightarrow>
     lk_vault a < lk_vault b \<or> lk_vault a = lk_vault b \<and> lk_path a < lk_path b"

instance
  by standard (auto simp: less_eq_lock_key_def less_lock_key_def lock_key.expand)

end

datatype resource = Namespace vault_id | PathLock lock_key

text \<open>Namespaces come before paths; this is the order in which every task takes its locks.\<close>

instantiation resource :: linorder
begin

fun less_eq_resource :: "resource \<Rightarrow> resource \<Rightarrow> bool" where
  "less_eq_resource (Namespace a) (Namespace b) \<longleftrightarrow> a \<le> b"
| "less_eq_resource (Namespace _) (PathLock _) \<longleftrightarrow> True"
| "less_eq_resource (PathLock _) (Namespace _) \<longleftrightarrow> False"
| "less_eq_resource (PathLock a) (PathLock b) \<longleftrightarrow> a \<le> b"

definition less_resource :: "resource \<Rightarrow> resource \<Rightarrow> bool" where
  "less_resource a b \<longleftrightarrow> a \<le> b \<and> a \<noteq> b"

instance
proof
  fix a b c :: resource
  show "a < b \<longleftrightarrow> a \<le> b \<and> \<not> b \<le> a" by (cases a; cases b) (auto simp: less_resource_def)
  show "a \<le> a" by (cases a) simp_all
  show "a \<le> b \<Longrightarrow> b \<le> c \<Longrightarrow> a \<le> c" by (cases a; cases b; cases c) auto
  show "a \<le> b \<Longrightarrow> b \<le> a \<Longrightarrow> a = b" by (cases a; cases b) auto
  show "a \<le> b \<or> b \<le> a" by (cases a; cases b) auto
qed

end

section \<open>The managers\<close>

datatype mutex = Mutex (mx_for: resource) (mx_serial: nat)

record lock_task =
  tk_held :: "mutex list"
  tk_pending :: "mutex list"
  tk_plan :: "(vault_context \<times> vault_path list \<times> path_case_sensitivity) option"
  tk_asked :: "resource list"

record lock_world =
  lw_namespaces :: "vault_id \<rightharpoonup> mutex"
  lw_paths :: "lock_key \<rightharpoonup> mutex"
  lw_next :: nat
  lw_tasks :: "lock_task list"

definition idle_task :: lock_task where
  "idle_task = \<lparr>tk_held = [], tk_pending = [], tk_plan = None, tk_asked = []\<rparr>"

definition strong_refs :: "lock_task list \<Rightarrow> mutex list" where
  "strong_refs ts = concat (map (\<lambda>t. tk_held t @ tk_pending t) ts)"

definition upgrade :: "lock_task list \<Rightarrow> mutex \<Rightarrow> mutex option" where
  \<comment> \<open>\<open>Weak::upgrade\<close>: a reference as long as someone has one\<close>
  "upgrade ts m = (if m \<in> set (strong_refs ts) then Some m else None)"

definition retain_strong :: "lock_task list \<Rightarrow> ('k \<rightharpoonup> mutex) \<Rightarrow> ('k \<rightharpoonup> mutex)" where
  \<comment> \<open>\<open>locks.retain(|_, mutex| mutex.strong_count() != 0)\<close>\<close>
  "retain_strong ts locks = (\<lambda>k. Option.bind (locks k) (upgrade ts))"

fun claim_mutexes ::
  "('k \<Rightarrow> resource) \<Rightarrow> lock_task list \<Rightarrow> 'k list \<Rightarrow> ('k \<rightharpoonup> mutex) \<Rightarrow> nat \<Rightarrow> mutex list \<times> ('k \<rightharpoonup> mutex) \<times> nat" where
  "claim_mutexes lab ts [] locks n = ([], locks, n)"
| "claim_mutexes lab ts (k # ks) locks n =
     (case Option.bind (locks k) (upgrade ts) of
        Some m \<Rightarrow> (let (ms, locks', n') = claim_mutexes lab ts ks locks n in (m # ms, locks', n'))
      | None \<Rightarrow>
          (let m = Mutex (lab k) n;
               (ms, locks', n') = claim_mutexes lab ts ks (locks(k \<mapsto> m)) (n + 1)
           in (m # ms, locks', n')))"

definition lock_keys ::
  "(string \<Rightarrow> string) \<Rightarrow> vault_context \<Rightarrow> vault_path list \<Rightarrow> path_case_sensitivity \<Rightarrow> lock_key list" where
  "lock_keys lower ctx paths sens =
     remdups_adj (sort (map (\<lambda>p. LockKey (ctx_id ctx) (comparison_key lower p sens)) paths))"

definition namespace_acquire ::
  "vault_context \<Rightarrow> lock_world \<Rightarrow> mutex list \<times> lock_world" where
  \<comment> \<open>\<open>NamespaceLockManager::acquire\<close> up to the wait for the mutex\<close>
  "namespace_acquire ctx w =
     (let (ms, locks, n) = claim_mutexes Namespace (lw_tasks w) [ctx_id ctx]
            (retain_strong (lw_tasks w) (lw_namespaces w)) (lw_next w)
      in (ms, w\<lparr>lw_namespaces := locks, lw_next := n\<rparr>))"

definition path_acquire ::
  "(string \<Rightarrow> string) \<Rightarrow> vault_context \<Rightarrow> vault_path list \<Rightarrow> path_case_sensitivity \<Rightarrow> lock_world \<Rightarrow>
     mutex list \<times> lock_world" where
  \<comment> \<open>\<open>PathLockManager::acquire\<close> up to the waits for the mutexes, taken in this order\<close>
  "path_acquire lower ctx paths sens w =
     (let (ms, locks, n) = claim_mutexes PathLock (lw_tasks w) (lock_keys lower ctx paths sens)
            (retain_strong (lw_tasks w) (lw_paths w)) (lw_next w)
      in (ms, w\<lparr>lw_paths := locks, lw_next := n\<rparr>))"

definition free :: "lock_world \<Rightarrow> mutex \<Rightarrow> bool" where
  "free w m \<longleftrightarrow> (\<forall>t \<in> set (lw_tasks w). m \<notin> set (tk_held t))"

section \<open>Interleaved tasks\<close>

inductive lock_step :: "(string \<Rightarrow> string) \<Rightarrow> lock_world \<Rightarrow> lock_world \<Rightarrow> bool" for lower where
  start_namespace:
    "namespace_acquire ctx w = (ms, w') \<Longrightarrow>
     lock_step lower w (w'\<lparr>lw_tasks := lw_tasks w @
       [\<lparr>tk_held = [], tk_pending = ms, tk_plan = Some (ctx, paths, sens),
         tk_asked = [Namespace (ctx_id ctx)]\<rparr>]\<rparr>)"
| start_paths:
    "path_acquire lower ctx paths sens w = (ms, w') \<Longrightarrow>
     lock_step lower w (w'\<lparr>lw_tasks := lw_tasks w @
       [\<lparr>tk_held = [], tk_pending = ms, tk_plan = None,
         tk_asked = map PathLock (lock_keys lower ctx paths sens)\<rparr>]\<rparr>)"
| then_paths:
    "i < length (lw_tasks w) \<Longrightarrow> t = lw_tasks w ! i \<Longrightarrow> tk_pending t = [] \<Longrightarrow>
     tk_plan t = Some (ctx, paths, sens) \<Longrightarrow> path_acquire lower ctx paths sens w = (ms, w') \<Longrightarrow>
     lock_step lower w (w'\<lparr>lw_tasks := (lw_tasks w)[i := t\<lparr>tk_pending := ms, tk_plan := None,
       tk_asked := tk_asked t @ map PathLock (lock_keys lower ctx paths sens)\<rparr>]\<rparr>)"
| locked:
    "i < length (lw_tasks w) \<Longrightarrow> t = lw_tasks w ! i \<Longrightarrow> tk_pending t = m # ms \<Longrightarrow> free w m \<Longrightarrow>
     lock_step lower w (w\<lparr>lw_tasks := (lw_tasks w)[i := t\<lparr>tk_held := tk_held t @ [m],
       tk_pending := ms\<rparr>]\<rparr>)"
| dropped:
    "i < length (lw_tasks w) \<Longrightarrow>
     lock_step lower w (w\<lparr>lw_tasks := (lw_tasks w)[i := idle_task]\<rparr>)"

definition lock_init :: lock_world where
  "lock_init = \<lparr>lw_namespaces = Map.empty, lw_paths = Map.empty, lw_next = 0, lw_tasks = []\<rparr>"

definition lw_map :: "lock_world \<Rightarrow> resource \<Rightarrow> mutex option" where
  "lw_map w r = (case r of Namespace v \<Rightarrow> lw_namespaces w v | PathLock k \<Rightarrow> lw_paths w k)"

definition inside :: "lock_task \<Rightarrow> bool" where
  \<comment> \<open>every lock it asked for is held and no further one will be asked for\<close>
  "inside t \<longleftrightarrow> tk_pending t = [] \<and> tk_plan t = None"

section \<open>Claiming mutexes\<close>

definition claimed ::
  "('k \<Rightarrow> resource) \<Rightarrow> lock_task list \<Rightarrow> 'k list \<Rightarrow> ('k \<rightharpoonup> mutex) \<Rightarrow> nat \<Rightarrow> mutex list \<Rightarrow>
     ('k \<rightharpoonup> mutex) \<Rightarrow> nat \<Rightarrow> bool" where
  "claimed lab ts ks locks n ms locks' n' \<longleftrightarrow>
     map mx_for ms = map lab ks \<and> map Some ms = map locks' ks \<and> n \<le> n' \<and>
     (\<forall>k m. locks k = Some m \<longrightarrow> m \<in> set (strong_refs ts) \<longrightarrow> locks' k = Some m) \<and>
     (\<forall>k. k \<notin> set ks \<longrightarrow> locks' k = locks k) \<and>
     (\<forall>k m. locks' k = Some m \<longrightarrow> mx_for m = lab k \<and> mx_serial m < n')"

lemma claim_mutexes_claimed:
  assumes "claim_mutexes lab ts ks locks n = (ms, locks', n')" "distinct ks"
    "\<And>k m. locks k = Some m \<Longrightarrow> mx_for m = lab k \<and> mx_serial m < n"
  shows "claimed lab ts ks locks n ms locks' n'"
  using assms
proof (induction lab ts ks locks n arbitrary: ms locks' n' rule: claim_mutexes.induct)
  case (1 lab ts locks n)
  then show ?case by (auto simp: claimed_def)
next
  case (2 lab ts k ks locks n)
  show ?case
  proof (cases "Option.bind (locks k) (upgrade ts)")
    case (Some m)
    then have k: "locks k = Some m" by (auto simp: upgrade_def bind_eq_Some_conv split: if_splits)
    obtain ms1 where ms: "ms = m # ms1" and run: "claim_mutexes lab ts ks locks n = (ms1, locks', n')"
      using "2.prems"(1) Some by (auto split: prod.splits)
    have "claimed lab ts ks locks n ms1 locks' n'"
      using "2.IH"(2) [OF Some run] "2.prems"(2,3) by simp
    then show ?thesis using k ms "2.prems"(2,3) by (auto simp: claimed_def)
  next
    case None
    let ?m = "Mutex (lab k) n"
    obtain ms1 where ms: "ms = ?m # ms1"
      and run: "claim_mutexes lab ts ks (locks(k \<mapsto> ?m)) (n + 1) = (ms1, locks', n')"
      using "2.prems"(1) None by (auto simp: Let_def split: prod.splits)
    have "mx_for m = lab k' \<and> mx_serial m < n + 1" if "(locks(k \<mapsto> ?m)) k' = Some m" for k' m
      using that "2.prems"(3) [of k' m] by (auto split: if_splits)
    then have IH: "claimed lab ts ks (locks(k \<mapsto> ?m)) (n + 1) ms1 locks' n'"
      using "2.IH"(1) [OF None refl run] "2.prems"(2) by (simp del: fun_upd_apply)
    moreover have "locks' k = Some ?m" using IH "2.prems"(2) by (simp add: claimed_def)
    moreover have "locks' k' = Some m" if "locks k' = Some m" "m \<in> set (strong_refs ts)" for k' m
    proof -
      have "k' \<noteq> k" using None that by (auto simp: upgrade_def split: if_splits)
      then show ?thesis using IH that by (simp add: claimed_def)
    qed
    ultimately show ?thesis using ms by (simp add: claimed_def)
  qed
qed

lemma retain_Some: "retain_strong ts locks k = Some m \<longleftrightarrow> locks k = Some m \<and> m \<in> set (strong_refs ts)"
  by (auto simp: retain_strong_def upgrade_def bind_eq_Some_conv split: if_splits)

lemma remdups_adj_strict: "sorted xs \<Longrightarrow> sorted_wrt (<) (remdups_adj xs)"
  by (induction xs rule: remdups_adj.induct) (auto simp: less_le intro: order_trans)

lemma lock_keys_sorted: "sorted_wrt (<) (lock_keys lower ctx paths sens)"
  unfolding lock_keys_def by (rule remdups_adj_strict) simp

lemma path_resources_sorted: "sorted_wrt (<) (map PathLock (lock_keys lower ctx paths sens))"
  using lock_keys_sorted [of lower ctx paths sens]
  by (auto simp: sorted_wrt_map less_resource_def less_le elim: sorted_wrt_mono_rel [rotated])

section \<open>The invariant\<close>

definition lock_inv :: "lock_world \<Rightarrow> bool" where
  "lock_inv w \<longleftrightarrow>
     (\<forall>m \<in> set (strong_refs (lw_tasks w)). lw_map w (mx_for m) = Some m) \<and>
     (\<forall>r m. lw_map w r = Some m \<longrightarrow> mx_for m = r \<and> mx_serial m < lw_next w) \<and>
     (\<forall>t \<in> set (lw_tasks w). map mx_for (tk_held t @ tk_pending t) = tk_asked t \<and>
        sorted_wrt (<) (tk_asked t) \<and>
        (\<forall>ctx ps s. tk_plan t = Some (ctx, ps, s) \<longrightarrow> tk_asked t = [Namespace (ctx_id ctx)])) \<and>
     (\<forall>i j. i < length (lw_tasks w) \<longrightarrow> j < length (lw_tasks w) \<longrightarrow> i \<noteq> j \<longrightarrow>
        set (tk_held (lw_tasks w ! i)) \<inter> set (tk_held (lw_tasks w ! j)) = {})"

lemma lock_inv_init: "lock_inv lock_init"
  by (simp add: lock_inv_def lock_init_def strong_refs_def lw_map_def split: resource.splits)

definition acquired :: "lock_world \<Rightarrow> resource list \<Rightarrow> mutex list \<Rightarrow> lock_world \<Rightarrow> bool" where
  \<comment> \<open>what either manager promises its caller\<close>
  "acquired w rs ms w' \<longleftrightarrow> lw_tasks w' = lw_tasks w \<and> map mx_for ms = rs \<and>
     (\<forall>m \<in> set ms. lw_map w' (mx_for m) = Some m) \<and>
     (\<forall>m \<in> set (strong_refs (lw_tasks w)). lw_map w' (mx_for m) = Some m) \<and>
     (\<forall>r m. lw_map w' r = Some m \<longrightarrow> mx_for m = r \<and> mx_serial m < lw_next w')"

lemma map_Some_eq: "map Some ms = map f ks \<Longrightarrow> map lab ms = map g ks \<Longrightarrow> m \<in> set ms \<Longrightarrow>
    \<exists>k \<in> set ks. f k = Some m \<and> lab m = g k"
  by (metis (no_types, lifting) in_set_conv_nth length_map nth_map)

locale lock_manager =
  fixes lab :: "'k \<Rightarrow> resource" and locks_of :: "lock_world \<Rightarrow> 'k \<Rightarrow> mutex option"
    and set_locks :: "('k \<Rightarrow> mutex option) \<Rightarrow> nat \<Rightarrow> lock_world \<Rightarrow> lock_world"
  assumes set_tasks: "lw_tasks (set_locks l n w) = lw_tasks w"
    and set_next: "lw_next (set_locks l n w) = n"
    and own: "lw_map w (lab k) = locks_of w k" "lw_map (set_locks l n w) (lab k) = l k"
    and other: "r \<notin> range lab \<Longrightarrow> lw_map (set_locks l n w) r = lw_map w r"
begin

lemma acquires:
  assumes inv: "lock_inv w" and ks: "distinct ks"
    and c: "claim_mutexes lab (lw_tasks w) ks (retain_strong (lw_tasks w) (locks_of w)) (lw_next w) = (ms, l, n)"
  shows "acquired w (map lab ks) ms (set_locks l n w)"
proof -
  let ?w = "set_locks l n w" and ?l = "retain_strong (lw_tasks w) (locks_of w)"
  have "mx_for m = lab k \<and> mx_serial m < lw_next w" if "?l k = Some m" for k m
    using that inv unfolding retain_Some lock_inv_def by (metis own(1))
  then have cl: "claimed lab (lw_tasks w) ks ?l (lw_next w) ms l n"
    using claim_mutexes_claimed [OF c ks] by blast
  have "lw_map ?w (mx_for m) = Some m" if "m \<in> set ms" for m
    using map_Some_eq [OF _ _ that, of l ks mx_for lab] cl by (auto simp: claimed_def own(2))
  moreover have "lw_map ?w (mx_for m) = Some m" if m: "m \<in> set (strong_refs (lw_tasks w))" for m
  proof (cases "mx_for m \<in> range lab")
    case True
    then obtain k where k: "mx_for m = lab k" by auto
    moreover have "lw_map w (mx_for m) = Some m" using m inv unfolding lock_inv_def by blast
    ultimately have "?l k = Some m" using m own(1) by (simp add: retain_Some)
    then have "l k = Some m" using cl m unfolding claimed_def by blast
    then show ?thesis by (simp add: k own(2))
  next
    case False
    then show ?thesis using m inv by (simp add: other lock_inv_def)
  qed
  moreover have "mx_for m = r \<and> mx_serial m < lw_next ?w" if "lw_map ?w r = Some m" for r m
  proof (cases "r \<in> range lab")
    case True
    then obtain k where "r = lab k" by auto
    moreover from this have "l k = Some m" using that own(2) [of l n w k] by simp
    ultimately show ?thesis using cl by (simp add: claimed_def set_next)
  next
    case False
    then have "lw_map w r = Some m" using that other by simp
    then have "mx_for m = r \<and> mx_serial m < lw_next w" using inv unfolding lock_inv_def by blast
    then show ?thesis using cl by (simp add: claimed_def set_next)
  qed
  ultimately show ?thesis using cl by (simp add: acquired_def claimed_def set_tasks)
qed

end

interpretation namespaces: lock_manager Namespace lw_namespaces "\<lambda>l n w. w\<lparr>lw_namespaces := l, lw_next := n\<rparr>"
  by unfold_locales (auto simp: lw_map_def split: resource.splits)

interpretation path_locks: lock_manager PathLock lw_paths "\<lambda>l n w. w\<lparr>lw_paths := l, lw_next := n\<rparr>"
  by unfold_locales (auto simp: lw_map_def split: resource.splits)

lemma path_acquire_acquired:
  "lock_inv w \<Longrightarrow> path_acquire lower ctx paths sens w = (ms, w') \<Longrightarrow>
     acquired w (map PathLock (lock_keys lower ctx paths sens)) ms w'"
  using path_locks.acquires lock_keys_sorted strict_sorted_iff
  by (fastforce simp: path_acquire_def split: prod.splits)

lemma namespace_acquire_acquired:
  "lock_inv w \<Longrightarrow> namespace_acquire ctx w = (ms, w') \<Longrightarrow> acquired w [Namespace (ctx_id ctx)] ms w'"
  using namespaces.acquires [of w "[ctx_id ctx]"]
  by (auto simp: namespace_acquire_def simp del: claim_mutexes.simps split: prod.splits)

lemma strong_refs_update:
  "i < length ts \<Longrightarrow> set (strong_refs (ts[i := t])) \<subseteq>
     set (strong_refs ts) \<union> set (tk_held t) \<union> set (tk_pending t)"
  by (auto simp: strong_refs_def dest!: set_update_subset_insert [THEN subsetD])

lemma strong_refs_mem: "t \<in> set ts \<Longrightarrow> set (tk_held t) \<union> set (tk_pending t) \<subseteq> set (strong_refs ts)"
  by (auto simp: strong_refs_def)

lemma strong_refs_snoc: "set (strong_refs (ts @ [t])) = set (strong_refs ts) \<union> set (tk_held t) \<union> set (tk_pending t)"
  by (auto simp: strong_refs_def)

definition task_ok :: "lock_task \<Rightarrow> bool" where
  "task_ok t \<longleftrightarrow> map mx_for (tk_held t @ tk_pending t) = tk_asked t \<and> sorted_wrt (<) (tk_asked t) \<and>
     (\<forall>ctx ps s. tk_plan t = Some (ctx, ps, s) \<longrightarrow> tk_asked t = [Namespace (ctx_id ctx)])"

lemma lock_inv_add:
  assumes inv: "lock_inv w" and acq: "acquired w rs ms w'" and ok: "task_ok t"
    and t: "tk_held t = []" "tk_pending t = ms"
  shows "lock_inv (w'\<lparr>lw_tasks := lw_tasks w @ [t]\<rparr>)"
proof -
  have [simp]: "lw_map (w'\<lparr>lw_tasks := ts\<rparr>) = lw_map w'" for ts
    by (simp add: lw_map_def fun_eq_iff split: resource.splits)
  show ?thesis
    using inv acq ok t unfolding lock_inv_def acquired_def task_ok_def
    by (auto simp: strong_refs_snoc nth_append less_Suc_eq)
qed

lemma lock_inv_replace:
  assumes inv: "lock_inv w" and i: "i < length (lw_tasks w)" and ok: "task_ok t"
    and w': "lw_tasks w' = lw_tasks w"
      "\<forall>m \<in> set (strong_refs (lw_tasks w)) \<union> set (tk_held t) \<union> set (tk_pending t). lw_map w' (mx_for m) = Some m"
      "\<forall>r m. lw_map w' r = Some m \<longrightarrow> mx_for m = r \<and> mx_serial m < lw_next w'"
    and held: "\<forall>m \<in> set (tk_held t). m \<in> set (tk_held (lw_tasks w ! i)) \<or> free w m"
  shows "lock_inv (w'\<lparr>lw_tasks := (lw_tasks w)[i := t]\<rparr>)"
proof -
  have [simp]: "lw_map (w'\<lparr>lw_tasks := ts\<rparr>) = lw_map w'" for ts
    by (simp add: lw_map_def fun_eq_iff split: resource.splits)
  have disj: "set (tk_held t) \<inter> set (tk_held (lw_tasks w ! j)) = {}" if "j < length (lw_tasks w)" "j \<noteq> i" for j
    using held inv i that unfolding lock_inv_def free_def by (metis disjoint_iff nth_mem)
  have "set (tk_held ((lw_tasks w)[i := t] ! j)) \<inter> set (tk_held ((lw_tasks w)[i := t] ! k)) = {}"
    if "j < length (lw_tasks w)" "k < length (lw_tasks w)" "j \<noteq> k" for j k
    using disj [of j] disj [of k] that inv unfolding lock_inv_def
    by (cases "j = i"; cases "k = i") (auto simp: Int_commute)
  moreover have "task_ok u" if "u \<in> set ((lw_tasks w)[i := t])" for u
    using that ok inv set_update_subset_insert unfolding lock_inv_def task_ok_def by fastforce
  moreover have "\<forall>m \<in> set (strong_refs ((lw_tasks w)[i := t])). lw_map w' (mx_for m) = Some m"
    using strong_refs_update [OF i, of t] w'(2) by blast
  ultimately show ?thesis using w'(3) by (simp add: lock_inv_def task_ok_def)
qed

lemma lock_inv_task: "lock_inv w \<Longrightarrow> t \<in> set (lw_tasks w) \<Longrightarrow> task_ok t"
  by (simp add: lock_inv_def task_ok_def)

lemma acquired_task_sorted:
  assumes "task_ok t" "tk_plan t = Some (ctx, ps, s)"
  shows "sorted_wrt (<) (tk_asked t @ map PathLock (lock_keys lower ctx paths sens))"
  using assms path_resources_sorted
  by (auto simp: task_ok_def less_resource_def)

lemma lock_inv_step:
  assumes "lock_step lower w w1" "lock_inv w"
  shows "lock_inv w1"
  using assms
proof cases
  case (start_namespace ctx ms w' paths sens)
  have acq: "acquired w [Namespace (ctx_id ctx)] ms w'"
    by (rule namespace_acquire_acquired [OF assms(2) start_namespace(2)])
  show ?thesis unfolding start_namespace(1)
    by (rule lock_inv_add [OF assms(2) acq]) (use acq in \<open>auto simp: task_ok_def acquired_def\<close>)
next
  case (start_paths ctx paths sens ms w')
  have acq: "acquired w (map PathLock (lock_keys lower ctx paths sens)) ms w'"
    by (rule path_acquire_acquired [OF assms(2) start_paths(2)])
  show ?thesis unfolding start_paths(1)
    by (rule lock_inv_add [OF assms(2) acq])
      (use acq path_resources_sorted in \<open>auto simp: task_ok_def acquired_def\<close>)
next
  case (then_paths i t ctx paths sens ms w')
  have acq: "acquired w (map PathLock (lock_keys lower ctx paths sens)) ms w'"
    by (rule path_acquire_acquired [OF assms(2) then_paths(6)])
  have t: "t \<in> set (lw_tasks w)" using then_paths(2,3) by simp
  note ok = lock_inv_task [OF assms(2) t]
  show ?thesis unfolding then_paths(1)
  proof (rule lock_inv_replace [OF assms(2) then_paths(2)])
    show "task_ok (t\<lparr>tk_pending := ms, tk_plan := None,
        tk_asked := tk_asked t @ map PathLock (lock_keys lower ctx paths sens)\<rparr>)"
      using ok acq acquired_task_sorted [OF ok then_paths(5)] then_paths(4)
      by (auto simp: task_ok_def acquired_def)
  qed (use acq strong_refs_mem [OF t] then_paths(3) in \<open>auto simp: acquired_def\<close>)
next
  case (locked i t m ms)
  have t: "t \<in> set (lw_tasks w)" using locked(2,3) by simp
  show ?thesis unfolding locked(1)
  proof (rule lock_inv_replace [OF assms(2) locked(2)])
    show "task_ok (t\<lparr>tk_held := tk_held t @ [m], tk_pending := ms\<rparr>)"
      using lock_inv_task [OF assms(2) t] locked(4) by (simp add: task_ok_def)
  qed (use assms(2) strong_refs_mem [OF t] locked in \<open>auto simp: lock_inv_def\<close>)
next
  case (dropped i)
  show ?thesis unfolding dropped(1)
    by (rule lock_inv_replace [OF assms(2) dropped(2)])
      (use assms(2) in \<open>auto simp: task_ok_def idle_task_def lock_inv_def\<close>)
qed

interpretation lock_invariant: inductive_invariant "\<lambda>w. w = lock_init" "lock_step lower" lock_inv for lower
  by unfold_locales (auto simp: lock_inv_init intro: lock_inv_step)

section \<open>Exclusion and progress\<close>

text \<open>Tasks that wait only for resources above those they hold cannot wait in a circle.\<close>

locale ordered_waiting =
  fixes good :: "'w \<Rightarrow> bool" and held :: "'w \<Rightarrow> nat \<Rightarrow> 'r::linorder set"
    and waits :: "'w \<Rightarrow> nat \<Rightarrow> 'r option"
  assumes ascending: "good w \<Longrightarrow> waits w i = Some r \<Longrightarrow> r' \<in> held w i \<Longrightarrow> r' < r"
    and finitely: "good w \<Longrightarrow> finite {i. waits w i \<noteq> None}"
begin

lemma someone_proceeds:
  assumes "good w" "waits w i = Some r"
  shows "\<exists>j r. waits w j = Some r \<and> (\<forall>k. r \<in> held w k \<longrightarrow> waits w k = None)"
proof -
  let ?S = "{r. \<exists>j. waits w j = Some r}"
  have "?S \<subseteq> (\<lambda>j. the (waits w j)) ` {j. waits w j \<noteq> None}" by force
  then have fin: "finite ?S" using finitely [OF assms(1)] finite_surj by blast
  have ne: "?S \<noteq> {}" using assms(2) by auto
  then obtain j where j: "waits w j = Some (Max ?S)" using Max_in [OF fin] by auto
  have "waits w k = None" if "Max ?S \<in> held w k" for k
  proof (rule ccontr)
    assume "waits w k \<noteq> None"
    then obtain r' where r': "waits w k = Some r'" by auto
    then have "Max ?S < r'" using ascending [OF assms(1)] that by blast
    moreover have "r' \<le> Max ?S" using r' by (intro Max_ge fin) auto
    ultimately show False by simp
  qed
  with j show ?thesis by blast
qed

end

definition task_held :: "lock_world \<Rightarrow> nat \<Rightarrow> resource set" where
  "task_held w i = (if i < length (lw_tasks w) then mx_for ` set (tk_held (lw_tasks w ! i)) else {})"

definition task_waits :: "lock_world \<Rightarrow> nat \<Rightarrow> resource option" where
  "task_waits w i = (if i < length (lw_tasks w) then
     (case tk_pending (lw_tasks w ! i) of [] \<Rightarrow> None | m # _ \<Rightarrow> Some (mx_for m)) else None)"

interpretation lock_order: ordered_waiting lock_inv task_held task_waits
proof
  fix w i r r'
  assume inv: "lock_inv w" and waits: "task_waits w i = Some r" and held: "r' \<in> task_held w i"
  let ?t = "lw_tasks w ! i"
  have i: "i < length (lw_tasks w)" using waits by (auto simp: task_waits_def split: if_splits)
  then have "map mx_for (tk_held ?t @ tk_pending ?t) = tk_asked ?t" "sorted_wrt (<) (tk_asked ?t)"
    using lock_inv_task [OF inv] by (simp_all add: task_ok_def)
  then have "sorted_wrt (<) (map mx_for (tk_held ?t @ tk_pending ?t))" by simp
  then show "r' < r" using waits held i
    by (auto simp: task_waits_def task_held_def sorted_wrt_append split: list.splits)
next
  fix w
  have "{i. task_waits w i \<noteq> None} \<subseteq> {..< length (lw_tasks w)}"
    by (auto simp: task_waits_def split: if_splits)
  then show "finite {i. task_waits w i \<noteq> None}" by (rule finite_subset) simp
qed

lemma same_mutex:
  assumes "lock_inv w" "m \<in> set (strong_refs (lw_tasks w))" "m' \<in> set (strong_refs (lw_tasks w))"
    "mx_for m = mx_for m'"
  shows "m = m'"
  using assms unfolding lock_inv_def by (metis option.inject)

text \<open>
  C9: Mutual exclusion of operations on a path. In every state that any interleaving of tasks
  reaches, cancellations included, two different tasks that asked for the locks of the same vault
  and of paths with the same comparison key, or for the same namespace, are never both inside their
  critical sections; weak references that are dropped from the map never split a lock in two.
\<close>

theorem locks_exclude:
  assumes "(lock_step lower)\<^sup>*\<^sup>* lock_init w" "i < length (lw_tasks w)" "j < length (lw_tasks w)" "i \<noteq> j"
    "inside (lw_tasks w ! i)" "inside (lw_tasks w ! j)"
  shows "set (tk_asked (lw_tasks w ! i)) \<inter> set (tk_asked (lw_tasks w ! j)) = {}"
proof (rule ccontr)
  have inv: "lock_inv w" using lock_invariant.inv_reachable assms(1) by blast
  let ?a = "lw_tasks w ! i" and ?b = "lw_tasks w ! j"
  have mem: "?a \<in> set (lw_tasks w)" "?b \<in> set (lw_tasks w)" using assms(2,3) by simp_all
  assume "\<not> ?thesis"
  moreover have "tk_asked ?a = map mx_for (tk_held ?a)" "tk_asked ?b = map mx_for (tk_held ?b)"
    using lock_inv_task [OF inv mem(1)] lock_inv_task [OF inv mem(2)] assms(5,6)
    by (simp_all add: task_ok_def inside_def)
  ultimately obtain m m' where m: "m \<in> set (tk_held ?a)" "m' \<in> set (tk_held ?b)" "mx_for m = mx_for m'"
    by auto
  have "m = m'" using same_mutex [OF inv _ _ m(3)] strong_refs_mem [OF mem(1)] strong_refs_mem [OF mem(2)] m by blast
  then show False using inv assms(2-4) m unfolding lock_inv_def by blast
qed

text \<open>
  C10: Freedom from deadlock. In every reachable state in which some task waits for a lock, the
  interleaving can go on without a cancellation: a waiting task can take its next lock now, or the
  holder of that lock does not itself wait for anything.
\<close>

theorem locks_progress:
  assumes "(lock_step lower)\<^sup>*\<^sup>* lock_init w" "i < length (lw_tasks w)" "tk_pending (lw_tasks w ! i) \<noteq> []"
  shows "\<exists>j m ms. j < length (lw_tasks w) \<and> tk_pending (lw_tasks w ! j) = m # ms \<and>
    (free w m \<or> (\<exists>k < length (lw_tasks w). m \<in> set (tk_held (lw_tasks w ! k)) \<and>
      tk_pending (lw_tasks w ! k) = []))"
proof -
  have inv: "lock_inv w" using lock_invariant.inv_reachable assms(1) by blast
  obtain r where "task_waits w i = Some r"
    using assms(2,3) by (cases "tk_pending (lw_tasks w ! i)") (auto simp: task_waits_def)
  from lock_order.someone_proceeds [OF inv this]
  obtain j r where j: "task_waits w j = Some r" "\<forall>k. r \<in> task_held w k \<longrightarrow> task_waits w k = None" by blast
  then obtain m ms where m: "j < length (lw_tasks w)" "tk_pending (lw_tasks w ! j) = m # ms" "mx_for m = r"
    by (auto simp: task_waits_def split: if_splits list.splits)
  have "tk_pending (lw_tasks w ! k) = []" if "k < length (lw_tasks w)" "m \<in> set (tk_held (lw_tasks w ! k))" for k
  proof -
    have "r \<in> task_held w k" using that m(3) by (auto simp: task_held_def)
    then have "task_waits w k = None" using j(2) by blast
    then show ?thesis using that(1) by (simp add: task_waits_def split: list.splits)
  qed
  then show ?thesis using m unfolding free_def by (metis in_set_conv_nth)
qed

text \<open>Two tasks, first on the same path and then on different paths.\<close>

definition example_context :: vault_context where
  "example_context = \<lparr>ctx_id = 1, ctx_slug = ''v'', ctx_content_root = [''srv''],
     ctx_settings_revision = 1\<rparr>"

definition example_start :: "string \<Rightarrow> lock_world \<Rightarrow> lock_world" where
  "example_start p w =
     (let (ms, w') = path_acquire id example_context [VaultPath p] Sensitive w
      in w'\<lparr>lw_tasks := lw_tasks w @ [\<lparr>tk_held = [], tk_pending = ms, tk_plan = None,
           tk_asked = map PathLock (lock_keys id example_context [VaultPath p] Sensitive)\<rparr>]\<rparr>)"

definition example_lock :: "nat \<Rightarrow> lock_world \<Rightarrow> lock_world" where
  "example_lock i w = w\<lparr>lw_tasks := (lw_tasks w)[i := (lw_tasks w ! i)
     \<lparr>tk_held := tk_held (lw_tasks w ! i) @ [hd (tk_pending (lw_tasks w ! i))],
      tk_pending := tl (tk_pending (lw_tasks w ! i))\<rparr>]\<rparr>"

lemma example_start_step: "lock_step id w (example_start p w)"
  by (cases "path_acquire id example_context [VaultPath p] Sensitive w")
    (auto simp: example_start_def intro: lock_step.start_paths)

lemma example_lock_step:
  "i < length (lw_tasks w) \<Longrightarrow> tk_pending (lw_tasks w ! i) \<noteq> [] \<Longrightarrow> free w (hd (tk_pending (lw_tasks w ! i))) \<Longrightarrow>
     lock_step id w (example_lock i w)"
  unfolding example_lock_def by (rule lock_step.locked) auto

theorem locks_progress_witness:
  "let w = example_lock 0 (example_start ''a'' (example_start ''a'' lock_init))
   in \<exists>j m ms. j < length (lw_tasks w) \<and> tk_pending (lw_tasks w ! j) = m # ms \<and>
    (free w m \<or> (\<exists>k < length (lw_tasks w). m \<in> set (tk_held (lw_tasks w ! k)) \<and>
      tk_pending (lw_tasks w ! k) = []))"
proof -
  let ?w2 = "example_start ''a'' (example_start ''a'' lock_init)"
  have 1: "lock_step id lock_init (example_start ''a'' lock_init)"
      "lock_step id (example_start ''a'' lock_init) ?w2"
    by (rule example_start_step)+
  have 2: "lock_step id ?w2 (example_lock 0 ?w2)" by (rule example_lock_step; code_simp)
  have reach: "(lock_step id)\<^sup>*\<^sup>* lock_init (example_lock 0 ?w2)"
    using 1 2 by (meson converse_rtranclp_into_rtranclp rtranclp.rtrancl_refl)
  have "Suc 0 < length (lw_tasks (example_lock 0 ?w2))" "tk_pending (lw_tasks (example_lock 0 ?w2) ! Suc 0) \<noteq> []"
    by code_simp+
  from locks_progress [OF reach this] show ?thesis unfolding Let_def .
qed

theorem locks_exclude_witness:
  "let w = example_lock 1 (example_lock 0 (example_start ''b'' (example_start ''a'' lock_init)))
   in set (tk_asked (lw_tasks w ! 0)) \<inter> set (tk_asked (lw_tasks w ! 1)) = {}"
proof -
  let ?w2 = "example_start ''b'' (example_start ''a'' lock_init)"
  let ?w3 = "example_lock 0 ?w2"
  let ?w4 = "example_lock 1 ?w3"
  have 1: "lock_step id lock_init (example_start ''a'' lock_init)"
      "lock_step id (example_start ''a'' lock_init) ?w2"
    by (rule example_start_step)+
  have 2: "lock_step id ?w2 ?w3" by (rule example_lock_step; code_simp)
  have 3: "lock_step id ?w3 ?w4" by (rule example_lock_step; code_simp)
  have reach: "(lock_step id)\<^sup>*\<^sup>* lock_init ?w4"
    using 1 2 3 by (meson converse_rtranclp_into_rtranclp rtranclp.rtrancl_refl)
  have "0 < length (lw_tasks ?w4)" "1 < length (lw_tasks ?w4)" "inside (lw_tasks ?w4 ! 0)" "inside (lw_tasks ?w4 ! 1)"
    by code_simp+
  from locks_exclude [OF reach this(1,2) _ this(3,4)] show ?thesis unfolding Let_def by simp
qed

end
