(* ===== verification/Outbox.thy ===== *)
theory Outbox
  imports File_State
begin

text \<open>
  The transactional outbox (\<^verbatim>\<open>OutboxRepository\<close> of crates/state/src/background.rs), its input checks,
  and the contract of leases that it shares with the job queue.

  \<open>claim_batch\<close> selects its candidates in one read and reserves them later, under BEGIN IMMEDIATE:
  \<open>snapshot\<close> is the database at the time of the read and \<open>db\<close> the one the transaction sees. An
  identifier is ordered as its 128 bits, which is the order of its hyphenated hexadecimal text.
\<close>

section \<open>Input checks\<close>

definition MAX_WORKER_ID_BYTES :: nat where "MAX_WORKER_ID_BYTES = 128"
definition MAX_JOB_TYPE_BYTES :: nat where "MAX_JOB_TYPE_BYTES = 128"
definition MAX_DEDUP_KEY_BYTES :: nat where "MAX_DEDUP_KEY_BYTES = 512"
definition MAX_ERROR_BYTES :: nat where "MAX_ERROR_BYTES = 2048"
definition MAX_PAYLOAD_BYTES :: nat where "MAX_PAYLOAD_BYTES = 256 * 1024"
definition MAX_BATCH_SIZE :: nat where "MAX_BATCH_SIZE = 128"

definition bounded_text :: "nat \<Rightarrow> string \<Rightarrow> bool" where
  "bounded_text n v \<longleftrightarrow> \<not> (v = [] \<or> length v > n \<or> any_control v)"

definition validate_worker :: "string \<Rightarrow> state_error + unit" where
  "validate_worker v =
     (if bounded_text MAX_WORKER_ID_BYTES v then Ok () else Err (InvalidInput ''worker ID is invalid''))"

definition validate_lease :: "int \<Rightarrow> int \<Rightarrow> state_error + unit" where
  "validate_lease now lease_until =
     (if lease_until \<le> now then Err (InvalidInput ''lease must expire in the future'') else Ok ())"

definition validate_batch :: "nat \<Rightarrow> state_error + nat" where
  "validate_batch limit =
     (if limit = 0 \<or> limit > MAX_BATCH_SIZE then Err (InvalidInput ''worker batch size is invalid'')
      else Ok limit)"

definition validate_error :: "string \<Rightarrow> state_error + unit" where
  "validate_error v =
     (if bounded_text MAX_ERROR_BYTES v then Ok () else Err (InvalidInput ''worker error is invalid''))"

definition validate_aggregate_id :: "string \<Rightarrow> state_error + unit" where
  "validate_aggregate_id v =
     (if bounded_text MAX_DEDUP_KEY_BYTES v then Ok () else Err (InvalidInput ''aggregate ID is invalid''))"

definition bg_ensure_context :: "vault_context \<Rightarrow> vault_row list \<Rightarrow> state_error + unit" where
  "bg_ensure_context ctx vaults =
     (if \<exists>r \<in> set vaults. vr_id r = ctx_id ctx \<and> vr_slug r = ctx_slug ctx \<and>
           vr_content_root r = ctx_content_root ctx
      then Ok () else Err (InvalidInput ''Vault context is not registered''))"

section \<open>Conditional updates\<close>

definition update_where ::
  "('r \<Rightarrow> bool) \<Rightarrow> ('r \<Rightarrow> 'r) \<Rightarrow> 'r list \<Rightarrow> nat \<times> 'r list" where
  \<comment> \<open>\<open>UPDATE .. WHERE ..\<close> with \<open>rows_affected()\<close>\<close>
  "update_where P f rows = (rows_affected P rows, update_rows P f rows)"

definition update_one ::
  "string \<Rightarrow> ('r \<Rightarrow> bool) \<Rightarrow> ('r \<Rightarrow> 'r) \<Rightarrow> 'r list \<Rightarrow> state_error + 'r list" where
  \<comment> \<open>an update that has to reach exactly one row\<close>
  "update_one msg P f rows =
     (let (n, rows') = update_where P f rows
      in if n \<noteq> 1 then Err (InvalidInput msg) else Ok rows')"

fun reserve_rows ::
  "('r \<Rightarrow> 'k) \<Rightarrow> ('r \<Rightarrow> bool) \<Rightarrow> ('r \<Rightarrow> 'r) \<Rightarrow> ('r \<Rightarrow> state_error + 'r) \<Rightarrow> ('r \<Rightarrow> 'r) \<Rightarrow>
     'r list \<Rightarrow> 'r list \<Rightarrow> state_error + 'r list \<times> 'r list" where
  \<comment> \<open>the loop of \<open>claim_batch\<close>: each update repeats the eligibility test, and a candidate whose row
     was reserved is returned as it was selected, with the lease written into it\<close>
  "reserve_rows key elig lease decode mark [] rows = Ok ([], rows)"
| "reserve_rows key elig lease decode mark (c # cs) rows =
     (let (n, rows1) = update_where (\<lambda>r. key r = key c \<and> elig r) lease rows
      in if n = 1 then
           bind_r (decode c) (\<lambda>d.
           bind_r (reserve_rows key elig lease decode mark cs rows1) (\<lambda>(claimed, rows2).
             Ok (mark d # claimed, rows2)))
         else reserve_rows key elig lease decode mark cs rows1)"

section \<open>The repository\<close>

definition outbox_eligible :: "int \<Rightarrow> outbox_row \<Rightarrow> bool" where
  "outbox_eligible now r \<longleftrightarrow>
     \<not> ob_dead_lettered r \<and> ob_delivered_at r = None \<and> ob_available_at r \<le> now \<and>
     (case ob_claimed_until r of None \<Rightarrow> True | Some u \<Rightarrow> u \<le> now)"

definition outbox_candidates :: "int \<Rightarrow> nat \<Rightarrow> outbox_row list \<Rightarrow> outbox_row list" where
  "outbox_candidates now limit rows =
     take limit (sort_key (\<lambda>r. (ob_created_at r, ob_id r)) (filter (outbox_eligible now) rows))"

definition outbox_lease :: "string \<Rightarrow> int \<Rightarrow> outbox_row \<Rightarrow> outbox_row" where
  "outbox_lease worker lease_until r =
     r\<lparr>ob_claimed_by := Some worker, ob_claimed_until := Some lease_until,
       ob_attempts := ob_attempts r + 1\<rparr>"

definition saturating_inc :: "nat \<Rightarrow> nat" where
  \<comment> \<open>\<open>attempts.saturating_add(1)\<close> on a \<open>u32\<close>\<close>
  "saturating_inc n = (if int n + 1 < 2 ^ 32 then n + 1 else n)"

definition outbox_claim_record :: "string \<Rightarrow> int \<Rightarrow> outbox_row \<Rightarrow> outbox_row" where
  "outbox_claim_record worker lease_until r =
     r\<lparr>ob_claimed_by := Some worker, ob_claimed_until := Some lease_until,
       ob_attempts := saturating_inc (ob_attempts r)\<rparr>"

definition row_to_outbox :: "outbox_row \<Rightarrow> state_error + outbox_row" where
  "row_to_outbox r =
     (if int (ob_attempts r) < 2 ^ 32 then Ok r else Err (InvalidInput ''outbox attempts are invalid''))"

definition outbox_claim_batch ::
  "string \<Rightarrow> int \<Rightarrow> int \<Rightarrow> nat \<Rightarrow> outbox_row list \<Rightarrow> outbox_row list \<Rightarrow>
     state_error + outbox_row list \<times> outbox_row list" where
  "outbox_claim_batch worker now lease_until limit snapshot rows =
     bind_r (validate_worker worker) (\<lambda>_.
     bind_r (validate_lease now lease_until) (\<lambda>_.
     bind_r (validate_batch limit) (\<lambda>limit.
       reserve_rows ob_id (outbox_eligible now) (outbox_lease worker lease_until) row_to_outbox
         (outbox_claim_record worker lease_until) (outbox_candidates now limit snapshot) rows)))"

definition outbox_owned :: "event_id \<Rightarrow> string \<Rightarrow> outbox_row \<Rightarrow> bool" where
  "outbox_owned i worker r \<longleftrightarrow>
     ob_id r = i \<and> ob_claimed_by r = Some worker \<and> ob_delivered_at r = None \<and> \<not> ob_dead_lettered r"

definition outbox_delivered :: "int \<Rightarrow> outbox_row \<Rightarrow> outbox_row" where
  "outbox_delivered now r =
     r\<lparr>ob_delivered_at := Some now, ob_claimed_by := None, ob_claimed_until := None, ob_last_error := None\<rparr>"

definition ack :: "event_id \<Rightarrow> string \<Rightarrow> int \<Rightarrow> outbox_row list \<Rightarrow> state_error + outbox_row list" where
  "ack i worker now rows =
     bind_r (validate_worker worker) (\<lambda>_.
       update_one ''outbox lease is not owned'' (outbox_owned i worker) (outbox_delivered now) rows)"

definition outbox_get :: "event_id \<Rightarrow> outbox_row list \<Rightarrow> state_error + outbox_row option" where
  "outbox_get i rows =
     (case find_row (\<lambda>r. ob_id r = i) rows of
        None \<Rightarrow> Ok None
      | Some r \<Rightarrow> bind_r (row_to_outbox r) (\<lambda>r. Ok (Some r)))"

definition outbox_retry :: "int \<Rightarrow> string \<Rightarrow> nat \<Rightarrow> outbox_row \<Rightarrow> outbox_row" where
  "outbox_retry available_at err max_attempts r =
     (let exhausted = ob_attempts r \<ge> max_attempts in
      r\<lparr>ob_available_at := (if exhausted then ob_available_at r else available_at),
        ob_last_error := Some err, ob_dead_lettered := exhausted,
        ob_dead_letter_reason := (if exhausted then Some err else None),
        ob_claimed_by := None, ob_claimed_until := None\<rparr>)"

definition retry_or_dead_letter ::
  "event_id \<Rightarrow> string \<Rightarrow> int \<Rightarrow> string \<Rightarrow> nat \<Rightarrow> outbox_row list \<Rightarrow>
     (state_error + bool) \<times> outbox_row list" where
  \<comment> \<open>the update is committed before the event is read back\<close>
  "retry_or_dead_letter i worker available_at err max_attempts rows =
     (case bind_r (validate_worker worker) (\<lambda>_.
           bind_r (validate_error err) (\<lambda>_.
           if max_attempts = 0 then Err (InvalidInput ''outbox max attempts is invalid'')
           else update_one ''outbox lease is not owned'' (outbox_owned i worker)
                  (outbox_retry available_at err max_attempts) rows)) of
        Err e \<Rightarrow> (Err e, rows)
      | Ok rows' \<Rightarrow>
          (bind_r (outbox_get i rows') (\<lambda>event.
             Ok (case event of None \<Rightarrow> False | Some r \<Rightarrow> ob_dead_lettered r)), rows'))"

definition outbox_held :: "string \<Rightarrow> outbox_row \<Rightarrow> bool" where
  "outbox_held worker r \<longleftrightarrow>
     ob_claimed_by r = Some worker \<and> ob_delivered_at r = None \<and> \<not> ob_dead_lettered r"

definition outbox_unclaimed :: "outbox_row \<Rightarrow> outbox_row" where
  "outbox_unclaimed r = r\<lparr>ob_claimed_by := None, ob_claimed_until := None\<rparr>"

definition outbox_release_worker_leases :: "string \<Rightarrow> outbox_row list \<Rightarrow> state_error + outbox_row list" where
  "outbox_release_worker_leases worker rows =
     bind_r (validate_worker worker) (\<lambda>_.
       Ok (snd (update_where (outbox_held worker) outbox_unclaimed rows)))"

definition find_by_aggregate ::
  "vault_context \<Rightarrow> string \<Rightarrow> vault_row list \<Rightarrow> outbox_row list \<Rightarrow> state_error + outbox_row list" where
  "find_by_aggregate ctx aggregate_id vaults rows =
     bind_r (bg_ensure_context ctx vaults) (\<lambda>_.
     bind_r (validate_aggregate_id aggregate_id) (\<lambda>_.
       (let found = sort_key (\<lambda>r. (ob_created_at r, ob_id r))
              (filter (\<lambda>r. ob_vault r = Some (ctx_id ctx) \<and> ob_aggregate_id r = aggregate_id) rows)
        in if \<forall>r \<in> set found. int (ob_attempts r) < 2 ^ 32 then Ok found
           else Err (InvalidInput ''outbox attempts are invalid''))))"

definition outbox_pending_count :: "outbox_row list \<Rightarrow> nat" where
  "outbox_pending_count rows = rows_affected (\<lambda>r. ob_delivered_at r = None \<and> \<not> ob_dead_lettered r) rows"

section \<open>What a reservation does\<close>

definition reserved :: "('r \<Rightarrow> bool) \<Rightarrow> ('r \<Rightarrow> 'r) \<Rightarrow> 'r list \<Rightarrow> 'r list \<Rightarrow> bool" where
  \<comment> \<open>every row is as it was, or was eligible and has the lease\<close>
  "reserved elig lease rows rows' \<longleftrightarrow> list_all2 (\<lambda>r r'. r' = r \<or> elig r \<and> r' = lease r) rows rows'"

lemma update_rows_reserved:
  "reserved elig lease rows (update_rows (\<lambda>r. P r \<and> elig r) lease rows)"
  by (induction rows) (auto simp: reserved_def)

lemma reserved_trans:
  assumes "reserved elig lease a b" "reserved elig lease b c" "\<And>r. \<not> elig (lease r)"
  shows "reserved elig lease a c"
  using assms(1,2) unfolding reserved_def
proof (induction a arbitrary: b c)
  case Nil
  then show ?case by simp
next
  case (Cons r rs)
  then show ?case using assms(3) by (auto simp: list_all2_Cons1)
qed

lemma reserved_refl: "reserved elig lease rows rows"
  by (simp add: reserved_def list.rel_refl)

lemma reserved_rows:
  "reserved elig lease rows rows' \<Longrightarrow> r \<in> set rows \<Longrightarrow> r \<in> set rows' \<or> elig r \<and> lease r \<in> set rows'"
  unfolding reserved_def
proof (induction rule: list_all2_induct)
  case (Cons a as b bs)
  then show ?case by auto
qed simp

lemma reserved_keys:
  "reserved elig lease rows rows' \<Longrightarrow> (\<And>r. key (lease r) = key r) \<Longrightarrow> map key rows' = map key rows"
  unfolding reserved_def by (induction rule: list_all2_induct) auto

lemma update_affects:
  "rows_affected P rows = 1 \<Longrightarrow> \<exists>r \<in> set rows. P r \<and> f r \<in> set (update_rows P f rows)"
  by (induction rows) (auto split: if_splits)

lemma reserve_rows_spec:
  assumes "reserve_rows key elig lease decode mark cs rows = Ok (claimed, rows')"
    and "\<And>r. \<not> elig (lease r)" "\<And>r. key (lease r) = key r" "\<And>r d. decode r = Ok d \<Longrightarrow> key d = key r"
      "\<And>r. key (mark r) = key r"
  shows "reserved elig lease rows rows' \<and>
    (\<forall>d \<in> set claimed. \<exists>r \<in> set rows. key r = key d \<and> elig r \<and> lease r \<in> set rows')"
  using assms(1)
proof (induction cs arbitrary: rows claimed)
  case Nil
  then show ?case by (simp add: reserved_refl)
next
  case (Cons c cs)
  let ?P = "\<lambda>r. key r = key c \<and> elig r"
  let ?rows1 = "update_rows ?P lease rows"
  have step: "reserved elig lease rows ?rows1" by (rule update_rows_reserved)
  have earlier: "\<exists>r \<in> set rows. key r = k \<and> elig r \<and> lease r \<in> set rows'"
    if "r1 \<in> set ?rows1" "key r1 = k" "elig r1" "lease r1 \<in> set rows'" for r1 k
    using that assms(2) by (auto simp: set_update_rows split: if_splits)
  show ?case
  proof (cases "rows_affected ?P rows = 1")
    case False
    then have "reserve_rows key elig lease decode mark cs ?rows1 = Ok (claimed, rows')"
      using Cons.prems by (simp add: update_where_def)
    note IH = Cons.IH [OF this]
    have "\<exists>r \<in> set rows. key r = key d \<and> elig r \<and> lease r \<in> set rows'" if "d \<in> set claimed" for d
      using IH that earlier by blast
    then show ?thesis using reserved_trans [OF step conjunct1 [OF IH] assms(2)] by simp
  next
    case True
    then obtain d cl where d: "decode c = Ok d" "claimed = mark d # cl"
      and rest: "reserve_rows key elig lease decode mark cs ?rows1 = Ok (cl, rows')"
      using Cons.prems by (auto simp: update_where_def bind_r_Ok_conv)
    note IH = Cons.IH [OF rest]
    obtain r where r: "r \<in> set rows" "?P r" "lease r \<in> set ?rows1"
      using update_affects [OF True, of lease] by blast
    have "lease r \<in> set rows'" using reserved_rows [OF conjunct1 [OF IH] r(3)] assms(2) by blast
    then have "\<exists>r \<in> set rows. key r = key (mark d) \<and> elig r \<and> lease r \<in> set rows'"
      using r assms(4,5) d(1) by metis
    moreover have "\<exists>r \<in> set rows. key r = key e \<and> elig r \<and> lease r \<in> set rows'" if "e \<in> set cl" for e
      using IH that earlier by blast
    ultimately show ?thesis using reserved_trans [OF step conjunct1 [OF IH] assms(2)] d(2) by simp
  qed
qed

section \<open>Leases\<close>

text \<open>
  A queue hands out leases: the holder and the expiry of a live row. Until the expiry nothing that
  another party does takes the lease away.
\<close>

locale lease_queue =
  fixes apply_op :: "'op \<Rightarrow> 'r list \<Rightarrow> 'r list" and key :: "'r \<Rightarrow> 'k"
    and lease_of :: "'r \<Rightarrow> (string \<times> int) option"
    and actor :: "'op \<Rightarrow> string option" and claim_time :: "'op \<Rightarrow> int option"
  assumes foreign: "\<And>rows r w until op. r \<in> set rows \<Longrightarrow> lease_of r = Some (w, until) \<Longrightarrow>
      actor op \<noteq> Some w \<Longrightarrow> (\<forall>now. claim_time op = Some now \<longrightarrow> now < until) \<Longrightarrow>
      \<exists>r' \<in> set (apply_op op rows). key r' = key r \<and> lease_of r' = Some (w, until)"
    and keys_distinct: "distinct (map key rows) \<Longrightarrow> distinct (map key (apply_op op rows))"
begin

definition foreign_op :: "string \<Rightarrow> int \<Rightarrow> 'op \<Rightarrow> bool" where
  "foreign_op w until op \<longleftrightarrow> actor op \<noteq> Some w \<and> (\<forall>now. claim_time op = Some now \<longrightarrow> now < until)"

lemma survives:
  assumes "r \<in> set rows" "lease_of r = Some (w, until)" "\<forall>op \<in> set ops. foreign_op w until op"
  shows "\<exists>r' \<in> set (fold apply_op ops rows). key r' = key r \<and> lease_of r' = Some (w, until)"
  using assms
proof (induction ops arbitrary: rows r)
  case Nil
  then show ?case by auto
next
  case (Cons op ops)
  obtain r' where r': "r' \<in> set (apply_op op rows)" "key r' = key r" "lease_of r' = Some (w, until)"
    using foreign [OF Cons.prems(1,2), of op] Cons.prems(3) by (auto simp: foreign_op_def)
  show ?case using Cons.IH [OF r'(1,3)] Cons.prems(3) r'(2) by auto
qed

lemma distinct_run: "distinct (map key rows) \<Longrightarrow> distinct (map key (fold apply_op ops rows))"
  by (induction ops arbitrary: rows) (auto simp: keys_distinct)

end

datatype outbox_op =
    OutboxClaim string int int nat "outbox_row list"
  | OutboxAck event_id string int
  | OutboxRetry event_id string int string nat
  | OutboxRelease string

definition or_else :: "'r + 'a \<Rightarrow> 'a \<Rightarrow> 'a" where
  "or_else r d = (case r of Err _ \<Rightarrow> d | Ok x \<Rightarrow> x)"

lemma or_else_cases: "or_else r d = d \<or> r = Ok (or_else r d)"
  by (cases r) (simp_all add: or_else_def)

fun outbox_apply :: "outbox_op \<Rightarrow> outbox_row list \<Rightarrow> outbox_row list" where
  "outbox_apply (OutboxClaim w now until limit snapshot) rows =
     or_else (bind_r (outbox_claim_batch w now until limit snapshot rows) (\<lambda>p. Ok (snd p))) rows"
| "outbox_apply (OutboxAck i w now) rows = or_else (ack i w now rows) rows"
| "outbox_apply (OutboxRetry i w available err maximum) rows =
     snd (retry_or_dead_letter i w available err maximum rows)"
| "outbox_apply (OutboxRelease w) rows = or_else (outbox_release_worker_leases w rows) rows"

fun outbox_actor :: "outbox_op \<Rightarrow> string option" where
  "outbox_actor (OutboxClaim w _ _ _ _) = Some w"
| "outbox_actor (OutboxAck _ w _) = Some w"
| "outbox_actor (OutboxRetry _ w _ _ _) = Some w"
| "outbox_actor (OutboxRelease w) = Some w"

fun outbox_claim_time :: "outbox_op \<Rightarrow> int option" where
  "outbox_claim_time (OutboxClaim _ now _ _ _) = Some now"
| "outbox_claim_time _ = None"

definition outbox_lease_of :: "outbox_row \<Rightarrow> (string \<times> int) option" where
  "outbox_lease_of r =
     (if ob_delivered_at r = None \<and> \<not> ob_dead_lettered r then
        (case (ob_claimed_by r, ob_claimed_until r) of (Some w, Some u) \<Rightarrow> Some (w, u) | _ \<Rightarrow> None)
      else None)"

lemma outbox_lease_of_Some:
  "outbox_lease_of r = Some (w, u) \<longleftrightarrow> ob_delivered_at r = None \<and> \<not> ob_dead_lettered r \<and>
     ob_claimed_by r = Some w \<and> ob_claimed_until r = Some u"
  by (auto simp: outbox_lease_of_def split: option.splits)

lemma outbox_claim_spec:
  assumes "outbox_claim_batch w now until limit snapshot rows = Ok (claimed, rows')"
  shows "now < until \<and> reserved (outbox_eligible now) (outbox_lease w until) rows rows' \<and>
    map ob_id rows' = map ob_id rows \<and>
    (\<forall>d \<in> set claimed. \<exists>r \<in> set rows. ob_id r = ob_id d \<and> outbox_eligible now r \<and>
      outbox_lease w until r \<in> set rows')"
proof -
  have t: "now < until" and run: "reserve_rows ob_id (outbox_eligible now) (outbox_lease w until) row_to_outbox
      (outbox_claim_record w until) (outbox_candidates now limit snapshot) rows = Ok (claimed, rows')"
    using assms by (auto simp: outbox_claim_batch_def bind_r_Ok_conv validate_lease_def validate_batch_def
        split: if_splits)
  have k: "ob_id (outbox_lease w until r) = ob_id r" for r by (simp add: outbox_lease_def)
  moreover have "ob_id (outbox_claim_record w until r) = ob_id r" for r by (simp add: outbox_claim_record_def)
  moreover have "\<not> outbox_eligible now (outbox_lease w until r)" for r
    using t by (simp add: outbox_eligible_def outbox_lease_def)
  moreover have "ob_id d = ob_id r" if "row_to_outbox r = Ok d" for r d
    using that by (auto simp: row_to_outbox_def split: if_splits)
  ultimately have "reserved (outbox_eligible now) (outbox_lease w until) rows rows' \<and>
      (\<forall>d \<in> set claimed. \<exists>r \<in> set rows. ob_id r = ob_id d \<and> outbox_eligible now r \<and>
        outbox_lease w until r \<in> set rows')"
    by (intro reserve_rows_spec [OF run])
  then show ?thesis using t reserved_keys [where key = ob_id and lease = "outbox_lease w until"] k by blast
qed

lemma update_one_Ok:
  "update_one msg P f rows = Ok rows' \<longleftrightarrow> rows_affected P rows = 1 \<and> rows' = update_rows P f rows"
  by (auto simp: update_one_def update_where_def)

lemma update_rows_kept: "r \<in> set rows \<Longrightarrow> \<not> P r \<Longrightarrow> r \<in> set (update_rows P f rows)"
  by (force simp: set_update_rows)

lemma outbox_apply_rows:
  "(\<exists>w now until limit snapshot claimed. op = OutboxClaim w now until limit snapshot \<and>
      outbox_claim_batch w now until limit snapshot rows = Ok (claimed, outbox_apply op rows)) \<or>
   outbox_apply op rows = rows \<or>
   (\<exists>w P f. outbox_actor op = Some w \<and> outbox_apply op rows = update_rows P f rows \<and>
      (\<forall>r. P r \<longrightarrow> ob_claimed_by r = Some w) \<and> (\<forall>r. ob_id (f r) = ob_id r))"
proof (cases op)
  case (OutboxClaim w now until limit snapshot)
  then show ?thesis
    by (cases "outbox_claim_batch w now until limit snapshot rows") (auto simp: or_else_def)
next
  case (OutboxAck i w now)
  have "outbox_apply op rows = rows \<or>
      outbox_apply op rows = update_rows (outbox_owned i w) (outbox_delivered now) rows"
    using OutboxAck or_else_cases [of "ack i w now rows" rows]
    by (auto simp: ack_def bind_r_Ok_conv update_one_Ok)
  moreover have "\<forall>r. outbox_owned i w r \<longrightarrow> ob_claimed_by r = Some w" by (simp add: outbox_owned_def)
  moreover have "\<forall>r. ob_id (outbox_delivered now r) = ob_id r" by (simp add: outbox_delivered_def)
  ultimately show ?thesis using OutboxAck by (metis outbox_actor.simps(2))
next
  case (OutboxRetry i w available err maximum)
  have "outbox_apply op rows = rows \<or>
      outbox_apply op rows = update_rows (outbox_owned i w) (outbox_retry available err maximum) rows"
    using OutboxRetry
    by (auto simp: retry_or_dead_letter_def update_one_Ok bind_r_Ok_conv split: sum.splits if_splits)
  moreover have "\<forall>r. outbox_owned i w r \<longrightarrow> ob_claimed_by r = Some w" by (simp add: outbox_owned_def)
  moreover have "\<forall>r. ob_id (outbox_retry available err maximum r) = ob_id r" by (simp add: outbox_retry_def Let_def)
  ultimately show ?thesis using OutboxRetry by (metis outbox_actor.simps(3))
next
  case (OutboxRelease w)
  have "outbox_apply op rows = rows \<or> outbox_apply op rows = update_rows (outbox_held w) outbox_unclaimed rows"
    using OutboxRelease
    by (cases "validate_worker w") (auto simp: or_else_def outbox_release_worker_leases_def update_where_def)
  moreover have "\<forall>r. outbox_held w r \<longrightarrow> ob_claimed_by r = Some w" by (simp add: outbox_held_def)
  moreover have "\<forall>r. ob_id (outbox_unclaimed r) = ob_id r" by (simp add: outbox_unclaimed_def)
  ultimately show ?thesis using OutboxRelease by (metis outbox_actor.simps(4))
qed

interpretation outbox_queue: lease_queue outbox_apply ob_id outbox_lease_of outbox_actor outbox_claim_time
proof
  fix rows :: "outbox_row list" and r w until op
  assume r: "r \<in> set rows" "outbox_lease_of r = Some (w, until)" "outbox_actor op \<noteq> Some w"
    and time: "\<forall>now. outbox_claim_time op = Some now \<longrightarrow> now < until"
  from outbox_apply_rows [of op rows] have "r \<in> set (outbox_apply op rows)"
  proof (elim disjE exE conjE)
    fix w' now until' limit snapshot claimed
    assume "op = OutboxClaim w' now until' limit snapshot"
      and "outbox_claim_batch w' now until' limit snapshot rows = Ok (claimed, outbox_apply op rows)"
    moreover from this have "\<not> outbox_eligible now r"
      using r(2) time by (auto simp: outbox_lease_of_Some outbox_eligible_def)
    ultimately show ?thesis using reserved_rows [OF _ r(1)] outbox_claim_spec by metis
  next
    assume "outbox_apply op rows = rows"
    then show ?thesis using r(1) by simp
  next
    fix w' P f
    assume "outbox_actor op = Some w'" "outbox_apply op rows = update_rows P f rows"
      "\<forall>r. P r \<longrightarrow> ob_claimed_by r = Some w'"
    moreover from this have "\<not> P r" using r(2,3) by (auto simp: outbox_lease_of_Some)
    ultimately show ?thesis using update_rows_kept [OF r(1)] by simp
  qed
  then show "\<exists>r' \<in> set (outbox_apply op rows). ob_id r' = ob_id r \<and> outbox_lease_of r' = Some (w, until)"
    using r(2) by blast
next
  fix rows :: "outbox_row list" and op
  assume "distinct (map ob_id rows)"
  moreover from outbox_apply_rows [of op rows] have "map ob_id (outbox_apply op rows) = map ob_id rows"
  proof (elim disjE exE conjE)
    fix w' now until' limit snapshot claimed
    assume "outbox_claim_batch w' now until' limit snapshot rows = Ok (claimed, outbox_apply op rows)"
    from outbox_claim_spec [OF this] show ?thesis by simp
  qed (simp_all add: map_update_rows)
  ultimately show "distinct (map ob_id (outbox_apply op rows))" by simp
qed

lemma lease_row_unique:
  assumes "distinct (map key rows)" "r \<in> set rows" "r' \<in> set rows" "key r = key r'"
  shows "r = r'"
  using assms by (metis distinct_map inj_onD)

text \<open>
  A claim of outbox events is exclusive until it expires, whatever the other workers do in any
  order (claims from stale snapshots, acknowledgements, retries, releases): the event stays leased to
  the worker that claimed it, that worker's acknowledgement succeeds, nobody else's does, and no
  other claim returns the event.
\<close>

theorem outbox_lease_exclusive:
  assumes claim: "outbox_claim_batch w now until limit snapshot rows = Ok (claimed, rows1)"
    and ids: "distinct (map ob_id rows)" and c: "c \<in> set claimed"
    and others: "\<forall>op \<in> set ops. outbox_actor op \<noteq> Some w \<and>
      (\<forall>t. outbox_claim_time op = Some t \<longrightarrow> t < until)"
    and rows2: "rows2 = fold outbox_apply ops rows1"
  shows "is_ok (ack (ob_id c) w t rows2) \<and>
    (\<forall>w' t. w' \<noteq> w \<longrightarrow> \<not> is_ok (ack (ob_id c) w' t rows2)) \<and>
    (\<forall>w' t u l s cl rows3. w' \<noteq> w \<longrightarrow> t < until \<longrightarrow>
       outbox_claim_batch w' t u l s rows2 = Ok (cl, rows3) \<longrightarrow> ob_id c \<notin> ob_id ` set cl)"
proof -
  note spec = outbox_claim_spec [OF claim]
  obtain r where r: "r \<in> set rows" "ob_id r = ob_id c" "outbox_eligible now r" "outbox_lease w until r \<in> set rows1"
    using spec c by blast
  have "outbox_lease_of (outbox_lease w until r) = Some (w, until)"
    using r(3) by (simp add: outbox_lease_of_Some outbox_lease_def outbox_eligible_def)
  then obtain r2 where r2: "r2 \<in> set rows2" "ob_id r2 = ob_id c" "outbox_lease_of r2 = Some (w, until)"
    using outbox_queue.survives [OF r(4), of w until ops] others r(2) rows2
    by (auto simp: outbox_queue.foreign_op_def outbox_lease_def)
  have "map ob_id rows1 = map ob_id rows" using spec by simp
  then have dist: "distinct (map ob_id rows2)"
    using outbox_queue.distinct_run [of rows1 ops] ids rows2 by simp
  have only: "x = r2" if "x \<in> set rows2" "ob_id x = ob_id c" for x
    using lease_row_unique [OF dist that(1) r2(1)] that(2) r2(2) by simp
  have v: "validate_worker w = Ok ()" using claim by (simp add: outbox_claim_batch_def bind_r_Ok_conv)
  have "rows_affected (outbox_owned (ob_id c) w) rows2 = 1"
    using rows_affected_key [OF dist r2(1), of "\<lambda>r. ob_claimed_by r = Some w \<and> ob_delivered_at r = None \<and> \<not> ob_dead_lettered r"]
      r2(2,3) by (simp add: outbox_owned_def [abs_def] outbox_lease_of_Some)
  then have "is_ok (ack (ob_id c) w t rows2)" using v by (simp add: ack_def update_one_def update_where_def)
  moreover have "\<not> is_ok (ack (ob_id c) w' t rows2)" if "w' \<noteq> w" for w' t
  proof -
    have "rows_affected (outbox_owned (ob_id c) w') rows2 = 0"
      using only that r2(3) rows_affected_pos [of "outbox_owned (ob_id c) w'" rows2]
      by (auto simp: outbox_owned_def outbox_lease_of_Some)
    then show ?thesis by (cases "validate_worker w'") (simp_all add: ack_def update_one_def update_where_def)
  qed
  moreover have "ob_id c \<notin> ob_id ` set cl"
    if "w' \<noteq> w" "t < until" "outbox_claim_batch w' t u l s rows2 = Ok (cl, rows3)" for w' t u l s cl rows3
    using outbox_claim_spec [OF that(3)] only r2(3) that(2)
    by (auto simp: outbox_eligible_def outbox_lease_of_Some)
  ultimately show ?thesis by blast
qed

text \<open>Two workers read the same snapshot; the second one comes too late.\<close>

definition example_event :: outbox_row where
  "example_event = (outbox_row_of 5 1 7 \<lparr>oe_type = ''FileCreated'', oe_aggregate_type = ''file'',
     oe_aggregate_id = ''f'', oe_payload = JNull\<rparr>)"

theorem outbox_lease_exclusive_witness:
  "case outbox_claim_batch ''a'' 10 100 8 [example_event] [example_event] of
     Ok (claimed, rows1) \<Rightarrow>
       (let rows2 = fold outbox_apply [OutboxClaim ''b'' 11 90 8 [example_event], OutboxAck 7 ''b'' 12] rows1
        in claimed \<noteq> [] \<and> is_ok (ack 7 ''a'' 50 rows2) \<and> \<not> is_ok (ack 7 ''b'' 50 rows2))
   | Err _ \<Rightarrow> False"
proof -
  let ?e = "outbox_lease ''a'' 100 example_event"
  have claim: "outbox_claim_batch ''a'' 10 100 8 [example_event] [example_event] = Ok ([?e], [?e])"
    by code_simp
  let ?ops = "[OutboxClaim ''b'' 11 90 8 [example_event], OutboxAck 7 ''b'' 12]"
  have i: "ob_id ?e = 7" by code_simp
  have d: "distinct (map ob_id [example_event])" and m: "?e \<in> set [?e]" by simp_all
  have o: "\<forall>op \<in> set ?ops. outbox_actor op \<noteq> Some ''a'' \<and>
      (\<forall>t. outbox_claim_time op = Some t \<longrightarrow> t < 100)" by simp
  note ex = outbox_lease_exclusive [OF claim d m o refl, of 50, unfolded i]
  have "is_ok (ack 7 ''a'' 50 (fold outbox_apply ?ops [?e]))" by (rule conjunct1 [OF ex])
  moreover have "\<not> is_ok (ack 7 ''b'' 50 (fold outbox_apply ?ops [?e]))"
    using conjunct1 [OF conjunct2 [OF ex], rule_format, of "''b''" 50] by blast
  ultimately show ?thesis unfolding claim sum.case prod.case Let_def by simp
qed

end
