(* ===== verification/Job_Queue.thy ===== *)
theory Job_Queue
  imports Outbox
begin

text \<open>
  Durable background jobs (\<^verbatim>\<open>JobRepository\<close> of crates/state/src/background.rs).

  The table is a list of typed rows. An INSERT or a change of status checks the schema: the primary
  key, the unique pair of vault and deduplication key (one partial index covers the global jobs),
  the foreign key of the vault, and the partial unique indexes that allow one active job of the
  singleton types per vault. Clock readings and fresh identifiers are arguments, and so is the
  length of the JSON text of a value. A read that precedes the statement that writes is given its
  own \<open>snapshot\<close>, so that other connections may run in between.
\<close>

section \<open>Rows\<close>

datatype job_status = JQueued | JRunning | JRetryWait | JCompleted | JFailed | JCancelled

fun job_status_as_str :: "job_status \<Rightarrow> string" where
  "job_status_as_str JQueued = ''queued''"
| "job_status_as_str JRunning = ''running''"
| "job_status_as_str JRetryWait = ''retry_wait''"
| "job_status_as_str JCompleted = ''completed''"
| "job_status_as_str JFailed = ''failed''"
| "job_status_as_str JCancelled = ''cancelled''"

definition job_status_parse :: "string \<Rightarrow> state_error + job_status" where
  "job_status_parse v =
     (if v = ''queued'' then Ok JQueued
      else if v = ''running'' then Ok JRunning
      else if v = ''retry_wait'' then Ok JRetryWait
      else if v = ''completed'' then Ok JCompleted
      else if v = ''failed'' then Ok JFailed
      else if v = ''cancelled'' then Ok JCancelled
      else Err (InvalidInput ''stored job status is invalid''))"

definition active_status :: "job_status \<Rightarrow> bool" where
  "active_status s \<longleftrightarrow> s = JQueued \<or> s = JRunning \<or> s = JRetryWait"

definition waiting_status :: "job_status \<Rightarrow> bool" where
  "waiting_status s \<longleftrightarrow> s = JQueued \<or> s = JRetryWait"

record job_row =
  jb_id :: job_id
  jb_vault :: "vault_id option"
  jb_type :: string
  jb_dedup_key :: string
  jb_payload :: json
  jb_status :: job_status
  jb_priority :: int
  jb_attempts :: nat
  jb_max_attempts :: nat
  jb_available_at :: int
  jb_lease_owner :: "string option"
  jb_lease_until :: "int option"
  jb_progress :: "json option"
  jb_last_error :: "string option"
  jb_created_at :: int
  jb_updated_at :: int
  jb_completed_at :: "int option"
  jb_cancel_requested :: bool

record job_status_counts =
  jc_queued :: nat
  jc_running :: nat
  jc_retry_wait :: nat
  jc_completed :: nat
  jc_failed :: nat
  jc_cancelled :: nat

section \<open>Constraints\<close>

definition validate_job_labels :: "string \<Rightarrow> string \<Rightarrow> state_error + unit" where
  "validate_job_labels ty key =
     (if bounded_text MAX_JOB_TYPE_BYTES ty \<and> bounded_text MAX_DEDUP_KEY_BYTES key then Ok ()
      else Err (InvalidInput ''job label is invalid''))"

definition validate_attempts :: "nat \<Rightarrow> state_error + unit" where
  "validate_attempts v =
     (if v = 0 \<or> v > 100 then Err (InvalidInput ''job max attempts are invalid'') else Ok ())"

definition validate_payload :: "(json \<Rightarrow> nat) \<Rightarrow> json \<Rightarrow> state_error + unit" where
  "validate_payload json_len v =
     (if json_len v > MAX_PAYLOAD_BYTES then Err (InvalidInput ''worker payload is too large'') else Ok ())"

definition singleton_types :: "string list" where
  "singleton_types = [''memory.consolidate'', ''memory.reset_pipeline'', ''memory.enrich_retrieval'', ''retrieval.calibrate'',
     ''memory.deduplicate'', ''memory.organize'', ''memory.overview'']"

definition singleton_active :: "job_row \<Rightarrow> bool" where
  "singleton_active r \<longleftrightarrow>
     jb_vault r \<noteq> None \<and> jb_type r \<in> set singleton_types \<and> active_status (jb_status r)"

definition singletons_ok :: "job_row list \<Rightarrow> bool" where
  "singletons_ok rows \<longleftrightarrow> distinct (map (\<lambda>r. (jb_vault r, jb_type r)) (filter singleton_active rows))"

definition insert_job ::
  "vault_row list \<Rightarrow> job_row \<Rightarrow> job_row list \<Rightarrow> state_error + job_row list" where
  "insert_job vaults r rows =
     (if \<exists>x \<in> set rows. jb_id x = jb_id r \<or> jb_vault x = jb_vault r \<and> jb_dedup_key x = jb_dedup_key r
      then Err (Database UniqueViolation)
      else if \<not> singletons_ok (rows @ [r]) then Err (Database UniqueViolation)
      else if (case jb_vault r of None \<Rightarrow> False | Some v \<Rightarrow> \<not> (\<exists>x \<in> set vaults. vr_id x = v))
      then Err (Database ForeignKeyViolation)
      else Ok (rows @ [r]))"

section \<open>Reading\<close>

definition row_to_job :: "job_row \<Rightarrow> state_error + job_row" where
  "row_to_job r =
     (if int (jb_attempts r) < 2 ^ 32 then Ok r else Err (InvalidInput ''job attempts are invalid''))"

definition optional_job :: "job_row option \<Rightarrow> state_error + job_row option" where
  "optional_job v = (case v of None \<Rightarrow> Ok None | Some r \<Rightarrow> bind_r (row_to_job r) (\<lambda>r. Ok (Some r)))"

definition find_by_scope :: "vault_id option \<Rightarrow> string \<Rightarrow> job_row list \<Rightarrow> state_error + job_row option" where
  "find_by_scope v key rows =
     optional_job (find_row (\<lambda>r. jb_vault r = v \<and> jb_dedup_key r = key) rows)"

definition get_unscoped :: "job_id \<Rightarrow> job_row list \<Rightarrow> state_error + job_row option" where
  "get_unscoped i rows = optional_job (find_row (\<lambda>r. jb_id r = i) rows)"

definition job_get ::
  "vault_context \<Rightarrow> job_id \<Rightarrow> vault_row list \<Rightarrow> job_row list \<Rightarrow> state_error + job_row option" where
  "job_get ctx i vaults rows =
     bind_r (bg_ensure_context ctx vaults) (\<lambda>_.
       optional_job (find_row (\<lambda>r. jb_id r = i \<and> jb_vault r = Some (ctx_id ctx)) rows))"

definition find_by_dedup ::
  "vault_context \<Rightarrow> string \<Rightarrow> vault_row list \<Rightarrow> job_row list \<Rightarrow> state_error + job_row option" where
  "find_by_dedup ctx key vaults rows =
     bind_r (bg_ensure_context ctx vaults) (\<lambda>_. find_by_scope (Some (ctx_id ctx)) key rows)"

definition active_of_type :: "vault_id \<Rightarrow> string \<Rightarrow> job_row \<Rightarrow> bool" where
  "active_of_type v ty r \<longleftrightarrow> jb_vault r = Some v \<and> jb_type r = ty \<and> active_status (jb_status r)"

definition find_active_by_type ::
  "vault_context \<Rightarrow> string \<Rightarrow> vault_row list \<Rightarrow> job_row list \<Rightarrow> state_error + job_row option" where
  "find_active_by_type ctx ty vaults rows =
     bind_r (bg_ensure_context ctx vaults) (\<lambda>_.
     bind_r (validate_job_labels ty ''active-job-type'') (\<lambda>_.
       (let found = rev (sort_key (\<lambda>r. (jb_created_at r, jb_id r)) (filter (active_of_type (ctx_id ctx) ty) rows))
        in optional_job (case found of [] \<Rightarrow> None | r # _ \<Rightarrow> Some r))))"

definition job_decode_all :: "job_row list \<Rightarrow> state_error + job_row list" where
  "job_decode_all rows =
     (if \<forall>r \<in> set rows. int (jb_attempts r) < 2 ^ 32 then Ok rows
      else Err (InvalidInput ''job attempts are invalid''))"

definition job_list ::
  "vault_context \<Rightarrow> job_status option \<Rightarrow> string option \<Rightarrow> nat \<Rightarrow> nat \<Rightarrow> vault_row list \<Rightarrow> job_row list \<Rightarrow>
     state_error + job_row list" where
  "job_list ctx status ty limit offset vaults rows =
     bind_r (bg_ensure_context ctx vaults) (\<lambda>_.
       if limit = 0 \<or> limit > 200 \<or> int offset > 1000000 then Err (InvalidInput ''job page is invalid'')
       else
         bind_r (case ty of None \<Rightarrow> Ok () | Some t \<Rightarrow> validate_job_labels t ''job-type-filter'') (\<lambda>_.
           job_decode_all (take limit (drop offset
             (sort_key (\<lambda>r. (- jb_created_at r, jb_id r))
               (filter (\<lambda>r. jb_vault r = Some (ctx_id ctx) \<and>
                  (case status of None \<Rightarrow> True | Some s \<Rightarrow> jb_status r = s) \<and>
                  (case ty of None \<Rightarrow> True | Some t \<Rightarrow> jb_type r = t)) rows))))))"

definition list_terminal ::
  "vault_context \<Rightarrow> nat \<Rightarrow> nat \<Rightarrow> vault_row list \<Rightarrow> job_row list \<Rightarrow> state_error + job_row list" where
  "list_terminal ctx limit offset vaults rows =
     bind_r (bg_ensure_context ctx vaults) (\<lambda>_.
       if limit = 0 \<or> limit > 200 \<or> int offset > 1000000 then Err (InvalidInput ''job page is invalid'')
       else job_decode_all (take limit (drop offset
         (rev (sort_key (\<lambda>r. (case jb_completed_at r of Some t \<Rightarrow> t | None \<Rightarrow> jb_updated_at r, jb_id r))
           (filter (\<lambda>r. jb_vault r = Some (ctx_id ctx) \<and> \<not> active_status (jb_status r)) rows))))))"

definition count_status :: "vault_id \<Rightarrow> job_status \<Rightarrow> job_row list \<Rightarrow> nat" where
  "count_status v s rows = rows_affected (\<lambda>r. jb_vault r = Some v \<and> jb_status r = s) rows"

definition status_counts ::
  "vault_context \<Rightarrow> vault_row list \<Rightarrow> job_row list \<Rightarrow> state_error + job_status_counts" where
  "status_counts ctx vaults rows =
     bind_r (bg_ensure_context ctx vaults) (\<lambda>_.
       (let count = (\<lambda>s. count_status (ctx_id ctx) s rows) in
        Ok \<lparr>jc_queued = count JQueued, jc_running = count JRunning, jc_retry_wait = count JRetryWait,
            jc_completed = count JCompleted, jc_failed = count JFailed, jc_cancelled = count JCancelled\<rparr>))"

definition pending_count_for :: "vault_context \<Rightarrow> vault_row list \<Rightarrow> job_row list \<Rightarrow> state_error + nat" where
  "pending_count_for ctx vaults rows =
     bind_r (bg_ensure_context ctx vaults) (\<lambda>_.
       Ok (rows_affected (\<lambda>r. jb_vault r = Some (ctx_id ctx) \<and> active_status (jb_status r)) rows))"

definition job_pending_count :: "job_row list \<Rightarrow> nat" where
  "job_pending_count rows = rows_affected (\<lambda>r. active_status (jb_status r)) rows"

section \<open>Enqueueing\<close>

definition enqueue_inner ::
  "(json \<Rightarrow> nat) \<Rightarrow> vault_id option \<Rightarrow> string \<Rightarrow> string \<Rightarrow> json \<Rightarrow> int \<Rightarrow> nat \<Rightarrow> int \<Rightarrow> int \<Rightarrow> job_id \<Rightarrow>
     vault_row list \<Rightarrow> job_row list \<Rightarrow> job_row list \<Rightarrow> state_error + job_row \<times> job_row list" where
  "enqueue_inner json_len v ty key payload priority max_attempts available_at now i vaults snapshot rows =
     bind_r (validate_job_labels ty key) (\<lambda>_.
     bind_r (validate_attempts max_attempts) (\<lambda>_.
     bind_r (validate_payload json_len payload) (\<lambda>_.
     bind_r (find_by_scope v key snapshot) (\<lambda>existing.
       case existing of
         Some r \<Rightarrow> Ok (r, rows)
       | None \<Rightarrow>
           (let r = \<lparr>jb_id = i, jb_vault = v, jb_type = ty, jb_dedup_key = key, jb_payload = payload,
                jb_status = JQueued, jb_priority = priority, jb_attempts = 0,
                jb_max_attempts = max_attempts, jb_available_at = available_at,
                jb_lease_owner = None, jb_lease_until = None, jb_progress = None,
                jb_last_error = None, jb_created_at = now, jb_updated_at = now,
                jb_completed_at = None, jb_cancel_requested = False\<rparr>
            in case insert_job vaults r rows of
                 Err e \<Rightarrow>
                   bind_r (find_by_scope v key rows) (\<lambda>existing.
                     case existing of Some x \<Rightarrow> Ok (x, rows) | None \<Rightarrow> Err e)
               | Ok rows' \<Rightarrow>
                   bind_r (get_unscoped i rows') (\<lambda>found.
                     case found of Some x \<Rightarrow> Ok (x, rows')
                     | None \<Rightarrow> Err (InvalidInput ''inserted job was not found'')))))))"

definition enqueue ::
  "(json \<Rightarrow> nat) \<Rightarrow> vault_context \<Rightarrow> string \<Rightarrow> string \<Rightarrow> json \<Rightarrow> int \<Rightarrow> nat \<Rightarrow> int \<Rightarrow> int \<Rightarrow> job_id \<Rightarrow>
     vault_row list \<Rightarrow> job_row list \<Rightarrow> job_row list \<Rightarrow> state_error + job_row \<times> job_row list" where
  "enqueue json_len ctx ty key payload priority max_attempts available_at now i vaults snapshot rows =
     bind_r (bg_ensure_context ctx vaults) (\<lambda>_.
       enqueue_inner json_len (Some (ctx_id ctx)) ty key payload priority max_attempts available_at
         now i vaults snapshot rows)"

definition enqueue_global ::
  "(json \<Rightarrow> nat) \<Rightarrow> string \<Rightarrow> string \<Rightarrow> json \<Rightarrow> int \<Rightarrow> nat \<Rightarrow> int \<Rightarrow> int \<Rightarrow> job_id \<Rightarrow>
     vault_row list \<Rightarrow> job_row list \<Rightarrow> job_row list \<Rightarrow> state_error + job_row \<times> job_row list" where
  "enqueue_global json_len ty key payload priority max_attempts available_at now i vaults snapshot rows =
     enqueue_inner json_len None ty key payload priority max_attempts available_at now i vaults snapshot rows"

definition enqueue_singleton ::
  "(json \<Rightarrow> nat) \<Rightarrow> vault_context \<Rightarrow> string \<Rightarrow> string \<Rightarrow> json \<Rightarrow> int \<Rightarrow> nat \<Rightarrow> int \<Rightarrow> int \<Rightarrow> job_id \<Rightarrow>
     vault_row list \<Rightarrow> job_row list \<Rightarrow> job_row list \<Rightarrow> state_error + job_row \<times> job_row list" where
  "enqueue_singleton json_len ctx ty key payload priority max_attempts available_at now i vaults snapshot rows =
     bind_r (find_active_by_type ctx ty vaults snapshot) (\<lambda>existing.
       case existing of
         Some r \<Rightarrow> Ok (r, rows)
       | None \<Rightarrow>
           (case enqueue json_len ctx ty key payload priority max_attempts available_at now i vaults snapshot rows of
              Ok res \<Rightarrow> Ok res
            | Err e \<Rightarrow>
                bind_r (find_active_by_type ctx ty vaults rows) (\<lambda>existing.
                  case existing of Some r \<Rightarrow> Ok (r, rows) | None \<Rightarrow> Err e)))"

definition expedite_active :: "vault_context \<Rightarrow> string \<Rightarrow> int \<Rightarrow> job_row list \<Rightarrow> job_row list" where
  "expedite_active ctx ty now rows =
     snd (update_where (\<lambda>r. jb_vault r = Some (ctx_id ctx) \<and> jb_type r = ty \<and> waiting_status (jb_status r))
       (\<lambda>r. r\<lparr>jb_available_at := now, jb_updated_at := now\<rparr>) rows)"

definition promote_active_priority :: "vault_context \<Rightarrow> string \<Rightarrow> int \<Rightarrow> job_row list \<Rightarrow> job_row list" where
  "promote_active_priority ctx ty priority rows =
     snd (update_where (\<lambda>r. active_of_type (ctx_id ctx) ty r \<and> jb_priority r < priority)
       (\<lambda>r. r\<lparr>jb_priority := priority\<rparr>) rows)"

section \<open>Claiming\<close>

definition job_eligible :: "int \<Rightarrow> job_row \<Rightarrow> bool" where
  "job_eligible now r \<longleftrightarrow>
     active_status (jb_status r) \<and> jb_available_at r \<le> now \<and>
     (case jb_lease_until r of None \<Rightarrow> True | Some u \<Rightarrow> u \<le> now) \<and>
     (jb_attempts r < jb_max_attempts r \<or> jb_cancel_requested r)"

definition vault_rank :: "job_row list \<Rightarrow> job_row \<Rightarrow> nat" where
  \<comment> \<open>\<open>ROW_NUMBER() OVER (PARTITION BY vault ORDER BY priority DESC, created_at, id)\<close>\<close>
  "vault_rank eligible r =
     Suc (length (filter (\<lambda>x. jb_vault x = jb_vault r \<and>
       (- jb_priority x, jb_created_at x, jb_id x) < (- jb_priority r, jb_created_at r, jb_id r)) eligible))"

definition job_candidates :: "int \<Rightarrow> nat \<Rightarrow> job_row list \<Rightarrow> job_row list" where
  "job_candidates now limit rows =
     (let eligible = filter (job_eligible now) rows
      in take limit (sort_key (\<lambda>r. (- jb_priority r, vault_rank eligible r, jb_created_at r, jb_id r)) eligible))"

definition job_lease :: "string \<Rightarrow> int \<Rightarrow> int \<Rightarrow> job_row \<Rightarrow> job_row" where
  "job_lease worker now lease_until r =
     r\<lparr>jb_status := JRunning, jb_lease_owner := Some worker, jb_lease_until := Some lease_until,
       jb_attempts := jb_attempts r + 1, jb_updated_at := now\<rparr>"

definition job_claim_record :: "string \<Rightarrow> int \<Rightarrow> job_row \<Rightarrow> job_row" where
  \<comment> \<open>the returned record; it keeps the \<open>updated_at\<close> it was selected with\<close>
  "job_claim_record worker lease_until r =
     r\<lparr>jb_status := JRunning, jb_lease_owner := Some worker, jb_lease_until := Some lease_until,
       jb_attempts := saturating_inc (jb_attempts r)\<rparr>"

definition job_claim_batch ::
  "string \<Rightarrow> int \<Rightarrow> int \<Rightarrow> nat \<Rightarrow> job_row list \<Rightarrow> job_row list \<Rightarrow>
     state_error + job_row list \<times> job_row list" where
  "job_claim_batch worker now lease_until limit snapshot rows =
     bind_r (validate_worker worker) (\<lambda>_.
     bind_r (validate_lease now lease_until) (\<lambda>_.
     bind_r (validate_batch limit) (\<lambda>limit.
       reserve_rows jb_id (job_eligible now) (job_lease worker now lease_until) row_to_job
         (job_claim_record worker lease_until) (job_candidates now limit snapshot) rows)))"

section \<open>Owned jobs\<close>

definition job_owned :: "job_id \<Rightarrow> string \<Rightarrow> job_row \<Rightarrow> bool" where
  "job_owned i worker r \<longleftrightarrow> jb_id r = i \<and> jb_status r = JRunning \<and> jb_lease_owner r = Some worker"

definition update_progress ::
  "(json \<Rightarrow> nat) \<Rightarrow> job_id \<Rightarrow> string \<Rightarrow> json \<Rightarrow> int \<Rightarrow> job_row list \<Rightarrow> state_error + job_row list" where
  "update_progress json_len i worker progress now rows =
     bind_r (validate_worker worker) (\<lambda>_.
     bind_r (validate_payload json_len progress) (\<lambda>_.
       update_one ''job lease is not owned'' (job_owned i worker)
         (\<lambda>r. r\<lparr>jb_progress := Some progress, jb_updated_at := now\<rparr>) rows))"

definition finished :: "job_status \<Rightarrow> int option \<Rightarrow> string option \<Rightarrow> int \<Rightarrow> job_row \<Rightarrow> job_row" where
  "finished status available_at err now r =
     r\<lparr>jb_status := status,
       jb_available_at := (case available_at of Some t \<Rightarrow> t | None \<Rightarrow> jb_available_at r),
       jb_lease_owner := None, jb_lease_until := None, jb_last_error := err,
       jb_completed_at := (if active_status status then jb_completed_at r else Some now),
       jb_updated_at := now\<rparr>"

definition job_finish ::
  "job_id \<Rightarrow> string \<Rightarrow> job_status \<Rightarrow> int option \<Rightarrow> string option \<Rightarrow> int \<Rightarrow> job_row list \<Rightarrow>
     state_error + job_row list" where
  "job_finish i worker status available_at err now rows =
     bind_r (validate_worker worker) (\<lambda>_.
     bind_r (case err of Some e \<Rightarrow> validate_error e | None \<Rightarrow> Ok ()) (\<lambda>_.
       update_one ''job lease is not owned'' (job_owned i worker) (finished status available_at err now) rows))"

definition complete :: "job_id \<Rightarrow> string \<Rightarrow> int \<Rightarrow> job_row list \<Rightarrow> state_error + job_row list" where
  "complete i worker now rows = job_finish i worker JCompleted None None now rows"

definition retry_or_fail ::
  "job_id \<Rightarrow> string \<Rightarrow> int \<Rightarrow> string \<Rightarrow> int \<Rightarrow> job_row list \<Rightarrow> job_row list \<Rightarrow>
     state_error + job_status \<times> job_row list" where
  "retry_or_fail i worker available_at err now snapshot rows =
     bind_r (validate_error err) (\<lambda>_.
     bind_r (get_unscoped i snapshot) (\<lambda>found.
       case found of
         None \<Rightarrow> Err (InvalidInput ''job does not exist'')
       | Some job \<Rightarrow>
           (if jb_lease_owner job \<noteq> Some worker \<or> jb_status job \<noteq> JRunning
            then Err (InvalidInput ''job lease is not owned'')
            else
              (let status = (if jb_attempts job \<ge> jb_max_attempts job then JFailed else JRetryWait)
               in bind_r (job_finish i worker status (Some available_at) (Some err) now rows) (\<lambda>rows'.
                    Ok (status, rows'))))))"

definition fail_permanently ::
  "job_id \<Rightarrow> string \<Rightarrow> string \<Rightarrow> int \<Rightarrow> job_row list \<Rightarrow> state_error + job_row list" where
  "fail_permanently i worker err now rows =
     bind_r (validate_error err) (\<lambda>_. job_finish i worker JFailed None (Some err) now rows)"

definition cancel_claimed :: "job_id \<Rightarrow> string \<Rightarrow> int \<Rightarrow> job_row list \<Rightarrow> state_error + job_row list" where
  "cancel_claimed i worker now rows = job_finish i worker JCancelled None (Some ''cancelled'') now rows"

definition released_job :: "int \<Rightarrow> int \<Rightarrow> job_row \<Rightarrow> job_row" where
  "released_job available_at now r =
     r\<lparr>jb_status := JQueued, jb_available_at := available_at, jb_lease_owner := None,
       jb_lease_until := None, jb_attempts := jb_attempts r - 1, jb_updated_at := now\<rparr>"

definition release_claimed ::
  "job_id \<Rightarrow> string \<Rightarrow> int \<Rightarrow> int \<Rightarrow> job_row list \<Rightarrow> state_error + job_row list" where
  "release_claimed i worker available_at now rows =
     bind_r (validate_worker worker) (\<lambda>_.
       update_one ''job lease is not owned'' (\<lambda>r. job_owned i worker r \<and> \<not> jb_cancel_requested r)
         (released_job available_at now) rows)"

definition should_cancel_claimed :: "job_id \<Rightarrow> string \<Rightarrow> job_row list \<Rightarrow> state_error + bool" where
  "should_cancel_claimed i worker rows =
     bind_r (validate_worker worker) (\<lambda>_.
       Ok (case find_row (job_owned i worker) rows of None \<Rightarrow> True | Some r \<Rightarrow> jb_cancel_requested r))"

definition renew_claimed ::
  "job_id \<Rightarrow> string \<Rightarrow> int \<Rightarrow> int \<Rightarrow> job_row list \<Rightarrow> state_error + bool \<times> job_row list" where
  "renew_claimed i worker lease_until now rows =
     bind_r (validate_worker worker) (\<lambda>_.
       if lease_until \<le> now then Err (InvalidInput ''job lease renewal is invalid'')
       else
         (let (n, rows') = update_where (\<lambda>r. job_owned i worker r \<and> \<not> jb_cancel_requested r)
                (\<lambda>r. r\<lparr>jb_lease_until := Some lease_until, jb_updated_at := now\<rparr>) rows
          in Ok (n = 0, rows')))"

definition job_release_worker_leases :: "string \<Rightarrow> int \<Rightarrow> job_row list \<Rightarrow> state_error + job_row list" where
  "job_release_worker_leases worker now rows =
     bind_r (validate_worker worker) (\<lambda>_.
       Ok (snd (update_where (\<lambda>r. jb_lease_owner r = Some worker \<and> jb_status r = JRunning)
         (\<lambda>r. r\<lparr>jb_lease_owner := None, jb_lease_until := None, jb_status := JRetryWait,
                jb_updated_at := now\<rparr>) rows)))"

section \<open>Administration\<close>

definition ascii_lower :: "char \<Rightarrow> char" where
  "ascii_lower c = (if 65 \<le> byte_of c \<and> byte_of c \<le> 90 then char_of (byte_of c + 32) else c)"

definition uncancellable_run :: "job_row \<Rightarrow> bool" where
  \<comment> \<open>LIKE ignores the case of ASCII letters\<close>
  "uncancellable_run r \<longleftrightarrow>
     jb_status r = JRunning \<and>
     (prefix ''backup.'' (map ascii_lower (jb_type r)) \<or>
      jb_type r = ''memory.consolidate'' \<or> jb_type r = ''memory.reset_pipeline'')"

definition cancelled_job :: "int \<Rightarrow> job_row \<Rightarrow> job_row" where
  "cancelled_job now r =
     r\<lparr>jb_cancel_requested := True,
       jb_status := (if waiting_status (jb_status r) then JCancelled else jb_status r),
       jb_completed_at := (if waiting_status (jb_status r) then Some now else jb_completed_at r),
       jb_updated_at := now\<rparr>"

definition request_cancel ::
  "vault_context \<Rightarrow> job_id \<Rightarrow> int \<Rightarrow> vault_row list \<Rightarrow> job_row list \<Rightarrow> state_error + job_row list" where
  "request_cancel ctx i now vaults rows =
     bind_r (bg_ensure_context ctx vaults) (\<lambda>_.
       update_one ''job is not cancellable''
         (\<lambda>r. jb_id r = i \<and> jb_vault r = Some (ctx_id ctx) \<and> active_status (jb_status r) \<and>
              \<not> uncancellable_run r) (cancelled_job now) rows)"

definition request_cancel_type ::
  "vault_context \<Rightarrow> string \<Rightarrow> int \<Rightarrow> vault_row list \<Rightarrow> job_row list \<Rightarrow> state_error + nat \<times> job_row list" where
  "request_cancel_type ctx ty now vaults rows =
     bind_r (bg_ensure_context ctx vaults) (\<lambda>_.
     bind_r (validate_job_labels ty ''job-type-cancel'') (\<lambda>_.
       Ok (update_where (\<lambda>r. active_of_type (ctx_id ctx) ty r \<and> \<not> uncancellable_run r)
         (cancelled_job now) rows)))"

definition request_cancel_all ::
  "vault_context \<Rightarrow> int \<Rightarrow> vault_row list \<Rightarrow> job_row list \<Rightarrow> state_error + nat \<times> job_row list" where
  "request_cancel_all ctx now vaults rows =
     bind_r (bg_ensure_context ctx vaults) (\<lambda>_.
       Ok (update_where (\<lambda>r. jb_vault r = Some (ctx_id ctx) \<and> active_status (jb_status r) \<and>
            \<not> uncancellable_run r) (cancelled_job now) rows))"

definition requeued :: "bool \<Rightarrow> int \<Rightarrow> job_row \<Rightarrow> job_row" where
  "requeued keep_progress now r =
     r\<lparr>jb_status := JQueued, jb_available_at := now, jb_lease_owner := None, jb_lease_until := None,
       jb_attempts := 0,
       jb_progress := (if keep_progress \<and> jb_type r \<in> {''memory.extract'', ''memory.overview''}
                       then jb_progress r else None),
       jb_cancel_requested := False, jb_last_error := None, jb_completed_at := None,
       jb_updated_at := now\<rparr>"

definition requeue ::
  "string \<Rightarrow> (job_row \<Rightarrow> bool) \<Rightarrow> bool \<Rightarrow> int \<Rightarrow> job_row list \<Rightarrow> state_error + job_row list" where
  \<comment> \<open>the update fails when another active job of a singleton type exists\<close>
  "requeue msg P keep_progress now rows =
     (let (n, rows') = update_where P (requeued keep_progress now) rows
      in if \<not> singletons_ok rows' then Err (Database UniqueViolation)
         else if n \<noteq> 1 then Err (InvalidInput msg) else Ok rows')"

definition request_retry ::
  "vault_context \<Rightarrow> job_id \<Rightarrow> int \<Rightarrow> vault_row list \<Rightarrow> job_row list \<Rightarrow> state_error + job_row list" where
  "request_retry ctx i now vaults rows =
     bind_r (bg_ensure_context ctx vaults) (\<lambda>_.
       requeue ''job is not retryable''
         (\<lambda>r. jb_id r = i \<and> jb_vault r = Some (ctx_id ctx) \<and> jb_status r = JFailed) True now rows)"

definition request_restart_terminal ::
  "vault_context \<Rightarrow> job_id \<Rightarrow> int \<Rightarrow> vault_row list \<Rightarrow> job_row list \<Rightarrow> state_error + job_row list" where
  "request_restart_terminal ctx i now vaults rows =
     bind_r (bg_ensure_context ctx vaults) (\<lambda>_.
       requeue ''job is not restartable''
         (\<lambda>r. jb_id r = i \<and> jb_vault r = Some (ctx_id ctx) \<and>
              (jb_status r = JFailed \<or> jb_status r = JCancelled)) False now rows)"

section \<open>Coalescing rebuilds\<close>

fun json_get :: "string \<Rightarrow> json \<Rightarrow> json option" where
  "json_get k (JObj entries) = map_of entries k"
| "json_get k _ = None"

fun json_as_str :: "json \<Rightarrow> string option" where
  "json_as_str (JStr s) = Some s"
| "json_as_str _ = None"

definition managed_payload ::
  "(string \<Rightarrow> string) \<Rightarrow> (string \<Rightarrow> string) \<Rightarrow> path_policy \<Rightarrow> json \<Rightarrow> bool" where
  "managed_payload nfc lower policy payload \<longleftrightarrow>
     Option.bind (json_get ''aggregate_type'' payload) json_as_str = Some ''file'' \<and>
     (case Option.bind (Option.bind (json_get ''payload'' payload) (json_get ''path'')) json_as_str of
        None \<Rightarrow> False
      | Some text \<Rightarrow> (case parse_path nfc text of Err _ \<Rightarrow> False | Ok p \<Rightarrow> is_reserved lower policy p))"

definition newer_active :: "vault_id \<Rightarrow> string \<Rightarrow> int \<times> job_id \<Rightarrow> job_row \<Rightarrow> bool" where
  "newer_active v ty cursor r \<longleftrightarrow> active_of_type v ty r \<and> cursor < (jb_created_at r, jb_id r)"

definition newer_page :: "nat \<Rightarrow> vault_id \<Rightarrow> string \<Rightarrow> int \<times> job_id \<Rightarrow> job_row list \<Rightarrow> job_row list" where
  "newer_page psize v ty cursor rows =
     take psize (sort_key (\<lambda>r. (jb_created_at r, jb_id r)) (filter (newer_active v ty cursor) rows))"

lemma newer_page_rows: "r \<in> set (newer_page psize v ty cursor rows) \<Longrightarrow> r \<in> set rows \<and> newer_active v ty cursor r"
  by (auto simp: newer_page_def dest!: in_set_takeD)

function newer_loop ::
  "(json \<Rightarrow> bool) \<Rightarrow> nat \<Rightarrow> vault_id \<Rightarrow> string \<Rightarrow> int \<times> job_id \<Rightarrow> job_row list \<Rightarrow> bool" where
  \<comment> \<open>one page after another, the cursor at the last row seen\<close>
  "newer_loop managed psize v ty cursor rows =
     (let page = newer_page psize v ty cursor rows in
      if \<exists>r \<in> set page. \<not> managed (jb_payload r) then True
      else if page \<noteq> [] \<and> length page = psize then
        newer_loop managed psize v ty (jb_created_at (last page), jb_id (last page)) rows
      else False)"
  by pat_completeness auto

termination
proof (relation "measure (\<lambda>(managed, psize, v, ty, cursor, rows). length (filter (newer_active v ty cursor) rows))")
  fix managed :: "json \<Rightarrow> bool" and psize v ty cursor rows page
  assume page: "page = newer_page psize v ty cursor rows" and "page \<noteq> [] \<and> length page = psize"
  then have l: "last page \<in> set rows" "newer_active v ty cursor (last page)"
    using newer_page_rows [of "last page" psize v ty cursor rows] by simp_all
  let ?c = "(jb_created_at (last page), jb_id (last page))"
  have "newer_active v ty cursor x" if "newer_active v ty ?c x" for x
    using l(2) that unfolding newer_active_def by (meson less_trans)
  then have "filter (newer_active v ty ?c) rows = filter (newer_active v ty ?c) (filter (newer_active v ty cursor) rows)"
    by (auto simp: filter_filter intro!: filter_cong)
  also have "length \<dots> < length (filter (newer_active v ty cursor) rows)"
    using l by (intro length_filter_less [of "last page"]) (auto simp: newer_active_def)
  finally show "((managed, psize, v, ty, ?c, rows), (managed, psize, v, ty, cursor, rows)) \<in>
      measure (\<lambda>(managed, psize, v, ty, cursor, rows). length (filter (newer_active v ty cursor) rows))"
    by simp
qed simp

definition has_newer_active_job ::
  "(string \<Rightarrow> string) \<Rightarrow> (string \<Rightarrow> string) \<Rightarrow> (vault_id \<Rightarrow> string) \<Rightarrow> vault_context \<Rightarrow> string \<Rightarrow> int \<Rightarrow> job_id \<Rightarrow>
     vault_row list \<Rightarrow> job_row list \<Rightarrow> state_error + bool" where
  \<comment> \<open>\<open>reserved_text\<close> is the vault's \<open>reserved_root\<close> column\<close>
  "has_newer_active_job nfc lower reserved_text ctx ty created_at i vaults rows =
     bind_r (bg_ensure_context ctx vaults) (\<lambda>_.
     bind_r (validate_job_labels ty ''coalesce-check'') (\<lambda>_.
       if ty \<noteq> ''index.rebuild'' then Ok (\<exists>r \<in> set rows. newer_active (ctx_id ctx) ty (created_at, i) r)
       else
         bind_r (map_err InvalidDomain (parse_path nfc (reserved_text (ctx_id ctx)))) (\<lambda>root.
         bind_r (map_err InvalidDomain (path_policy_new root Insensitive)) (\<lambda>policy.
           Ok (newer_loop (managed_payload nfc lower policy) 128 (ctx_id ctx) ty (created_at, i) rows)))))"

declare newer_loop.simps [simp del]

lemma sorted_take_le:
  assumes "sorted (map k xs)" "x \<in> set (take n xs)" "y \<in> set (drop n xs)"
  shows "k x \<le> k y"
  using assms sorted_append [of "map k (take n xs)" "map k (drop n xs)"]
  by (simp add: map_append [symmetric] del: map_append)

lemma newer_page_complete:
  assumes "distinct (map jb_id rows)" "newer_active v ty cursor r" "r \<in> set rows"
    "r \<notin> set (newer_page psize v ty cursor rows)" "0 < psize"
  shows "length (newer_page psize v ty cursor rows) = psize \<and> newer_active v ty
    (jb_created_at (last (newer_page psize v ty cursor rows)), jb_id (last (newer_page psize v ty cursor rows))) r"
proof -
  let ?k = "\<lambda>r. (jb_created_at r, jb_id r)"
  let ?all = "sort_key ?k (filter (newer_active v ty cursor) rows)"
  let ?page = "newer_page psize v ty cursor rows"
  have "r \<in> set ?all" using assms(2,3) by simp
  then have r: "r \<in> set (drop psize ?all)"
    using assms(4) unfolding newer_page_def by (metis UnE append_take_drop_id set_append)
  then have len: "length ?page = psize"
    by (cases "psize \<le> length ?all") (auto simp: newer_page_def)
  then have "?page \<noteq> []" using assms(5) by auto
  then have l: "last ?page \<in> set ?page" by simp
  then have le: "?k (last ?page) \<le> ?k r"
    using sorted_take_le [of ?k ?all "last ?page" psize r] r by (simp add: newer_page_def)
  have "jb_id (last ?page) \<noteq> jb_id r"
    using lease_row_unique [OF assms(1) _ assms(3)] newer_page_rows [OF l] l assms(4) by metis
  then have "?k (last ?page) < ?k r" using le by auto
  then show ?thesis using len assms(2) by (simp add: newer_active_def)
qed

text \<open>
  The search for a newer active job reads the queue page by page; it ends for every queue and
  every page size, and its answer is that of one unbounded query: some newer active job of the
  vault and type whose payload is not about a service-managed file.
\<close>

theorem newer_loop_correct:
  assumes "distinct (map jb_id rows)" "0 < psize"
  shows "newer_loop managed psize v ty cursor rows \<longleftrightarrow>
    (\<exists>r \<in> set rows. newer_active v ty cursor r \<and> \<not> managed (jb_payload r))"
  using assms
proof (induction managed psize v ty cursor rows rule: newer_loop.induct)
  case (1 managed psize v ty cursor rows)
  let ?page = "newer_page psize v ty cursor rows"
  let ?c = "(jb_created_at (last ?page), jb_id (last ?page))"
  show ?case
  proof (cases "\<exists>r \<in> set ?page. \<not> managed (jb_payload r)")
    case True
    then have "newer_loop managed psize v ty cursor rows" by (simp add: newer_loop.simps [of managed psize v ty cursor rows])
    moreover have "\<exists>r \<in> set rows. newer_active v ty cursor r \<and> \<not> managed (jb_payload r)"
      using True newer_page_rows by blast
    ultimately show ?thesis by simp
  next
    case all: False
    then have beyond: "length ?page = psize \<and> newer_active v ty ?c r"
      if "r \<in> set rows" "newer_active v ty cursor r" "\<not> managed (jb_payload r)" for r
      using newer_page_complete [OF "1.prems"(1) that(2,1) _ "1.prems"(2)] that(3) by blast
    show ?thesis
    proof (cases "?page \<noteq> [] \<and> length ?page = psize")
      case True
      have "newer_loop managed psize v ty cursor rows = newer_loop managed psize v ty ?c rows"
        using all True by (simp add: newer_loop.simps [of managed psize v ty cursor rows] Let_def)
      moreover have l: "newer_active v ty cursor (last ?page)"
        using newer_page_rows [OF last_in_set] True by blast
      moreover have "newer_active v ty cursor r" if "newer_active v ty ?c r" for r
        using l that unfolding newer_active_def by (meson less_trans)
      ultimately show ?thesis using "1.IH" [OF refl all True "1.prems"] beyond by blast
    next
      case False
      then have "\<not> newer_loop managed psize v ty cursor rows"
        using all by (auto simp: newer_loop.simps [of managed psize v ty cursor rows] Let_def)
      moreover have "?page = [] \<Longrightarrow> length ?page \<noteq> psize" using "1.prems"(2) by simp
      ultimately show ?thesis using beyond False by blast
    qed
  qed
qed

definition example_job :: "job_id \<Rightarrow> vault_id option \<Rightarrow> string \<Rightarrow> job_row" where
  "example_job i v ty =
     \<lparr>jb_id = i, jb_vault = v, jb_type = ty, jb_dedup_key = ''k'', jb_payload = JNull, jb_status = JQueued,
      jb_priority = 0, jb_attempts = 0, jb_max_attempts = 1, jb_available_at = 0, jb_lease_owner = None,
      jb_lease_until = None, jb_progress = None, jb_last_error = None, jb_created_at = 1,
      jb_updated_at = 1, jb_completed_at = None, jb_cancel_requested = False\<rparr>"

theorem newer_loop_correct_witness:
  "newer_loop (\<lambda>p. p = JStr ''managed'') 1 7 ''index.rebuild'' (1, 1)
     [example_job 1 (Some 7) ''index.rebuild'', (example_job 2 (Some 7) ''index.rebuild'')\<lparr>jb_payload := JStr ''managed''\<rparr>,
      example_job 3 (Some 7) ''index.rebuild'']"
proof -
  let ?rows = "[example_job 1 (Some 7) ''index.rebuild'',
      (example_job 2 (Some 7) ''index.rebuild'')\<lparr>jb_payload := JStr ''managed''\<rparr>,
      example_job 3 (Some 7) ''index.rebuild'']"
  have d: "distinct (map jb_id ?rows)" by (simp add: example_job_def)
  show ?thesis
    by (subst newer_loop_correct [OF d])
      (simp_all add: newer_active_def active_of_type_def active_status_def example_job_def)
qed

end
