(* ===== verification/Job_Lifecycle.thy ===== *)
theory Job_Lifecycle
  imports Job_Queue
begin

text \<open>
  The job queue as a state machine: every repository call as an operation on the table, the edges
  a row can take, and what follows for any sequence of calls by any number of workers.
\<close>

section \<open>Operations\<close>

datatype job_op =
    JEnqueue "vault_id option" string string json int nat int int job_id "vault_row list" "job_row list"
  | JExpedite vault_context string int
  | JPromote vault_context string int
  | JClaim string int int nat "job_row list"
  | JProgress job_id string json int
  | JComplete job_id string int
  | JRetry job_id string int string int "job_row list"
  | JFail job_id string string int
  | JCancelClaimed job_id string int
  | JReleaseClaimed job_id string int int
  | JRenew job_id string int int
  | JReleaseWorker string int
  | JCancel vault_context job_id int "vault_row list"
  | JCancelType vault_context string int "vault_row list"
  | JCancelAll vault_context int "vault_row list"
  | JRequestRetry vault_context job_id int "vault_row list"
  | JRestart vault_context job_id int "vault_row list"

definition table_of :: "'e + 'a \<times> 'r list \<Rightarrow> 'r list \<Rightarrow> 'r list" where
  "table_of r rows = (case r of Err _ \<Rightarrow> rows | Ok p \<Rightarrow> snd p)"

fun job_apply :: "(json \<Rightarrow> nat) \<Rightarrow> job_op \<Rightarrow> job_row list \<Rightarrow> job_row list" where
  "job_apply jl (JEnqueue v ty key payload prio maximum available now i vaults snapshot) rows =
     table_of (enqueue_inner jl v ty key payload prio maximum available now i vaults snapshot rows) rows"
| "job_apply jl (JExpedite ctx ty now) rows = expedite_active ctx ty now rows"
| "job_apply jl (JPromote ctx ty prio) rows = promote_active_priority ctx ty prio rows"
| "job_apply jl (JClaim w now until limit snapshot) rows =
     table_of (job_claim_batch w now until limit snapshot rows) rows"
| "job_apply jl (JProgress i w progress now) rows = or_else (update_progress jl i w progress now rows) rows"
| "job_apply jl (JComplete i w now) rows = or_else (complete i w now rows) rows"
| "job_apply jl (JRetry i w available err now snapshot) rows =
     table_of (retry_or_fail i w available err now snapshot rows) rows"
| "job_apply jl (JFail i w err now) rows = or_else (fail_permanently i w err now rows) rows"
| "job_apply jl (JCancelClaimed i w now) rows = or_else (cancel_claimed i w now rows) rows"
| "job_apply jl (JReleaseClaimed i w available now) rows = or_else (release_claimed i w available now rows) rows"
| "job_apply jl (JRenew i w until now) rows = table_of (renew_claimed i w until now rows) rows"
| "job_apply jl (JReleaseWorker w now) rows = or_else (job_release_worker_leases w now rows) rows"
| "job_apply jl (JCancel ctx i now vaults) rows = or_else (request_cancel ctx i now vaults rows) rows"
| "job_apply jl (JCancelType ctx ty now vaults) rows = table_of (request_cancel_type ctx ty now vaults rows) rows"
| "job_apply jl (JCancelAll ctx now vaults) rows = table_of (request_cancel_all ctx now vaults rows) rows"
| "job_apply jl (JRequestRetry ctx i now vaults) rows = or_else (request_retry ctx i now vaults rows) rows"
| "job_apply jl (JRestart ctx i now vaults) rows = or_else (request_restart_terminal ctx i now vaults rows) rows"

fun job_actor :: "job_op \<Rightarrow> string option" where
  "job_actor (JClaim w _ _ _ _) = Some w"
| "job_actor (JProgress _ w _ _) = Some w"
| "job_actor (JComplete _ w _) = Some w"
| "job_actor (JRetry _ w _ _ _ _) = Some w"
| "job_actor (JFail _ w _ _) = Some w"
| "job_actor (JCancelClaimed _ w _) = Some w"
| "job_actor (JReleaseClaimed _ w _ _) = Some w"
| "job_actor (JRenew _ w _ _) = Some w"
| "job_actor (JReleaseWorker w _) = Some w"
| "job_actor _ = None"

fun job_claim_time :: "job_op \<Rightarrow> int option" where
  "job_claim_time (JClaim _ now _ _ _) = Some now"
| "job_claim_time _ = None"

section \<open>The life cycle\<close>

fun job_effect :: "job_op \<Rightarrow> job_status \<Rightarrow> job_status set" where
  \<comment> \<open>the specification: where an operation may move a job\<close>
  "job_effect (JClaim _ _ _ _ _) s = (if active_status s then {JRunning} else {})"
| "job_effect (JComplete _ _ _) s = (if s = JRunning then {JCompleted} else {})"
| "job_effect (JRetry _ _ _ _ _ _) s = (if s = JRunning then {JRetryWait, JFailed} else {})"
| "job_effect (JFail _ _ _ _) s = (if s = JRunning then {JFailed} else {})"
| "job_effect (JCancelClaimed _ _ _) s = (if s = JRunning then {JCancelled} else {})"
| "job_effect (JReleaseClaimed _ _ _ _) s = (if s = JRunning then {JQueued} else {})"
| "job_effect (JReleaseWorker _ _) s = (if s = JRunning then {JRetryWait} else {})"
| "job_effect (JCancel _ _ _ _) s = (if waiting_status s then {JCancelled} else {})"
| "job_effect (JCancelType _ _ _ _) s = (if waiting_status s then {JCancelled} else {})"
| "job_effect (JCancelAll _ _ _) s = (if waiting_status s then {JCancelled} else {})"
| "job_effect (JRequestRetry _ _ _ _) s = (if s = JFailed then {JQueued} else {})"
| "job_effect (JRestart _ _ _ _) s = (if s = JFailed \<or> s = JCancelled then {JQueued} else {})"
| "job_effect _ s = {}"

definition job_lease_of :: "job_row \<Rightarrow> (string \<times> int) option" where
  "job_lease_of r =
     (case (jb_lease_owner r, jb_lease_until r) of
        (Some w, Some u) \<Rightarrow> (if jb_status r = JRunning then Some (w, u) else None) | _ \<Rightarrow> None)"

lemma job_lease_of_Some:
  "job_lease_of r = Some (w, u) \<longleftrightarrow>
     jb_status r = JRunning \<and> jb_lease_owner r = Some w \<and> jb_lease_until r = Some u"
  by (auto simp: job_lease_of_def split: option.splits)

definition job_ok :: "job_row \<Rightarrow> bool" where
  "job_ok r \<longleftrightarrow>
     (jb_status r = JRunning \<longleftrightarrow> jb_lease_owner r \<noteq> None) \<and>
     (jb_lease_owner r = None \<longleftrightarrow> jb_lease_until r = None) \<and>
     (active_status (jb_status r) \<longleftrightarrow> jb_completed_at r = None) \<and>
     1 \<le> jb_max_attempts r \<and> jb_max_attempts r \<le> 100 \<and>
     (jb_status r = JRunning \<longrightarrow> 1 \<le> jb_attempts r) \<and>
     (\<not> jb_cancel_requested r \<longrightarrow> jb_attempts r \<le> jb_max_attempts r)"

definition job_edge :: "job_op \<Rightarrow> job_row \<Rightarrow> job_row \<Rightarrow> bool" where
  "job_edge op r r' \<longleftrightarrow>
     jb_id r' = jb_id r \<and> jb_vault r' = jb_vault r \<and> jb_dedup_key r' = jb_dedup_key r \<and>
     jb_type r' = jb_type r \<and>
     (jb_status r' = jb_status r \<or> jb_status r' \<in> job_effect op (jb_status r)) \<and>
     (job_ok r \<longrightarrow> job_ok r') \<and>
     (\<forall>w u. job_lease_of r = Some (w, u) \<longrightarrow> job_actor op \<noteq> Some w \<longrightarrow>
        (\<forall>now. job_claim_time op = Some now \<longrightarrow> now < u) \<longrightarrow> job_lease_of r' = Some (w, u))"

definition job_moves :: "job_op \<Rightarrow> job_row list \<Rightarrow> job_row list \<Rightarrow> bool" where
  "job_moves op rows rows' \<longleftrightarrow> list_all2 (\<lambda>r r'. r' = r \<or> job_edge op r r') rows rows'"

lemma job_moves_refl: "job_moves op rows rows"
  by (simp add: job_moves_def list.rel_refl)

lemma job_moves_update: "(\<And>r. P r \<Longrightarrow> job_edge op r (f r)) \<Longrightarrow> job_moves op rows (update_rows P f rows)"
  unfolding job_moves_def by (induction rows) auto

lemma job_moves_or_else:
  "(\<And>rows'. m = Ok rows' \<Longrightarrow> job_moves op rows rows') \<Longrightarrow> job_moves op rows (or_else m rows)"
  by (cases m) (auto simp: or_else_def job_moves_refl)

lemma job_moves_table_of:
  "(\<And>x rows'. m = Ok (x, rows') \<Longrightarrow> job_moves op rows rows') \<Longrightarrow> job_moves op rows (table_of m rows)"
  by (cases m) (auto simp: table_of_def job_moves_refl)

lemma job_moves_reserved:
  assumes "reserved elig lease rows rows'" "\<And>r. elig r \<Longrightarrow> job_edge op r (lease r)"
  shows "job_moves op rows rows'"
  using assms unfolding reserved_def job_moves_def by (auto elim!: list_all2_mono)

lemmas job_edge_defs = job_edge_def job_ok_def job_lease_of_Some active_status_def waiting_status_def

lemma job_finish_moves:
  assumes "job_finish i w status available err now rows = Ok rows'" "job_actor op = Some w"
    "status \<in> job_effect op JRunning" "status \<noteq> JRunning"
    "status = JRetryWait \<or> \<not> active_status status"
  shows "job_moves op rows rows'"
proof -
  have "rows' = update_rows (job_owned i w) (finished status available err now) rows"
    using assms(1) by (auto simp: job_finish_def bind_r_Ok_conv update_one_Ok)
  moreover have "job_edge op r (finished status available err now r)" if "job_owned i w r" for r
    using that assms(2-5) by (auto simp: job_edge_defs job_owned_def finished_def)
  ultimately show ?thesis using job_moves_update by blast
qed

fun is_enqueue :: "job_op \<Rightarrow> bool" where
  "is_enqueue (JEnqueue _ _ _ _ _ _ _ _ _ _ _) = True"
| "is_enqueue _ = False"

lemma job_claim_reserved:
  assumes "job_claim_batch w now until limit snapshot rows = Ok (claimed, rows')"
  shows "now < until \<and> reserved (job_eligible now) (job_lease w now until) rows rows' \<and>
    (\<forall>d \<in> set claimed. \<exists>r \<in> set rows. jb_id r = jb_id d \<and> job_eligible now r \<and>
      job_lease w now until r \<in> set rows')"
proof -
  have t: "now < until" and run: "reserve_rows jb_id (job_eligible now) (job_lease w now until) row_to_job
      (job_claim_record w until) (job_candidates now limit snapshot) rows = Ok (claimed, rows')"
    using assms by (auto simp: job_claim_batch_def bind_r_Ok_conv validate_lease_def validate_batch_def
        split: if_splits)
  have "\<not> job_eligible now (job_lease w now until r)" "jb_id (job_lease w now until r) = jb_id r"
    "jb_id (job_claim_record w until r) = jb_id r" for r
    using t by (simp_all add: job_eligible_def job_lease_def job_claim_record_def)
  moreover have "jb_id d = jb_id r" if "row_to_job r = Ok d" for r d
    using that by (auto simp: row_to_job_def split: if_splits)
  ultimately show ?thesis using t by (intro conjI reserve_rows_spec [OF run, THEN conjunct1]
        reserve_rows_spec [OF run, THEN conjunct2])
qed

lemma cancelled_job_edge:
  assumes "active_status (jb_status r)" "job_actor op = None" "job_claim_time op = None"
    "\<And>s. waiting_status s \<Longrightarrow> JCancelled \<in> job_effect op s"
  shows "job_edge op r (cancelled_job now r)"
  using assms by (auto simp: job_edge_defs cancelled_job_def)

lemma requeue_moves:
  assumes "requeue msg P keep now rows = Ok rows'"
    "\<And>r. P r \<Longrightarrow> \<not> active_status (jb_status r) \<and> JQueued \<in> job_effect op (jb_status r)"
  shows "job_moves op rows rows'"
proof -
  have "rows' = update_rows P (requeued keep now) rows"
    using assms(1) by (auto simp: requeue_def update_where_def split: if_splits)
  moreover have "job_edge op r (requeued keep now r)" if "P r" for r
    using assms(2) [OF that] by (auto simp: job_edge_defs requeued_def)
  ultimately show ?thesis using job_moves_update by blast
qed

lemma retry_or_fail_finishes:
  assumes "retry_or_fail i w available err now snapshot rows = Ok (st, rows')"
  shows "st \<in> {JRetryWait, JFailed} \<and> job_finish i w st (Some available) (Some err) now rows = Ok rows'"
proof -
  obtain found where f: "get_unscoped i snapshot = Ok found"
    using assms by (auto simp: retry_or_fail_def bind_r_Ok_conv)
  then obtain job where "found = Some job"
    using assms by (cases found) (auto simp: retry_or_fail_def bind_r_Ok_conv)
  then show ?thesis
    using assms f by (auto simp: retry_or_fail_def bind_r_Ok_conv Let_def split: if_splits)
qed

lemma job_apply_moves:
  assumes "\<not> is_enqueue op"
  shows "job_moves op rows (job_apply jl op rows)"
proof (cases op)
  case (JExpedite ctx ty now)
  show ?thesis unfolding JExpedite job_apply.simps expedite_active_def update_where_def snd_conv
    by (rule job_moves_update) (auto simp: job_edge_defs)
next
  case (JPromote ctx ty prio)
  show ?thesis unfolding JPromote job_apply.simps promote_active_priority_def update_where_def snd_conv
    by (rule job_moves_update) (auto simp: job_edge_defs active_of_type_def)
next
  case (JClaim w now until limit snapshot)
  have "job_edge op r (job_lease w now until r)" if "job_eligible now r" for r
    using that JClaim by (auto simp: job_edge_defs job_lease_def job_eligible_def split: option.splits)
  then show ?thesis unfolding JClaim job_apply.simps
    by (intro job_moves_table_of) (blast dest: job_claim_reserved intro: job_moves_reserved)
next
  case (JProgress i w progress now)
  show ?thesis unfolding JProgress job_apply.simps
    by (rule job_moves_or_else)
      (auto simp: update_progress_def bind_r_Ok_conv update_one_Ok job_edge_defs intro!: job_moves_update)
next
  case (JComplete i w now)
  then show ?thesis
    by (auto simp: complete_def active_status_def intro!: job_moves_or_else elim!: job_finish_moves)
next
  case (JRetry i w available err now snapshot)
  then show ?thesis
    by (auto simp: active_status_def dest!: retry_or_fail_finishes intro!: job_moves_table_of elim!: job_finish_moves)
next
  case (JFail i w err now)
  then show ?thesis
    by (auto simp: fail_permanently_def bind_r_Ok_conv active_status_def intro!: job_moves_or_else elim!: job_finish_moves)
next
  case (JCancelClaimed i w now)
  then show ?thesis
    by (auto simp: cancel_claimed_def active_status_def intro!: job_moves_or_else elim!: job_finish_moves)
next
  case (JReleaseClaimed i w available now)
  show ?thesis unfolding JReleaseClaimed job_apply.simps
    by (rule job_moves_or_else)
      (auto simp: release_claimed_def bind_r_Ok_conv update_one_Ok job_edge_defs job_owned_def released_job_def
        intro!: job_moves_update)
next
  case (JRenew i w until now)
  show ?thesis unfolding JRenew job_apply.simps
    by (rule job_moves_table_of)
      (auto simp: renew_claimed_def bind_r_Ok_conv update_where_def job_edge_defs job_owned_def
        intro!: job_moves_update split: if_splits)
next
  case (JReleaseWorker w now)
  show ?thesis unfolding JReleaseWorker job_apply.simps
    by (rule job_moves_or_else)
      (auto simp: job_release_worker_leases_def bind_r_Ok_conv update_where_def job_edge_defs
        intro!: job_moves_update)
next
  case (JCancel ctx i now vaults)
  show ?thesis unfolding JCancel job_apply.simps
    by (rule job_moves_or_else)
      (auto simp: request_cancel_def bind_r_Ok_conv update_one_Ok intro!: job_moves_update cancelled_job_edge)
next
  case (JCancelType ctx ty now vaults)
  show ?thesis unfolding JCancelType job_apply.simps
    by (rule job_moves_table_of)
      (auto simp: request_cancel_type_def bind_r_Ok_conv update_where_def active_of_type_def
        intro!: job_moves_update cancelled_job_edge)
next
  case (JCancelAll ctx now vaults)
  show ?thesis unfolding JCancelAll job_apply.simps
    by (rule job_moves_table_of)
      (auto simp: request_cancel_all_def bind_r_Ok_conv update_where_def intro!: job_moves_update cancelled_job_edge)
next
  case (JRequestRetry ctx i now vaults)
  show ?thesis unfolding JRequestRetry job_apply.simps
    by (rule job_moves_or_else)
      (auto simp: request_retry_def bind_r_Ok_conv active_status_def elim!: requeue_moves)
next
  case (JRestart ctx i now vaults)
  show ?thesis unfolding JRestart job_apply.simps
    by (rule job_moves_or_else)
      (auto simp: request_restart_terminal_def bind_r_Ok_conv active_status_def elim!: requeue_moves)
qed (use assms in simp)

section \<open>Invariants of every run\<close>

definition job_key :: "job_row \<Rightarrow> vault_id option \<times> string" where
  "job_key r = (jb_vault r, jb_dedup_key r)"

definition job_table_ok :: "job_row list \<Rightarrow> bool" where
  "job_table_ok rows \<longleftrightarrow> distinct (map jb_id rows) \<and> distinct (map job_key rows) \<and> singletons_ok rows \<and>
     (\<forall>r \<in> set rows. job_ok r)"

lemma job_moves_keys:
  assumes "job_moves op rows rows'"
  shows "map jb_id rows' = map jb_id rows \<and> map job_key rows' = map job_key rows"
  using assms unfolding job_moves_def
  by (induction rule: list_all2_induct) (auto simp: job_edge_def job_key_def)

lemma job_moves_ok:
  assumes "job_moves op rows rows'" "\<forall>r \<in> set rows. job_ok r"
  shows "\<forall>r \<in> set rows'. job_ok r"
  using assms unfolding job_moves_def
  by (induction rule: list_all2_induct) (auto simp: job_edge_def)

fun is_requeue :: "job_op \<Rightarrow> bool" where
  "is_requeue (JRequestRetry _ _ _ _) = True"
| "is_requeue (JRestart _ _ _ _) = True"
| "is_requeue _ = False"

lemma effect_active:
  "\<not> is_requeue op \<Longrightarrow> s' \<in> job_effect op s \<Longrightarrow> active_status s' \<Longrightarrow> active_status s"
  by (cases op) (auto simp: active_status_def waiting_status_def split: if_splits)

lemma job_moves_singletons:
  assumes "job_moves op rows rows'" "\<not> is_requeue op" "singletons_ok rows"
  shows "singletons_ok rows'"
proof -
  let ?k = "\<lambda>r. (jb_vault r, jb_type r)"
  have "subseq (map ?k (filter singleton_active rows')) (map ?k (filter singleton_active rows))"
    using assms(1) unfolding job_moves_def
  proof (induction rule: list_all2_induct)
    case (Cons r rs r' rs')
    have "?k r' = ?k r" "singleton_active r' \<Longrightarrow> singleton_active r"
      using Cons(1) effect_active [OF assms(2)] by (auto simp: job_edge_def singleton_active_def)
    then show ?case using Cons(3) by auto
  qed simp
  then obtain N where "map ?k (filter singleton_active rows') = nths (map ?k (filter singleton_active rows)) N"
    by (auto simp: subseq_conv_nths)
  then show ?thesis using assms(3) by (simp add: singletons_ok_def distinct_nthsI)
qed

lemma requeue_singletons: "requeue msg P keep now rows = Ok rows' \<Longrightarrow> singletons_ok rows'"
  by (auto simp: requeue_def split: prod.splits if_splits)

lemma or_else_prop: "P d \<Longrightarrow> (\<And>x. r = Ok x \<Longrightarrow> P x) \<Longrightarrow> P (or_else r d)"
  by (cases r) (auto simp: or_else_def)

lemma job_apply_singletons:
  assumes "\<not> is_enqueue op" "singletons_ok rows"
  shows "singletons_ok (job_apply jl op rows)"
proof (cases "is_requeue op")
  case False
  then show ?thesis using job_moves_singletons [OF job_apply_moves [OF assms(1)]] assms(2) by blast
next
  case True
  then show ?thesis
    using assms(2)
    by (cases op) (auto simp: request_retry_def request_restart_terminal_def bind_r_Ok_conv
        intro!: or_else_prop [of singletons_ok] dest: requeue_singletons)
qed

lemma enqueue_cases:
  assumes "enqueue_inner jl v ty key payload prio maximum available now i vaults snapshot rows = Ok (r, rows')"
  shows "rows' = rows \<or> (\<exists>r. rows' = rows @ [r] \<and> insert_job vaults r rows = Ok rows' \<and> jb_id r = i \<and>
    jb_status r = JQueued \<and> job_ok r)"
proof -
  let ?r = "\<lparr>jb_id = i, jb_vault = v, jb_type = ty, jb_dedup_key = key, jb_payload = payload,
      jb_status = JQueued, jb_priority = prio, jb_attempts = 0, jb_max_attempts = maximum,
      jb_available_at = available, jb_lease_owner = None, jb_lease_until = None, jb_progress = None,
      jb_last_error = None, jb_created_at = now, jb_updated_at = now, jb_completed_at = None,
      jb_cancel_requested = False\<rparr>"
  obtain existing where e: "find_by_scope v key snapshot = Ok existing" and att: "validate_attempts maximum = Ok ()"
    using assms by (auto simp: enqueue_inner_def bind_r_Ok_conv)
  show ?thesis
  proof (cases existing)
    case (Some x)
    then show ?thesis using assms e by (auto simp: enqueue_inner_def bind_r_Ok_conv)
  next
    case None
    show ?thesis
    proof (cases "insert_job vaults ?r rows")
      case (Inl err)
      then show ?thesis using assms e None
        by (auto simp: enqueue_inner_def bind_r_Ok_conv Let_def split: option.splits)
    next
      case (Inr rows1)
      then have "rows' = rows1" using assms e None
        by (auto simp: enqueue_inner_def bind_r_Ok_conv Let_def split: option.splits)
      moreover have "rows1 = rows @ [?r]" using Inr by (auto simp: insert_job_def split: if_splits)
      moreover have "job_ok ?r"
        using att by (auto simp: job_ok_def active_status_def validate_attempts_def split: if_splits)
      ultimately show ?thesis using Inr by (intro disjI2 exI [of _ ?r]) simp
    qed
  qed
qed

lemma job_apply_cases:
  "(\<not> is_enqueue op \<and> job_moves op rows (job_apply jl op rows)) \<or> job_apply jl op rows = rows \<or>
   (\<exists>vaults r. is_enqueue op \<and> job_apply jl op rows = rows @ [r] \<and> insert_job vaults r rows = Ok (rows @ [r]) \<and>
     jb_status r = JQueued \<and> job_ok r)"
proof (cases op)
  case (JEnqueue v ty key payload prio maximum available now i vaults snapshot)
  show ?thesis
  proof (cases "enqueue_inner jl v ty key payload prio maximum available now i vaults snapshot rows")
    case (Inl e)
    then show ?thesis using JEnqueue by (simp add: table_of_def)
  next
    case (Inr x)
    then show ?thesis using enqueue_cases [of jl v ty key payload prio maximum available now i vaults snapshot rows "fst x" "snd x"] JEnqueue
      by (auto simp: table_of_def)
  qed
qed (simp_all add: job_apply_moves del: job_apply.simps)

lemma job_table_step:
  assumes "job_table_ok rows"
  shows "job_table_ok (job_apply jl op rows)"
  using job_apply_cases [of op rows jl]
proof (elim disjE conjE exE)
  assume "\<not> is_enqueue op" and m: "job_moves op rows (job_apply jl op rows)"
  then show ?thesis
    using assms job_moves_keys [OF m] job_moves_ok [OF m] job_apply_singletons
    by (simp add: job_table_ok_def)
next
  assume "job_apply jl op rows = rows"
  then show ?thesis using assms by simp
next
  fix vaults r
  assume r: "job_apply jl op rows = rows @ [r]" "insert_job vaults r rows = Ok (rows @ [r])" "job_ok r"
  then have "singletons_ok (rows @ [r])" "\<forall>x \<in> set rows. jb_id x \<noteq> jb_id r \<and> job_key x \<noteq> job_key r"
    by (auto simp: insert_job_def job_key_def split: if_splits)
  then show ?thesis using assms r by (auto simp: job_table_ok_def)
qed

lemma job_table_run: "job_table_ok rows \<Longrightarrow> job_table_ok (fold (job_apply jl) ops rows)"
  by (induction ops arbitrary: rows) (simp_all add: job_table_step)

text \<open>
  Whatever sequence of calls workers and administrators make on the job table, from whatever
  stale snapshots: identifiers and the pairs of vault and deduplication key stay unique, a singleton
  type has one active job per vault, a job is running exactly while it has a lease, it has a
  completion time exactly when it is terminal, and unless its cancellation was requested it is
  claimed at most its maximal number of times, which is between 1 and 100.
\<close>

theorem job_queue_invariant: "job_table_ok (fold (job_apply jl) ops [])"
  by (rule job_table_run) (simp add: job_table_ok_def singletons_ok_def)

section \<open>The abstract life cycle\<close>

definition job_abs :: "job_row list \<Rightarrow> job_id \<Rightarrow> job_status option" where
  "job_abs rows i = map_option jb_status (find_row (\<lambda>r. jb_id r = i) rows)"

lemma job_abs_simps:
  "job_abs [] i = None"
  "job_abs (r # rows) i = (if jb_id r = i then Some (jb_status r) else job_abs rows i)"
  by (simp_all add: job_abs_def)

definition lifecycle_step ::
  "job_op \<Rightarrow> (job_id \<Rightarrow> job_status option) \<Rightarrow> (job_id \<Rightarrow> job_status option) \<Rightarrow> bool" where
  \<comment> \<open>the abstract machine: a job appears queued, and then moves where the operation allows\<close>
  "lifecycle_step op m m' \<longleftrightarrow> (\<forall>i. case m i of
     None \<Rightarrow> m' i = None \<or> is_enqueue op \<and> m' i = Some JQueued
   | Some s \<Rightarrow> \<exists>s'. m' i = Some s' \<and> (s' = s \<or> s' \<in> job_effect op s))"

lemma moves_abs:
  assumes "job_moves op rows rows'"
  shows "(case job_abs rows i of None \<Rightarrow> job_abs rows' i = None
    | Some s \<Rightarrow> \<exists>s'. job_abs rows' i = Some s' \<and> (s' = s \<or> s' \<in> job_effect op s))"
  using assms unfolding job_moves_def
proof (induction rule: list_all2_induct)
  case (Cons r rs r' rs')
  have "jb_id r' = jb_id r" "jb_status r' = jb_status r \<or> jb_status r' \<in> job_effect op (jb_status r)"
    using Cons(1) by (auto simp: job_edge_def)
  then show ?case using Cons(3) by (cases "jb_id r = i"; cases "job_abs rs i") (simp_all add: job_abs_simps)
qed (simp add: job_abs_simps)

lemma lifecycle_step_refines: "lifecycle_step op (job_abs rows) (job_abs (job_apply jl op rows))"
  using job_apply_cases [of op rows jl]
proof (elim disjE conjE exE)
  assume m: "job_moves op rows (job_apply jl op rows)"
  show ?thesis unfolding lifecycle_step_def
  proof
    fix i
    show "case job_abs rows i of
        None \<Rightarrow> job_abs (job_apply jl op rows) i = None \<or> is_enqueue op \<and> job_abs (job_apply jl op rows) i = Some JQueued
      | Some s \<Rightarrow> \<exists>s'. job_abs (job_apply jl op rows) i = Some s' \<and> (s' = s \<or> s' \<in> job_effect op s)"
      using moves_abs [OF m, of i] by (cases "job_abs rows i") simp_all
  qed
next
  assume "job_apply jl op rows = rows"
  then show ?thesis by (simp add: lifecycle_step_def split: option.splits)
next
  fix r
  assume "is_enqueue op" "job_apply jl op rows = rows @ [r]" "jb_status r = JQueued"
  then show ?thesis
    by (auto simp: lifecycle_step_def job_abs_def find_row_append split: option.splits)
qed

fun lifecycle_run ::
  "job_op list \<Rightarrow> (job_id \<Rightarrow> job_status option) \<Rightarrow> (job_id \<Rightarrow> job_status option) \<Rightarrow> bool" where
  "lifecycle_run [] m m' \<longleftrightarrow> m' = m"
| "lifecycle_run (op # ops) m m' \<longleftrightarrow> (\<exists>m1. lifecycle_step op m m1 \<and> lifecycle_run ops m1 m')"

lemma completed_final:
  assumes "lifecycle_run ops m m'" "m i = Some JCompleted"
  shows "m' i = Some JCompleted"
  using assms
proof (induction ops arbitrary: m)
  case (Cons op ops)
  then obtain m1 where m1: "lifecycle_step op m m1" "lifecycle_run ops m1 m'" by auto
  have "job_effect op JCompleted = {}" by (cases op) (auto simp: active_status_def waiting_status_def)
  then have "m1 i = Some JCompleted"
    using m1(1) Cons.prems(2) by (auto simp: lifecycle_step_def dest!: spec [of _ i])
  then show ?case using Cons.IH [OF m1(2)] by blast
qed simp

text \<open>
  C38: The job table refines its abstract life cycle. Every sequence of repository calls is a run of
  the machine in which a job appears queued and each kind of call moves it only along its own edges
  (a claim to running, the owner's calls out of running, an administrator's cancellation out of
  waiting, a retry or restart out of failed or cancelled); in particular a completed job stays
  completed whatever happens.
\<close>

theorem job_lifecycle_refinement:
  "lifecycle_run ops (job_abs rows) (job_abs (fold (job_apply jl) ops rows)) \<and>
   (job_abs rows i = Some JCompleted \<longrightarrow> job_abs (fold (job_apply jl) ops rows) i = Some JCompleted)"
proof -
  have "lifecycle_run ops (job_abs rows) (job_abs (fold (job_apply jl) ops rows))" for rows
  proof (induction ops arbitrary: rows)
    case (Cons op ops)
    then show ?case using lifecycle_step_refines by simp blast
  qed simp
  then show ?thesis using completed_final by blast
qed

section \<open>Leases\<close>

interpretation job_queue: lease_queue "job_apply jl" jb_id job_lease_of job_actor job_claim_time for jl
proof
  fix rows :: "job_row list" and r w until op
  assume r: "r \<in> set rows" "job_lease_of r = Some (w, until)" "job_actor op \<noteq> Some w"
    and time: "\<forall>now. job_claim_time op = Some now \<longrightarrow> now < until"
  have "\<exists>r' \<in> set rows'. jb_id r' = jb_id r \<and> job_lease_of r' = Some (w, until)"
    if "job_moves op rows rows'" for rows'
    using that r unfolding job_moves_def
  proof (induction rule: list_all2_induct)
    case (Cons x xs x' xs')
    then show ?case using time by (auto simp: job_edge_def)
  qed simp
  then show "\<exists>r' \<in> set (job_apply jl op rows). jb_id r' = jb_id r \<and> job_lease_of r' = Some (w, until)"
    using job_apply_cases [of op rows jl] r by (auto simp del: job_apply.simps)
next
  fix rows :: "job_row list" and op
  assume d: "distinct (map jb_id rows)"
  show "distinct (map jb_id (job_apply jl op rows))"
    using job_apply_cases [of op rows jl]
  proof (elim disjE conjE exE)
    assume "job_moves op rows (job_apply jl op rows)"
    then show ?thesis using d job_moves_keys by metis
  next
    fix vaults r
    assume "job_apply jl op rows = rows @ [r]" "insert_job vaults r rows = Ok (rows @ [r])"
    then show ?thesis using d by (auto simp: insert_job_def split: if_splits)
  qed (use d in simp)
qed

text \<open>
  C37: A claim of jobs is exclusive until it expires: whatever other workers and administrators do,
  in any order and from any snapshots, the job stays running under the lease of the worker that
  claimed it, that worker can complete it, nobody else can, and no other claim returns it.
\<close>

theorem job_lease_exclusive:
  assumes claim: "job_claim_batch w now until limit snapshot rows = Ok (claimed, rows1)"
    and ids: "distinct (map jb_id rows)" and c: "c \<in> set claimed"
    and others: "\<forall>op \<in> set ops. job_actor op \<noteq> Some w \<and> (\<forall>t. job_claim_time op = Some t \<longrightarrow> t < until)"
    and rows2: "rows2 = fold (job_apply jl) ops rows1"
  shows "is_ok (complete (jb_id c) w t rows2) \<and>
    (\<forall>w' t. w' \<noteq> w \<longrightarrow> \<not> is_ok (complete (jb_id c) w' t rows2)) \<and>
    (\<forall>w' t u l s cl rows3. t < until \<longrightarrow>
       job_claim_batch w' t u l s rows2 = Ok (cl, rows3) \<longrightarrow> jb_id c \<notin> jb_id ` set cl)"
proof -
  note spec = job_claim_reserved [OF claim]
  obtain r where r: "r \<in> set rows" "jb_id r = jb_id c" "job_eligible now r" "job_lease w now until r \<in> set rows1"
    using spec c by blast
  have "job_lease_of (job_lease w now until r) = Some (w, until)"
    by (simp add: job_lease_of_Some job_lease_def)
  then obtain r2 where r2: "r2 \<in> set rows2" "jb_id r2 = jb_id c" "job_lease_of r2 = Some (w, until)"
    using job_queue.survives [OF r(4), of w until ops jl] others r(2) rows2
    by (auto simp: job_queue.foreign_op_def job_lease_def)
  have "jb_id (job_lease w now until x) = jb_id x" for x by (simp add: job_lease_def)
  then have "map jb_id rows1 = map jb_id rows"
    using spec reserved_keys [where key = jb_id and lease = "job_lease w now until"] by blast
  then have dist: "distinct (map jb_id rows2)"
    using job_queue.distinct_run [of rows1 jl ops] ids rows2 by simp
  have only: "x = r2" if "x \<in> set rows2" "jb_id x = jb_id c" for x
    using lease_row_unique [OF dist that(1) r2(1)] that(2) r2(2) by simp
  have v: "validate_worker w = Ok ()" using claim by (simp add: job_claim_batch_def bind_r_Ok_conv)
  have "rows_affected (job_owned (jb_id c) w) rows2 = 1"
    using rows_affected_key [OF dist r2(1), of "\<lambda>r. jb_status r = JRunning \<and> jb_lease_owner r = Some w"]
      r2(2,3) by (simp add: job_owned_def [abs_def] job_lease_of_Some)
  then have "is_ok (complete (jb_id c) w t rows2)"
    using v by (simp add: complete_def job_finish_def update_one_def update_where_def)
  moreover have "\<not> is_ok (complete (jb_id c) w' t rows2)" if "w' \<noteq> w" for w' t
  proof -
    have "rows_affected (job_owned (jb_id c) w') rows2 = 0"
      using only that r2(3) rows_affected_pos [of "job_owned (jb_id c) w'" rows2]
      by (auto simp: job_owned_def job_lease_of_Some)
    then show ?thesis
      by (cases "validate_worker w'") (simp_all add: complete_def job_finish_def update_one_def update_where_def)
  qed
  moreover have "jb_id c \<notin> jb_id ` set cl"
    if "t < until" "job_claim_batch w' t u l s rows2 = Ok (cl, rows3)" for w' t u l s cl rows3
    using job_claim_reserved [OF that(2)] only r2(3) that(1)
    by (auto simp: job_eligible_def job_lease_of_Some)
  ultimately show ?thesis by blast
qed

section \<open>A crash during the last attempt\<close>

definition orphaned :: "string \<Rightarrow> job_row \<Rightarrow> bool" where
  \<comment> \<open>an uncancellable job that is running its last attempt under a worker\<close>
  "orphaned w r \<longleftrightarrow> jb_status r = JRunning \<and> jb_lease_owner r = Some w \<and>
     jb_max_attempts r \<le> jb_attempts r \<and> \<not> jb_cancel_requested r \<and> uncancellable_run r"

definition keeps_orphan :: "string \<Rightarrow> job_id \<Rightarrow> job_row list \<Rightarrow> bool" where
  "keeps_orphan w i rows \<longleftrightarrow> (\<exists>r \<in> set rows. jb_id r = i \<and> orphaned w r)"

lemma keeps_orphan_update:
  assumes "keeps_orphan w i rows" "\<And>r. orphaned w r \<Longrightarrow> P r \<Longrightarrow> jb_id (f r) = jb_id r \<and> orphaned w (f r)"
  shows "keeps_orphan w i (update_rows P f rows)"
proof -
  obtain r where r: "r \<in> set rows" "jb_id r = i" "orphaned w r" using assms(1) by (auto simp: keeps_orphan_def)
  then have "(if P r then f r else r) \<in> set (update_rows P f rows)" by (auto simp: set_update_rows)
  then show ?thesis using r assms(2) [OF r(3)] unfolding keeps_orphan_def by (cases "P r") auto
qed

lemma keeps_orphan_requeue:
  assumes "requeue msg P keep now rows = Ok rows'" "keeps_orphan w i rows" "\<And>r. P r \<Longrightarrow> jb_status r \<noteq> JRunning"
  shows "keeps_orphan w i rows'"
proof -
  have "rows' = update_rows P (requeued keep now) rows"
    using assms(1) by (auto simp: requeue_def update_where_def split: if_splits)
  moreover have "\<not> P r" if "orphaned w r" for r using that assms(3) by (auto simp: orphaned_def)
  ultimately show ?thesis using keeps_orphan_update [OF assms(2)] by blast
qed

lemma keeps_orphan_finish:
  assumes "job_finish k w' status available err now rows = Ok rows'" "keeps_orphan w i rows" "w' \<noteq> w"
  shows "keeps_orphan w i rows'"
proof -
  have "rows' = update_rows (job_owned k w') (finished status available err now) rows"
    using assms(1) by (auto simp: job_finish_def bind_r_Ok_conv update_one_Ok)
  moreover have "\<not> job_owned k w' r" if "orphaned w r" for r
    using that assms(3) by (auto simp: orphaned_def job_owned_def)
  ultimately show ?thesis using keeps_orphan_update [OF assms(2)] by blast
qed

lemma keeps_orphan_or_else:
  "keeps_orphan w i rows \<Longrightarrow> (\<And>rows'. m = Ok rows' \<Longrightarrow> keeps_orphan w i rows') \<Longrightarrow> keeps_orphan w i (or_else m rows)"
  by (rule or_else_prop)

lemma keeps_orphan_table_of:
  "keeps_orphan w i rows \<Longrightarrow> (\<And>x rows'. m = Ok (x, rows') \<Longrightarrow> keeps_orphan w i rows') \<Longrightarrow>
     keeps_orphan w i (table_of m rows)"
  by (cases m) (auto simp: table_of_def)

lemma keeps_orphan_step:
  assumes o: "keeps_orphan w i rows" and a: "job_actor op \<noteq> Some w"
  shows "keeps_orphan w i (job_apply jl op rows)"
proof (cases op)
  case (JEnqueue v ty key payload prio maximum available now k vaults snapshot)
  then show ?thesis
    using job_apply_cases [of op rows jl] o by (auto simp: keeps_orphan_def simp del: job_apply.simps)
next
  case (JExpedite ctx ty now)
  show ?thesis unfolding JExpedite job_apply.simps expedite_active_def update_where_def snd_conv
    by (rule keeps_orphan_update [OF o]) (auto simp: orphaned_def waiting_status_def)
next
  case (JPromote ctx ty prio)
  show ?thesis unfolding JPromote job_apply.simps promote_active_priority_def update_where_def snd_conv
    by (rule keeps_orphan_update [OF o]) (auto simp: orphaned_def uncancellable_run_def)
next
  case (JClaim w' now until limit snapshot)
  show ?thesis unfolding JClaim job_apply.simps
  proof (rule keeps_orphan_table_of [OF o])
    fix claimed rows'
    assume run: "job_claim_batch w' now until limit snapshot rows = Ok (claimed, rows')"
    obtain r where r: "r \<in> set rows" "jb_id r = i" "orphaned w r" using o by (auto simp: keeps_orphan_def)
    then have "\<not> job_eligible now r" by (simp add: job_eligible_def orphaned_def)
    then have "r \<in> set rows'" using reserved_rows [OF _ r(1)] job_claim_reserved [OF run] by metis
    then show "keeps_orphan w i rows'" using r(2,3) unfolding keeps_orphan_def by auto
  qed
next
  case (JProgress k w' progress now)
  show ?thesis unfolding JProgress job_apply.simps
    by (rule keeps_orphan_or_else [OF o])
      (use a JProgress in \<open>auto simp: update_progress_def bind_r_Ok_conv update_one_Ok orphaned_def job_owned_def
        intro!: keeps_orphan_update [OF o]\<close>)
next
  case (JComplete k w' now)
  show ?thesis unfolding JComplete job_apply.simps complete_def
    by (rule keeps_orphan_or_else [OF o]) (use a JComplete in \<open>auto elim!: keeps_orphan_finish [OF _ o]\<close>)
next
  case (JRetry k w' available err now snapshot)
  show ?thesis unfolding JRetry job_apply.simps
    by (rule keeps_orphan_table_of [OF o])
      (use a JRetry in \<open>auto dest!: retry_or_fail_finishes elim!: keeps_orphan_finish [OF _ o]\<close>)
next
  case (JFail k w' err now)
  show ?thesis unfolding JFail job_apply.simps fail_permanently_def
    by (rule keeps_orphan_or_else [OF o])
      (use a JFail in \<open>auto simp: bind_r_Ok_conv elim!: keeps_orphan_finish [OF _ o]\<close>)
next
  case (JCancelClaimed k w' now)
  show ?thesis unfolding JCancelClaimed job_apply.simps cancel_claimed_def
    by (rule keeps_orphan_or_else [OF o]) (use a JCancelClaimed in \<open>auto elim!: keeps_orphan_finish [OF _ o]\<close>)
next
  case (JReleaseClaimed k w' available now)
  show ?thesis unfolding JReleaseClaimed job_apply.simps
    by (rule keeps_orphan_or_else [OF o])
      (use a JReleaseClaimed in \<open>auto simp: release_claimed_def bind_r_Ok_conv update_one_Ok orphaned_def job_owned_def
        intro!: keeps_orphan_update [OF o]\<close>)
next
  case (JRenew k w' until now)
  show ?thesis unfolding JRenew job_apply.simps
    by (rule keeps_orphan_table_of [OF o])
      (use a JRenew in \<open>auto simp: renew_claimed_def bind_r_Ok_conv update_where_def orphaned_def job_owned_def
        intro!: keeps_orphan_update [OF o] split: if_splits\<close>)
next
  case (JReleaseWorker w' now)
  show ?thesis unfolding JReleaseWorker job_apply.simps
    by (rule keeps_orphan_or_else [OF o])
      (use a JReleaseWorker in \<open>auto simp: job_release_worker_leases_def bind_r_Ok_conv update_where_def orphaned_def
        intro!: keeps_orphan_update [OF o]\<close>)
next
  case (JCancel ctx k now vaults)
  show ?thesis unfolding JCancel job_apply.simps
    by (rule keeps_orphan_or_else [OF o])
      (auto simp: request_cancel_def bind_r_Ok_conv update_one_Ok orphaned_def intro!: keeps_orphan_update [OF o])
next
  case (JCancelType ctx ty now vaults)
  show ?thesis unfolding JCancelType job_apply.simps
    by (rule keeps_orphan_table_of [OF o])
      (auto simp: request_cancel_type_def bind_r_Ok_conv update_where_def orphaned_def intro!: keeps_orphan_update [OF o])
next
  case (JCancelAll ctx now vaults)
  show ?thesis unfolding JCancelAll job_apply.simps
    by (rule keeps_orphan_table_of [OF o])
      (auto simp: request_cancel_all_def bind_r_Ok_conv update_where_def orphaned_def intro!: keeps_orphan_update [OF o])
next
  case (JRequestRetry ctx k now vaults)
  show ?thesis unfolding JRequestRetry job_apply.simps
    by (rule keeps_orphan_or_else [OF o])
      (auto simp: request_retry_def bind_r_Ok_conv elim!: keeps_orphan_requeue [OF _ o])
next
  case (JRestart ctx k now vaults)
  show ?thesis unfolding JRestart job_apply.simps
    by (rule keeps_orphan_or_else [OF o])
      (auto simp: request_restart_terminal_def bind_r_Ok_conv elim!: keeps_orphan_requeue [OF _ o])
qed

text \<open>
  A job of an uncancellable type whose worker dies during the last attempt is running for ever.
  Its lease expires, but no claim at any later time returns it, and no sequence of calls by other
  workers, administrators or the scheduler changes its status; as a singleton it also keeps every
  later job of its type from being queued.
\<close>

theorem crashed_last_attempt_never_ends:
  assumes "r \<in> set rows" "orphaned w r" "distinct (map jb_id rows)"
    "\<forall>op \<in> set ops. job_actor op \<noteq> Some w" "rows2 = fold (job_apply jl) ops rows"
  shows "job_abs rows2 (jb_id r) = Some JRunning \<and>
    (\<forall>w' t u l s cl rows3. job_claim_batch w' t u l s rows2 = Ok (cl, rows3) \<longrightarrow> jb_id r \<notin> jb_id ` set cl)"
proof -
  have "keeps_orphan w (jb_id r) rows2 \<and> distinct (map jb_id rows2)"
    unfolding assms(5) using assms(1-4)
  proof (induction ops arbitrary: rows rule: rev_induct)
    case Nil
    then show ?case by (auto simp: keeps_orphan_def)
  next
    case (snoc op ops)
    then show ?case using keeps_orphan_step job_queue.keys_distinct by simp
  qed
  then obtain x where x: "x \<in> set rows2" "jb_id x = jb_id r" "orphaned w x" and d: "distinct (map jb_id rows2)"
    by (auto simp: keeps_orphan_def)
  have only: "y = x" if "y \<in> set rows2" "jb_id y = jb_id r" for y
    using lease_row_unique [OF d that(1) x(1)] that(2) x(2) by simp
  have "job_abs rows2 (jb_id r) = Some JRunning"
    using find_row_key_unique [OF d x(1)] x(2,3) by (simp add: job_abs_def orphaned_def)
  moreover have "jb_id r \<notin> jb_id ` set cl"
    if "job_claim_batch w' t u l s rows2 = Ok (cl, rows3)" for w' t u l s cl rows3
    using job_claim_reserved [OF that] only x(3) by (auto simp: job_eligible_def orphaned_def)
  ultimately show ?thesis by blast
qed

section \<open>Fairness\<close>

lemma take_sorted_mem:
  assumes "sorted (map k xs)" "distinct (map k xs)" "x \<in> set xs" "card {y \<in> set xs. k y < k x} < n"
  shows "x \<in> set (take n xs)"
proof (rule ccontr)
  assume "x \<notin> set (take n xs)"
  then have d: "x \<in> set (drop n xs)" using assms(3) by (metis UnE append_take_drop_id set_append)
  then have len: "length (take n xs) = n" by (cases "n \<le> length xs") auto
  have "k y < k x" if "y \<in> set (take n xs)" for y
  proof -
    have "k y \<le> k x" using sorted_take_le [OF assms(1) that d] .
    moreover have "y \<noteq> x" using that \<open>x \<notin> set (take n xs)\<close> by blast
    then have "k y \<noteq> k x" using assms(2,3) in_set_takeD [OF that] by (auto simp: distinct_map inj_on_def)
    ultimately show ?thesis by simp
  qed
  then have "set (take n xs) \<subseteq> {y \<in> set xs. k y < k x}" by (auto dest: in_set_takeD)
  then have "card (set (take n xs)) \<le> card {y \<in> set xs. k y < k x}" by (intro card_mono) auto
  moreover have "card (set (take n xs)) = n"
    using len distinct_card [of "take n xs"] assms(2) by (simp add: distinct_map)
  ultimately show False using assms(4) by simp
qed

lemma vault_rank_first: "vault_rank el r = 1 \<longleftrightarrow> (\<forall>x \<in> set el. jb_vault x = jb_vault r \<longrightarrow>
    \<not> (- jb_priority x, jb_created_at x, jb_id x) < (- jb_priority r, jb_created_at r, jb_id r))"
  by (auto simp: vault_rank_def filter_empty_conv)

lemma first_ranked_unique:
  assumes "distinct (map jb_id el)" "x \<in> set el" "y \<in> set el" "jb_vault x = jb_vault y"
    "vault_rank el x = 1" "vault_rank el y = 1"
  shows "x = y"
proof -
  let ?o = "\<lambda>r. (- jb_priority r, jb_created_at r, jb_id r)"
  have "\<not> ?o x < ?o y" "\<not> ?o y < ?o x" using assms(2-6) by (auto simp only: vault_rank_first)
  then have "?o x = ?o y" by (meson linorder_less_linear)
  then show ?thesis using lease_row_unique [OF assms(1-3)] by simp
qed

lemma first_of_vault:
  assumes "r \<in> set el"
  shows "\<exists>x \<in> set el. jb_vault x = jb_vault r \<and> vault_rank el x = 1 \<and> jb_priority r \<le> jb_priority x"
proof -
  let ?o = "\<lambda>r. (- jb_priority r, jb_created_at r, jb_id r)"
  let ?S = "{x \<in> set el. jb_vault x = jb_vault r}"
  have fin: "finite ?S" "?S \<noteq> {}" using assms by auto
  define x where "x = arg_min_on ?o ?S"
  have x: "x \<in> ?S" unfolding x_def by (rule arg_min_if_finite(1) [OF fin])
  have least: "\<not> ?o y < ?o x" if "y \<in> ?S" for y
    unfolding x_def using arg_min_if_finite(2) [OF fin, of ?o] that by blast
  have "vault_rank el x = 1" using least x by (auto simp only: vault_rank_first mem_Collect_eq)
  moreover have "jb_priority r \<le> jb_priority x" using least [of r] assms by auto
  ultimately show ?thesis using x by blast
qed

lemma reserve_rows_all:
  assumes "reserve_rows key elig lease decode mark cs rows = Ok (claimed, rows')"
    and "distinct (map key rows)" "distinct (map key cs)"
    and "\<forall>c \<in> set cs. \<exists>r \<in> set rows. key r = key c \<and> elig r"
    and "\<And>r. key (lease r) = key r" "\<And>r d. decode r = Ok d \<Longrightarrow> d = r"
  shows "claimed = map mark cs"
  using assms(1-4)
proof (induction cs arbitrary: rows claimed)
  case (Cons c cs)
  let ?P = "\<lambda>r. key r = key c \<and> elig r"
  obtain r where r: "r \<in> set rows" "key r = key c" "elig r" using Cons.prems(4) by auto
  have one: "rows_affected ?P rows = 1"
    using rows_affected_key [OF Cons.prems(2) r(1), of elig] r(2,3) by simp
  then obtain cl where cl: "claimed = mark c # cl"
    and rest: "reserve_rows key elig lease decode mark cs (update_rows ?P lease rows) = Ok (cl, rows')"
    using Cons.prems(1) assms(6) by (auto simp: update_where_def bind_r_Ok_conv)
  have "map key (update_rows ?P lease rows) = map key rows"
    by (rule map_update_rows) (simp add: assms(5))
  moreover have "\<exists>x \<in> set (update_rows ?P lease rows). key x = key d \<and> elig x" if "d \<in> set cs" for d
  proof -
    have "d \<in> set (c # cs)" using that by simp
    then obtain x where x: "x \<in> set rows" "key x = key d" "elig x" using Cons.prems(4) by blast
    moreover have "key d \<noteq> key c" using Cons.prems(3) that by (auto simp: image_iff)
    ultimately show ?thesis using update_rows_kept [OF x(1), of ?P] by auto
  qed
  ultimately have "cl = map mark cs" using Cons.IH [OF rest] Cons.prems(2,3) by simp
  then show ?case using cl by simp
qed simp

lemma first_candidates:
  assumes ids: "distinct (map jb_id rows)" and el: "el = filter (job_eligible now) rows"
    and x: "x \<in> set el" "vault_rank el x = 1"
    and top: "\<forall>y \<in> set el. jb_priority y \<le> jb_priority x"
    and few: "card (jb_vault ` {y \<in> set el. jb_priority y = jb_priority x}) \<le> limit"
  shows "x \<in> set (job_candidates now limit rows)"
proof -
  let ?k = "\<lambda>r. (- jb_priority r, vault_rank el r, jb_created_at r, jb_id r)"
  let ?xs = "sort_key ?k el" and ?F = "{y \<in> set el. jb_priority y = jb_priority x \<and> vault_rank el y = 1}"
  have d: "distinct (map jb_id el)" using ids unfolding el by (rule distinct_map_filter)
  then have "distinct (map jb_id ?xs)" by (simp add: distinct_map)
  then have dk: "distinct (map ?k ?xs)" by (auto simp: distinct_map inj_on_def)
  have "{y \<in> set ?xs. ?k y < ?k x} \<subseteq> ?F - {x}"
    using top x(2) by (force simp: vault_rank_def)
  then have "card {y \<in> set ?xs. ?k y < ?k x} \<le> card (?F - {x})" by (intro card_mono) auto
  also have "\<dots> < card ?F" using x by (intro psubset_card_mono) auto
  also have "inj_on jb_vault ?F" using first_ranked_unique [OF d] by (intro inj_onI) auto
  then have "card ?F = card (jb_vault ` ?F)" by (simp add: card_image)
  also have "\<dots> \<le> card (jb_vault ` {y \<in> set el. jb_priority y = jb_priority x})"
    by (intro card_mono image_mono) auto
  also note few
  finally have "card {y \<in> set ?xs. ?k y < ?k x} < limit" .
  then have "x \<in> set (take limit ?xs)" using take_sorted_mem [OF _ dk] x(1) by simp
  then show ?thesis by (simp add: job_candidates_def Let_def el)
qed

text \<open>
  C39: Claims are fair between vaults. When the batch is at least as large as the number of vaults
  (the global scope counts as one) that have an eligible job of the highest eligible priority, every
  one of these vaults gets a job of that priority claimed, however many jobs the others have queued
  before it.
\<close>

theorem job_claim_fair:
  assumes claim: "job_claim_batch w now until limit rows rows = Ok (claimed, rows')"
    and ids: "distinct (map jb_id rows)"
    and r: "r \<in> set rows" "job_eligible now r"
    and top: "\<forall>y \<in> set rows. job_eligible now y \<longrightarrow> jb_priority y \<le> jb_priority r"
    and few: "card (jb_vault ` {y \<in> set rows. job_eligible now y \<and> jb_priority y = jb_priority r}) \<le> limit"
  shows "\<exists>c \<in> set claimed. jb_vault c = jb_vault r \<and> jb_priority c = jb_priority r"
proof -
  let ?el = "filter (job_eligible now) rows"
  obtain x where x: "x \<in> set ?el" "jb_vault x = jb_vault r" "vault_rank ?el x = 1" "jb_priority r \<le> jb_priority x"
    using first_of_vault [of r ?el] r by auto
  then have p: "jb_priority x = jb_priority r" using top by (auto intro: antisym)
  have cand: "x \<in> set (job_candidates now limit rows)"
    using first_candidates [OF ids refl x(1,3)] top few p by (simp add: conj_ac)
  have run: "reserve_rows jb_id (job_eligible now) (job_lease w now until) row_to_job
      (job_claim_record w until) (job_candidates now limit rows) rows = Ok (claimed, rows')"
    using claim by (auto simp: job_claim_batch_def bind_r_Ok_conv validate_batch_def split: if_splits)
  have sub: "y \<in> set rows \<and> job_eligible now y" if "y \<in> set (job_candidates now limit rows)" for y
    using that by (auto simp: job_candidates_def Let_def dest!: in_set_takeD)
  have "distinct (map jb_id (job_candidates now limit rows))"
  proof -
    have "distinct rows" "inj_on jb_id (set rows)" using ids by (simp_all add: distinct_map)
    then have "distinct (job_candidates now limit rows)" by (simp add: job_candidates_def Let_def)
    moreover have "inj_on jb_id (set (job_candidates now limit rows))"
      by (rule inj_on_subset [OF \<open>inj_on jb_id (set rows)\<close>]) (use sub in blast)
    ultimately show ?thesis by (simp add: distinct_map)
  qed
  then have "claimed = map (job_claim_record w until) (job_candidates now limit rows)"
    by (rule reserve_rows_all [OF run ids])
      (use sub in \<open>auto simp: job_lease_def row_to_job_def split: if_splits\<close>)
  then have "job_claim_record w until x \<in> set claimed" using cand by simp
  then show ?thesis using x(2) p by (intro bexI) (auto simp: job_claim_record_def)
qed

section \<open>Examples\<close>

theorem job_lifecycle_refinement_witness:
  "job_abs (fold (job_apply (\<lambda>_. 0)) [JClaim ''a'' 5 9 4 [], JReleaseWorker ''a'' 6]
     [(example_job 1 None ''x'')\<lparr>jb_status := JCompleted, jb_completed_at := Some 3\<rparr>]) 1 = Some JCompleted"
  by (rule job_lifecycle_refinement [THEN conjunct2, THEN mp]) (simp add: job_abs_def example_job_def)

theorem job_lease_exclusive_witness:
  "case job_claim_batch ''a'' 10 100 8 [example_job 7 None ''x''] [example_job 7 None ''x''] of
     Ok (claimed, rows1) \<Rightarrow>
       (let rows2 = fold (job_apply (\<lambda>_. 0))
              [JClaim ''b'' 11 90 8 [example_job 7 None ''x''], JComplete 7 ''b'' 12] rows1
        in claimed \<noteq> [] \<and> is_ok (complete 7 ''a'' 50 rows2) \<and> \<not> is_ok (complete 7 ''b'' 50 rows2))
   | Err _ \<Rightarrow> False"
proof -
  let ?j = "example_job 7 None ''x''"
  let ?e = "job_claim_record ''a'' 100 ?j" and ?row = "job_lease ''a'' 10 100 ?j"
  have claim: "job_claim_batch ''a'' 10 100 8 [?j] [?j] = Ok ([?e], [?row])" by code_simp
  let ?ops = "[JClaim ''b'' 11 90 8 [?j], JComplete 7 ''b'' 12]"
  have i: "jb_id ?e = 7" by code_simp
  have d: "distinct (map jb_id [?j])" and m: "?e \<in> set [?e]" by simp_all
  have o: "\<forall>op \<in> set ?ops. job_actor op \<noteq> Some ''a'' \<and> (\<forall>t. job_claim_time op = Some t \<longrightarrow> t < 100)" by simp
  note ex = job_lease_exclusive [OF claim d m o refl, of 50 "\<lambda>_. 0", unfolded i]
  have "is_ok (complete 7 ''a'' 50 (fold (job_apply (\<lambda>_. 0)) ?ops [?row]))" by (rule conjunct1 [OF ex])
  moreover have "\<not> is_ok (complete 7 ''b'' 50 (fold (job_apply (\<lambda>_. 0)) ?ops [?row]))"
    using conjunct1 [OF conjunct2 [OF ex], rule_format, of "''b''" 50] by blast
  ultimately show ?thesis unfolding claim sum.case prod.case Let_def by simp
qed

theorem crashed_last_attempt_never_ends_witness:
  "let rows2 = fold (job_apply (\<lambda>_. 0)) [JClaim ''b'' 500 900 8 [], JReleaseWorker ''b'' 600]
     [job_lease ''a'' 10 100 (example_job 7 None ''backup.create'')]
   in job_abs rows2 7 = Some JRunning"
proof -
  let ?r = "job_lease ''a'' 10 100 (example_job 7 None ''backup.create'')"
  let ?ops = "[JClaim ''b'' 500 900 8 [], JReleaseWorker ''b'' 600]"
  have i: "jb_id ?r = 7" by code_simp
  have o: "orphaned ''a'' ?r" by code_simp
  have "?r \<in> set [?r]" "distinct (map jb_id [?r])" "\<forall>op \<in> set ?ops. job_actor op \<noteq> Some ''a''" by simp_all
  from crashed_last_attempt_never_ends [OF this(1) o this(2,3) refl, of "\<lambda>_. 0", unfolded i]
  show ?thesis unfolding Let_def by (rule conjunct1)
qed

theorem job_claim_fair_witness:
  "case job_claim_batch ''a'' 10 100 2
      [example_job 1 (Some 1) ''x'', example_job 2 (Some 1) ''x'', example_job 3 (Some 2) ''x'']
      [example_job 1 (Some 1) ''x'', example_job 2 (Some 1) ''x'', example_job 3 (Some 2) ''x''] of
     Ok (claimed, _) \<Rightarrow> \<exists>c \<in> set claimed. jb_vault c = Some 2 | Err _ \<Rightarrow> False"
proof -
  let ?r = "example_job 3 (Some 2) ''x''"
  let ?rows = "[example_job 1 (Some 1) ''x'', example_job 2 (Some 1) ''x'', ?r]"
  let ?run = "job_claim_batch ''a'' 10 100 2 ?rows ?rows"
  have "is_ok ?run" by code_simp
  then obtain claimed rows' where run: "?run = Ok (claimed, rows')" by (cases ?run) auto
  have d: "distinct (map jb_id ?rows)" by (simp add: example_job_def)
  have r: "?r \<in> set ?rows" "job_eligible 10 ?r" by (simp, code_simp)
  have p: "\<forall>y \<in> set ?rows. job_eligible 10 y \<longrightarrow> jb_priority y \<le> jb_priority ?r" by (simp add: example_job_def)
  have "jb_vault ` {y \<in> set ?rows. job_eligible 10 y \<and> jb_priority y = jb_priority ?r} \<subseteq> {Some 1, Some 2}"
    by (auto simp: example_job_def)
  then have "card (jb_vault ` {y \<in> set ?rows. job_eligible 10 y \<and> jb_priority y = jb_priority ?r}) \<le> card {Some (1 :: vault_id), Some 2}"
    by (intro card_mono) auto
  then have f: "card (jb_vault ` {y \<in> set ?rows. job_eligible 10 y \<and> jb_priority y = jb_priority ?r}) \<le> 2" by simp
  from job_claim_fair [OF run d r p f] show ?thesis unfolding run by (auto simp: example_job_def)
qed

end
