(* ===== verification/Scan_Checkpoints.thy ===== *)
theory Scan_Checkpoints
  imports Outbox
begin

text \<open>
  Resumable scan checkpoints (\<^verbatim>\<open>ScanCheckpointRepository\<close> of crates/state/src/background.rs). Each
  vault has at most one row per scan type; a new generation takes the row over, and only the current
  generation may report progress or finish. The retry delay of the outbox worker
  (crates/server/src/workers.rs) is here too.
\<close>

section \<open>Rows\<close>

datatype scan_status = ScanRunning | ScanCompleted | ScanFailed | ScanCancelled

fun scan_status_as_str :: "scan_status \<Rightarrow> string" where
  "scan_status_as_str ScanRunning = ''running''"
| "scan_status_as_str ScanCompleted = ''completed''"
| "scan_status_as_str ScanFailed = ''failed''"
| "scan_status_as_str ScanCancelled = ''cancelled''"

definition scan_status_parse :: "string \<Rightarrow> state_error + scan_status" where
  "scan_status_parse v =
     (if v = ''running'' then Ok ScanRunning
      else if v = ''completed'' then Ok ScanCompleted
      else if v = ''failed'' then Ok ScanFailed
      else if v = ''cancelled'' then Ok ScanCancelled
      else Err (InvalidInput ''stored scan status is invalid''))"

record scan_row =
  sn_id :: uuid
  sn_vault :: vault_id
  sn_type :: string
  sn_generation :: string
  sn_cursor_path :: "vault_path option"
  sn_status :: scan_status
  sn_entries_seen :: int
  sn_files_seen :: int
  sn_directories_seen :: int
  sn_changes_imported :: int
  sn_unsafe_entries_skipped :: int
  sn_missing_deletes_skipped :: bool
  sn_last_error :: "string option"
  sn_started_at :: int
  sn_updated_at :: int
  sn_completed_at :: "int option"

definition bg_to_i64 :: "u64 \<Rightarrow> string \<Rightarrow> state_error + int" where
  "bg_to_i64 v field = (if uint v < 2 ^ 63 then Ok (uint v) else Err (InvalidInput field))"

definition bg_to_u64 :: "int \<Rightarrow> string \<Rightarrow> state_error + u64" where
  \<comment> \<open>the argument is an \<open>i64\<close>\<close>
  "bg_to_u64 v field = (if v < 0 then Err (InvalidInput field) else Ok (of_int v))"

definition validate_scan_label :: "string \<Rightarrow> state_error + unit" where
  "validate_scan_label v =
     (if bounded_text 128 v then Ok () else Err (InvalidInput ''scan label is invalid''))"

definition row_to_checkpoint :: "scan_row \<Rightarrow> state_error + scan_row" where
  "row_to_checkpoint r =
     bind_r (bg_to_u64 (sn_entries_seen r) ''entries_seen'') (\<lambda>_.
     bind_r (bg_to_u64 (sn_files_seen r) ''files_seen'') (\<lambda>_.
     bind_r (bg_to_u64 (sn_directories_seen r) ''directories_seen'') (\<lambda>_.
     bind_r (bg_to_u64 (sn_changes_imported r) ''changes_imported'') (\<lambda>_.
     bind_r (bg_to_u64 (sn_unsafe_entries_skipped r) ''unsafe_entries_skipped'') (\<lambda>_. Ok r)))))"

section \<open>The repository\<close>

definition scan_at :: "vault_id \<Rightarrow> string \<Rightarrow> scan_row \<Rightarrow> bool" where
  "scan_at v ty r \<longleftrightarrow> sn_vault r = v \<and> sn_type r = ty"

definition scan_get ::
  "vault_context \<Rightarrow> string \<Rightarrow> vault_row list \<Rightarrow> scan_row list \<Rightarrow> state_error + scan_row option" where
  "scan_get ctx ty vaults rows =
     bind_r (bg_ensure_context ctx vaults) (\<lambda>_.
       case find_row (scan_at (ctx_id ctx) ty) rows of
         None \<Rightarrow> Ok None
       | Some r \<Rightarrow> bind_r (row_to_checkpoint r) (\<lambda>r. Ok (Some r)))"

definition scan_restart :: "string \<Rightarrow> int \<Rightarrow> scan_row \<Rightarrow> scan_row" where
  "scan_restart generation now r =
     r\<lparr>sn_generation := generation, sn_cursor_path := None, sn_status := ScanRunning,
       sn_entries_seen := 0, sn_files_seen := 0, sn_directories_seen := 0, sn_changes_imported := 0,
       sn_unsafe_entries_skipped := 0, sn_missing_deletes_skipped := False, sn_last_error := None,
       sn_started_at := now, sn_updated_at := now, sn_completed_at := None\<rparr>"

definition scan_new :: "uuid \<Rightarrow> vault_id \<Rightarrow> string \<Rightarrow> string \<Rightarrow> int \<Rightarrow> scan_row" where
  "scan_new i v ty generation now =
     \<lparr>sn_id = i, sn_vault = v, sn_type = ty, sn_generation = generation, sn_cursor_path = None,
      sn_status = ScanRunning, sn_entries_seen = 0, sn_files_seen = 0, sn_directories_seen = 0,
      sn_changes_imported = 0, sn_unsafe_entries_skipped = 0, sn_missing_deletes_skipped = False,
      sn_last_error = None, sn_started_at = now, sn_updated_at = now, sn_completed_at = None\<rparr>"

definition scan_start ::
  "vault_context \<Rightarrow> string \<Rightarrow> string \<Rightarrow> int \<Rightarrow> uuid \<Rightarrow> vault_row list \<Rightarrow> scan_row list \<Rightarrow>
     state_error + scan_row \<times> scan_row list" where
  "scan_start ctx ty generation now i vaults rows =
     bind_r (bg_ensure_context ctx vaults) (\<lambda>_.
     bind_r (validate_scan_label ty) (\<lambda>_.
     bind_r (validate_scan_label generation) (\<lambda>_.
     bind_r (if \<exists>r \<in> set rows. scan_at (ctx_id ctx) ty r
             then Ok (snd (update_where (scan_at (ctx_id ctx) ty) (scan_restart generation now) rows))
             else if \<exists>r \<in> set rows. sn_id r = i then Err (Database UniqueViolation)
             else Ok (rows @ [scan_new i (ctx_id ctx) ty generation now])) (\<lambda>rows'.
     bind_r (scan_get ctx ty vaults rows') (\<lambda>found.
       case found of Some r \<Rightarrow> Ok (r, rows')
       | None \<Rightarrow> Err (InvalidInput ''started scan checkpoint was not found''))))))"

definition current_scan :: "vault_id \<Rightarrow> string \<Rightarrow> string \<Rightarrow> scan_row \<Rightarrow> bool" where
  "current_scan v ty generation r \<longleftrightarrow>
     scan_at v ty r \<and> sn_generation r = generation \<and> sn_status r = ScanRunning"

record scan_progress =
  sp_cursor_path :: "vault_path option"
  sp_entries_seen :: u64
  sp_files_seen :: u64
  sp_directories_seen :: u64
  sp_changes_imported :: u64
  sp_unsafe_entries_skipped :: u64
  sp_missing_deletes_skipped :: bool

definition scan_update_progress ::
  "vault_context \<Rightarrow> string \<Rightarrow> string \<Rightarrow> scan_progress \<Rightarrow> int \<Rightarrow> vault_row list \<Rightarrow> scan_row list \<Rightarrow>
     state_error + scan_row list" where
  "scan_update_progress ctx ty generation p now vaults rows =
     bind_r (bg_ensure_context ctx vaults) (\<lambda>_.
     bind_r (bg_to_i64 (sp_entries_seen p) ''entries_seen'') (\<lambda>entries.
     bind_r (bg_to_i64 (sp_files_seen p) ''files_seen'') (\<lambda>files.
     bind_r (bg_to_i64 (sp_directories_seen p) ''directories_seen'') (\<lambda>directories.
     bind_r (bg_to_i64 (sp_changes_imported p) ''changes_imported'') (\<lambda>changes.
     bind_r (bg_to_i64 (sp_unsafe_entries_skipped p) ''unsafe_entries_skipped'') (\<lambda>unsafe.
       update_one ''scan checkpoint generation is stale'' (current_scan (ctx_id ctx) ty generation)
         (\<lambda>r. r\<lparr>sn_cursor_path := sp_cursor_path p, sn_entries_seen := entries, sn_files_seen := files,
                sn_directories_seen := directories, sn_changes_imported := changes,
                sn_unsafe_entries_skipped := unsafe,
                sn_missing_deletes_skipped := sp_missing_deletes_skipped p, sn_updated_at := now\<rparr>)
         rows))))))"

definition scan_finish ::
  "vault_context \<Rightarrow> string \<Rightarrow> string \<Rightarrow> scan_status \<Rightarrow> string option \<Rightarrow> int \<Rightarrow> vault_row list \<Rightarrow> scan_row list \<Rightarrow>
     state_error + scan_row list" where
  "scan_finish ctx ty generation status err now vaults rows =
     bind_r (bg_ensure_context ctx vaults) (\<lambda>_.
     bind_r (case err of Some e \<Rightarrow> validate_error e | None \<Rightarrow> Ok ()) (\<lambda>_.
       update_one ''scan checkpoint generation is stale'' (current_scan (ctx_id ctx) ty generation)
         (\<lambda>r. r\<lparr>sn_status := status, sn_last_error := err, sn_updated_at := now,
                sn_completed_at := Some now\<rparr>) rows))"

section \<open>Generations\<close>

definition one_scan_per_type :: "scan_row list \<Rightarrow> bool" where
  "one_scan_per_type rows \<longleftrightarrow> distinct (map (\<lambda>r. (sn_vault r, sn_type r)) rows)"

lemma scan_start_owner:
  assumes "scan_start ctx ty g now i vaults rows = Ok (r, rows')"
  shows "(\<forall>x \<in> set rows'. scan_at (ctx_id ctx) ty x \<longrightarrow> sn_generation x = g \<and> sn_status x = ScanRunning) \<and>
    (\<forall>x \<in> set rows. scan_at (ctx_id ctx) ty x \<longrightarrow> scan_restart g now x \<in> set rows') \<and>
    (\<forall>x \<in> set rows. \<not> scan_at (ctx_id ctx) ty x \<longrightarrow> x \<in> set rows')"
proof (cases "\<exists>r \<in> set rows. scan_at (ctx_id ctx) ty r")
  case True
  then have "rows' = update_rows (scan_at (ctx_id ctx) ty) (scan_restart g now) rows"
    using assms by (auto simp: scan_start_def bind_r_Ok_conv update_where_def split: option.splits)
  then show ?thesis using True by (auto simp: set_update_rows scan_at_def scan_restart_def image_iff)
next
  case False
  then have "rows' = rows @ [scan_new i (ctx_id ctx) ty g now]"
    using assms by (auto simp: scan_start_def bind_r_Ok_conv split: option.splits if_splits)
  then show ?thesis using False by (auto simp: scan_at_def scan_new_def)
qed

lemma stale_update:
  assumes "\<forall>x \<in> set rows. scan_at v ty x \<longrightarrow> sn_generation x = g" "g' \<noteq> g"
  shows "update_one msg (current_scan v ty g') f rows = Err (InvalidInput msg)"
proof -
  have "rows_affected (current_scan v ty g') rows = 0"
    using assms rows_affected_pos [of "current_scan v ty g'" rows] by (auto simp: current_scan_def)
  then show ?thesis by (simp add: update_one_def update_where_def)
qed

text \<open>
  Starting a scan makes every earlier generation stale: the checkpoint of the vault and scan
  type keeps its row identity and restarts from nothing, other checkpoints are untouched, and a
  report or completion that an older scanner sends for its generation is an error that changes
  nothing.
\<close>

theorem scan_generation_fences:
  assumes start: "scan_start ctx ty g now i vaults rows = Ok (r, rows1)" and stale: "g' \<noteq> g"
  shows "(\<forall>p t. \<not> is_ok (scan_update_progress ctx ty g' p t vaults rows1)) \<and>
    (\<forall>s e t. \<not> is_ok (scan_finish ctx ty g' s e t vaults rows1)) \<and>
    (\<forall>x \<in> set rows. scan_at (ctx_id ctx) ty x \<longrightarrow> sn_id (scan_restart g now x) = sn_id x \<and> scan_restart g now x \<in> set rows1) \<and>
    (\<forall>x \<in> set rows. \<not> scan_at (ctx_id ctx) ty x \<longrightarrow> x \<in> set rows1)"
proof -
  note owner = scan_start_owner [OF start]
  have gen: "\<forall>x \<in> set rows1. scan_at (ctx_id ctx) ty x \<longrightarrow> sn_generation x = g" using owner by blast
  have "\<not> is_ok (scan_update_progress ctx ty g' p t vaults rows1)" for p t
    by (auto simp: is_ok_iff scan_update_progress_def bind_r_Ok_conv stale_update [OF gen stale])
  moreover have "\<not> is_ok (scan_finish ctx ty g' s e t vaults rows1)" for s e t
    by (auto simp: is_ok_iff scan_finish_def bind_r_Ok_conv stale_update [OF gen stale])
  ultimately show ?thesis using owner by (simp add: scan_restart_def)
qed

section \<open>Retry delays\<close>

definition i64_max :: int where "i64_max = 2 ^ 63 - 1"

definition saturating_mul_i64 :: "int \<Rightarrow> int \<Rightarrow> int" where
  "saturating_mul_i64 a b = max (- (2 ^ 63)) (min i64_max (a * b))"

definition saturating_pow_i64 :: "int \<Rightarrow> nat \<Rightarrow> int" where
  "saturating_pow_i64 a n = max (- (2 ^ 63)) (min i64_max (a ^ n))"

definition saturating_add_i64 :: "int \<Rightarrow> int \<Rightarrow> int" where
  "saturating_add_i64 a b = max (- (2 ^ 63)) (min i64_max (a + b))"

definition backoff_millis :: "nat \<Rightarrow> int" where
  "backoff_millis attempt = saturating_mul_i64 1000 (saturating_pow_i64 2 (min attempt 8))"

text \<open>
  The retry delay never saturates and stays between one second and about four minutes: it is
  1000 * 2 ^ min(attempt, 8) milliseconds, it never shrinks with further attempts, and from the
  eighth attempt on it is constant.
\<close>

lemma backoff_bounds:
  "backoff_millis n = 1000 * 2 ^ min n 8 \<and> 1000 \<le> backoff_millis n \<and> backoff_millis n \<le> 256000 \<and>
   backoff_millis n \<le> backoff_millis (n + k) \<and> backoff_millis (8 + k) = 256000"
proof -
  have p: "(2 :: int) ^ min m 8 \<le> 2 ^ 8" "1 \<le> (2 :: int) ^ min m 8" for m
    by (rule power_increasing) simp_all
  have eq: "backoff_millis m = 1000 * 2 ^ min m 8" for m
  proof -
    have "max (- (2 ^ 63)) (min (2 ^ 63 - 1) (1000 * max (- (2 ^ 63)) (min (2 ^ 63 - 1) x))) = 1000 * x"
      if "1 \<le> x" "x \<le> 2 ^ 8" for x :: int using that by simp
    from this [OF p(2,1)] show ?thesis
      unfolding backoff_millis_def saturating_mul_i64_def saturating_pow_i64_def i64_max_def .
  qed
  have "(2 :: int) ^ min n 8 \<le> 2 ^ min (n + k) 8" by (rule power_increasing) simp_all
  then show ?thesis using p [of n] by (simp add: eq)
qed

section \<open>Example\<close>

theorem scan_generation_fences_witness:
  "case scan_start \<lparr>ctx_id = 1, ctx_slug = ''v'', ctx_content_root = [''srv''], ctx_settings_revision = 1\<rparr>
      ''initial'' ''g2'' 20 6 [\<lparr>vr_id = 1, vr_slug = ''v'', vr_content_root = [''srv''], vr_status = VaultActive\<rparr>]
      [scan_new 5 1 ''initial'' ''g1'' 10] of
     Ok (_, rows1) \<Rightarrow> \<not> is_ok (scan_finish
       \<lparr>ctx_id = 1, ctx_slug = ''v'', ctx_content_root = [''srv''], ctx_settings_revision = 1\<rparr>
       ''initial'' ''g1'' ScanCompleted None 30
       [\<lparr>vr_id = 1, vr_slug = ''v'', vr_content_root = [''srv''], vr_status = VaultActive\<rparr>] rows1)
   | Err _ \<Rightarrow> False"
proof -
  let ?ctx = "\<lparr>ctx_id = 1, ctx_slug = ''v'', ctx_content_root = [''srv''], ctx_settings_revision = 1\<rparr> :: vault_context"
  let ?vs = "[\<lparr>vr_id = 1, vr_slug = ''v'', vr_content_root = [''srv''], vr_status = VaultActive\<rparr>] :: vault_row list"
  let ?rows = "[scan_new 5 1 ''initial'' ''g1'' 10]"
  let ?run = "scan_start ?ctx ''initial'' ''g2'' 20 6 ?vs ?rows"
  have "is_ok ?run" by code_simp
  then obtain r rows1 where run: "?run = Ok (r, rows1)" by (cases ?run) auto
  from scan_generation_fences [OF run, of "''g1''"] show ?thesis unfolding run by simp
qed

end
