(* ===== verification/Core_World.thy ===== *)
theory Core_World
  imports File_State History Patch Maintenance
begin

text \<open>
  The service of crates/vault-core/src/lib.rs below its public operations: errors (error.rs), the
  journalled payload, the calls of storage, history and state, context validation, idempotency and
  the checks that compare the database with the file system.

  A world is the host of \<open>Host_FS\<close>, the database of \<open>File_State\<close>, the maintenance gate and a supply
  of clock readings and identifiers (\<open>core_env\<close> reads them by a tick that only grows, so a statement
  for every \<open>core_env\<close> holds for every clock and every choice of identifiers). A state call takes its
  turn in the same schedule of faults as the system calls: it may fail with its transaction rolled
  back, or the process may stop before it or right after its transaction became durable.

  An operation is one run from its first lock to its last: the locks themselves and their
  interleavings are the subject of \<open>Locks\<close>. The failure injector of the recovery tests is an
  argument, so every statement also covers a stop at each of its phases.
\<close>

section \<open>Errors and phases\<close>

datatype vault_error =
    VDomain domain_error
  | VState state_error
  | VStorage storage_error
  | VaultNotRegistered
  | ContextMismatch
  | AlreadyExists
  | NotFound
  | ExternalMismatch
  | InFlight
  | IdempotencyConflict
  | VInvalidPatch string
  | BinaryTextOperation
  | NeedsReview
  | InjectedFailure string
  | UnderMaintenance
  | RevisionConflict revision revision "string option"

datatype commit_phase =
    JournalPrepared | TempFileWritten | FileFsynced | RenameCommitted
  | MetadataTransactionStarted | OutboxInserted | MetadataCommittedPhase

fun commit_phase_as_str :: "commit_phase \<Rightarrow> string" where
  "commit_phase_as_str JournalPrepared = ''journal_prepared''"
| "commit_phase_as_str TempFileWritten = ''temp_file_written''"
| "commit_phase_as_str FileFsynced = ''file_fsynced''"
| "commit_phase_as_str RenameCommitted = ''rename_committed''"
| "commit_phase_as_str MetadataTransactionStarted = ''metadata_transaction_started''"
| "commit_phase_as_str OutboxInserted = ''outbox_inserted''"
| "commit_phase_as_str MetadataCommittedPhase = ''metadata_committed''"

definition storage_not_found :: "storage_error \<Rightarrow> bool" where
  "storage_not_found e \<longleftrightarrow>
     (case e of SourceNotFound \<Rightarrow> True | HistoryNotFound \<Rightarrow> True
      | StorageIo _ k \<Rightarrow> k = KNotFound | _ \<Rightarrow> False)"

definition map_storage :: "storage_error \<Rightarrow> vault_error" where
  "map_storage e =
     (if storage_not_found e then NotFound
      else (case e of
          StorageDomain d \<Rightarrow> VDomain d
        | DestinationExists \<Rightarrow> AlreadyExists
        | other \<Rightarrow> VStorage other))"

definition map_state :: "state_error \<Rightarrow> vault_error" where
  "map_state e =
     (case e of
        InvalidDomain (DomainRevisionConflict expected current) \<Rightarrow>
          RevisionConflict expected current None
      | InvalidDomain (PreconditionFailed reason) \<Rightarrow>
          (if sublist ''already exists'' reason \<or> sublist ''destination'' reason then AlreadyExists
           else if sublist ''does not exist'' reason then NotFound
           else VState e)
      | _ \<Rightarrow> VState e)"

definition map_patch :: "patch_error \<Rightarrow> vault_error" where
  "map_patch e = (case e of InvalidPatch m \<Rightarrow> VInvalidPatch m)"

section \<open>The service and its world\<close>

record core_env =
  en_x :: externals
  en_clock :: "nat \<Rightarrow> int"
  en_uuid :: "nat \<Rightarrow> uuid"
  en_simple :: "nat \<Rightarrow> string"

record vault_core =
  vc_history_root :: string
  vc_path_policy :: path_policy
  vc_storage_options :: storage_options
  vc_failure :: "nat \<Rightarrow> commit_phase \<Rightarrow> string option"

record core_world =
  cw_host :: host
  cw_db :: file_db
  cw_gate :: maintenance_state
  cw_ticks :: nat

type_synonym 'a core = "(core_world, vault_error, 'a) prog"

definition tick :: "(nat \<Rightarrow> 'a) \<Rightarrow> (core_world, 'e, 'a) prog" where
  "tick f w = (Ok (f (cw_ticks w)), w\<lparr>cw_ticks := Suc (cw_ticks w)\<rparr>)"

abbreviation fresh :: "core_env \<Rightarrow> (core_world, 'e, uuid) prog" where
  "fresh e \<equiv> tick (en_uuid e)"

abbreviation now_millis :: "core_env \<Rightarrow> (core_world, 'e, int) prog" where
  "now_millis e \<equiv> tick (en_clock e)"

definition on_fs :: "'a io \<Rightarrow> (core_world, storage_error, 'a) prog" where
  "on_fs m w = (let (r, h) = m (cw_host w) in (r, w\<lparr>cw_host := h\<rparr>))"

abbreviation fs_call :: "'a io \<Rightarrow> 'a core" where
  \<comment> \<open>\<open>.map_err(map_storage)\<close>\<close>
  "fs_call m \<equiv> mapErr_x map_storage (on_fs m)"

definition db_run :: "(file_db \<Rightarrow> state_error + 'a \<times> file_db) \<Rightarrow> (core_world, state_error, 'a) prog" where
  "db_run act w =
     (case act (cw_db w) of Err e \<Rightarrow> (Err e, w) | Ok (a, db) \<Rightarrow> (Ok a, w\<lparr>cw_db := db\<rparr>))"

definition set_faults :: "fault list \<Rightarrow> bool \<Rightarrow> core_world \<Rightarrow> core_world" where
  "set_faults fs stop w = w\<lparr>cw_host := (cw_host w)\<lparr>h_faults := fs, h_stopped := stop\<rparr>\<rparr>"

definition db_call :: "(file_db \<Rightarrow> state_error + 'a \<times> file_db) \<Rightarrow> (core_world, state_error, 'a) prog" where
  "db_call act w =
     (if h_stopped (cw_host w) then (Err (Connection ''stopped''), w)
      else (case h_faults (cw_host w) of
              [] \<Rightarrow> db_run act w
            | Fine # fs \<Rightarrow> db_run act (set_faults fs False w)
            | Fail _ _ # fs \<Rightarrow> (Err (Database OtherDatabaseError), set_faults fs False w)
            | Stop k # fs \<Rightarrow>
                (Err (Connection ''stopped''),
                 if k = 0 then set_faults fs True w else snd (db_run act (set_faults fs True w)))))"

abbreviation db_read :: "(file_db \<Rightarrow> state_error + 'a) \<Rightarrow> 'a core" where
  "db_read f \<equiv> mapErr_x VState (db_call (\<lambda>db. map_sum id (\<lambda>a. (a, db)) (f db)))"

abbreviation db_get :: "(file_db \<Rightarrow> 'a) \<Rightarrow> 'a core" where
  "db_get f \<equiv> db_read (\<lambda>db. Ok (f db))"

definition db_write ::
  "core_env \<Rightarrow> (int \<Rightarrow> file_db \<Rightarrow> state_error + 'a \<times> file_db) \<Rightarrow> (core_world, state_error, 'a) prog" where
  \<comment> \<open>the repository reads the clock itself\<close>
  "db_write e act = bind_x (now_millis e) (\<lambda>now. db_call (act now))"

definition inject :: "vault_core \<Rightarrow> commit_phase \<Rightarrow> unit core" where
  "inject c phase =
     bind_x (tick (\<lambda>t. vc_failure c t phase)) (\<lambda>r.
       case r of None \<Rightarrow> return_x () | Some m \<Rightarrow> throw_x (InjectedFailure m))"

definition core_storage :: "vault_core \<Rightarrow> vault_context \<Rightarrow> vault_storage" where
  "core_storage c ctx = vault_storage_new ctx (vc_path_policy c) (vc_storage_options c)"

definition core_history :: "core_env \<Rightarrow> vault_core \<Rightarrow> vault_context \<Rightarrow> history_store core" where
  "core_history e c ctx =
     lift_x (map_err VStorage (history_store_new (en_x e) ctx (vc_history_root c) (vc_storage_options c)))"

definition managed_path :: "core_env \<Rightarrow> vault_core \<Rightarrow> vault_path \<Rightarrow> bool" where
  "managed_path e c p = is_reserved (x_lower (en_x e)) (vc_path_policy c) p"

section \<open>Streams handed to a mutation\<close>

datatype source = Stream "read_event list" | Opened node

definition read_opened :: "node \<Rightarrow> read_event list io" where
  "read_opened n =
     try_x (sys_read n) (\<lambda>r.
       return_x (case r of Ok content \<Rightarrow> [Chunk content] | Err err \<Rightarrow> [ReadError (errno_kind err)]))"

fun source_events :: "source \<Rightarrow> read_event list io" where
  "source_events (Stream es) = return_x es"
| "source_events (Opened n) = read_opened n"

definition byte_reader :: "bytes \<Rightarrow> source" where
  "byte_reader bs = Stream [Chunk bs]"

section \<open>Labels and texts\<close>

fun decimal_digits :: "nat \<Rightarrow> nat \<Rightarrow> string" where
  "decimal_digits 0 n = []"
| "decimal_digits (Suc k) n =
     (if n < 10 then [char_of (48 + n)] else decimal_digits k (n div 10) @ [char_of (48 + n mod 10)])"

definition show_u64 :: "u64 \<Rightarrow> string" where
  \<comment> \<open>at most twenty digits\<close>
  "show_u64 v = decimal_digits 20 (unat v)"

definition parse_entry_type :: "string \<Rightarrow> vault_error + entry_type" where
  "parse_entry_type v =
     (if v = ''file'' then Ok EntryFile else if v = ''directory'' then Ok EntryDirectory
      else Err (VInvalidPatch ''entry type is invalid''))"

definition parse_operation :: "string \<Rightarrow> vault_error + file_operation" where
  "parse_operation v =
     (if v = ''create'' then Ok OpCreate
      else if v = ''replace'' then Ok OpReplace
      else if v = ''patch'' then Ok OpPatch
      else if v = ''append'' then Ok OpAppend
      else if v = ''move'' then Ok OpMove
      else if v = ''copy'' then Ok OpCopy
      else if v = ''delete'' then Ok OpDelete
      else if v = ''restore'' then Ok OpRestore
      else if v = ''external_change'' then Ok OpExternalChange
      else Err (VInvalidPatch ''operation is invalid''))"

fun core_entry_kind :: "entry_type \<Rightarrow> entry_kind" where
  "core_entry_kind EntryFile = RegularFile"
| "core_entry_kind EntryDirectory = Directory"

fun event_type_for :: "file_operation \<Rightarrow> string" where
  "event_type_for OpCreate = ''FileCreated''"
| "event_type_for OpMove = ''FileMoved''"
| "event_type_for OpDelete = ''FileDeleted''"
| "event_type_for OpRestore = ''FileRestored''"
| "event_type_for _ = ''FileUpdated''"

definition identity_string :: "file_metadata \<Rightarrow> string option" where
  "identity_string m = map_option (\<lambda>(device, inode). show_u64 device @ '':'' @ show_u64 inode) (fm_identity m)"

definition file_etag_tag :: "file_record \<Rightarrow> string" where
  "file_etag_tag f =
     show_u64 (fr_revision f) @ ''-'' @
       (case fr_content_hash f of Some h \<Rightarrow> h | None \<Rightarrow> ''directory'')"

definition etag :: "file_record \<Rightarrow> string" where
  "etag f = [CHR 0x22] @ file_etag_tag f @ [CHR 0x22]"

definition event_for ::
  "core_env \<Rightarrow> string \<Rightarrow> file_id \<Rightarrow> vault_path \<Rightarrow> file_operation \<Rightarrow> outbox_event_input list" where
  "event_for e ty fid p op =
     [\<lparr>oe_type = ty, oe_aggregate_type = ''file'', oe_aggregate_id = x_uuid_str (en_x e) fid,
       oe_payload = JObj [(''file_id'', JStr (x_uuid_str (en_x e) fid)),
         (''operation'', JStr (file_operation_as_str op)), (''path'', JStr (path_text p))]\<rparr>]"

section \<open>The journalled payload\<close>

record mutation_request =
  \<comment> \<open>the arguments of \<open>CorePayload::new\<close> that do not vary within an operation\<close>
  rq_actor :: actor
  rq_source_plane :: source_plane
  rq_idempotency_key :: "string option"

record mutation_result =
  mr_file :: file_record
  mr_revision :: file_revision_record
  mr_etag :: string

definition core_payload_new ::
  "operation_id \<Rightarrow> file_id \<Rightarrow> entry_type \<Rightarrow> file_operation \<Rightarrow> vault_path \<Rightarrow> vault_path option \<Rightarrow>
     vault_path option \<Rightarrow> revision option \<Rightarrow> bool \<Rightarrow> string option \<Rightarrow> string option \<Rightarrow> u64 \<Rightarrow> int \<Rightarrow>
     string option \<Rightarrow> int option \<Rightarrow> mutation_request \<Rightarrow> string \<Rightarrow> outbox_event_input list \<Rightarrow>
     core_payload" where
  "core_payload_new oid fid ty op p path_before path_after expected absent hash blob n modified ident deleted rq
     action events =
     \<lparr>cp_operation_id = oid, cp_file_id = fid, cp_entry_type = entry_type_as_str ty,
      cp_operation = file_operation_as_str op, cp_path = p, cp_path_before = path_before,
      cp_path_after = path_after, cp_expected_revision = expected, cp_require_absent = absent,
      cp_tombstone_archive_path = None, cp_content_hash = hash, cp_history_blob_hash = blob,
      cp_size = n, cp_modified_at = Some modified, cp_filesystem_identity = ident,
      cp_deleted_at = deleted, cp_actor = rq_actor rq, cp_source_plane = rq_source_plane rq,
      cp_idempotency_key = rq_idempotency_key rq, cp_audit_action = action,
      cp_audit_metadata = JObj [(''operation'', JStr (file_operation_as_str op))],
      cp_request_id = None, cp_outbox_events = events\<rparr>"

definition prepare_input ::
  "core_payload \<Rightarrow> operation_id \<Rightarrow> vault_path option \<Rightarrow> vault_path option \<Rightarrow> string option \<Rightarrow>
     string option \<Rightarrow> vault_error + prepare_operation_input" where
  "prepare_input pl oid source_path temp_path prior proposed =
     bind_r (parse_operation (cp_operation pl)) (\<lambda>op.
       Ok \<lparr>po_id = oid, po_operation = op, po_source_path = source_path,
           po_destination_path = Some (cp_path pl), po_prior_file_id = Some (cp_file_id pl),
           po_expected_revision = cp_expected_revision pl, po_prior_hash = prior,
           po_proposed_hash = proposed, po_temp_path = temp_path, po_payload = Some pl,
           po_idempotency_key = cp_idempotency_key pl\<rparr>)"

definition to_commit_input :: "int \<Rightarrow> core_payload \<Rightarrow> vault_error + commit_mutation_input" where
  \<comment> \<open>\<open>now\<close> stands in for a missing modification time\<close>
  "to_commit_input now pl =
     bind_r (parse_entry_type (cp_entry_type pl)) (\<lambda>ty.
     bind_r (parse_operation (cp_operation pl)) (\<lambda>op.
       Ok \<lparr>ci_operation_id = cp_operation_id pl, ci_file_id = cp_file_id pl, ci_entry_type = ty,
           ci_path = cp_path pl, ci_path_before = cp_path_before pl,
           ci_path_after = cp_path_after pl, ci_expected_revision = cp_expected_revision pl,
           ci_require_absent = cp_require_absent pl,
           ci_tombstone_archive_path = cp_tombstone_archive_path pl,
           ci_content_hash = cp_content_hash pl, ci_history_blob_hash = cp_history_blob_hash pl,
           ci_size = cp_size pl,
           ci_modified_at = (case cp_modified_at pl of Some m \<Rightarrow> m | None \<Rightarrow> now),
           ci_filesystem_identity = cp_filesystem_identity pl, ci_deleted_at = cp_deleted_at pl,
           ci_operation = op, ci_actor = cp_actor pl, ci_source_plane = cp_source_plane pl,
           ci_idempotency_key = cp_idempotency_key pl, ci_audit_action = cp_audit_action pl,
           ci_audit_metadata = cp_audit_metadata pl, ci_request_id = cp_request_id pl,
           ci_outbox_events = cp_outbox_events pl\<rparr>))"

definition same_request_signature :: "core_payload option \<Rightarrow> core_payload \<Rightarrow> bool" where
  \<comment> \<open>a stored payload that does not decode matches no request\<close>
  "same_request_signature stored pl \<longleftrightarrow>
     (case stored of
        None \<Rightarrow> False
      | Some s \<Rightarrow>
          cp_operation s = cp_operation pl \<and> cp_path s = cp_path pl \<and>
          cp_path_before s = cp_path_before pl \<and> cp_path_after s = cp_path_after pl \<and>
          cp_expected_revision s = cp_expected_revision pl \<and>
          cp_require_absent s = cp_require_absent pl)"

section \<open>State calls of the service\<close>

definition hook_of :: "vault_core \<Rightarrow> nat \<Rightarrow> commit_hook_phase \<Rightarrow> string option" where
  \<comment> \<open>\<open>StateCommitHook\<close>\<close>
  "hook_of c t phase =
     vc_failure c t (case phase of
        HookMetadataTransactionStarted \<Rightarrow> MetadataTransactionStarted
      | HookOutboxInserted \<Rightarrow> OutboxInserted)"

definition commit_env_at :: "core_env \<Rightarrow> nat \<Rightarrow> int \<Rightarrow> commit_env" where
  "commit_env_at e t now =
     \<lparr>ce_now = now, ce_revision_id = en_uuid e t, ce_audit_id = en_uuid e (t + 1),
      ce_event_id = (\<lambda>k. en_uuid e (t + 2 + k))\<rparr>"

definition sha256_hex :: "externals \<Rightarrow> string \<Rightarrow> string" where
  "sha256_hex x s = as_hex (ContentHash (x_sha256 x s))"

definition commit_payload :: "core_env \<Rightarrow> vault_core \<Rightarrow> vault_context \<Rightarrow> core_payload \<Rightarrow> mutation_result core" where
  "commit_payload e c ctx pl =
     bind_x (now_millis e) (\<lambda>now.
     bind_x (lift_x (to_commit_input now pl)) (\<lambda>input.
     bind_x (gets_x cw_ticks) (\<lambda>t.
     bind_x (modify_x (\<lambda>w. w\<lparr>cw_ticks := t + 2 + length (cp_outbox_events pl)\<rparr>)) (\<lambda>_.
     bind_x (mapErr_x map_state (db_write e (\<lambda>now.
               commit_mutation (x_uuid_str (en_x e)) (sha256_hex (en_x e)) (commit_env_at e t now)
                 (hook_of c t) ctx input))) (\<lambda>r.
       return_x \<lparr>mr_file = mc_file r, mr_revision = mc_revision r, mr_etag = etag (mc_file r)\<rparr>)))))"

definition update_payload :: "core_env \<Rightarrow> vault_context \<Rightarrow> core_payload \<Rightarrow> unit core" where
  "update_payload e ctx pl =
     mapErr_x VState (db_write e (\<lambda>now.
       update_operation_payload now ctx (cp_operation_id pl) pl (cp_content_hash pl)))"

definition prepare :: "core_env \<Rightarrow> vault_context \<Rightarrow> prepare_operation_input \<Rightarrow> unit core" where
  "prepare e ctx input =
     bind_x (mapErr_x VState (db_write e (\<lambda>now. prepare_operation now ctx input))) (\<lambda>_. return_x ())"

definition file_committed :: "core_env \<Rightarrow> vault_context \<Rightarrow> operation_id \<Rightarrow> string option \<Rightarrow> unit core" where
  "file_committed e ctx oid h =
     mapErr_x VState (db_write e (\<lambda>now. mark_file_committed now ctx oid h))"

definition roll_back :: "core_env \<Rightarrow> vault_context \<Rightarrow> operation_id \<Rightarrow> string \<Rightarrow> unit core" where
  \<comment> \<open>\<open>let _ = files.mark_rolled_back(..)\<close>\<close>
  "roll_back e ctx oid reason =
     ignore_x (db_write e (\<lambda>now. mark_rolled_back now ctx oid (Some reason)))"

definition lookup_idempotency ::
  "core_env \<Rightarrow> vault_context \<Rightarrow> string option \<Rightarrow> core_payload \<Rightarrow> mutation_result option core" where
  "lookup_idempotency e ctx key pl =
     (case key of
        None \<Rightarrow> return_x None
      | Some k \<Rightarrow>
          bind_x (db_read (find_idempotency ctx k)) (\<lambda>found.
            case found of
              None \<Rightarrow> return_x None
            | Some (Committed stored f rv) \<Rightarrow>
                (if \<not> same_request_signature stored pl then throw_x IdempotencyConflict
                 else return_x (Some \<lparr>mr_file = f, mr_revision = rv, mr_etag = etag f\<rparr>))
            | Some (InFlightLookup _ _ stored) \<Rightarrow>
                (if \<not> same_request_signature stored pl then throw_x IdempotencyConflict
                 else throw_x InFlight)))"

definition require_active_file :: "vault_context \<Rightarrow> vault_path \<Rightarrow> file_record core" where
  "require_active_file ctx p =
     bind_x (db_get (get_active ctx p)) (\<lambda>f. lift_x (ok_or NotFound f))"

definition require_revision :: "file_record \<Rightarrow> revision \<Rightarrow> unit core" where
  "require_revision f expected =
     (if fr_revision f \<noteq> expected
      then throw_x (RevisionConflict expected (fr_revision f) (fr_content_hash f)) else return_x ())"

section \<open>Checks against the file system\<close>

definition storage_absent :: "core_env \<Rightarrow> vault_storage \<Rightarrow> vault_path \<Rightarrow> bool \<Rightarrow> bool core" where
  "storage_absent e st p managed =
     try_x (on_fs (stat (en_x e) st p managed)) (\<lambda>r.
       case r of
         Ok _ \<Rightarrow> return_x False
       | Err err \<Rightarrow> (if storage_not_found err then return_x True else throw_x (map_storage err)))"

definition verify_current :: "core_env \<Rightarrow> vault_storage \<Rightarrow> file_record \<Rightarrow> bool \<Rightarrow> file_metadata core" where
  "verify_current e st f managed =
     bind_x (fs_call (stat (en_x e) st (fr_path f) managed)) (\<lambda>m.
       if fm_kind m \<noteq> core_entry_kind (fr_entry_type f)
          \<or> (fr_entry_type f = EntryFile \<and> fm_size m \<noteq> fr_size f)
       then throw_x ExternalMismatch
       else
         bind_x (case fr_content_hash f of
             None \<Rightarrow> return_x ()
           | Some expected \<Rightarrow>
               bind_x (fs_call (hash_file (en_x e) st (fr_path f) managed)) (\<lambda>(_, actual).
                 if as_hex actual \<noteq> expected then throw_x ExternalMismatch else return_x ())) (\<lambda>_.
           case (fr_identity f, identity_string m) of
             (Some expected, Some actual) \<Rightarrow>
               (if expected \<noteq> actual then throw_x ExternalMismatch else return_x m)
           | _ \<Rightarrow> return_x m))"

definition ensure_destination_absent ::
  "core_env \<Rightarrow> vault_context \<Rightarrow> vault_storage \<Rightarrow> vault_path \<Rightarrow> unit core" where
  "ensure_destination_absent e ctx st p =
     bind_x (db_get (get_active ctx p)) (\<lambda>active.
       if active \<noteq> None then throw_x AlreadyExists
       else bind_x (storage_absent e st p False) (\<lambda>absent.
              if \<not> absent then throw_x ExternalMismatch else return_x ()))"

definition put_reader :: "core_env \<Rightarrow> history_store \<Rightarrow> node \<Rightarrow> history_blob core" where
  \<comment> \<open>\<open>history.put(&mut reader)\<close> of an opened file\<close>
  "put_reader e hs n =
     bind_x (tick (en_simple e)) (\<lambda>simple.
       fs_call (bind_x (read_opened n) (\<lambda>events. put (en_x e) hs simple events)))"

definition capture_history ::
  "core_env \<Rightarrow> vault_storage \<Rightarrow> history_store \<Rightarrow> file_record \<Rightarrow> bool \<Rightarrow> string option core" where
  "capture_history e st hs f managed =
     (if fr_entry_type f \<noteq> EntryFile \<or> \<not> is_active f then return_x None
      else
        bind_x (fs_call (open_read (en_x e) st (fr_path f) managed)) (\<lambda>rf.
        bind_x (put_reader e hs (rf_node rf)) (\<lambda>blob.
          return_x (Some (as_hex (hb_content_hash blob))))))"

definition ensure_history_blob ::
  "core_env \<Rightarrow> vault_storage \<Rightarrow> history_store \<Rightarrow> vault_path \<Rightarrow> string option \<Rightarrow> bool \<Rightarrow> unit core" where
  "ensure_history_blob e st hs p content managed =
     (case content of
        None \<Rightarrow> return_x ()
      | Some text \<Rightarrow>
          bind_x (lift_x (map_err VStorage (from_hex text))) (\<lambda>hash.
          bind_x (fs_call (history_contains (en_x e) hs hash)) (\<lambda>present.
            if present then return_x ()
            else
              bind_x (fs_call (open_read (en_x e) st p managed)) (\<lambda>rf.
              bind_x (put_reader e hs (rf_node rf)) (\<lambda>blob.
                if hb_content_hash blob \<noteq> hash then throw_x ExternalMismatch else return_x ())))))"

definition core_tombstone_path :: "core_env \<Rightarrow> vault_core \<Rightarrow> file_id \<Rightarrow> vault_error + vault_path" where
  "core_tombstone_path e c fid =
     bind_r (map_err VDomain
       (parse_path (x_nfc (en_x e)) (''tombstones/'' @ x_uuid_str (en_x e) fid))) (\<lambda>suffix.
     map_err VDomain (join (x_nfc (en_x e)) (reserved_root (vc_path_policy c)) suffix))"

section \<open>Admission\<close>

definition validate_registered_context :: "vault_context \<Rightarrow> bool \<Rightarrow> unit core" where
  "validate_registered_context ctx write =
     bind_x (db_get (\<lambda>db. find_row (\<lambda>r. vr_id r = ctx_id ctx) (db_vaults db))) (\<lambda>found.
     bind_x (lift_x (ok_or VaultNotRegistered found)) (\<lambda>row.
       if vr_slug row \<noteq> ctx_slug ctx \<or> vr_content_root row \<noteq> ctx_content_root ctx
       then throw_x ContextMismatch
       else if write \<and> vr_status row \<noteq> VaultActive then throw_x UnderMaintenance
       else return_x ()))"

definition drop_operation :: "bool \<Rightarrow> core_world \<Rightarrow> core_world" where
  "drop_operation guard w = w\<lparr>cw_gate := drop_guard guard (cw_gate w)\<rparr>"

definition start_operation :: "bool \<Rightarrow> bool core" where
  \<comment> \<open>\<open>try_start_write\<close> or \<open>try_start_operation\<close>\<close>
  "start_operation write w =
     (case try_start write (cw_gate w) of
        (None, g) \<Rightarrow> (Err UnderMaintenance, w\<lparr>cw_gate := g\<rparr>)
      | (Some guard, g) \<Rightarrow> (Ok guard, w\<lparr>cw_gate := g\<rparr>))"

definition guarded :: "vault_context \<Rightarrow> bool \<Rightarrow> 'a core \<Rightarrow> 'a core" where
  \<comment> \<open>\<open>let _operation = self.validate_context(context, write).await?;\<close> and the rest of the
      function; the guard is dropped at every exit\<close>
  "guarded ctx write body =
     bind_x (start_operation write) (\<lambda>guard.
       try_x (bind_x (validate_registered_context ctx write) (\<lambda>_. body)) (\<lambda>r.
         bind_x (modify_x (drop_operation guard)) (\<lambda>_. lift_x r)))"

definition kept_guard :: "vault_context \<Rightarrow> bool \<Rightarrow> 'a core \<Rightarrow> (bool \<times> 'a) core" where
  \<comment> \<open>the same, but a successful result carries the guard\<close>
  "kept_guard ctx write body =
     bind_x (start_operation write) (\<lambda>guard.
       try_x (bind_x (validate_registered_context ctx write) (\<lambda>_. body)) (\<lambda>r.
         case r of
           Ok a \<Rightarrow> return_x (guard, a)
         | Err err \<Rightarrow> bind_x (modify_x (drop_operation guard)) (\<lambda>_. throw_x err)))"

end
