(* ===== verification/Vault_Core.thy ===== *)
theory Vault_Core
  imports Core_World
begin

text \<open>
  The public operations of the vault service (crates/vault-core/src/lib.rs): content mutations,
  staged uploads, directories, moves, deletions, restores and reads. Each follows the protocol
  journal entry, temporary file, rename, \<open>file_committed\<close>, history blob, metadata transaction.
\<close>

section \<open>Content mutations\<close>

definition fresh_or :: "core_env \<Rightarrow> file_record option \<Rightarrow> (core_world, 'e, file_id) prog" where
  \<comment> \<open>\<open>target.as_ref().map_or_else(FileId::new, |file| file.id)\<close>\<close>
  "fresh_or e target = (case target of Some f \<Rightarrow> return_x (fr_id f) | None \<Rightarrow> fresh e)"

definition creates :: "file_operation \<Rightarrow> bool" where
  "creates op \<longleftrightarrow> op = OpCreate \<or> op = OpCopy"

definition destination_policy_for :: "bool \<Rightarrow> destination_policy" where
  "destination_policy_for absent = (if absent then MustNotExist else ReplaceExisting)"

fun mutation_action :: "file_operation \<Rightarrow> string" where
  "mutation_action OpCreate = ''file.create''"
| "mutation_action OpCopy = ''file.copy''"
| "mutation_action OpPatch = ''file.patch''"
| "mutation_action OpAppend = ''file.append''"
| "mutation_action OpRestore = ''file.restore''"
| "mutation_action OpReplace = ''file.replace''"
| "mutation_action _ = ''file.update''"

definition signature_payload ::
  "core_env \<Rightarrow> vault_path \<Rightarrow> file_operation \<Rightarrow> revision option \<Rightarrow> bool \<Rightarrow> mutation_request \<Rightarrow>
     file_record option \<Rightarrow> (core_world, 'e, core_payload) prog" where
  "signature_payload e p op expected absent rq target =
     bind_x (fresh e) (\<lambda>oid.
     bind_x (fresh_or e target) (\<lambda>fid.
     bind_x (fresh_or e target) (\<lambda>event_fid.
       return_x (core_payload_new oid fid EntryFile op p
         (if creates op then None else map_option fr_path target) (Some p) expected absent None None 0 0
         None None rq ''file.mutate'' (event_for e (event_type_for op) event_fid p op)))))"

definition admit_target ::
  "core_env \<Rightarrow> vault_storage \<Rightarrow> vault_path \<Rightarrow> file_operation \<Rightarrow> revision option \<Rightarrow> bool \<Rightarrow> bool \<Rightarrow>
     file_record option \<Rightarrow> unit core" where
  \<comment> \<open>the preconditions, from \<open>if require_absent\<close> to the check of the entry type\<close>
  "admit_target e st p op expected absent managed target =
     (let active = (case target of Some f \<Rightarrow> is_active f | None \<Rightarrow> False) in
      if absent \<and> active then throw_x AlreadyExists
      else if \<not> creates op \<and> target = None then throw_x NotFound
      else
        bind_x (case (target, expected) of
                  (Some f, Some r) \<Rightarrow> require_revision f r | _ \<Rightarrow> return_x ()) (\<lambda>_.
        bind_x (if active then bind_x (verify_current e st (the target) managed) (\<lambda>_. return_x ())
                else if \<not> creates op \<and> op \<noteq> OpRestore then throw_x NotFound
                else bind_x (storage_absent e st p managed) (\<lambda>gone.
                       if \<not> gone then throw_x ExternalMismatch else return_x ())) (\<lambda>_.
          if active \<and> fr_entry_type (the target) \<noteq> EntryFile
          then throw_x (VInvalidPatch ''target is not a regular file'') else return_x ())))"

definition create_parents :: "core_env \<Rightarrow> vault_storage \<Rightarrow> vault_path \<Rightarrow> bool \<Rightarrow> unit core" where
  "create_parents e st p managed =
     (case parent p of
        None \<Rightarrow> return_x ()
      | Some up \<Rightarrow> fs_call (create_dir_all (en_x e) st up managed))"

definition failing ::
  "core_env \<Rightarrow> vault_context \<Rightarrow> operation_id \<Rightarrow> string \<Rightarrow> (core_world, storage_error, 'a) prog \<Rightarrow> 'a core" where
  \<comment> \<open>a storage call whose error closes the journal entry before it is returned\<close>
  "failing e ctx oid reason m =
     try_x m (\<lambda>r.
       case r of
         Ok a \<Rightarrow> return_x a
       | Err err \<Rightarrow> bind_x (roll_back e ctx oid reason) (\<lambda>_. throw_x (map_storage err)))"

definition stream_source :: "externals \<Rightarrow> source \<Rightarrow> atomic_write \<Rightarrow> (write_progress \<times> atomic_write) io" where
  "stream_source x src w =
     bind_x (source_events src) (\<lambda>events. with_write w (write_from x events))"

definition write_phase ::
  "core_env \<Rightarrow> vault_core \<Rightarrow> vault_context \<Rightarrow> vault_storage \<Rightarrow> history_store \<Rightarrow> vault_path \<Rightarrow> bool \<Rightarrow>
     bool \<Rightarrow> temporary_path \<Rightarrow> source \<Rightarrow> core_payload \<Rightarrow> mutation_result core" where
  \<comment> \<open>\<open>content_mutation_with_policy\<close> from \<open>begin_atomic_write_at\<close> on\<close>
  "write_phase e c ctx st hs p absent managed temporary src pl =
     (let oid = cp_operation_id pl; x = en_x e in
      bind_x (failing e ctx oid ''temporary write could not start''
        (on_fs (begin_atomic_write_at x st p (destination_policy_for absent) temporary managed))) (\<lambda>aw.
      bind_x (failing e ctx oid ''source stream failed'' (on_fs (stream_source x src aw))) (\<lambda>(progress, aw1).
      let pl1 = pl\<lparr>cp_content_hash := Some (as_hex (wp_content_hash progress)),
            cp_history_blob_hash := Some (as_hex (wp_content_hash progress)),
            cp_size := wp_size progress\<rparr> in
      bind_x (update_payload e ctx pl1) (\<lambda>_.
      bind_x (inject c TempFileWritten) (\<lambda>_.
      bind_x (failing e ctx oid ''temporary sync failed'' (on_fs (with_write aw1 sync))) (\<lambda>(_, aw2).
      bind_x (inject c FileFsynced) (\<lambda>_.
      bind_x (failing e ctx oid ''canonical rename failed'' (on_fs (commit x aw2))) (\<lambda>receipt.
      let pl2 = pl1\<lparr>cp_modified_at := fm_modified_at (wr_metadata receipt),
            cp_filesystem_identity := identity_string (wr_metadata receipt)\<rparr> in
      bind_x (update_payload e ctx pl2) (\<lambda>_.
      bind_x (inject c RenameCommitted) (\<lambda>_.
      bind_x (file_committed e ctx oid (cp_content_hash pl2)) (\<lambda>_.
      bind_x (ensure_history_blob e st hs p (cp_content_hash pl2) managed) (\<lambda>_.
      bind_x (commit_payload e c ctx pl2) (\<lambda>result.
      bind_x (inject c MetadataCommittedPhase) (\<lambda>_. return_x result))))))))))))))"

definition journalled_write ::
  "core_env \<Rightarrow> vault_core \<Rightarrow> vault_context \<Rightarrow> vault_storage \<Rightarrow> history_store \<Rightarrow> vault_path \<Rightarrow>
     file_operation \<Rightarrow> revision option \<Rightarrow> bool \<Rightarrow> bool \<Rightarrow> source \<Rightarrow> mutation_request \<Rightarrow>
     file_record option \<Rightarrow> mutation_result core" where
  \<comment> \<open>from the choice of \<open>file_id\<close> to the journal entry, then the write\<close>
  "journalled_write e c ctx st hs p op expected absent managed src rq target =
     bind_x (fresh_or e target) (\<lambda>fid.
     bind_x (fresh e) (\<lambda>oid.
     bind_x (create_parents e st p managed) (\<lambda>_.
     bind_x (tick (en_simple e)) (\<lambda>simple.
     bind_x (lift_x (map_err VStorage (temporary_path_for (en_x e) st p managed simple))) (\<lambda>temporary.
     let pl = core_payload_new oid fid EntryFile op p (map_option fr_path target) (Some p) expected absent
           None None 0 0 None None rq (mutation_action op) (event_for e (event_type_for op) fid p op) in
     bind_x (lift_x (prepare_input pl oid (Some p) (Some (as_path temporary))
               (Option.bind target fr_content_hash) None)) (\<lambda>input.
     bind_x (prepare e ctx input) (\<lambda>_.
     bind_x (inject c JournalPrepared) (\<lambda>_.
       write_phase e c ctx st hs p absent managed temporary src pl))))))))"

definition content_mutation_with_policy ::
  "core_env \<Rightarrow> vault_core \<Rightarrow> vault_context \<Rightarrow> vault_path \<Rightarrow> file_operation \<Rightarrow> revision option \<Rightarrow> bool \<Rightarrow>
     bool \<Rightarrow> source \<Rightarrow> mutation_request \<Rightarrow> mutation_result core" where
  "content_mutation_with_policy e c ctx p op expected absent managed src rq =
     guarded ctx True (
       let st = core_storage c ctx in
       bind_x (core_history e c ctx) (\<lambda>hs.
       bind_x (db_get (if creates op \<or> op = OpRestore then get_any_by_path ctx p else get_active ctx p))
         (\<lambda>target.
       bind_x (signature_payload e p op expected absent rq target) (\<lambda>sig.
       bind_x (lookup_idempotency e ctx (rq_idempotency_key rq) sig) (\<lambda>known.
         case known of
           Some result \<Rightarrow> return_x result
         | None \<Rightarrow>
             bind_x (admit_target e st p op expected absent managed target) (\<lambda>_.
               journalled_write e c ctx st hs p op expected absent managed src rq target))))))"

definition content_mutation ::
  "core_env \<Rightarrow> vault_core \<Rightarrow> vault_context \<Rightarrow> vault_path \<Rightarrow> file_operation \<Rightarrow> revision option \<Rightarrow> bool \<Rightarrow>
     source \<Rightarrow> mutation_request \<Rightarrow> mutation_result core" where
  "content_mutation e c ctx p op expected absent src rq =
     content_mutation_with_policy e c ctx p op expected absent False src rq"

definition create ::
  "core_env \<Rightarrow> vault_core \<Rightarrow> vault_context \<Rightarrow> vault_path \<Rightarrow> source \<Rightarrow> mutation_request \<Rightarrow> mutation_result core" where
  "create e c ctx p src rq = content_mutation e c ctx p OpCreate None True src rq"

definition create_bytes ::
  "core_env \<Rightarrow> vault_core \<Rightarrow> vault_context \<Rightarrow> vault_path \<Rightarrow> bytes \<Rightarrow> mutation_request \<Rightarrow> mutation_result core" where
  "create_bytes e c ctx p bs rq = create e c ctx p (byte_reader bs) rq"

definition create_managed_bytes ::
  "core_env \<Rightarrow> vault_core \<Rightarrow> vault_context \<Rightarrow> vault_path \<Rightarrow> bytes \<Rightarrow> mutation_request \<Rightarrow> mutation_result core" where
  "create_managed_bytes e c ctx p bs rq =
     content_mutation_with_policy e c ctx p OpCreate None True True (byte_reader bs) rq"

definition replace_bytes ::
  "core_env \<Rightarrow> vault_core \<Rightarrow> vault_context \<Rightarrow> vault_path \<Rightarrow> revision \<Rightarrow> bytes \<Rightarrow> mutation_request \<Rightarrow>
     mutation_result core" where
  "replace_bytes e c ctx p expected bs rq =
     content_mutation e c ctx p OpReplace (Some expected) False (byte_reader bs) rq"

definition replace_managed_bytes ::
  "core_env \<Rightarrow> vault_core \<Rightarrow> vault_context \<Rightarrow> vault_path \<Rightarrow> revision \<Rightarrow> bytes \<Rightarrow> mutation_request \<Rightarrow>
     mutation_result core" where
  "replace_managed_bytes e c ctx p expected bs rq =
     content_mutation_with_policy e c ctx p OpReplace (Some expected) False True (byte_reader bs) rq"

definition append_bytes_core ::
  "core_env \<Rightarrow> vault_core \<Rightarrow> vault_context \<Rightarrow> vault_path \<Rightarrow> revision \<Rightarrow> bytes \<Rightarrow> mutation_request \<Rightarrow>
     mutation_result core" where
  "append_bytes_core e c ctx p expected bs rq =
     guarded ctx True (
       let st = core_storage c ctx in
       bind_x (require_active_file ctx p) (\<lambda>current.
         if fr_entry_type current \<noteq> EntryFile
         then throw_x (VInvalidPatch ''append target is not a file'')
         else
           bind_x (require_revision current expected) (\<lambda>_.
           bind_x (fs_call (open_read (en_x e) st p False)) (\<lambda>rf.
           bind_x (mapErr_x VStorage (on_fs (call_std ''read append source'' (sys_read (rf_node rf))))) (\<lambda>original.
             content_mutation e c ctx p OpAppend (Some expected) False
               (byte_reader (original @ bs)) rq)))))"

definition read_text :: "core_env \<Rightarrow> node \<Rightarrow> string core" where
  \<comment> \<open>\<open>read_to_string\<close>: an I/O error is reported like text that is not UTF-8\<close>
  "read_text e n =
     bind_x (mapErr_x (\<lambda>_. BinaryTextOperation) (on_fs (call_std ''read text'' (sys_read n)))) (\<lambda>content.
       if x_utf8 (en_x e) content then return_x content else throw_x BinaryTextOperation)"

definition patch_unified_diff ::
  "core_env \<Rightarrow> vault_core \<Rightarrow> vault_context \<Rightarrow> vault_path \<Rightarrow> revision \<Rightarrow> string \<Rightarrow> mutation_request \<Rightarrow>
     mutation_result core" where
  "patch_unified_diff e c ctx p expected diff rq =
     guarded ctx True (
       let st = core_storage c ctx in
       bind_x (require_active_file ctx p) (\<lambda>current.
       bind_x (require_revision current expected) (\<lambda>_.
       bind_x (fs_call (open_read (en_x e) st p False)) (\<lambda>rf.
       bind_x (read_text e (rf_node rf)) (\<lambda>original.
       bind_x (lift_x (map_err map_patch (apply_unified_diff original diff))) (\<lambda>patched.
         content_mutation e c ctx p OpPatch (Some expected) False (byte_reader patched) rq))))))"

definition heading_edit ::
  "core_env \<Rightarrow> vault_core \<Rightarrow> vault_context \<Rightarrow> vault_path \<Rightarrow> revision \<Rightarrow> mutation_request \<Rightarrow>
     (string \<Rightarrow> patch_error + string) \<Rightarrow> file_operation \<Rightarrow> mutation_result core" where
  "heading_edit e c ctx p expected rq edit op =
     (let st = core_storage c ctx in
      bind_x (fs_call (open_read (en_x e) st p False)) (\<lambda>rf.
      bind_x (read_text e (rf_node rf)) (\<lambda>original.
      bind_x (lift_x (map_err map_patch (edit original))) (\<lambda>updated.
        content_mutation e c ctx p op (Some expected) False (byte_reader updated) rq))))"

definition core_insert_after_heading ::
  "core_env \<Rightarrow> vault_core \<Rightarrow> vault_context \<Rightarrow> vault_path \<Rightarrow> revision \<Rightarrow> string \<Rightarrow> string \<Rightarrow>
     mutation_request \<Rightarrow> mutation_result core" where
  "core_insert_after_heading e c ctx p expected heading insertion rq =
     heading_edit e c ctx p expected rq (\<lambda>content. insert_after_heading content heading insertion) OpPatch"

definition core_replace_heading_section ::
  "core_env \<Rightarrow> vault_core \<Rightarrow> vault_context \<Rightarrow> vault_path \<Rightarrow> revision \<Rightarrow> string \<Rightarrow> string \<Rightarrow>
     mutation_request \<Rightarrow> mutation_result core" where
  "core_replace_heading_section e c ctx p expected heading replacement rq =
     heading_edit e c ctx p expected rq (\<lambda>content. replace_heading_section content heading replacement)
       OpPatch"

definition copy ::
  "core_env \<Rightarrow> vault_core \<Rightarrow> vault_context \<Rightarrow> vault_path \<Rightarrow> vault_path \<Rightarrow> mutation_request \<Rightarrow>
     mutation_result core" where
  "copy e c ctx source destination rq =
     guarded ctx True (
       if source = destination
       then throw_x (VDomain (PreconditionFailed ''copy source and destination match''))
       else
         let st = core_storage c ctx in
         bind_x (require_active_file ctx source) (\<lambda>file.
         bind_x (verify_current e st file False) (\<lambda>_.
         bind_x (fs_call (open_read (en_x e) st source False)) (\<lambda>rf.
           content_mutation e c ctx destination OpCopy None True (Opened (rf_node rf)) rq))))"

definition revision_blob_hash :: "file_revision_record \<Rightarrow> vault_error + content_hash" where
  "revision_blob_hash rr =
     bind_r (ok_or (VInvalidPatch ''revision has no content blob'')
       (coalesce (rr_history_blob_hash rr) (rr_content_hash rr))) (\<lambda>h.
     map_err (\<lambda>_. VInvalidPatch ''revision content hash is invalid'')
       (from_hex (case strip_prefix ''sha256:'' h of Some t \<Rightarrow> t | None \<Rightarrow> h)))"

definition core_restore ::
  "core_env \<Rightarrow> vault_core \<Rightarrow> vault_context \<Rightarrow> vault_path \<Rightarrow> revision \<Rightarrow> revision \<Rightarrow> mutation_request \<Rightarrow>
     mutation_result core" where
  "core_restore e c ctx p rv expected rq =
     guarded ctx True (
       bind_x (db_get (get_any_by_path ctx p)) (\<lambda>found.
       bind_x (lift_x (ok_or NotFound found)) (\<lambda>file.
       bind_x (require_revision file expected) (\<lambda>_.
       bind_x (db_read (get_revision ctx (fr_id file) rv)) (\<lambda>rr.
       bind_x (lift_x (ok_or NotFound rr)) (\<lambda>row.
       bind_x (lift_x (revision_blob_hash row)) (\<lambda>hash.
       bind_x (core_history e c ctx) (\<lambda>hs.
       bind_x (fs_call (history_open (en_x e) hs hash)) (\<lambda>rf.
       bind_x (mapErr_x VStorage (on_fs (call_std ''read history blob'' (sys_read (rf_node rf))))) (\<lambda>content.
         content_mutation e c ctx p OpRestore (Some expected) False (byte_reader content) rq))))))))))"

section \<open>Directories, moves and deletions\<close>

definition create_directory ::
  "core_env \<Rightarrow> vault_core \<Rightarrow> vault_context \<Rightarrow> vault_path \<Rightarrow> mutation_request \<Rightarrow> mutation_result core" where
  "create_directory e c ctx p rq =
     guarded ctx True (
       if is_root p then throw_x AlreadyExists
       else
         let st = core_storage c ctx in
         bind_x (db_get (get_any_by_path ctx p)) (\<lambda>existing.
         if (case existing of Some f \<Rightarrow> is_active f | None \<Rightarrow> False) then throw_x AlreadyExists
         else
           bind_x (try_x (on_fs (stat (en_x e) st p False)) (\<lambda>r.
             case r of
               Ok _ \<Rightarrow> throw_x AlreadyExists
             | Err SourceNotFound \<Rightarrow> return_x ()
             | Err err \<Rightarrow> throw_x (map_storage err))) (\<lambda>_.
           bind_x (create_parents e st p False) (\<lambda>_.
           bind_x (fresh e) (\<lambda>oid.
           bind_x (fresh_or e existing) (\<lambda>fid.
           bind_x (now_millis e) (\<lambda>now.
           let pl = core_payload_new oid fid EntryDirectory OpCreate p (map_option fr_path existing) (Some p)
                 None True None None 0 now None None (rq\<lparr>rq_idempotency_key := None\<rparr>) ''directory.create''
                 (event_for e ''FileCreated'' fid p OpCreate) in
           bind_x (lift_x (prepare_input pl oid (Some p) None None None)) (\<lambda>input.
           bind_x (prepare e ctx input) (\<lambda>_.
           bind_x (inject c JournalPrepared) (\<lambda>_.
           bind_x (failing e ctx oid ''directory create failed'' (on_fs (create_dir_all (en_x e) st p False))) (\<lambda>_.
           bind_x (inject c RenameCommitted) (\<lambda>_.
           bind_x (file_committed e ctx oid None) (\<lambda>_.
           bind_x (commit_payload e c ctx pl) (\<lambda>result.
           bind_x (inject c MetadataCommittedPhase) (\<lambda>_. return_x result)))))))))))))))"

definition with_archive ::
  "core_env \<Rightarrow> vault_core \<Rightarrow> file_record option \<Rightarrow> core_payload \<Rightarrow> vault_error + core_payload" where
  \<comment> \<open>a tombstone at the destination is archived by the metadata commit\<close>
  "with_archive e c destination pl =
     (case destination of
        Some f \<Rightarrow>
          (if \<not> is_active f
           then bind_r (core_tombstone_path e c (fr_id f)) (\<lambda>q. Ok (pl\<lparr>cp_tombstone_archive_path := Some q\<rparr>))
           else Ok pl)
      | None \<Rightarrow> Ok pl)"

definition moved_payload ::
  "core_env \<Rightarrow> file_record \<Rightarrow> vault_path \<Rightarrow> mutation_request \<Rightarrow> operation_id \<Rightarrow> core_payload" where
  "moved_payload e f target rq oid =
     core_payload_new oid (fr_id f) (fr_entry_type f) OpMove target (Some (fr_path f)) (Some target)
       (Some (fr_revision f)) True (fr_content_hash f) (fr_content_hash f) (fr_size f) (fr_modified_at f)
       (fr_identity f) None rq ''file.move'' (event_for e ''FileMoved'' (fr_id f) target OpMove)"

definition moved_metadata ::
  "core_env \<Rightarrow> vault_storage \<Rightarrow> core_payload \<Rightarrow> core_payload core" where
  \<comment> \<open>\<open>stat(destination)\<close> and the fields it sets\<close>
  "moved_metadata e st pl =
     bind_x (fs_call (stat (en_x e) st (cp_path pl) False)) (\<lambda>m.
     bind_x (now_millis e) (\<lambda>now.
       return_x (pl\<lparr>cp_modified_at := coalesce (fm_modified_at m) (Some now),
         cp_filesystem_identity := identity_string m\<rparr>)))"

definition move_file_entry ::
  "core_env \<Rightarrow> vault_core \<Rightarrow> vault_context \<Rightarrow> vault_path \<Rightarrow> vault_path \<Rightarrow> revision \<Rightarrow>
     mutation_request \<Rightarrow> mutation_result core" where
  \<comment> \<open>\<open>move_entry\<close> of a regular file, from its path locks on\<close>
  "move_file_entry e c ctx source destination expected rq =
     (let st = core_storage c ctx in
      bind_x (create_parents e st destination False) (\<lambda>_.
      bind_x (db_get (get_any_by_path ctx destination)) (\<lambda>destination_record.
      bind_x (require_active_file ctx source) (\<lambda>current.
      bind_x (require_revision current expected) (\<lambda>_.
      bind_x (verify_current e st current False) (\<lambda>_.
      bind_x (ensure_destination_absent e ctx st destination) (\<lambda>_.
      bind_x (fresh e) (\<lambda>oid.
      let pl0 = core_payload_new oid (fr_id current) (fr_entry_type current) OpMove destination (Some source)
            (Some destination) (Some expected) True (fr_content_hash current) (fr_content_hash current)
            (fr_size current) (fr_modified_at current) (fr_identity current) None rq ''file.move''
            (event_for e ''FileMoved'' (fr_id current) destination OpMove) in
      bind_x (lift_x (with_archive e c destination_record pl0)) (\<lambda>pl.
      bind_x (lookup_idempotency e ctx (rq_idempotency_key rq) pl) (\<lambda>known.
        case known of
          Some result \<Rightarrow> return_x result
        | None \<Rightarrow>
            bind_x (prepare e ctx \<lparr>po_id = oid, po_operation = OpMove, po_source_path = Some source,
              po_destination_path = Some destination, po_prior_file_id = Some (fr_id current),
              po_expected_revision = Some expected, po_prior_hash = fr_content_hash current,
              po_proposed_hash = fr_content_hash current, po_temp_path = None, po_payload = Some pl,
              po_idempotency_key = rq_idempotency_key rq\<rparr>) (\<lambda>_.
            bind_x (inject c JournalPrepared) (\<lambda>_.
            bind_x (fs_call (move_entry (en_x e) st source destination MustNotExist)) (\<lambda>_.
            bind_x (moved_metadata e st pl) (\<lambda>pl1.
            bind_x (update_payload e ctx pl1) (\<lambda>_.
            bind_x (inject c RenameCommitted) (\<lambda>_.
            bind_x (file_committed e ctx oid (fr_content_hash current)) (\<lambda>_.
            bind_x (commit_payload e c ctx pl1) (\<lambda>result.
            bind_x (inject c MetadataCommittedPhase) (\<lambda>_. return_x result)))))))))))))))))))"

definition mapped_target ::
  "core_env \<Rightarrow> vault_path \<Rightarrow> vault_path \<Rightarrow> file_record \<Rightarrow> vault_error + vault_path" where
  "mapped_target e source destination entry =
     (let relative = dropWhile (\<lambda>ch. ch = CHR ''/'')
            (case strip_prefix (path_text source) (path_text (fr_path entry)) of Some t \<Rightarrow> t | None \<Rightarrow> [])
      in if relative = [] then Ok destination
         else bind_r (map_err VDomain (parse_path (x_nfc (en_x e)) relative)) (\<lambda>r.
                map_err VDomain (join (x_nfc (en_x e)) destination r)))"

fun map_targets ::
  "core_env \<Rightarrow> vault_path \<Rightarrow> vault_path \<Rightarrow> file_record list \<Rightarrow> vault_error + (file_record \<times> vault_path) list" where
  "map_targets e source destination [] = Ok []"
| "map_targets e source destination (f # fs) =
     bind_r (mapped_target e source destination f) (\<lambda>t.
     bind_r (map_targets e source destination fs) (\<lambda>rest. Ok ((f, t) # rest)))"

fun check_unchanged :: "file_record list \<Rightarrow> (file_record \<times> vault_path) list \<Rightarrow> vault_error + unit" where
  "check_unchanged latest [] = Ok ()"
| "check_unchanged latest ((entry, _) # rest) =
     (case find_row (\<lambda>f. fr_id f = fr_id entry) latest of
        None \<Rightarrow> Err (RevisionConflict (fr_revision entry) 0 None)
      | Some current \<Rightarrow>
          (if fr_revision current \<noteq> fr_revision entry \<or> fr_path current \<noteq> fr_path entry
              \<or> \<not> is_active current
           then Err (RevisionConflict (fr_revision entry) (fr_revision current) (fr_content_hash current))
           else check_unchanged latest rest))"

fun plan_moves ::
  "core_env \<Rightarrow> vault_core \<Rightarrow> vault_context \<Rightarrow> vault_path \<Rightarrow> mutation_request \<Rightarrow>
     (file_record \<times> vault_path) list \<Rightarrow> (file_record \<times> core_payload) list core" where
  "plan_moves e c ctx source rq [] = return_x []"
| "plan_moves e c ctx source rq ((entry, target) # rest) =
     bind_x (db_get (get_any_by_path ctx target)) (\<lambda>destination_record.
       if (case destination_record of Some f \<Rightarrow> is_active f | None \<Rightarrow> False) then throw_x AlreadyExists
       else
         bind_x (fresh e) (\<lambda>oid.
         bind_x (lift_x (with_archive e c destination_record
           (moved_payload e entry target
              (if fr_path entry = source then rq else rq\<lparr>rq_idempotency_key := None\<rparr>) oid))) (\<lambda>pl.
         bind_x (plan_moves e c ctx source rq rest) (\<lambda>ops. return_x ((entry, pl) # ops)))))"

fun roll_back_all :: "core_env \<Rightarrow> vault_context \<Rightarrow> string \<Rightarrow> operation_id list \<Rightarrow> unit core" where
  "roll_back_all e ctx reason [] = return_x ()"
| "roll_back_all e ctx reason (oid # oids) =
     bind_x (roll_back e ctx oid reason) (\<lambda>_. roll_back_all e ctx reason oids)"

fun prepare_moves ::
  "core_env \<Rightarrow> vault_context \<Rightarrow> operation_id list \<Rightarrow> (file_record \<times> core_payload) list \<Rightarrow>
     operation_id list core" where
  "prepare_moves e ctx prepared [] = return_x prepared"
| "prepare_moves e ctx prepared ((entry, pl) # rest) =
     bind_x (lift_x (prepare_input pl (cp_operation_id pl) (Some (fr_path entry)) None
               (fr_content_hash entry) (fr_content_hash entry))) (\<lambda>input.
     try_x (db_write e (\<lambda>now. prepare_operation now ctx input)) (\<lambda>r.
       case r of
         Err err \<Rightarrow>
           bind_x (roll_back_all e ctx ''directory move prepare failed'' prepared)
             (\<lambda>_. throw_x (VState err))
       | Ok _ \<Rightarrow> prepare_moves e ctx (prepared @ [cp_operation_id pl]) rest))"

fun commit_moves ::
  "core_env \<Rightarrow> vault_core \<Rightarrow> vault_context \<Rightarrow> vault_storage \<Rightarrow> vault_path \<Rightarrow> mutation_result option \<Rightarrow>
     (file_record \<times> core_payload) list \<Rightarrow> mutation_result option core" where
  "commit_moves e c ctx st source root_result [] = return_x root_result"
| "commit_moves e c ctx st source root_result ((entry, pl) # rest) =
     bind_x (moved_metadata e st pl) (\<lambda>pl1.
     bind_x (update_payload e ctx pl1) (\<lambda>_.
     bind_x (file_committed e ctx (cp_operation_id pl1) (fr_content_hash entry)) (\<lambda>_.
     bind_x (commit_payload e c ctx pl1) (\<lambda>result.
       commit_moves e c ctx st source (if fr_path entry = source then Some result else root_result) rest))))"

definition move_directory_entry ::
  "core_env \<Rightarrow> vault_core \<Rightarrow> vault_context \<Rightarrow> vault_path \<Rightarrow> vault_path \<Rightarrow> mutation_request \<Rightarrow>
     mutation_result core" where
  "move_directory_entry e c ctx source destination rq =
     (if starts_with destination source
      then throw_x (VDomain (PreconditionFailed ''directory cannot move into its own subtree''))
      else
        let st = core_storage c ctx in
        bind_x (db_get (\<lambda>db. filter (\<lambda>f. fr_path f = source \<or> starts_with (fr_path f) source)
                               (list_active_entries ctx db))) (\<lambda>entries.
        bind_x (lift_x (ok_or NotFound (find_row (\<lambda>f. fr_path f = source) entries))) (\<lambda>root.
        if fr_entry_type root \<noteq> EntryDirectory
        then throw_x (VInvalidPatch ''directory move source is not a directory'')
        else
          bind_x (lift_x (map_targets e source destination entries)) (\<lambda>mapped.
          bind_x (db_get (list_active_entries ctx)) (\<lambda>latest.
          bind_x (lift_x (check_unchanged latest mapped)) (\<lambda>_.
          bind_x (create_parents e st destination False) (\<lambda>_.
          bind_x (storage_absent e st destination False) (\<lambda>absent.
          if \<not> absent then throw_x AlreadyExists
          else
            bind_x (plan_moves e c ctx source rq mapped) (\<lambda>operations.
            bind_x (prepare_moves e ctx [] operations) (\<lambda>prepared.
            bind_x (catch_x (inject c JournalPrepared) (\<lambda>err.
              bind_x (roll_back_all e ctx ''directory move was not admitted'' prepared)
                (\<lambda>_. throw_x err))) (\<lambda>_.
            bind_x (catch_x (fs_call (move_entry (en_x e) st source destination MustNotExist)) (\<lambda>err.
              bind_x (roll_back_all e ctx ''directory move failed'' prepared) (\<lambda>_. throw_x err))) (\<lambda>_.
            bind_x (inject c RenameCommitted) (\<lambda>_.
            bind_x (commit_moves e c ctx st source None operations) (\<lambda>root_result.
            bind_x (inject c MetadataCommittedPhase) (\<lambda>_.
              lift_x (ok_or NotFound root_result))))))))))))))))"

definition core_move_entry ::
  "core_env \<Rightarrow> vault_core \<Rightarrow> vault_context \<Rightarrow> vault_path \<Rightarrow> vault_path \<Rightarrow> revision \<Rightarrow>
     mutation_request \<Rightarrow> mutation_result core" where
  "core_move_entry e c ctx source destination expected rq =
     guarded ctx True (
       if source = destination
       then throw_x (VDomain (PreconditionFailed ''move source and destination match''))
       else
         bind_x (require_active_file ctx source) (\<lambda>initial.
         bind_x (require_revision initial expected) (\<lambda>_.
           if fr_entry_type initial = EntryDirectory
           then move_directory_entry e c ctx source destination rq
           else move_file_entry e c ctx source destination expected rq)))"

definition delete_entry_core ::
  "core_env \<Rightarrow> vault_core \<Rightarrow> vault_context \<Rightarrow> vault_path \<Rightarrow> revision \<Rightarrow> bool \<Rightarrow> string \<Rightarrow>
     mutation_request \<Rightarrow> mutation_result core" where
  \<comment> \<open>the common body of \<open>delete\<close> and \<open>delete_managed_inner\<close>\<close>
  "delete_entry_core e c ctx p expected managed action rq =
     (let st = core_storage c ctx in
      bind_x (core_history e c ctx) (\<lambda>hs.
      bind_x (require_active_file ctx p) (\<lambda>current.
      bind_x (require_revision current expected) (\<lambda>_.
      bind_x (verify_current e st current managed) (\<lambda>_.
      bind_x (capture_history e st hs current managed) (\<lambda>history_hash.
      bind_x (fresh e) (\<lambda>oid.
      bind_x (now_millis e) (\<lambda>deleted_at.
      let pl = core_payload_new oid (fr_id current) (fr_entry_type current) OpDelete p (Some p) (Some p)
            (Some expected) False (fr_content_hash current)
            (coalesce history_hash (fr_content_hash current)) (fr_size current) (fr_modified_at current)
            (fr_identity current) (Some deleted_at) rq action
            (event_for e ''FileDeleted'' (fr_id current) p OpDelete) in
      bind_x (lookup_idempotency e ctx (rq_idempotency_key rq) pl) (\<lambda>known.
        case known of
          Some result \<Rightarrow> return_x result
        | None \<Rightarrow>
            bind_x (lift_x (prepare_input pl oid (Some p) None (fr_content_hash current) None)) (\<lambda>input.
            bind_x (prepare e ctx input) (\<lambda>_.
            bind_x (inject c JournalPrepared) (\<lambda>_.
            bind_x (fs_call (delete (en_x e) st p managed)) (\<lambda>_.
            bind_x (inject c RenameCommitted) (\<lambda>_.
            bind_x (file_committed e ctx oid (fr_content_hash current)) (\<lambda>_.
            bind_x (commit_payload e c ctx pl) (\<lambda>result.
            bind_x (inject c MetadataCommittedPhase) (\<lambda>_. return_x result)))))))))))))))))"

definition core_delete ::
  "core_env \<Rightarrow> vault_core \<Rightarrow> vault_context \<Rightarrow> vault_path \<Rightarrow> revision \<Rightarrow> mutation_request \<Rightarrow>
     mutation_result core" where
  "core_delete e c ctx p expected rq =
     guarded ctx True (delete_entry_core e c ctx p expected False ''file.delete'' rq)"

definition delete_managed_inner ::
  "core_env \<Rightarrow> vault_core \<Rightarrow> vault_context \<Rightarrow> vault_path \<Rightarrow> revision \<Rightarrow> mutation_request \<Rightarrow>
     mutation_result core" where
  "delete_managed_inner e c ctx p expected rq =
     bind_x (lift_x (map_err VDomain (validate_managed_path (x_lower (en_x e)) (vc_path_policy c) p))) (\<lambda>_.
       delete_entry_core e c ctx p expected True ''managed.file.delete'' rq)"

definition delete_managed ::
  "core_env \<Rightarrow> vault_core \<Rightarrow> vault_context \<Rightarrow> vault_path \<Rightarrow> revision \<Rightarrow> mutation_request \<Rightarrow>
     mutation_result core" where
  "delete_managed e c ctx p expected rq = guarded ctx True (delete_managed_inner e c ctx p expected rq)"

section \<open>Reads\<close>

record core_metadata =
  cm_metadata :: file_metadata
  cm_etag :: string

definition show_i64 :: "int \<Rightarrow> string" where
  "show_i64 v = (if v < 0 then ''-'' else []) @ decimal_digits 20 (nat \<bar>v\<bar>)"

definition filesystem_etag :: "file_metadata \<Rightarrow> string" where
  "filesystem_etag m =
     ''fs-'' @ entry_kind_as_str (fm_kind m) @ ''-'' @
     show_i64 (case fm_modified_at m of Some t \<Rightarrow> t | None \<Rightarrow> 0) @ ''-'' @
     (case fm_identity m of
        Some (device, inode) \<Rightarrow> show_u64 device @ ''-'' @ show_u64 inode
      | None \<Rightarrow> ''unknown'')"

definition core_metadata_of :: "file_record option \<Rightarrow> file_metadata \<Rightarrow> core_metadata" where
  "core_metadata_of f m =
     \<lparr>cm_metadata = m, cm_etag = (case f of Some r \<Rightarrow> file_etag_tag r | None \<Rightarrow> filesystem_etag m)\<rparr>"

definition core_read ::
  "core_env \<Rightarrow> vault_core \<Rightarrow> vault_context \<Rightarrow> vault_path \<Rightarrow>
     (bool \<times> file_record \<times> file_metadata \<times> read_file) core" where
  "core_read e c ctx p =
     kept_guard ctx False (
       let st = core_storage c ctx in
       bind_x (require_active_file ctx p) (\<lambda>file.
       bind_x (verify_current e st file False) (\<lambda>m.
       bind_x (fs_call (open_read (en_x e) st p False)) (\<lambda>rf.
         return_x (file, m, rf)))))"

definition read_managed ::
  "core_env \<Rightarrow> vault_core \<Rightarrow> vault_context \<Rightarrow> vault_path \<Rightarrow>
     (bool \<times> file_record \<times> file_metadata \<times> read_file) core" where
  "read_managed e c ctx p =
     kept_guard ctx False (
       bind_x (lift_x (map_err VDomain (validate_managed_path (x_lower (en_x e)) (vc_path_policy c) p))) (\<lambda>_.
       bind_x (require_active_file ctx p) (\<lambda>file.
       bind_x (fs_call (open_read (en_x e) (core_storage c ctx) p True)) (\<lambda>rf.
         return_x (file, rf_metadata rf, rf)))))"

definition read_revision ::
  "core_env \<Rightarrow> vault_core \<Rightarrow> vault_context \<Rightarrow> vault_path \<Rightarrow> revision \<Rightarrow>
     (bool \<times> file_record \<times> file_revision_record \<times> read_file) core" where
  "read_revision e c ctx p rv =
     kept_guard ctx False (
       bind_x (db_get (get_any_by_path ctx p)) (\<lambda>found.
       bind_x (lift_x (ok_or NotFound found)) (\<lambda>file.
       bind_x (db_read (get_revision ctx (fr_id file) rv)) (\<lambda>rr.
       bind_x (lift_x (ok_or NotFound rr)) (\<lambda>row.
       bind_x (lift_x (revision_blob_hash row)) (\<lambda>hash.
       bind_x (core_history e c ctx) (\<lambda>hs.
       bind_x (fs_call (history_open (en_x e) hs hash)) (\<lambda>rf.
         return_x (file, row, rf)))))))))"

definition core_stat ::
  "core_env \<Rightarrow> vault_core \<Rightarrow> vault_context \<Rightarrow> vault_path \<Rightarrow> (file_record \<times> file_metadata) core" where
  "core_stat e c ctx p =
     guarded ctx False (
       bind_x (require_active_file ctx p) (\<lambda>file.
       bind_x (verify_current e (core_storage c ctx) file False) (\<lambda>m. return_x (file, m))))"

definition metadata ::
  "core_env \<Rightarrow> vault_core \<Rightarrow> vault_context \<Rightarrow> vault_path \<Rightarrow> core_metadata core" where
  "metadata e c ctx p =
     guarded ctx False (
       bind_x (fs_call (stat (en_x e) (core_storage c ctx) p False)) (\<lambda>m.
       bind_x (if is_root p then return_x None else db_get (get_active ctx p)) (\<lambda>file.
         return_x (core_metadata_of file m))))"

fun with_records :: "vault_context \<Rightarrow> file_metadata list \<Rightarrow> core_metadata list core" where
  "with_records ctx [] = return_x []"
| "with_records ctx (m # ms) =
     bind_x (case fm_path m of Some q \<Rightarrow> db_get (get_active ctx q) | None \<Rightarrow> return_x None) (\<lambda>file.
     bind_x (with_records ctx ms) (\<lambda>rest. return_x (core_metadata_of file m # rest)))"

definition core_list_directory ::
  "core_env \<Rightarrow> vault_core \<Rightarrow> vault_context \<Rightarrow> vault_path \<Rightarrow> core_metadata list core" where
  "core_list_directory e c ctx p =
     guarded ctx False (
       bind_x (fs_call (list_directory (en_x e) (core_storage c ctx) p)) (with_records ctx))"

definition managed_file_hash ::
  "core_env \<Rightarrow> vault_core \<Rightarrow> vault_context \<Rightarrow> vault_path \<Rightarrow> string option core" where
  "managed_file_hash e c ctx p =
     guarded ctx False (
       bind_x (lift_x (map_err VDomain (validate_managed_path (x_lower (en_x e)) (vc_path_policy c) p))) (\<lambda>_.
       bind_x (storage_absent e (core_storage c ctx) p True) (\<lambda>absent.
         if absent then return_x None
         else bind_x (fs_call (hash_file (en_x e) (core_storage c ctx) p True)) (\<lambda>(_, hash).
                return_x (Some (as_hex hash))))))"

definition core_history_list ::
  "vault_context \<Rightarrow> vault_path \<Rightarrow> file_revision_record list core" where
  "core_history_list ctx p =
     guarded ctx False (
       bind_x (db_get (get_any_by_path ctx p)) (\<lambda>found.
       bind_x (lift_x (ok_or NotFound found)) (\<lambda>file.
         db_get (list_revisions ctx (fr_id file)))))"

section \<open>Staged uploads\<close>

record staged_write =
  sg_guard :: bool
  sg_storage :: vault_storage
  sg_history :: history_store
  sg_atomic :: "atomic_write option"
  sg_payload :: core_payload
  sg_cleanup :: "(atomic_write \<times> operation_id) option"  \<comment> \<open>the task that \<open>drop\<close> has spawned\<close>

definition put_create ::
  "core_env \<Rightarrow> vault_storage \<Rightarrow> vault_path \<Rightarrow> bool \<Rightarrow>
     (file_operation \<times> revision option \<times> bool \<times> string option) core" where
  "put_create e st p may_create =
     (if \<not> may_create then throw_x NotFound
      else bind_x (storage_absent e st p False) (\<lambda>absent.
             if \<not> absent then throw_x ExternalMismatch else return_x (OpCreate, None, True, None)))"

definition put_intent ::
  "core_env \<Rightarrow> vault_storage \<Rightarrow> vault_path \<Rightarrow> bool \<Rightarrow> bool \<Rightarrow> file_record option \<Rightarrow>
     (file_operation \<times> revision option \<times> bool \<times> string option) core" where
  \<comment> \<open>what a PUT means for the current entry\<close>
  "put_intent e st p may_create create_new target =
     (case target of
        Some f \<Rightarrow>
          (if is_active f then
             (if create_new then throw_x AlreadyExists
              else if fr_entry_type f \<noteq> EntryFile
              then throw_x (VInvalidPatch ''target is not a regular file'')
              else bind_x (verify_current e st f False) (\<lambda>_.
                     return_x (OpReplace, Some (fr_revision f), False, fr_content_hash f)))
           else put_create e st p may_create)
      | None \<Rightarrow> put_create e st p may_create)"

definition begin_put ::
  "core_env \<Rightarrow> vault_core \<Rightarrow> vault_context \<Rightarrow> vault_path \<Rightarrow> bool \<Rightarrow> bool \<Rightarrow> mutation_request \<Rightarrow>
     staged_write core" where
  "begin_put e c ctx p may_create create_new rq =
     bind_x (kept_guard ctx True (
       let st = core_storage c ctx in
       bind_x (core_history e c ctx) (\<lambda>hs.
       bind_x (db_get (get_any_by_path ctx p)) (\<lambda>target.
       bind_x (put_intent e st p may_create create_new target) (\<lambda>(op, expected, absent, prior).
       bind_x (fresh e) (\<lambda>oid.
       bind_x (create_parents e st p False) (\<lambda>_.
       bind_x (tick (en_simple e)) (\<lambda>simple.
       bind_x (lift_x (map_err VStorage (temporary_path_for (en_x e) st p False simple))) (\<lambda>temporary.
       bind_x (fresh_or e target) (\<lambda>fid.
       bind_x (now_millis e) (\<lambda>now.
       let pl = core_payload_new oid fid EntryFile op p (map_option fr_path target) (Some p) expected absent
             None None 0 now None None (rq\<lparr>rq_idempotency_key := None\<rparr>)
             (if op = OpCreate then ''file.create'' else ''file.replace'')
             (event_for e (event_type_for op) fid p op) in
       bind_x (lift_x (prepare_input pl oid (Some p) (Some (as_path temporary)) prior None)) (\<lambda>input.
       bind_x (prepare e ctx input) (\<lambda>_.
       bind_x (inject c JournalPrepared) (\<lambda>_.
       bind_x (failing e ctx oid ''staged write could not start''
         (on_fs (begin_atomic_write_at (en_x e) st p (destination_policy_for absent) temporary False))) (\<lambda>aw.
         return_x (st, hs, aw, pl)))))))))))))))) (\<lambda>(guard, st, hs, aw, pl).
       return_x \<lparr>sg_guard = guard, sg_storage = st, sg_history = hs, sg_atomic = Some aw,
                 sg_payload = pl, sg_cleanup = None\<rparr>)"

type_synonym 'a staged = "(core_world \<times> staged_write, vault_error, 'a) prog"

definition on_world :: "'a core \<Rightarrow> 'a staged" where
  "on_world m s = (let (r, w) = m (fst s) in (r, (w, snd s)))"

definition set_staged :: "(staged_write \<Rightarrow> staged_write) \<Rightarrow> unit staged" where
  "set_staged f = modify_x (\<lambda>(w, s). (w, f s))"

definition on_atomic :: "(storage_error \<Rightarrow> vault_error) \<Rightarrow> 'a aw_io \<Rightarrow> 'a staged" where
  \<comment> \<open>a call on \<open>self.atomic.as_mut().ok_or(VaultError::InFlight)?\<close>\<close>
  "on_atomic h m s =
     (case sg_atomic (snd s) of
        None \<Rightarrow> (Err InFlight, s)
      | Some aw \<Rightarrow>
          (let (r, (h', aw')) = m (cw_host (fst s), aw)
           in (map_err h r, ((fst s)\<lparr>cw_host := h'\<rparr>, (snd s)\<lparr>sg_atomic := Some aw'\<rparr>))))"

definition staged_write_chunk :: "bytes \<Rightarrow> unit staged" where
  "staged_write_chunk bs = on_atomic VStorage (write_chunk bs)"

definition staged_abort :: "core_env \<Rightarrow> vault_context \<Rightarrow> unit staged" where
  "staged_abort e ctx =
     bind_x (gets_x snd) (\<lambda>s.
     bind_x (ignore_x (on_atomic VStorage abort)) (\<lambda>_.
     bind_x (set_staged (\<lambda>s. s\<lparr>sg_atomic := None\<rparr>)) (\<lambda>_.
       on_world (roll_back e ctx (cp_operation_id (sg_payload s)) ''staged write aborted''))))"

definition staged_commit_steps ::
  "core_env \<Rightarrow> vault_core \<Rightarrow> vault_context \<Rightarrow> mutation_result staged" where
  "staged_commit_steps e c ctx =
     bind_x (on_atomic VStorage (finish (en_x e))) (\<lambda>progress.
     bind_x (set_staged (\<lambda>s. s\<lparr>sg_payload := (sg_payload s)
        \<lparr>cp_content_hash := Some (as_hex (wp_content_hash progress)),
         cp_history_blob_hash := Some (as_hex (wp_content_hash progress)),
         cp_size := wp_size progress\<rparr>\<rparr>)) (\<lambda>_.
     bind_x (gets_x (sg_payload \<circ> snd)) (\<lambda>pl1.
     bind_x (on_world (update_payload e ctx pl1)) (\<lambda>_.
     bind_x (on_world (inject c TempFileWritten)) (\<lambda>_.
     bind_x (catch_x (on_atomic VStorage sync) (\<lambda>err.
        bind_x (staged_abort e ctx) (\<lambda>_. throw_x err))) (\<lambda>_.
     bind_x (on_world (inject c FileFsynced)) (\<lambda>_.
     bind_x (gets_x (sg_atomic \<circ> snd)) (\<lambda>taken.
     bind_x (set_staged (\<lambda>s. s\<lparr>sg_atomic := None\<rparr>)) (\<lambda>_.
     bind_x (lift_x (ok_or InFlight taken)) (\<lambda>aw.
     bind_x (on_world (try_x (on_fs (commit (en_x e) aw)) (\<lambda>r.
        case r of
          Ok receipt \<Rightarrow> return_x receipt
        | Err err \<Rightarrow> bind_x (roll_back e ctx (cp_operation_id pl1) ''staged canonical commit failed'')
                      (\<lambda>_. throw_x (VStorage err))))) (\<lambda>receipt.
     let pl2 = pl1\<lparr>cp_modified_at := fm_modified_at (wr_metadata receipt),
           cp_filesystem_identity := identity_string (wr_metadata receipt)\<rparr> in
     bind_x (set_staged (\<lambda>s. s\<lparr>sg_payload := pl2\<rparr>)) (\<lambda>_.
     bind_x (gets_x snd) (\<lambda>s.
       on_world (
         bind_x (update_payload e ctx pl2) (\<lambda>_.
         bind_x (inject c RenameCommitted) (\<lambda>_.
         bind_x (file_committed e ctx (cp_operation_id pl2) (cp_content_hash pl2)) (\<lambda>_.
         bind_x (ensure_history_blob e (sg_storage s) (sg_history s) (cp_path pl2) (cp_content_hash pl2) False) (\<lambda>_.
         bind_x (commit_payload e c ctx pl2) (\<lambda>result.
         bind_x (inject c MetadataCommittedPhase) (\<lambda>_. return_x result))))))))))))))))))))"

definition staged_drop :: "bool \<Rightarrow> unit staged" where
  \<comment> \<open>\<open>drop\<close> only spawns the cleanup, when a runtime is there to run it (\<open>alive\<close>); dropping the
     fields then gives the admission back\<close>
  "staged_drop alive =
     bind_x (gets_x snd) (\<lambda>s.
     bind_x (set_staged (\<lambda>s. s\<lparr>sg_atomic := None,
        sg_cleanup := (if alive then map_option (\<lambda>aw. (aw, cp_operation_id (sg_payload s))) (sg_atomic s)
                       else None)\<rparr>)) (\<lambda>_.
       on_world (modify_x (drop_operation (sg_guard s)))))"

definition staged_cleanup :: "core_env \<Rightarrow> vault_context \<Rightarrow> unit staged" where
  \<comment> \<open>the spawned task: it runs at any later time, without an admission\<close>
  "staged_cleanup e ctx =
     bind_x (gets_x (sg_cleanup \<circ> snd)) (\<lambda>task.
       case task of
         None \<Rightarrow> return_x ()
       | Some (aw, oid) \<Rightarrow>
           bind_x (set_staged (\<lambda>s. s\<lparr>sg_cleanup := None\<rparr>)) (\<lambda>_.
             on_world (
               bind_x (ignore_x (on_fs (with_write aw abort))) (\<lambda>_.
                 roll_back e ctx oid ''staged write dropped''))))"

definition staged_commit ::
  "core_env \<Rightarrow> vault_core \<Rightarrow> vault_context \<Rightarrow> bool \<Rightarrow> mutation_result staged" where
  \<comment> \<open>\<open>commit\<close> owns the write and drops it at every exit\<close>
  "staged_commit e c ctx alive =
     try_x (staged_commit_steps e c ctx) (\<lambda>r.
       bind_x (staged_drop alive) (\<lambda>_. lift_x r))"

end
