(* ===== verification/Recovery.thy ===== *)
theory Recovery
  imports Vault_Core
begin

text \<open>
  Crash recovery (\<^verbatim>\<open>recover\<close> and its helpers in crates/vault-core/src/lib.rs): every journal entry
  left \<open>prepared\<close> or \<open>file_committed\<close> is compared with the file system and rolled back, finalised,
  superseded by a later create or handed to an operator.
\<close>

datatype recovery_outcome = RecRolledBack | RecFinalized | RecSuperseded | RecNeedsReview

record recovery_report =
  rep_rolled_back :: nat
  rep_finalized :: nat
  rep_superseded :: nat
  rep_needs_review :: nat

record recovery_failure =
  rf_source :: vault_error
  rf_operation_id :: "operation_id option"
  rf_path :: "vault_path option"

section \<open>Old or new state\<close>

definition path_matches ::
  "core_env \<Rightarrow> vault_core \<Rightarrow> vault_storage \<Rightarrow> vault_path \<Rightarrow> string option \<Rightarrow> bool core" where
  "path_matches e c st p hash =
     (let managed = managed_path e c p in
      try_x (on_fs (stat (en_x e) st p managed)) (\<lambda>r.
        case r of
          Err err \<Rightarrow> (if storage_not_found err then return_x False else throw_x (map_storage err))
        | Ok m \<Rightarrow>
            (case hash of
               None \<Rightarrow> return_x True
             | Some h \<Rightarrow>
                 bind_x (fs_call (hash_file (en_x e) st p managed)) (\<lambda>(_, actual).
                   if as_hex actual = (case strip_prefix ''sha256:'' h of Some t \<Rightarrow> t | None \<Rightarrow> h)
                   then bind_x (fs_call (stat (en_x e) st p managed)) (\<lambda>m'.
                          return_x (fm_size m = fm_size m'))
                   else return_x False))))"

definition is_delete_payload :: "core_payload \<Rightarrow> bool" where
  "is_delete_payload pl \<longleftrightarrow>
     cp_operation pl = file_operation_as_str OpDelete \<or>
     (cp_operation pl = file_operation_as_str OpExternalChange \<and> cp_deleted_at pl \<noteq> None)"

definition recovery_state ::
  "core_env \<Rightarrow> vault_core \<Rightarrow> vault_storage \<Rightarrow> journal_record \<Rightarrow> core_payload \<Rightarrow> bool \<Rightarrow> bool core" where
  "recovery_state e c st j pl new =
     (if cp_operation pl = file_operation_as_str OpMove then
        bind_x (lift_x (ok_or NeedsReview (jr_source_path j))) (\<lambda>source.
        bind_x (lift_x (ok_or NeedsReview (jr_destination_path j))) (\<lambda>destination.
        bind_x (path_matches e c st source (cp_content_hash pl)) (\<lambda>source_exists.
        bind_x (path_matches e c st destination (cp_content_hash pl)) (\<lambda>destination_exists.
          return_x (if new then \<not> source_exists \<and> destination_exists
                    else source_exists \<and> \<not> destination_exists)))))
      else
        bind_x (lift_x (ok_or NeedsReview (coalesce (jr_destination_path j) (jr_source_path j)))) (\<lambda>target.
        bind_x (path_matches e c st target (cp_content_hash pl)) (\<lambda>exists.
          if new then return_x (if is_delete_payload pl then \<not> exists else exists)
          else if is_delete_payload pl then return_x exists
          else (case jr_prior_hash j of
                  Some prior \<Rightarrow> path_matches e c st target (Some prior)
                | None \<Rightarrow> return_x (\<not> exists)))))"

section \<open>One journal entry\<close>

definition remove_journal_temporary :: "vault_storage \<Rightarrow> journal_record \<Rightarrow> unit core" where
  "remove_journal_temporary st j =
     (case jr_temp_path j of
        None \<Rightarrow> return_x ()
      | Some q \<Rightarrow>
          bind_x (lift_x (map_err VStorage (temporary_path_parse q))) (\<lambda>t.
            fs_call (remove_temporary st t)))"

definition review :: "core_env \<Rightarrow> vault_context \<Rightarrow> operation_id \<Rightarrow> string \<Rightarrow> unit core" where
  "review e ctx oid reason = mapErr_x VState (db_write e (\<lambda>now. mark_needs_review now ctx oid reason))"

definition destination_exists_reason :: string where
  "destination_exists_reason = ''recovery metadata destination already exists''"

definition review_existing :: "core_env \<Rightarrow> vault_context \<Rightarrow> operation_id \<Rightarrow> vault_error \<Rightarrow> 'a core" where
  "review_existing e ctx oid err =
     bind_x (review e ctx oid destination_exists_reason) (\<lambda>_. throw_x err)"

definition supersede_call ::
  "core_env \<Rightarrow> vault_context \<Rightarrow> bool \<Rightarrow> supersede_create_witness \<Rightarrow> supersede_create_result core" where
  "supersede_call e ctx reviewed wt =
     bind_x (fresh e) (\<lambda>aid.
       mapErr_x VState (db_write e (\<lambda>now.
         supersede_replayed_create_inner (x_uuid_str (en_x e)) (sha256_hex (en_x e)) aid now ctx wt reviewed)))"

definition adjudicate_existing ::
  "core_env \<Rightarrow> vault_core \<Rightarrow> vault_context \<Rightarrow> vault_storage \<Rightarrow> journal_record \<Rightarrow> vault_path \<Rightarrow>
     recovery_outcome core" where
  \<comment> \<open>the branch \<open>Err(VaultError::AlreadyExists)\<close> of the metadata commit\<close>
  "adjudicate_existing e c ctx st j p =
     (case jr_prior_file_id j of
        None \<Rightarrow> review_existing e ctx (jr_id j) AlreadyExists
      | Some prior \<Rightarrow>
          bind_x (db_get (get_active ctx p)) (\<lambda>active.
            case active of
              None \<Rightarrow> review_existing e ctx (jr_id j) AlreadyExists
            | Some replacement \<Rightarrow>
                try_x (on_fs (hash_file (en_x e) st p (managed_path e c p))) (\<lambda>r.
                  case r of
                    Err err \<Rightarrow> review_existing e ctx (jr_id j) (map_storage err)
                  | Ok (_, hash) \<Rightarrow>
                      bind_x (supersede_call e ctx False
                        \<lparr>sw_operation_id = jr_id j, sw_path = p, sw_prior_file_id = prior,
                         sw_replacement_file_id = fr_id replacement,
                         sw_replacement_revision = fr_revision replacement,
                         sw_physical_hash = as_hex hash\<rparr>) (\<lambda>result.
                        if result = NotProven then review_existing e ctx (jr_id j) AlreadyExists
                        else return_x RecSuperseded))))"

definition finalize ::
  "core_env \<Rightarrow> vault_core \<Rightarrow> vault_context \<Rightarrow> vault_storage \<Rightarrow> history_store \<Rightarrow> journal_record \<Rightarrow>
     core_payload \<Rightarrow> recovery_outcome core" where
  \<comment> \<open>the branch of an entry whose new state is proved\<close>
  "finalize e c ctx st hs j pl =
     bind_x (remove_journal_temporary st j) (\<lambda>_.
     bind_x (if jr_state j = Prepared then file_committed e ctx (jr_id j) (cp_content_hash pl)
             else return_x ()) (\<lambda>_.
     bind_x (if cp_content_hash pl \<noteq> None \<and> cp_operation pl \<noteq> file_operation_as_str OpDelete
             then ensure_history_blob e st hs (cp_path pl) (cp_content_hash pl)
                    (managed_path e c (cp_path pl))
             else return_x ()) (\<lambda>_.
     try_x (commit_payload e c ctx pl) (\<lambda>r.
       case r of
         Ok _ \<Rightarrow> return_x RecFinalized
       | Err (VState (InvalidInput _)) \<Rightarrow>
           bind_x (review e ctx (jr_id j) ''recovery metadata commit was not provable'')
             (\<lambda>_. return_x RecNeedsReview)
       | Err AlreadyExists \<Rightarrow> adjudicate_existing e c ctx st j (cp_path pl)
       | Err err \<Rightarrow> throw_x err))))"

definition recover_one ::
  "core_env \<Rightarrow> vault_core \<Rightarrow> vault_context \<Rightarrow> vault_storage \<Rightarrow> history_store \<Rightarrow> journal_record \<Rightarrow>
     recovery_outcome core" where
  "recover_one e c ctx st hs j =
     bind_x (lift_x (ok_or NeedsReview (jr_payload j))) (\<lambda>pl.
     bind_x (recovery_state e c st j pl False) (\<lambda>old.
     bind_x (recovery_state e c st j pl True) (\<lambda>new.
       if old \<and> \<not> new then
         bind_x (remove_journal_temporary st j) (\<lambda>_.
         bind_x (mapErr_x VState (db_write e (\<lambda>now. mark_rolled_back now ctx (jr_id j)
                   (Some ''recovered before canonical commit'')))) (\<lambda>_. return_x RecRolledBack))
       else if new then finalize e c ctx st hs j pl
       else bind_x (review e ctx (jr_id j) ''canonical old/new state is ambiguous'')
              (\<lambda>_. return_x RecNeedsReview))))"

section \<open>All of them\<close>

definition in_prefix :: "vault_path \<Rightarrow> vault_path \<Rightarrow> bool" where
  "in_prefix path_prefix p \<longleftrightarrow>
     path_text p = path_text path_prefix \<or>
     (case strip_prefix (path_text path_prefix) (path_text p) of
        None \<Rightarrow> False | Some suf \<Rightarrow> prefix ''/'' suf)"

definition some_in_prefix :: "vault_path \<Rightarrow> vault_path option \<Rightarrow> bool" where
  "some_in_prefix path_prefix q = (case q of None \<Rightarrow> False | Some p \<Rightarrow> in_prefix path_prefix p)"

definition journal_touches_path_prefix :: "journal_record \<Rightarrow> vault_path \<Rightarrow> bool" where
  "journal_touches_path_prefix j path_prefix \<longleftrightarrow>
     some_in_prefix path_prefix (jr_source_path j) \<or> some_in_prefix path_prefix (jr_destination_path j) \<or>
     (case jr_payload j of
        Some pl \<Rightarrow>
          in_prefix path_prefix (cp_path pl) \<or> some_in_prefix path_prefix (cp_path_before pl) \<or>
          some_in_prefix path_prefix (cp_path_after pl) \<or>
          some_in_prefix path_prefix (cp_tombstone_archive_path pl) \<or>
          (cp_operation pl = file_operation_as_str OpMove \<and>
           (cp_path_before pl = None \<or> cp_path_after pl = None))
      | None \<Rightarrow> jr_source_path j = None \<or> jr_destination_path j = None)"

fun count_outcome :: "recovery_outcome \<Rightarrow> recovery_report \<Rightarrow> recovery_report" where
  "count_outcome RecRolledBack r = r\<lparr>rep_rolled_back := rep_rolled_back r + 1\<rparr>"
| "count_outcome RecFinalized r = r\<lparr>rep_finalized := rep_finalized r + 1\<rparr>"
| "count_outcome RecSuperseded r = r\<lparr>rep_superseded := rep_superseded r + 1\<rparr>"
| "count_outcome RecNeedsReview r = r\<lparr>rep_needs_review := rep_needs_review r + 1\<rparr>"

fun recover_journals ::
  "core_env \<Rightarrow> vault_core \<Rightarrow> vault_context \<Rightarrow> vault_storage \<Rightarrow> history_store \<Rightarrow> vault_path option \<Rightarrow>
     recovery_report \<Rightarrow> journal_record list \<Rightarrow> (core_world, recovery_failure, recovery_report) prog" where
  "recover_journals e c ctx st hs path_prefix rep [] = return_x rep"
| "recover_journals e c ctx st hs path_prefix rep (j # js) =
     (if (case path_prefix of Some q \<Rightarrow> \<not> journal_touches_path_prefix j q | None \<Rightarrow> False)
      then recover_journals e c ctx st hs path_prefix rep js
      else
        bind_x (mapErr_x (\<lambda>err. \<lparr>rf_source = err, rf_operation_id = Some (jr_id j),
                   rf_path = coalesce (jr_destination_path j) (jr_source_path j)\<rparr>)
                 (recover_one e c ctx st hs j)) (\<lambda>outcome.
          recover_journals e c ctx st hs path_prefix (count_outcome outcome rep) js))"

definition general_failure :: "vault_error \<Rightarrow> recovery_failure" where
  "general_failure err = \<lparr>rf_source = err, rf_operation_id = None, rf_path = None\<rparr>"

definition recover_inner_detailed_for_path_prefix ::
  "core_env \<Rightarrow> vault_core \<Rightarrow> vault_context \<Rightarrow> vault_path option \<Rightarrow>
     (core_world, recovery_failure, recovery_report) prog" where
  "recover_inner_detailed_for_path_prefix e c ctx path_prefix =
     bind_x (mapErr_x general_failure (core_history e c ctx)) (\<lambda>hs.
     bind_x (mapErr_x general_failure (db_get (list_incomplete ctx))) (\<lambda>js.
       recover_journals e c ctx (core_storage c ctx) hs path_prefix
         \<lparr>rep_rolled_back = 0, rep_finalized = 0, rep_superseded = 0, rep_needs_review = 0\<rparr> js))"

definition recover_inner :: "core_env \<Rightarrow> vault_core \<Rightarrow> vault_context \<Rightarrow> recovery_report core" where
  "recover_inner e c ctx =
     mapErr_x rf_source (recover_inner_detailed_for_path_prefix e c ctx None)"

definition recover :: "core_env \<Rightarrow> vault_core \<Rightarrow> vault_context \<Rightarrow> recovery_report core" where
  "recover e c ctx = guarded ctx True (recover_inner e c ctx)"

section \<open>Recovery under maintenance\<close>

record recovery_permit =
  pm_same_gate :: bool
  pm_token :: "(bool \<times> maintenance_lease) option"  \<comment> \<open>whether it belongs to the gate, and its lease\<close>

definition validate_maintenance_permit :: "recovery_permit \<Rightarrow> unit core" where
  "validate_maintenance_permit permit =
     bind_x (gets_x cw_gate) (\<lambda>g.
       if \<not> pm_same_gate permit
          \<or> \<not> (case pm_token permit of
                 None \<Rightarrow> False | Some (belongs, lease) \<Rightarrow> belongs \<and> token_is_valid lease g)
       then throw_x UnderMaintenance else return_x ())"

definition validate_exclusive_permit :: "bool \<Rightarrow> recovery_permit \<Rightarrow> unit core" where
  \<comment> \<open>\<open>exclusive\<close> is \<open>StateStore::is_offline_exclusive\<close>\<close>
  "validate_exclusive_permit exclusive permit =
     (if exclusive then (if pm_same_gate permit then return_x () else throw_x UnderMaintenance)
      else validate_maintenance_permit permit)"

definition recover_during_maintenance_detailed ::
  "core_env \<Rightarrow> vault_core \<Rightarrow> vault_context \<Rightarrow> recovery_permit \<Rightarrow> vault_path option \<Rightarrow>
     (core_world, recovery_failure, recovery_report) prog" where
  \<comment> \<open>with a prefix it is \<open>recover_during_maintenance_detailed_for_path_prefix\<close>\<close>
  "recover_during_maintenance_detailed e c ctx permit path_prefix =
     (if \<not> pm_same_gate permit then throw_x (general_failure UnderMaintenance)
      else
        bind_x (mapErr_x general_failure (validate_registered_context ctx False)) (\<lambda>_.
          recover_inner_detailed_for_path_prefix e c ctx path_prefix))"

definition recover_during_maintenance ::
  "core_env \<Rightarrow> vault_core \<Rightarrow> vault_context \<Rightarrow> recovery_permit \<Rightarrow> recovery_report core" where
  "recover_during_maintenance e c ctx permit =
     (if \<not> pm_same_gate permit then throw_x UnderMaintenance
      else bind_x (validate_registered_context ctx False) (\<lambda>_. recover_inner e c ctx))"

definition journal_canonical_paths :: "journal_record \<Rightarrow> core_payload \<Rightarrow> vault_path list" where
  "journal_canonical_paths j pl =
     map VaultPath (remdups_adj (sort (map path_text
       (cp_path pl # concat (map (case_option [] (\<lambda>p. [p]))
          [jr_source_path j, jr_destination_path j, cp_path_before pl, cp_path_after pl,
           cp_tombstone_archive_path pl])))))"

definition journal_is_entirely_within_path_prefix ::
  "journal_record \<Rightarrow> core_payload \<Rightarrow> vault_path \<Rightarrow> bool" where
  "journal_is_entirely_within_path_prefix j pl path_prefix \<longleftrightarrow>
     journal_canonical_paths j pl \<noteq> [] \<and> list_all (in_prefix path_prefix) (journal_canonical_paths j pl)"

definition journal_path_in_prefix :: "journal_record \<Rightarrow> vault_path \<Rightarrow> vault_path option" where
  "journal_path_in_prefix j path_prefix =
     coalesce (find_row (in_prefix path_prefix)
         (concat (map (case_option [] (\<lambda>p. [p])) [jr_source_path j, jr_destination_path j])))
       (Option.bind (jr_payload j) (\<lambda>pl.
          if in_prefix path_prefix (cp_path pl) then Some (cp_path pl)
          else cp_tombstone_archive_path pl))"

definition failure_at :: "operation_id \<Rightarrow> vault_path option \<Rightarrow> vault_error \<Rightarrow> recovery_failure" where
  "failure_at oid p err = \<lparr>rf_source = err, rf_operation_id = Some oid, rf_path = p\<rparr>"

fun check_manifest ::
  "core_env \<Rightarrow> vault_context \<Rightarrow> vault_storage \<Rightarrow> vault_path list \<Rightarrow> operation_id \<Rightarrow> vault_path list \<Rightarrow>
     (core_world, recovery_failure, unit) prog" where
  "check_manifest e ctx st manifest oid [] = return_x ()"
| "check_manifest e ctx st manifest oid (p # ps) =
     bind_x (mapErr_x (failure_at oid (Some p)) (storage_absent e st p True)) (\<lambda>absent.
     bind_x (mapErr_x (failure_at oid (Some p)) (db_get (get_active ctx p))) (\<lambda>active.
       if (\<not> absent \<or> active \<noteq> None) \<and> p \<notin> set manifest
       then throw_x (failure_at oid (Some p) NeedsReview)
       else check_manifest e ctx st manifest oid ps))"

definition discard_temporary ::
  "journal_record \<Rightarrow> core_payload \<Rightarrow> vault_path option \<Rightarrow>
     recovery_failure + (operation_id \<times> vault_path option \<times> temporary_path) list" where
  "discard_temporary j pl rp =
     (case jr_temp_path j of
        None \<Rightarrow> Ok []
      | Some q \<Rightarrow>
          bind_r (map_err (failure_at (jr_id j) rp \<circ> VStorage) (temporary_path_parse q)) (\<lambda>t.
            if parent (as_path t) \<noteq> parent (cp_path pl) then Err (failure_at (jr_id j) rp NeedsReview)
            else Ok [(jr_id j, rp, t)]))"

fun plan_discard ::
  "core_env \<Rightarrow> vault_context \<Rightarrow> vault_storage \<Rightarrow> vault_path \<Rightarrow> vault_path list \<Rightarrow> journal_record list \<Rightarrow>
     (core_world, recovery_failure,
      journal_record list \<times> (operation_id \<times> vault_path option \<times> temporary_path) list) prog" where
  "plan_discard e ctx st path_prefix manifest [] = return_x ([], [])"
| "plan_discard e ctx st path_prefix manifest (j # js) =
     (if \<not> journal_touches_path_prefix j path_prefix then plan_discard e ctx st path_prefix manifest js
      else
        let rp = journal_path_in_prefix j path_prefix in
        bind_x (lift_x (ok_or (failure_at (jr_id j) rp NeedsReview) (jr_payload j))) (\<lambda>pl.
        if file_operation_as_str (jr_operation j) \<noteq> cp_operation pl
           \<or> \<not> journal_is_entirely_within_path_prefix j pl path_prefix
           \<or> \<not> (cp_entry_type pl = ''file'' \<or> cp_entry_type pl = ''directory'')
        then throw_x (failure_at (jr_id j) rp NeedsReview)
        else
          bind_x (when_x (cp_entry_type pl = entry_type_as_str EntryFile)
            (check_manifest e ctx st manifest (jr_id j) (journal_canonical_paths j pl))) (\<lambda>_.
          bind_x (lift_x (discard_temporary j pl rp)) (\<lambda>ts.
          bind_x (plan_discard e ctx st path_prefix manifest js) (\<lambda>(ds, us).
            return_x (j # ds, ts @ us))))))"

fun remove_temporaries ::
  "vault_storage \<Rightarrow> (operation_id \<times> vault_path option \<times> temporary_path) list \<Rightarrow>
     (core_world, recovery_failure, unit) prog" where
  "remove_temporaries st [] = return_x ()"
| "remove_temporaries st ((oid, p, t) # ts) =
     bind_x (mapErr_x (failure_at oid p) (fs_call (remove_temporary st t))) (\<lambda>_. remove_temporaries st ts)"

fun first_by_id :: "operation_id list \<Rightarrow> journal_record list \<Rightarrow> journal_record list" where
  \<comment> \<open>\<open>journals.retain(|journal| seen.insert(journal.id))\<close>\<close>
  "first_by_id seen [] = []"
| "first_by_id seen (j # js) =
     (if jr_id j \<in> set seen then first_by_id seen js else j # first_by_id (jr_id j # seen) js)"

definition discard_legacy_memory_journals_during_maintenance ::
  "core_env \<Rightarrow> vault_core \<Rightarrow> vault_context \<Rightarrow> bool \<Rightarrow> recovery_permit \<Rightarrow> vault_path list \<Rightarrow>
     (core_world, recovery_failure, nat) prog" where
  "discard_legacy_memory_journals_during_maintenance e c ctx exclusive permit manifest =
     bind_x (mapErr_x general_failure (validate_exclusive_permit exclusive permit)) (\<lambda>_.
     bind_x (mapErr_x general_failure (validate_registered_context ctx False)) (\<lambda>_.
     bind_x (lift_x (map_err (\<lambda>_. general_failure (VInvalidPatch ''legacy memory namespace is invalid''))
       (parse_path (x_nfc (en_x e)) (path_text (reserved_root (vc_path_policy c)) @ ''/memory'')))) (\<lambda>path_prefix.
     bind_x (mapErr_x general_failure (db_get (list_incomplete ctx))) (\<lambda>open_rows.
     bind_x (mapErr_x general_failure (db_get (list_needs_review ctx))) (\<lambda>reviewed.
     let journals = first_by_id [] (sort_key jr_created_at (open_rows @ reviewed)); st = core_storage c ctx in
     bind_x (plan_discard e ctx st path_prefix manifest journals) (\<lambda>(discardable, temporaries).
     bind_x (remove_temporaries st temporaries) (\<lambda>_.
     bind_x (mapErr_x (\<lambda>err. case discardable of
               [] \<Rightarrow> general_failure (VState err)
             | j # _ \<Rightarrow> failure_at (jr_id j) (journal_path_in_prefix j path_prefix) (VState err))
         (db_write e (\<lambda>now. discard_legacy_memory_journals now ctx discardable))) (\<lambda>_.
       return_x (length discardable)))))))))"

section \<open>Reviewed creates\<close>

definition repair_candidate ::
  "core_env \<Rightarrow> vault_core \<Rightarrow> vault_context \<Rightarrow> vault_storage \<Rightarrow> vault_path option \<Rightarrow> journal_record \<Rightarrow>
     supersede_create_witness option core" where
  \<comment> \<open>\<open>None\<close>: the loop continues with the next row\<close>
  "repair_candidate e c ctx st path_prefix j =
     (if (case path_prefix of Some q \<Rightarrow> \<not> journal_touches_path_prefix j q | None \<Rightarrow> False)
         \<or> jr_operation j \<noteq> OpCreate \<or> jr_error j \<noteq> Some destination_exists_reason
      then return_x None
      else (case (jr_payload j, jr_prior_file_id j) of
        (Some pl, Some prior) \<Rightarrow>
          bind_x (db_get (get_active ctx (cp_path pl))) (\<lambda>active.
            case active of
              None \<Rightarrow> return_x None
            | Some replacement \<Rightarrow>
                (let managed = managed_path e c (cp_path pl) in
                 bind_x (case jr_temp_path j of
                     None \<Rightarrow> return_x True
                   | Some q \<Rightarrow>
                       (case temporary_path_parse q of
                          Err _ \<Rightarrow> return_x False
                        | Ok t \<Rightarrow> storage_absent e st (as_path t) managed)) (\<lambda>clean.
                 if \<not> clean then return_x None
                 else
                   bind_x (storage_absent e st (cp_path pl) managed) (\<lambda>absent.
                   if absent then return_x None
                   else
                     try_x (on_fs (hash_file (en_x e) st (cp_path pl) managed)) (\<lambda>r.
                       case r of
                         Err _ \<Rightarrow> return_x None
                       | Ok (_, hash) \<Rightarrow>
                           return_x (Some \<lparr>sw_operation_id = jr_id j, sw_path = cp_path pl,
                             sw_prior_file_id = prior, sw_replacement_file_id = fr_id replacement,
                             sw_replacement_revision = fr_revision replacement,
                             sw_physical_hash = as_hex hash\<rparr>))))))
      | _ \<Rightarrow> return_x None))"

fun repair_journals ::
  "core_env \<Rightarrow> vault_core \<Rightarrow> vault_context \<Rightarrow> vault_storage \<Rightarrow> vault_path option \<Rightarrow> nat \<Rightarrow>
     journal_record list \<Rightarrow> nat core" where
  "repair_journals e c ctx st path_prefix repaired [] = return_x repaired"
| "repair_journals e c ctx st path_prefix repaired (j # js) =
     bind_x (repair_candidate e c ctx st path_prefix j) (\<lambda>wt.
       case wt of
         None \<Rightarrow> repair_journals e c ctx st path_prefix repaired js
       | Some v \<Rightarrow>
           bind_x (supersede_call e ctx True v) (\<lambda>result.
             repair_journals e c ctx st path_prefix
               (if result = NotProven then repaired else repaired + 1) js))"

definition repair_reviewed_replayed_creates_during_maintenance ::
  "core_env \<Rightarrow> vault_core \<Rightarrow> vault_context \<Rightarrow> bool \<Rightarrow> recovery_permit \<Rightarrow> vault_path option \<Rightarrow> nat core" where
  "repair_reviewed_replayed_creates_during_maintenance e c ctx exclusive permit path_prefix =
     bind_x (validate_exclusive_permit exclusive permit) (\<lambda>_.
     bind_x (validate_registered_context ctx False) (\<lambda>_.
     bind_x (db_get (list_needs_review ctx)) (\<lambda>js.
       repair_journals e c ctx (core_storage c ctx) path_prefix 0 js)))"

end
