(* ===== verification/Storage_Scan.thy ===== *)
theory Storage_Scan
  imports Storage "HOL-Library.Multiset"
begin

text \<open>
  The bounded scan of a content root (\<^verbatim>\<open>walk_entries\<close> and \<^verbatim>\<open>walk_managed_entries\<close> of
  crates/storage-fs/src/lib.rs). The channel is the list of the metadata sent so far, part of the
  state, because a scan that fails has already delivered what it found before; the consumer is
  taken to listen until the end. The stack holds the directories still to be read, the top first.
  A directory is read through the entry found in its parent: nothing writes the tree during a scan.
\<close>

record scan_summary =
  scan_files_seen :: nat
  scan_directories_seen :: nat
  unsafe_entries_skipped :: nat

type_synonym 'a scan_io = "(host \<times> file_metadata list, storage_error, 'a) prog"

definition scan_call :: "'a io \<Rightarrow> 'a scan_io" where
  "scan_call m s = (let (r, h) = m (fst s) in (r, (h, snd s)))"

definition send :: "file_metadata \<Rightarrow> unit scan_io" where
  "send m = modify_x (\<lambda>(h, out). (h, out @ [m]))"

datatype scan_class = ScanSkip | ScanUnsafe | ScanVisit vault_path string

definition relative_name :: "string \<Rightarrow> string \<Rightarrow> string" where
  "relative_name relative name = (if relative = [] then name else relative @ ''/'' @ name)"

definition classify :: "externals \<Rightarrow> vault_storage \<Rightarrow> bool \<Rightarrow> string \<Rightarrow> string \<Rightarrow> scan_class" where
  \<comment> \<open>the checks on the name, before the metadata is read\<close>
  "classify x st include_managed relative name =
     (if \<not> x_utf8 x name then ScanUnsafe
      else (case parse_path (x_nfc x) (relative_name relative name) of
              Err _ \<Rightarrow> ScanUnsafe
            | Ok p \<Rightarrow>
                (if is_reserved (x_lower x) (vs_path_policy st) p \<noteq> include_managed then ScanSkip
                 else ScanVisit p (relative_name relative name))))"

definition scan_safe :: "vault_storage \<Rightarrow> node \<Rightarrow> bool" where
  "scan_safe st n \<longleftrightarrow> is_ok (validate_entry (fs_policy (vs_options st)) (entry_kind_coarse n))"

definition skip_unsafe :: "scan_summary \<Rightarrow> scan_summary" where
  "skip_unsafe s = s\<lparr>unsafe_entries_skipped := unsafe_entries_skipped s + 1\<rparr>"

definition count_entry :: "entry_kind \<Rightarrow> scan_summary \<Rightarrow> scan_summary" where
  "count_entry kind s =
     (if kind = Directory then s\<lparr>scan_directories_seen := scan_directories_seen s + 1\<rparr>
      else if kind = RegularFile then s\<lparr>scan_files_seen := scan_files_seen s + 1\<rparr> else s)"

fun scan_entries ::
  "externals \<Rightarrow> vault_storage \<Rightarrow> bool \<Rightarrow> string \<Rightarrow> scan_summary \<Rightarrow> (string \<times> node) list \<Rightarrow>
     scan_summary scan_io" where
  "scan_entries x st inc relative s [] = return_x s"
| "scan_entries x st inc relative s ((name, n) # es) =
     (case classify x st inc relative name of
        ScanUnsafe \<Rightarrow> scan_entries x st inc relative (skip_unsafe s) es
      | ScanSkip \<Rightarrow> scan_entries x st inc relative s es
      | ScanVisit p _ \<Rightarrow>
          bind_x (scan_call (call_std ''read Vault entry metadata'' (sys_entry_metadata n))) (\<lambda>m.
            if \<not> scan_safe st m then scan_entries x st inc relative (skip_unsafe s) es
            else
              bind_x (send (metadata_of (Some p) (entry_kind_coarse m) m)) (\<lambda>_.
                scan_entries x st inc relative (count_entry (entry_kind_coarse m) s) es)))"

fun pushed_directories ::
  "externals \<Rightarrow> vault_storage \<Rightarrow> bool \<Rightarrow> string \<Rightarrow> (string \<times> node) list \<Rightarrow> (string \<times> node) list" where
  \<comment> \<open>what the loop over the entries pushes, in its order\<close>
  "pushed_directories x st inc relative [] = []"
| "pushed_directories x st inc relative ((name, n) # es) =
     (case classify x st inc relative name of
        ScanVisit _ r \<Rightarrow>
          (if scan_safe st n \<and> is_dir n then (r, n) # pushed_directories x st inc relative es
           else pushed_directories x st inc relative es)
      | _ \<Rightarrow> pushed_directories x st inc relative es)"

fun entries_of :: "node \<Rightarrow> (string \<times> node) list" where
  "entries_of (DirNode _ es) = es"
| "entries_of _ = []"

definition sys_list :: "node \<Rightarrow> (host, errno, (string \<times> node) list) prog" where
  "sys_list n = simple_call (\<lambda>h. (if is_dir n then Ok (entries_of n) else Err NOTDIR, h))"

lemma sort_key_total: "sum_list (map f (sort_key k xs)) = (sum_list (map f xs) :: nat)"
  by (metis mset_map mset_sort sum_mset_sum_list)

lemma pushed_total:
  "sum_list (map (Suc \<circ> size \<circ> snd) (pushed_directories x st inc relative es)) \<le> sum_list (map (Suc \<circ> size \<circ> snd) es)"
  by (induction es) (auto split: scan_class.splits prod.splits)

lemma entries_smaller: "sum_list (map (Suc \<circ> size \<circ> snd) (entries_of n)) < Suc (size n)"
proof (cases n)
  case (DirNode a es)
  have "sum_list (map (Suc \<circ> size \<circ> snd) es) \<le> size_list (size_prod (\<lambda>_. 0) size) es"
    by (induction es) (auto simp: comp_def)
  then show ?thesis by (simp add: DirNode)
qed simp_all

function walk_directories ::
  "externals \<Rightarrow> vault_storage \<Rightarrow> bool \<Rightarrow> (string \<times> node) list \<Rightarrow> scan_summary \<Rightarrow> scan_summary scan_io" where
  "walk_directories x st inc [] s = return_x s"
| "walk_directories x st inc ((relative, n) # stack) s =
     bind_x (scan_call (call_std ''enumerate Vault directory'' (sys_list n))) (\<lambda>_.
     bind_x (scan_entries x st inc relative s (sort_key fst (entries_of n))) (\<lambda>s'.
       walk_directories x st inc
         (rev (pushed_directories x st inc relative (sort_key fst (entries_of n))) @ stack) s'))"
  by pat_completeness auto
termination
proof (relation "measure (\<lambda>(x, st, inc, stack, s). sum_list (map (Suc \<circ> size \<circ> snd) stack))")
  fix x st inc relative n stack s s'
  have "sum_list (map (Suc \<circ> size \<circ> snd) (pushed_directories x st inc relative (sort_key fst (entries_of n)))) < Suc (size n)"
    using pushed_total [of x st inc relative "sort_key fst (entries_of n)"]
      sort_key_total [of "Suc \<circ> size \<circ> snd" fst "entries_of n"] entries_smaller [of n] by linarith
  then show "((x, st, inc, rev (pushed_directories x st inc relative (sort_key fst (entries_of n))) @ stack, s'),
      x, st, inc, (relative, n) # stack, s) \<in> measure (\<lambda>(x, st, inc, stack, s). sum_list (map (Suc \<circ> size \<circ> snd) stack))"
    by (simp add: rev_map [symmetric] sum_list_rev)
qed simp

definition walk_entries_with_policy :: "externals \<Rightarrow> vault_storage \<Rightarrow> bool \<Rightarrow> scan_summary scan_io" where
  "walk_entries_with_policy x st include_managed =
     bind_x (scan_call (ensure_root st)) (\<lambda>_.
     bind_x (gets_x (\<lambda>(h, _). host_at h (vs_root st) [])) (\<lambda>root.
       walk_directories x st include_managed
         (case root of Some n \<Rightarrow> [([], n)] | None \<Rightarrow> [])
         \<lparr>scan_files_seen = 0, scan_directories_seen = 0, unsafe_entries_skipped = 0\<rparr>))"

end
