(* ===== verification/Reconcile.thy ===== *)
theory Reconcile
  imports Vault_Core Storage_Scan
begin

text \<open>
  Reconciliation of a content root with the database (\<^verbatim>\<open>reconcile\<close>, the \<^verbatim>\<open>import_external\<close> functions
  and \<^verbatim>\<open>retire_managed_file\<close> of crates/vault-core/src/lib.rs): files that were created, changed, renamed
  or deleted behind the service become revisions. The scan runs in its own task; here it is run
  first and its entries are then taken in order, which is the same because importing never writes
  canonical bytes.
\<close>

record reconciliation_report =
  entries_seen :: nat
  files_seen :: nat
  directories_seen :: nat
  unchanged :: nat
  imported :: nat
  moved_count :: nat
  deleted_count :: nat
  unsafe_skipped :: nat
  missing_deletes_skipped :: bool

definition same_as_record :: "file_record \<Rightarrow> file_metadata \<Rightarrow> string \<Rightarrow> bool" where
  "same_as_record f m hash \<longleftrightarrow>
     fr_entry_type f = EntryFile \<and> fr_size f = fm_size m \<and> fr_content_hash f = Some hash \<and>
     fr_identity f = identity_string m"

definition system_request :: "actor \<Rightarrow> mutation_request" where
  "system_request a =
     \<lparr>rq_actor = a, rq_source_plane = PlaneReconciliation, rq_idempotency_key = None\<rparr>"

definition import_external_file ::
  "core_env \<Rightarrow> vault_core \<Rightarrow> vault_context \<Rightarrow> vault_path \<Rightarrow> file_metadata \<Rightarrow> content_hash \<Rightarrow> actor \<Rightarrow>
     bool \<Rightarrow> unit core" where
  "import_external_file e c ctx p m hash actor managed =
     bind_x (db_get (get_any_by_path ctx p)) (\<lambda>current.
     let active = (case current of Some f \<Rightarrow> is_active f | None \<Rightarrow> False);
         event_type = (case current of None \<Rightarrow> ''FileCreated''
                       | Some f \<Rightarrow> (if is_active f then ''FileUpdated'' else ''FileRestored''));
         expected = (if active then map_option fr_revision current else None);
         text = as_hex hash in
     bind_x (fresh_or e current) (\<lambda>fid.
       if active \<and> same_as_record (the current) m text then return_x ()
       else
         bind_x (now_millis e) (\<lambda>now.
         bind_x (fresh e) (\<lambda>oid.
         let pl = core_payload_new oid fid EntryFile OpExternalChange p (map_option fr_path current) (Some p)
               expected False (Some text) (Some text) (fm_size m)
               (case fm_modified_at m of Some t \<Rightarrow> t | None \<Rightarrow> now) (identity_string m) None
               (system_request actor)
               (if managed then ''managed.file.external_change'' else ''file.external_change'')
               (event_for e event_type fid p OpExternalChange) in
         bind_x (lift_x (prepare_input pl oid (Some p) None (Option.bind current fr_content_hash) (Some text)))
           (\<lambda>input.
         bind_x (prepare e ctx input) (\<lambda>_.
         bind_x (file_committed e ctx oid (Some text)) (\<lambda>_.
         bind_x (core_history e c ctx) (\<lambda>hs.
         bind_x (ensure_history_blob e (core_storage c ctx) hs p (Some text) managed) (\<lambda>_.
         bind_x (commit_payload e c ctx pl) (\<lambda>_. return_x ()))))))))))"

definition import_external_move ::
  "core_env \<Rightarrow> vault_core \<Rightarrow> vault_context \<Rightarrow> file_record \<Rightarrow> vault_path \<Rightarrow> file_metadata \<Rightarrow>
     content_hash \<Rightarrow> actor \<Rightarrow> unit core" where
  "import_external_move e c ctx current destination m hash actor =
     (let st = core_storage c ctx; text = as_hex hash in
      bind_x (storage_absent e st (fr_path current) False) (\<lambda>absent.
      if \<not> absent then throw_x ExternalMismatch
      else
        bind_x (fs_call (hash_file (en_x e) st destination False)) (\<lambda>(_, observed).
        if observed \<noteq> hash then throw_x ExternalMismatch
        else
          bind_x (fresh e) (\<lambda>oid.
          bind_x (now_millis e) (\<lambda>now.
          let pl = core_payload_new oid (fr_id current) (fr_entry_type current) OpMove destination
                (Some (fr_path current)) (Some destination) (Some (fr_revision current)) True (Some text)
                (Some text) (fm_size m) (case fm_modified_at m of Some t \<Rightarrow> t | None \<Rightarrow> now)
                (identity_string m) None (system_request actor) ''file.external_move''
                (event_for e ''FileMoved'' (fr_id current) destination OpMove) in
          bind_x (lift_x (prepare_input pl oid (Some (fr_path current)) None (fr_content_hash current)
                    (Some text))) (\<lambda>input.
          bind_x (prepare e ctx input) (\<lambda>_.
          bind_x (file_committed e ctx oid (fr_content_hash current)) (\<lambda>_.
          bind_x (commit_payload e c ctx pl) (\<lambda>_. return_x ())))))))))"

definition import_external_delete ::
  "core_env \<Rightarrow> vault_core \<Rightarrow> vault_context \<Rightarrow> vault_path \<Rightarrow> actor \<Rightarrow> bool \<Rightarrow> bool core" where
  "import_external_delete e c ctx p actor managed =
     bind_x (storage_absent e (core_storage c ctx) p managed) (\<lambda>absent.
     if \<not> absent then return_x False
     else
       bind_x (db_get (get_active ctx p)) (\<lambda>found.
         case found of
           None \<Rightarrow> return_x False
         | Some current \<Rightarrow>
             bind_x (fresh e) (\<lambda>oid.
             bind_x (now_millis e) (\<lambda>now.
             let pl = core_payload_new oid (fr_id current) EntryFile OpExternalChange p (Some p) (Some p)
                   (Some (fr_revision current)) False None (fr_content_hash current) 0 now None (Some now)
                   (system_request actor)
                   (if managed then ''managed.file.external_delete'' else ''file.external_delete'')
                   (event_for e ''FileDeleted'' (fr_id current) p OpExternalChange) in
             bind_x (lift_x (prepare_input pl oid (Some p) None (fr_content_hash current) None)) (\<lambda>input.
             bind_x (prepare e ctx input) (\<lambda>_.
             bind_x (file_committed e ctx oid None) (\<lambda>_.
             bind_x (commit_payload e c ctx pl) (\<lambda>_. return_x True))))))))"

section \<open>One pass\<close>

definition move_candidate ::
  "core_env \<Rightarrow> vault_core \<Rightarrow> file_record list \<Rightarrow> string list \<Rightarrow> vault_path \<Rightarrow> file_metadata \<Rightarrow> string \<Rightarrow>
     file_record option" where
  "move_candidate e c known seen p m text =
     find_row (\<lambda>f. fr_entry_type f = EntryFile \<and> fr_content_hash f = Some text \<and>
         fr_identity f = identity_string m \<and> fr_path f \<noteq> p \<and>
         comparison_key (x_lower (en_x e)) (fr_path f) (case_sensitivity (vc_path_policy c)) \<notin> set seen)
       known"

definition moved_here ::
  "core_env \<Rightarrow> vault_core \<Rightarrow> vault_context \<Rightarrow> file_record option \<Rightarrow> file_record option \<Rightarrow> vault_path \<Rightarrow>
     file_record option core" where
  \<comment> \<open>the chain of conditions before \<open>import_external_move\<close>\<close>
  "moved_here e c ctx current candidate p =
     (if current \<noteq> None then return_x None
      else (case candidate of
              None \<Rightarrow> return_x None
            | Some f \<Rightarrow>
                bind_x (db_get (get_any_by_path ctx p)) (\<lambda>any.
                  if any \<noteq> None then return_x None
                  else bind_x (storage_absent e (core_storage c ctx) (fr_path f) False) (\<lambda>absent.
                         return_x (if absent then Some f else None)))))"

definition reconcile_file ::
  "core_env \<Rightarrow> vault_core \<Rightarrow> vault_context \<Rightarrow> actor \<Rightarrow> file_record list \<Rightarrow> string list \<Rightarrow> vault_path \<Rightarrow>
     file_metadata \<Rightarrow> reconciliation_report \<Rightarrow> reconciliation_report core" where
  "reconcile_file e c ctx actor known seen p m rep =
     bind_x (fs_call (hash_file (en_x e) (core_storage c ctx) p False)) (\<lambda>(_, hash).
     bind_x (db_get (get_active ctx p)) (\<lambda>current.
     bind_x (moved_here e c ctx current (move_candidate e c known seen p m (as_hex hash)) p) (\<lambda>candidate.
       case candidate of
         Some f \<Rightarrow>
           bind_x (import_external_move e c ctx f p m hash actor) (\<lambda>_.
             return_x (rep\<lparr>moved_count := moved_count rep + 1\<rparr>))
       | None \<Rightarrow>
           (if (case current of Some f \<Rightarrow> same_as_record f m (as_hex hash) | None \<Rightarrow> False)
            then return_x (rep\<lparr>unchanged := unchanged rep + 1\<rparr>)
            else bind_x (import_external_file e c ctx p m hash actor False) (\<lambda>_.
                   return_x (rep\<lparr>imported := imported rep + 1\<rparr>))))))"

fun reconcile_entries ::
  "core_env \<Rightarrow> vault_core \<Rightarrow> vault_context \<Rightarrow> actor \<Rightarrow> file_record list \<Rightarrow> string list \<Rightarrow>
     reconciliation_report \<Rightarrow> file_metadata list \<Rightarrow> (string list \<times> reconciliation_report) core" where
  "reconcile_entries e c ctx actor known seen rep [] = return_x (seen, rep)"
| "reconcile_entries e c ctx actor known seen rep (m # ms) =
     (let rep1 = rep\<lparr>entries_seen := entries_seen rep + 1\<rparr> in
      case fm_path m of
        None \<Rightarrow> reconcile_entries e c ctx actor known seen rep1 ms
      | Some p \<Rightarrow>
          (let key = comparison_key (x_lower (en_x e)) p (case_sensitivity (vc_path_policy c)) in
           if key \<in> set seen
           then reconcile_entries e c ctx actor known seen
                  (rep1\<lparr>unsafe_skipped := unsafe_skipped rep1 + 1\<rparr>) ms
           else if fm_kind m = Directory
           then reconcile_entries e c ctx actor known (key # seen)
                  (rep1\<lparr>directories_seen := directories_seen rep1 + 1\<rparr>) ms
           else if fm_kind m \<noteq> RegularFile
           then reconcile_entries e c ctx actor known (key # seen)
                  (rep1\<lparr>unsafe_skipped := unsafe_skipped rep1 + 1\<rparr>) ms
           else
             bind_x (reconcile_file e c ctx actor known (key # seen) p m
                       (rep1\<lparr>files_seen := files_seen rep1 + 1\<rparr>)) (\<lambda>rep2.
               reconcile_entries e c ctx actor known (key # seen) rep2 ms)))"

fun reconcile_missing ::
  "core_env \<Rightarrow> vault_core \<Rightarrow> vault_context \<Rightarrow> actor \<Rightarrow> string list \<Rightarrow> reconciliation_report \<Rightarrow>
     file_record list \<Rightarrow> reconciliation_report core" where
  "reconcile_missing e c ctx actor seen rep [] = return_x rep"
| "reconcile_missing e c ctx actor seen rep (f # fs) =
     (if comparison_key (x_lower (en_x e)) (fr_path f) (case_sensitivity (vc_path_policy c)) \<in> set seen
      then reconcile_missing e c ctx actor seen rep fs
      else bind_x (import_external_delete e c ctx (fr_path f) actor False) (\<lambda>gone.
             reconcile_missing e c ctx actor seen
               (if gone then rep\<lparr>deleted_count := deleted_count rep + 1\<rparr> else rep) fs))"

definition run_scan ::
  "core_env \<Rightarrow> vault_storage \<Rightarrow> bool \<Rightarrow> (file_metadata list \<times> (storage_error + scan_summary)) core" where
  \<comment> \<open>what the channel delivered and what the task returned\<close>
  "run_scan e st include_managed w =
     (let (r, (h, out)) = walk_entries_with_policy (en_x e) st include_managed (cw_host w, [])
      in (Ok (out, r), w\<lparr>cw_host := h\<rparr>))"

definition reconcile ::
  "core_env \<Rightarrow> vault_core \<Rightarrow> vault_context \<Rightarrow> actor \<Rightarrow> reconciliation_report core" where
  "reconcile e c ctx actor =
     guarded ctx True (
       bind_x (db_get (\<lambda>db. filter (\<lambda>f. \<not> managed_path e c (fr_path f)) (list_active_entries ctx db))) (\<lambda>known.
       bind_x (run_scan e (core_storage c ctx) False) (\<lambda>(entries, scanned).
       bind_x (reconcile_entries e c ctx actor known []
         \<lparr>entries_seen = 0, files_seen = 0, directories_seen = 0, unchanged = 0, imported = 0,
          moved_count = 0, deleted_count = 0, unsafe_skipped = 0, missing_deletes_skipped = False\<rparr>
         entries) (\<lambda>(seen, rep).
       bind_x (lift_x (map_err map_storage scanned)) (\<lambda>summary.
       let rep1 = rep\<lparr>unsafe_skipped := unsafe_skipped rep + unsafe_entries_skipped summary\<rparr> in
       if unsafe_entries_skipped summary = 0
       then reconcile_missing e c ctx actor seen rep1 known
       else return_x (rep1\<lparr>missing_deletes_skipped := True\<rparr>))))))"

definition list_managed_files ::
  "core_env \<Rightarrow> vault_core \<Rightarrow> vault_context \<Rightarrow> file_metadata list core" where
  "list_managed_files e c ctx =
     guarded ctx False (
       bind_x (run_scan e (core_storage c ctx) True) (\<lambda>(entries, scanned).
       bind_x (lift_x (map_err VStorage scanned)) (\<lambda>_. return_x entries)))"

definition retire_managed_file ::
  "core_env \<Rightarrow> vault_core \<Rightarrow> vault_context \<Rightarrow> vault_path \<Rightarrow> string option \<Rightarrow> actor \<Rightarrow> bool \<Rightarrow> bool core" where
  \<comment> \<open>\<open>same_gate\<close>: the permit was minted for this runtime's gate\<close>
  "retire_managed_file e c ctx p expected actor same_gate =
     (if \<not> same_gate then throw_x UnderMaintenance
      else
        let st = core_storage c ctx in
        bind_x (validate_registered_context ctx False) (\<lambda>_.
        bind_x (lift_x (map_err VDomain (validate_managed_path (x_lower (en_x e)) (vc_path_policy c) p))) (\<lambda>_.
        bind_x (storage_absent e st p True) (\<lambda>absent.
        if absent then import_external_delete e c ctx p actor True
        else
          bind_x (fs_call (hash_file (en_x e) st p True)) (\<lambda>(_, hash).
          bind_x (fs_call (stat (en_x e) st p True)) (\<lambda>m.
          if (case expected of None \<Rightarrow> True
              | Some h \<Rightarrow> (case strip_prefix ''sha256:'' h of Some t \<Rightarrow> t | None \<Rightarrow> h) \<noteq> as_hex hash)
          then throw_x (VDomain (PreconditionFailed ''managed file changed after cleanup inspection''))
          else
            bind_x (import_external_file e c ctx p m hash actor True) (\<lambda>_.
            bind_x (require_active_file ctx p) (\<lambda>file.
            bind_x (delete_managed_inner e c ctx p (fr_revision file)
              \<lparr>rq_actor = actor, rq_source_plane = PlaneSystem, rq_idempotency_key = None\<rparr>) (\<lambda>_.
              return_x True)))))))))"

end
