(* ===== verification/Core_Frame.thy ===== *)
theory Core_Frame
  imports Recovery Reconcile File_Repository
begin

text \<open>
  What every operation of the vault service respects, whatever faults, stops and injected failures
  it meets. The locale \<open>recovery_frame\<close> lists the elementary effects of reads and of recovery (a file-system call,
  a clock reading, a repository transaction that opens no journal entry, an admission bracket), and
  \<open>service_frame\<close> adds the transaction that opens one; a relation that all of them keep is kept by
  every operation. It is interpreted for the refinement of the repository's write
  relation and for the balance of the maintenance gate.
\<close>

section \<open>Elementary effects\<close>

lemma within_prod:
  "(\<And>a b. p = (a, b) \<Longrightarrow> within R (f a b)) \<Longrightarrow> within R (case p of (a, b) \<Rightarrow> f a b)"
  by (cases p) simp

lemma within_run: "within R m \<Longrightarrow> R s (snd (m s))"
  by (simp add: within_def)

text \<open>The transactions that open no journal entry.\<close>

inductive close_write :: "vault_context \<Rightarrow> file_db \<Rightarrow> file_db \<Rightarrow> bool" for ctx where
  c_file_committed: "mark_file_committed now ctx oid h db = Ok (u, db') \<Longrightarrow> close_write ctx db db'"
| c_payload: "update_operation_payload now ctx oid p h db = Ok (u, db') \<Longrightarrow> close_write ctx db db'"
| c_rolled_back: "mark_rolled_back now ctx oid e db = Ok (u, db') \<Longrightarrow> close_write ctx db db'"
| c_needs_review: "mark_needs_review now ctx oid e2 db = Ok (u, db') \<Longrightarrow> close_write ctx db db'"
| c_discard: "discard_legacy_memory_journals now ctx js db = Ok (u, db') \<Longrightarrow> close_write ctx db db'"
| c_commit: "commit_mutation uuid_str sha256 env hook ctx ci db = Ok (res, db') \<Longrightarrow> close_write ctx db db'"
| c_supersede: "supersede_replayed_create_inner uuid_str sha256 aid now ctx w rv db = Ok (sr, db') \<Longrightarrow>
    close_write ctx db db'"

lemma close_repo_write: "close_write ctx db db' \<Longrightarrow> repo_write ctx db db'"
  by (induction rule: close_write.induct) (auto intro: repo_write.intros)

locale recovery_frame = step_order R for R :: "core_world \<Rightarrow> core_world \<Rightarrow> bool" +
  fixes ctx :: vault_context
  assumes keeps_host: "R w (w\<lparr>cw_host := h\<rparr>)"
    and keeps_ticks: "R w (w\<lparr>cw_ticks := t\<rparr>)"
    and keeps_close: "close_write ctx (cw_db w) db \<Longrightarrow> R w (w\<lparr>cw_db := db\<rparr>)"
    and keeps_refusal: "try_start b (cw_gate w) = (None, g) \<Longrightarrow> R w (w\<lparr>cw_gate := g\<rparr>)"
    and keeps_bracket:
      "try_start b (cw_gate w) = (Some k, g) \<Longrightarrow> R (w\<lparr>cw_gate := g\<rparr>) w' \<Longrightarrow> R w (drop_operation k w')"
begin

lemma on_fs_frame: "within R (on_fs m)"
  by (auto intro!: withinI keeps_host simp: on_fs_def split: prod.splits)

lemma tick_frame: "within R (tick f)"
  by (auto intro!: withinI keeps_ticks simp: tick_def)

lemma db_run_frame:
  assumes "\<And>w a db'. act (cw_db w) = Ok (a, db') \<Longrightarrow> R w (w\<lparr>cw_db := db'\<rparr>)"
  shows "within R (db_run act)"
  by (rule withinI) (auto simp: db_run_def step_refl assms split: sum.splits prod.splits)

lemma db_call_frame:
  assumes "\<And>w a db'. act (cw_db w) = Ok (a, db') \<Longrightarrow> R w (w\<lparr>cw_db := db'\<rparr>)"
  shows "within R (db_call act)"
proof (rule withinI)
  fix w
  have faults: "R w (set_faults fs stop w)" for fs stop by (simp add: set_faults_def keeps_host)
  have "within R (db_run act)" using assms by (rule db_run_frame)
  then have act: "R u (snd (db_run act u))" for u by (simp add: within_def)
  have run: "R w (snd (db_run act (set_faults fs stop w)))" for fs stop
    by (rule step_trans [OF faults act])
  show "R w (snd (db_call act w))"
    using faults run act step_refl by (simp add: db_call_def split: list.splits fault.splits)
qed

lemma db_read_frame: "within R (db_call (\<lambda>db. map_sum id (\<lambda>a. (a, db)) (f db)))"
  by (rule db_call_frame) (auto simp: map_sum_def step_refl split: sum.splits)

lemma db_close_frame:
  assumes "\<And>now db a db'. act now db = Ok (a, db') \<Longrightarrow> close_write ctx db db'"
  shows "within R (db_write e act)"
  unfolding db_write_def by (intro within_bind tick_frame db_call_frame) (blast dest: assms intro: keeps_close)

lemmas effects = within_core within_split within_prod on_fs_frame tick_frame db_read_frame

lemma guarded_frame:
  assumes "within R body"
  shows "within R (guarded ctx' b body)"
proof (rule withinI)
  fix w :: core_world
  let ?rest = "bind_x (validate_registered_context ctx' b) (\<lambda>_. body)"
  have rest: "within R ?rest"
    unfolding validate_registered_context_def by (intro effects assms)
  obtain k g where start: "try_start b (cw_gate w) = (k, g)" by (rule prod.exhaust)
  show "R w (snd (guarded ctx' b body w))"
  proof (cases k)
    case None
    then show ?thesis using keeps_refusal start by (simp add: guarded_def start_operation_def bind_x_def)
  next
    case (Some guard)
    let ?w = "w\<lparr>cw_gate := g\<rparr>"
    have "R ?w (snd (?rest ?w))" using rest by (simp add: within_def)
    from keeps_bracket [OF start [unfolded Some] this] start Some show ?thesis
      by (simp add: guarded_def start_operation_def bind_x_def [of "start_operation b"] try_x_def)
  qed
qed

lemma inject_frame: "within R (inject c phase)"
  unfolding inject_def by (intro effects)

lemma file_committed_frame: "within R (file_committed e ctx oid h)"
  unfolding file_committed_def by (intro effects db_close_frame) (rule c_file_committed)

lemma update_payload_frame: "within R (update_payload e ctx pl)"
  unfolding update_payload_def by (intro effects db_close_frame) (rule c_payload)

lemma roll_back_frame: "within R (roll_back e ctx oid reason)"
  unfolding roll_back_def by (intro effects db_close_frame) (rule c_rolled_back)

lemma review_frame: "within R (review e ctx oid reason)"
  unfolding review_def by (intro effects db_close_frame) (rule c_needs_review)

lemma supersede_frame: "within R (supersede_call e ctx reviewed wt)"
  unfolding supersede_call_def by (intro effects db_close_frame) (rule c_supersede)

lemma commit_payload_frame: "within R (commit_payload e c ctx pl)"
proof -
  have "within R (modify_x (\<lambda>w. w\<lparr>cw_ticks := t\<rparr>))" for t
    by (rule withinI) (simp add: keeps_ticks)
  then show ?thesis
    unfolding commit_payload_def by (intro effects db_close_frame) (auto intro: c_commit)
qed

lemmas writes = inject_frame file_committed_frame update_payload_frame roll_back_frame
  review_frame supersede_frame commit_payload_frame guarded_frame

section \<open>Checks and reads\<close>

lemma checks_frame:
  "within R (core_history e c ctx')" "within R (require_active_file ctx' p)" "within R (require_revision f r)"
  "within R (storage_absent e st p managed)" "within R (verify_current e st f managed)"
  "within R (ensure_destination_absent e ctx' st p)" "within R (put_reader e hs n)"
  "within R (capture_history e st hs f managed)" "within R (ensure_history_blob e st hs p h managed)"
  "within R (lookup_idempotency e ctx' key pl)" "within R (validate_registered_context ctx' b)"
  "within R (fresh_or e target)" "within R (signature_payload e p op expected absent rq target)"
  "within R (create_parents e st p managed)" "within R (failing e ctx oid reason (on_fs m))"
  "within R (read_text e n)" "within R (moved_metadata e st pl)"
  unfolding core_history_def require_active_file_def require_revision_def storage_absent_def
    verify_current_def ensure_destination_absent_def put_reader_def capture_history_def
    ensure_history_blob_def lookup_idempotency_def validate_registered_context_def fresh_or_def
    signature_payload_def create_parents_def failing_def read_text_def moved_metadata_def
  by (intro effects writes; auto intro!: effects writes split: idempotency_lookup.splits)+

lemmas steps = effects writes checks_frame

lemma with_records_frame: "within R (with_records ctx' ms)"
  by (induction ms) (simp only: with_records.simps, intro steps)+

lemma reads_frame:
  "within R (core_stat e c ctx' p)" "within R (metadata e c ctx' p)"
  "within R (core_list_directory e c ctx' p)" "within R (managed_file_hash e c ctx' p)"
  "within R (core_history_list ctx' p)"
  unfolding core_stat_def metadata_def core_list_directory_def managed_file_hash_def core_history_list_def
  by (intro steps with_records_frame)+

section \<open>Recovery and repair\<close>

lemma path_matches_frame: "within R (path_matches e c st p h)"
  unfolding path_matches_def Let_def by (intro steps)

lemma recovery_state_frame: "within R (recovery_state e c st j pl new)"
  unfolding recovery_state_def by (intro steps path_matches_frame)

lemma remove_journal_temporary_frame: "within R (remove_journal_temporary st j)"
  unfolding remove_journal_temporary_def by (intro steps)

lemma adjudicate_frame: "within R (adjudicate_existing e c ctx st j p)"
  unfolding adjudicate_existing_def review_existing_def by (intro steps)

lemma finalize_frame: "within R (finalize e c ctx st hs j pl)"
  unfolding finalize_def
  by (intro steps remove_journal_temporary_frame;
      auto intro!: steps adjudicate_frame split: vault_error.splits state_error.splits)

lemma recover_one_frame: "within R (recover_one e c ctx st hs j)"
proof -
  have "within R (db_write e (\<lambda>now. mark_rolled_back now ctx oid reason))" for oid reason
    by (rule db_close_frame) (rule c_rolled_back)
  then show ?thesis unfolding recover_one_def
    by (intro steps recovery_state_frame remove_journal_temporary_frame finalize_frame)
qed

lemma recover_journals_frame: "within R (recover_journals e c ctx st hs q rep js)"
  by (induction js arbitrary: rep) (simp only: recover_journals.simps, intro steps recover_one_frame)+

lemma recover_frame:
  "within R (recover_inner_detailed_for_path_prefix e c ctx q)" "within R (recover e c ctx)"
  "within R (recover_during_maintenance e c ctx permit)"
  "within R (recover_during_maintenance_detailed e c ctx permit q)"
  unfolding recover_inner_detailed_for_path_prefix_def recover_def recover_inner_def
    recover_during_maintenance_def recover_during_maintenance_detailed_def
  by (intro steps recover_journals_frame)+

lemma permit_frame: "within R (validate_exclusive_permit exclusive permit)"
  unfolding validate_exclusive_permit_def validate_maintenance_permit_def by (intro steps)

lemma check_manifest_frame: "within R (check_manifest e ctx st manifest oid ps)"
  by (induction ps) (simp only: check_manifest.simps, intro steps)+

lemma plan_discard_frame: "within R (plan_discard e ctx st q manifest js)"
  by (induction js) (simp only: plan_discard.simps Let_def, intro steps check_manifest_frame)+

lemma remove_temporaries_frame: "within R (remove_temporaries st ts)"
proof (induction ts)
  case (Cons t ts)
  then show ?case by (cases t) (simp only: remove_temporaries.simps, intro steps)
qed (simp only: remove_temporaries.simps steps)

lemma discard_frame:
  "within R (discard_legacy_memory_journals_during_maintenance e c ctx exclusive permit manifest)"
proof -
  have "within R (db_write e (\<lambda>now. discard_legacy_memory_journals now ctx js))" for js
    by (rule db_close_frame) (rule c_discard)
  then show ?thesis unfolding discard_legacy_memory_journals_during_maintenance_def Let_def
    by (intro steps permit_frame plan_discard_frame remove_temporaries_frame)
qed

lemma repair_candidate_frame: "within R (repair_candidate e c ctx st q j)"
  unfolding repair_candidate_def Let_def by (intro steps)

lemma repair_journals_frame: "within R (repair_journals e c ctx st q n js)"
  by (induction js arbitrary: n) (simp only: repair_journals.simps, intro steps repair_candidate_frame)+

lemma repair_frame:
  "within R (repair_reviewed_replayed_creates_during_maintenance e c ctx exclusive permit q)"
  unfolding repair_reviewed_replayed_creates_during_maintenance_def
  by (intro steps permit_frame repair_journals_frame)

end

section \<open>Mutations\<close>

locale service_frame = recovery_frame R ctx for R ctx +
  assumes keeps_prepare:
    "prepare_operation now ctx input (cw_db w) = Ok (j, db) \<Longrightarrow> R w (w\<lparr>cw_db := db\<rparr>)"
begin

lemma prepare_write_frame: "within R (db_write e (\<lambda>now. prepare_operation now ctx input))"
  unfolding db_write_def by (intro within_bind tick_frame db_call_frame) (rule keeps_prepare)

lemma prepare_frame: "within R (prepare e ctx input)"
  unfolding prepare_def by (intro effects prepare_write_frame)

lemmas mutation_steps = prepare_frame steps

lemma admit_target_frame: "within R (admit_target e st p op expected absent managed target)"
  unfolding admit_target_def Let_def by (intro mutation_steps)

lemma write_phase_frame: "within R (write_phase e c ctx st hs p absent managed temporary src pl)"
  unfolding write_phase_def Let_def by (intro mutation_steps)

lemma journalled_write_frame:
  "within R (journalled_write e c ctx st hs p op expected absent managed src rq target)"
  unfolding journalled_write_def Let_def by (intro mutation_steps write_phase_frame)

lemma content_mutation_frame:
  "within R (content_mutation_with_policy e c ctx p op expected absent managed src rq)"
  "within R (content_mutation e c ctx p op expected absent src rq)"
  unfolding content_mutation_def content_mutation_with_policy_def Let_def
  by (intro mutation_steps admit_target_frame journalled_write_frame)+

lemma content_operations_frame:
  "within R (create e c ctx p src rq)" "within R (create_bytes e c ctx p bs rq)"
  "within R (create_managed_bytes e c ctx p bs rq)" "within R (replace_bytes e c ctx p r bs rq)"
  "within R (replace_managed_bytes e c ctx p r bs rq)" "within R (append_bytes_core e c ctx p r bs rq)"
  "within R (patch_unified_diff e c ctx p r diff rq)"
  "within R (core_insert_after_heading e c ctx p r heading text rq)"
  "within R (core_replace_heading_section e c ctx p r heading text rq)"
  "within R (copy e c ctx p q rq)" "within R (core_restore e c ctx p rv r rq)"
  unfolding create_def create_bytes_def create_managed_bytes_def replace_bytes_def replace_managed_bytes_def
    append_bytes_core_def patch_unified_diff_def core_insert_after_heading_def
    core_replace_heading_section_def heading_edit_def copy_def core_restore_def Let_def
  by (intro mutation_steps content_mutation_frame)+

lemma create_directory_frame: "within R (create_directory e c ctx p rq)"
  unfolding create_directory_def Let_def
  by (intro mutation_steps; auto intro!: mutation_steps split: storage_error.splits)

lemma plan_moves_frame: "within R (plan_moves e c ctx' source rq ms)"
proof (induction ms)
  case (Cons m ms)
  then show ?case by (cases m) (simp only: plan_moves.simps, intro mutation_steps)
qed (simp only: plan_moves.simps mutation_steps)

lemma roll_back_all_frame: "within R (roll_back_all e ctx reason oids)"
  by (induction oids) (simp_all only: roll_back_all.simps mutation_steps)

lemma prepare_moves_frame: "within R (prepare_moves e ctx prepared ms)"
proof (induction ms arbitrary: prepared)
  case (Cons m ms)
  then show ?case
    by (cases m) (simp only: prepare_moves.simps, intro mutation_steps prepare_write_frame roll_back_all_frame)
qed (simp only: prepare_moves.simps mutation_steps)

lemma commit_moves_frame: "within R (commit_moves e c ctx st source res ms)"
proof (induction ms arbitrary: res)
  case (Cons m ms)
  then show ?case by (cases m) (simp only: commit_moves.simps, intro mutation_steps)
qed (simp only: commit_moves.simps mutation_steps)

lemma move_frame: "within R (core_move_entry e c ctx source destination r rq)"
proof -
  have "within R (move_file_entry e c ctx source destination r rq)"
    unfolding move_file_entry_def Let_def by (intro mutation_steps)
  moreover have "within R (move_directory_entry e c ctx source destination rq)"
    unfolding move_directory_entry_def Let_def
    by (intro mutation_steps plan_moves_frame prepare_moves_frame roll_back_all_frame commit_moves_frame)
  ultimately show ?thesis unfolding core_move_entry_def by (intro mutation_steps)
qed

lemma delete_frame:
  "within R (core_delete e c ctx p r rq)" "within R (delete_managed_inner e c ctx p r rq)"
  "within R (delete_managed e c ctx p r rq)"
  unfolding core_delete_def delete_managed_def delete_managed_inner_def delete_entry_core_def Let_def
  by (intro mutation_steps)+

lemma import_frame:
  "within R (import_external_file e c ctx p m hash actor managed)"
  "within R (import_external_move e c ctx f p m hash actor)"
  "within R (import_external_delete e c ctx p actor managed)"
  unfolding import_external_file_def import_external_move_def import_external_delete_def Let_def
  by (intro mutation_steps)+

lemma reconcile_file_frame: "within R (reconcile_file e c ctx actor known seen p m rep)"
proof -
  have "within R (moved_here e c ctx current candidate p)" for current candidate
    unfolding moved_here_def by (intro mutation_steps)
  then show ?thesis unfolding reconcile_file_def by (intro mutation_steps import_frame)
qed

lemma reconcile_entries_frame: "within R (reconcile_entries e c ctx actor known seen rep ms)"
  by (induction ms arbitrary: seen rep)
    (simp only: reconcile_entries.simps Let_def, intro mutation_steps reconcile_file_frame)+

lemma reconcile_missing_frame: "within R (reconcile_missing e c ctx actor seen rep fs)"
  by (induction fs arbitrary: rep) (simp only: reconcile_missing.simps, intro mutation_steps import_frame)+

lemma run_scan_frame: "within R (run_scan e st managed)"
  by (rule withinI) (simp add: run_scan_def keeps_host split: prod.splits)

lemma reconcile_frame:
  "within R (reconcile e c ctx actor)" "within R (list_managed_files e c ctx)"
  "within R (retire_managed_file e c ctx p expected actor same_gate)"
  unfolding reconcile_def list_managed_files_def retire_managed_file_def Let_def
  by (intro mutation_steps run_scan_frame reconcile_entries_frame reconcile_missing_frame import_frame delete_frame)+

end

section \<open>Staged uploads\<close>

definition staged_rel ::
  "(core_world \<Rightarrow> core_world \<Rightarrow> bool) \<Rightarrow> core_world \<times> staged_write \<Rightarrow> core_world \<times> staged_write \<Rightarrow> bool" where
  "staged_rel R s s' \<longleftrightarrow> R (fst s) (fst s') \<and> sg_guard (snd s') = sg_guard (snd s)"

sublocale service_frame < staged: step_order "staged_rel R"
  by unfold_locales (auto simp: staged_rel_def intro: step_refl step_trans)

context service_frame
begin

lemma on_world_frame: "within R m \<Longrightarrow> within (staged_rel R) (on_world m)"
  by (auto simp: within_def on_world_def staged_rel_def split: prod.splits) (metis snd_conv)

lemma on_atomic_frame: "within (staged_rel R) (on_atomic h m)"
  by (auto intro!: withinI simp: on_atomic_def staged_rel_def step_refl keeps_host
      split: option.splits prod.splits)

lemma set_staged_frame: "(\<And>s. sg_guard (f s) = sg_guard s) \<Longrightarrow> within (staged_rel R) (set_staged f)"
  by (auto intro!: withinI simp: set_staged_def staged_rel_def step_refl split: prod.splits)

lemmas staged_steps = staged.within_core within_split within_prod on_atomic_frame on_world_frame
  set_staged_frame

lemma staged_abort_frame: "within (staged_rel R) (staged_abort e ctx)"
  unfolding staged_abort_def by (intro staged_steps steps) simp

lemma staged_cleanup_frame: "within (staged_rel R) (staged_cleanup e ctx)"
  unfolding staged_cleanup_def by (intro staged_steps steps) simp

lemma staged_commit_steps_frame: "within (staged_rel R) (staged_commit_steps e c ctx)"
  unfolding staged_commit_steps_def Let_def by (intro staged_steps steps staged_abort_frame) simp_all

end

section \<open>The operations as a transition system\<close>

inductive admitted_op :: "core_env \<Rightarrow> vault_core \<Rightarrow> vault_context \<Rightarrow> core_world \<Rightarrow> core_world \<Rightarrow> bool"
  for e c ctx where
  \<comment> \<open>operations that hold no guard when they return\<close>
  op_create: "admitted_op e c ctx w (snd (create e c ctx p src rq w))"
| op_create_managed: "admitted_op e c ctx w (snd (create_managed_bytes e c ctx p bs rq w))"
| op_replace: "admitted_op e c ctx w (snd (replace_bytes e c ctx p r bs rq w))"
| op_replace_managed: "admitted_op e c ctx w (snd (replace_managed_bytes e c ctx p r bs rq w))"
| op_append: "admitted_op e c ctx w (snd (append_bytes_core e c ctx p r bs rq w))"
| op_patch: "admitted_op e c ctx w (snd (patch_unified_diff e c ctx p r diff rq w))"
| op_insert: "admitted_op e c ctx w (snd (core_insert_after_heading e c ctx p r heading body rq w))"
| op_section: "admitted_op e c ctx w (snd (core_replace_heading_section e c ctx p r heading body rq w))"
| op_copy: "admitted_op e c ctx w (snd (copy e c ctx p q rq w))"
| op_restore: "admitted_op e c ctx w (snd (core_restore e c ctx p rv r rq w))"
| op_directory: "admitted_op e c ctx w (snd (create_directory e c ctx p rq w))"
| op_move: "admitted_op e c ctx w (snd (core_move_entry e c ctx p q r rq w))"
| op_delete: "admitted_op e c ctx w (snd (core_delete e c ctx p r rq w))"
| op_delete_managed: "admitted_op e c ctx w (snd (delete_managed e c ctx p r rq w))"
| op_stat: "admitted_op e c ctx w (snd (core_stat e c ctx p w))"
| op_metadata: "admitted_op e c ctx w (snd (metadata e c ctx p w))"
| op_list: "admitted_op e c ctx w (snd (core_list_directory e c ctx p w))"
| op_hash: "admitted_op e c ctx w (snd (managed_file_hash e c ctx p w))"
| op_history: "admitted_op e c ctx w (snd (core_history_list ctx p w))"
| op_recover: "admitted_op e c ctx w (snd (recover e c ctx w))"
| op_recover_maintenance:
    "admitted_op e c ctx w (snd (recover_during_maintenance_detailed e c ctx permit prefix_path w))"
| op_discard: "admitted_op e c ctx w
    (snd (discard_legacy_memory_journals_during_maintenance e c ctx exclusive permit manifest w))"
| op_repair: "admitted_op e c ctx w
    (snd (repair_reviewed_replayed_creates_during_maintenance e c ctx exclusive permit prefix_path w))"
| op_reconcile: "admitted_op e c ctx w (snd (reconcile e c ctx a w))"
| op_list_managed: "admitted_op e c ctx w (snd (list_managed_files e c ctx w))"
| op_retire: "admitted_op e c ctx w (snd (retire_managed_file e c ctx p expected a same_gate w))"

inductive service_op :: "core_env \<Rightarrow> vault_core \<Rightarrow> vault_context \<Rightarrow> core_world \<Rightarrow> core_world \<Rightarrow> bool"
  for e c ctx where
  op_admitted: "admitted_op e c ctx w w' \<Longrightarrow> service_op e c ctx w w'"
| op_read: "service_op e c ctx w (snd (core_read e c ctx p w))"
| op_read_managed: "service_op e c ctx w (snd (read_managed e c ctx p w))"
| op_read_revision: "service_op e c ctx w (snd (read_revision e c ctx p rv w))"
| op_begin_put: "service_op e c ctx w (snd (begin_put e c ctx p may_create create_new rq w))"
| op_chunk: "service_op e c ctx w (fst (snd (staged_write_chunk bs (w, s))))"
| op_staged_abort: "service_op e c ctx w (fst (snd (staged_abort e ctx (w, s))))"
| op_staged_commit: "service_op e c ctx w (fst (snd (staged_commit e c ctx alive (w, s))))"
| op_staged_drop: "service_op e c ctx w (fst (snd (staged_drop alive (w, s))))"
| op_staged_cleanup: "service_op e c ctx w (fst (snd (staged_cleanup e ctx (w, s))))"
| op_environment: "cw_db w' = cw_db w \<Longrightarrow> service_op e c ctx w w'"
  \<comment> \<open>files edited behind the service, a restart after a stop, other users of the gate\<close>

context service_frame
begin

lemma admitted_frame: "admitted_op e c ctx w w' \<Longrightarrow> R w w'"
  by (induction rule: admitted_op.induct)
    (rule within_run, rule content_operations_frame create_directory_frame move_frame delete_frame
      reads_frame recover_frame discard_frame repair_frame reconcile_frame)+

end

section \<open>The database is only moved by repository transactions\<close>

definition db_refines :: "vault_context \<Rightarrow> core_world \<Rightarrow> core_world \<Rightarrow> bool" where
  "db_refines ctx w w' \<longleftrightarrow> (repo_write ctx)\<^sup>*\<^sup>* (cw_db w) (cw_db w')"

interpretation repo: service_frame "db_refines ctx" ctx for ctx
  by unfold_locales (auto simp: db_refines_def drop_operation_def dest: close_repo_write w_prepare)

lemma repo_modify: "(\<And>w. cw_db (f w) = cw_db w) \<Longrightarrow> within (db_refines ctx) (modify_x f)"
  by (auto intro!: withinI simp: db_refines_def)

lemma repo_start: "within (db_refines ctx) (start_operation b)"
  by (auto intro!: withinI simp: start_operation_def db_refines_def split: prod.splits option.splits)

lemma kept_guard_refines: "within (db_refines ctx) body \<Longrightarrow> within (db_refines ctx) (kept_guard ctx' b body)"
  unfolding kept_guard_def
  by (intro repo.effects repo.checks_frame repo_start repo_modify) (simp_all add: drop_operation_def)

lemma kept_operations_refine:
  "within (db_refines ctx) (core_read e c ctx p)" "within (db_refines ctx) (read_managed e c ctx p)"
  "within (db_refines ctx) (read_revision e c ctx p rv)"
  "within (db_refines ctx) (begin_put e c ctx p may_create create_new rq)"
proof -
  have "within (db_refines ctx) (put_intent e st p may_create create_new target)" for st target
    unfolding put_intent_def put_create_def by (intro repo.steps)
  then show "within (db_refines ctx) (begin_put e c ctx p may_create create_new rq)"
    unfolding begin_put_def Let_def by (intro repo.mutation_steps kept_guard_refines)
qed (unfold core_read_def read_managed_def read_revision_def Let_def, (intro repo.steps kept_guard_refines)+)

lemma staged_refines:
  "within (staged_rel (db_refines ctx)) (staged_write_chunk bs)"
  "within (staged_rel (db_refines ctx)) (staged_drop alive)"
  "within (staged_rel (db_refines ctx)) (staged_commit e c ctx alive)"
proof -
  show drop: "within (staged_rel (db_refines ctx)) (staged_drop alive)"
    unfolding staged_drop_def by (intro repo.staged_steps repo_modify) (simp_all add: drop_operation_def)
  show "within (staged_rel (db_refines ctx)) (staged_commit e c ctx alive)"
    unfolding staged_commit_def by (intro repo.staged_steps repo.staged_commit_steps_frame drop)
qed (unfold staged_write_chunk_def, rule repo.on_atomic_frame)

lemma staged_fst: "within (staged_rel R) m \<Longrightarrow> R w (fst (snd (m (w, s))))"
  by (simp add: within_def staged_rel_def)

lemma service_op_refines: "service_op e c ctx w w' \<Longrightarrow> db_refines ctx w w'"
proof (induction rule: service_op.induct)
  case (op_admitted w w')
  then show ?case by (rule repo.admitted_frame)
next
  case (op_environment w' w)
  then show ?case by (simp add: db_refines_def)
qed (simp_all add: kept_operations_refine [THEN within_run] staged_fst staged_refines
      repo.staged_abort_frame repo.staged_cleanup_frame)

lemma service_run_refines: "(service_op e c ctx)\<^sup>*\<^sup>* w w' \<Longrightarrow> (repo_write ctx)\<^sup>*\<^sup>* (cw_db w) (cw_db w')"
  by (induction rule: rtranclp_induct)
    (auto dest!: service_op_refines simp: db_refines_def intro: rtranclp_trans)

lemma repo_run_ok: "(repo_write ctx)\<^sup>*\<^sup>* db db' \<Longrightarrow> db_ok db \<Longrightarrow> db_ok db'"
  by (induction rule: rtranclp_induct) (auto intro: repo_write_ok)

text \<open>A world with one registered Vault and an empty database.\<close>

definition example_core_env :: core_env where
  "example_core_env =
     \<lparr>en_x = example_externals, en_clock = int, en_uuid = (\<lambda>n. word_of_nat (1000 + n)),
      en_simple = (\<lambda>n. ''7'')\<rparr>"

definition example_core :: vault_core where
  "example_core =
     \<lparr>vc_history_root = ''/srv/h'', vc_path_policy = path_policy_default,
      vc_storage_options = storage_options_default, vc_failure = (\<lambda>_ _. None)\<rparr>"

definition example_world :: "fault list \<Rightarrow> maintenance_state \<Rightarrow> core_world" where
  "example_world faults g =
     \<lparr>cw_host = example_host faults, cw_db = example_db0, cw_gate = g, cw_ticks = 0\<rparr>"

definition example_request :: mutation_request where
  "example_request = \<lparr>rq_actor = actor_system, rq_source_plane = PlaneSystem, rq_idempotency_key = Some ''k''\<rparr>"

text \<open>
  C3: the service refines the repository. However the operations of one Vault are interleaved with
  each other, with edits made behind the service, with restarts and with changes of the maintenance
  gate, and whatever I/O faults, crashes and injected failures each of them meets, the database only
  moves by complete repository transactions of that Vault. So every state the service leaves behind
  keeps the keys of its tables unique and the revisions of each file gapless, revision, audit and
  outbox rows are never lost, and no row of another Vault changes.
\<close>

theorem service_refines_repository:
  assumes "(service_op e c ctx)\<^sup>*\<^sup>* w w'"
  shows "(repo_write ctx)\<^sup>*\<^sup>* (cw_db w) (cw_db w') \<and> (db_ok (cw_db w) \<longrightarrow> db_ok (cw_db w')) \<and>
    history_grows (cw_db w) (cw_db w') \<and> journal_evolves (cw_db w) (cw_db w') \<and>
    other_vaults_same (ctx_id ctx) (cw_db w) (cw_db w')"
  using service_run_refines [OF assms] repo_run_ok repo_run_step by (auto simp: db_step_def)

theorem service_refines_repository_witness:
  "\<exists>w'. admitted_op example_core_env example_core example_ctx (example_world [Fine, Fail PERM 0] gate_new) w' \<and>
     db_ok (cw_db w')"
proof -
  let ?w = "example_world [Fine, Fail PERM 0] gate_new"
  let ?w' = "snd (create example_core_env example_core example_ctx (VaultPath ''a.md'')
    (byte_reader ''text'') example_request ?w)"
  have op: "admitted_op example_core_env example_core example_ctx ?w ?w'" by (rule op_create)
  have "db_ok (cw_db ?w)"
    by (simp add: example_world_def example_db0_def db_empty_def db_ok_def files_keys_def
        revisions_owned_def gapless_def journal_keys_def)
  with op service_refines_repository [OF r_into_rtranclp [where r = "service_op example_core_env
      example_core example_ctx", OF op_admitted [OF op]]]
  show ?thesis by blast
qed

section \<open>Guards are balanced\<close>

definition gate_kept :: "core_world \<Rightarrow> core_world \<Rightarrow> bool" where
  "gate_kept w w' \<longleftrightarrow> cw_gate w' = cw_gate w"

lemma try_start_drop: "try_start b g = (Some k, g') \<Longrightarrow> drop_guard k g' = g"
  by (cases b) (auto simp: try_start_def drop_guard_def Let_def split: if_splits)

lemma try_start_refused: "try_start b g = (None, g') \<Longrightarrow> g' = g \<and> \<not> allowed b (gate_mode g)"
  by (cases b) (auto simp: try_start_def Let_def split: if_splits)

interpretation gate: service_frame gate_kept ctx for ctx
  by unfold_locales
    (auto simp: gate_kept_def drop_operation_def dest: try_start_refused try_start_drop)

lemma kept_guard_gate:
  assumes "kept_guard ctx b body w = (res, w')" "within gate_kept body"
  shows "case res of Err _ \<Rightarrow> cw_gate w' = cw_gate w
    | Ok (k, a) \<Rightarrow> try_start b (cw_gate w) = (Some k, cw_gate w')"
proof -
  let ?rest = "bind_x (validate_registered_context ctx b) (\<lambda>_. body)"
  have rest: "cw_gate (snd (?rest u)) = cw_gate u" for u
    using within_run [OF gate.within_bind [OF gate.checks_frame(11) assms(2)]] by (simp add: gate_kept_def)
  obtain k g where start: "try_start b (cw_gate w) = (k, g)" by (rule prod.exhaust)
  show ?thesis
  proof (cases k)
    case None
    then show ?thesis using assms(1) start try_start_refused [of b "cw_gate w" g]
      by (auto simp: kept_guard_def start_operation_def bind_x_def)
  next
    case (Some guard)
    let ?w = "w\<lparr>cw_gate := g\<rparr>"
    have run: "(case fst (?rest ?w) of Ok a \<Rightarrow> return_x (guard, a)
        | Err err \<Rightarrow> bind_x (modify_x (drop_operation guard)) (\<lambda>_. throw_x err)) (snd (?rest ?w)) = (res, w')"
      using assms(1) start Some
      by (simp add: kept_guard_def start_operation_def bind_x_def [of "start_operation b"] try_x_def)
    show ?thesis
      using run rest [of ?w] start Some try_start_drop [of b "cw_gate w" guard g]
      by (cases "fst (?rest ?w)") (auto simp: drop_operation_def)
  qed
qed

lemma begin_put_gate:
  assumes "begin_put e c ctx p may_create create_new rq w = (res, w')"
  shows "case res of Err _ \<Rightarrow> cw_gate w' = cw_gate w
    | Ok s \<Rightarrow> try_start True (cw_gate w) = (Some (sg_guard s), cw_gate w')"
proof -
  have intent: "within gate_kept (put_intent e st p may_create create_new target)" for st target
    unfolding put_intent_def put_create_def by (intro gate.steps)
  show ?thesis
    using assms unfolding begin_put_def Let_def
  proof (cases rule: bind_x_cases)
    case (err f)
    have "cw_gate w' = cw_gate w"
      by (rule kept_guard_gate [OF err(1), unfolded sum.case]) (intro gate.mutation_steps intent)
    then show ?thesis using err(2) by simp
  next
    case (ok y w1)
    obtain k st hs aw pl where y: "y = (k, st, hs, aw, pl)" by (cases y)
    have "try_start True (cw_gate w) = (Some k, cw_gate w1)"
      by (rule kept_guard_gate [OF ok(1), unfolded y sum.case prod.case]) (intro gate.mutation_steps intent)
    then show ?thesis using ok(2) y by auto
  qed
qed

lemma staged_commit_gate:
  assumes "staged_commit e c ctx alive (w, s) = (res, (w', s'))"
  shows "cw_gate w' = drop_guard (sg_guard s) (cw_gate w)"
proof -
  obtain r1 w1 s1 where 1: "staged_commit_steps e c ctx (w, s) = (r1, (w1, s1))" by (metis prod.exhaust)
  have k1: "cw_gate w1 = cw_gate w" "sg_guard s1 = sg_guard s"
    using withinD [OF gate.staged_commit_steps_frame 1] by (simp_all add: staged_rel_def gate_kept_def)
  from assms 1 k1 show ?thesis
    by (auto simp: staged_commit_def try_x_def staged_drop_def bind_x_def on_world_def drop_operation_def
        gets_x_def set_staged_def)
qed



section \<open>Maintenance refuses writes\<close>

definition outcome :: "(vault_error + 'a) \<times> core_world \<Rightarrow> vault_error option \<times> core_world" where
  "outcome y = (case fst y of Err err \<Rightarrow> Some err | Ok _ \<Rightarrow> None, snd y)"

inductive guarded_write ::
  "core_env \<Rightarrow> vault_core \<Rightarrow> vault_context \<Rightarrow> core_world \<Rightarrow> vault_error option \<times> core_world \<Rightarrow> bool"
  for e c ctx w where
  \<comment> \<open>the twelve callers of \<open>validate_context(context, true)\<close>, with the error and the world they leave\<close>
  g_content: "guarded_write e c ctx w
    (outcome (content_mutation_with_policy e c ctx p op expected absent managed src rq w))"
| g_begin_put: "guarded_write e c ctx w (outcome (begin_put e c ctx p may_create create_new rq w))"
| g_append: "guarded_write e c ctx w (outcome (append_bytes_core e c ctx p r bs rq w))"
| g_patch: "guarded_write e c ctx w (outcome (patch_unified_diff e c ctx p r diff rq w))"
| g_copy: "guarded_write e c ctx w (outcome (copy e c ctx p q rq w))"
| g_restore: "guarded_write e c ctx w (outcome (core_restore e c ctx p rv r rq w))"
| g_directory: "guarded_write e c ctx w (outcome (create_directory e c ctx p rq w))"
| g_move: "guarded_write e c ctx w (outcome (core_move_entry e c ctx p q r rq w))"
| g_delete: "guarded_write e c ctx w (outcome (core_delete e c ctx p r rq w))"
| g_delete_managed: "guarded_write e c ctx w (outcome (delete_managed e c ctx p r rq w))"
| g_reconcile: "guarded_write e c ctx w (outcome (reconcile e c ctx a w))"
| g_recover: "guarded_write e c ctx w (outcome (recover e c ctx w))"

lemma guarded_refused:
  assumes "\<not> allowed b (gate_mode (cw_gate w))"
  shows "guarded ctx b body w = (Err UnderMaintenance, w)"
  using assms by (simp add: guarded_def start_operation_def try_start_def bind_x_def)

lemma kept_guard_refused:
  assumes "\<not> allowed b (gate_mode (cw_gate w))"
  shows "kept_guard ctx b body w = (Err UnderMaintenance, w)"
  using assms by (simp add: kept_guard_def start_operation_def try_start_def bind_x_def)

lemma begin_put_refused:
  assumes "\<not> allowed True (gate_mode (cw_gate w))"
  shows "begin_put e c ctx p may_create create_new rq w = (Err UnderMaintenance, w)"
  by (simp add: begin_put_def bind_x_def [of "kept_guard ctx True body" for body] kept_guard_refused [OF assms])

text \<open>
  C8: while the gate does not admit writes (read-only or offline maintenance), every operation of the
  service that asks the gate for a write admission (the common content mutation behind create,
  replace and their managed forms, the start of a staged upload, append, patch, copy, restore,
  directory creation, move, delete, managed delete, reconciliation and recovery) is refused with
  \<open>UnderMaintenance\<close> before it has touched anything: host, database, gate and identifier supply are
  as they were. The two heading edits read the file before they reach the common content mutation
  (\<open>heading_edit_ignores_gate\<close> below); an upload staged earlier keeps its admission, and the
  operations that run under a maintenance permit do not ask for one.
\<close>

theorem maintenance_refuses_writes:
  assumes "guarded_write e c ctx w out" "\<not> allowed True (gate_mode (cw_gate w))"
  shows "out = (Some UnderMaintenance, w)"
  using assms(1)
  by cases (simp_all add: outcome_def content_mutation_with_policy_def append_bytes_core_def
      patch_unified_diff_def copy_def core_restore_def create_directory_def core_move_entry_def
      core_delete_def delete_managed_def reconcile_def recover_def guarded_refused [OF assms(2)]
      begin_put_refused [OF assms(2)])

definition example_offline :: maintenance_state where
  "example_offline = gate_new\<lparr>gate_mode := Offline\<rparr>"

theorem maintenance_refuses_writes_witness:
  "outcome (begin_put example_core_env example_core example_ctx (VaultPath ''a.md'') True False example_request
     (example_world [] example_offline)) = (Some UnderMaintenance, example_world [] example_offline)"
proof (rule maintenance_refuses_writes)
  show "guarded_write example_core_env example_core example_ctx (example_world [] example_offline)
      (outcome (begin_put example_core_env example_core example_ctx (VaultPath ''a.md'') True False
         example_request (example_world [] example_offline)))"
    by (rule g_begin_put)
  show "\<not> allowed True (gate_mode (cw_gate (example_world [] example_offline)))" by code_simp
qed

text \<open>
  The heading edits read the file before they ask the gate: with the gate offline they still open the
  content root, and create it when it is missing.
\<close>

lemma heading_edit_ignores_gate:
  "gate_mode (cw_gate (example_world [] example_offline)) = Offline \<and>
   h_roots (cw_host (example_world [] example_offline)) [''srv'', ''home''] = None \<and>
   h_roots (cw_host (snd (core_insert_after_heading example_core_env example_core example_ctx
     (VaultPath ''a.md'') 1 ''# h'' ''x'' example_request (example_world [] example_offline))))
     [''srv'', ''home''] \<noteq> None"
  by code_simp

end
