(* ===== verification/Program_Logic.thy ===== *)
theory Program_Logic
  imports Vault_Prelude
begin

text \<open>
  Triples for programs with state and failure: from \<open>P\<close>, a program ends in \<open>Q a\<close> when it returns
  \<open>a\<close> and in \<open>E\<close> when it fails. \<open>E\<close> is the condition that has to hold at every early return, so a
  proof that walks through an operation with a growing \<open>P\<close> and one fixed \<open>E\<close> covers all its exits.
\<close>

named_theorems hoare_rules \<open>triples of the components\<close>

definition hoare ::
  "('s \<Rightarrow> bool) \<Rightarrow> ('s, 'e, 'a) prog \<Rightarrow> ('a \<Rightarrow> 's \<Rightarrow> bool) \<Rightarrow> ('s \<Rightarrow> bool) \<Rightarrow> bool" where
  "hoare P m Q E \<longleftrightarrow>
     (\<forall>s r s'. P s \<longrightarrow> m s = (r, s') \<longrightarrow> (case r of Err _ \<Rightarrow> E s' | Ok a \<Rightarrow> Q a s'))"

lemma hoareI:
  "(\<And>s r s'. P s \<Longrightarrow> m s = (r, s') \<Longrightarrow> (case r of Err _ \<Rightarrow> E s' | Ok a \<Rightarrow> Q a s')) \<Longrightarrow> hoare P m Q E"
  by (simp add: hoare_def)

lemma hoareD:
  assumes "hoare P m Q E" "P s" "m s = (r, s')"
  shows "case r of Err _ \<Rightarrow> E s' | Ok a \<Rightarrow> Q a s'"
  using assms by (simp add: hoare_def)

lemma hoare_conseq:
  "hoare P m Q E \<Longrightarrow> (\<And>s. P' s \<Longrightarrow> P s) \<Longrightarrow> (\<And>a s. Q a s \<Longrightarrow> Q' a s) \<Longrightarrow> (\<And>s. E s \<Longrightarrow> E' s) \<Longrightarrow>
     hoare P' m Q' E'"
  unfolding hoare_def by (fastforce split: sum.splits)

lemma hoare_pre: "hoare P m Q E \<Longrightarrow> (\<And>s. P' s \<Longrightarrow> P s) \<Longrightarrow> hoare P' m Q E"
  by (rule hoare_conseq)

lemma hoare_return: "(\<And>s. P s \<Longrightarrow> Q x s) \<Longrightarrow> hoare P (return_x x) Q E"
  by (simp add: hoare_def)

lemma hoare_throw: "(\<And>s. P s \<Longrightarrow> E s) \<Longrightarrow> hoare P (throw_x e) Q E"
  by (simp add: hoare_def)

lemma hoare_lift:
  "(\<And>a s. r = Ok a \<Longrightarrow> P s \<Longrightarrow> Q a s) \<Longrightarrow> (\<And>s. P s \<Longrightarrow> E s) \<Longrightarrow> hoare P (lift_x r) Q E"
  by (auto simp: hoare_def split: sum.splits)

lemma hoare_gets: "(\<And>s. P s \<Longrightarrow> Q (f s) s) \<Longrightarrow> hoare P (gets_x f) Q E"
  by (auto simp: hoare_def)

lemma hoare_modify: "(\<And>s. P s \<Longrightarrow> Q () (f s)) \<Longrightarrow> hoare P (modify_x f) Q E"
  by (auto simp: hoare_def)

lemma hoare_bind:
  assumes "hoare P m Q E" and "\<And>a. hoare (Q a) (f a) R E"
  shows "hoare P (bind_x m f) R E"
proof (rule hoareI)
  fix s r s'
  assume "P s" "bind_x m f s = (r, s')"
  moreover obtain r1 s1 where m: "m s = (r1, s1)" by (rule prod.exhaust)
  ultimately show "case r of Err _ \<Rightarrow> E s' | Ok a \<Rightarrow> R a s'"
    using hoareD [OF assms(1) _ m] hoareD [OF assms(2)] by (cases r1) (auto simp: bind_x_def)
qed

lemma hoare_bind_lift:
  "(\<And>s. P s \<Longrightarrow> E s) \<Longrightarrow> (\<And>a. r = Ok a \<Longrightarrow> hoare P (f a) Q E) \<Longrightarrow> hoare P (bind_x (lift_x r) f) Q E"
  by (cases r) (auto simp: hoare_def)

lemma hoare_try:
  assumes "hoare P m Q F" and "\<And>a. hoare (Q a) (f (Ok a)) R E"
    and "\<And>e. hoare F (f (Err e)) R E"
  shows "hoare P (try_x m f) R E"
proof (rule hoareI)
  fix s r s'
  assume "P s" "try_x m f s = (r, s')"
  moreover obtain r1 s1 where m: "m s = (r1, s1)" by (rule prod.exhaust)
  ultimately show "case r of Err _ \<Rightarrow> E s' | Ok a \<Rightarrow> R a s'"
    using hoareD [OF assms(1) _ m] hoareD [OF assms(2)] hoareD [OF assms(3)]
    by (cases r1) (auto simp: try_x_def)
qed

lemma hoare_iff:
  "hoare P m Q E \<longleftrightarrow> (\<forall>s. P s \<longrightarrow> (case fst (m s) of Err _ \<Rightarrow> E (snd (m s)) | Ok a \<Rightarrow> Q a (snd (m s))))"
  unfolding hoare_def by (metis prod.collapse fst_conv snd_conv)

lemma hoare_mapErr: "hoare P m Q E \<Longrightarrow> hoare P (mapErr_x h m) Q E"
  by (auto simp: hoare_iff mapErr_x_def map_err_def split: sum.splits)

lemma hoare_ignore: "hoare P m (\<lambda>_. Q) Q \<Longrightarrow> hoare P (ignore_x m) (\<lambda>_. Q) E"
  by (auto simp: hoare_iff ignore_x_def split: sum.splits)

lemma hoare_within:
  assumes "within R m" and "\<And>s s'. P s \<Longrightarrow> R s s' \<Longrightarrow> I s'" and "\<And>s. I s \<Longrightarrow> E s"
  shows "hoare P m (\<lambda>_. I) E"
proof (rule hoareI)
  fix s r s'
  assume "P s" "m s = (r, s')"
  with withinD [OF assms(1)] assms(2) have "I s'" by blast
  with assms(3) show "case r of Err _ \<Rightarrow> E s' | Ok a \<Rightarrow> I s'" by (simp split: sum.splits)
qed

lemma hoare_splits:
  "(b \<Longrightarrow> hoare P m Q E) \<Longrightarrow> (\<not> b \<Longrightarrow> hoare P n Q E) \<Longrightarrow> hoare P (if b then m else n) Q E"
  "(\<And>x. v = Some x \<Longrightarrow> hoare P (f x) Q E) \<Longrightarrow> (v = None \<Longrightarrow> hoare P g Q E) \<Longrightarrow>
     hoare P (case v of None \<Rightarrow> g | Some x \<Rightarrow> f x) Q E"
  "(\<And>a b. p = (a, b) \<Longrightarrow> hoare P (k a b) Q E) \<Longrightarrow> hoare P (case p of (a, b) \<Rightarrow> k a b) Q E"
  by (auto split: option.splits prod.splits)

end
