(* ===== verification/Core_Writes.thy ===== *)
theory Core_Writes
  imports Core_Frame Program_Logic
begin

text \<open>
  The write-ahead protocol of content mutations: the metadata tables move only after the canonical
  file holds the complete new bytes and the history store holds them too, whatever happens in
  between.
\<close>

section \<open>Reads and parent directories\<close>

lemma open_read_step: "within (root_step (vs_root st)) (open_read x st p managed)"
  unfolding open_read_def open_read_validated_def
  by (intro root_step.within_core within_split within_prod ensure_root_step same_root [OF open_parent_same]
      same_root [OF entry_kind_same] same_root [OF open_regular_same]
      same_root [OF call_same(2) [OF reads_same_fs(5)]])

lemma hash_file_step: "within (root_step (vs_root st)) (hash_file x st p managed)"
  unfolding hash_file_def
  by (intro root_step.within_core open_read_step same_root [OF call_same(2) [OF reads_same_fs(7)]])

lemma sys_mkdir_frame: "within (frame_except {(r, d @ [s])}) (sys_mkdir r (d @ [s]))"
proof (rule withinI)
  fix h
  obtain res h' where run: "sys_mkdir r (d @ [s]) h = (res, h')" by (rule prod.exhaust)
  have "frame_except {(r, d @ [s])} h h'" using run unfolding sys_mkdir_def
  proof (cases rule: syscall_cases)
    case (runs h1)
    show ?thesis
    proof (cases "host_at h1 r (d @ [s]) = None \<and> host_dir h1 r d")
      case False
      then have "h' = h1" using runs(2) by (auto split: option.splits if_splits)
      then show ?thesis using runs(1) by (simp add: frame_intros(1))
    next
      case True
      let ?n = "DirNode (fresh_attr h1) []"
      have "view h' = view (host_put r (d @ [s]) (Some ?n) h1)"
        using runs(2) True by (auto simp: next_inode_def intro: view_cong split: if_splits)
      moreover have "view h1 r ((d @ [s]) @ z) = None" for z
        using view_below_none [of h1 r "d @ [s]" z] True by (simp add: view_None)
      then have "view (host_put r (d @ [s]) (Some ?n) h1) r' q = view h1 r' q"
        if "(r', q) \<noteq> (r, d @ [s])" for r' q
        using view_put [of h1 r d s "Some ?n" r' q] True that
        by (cases "drop (Suc (length d)) q") (auto simp: prefix_def)
      ultimately show ?thesis
        using same_fs_view [OF runs(1)] by (auto simp: frame_except_def)
    qed
  qed (auto simp: frame_except.step_refl frame_intros)
  then show "frame_except {(r, d @ [s])} h (snd (sys_mkdir r (d @ [s]) h))" by (simp add: run)
qed

lemma frame_widen: "frame_except S h h' \<Longrightarrow> S \<subseteq> T \<Longrightarrow> frame_except T h h'"
  by (auto simp: frame_except_def)

lemma hoare_pure: "(A \<Longrightarrow> hoare P m Q E) \<Longrightarrow> hoare (\<lambda>s. P s \<and> A) m Q E"
  by (auto simp: hoare_def)

lemma open_child_hoare:
  "hoare (frame_except S h0) (open_child_directory d s)
     (\<lambda>d' h. frame_except S h0 h \<and> d' = d\<lparr>pd_segments := child d s\<rparr>) (frame_except S h0)"
proof (rule hoareI)
  fix h r h'
  assume f: "frame_except S h0 h" and run: "open_child_directory d s h = (r, h')"
  have "frame_except S h0 h'"
    using f frame_intros(1) [OF withinD [OF open_child_same run]] by (rule frame_except.step_trans)
  then show "case r of Err _ \<Rightarrow> frame_except S h0 h'
    | Ok d' \<Rightarrow> frame_except S h0 h' \<and> d' = d\<lparr>pd_segments := child d s\<rparr>"
    using open_child_Ok [of d s h _ h'] run by (cases r) auto
qed

lemma mkdir_hoare:
  assumes "(pd_root d, child d s) \<in> S"
  shows "hoare (frame_except S h0) (sys_mkdir (pd_root d) (child d s)) (\<lambda>_. frame_except S h0) (frame_except S h0)"
  unfolding child_def
proof (rule hoare_within [OF sys_mkdir_frame])
  fix h h' assume "frame_except S h0 h" "frame_except {(pd_root d, pd_segments d @ [s])} h h'"
  then have "frame_except S h0 h" "frame_except S h h'" using assms by (auto simp: child_def intro: frame_widen)
  then show "frame_except S h0 h'" by (rule frame_except.step_trans)
qed

lemma open_parents_hoare:
  assumes "\<And>z. prefix z (pd_segments d @ ss) \<Longrightarrow> (pd_root d, z) \<in> S"
  shows "hoare (frame_except S h0) (open_parents b d ss)
    (\<lambda>d' h. frame_except S h0 h \<and> pd_root d' = pd_root d \<and> pd_segments d' = pd_segments d @ ss)
    (frame_except S h0)"
  using assms
proof (induction ss arbitrary: d)
  case Nil
  show ?case unfolding open_parents.simps by (rule hoare_return) simp
next
  case (Cons s ss)
  let ?F = "frame_except S h0" and ?Q = "\<lambda>d' h. frame_except S h0 h \<and> pd_root d' = pd_root d \<and>
    pd_segments d' = pd_segments d @ s # ss"
  have go: "hoare (\<lambda>h. ?F h \<and> d' = d\<lparr>pd_segments := child d s\<rparr>) (open_parents b d' ss) ?Q ?F" for d'
    by (rule hoare_pure) (use Cons.IH [of d'] Cons.prems in \<open>simp add: child_def\<close>)
  have enter: "hoare ?F (bind_x (open_child_directory d s) (\<lambda>d'. open_parents b d' ss)) ?Q ?F"
    by (rule hoare_bind [OF open_child_hoare go])
  have "(pd_root d, child d s) \<in> S" using Cons.prems by (simp add: child_def)
  then have mk: "hoare ?F (try_x (sys_mkdir (pd_root d) (child d s)) (\<lambda>made.
      case made of
        Err e \<Rightarrow> (if errno_kind e = KAlreadyExists
          then bind_x (open_child_directory d s) (\<lambda>d'. open_parents b d' ss)
          else throw_x (errno_error ''create parent directory'' e))
      | Ok _ \<Rightarrow> bind_x (open_child_directory d s) (\<lambda>d'. open_parents b d' ss))) ?Q ?F"
    by (intro hoare_try [OF mkdir_hoare]) (auto intro!: enter hoare_throw)
  show ?case
    unfolding open_parents.simps
  proof (rule hoare_try [OF open_child_hoare], goal_cases)
    case (1 d')
    show ?case unfolding sum.case by (rule go)
  next
    case (2 e)
    show ?case by (cases e; simp only: sum.case storage_error.case; intro hoare_splits mk hoare_throw)
  qed
qed

definition above :: "host_root \<Rightarrow> vault_path \<Rightarrow> (host_root \<times> string list) set" where
  "above r p = {(r, z) | z. prefix z (segments p)}"

lemma root_hoare:
  assumes "within (root_step r) m"
  shows "hoare (frame_except (above r p) h0) m (\<lambda>_. frame_except (above r p) h0) (frame_except (above r p) h0)"
proof (rule hoare_within [OF assms])
  fix h h' assume "frame_except (above r p) h0 h" "root_step r h h'"
  moreover from this(2) have "frame_except (above r p) h h'" by (rule frame_intros(2)) (simp add: above_def)
  ultimately show "frame_except (above r p) h0 h'" using frame_except.step_trans by blast
qed

lemma same_hoare:
  assumes "within same_fs m"
  shows "hoare (frame_except S h0) m (\<lambda>_. frame_except S h0) (frame_except S h0)"
  using assms by (rule hoare_within) (auto intro: frame_except.step_trans frame_intros(1))

lemma open_parent_hoare:
  "hoare (frame_except (above r p) h0) (open_parent_with_leaf r p b)
     (\<lambda>y h. frame_except (above r p) h0 h \<and> pd_root (fst y) = r \<and> child (fst y) (snd y) = segments p)
     (frame_except (above r p) h0)"
  unfolding open_parent_with_leaf_def
proof (intro hoare_bind [OF same_hoare [OF open_root_same]] hoare_splits hoare_throw)
  let ?F = "frame_except (above r p) h0"
  assume ne: "segments p \<noteq> []"
  have pre: "prefix z (segments p)" if "prefix z (butlast (segments p))" for z
    using that prefixeq_butlast prefix_order.trans by blast
  have "hoare ?F (open_parents b \<lparr>pd_root = r, pd_segments = []\<rparr> (butlast (segments p)))
      (\<lambda>d h. ?F h \<and> pd_root d = r \<and> pd_segments d = butlast (segments p)) ?F"
    using open_parents_hoare [of "\<lparr>pd_root = r, pd_segments = []\<rparr>" "butlast (segments p)" _ h0 b] pre
    by (simp add: above_def)
  then show "hoare ?F (bind_x (open_parents b \<lparr>pd_root = r, pd_segments = []\<rparr> (butlast (segments p)))
      (\<lambda>d. return_x (d, last (segments p))))
      (\<lambda>y h. ?F h \<and> pd_root (fst y) = r \<and> child (fst y) (snd y) = segments p) ?F"
    by (rule hoare_bind, intro hoare_return) (use ne in \<open>simp add: child_def\<close>)
qed

lemma create_directory_all_hoare:
  "hoare (frame_except (above r p) h0) (create_directory_all r p)
     (\<lambda>_. frame_except (above r p) h0) (frame_except (above r p) h0)"
  unfolding create_directory_all_def
proof (intro hoare_splits same_hoare [OF open_root_same] hoare_bind [OF open_parent_hoare] hoare_pure)
  let ?F = "frame_except (above r p) h0"
  fix y d leaf
  assume y: "y = (d, leaf)" and "pd_root (fst y) = r \<and> child (fst y) (snd y) = segments p"
  then have d: "pd_root d = r" "(pd_root d, child d leaf) \<in> above r p" by (simp_all add: above_def)
  note mk = mkdir_hoare [OF d(2), of h0, unfolded d(1)]
  show "hoare ?F (bind_x (entry_kind_at d leaf) (\<lambda>k.
      case k of
        Some Directory \<Rightarrow> return_x ()
      | Some kind \<Rightarrow> throw_x (unsafe_entry kind)
      | None \<Rightarrow>
          try_x (sys_mkdir r (child d leaf)) (\<lambda>made.
            case made of
              Ok _ \<Rightarrow> return_x ()
            | Err e \<Rightarrow>
                (if errno_kind e = KAlreadyExists then
                   bind_x (entry_kind_at d leaf) (\<lambda>k'.
                     case k' of
                       Some Directory \<Rightarrow> return_x ()
                     | Some kind \<Rightarrow> throw_x (unsafe_entry kind)
                     | None \<Rightarrow> throw_x (errno_error ''create directory'' e))
                 else throw_x (errno_error ''create directory'' e))))) (\<lambda>_. ?F) ?F"
    by (intro hoare_bind [OF same_hoare [OF entry_kind_same]])
      (auto intro!: hoare_return hoare_throw hoare_try [OF mk] hoare_bind [OF same_hoare [OF entry_kind_same]]
        split: option.splits entry_kind.splits)
qed

lemma create_dir_all_frame: "within (frame_except (above (vs_root st) p)) (create_dir_all x st p managed)"
proof (rule withinI)
  fix h
  let ?F = "frame_except (above (vs_root st) p) h"
  have "hoare ?F (create_dir_all x st p managed) (\<lambda>_. ?F) ?F"
    unfolding create_dir_all_def
    by (intro hoare_bind [OF root_hoare [OF ensure_root_step]] hoare_bind [OF hoare_lift [where Q = "\<lambda>_. ?F"]]
        create_directory_all_hoare)
  then show "?F (snd (create_dir_all x st p managed h))"
    unfolding hoare_iff by (auto split: sum.splits simp: frame_except.step_refl) 
qed

lemma parent_shorter:
  assumes "wf_path p" "parent p = Some up"
  shows "length (segments up) < length (segments p)"
proof (cases "CHR ''/'' \<in> set (path_text p)")
  case True
  then obtain a b where ab: "rsplit_once (CHR ''/'') (path_text p) = Some (a, b)"
      "path_text p = a @ CHR ''/'' # b" "CHR ''/'' \<notin> set b"
    using rsplit_once_split by blast
  have "\<not> is_root p" and up: "up = VaultPath a" using assms(2) ab(1) by (auto simp: parent_def split: if_splits)
  have "split_on (CHR ''/'') (path_text p) = split_on (CHR ''/'') a @ [b]"
    using ab by (simp add: split_on_snoc split_on_no_sep)
  then show ?thesis
    using segments_nonroot [OF assms(1) \<open>\<not> is_root p\<close>] by (simp add: up segments_def le_imp_less_Suc)
next
  case False
  then have "\<not> is_root p" "up = vault_root" using assms(2) by (auto simp: parent_def rsplit_once_def split: if_splits)
  then show ?thesis using segments_nonroot [OF assms(1)] by simp
qed

lemma parents_avoid: "wf_path p \<Longrightarrow> parent p = Some up \<Longrightarrow> (r, segments p) \<notin> above r up"
  using parent_shorter prefix_length_le by (fastforce simp: above_def)

section \<open>Old, new and recorded\<close>

definition recorded :: "file_db \<Rightarrow> file_record list \<times> file_revision_record list" where
  "recorded db = (db_files db, db_revisions db)"

definition holds :: "durability_policy \<Rightarrow> host_root \<Rightarrow> string list \<Rightarrow> bytes \<Rightarrow> host \<Rightarrow> bool" where
  "holds dur r q content h \<longleftrightarrow>
     (\<exists>b a. view h r q = Some (FileNode content b a) \<and> (dur \<noteq> NoSync \<longrightarrow> b))"

definition blob_holds :: "externals \<Rightarrow> history_store \<Rightarrow> content_hash \<Rightarrow> host \<Rightarrow> bool" where
  \<comment> \<open>the blob at the address of a digest is a regular file, and its bytes have that digest\<close>
  "blob_holds x hs hash h \<longleftrightarrow>
     (\<exists>q content b a. blob_address x hs hash = Some q \<and>
        view h (hs_root hs) q = Some (FileNode content b a) \<and> ContentHash (x_sha256 x content) = hash)"

definition kept_outside :: "host_root \<Rightarrow> host \<Rightarrow> host \<Rightarrow> bool" where
  "kept_outside r h h' \<longleftrightarrow> (\<forall>r' z. r' \<noteq> r \<longrightarrow> view h' r' z = view h r' z)"

definition keeps_target :: "host_root \<Rightarrow> string list \<Rightarrow> core_world \<Rightarrow> core_world \<Rightarrow> bool" where
  "keeps_target r q w w' \<longleftrightarrow>
     recorded (cw_db w') = recorded (cw_db w) \<and> view (cw_host w') r q = view (cw_host w) r q \<and>
     kept_outside r (cw_host w) (cw_host w')"

definition journal_only :: "core_world \<Rightarrow> core_world \<Rightarrow> bool" where
  "journal_only w w' \<longleftrightarrow>
     recorded (cw_db w') = recorded (cw_db w) \<and> same_fs (cw_host w) (cw_host w')"

interpretation journal_only: step_order journal_only
  by unfold_locales (auto simp: journal_only_def intro: same_fs.step_refl same_fs.step_trans)

interpretation kept_outside: step_order "kept_outside r" for r
  by unfold_locales (auto simp: kept_outside_def)

interpretation keeps: step_order "keeps_target r q" for r q
  by unfold_locales (auto simp: keeps_target_def kept_outside_def)

lemma outside_intros:
  "same_fs h h' \<Longrightarrow> kept_outside r h h'"
  "tmp_only r t h h' \<Longrightarrow> kept_outside r h h'"
  "frame_except S h h' \<Longrightarrow> fst ` S \<subseteq> {r} \<Longrightarrow> kept_outside r h h'"
proof -
  show "same_fs h h' \<Longrightarrow> kept_outside r h h'" by (simp add: kept_outside_def same_fs_view)
  show "tmp_only r t h h' \<Longrightarrow> kept_outside r h h'" by (simp add: kept_outside_def tmp_only_def)
  show "frame_except S h h' \<Longrightarrow> fst ` S \<subseteq> {r} \<Longrightarrow> kept_outside r h h'"
    unfolding kept_outside_def frame_except_def by (metis fst_conv image_subset_iff singletonD)
qed

lemma outside_blobs:
  assumes "kept_outside r h h'" "r \<noteq> hs_root hs"
  shows "blobs_ok x hs h' = blobs_ok x hs h"
  using assms by (simp add: blobs_ok_def kept_outside_def)

lemma same_blobs: "same_fs h h' \<Longrightarrow> blobs_ok x hs h' = blobs_ok x hs h"
  by (simp add: blobs_ok_def same_fs_view)

lemma blobs_ok_holds:
  assumes "blobs_ok x hs h" "length (hash_bytes hash) = 32" "blob_address x hs hash = Some q"
    "view h (hs_root hs) q = Some n" "kind_of n = RegularFile"
  shows "blob_holds x hs hash h"
  using assms by (cases n) (auto simp: blob_holds_def blobs_ok_def split: if_splits)

lemma journal_keeps: "journal_only w w' \<Longrightarrow> keeps_target r q w w'"
  by (auto simp: journal_only_def keeps_target_def outside_intros(1) dest: same_fs_view)

lemma journal_within_keeps: "within journal_only m \<Longrightarrow> within (keeps_target r q) m"
  by (erule within_mono) (rule journal_keeps)

lemma db_call_cases:
  assumes "db_call act w = (res, w')"
  obtains (unchanged) f where "same_fs (cw_host w) (cw_host w')" "cw_db w' = cw_db w" "res = Err f"
  | (committed) a where "same_fs (cw_host w) (cw_host w')" "act (cw_db w) = Ok (a, cw_db w')"
      "res = Ok a \<or> (\<exists>f. res = Err f)"
proof -
  have run: thesis
    if "db_run act u = (r1, u')" "cw_db u = cw_db w" "same_fs (cw_host w) (cw_host u)" "w' = u'"
      "res = r1 \<or> (\<exists>f. res = Err f)" for u r1 u'
    using that unchanged committed by (auto simp: db_run_def split: sum.splits prod.splits)
  have sf: "same_fs (cw_host w) (cw_host (set_faults fs b w))" "cw_db (set_faults fs b w) = cw_db w" for fs b
    by (simp_all add: set_faults_def same_fs_def)
  show thesis
    using assms unchanged run [of w] run [OF _ sf(2) sf(1)] sf
    by (auto simp: db_call_def same_fs.step_refl split: if_splits list.splits fault.splits) (metis prod.collapse)+
qed

lemma db_call_journal_only:
  assumes "\<And>db a db'. act db = Ok (a, db') \<Longrightarrow> recorded db' = recorded db"
  shows "within journal_only (db_call act)"
proof (rule withinI)
  fix w
  obtain res w' where run: "db_call act w = (res, w')" by (rule prod.exhaust)
  then show "journal_only w (snd (db_call act w))"
    by (rule db_call_cases) (auto simp: run journal_only_def dest: assms)
qed

lemma tick_journal_only: "within journal_only (tick f)"
  by (rule withinI) (simp add: tick_def journal_only_def same_fs.step_refl)

lemma db_write_journal_only:
  assumes "\<And>now db a db'. act now db = Ok (a, db') \<Longrightarrow> recorded db' = recorded db"
  shows "within journal_only (db_write e act)"
  unfolding db_write_def by (intro journal_only.within_bind tick_journal_only db_call_journal_only assms)

lemma journal_writes_recorded:
  "prepare_operation now ctx input db = Ok (j, db') \<Longrightarrow> recorded db' = recorded db"
  "mark_file_committed now ctx oid h db = Ok (u, db') \<Longrightarrow> recorded db' = recorded db"
  "update_operation_payload now ctx oid pl h db = Ok (u, db') \<Longrightarrow> recorded db' = recorded db"
  "mark_rolled_back now ctx oid reason db = Ok (u, db') \<Longrightarrow> recorded db' = recorded db"
  "mark_needs_review now ctx oid msg db = Ok (u, db') \<Longrightarrow> recorded db' = recorded db"
  by (auto simp: recorded_def mark_file_committed_def update_operation_payload_def mark_rolled_back_def
      mark_needs_review_def mark_terminal_def update_journal_Ok dest!: prepare_operation_Ok(1))

lemma journal_effects:
  "within journal_only (tick f)" "within journal_only (db_call (\<lambda>db. map_sum id (\<lambda>a. (a, db)) (g db)))"
  "within journal_only (inject c phase)" "within journal_only (prepare e ctx input)"
  "within journal_only (file_committed e ctx oid h)" "within journal_only (update_payload e ctx pl)"
  "within journal_only (roll_back e ctx oid reason)" "within journal_only (review e ctx oid msg)"
proof -
  show "within journal_only (db_call (\<lambda>db. map_sum id (\<lambda>a. (a, db)) (g db)))"
    by (rule db_call_journal_only) (auto simp: map_sum_def split: sum.splits)
qed (unfold inject_def prepare_def file_committed_def update_payload_def roll_back_def review_def,
    (intro journal_only.within_core within_split tick_journal_only db_write_journal_only;
      blast intro: journal_writes_recorded)+)

lemmas journal_steps = journal_only.within_core within_split within_prod journal_effects

lemma on_fs_keeps:
  assumes "within (frame_except S) m" "(r, q) \<notin> S" "fst ` S \<subseteq> {r}"
  shows "within (keeps_target r q) (on_fs m)"
proof (rule withinI)
  fix w :: core_world
  have "frame_except S (cw_host w) (snd (m (cw_host w)))" using assms(1) by (rule within_run)
  from frame_viewD [OF this assms(2)] outside_intros(3) [OF this assms(3)]
  show "keeps_target r q w (snd (on_fs m w))"
    by (auto simp: on_fs_def keeps_target_def split: prod.splits)
qed

lemma on_fs_root_keeps: "within (root_step r) m \<Longrightarrow> q \<noteq> [] \<Longrightarrow> within (keeps_target r q) (on_fs m)"
  by (rule on_fs_keeps [where S = "{(r, [])}"]) (auto intro: within_mono frame_intros(2))

lemma fs_reads_keep:
  assumes "q \<noteq> []"
  shows "within (keeps_target (vs_root st) q) (on_fs (stat x st p managed))"
    "within (keeps_target (vs_root st) q) (on_fs (hash_file x st p managed))"
    "within (keeps_target (vs_root st) q) (on_fs (open_read x st p managed))"
  using assms by (auto intro: on_fs_root_keeps stat_step hash_file_step open_read_step)

lemmas keep_steps = keeps.within_core within_split within_prod journal_effects [THEN journal_within_keeps]

lemma admit_keeps:
  assumes "q \<noteq> []"
  shows "within (keeps_target (vs_root st) q) (admit_target e st p op expected absent managed target)"
  unfolding admit_target_def Let_def require_revision_def verify_current_def storage_absent_def
  by (intro keep_steps fs_reads_keep [OF assms])

lemma above_root: "fst ` above r p \<subseteq> {r}"
  by (auto simp: above_def)

lemma create_parents_keeps:
  assumes "wf_path p"
  shows "within (keeps_target (vs_root st) (segments p)) (create_parents e st p managed)"
  unfolding create_parents_def
  by (intro keep_steps on_fs_keeps [OF create_dir_all_frame _ above_root] parents_avoid [OF assms])

section \<open>The phases of a write\<close>

text \<open>
  \<open>w0\<close> is the world before the write; \<open>new_state\<close>: the canonical file holds the new bytes and nothing
  is recorded yet; \<open>committed_state\<close>: they are in the history store too and one revision with their
  digest is recorded.
\<close>

definition new_state ::
  "externals \<Rightarrow> history_store \<Rightarrow> durability_policy \<Rightarrow> host_root \<Rightarrow> string list \<Rightarrow> bytes \<Rightarrow>
     core_world \<Rightarrow> core_world \<Rightarrow> bool" where
  "new_state x hs dur r q content w0 w \<longleftrightarrow>
     recorded (cw_db w) = recorded (cw_db w0) \<and> holds dur r q content (cw_host w) \<and>
     blobs_ok x hs (cw_host w)"

definition committed_state ::
  "externals \<Rightarrow> history_store \<Rightarrow> durability_policy \<Rightarrow> host_root \<Rightarrow> string list \<Rightarrow> bytes \<Rightarrow>
     file_revision_record \<Rightarrow> core_world \<Rightarrow> core_world \<Rightarrow> bool" where
  "committed_state x hs dur r q content rv w0 w \<longleftrightarrow>
     holds dur r q content (cw_host w) \<and> blobs_ok x hs (cw_host w) \<and>
     blob_holds x hs (ContentHash (x_sha256 x content)) (cw_host w) \<and>
     db_revisions (cw_db w) = db_revisions (cw_db w0) @ [rv] \<and>
     rr_content_hash rv = Some (as_hex (ContentHash (x_sha256 x content)))"

definition write_safe ::
  "externals \<Rightarrow> history_store \<Rightarrow> durability_policy \<Rightarrow> host_root \<Rightarrow> string list \<Rightarrow> bytes \<Rightarrow>
     core_world \<Rightarrow> core_world \<Rightarrow> bool" where
  "write_safe x hs dur r q content w0 w \<longleftrightarrow>
     keeps_target r q w0 w \<or> new_state x hs dur r q content w0 w \<or>
     (\<exists>rv. committed_state x hs dur r q content rv w0 w)"

fun source_content :: "source \<Rightarrow> bytes" where
  "source_content (Stream es) = payload es"
| "source_content (Opened n) = (case n of FileNode content _ _ \<Rightarrow> content | _ \<Rightarrow> [])"

lemma new_journal: "new_state x hs dur r q content w0 w \<Longrightarrow> journal_only w w' \<Longrightarrow> new_state x hs dur r q content w0 w'"
  by (simp add: new_state_def journal_only_def holds_def same_blobs [of "cw_host w"] same_fs_view [of "cw_host w"])

lemma holds_same: "same_fs h h' \<Longrightarrow> holds dur r q content h' = holds dur r q content h"
  by (simp add: holds_def same_fs_view)

lemma new_host: "new_state x hs dur r q content w0 w \<Longrightarrow> holds dur r q content h' \<Longrightarrow> blobs_ok x hs h' \<Longrightarrow>
    new_state x hs dur r q content w0 (w\<lparr>cw_host := h'\<rparr>)"
  by (simp add: new_state_def)

lemma keeps_journal: "keeps_target r q w0 w \<Longrightarrow> journal_only w w' \<Longrightarrow> keeps_target r q w0 w'"
  using journal_keeps keeps.step_trans by blast

lemma blob_same: "blob_holds x hs hash h \<Longrightarrow> same_fs h h' \<Longrightarrow> blob_holds x hs hash h'"
  by (auto simp: blob_holds_def dest: same_fs_view)

lemma hoare_on_fs:
  assumes "\<And>w r h'. P w \<Longrightarrow> m (cw_host w) = (r, h') \<Longrightarrow>
    (case r of Err _ \<Rightarrow> E (w\<lparr>cw_host := h'\<rparr>) | Ok a \<Rightarrow> Q a (w\<lparr>cw_host := h'\<rparr>))"
  shows "hoare P (on_fs m) Q E"
  by (rule hoareI) (auto simp: on_fs_def split: prod.splits dest!: assms)

lemma hoare_journal:
  assumes "within journal_only m" and "\<And>w w'. P w \<Longrightarrow> journal_only w w' \<Longrightarrow> P w'" and "\<And>w. P w \<Longrightarrow> E w"
  shows "hoare P m (\<lambda>_. P) E"
  by (rule hoare_within [OF assms])

lemma hoare_journal_new:
  assumes "within journal_only m"
  shows "hoare (new_state x hs dur r q content w0) m (\<lambda>_. new_state x hs dur r q content w0) (new_state x hs dur r q content w0)"
  using assms by (rule hoare_journal) (auto intro: new_journal)

lemma failing_hoare:
  assumes "hoare P m Q F" and "\<And>w w'. F w \<Longrightarrow> journal_only w w' \<Longrightarrow> E w'"
  shows "hoare P (failing e ctx oid reason m) Q E"
  unfolding failing_def
proof (rule hoare_try [OF assms(1)])
  show "hoare (Q a) (case Ok a of Ok a \<Rightarrow> return_x a
      | Err err \<Rightarrow> bind_x (roll_back e ctx oid reason) (\<lambda>_. throw_x (map_storage err))) Q E" for a
    unfolding sum.case by (rule hoare_return)
  have "hoare F (roll_back e ctx oid reason) (\<lambda>_. E) E"
    by (rule hoare_within [OF journal_effects(7)]) (use assms(2) in blast)+
  then show "hoare F (case Err err of Ok a \<Rightarrow> return_x a
      | Err err \<Rightarrow> bind_x (roll_back e ctx oid reason) (\<lambda>_. throw_x (map_storage err))) Q E" for err
    unfolding sum.case by (rule hoare_bind) (rule hoare_throw)
qed

definition staged_at ::
  "vault_storage \<Rightarrow> vault_path \<Rightarrow> destination_policy \<Rightarrow> bool \<Rightarrow> string \<Rightarrow> atomic_write \<Rightarrow> host \<Rightarrow> bool" where
  "staged_at st p pol managed t aw h \<longleftrightarrow> (\<exists>d a. begun st p pol managed t aw d \<and> streaming h aw d [] a)"

definition streamed_at ::
  "externals \<Rightarrow> vault_storage \<Rightarrow> vault_path \<Rightarrow> destination_policy \<Rightarrow> bool \<Rightarrow> string \<Rightarrow> bytes \<Rightarrow>
     atomic_write \<Rightarrow> host \<Rightarrow> bool" where
  "streamed_at x st p pol managed t content aw h \<longleftrightarrow>
     (\<exists>d a b. begun st p pol managed t aw d \<and> payload_ready x h aw d content b a)"

definition synced_at ::
  "externals \<Rightarrow> vault_storage \<Rightarrow> vault_path \<Rightarrow> destination_policy \<Rightarrow> bool \<Rightarrow> string \<Rightarrow> bytes \<Rightarrow>
     atomic_write \<Rightarrow> host \<Rightarrow> bool" where
  "synced_at x st p pol managed t content aw h \<longleftrightarrow>
     (\<exists>d a b. begun st p pol managed t aw d \<and> payload_ready x h aw d content b a \<and> aw_synced aw \<and>
        (durability (vs_options st) \<noteq> NoSync \<longrightarrow> b))"

lemma at_same:
  "same_fs h h' \<Longrightarrow> streamed_at x st p pol managed t content aw h \<Longrightarrow> streamed_at x st p pol managed t content aw h'"
  "same_fs h h' \<Longrightarrow> synced_at x st p pol managed t content aw h \<Longrightarrow> synced_at x st p pol managed t content aw h'"
  by (auto simp: streamed_at_def synced_at_def payload_ready_def same_fs_view)

lemma keeps_host:
  "keeps_target r q w0 w \<Longrightarrow> view h' r q = view (cw_host w) r q \<Longrightarrow> kept_outside r (cw_host w) h' \<Longrightarrow>
     keeps_target r q w0 (w\<lparr>cw_host := h'\<rparr>)"
  by (auto simp: keeps_target_def intro: kept_outside.step_trans)

lemma tmp_off_target:
  assumes "tmp_only r (butlast (segments p) @ [t]) h h'" "t \<noteq> last (segments p)"
  shows "view h' r (segments p) = view h r (segments p)"
proof -
  have "butlast (segments p) @ [t] \<noteq> segments p" using assms(2) by (metis last_snoc)
  with assms(1) show ?thesis by (auto simp: tmp_only_def)
qed

lemma begun_temp: "begun st p pol managed t aw d \<Longrightarrow>
    pd_root d = vs_root st \<and> child d (aw_temp_name aw) = butlast (segments p) @ [t] \<and> aw_storage aw = st"
  by (simp add: begun_def child_def)

lemma begun_same: "begun st p pol managed t aw d \<Longrightarrow> aw_same aw aw' \<Longrightarrow> begun st p pol managed t aw' d"
  by (simp add: begun_def aw_same_def)

lemma begin_hoare:
  assumes "file_name (as_path tp) = Some t" "t \<noteq> last (segments p)" "segments p \<noteq> []"
  shows "hoare (keeps_target (vs_root st) (segments p) w0)
    (on_fs (begin_atomic_write_at x st p pol tp managed))
    (\<lambda>aw w. keeps_target (vs_root st) (segments p) w0 w \<and> staged_at st p pol managed t aw (cw_host w))
    (keeps_target (vs_root st) (segments p) w0)"
proof (rule hoare_on_fs)
  fix w :: core_world and r h'
  assume k: "keeps_target (vs_root st) (segments p) w0 w"
    and run: "begin_atomic_write_at x st p pol tp managed (cw_host w) = (r, h')"
  let ?S = "{(vs_root st, []), (vs_root st, butlast (segments p) @ [t])}"
  have "segments p \<noteq> butlast (segments p) @ [t]" using assms(2) by (metis last_snoc)
  then have off: "(vs_root st, segments p) \<notin> ?S" using assms(3) by simp
  note spec = begin_spec [OF run assms(1), of ?S]
  then have "keeps_target (vs_root st) (segments p) w0 (w\<lparr>cw_host := h'\<rparr>)"
    using keeps_host [OF k] frame_viewD [OF _ off] outside_intros(3) [of ?S] by auto
  with spec show "case r of Err _ \<Rightarrow> keeps_target (vs_root st) (segments p) w0 (w\<lparr>cw_host := h'\<rparr>)
      | Ok aw \<Rightarrow> keeps_target (vs_root st) (segments p) w0 (w\<lparr>cw_host := h'\<rparr>) \<and>
          staged_at st p pol managed t aw (cw_host (w\<lparr>cw_host := h'\<rparr>))"
    by (auto simp: staged_at_def split: sum.splits)
qed

lemma write_from_progress:
  assumes "write_from x reader (h, aw) = (Ok progress, (h', aw'))"
  shows "aw_progress aw' = Some progress"
  using assms
  by (auto simp: write_from_def finish_def catch_x_def bind_x_def update_aw_def Let_def
      split: if_splits prod.splits sum.splits option.splits)

lemma source_events_spec:
  assumes "source_events src h = (Ok es, h')"
  shows "same_fs h h' \<and> (delivers es \<longrightarrow> payload es = source_content src)"
proof (cases src)
  case (Stream es')
  then show ?thesis using assms by (simp add: same_fs.step_refl)
next
  case (Opened n)
  obtain r h1 where r: "sys_read n h = (r, h1)" by (rule prod.exhaust)
  have "same_fs h h1" using reads_same_fs(7) r by (rule withinD)
  moreover have "h' = h1" "es = (case r of Ok content \<Rightarrow> [Chunk content] | Err err \<Rightarrow> [ReadError (errno_kind err)])"
    using assms r by (auto simp: Opened read_opened_def try_x_def)
  moreover have "r = Ok content \<Longrightarrow> content = source_content src" for content
    using r by (auto simp: Opened sys_read_def syscall_def split: if_splits list.splits fault.splits node.splits)
  ultimately show ?thesis by (auto split: sum.splits)
qed

lemma source_events_err: "source_events src h = (Err f, h') \<Longrightarrow> False"
  by (cases src) (auto simp: read_opened_def try_x_def)

lemma stream_hoare:
  assumes "t \<noteq> last (segments p)"
  shows "hoare (\<lambda>w. keeps_target (vs_root st) (segments p) w0 w \<and> staged_at st p pol managed t aw (cw_host w))
    (on_fs (stream_source x src aw))
    (\<lambda>y w. keeps_target (vs_root st) (segments p) w0 w \<and>
       streamed_at x st p pol managed t (source_content src) (snd y) (cw_host w) \<and>
       wp_content_hash (fst y) = ContentHash (x_sha256 x (source_content src)))
    (keeps_target (vs_root st) (segments p) w0)"
proof (rule hoare_on_fs, elim conjE)
  fix w :: core_world and r h'
  let ?K = "keeps_target (vs_root st) (segments p) w0" and ?w = "w\<lparr>cw_host := h'\<rparr>"
  assume k: "?K w" and st: "staged_at st p pol managed t aw (cw_host w)"
    and run: "stream_source x src aw (cw_host w) = (r, h')"
  obtain d a where d: "begun st p pol managed t aw d" "streaming (cw_host w) aw d [] a"
    using st by (auto simp: staged_at_def)
  obtain es h1 where es: "source_events src (cw_host w) = (Ok es, h1)"
    using source_events_err by (metis prod.exhaust sum.exhaust)
  note sp = source_events_spec [OF es]
  obtain wr h2 aw2 where wf: "write_from x es (h1, aw) = (wr, (h2, aw2))" by (metis prod.exhaust)
  have r: "r = map_sum id (\<lambda>a. (a, aw2)) wr" "h' = h2"
    using run es wf by (auto simp: stream_source_def with_write_def bind_x_def)
  have "streaming h1 aw d [] a" using d(2) sp by (auto simp: streaming_def dest: same_fs_view)
  note spec = write_from_spec [OF this wf]
  have "view h' (vs_root st) (segments p) = view (cw_host w) (vs_root st) (segments p)"
    using tmp_off_target [OF _ assms] spec(1) begun_temp [OF d(1)] same_fs_view [OF sp [THEN conjunct1]] r(2)
    by simp
  moreover have "kept_outside (vs_root st) (cw_host w) h'"
    using kept_outside.step_trans [OF outside_intros(1) [OF sp [THEN conjunct1]] outside_intros(2)] spec(1)
      begun_temp [OF d(1)] r(2) by simp
  ultimately have keep: "?K ?w" by (rule keeps_host [OF k])
  show "case r of Err _ \<Rightarrow> ?K ?w
    | Ok y \<Rightarrow> ?K ?w \<and> streamed_at x st p pol managed t (source_content src) (snd y) (cw_host ?w) \<and>
        wp_content_hash (fst y) = ContentHash (x_sha256 x (source_content src))"
  proof (cases wr)
    case (Inl f)
    then show ?thesis using keep r by simp
  next
    case (Inr progress)
    obtain b where b: "aw_same aw aw2" "delivers es" "payload_ready x h2 aw2 d (payload es) b a"
      using spec(2) [OF Inr] by blast
    have pay: "payload es = source_content src" using sp b(2) by simp
    have "aw_progress aw2 = Some progress" using write_from_progress wf Inr by metis
    then have "wp_content_hash progress = ContentHash (x_sha256 x (source_content src))"
      using b(3) by (simp add: payload_ready_def pay)
    moreover have "streamed_at x st p pol managed t (source_content src) aw2 h'"
      unfolding streamed_at_def using begun_same [OF d(1) b(1)] b(3) r(2) pay by auto
    ultimately show ?thesis using keep r Inr by simp
  qed
qed

lemma sync_hoare:
  assumes "t \<noteq> last (segments p)"
  shows "hoare (\<lambda>w. keeps_target (vs_root st) (segments p) w0 w \<and>
      streamed_at x st p pol managed t content aw (cw_host w))
    (on_fs (with_write aw sync))
    (\<lambda>y w. keeps_target (vs_root st) (segments p) w0 w \<and>
      synced_at x st p pol managed t content (snd y) (cw_host w))
    (keeps_target (vs_root st) (segments p) w0)"
proof (rule hoare_on_fs, elim conjE)
  fix w :: core_world and r h'
  let ?K = "keeps_target (vs_root st) (segments p) w0" and ?w = "w\<lparr>cw_host := h'\<rparr>"
  assume k: "?K w" and st: "streamed_at x st p pol managed t content aw (cw_host w)"
    and run: "with_write aw sync (cw_host w) = (r, h')"
  obtain d a b where d: "begun st p pol managed t aw d" "payload_ready x (cw_host w) aw d content b a"
    using st by (auto simp: streamed_at_def)
  obtain sr h2 aw2 where sy: "sync (cw_host w, aw) = (sr, (h2, aw2))" by (metis prod.exhaust)
  have r: "r = map_sum id (\<lambda>a. (a, aw2)) sr" "h' = h2" using run sy by (auto simp: with_write_def)
  note spec = sync_spec [OF d(2) sy]
  have "view h' (vs_root st) (segments p) = view (cw_host w) (vs_root st) (segments p)"
    using tmp_off_target [OF _ assms] spec(1) begun_temp [OF d(1)] r(2) by simp
  moreover have "kept_outside (vs_root st) (cw_host w) h'"
    using outside_intros(2) spec(1) begun_temp [OF d(1)] r(2) by simp
  ultimately have keep: "?K ?w" by (rule keeps_host [OF k])
  show "case r of Err _ \<Rightarrow> ?K ?w
    | Ok y \<Rightarrow> ?K ?w \<and> synced_at x st p pol managed t content (snd y) (cw_host ?w)"
  proof (cases sr)
    case (Inl f)
    then show ?thesis using keep r by simp
  next
    case (Inr u)
    then have "synced_at x st p pol managed t content aw2 h'"
      unfolding synced_at_def using spec(2) begun_same [OF d(1)] begun_temp [OF d(1)] r(2) by auto
    then show ?thesis using keep r Inr by simp
  qed
qed

lemma commit_hoare:
  assumes "t \<noteq> last (segments p)" "dur = durability (vs_options st)"
    and blobs: "blobs_ok x hs (cw_host w0)" "vs_root st \<noteq> hs_root hs"
  shows "hoare (\<lambda>w. keeps_target (vs_root st) (segments p) w0 w \<and>
      synced_at x st p pol managed t content aw (cw_host w))
    (on_fs (commit x aw))
    (\<lambda>_. new_state x hs dur (vs_root st) (segments p) content w0)
    (\<lambda>w. keeps_target (vs_root st) (segments p) w0 w \<or> new_state x hs dur (vs_root st) (segments p) content w0 w)"
proof (rule hoare_on_fs, elim conjE)
  fix w :: core_world and r h'
  let ?r = "vs_root st" and ?q = "segments p" and ?w = "w\<lparr>cw_host := h'\<rparr>"
  assume k: "keeps_target ?r ?q w0 w" and sy: "synced_at x st p pol managed t content aw (cw_host w)"
    and run: "commit x aw (cw_host w) = (r, h')"
  obtain d a b where d: "begun st p pol managed t aw d" "payload_ready x (cw_host w) aw d content b a"
      "aw_synced aw" "durability (vs_options st) \<noteq> NoSync \<longrightarrow> b"
    using sy by (auto simp: synced_at_def)
  note spec = commit_spec [OF d(2,3,1) assms(1) d(4) refl run]
  have rec: "recorded (cw_db w) = recorded (cw_db w0)" using k by (simp add: keeps_target_def)
  have out: "kept_outside ?r (cw_host w) h'"
    by (rule outside_intros(3) [OF spec [THEN conjunct1]]) auto
  have "kept_outside ?r (cw_host w0) h'"
    using k kept_outside.step_trans [OF _ out] by (simp add: keeps_target_def)
  then have ok: "blobs_ok x hs h'" using outside_blobs [OF _ blobs(2)] blobs(1) by blast
  have "keeps_target ?r ?q w0 ?w \<or> new_state x hs dur ?r ?q content w0 ?w"
    using spec keeps_host [OF k _ out] rec ok assms(2) by (auto simp: old_or_new_def new_state_def holds_def)
  moreover have "new_state x hs dur ?r ?q content w0 ?w" if "r = Ok receipt" for receipt
    using spec d(4) that rec ok assms(2) by (auto simp: new_state_def holds_def)
  ultimately show "case r of Err _ \<Rightarrow> keeps_target ?r ?q w0 ?w \<or> new_state x hs dur ?r ?q content w0 ?w
    | Ok _ \<Rightarrow> new_state x hs dur ?r ?q content w0 ?w" by (cases r) auto
qed

section \<open>The history blob and the metadata transaction\<close>

lemma history_open_same: "within same_fs (history_open x hs hash)"
  unfolding history_open_def
  by (intro same_fs.within_core within_split open_relative_same entry_kind_same open_regular_same
      call_same(2) [OF reads_same_fs(5)])

lemma history_contains_spec:
  assumes "history_contains x hs hash h = (r, h')" "length (hash_bytes hash) = 32" "blobs_ok x hs h"
  shows "same_fs h h' \<and> (r = Ok True \<longrightarrow> blob_holds x hs hash h')"
proof -
  obtain r1 h1 where o: "history_open x hs hash h = (r1, h1)" by (rule prod.exhaust)
  have s: "same_fs h h1" using history_open_same o by (rule withinD)
  show ?thesis
  proof (cases r1)
    case (Inl f)
    then show ?thesis using assms(1) o s by (auto simp: history_contains_def try_x_def split: if_splits)
  next
    case (Inr rf)
    obtain q where q: "blob_address x hs hash = Some q" "view h1 (hs_root hs) q = Some (shallow (rf_node rf))"
        "kind_of (rf_node rf) = RegularFile"
      using history_open_at [OF o [unfolded Inr]] same_fs_view [OF s] by auto
    have "blobs_ok x hs h1" using same_blobs [OF s] assms(3) by simp
    then have "blob_holds x hs hash h1" using assms(2) q(1,2) by (rule blobs_ok_holds) (simp add: q(3))
    then show ?thesis using assms(1) o s Inr by (auto simp: history_contains_def try_x_def)
  qed
qed

lemma hist_step_file:
  assumes "hist_step r' t' a content h h'" "r \<noteq> r'" "view h r q = Some n"
  shows "view h' r q = Some n"
proof -
  have "(r, q) \<noteq> (r', t')" using assms(2) by simp
  with assms(1,3) show ?thesis unfolding hist_step_def by (metis option.distinct(1))
qed

lemma put_reader_hoare:
  assumes sha: "\<And>bs. length (x_sha256 (en_x e) bs) = 32" and roots: "r \<noteq> hs_root hs"
  shows "hoare (new_state (en_x e) hs dur r q content w0) (put_reader e hs n)
    (\<lambda>blob w. new_state (en_x e) hs dur r q content w0 w \<and> blob_holds (en_x e) hs (hb_content_hash blob) (cw_host w))
    (new_state (en_x e) hs dur r q content w0)"
  unfolding put_reader_def
proof (rule hoare_bind [OF hoare_journal_new [OF journal_effects(1)]], rule hoare_mapErr, rule hoare_on_fs)
  fix simple :: string and w :: core_world and res h'
  let ?x = "en_x e" and ?N = "new_state (en_x e) hs dur r q content w0" and ?w = "w\<lparr>cw_host := h'\<rparr>"
  assume new: "?N w"
    and run: "bind_x (read_opened n) (\<lambda>events. put ?x hs simple events) (cw_host w) = (res, h')"
  obtain es h1 where es: "read_opened n (cw_host w) = (Ok es, h1)"
    using source_events_err [of "Opened n"] by (metis prod.exhaust source_events.simps(2) sum.exhaust)
  have s1: "same_fs (cw_host w) h1" using source_events_spec [of "Opened n"] es by simp
  have put: "put ?x hs simple es h1 = (res, h')" using run es by (simp add: bind_x_def)
  let ?hash = "ContentHash (x_sha256 ?x (payload es))"
  have len: "length (hash_bytes ?hash) = 32" by (simp add: sha)
  note spec = put_spec [OF put refl refl len]
  have "blobs_ok ?x hs h1" using new same_blobs [OF s1] by (simp add: new_state_def)
  then have ok: "blobs_ok ?x hs h'"
    using hist_step_blobs [OF spec [THEN conjunct1] refl refl len] by simp
  obtain b a where f: "view (cw_host w) r q = Some (FileNode content b a)" "dur \<noteq> NoSync \<longrightarrow> b"
    using new by (auto simp: new_state_def holds_def)
  have "view h' r q = Some (FileNode content b a)"
    using hist_step_file [OF spec [THEN conjunct1] roots] f(1) same_fs_view [OF s1] by simp
  then have "?N ?w" using new f(2) ok by (auto simp: new_state_def holds_def)
  moreover have "blob_holds ?x hs (hb_content_hash blob) h'" if "res = Ok blob" for blob
    using spec that blobs_ok_holds [OF ok len] by (auto simp: blob_stored_def)
  ultimately show "case res of Err _ \<Rightarrow> ?N ?w
    | Ok blob \<Rightarrow> ?N ?w \<and> blob_holds ?x hs (hb_content_hash blob) (cw_host ?w)"
    by (auto split: sum.splits)
qed

lemma ensure_history_hoare:
  assumes sha: "\<And>bs. length (x_sha256 (en_x e) bs) = 32" and roots: "vs_root st \<noteq> hs_root hs"
    and q: "q \<noteq> []" and hash: "length (hash_bytes hash) = 32"
  shows "hoare (new_state (en_x e) hs dur (vs_root st) q content w0)
    (ensure_history_blob e st hs p (Some (as_hex hash)) managed)
    (\<lambda>_ w. new_state (en_x e) hs dur (vs_root st) q content w0 w \<and> blob_holds (en_x e) hs hash (cw_host w))
    (new_state (en_x e) hs dur (vs_root st) q content w0)"
proof -
  let ?N = "new_state (en_x e) hs dur (vs_root st) q content w0" and ?x = "en_x e"
  have contains: "hoare ?N (fs_call (history_contains ?x hs hash))
      (\<lambda>present w. ?N w \<and> (present \<longrightarrow> blob_holds ?x hs hash (cw_host w))) ?N"
  proof (rule hoare_mapErr, rule hoare_on_fs)
    fix w :: core_world and r h'
    assume new: "?N w" and run: "history_contains ?x hs hash (cw_host w) = (r, h')"
    then have ok: "blobs_ok ?x hs (cw_host w)" by (simp add: new_state_def)
    show "case r of Err _ \<Rightarrow> ?N (w\<lparr>cw_host := h'\<rparr>) | Ok present \<Rightarrow> ?N (w\<lparr>cw_host := h'\<rparr>) \<and>
        (present \<longrightarrow> blob_holds ?x hs hash (cw_host (w\<lparr>cw_host := h'\<rparr>)))"
      using history_contains_spec [OF run hash ok] new new_host [of ?x hs dur "vs_root st" q content w0 w h']
        holds_same [of "cw_host w" h'] same_blobs [of "cw_host w" h']
      by (auto simp: new_state_def split: sum.splits)
  qed
  have opened: "hoare ?N (fs_call (open_read ?x st p managed)) (\<lambda>_. ?N) ?N"
  proof (rule hoare_mapErr, rule hoare_within [OF fs_reads_keep(3) [OF q]])
    show "?N w'" if "?N w" "keeps_target (vs_root st) q w w'" for w w'
      using that outside_blobs [OF _ roots, of "cw_host w" "cw_host w'"]
      by (simp add: new_state_def holds_def keeps_target_def)
  qed
  note put = put_reader_hoare [OF sha roots]
  have hash_ok: "map_err VStorage (from_hex (as_hex hash)) = Ok hash" using from_hex_as_hex [OF hash] by simp
  show ?thesis
    unfolding ensure_history_blob_def option.case hash_ok
    by (rule hoare_bind [OF hoare_lift [where Q = "\<lambda>y w. ?N w \<and> y = hash"]]; simp?)
      (auto intro!: hoare_pure hoare_bind [OF contains] hoare_bind [OF opened] hoare_bind [OF put]
        hoare_return hoare_throw hoare_splits)
qed

definition ready_state ::
  "externals \<Rightarrow> history_store \<Rightarrow> durability_policy \<Rightarrow> host_root \<Rightarrow> string list \<Rightarrow> bytes \<Rightarrow>
     core_world \<Rightarrow> core_world \<Rightarrow> bool" where
  "ready_state x hs dur r q content w0 w \<longleftrightarrow> new_state x hs dur r q content w0 w \<and>
     blob_holds x hs (ContentHash (x_sha256 x content)) (cw_host w)"

lemma ready_journal:
  "ready_state x hs dur r q content w0 w \<Longrightarrow> journal_only w w' \<Longrightarrow> ready_state x hs dur r q content w0 w'"
  unfolding ready_state_def by (meson blob_same journal_only_def new_journal)

lemma ready_safe: "ready_state x hs dur r q content w0 w \<Longrightarrow> write_safe x hs dur r q content w0 w"
  by (simp add: ready_state_def write_safe_def)

lemma committed_journal:
  "committed_state x hs dur r q content rv w0 w \<Longrightarrow> journal_only w w' \<Longrightarrow>
     committed_state x hs dur r q content rv w0 w'"
  by (auto simp: committed_state_def journal_only_def holds_same same_blobs recorded_def intro: blob_same)

text \<open>The metadata transaction of a payload, with everything it may do seen by the caller.\<close>

lemma commit_payload_rule:
  assumes stable: "\<And>w w'. P w \<Longrightarrow> journal_only w w' \<Longrightarrow> P w'" and PE: "\<And>w. P w \<Longrightarrow> E w"
    and commit: "\<And>w w' now env hook input a. P w \<Longrightarrow> same_fs (cw_host w) (cw_host w') \<Longrightarrow>
      to_commit_input now pl = Ok input \<Longrightarrow>
      commit_mutation (x_uuid_str (en_x e)) (sha256_hex (en_x e)) env hook ctx input (cw_db w)
        = Ok (a, cw_db w') \<Longrightarrow> Q (mc_revision a) w' \<and> E w'"
  shows "hoare P (commit_payload e c ctx pl) (\<lambda>res. Q (mr_revision res)) E"
proof -
  have clock: "hoare P (tick f) (\<lambda>_. P) E" for f
    using journal_effects(1) by (rule hoare_journal) (auto intro: stable PE)
  have act: "hoare P (db_write e (\<lambda>now. commit_mutation (x_uuid_str (en_x e)) (sha256_hex (en_x e))
      (commit_env_at e t now) (hook_of c t) ctx input)) (\<lambda>a. Q (mc_revision a)) E"
    if input: "to_commit_input now pl = Ok input" for now t input
    unfolding db_write_def
  proof (rule hoare_bind [OF clock], rule hoareI)
    fix now' w res w'
    assume P: "P w" and "db_call (commit_mutation (x_uuid_str (en_x e)) (sha256_hex (en_x e))
      (commit_env_at e t now') (hook_of c t) ctx input) w = (res, w')"
    from this(2) show "case res of Err _ \<Rightarrow> E w' | Ok a \<Rightarrow> Q (mc_revision a) w'"
    proof (cases rule: db_call_cases)
      case (unchanged f)
      then show ?thesis using PE stable [OF P] by (simp add: journal_only_def)
    next
      case (committed a)
      then show ?thesis using commit [OF P committed(1) input committed(2)] by auto
    qed
  qed
  have ticks: "P (w\<lparr>cw_ticks := t\<rparr>)" if "P w" for w t
    by (rule stable [OF that]) (simp add: journal_only_def same_fs.step_refl)
  show ?thesis
    unfolding commit_payload_def
    by (rule hoare_bind [OF clock], rule hoare_bind [OF hoare_lift [where
          Q = "\<lambda>input w. P w \<and> to_commit_input now pl = Ok input" for now]])
      (auto intro!: PE hoare_pure hoare_bind [OF hoare_gets [where Q = "\<lambda>_. P"]]
        hoare_bind [OF hoare_modify [where Q = "\<lambda>_. P"]] hoare_bind [OF hoare_mapErr [OF act]] hoare_return
        ticks)
qed

lemma commit_appends:
  assumes "commit_mutation uuid_str sha256 env hook ctx input db = Ok (a, db')" "to_commit_input now pl = Ok input"
  shows "db_revisions db' = db_revisions db @ [mc_revision a] \<and>
    rr_content_hash (mc_revision a) = cp_content_hash pl"
proof -
  have "ci_content_hash input = cp_content_hash pl"
    using assms(2) by (auto simp: to_commit_input_def bind_r_Ok_conv)
  with assms(1) show ?thesis by (auto elim!: commit_mutation_tables simp: revision_row_def)
qed

lemma commit_payload_hoare:
  assumes "cp_content_hash pl = Some (as_hex (ContentHash (x_sha256 x content)))"
  shows "hoare (ready_state x hs dur r q content w0) (commit_payload e c ctx pl)
    (\<lambda>res w. committed_state x hs dur r q content (mr_revision res) w0 w)
    (write_safe x hs dur r q content w0)"
proof (rule commit_payload_rule)
  fix w w' :: core_world and now env hook input a
  assume ready: "ready_state x hs dur r q content w0 w" and same: "same_fs (cw_host w) (cw_host w')"
    and "to_commit_input now pl = Ok input"
      "commit_mutation (x_uuid_str (en_x e)) (sha256_hex (en_x e)) env hook ctx input (cw_db w) = Ok (a, cw_db w')"
  note app = commit_appends [OF this(4,3)]
  have "db_revisions (cw_db w) = db_revisions (cw_db w0)"
    using ready by (simp add: ready_state_def new_state_def recorded_def)
  then have "committed_state x hs dur r q content (mc_revision a) w0 w'"
    using ready same app assms
    by (auto simp: ready_state_def new_state_def committed_state_def holds_same same_blobs intro: blob_same)
  then show "committed_state x hs dur r q content (mc_revision a) w0 w' \<and> write_safe x hs dur r q content w0 w'"
    by (auto simp: write_safe_def)
qed (auto intro: ready_journal ready_safe)

section \<open>A whole write\<close>

lemma begin_unnamed_hoare:
  assumes "file_name (as_path tp) = None" "segments p \<noteq> []"
  shows "hoare (keeps_target (vs_root st) (segments p) w0)
    (on_fs (begin_atomic_write_at x st p pol tp managed)) (\<lambda>_ _. False)
    (keeps_target (vs_root st) (segments p) w0)"
proof (rule hoareI)
  fix w res w'
  let ?m = "begin_atomic_write_at x st p pol tp managed"
  assume k: "keeps_target (vs_root st) (segments p) w0 w" and run: "on_fs ?m w = (res, w')"
  have "within (root_step (vs_root st)) ?m"
    unfolding begin_atomic_write_at_def assms(1) option.case
    by (intro root_step.within_core within_split ensure_root_step same_root [OF free_space_same])
  from on_fs_root_keeps [OF this assms(2)] run have "keeps_target (vs_root st) (segments p) w w'"
    by (rule withinD)
  with k have "keeps_target (vs_root st) (segments p) w0 w'" by (rule keeps.step_trans)
  moreover have "\<not> is_ok res"
    using run assms(1) by (auto simp: on_fs_def begin_atomic_write_at_def bind_x_def is_ok_def
        split: prod.splits sum.splits if_splits)
  ultimately show "case res of Err _ \<Rightarrow> keeps_target (vs_root st) (segments p) w0 w' | Ok _ \<Rightarrow> False"
    by (auto simp: is_ok_def split: sum.splits)
qed

lemma hoare_false: "hoare (\<lambda>_. False) m Q E"
  by (simp add: hoare_def)

abbreviation kept_at :: "vault_storage \<Rightarrow> vault_path \<Rightarrow> core_world \<Rightarrow> core_world \<Rightarrow> bool" where
  "kept_at st p \<equiv> keeps_target (vs_root st) (segments p)"

abbreviation new_at ::
  "core_env \<Rightarrow> vault_storage \<Rightarrow> history_store \<Rightarrow> vault_path \<Rightarrow> bytes \<Rightarrow> core_world \<Rightarrow> core_world \<Rightarrow> bool" where
  "new_at e st hs p \<equiv> new_state (en_x e) hs (durability (vs_options st)) (vs_root st) (segments p)"

abbreviation ready_at ::
  "core_env \<Rightarrow> vault_storage \<Rightarrow> history_store \<Rightarrow> vault_path \<Rightarrow> bytes \<Rightarrow> core_world \<Rightarrow> core_world \<Rightarrow> bool" where
  "ready_at e st hs p \<equiv> ready_state (en_x e) hs (durability (vs_options st)) (vs_root st) (segments p)"

abbreviation committed_at ::
  "core_env \<Rightarrow> vault_storage \<Rightarrow> history_store \<Rightarrow> vault_path \<Rightarrow> bytes \<Rightarrow> file_revision_record \<Rightarrow>
     core_world \<Rightarrow> core_world \<Rightarrow> bool" where
  "committed_at e st hs p \<equiv>
     committed_state (en_x e) hs (durability (vs_options st)) (vs_root st) (segments p)"

abbreviation safe_at ::
  "core_env \<Rightarrow> vault_storage \<Rightarrow> history_store \<Rightarrow> vault_path \<Rightarrow> bytes \<Rightarrow> core_world \<Rightarrow> core_world \<Rightarrow> bool" where
  "safe_at e st hs p \<equiv> write_safe (en_x e) hs (durability (vs_options st)) (vs_root st) (segments p)"

lemma safe_cases:
  "kept_at st p w0 w \<Longrightarrow> safe_at e st hs p content w0 w"
  "new_at e st hs p content w0 w \<Longrightarrow> safe_at e st hs p content w0 w"
  "committed_at e st hs p content rv w0 w \<Longrightarrow> safe_at e st hs p content w0 w"
  by (auto simp: write_safe_def)

lemma record_hoare:
  \<comment> \<open>after the rename: journal, history blob, metadata transaction\<close>
  assumes sha: "\<And>bs. length (x_sha256 (en_x e) bs) = 32" and roots: "vs_root st \<noteq> hs_root hs"
    and seg: "segments p \<noteq> []"
    and hash: "cp_content_hash pl = Some (as_hex (ContentHash (x_sha256 (en_x e) content)))"
  shows "hoare (new_at e st hs p content w0)
    (bind_x (update_payload e ctx pl) (\<lambda>_.
     bind_x (inject c RenameCommitted) (\<lambda>_.
     bind_x (file_committed e ctx oid (cp_content_hash pl)) (\<lambda>_.
     bind_x (ensure_history_blob e st hs p (cp_content_hash pl) managed) (\<lambda>_.
     bind_x (commit_payload e c ctx pl) (\<lambda>result.
     bind_x (inject c MetadataCommittedPhase) (\<lambda>_. return_x result)))))))
    (\<lambda>res. committed_at e st hs p content (mr_revision res) w0) (safe_at e st hs p content w0)"
proof -
  have journal: "hoare (new_at e st hs p content w0) m (\<lambda>_. new_at e st hs p content w0) (safe_at e st hs p content w0)" if "within journal_only m" for m
    by (rule hoare_conseq [OF hoare_journal_new [OF that]]) (auto intro: safe_cases)
  have "length (hash_bytes (ContentHash (x_sha256 (en_x e) content))) = 32" by (simp add: sha)
  note stored = ensure_history_hoare [OF sha roots seg this]
  have blob: "hoare (new_at e st hs p content w0) (ensure_history_blob e st hs p (cp_content_hash pl) managed)
      (\<lambda>_. ready_at e st hs p content w0) (safe_at e st hs p content w0)"
    unfolding hash by (rule hoare_conseq [OF stored]) (auto simp: ready_state_def intro: safe_cases)
  have last: "hoare (committed_at e st hs p content rv w0) (inject c phase) (\<lambda>_. committed_at e st hs p content rv w0) (safe_at e st hs p content w0)" for rv phase
    using journal_effects(3) by (rule hoare_journal) (auto intro: committed_journal simp: write_safe_def)
  show ?thesis
    by (rule hoare_bind [OF journal [OF journal_effects(6)]], rule hoare_bind [OF journal [OF journal_effects(3)]],
      rule hoare_bind [OF journal [OF journal_effects(5)]], rule hoare_bind [OF blob],
      rule hoare_bind [OF commit_payload_hoare [OF hash]], rule hoare_bind [OF last], rule hoare_return)
qed

lemma write_phase_hoare:
  assumes sha: "\<And>bs. length (x_sha256 (en_x e) bs) = 32" and roots: "vs_root st \<noteq> hs_root hs"
    and seg: "segments p \<noteq> []" and t: "file_name (as_path temporary) \<noteq> Some (last (segments p))"
    and blobs: "blobs_ok (en_x e) hs (cw_host w0)"
  shows "hoare (kept_at st p w0) (write_phase e c ctx st hs p absent managed temporary src pl)
    (\<lambda>res. committed_at e st hs p (source_content src) (mr_revision res) w0) (safe_at e st hs p (source_content src) w0)"
proof (cases "file_name (as_path temporary)")
  case None
  show ?thesis unfolding write_phase_def Let_def
    by (rule hoare_bind [OF failing_hoare [OF begin_unnamed_hoare [OF None seg]]])
      (auto intro: safe_cases keeps_journal hoare_false)
next
  case (Some name)
  let ?x = "en_x e" and ?content = "source_content src" and ?pol = "destination_policy_for absent"
  let ?K = "kept_at st p w0" and ?S = "safe_at e st hs p ?content w0"
  have ne: "name \<noteq> last (segments p)" using t Some by simp
  have safe: "?S w'" if "?K w" "journal_only w w'" for w w'
    using keeps_journal [OF that] by (simp add: write_safe_def)
  have safe2: "?S w'" if "?K w \<or> new_at e st hs p ?content w0 w" "journal_only w w'" for w w'
    using that safe new_journal by (auto simp: write_safe_def)
  have begin_ok: "hoare ?K (failing e ctx oid reason (on_fs (begin_atomic_write_at ?x st p ?pol temporary managed)))
      (\<lambda>aw w. ?K w \<and> staged_at st p ?pol managed name aw (cw_host w)) ?S" for oid reason
    by (rule failing_hoare [OF begin_hoare [OF Some ne seg] safe])
  have stream_ok: "hoare (\<lambda>w. ?K w \<and> staged_at st p ?pol managed name aw (cw_host w))
      (failing e ctx oid reason (on_fs (stream_source ?x src aw)))
      (\<lambda>y w. (?K w \<and> streamed_at ?x st p ?pol managed name ?content (snd y) (cw_host w)) \<and>
         wp_content_hash (fst y) = ContentHash (x_sha256 ?x ?content)) ?S" for aw oid reason
    by (rule failing_hoare [OF hoare_conseq [OF stream_hoare [OF ne]] safe]) auto
  have sync_ok: "hoare (\<lambda>w. ?K w \<and> streamed_at ?x st p ?pol managed name ?content aw (cw_host w))
      (failing e ctx oid reason (on_fs (with_write aw sync)))
      (\<lambda>y w. ?K w \<and> synced_at ?x st p ?pol managed name ?content (snd y) (cw_host w)) ?S" for aw oid reason
    by (rule failing_hoare [OF sync_hoare [OF ne] safe])
  have commit_ok: "hoare (\<lambda>w. ?K w \<and> synced_at ?x st p ?pol managed name ?content aw (cw_host w))
      (failing e ctx oid reason (on_fs (commit ?x aw))) (\<lambda>_. new_at e st hs p ?content w0) ?S" for aw oid reason
    by (rule failing_hoare [OF commit_hoare [OF ne refl blobs roots] safe2])
  have journal: "hoare (\<lambda>w. ?K w \<and> A (cw_host w)) m (\<lambda>_ w. ?K w \<and> A (cw_host w)) ?S"
    if m: "within journal_only m" and A: "\<And>h h'. same_fs h h' \<Longrightarrow> A h \<Longrightarrow> A h'" for m A
  proof (rule hoare_journal [OF m])
    show "?K w' \<and> A (cw_host w')" if "?K w \<and> A (cw_host w)" "journal_only w w'" for w w'
      using that keeps_journal A by (auto simp: journal_only_def)
  qed (simp add: safe_cases(1))
  have streamed: "hoare (\<lambda>w. ?K w \<and> streamed_at ?x st p ?pol managed name ?content aw (cw_host w)) m
      (\<lambda>_ w. ?K w \<and> streamed_at ?x st p ?pol managed name ?content aw (cw_host w)) ?S"
    if "within journal_only m" for m aw by (rule journal [OF that at_same(1)])
  have synced: "hoare (\<lambda>w. ?K w \<and> synced_at ?x st p ?pol managed name ?content aw (cw_host w)) m
      (\<lambda>_ w. ?K w \<and> synced_at ?x st p ?pol managed name ?content aw (cw_host w)) ?S"
    if "within journal_only m" for m aw by (rule journal [OF that at_same(2)])
  show ?thesis
    unfolding write_phase_def Let_def split_def
    by (rule hoare_bind [OF begin_ok], rule hoare_bind [OF stream_ok], rule hoare_pure,
      rule hoare_bind [OF streamed [OF journal_effects(6)]], rule hoare_bind [OF streamed [OF journal_effects(3)]],
      rule hoare_bind [OF sync_ok], rule hoare_bind [OF synced [OF journal_effects(3)]],
      rule hoare_bind [OF commit_ok], rule record_hoare [OF sha roots seg]) simp
qed

lemma segments_ne: "wf_path p \<Longrightarrow> \<not> is_root p \<Longrightarrow> segments p \<noteq> []"
  by (simp add: segments_nonroot)

lemma tick_hoare: "hoare (kept_at st p w0) (tick f) (\<lambda>y w. kept_at st p w0 w \<and> (\<exists>n. y = f n)) E"
  by (auto simp: hoare_def tick_def keeps_target_def)

lemma kept_hoare:
  assumes "within (kept_at st p) m"
  shows "hoare (kept_at st p w0) m (\<lambda>_. kept_at st p w0) (safe_at e st hs p content w0)"
  by (rule hoare_within [OF assms]) (auto intro: keeps.step_trans safe_cases)

lemma lift_hoare:
  "hoare (kept_at st p w0) (lift_x r) (\<lambda>y w. kept_at st p w0 w \<and> r = Ok y) (safe_at e st hs p content w0)"
  by (rule hoare_lift) (auto intro: safe_cases)

lemma fresh_or_journal: "within journal_only (fresh_or e target)"
  unfolding fresh_or_def by (intro journal_steps)

lemma journalled_write_hoare:
  assumes sha: "\<And>bs. length (x_sha256 (en_x e) bs) = 32" and roots: "vs_root st \<noteq> hs_root hs"
    and wf: "wf_path p" "\<not> is_root p"
    and tmp: "\<And>n tp. temporary_path_for (en_x e) st p managed (en_simple e n) = Ok tp \<Longrightarrow>
      file_name (as_path tp) \<noteq> Some (last (segments p))"
    and blobs: "blobs_ok (en_x e) hs (cw_host w0)"
  shows "hoare (kept_at st p w0) (journalled_write e c ctx st hs p op expected absent managed src rq target)
    (\<lambda>res. committed_at e st hs p (source_content src) (mr_revision res) w0)
    (safe_at e st hs p (source_content src) w0)"
proof -
  note seg = segments_ne [OF wf]
  let ?S = "safe_at e st hs p (source_content src) w0"
  note journal = kept_hoare [OF journal_within_keeps]
  have temp: "hoare (\<lambda>w. kept_at st p w0 w \<and> (\<exists>n. simple = en_simple e n))
      (lift_x (map_err VStorage (temporary_path_for (en_x e) st p managed simple)))
      (\<lambda>tp w. kept_at st p w0 w \<and> file_name (as_path tp) \<noteq> Some (last (segments p))) ?S" for simple
    by (rule hoare_lift) (auto intro: safe_cases dest: tmp)
  show ?thesis
    unfolding journalled_write_def Let_def
    by (rule hoare_bind [OF journal [OF fresh_or_journal]], rule hoare_bind [OF journal [OF journal_effects(1)]],
      rule hoare_bind [OF kept_hoare [OF create_parents_keeps [OF wf(1)]]], rule hoare_bind [OF tick_hoare],
      rule hoare_bind [OF temp], rule hoare_pure, rule hoare_bind [OF lift_hoare], rule hoare_pure,
      rule hoare_bind [OF journal [OF journal_effects(4)]], rule hoare_bind [OF journal [OF journal_effects(3)]],
      rule write_phase_hoare [OF sha roots seg _ blobs])
qed

lemma guarded_rule:
  assumes body: "hoare P body Q E" and valid: "hoare P (validate_registered_context ctx b) (\<lambda>_. P) E"
    and gate: "\<And>w g. P w \<Longrightarrow> P (w\<lparr>cw_gate := g\<rparr>)" "\<And>a w g. Q a w \<Longrightarrow> Q a (w\<lparr>cw_gate := g\<rparr>)"
      "\<And>w g. E w \<Longrightarrow> E (w\<lparr>cw_gate := g\<rparr>)"
    and PE: "\<And>w. P w \<Longrightarrow> E w"
  shows "hoare P (guarded ctx b body) Q E"
proof -
  have start: "hoare P (start_operation b) (\<lambda>_. P) E"
    by (auto simp: hoare_def start_operation_def intro: gate PE split: prod.splits option.splits)
  have leave: "hoare (Q a) (bind_x (modify_x (drop_operation k)) (\<lambda>_. lift_x (Ok a))) Q E" for a k
    by (auto simp: hoare_def drop_operation_def intro: gate)
  have leave_err: "hoare E (bind_x (modify_x (drop_operation k)) (\<lambda>_. lift_x (Err f))) Q E" for k f
    by (auto simp: hoare_def drop_operation_def intro: gate)
  show ?thesis
    unfolding guarded_def
    by (rule hoare_bind [OF start], rule hoare_try [OF hoare_bind [OF valid body]]) (rule leave leave_err)+
qed

lemma guarded_hoare:
  assumes body: "hoare P body Q E" and P: "\<And>w w'. P w \<Longrightarrow> journal_only w w' \<Longrightarrow> P w'"
    and gate: "\<And>w g. P w \<Longrightarrow> P (w\<lparr>cw_gate := g\<rparr>)" "\<And>a w g. Q a w \<Longrightarrow> Q a (w\<lparr>cw_gate := g\<rparr>)"
      "\<And>w g. E w \<Longrightarrow> E (w\<lparr>cw_gate := g\<rparr>)"
    and PE: "\<And>w. P w \<Longrightarrow> E w"
  shows "hoare P (guarded ctx b body) Q E"
proof (rule guarded_rule [OF body _ gate PE])
  have "within journal_only (validate_registered_context ctx b)"
    unfolding validate_registered_context_def by (intro journal_steps)
  then show "hoare P (validate_registered_context ctx b) (\<lambda>_. P) E"
    by (rule hoare_journal) (auto intro: P PE)
qed

lemma lookup_hoare:
  "hoare (kept_at st p w0) (lookup_idempotency e ctx key pl)
     (\<lambda>known w. kept_at st p w0 w \<and> (known \<noteq> None \<longrightarrow> key \<noteq> None)) (safe_at e st hs p content w0)"
proof (cases key)
  case None
  then show ?thesis unfolding lookup_idempotency_def by (auto intro!: hoare_return)
next
  case (Some k)
  have "within journal_only (lookup_idempotency e ctx key pl)"
    unfolding lookup_idempotency_def
    by (intro journal_steps; auto intro!: journal_steps split: idempotency_lookup.splits)
  from kept_hoare [OF journal_within_keeps [OF this]] show ?thesis
    by (rule hoare_conseq) (auto simp: Some)
qed

lemma gate_irrelevant [simp]:
  "keeps_target r q w0 (w\<lparr>cw_gate := g\<rparr>) = keeps_target r q w0 w"
  "new_state x hs dur r q content w0 (w\<lparr>cw_gate := g\<rparr>) = new_state x hs dur r q content w0 w"
  "committed_state x hs dur r q content rv w0 (w\<lparr>cw_gate := g\<rparr>) = committed_state x hs dur r q content rv w0 w"
  "write_safe x hs dur r q content w0 (w\<lparr>cw_gate := g\<rparr>) = write_safe x hs dur r q content w0 w"
  by (simp_all add: keeps_target_def new_state_def committed_state_def write_safe_def)

lemma content_mutation_hoare:
  fixes e c ctx p managed
  defines "st \<equiv> core_storage c ctx"
  assumes sha: "\<And>bs. length (x_sha256 (en_x e) bs) = 32"
    and hs: "history_store_new (en_x e) ctx (vc_history_root c) (vc_storage_options c) = Ok hs"
    and roots: "vs_root st \<noteq> hs_root hs" and wf: "wf_path p" "\<not> is_root p"
    and tmp: "\<And>n tp. temporary_path_for (en_x e) st p managed (en_simple e n) = Ok tp \<Longrightarrow>
      file_name (as_path tp) \<noteq> Some (last (segments p))"
    and blobs: "blobs_ok (en_x e) hs (cw_host w0)"
  shows "hoare (kept_at st p w0) (content_mutation_with_policy e c ctx p op expected absent managed src rq)
    (\<lambda>res w. rq_idempotency_key rq \<noteq> None \<and> kept_at st p w0 w \<or>
       committed_at e st hs p (source_content src) (mr_revision res) w0 w)
    (safe_at e st hs p (source_content src) w0)"
proof -
  let ?K = "kept_at st p w0" and ?S = "safe_at e st hs p (source_content src) w0"
  let ?Q = "\<lambda>res w. rq_idempotency_key rq \<noteq> None \<and> ?K w \<or>
    committed_at e st hs p (source_content src) (mr_revision res) w0 w"
  note journal = kept_hoare [OF journal_within_keeps]
  have store: "hoare ?K (core_history e c ctx) (\<lambda>y w. ?K w \<and> y = hs) ?S"
    unfolding core_history_def hs by (rule hoare_lift) (auto intro: safe_cases)
  have sig: "within journal_only (signature_payload e p op expected absent rq target)" for target
    unfolding signature_payload_def by (intro journal_steps fresh_or_journal)
  have fresh_write: "hoare ?K (bind_x (admit_target e st p op expected absent managed target) (\<lambda>_.
      journalled_write e c ctx st hs p op expected absent managed src rq target)) ?Q ?S" for target
    by (rule hoare_bind [OF kept_hoare [OF admit_keeps [OF segments_ne [OF wf]]]],
      rule hoare_conseq [OF journalled_write_hoare [OF sha roots wf tmp blobs]]) auto
  have known: "hoare (\<lambda>w. ?K w \<and> (known \<noteq> None \<longrightarrow> rq_idempotency_key rq \<noteq> None))
      (case known of Some result \<Rightarrow> return_x result
       | None \<Rightarrow> bind_x (admit_target e st p op expected absent managed target) (\<lambda>_.
           journalled_write e c ctx st hs p op expected absent managed src rq target)) ?Q ?S" for known target
  proof (cases known)
    case None
    show ?thesis unfolding None option.case by (rule hoare_pre [OF fresh_write]) simp
  next
    case (Some result)
    show ?thesis unfolding Some option.case by (rule hoare_return) simp
  qed
  show ?thesis
    unfolding content_mutation_with_policy_def Let_def st_def [symmetric]
    by (rule guarded_hoare, rule hoare_bind [OF store], rule hoare_pure, simp only:,
      rule hoare_bind [OF journal [OF journal_only.within_mapErr [OF journal_effects(2)]]],
      rule hoare_bind [OF journal [OF sig]], rule hoare_bind [OF lookup_hoare], rule known)
      (auto intro: keeps_journal safe_cases)
qed

text \<open>
  C1: content mutations are write-ahead. Whatever \<^verbatim>\<open>content_mutation_with_policy\<close>, the common path of
  create, replace, append, patch, copy, restore and heading edits, meets on its way (every sequence of I/O faults, a crash before or after any call, a
  database failure, an injected stop), the Vault is left in one of three states: nothing about the file
  changed; the canonical file holds the complete new bytes but no metadata is recorded yet; or it
  holds them, the history store holds at the address of their digest a regular file whose bytes have
  exactly this digest, and exactly one revision was appended, which names it. In every one of these
  states each blob of the history store still has the digest it is filed under: that is assumed of
  the store before the mutation, because the code takes a blob it finds at the address on trust, and
  it is re-established by the mutation, whatever it stored. The stored bytes equal the written ones
  unless two texts with the same SHA-256 digest are known to the store. So file and revision metadata never run ahead of the canonical file
  or of the history store, and no partially written file is ever visible. If the mutation reports
  success, the last case holds for the revision it returns, unless it replayed an earlier request with
  the same idempotency key and changed nothing.
\<close>

theorem content_mutation_write_ahead:
  fixes e c ctx p managed
  defines "st \<equiv> core_storage c ctx" and "q \<equiv> segments p"
  assumes run: "content_mutation_with_policy e c ctx p op expected absent managed src rq w = (res, w')"
    and sha: "\<And>bs. length (x_sha256 (en_x e) bs) = 32"
    and hs: "history_store_new (en_x e) ctx (vc_history_root c) (vc_storage_options c) = Ok hs"
    and roots: "vs_root st \<noteq> hs_root hs" and blobs: "blobs_ok (en_x e) hs (cw_host w)"
    and wf: "wf_path p" "\<not> is_root p"
    and tmp: "\<forall>n tp. temporary_path_for (en_x e) st p managed (en_simple e n) = Ok tp \<longrightarrow>
      file_name (as_path tp) \<noteq> Some (last q)"
  shows "blobs_ok (en_x e) hs (cw_host w') \<and>
    (recorded (cw_db w') = recorded (cw_db w) \<and>
       (view (cw_host w') (vs_root st) q = view (cw_host w) (vs_root st) q \<or>
        holds (durability (vs_options st)) (vs_root st) q (source_content src) (cw_host w')) \<or>
      (\<exists>rv. committed_at e st hs p (source_content src) rv w w')) \<and>
    (\<forall>result. res = Ok result \<longrightarrow>
       rq_idempotency_key rq \<noteq> None \<and> recorded (cw_db w') = recorded (cw_db w) \<and>
         view (cw_host w') (vs_root st) q = view (cw_host w) (vs_root st) q \<or>
       committed_at e st hs p (source_content src) (mr_revision result) w w')"
proof -
  have "hoare (kept_at st p w) (content_mutation_with_policy e c ctx p op expected absent managed src rq)
    (\<lambda>res w'. rq_idempotency_key rq \<noteq> None \<and> kept_at st p w w' \<or>
       committed_at e st hs p (source_content src) (mr_revision res) w w')
    (safe_at e st hs p (source_content src) w)"
    unfolding st_def
    by (rule content_mutation_hoare [OF sha hs roots [unfolded st_def] wf _ blobs])
      (rule tmp [unfolded st_def q_def, rule_format])
  note final = hoareD [OF this keeps.step_refl run]
  have kept: "blobs_ok (en_x e) hs (cw_host w')" if "kept_at st p w w'"
    using that outside_blobs [OF _ roots, of "cw_host w" "cw_host w'"] blobs by (simp add: keeps_target_def)
  then have "blobs_ok (en_x e) hs (cw_host w')"
    using final by (cases res) (auto simp: write_safe_def new_state_def committed_state_def)
  with final show ?thesis
    by (cases res) (auto simp: write_safe_def keeps_target_def new_state_def q_def)
qed

theorem content_mutation_write_ahead_witness:
  "\<exists>w'. snd (content_mutation_with_policy example_core_env example_core example_ctx (VaultPath ''a.md'')
       OpCreate None True False (byte_reader ''text'') example_request
       (example_world (replicate 30 Fine @ [Stop 1]) gate_new)) = w' \<and>
     (recorded (cw_db w') = recorded example_db0 \<or>
      (\<exists>rv. db_revisions (cw_db w') = [rv] \<and>
         rr_content_hash rv = Some (as_hex (ContentHash (replicate 32 4)))))"
proof -
  let ?p = "VaultPath ''a.md''" and ?w = "example_world (replicate 30 Fine @ [Stop 1]) gate_new"
  let ?st = "core_storage example_core example_ctx" and ?x = "en_x example_core_env"
  let ?run = "content_mutation_with_policy example_core_env example_core example_ctx ?p OpCreate None True
    False (byte_reader ''text'') example_request ?w"
  obtain res w' where run: "?run = (res, w')" by (rule prod.exhaust)
  obtain hs where hs: "history_store_new ?x example_ctx (vc_history_root example_core)
      (vc_storage_options example_core) = Ok hs" "hs_root hs = [''srv'', ''h'']"
    by (rule that [of "\<lparr>hs_vault_id = 7, hs_root = [''srv'', ''h''], hs_blob_root = VaultPath ''u/blobs'',
        hs_options = storage_options_default\<rparr>"]) code_simp+
  have sha: "length (x_sha256 ?x bs) = 32" for bs by (simp add: example_core_env_def example_externals_def)
  have roots: "vs_root ?st \<noteq> hs_root hs" unfolding hs(2) by code_simp
  have "h_roots (cw_host ?w) [''srv'', ''h''] = None" by code_simp
  then have blobs: "blobs_ok ?x hs (cw_host ?w)" by (simp add: blobs_ok_def hs(2) view_look)
  have wf: "wf_path ?p" "\<not> is_root ?p" by code_simp+
  have name: "file_name (as_path tp) \<noteq> Some (last (segments ?p))"
    if "temporary_path_for ?x ?st ?p False (en_simple example_core_env n) = Ok tp" for n tp
  proof -
    have "temporary_path_for ?x ?st ?p False ''7'' = Ok (TemporaryPath (VaultPath ''.mcp-vault-tmp-7''))"
      by code_simp
    then have "tp = TemporaryPath (VaultPath ''.mcp-vault-tmp-7'')"
      using that by (simp add: example_core_env_def)
    moreover have "file_name (VaultPath ''.mcp-vault-tmp-7'') \<noteq> Some (last (segments ?p))" by code_simp
    ultimately show ?thesis by simp
  qed
  have db: "cw_db ?w = example_db0" "db_revisions example_db0 = []"
    by (simp_all add: example_world_def example_db0_def db_empty_def)
  have "x_sha256 ?x ''text'' = replicate 32 4" by (simp add: example_core_env_def example_externals_def)
  moreover have "\<forall>n tp. temporary_path_for ?x ?st ?p False (en_simple example_core_env n) = Ok tp \<longrightarrow>
      file_name (as_path tp) \<noteq> Some (last (segments ?p))" using name by blast
  note content_mutation_write_ahead [OF run sha hs(1) roots blobs wf this, THEN conjunct2, THEN conjunct1]
  ultimately show ?thesis unfolding run using db by (auto simp: committed_state_def byte_reader_def)
qed

end
