(* ===== verification/Core_Recovery.thy ===== *)
theory Core_Recovery
  imports Core_Writes
begin

text \<open>
  What crash recovery guarantees: it never touches a canonical file, it records only what the file
  system proves, and when it reports success no journal entry is left open.
\<close>

section \<open>What reading a digest proves\<close>

definition digest_at :: "externals \<Rightarrow> host_root \<Rightarrow> string list \<Rightarrow> string \<Rightarrow> host \<Rightarrow> bool" where
  "digest_at x r q hex h \<longleftrightarrow>
     (\<exists>content b a. view h r q = Some (FileNode content b a) \<and>
        as_hex (ContentHash (x_sha256 x content)) = hex)"

lemma open_regular_hoare:
  "hoare (\<lambda>_. True) (open_regular d leaf) (\<lambda>n h. view h (pd_root d) (child d leaf) = Some (shallow n)) (\<lambda>_. True)"
proof (rule hoareI)
  fix h r h'
  assume run: "open_regular d leaf h = (r, h')"
  show "case r of Err _ \<Rightarrow> True | Ok n \<Rightarrow> view h' (pd_root d) (child d leaf) = Some (shallow n)"
  proof (cases r)
    case (Inr n)
    from run [unfolded Inr] obtain h1 where "sys_open_file (pd_root d) (child d leaf) h1 = (Ok n, h')"
      by (rule open_regular_Ok)
    from sys_open_file_Ok [OF this] show ?thesis by (auto simp: Inr dest: same_fs_view)
  qed simp
qed

lemma hoare_true: "hoare (\<lambda>_. True) m (\<lambda>_ _. True) (\<lambda>_. True)"
  by (simp add: hoare_def split: sum.splits)

lemma open_read_Ok:
  assumes "open_read x st p managed h = (Ok rf, h')"
  shows "view h' (vs_root st) (segments p) = Some (shallow (rf_node rf))"
proof -
  let ?T = "\<lambda>_. True" and ?seen = "\<lambda>n h. view h (vs_root st) (segments p) = Some (shallow n)"
  have parent: "hoare ?T (open_parent_with_leaf (vs_root st) p False)
      (\<lambda>y _. True \<and> pd_root (fst y) = vs_root st \<and> child (fst y) (snd y) = segments p) ?T"
    by (auto simp: hoare_def dest: open_parent_Ok split: sum.splits)
  have fstat: "hoare (?seen n) (call_std l (sys_fstat n)) (\<lambda>_. ?seen n) ?T" for n l
    by (rule hoare_within [OF call_same(2) [OF reads_same_fs(5)]]) (auto dest: same_fs_view)
  have opened: "hoare ?T (open_regular d leaf) ?seen ?T"
    if "pd_root d = vs_root st \<and> child d leaf = segments p" for d leaf
    using open_regular_hoare [of d leaf] that by simp
  have "hoare ?T (open_read x st p managed) (\<lambda>rf. ?seen (rf_node rf)) ?T"
    unfolding open_read_def open_read_validated_def split_def
    by (rule hoare_bind [OF hoare_true], rule hoare_splits, rule hoare_throw, simp,
        rule hoare_bind [OF hoare_true], rule hoare_bind [OF parent], rule hoare_pure,
        rule hoare_bind [OF hoare_true], rule hoare_splits, rule hoare_bind [OF hoare_true],
        rule hoare_splits, rule hoare_throw, simp, rule hoare_bind [OF opened], assumption,
        rule hoare_bind [OF fstat], rule hoare_return, simp, rule hoare_throw, simp)
  from hoareD [OF this _ assms] show ?thesis by simp
qed

lemma hash_file_Ok:
  assumes "hash_file x st p managed h = (Ok (n, hash), h')"
  shows "digest_at x (vs_root st) (segments p) (as_hex hash) h'"
proof -
  obtain rf h1 content where o: "open_read x st p managed h = (Ok rf, h1)"
    and r: "sys_read (rf_node rf) h1 = (Ok content, h')"
    and hash: "hash_reader x [] 0 [Chunk content] = Ok (n, hash)"
    using assms by (auto simp: hash_file_def bind_x_Ok_conv)
  have "same_fs h1 h'" using reads_same_fs(7) r by (rule withinD)
  moreover obtain b a where "rf_node rf = FileNode content b a"
    using r by (auto simp: sys_read_def syscall_def split: if_splits list.splits fault.splits node.splits)
  moreover have "hash = ContentHash (x_sha256 x content)" using hash by (auto split: if_splits)
  ultimately show ?thesis using open_read_Ok [OF o] by (auto simp: digest_at_def same_fs_view)
qed

section \<open>Entries are kept\<close>

definition keeps_entries :: "host_root \<Rightarrow> string list set \<Rightarrow> host \<Rightarrow> host \<Rightarrow> bool" where
  "keeps_entries r T h h' \<longleftrightarrow>
     (\<forall>q n. q \<notin> T \<longrightarrow> view h r q = Some n \<longrightarrow> view h' r q = Some n)"

interpretation keeps_entries: step_order "keeps_entries r T" for r T
  by unfold_locales (auto simp: keeps_entries_def)

lemma entries_intros:
  "same_fs h h' \<Longrightarrow> keeps_entries r T h h'"
  "root_step r h h' \<Longrightarrow> keeps_entries r T h h'"
  "tmp_only r t h h' \<Longrightarrow> t \<in> T \<Longrightarrow> keeps_entries r T h h'"
  "hist_step r' t' a content h h' \<Longrightarrow> r \<noteq> r' \<Longrightarrow> keeps_entries r T h h'"
proof -
  show "same_fs h h' \<Longrightarrow> keeps_entries r T h h'" by (simp add: keeps_entries_def same_fs_view)
  show "root_step r h h' \<Longrightarrow> keeps_entries r T h h'"
    unfolding keeps_entries_def using root_step_view [of r h h'] by (metis option.distinct(1) prod.inject)
  show "tmp_only r t h h' \<Longrightarrow> t \<in> T \<Longrightarrow> keeps_entries r T h h'"
    unfolding keeps_entries_def tmp_only_def by (metis prod.inject)
  show "hist_step r' t' a content h h' \<Longrightarrow> r \<noteq> r' \<Longrightarrow> keeps_entries r T h h'"
    by (auto simp: keeps_entries_def dest: hist_step_file)
qed

lemma keeps_digest: "keeps_entries r T h h' \<Longrightarrow> q \<notin> T \<Longrightarrow> digest_at x r q hex h \<Longrightarrow> digest_at x r q hex h'"
  by (auto simp: digest_at_def keeps_entries_def)

lemma remove_temporary_entries:
  assumes "segments (as_path t) \<in> T"
  shows "within (keeps_entries (vs_root st) T) (remove_temporary st t)"
proof (rule withinI)
  fix h
  let ?K = "keeps_entries (vs_root st) T h"
  have root: "hoare ?K (ensure_root st) (\<lambda>_. ?K) ?K"
    by (rule hoare_within [OF ensure_root_step]) (auto intro: keeps_entries.step_trans entries_intros(2))
  have same: "hoare ?K m (\<lambda>_. ?K) ?K" if "within same_fs m" for m
    by (rule hoare_within [OF that]) (auto intro: keeps_entries.step_trans entries_intros(1))
  have parent: "hoare ?K (open_parent_with_leaf (vs_root st) (as_path t) False)
      (\<lambda>y h'. ?K h' \<and> pd_root (fst y) = vs_root st \<and> child (fst y) (snd y) = segments (as_path t)) ?K"
  proof (rule hoareI)
    fix h1 r h2
    assume "?K h1" and run: "open_parent_with_leaf (vs_root st) (as_path t) False h1 = (r, h2)"
    then have "?K h2"
      using keeps_entries.step_trans entries_intros(1) [OF withinD [OF open_parent_same run]] by blast
    then show "case r of Err _ \<Rightarrow> ?K h2 | Ok y \<Rightarrow> ?K h2 \<and> pd_root (fst y) = vs_root st \<and>
        child (fst y) (snd y) = segments (as_path t)"
      using open_parent_Ok [of "vs_root st" "as_path t" h1 _ _ h2] run by (auto split: sum.splits)
  qed
  have clean: "hoare ?K (cleanup_temp d leaf) (\<lambda>_. ?K) ?K"
    if "pd_root d = vs_root st" "child d leaf = segments (as_path t)" for d leaf
  proof (rule hoareI)
    fix h1 r h2
    assume "?K h1" and run: "cleanup_temp d leaf h1 = (r, h2)"
    then show "case r of Err _ \<Rightarrow> ?K h2 | Ok _ \<Rightarrow> ?K h2"
      using keeps_entries.step_trans entries_intros(3) [OF _ assms] cleanup_temp_spec [OF run] that
      by (auto split: sum.splits)
  qed
  have "hoare ?K (remove_temporary st t) (\<lambda>_. ?K) ?K"
    unfolding remove_temporary_def split_def
    by (rule hoare_bind [OF root], rule hoare_bind [OF parent], rule hoare_pure,
        rule hoare_bind [OF same [OF entry_kind_same]])
      (auto intro!: hoare_return hoare_throw clean split: option.splits entry_kind.splits)
  then show "?K (snd (remove_temporary st t h))"
    unfolding hoare_iff by (auto simp: keeps_entries.step_refl split: sum.splits)
qed

section \<open>Recovery without the metadata transaction\<close>

definition recovery_quiet :: "host_root \<Rightarrow> string list set \<Rightarrow> core_world \<Rightarrow> core_world \<Rightarrow> bool" where
  "recovery_quiet r T w w' \<longleftrightarrow>
     recorded (cw_db w') = recorded (cw_db w) \<and> keeps_entries r T (cw_host w) (cw_host w')"

interpretation recovery_quiet: step_order "recovery_quiet r T" for r T
  by unfold_locales
    (auto simp: recovery_quiet_def intro: keeps_entries.step_refl keeps_entries.step_trans)

lemma journal_quiet: "within journal_only m \<Longrightarrow> within (recovery_quiet r T) m"
  by (erule within_mono) (simp add: journal_only_def recovery_quiet_def entries_intros(1))

lemma on_fs_quiet: "within (keeps_entries r T) m \<Longrightarrow> within (recovery_quiet r T) (on_fs m)"
  by (auto simp: within_def on_fs_def recovery_quiet_def split: prod.splits) (metis snd_conv)

lemma root_quiet: "within (root_step r) m \<Longrightarrow> within (recovery_quiet r T) (on_fs m)"
  by (rule on_fs_quiet, erule within_mono) (rule entries_intros(2))

lemmas quiet_steps = recovery_quiet.within_core within_split within_prod journal_effects [THEN journal_quiet]

lemma fs_reads_quiet:
  "within (recovery_quiet (vs_root st) T) (on_fs (stat x st p managed))"
  "within (recovery_quiet (vs_root st) T) (on_fs (hash_file x st p managed))"
  "within (recovery_quiet (vs_root st) T) (on_fs (open_read x st p managed))"
  by (auto intro: root_quiet stat_step hash_file_step open_read_step)

lemma supersede_recorded:
  assumes "supersede_replayed_create_inner uuid_str sha256 aid now ctx w rv db = Ok (res, db')"
  shows "recorded db' = recorded db"
  using assms
  by (auto simp: supersede_replayed_create_inner_def recorded_def bind_r_Ok_conv update_journal_Ok
      dest!: insert_audit_step split: option.split_asm if_split_asm sum.split_asm)

lemma supersede_call_quiet: "within (recovery_quiet r T) (supersede_call e ctx reviewed wt)"
  unfolding supersede_call_def
  by (intro quiet_steps journal_quiet [OF db_write_journal_only] supersede_recorded)

lemma put_entries:
  assumes "\<And>bs. length (x_sha256 x bs) = 32" "r \<noteq> hs_root hs"
  shows "within (keeps_entries r T) (put x hs simple reader)"
proof (rule withinI)
  fix h
  obtain res h' where run: "put x hs simple reader h = (res, h')" by (rule prod.exhaust)
  have "length (hash_bytes (ContentHash (x_sha256 x (payload reader)))) = 32" by (simp add: assms(1))
  from put_spec [OF run refl refl this] assms(2) have "keeps_entries r T h h'"
    using entries_intros(4) by blast
  then show "keeps_entries r T h (snd (put x hs simple reader h))" by (simp add: run)
qed

lemma ensure_history_quiet:
  assumes sha: "\<And>bs. length (x_sha256 (en_x e) bs) = 32" and roots: "vs_root st \<noteq> hs_root hs"
  shows "within (recovery_quiet (vs_root st) T) (ensure_history_blob e st hs p content managed)"
proof -
  have same: "within (keeps_entries (vs_root st) T) m" if "within same_fs m" for m
    using that by (rule within_mono) (rule entries_intros(1))
  have "within same_fs (history_contains (en_x e) hs hash)" for hash
    unfolding history_contains_def by (intro same_fs.within_core within_split history_open_same)
  moreover have "within same_fs (read_opened n)" for n
    unfolding read_opened_def by (intro same_fs.within_core reads_same_fs)
  ultimately show ?thesis
    unfolding ensure_history_blob_def put_reader_def
    by (intro quiet_steps fs_reads_quiet on_fs_quiet keeps_entries.within_core same put_entries [OF sha roots])
qed

lemma remove_journal_temporary_quiet:
  assumes "\<And>t. jr_temp_path j = Some t \<Longrightarrow> segments t \<in> T"
  shows "within (recovery_quiet (vs_root st) T) (remove_journal_temporary st j)"
proof (cases "jr_temp_path j")
  case None
  then show ?thesis unfolding remove_journal_temporary_def by (simp only: option.case recovery_quiet.within_pure)
next
  case (Some t)
  show ?thesis
  proof (cases "temporary_path_parse t")
    case (Inl f)
    then show ?thesis unfolding remove_journal_temporary_def Some option.case Inl map_err_simps
      by (intro withinI) (simp add: recovery_quiet.step_refl)
  next
    case (Inr tp)
    then have "as_path tp = t" by (auto simp: temporary_path_parse_def split: option.splits if_splits)
    with assms [OF Some] have "within (recovery_quiet (vs_root st) T) (fs_call (remove_temporary st tp))"
      by (intro quiet_steps on_fs_quiet remove_temporary_entries) simp
    moreover have "bind_x (lift_x (Ok tp)) f = f tp" for f :: "temporary_path \<Rightarrow> unit core"
      by (rule ext) simp
    ultimately show ?thesis unfolding remove_journal_temporary_def Some option.case Inr map_err_simps by simp
  qed
qed

section \<open>One journal entry\<close>

definition appended ::
  "host_root \<Rightarrow> string list set \<Rightarrow> core_payload \<Rightarrow> core_world \<Rightarrow> core_world \<Rightarrow> bool" where
  "appended r T pl w0 w \<longleftrightarrow> keeps_entries r T (cw_host w0) (cw_host w) \<and>
     (\<exists>rv. db_revisions (cw_db w) = db_revisions (cw_db w0) @ [rv] \<and>
        rr_content_hash rv = cp_content_hash pl)"

text \<open>What a decision knows: nothing recorded yet, and \<open>A\<close> holds of the files.\<close>

definition knows ::
  "host_root \<Rightarrow> string list set \<Rightarrow> (host \<Rightarrow> bool) \<Rightarrow> core_world \<Rightarrow> core_world \<Rightarrow> bool" where
  "knows r T A w0 w \<longleftrightarrow> recovery_quiet r T w0 w \<and> A (cw_host w)"

definition settled ::
  "host_root \<Rightarrow> string list set \<Rightarrow> (host \<Rightarrow> bool) \<Rightarrow> core_payload \<Rightarrow> core_world \<Rightarrow> core_world \<Rightarrow> bool" where
  "settled r T A pl w0 w \<longleftrightarrow> recovery_quiet r T w0 w \<or> appended r T pl w0 w \<and> A (cw_host w)"

definition stable_under :: "host_root \<Rightarrow> string list set \<Rightarrow> (host \<Rightarrow> bool) \<Rightarrow> bool" where
  "stable_under r T A \<longleftrightarrow> (\<forall>h h'. keeps_entries r T h h' \<longrightarrow> A h \<longrightarrow> A h')"

lemma knows_quiet:
  "stable_under r T A \<Longrightarrow> knows r T A w0 w \<Longrightarrow> recovery_quiet r T w w' \<Longrightarrow> knows r T A w0 w'"
  unfolding knows_def stable_under_def using recovery_quiet.step_trans recovery_quiet_def by blast

lemma quiet_hoare:
  assumes "within (recovery_quiet r T) m" "stable_under r T A"
  shows "hoare (knows r T A w0) m (\<lambda>_. knows r T A w0) (settled r T A pl w0)"
proof (rule hoare_within [OF assms(1)])
  show "knows r T A w0 w'" if "knows r T A w0 w" "recovery_quiet r T w w'" for w w'
    using knows_quiet [OF assms(2) that] .
qed (simp add: knows_def settled_def)

lemma commit_recovery_hoare:
  assumes A: "stable_under r T A"
  shows "hoare (knows r T A w0) (commit_payload e c ctx pl)
    (\<lambda>_ w. appended r T pl w0 w \<and> A (cw_host w)) (settled r T A pl w0)"
proof (rule commit_payload_rule [where Q = "\<lambda>_ w. appended r T pl w0 w \<and> A (cw_host w)"])
  fix w w' :: core_world and now env hook input a
  assume k: "knows r T A w0 w" and same: "same_fs (cw_host w) (cw_host w')"
    and i: "to_commit_input now pl = Ok input"
    and cm: "commit_mutation (x_uuid_str (en_x e)) (sha256_hex (en_x e)) env hook ctx input (cw_db w) = Ok (a, cw_db w')"
  have keep: "keeps_entries r T (cw_host w) (cw_host w')" using same by (rule entries_intros(1))
  have "keeps_entries r T (cw_host w0) (cw_host w')" "db_revisions (cw_db w) = db_revisions (cw_db w0)"
    using k keeps_entries.step_trans [OF _ keep] by (auto simp: knows_def recovery_quiet_def recorded_def)
  then have "appended r T pl w0 w'" using commit_appends [OF cm i] by (auto simp: appended_def)
  moreover have "A (cw_host w')" using A keep k by (auto simp: stable_under_def knows_def)
  ultimately show "(appended r T pl w0 w' \<and> A (cw_host w')) \<and> settled r T A pl w0 w'"
    by (simp add: settled_def)
next
  show "knows r T A w0 w'" if "knows r T A w0 w" "journal_only w w'" for w w'
    using knows_quiet [OF A that(1)] that(2)
    by (simp add: journal_only_def recovery_quiet_def entries_intros(1))
qed (simp add: knows_def settled_def)

lemma path_matches_hoare:
  "hoare (recovery_quiet (vs_root st) T w0) (path_matches e c st p (Some hex))
     (\<lambda>b w. recovery_quiet (vs_root st) T w0 w \<and>
        (b \<longrightarrow> digest_at (en_x e) (vs_root st) (segments p)
           (case strip_prefix ''sha256:'' hex of Some t \<Rightarrow> t | None \<Rightarrow> hex) (cw_host w)))
     (recovery_quiet (vs_root st) T w0)"
proof -
  let ?x = "en_x e" and ?r = "vs_root st" and ?q = "segments p" and ?m = "managed_path e c p"
  let ?hex = "case strip_prefix ''sha256:'' hex of Some t \<Rightarrow> t | None \<Rightarrow> hex"
  let ?I = "recovery_quiet ?r T w0" and ?D = "\<lambda>w. digest_at ?x ?r ?q ?hex (cw_host w)"
  have stat: "hoare ?I (on_fs (stat ?x st p ?m)) (\<lambda>_. ?I) ?I"
    by (rule hoare_within [OF fs_reads_quiet(1)]) (auto intro: recovery_quiet.step_trans)
  have stat2: "hoare (\<lambda>w. ?I w \<and> ?D w) (fs_call (stat ?x st p ?m)) (\<lambda>_ w. ?I w \<and> ?D w) ?I"
  proof (rule hoare_mapErr, rule hoareI)
    fix w r w'
    assume k: "?I w \<and> ?D w" and run: "on_fs (stat ?x st p ?m) w = (r, w')"
    have "?I w'" using k withinD [OF fs_reads_quiet(1) run] recovery_quiet.step_trans by blast
    moreover have "?D w'"
      using k withinD [OF fs_reads_quiet(1) [where T = "{}"] run] by (auto simp: recovery_quiet_def dest: keeps_digest)
    ultimately show "case r of Err _ \<Rightarrow> ?I w' | Ok _ \<Rightarrow> ?I w' \<and> ?D w'" by (simp split: sum.splits)
  qed
  have hash: "hoare ?I (fs_call (hash_file ?x st p ?m))
      (\<lambda>y w. ?I w \<and> digest_at ?x ?r ?q (as_hex (snd y)) (cw_host w)) ?I"
  proof (rule hoare_mapErr, rule hoareI)
    fix w r w'
    assume k: "?I w" and run: "on_fs (hash_file ?x st p ?m) w = (r, w')"
    have "?I w'" using k withinD [OF fs_reads_quiet(2) run] recovery_quiet.step_trans by blast
    moreover have "digest_at ?x ?r ?q (as_hex (snd y)) (cw_host w')" if "r = Ok y" for y
      using run that hash_file_Ok [of ?x st p ?m "cw_host w" "fst y" "snd y" "cw_host w'"]
      by (auto simp: on_fs_def split: prod.splits)
    ultimately show "case r of Err _ \<Rightarrow> ?I w' | Ok y \<Rightarrow> ?I w' \<and> digest_at ?x ?r ?q (as_hex (snd y)) (cw_host w')"
      by (simp split: sum.splits)
  qed
  have compare: "hoare (\<lambda>w. ?I w \<and> digest_at ?x ?r ?q (as_hex (snd y)) (cw_host w))
      (if as_hex (snd y) = ?hex then bind_x (fs_call (stat ?x st p ?m)) (\<lambda>m'. return_x (fm_size m = fm_size m'))
       else return_x False) (\<lambda>b w. ?I w \<and> (b \<longrightarrow> ?D w)) ?I" for y m
    by (cases "as_hex (snd y) = ?hex")
      (auto intro!: hoare_bind [OF stat2] hoare_return)
  show ?thesis
    unfolding path_matches_def Let_def split_def
    by (rule hoare_try [OF stat]; simp only: sum.case option.case)
      (auto intro!: hoare_bind [OF hash] compare hoare_return hoare_throw hoare_splits)
qed

definition content_payload :: "core_payload \<Rightarrow> bool" where
  "content_payload pl \<longleftrightarrow> cp_operation pl \<noteq> file_operation_as_str OpMove \<and> \<not> is_delete_payload pl"

lemma recovery_state_quiet: "within (recovery_quiet (vs_root st) T) (recovery_state e c st j pl new)"
proof -
  have "within (recovery_quiet (vs_root st) T) (path_matches e c st p h)" for p h
    unfolding path_matches_def Let_def by (intro quiet_steps fs_reads_quiet)
  then show ?thesis unfolding recovery_state_def by (intro quiet_steps)
qed

lemma recovery_state_new_hoare:
  assumes "content_payload pl" "cp_content_hash pl = Some hex"
    and "coalesce (jr_destination_path j) (jr_source_path j) = Some p"
  shows "hoare (recovery_quiet (vs_root st) T w0) (recovery_state e c st j pl True)
    (\<lambda>b w. recovery_quiet (vs_root st) T w0 w \<and>
       (b \<longrightarrow> digest_at (en_x e) (vs_root st) (segments p)
          (case strip_prefix ''sha256:'' hex of Some t \<Rightarrow> t | None \<Rightarrow> hex) (cw_host w)))
    (recovery_quiet (vs_root st) T w0)"
proof -
  have "recovery_state e c st j pl True = path_matches e c st p (Some hex)"
    using assms by (auto simp: recovery_state_def content_payload_def fun_eq_iff bind_x_def
        split: prod.splits sum.splits)
  then show ?thesis using path_matches_hoare by simp
qed

lemma settled_quiet:
  assumes "stable_under r T A" "settled r T A pl w0 w" "recovery_quiet r T w w'"
  shows "settled r T A pl w0 w'"
proof -
  have keep: "keeps_entries r T (cw_host w) (cw_host w')" and rec: "recorded (cw_db w') = recorded (cw_db w)"
    using assms(3) by (simp_all add: recovery_quiet_def)
  show ?thesis
    using assms(2) unfolding settled_def
  proof (elim disjE conjE)
    assume "recovery_quiet r T w0 w"
    then show "recovery_quiet r T w0 w' \<or> appended r T pl w0 w' \<and> A (cw_host w')"
      using recovery_quiet.step_trans assms(3) by blast
  next
    assume app: "appended r T pl w0 w" and "A (cw_host w)"
    then have "A (cw_host w')" using assms(1) keep by (auto simp: stable_under_def)
    moreover have "appended r T pl w0 w'"
      using app rec keeps_entries.step_trans [OF _ keep] by (auto simp: appended_def recorded_def)
    ultimately show "recovery_quiet r T w0 w' \<or> appended r T pl w0 w' \<and> A (cw_host w')" by simp
  qed
qed

lemma settled_hoare:
  assumes "within (recovery_quiet r T) m" "stable_under r T A"
  shows "hoare (settled r T A pl w0) m (\<lambda>_. settled r T A pl w0) (settled r T A pl w0)"
proof (rule hoare_within [OF assms(1)])
  show "settled r T A pl w0 w'" if "settled r T A pl w0 w" "recovery_quiet r T w w'" for w w'
    using settled_quiet [OF assms(2) that] .
qed

lemma adjudicate_quiet: "within (recovery_quiet (vs_root st) T) (adjudicate_existing e c ctx st j p)"
  unfolding adjudicate_existing_def review_existing_def
  by (intro quiet_steps fs_reads_quiet supersede_call_quiet)

definition outcome_ok ::
  "host_root \<Rightarrow> string list set \<Rightarrow> (host \<Rightarrow> bool) \<Rightarrow> core_payload \<Rightarrow> core_world \<Rightarrow>
     recovery_outcome \<Rightarrow> core_world \<Rightarrow> bool" where
  "outcome_ok r T A pl w0 out w =
     (case out of
        RecFinalized \<Rightarrow> appended r T pl w0 w \<and> A (cw_host w)
      | RecRolledBack \<Rightarrow> recovery_quiet r T w0 w
      | _ \<Rightarrow> settled r T A pl w0 w)"

lemma adjudicate_hoare:
  assumes A: "stable_under (vs_root st) T A"
  shows "hoare (settled (vs_root st) T A pl w0) (adjudicate_existing e c ctx st j p)
    (outcome_ok (vs_root st) T A pl w0) (settled (vs_root st) T A pl w0)"
proof -
  let ?S = "settled (vs_root st) T A pl w0" and ?Q = "outcome_ok (vs_root st) T A pl w0"
  have quiet: "hoare ?S m (\<lambda>_. ?S) ?S" if "within (recovery_quiet (vs_root st) T) m" for m
    using that A by (rule settled_hoare)
  have existing: "hoare ?S (review_existing e ctx oid err) ?Q ?S" for oid err
    unfolding review_existing_def
    by (rule hoare_bind [OF quiet [OF journal_quiet [OF journal_effects(8)]]], rule hoare_throw)
  have proven: "hoare ?S (bind_x (supersede_call e ctx False wt) (\<lambda>result.
      if result = NotProven then review_existing e ctx oid err else return_x RecSuperseded)) ?Q ?S" for wt oid err
    by (rule hoare_bind [OF quiet [OF supersede_call_quiet]], rule hoare_splits, rule existing, rule hoare_return)
      (simp add: outcome_ok_def)
  have active: "hoare ?S (db_get f) (\<lambda>_. ?S) ?S" for f :: "file_db \<Rightarrow> file_record option"
    by (rule quiet) (intro quiet_steps)
  show ?thesis
    unfolding adjudicate_existing_def
    by (rule hoare_splits, rule hoare_bind [OF active], rule hoare_splits,
        rule hoare_try [OF quiet [OF fs_reads_quiet(2)]]; (simp only: sum.case split_def)?)
      (rule proven existing)+
qed

lemma finalize_hoare:
  assumes sha: "\<And>bs. length (x_sha256 (en_x e) bs) = 32" and roots: "vs_root st \<noteq> hs_root hs"
    and T: "\<And>t. jr_temp_path j = Some t \<Longrightarrow> segments t \<in> T" and A: "stable_under (vs_root st) T A"
  shows "hoare (knows (vs_root st) T A w0) (finalize e c ctx st hs j pl)
    (outcome_ok (vs_root st) T A pl w0) (settled (vs_root st) T A pl w0)"
proof -
  let ?r = "vs_root st"
  let ?S = "settled ?r T A pl w0" and ?K = "knows ?r T A w0" and ?Q = "outcome_ok ?r T A pl w0"
  have quiet: "hoare ?K m (\<lambda>_. ?K) ?S" if "within (recovery_quiet ?r T) m" for m
    using that A by (rule quiet_hoare)
  have committed: "within (recovery_quiet ?r T) (if jr_state j = Prepared
      then file_committed e ctx (jr_id j) (cp_content_hash pl) else return_x ())"
    by (intro quiet_steps)
  have blob: "within (recovery_quiet ?r T) (if cp_content_hash pl \<noteq> None \<and>
      cp_operation pl \<noteq> file_operation_as_str OpDelete
      then ensure_history_blob e st hs (cp_path pl) (cp_content_hash pl) (managed_path e c (cp_path pl))
      else return_x ())"
    by (intro quiet_steps ensure_history_quiet [OF sha roots])
  have review: "hoare ?S (bind_x (review e ctx oid msg) (\<lambda>_. return_x RecNeedsReview)) ?Q ?S" for oid msg
    by (rule hoare_bind [OF settled_hoare [OF journal_quiet [OF journal_effects(8)] A]], rule hoare_return)
      (simp add: outcome_ok_def)
  have finish: "hoare (\<lambda>w. appended ?r T pl w0 w \<and> A (cw_host w)) (return_x RecFinalized) ?Q ?S"
    by (rule hoare_return) (simp add: outcome_ok_def)
  show ?thesis
    unfolding finalize_def
    by (rule hoare_bind [OF quiet [OF remove_journal_temporary_quiet [OF T]]], assumption,
      rule hoare_bind [OF quiet [OF committed]], rule hoare_bind [OF quiet [OF blob]],
      rule hoare_try [OF commit_recovery_hoare [OF A]]; simp only: sum.case)
      (auto intro!: finish hoare_throw review adjudicate_hoare [OF A] split: vault_error.split state_error.split)
qed

lemma recover_one_hoare:
  assumes sha: "\<And>bs. length (x_sha256 (en_x e) bs) = 32" and roots: "vs_root st \<noteq> hs_root hs"
    and T: "\<And>t. jr_temp_path j = Some t \<Longrightarrow> segments t \<in> T"
    and pl: "jr_payload j = Some pl"
    and A: "stable_under (vs_root st) T A"
    and state: "hoare (recovery_quiet (vs_root st) T w0) (recovery_state e c st j pl True)
      (\<lambda>b w. recovery_quiet (vs_root st) T w0 w \<and> (b \<longrightarrow> A (cw_host w))) (recovery_quiet (vs_root st) T w0)"
  shows "hoare (\<lambda>w. w = w0) (recover_one e c ctx st hs j)
    (outcome_ok (vs_root st) T A pl w0) (settled (vs_root st) T A pl w0)"
proof -
  let ?r = "vs_root st"
  let ?I = "recovery_quiet ?r T w0" and ?S = "settled ?r T A pl w0" and ?Q = "outcome_ok ?r T A pl w0"
  have safe: "?S w" if "?I w" for w using that by (simp add: settled_def)
  have quiet: "hoare ?I m (\<lambda>_. ?I) ?S" if "within (recovery_quiet ?r T) m" for m
    by (rule hoare_within [OF that]) (auto intro: recovery_quiet.step_trans safe)
  have new: "hoare ?I (recovery_state e c st j pl True) (\<lambda>b w. ?I w \<and> (b \<longrightarrow> A (cw_host w))) ?S"
    using state by (rule hoare_conseq) (auto intro: safe)
  have mark: "within (recovery_quiet ?r T) (mapErr_x VState (db_write e (\<lambda>now. mark_rolled_back now ctx oid reason)))"
    for oid reason
    by (intro quiet_steps journal_quiet [OF db_write_journal_only] journal_writes_recorded)
  have undo: "hoare ?I (bind_x (remove_journal_temporary st j) (\<lambda>_.
      bind_x (mapErr_x VState (db_write e (\<lambda>now. mark_rolled_back now ctx oid reason))) (\<lambda>_.
        return_x RecRolledBack))) ?Q ?S" for oid reason
    by (rule hoare_bind [OF quiet [OF remove_journal_temporary_quiet [OF T]]], assumption,
      rule hoare_bind [OF quiet [OF mark]], rule hoare_return) (simp add: outcome_ok_def)
  have unclear: "hoare ?I (bind_x (review e ctx oid msg) (\<lambda>_. return_x RecNeedsReview)) ?Q ?S" for oid msg
    by (rule hoare_bind [OF quiet [OF journal_quiet [OF journal_effects(8)]]], rule hoare_return)
      (simp add: safe outcome_ok_def)
  have fin: "hoare (\<lambda>w. ?I w \<and> A (cw_host w)) (finalize e c ctx st hs j pl) ?Q ?S"
    using finalize_hoare [OF sha roots T A] by (rule hoare_pre) (auto simp: knows_def)
  have decide: "hoare (\<lambda>w. ?I w \<and> (b \<longrightarrow> A (cw_host w)))
      (if a \<and> \<not> b then
         bind_x (remove_journal_temporary st j) (\<lambda>_.
         bind_x (mapErr_x VState (db_write e (\<lambda>now. mark_rolled_back now ctx (jr_id j)
                   (Some ''recovered before canonical commit'')))) (\<lambda>_. return_x RecRolledBack))
       else if b then finalize e c ctx st hs j pl
       else bind_x (review e ctx (jr_id j) ''canonical old/new state is ambiguous'')
              (\<lambda>_. return_x RecNeedsReview)) ?Q ?S" for a b
    using undo unclear fin by (cases b; cases a) simp_all
  have payload: "bind_x (lift_x (Ok pl)) f = f pl" for f :: "core_payload \<Rightarrow> recovery_outcome core"
    by (rule ext) simp
  have "hoare ?I (recover_one e c ctx st hs j) ?Q ?S"
    unfolding recover_one_def pl ok_or_simps payload
    by (rule hoare_bind [OF quiet [OF recovery_state_quiet]], rule hoare_bind [OF new], rule decide)
  then show ?thesis by (rule hoare_pre) (simp add: recovery_quiet.step_refl)
qed

definition temporaries :: "journal_record \<Rightarrow> string list set" where
  "temporaries j = (case jr_temp_path j of None \<Rightarrow> {} | Some t \<Rightarrow> {segments t})"

text \<open>
  C2: recovery of a content write records only what the files prove. For a journal entry of a create,
  replace, append, patch, copy or restore with digest \<open>hex\<close>, and whatever I/O faults, crashes and
  database failures recovery itself meets, it never removes or changes an entry of the Vault other than the
  temporary file of the operation; the file and revision tables are as they were, or exactly one revision
  was appended, with digest \<open>hex\<close>, and then the canonical file is there and its bytes have that digest.
  When it reports that the operation was finalised the latter is the case, and when it reports that
  it was rolled back the former is.
\<close>

theorem recover_one_sound:
  assumes run: "recover_one e c ctx st hs j w = (res, w')"
    and sha: "\<And>bs. length (x_sha256 (en_x e) bs) = 32" and roots: "vs_root st \<noteq> hs_root hs"
    and pl: "jr_payload j = Some pl" "content_payload pl" "cp_content_hash pl = Some hex"
    and target: "coalesce (jr_destination_path j) (jr_source_path j) = Some p" "segments p \<notin> temporaries j"
  shows "(\<forall>q n. q \<notin> temporaries j \<longrightarrow> view (cw_host w) (vs_root st) q = Some n \<longrightarrow>
        view (cw_host w') (vs_root st) q = Some n) \<and>
    (let proved = ((\<exists>rv. db_revisions (cw_db w') = db_revisions (cw_db w) @ [rv] \<and> rr_content_hash rv = Some hex) \<and>
       digest_at (en_x e) (vs_root st) (segments p)
         (case strip_prefix ''sha256:'' hex of Some t \<Rightarrow> t | None \<Rightarrow> hex) (cw_host w')) in
     (recorded (cw_db w') = recorded (cw_db w) \<or> proved) \<and>
     (res = Ok RecFinalized \<longrightarrow> proved) \<and>
     (res = Ok RecRolledBack \<longrightarrow> recorded (cw_db w') = recorded (cw_db w)))"
proof -
  let ?A = "digest_at (en_x e) (vs_root st) (segments p)
    (case strip_prefix ''sha256:'' hex of Some t \<Rightarrow> t | None \<Rightarrow> hex)"
  have "stable_under (vs_root st) (temporaries j) ?A"
    unfolding stable_under_def using keeps_digest target(2) by blast
  moreover have "segments t \<in> temporaries j" if "jr_temp_path j = Some t" for t
    by (simp add: temporaries_def that)
  ultimately have "hoare (\<lambda>w'. w' = w) (recover_one e c ctx st hs j)
    (outcome_ok (vs_root st) (temporaries j) ?A pl w) (settled (vs_root st) (temporaries j) ?A pl w)"
    using recover_one_hoare [OF sha roots] pl(1) recovery_state_new_hoare [OF pl(2,3) target(1)] by blast
  from hoareD [OF this refl run] show ?thesis
    by (auto simp: outcome_ok_def settled_def appended_def recovery_quiet_def keeps_entries_def pl(3)
        split: sum.split_asm recovery_outcome.split_asm)
qed

text \<open>
  An entry whose payload has no digest yet, as a replace, append, patch or restore stores it before its
  bytes are streamed: any file at the target counts as the new state, and if recovery then finalises the
  entry it appends a revision without a digest, although the operation never reached its rename.
\<close>

lemma unhashed_entry_finalised:
  assumes sha: "\<And>bs. length (x_sha256 (en_x e) bs) = 32" and roots: "vs_root st \<noteq> hs_root hs"
    and pl: "jr_payload j = Some pl" "content_payload pl" "cp_content_hash pl = None"
    and target: "coalesce (jr_destination_path j) (jr_source_path j) = Some p"
  shows "fst (on_fs (stat (en_x e) st p (managed_path e c p)) w) = Ok m \<Longrightarrow>
      fst (recovery_state e c st j pl True w) = Ok True"
    and "recover_one e c ctx st hs j w = (Ok RecFinalized, w') \<Longrightarrow>
      \<exists>rv. db_revisions (cw_db w') = db_revisions (cw_db w) @ [rv] \<and> rr_content_hash rv = None"
proof -
  have state: "recovery_state e c st j pl True = path_matches e c st p None"
    using pl(2) by (auto simp: recovery_state_def content_payload_def fun_eq_iff bind_x_def target pl(3)
        split: prod.splits sum.splits)
  show "fst (on_fs (stat (en_x e) st p (managed_path e c p)) w) = Ok m \<Longrightarrow>
      fst (recovery_state e c st j pl True w) = Ok True"
    unfolding state by (auto simp: path_matches_def Let_def try_x_def split: prod.splits sum.splits)
next
  assume run: "recover_one e c ctx st hs j w = (Ok RecFinalized, w')"
  let ?T = "temporaries j" and ?A = "\<lambda>_ :: host. True"
  have "hoare (\<lambda>v. v = w) (recover_one e c ctx st hs j)
      (outcome_ok (vs_root st) ?T ?A pl w) (settled (vs_root st) ?T ?A pl w)"
  proof (rule recover_one_hoare [OF sha roots])
    show "hoare (recovery_quiet (vs_root st) ?T w) (recovery_state e c st j pl True)
        (\<lambda>b v. recovery_quiet (vs_root st) ?T w v \<and> (b \<longrightarrow> True)) (recovery_quiet (vs_root st) ?T w)"
      by (simp only: simp_thms, rule hoare_within [OF recovery_state_quiet]) (auto intro: recovery_quiet.step_trans)
  qed (auto simp: temporaries_def stable_under_def pl(1))
  from hoareD [OF this refl run] show "\<exists>rv. db_revisions (cw_db w') = db_revisions (cw_db w) @ [rv] \<and>
      rr_content_hash rv = None"
    by (simp add: outcome_ok_def appended_def pl(3))
qed

definition example_entry :: journal_record where
  "example_entry =
     \<lparr>jr_id = 100, jr_vault = 7, jr_operation = OpReplace, jr_state = Prepared, jr_source_path = None,
      jr_destination_path = Some (VaultPath ''notes/old.md''), jr_prior_file_id = Some 1,
      jr_expected_revision = Some 1, jr_prior_hash = Some ''bb'', jr_proposed_hash = Some ''aa'',
      jr_temp_path = Some (VaultPath ''notes/.mcp-vault-tmp-7''),
      jr_payload = Some ((example_payload 100 1)\<lparr>cp_operation := ''replace'', cp_path := VaultPath ''notes/old.md''\<rparr>),
      jr_idempotency_key = None, jr_created_at = 0, jr_updated_at = 0, jr_error = None\<rparr>"

theorem recover_one_sound_witness:
  "\<exists>w'. snd (recover_one example_core_env example_core example_ctx example_storage
       \<lparr>hs_vault_id = 7, hs_root = [''srv'', ''h''], hs_blob_root = VaultPath ''u/blobs'',
        hs_options = storage_options_default\<rparr> example_entry (example_world [Fine, Fail PERM 0, Stop 2] gate_new)) = w' \<and>
     view (cw_host w') [''srv'', ''v''] [''notes'', ''old.md''] = Some (FileNode ''old'' True example_attr) \<and>
     (recorded (cw_db w') = recorded example_db0 \<or>
      (\<exists>rv. db_revisions (cw_db w') = [rv] \<and> rr_content_hash rv = Some ''aa''))"
proof -
  let ?hs = "\<lparr>hs_vault_id = 7, hs_root = [''srv'', ''h''], hs_blob_root = VaultPath ''u/blobs'',
        hs_options = storage_options_default\<rparr>"
  let ?w = "example_world [Fine, Fail PERM 0, Stop 2] gate_new" and ?p = "VaultPath ''notes/old.md''"
  obtain res w' where run: "recover_one example_core_env example_core example_ctx example_storage ?hs
    example_entry ?w = (res, w')" by (rule prod.exhaust)
  have sha: "length (x_sha256 (en_x example_core_env) bs) = 32" for bs
    by (simp add: example_core_env_def example_externals_def)
  have roots: "vs_root example_storage \<noteq> hs_root ?hs" by code_simp
  have target: "coalesce (jr_destination_path example_entry) (jr_source_path example_entry) = Some ?p" by code_simp
  have seg: "segments ?p = [''notes'', ''old.md'']" "vs_root example_storage = [''srv'', ''v'']" by code_simp+
  have tmp: "segments (VaultPath ''notes/.mcp-vault-tmp-7'') = [''notes'', ''.mcp-vault-tmp-7'']" by code_simp
  have T: "temporaries example_entry = {[''notes'', ''.mcp-vault-tmp-7'']}"
    by (simp add: temporaries_def example_entry_def tmp)
  have other: "segments ?p \<notin> temporaries example_entry" by (simp add: T seg)
  have pl: "content_payload (the (jr_payload example_entry))"
    "cp_content_hash (the (jr_payload example_entry)) = Some ''aa''" by code_simp+
  have pl0: "jr_payload example_entry = Some (the (jr_payload example_entry))" by (simp add: example_entry_def)
  have old: "view (cw_host ?w) [''srv'', ''v''] [''notes'', ''old.md''] = Some (FileNode ''old'' True example_attr)"
    by code_simp
  have db: "cw_db ?w = example_db0" "db_revisions example_db0 = []"
    by (simp_all add: example_world_def example_db0_def db_empty_def)
  from recover_one_sound [OF run sha roots pl0 pl target other] old other
  show ?thesis unfolding run by (auto simp: db seg Let_def)
qed

end
