(* ===== verification/Recovery_Completion.thy ===== *)
theory Recovery_Completion
  imports Core_Recovery
begin

text \<open>
  Recovery leaves nothing behind: every closing transaction takes its journal entry out of the open
  ones, nothing recovery does opens one, so a recovery that returns has closed them all.
\<close>

section \<open>Open journal entries\<close>

definition open_ids :: "vault_context \<Rightarrow> file_db \<Rightarrow> operation_id set" where
  "open_ids ctx db =
     jr_id ` {j \<in> set (db_journal db). jr_vault j = ctx_id ctx \<and> jr_state j \<in> {Prepared, FileCommitted}}"

lemma list_incomplete_ids: "jr_id ` set (list_incomplete ctx db) = open_ids ctx db"
  by (simp add: list_incomplete_def open_ids_def)

definition closes :: "vault_context \<Rightarrow> file_db \<Rightarrow> file_db \<Rightarrow> bool" where
  "closes ctx db db' \<longleftrightarrow>
     map jr_id (db_journal db') = map jr_id (db_journal db) \<and> open_ids ctx db' \<subseteq> open_ids ctx db"

lemma closes_refl: "closes ctx db db"
  by (simp add: closes_def)

lemma closes_trans: "closes ctx db db1 \<Longrightarrow> closes ctx db1 db2 \<Longrightarrow> closes ctx db db2"
  by (auto simp: closes_def)

lemma update_rows_closes:
  assumes "db_journal db' = update_rows hit f (db_journal db)"
    and "\<And>j. hit j \<Longrightarrow> jr_id (f j) = jr_id j \<and> jr_vault (f j) = jr_vault j \<and>
      (jr_state (f j) \<in> {Prepared, FileCommitted} \<longrightarrow> jr_state j \<in> {Prepared, FileCommitted})"
  shows "closes ctx db db'"
proof -
  have "map jr_id (db_journal db') = map jr_id (db_journal db)"
    unfolding assms(1) by (rule map_update_rows) (simp add: assms(2))
  moreover have "open_ids ctx db' \<subseteq> open_ids ctx db"
    using assms(2) by (fastforce simp: open_ids_def assms(1) set_update_rows split: if_splits)
  ultimately show ?thesis by (simp add: closes_def)
qed

lemma update_rows_closed:
  assumes "distinct (map jr_id (db_journal db))" "rows_affected hit (db_journal db) = 1"
    and "db_journal db' = update_rows hit f (db_journal db)"
    and "\<And>j. hit j \<Longrightarrow> jr_id j = oid \<and> jr_id (f j) = oid \<and> jr_state (f j) \<notin> {Prepared, FileCommitted}"
  shows "oid \<notin> open_ids ctx db'"
proof
  assume "oid \<in> open_ids ctx db'"
  then obtain j' where "j' \<in> set (db_journal db')" "jr_id j' = oid" "jr_state j' \<in> {Prepared, FileCommitted}"
    by (auto simp: open_ids_def)
  moreover from this(1) obtain j where j: "j \<in> set (db_journal db)" "j' = (if hit j then f j else j)"
    unfolding assms(3) set_update_rows by (elim imageE) simp
  ultimately have j_id: "\<not> hit j" "jr_id j = oid" using assms(4) [of j] by (auto split: if_splits)
  have "filter hit (db_journal db) \<noteq> []" using assms(2) by (auto simp: rows_affected_def)
  then obtain k where k: "k \<in> set (db_journal db)" "hit k" by (auto simp: filter_empty_conv)
  then have "jr_id k = oid" using assms(4) by blast
  with j(1) j_id(2) k(1) assms(1) have "j = k" by (auto simp: distinct_map dest: inj_onD)
  with j_id(1) k(2) show False by simp
qed

lemma terminal_closed:
  assumes "mark_terminal now ctx oid st err db = Ok (u, db')" "distinct (map jr_id (db_journal db))"
    and "st \<notin> {Prepared, FileCommitted}"
  shows "closes ctx db db' \<and> oid \<notin> open_ids ctx db'"
  using assms unfolding mark_terminal_def update_journal_Ok
  by (auto intro!: update_rows_closes elim!: notE [OF update_rows_closed, rotated -1])

lemma commit_closed:
  assumes "commit_mutation uuid_str sha256 env hook ctx input db = Ok (res, db')"
    and "distinct (map jr_id (db_journal db))"
  shows "closes ctx db db' \<and> ci_operation_id input \<notin> open_ids ctx db'"
  using assms(1)
proof (rule commit_mutation_tables)
  let ?hit = "\<lambda>j. jr_vault j = ctx_id ctx \<and> jr_id j = ci_operation_id input \<and> jr_state j \<in> {FileCommitted}"
  let ?f = "\<lambda>j. j\<lparr>jr_state := MetadataCommitted, jr_updated_at := ce_now env, jr_error := None\<rparr>"
  assume one: "rows_affected ?hit (db_journal db) = 1" and j: "db_journal db' = update_rows ?hit ?f (db_journal db)"
  have "closes ctx db db'" using j by (rule update_rows_closes) simp
  moreover have "ci_operation_id input \<notin> open_ids ctx db'"
    using assms(2) one j by (rule update_rows_closed) simp
  ultimately show ?thesis ..
qed

lemma supersede_closed:
  assumes "supersede_replayed_create_inner uuid_str sha256 aid now ctx wt rv db = Ok (res, db')"
    and "distinct (map jr_id (db_journal db))"
  shows "closes ctx db db' \<and> (res \<noteq> NotProven \<longrightarrow> sw_operation_id wt \<notin> open_ids ctx db')"
proof -
  have already: "sw_operation_id wt \<notin> open_ids ctx db"
    if "find_row (\<lambda>j. jr_vault j = ctx_id ctx \<and> jr_id j = sw_operation_id wt) (db_journal db) = Some j"
      "jr_state j = Superseded" for j
  proof
    assume "sw_operation_id wt \<in> open_ids ctx db"
    then obtain k where "k \<in> set (db_journal db)" "jr_id k = sw_operation_id wt" "jr_state k \<in> {Prepared, FileCommitted}"
      by (auto simp: open_ids_def)
    with find_row_Some [OF that(1)] that(2) assms(2) show False by (metis distinct_map inj_onD insertE journal_state.distinct singletonD)
  qed
  have applied: "closes ctx db d2 \<and> sw_operation_id wt \<notin> open_ids ctx d2"
    if u: "update_journal ctx (sw_operation_id wt) {s} (\<lambda>r. r\<lparr>jr_state := Superseded, jr_updated_at := now,
        jr_error := Some ''superseded by verified later create''\<rparr>) Conflict db = Ok (x, d1)"
      and a: "insert_audit row d1 = Ok (y, d2)" for s x y d1 d2 row
  proof -
    have "db_journal d2 = db_journal d1" using insert_audit_step [OF a] by simp
    then show ?thesis using u assms(2) unfolding update_journal_Ok
      by (auto intro!: update_rows_closes elim!: notE [OF update_rows_closed, rotated -1])
  qed
  show ?thesis
    using assms(1) already applied
    by (auto simp: supersede_replayed_create_inner_def bind_r_Ok_conv closes_refl
        split: option.split_asm if_split_asm sum.split_asm)
qed

lemma close_write_closes: "close_write ctx db db' \<Longrightarrow> closes ctx db db'"
proof (induction rule: close_write.induct)
  case (c_discard now js db u db')
  have "discard_loop now ctx js db = Ok (u, db') \<Longrightarrow> closes ctx db db'"
  proof (induction js arbitrary: db)
    case Nil
    then show ?case by (simp add: closes_refl)
  next
    case (Cons j js)
    let ?hit = "\<lambda>r. jr_vault r = ctx_id ctx \<and> jr_id r = jr_id j \<and> jr_state r = jr_state j \<and>
      jr_updated_at r = jr_updated_at j"
    let ?f = "\<lambda>r. r\<lparr>jr_state := Discarded, jr_error := Some ''discarded by legacy memory initialization'',
      jr_updated_at := now\<rparr>"
    have "discard_loop now ctx js (db\<lparr>db_journal := update_rows ?hit ?f (db_journal db)\<rparr>) = Ok (u, db')"
      using Cons.prems by (auto simp: Let_def split: if_splits)
    moreover have "closes ctx db (db\<lparr>db_journal := update_rows ?hit ?f (db_journal db)\<rparr>)"
      by (rule update_rows_closes [where hit = ?hit and f = ?f]) simp_all
    ultimately show ?case using Cons.IH closes_trans by blast
  qed
  with c_discard show ?case by (auto simp: discard_legacy_memory_journals_def closes_refl split: if_splits)
next
  case (c_commit uuid_str sha256 env hook ci db res db')
  then show ?case
    by (elim commit_mutation_tables) (erule update_rows_closes, simp)
next
  case (c_supersede uuid_str sha256 aid now w rv db sr db')
  then show ?case
    by (auto simp: supersede_replayed_create_inner_def bind_r_Ok_conv update_journal_Ok closes_refl
        dest!: insert_audit_step intro!: update_rows_closes
        split: option.split_asm if_split_asm sum.split_asm)
qed (auto simp: mark_file_committed_def update_operation_payload_def mark_rolled_back_def
    mark_needs_review_def mark_terminal_def update_journal_Ok intro!: update_rows_closes)

section \<open>Recovery closes\<close>

definition world_closes :: "vault_context \<Rightarrow> core_world \<Rightarrow> core_world \<Rightarrow> bool" where
  "world_closes ctx w w' \<longleftrightarrow> closes ctx (cw_db w) (cw_db w')"

interpretation closing: recovery_frame "world_closes ctx" ctx for ctx
  by unfold_locales
    (auto simp: world_closes_def closes_refl drop_operation_def intro: closes_trans close_write_closes)

text \<open>The journal ids are distinct, and the open entries are among \<open>S\<close>.\<close>

definition open_within :: "vault_context \<Rightarrow> operation_id set \<Rightarrow> core_world \<Rightarrow> bool" where
  "open_within ctx S w \<longleftrightarrow>
     distinct (map jr_id (db_journal (cw_db w))) \<and> open_ids ctx (cw_db w) \<subseteq> S"

abbreviation anything :: "core_world \<Rightarrow> bool" where
  "anything \<equiv> \<lambda>_. True"

lemma open_within_kept:
  "within (world_closes ctx) m \<Longrightarrow> hoare (open_within ctx S) m (\<lambda>_. open_within ctx S) (open_within ctx S)"
  by (erule hoare_within) (auto simp: open_within_def world_closes_def closes_def)

lemma open_within_hoare:
  "within (world_closes ctx) m \<Longrightarrow> hoare (open_within ctx S) m (\<lambda>_. open_within ctx S) anything"
  by (erule hoare_within) (auto simp: open_within_def world_closes_def closes_def)

lemma db_write_closes_hoare:
  assumes "\<And>now db a db'. act now db = Ok (a, db') \<Longrightarrow> distinct (map jr_id (db_journal db)) \<Longrightarrow>
      closes ctx db db' \<and> (ok a \<longrightarrow> oid \<notin> open_ids ctx db')"
  shows "hoare (open_within ctx S) (db_write e act)
    (\<lambda>a. open_within ctx (if ok a then S - {oid} else S)) anything"
proof -
  have "hoare (open_within ctx S) (db_call (act now))
    (\<lambda>a. open_within ctx (if ok a then S - {oid} else S)) anything" for now
  proof (rule hoareI)
    fix w r w'
    assume w: "open_within ctx S w" and "db_call (act now) w = (r, w')"
    from this(2) show "case r of Err _ \<Rightarrow> True
        | Ok a \<Rightarrow> open_within ctx (if ok a then S - {oid} else S) w'"
    proof (cases rule: db_call_cases)
      case (committed a)
      have "distinct (map jr_id (db_journal (cw_db w)))" using w by (simp add: open_within_def)
      from assms [OF committed(2) this] have "open_within ctx (if ok a then S - {oid} else S) w'"
        using w by (auto simp: open_within_def closes_def)
      with committed(3) show ?thesis by auto
    qed simp
  qed
  then show ?thesis
    unfolding db_write_def by (rule hoare_bind [OF open_within_hoare [OF closing.tick_frame]])
qed

lemma terminal_hoare:
  "hoare (open_within ctx S) (mapErr_x VState (db_write e (\<lambda>now. mark_rolled_back now ctx oid reason)))
     (\<lambda>_. open_within ctx (S - {oid})) anything"
  "hoare (open_within ctx S) (review e ctx oid msg) (\<lambda>_. open_within ctx (S - {oid})) anything"
proof -
  have "hoare (open_within ctx S) (db_write e (\<lambda>now. mark_terminal now ctx oid st err))
      (\<lambda>_. open_within ctx (S - {oid})) anything" if "st \<notin> {Prepared, FileCommitted}" for st err
    using db_write_closes_hoare [where ok = "\<lambda>_. True" and act = "\<lambda>now. mark_terminal now ctx oid st err"
        and ctx = ctx and oid = oid] terminal_closed that by simp
  then show "hoare (open_within ctx S) (mapErr_x VState (db_write e (\<lambda>now. mark_rolled_back now ctx oid reason)))
     (\<lambda>_. open_within ctx (S - {oid})) anything"
    "hoare (open_within ctx S) (review e ctx oid msg) (\<lambda>_. open_within ctx (S - {oid})) anything"
    unfolding review_def mark_rolled_back_def mark_needs_review_def by (simp_all add: hoare_mapErr)
qed

lemma commit_closes_hoare:
  "hoare (open_within ctx S) (commit_payload e c ctx pl)
     (\<lambda>_. open_within ctx (S - {cp_operation_id pl})) anything"
proof -
  let ?act = "\<lambda>t input now. commit_mutation (x_uuid_str (en_x e)) (sha256_hex (en_x e)) (commit_env_at e t now)
    (hook_of c t) ctx input"
  have commit: "hoare (open_within ctx S) (db_write e (?act t input))
      (\<lambda>_. open_within ctx (S - {ci_operation_id input})) anything" for t input
    using db_write_closes_hoare [where ok = "\<lambda>_. True" and act = "?act t input" and ctx = ctx
        and oid = "ci_operation_id input"] commit_closed by simp
  have input: "hoare (open_within ctx S) (lift_x (to_commit_input now pl))
      (\<lambda>input w. open_within ctx S w \<and> ci_operation_id input = cp_operation_id pl) anything" for now
    by (rule hoare_lift) (auto simp: to_commit_input_def bind_r_Ok_conv)
  have clock: "within (world_closes ctx) (modify_x (\<lambda>w. w\<lparr>cw_ticks := t\<rparr>))" for t
    by (rule withinI) (simp add: closing.keeps_ticks)
  show ?thesis
    unfolding commit_payload_def
    by (rule hoare_bind [OF open_within_hoare [OF closing.tick_frame]], rule hoare_bind [OF input], rule hoare_pure,
      rule hoare_bind [OF open_within_hoare [OF closing.within_pure(4)]],
      rule hoare_bind [OF open_within_hoare [OF clock]], rule hoare_bind [OF hoare_mapErr [OF commit]],
      rule hoare_return) simp
qed

lemma adjudicate_closes_hoare:
  "hoare (open_within ctx S) (adjudicate_existing e c ctx st j p)
     (\<lambda>_. open_within ctx (S - {jr_id j})) anything"
proof -
  let ?P = "open_within ctx S" and ?Q = "\<lambda>_. open_within ctx (S - {jr_id j})"
  have existing: "hoare ?P (review_existing e ctx oid err) ?Q anything" for oid err
    unfolding review_existing_def by (rule hoare_bind [OF terminal_hoare(2)], rule hoare_throw) simp
  have proven: "hoare ?P (supersede_call e ctx False wt)
      (\<lambda>a. open_within ctx (if a \<noteq> NotProven then S - {jr_id j} else S)) anything"
    if "sw_operation_id wt = jr_id j" for wt
    unfolding supersede_call_def that [symmetric]
    by (rule hoare_bind [OF open_within_hoare [OF closing.tick_frame]],
      rule hoare_mapErr, rule db_write_closes_hoare) (rule supersede_closed)
  have decide: "hoare (open_within ctx (if a \<noteq> NotProven then S - {jr_id j} else S))
      (if a = NotProven then review_existing e ctx oid err else return_x RecSuperseded) ?Q anything" for a oid err
    using existing by (cases "a = NotProven") (auto intro: hoare_return)
  have get: "hoare ?P (db_get g) (\<lambda>_. ?P) anything" for g :: "file_db \<Rightarrow> file_record option"
    by (intro open_within_hoare closing.effects)
  show ?thesis
    unfolding adjudicate_existing_def
    by (rule hoare_splits, rule hoare_bind [OF get], rule hoare_splits,
        rule hoare_try [OF open_within_kept [OF closing.on_fs_frame]];
        (simp only: sum.case split_def)?; (rule existing)?)
      (rule hoare_bind [OF proven], simp, rule decide)
qed

lemma finalize_closes_hoare:
  assumes "cp_operation_id pl = jr_id j"
  shows "hoare (open_within ctx S) (finalize e c ctx st hs j pl)
    (\<lambda>_. open_within ctx (S - {jr_id j})) anything"
proof -
  let ?P = "open_within ctx S" and ?Q = "\<lambda>_. open_within ctx (S - {jr_id j})"
  have quiet: "hoare ?P m (\<lambda>_. ?P) anything" if "within (world_closes ctx) m" for m
    using that by (rule open_within_hoare)
  have commit: "hoare ?P (try_x (commit_payload e c ctx pl) k) ?Q anything"
    if "\<And>a. hoare (open_within ctx (S - {jr_id j})) (k (Ok a)) ?Q anything"
      "\<And>f. hoare ?P (k (Err f)) ?Q anything" for k
  proof (rule hoareI)
    fix w r w'
    assume w: "?P w" and run: "try_x (commit_payload e c ctx pl) k w = (r, w')"
    obtain r1 w1 where 1: "commit_payload e c ctx pl w = (r1, w1)" by (rule prod.exhaust)
    have "?P w1" using hoareD [OF open_within_kept [OF closing.commit_payload_frame] w 1] by (simp split: sum.splits)
    with hoareD [OF commit_closes_hoare w 1] hoareD [OF that(1)] hoareD [OF that(2)] run 1 assms
    show "case r of Err _ \<Rightarrow> True | Ok a \<Rightarrow> ?Q a w'" by (cases r1) (auto simp: try_x_def)
  qed
  have review: "hoare ?P (bind_x (review e ctx (jr_id j) msg) (\<lambda>_. return_x RecNeedsReview)) ?Q anything" for msg
    by (rule hoare_bind [OF terminal_hoare(2)], rule hoare_return)
  have committed: "within (world_closes ctx) (if jr_state j = Prepared
      then file_committed e ctx (jr_id j) (cp_content_hash pl) else return_x ())"
    by (intro closing.steps)
  have blob: "within (world_closes ctx) (if cp_content_hash pl \<noteq> None \<and>
      cp_operation pl \<noteq> file_operation_as_str OpDelete
      then ensure_history_blob e st hs (cp_path pl) (cp_content_hash pl) (managed_path e c (cp_path pl))
      else return_x ())"
    by (intro closing.steps)
  show ?thesis
    unfolding finalize_def
    by (rule hoare_bind [OF quiet [OF closing.remove_journal_temporary_frame]],
      rule hoare_bind [OF quiet [OF committed]], rule hoare_bind [OF quiet [OF blob]], rule commit;
      simp only: sum.case)
      (auto intro!: hoare_return hoare_throw review adjudicate_closes_hoare split: vault_error.split state_error.split)
qed

lemma recover_one_closes_hoare:
  assumes "\<And>pl. jr_payload j = Some pl \<Longrightarrow> cp_operation_id pl = jr_id j"
  shows "hoare (open_within ctx S) (recover_one e c ctx st hs j)
    (\<lambda>_. open_within ctx (S - {jr_id j})) anything"
proof -
  let ?P = "open_within ctx S" and ?Q = "\<lambda>_. open_within ctx (S - {jr_id j})"
  have quiet: "hoare ?P m (\<lambda>_. ?P) anything" if "within (world_closes ctx) m" for m
    using that by (rule open_within_hoare)
  have payload: "hoare ?P (lift_x (ok_or NeedsReview (jr_payload j)))
      (\<lambda>pl w. ?P w \<and> jr_payload j = Some pl) anything"
    by (rule hoare_lift) (auto simp: ok_or_def split: option.splits)
  have undo: "hoare ?P (bind_x (remove_journal_temporary st j) (\<lambda>_.
      bind_x (mapErr_x VState (db_write e (\<lambda>now. mark_rolled_back now ctx (jr_id j) reason))) (\<lambda>_.
        return_x RecRolledBack))) ?Q anything" for reason
    by (rule hoare_bind [OF quiet [OF closing.remove_journal_temporary_frame]],
      rule hoare_bind [OF terminal_hoare(1)], rule hoare_return)
  have unclear: "hoare ?P (bind_x (review e ctx (jr_id j) msg) (\<lambda>_. return_x RecNeedsReview)) ?Q anything" for msg
    by (rule hoare_bind [OF terminal_hoare(2)], rule hoare_return)
  show ?thesis
    unfolding recover_one_def
    by (rule hoare_bind [OF payload], rule hoare_pure,
      rule hoare_bind [OF quiet [OF closing.recovery_state_frame]],
      rule hoare_bind [OF quiet [OF closing.recovery_state_frame]], intro hoare_splits)
      (auto intro: undo unclear finalize_closes_hoare assms)
qed

section \<open>The whole recovery\<close>

definition payloads_named :: "file_db \<Rightarrow> bool" where
  "payloads_named db \<longleftrightarrow>
     (\<forall>j \<in> set (db_journal db). \<forall>pl. jr_payload j = Some pl \<longrightarrow> cp_operation_id pl = jr_id j)"

lemma recover_journals_hoare:
  assumes "\<And>j pl. j \<in> set js \<Longrightarrow> jr_payload j = Some pl \<Longrightarrow> cp_operation_id pl = jr_id j"
  shows "hoare (open_within ctx S) (recover_journals e c ctx st hs None rep js)
    (\<lambda>_. open_within ctx (S - jr_id ` set js)) anything"
  using assms
proof (induction js arbitrary: S rep)
  case Nil
  then show ?case by (simp add: hoare_def)
next
  case (Cons j js)
  have "hoare (open_within ctx S) (recover_one e c ctx st hs j) (\<lambda>_. open_within ctx (S - {jr_id j})) anything"
    by (rule recover_one_closes_hoare) (simp add: Cons.prems)
  moreover have "hoare (open_within ctx (S - {jr_id j})) (recover_journals e c ctx st hs None r js)
      (\<lambda>_. open_within ctx (S - {jr_id j} - jr_id ` set js)) anything" for r
    by (rule Cons.IH) (simp add: Cons.prems)
  moreover have "S - {jr_id j} - jr_id ` set js = S - jr_id ` set (j # js)" by auto
  ultimately show ?case
    by (simp only: recover_journals.simps option.case if_False)
      (rule hoare_bind [OF hoare_mapErr], assumption, simp)
qed

text \<open>The database does not change before the entries are read.\<close>

lemma db_get_hoare:
  "hoare (\<lambda>w. cw_db w = db) (db_get f) (\<lambda>y w. cw_db w = db \<and> y = f db) anything"
proof (rule hoare_mapErr, rule hoareI)
  fix w r w'
  assume w: "cw_db w = db" and "db_call (\<lambda>db. map_sum id (\<lambda>a. (a, db)) (Ok (f db))) w = (r, w')"
  from this(2) show "case r of Err _ \<Rightarrow> True | Ok y \<Rightarrow> cw_db w' = db \<and> y = f db"
    by (cases rule: db_call_cases) (use w in \<open>auto split: sum.splits\<close>)
qed

lemma recover_inner_hoare:
  assumes "payloads_named db" "distinct (map jr_id (db_journal db))"
  shows "hoare (\<lambda>w. cw_db w = db) (recover_inner e c ctx)
    (\<lambda>_ w. list_incomplete ctx (cw_db w) = []) anything"
proof -
  let ?D = "\<lambda>w. cw_db w = db"
  have store: "hoare ?D (core_history e c ctx) (\<lambda>_. ?D) anything"
    unfolding core_history_def by (rule hoare_lift) auto
  have named: "cp_operation_id pl = jr_id j" if "j \<in> set (list_incomplete ctx db)" "jr_payload j = Some pl" for j pl
    using that assms(1) by (auto simp: list_incomplete_def payloads_named_def)
  have journals: "hoare ?D (recover_journals e c ctx st hs None rep (list_incomplete ctx db))
      (\<lambda>_. open_within ctx {}) anything" for st hs rep
  proof (rule hoare_pre)
    show "hoare (open_within ctx (open_ids ctx db)) (recover_journals e c ctx st hs None rep (list_incomplete ctx db))
      (\<lambda>_. open_within ctx {}) anything"
      using recover_journals_hoare [where js = "list_incomplete ctx db" and S = "open_ids ctx db", OF named]
      by (simp add: list_incomplete_ids)
  qed (use assms(2) in \<open>simp add: open_within_def\<close>)
  have empty: "list_incomplete ctx (cw_db w) = []" if "open_within ctx {} w" for w
    using that list_incomplete_ids [of ctx "cw_db w"] by (auto simp: open_within_def)
  have "hoare ?D (recover_inner e c ctx) (\<lambda>_. open_within ctx {}) anything"
    unfolding recover_inner_def recover_inner_detailed_for_path_prefix_def
    by (rule hoare_mapErr, rule hoare_bind [OF hoare_mapErr [OF store]],
      rule hoare_bind [OF hoare_mapErr [OF db_get_hoare]], rule hoare_pure, simp only:, rule journals)
  then show ?thesis by (rule hoare_conseq) (auto intro: empty)
qed

text \<open>
  C4: recovery is complete. Whatever the files look like and whatever faults are met, a call of
  \<^verbatim>\<open>recover\<close> that returns a report has left no operation of the Vault open: the journal holds no entry
  in the state \<open>prepared\<close> or \<open>file_committed\<close> any more, so each was rolled back, finalised, superseded or put up for
  review. The journal ids are unique (the table's key) and each stored payload names its own
  operation, which is how the service writes them.
\<close>

theorem recover_completes:
  assumes "recover e c ctx w = (Ok report, w')"
    and "db_ok (cw_db w)" "payloads_named (cw_db w)"
  shows "list_incomplete ctx (cw_db w') = []"
proof -
  let ?D = "\<lambda>v. cw_db v = cw_db w"
  have keys: "distinct (map jr_id (db_journal (cw_db w)))" using assms(2) by (simp add: db_ok_def journal_keys_def)
  have valid: "hoare ?D (validate_registered_context ctx True) (\<lambda>_. ?D) anything"
    unfolding validate_registered_context_def
    by (rule hoare_bind [OF db_get_hoare], rule hoare_pure, rule hoare_bind [OF hoare_lift [where Q = "\<lambda>_. ?D"]])
      (auto intro!: hoare_throw hoare_return)
  have "hoare ?D (recover e c ctx) (\<lambda>_ w. list_incomplete ctx (cw_db w) = []) anything"
    unfolding recover_def
    by (rule guarded_rule [OF recover_inner_hoare [OF assms(3) keys] valid]) simp_all
  from hoareD [OF this refl assms(1)] show ?thesis by simp
qed

definition interrupted_db :: file_db where
  "interrupted_db =
     result_db (prepare_operation 10 example_ctx (example_prepare\<lparr>po_payload := Some (example_payload 100 1)\<rparr>)
       example_db0) example_db0"

definition interrupted_world :: core_world where
  "interrupted_world = (example_world [] gate_new)\<lparr>cw_db := interrupted_db\<rparr>"

theorem recover_completes_witness:
  "\<exists>report w'. recover example_core_env example_core example_ctx interrupted_world = (Ok report, w') \<and>
     rep_rolled_back report = 1 \<and> list_incomplete example_ctx (cw_db interrupted_world) \<noteq> [] \<and>
     list_incomplete example_ctx (cw_db w') = []"
proof -
  have "map_sum id rep_rolled_back (fst (recover example_core_env example_core example_ctx interrupted_world)) = Ok 1"
    by code_simp
  then obtain report w' where
    run: "recover example_core_env example_core example_ctx interrupted_world = (Ok report, w')" "rep_rolled_back report = 1"
    by (cases "recover example_core_env example_core example_ctx interrupted_world")
      (auto simp: map_sum_def split: sum.splits)
  have db: "cw_db interrupted_world = interrupted_db" by (simp add: interrupted_world_def)
  have rows: "db_files interrupted_db = []" "db_revisions interrupted_db = []"
    "map jr_id (db_journal interrupted_db) = [100]" "map jr_payload (db_journal interrupted_db) = [Some (example_payload 100 1)]"
    by code_simp+
  then obtain j where j: "db_journal interrupted_db = [j]" "jr_id j = 100" "jr_payload j = Some (example_payload 100 1)"
    by auto
  have "db_ok (cw_db interrupted_world)"
    by (simp add: db db_ok_def rows(1,2) j files_keys_def revisions_owned_def gapless_def journal_keys_def)
  moreover have "payloads_named (cw_db interrupted_world)"
    by (simp add: db payloads_named_def j example_payload_def)
  moreover have "list_incomplete example_ctx (cw_db interrupted_world) \<noteq> []" by code_simp
  ultimately show ?thesis using run recover_completes [OF run(1)] by blast
qed

end
