(* ===== verification/Auth_Store.thy ===== *)
theory Auth_Store
  imports File_State
begin

text \<open>
  The authentication repository (crates/state/src/auth.rs): encrypted secrets, administrators and
  their sessions, WebDAV passwords, MCP tokens, OAuth issuers and subject grants. A table is the list
  of its rows, a query reads it, a statement returns the new tables or the database error that its
  uniqueness, foreign-key and check constraints raise. Digests and other blobs are byte strings; a
  JSON column holds the decoded value, \<open>None\<close> when the text does not decode.
\<close>

section \<open>Rows\<close>

type_synonym blob = string
type_synonym credential_id = uuid

record encrypted_secret_record =
  es_id :: uuid
  es_purpose :: string
  es_owner_type :: string
  es_owner_id :: "string option"
  es_key_version :: nat
  es_nonce :: blob
  es_ciphertext :: blob
  es_hint :: "string option"
  es_created_at :: int
  es_updated_at :: int

record admin_user_record =
  us_id :: uuid
  us_username :: string
  us_password_hash :: string
  us_disabled :: bool
  us_password_changed_at :: int
  us_created_at :: int
  us_updated_at :: int

record admin_session_record =
  se_id :: uuid
  se_user_id :: uuid
  se_token_digest :: blob
  se_csrf_secret_digest :: blob
  se_digest_key_version :: nat
  se_created_at :: int
  se_last_seen_at :: int
  se_expires_at :: int
  se_source_ip :: "string option"
  se_user_agent_hash :: "blob option"
  se_revoked_at :: "int option"

record webdav_credential_record =
  wd_id :: credential_id
  wd_vault :: vault_id
  wd_name :: string
  wd_username :: string
  wd_password_hash :: string
  wd_permissions :: "permission list option"
  wd_created_at :: int
  wd_last_used_at :: "int option"
  wd_expires_at :: "int option"
  wd_revoked_at :: "int option"

record mcp_token_record =
  mt_id :: credential_id
  mt_vault :: vault_id
  mt_name :: string
  mt_token_prefix :: string
  mt_token_digest :: blob
  mt_digest_key_version :: nat
  mt_scopes :: "string list option"
  mt_created_at :: int
  mt_last_used_at :: "int option"
  mt_expires_at :: "int option"
  mt_revoked_at :: "int option"

record oauth_issuer_record =
  oi_id :: uuid
  oi_name :: string
  oi_issuer_url :: string
  oi_discovery_url :: "string option"
  oi_audience :: string
  oi_resource :: "string option"
  oi_jwks_cache :: "string option"
  oi_jwks_cached_at :: "int option"
  oi_enabled :: bool
  oi_created_at :: int
  oi_updated_at :: int

record oauth_grant_record =
  og_id :: uuid
  og_issuer_id :: uuid
  og_subject :: string
  og_vault :: vault_id
  og_scopes :: "string list option"
  og_created_at :: int
  og_updated_at :: int
  og_revoked_at :: "int option"

text \<open>Rows of the built-in authorization server (crates/state/src/auth/local\_oauth.rs).\<close>

record oauth_local_user_record =
  lu_id :: uuid
  lu_vault :: vault_id
  lu_username :: string
  lu_password_hash :: string
  lu_scopes :: "string list option"
  lu_enabled :: bool
  lu_password_changed_at :: int
  lu_created_at :: int
  lu_updated_at :: int

record oauth_client_record =
  cl_id :: uuid
  cl_name :: string
  cl_redirect_uris :: "string list option"
  cl_grant_types :: "string list option"
  cl_response_types :: "string list option"
  cl_auth_method :: string
  cl_created_at :: int
  cl_last_used_at :: "int option"
  cl_revoked_at :: "int option"

record oauth_request_record =
  ar_id :: uuid
  ar_digest :: blob
  ar_digest_key_version :: nat
  ar_client :: uuid
  ar_vault :: vault_id
  ar_resource :: string
  ar_redirect_uri :: string
  ar_scopes :: "string list option"
  ar_state :: "string option"
  ar_code_challenge :: string
  ar_created_at :: int
  ar_expires_at :: int
  ar_consumed_at :: "int option"

record oauth_code_record =
  co_id :: uuid
  co_digest :: blob
  co_digest_key_version :: nat
  co_client :: uuid
  co_user :: uuid
  co_vault :: vault_id
  co_resource :: string
  co_redirect_uri :: string
  co_scopes :: "string list option"
  co_code_challenge :: string
  co_created_at :: int
  co_expires_at :: int
  co_consumed_at :: "int option"

record oauth_access_record =
  ax_id :: uuid
  ax_family :: uuid
  ax_token_prefix :: string
  ax_token_digest :: blob
  ax_digest_key_version :: nat
  ax_client :: uuid
  ax_user :: uuid
  ax_vault :: vault_id
  ax_resource :: string
  ax_scopes :: "string list option"
  ax_created_at :: int
  ax_expires_at :: int
  ax_last_used_at :: "int option"
  ax_revoked_at :: "int option"

record oauth_refresh_record =
  rt_id :: uuid
  rt_family :: uuid
  rt_token_prefix :: string
  rt_token_digest :: blob
  rt_digest_key_version :: nat
  rt_client :: uuid
  rt_user :: uuid
  rt_vault :: vault_id
  rt_resource :: string
  rt_scopes :: "string list option"
  rt_created_at :: int
  rt_expires_at :: int
  rt_rotated_at :: "int option"
  rt_revoked_at :: "int option"

record auth_db =
  ad_vaults :: "vault_row list"
  ad_key_checks :: "(nat \<times> blob) list"
  ad_secrets :: "encrypted_secret_record list"
  ad_users :: "admin_user_record list"
  ad_sessions :: "admin_session_record list"
  ad_webdav :: "webdav_credential_record list"
  ad_mcp_tokens :: "mcp_token_record list"
  ad_issuers :: "oauth_issuer_record list"
  ad_grants :: "oauth_grant_record list"
  ad_local_users :: "oauth_local_user_record list"
  ad_clients :: "oauth_client_record list"
  ad_requests :: "oauth_request_record list"
  ad_codes :: "oauth_code_record list"
  ad_access :: "oauth_access_record list"
  ad_refresh :: "oauth_refresh_record list"

definition coalesce_at :: "int option \<Rightarrow> int \<Rightarrow> int option" where
  \<comment> \<open>\<open>COALESCE(revoked_at, ?)\<close>\<close>
  "coalesce_at old now = Some (case old of None \<Rightarrow> now | Some t \<Rightarrow> t)"

definition ensure_vault_context :: "vault_context \<Rightarrow> auth_db \<Rightarrow> state_error + unit" where
  "ensure_vault_context ctx db =
     (if \<exists>v \<in> set (ad_vaults db). vr_id v = ctx_id ctx \<and> vr_slug v = ctx_slug ctx
           \<and> vr_content_root v = ctx_content_root ctx
      then Ok () else Err (InvalidInput ''Vault context is not registered''))"

definition known_vault :: "vault_id \<Rightarrow> auth_db \<Rightarrow> bool" where
  "known_vault v db \<longleftrightarrow> (\<exists>r \<in> set (ad_vaults db). vr_id r = v)"

section \<open>Secrets\<close>

definition count_encrypted_secrets :: "auth_db \<Rightarrow> nat" where
  "count_encrypted_secrets db = length (ad_secrets db)"

definition count_master_key_dependencies :: "auth_db \<Rightarrow> nat" where
  "count_master_key_dependencies db =
     length (ad_secrets db) + length (ad_mcp_tokens db) + length (ad_requests db)
       + length (ad_codes db) + length (ad_access db) + length (ad_refresh db)"

definition get_installation_key_check :: "nat \<Rightarrow> auth_db \<Rightarrow> blob option" where
  "get_installation_key_check version db = map_option snd (find_row (\<lambda>r. fst r = version) (ad_key_checks db))"

definition count_installation_key_checks :: "auth_db \<Rightarrow> nat" where
  "count_installation_key_checks db = length (ad_key_checks db)"

definition insert_installation_key_check_if_absent ::
  "nat \<Rightarrow> blob \<Rightarrow> auth_db \<Rightarrow> state_error + unit \<times> auth_db" where
  "insert_installation_key_check_if_absent version digest db =
     (if version = 0 \<or> length digest \<noteq> 32 then Err (InvalidInput ''installation key check is invalid'')
      else if get_installation_key_check version db \<noteq> None then Ok ((), db)
      else Ok ((), db\<lparr>ad_key_checks := ad_key_checks db @ [(version, digest)]\<rparr>))"

definition get_secret :: "uuid \<Rightarrow> auth_db \<Rightarrow> encrypted_secret_record option" where
  "get_secret i db = find_row (\<lambda>r. es_id r = i) (ad_secrets db)"

definition list_secrets :: "auth_db \<Rightarrow> encrypted_secret_record list" where
  "list_secrets db = sort_key es_id (ad_secrets db)"

definition insert_secret ::
  "int \<Rightarrow> uuid \<Rightarrow> string \<Rightarrow> string \<Rightarrow> string option \<Rightarrow> nat \<Rightarrow> blob \<Rightarrow> blob \<Rightarrow> string option \<Rightarrow> auth_db \<Rightarrow>
     state_error + encrypted_secret_record \<times> auth_db" where
  "insert_secret now i purpose owner_type owner_id version nonce ciphertext hint db =
     (let row = \<lparr>es_id = i, es_purpose = purpose, es_owner_type = owner_type, es_owner_id = owner_id,
            es_key_version = version, es_nonce = nonce, es_ciphertext = ciphertext, es_hint = hint,
            es_created_at = now, es_updated_at = now\<rparr>
      in if get_secret i db \<noteq> None then Err (Database UniqueViolation)
         else if version = 0 then Err (Database OtherDatabaseError)
         else Ok (row, db\<lparr>ad_secrets := ad_secrets db @ [row]\<rparr>))"

definition update_secret_ciphertext ::
  "int \<Rightarrow> uuid \<Rightarrow> nat \<Rightarrow> blob \<Rightarrow> blob \<Rightarrow> string option \<Rightarrow> auth_db \<Rightarrow>
     state_error + encrypted_secret_record \<times> auth_db" where
  "update_secret_ciphertext now i version nonce ciphertext hint db =
     (let db' = db\<lparr>ad_secrets := update_rows (\<lambda>r. es_id r = i)
            (\<lambda>r. r\<lparr>es_key_version := version, es_nonce := nonce, es_ciphertext := ciphertext,
                   es_hint := hint, es_updated_at := now\<rparr>) (ad_secrets db)\<rparr>
      in if version = 0 \<and> get_secret i db \<noteq> None then Err (Database OtherDatabaseError)
         else if rows_affected (\<lambda>r. es_id r = i) (ad_secrets db) \<noteq> 1
         then Err (InvalidInput ''secret does not exist'')
         else (case get_secret i db' of
                 None \<Rightarrow> Err (InvalidInput ''updated secret was not found'')
               | Some r \<Rightarrow> Ok (r, db')))"

section \<open>Administrators and sessions\<close>

definition has_admin_users :: "auth_db \<Rightarrow> bool" where
  "has_admin_users db \<longleftrightarrow> ad_users db \<noteq> []"

definition get_admin_user :: "uuid \<Rightarrow> auth_db \<Rightarrow> admin_user_record option" where
  "get_admin_user i db = find_row (\<lambda>u. us_id u = i) (ad_users db)"

definition find_admin_user_by_username :: "string \<Rightarrow> auth_db \<Rightarrow> admin_user_record option" where
  "find_admin_user_by_username name db = find_row (\<lambda>u. us_username u = name) (ad_users db)"

definition admin_user_row :: "int \<Rightarrow> uuid \<Rightarrow> string \<Rightarrow> string \<Rightarrow> admin_user_record" where
  "admin_user_row now i name hash =
     \<lparr>us_id = i, us_username = name, us_password_hash = hash, us_disabled = False,
      us_password_changed_at = now, us_created_at = now, us_updated_at = now\<rparr>"

definition insert_admin_user ::
  "int \<Rightarrow> uuid \<Rightarrow> string \<Rightarrow> string \<Rightarrow> auth_db \<Rightarrow> state_error + admin_user_record \<times> auth_db" where
  "insert_admin_user now i name hash db =
     (if get_admin_user i db \<noteq> None \<or> find_admin_user_by_username name db \<noteq> None
      then Err (Database UniqueViolation)
      else Ok (admin_user_row now i name hash,
               db\<lparr>ad_users := ad_users db @ [admin_user_row now i name hash]\<rparr>))"

definition insert_first_admin_user ::
  "int \<Rightarrow> uuid \<Rightarrow> string \<Rightarrow> string \<Rightarrow> auth_db \<Rightarrow>
     state_error + admin_user_record option \<times> auth_db" where
  "insert_first_admin_user now i name hash db =
     (if ad_users db \<noteq> [] then Ok (None, db)
      else Ok (Some (admin_user_row now i name hash),
               db\<lparr>ad_users := [admin_user_row now i name hash]\<rparr>))"

definition update_admin_password :: "int \<Rightarrow> uuid \<Rightarrow> string \<Rightarrow> auth_db \<Rightarrow> state_error + unit \<times> auth_db" where
  "update_admin_password now i hash db =
     (if rows_affected (\<lambda>u. us_id u = i) (ad_users db) \<noteq> 1
      then Err (InvalidInput ''Admin user does not exist'')
      else Ok ((), db\<lparr>ad_users := update_rows (\<lambda>u. us_id u = i)
             (\<lambda>u. u\<lparr>us_password_hash := hash, us_password_changed_at := now, us_updated_at := now\<rparr>)
             (ad_users db)\<rparr>))"

definition find_admin_session :: "blob \<Rightarrow> auth_db \<Rightarrow> admin_session_record option" where
  "find_admin_session digest db = find_row (\<lambda>s. se_token_digest s = digest) (ad_sessions db)"

definition find_admin_session_by_id :: "uuid \<Rightarrow> auth_db \<Rightarrow> admin_session_record option" where
  "find_admin_session_by_id i db = find_row (\<lambda>s. se_id s = i) (ad_sessions db)"

definition insert_admin_session ::
  "uuid \<Rightarrow> uuid \<Rightarrow> blob \<Rightarrow> blob \<Rightarrow> nat \<Rightarrow> int \<Rightarrow> int \<Rightarrow> string option \<Rightarrow> blob option \<Rightarrow> auth_db \<Rightarrow>
     state_error + admin_session_record \<times> auth_db" where
  "insert_admin_session i user digest csrf version created expires ip agent db =
     (let row = \<lparr>se_id = i, se_user_id = user, se_token_digest = digest, se_csrf_secret_digest = csrf,
            se_digest_key_version = version, se_created_at = created, se_last_seen_at = created,
            se_expires_at = expires, se_source_ip = ip, se_user_agent_hash = agent, se_revoked_at = None\<rparr>
      in if find_admin_session_by_id i db \<noteq> None \<or> find_admin_session digest db \<noteq> None
         then Err (Database UniqueViolation)
         else if get_admin_user user db = None then Err (Database ForeignKeyViolation)
         else Ok (row, db\<lparr>ad_sessions := ad_sessions db @ [row]\<rparr>))"

definition touch_admin_session :: "uuid \<Rightarrow> int \<Rightarrow> auth_db \<Rightarrow> state_error + unit \<times> auth_db" where
  "touch_admin_session i seen db =
     Ok ((), db\<lparr>ad_sessions := update_rows (\<lambda>s. se_id s = i) (\<lambda>s. s\<lparr>se_last_seen_at := seen\<rparr>) (ad_sessions db)\<rparr>)"

definition revoke_admin_session :: "int \<Rightarrow> uuid \<Rightarrow> auth_db \<Rightarrow> state_error + unit \<times> auth_db" where
  "revoke_admin_session now i db =
     Ok ((), db\<lparr>ad_sessions := update_rows (\<lambda>s. se_id s = i)
            (\<lambda>s. s\<lparr>se_revoked_at := coalesce_at (se_revoked_at s) now\<rparr>) (ad_sessions db)\<rparr>)"

definition revoke_admin_sessions :: "int \<Rightarrow> uuid \<Rightarrow> auth_db \<Rightarrow> state_error + unit \<times> auth_db" where
  "revoke_admin_sessions now user db =
     Ok ((), db\<lparr>ad_sessions := update_rows (\<lambda>s. se_user_id s = user \<and> se_revoked_at s = None)
            (\<lambda>s. s\<lparr>se_revoked_at := coalesce_at (se_revoked_at s) now\<rparr>) (ad_sessions db)\<rparr>)"

section \<open>WebDAV passwords\<close>

definition find_webdav_row :: "vault_id \<Rightarrow> string \<Rightarrow> auth_db \<Rightarrow> webdav_credential_record option" where
  "find_webdav_row v name db = find_row (\<lambda>r. wd_vault r = v \<and> wd_username r = name) (ad_webdav db)"

definition find_webdav_credential ::
  "vault_context \<Rightarrow> string \<Rightarrow> auth_db \<Rightarrow> state_error + webdav_credential_record option" where
  "find_webdav_credential ctx name db =
     bind_r (ensure_vault_context ctx db) (\<lambda>_. Ok (find_webdav_row (ctx_id ctx) name db))"

definition insert_webdav_credential ::
  "int \<Rightarrow> vault_context \<Rightarrow> credential_id \<Rightarrow> string \<Rightarrow> string \<Rightarrow> string \<Rightarrow> permission list \<Rightarrow> int option \<Rightarrow>
     auth_db \<Rightarrow> state_error + webdav_credential_record \<times> auth_db" where
  "insert_webdav_credential now ctx i name username hash permissions expires db =
     bind_r (ensure_vault_context ctx db) (\<lambda>_.
       let row = \<lparr>wd_id = i, wd_vault = ctx_id ctx, wd_name = name, wd_username = username,
             wd_password_hash = hash, wd_permissions = Some permissions, wd_created_at = now,
             wd_last_used_at = None, wd_expires_at = expires, wd_revoked_at = None\<rparr>
       in if (\<exists>r \<in> set (ad_webdav db). wd_id r = i) \<or> find_webdav_row (ctx_id ctx) username db \<noteq> None
          then Err (Database UniqueViolation)
          else Ok (row, db\<lparr>ad_webdav := ad_webdav db @ [row]\<rparr>))"

definition page_limit :: "string \<Rightarrow> nat \<Rightarrow> state_error + unit" where
  "page_limit what limit = (if limit = 0 \<or> limit > 1000 then Err (InvalidInput what) else Ok ())"

definition list_webdav_credentials ::
  "vault_context \<Rightarrow> nat \<Rightarrow> auth_db \<Rightarrow> state_error + webdav_credential_record list" where
  "list_webdav_credentials ctx limit db =
     bind_r (ensure_vault_context ctx db) (\<lambda>_.
     bind_r (page_limit ''WebDAV credential page is invalid'' limit) (\<lambda>_.
       Ok (take limit (sort_key (\<lambda>r. (- wd_created_at r)) (sort_key wd_id
             (filter (\<lambda>r. wd_vault r = ctx_id ctx) (ad_webdav db)))))))"

definition update_webdav ::
  "vault_context \<Rightarrow> credential_id \<Rightarrow> (webdav_credential_record \<Rightarrow> webdav_credential_record) \<Rightarrow> auth_db \<Rightarrow> auth_db" where
  "update_webdav ctx i f db =
     db\<lparr>ad_webdav := update_rows (\<lambda>r. wd_id r = i \<and> wd_vault r = ctx_id ctx) f (ad_webdav db)\<rparr>"

definition touch_webdav_credential ::
  "vault_context \<Rightarrow> credential_id \<Rightarrow> int \<Rightarrow> auth_db \<Rightarrow> state_error + unit \<times> auth_db" where
  "touch_webdav_credential ctx i used db =
     bind_r (ensure_vault_context ctx db) (\<lambda>_.
       Ok ((), update_webdav ctx i (\<lambda>r. r\<lparr>wd_last_used_at := Some used\<rparr>) db))"

definition update_webdav_credential_row ::
  "vault_context \<Rightarrow> credential_id \<Rightarrow> string \<Rightarrow> permission list \<Rightarrow> int option \<Rightarrow> auth_db \<Rightarrow>
     state_error + unit \<times> auth_db" where
  "update_webdav_credential_row ctx i name permissions expires db =
     bind_r (ensure_vault_context ctx db) (\<lambda>_.
       if rows_affected (\<lambda>r. wd_id r = i \<and> wd_vault r = ctx_id ctx) (ad_webdav db) \<noteq> 1
       then Err (InvalidInput ''WebDAV credential does not exist'')
       else Ok ((), update_webdav ctx i
              (\<lambda>r. r\<lparr>wd_name := name, wd_permissions := Some permissions, wd_expires_at := expires\<rparr>) db))"

definition revoke_webdav_credential_row ::
  "int \<Rightarrow> vault_context \<Rightarrow> credential_id \<Rightarrow> auth_db \<Rightarrow> state_error + unit \<times> auth_db" where
  "revoke_webdav_credential_row now ctx i db =
     bind_r (ensure_vault_context ctx db) (\<lambda>_.
       Ok ((), update_webdav ctx i (\<lambda>r. r\<lparr>wd_revoked_at := coalesce_at (wd_revoked_at r) now\<rparr>) db))"

section \<open>MCP tokens\<close>

definition find_mcp_row :: "vault_id \<Rightarrow> string \<Rightarrow> blob \<Rightarrow> auth_db \<Rightarrow> mcp_token_record option" where
  "find_mcp_row v pre digest db =
     find_row (\<lambda>r. mt_vault r = v \<and> mt_token_prefix r = pre \<and> mt_token_digest r = digest) (ad_mcp_tokens db)"

definition find_mcp_token ::
  "vault_context \<Rightarrow> string \<Rightarrow> blob \<Rightarrow> auth_db \<Rightarrow> state_error + mcp_token_record option" where
  "find_mcp_token ctx pre digest db =
     bind_r (ensure_vault_context ctx db) (\<lambda>_. Ok (find_mcp_row (ctx_id ctx) pre digest db))"

definition insert_mcp_token ::
  "int \<Rightarrow> vault_context \<Rightarrow> credential_id \<Rightarrow> string \<Rightarrow> string \<Rightarrow> blob \<Rightarrow> nat \<Rightarrow> string list \<Rightarrow> int option \<Rightarrow>
     auth_db \<Rightarrow> state_error + mcp_token_record \<times> auth_db" where
  "insert_mcp_token now ctx i name pre digest version scopes expires db =
     bind_r (ensure_vault_context ctx db) (\<lambda>_.
       let row = \<lparr>mt_id = i, mt_vault = ctx_id ctx, mt_name = name, mt_token_prefix = pre,
             mt_token_digest = digest, mt_digest_key_version = version, mt_scopes = Some scopes,
             mt_created_at = now, mt_last_used_at = None, mt_expires_at = expires, mt_revoked_at = None\<rparr>
       in if \<exists>r \<in> set (ad_mcp_tokens db). mt_id r = i \<or> mt_token_digest r = digest
          then Err (Database UniqueViolation)
          else Ok (row, db\<lparr>ad_mcp_tokens := ad_mcp_tokens db @ [row]\<rparr>))"

definition list_mcp_tokens ::
  "vault_context \<Rightarrow> nat \<Rightarrow> auth_db \<Rightarrow> state_error + mcp_token_record list" where
  "list_mcp_tokens ctx limit db =
     bind_r (ensure_vault_context ctx db) (\<lambda>_.
     bind_r (page_limit ''MCP token page is invalid'' limit) (\<lambda>_.
       Ok (take limit (sort_key (\<lambda>r. (- mt_created_at r)) (sort_key mt_id
             (filter (\<lambda>r. mt_vault r = ctx_id ctx) (ad_mcp_tokens db)))))))"

definition update_mcp ::
  "vault_context \<Rightarrow> credential_id \<Rightarrow> (mcp_token_record \<Rightarrow> mcp_token_record) \<Rightarrow> auth_db \<Rightarrow> auth_db" where
  "update_mcp ctx i f db =
     db\<lparr>ad_mcp_tokens := update_rows (\<lambda>r. mt_id r = i \<and> mt_vault r = ctx_id ctx) f (ad_mcp_tokens db)\<rparr>"

definition touch_mcp_token ::
  "vault_context \<Rightarrow> credential_id \<Rightarrow> int \<Rightarrow> auth_db \<Rightarrow> state_error + unit \<times> auth_db" where
  "touch_mcp_token ctx i used db =
     bind_r (ensure_vault_context ctx db) (\<lambda>_.
       Ok ((), update_mcp ctx i (\<lambda>r. r\<lparr>mt_last_used_at := Some used\<rparr>) db))"

definition revoke_mcp_token ::
  "int \<Rightarrow> vault_context \<Rightarrow> credential_id \<Rightarrow> auth_db \<Rightarrow> state_error + unit \<times> auth_db" where
  "revoke_mcp_token now ctx i db =
     bind_r (ensure_vault_context ctx db) (\<lambda>_.
       Ok ((), update_mcp ctx i (\<lambda>r. r\<lparr>mt_revoked_at := coalesce_at (mt_revoked_at r) now\<rparr>) db))"

section \<open>OAuth issuers and subject grants\<close>

definition get_oauth_issuer :: "uuid \<Rightarrow> auth_db \<Rightarrow> oauth_issuer_record option" where
  "get_oauth_issuer i db = find_row (\<lambda>r. oi_id r = i) (ad_issuers db)"

definition find_oauth_issuer :: "string \<Rightarrow> auth_db \<Rightarrow> oauth_issuer_record option" where
  "find_oauth_issuer url db = find_row (\<lambda>r. oi_issuer_url r = url) (ad_issuers db)"

definition list_oauth_issuers :: "nat \<Rightarrow> auth_db \<Rightarrow> state_error + oauth_issuer_record list" where
  "list_oauth_issuers limit db =
     bind_r (page_limit ''OAuth issuer page is invalid'' limit) (\<lambda>_.
       Ok (take limit (sort_key oi_name (sort_key oi_id (ad_issuers db)))))"

record issuer_fields =
  if_name :: string
  if_issuer_url :: string
  if_discovery_url :: "string option"
  if_audience :: string
  if_resource :: "string option"
  if_jwks_cache :: "string option"
  if_enabled :: bool

definition issuer_row :: "int \<Rightarrow> int \<Rightarrow> uuid \<Rightarrow> issuer_fields \<Rightarrow> oauth_issuer_record" where
  "issuer_row created now i f =
     \<lparr>oi_id = i, oi_name = if_name f, oi_issuer_url = if_issuer_url f,
      oi_discovery_url = if_discovery_url f, oi_audience = if_audience f, oi_resource = if_resource f,
      oi_jwks_cache = if_jwks_cache f, oi_jwks_cached_at = map_option (\<lambda>_. now) (if_jwks_cache f),
      oi_enabled = if_enabled f, oi_created_at = created, oi_updated_at = now\<rparr>"

definition insert_oauth_issuer ::
  "int \<Rightarrow> uuid \<Rightarrow> issuer_fields \<Rightarrow> auth_db \<Rightarrow> state_error + oauth_issuer_record \<times> auth_db" where
  "insert_oauth_issuer now i f db =
     (if get_oauth_issuer i db \<noteq> None \<or> find_oauth_issuer (if_issuer_url f) db \<noteq> None
      then Err (Database UniqueViolation)
      else Ok (issuer_row now now i f, db\<lparr>ad_issuers := ad_issuers db @ [issuer_row now now i f]\<rparr>))"

definition update_oauth_issuer ::
  "int \<Rightarrow> uuid \<Rightarrow> issuer_fields \<Rightarrow> auth_db \<Rightarrow> state_error + oauth_issuer_record \<times> auth_db" where
  "update_oauth_issuer now i f db =
     (if get_oauth_issuer i db \<noteq> None
           \<and> (\<exists>r \<in> set (ad_issuers db). oi_issuer_url r = if_issuer_url f \<and> oi_id r \<noteq> i)
      then Err (Database UniqueViolation)
      else if rows_affected (\<lambda>r. oi_id r = i) (ad_issuers db) \<noteq> 1
      then Err (InvalidInput ''OAuth issuer does not exist'')
      else (let db' = db\<lparr>ad_issuers := update_rows (\<lambda>r. oi_id r = i)
                  (\<lambda>r. issuer_row (oi_created_at r) now i f) (ad_issuers db)\<rparr>
            in case get_oauth_issuer i db' of
                 None \<Rightarrow> Err (InvalidInput ''updated OAuth issuer was not found'')
               | Some r \<Rightarrow> Ok (r, db')))"

definition find_grant_row :: "vault_id \<Rightarrow> uuid \<Rightarrow> string \<Rightarrow> auth_db \<Rightarrow> oauth_grant_record option" where
  "find_grant_row v issuer subject db =
     find_row (\<lambda>r. og_issuer_id r = issuer \<and> og_subject r = subject \<and> og_vault r = v) (ad_grants db)"

definition find_oauth_grant ::
  "vault_context \<Rightarrow> uuid \<Rightarrow> string \<Rightarrow> auth_db \<Rightarrow> state_error + oauth_grant_record option" where
  "find_oauth_grant ctx issuer subject db =
     bind_r (ensure_vault_context ctx db) (\<lambda>_. Ok (find_grant_row (ctx_id ctx) issuer subject db))"

definition insert_oauth_grant ::
  "int \<Rightarrow> vault_context \<Rightarrow> uuid \<Rightarrow> uuid \<Rightarrow> string \<Rightarrow> string list \<Rightarrow> auth_db \<Rightarrow>
     state_error + oauth_grant_record \<times> auth_db" where
  \<comment> \<open>\<open>ON CONFLICT(issuer_id, subject, vault_id) DO UPDATE\<close>: granting again lifts a revocation\<close>
  "insert_oauth_grant now ctx i issuer subject scopes db =
     bind_r (ensure_vault_context ctx db) (\<lambda>_.
       if (\<exists>r \<in> set (ad_grants db). og_id r = i) then Err (Database UniqueViolation)
       else if get_oauth_issuer issuer db = None then Err (Database ForeignKeyViolation)
       else
         (let hit = (\<lambda>r. og_issuer_id r = issuer \<and> og_subject r = subject \<and> og_vault r = ctx_id ctx);
              row = \<lparr>og_id = i, og_issuer_id = issuer, og_subject = subject, og_vault = ctx_id ctx,
                og_scopes = Some scopes, og_created_at = now, og_updated_at = now, og_revoked_at = None\<rparr>;
              rows = (if find_grant_row (ctx_id ctx) issuer subject db = None then ad_grants db @ [row]
                      else update_rows hit (\<lambda>r. r\<lparr>og_scopes := Some scopes, og_revoked_at := None,
                             og_updated_at := now\<rparr>) (ad_grants db));
              db' = db\<lparr>ad_grants := rows\<rparr>
          in case find_grant_row (ctx_id ctx) issuer subject db' of
               None \<Rightarrow> Err (InvalidInput ''inserted OAuth grant was not found'')
             | Some r \<Rightarrow> Ok (r, db')))"

definition list_oauth_grants ::
  "vault_context \<Rightarrow> bool \<Rightarrow> nat \<Rightarrow> auth_db \<Rightarrow> state_error + oauth_grant_record list" where
  "list_oauth_grants ctx include_revoked limit db =
     bind_r (ensure_vault_context ctx db) (\<lambda>_.
     bind_r (page_limit ''OAuth grant page is invalid'' limit) (\<lambda>_.
       Ok (take limit (sort_key (\<lambda>r. (- og_created_at r)) (sort_key og_id
             (filter (\<lambda>r. og_vault r = ctx_id ctx \<and> (include_revoked \<or> og_revoked_at r = None))
                (ad_grants db)))))))"

definition revoke_oauth_grant ::
  "int \<Rightarrow> vault_context \<Rightarrow> uuid \<Rightarrow> auth_db \<Rightarrow> state_error + unit \<times> auth_db" where
  "revoke_oauth_grant now ctx i db =
     bind_r (ensure_vault_context ctx db) (\<lambda>_.
       let hit = (\<lambda>r. og_id r = i \<and> og_vault r = ctx_id ctx)
       in if rows_affected hit (ad_grants db) \<noteq> 1 then Err (InvalidInput ''OAuth grant does not exist'')
          else Ok ((), db\<lparr>ad_grants := update_rows hit
                 (\<lambda>r. r\<lparr>og_revoked_at := coalesce_at (og_revoked_at r) now\<rparr>) (ad_grants db)\<rparr>))"

end
