(* ===== verification/OAuth_Store.thy ===== *)
theory OAuth_Store
  imports Auth_Store
begin

text \<open>
  The tables of the built-in authorization server (crates/state/src/auth/local\_oauth.rs): the Vault's
  OAuth login, public clients, authorization requests, single-use codes, access tokens and refresh
  tokens. Each definition is one transaction. A deleted client takes the rows that refer to it with
  it (\<open>ON DELETE CASCADE\<close>).
\<close>

definition get_local_oauth_row :: "vault_id \<Rightarrow> auth_db \<Rightarrow> oauth_local_user_record option" where
  "get_local_oauth_row v db = find_row (\<lambda>u. lu_vault u = v) (ad_local_users db)"

definition get_local_oauth_user ::
  "vault_context \<Rightarrow> auth_db \<Rightarrow> state_error + oauth_local_user_record option" where
  "get_local_oauth_user ctx db =
     bind_r (ensure_vault_context ctx db) (\<lambda>_. Ok (get_local_oauth_row (ctx_id ctx) db))"

definition revoke_user_state :: "uuid \<Rightarrow> vault_id \<Rightarrow> int \<Rightarrow> auth_db \<Rightarrow> auth_db" where
  "revoke_user_state user v now db =
     db\<lparr>ad_requests := filter (\<lambda>r. ar_vault r \<noteq> v) (ad_requests db),
        ad_codes := update_rows (\<lambda>r. co_vault r = v \<and> co_user r = user)
          (\<lambda>r. r\<lparr>co_consumed_at := coalesce_at (co_consumed_at r) now\<rparr>) (ad_codes db),
        ad_access := update_rows (\<lambda>r. ax_vault r = v \<and> ax_user r = user)
          (\<lambda>r. r\<lparr>ax_revoked_at := coalesce_at (ax_revoked_at r) now\<rparr>) (ad_access db),
        ad_refresh := update_rows (\<lambda>r. rt_vault r = v \<and> rt_user r = user)
          (\<lambda>r. r\<lparr>rt_revoked_at := coalesce_at (rt_revoked_at r) now\<rparr>) (ad_refresh db)\<rparr>"

definition upsert_local_oauth_user ::
  "int \<Rightarrow> vault_context \<Rightarrow> uuid \<Rightarrow> string \<Rightarrow> string \<Rightarrow> string list \<Rightarrow> auth_db \<Rightarrow>
     state_error + oauth_local_user_record \<times> auth_db" where
  "upsert_local_oauth_user now ctx i username hash scopes db =
     bind_r (ensure_vault_context ctx db) (\<lambda>_.
       if \<exists>u \<in> set (ad_local_users db). lu_id u = i then Err (Database UniqueViolation)
       else
         (let row = \<lparr>lu_id = i, lu_vault = ctx_id ctx, lu_username = username, lu_password_hash = hash,
                lu_scopes = Some scopes, lu_enabled = True, lu_password_changed_at = now,
                lu_created_at = now, lu_updated_at = now\<rparr>;
              rows = (if get_local_oauth_row (ctx_id ctx) db = None then ad_local_users db @ [row]
                      else update_rows (\<lambda>u. lu_vault u = ctx_id ctx)
                             (\<lambda>u. u\<lparr>lu_username := username, lu_password_hash := hash,
                                    lu_scopes := Some scopes, lu_enabled := True,
                                    lu_password_changed_at := now, lu_updated_at := now\<rparr>)
                             (ad_local_users db));
              db1 = db\<lparr>ad_local_users := rows\<rparr>
          in case get_local_oauth_row (ctx_id ctx) db1 of
               None \<Rightarrow> Err (InvalidInput ''local OAuth user was not found'')
             | Some u \<Rightarrow> Ok (u, revoke_user_state (lu_id u) (ctx_id ctx) now db1)))"

definition disable_local_oauth_user_row ::
  "int \<Rightarrow> vault_context \<Rightarrow> auth_db \<Rightarrow> state_error + bool \<times> auth_db" where
  "disable_local_oauth_user_row now ctx db =
     bind_r (ensure_vault_context ctx db) (\<lambda>_.
       case get_local_oauth_row (ctx_id ctx) db of
         None \<Rightarrow> Ok (False, db)
       | Some u \<Rightarrow>
           Ok (True, revoke_user_state (lu_id u) (ctx_id ctx) now
             (db\<lparr>ad_local_users := update_rows (\<lambda>r. lu_id r = lu_id u \<and> lu_vault r = ctx_id ctx)
                   (\<lambda>r. r\<lparr>lu_enabled := False, lu_updated_at := now\<rparr>) (ad_local_users db)\<rparr>)))"

section \<open>Clients\<close>

definition get_oauth_client :: "uuid \<Rightarrow> auth_db \<Rightarrow> oauth_client_record option" where
  "get_oauth_client i db = find_row (\<lambda>c. cl_id c = i) (ad_clients db)"

definition day_millis :: int where
  "day_millis = 24 * 60 * 60 * 1000"

definition sat_i64 :: "int \<Rightarrow> int" where
  \<comment> \<open>the saturating operations of \<open>i64\<close>\<close>
  "sat_i64 x = max (- (2 ^ 63)) (min (2 ^ 63 - 1) x)"

definition stale_client :: "int \<Rightarrow> oauth_client_record \<Rightarrow> bool" where
  "stale_client now c \<longleftrightarrow>
     cl_revoked_at c \<noteq> None \<or> (cl_last_used_at c = None \<and> cl_created_at c < sat_i64 (now - day_millis))"

definition delete_clients :: "(oauth_client_record \<Rightarrow> bool) \<Rightarrow> auth_db \<Rightarrow> auth_db" where
  \<comment> \<open>a \<open>DELETE\<close> with the cascades of its foreign keys\<close>
  "delete_clients P db =
     (let gone = map cl_id (filter P (ad_clients db)) in
      db\<lparr>ad_clients := filter (\<lambda>c. \<not> P c) (ad_clients db),
         ad_requests := filter (\<lambda>r. ar_client r \<notin> set gone) (ad_requests db),
         ad_codes := filter (\<lambda>r. co_client r \<notin> set gone) (ad_codes db),
         ad_access := filter (\<lambda>r. ax_client r \<notin> set gone) (ad_access db),
         ad_refresh := filter (\<lambda>r. rt_client r \<notin> set gone) (ad_refresh db)\<rparr>)"

definition insert_oauth_client ::
  "int \<Rightarrow> uuid \<Rightarrow> string \<Rightarrow> string list \<Rightarrow> string list \<Rightarrow> string list \<Rightarrow> nat \<Rightarrow> auth_db \<Rightarrow>
     state_error + oauth_client_record \<times> auth_db" where
  "insert_oauth_client now i name uris grants responses limit db =
     (if limit = 0 \<or> limit > 10000 then Err (InvalidInput ''OAuth client limit is invalid'')
      else
        (let db1 = delete_clients (stale_client now) db;
             row = \<lparr>cl_id = i, cl_name = name, cl_redirect_uris = Some uris, cl_grant_types = Some grants,
               cl_response_types = Some responses, cl_auth_method = ''none'', cl_created_at = now,
               cl_last_used_at = None, cl_revoked_at = None\<rparr>
         in if rows_affected (\<lambda>c. cl_revoked_at c = None) (ad_clients db1) \<ge> limit
            then Err (InvalidInput ''OAuth client limit was reached'')
            else if get_oauth_client i db1 \<noteq> None then Err (Database UniqueViolation)
            else Ok (row, db1\<lparr>ad_clients := ad_clients db1 @ [row]\<rparr>)))"

section \<open>Authorization requests and codes\<close>

definition digest_check :: "blob \<Rightarrow> nat \<Rightarrow> state_error + unit" where
  \<comment> \<open>\<open>CHECK (length(..) = 32)\<close> and \<open>CHECK (digest_key_version > 0)\<close>\<close>
  "digest_check digest version =
     (if length digest \<noteq> 32 \<or> version = 0 then Err (Database OtherDatabaseError) else Ok ())"

definition insert_oauth_authorization_request ::
  "vault_context \<Rightarrow> oauth_request_record \<Rightarrow> auth_db \<Rightarrow> state_error + unit \<times> auth_db" where
  \<comment> \<open>the row has the context's Vault and no \<open>consumed_at\<close>\<close>
  "insert_oauth_authorization_request ctx r db =
     bind_r (ensure_vault_context ctx db) (\<lambda>_.
     bind_r (digest_check (ar_digest r) (ar_digest_key_version r)) (\<lambda>_.
       if \<exists>q \<in> set (ad_requests db). ar_id q = ar_id r \<or> ar_digest q = ar_digest r
       then Err (Database UniqueViolation)
       else if get_oauth_client (ar_client r) db = None then Err (Database ForeignKeyViolation)
       else Ok ((), db\<lparr>ad_requests := ad_requests db
              @ [r\<lparr>ar_vault := ctx_id ctx, ar_consumed_at := None\<rparr>]\<rparr>)))"

definition find_oauth_authorization_request ::
  "vault_context \<Rightarrow> blob \<Rightarrow> nat \<Rightarrow> auth_db \<Rightarrow> state_error + oauth_request_record option" where
  "find_oauth_authorization_request ctx digest version db =
     bind_r (ensure_vault_context ctx db) (\<lambda>_.
       Ok (find_row (\<lambda>r. ar_vault r = ctx_id ctx \<and> ar_digest r = digest \<and> ar_digest_key_version r = version)
             (ad_requests db)))"

record new_code =
  nc_id :: uuid
  nc_digest :: blob
  nc_version :: nat
  nc_created_at :: int
  nc_expires_at :: int

definition code_row :: "uuid \<Rightarrow> new_code \<Rightarrow> oauth_request_record \<Rightarrow> oauth_code_record" where
  "code_row user code r =
     \<lparr>co_id = nc_id code, co_digest = nc_digest code, co_digest_key_version = nc_version code,
      co_client = ar_client r, co_user = user, co_vault = ar_vault r, co_resource = ar_resource r,
      co_redirect_uri = ar_redirect_uri r, co_scopes = ar_scopes r, co_code_challenge = ar_code_challenge r,
      co_created_at = nc_created_at code, co_expires_at = nc_expires_at code, co_consumed_at = None\<rparr>"

definition complete_oauth_authorization_request ::
  "vault_context \<Rightarrow> uuid \<Rightarrow> uuid \<Rightarrow> new_code \<Rightarrow> int \<Rightarrow> auth_db \<Rightarrow> state_error + unit \<times> auth_db" where
  "complete_oauth_authorization_request ctx request user code now db =
     bind_r (ensure_vault_context ctx db) (\<lambda>_.
       if \<not> (\<exists>u \<in> set (ad_local_users db). lu_id u = user \<and> lu_vault u = ctx_id ctx \<and> lu_enabled u)
       then Err (InvalidInput ''local OAuth user is disabled'')
       else (case find_row (\<lambda>r. ar_id r = request \<and> ar_vault r = ctx_id ctx \<and> ar_expires_at r > now)
                    (ad_requests db) of
           None \<Rightarrow> Err (InvalidInput ''OAuth authorization code was not created'')
         | Some r \<Rightarrow>
             bind_r (digest_check (nc_digest code) (nc_version code)) (\<lambda>_.
               if \<exists>c \<in> set (ad_codes db). co_id c = nc_id code \<or> co_digest c = nc_digest code
               then Err (Database UniqueViolation)
               else Ok ((), db\<lparr>ad_codes := ad_codes db @ [code_row user code r],
                      ad_requests := update_rows (\<lambda>q. ar_id q = request \<and> ar_vault q = ctx_id ctx)
                        (\<lambda>q. q\<lparr>ar_consumed_at := coalesce_at (ar_consumed_at q) now\<rparr>) (ad_requests db),
                      ad_clients := update_rows (\<lambda>c. cl_id c = ar_client r)
                        (\<lambda>c. c\<lparr>cl_last_used_at := Some now\<rparr>) (ad_clients db)\<rparr>))))"

definition find_oauth_authorization_code ::
  "vault_context \<Rightarrow> blob \<Rightarrow> nat \<Rightarrow> auth_db \<Rightarrow> state_error + oauth_code_record option" where
  "find_oauth_authorization_code ctx digest version db =
     bind_r (ensure_vault_context ctx db) (\<lambda>_.
       Ok (find_row (\<lambda>r. co_vault r = ctx_id ctx \<and> co_digest r = digest \<and> co_digest_key_version r = version)
             (ad_codes db)))"

section \<open>Tokens\<close>

record new_token =
  nt_id :: uuid
  nt_family :: uuid
  nt_prefix :: string
  nt_digest :: blob
  nt_version :: nat
  nt_created_at :: int
  nt_expires_at :: int
  nt_scopes :: "string list option"

definition coalesce_scopes :: "new_token \<Rightarrow> string list option \<Rightarrow> string list option" where
  \<comment> \<open>\<open>COALESCE(?, scopes_json)\<close>\<close>
  "coalesce_scopes t inherited = (case nt_scopes t of Some s \<Rightarrow> Some s | None \<Rightarrow> inherited)"

record token_source =
  ts_client :: uuid
  ts_user :: uuid
  ts_vault :: vault_id
  ts_resource :: string
  ts_scopes :: "string list option"

definition code_source :: "oauth_code_record \<Rightarrow> token_source" where
  "code_source c = \<lparr>ts_client = co_client c, ts_user = co_user c, ts_vault = co_vault c,
     ts_resource = co_resource c, ts_scopes = co_scopes c\<rparr>"

definition refresh_source :: "oauth_refresh_record \<Rightarrow> token_source" where
  "refresh_source c = \<lparr>ts_client = rt_client c, ts_user = rt_user c, ts_vault = rt_vault c,
     ts_resource = rt_resource c, ts_scopes = rt_scopes c\<rparr>"

definition access_row :: "new_token \<Rightarrow> token_source \<Rightarrow> oauth_access_record" where
  "access_row t s =
     \<lparr>ax_id = nt_id t, ax_family = nt_family t, ax_token_prefix = nt_prefix t, ax_token_digest = nt_digest t,
      ax_digest_key_version = nt_version t, ax_client = ts_client s, ax_user = ts_user s,
      ax_vault = ts_vault s, ax_resource = ts_resource s, ax_scopes = coalesce_scopes t (ts_scopes s),
      ax_created_at = nt_created_at t, ax_expires_at = nt_expires_at t, ax_last_used_at = None,
      ax_revoked_at = None\<rparr>"

definition refresh_row :: "new_token \<Rightarrow> token_source \<Rightarrow> oauth_refresh_record" where
  "refresh_row t s =
     \<lparr>rt_id = nt_id t, rt_family = nt_family t, rt_token_prefix = nt_prefix t, rt_token_digest = nt_digest t,
      rt_digest_key_version = nt_version t, rt_client = ts_client s, rt_user = ts_user s,
      rt_vault = ts_vault s, rt_resource = ts_resource s, rt_scopes = coalesce_scopes t (ts_scopes s),
      rt_created_at = nt_created_at t, rt_expires_at = nt_expires_at t, rt_rotated_at = None,
      rt_revoked_at = None\<rparr>"

definition insert_access :: "new_token \<Rightarrow> token_source \<Rightarrow> auth_db \<Rightarrow> state_error + unit \<times> auth_db" where
  "insert_access t s db =
     bind_r (digest_check (nt_digest t) (nt_version t)) (\<lambda>_.
       if \<exists>r \<in> set (ad_access db). ax_id r = nt_id t \<or> ax_token_digest r = nt_digest t
       then Err (Database UniqueViolation)
       else Ok ((), db\<lparr>ad_access := ad_access db @ [access_row t s]\<rparr>))"

definition insert_refresh :: "new_token \<Rightarrow> token_source \<Rightarrow> auth_db \<Rightarrow> state_error + unit \<times> auth_db" where
  "insert_refresh t s db =
     bind_r (digest_check (nt_digest t) (nt_version t)) (\<lambda>_.
       if \<exists>r \<in> set (ad_refresh db). rt_id r = nt_id t \<or> rt_token_digest r = nt_digest t
       then Err (Database UniqueViolation)
       else Ok ((), db\<lparr>ad_refresh := ad_refresh db @ [refresh_row t s]\<rparr>))"

definition consume_oauth_code_and_insert_tokens ::
  "vault_context \<Rightarrow> uuid \<Rightarrow> new_token \<Rightarrow> new_token \<Rightarrow> int \<Rightarrow> auth_db \<Rightarrow> state_error + unit \<times> auth_db" where
  "consume_oauth_code_and_insert_tokens ctx code access refresh now db =
     bind_r (ensure_vault_context ctx db) (\<lambda>_.
       if nt_family access \<noteq> nt_family refresh then Err (InvalidInput ''OAuth token family is invalid'')
       else
         (let hit = (\<lambda>r. co_id r = code \<and> co_vault r = ctx_id ctx \<and> co_consumed_at r = None
                         \<and> co_expires_at r > now);
              db1 = db\<lparr>ad_codes := update_rows hit (\<lambda>r. r\<lparr>co_consumed_at := Some now\<rparr>) (ad_codes db)\<rparr>
          in if rows_affected hit (ad_codes db) \<noteq> 1
             then Err (InvalidInput ''OAuth authorization code is unavailable'')
             else (case find_row (\<lambda>r. co_id r = code \<and> co_vault r = ctx_id ctx) (ad_codes db1) of
                 None \<Rightarrow> Err (InvalidInput ''OAuth access token was not created'')
               | Some c \<Rightarrow>
                   bind_r (insert_access access (code_source c) db1) (\<lambda>(_, db2).
                     insert_refresh refresh (code_source c) db2))))"

definition find_oauth_access_token ::
  "vault_context \<Rightarrow> string \<Rightarrow> blob \<Rightarrow> nat \<Rightarrow> auth_db \<Rightarrow> state_error + oauth_access_record option" where
  "find_oauth_access_token ctx pre digest version db =
     bind_r (ensure_vault_context ctx db) (\<lambda>_.
       Ok (find_row (\<lambda>r. ax_vault r = ctx_id ctx \<and> ax_token_prefix r = pre \<and> ax_token_digest r = digest
             \<and> ax_digest_key_version r = version) (ad_access db)))"

definition touch_oauth_access_token ::
  "vault_context \<Rightarrow> uuid \<Rightarrow> int \<Rightarrow> auth_db \<Rightarrow> state_error + unit \<times> auth_db" where
  "touch_oauth_access_token ctx i used db =
     bind_r (ensure_vault_context ctx db) (\<lambda>_.
       Ok ((), db\<lparr>ad_access := update_rows (\<lambda>r. ax_id r = i \<and> ax_vault r = ctx_id ctx)
              (\<lambda>r. r\<lparr>ax_last_used_at := Some used\<rparr>) (ad_access db)\<rparr>))"

definition find_oauth_refresh_token ::
  "vault_context \<Rightarrow> string \<Rightarrow> blob \<Rightarrow> nat \<Rightarrow> auth_db \<Rightarrow> state_error + oauth_refresh_record option" where
  "find_oauth_refresh_token ctx pre digest version db =
     bind_r (ensure_vault_context ctx db) (\<lambda>_.
       Ok (find_row (\<lambda>r. rt_vault r = ctx_id ctx \<and> rt_token_prefix r = pre \<and> rt_token_digest r = digest
             \<and> rt_digest_key_version r = version) (ad_refresh db)))"

definition rotate_oauth_refresh_token ::
  "vault_context \<Rightarrow> uuid \<Rightarrow> new_token \<Rightarrow> new_token \<Rightarrow> int \<Rightarrow> auth_db \<Rightarrow> state_error + unit \<times> auth_db" where
  "rotate_oauth_refresh_token ctx old access refresh now db =
     bind_r (ensure_vault_context ctx db) (\<lambda>_.
       if nt_family access \<noteq> nt_family refresh then Err (InvalidInput ''OAuth token family is invalid'')
       else
         (let hit = (\<lambda>r. rt_id r = old \<and> rt_vault r = ctx_id ctx \<and> rt_rotated_at r = None
                         \<and> rt_revoked_at r = None \<and> rt_expires_at r > now);
              db1 = db\<lparr>ad_refresh := update_rows hit (\<lambda>r. r\<lparr>rt_rotated_at := Some now\<rparr>) (ad_refresh db)\<rparr>
          in if rows_affected hit (ad_refresh db) \<noteq> 1
             then Err (InvalidInput ''OAuth refresh token is unavailable'')
             else (case find_row (\<lambda>r. rt_id r = old \<and> rt_vault r = ctx_id ctx \<and> rt_family r = nt_family access)
                          (ad_refresh db1) of
                 None \<Rightarrow> Err (InvalidInput ''OAuth access token was not rotated'')
               | Some r \<Rightarrow>
                   bind_r (insert_access access (refresh_source r) db1) (\<lambda>(_, db2).
                     insert_refresh refresh (refresh_source r) db2))))"

definition revoke_oauth_token_family ::
  "vault_context \<Rightarrow> uuid \<Rightarrow> int \<Rightarrow> auth_db \<Rightarrow> state_error + unit \<times> auth_db" where
  "revoke_oauth_token_family ctx family now db =
     bind_r (ensure_vault_context ctx db) (\<lambda>_.
       Ok ((), db\<lparr>ad_access := update_rows (\<lambda>r. ax_vault r = ctx_id ctx \<and> ax_family r = family)
                (\<lambda>r. r\<lparr>ax_revoked_at := coalesce_at (ax_revoked_at r) now\<rparr>) (ad_access db),
              ad_refresh := update_rows (\<lambda>r. rt_vault r = ctx_id ctx \<and> rt_family r = family)
                (\<lambda>r. r\<lparr>rt_revoked_at := coalesce_at (rt_revoked_at r) now\<rparr>) (ad_refresh db)\<rparr>))"

definition past :: "int \<Rightarrow> int \<Rightarrow> int option \<Rightarrow> bool" where
  \<comment> \<open>\<open>expires_at < ? OR (ended_at IS NOT NULL AND ended_at < ?)\<close>\<close>
  "past remove_before expires ended \<longleftrightarrow>
     expires < remove_before \<or> (case ended of None \<Rightarrow> False | Some t \<Rightarrow> t < remove_before)"

definition cleanup_local_oauth :: "int \<Rightarrow> auth_db \<Rightarrow> state_error + unit \<times> auth_db" where
  "cleanup_local_oauth t db =
     Ok ((), db\<lparr>ad_requests := filter (\<lambda>r. \<not> past t (ar_expires_at r) (ar_consumed_at r)) (ad_requests db),
            ad_codes := filter (\<lambda>r. \<not> past t (co_expires_at r) (co_consumed_at r)) (ad_codes db),
            ad_access := filter (\<lambda>r. \<not> past t (ax_expires_at r) (ax_revoked_at r)) (ad_access db),
            ad_refresh := filter (\<lambda>r. \<not> past t (rt_expires_at r) (rt_revoked_at r)) (ad_refresh db)\<rparr>)"

end
