(* ===== verification/OAuth_Lifecycle.thy ===== *)
theory OAuth_Lifecycle
  imports OAuth_Store
begin

text \<open>
  What the authorization server's transactions guarantee when the requests of any number of clients,
  logins and administrators interleave: a run is any sequence of the transactions with any arguments,
  a failed one leaves the tables unchanged.
\<close>

section \<open>Transactions\<close>

datatype oauth_tx =
    TxUpsertUser int vault_context uuid string string "string list"
  | TxDisableUser int vault_context
  | TxClient int uuid string "string list" "string list" "string list" nat
  | TxRequest vault_context oauth_request_record
  | TxComplete vault_context uuid uuid new_code int
  | TxConsume vault_context uuid new_token new_token int
  | TxTouch vault_context uuid int
  | TxRotate vault_context uuid new_token new_token int
  | TxRevokeFamily vault_context uuid int
  | TxCleanup int

definition discard :: "state_error + 'a \<times> auth_db \<Rightarrow> state_error + auth_db" where
  "discard r = map_sum id snd r"

fun oauth_apply :: "oauth_tx \<Rightarrow> auth_db \<Rightarrow> state_error + auth_db" where
  "oauth_apply (TxUpsertUser now ctx i name hash scopes) db =
     discard (upsert_local_oauth_user now ctx i name hash scopes db)"
| "oauth_apply (TxDisableUser now ctx) db = discard (disable_local_oauth_user_row now ctx db)"
| "oauth_apply (TxClient now i name uris grants responses limit) db =
     discard (insert_oauth_client now i name uris grants responses limit db)"
| "oauth_apply (TxRequest ctx r) db = discard (insert_oauth_authorization_request ctx r db)"
| "oauth_apply (TxComplete ctx request user code now) db =
     discard (complete_oauth_authorization_request ctx request user code now db)"
| "oauth_apply (TxConsume ctx code access refresh now) db =
     discard (consume_oauth_code_and_insert_tokens ctx code access refresh now db)"
| "oauth_apply (TxTouch ctx i used) db = discard (touch_oauth_access_token ctx i used db)"
| "oauth_apply (TxRotate ctx old access refresh now) db =
     discard (rotate_oauth_refresh_token ctx old access refresh now db)"
| "oauth_apply (TxRevokeFamily ctx family now) db = discard (revoke_oauth_token_family ctx family now db)"
| "oauth_apply (TxCleanup t) db = discard (cleanup_local_oauth t db)"

definition oauth_next :: "oauth_tx \<Rightarrow> auth_db \<Rightarrow> auth_db" where
  "oauth_next tx db = (case oauth_apply tx db of Err _ \<Rightarrow> db | Ok db' \<Rightarrow> db')"

definition oauth_run :: "oauth_tx list \<Rightarrow> auth_db \<Rightarrow> auth_db" where
  "oauth_run txs db = fold oauth_next txs db"

lemma oauth_run_simps [simp]:
  "oauth_run [] db = db" "oauth_run (tx # txs) db = oauth_run txs (oauth_next tx db)"
  by (simp_all add: oauth_run_def)

lemma discard_Ok [simp]: "discard r = Ok db' \<longleftrightarrow> (\<exists>a. r = Ok (a, db'))"
  by (cases r) (auto simp: discard_def)

lemma oauth_run_induct:
  assumes "I db" "\<And>tx d. tx \<in> set txs \<Longrightarrow> I d \<Longrightarrow> I (oauth_next tx d)"
  shows "I (oauth_run txs db)"
  using assms by (induction txs arbitrary: db) auto

lemma insert_access_Ok:
  "insert_access t s db = Ok (u, db') \<Longrightarrow>
     db' = db\<lparr>ad_access := ad_access db @ [access_row t s]\<rparr> \<and> nt_id t \<notin> ax_id ` set (ad_access db)"
  by (auto simp: insert_access_def bind_r_Ok_conv split: if_split_asm)

lemma insert_refresh_Ok:
  "insert_refresh t s db = Ok (u, db') \<Longrightarrow>
     db' = db\<lparr>ad_refresh := ad_refresh db @ [refresh_row t s]\<rparr> \<and> nt_id t \<notin> rt_id ` set (ad_refresh db)"
  by (auto simp: insert_refresh_def bind_r_Ok_conv split: if_split_asm)

section \<open>How rows evolve\<close>

text \<open>
  \<open>evolves keep k rows rows' new\<close>: every row of the new table is a kept row of the old one or one of
  \<open>new\<close>, and the key stays unique.
\<close>

definition evolves :: "('r \<Rightarrow> 'r \<Rightarrow> bool) \<Rightarrow> ('r \<Rightarrow> uuid) \<Rightarrow> 'r list \<Rightarrow> 'r list \<Rightarrow> 'r set \<Rightarrow> bool" where
  "evolves keep k rows rows' new \<longleftrightarrow>
     (\<forall>r' \<in> set rows'. (\<exists>r \<in> set rows. keep r r') \<or> r' \<in> new) \<and>
     (distinct (map k rows) \<longrightarrow> distinct (map k rows'))"

lemma evolves_same: "(\<And>r. keep r r) \<Longrightarrow> evolves keep k rows rows new"
  by (auto simp: evolves_def)

lemma evolves_update:
  assumes "\<And>r. keep r r" "\<And>r. P r \<Longrightarrow> keep r (f r)" "\<And>r. P r \<Longrightarrow> k (f r) = k r"
  shows "evolves keep k rows (update_rows P f rows) new"
proof -
  have "map k (update_rows P f rows) = map k rows" using assms(3) by (rule map_update_rows)
  with assms(1,2) show ?thesis by (auto simp: evolves_def set_update_rows)
qed

lemma evolves_ball:
  assumes "evolves keep k rows rows' new" "\<forall>r \<in> set rows. P r"
    and "\<And>r r'. P r \<Longrightarrow> keep r r' \<Longrightarrow> P r'" "\<forall>r \<in> new. P r"
  shows "\<forall>r \<in> set rows'. P r"
  using assms unfolding evolves_def by blast

lemma evolves_filter: "(\<And>r. keep r r) \<Longrightarrow> evolves keep k rows (filter P rows) new"
  by (auto simp: evolves_def distinct_map_filter)

lemma evolves_insert:
  assumes "evolves keep k rows rows' {}" "map k rows' = map k rows" "k x \<notin> k ` set rows"
  shows "evolves keep k rows (rows' @ [x]) {x}"
proof -
  have "k x \<notin> k ` set rows'" using assms(2,3) by (metis set_map)
  with assms(1) show ?thesis by (auto simp: evolves_def)
qed

definition code_kept :: "oauth_code_record \<Rightarrow> oauth_code_record \<Rightarrow> bool" where
  "code_kept c d \<longleftrightarrow> co_id d = co_id c \<and> code_source d = code_source c \<and>
     (co_consumed_at c \<noteq> None \<longrightarrow> co_consumed_at d \<noteq> None)"

definition access_kept :: "oauth_access_record \<Rightarrow> oauth_access_record \<Rightarrow> bool" where
  "access_kept a b \<longleftrightarrow> ax_id b = ax_id a \<and> ax_family b = ax_family a \<and> ax_user b = ax_user a \<and>
     ax_vault b = ax_vault a \<and> ax_scopes b = ax_scopes a \<and> ax_token_digest b = ax_token_digest a \<and>
     (ax_revoked_at a \<noteq> None \<longrightarrow> ax_revoked_at b \<noteq> None)"

definition refresh_kept :: "oauth_refresh_record \<Rightarrow> oauth_refresh_record \<Rightarrow> bool" where
  "refresh_kept a b \<longleftrightarrow> rt_id b = rt_id a \<and> rt_family b = rt_family a \<and> refresh_source b = refresh_source a \<and>
     (rt_revoked_at a \<noteq> None \<longrightarrow> rt_revoked_at b \<noteq> None) \<and>
     (rt_rotated_at a \<noteq> None \<longrightarrow> rt_rotated_at b \<noteq> None)"

definition tokens_step ::
  "auth_db \<Rightarrow> auth_db \<Rightarrow> oauth_code_record set \<Rightarrow> oauth_access_record set \<Rightarrow> oauth_refresh_record set \<Rightarrow> bool" where
  "tokens_step db db' C A R \<longleftrightarrow>
     evolves code_kept co_id (ad_codes db) (ad_codes db') C \<and>
     evolves access_kept ax_id (ad_access db) (ad_access db') A \<and>
     evolves refresh_kept rt_id (ad_refresh db) (ad_refresh db') R"

lemma kept_simps [simp]:
  "code_kept c c" "access_kept a a" "refresh_kept r r"
  "code_kept c (c\<lparr>co_consumed_at := Some t\<rparr>)"
  "access_kept a (a\<lparr>ax_revoked_at := Some t\<rparr>)" "access_kept a (a\<lparr>ax_last_used_at := u\<rparr>)"
  "refresh_kept r (r\<lparr>rt_revoked_at := Some t\<rparr>)" "refresh_kept r (r\<lparr>rt_rotated_at := Some t\<rparr>)"
  "coalesce_at old t = Some (case old of None \<Rightarrow> t | Some s \<Rightarrow> s)"
  by (simp_all add: code_kept_def access_kept_def refresh_kept_def code_source_def refresh_source_def
      coalesce_at_def)

lemmas evolve_rules = evolves_same evolves_update evolves_filter

lemma quiet_tx:
  assumes "oauth_apply tx db = Ok db'"
    and "\<nexists>ctx request user code now. tx = TxComplete ctx request user code now"
    and "\<nexists>ctx code a f now. tx = TxConsume ctx code a f now"
    and "\<nexists>ctx old a f now. tx = TxRotate ctx old a f now"
  shows "tokens_step db db' {} {} {}"
  using assms
  by (cases tx)
    (auto simp: tokens_step_def upsert_local_oauth_user_def disable_local_oauth_user_row_def insert_oauth_client_def
      insert_oauth_authorization_request_def touch_oauth_access_token_def revoke_oauth_token_family_def
      cleanup_local_oauth_def revoke_user_state_def delete_clients_def bind_r_Ok_conv Let_def
      intro!: evolve_rules split: if_split_asm option.split_asm)

lemma complete_tx:
  assumes "complete_oauth_authorization_request ctx request user code now db = Ok (u, db')"
  obtains r where "r \<in> set (ad_requests db)" "ar_id r = request" "ar_vault r = ctx_id ctx"
    "tokens_step db db' {code_row user code r} {} {}"
    "ad_access db' = ad_access db" "ad_refresh db' = ad_refresh db"
proof -
  from assms obtain r where
    r: "find_row (\<lambda>r. ar_id r = request \<and> ar_vault r = ctx_id ctx \<and> ar_expires_at r > now) (ad_requests db) = Some r"
    and fresh: "\<forall>c \<in> set (ad_codes db). co_id c \<noteq> nc_id code"
    and db': "ad_codes db' = ad_codes db @ [code_row user code r]"
      "ad_access db' = ad_access db" "ad_refresh db' = ad_refresh db"
    by (auto simp: complete_oauth_authorization_request_def bind_r_Ok_conv split: if_split_asm option.split_asm)
  have "evolves code_kept co_id (ad_codes db) (ad_codes db') {code_row user code r}"
    unfolding db' using fresh by (intro evolves_insert evolve_rules) (auto simp: code_row_def)
  then have "tokens_step db db' {code_row user code r} {} {}"
    by (simp add: tokens_step_def db' evolves_same)
  with find_row_Some [OF r] db' that show thesis by blast
qed

text \<open>The row read back after an update by key is the updated one.\<close>

lemma find_updated:
  assumes d: "distinct (map k rows)" and one: "rows_affected hit rows = 1"
    and hit: "\<And>r. hit r \<Longrightarrow> k r = i \<and> k (f r) = i"
    and found: "find_row (\<lambda>r. k r = i \<and> P r) (update_rows hit f rows) = Some c"
  obtains h where "h \<in> set rows" "hit h" "c = f h" "\<forall>r \<in> set (update_rows hit f rows). k r = i \<longrightarrow> r = c"
proof -
  have "filter hit rows \<noteq> []" using one by (auto simp: rows_affected_def)
  then obtain h where h: "h \<in> set rows" "hit h" by (auto simp: filter_empty_conv)
  have only: "r = h" if "r \<in> set rows" "k r = i" for r
    using that h hit d by (auto simp: distinct_map dest: inj_onD)
  have all: "r = f h" if "r \<in> set (update_rows hit f rows)" "k r = i" for r
    using that only h(2) hit by (auto simp: set_update_rows split: if_split_asm)
  with find_row_Some [OF found] have "c = f h" by blast
  with all h that show thesis by blast
qed

lemma consume_tx:
  assumes ok: "consume_oauth_code_and_insert_tokens ctx code a f now db = Ok (u, db')"
    and keys: "distinct (map co_id (ad_codes db))"
  obtains c where "c \<in> set (ad_codes db)" "co_id c = code" "co_vault c = ctx_id ctx"
    "co_consumed_at c = None" "co_expires_at c > now" "nt_family a = nt_family f"
    "tokens_step db db' {} {access_row a (code_source c)} {refresh_row f (code_source c)}"
    "\<forall>d \<in> set (ad_codes db'). co_id d = code \<longrightarrow> co_consumed_at d \<noteq> None"
    "access_row a (code_source c) \<in> set (ad_access db')" "refresh_row f (code_source c) \<in> set (ad_refresh db')"
proof -
  let ?hit = "\<lambda>r. co_id r = code \<and> co_vault r = ctx_id ctx \<and> co_consumed_at r = None \<and> co_expires_at r > now"
  let ?f = "\<lambda>r. r\<lparr>co_consumed_at := Some now\<rparr>"
  let ?codes = "update_rows ?hit ?f (ad_codes db)"
  obtain c db1 db2 where fam: "nt_family a = nt_family f" and one: "rows_affected ?hit (ad_codes db) = 1"
    and c: "find_row (\<lambda>r. co_id r = code \<and> co_vault r = ctx_id ctx) ?codes = Some c"
    and db1: "db1 = db\<lparr>ad_codes := ?codes\<rparr>"
    and ia: "insert_access a (code_source c) db1 = Ok ((), db2)" and ir: "insert_refresh f (code_source c) db2 = Ok (u, db')"
    using ok by (auto simp: consume_oauth_code_and_insert_tokens_def bind_r_Ok_conv Let_def split: if_split_asm option.split_asm)
  note db2 = insert_access_Ok [OF ia] and db' = insert_refresh_Ok [OF ir]
  obtain h where h: "h \<in> set (ad_codes db)" "?hit h" "c = ?f h" and only: "\<forall>r \<in> set ?codes. co_id r = code \<longrightarrow> r = c"
    by (rule find_updated [OF keys one _ c]) simp_all
  have src: "code_source c = code_source h" by (simp add: h(3) code_source_def)
  have "tokens_step db db' {} {access_row a (code_source h)} {refresh_row f (code_source h)}"
    using db2 db' unfolding tokens_step_def db1 src [symmetric]
    by (auto intro!: evolves_insert evolve_rules simp: access_row_def refresh_row_def)
  moreover have "\<forall>d \<in> set (ad_codes db'). co_id d = code \<longrightarrow> co_consumed_at d \<noteq> None"
    using only db2 db' h(3) by (auto simp: db1)
  moreover have "access_row a (code_source h) \<in> set (ad_access db')" "refresh_row f (code_source h) \<in> set (ad_refresh db')"
    using db2 db' src by simp_all
  ultimately show thesis using that h fam by blast
qed

lemma rotate_tx:
  assumes ok: "rotate_oauth_refresh_token ctx old a f now db = Ok (u, db')"
    and keys: "distinct (map rt_id (ad_refresh db))"
  obtains c where "c \<in> set (ad_refresh db)" "rt_id c = old" "rt_vault c = ctx_id ctx" "rt_family c = nt_family a"
    "rt_rotated_at c = None" "rt_revoked_at c = None" "rt_expires_at c > now" "nt_family a = nt_family f"
    "tokens_step db db' {} {access_row a (refresh_source c)} {refresh_row f (refresh_source c)}"
    "\<forall>d \<in> set (ad_refresh db'). rt_id d = old \<longrightarrow> rt_rotated_at d \<noteq> None"
    "access_row a (refresh_source c) \<in> set (ad_access db')" "refresh_row f (refresh_source c) \<in> set (ad_refresh db')"
proof -
  let ?hit = "\<lambda>r. rt_id r = old \<and> rt_vault r = ctx_id ctx \<and> rt_rotated_at r = None \<and> rt_revoked_at r = None
    \<and> rt_expires_at r > now"
  let ?f = "\<lambda>r. r\<lparr>rt_rotated_at := Some now\<rparr>"
  let ?rows = "update_rows ?hit ?f (ad_refresh db)"
  obtain c db1 db2 where fam: "nt_family a = nt_family f" and one: "rows_affected ?hit (ad_refresh db) = 1"
    and c: "find_row (\<lambda>r. rt_id r = old \<and> rt_vault r = ctx_id ctx \<and> rt_family r = nt_family a) ?rows = Some c"
    and db1: "db1 = db\<lparr>ad_refresh := ?rows\<rparr>"
    and ia: "insert_access a (refresh_source c) db1 = Ok ((), db2)" and ir: "insert_refresh f (refresh_source c) db2 = Ok (u, db')"
    using ok by (auto simp: rotate_oauth_refresh_token_def bind_r_Ok_conv Let_def split: if_split_asm option.split_asm)
  note db2 = insert_access_Ok [OF ia] and db' = insert_refresh_Ok [OF ir]
  obtain h where h: "h \<in> set (ad_refresh db)" "?hit h" "c = ?f h" and only: "\<forall>r \<in> set ?rows. rt_id r = old \<longrightarrow> r = c"
    by (rule find_updated [OF keys one _ c]) simp_all
  have src: "refresh_source c = refresh_source h" "rt_family h = nt_family a"
    using find_row_Some [OF c] by (simp_all add: h(3) refresh_source_def)
  have mids: "map rt_id ?rows = map rt_id (ad_refresh db)" by (rule map_update_rows) simp
  from arg_cong [OF this, of set] have ids: "rt_id ` set ?rows = rt_id ` set (ad_refresh db)"
    unfolding list.set_map .
  have "evolves refresh_kept rt_id (ad_refresh db) (?rows @ [refresh_row f (refresh_source c)])
      {refresh_row f (refresh_source c)}"
    using db2 db' ids by (intro evolves_insert [OF _ mids] evolve_rules) (auto simp: refresh_row_def db1)
  then have "tokens_step db db' {} {access_row a (refresh_source h)} {refresh_row f (refresh_source h)}"
    using db2 db' unfolding tokens_step_def db1 src [symmetric]
    by (auto intro!: evolves_insert evolve_rules simp: access_row_def)
  moreover have "rt_id d = old \<longrightarrow> rt_rotated_at d \<noteq> None" if "d \<in> set (ad_refresh db')" for d
  proof -
    have "nt_id f \<noteq> old" using db' db2 ids h by (auto simp: db1)
    with that only db2 db' h(3) show ?thesis by (auto simp: db1 refresh_row_def)
  qed
  moreover have "access_row a (refresh_source h) \<in> set (ad_access db')" "refresh_row f (refresh_source h) \<in> set (ad_refresh db')"
    using db2 db' src by simp_all
  ultimately show thesis using that h fam src by blast
qed

definition oauth_keys :: "auth_db \<Rightarrow> bool" where
  "oauth_keys db \<longleftrightarrow>
     distinct (map co_id (ad_codes db)) \<and> distinct (map rt_id (ad_refresh db)) \<and>
     distinct (map ax_id (ad_access db))"

section \<open>One transaction\<close>

definition request_vaults :: "auth_db \<Rightarrow> vault_id set" where
  "request_vaults db = ar_vault ` set (ad_requests db)"

fun requested_vault :: "oauth_tx \<Rightarrow> vault_id option" where
  "requested_vault (TxRequest ctx r) = Some (ctx_id ctx)"
| "requested_vault _ = None"

fun redeemed_family :: "oauth_tx \<Rightarrow> uuid option" where
  "redeemed_family (TxConsume ctx code a f now) = Some (nt_family a)"
| "redeemed_family _ = None"

fun issued_code :: "oauth_tx \<Rightarrow> uuid option" where
  "issued_code (TxComplete ctx request user code now) = Some (nc_id code)"
| "issued_code _ = None"

fun issued_refresh :: "oauth_tx \<Rightarrow> uuid option" where
  "issued_refresh (TxConsume ctx code a f now) = Some (nt_id f)"
| "issued_refresh (TxRotate ctx old a f now) = Some (nt_id f)"
| "issued_refresh _ = None"

lemma completed_vault:
  "x \<in> set (update_rows P (\<lambda>q. q\<lparr>ar_consumed_at := g q\<rparr>) rs) \<Longrightarrow> ar_vault x \<in> ar_vault ` set rs"
  by (auto simp: set_update_rows)

lemma request_vaults_next:
  "oauth_apply tx db = Ok db' \<Longrightarrow> request_vaults db' \<subseteq> request_vaults db \<union> set_option (requested_vault tx)"
  by (cases tx)
    (auto simp: request_vaults_def upsert_local_oauth_user_def disable_local_oauth_user_row_def
      insert_oauth_client_def insert_oauth_authorization_request_def complete_oauth_authorization_request_def
      consume_oauth_code_and_insert_tokens_def touch_oauth_access_token_def rotate_oauth_refresh_token_def
      revoke_oauth_token_family_def cleanup_local_oauth_def revoke_user_state_def delete_clients_def
      bind_r_Ok_conv Let_def dest!: insert_access_Ok insert_refresh_Ok
      intro: completed_vault split: if_split_asm option.split_asm)

lemma tx_step:
  assumes "oauth_apply tx db = Ok db'" "oauth_keys db"
  obtains (quiet) "tokens_step db db' {} {} {}"
  | (complete) user code r where "issued_code tx = Some (nc_id code)"
      "r \<in> set (ad_requests db)" "tokens_step db db' {code_row user code r} {} {}"
  | (consume) c a f where "c \<in> set (ad_codes db)" "co_consumed_at c = None" "redeemed_family tx = Some (nt_family a)"
      "nt_family f = nt_family a" "issued_refresh tx = Some (nt_id f)"
      "tokens_step db db' {} {access_row a (code_source c)} {refresh_row f (code_source c)}"
  | (rotate) c a f where "c \<in> set (ad_refresh db)" "rt_revoked_at c = None" "rt_family c = nt_family a"
      "nt_family f = nt_family a" "issued_refresh tx = Some (nt_id f)"
      "tokens_step db db' {} {access_row a (refresh_source c)} {refresh_row f (refresh_source c)}"
proof -
  have keys: "distinct (map co_id (ad_codes db))" "distinct (map rt_id (ad_refresh db))"
    using assms(2) by (simp_all add: oauth_keys_def)
  show thesis
  proof (cases tx)
    case (TxComplete ctx request user code now)
    with assms(1) show ?thesis by (auto elim!: complete_tx intro: complete)
  next
    case (TxConsume ctx code a f now)
    then obtain u where ok: "consume_oauth_code_and_insert_tokens ctx code a f now db = Ok (u, db')"
      using assms(1) by auto
    show ?thesis by (rule consume_tx [OF ok keys(1)], rule consume [of _ a f]) (simp_all add: TxConsume)
  next
    case (TxRotate ctx old a f now)
    then obtain u where ok: "rotate_oauth_refresh_token ctx old a f now db = Ok (u, db')"
      using assms(1) by auto
    show ?thesis by (rule rotate_tx [OF ok keys(2)], rule rotate [of _ a f]) (simp_all add: TxRotate)
  qed (rule quiet, rule quiet_tx [OF assms(1)], simp_all)+
qed

lemma oauth_keys_next:
  assumes "oauth_keys db"
  shows "oauth_keys (oauth_next tx db)"
proof (cases "oauth_apply tx db")
  case (Inr db')
  have "oauth_keys db'"
    using Inr assms by (cases rule: tx_step) (use assms in \<open>auto simp: tokens_step_def evolves_def oauth_keys_def\<close>)
  with Inr show ?thesis by (simp add: oauth_next_def)
qed (simp add: assms oauth_next_def)

text \<open>
  An invariant of the run: it holds of the result when every transaction of the run keeps it together
  with the uniqueness of the keys.
\<close>

lemma oauth_run_invariant:
  assumes "oauth_keys db" "I db"
    and "\<And>tx d d'. tx \<in> set txs \<Longrightarrow> oauth_keys d \<Longrightarrow> I d \<Longrightarrow> oauth_apply tx d = Ok d' \<Longrightarrow> I d'"
  shows "I (oauth_run txs db)"
proof -
  have "oauth_keys (oauth_run txs db) \<and> I (oauth_run txs db)"
  proof (rule oauth_run_induct)
    show "oauth_keys db \<and> I db" using assms by simp
  next
    fix tx d
    assume "tx \<in> set txs" and d: "oauth_keys d \<and> I d"
    then show "oauth_keys (oauth_next tx d) \<and> I (oauth_next tx d)"
      using oauth_keys_next [of d tx] assms(3) [of tx d] by (simp add: oauth_next_def split: sum.splits)
  qed
  then show ?thesis ..
qed

section \<open>Single use\<close>

definition spent_code :: "uuid \<Rightarrow> auth_db \<Rightarrow> bool" where
  "spent_code i db \<longleftrightarrow> (\<forall>c \<in> set (ad_codes db). co_id c = i \<longrightarrow> co_consumed_at c \<noteq> None)"

definition spent_refresh :: "uuid \<Rightarrow> auth_db \<Rightarrow> bool" where
  "spent_refresh i db \<longleftrightarrow> (\<forall>r \<in> set (ad_refresh db). rt_id r = i \<longrightarrow> rt_rotated_at r \<noteq> None)"

lemma spent_code_step:
  assumes "oauth_keys d" "spent_code i d" "oauth_apply tx d = Ok d'" "issued_code tx \<noteq> Some i"
  shows "spent_code i d'"
proof -
  have keep: "spent_code i d'" if "tokens_step d d' C A R" "\<forall>c \<in> C. co_id c \<noteq> i" for C A R
    unfolding spent_code_def
    by (rule evolves_ball [of code_kept co_id _ _ C]) (use that assms(2) in \<open>auto simp: tokens_step_def spent_code_def code_kept_def\<close>)
  from assms(3,1) show ?thesis
    by (cases rule: tx_step) (use assms(4) in \<open>auto simp: code_row_def elim!: keep\<close>)
qed

lemma spent_refresh_step:
  assumes "oauth_keys d" "spent_refresh i d" "oauth_apply tx d = Ok d'" "issued_refresh tx \<noteq> Some i"
  shows "spent_refresh i d'"
proof -
  have keep: "spent_refresh i d'" if "tokens_step d d' C A R" "\<forall>r \<in> R. rt_id r \<noteq> i" for C A R
    unfolding spent_refresh_def
    by (rule evolves_ball [of refresh_kept rt_id _ _ R]) (use that assms(2) in \<open>auto simp: tokens_step_def spent_refresh_def refresh_kept_def\<close>)
  from assms(3,1) show ?thesis
    by (cases rule: tx_step) (use assms(4) in \<open>auto simp: refresh_row_def elim!: keep\<close>)
qed

lemma spent_code_refused:
  "spent_code i db \<Longrightarrow> \<exists>e. consume_oauth_code_and_insert_tokens ctx i a f now db = Err e"
proof (cases "consume_oauth_code_and_insert_tokens ctx i a f now db")
  case (Inr r)
  assume spent: "spent_code i db"
  have "0 < rows_affected (\<lambda>r. co_id r = i \<and> co_vault r = ctx_id ctx \<and> co_consumed_at r = None \<and> co_expires_at r > now)
      (ad_codes db)"
    using Inr by (auto simp: consume_oauth_code_and_insert_tokens_def bind_r_Ok_conv Let_def split: if_split_asm)
  with spent show ?thesis unfolding rows_affected_pos by (auto simp: spent_code_def)
qed simp

lemma spent_refresh_refused:
  "spent_refresh i db \<Longrightarrow> \<exists>e. rotate_oauth_refresh_token ctx i a f now db = Err e"
proof (cases "rotate_oauth_refresh_token ctx i a f now db")
  case (Inr r)
  assume spent: "spent_refresh i db"
  have "0 < rows_affected (\<lambda>r. rt_id r = i \<and> rt_vault r = ctx_id ctx \<and> rt_rotated_at r = None \<and>
      rt_revoked_at r = None \<and> rt_expires_at r > now) (ad_refresh db)"
    using Inr by (auto simp: rotate_oauth_refresh_token_def bind_r_Ok_conv Let_def split: if_split_asm)
  with spent show ?thesis unfolding rows_affected_pos by (auto simp: spent_refresh_def)
qed simp

lemma spent_code_run:
  assumes "oauth_keys db" "consume_oauth_code_and_insert_tokens ctx code a f now db = Ok (u, db1)"
    and "\<forall>tx \<in> set txs. issued_code tx \<noteq> Some code"
  shows "spent_code code (oauth_run txs db1)"
proof (rule oauth_run_invariant)
  show "oauth_keys db1"
    using oauth_keys_next [OF assms(1), of "TxConsume ctx code a f now"] assms(2)
    by (simp add: oauth_next_def discard_def)
  have "distinct (map co_id (ad_codes db))" using assms(1) by (simp add: oauth_keys_def)
  then show "spent_code code db1" by (rule consume_tx [OF assms(2)]) (simp add: spent_code_def)
qed (use assms(3) spent_code_step in blast)

lemma spent_refresh_run:
  assumes "oauth_keys db" "rotate_oauth_refresh_token ctx old a f now db = Ok (u, db1)"
    and "\<forall>tx \<in> set txs. issued_refresh tx \<noteq> Some old"
  shows "spent_refresh old (oauth_run txs db1)"
proof (rule oauth_run_invariant)
  show "oauth_keys db1"
    using oauth_keys_next [OF assms(1), of "TxRotate ctx old a f now"] assms(2)
    by (simp add: oauth_next_def discard_def)
  have "distinct (map rt_id (ad_refresh db))" using assms(1) by (simp add: oauth_keys_def)
  then show "spent_refresh old db1" by (rule rotate_tx [OF assms(2)]) (simp add: spent_refresh_def)
qed (use assms(3) spent_refresh_step in blast)

section \<open>Revocation\<close>

definition family_dead :: "vault_id \<Rightarrow> uuid \<Rightarrow> auth_db \<Rightarrow> bool" where
  "family_dead v fam db \<longleftrightarrow>
     (\<forall>a \<in> set (ad_access db). ax_vault a = v \<and> ax_family a = fam \<longrightarrow> ax_revoked_at a \<noteq> None) \<and>
     (\<forall>r \<in> set (ad_refresh db). rt_vault r = v \<and> rt_family r = fam \<longrightarrow> rt_revoked_at r \<noteq> None)"

lemma family_dead_keep:
  assumes "tokens_step d d' C A R" "family_dead v fam d"
    and "\<forall>a \<in> A. ax_vault a = v \<longrightarrow> ax_family a \<noteq> fam" "\<forall>r \<in> R. rt_vault r = v \<longrightarrow> rt_family r \<noteq> fam"
  shows "family_dead v fam d'"
  unfolding family_dead_def
proof
  show "\<forall>a \<in> set (ad_access d'). ax_vault a = v \<and> ax_family a = fam \<longrightarrow> ax_revoked_at a \<noteq> None"
    by (rule evolves_ball [of access_kept ax_id _ _ A])
      (use assms in \<open>auto simp: tokens_step_def family_dead_def access_kept_def\<close>)
  show "\<forall>r \<in> set (ad_refresh d'). rt_vault r = v \<and> rt_family r = fam \<longrightarrow> rt_revoked_at r \<noteq> None"
    by (rule evolves_ball [of refresh_kept rt_id _ _ R])
      (use assms in \<open>auto simp: tokens_step_def family_dead_def refresh_kept_def refresh_source_def\<close>)
qed

lemma family_dead_step:
  assumes "oauth_keys d" "family_dead v fam d" "oauth_apply tx d = Ok d'" "redeemed_family tx \<noteq> Some fam"
  shows "family_dead v fam d'"
  using assms(3,1)
proof (cases rule: tx_step)
  case quiet
  then show ?thesis using assms(2) by (rule family_dead_keep) simp_all
next
  case (complete user code r)
  from complete(3) assms(2) show ?thesis by (rule family_dead_keep) simp_all
next
  case (consume c a f)
  from consume(6) assms(2) show ?thesis
    by (rule family_dead_keep) (use consume assms(4) in \<open>auto simp: access_row_def refresh_row_def\<close>)
next
  case (rotate c a f)
  then have "rt_vault c = v \<longrightarrow> rt_family c \<noteq> fam" using assms(2) by (auto simp: family_dead_def)
  with rotate(6) assms(2) show ?thesis
    by (rule_tac family_dead_keep) (use rotate in \<open>auto simp: access_row_def refresh_row_def refresh_source_def\<close>)
qed

definition user_dead :: "vault_id \<Rightarrow> uuid \<Rightarrow> auth_db \<Rightarrow> bool" where
  "user_dead v u db \<longleftrightarrow>
     (\<forall>q \<in> set (ad_requests db). ar_vault q \<noteq> v) \<and>
     (\<forall>c \<in> set (ad_codes db). co_vault c = v \<and> co_user c = u \<longrightarrow> co_consumed_at c \<noteq> None) \<and>
     (\<forall>a \<in> set (ad_access db). ax_vault a = v \<and> ax_user a = u \<longrightarrow> ax_revoked_at a \<noteq> None) \<and>
     (\<forall>r \<in> set (ad_refresh db). rt_vault r = v \<and> rt_user r = u \<longrightarrow> rt_revoked_at r \<noteq> None)"

lemma user_dead_keep:
  assumes "tokens_step d d' C A R" "user_dead v u d" "\<forall>q \<in> set (ad_requests d'). ar_vault q \<noteq> v"
    and "\<forall>c \<in> C. co_vault c = v \<longrightarrow> co_user c \<noteq> u" "\<forall>a \<in> A. ax_vault a = v \<longrightarrow> ax_user a \<noteq> u"
    and "\<forall>r \<in> R. rt_vault r = v \<longrightarrow> rt_user r \<noteq> u"
  shows "user_dead v u d'"
  unfolding user_dead_def
proof (intro conjI)
  show "\<forall>q \<in> set (ad_requests d'). ar_vault q \<noteq> v" by (rule assms)
  show "\<forall>c \<in> set (ad_codes d'). co_vault c = v \<and> co_user c = u \<longrightarrow> co_consumed_at c \<noteq> None"
    by (rule evolves_ball [of code_kept co_id _ _ C])
      (use assms in \<open>auto simp: tokens_step_def user_dead_def code_kept_def code_source_def\<close>)
  show "\<forall>a \<in> set (ad_access d'). ax_vault a = v \<and> ax_user a = u \<longrightarrow> ax_revoked_at a \<noteq> None"
    by (rule evolves_ball [of access_kept ax_id _ _ A])
      (use assms in \<open>auto simp: tokens_step_def user_dead_def access_kept_def\<close>)
  show "\<forall>r \<in> set (ad_refresh d'). rt_vault r = v \<and> rt_user r = u \<longrightarrow> rt_revoked_at r \<noteq> None"
    by (rule evolves_ball [of refresh_kept rt_id _ _ R])
      (use assms in \<open>auto simp: tokens_step_def user_dead_def refresh_kept_def refresh_source_def\<close>)
qed

lemma user_dead_step:
  assumes keys: "oauth_keys d" and dead: "user_dead v u d" and ok: "oauth_apply tx d = Ok d'"
    and old: "requested_vault tx \<noteq> Some v"
  shows "user_dead v u d'"
proof -
  have req: "\<forall>q \<in> set (ad_requests d'). ar_vault q \<noteq> v"
  proof
    fix q assume "q \<in> set (ad_requests d')"
    then have "ar_vault q \<in> request_vaults d \<union> set_option (requested_vault tx)"
      using request_vaults_next [OF ok] by (auto simp: request_vaults_def)
    with dead old show "ar_vault q \<noteq> v" by (auto simp: user_dead_def request_vaults_def)
  qed
  from ok keys show ?thesis
  proof (cases rule: tx_step)
    case quiet
    then show ?thesis using dead req by (rule user_dead_keep) simp_all
  next
    case (complete user code r)
    from complete(3) dead req show ?thesis
      by (rule user_dead_keep) (use complete(2) dead in \<open>auto simp: code_row_def user_dead_def\<close>)
  next
    case (consume c a f)
    from consume(6) dead req show ?thesis
      by (rule user_dead_keep)
        (use consume(1,2) dead in \<open>auto simp: access_row_def refresh_row_def code_source_def user_dead_def\<close>)
  next
    case (rotate c a f)
    from rotate(6) dead req show ?thesis
      by (rule user_dead_keep)
        (use rotate(1,2) dead in \<open>auto simp: access_row_def refresh_row_def refresh_source_def user_dead_def\<close>)
  qed
qed

lemma update_rows_all:
  assumes "\<And>r. P r \<Longrightarrow> Q (f r)" "\<And>r. \<not> P r \<Longrightarrow> Q r"
  shows "\<forall>r \<in> set (update_rows P f rs). Q r"
  using assms by (auto simp: set_update_rows)

lemma revoke_user_state_dead: "user_dead v u (revoke_user_state u v now db)"
  unfolding user_dead_def revoke_user_state_def
  by (intro conjI) (simp, (simp, rule update_rows_all, simp, blast)+)

lemma oauth_keys_Ok: "oauth_keys db \<Longrightarrow> oauth_apply tx db = Ok db' \<Longrightarrow> oauth_keys db'"
  using oauth_keys_next [of db tx] by (simp add: oauth_next_def)

lemma revoke_family_dead:
  "revoke_oauth_token_family ctx fam now db = Ok (u, db1) \<Longrightarrow> family_dead (ctx_id ctx) fam db1"
  unfolding revoke_oauth_token_family_def bind_r_Ok_conv family_dead_def
  by (clarsimp, intro conjI) (rule update_rows_all, simp, blast)+

lemma upsert_user_dead:
  "upsert_local_oauth_user now ctx i name hash scopes db = Ok (usr, db1) \<Longrightarrow> user_dead (ctx_id ctx) (lu_id usr) db1"
  by (auto simp: upsert_local_oauth_user_def bind_r_Ok_conv Let_def revoke_user_state_dead
      split: if_split_asm option.split_asm)

section \<open>The guarantees\<close>

text \<open>
  C11: authorization codes and refresh tokens are redeemed at most once. After a code was exchanged,
  every later exchange of that code fails, and after a refresh token was rotated every later
  rotation of it fails, from whichever Vault and whatever transactions of other requests ran in
  between (an identifier is issued once: they are random UUIDs).
\<close>

theorem oauth_single_use:
  assumes "oauth_keys db"
  shows "(consume_oauth_code_and_insert_tokens ctx code a f now db = Ok (u, db1) \<and>
        (\<forall>tx \<in> set txs. issued_code tx \<noteq> Some code) \<longrightarrow>
        (\<exists>e. consume_oauth_code_and_insert_tokens ctx2 code a2 f2 now2 (oauth_run txs db1) = Err e)) \<and>
      (rotate_oauth_refresh_token ctx old a f now db = Ok (u, db1) \<and>
        (\<forall>tx \<in> set txs. issued_refresh tx \<noteq> Some old) \<longrightarrow>
        (\<exists>e. rotate_oauth_refresh_token ctx2 old a2 f2 now2 (oauth_run txs db1) = Err e))"
  using spent_code_run [OF assms] spent_refresh_run [OF assms] spent_code_refused spent_refresh_refused
  by (intro conjI impI) (elim conjE, meson)+

text \<open>
  A revoked token family stays dead. Once a replay revoked the family, no transaction of any
  request brings back an unrevoked access or refresh token of it: rotations of its tokens fail, and
  only an exchange that starts a family under the same identifier could add one (families are
  named by fresh UUIDs).
\<close>

theorem revoked_family_stays_dead:
  assumes "oauth_keys db" "revoke_oauth_token_family ctx fam now db = Ok (u, db1)"
    and "\<forall>tx \<in> set txs. redeemed_family tx \<noteq> Some fam"
  shows "family_dead (ctx_id ctx) fam (oauth_run txs db1)"
proof (rule oauth_run_invariant)
  show "oauth_keys db1"
    using assms(1) by (rule oauth_keys_Ok [of db "TxRevokeFamily ctx fam now"]) (simp add: assms(2) discard_def)
  show "family_dead (ctx_id ctx) fam db1" using assms(2) by (rule revoke_family_dead)
qed (use assms(3) family_dead_step in blast)

text \<open>
  Replacing or disabling the Vault's OAuth login ends everything that was granted under it. From
  then on, until a new authorization request of the Vault starts, whatever exchanges, rotations and
  completions were already in flight, every code of the user is spent and every access and refresh
  token revoked: a request that was checked against the old password cannot mint a code or a token.
\<close>

theorem password_change_revokes:
  assumes "oauth_keys db"
    and "upsert_local_oauth_user now ctx i name hash scopes db = Ok (usr, db1) \<or>
      disable_local_oauth_user_row now ctx db = Ok (True, db1) \<and> get_local_oauth_row (ctx_id ctx) db = Some usr"
    and "\<forall>tx \<in> set txs. requested_vault tx \<noteq> Some (ctx_id ctx)"
  shows "user_dead (ctx_id ctx) (lu_id usr) (oauth_run txs db1)"
proof (rule oauth_run_invariant)
  show "oauth_keys db1"
    using assms(2) oauth_keys_Ok [OF assms(1), of "TxUpsertUser now ctx i name hash scopes" db1]
      oauth_keys_Ok [OF assms(1), of "TxDisableUser now ctx" db1]
    by (auto simp: discard_def)
  show "user_dead (ctx_id ctx) (lu_id usr) db1"
    using assms(2) upsert_user_dead
    by (auto simp: disable_local_oauth_user_row_def bind_r_Ok_conv revoke_user_state_dead)
qed (use assms(3) user_dead_step in blast)

text \<open>A small database: one Vault with its login, one authorization code and one refresh token.\<close>

definition oauth_example_ctx :: vault_context where
  "oauth_example_ctx = \<lparr>ctx_id = 7, ctx_slug = ''home'', ctx_content_root = [''srv'', ''home''],
     ctx_settings_revision = 1\<rparr>"

definition oauth_example_token :: "uuid \<Rightarrow> uuid \<Rightarrow> char \<Rightarrow> new_token" where
  "oauth_example_token i fam d =
     \<lparr>nt_id = i, nt_family = fam, nt_prefix = ''mcpv_oauth_'', nt_digest = replicate 32 d, nt_version = 1,
      nt_created_at = 50, nt_expires_at = 900, nt_scopes = None\<rparr>"

definition oauth_example_db :: auth_db where
  "oauth_example_db =
     \<lparr>ad_vaults = [\<lparr>vr_id = 7, vr_slug = ''home'', vr_content_root = [''srv'', ''home''], vr_status = VaultActive\<rparr>],
      ad_key_checks = [], ad_secrets = [], ad_users = [], ad_sessions = [], ad_webdav = [], ad_mcp_tokens = [],
      ad_issuers = [], ad_grants = [],
      ad_local_users = [\<lparr>lu_id = 1, lu_vault = 7, lu_username = ''owner'', lu_password_hash = ''h'',
        lu_scopes = Some [''vault:read''], lu_enabled = True, lu_password_changed_at = 1, lu_created_at = 1,
        lu_updated_at = 1\<rparr>],
      ad_clients = [], ad_requests = [],
      ad_codes = [\<lparr>co_id = 20, co_digest = replicate 32 CHR ''c'', co_digest_key_version = 1, co_client = 9,
        co_user = 1, co_vault = 7, co_resource = ''r'', co_redirect_uri = ''u'', co_scopes = Some [''vault:read''],
        co_code_challenge = ''x'', co_created_at = 10, co_expires_at = 100, co_consumed_at = None\<rparr>],
      ad_access = [],
      ad_refresh = [refresh_row (oauth_example_token 30 5 CHR ''r'')
        \<lparr>ts_client = 9, ts_user = 1, ts_vault = 7, ts_resource = ''r'', ts_scopes = Some [''vault:read'']\<rparr>]\<rparr>"

lemmas oauth_example_defs = oauth_example_db_def oauth_example_ctx_def oauth_example_token_def

lemma oauth_example_keys: "oauth_keys oauth_example_db"
  by (simp add: oauth_example_defs oauth_keys_def)

definition oauth_example_consume :: "auth_db \<Rightarrow> state_error + unit \<times> auth_db" where
  "oauth_example_consume = consume_oauth_code_and_insert_tokens oauth_example_ctx 20
     (oauth_example_token 40 6 CHR ''a'') (oauth_example_token 41 6 CHR ''b'') 50"

definition oauth_example_rotate :: "auth_db \<Rightarrow> state_error + unit \<times> auth_db" where
  "oauth_example_rotate = rotate_oauth_refresh_token oauth_example_ctx 30
     (oauth_example_token 50 5 CHR ''a'') (oauth_example_token 51 5 CHR ''b'') 50"

definition ok_db :: "auth_db \<Rightarrow> state_error + 'a \<times> auth_db \<Rightarrow> auth_db" where
  "ok_db db r = (case r of Err _ \<Rightarrow> db | Ok (_, db') \<Rightarrow> db')"

lemma oauth_example_consumed:
  "oauth_example_consume oauth_example_db = Ok ((), ok_db oauth_example_db (oauth_example_consume oauth_example_db))"
  by code_simp

lemma oauth_example_rotated:
  "oauth_example_rotate oauth_example_db = Ok ((), ok_db oauth_example_db (oauth_example_rotate oauth_example_db))"
  by code_simp

definition oauth_example_txs :: "oauth_tx list" where
  "oauth_example_txs =
     [TxCleanup 0, TxConsume oauth_example_ctx 20 (oauth_example_token 60 8 CHR ''d'') (oauth_example_token 61 8 CHR ''e'') 60,
      TxRotate oauth_example_ctx 30 (oauth_example_token 62 5 CHR ''f'') (oauth_example_token 63 5 CHR ''g'') 60,
      TxTouch oauth_example_ctx 40 70]"

theorem oauth_single_use_witness:
  "(\<exists>e. oauth_example_consume (oauth_run oauth_example_txs
        (ok_db oauth_example_db (oauth_example_consume oauth_example_db))) = Err e) \<and>
   (\<exists>e. oauth_example_rotate (oauth_run oauth_example_txs
        (ok_db oauth_example_db (oauth_example_rotate oauth_example_db))) = Err e)"
proof -
  note ex = oauth_example_consumed [unfolded oauth_example_consume_def] oauth_example_rotated [unfolded oauth_example_rotate_def]
  have fresh: "\<forall>tx \<in> set oauth_example_txs. issued_code tx \<noteq> Some 20"
    "\<forall>tx \<in> set oauth_example_txs. issued_refresh tx \<noteq> Some 30"
    by (simp_all add: oauth_example_txs_def oauth_example_token_def)
  from oauth_single_use [OF oauth_example_keys, THEN conjunct1, rule_format, OF conjI, OF ex(1) fresh(1)]
    oauth_single_use [OF oauth_example_keys, THEN conjunct2, rule_format, OF conjI, OF ex(2) fresh(2)]
  show ?thesis unfolding oauth_example_consume_def oauth_example_rotate_def by blast
qed

theorem revoked_family_stays_dead_witness:
  "family_dead 7 5 (oauth_run oauth_example_txs
     (ok_db oauth_example_db (revoke_oauth_token_family oauth_example_ctx 5 55 oauth_example_db)))"
proof -
  let ?r = "revoke_oauth_token_family oauth_example_ctx 5 55 oauth_example_db"
  have "?r = Ok ((), ok_db oauth_example_db ?r)" by code_simp
  moreover have "\<forall>tx \<in> set oauth_example_txs. redeemed_family tx \<noteq> Some 5"
    by (simp add: oauth_example_txs_def oauth_example_token_def)
  ultimately show ?thesis
    using revoked_family_stays_dead [OF oauth_example_keys] by (metis oauth_example_ctx_def vault_context.select_convs(1))
qed

theorem password_change_revokes_witness:
  "user_dead 7 1 (oauth_run oauth_example_txs
     (ok_db oauth_example_db (disable_local_oauth_user_row 55 oauth_example_ctx oauth_example_db)))"
proof -
  let ?r = "disable_local_oauth_user_row 55 oauth_example_ctx oauth_example_db"
  let ?u = "hd (ad_local_users oauth_example_db)"
  have "?r = Ok (True, ok_db oauth_example_db ?r)" "get_local_oauth_row (ctx_id oauth_example_ctx) oauth_example_db = Some ?u"
    by code_simp+
  moreover have "\<forall>tx \<in> set oauth_example_txs. requested_vault tx \<noteq> Some (ctx_id oauth_example_ctx)"
    by (simp add: oauth_example_txs_def)
  ultimately have "user_dead (ctx_id oauth_example_ctx) (lu_id ?u) (oauth_run oauth_example_txs (ok_db oauth_example_db ?r))"
    by (intro password_change_revokes [OF oauth_example_keys] disjI2 conjI)
  then show ?thesis by (simp add: oauth_example_ctx_def oauth_example_db_def)
qed

end
