(* ===== verification/Auth_World.thy ===== *)
theory Auth_World
  imports OAuth_Lifecycle Patch Program_Logic
begin

text \<open>
  What the authentication service works with (crates/auth): its errors, the installation key ring and
  the framing of what it authenticates (secret.rs), the password policy (password.rs), scope parsing
  (oauth.rs), the login rate limiter and input checks (service.rs), and the world its operations run
  in: the tables, the limiter's entries and the transactions of other requests, which run before
  each repository call of the operation. A repository call is one step: the check of the Vault
  context, the statement and the read-back of a row that some calls make on separate connections are
  not interleaved with others, and a call fails with the errors of its own checks and constraints
  only, not because the database does. The primitives of other crates (HMAC-SHA256, SHA-256,
  base64, XChaCha20-Poly1305, Argon2) are the fields of \<open>auth_env\<close>.
\<close>

section \<open>Errors and primitives\<close>

datatype auth_error =
    AuthDomain domain_error
  | AuthState state_error
  | MasterKeyUnavailable
  | SecretUnavailable
  | PasswordPolicyError
  | PasswordHashError
  | InvalidCredential
  | Expired
  | Revoked
  | SetupUnavailable
  | OriginRejected
  | CsrfRejected
  | SessionExpired
  | RateLimited
  | OAuthConfiguration
  | OAuthTokenInvalid
  | ScopeDenied
  | Cryptography
  | AuthInvalidInput
  | KeyVersionPanic \<comment> \<open>the \<open>expect\<close> of \<open>keyed_digest_for\<close>\<close>

text \<open>What the service reads of a parsed URL (the \<open>url\<close> crate).\<close>

record url_view =
  uv_scheme :: string
  uv_host :: "string option"
  uv_port :: "nat option"
  uv_username :: string
  uv_password :: "string option"
  uv_path :: string
  uv_query :: "string option"
  uv_fragment :: "string option"

record auth_env =
  ae_hmac :: "blob \<Rightarrow> blob \<Rightarrow> blob" \<comment> \<open>key, message\<close>
  ae_sha256 :: "blob \<Rightarrow> blob"
  ae_base64 :: "blob \<Rightarrow> string" \<comment> \<open>\<open>URL_SAFE_NO_PAD.encode\<close>\<close>
  ae_seal :: "blob \<Rightarrow> blob \<Rightarrow> blob \<Rightarrow> blob \<Rightarrow> blob option" \<comment> \<open>key, nonce, associated data, plaintext\<close>
  ae_open :: "blob \<Rightarrow> blob \<Rightarrow> blob \<Rightarrow> blob \<Rightarrow> blob option" \<comment> \<open>key, nonce, associated data, ciphertext\<close>
  ae_phc :: "blob \<Rightarrow> string \<Rightarrow> string option" \<comment> \<open>salt, password: the PHC string\<close>
  ae_phc_verify :: "string \<Rightarrow> string \<Rightarrow> bool option" \<comment> \<open>\<open>None\<close>: not a PHC string\<close>
  ae_phc_stale :: "string \<Rightarrow> bool" \<comment> \<open>other algorithm or parameters\<close>
  ae_uuid :: "uuid \<Rightarrow> string" \<comment> \<open>\<open>to_string\<close>\<close>
  ae_parse_uuid :: "string \<Rightarrow> uuid option"
  ae_parse_url :: "string \<Rightarrow> url_view option"

section \<open>The key ring (secret.rs)\<close>

record master_key_ring =
  kr_keys :: "(nat \<times> blob) list" \<comment> \<open>a \<open>BTreeMap\<close>: ordered by version\<close>
  kr_current :: nat
  kr_persistent :: bool

fun ring_insert :: "nat \<Rightarrow> blob \<Rightarrow> (nat \<times> blob) list \<Rightarrow> (nat \<times> blob) list" where
  "ring_insert v k [] = [(v, k)]"
| "ring_insert v k ((w, j) # rest) =
     (if v < w then (v, k) # (w, j) # rest
      else if v = w then (v, k) # rest
      else (w, j) # ring_insert v k rest)"

definition ring_versions :: "master_key_ring \<Rightarrow> nat list" where
  "ring_versions ring = map fst (kr_keys ring)"

definition MASTER_KEY_BYTES :: nat where "MASTER_KEY_BYTES = 32"

definition ring_from_bytes :: "nat \<Rightarrow> blob \<Rightarrow> auth_error + master_key_ring" where
  "ring_from_bytes version bytes =
     (if version = 0 \<or> length bytes \<noteq> MASTER_KEY_BYTES then Err MasterKeyUnavailable
      else Ok \<lparr>kr_keys = [(version, bytes)], kr_current = version, kr_persistent = True\<rparr>)"

fun insert_versions :: "(nat \<times> blob) list \<Rightarrow> (nat \<times> blob) list \<Rightarrow> auth_error + (nat \<times> blob) list" where
  "insert_versions keys [] = Ok keys"
| "insert_versions keys ((v, bytes) # rest) =
     (if v = 0 \<or> length bytes \<noteq> MASTER_KEY_BYTES then Err MasterKeyUnavailable
      else insert_versions (ring_insert v bytes keys) rest)"

definition ring_from_versions :: "nat \<Rightarrow> (nat \<times> blob) list \<Rightarrow> auth_error + master_key_ring" where
  "ring_from_versions current versions =
     (if current = 0 then Err MasterKeyUnavailable
      else bind_r (insert_versions [] versions) (\<lambda>keys.
        if map_of keys current = None then Err MasterKeyUnavailable
        else Ok \<lparr>kr_keys = keys, kr_current = current, kr_persistent = True\<rparr>))"

definition with_rotated_key :: "master_key_ring \<Rightarrow> nat \<Rightarrow> blob \<Rightarrow> auth_error + master_key_ring" where
  "with_rotated_key ring version bytes =
     (if version \<le> kr_current ring \<or> length bytes \<noteq> MASTER_KEY_BYTES then Err MasterKeyUnavailable
      else Ok (ring\<lparr>kr_keys := ring_insert version bytes (kr_keys ring), kr_current := version\<rparr>))"

definition key_hex_value :: "char \<Rightarrow> nat option" where
  "key_hex_value c =
     (let b = byte_of c in
      if 48 \<le> b \<and> b \<le> 57 then Some (b - 48)
      else if 97 \<le> b \<and> b \<le> 102 then Some (b - 97 + 10)
      else if 65 \<le> b \<and> b \<le> 70 then Some (b - 65 + 10)
      else None)"

fun hex_decode :: "blob \<Rightarrow> blob option" where
  "hex_decode [] = Some []"
| "hex_decode [c] = None"
| "hex_decode (c # d # cs) =
     (case (key_hex_value c, key_hex_value d) of
        (Some h, Some l) \<Rightarrow> map_option ((#) (char_of (h * 16 + l))) (hex_decode cs)
      | _ \<Rightarrow> None)"

abbreviation LF :: string where "LF \<equiv> [char_of (10 :: nat)]"
abbreviation CRLF :: string where "CRLF \<equiv> [char_of (13 :: nat), char_of (10 :: nat)]"

definition normalized_key_file :: "blob \<Rightarrow> blob option" where
  "normalized_key_file bytes =
     (let n = length bytes in
      if n = 32 \<or> n = 64 then Some bytes
      else if n = 33 \<and> suffix LF bytes then Some (take 32 bytes)
      else if n = 34 \<and> suffix CRLF bytes then Some (take 32 bytes)
      else if n = 65 \<and> suffix LF bytes then Some (take 64 bytes)
      else if n = 66 \<and> suffix CRLF bytes then Some (take 64 bytes)
      else None)"

definition ring_from_file_bytes :: "blob \<Rightarrow> auth_error + master_key_ring" where
  "ring_from_file_bytes bytes =
     bind_r (ok_or MasterKeyUnavailable (normalized_key_file bytes)) (\<lambda>normalized.
       if length normalized = MASTER_KEY_BYTES then ring_from_bytes 1 normalized
       else if length normalized = MASTER_KEY_BYTES * 2
       then bind_r (ok_or MasterKeyUnavailable (hex_decode normalized)) (ring_from_bytes 1)
       else Err MasterKeyUnavailable)"

text \<open>Framed input: every part behind its length as four big-endian bytes (\<open>len as u32\<close>).\<close>

definition be32 :: "nat \<Rightarrow> blob" where
  "be32 n = map (\<lambda>k. char_of ((n mod 2 ^ 32) div 2 ^ k mod 256)) [24, 16, 8, 0]"

definition framed :: "blob list \<Rightarrow> blob" where
  "framed parts = concat (map (\<lambda>p. be32 (length p) @ p) parts)"

definition associated_data :: "string \<Rightarrow> string \<Rightarrow> string option \<Rightarrow> blob" where
  "associated_data purpose owner_type owner_id =
     framed [purpose, owner_type, case owner_id of None \<Rightarrow> [] | Some o' \<Rightarrow> o']"

definition keyed_digest_for :: "auth_env \<Rightarrow> master_key_ring \<Rightarrow> nat \<Rightarrow> string \<Rightarrow> blob \<Rightarrow> auth_error + blob" where
  "keyed_digest_for env ring version purpose value =
     bind_r (ok_or KeyVersionPanic (map_of (kr_keys ring) version)) (\<lambda>key.
       Ok (ae_hmac env key (framed [purpose, value])))"

definition keyed_digest :: "auth_env \<Rightarrow> master_key_ring \<Rightarrow> string \<Rightarrow> blob \<Rightarrow> auth_error + blob" where
  "keyed_digest env ring purpose value = keyed_digest_for env ring (kr_current ring) purpose value"

definition installation_key_check :: "auth_env \<Rightarrow> master_key_ring \<Rightarrow> auth_error + blob" where
  "installation_key_check env ring =
     keyed_digest env ring ''mcp-vault-installation-key-check-v1'' ''installation-key-verifier''"

record encrypted_secret_payload =
  ep_key_version :: nat
  ep_nonce :: blob
  ep_ciphertext :: blob

definition ring_encrypt ::
  "auth_env \<Rightarrow> master_key_ring \<Rightarrow> blob \<Rightarrow> string \<Rightarrow> string \<Rightarrow> string option \<Rightarrow> blob \<Rightarrow>
     auth_error + encrypted_secret_payload" where
  \<comment> \<open>the nonce is the 24 random bytes that were drawn\<close>
  "ring_encrypt env ring nonce purpose owner_type owner_id plaintext =
     bind_r (ok_or SecretUnavailable (map_of (kr_keys ring) (kr_current ring))) (\<lambda>key.
     bind_r (ok_or Cryptography (ae_seal env key nonce (associated_data purpose owner_type owner_id) plaintext))
       (\<lambda>ciphertext.
       Ok \<lparr>ep_key_version = kr_current ring, ep_nonce = nonce, ep_ciphertext = ciphertext\<rparr>))"

definition ring_decrypt ::
  "auth_env \<Rightarrow> master_key_ring \<Rightarrow> nat \<Rightarrow> blob \<Rightarrow> blob \<Rightarrow> string \<Rightarrow> string \<Rightarrow> string option \<Rightarrow> auth_error + blob" where
  "ring_decrypt env ring version nonce ciphertext purpose owner_type owner_id =
     (if length nonce \<noteq> 24 then Err SecretUnavailable
      else bind_r (ok_or SecretUnavailable (map_of (kr_keys ring) version)) (\<lambda>key.
        ok_or SecretUnavailable (ae_open env key nonce (associated_data purpose owner_type owner_id) ciphertext)))"

section \<open>Strings and validation\<close>

fun trim_start :: "string \<Rightarrow> string" where
  "trim_start [] = []"
| "trim_start (c # cs) =
     (let n = white_space_len (c # cs) in if n = 0 then c # cs else trim_start (drop (n - 1) cs))"

fun trim_end :: "string \<Rightarrow> string" where
  "trim_end [] = []"
| "trim_end (c # cs) = (if split_whitespace (c # cs) = [] then [] else c # trim_end cs)"

definition trim :: "string \<Rightarrow> string" where
  "trim s = trim_end (trim_start s)"

definition to_ascii_lowercase :: "char \<Rightarrow> char" where
  "to_ascii_lowercase c = (if 65 \<le> byte_of c \<and> byte_of c \<le> 90 then char_of (byte_of c + 32) else c)"

definition ascii_lowercase :: "string \<Rightarrow> string" where
  "ascii_lowercase s = map to_ascii_lowercase s"

fun take_chars :: "nat \<Rightarrow> string \<Rightarrow> string" where
  \<comment> \<open>\<open>s.chars().take(n).collect()\<close> on UTF-8: a byte 0x80..0xBF continues a character\<close>
  "take_chars n [] = []"
| "take_chars n (c # cs) =
     (if 128 \<le> byte_of c \<and> byte_of c < 192 then c # take_chars n cs
      else case n of 0 \<Rightarrow> [] | Suc m \<Rightarrow> c # take_chars m cs)"

fun split_ascii_whitespace_from :: "string \<Rightarrow> string \<Rightarrow> string list" where
  "split_ascii_whitespace_from cur [] = (if cur = [] then [] else [cur])"
| "split_ascii_whitespace_from cur (c # cs) =
     (if byte_of c \<in> {9, 10, 12, 13, 32}
      then (if cur = [] then [] else [cur]) @ split_ascii_whitespace_from [] cs
      else split_ascii_whitespace_from (cur @ [c]) cs)"

definition split_ascii_whitespace :: "string \<Rightarrow> string list" where
  "split_ascii_whitespace s = split_ascii_whitespace_from [] s"

definition normalize_username :: "string \<Rightarrow> auth_error + string" where
  "normalize_username value =
     (let v = ascii_lowercase (trim value)
      in if v = [] \<or> length v > 128 \<or> any_control v then Err AuthInvalidInput else Ok v)"

definition validate_public_label :: "string \<Rightarrow> auth_error + unit" where
  "validate_public_label v =
     (if v = [] \<or> length v > 256 \<or> any_control v then Err AuthInvalidInput else Ok ())"

definition safe_metadata :: "string option \<Rightarrow> nat \<Rightarrow> auth_error + string option" where
  "safe_metadata value max_bytes =
     (case value of None \<Rightarrow> Ok None
      | Some v \<Rightarrow> if length v > max_bytes \<or> any_control v then Err AuthInvalidInput else Ok (Some v))"

text \<open>Passwords (password.rs).\<close>

definition password_validate :: "nat \<Rightarrow> string \<Rightarrow> auth_error + unit" where
  "password_validate minimum_bytes v =
     (if length v < minimum_bytes \<or> any_control v then Err PasswordPolicyError
      else if ascii_lowercase v \<in> {''password'', ''password123'', ''changeme'', ''admin'', ''admin123'', ''letmein''}
      then Err PasswordPolicyError
      else Ok ())"

definition password_hash :: "auth_env \<Rightarrow> nat \<Rightarrow> blob \<Rightarrow> string \<Rightarrow> auth_error + string" where
  "password_hash env minimum_bytes salt v =
     bind_r (password_validate minimum_bytes v) (\<lambda>_. ok_or PasswordHashError (ae_phc env salt v))"

definition password_verify :: "auth_env \<Rightarrow> string \<Rightarrow> string \<Rightarrow> auth_error + bool \<times> bool" where
  \<comment> \<open>\<open>valid\<close> and \<open>needs_rehash\<close>\<close>
  "password_verify env stored v =
     bind_r (ok_or PasswordHashError (ae_phc_verify env stored v)) (\<lambda>valid.
       Ok (valid, valid \<and> ae_phc_stale env stored))"

text \<open>Scopes as the columns hold them (oauth.rs).\<close>

fun parse_scope_values :: "auth_error \<Rightarrow> string list \<Rightarrow> scope_set \<Rightarrow> auth_error + scope_set" where
  "parse_scope_values e [] acc = Ok acc"
| "parse_scope_values e (v # vs) acc =
     (case scope_from_str v of
        Err _ \<Rightarrow> Err e
      | Ok s \<Rightarrow> parse_scope_values e vs (snd (scopeset_insert acc s)))"

definition parse_scopes :: "string list option \<Rightarrow> auth_error + scope_set" where
  "parse_scopes json =
     bind_r (ok_or OAuthConfiguration json) (\<lambda>values. parse_scope_values OAuthConfiguration values [])"

definition scopes_json :: "scope_set \<Rightarrow> string list" where
  "scopes_json scopes = map scope_display scopes"

section \<open>The login rate limiter\<close>

record login_attempt =
  la_failures :: nat
  la_blocked_until :: int
  la_last_attempt :: int

type_synonym limiter = "(string \<times> login_attempt) list"

definition limiter_check :: "string \<Rightarrow> int \<Rightarrow> limiter \<Rightarrow> (auth_error + unit) \<times> limiter" where
  "limiter_check key now entries =
     (let retained = filter (\<lambda>(_, a). sat_i64 (now - la_last_attempt a) < 15 * 60 * 1000) entries;
          kept = (if length retained > 4096 then [] else retained)
      in (case map_of kept key of
            Some a \<Rightarrow> if la_blocked_until a > now then Err RateLimited else Ok ()
          | None \<Rightarrow> Ok (), kept))"

definition delay_seconds :: "nat \<Rightarrow> int" where
  "delay_seconds failures = (if failures < 5 then 0 else 2 ^ min (failures - 5) 4)"

definition failed_attempt :: "int \<Rightarrow> login_attempt \<Rightarrow> login_attempt" where
  "failed_attempt now a =
     (let failures = min (la_failures a + 1) (2 ^ 32 - 1)
      in \<lparr>la_failures = failures, la_blocked_until = sat_i64 (now + delay_seconds failures * 1000),
          la_last_attempt = now\<rparr>)"

definition limiter_failure :: "string \<Rightarrow> int \<Rightarrow> limiter \<Rightarrow> limiter" where
  "limiter_failure key now entries =
     (if map_of entries key = None
      then entries @ [(key, failed_attempt now \<lparr>la_failures = 0, la_blocked_until = 0, la_last_attempt = now\<rparr>)]
      else map (\<lambda>(k, a). (k, if k = key then failed_attempt now a else a)) entries)"

definition limiter_success :: "string \<Rightarrow> limiter \<Rightarrow> limiter" where
  "limiter_success key entries = filter (\<lambda>(k, _). k \<noteq> key) entries"

section \<open>The world\<close>

record auth_world =
  aw_db :: auth_db
  aw_limiter :: limiter
  aw_others :: "(auth_db \<Rightarrow> auth_db) list"

type_synonym 'a auth = "(auth_world, auth_error, 'a) prog"

text \<open>What the service holds besides its repository.\<close>

record auth_service =
  as_env :: auth_env
  as_keys :: master_key_ring
  as_minimum_bytes :: nat
  as_idle_timeout :: int
  as_absolute_timeout :: int
  as_dummy_hash :: string \<comment> \<open>the hash that \<open>dummy_password_hash\<close> computed once\<close>

definition interfere :: "auth_world \<Rightarrow> auth_world" where
  "interfere w = (case aw_others w of [] \<Rightarrow> w | f # fs \<Rightarrow> w\<lparr>aw_db := f (aw_db w), aw_others := fs\<rparr>)"

definition repo :: "(auth_db \<Rightarrow> state_error + 'a \<times> auth_db) \<Rightarrow> 'a auth" where
  \<comment> \<open>\<open>self.repository.operation(..).await?\<close>\<close>
  "repo f w =
     (let w1 = interfere w in
      case f (aw_db w1) of
        Err e \<Rightarrow> (Err (AuthState e), w1)
      | Ok (a, db) \<Rightarrow> (Ok a, w1\<lparr>aw_db := db\<rparr>))"

definition repo_read :: "(auth_db \<Rightarrow> state_error + 'a) \<Rightarrow> 'a auth" where
  "repo_read f = repo (\<lambda>db. bind_r (f db) (\<lambda>a. Ok (a, db)))"

definition limit_check :: "string \<Rightarrow> int \<Rightarrow> unit auth" where
  "limit_check key now w = (let (r, l) = limiter_check key now (aw_limiter w) in (r, w\<lparr>aw_limiter := l\<rparr>))"

definition limit_failure :: "string \<Rightarrow> int \<Rightarrow> unit auth" where
  "limit_failure key now = modify_x (\<lambda>w. w\<lparr>aw_limiter := limiter_failure key now (aw_limiter w)\<rparr>)"

definition limit_success :: "string \<Rightarrow> unit auth" where
  "limit_success key = modify_x (\<lambda>w. w\<lparr>aw_limiter := limiter_success key (aw_limiter w)\<rparr>)"

definition ensure_persistent_master_key :: "auth_service \<Rightarrow> unit auth" where
  "ensure_persistent_master_key svc =
     (if \<not> kr_persistent (as_keys svc) then throw_x MasterKeyUnavailable
      else bind_x (lift_x (installation_key_check (as_env svc) (as_keys svc))) (\<lambda>digest.
        bind_x (repo (insert_installation_key_check_if_absent (kr_current (as_keys svc)) digest)) (\<lambda>_.
        bind_x (repo_read (\<lambda>db. Ok (get_installation_key_check (kr_current (as_keys svc)) db))) (\<lambda>stored.
        bind_x (lift_x (ok_or MasterKeyUnavailable stored)) (\<lambda>stored.
          when_x (stored \<noteq> digest) (throw_x MasterKeyUnavailable))))))"

end
