(* ===== verification/OAuth_Service.thy ===== *)
theory OAuth_Service
  imports Auth_World
begin

text \<open>
  The built-in OAuth 2.1 authorization server (crates/auth/src/service/local\_oauth.rs): the Vault's
  login, client registration, the authorization request and its consent, the code and refresh
  exchanges and the check of an access token. Clock readings, fresh identifiers and random bytes are
  arguments of the operation that draws them.
\<close>

section \<open>Inputs and results\<close>

record granted_scopes =
  gs_application :: scope_set
  gs_offline :: bool

record local_oauth_user =
  ou_id :: uuid
  ou_vault :: vault_id
  ou_username :: string
  ou_scopes :: scope_set
  ou_enabled :: bool
  ou_password_changed_at :: int
  ou_created_at :: int
  ou_updated_at :: int

record client_registration =
  cr_name :: "string option"
  cr_redirect_uris :: "string list"
  cr_grant_types :: "string list option"
  cr_response_types :: "string list option"
  cr_auth_method :: "string option"

record client_registration_result =
  rr_client_id :: uuid
  rr_name :: string
  rr_redirect_uris :: "string list"
  rr_grant_types :: "string list"
  rr_response_types :: "string list"
  rr_auth_method :: string
  rr_issued_at :: int

record authorization_input =
  ai_response_type :: string
  ai_client_id :: string
  ai_redirect_uri :: string
  ai_scope :: "string option"
  ai_state :: "string option"
  ai_code_challenge :: string
  ai_code_challenge_method :: string
  ai_resource :: string

record authorization_prompt =
  ap_request_handle :: string
  ap_client_name :: string
  ap_resource :: string
  ap_scopes :: scope_set
  ap_offline_access :: bool
  ap_expires_at :: int

record authorization_result =
  az_redirect_uri :: string
  az_code :: string
  az_state :: "string option"
  az_issuer :: string

record code_exchange =
  ce_code :: string
  ce_client_id :: string
  ce_redirect_uri :: string
  ce_code_verifier :: string
  ce_resource :: string

record refresh_exchange =
  re_refresh_token :: string
  re_client_id :: string
  re_resource :: string
  re_scope :: "string option"

record token_issue =
  ti_access_token :: string
  ti_refresh_token :: string
  ti_expires_in :: nat
  ti_scopes :: scope_set
  ti_offline_access :: bool

record auth_principal =
  pr_actor :: actor
  pr_vault :: "vault_id option"
  pr_credential :: "uuid option"
  pr_permissions :: "permission list"
  pr_scopes :: scope_set

definition REQUEST_LABEL :: string where "REQUEST_LABEL = ''mcpv_oauth_req_''"
definition CODE_LABEL :: string where "CODE_LABEL = ''mcpv_oauth_code_''"
definition ACCESS_LABEL :: string where "ACCESS_LABEL = ''mcpv_oauth_''"
definition REFRESH_LABEL :: string where "REFRESH_LABEL = ''mcpv_refresh_''"
definition REQUEST_DIGEST_PURPOSE :: string where "REQUEST_DIGEST_PURPOSE = ''local-oauth-request-digest''"
definition CODE_DIGEST_PURPOSE :: string where "CODE_DIGEST_PURPOSE = ''local-oauth-code-digest''"
definition ACCESS_DIGEST_PURPOSE :: string where "ACCESS_DIGEST_PURPOSE = ''local-oauth-access-digest''"
definition REFRESH_DIGEST_PURPOSE :: string where "REFRESH_DIGEST_PURPOSE = ''local-oauth-refresh-digest''"
definition OFFLINE_ACCESS :: string where "OFFLINE_ACCESS = ''offline_access''"
definition AUTHORIZATION_REQUEST_LIFETIME :: int where "AUTHORIZATION_REQUEST_LIFETIME = 10 * 60 * 1000"
definition AUTHORIZATION_CODE_LIFETIME :: int where "AUTHORIZATION_CODE_LIFETIME = 5 * 60 * 1000"
definition ACCESS_TOKEN_LIFETIME :: int where "ACCESS_TOKEN_LIFETIME = 60 * 60 * 1000"
definition REFRESH_TOKEN_LIFETIME :: int where "REFRESH_TOKEN_LIFETIME = 180 * 24 * 60 * 60 * 1000"
definition REFRESH_TOKEN_REUSE_GRACE :: int where "REFRESH_TOKEN_REUSE_GRACE = 60 * 1000"
definition OAUTH_RETENTION :: int where "OAUTH_RETENTION = 24 * 60 * 60 * 1000"
definition MAX_ACTIVE_CLIENTS :: nat where "MAX_ACTIVE_CLIENTS = 1024"
definition TOKEN_LOOKUP_PREFIX :: nat where "TOKEN_LOOKUP_PREFIX = 20"

definition generate_bearer_token :: "auth_env \<Rightarrow> string \<Rightarrow> blob \<Rightarrow> string" where
  \<comment> \<open>from the 32 random bytes that were drawn\<close>
  "generate_bearer_token env label random = label @ ae_base64 env random"

section \<open>Scopes\<close>

definition ensure_scopes_allowed :: "scope_set \<Rightarrow> scope_set \<Rightarrow> auth_error + unit" where
  "ensure_scopes_allowed scopes allowed =
     (if \<exists>s \<in> set scopes. \<not> scopeset_contains allowed s then Err ScopeDenied else Ok ())"

fun local_scope_items :: "auth_error \<Rightarrow> string list \<Rightarrow> granted_scopes \<Rightarrow> auth_error + granted_scopes" where
  "local_scope_items e [] acc = Ok acc"
| "local_scope_items e (v # vs) acc =
     (if v = OFFLINE_ACCESS then local_scope_items e vs (acc\<lparr>gs_offline := True\<rparr>)
      else case scope_from_str v of
        Err _ \<Rightarrow> Err e
      | Ok s \<Rightarrow> local_scope_items e vs
                 (acc\<lparr>gs_application := snd (scopeset_insert (gs_application acc) s)\<rparr>))"

definition nonempty_scopes :: "auth_error \<Rightarrow> granted_scopes \<Rightarrow> auth_error + granted_scopes" where
  "nonempty_scopes e g = (if gs_application g = [] then Err e else Ok g)"

definition parse_requested_local_oauth_scopes :: "string \<Rightarrow> auth_error + granted_scopes" where
  "parse_requested_local_oauth_scopes value =
     (if length value > 1024 then Err ScopeDenied
      else bind_r (local_scope_items ScopeDenied (split_ascii_whitespace value)
                     \<lparr>gs_application = [], gs_offline = False\<rparr>) (nonempty_scopes ScopeDenied))"

definition parse_local_oauth_scopes :: "string list option \<Rightarrow> auth_error + granted_scopes" where
  "parse_local_oauth_scopes json =
     bind_r (ok_or OAuthConfiguration json) (\<lambda>values.
     bind_r (local_scope_items OAuthConfiguration values \<lparr>gs_application = [], gs_offline = False\<rparr>)
       (nonempty_scopes OAuthConfiguration))"

definition given_scope :: "string option \<Rightarrow> string option" where
  \<comment> \<open>\<open>value.filter(|value| !value.trim().is_empty())\<close>\<close>
  "given_scope value = (case value of None \<Rightarrow> None | Some v \<Rightarrow> if trim v = [] then None else Some v)"

definition requested_authorization_scopes :: "string option \<Rightarrow> scope_set \<Rightarrow> auth_error + granted_scopes" where
  "requested_authorization_scopes value allowed =
     (case given_scope value of
        None \<Rightarrow> Ok \<lparr>gs_application = allowed, gs_offline = False\<rparr>
      | Some v \<Rightarrow>
          bind_r (parse_requested_local_oauth_scopes v) (\<lambda>requested.
          bind_r (ensure_scopes_allowed (gs_application requested) allowed) (\<lambda>_. Ok requested)))"

definition requested_refresh_scopes :: "string option \<Rightarrow> granted_scopes \<Rightarrow> auth_error + granted_scopes" where
  "requested_refresh_scopes value original =
     (case given_scope value of
        None \<Rightarrow> Ok original
      | Some v \<Rightarrow>
          bind_r (parse_requested_local_oauth_scopes v) (\<lambda>requested.
            if gs_offline requested \<and> \<not> gs_offline original then Err ScopeDenied
            else bind_r (ensure_scopes_allowed (gs_application requested) (gs_application original)) (\<lambda>_.
              Ok \<lparr>gs_application = gs_application requested, gs_offline = gs_offline original\<rparr>)))"

definition local_oauth_scopes_json :: "granted_scopes \<Rightarrow> string list" where
  "local_oauth_scopes_json g =
     map scope_display (gs_application g) @ (if gs_offline g then [OFFLINE_ACCESS] else [])"

section \<open>Validation\<close>

definition is_unreserved :: "char \<Rightarrow> bool" where
  "is_unreserved c \<longleftrightarrow>
     is_ascii_lowercase c \<or> is_ascii_digit c \<or> (65 \<le> byte_of c \<and> byte_of c \<le> 90)
     \<or> c \<in> {CHR ''-'', CHR ''.'', CHR ''_'', CHR ''~''}"

definition valid_pkce_challenge :: "string \<Rightarrow> bool" where
  "valid_pkce_challenge v \<longleftrightarrow> length v = 43 \<and> list_all is_unreserved v"

definition valid_pkce_verifier :: "string \<Rightarrow> bool" where
  "valid_pkce_verifier v \<longleftrightarrow> 43 \<le> length v \<and> length v \<le> 128 \<and> list_all is_unreserved v"

definition pkce_matches :: "auth_env \<Rightarrow> string \<Rightarrow> string \<Rightarrow> bool" where
  "pkce_matches env verifier expected \<longleftrightarrow> ae_base64 env (ae_sha256 env verifier) = expected"

definition validate_oauth_state :: "string option \<Rightarrow> auth_error + unit" where
  "validate_oauth_state state =
     (case state of None \<Rightarrow> Ok ()
      | Some v \<Rightarrow> if length v > 2048 \<or> any_control v then Err AuthInvalidInput else Ok ())"

definition validate_client_name :: "string \<Rightarrow> auth_error + unit" where
  "validate_client_name v =
     (if trim v = [] \<or> length v > 256 \<or> any_control v then Err AuthInvalidInput else Ok ())"

text \<open>\<open>host.parse::<IpAddr>()\<close> and \<open>is_loopback\<close>: 127.0.0.0/8, and the IPv6 address ::1.\<close>

definition ipv4_octet :: "string \<Rightarrow> nat option" where
  "ipv4_octet s =
     (if s = [] \<or> length s > 3 \<or> \<not> list_all is_ascii_digit s \<or> (length s > 1 \<and> hd s = CHR ''0'') then None
      else let n = foldl (\<lambda>n c. n * 10 + (byte_of c - 48)) 0 s in if n > 255 then None else Some n)"

definition parse_ipv4 :: "string \<Rightarrow> nat list option" where
  "parse_ipv4 s =
     (let parts = split_on CHR ''.'' s in
      if length parts = 4 then those (map ipv4_octet parts) else None)"

definition ipv6_group :: "string \<Rightarrow> nat option" where
  "ipv6_group s =
     (if s = [] \<or> length s > 4 then None
      else map_option (foldl (\<lambda>n d. n * 16 + d) 0) (those (map key_hex_value s)))"

definition ipv6_groups :: "bool \<Rightarrow> string \<Rightarrow> nat list option" where
  \<comment> \<open>groups between colons; the last may be an IPv4 address, where that is allowed\<close>
  "ipv6_groups v4 s =
     (if s = [] then Some []
      else let parts = split_on CHR '':'' s
           in case those (map ipv6_group (butlast parts)) of
                None \<Rightarrow> None
              | Some gs \<Rightarrow>
                  (case ipv6_group (last parts) of
                     Some g \<Rightarrow> Some (gs @ [g])
                   | None \<Rightarrow> if v4 then map_option (\<lambda>q. gs @ [q ! 0 * 256 + q ! 1, q ! 2 * 256 + q ! 3])
                                       (parse_ipv4 (last parts))
                            else None))"

fun split_double_colon :: "string \<Rightarrow> (string \<times> string) option" where
  "split_double_colon (c # d # cs) =
     (if c = CHR '':'' \<and> d = CHR '':'' then Some ([], cs)
      else map_option (\<lambda>(a, b). (c # a, b)) (split_double_colon (d # cs)))"
| "split_double_colon _ = None"

definition parse_ipv6 :: "string \<Rightarrow> nat list option" where
  "parse_ipv6 s =
     (case split_double_colon s of
        None \<Rightarrow> (case ipv6_groups True s of Some gs \<Rightarrow> if length gs = 8 then Some gs else None | None \<Rightarrow> None)
      | Some (a, b) \<Rightarrow>
          (case (ipv6_groups False a, ipv6_groups True b) of
             (Some h, Some t) \<Rightarrow>
               if length h + length t \<le> 7 then Some (h @ replicate (8 - length h - length t) 0 @ t) else None
           | _ \<Rightarrow> None))"

definition ip_is_loopback :: "string \<Rightarrow> bool" where
  "ip_is_loopback host \<longleftrightarrow>
     (case parse_ipv4 host of
        Some octets \<Rightarrow> octets ! 0 = 127
      | None \<Rightarrow> parse_ipv6 host = Some [0, 0, 0, 0, 0, 0, 0, 1])"

definition redirect_scheme_allowed :: "url_view \<Rightarrow> bool" where
  "redirect_scheme_allowed url \<longleftrightarrow>
     uv_scheme url = ''https''
     \<or> (uv_scheme url = ''http''
        \<and> (case uv_host url of None \<Rightarrow> False | Some host \<Rightarrow> host = ''localhost'' \<or> ip_is_loopback host))"

fun redirect_uris_loop :: "auth_env \<Rightarrow> string list \<Rightarrow> string list \<Rightarrow> auth_error + string list" where
  "redirect_uris_loop env seen [] = Ok seen"
| "redirect_uris_loop env seen (v # vs) =
     (if length v > 2048 \<or> v \<in> set seen then Err OAuthConfiguration
      else case ae_parse_url env v of
        None \<Rightarrow> Err OAuthConfiguration
      | Some url \<Rightarrow>
          if uv_fragment url \<noteq> None \<or> uv_username url \<noteq> [] \<or> uv_password url \<noteq> None
             \<or> uv_host url = None \<or> \<not> redirect_scheme_allowed url
          then Err OAuthConfiguration
          else redirect_uris_loop env (seen @ [v]) vs)"

definition validate_redirect_uris :: "auth_env \<Rightarrow> string list \<Rightarrow> auth_error + string list" where
  "validate_redirect_uris env values =
     (if values = [] \<or> length values > 16 then Err OAuthConfiguration
      else redirect_uris_loop env [] values)"

definition validate_exact_values ::
  "string list option \<Rightarrow> string list \<Rightarrow> string \<Rightarrow> auth_error + string list" where
  "validate_exact_values values defaults required =
     (let vs = (case values of None \<Rightarrow> defaults | Some vs \<Rightarrow> vs)
      in if vs = [] \<or> length vs > length defaults \<or> required \<notin> set vs \<or> (\<exists>v \<in> set vs. v \<notin> set defaults)
         then Err OAuthConfiguration
         else if \<not> distinct vs then Err OAuthConfiguration
         else Ok vs)"

definition required_grants :: "string list" where
  "required_grants = [''authorization_code'', ''refresh_token'']"

definition ensure_client_capabilities :: "oauth_client_record \<Rightarrow> auth_error + unit" where
  "ensure_client_capabilities client =
     bind_r (ok_or OAuthConfiguration (cl_grant_types client)) (\<lambda>grants.
     bind_r (ok_or OAuthConfiguration (cl_response_types client)) (\<lambda>responses.
       if cl_auth_method client \<noteq> ''none'' \<or> \<not> set required_grants \<subseteq> set grants \<or> responses \<noteq> [''code'']
       then Err OAuthConfiguration else Ok ()))"

definition local_user_view :: "oauth_local_user_record \<Rightarrow> auth_error + local_oauth_user" where
  "local_user_view u =
     bind_r (parse_scopes (lu_scopes u)) (\<lambda>scopes.
       Ok \<lparr>ou_id = lu_id u, ou_vault = lu_vault u, ou_username = lu_username u, ou_scopes = scopes,
           ou_enabled = lu_enabled u, ou_password_changed_at = lu_password_changed_at u,
           ou_created_at = lu_created_at u, ou_updated_at = lu_updated_at u\<rparr>)"

definition client_registration_view :: "oauth_client_record \<Rightarrow> auth_error + client_registration_result" where
  \<comment> \<open>\<open>/\<close> on \<open>i64\<close> truncates towards zero\<close>
  "client_registration_view c =
     bind_r (ok_or OAuthConfiguration (cl_redirect_uris c)) (\<lambda>uris.
     bind_r (ok_or OAuthConfiguration (cl_grant_types c)) (\<lambda>grants.
     bind_r (ok_or OAuthConfiguration (cl_response_types c)) (\<lambda>responses.
       Ok \<lparr>rr_client_id = cl_id c, rr_name = cl_name c, rr_redirect_uris = uris, rr_grant_types = grants,
           rr_response_types = responses, rr_auth_method = cl_auth_method c,
           rr_issued_at = (if cl_created_at c \<ge> 0 then cl_created_at c div 1000 else - ((- cl_created_at c) div 1000))\<rparr>)))"

definition parse_client_id :: "auth_env \<Rightarrow> string \<Rightarrow> auth_error + uuid" where
  "parse_client_id env v =
     ok_or (AuthDomain (InvalidValue ''OAuth client ID'' ''must be a UUID'')) (ae_parse_uuid env v)"

section \<open>Lookups\<close>

text \<open>Every retained key version is tried, oldest first.\<close>

fun find_versions :: "(nat \<Rightarrow> 'r option auth) \<Rightarrow> nat list \<Rightarrow> 'r option auth" where
  "find_versions f [] = return_x None"
| "find_versions f (v # vs) =
     bind_x (f v) (\<lambda>r. case r of Some x \<Rightarrow> return_x (Some x) | None \<Rightarrow> find_versions f vs)"

definition find_authorization_request ::
  "auth_service \<Rightarrow> vault_context \<Rightarrow> string \<Rightarrow> oauth_request_record option auth" where
  "find_authorization_request svc ctx handle =
     (if \<not> prefix REQUEST_LABEL handle then return_x None
      else find_versions (\<lambda>v.
        bind_x (lift_x (keyed_digest_for (as_env svc) (as_keys svc) v REQUEST_DIGEST_PURPOSE handle)) (\<lambda>digest.
          repo_read (find_oauth_authorization_request ctx digest v))) (ring_versions (as_keys svc)))"

definition find_authorization_code ::
  "auth_service \<Rightarrow> vault_context \<Rightarrow> string \<Rightarrow> oauth_code_record option auth" where
  "find_authorization_code svc ctx code =
     (if \<not> prefix CODE_LABEL code then return_x None
      else find_versions (\<lambda>v.
        bind_x (lift_x (keyed_digest_for (as_env svc) (as_keys svc) v CODE_DIGEST_PURPOSE code)) (\<lambda>digest.
          repo_read (find_oauth_authorization_code ctx digest v))) (ring_versions (as_keys svc)))"

definition find_access_token ::
  "auth_service \<Rightarrow> vault_context \<Rightarrow> string \<Rightarrow> oauth_access_record option auth" where
  "find_access_token svc ctx token =
     (if \<not> prefix ACCESS_LABEL token then return_x None
      else find_versions (\<lambda>v.
        bind_x (lift_x (keyed_digest_for (as_env svc) (as_keys svc) v ACCESS_DIGEST_PURPOSE token)) (\<lambda>digest.
          repo_read (find_oauth_access_token ctx (take_chars TOKEN_LOOKUP_PREFIX token) digest v)))
        (ring_versions (as_keys svc)))"

definition find_refresh_token ::
  "auth_service \<Rightarrow> vault_context \<Rightarrow> string \<Rightarrow> oauth_refresh_record option auth" where
  "find_refresh_token svc ctx token =
     (if \<not> prefix REFRESH_LABEL token then return_x None
      else find_versions (\<lambda>v.
        bind_x (lift_x (keyed_digest_for (as_env svc) (as_keys svc) v REFRESH_DIGEST_PURPOSE token)) (\<lambda>digest.
          repo_read (find_oauth_refresh_token ctx (take_chars TOKEN_LOOKUP_PREFIX token) digest v)))
        (ring_versions (as_keys svc)))"

section \<open>The Vault's login\<close>

definition configure_local_oauth_user ::
  "auth_service \<Rightarrow> vault_context \<Rightarrow> string \<Rightarrow> string \<Rightarrow> scope_set \<Rightarrow> blob \<Rightarrow> uuid \<Rightarrow> int \<Rightarrow> local_oauth_user auth" where
  "configure_local_oauth_user svc ctx username password scopes salt i now =
     bind_x (ensure_persistent_master_key svc) (\<lambda>_.
     bind_x (lift_x (normalize_username username)) (\<lambda>username.
       if scopes = [] then throw_x ScopeDenied
       else
         bind_x (lift_x (password_hash (as_env svc) (as_minimum_bytes svc) salt password)) (\<lambda>hash.
         bind_x (repo (upsert_local_oauth_user now ctx i username hash (scopes_json scopes))) (\<lambda>u.
           lift_x (local_user_view u)))))"

definition local_oauth_user_of :: "vault_context \<Rightarrow> local_oauth_user option auth" where
  "local_oauth_user_of ctx =
     bind_x (repo_read (get_local_oauth_user ctx)) (\<lambda>u.
       case u of None \<Rightarrow> return_x None | Some u \<Rightarrow> bind_x (lift_x (local_user_view u)) (\<lambda>v. return_x (Some v)))"

definition local_oauth_enabled :: "vault_context \<Rightarrow> bool auth" where
  "local_oauth_enabled ctx =
     bind_x (repo_read (get_local_oauth_user ctx)) (\<lambda>u.
       return_x (case u of None \<Rightarrow> False | Some u \<Rightarrow> lu_enabled u))"

definition disable_local_oauth_user :: "vault_context \<Rightarrow> int \<Rightarrow> bool auth" where
  "disable_local_oauth_user ctx now = repo (disable_local_oauth_user_row now ctx)"

definition register_local_oauth_client ::
  "auth_service \<Rightarrow> client_registration \<Rightarrow> string option \<Rightarrow> int \<Rightarrow> uuid \<Rightarrow> int \<Rightarrow> client_registration_result auth" where
  "register_local_oauth_client svc input source_ip now i state_now =
     bind_x (ensure_persistent_master_key svc) (\<lambda>_.
     let key = ''oauth-dcr'' @ char_of (0 :: nat) # (case source_ip of None \<Rightarrow> ''unknown'' | Some ip \<Rightarrow> ip)
     in bind_x (limit_check key now) (\<lambda>_.
     bind_x (limit_failure key now) (\<lambda>_.
     let name = (case cr_name input of None \<Rightarrow> ''ChatGPT MCP client'' | Some n \<Rightarrow> n)
     in bind_x (lift_x (validate_client_name name)) (\<lambda>_.
     bind_x (lift_x (validate_redirect_uris (as_env svc) (cr_redirect_uris input))) (\<lambda>uris.
     bind_x (lift_x (validate_exact_values (cr_grant_types input) required_grants ''authorization_code'')) (\<lambda>grants.
       if \<not> set required_grants \<subseteq> set grants then throw_x OAuthConfiguration
       else
         bind_x (lift_x (validate_exact_values (cr_response_types input) [''code''] ''code'')) (\<lambda>responses.
           if (case cr_auth_method input of None \<Rightarrow> ''none'' | Some m \<Rightarrow> m) \<noteq> ''none''
           then throw_x OAuthConfiguration
           else
             bind_x (repo (insert_oauth_client state_now i name uris grants responses MAX_ACTIVE_CLIENTS)) (\<lambda>c.
               lift_x (client_registration_view c)))))))))"

section \<open>Authorization\<close>

definition live_client :: "auth_error \<Rightarrow> uuid \<Rightarrow> oauth_client_record auth" where
  "live_client e i =
     bind_x (repo_read (\<lambda>db. Ok (get_oauth_client i db))) (\<lambda>c.
       case c of
         None \<Rightarrow> throw_x e
       | Some c \<Rightarrow> if cl_revoked_at c = None then return_x c else throw_x e)"

definition live_user :: "auth_error \<Rightarrow> (oauth_local_user_record \<Rightarrow> bool) \<Rightarrow> vault_context \<Rightarrow> oauth_local_user_record auth" where
  "live_user e P ctx =
     bind_x (repo_read (get_local_oauth_user ctx)) (\<lambda>u.
       case u of
         None \<Rightarrow> throw_x e
       | Some u \<Rightarrow> if lu_enabled u \<and> P u then return_x u else throw_x e)"

definition begin_local_oauth_authorization ::
  "auth_service \<Rightarrow> vault_context \<Rightarrow> string \<Rightarrow> authorization_input \<Rightarrow> int \<Rightarrow> uuid \<Rightarrow> blob \<Rightarrow> authorization_prompt auth" where
  "begin_local_oauth_authorization svc ctx expected_resource input now i random =
     bind_x (ensure_persistent_master_key svc) (\<lambda>_.
       if ai_response_type input \<noteq> ''code'' \<or> ai_code_challenge_method input \<noteq> ''S256''
          \<or> ai_resource input \<noteq> expected_resource \<or> \<not> valid_pkce_challenge (ai_code_challenge input)
       then throw_x OAuthConfiguration
       else
         bind_x (lift_x (validate_oauth_state (ai_state input))) (\<lambda>_.
         bind_x (lift_x (parse_client_id (as_env svc) (ai_client_id input))) (\<lambda>client_id.
         bind_x (live_client InvalidCredential client_id) (\<lambda>client.
         bind_x (lift_x (ensure_client_capabilities client)) (\<lambda>_.
         bind_x (lift_x (ok_or OAuthConfiguration (cl_redirect_uris client))) (\<lambda>uris.
           if ai_redirect_uri input \<notin> set uris then throw_x OAuthConfiguration
           else
             bind_x (live_user OAuthConfiguration (\<lambda>_. True) ctx) (\<lambda>user.
             bind_x (lift_x (parse_scopes (lu_scopes user))) (\<lambda>allowed.
             bind_x (lift_x (requested_authorization_scopes (ai_scope input) allowed)) (\<lambda>granted.
             let handle = generate_bearer_token (as_env svc) REQUEST_LABEL random;
                 expires = sat_i64 (now + AUTHORIZATION_REQUEST_LIFETIME)
             in bind_x (lift_x (keyed_digest (as_env svc) (as_keys svc) REQUEST_DIGEST_PURPOSE handle)) (\<lambda>digest.
             bind_x (repo (insert_oauth_authorization_request ctx
               \<lparr>ar_id = i, ar_digest = digest, ar_digest_key_version = kr_current (as_keys svc),
                ar_client = client_id, ar_vault = ctx_id ctx, ar_resource = expected_resource,
                ar_redirect_uri = ai_redirect_uri input, ar_scopes = Some (local_oauth_scopes_json granted),
                ar_state = ai_state input, ar_code_challenge = ai_code_challenge input, ar_created_at = now,
                ar_expires_at = expires, ar_consumed_at = None\<rparr>)) (\<lambda>_.
             bind_x (repo (cleanup_local_oauth (sat_i64 (now - OAUTH_RETENTION)))) (\<lambda>_.
               return_x \<lparr>ap_request_handle = handle, ap_client_name = cl_name client,
                 ap_resource = expected_resource, ap_scopes = gs_application granted,
                 ap_offline_access = gs_offline granted, ap_expires_at = expires\<rparr>))))))))))))"

definition invalid_input_as :: "auth_error \<Rightarrow> auth_error \<Rightarrow> auth_error" where
  \<comment> \<open>\<open>Err(StateError::InvalidInput(_)) => return Err(..)\<close>, every other error is passed on\<close>
  "invalid_input_as e err = (case err of AuthState (InvalidInput _) \<Rightarrow> e | _ \<Rightarrow> err)"

definition complete_local_oauth_authorization ::
  "auth_service \<Rightarrow> vault_context \<Rightarrow> string \<Rightarrow> string \<Rightarrow> string \<Rightarrow> string option \<Rightarrow> string \<Rightarrow>
     int \<Rightarrow> int \<Rightarrow> uuid \<Rightarrow> blob \<Rightarrow> authorization_result auth" where
  \<comment> \<open>\<open>now\<close>, and the second reading \<open>later\<close> that a failed attempt is recorded with\<close>
  "complete_local_oauth_authorization svc ctx handle username password source_ip issuer now later i random =
     bind_x (find_authorization_request svc ctx handle) (\<lambda>found.
     bind_x (lift_x (ok_or InvalidCredential found)) (\<lambda>request.
       if ar_expires_at request \<le> now then throw_x Expired
       else
         bind_x (lift_x (normalize_username username)) (\<lambda>normalized.
         let key = ''oauth'' @ char_of (0 :: nat) # (case source_ip of None \<Rightarrow> ''unknown'' | Some ip \<Rightarrow> ip)
                     @ char_of (0 :: nat) # ae_uuid (as_env svc) (ctx_id ctx) @ char_of (0 :: nat) # normalized
         in bind_x (limit_check key now) (\<lambda>_.
         bind_x (repo_read (get_local_oauth_user ctx)) (\<lambda>user.
         let candidate = (case user of None \<Rightarrow> None
               | Some u \<Rightarrow> if lu_enabled u \<and> lu_username u = normalized then Some u else None);
             hash = (case candidate of Some u \<Rightarrow> lu_password_hash u | None \<Rightarrow> as_dummy_hash svc)
         in bind_x (lift_x (password_verify (as_env svc) hash password)) (\<lambda>verified.
         case candidate of
           None \<Rightarrow> bind_x (limit_failure key later) (\<lambda>_. throw_x InvalidCredential)
         | Some u \<Rightarrow>
             if \<not> fst verified then bind_x (limit_failure key later) (\<lambda>_. throw_x InvalidCredential)
             else
               bind_x (limit_success key) (\<lambda>_.
               let code = generate_bearer_token (as_env svc) CODE_LABEL random
               in bind_x (lift_x (keyed_digest (as_env svc) (as_keys svc) CODE_DIGEST_PURPOSE code)) (\<lambda>digest.
               bind_x (mapErr_x (invalid_input_as InvalidCredential)
                 (repo (complete_oauth_authorization_request ctx (ar_id request) (lu_id u)
                   \<lparr>nc_id = i, nc_digest = digest, nc_version = kr_current (as_keys svc), nc_created_at = now,
                    nc_expires_at = sat_i64 (now + AUTHORIZATION_CODE_LIFETIME)\<rparr> now))) (\<lambda>_.
                 return_x \<lparr>az_redirect_uri = ar_redirect_uri request, az_code = code,
                   az_state = ar_state request, az_issuer = issuer\<rparr>)))))))))"

definition local_oauth_authorization_prompt ::
  "auth_service \<Rightarrow> vault_context \<Rightarrow> string \<Rightarrow> int \<Rightarrow> authorization_prompt auth" where
  "local_oauth_authorization_prompt svc ctx handle now =
     bind_x (find_authorization_request svc ctx handle) (\<lambda>found.
     bind_x (lift_x (ok_or InvalidCredential found)) (\<lambda>request.
       if ar_expires_at request \<le> now then throw_x Expired
       else
         bind_x (live_client InvalidCredential (ar_client request)) (\<lambda>client.
         bind_x (lift_x (parse_local_oauth_scopes (ar_scopes request))) (\<lambda>granted.
           return_x \<lparr>ap_request_handle = handle, ap_client_name = cl_name client,
             ap_resource = ar_resource request, ap_scopes = gs_application granted,
             ap_offline_access = gs_offline granted, ap_expires_at = ar_expires_at request\<rparr>))))"

section \<open>Tokens\<close>

definition new_token_issue :: "auth_env \<Rightarrow> granted_scopes \<Rightarrow> blob \<Rightarrow> blob \<Rightarrow> token_issue" where
  "new_token_issue env granted access_random refresh_random =
     \<lparr>ti_access_token = generate_bearer_token env ACCESS_LABEL access_random,
      ti_refresh_token = generate_bearer_token env REFRESH_LABEL refresh_random,
      ti_expires_in = 60 * 60, ti_scopes = gs_application granted, ti_offline_access = gs_offline granted\<rparr>"

definition issued_token ::
  "auth_service \<Rightarrow> uuid \<Rightarrow> uuid \<Rightarrow> string \<Rightarrow> blob \<Rightarrow> int \<Rightarrow> int \<Rightarrow> string list option \<Rightarrow> new_token" where
  \<comment> \<open>the \<open>NewOAuthAccessToken\<close> and \<open>NewOAuthRefreshToken\<close> of an issue\<close>
  "issued_token svc i family token digest now lifetime scopes =
     \<lparr>nt_id = i, nt_family = family, nt_prefix = take_chars TOKEN_LOOKUP_PREFIX token, nt_digest = digest,
      nt_version = kr_current (as_keys svc), nt_created_at = now, nt_expires_at = sat_i64 (now + lifetime),
      nt_scopes = scopes\<rparr>"

definition exchange_local_oauth_code ::
  "auth_service \<Rightarrow> vault_context \<Rightarrow> code_exchange \<Rightarrow> int \<Rightarrow> uuid \<Rightarrow> uuid \<Rightarrow> uuid \<Rightarrow> blob \<Rightarrow> blob \<Rightarrow> token_issue auth" where
  "exchange_local_oauth_code svc ctx input now family access_id refresh_id access_random refresh_random =
     bind_x (ensure_persistent_master_key svc) (\<lambda>_.
       if \<not> valid_pkce_verifier (ce_code_verifier input) then throw_x OAuthTokenInvalid
       else
         bind_x (lift_x (parse_client_id (as_env svc) (ce_client_id input))) (\<lambda>client_id.
         bind_x (find_authorization_code svc ctx (ce_code input)) (\<lambda>found.
         bind_x (lift_x (ok_or OAuthTokenInvalid found)) (\<lambda>code.
           if co_consumed_at code \<noteq> None \<or> co_expires_at code \<le> now \<or> co_client code \<noteq> client_id
              \<or> co_redirect_uri code \<noteq> ce_redirect_uri input \<or> co_resource code \<noteq> ce_resource input
              \<or> \<not> pkce_matches (as_env svc) (ce_code_verifier input) (co_code_challenge code)
           then throw_x OAuthTokenInvalid
           else
             bind_x (live_client OAuthTokenInvalid client_id) (\<lambda>client.
             bind_x (lift_x (map_err (\<lambda>_. OAuthTokenInvalid) (ensure_client_capabilities client))) (\<lambda>_.
             bind_x (live_user OAuthTokenInvalid (\<lambda>u. lu_id u = co_user code) ctx) (\<lambda>user.
             bind_x (lift_x (parse_local_oauth_scopes (co_scopes code))) (\<lambda>granted.
             bind_x (lift_x (parse_scopes (lu_scopes user))) (\<lambda>allowed.
             bind_x (lift_x (ensure_scopes_allowed (gs_application granted) allowed)) (\<lambda>_.
             let issue = new_token_issue (as_env svc) granted access_random refresh_random
             in bind_x (lift_x (keyed_digest (as_env svc) (as_keys svc) ACCESS_DIGEST_PURPOSE (ti_access_token issue)))
                  (\<lambda>access_digest.
             bind_x (lift_x (keyed_digest (as_env svc) (as_keys svc) REFRESH_DIGEST_PURPOSE (ti_refresh_token issue)))
                  (\<lambda>refresh_digest.
             bind_x (mapErr_x (invalid_input_as OAuthTokenInvalid)
               (repo (consume_oauth_code_and_insert_tokens ctx (co_id code)
                 (issued_token svc access_id family (ti_access_token issue) access_digest now ACCESS_TOKEN_LIFETIME None)
                 (issued_token svc refresh_id family (ti_refresh_token issue) refresh_digest now REFRESH_TOKEN_LIFETIME None)
                 now))) (\<lambda>_.
               return_x issue)))))))))))))"

definition refresh_replay_is_outside_grace :: "int \<Rightarrow> int \<Rightarrow> bool" where
  "refresh_replay_is_outside_grace rotated_at now \<longleftrightarrow> sat_i64 (now - rotated_at) > REFRESH_TOKEN_REUSE_GRACE"

definition revoke_refresh_family_if_replay_is_late :: "vault_context \<Rightarrow> uuid \<Rightarrow> int \<Rightarrow> int \<Rightarrow> unit auth" where
  "revoke_refresh_family_if_replay_is_late ctx family rotated_at now =
     when_x (refresh_replay_is_outside_grace rotated_at now) (repo (revoke_oauth_token_family ctx family now))"

definition rotation_refused ::
  "auth_service \<Rightarrow> vault_context \<Rightarrow> string \<Rightarrow> uuid \<Rightarrow> int \<Rightarrow> auth_error \<Rightarrow> 'a auth" where
  \<comment> \<open>the \<open>Err\<close> arms after \<open>rotate_oauth_refresh_token\<close>\<close>
  "rotation_refused svc ctx token family now e =
     (case e of
        AuthState (InvalidInput _) \<Rightarrow>
          bind_x (find_refresh_token svc ctx token) (\<lambda>latest.
          bind_x (case latest of
              Some l \<Rightarrow>
                (if rt_family l = family
                 then (case rt_rotated_at l of
                         Some rotated_at \<Rightarrow> revoke_refresh_family_if_replay_is_late ctx (rt_family l) rotated_at now
                       | None \<Rightarrow> return_x ())
                 else return_x ())
            | None \<Rightarrow> return_x ()) (\<lambda>_.
            throw_x OAuthTokenInvalid))
      | _ \<Rightarrow> throw_x e)"

definition refresh_local_oauth_token_at ::
  "auth_service \<Rightarrow> vault_context \<Rightarrow> refresh_exchange \<Rightarrow> int \<Rightarrow> uuid \<Rightarrow> uuid \<Rightarrow> blob \<Rightarrow> blob \<Rightarrow> token_issue auth" where
  "refresh_local_oauth_token_at svc ctx input now access_id refresh_id access_random refresh_random =
     bind_x (ensure_persistent_master_key svc) (\<lambda>_.
     bind_x (lift_x (parse_client_id (as_env svc) (re_client_id input))) (\<lambda>client_id.
     bind_x (find_refresh_token svc ctx (re_refresh_token input)) (\<lambda>found.
     bind_x (lift_x (ok_or OAuthTokenInvalid found)) (\<lambda>record.
       if rt_revoked_at record \<noteq> None \<or> rt_client record \<noteq> client_id \<or> rt_resource record \<noteq> re_resource input
       then throw_x OAuthTokenInvalid
       else case rt_rotated_at record of
         Some rotated_at \<Rightarrow>
           bind_x (revoke_refresh_family_if_replay_is_late ctx (rt_family record) rotated_at now) (\<lambda>_.
             throw_x OAuthTokenInvalid)
       | None \<Rightarrow>
           if rt_expires_at record \<le> now then throw_x OAuthTokenInvalid
           else
             bind_x (live_client OAuthTokenInvalid client_id) (\<lambda>client.
             bind_x (lift_x (map_err (\<lambda>_. OAuthTokenInvalid) (ensure_client_capabilities client))) (\<lambda>_.
             bind_x (live_user OAuthTokenInvalid (\<lambda>u. lu_id u = rt_user record) ctx) (\<lambda>user.
             bind_x (lift_x (parse_local_oauth_scopes (rt_scopes record))) (\<lambda>original.
             bind_x (lift_x (requested_refresh_scopes (re_scope input) original)) (\<lambda>granted.
             bind_x (lift_x (parse_scopes (lu_scopes user))) (\<lambda>allowed.
             bind_x (lift_x (ensure_scopes_allowed (gs_application granted) allowed)) (\<lambda>_.
             let issue = new_token_issue (as_env svc) granted access_random refresh_random;
                 narrowed = Some (local_oauth_scopes_json granted)
             in bind_x (lift_x (keyed_digest (as_env svc) (as_keys svc) ACCESS_DIGEST_PURPOSE (ti_access_token issue)))
                  (\<lambda>access_digest.
             bind_x (lift_x (keyed_digest (as_env svc) (as_keys svc) REFRESH_DIGEST_PURPOSE (ti_refresh_token issue)))
                  (\<lambda>refresh_digest.
             try_x (repo (rotate_oauth_refresh_token ctx (rt_id record)
                 (issued_token svc access_id (rt_family record) (ti_access_token issue) access_digest now
                    ACCESS_TOKEN_LIFETIME narrowed)
                 (issued_token svc refresh_id (rt_family record) (ti_refresh_token issue) refresh_digest now
                    REFRESH_TOKEN_LIFETIME narrowed)
                 now)) (\<lambda>r.
               case r of
                 Ok _ \<Rightarrow> return_x issue
               | Err e \<Rightarrow> rotation_refused svc ctx (re_refresh_token input) (rt_family record) now e))))))))))))))"

definition authenticate_local_oauth ::
  "auth_service \<Rightarrow> vault_context \<Rightarrow> string \<Rightarrow> string \<Rightarrow> scope list \<Rightarrow> int \<Rightarrow> auth_principal auth" where
  "authenticate_local_oauth svc ctx token expected_resource required current =
     bind_x (find_access_token svc ctx token) (\<lambda>found.
     bind_x (lift_x (ok_or InvalidCredential found)) (\<lambda>record.
       if ax_revoked_at record \<noteq> None \<or> ax_expires_at record \<le> current \<or> ax_vault record \<noteq> ctx_id ctx
          \<or> ax_resource record \<noteq> expected_resource
       then throw_x InvalidCredential
       else
         bind_x (live_user InvalidCredential (\<lambda>u. lu_id u = ax_user record) ctx) (\<lambda>user.
         bind_x (lift_x (map_err (\<lambda>_. InvalidCredential) (parse_local_oauth_scopes (ax_scopes record)))) (\<lambda>granted.
         bind_x (lift_x (map_err (\<lambda>_. InvalidCredential) (parse_scopes (lu_scopes user)))) (\<lambda>allowed.
         bind_x (lift_x (ensure_scopes_allowed (gs_application granted) allowed)) (\<lambda>_.
           if \<exists>s \<in> set required. \<not> scopeset_contains (gs_application granted) s then throw_x ScopeDenied
           else
             bind_x (repo (touch_oauth_access_token ctx (ax_id record) current)) (\<lambda>_.
             bind_x (lift_x (map_err AuthDomain (actor_id_new (ae_uuid (as_env svc) (lu_id user))))) (\<lambda>actor.
               return_x \<lparr>pr_actor = actor_identified ActorMcpOAuthSubject actor, pr_vault = Some (ctx_id ctx),
                 pr_credential = None, pr_permissions = scopeset_permissions (gs_application granted),
                 pr_scopes = gs_application granted\<rparr>))))))))"

end
