(* ===== verification/OAuth_Security.thy ===== *)
theory OAuth_Security
  imports OAuth_Service
begin

text \<open>
  What the authorization server promises: which token pairs an exchange issues, what a replay costs,
  and that a replaced login locks out every token, while transactions of other requests run between
  the steps of an operation.
\<close>

section \<open>Reading operations that returned\<close>

lemma repo_alone:
  "aw_others w = [] \<Longrightarrow>
     repo f w = (case f (aw_db w) of Err e \<Rightarrow> (Err (AuthState e), w) | Ok (a, db) \<Rightarrow> (Ok a, w\<lparr>aw_db := db\<rparr>))"
  by (simp add: repo_def interfere_def)

lemma repo_Ok_alone:
  "aw_others w = [] \<Longrightarrow> repo f w = (Ok a, w') \<longleftrightarrow> (\<exists>db. f (aw_db w) = Ok (a, db) \<and> w' = w\<lparr>aw_db := db\<rparr>)"
  by (auto simp: repo_alone split: sum.splits)

lemma repo_read_Ok_alone:
  "aw_others w = [] \<Longrightarrow> repo_read f w = (Ok a, w') \<longleftrightarrow> f (aw_db w) = Ok a \<and> w' = w"
  by (auto simp: repo_read_def repo_Ok_alone bind_r_Ok_conv)

lemma lift_x_Ok [simp]: "lift_x r s = (Ok a, s') \<longleftrightarrow> r = Ok a \<and> s' = s"
  by (auto simp: lift_x_def)

lemma mapErr_x_Ok [simp]: "mapErr_x h m s = (Ok a, s') \<longleftrightarrow> m s = (Ok a, s')"
  by (auto simp: mapErr_x_def prod_eq_iff)

lemma when_throw_Ok: "when_x b (throw_x e) s = (Ok a, s') \<longleftrightarrow> \<not> b \<and> s' = s"
  by (cases b) auto

lemma find_versions_Ok:
  assumes "find_versions f vs w = (Ok (Some r), w')"
    and alone: "\<And>v x w1. f v w = (Ok x, w1) \<Longrightarrow> w1 = w"
  shows "w' = w \<and> (\<exists>v \<in> set vs. f v w = (Ok (Some r), w))"
  using assms(1)
proof (induction vs)
  case (Cons v vs)
  then obtain x w1 where x: "f v w = (Ok x, w1)"
    "(case x of Some x \<Rightarrow> return_x (Some x) | None \<Rightarrow> find_versions f vs) w1 = (Ok (Some r), w')"
    by (auto simp: bind_x_Ok_conv)
  with alone [OF x(1)] Cons.IH show ?case by (cases x) auto
qed simp

lemmas alone_simps = bind_x_Ok_conv repo_Ok_alone repo_read_Ok_alone when_throw_Ok bind_r_Ok_conv

text \<open>The digests a presented token may be stored under: one for each retained key.\<close>

definition token_digests :: "auth_service \<Rightarrow> string \<Rightarrow> string \<Rightarrow> (nat \<times> blob) set" where
  "token_digests svc purpose token =
     {(v, d). v \<in> set (ring_versions (as_keys svc)) \<and> keyed_digest_for (as_env svc) (as_keys svc) v purpose token = Ok d}"

lemma find_refresh_token_alone:
  assumes "aw_others w = []" "find_refresh_token svc ctx token w = (Ok (Some r), w')"
  shows "w' = w \<and> r \<in> set (ad_refresh (aw_db w)) \<and> rt_vault r = ctx_id ctx \<and>
    (rt_digest_key_version r, rt_token_digest r) \<in> token_digests svc REFRESH_DIGEST_PURPOSE token"
  using assms
  by (auto simp: find_refresh_token_def token_digests_def alone_simps find_oauth_refresh_token_def
      split: if_split_asm dest!: find_versions_Ok find_row_Some)

lemma find_authorization_code_alone:
  assumes "aw_others w = []" "find_authorization_code svc ctx token w = (Ok (Some r), w')"
  shows "w' = w \<and> r \<in> set (ad_codes (aw_db w)) \<and> co_vault r = ctx_id ctx \<and>
    (co_digest_key_version r, co_digest r) \<in> token_digests svc CODE_DIGEST_PURPOSE token"
  using assms
  by (auto simp: find_authorization_code_def token_digests_def alone_simps find_oauth_authorization_code_def
      split: if_split_asm dest!: find_versions_Ok find_row_Some)

lemma find_access_token_alone:
  assumes "aw_others w = []" "find_access_token svc ctx token w = (Ok (Some r), w')"
  shows "w' = w \<and> r \<in> set (ad_access (aw_db w)) \<and> ax_vault r = ctx_id ctx \<and>
    (ax_digest_key_version r, ax_token_digest r) \<in> token_digests svc ACCESS_DIGEST_PURPOSE token"
  using assms
  by (auto simp: find_access_token_def token_digests_def alone_simps find_oauth_access_token_def
      split: if_split_asm dest!: find_versions_Ok find_row_Some)

lemma ensure_persistent_alone:
  assumes "aw_others w = []" "ensure_persistent_master_key svc w = (Ok u, w')"
  shows "aw_others w' = [] \<and> aw_limiter w' = aw_limiter w \<and>
    (\<exists>checks. aw_db w' = (aw_db w)\<lparr>ad_key_checks := checks\<rparr>)"
  using assms
  by (auto simp: ensure_persistent_master_key_def alone_simps insert_installation_key_check_if_absent_def
      split: if_split_asm) (metis auth_db.surjective auth_db.update_convs(2))

section \<open>Scopes only narrow\<close>

lemma local_scope_items_mem:
  assumes "local_scope_items e vs acc = Ok g"
  shows "(\<forall>s \<in> set (gs_application g). s \<in> set (gs_application acc) \<or> scope_display s \<in> set vs) \<and>
    (gs_offline g \<longrightarrow> gs_offline acc \<or> OFFLINE_ACCESS \<in> set vs)"
  using assms
proof (induction vs arbitrary: acc)
  case (Cons v vs)
  show ?case
  proof (cases "v = OFFLINE_ACCESS")
    case True
    with Cons show ?thesis by fastforce
  next
    case False
    with Cons.prems obtain s where s: "scope_from_str v = Ok s"
      "local_scope_items e vs (acc\<lparr>gs_application := snd (scopeset_insert (gs_application acc) s)\<rparr>) = Ok g"
      by (auto split: sum.splits)
    have "scope_display s = v" using s(1) by (rule scope_label.as_str_parse)
    with Cons.IH [OF s(2)] show ?thesis by (auto simp: scopeset_insert_set)
  qed
qed simp

lemma parse_local_scopes_mem:
  assumes "parse_local_oauth_scopes json = Ok g"
  shows "\<exists>vs. json = Some vs \<and> set (local_oauth_scopes_json g) \<subseteq> set vs"
  using assms local_scope_items_mem [of OAuthConfiguration _ "\<lparr>gs_application = [], gs_offline = False\<rparr>"]
  by (fastforce simp: parse_local_oauth_scopes_def bind_r_Ok_conv nonempty_scopes_def local_oauth_scopes_json_def
      split: if_split_asm)

lemma ensure_scopes_allowed_Ok [simp]: "ensure_scopes_allowed a b = Ok u \<longleftrightarrow> set a \<subseteq> set b"
  by (auto simp: ensure_scopes_allowed_def scopeset_contains_def)

lemma refresh_scopes_narrow:
  assumes "requested_refresh_scopes value original = Ok g"
  shows "set (local_oauth_scopes_json g) \<subseteq> set (local_oauth_scopes_json original)"
  using assms
  by (auto simp: requested_refresh_scopes_def bind_r_Ok_conv local_oauth_scopes_json_def split: option.splits if_split_asm)

section \<open>Which tokens an exchange issues\<close>

definition access_source :: "oauth_access_record \<Rightarrow> token_source" where
  "access_source a = \<lparr>ts_client = ax_client a, ts_user = ax_user a, ts_vault = ax_vault a,
     ts_resource = ax_resource a, ts_scopes = ax_scopes a\<rparr>"

definition narrows :: "token_source \<Rightarrow> token_source \<Rightarrow> bool" where
  "narrows s t \<longleftrightarrow> ts_client s = ts_client t \<and> ts_user s = ts_user t \<and> ts_vault s = ts_vault t \<and>
     ts_resource s = ts_resource t \<and>
     (\<exists>vs ws. ts_scopes s = Some vs \<and> ts_scopes t = Some ws \<and> set vs \<subseteq> set ws)"

definition pair_issued :: "auth_service \<Rightarrow> token_issue \<Rightarrow> token_source \<Rightarrow> uuid \<Rightarrow> auth_db \<Rightarrow> bool" where
  "pair_issued svc issue grant family db \<longleftrightarrow>
     (\<exists>a \<in> set (ad_access db). \<exists>r \<in> set (ad_refresh db).
        narrows (access_source a) grant \<and> narrows (refresh_source r) grant \<and>
        ax_family a = family \<and> rt_family r = family \<and>
        keyed_digest (as_env svc) (as_keys svc) ACCESS_DIGEST_PURPOSE (ti_access_token issue) = Ok (ax_token_digest a) \<and>
        keyed_digest (as_env svc) (as_keys svc) REFRESH_DIGEST_PURPOSE (ti_refresh_token issue) = Ok (rt_token_digest r))"

definition pair_copied :: "auth_service \<Rightarrow> token_issue \<Rightarrow> token_source \<Rightarrow> uuid \<Rightarrow> auth_db \<Rightarrow> bool" where
  \<comment> \<open>both tokens carry the grant as it is, scopes included\<close>
  "pair_copied svc issue grant family db \<longleftrightarrow>
     (\<exists>a \<in> set (ad_access db). \<exists>r \<in> set (ad_refresh db).
        access_source a = grant \<and>
        \<lparr>ts_client = rt_client r, ts_user = rt_user r, ts_vault = rt_vault r, ts_resource = rt_resource r,
          ts_scopes = rt_scopes r\<rparr> = grant \<and>
        ax_family a = family \<and> rt_family r = family \<and>
        keyed_digest (as_env svc) (as_keys svc) ACCESS_DIGEST_PURPOSE (ti_access_token issue) = Ok (ax_token_digest a) \<and>
        keyed_digest (as_env svc) (as_keys svc) REFRESH_DIGEST_PURPOSE (ti_refresh_token issue) = Ok (rt_token_digest r))"

definition login_allows :: "vault_id \<Rightarrow> uuid \<Rightarrow> scope_set \<Rightarrow> auth_db \<Rightarrow> bool" where
  "login_allows v user scopes db \<longleftrightarrow>
     (\<exists>u \<in> set (ad_local_users db). lu_vault u = v \<and> lu_enabled u \<and> lu_id u = user \<and>
        (\<exists>allowed. parse_scopes (lu_scopes u) = Ok allowed \<and> set scopes \<subseteq> set allowed))"

lemma live_user_alone:
  assumes "aw_others w = []" "live_user e P ctx w = (Ok u, w')"
  shows "w' = w \<and> u \<in> set (ad_local_users (aw_db w)) \<and> lu_vault u = ctx_id ctx \<and> lu_enabled u \<and> P u"
  using assms
  by (auto simp: live_user_def alone_simps get_local_oauth_user_def get_local_oauth_row_def
      split: option.split_asm if_split_asm dest!: find_row_Some)

lemma live_client_alone:
  assumes "aw_others w = []" "live_client e i w = (Ok c, w')"
  shows "w' = w \<and> c \<in> set (ad_clients (aw_db w)) \<and> cl_id c = i \<and> cl_revoked_at c = None"
  using assms
  by (auto simp: live_client_def alone_simps get_oauth_client_def
      split: option.split_asm if_split_asm dest!: find_row_Some)

lemma rotation_refused_fails: "rotation_refused svc ctx token family now e w \<noteq> (Ok x, w')"
  by (auto simp: rotation_refused_def bind_x_Ok_conv split: auth_error.splits state_error.splits)

lemma refresh_run:
  assumes "aw_others w = []"
    and "refresh_local_oauth_token_at svc ctx input now aid rid arand rrand w = (Ok issue, w')"
  obtains w1 old user granted original allowed ad rd where
    "ensure_persistent_master_key svc w = (Ok (), w1)"
    "find_refresh_token svc ctx (re_refresh_token input) w1 = (Ok (Some old), w1)"
    "parse_client_id (as_env svc) (re_client_id input) = Ok (rt_client old)"
    "rt_revoked_at old = None" "rt_resource old = re_resource input" "rt_rotated_at old = None" "rt_expires_at old > now"
    "live_user OAuthTokenInvalid (\<lambda>u. lu_id u = rt_user old) ctx w1 = (Ok user, w1)"
    "parse_local_oauth_scopes (rt_scopes old) = Ok original"
    "requested_refresh_scopes (re_scope input) original = Ok granted"
    "parse_scopes (lu_scopes user) = Ok allowed" "set (gs_application granted) \<subseteq> set allowed"
    "issue = new_token_issue (as_env svc) granted arand rrand"
    "keyed_digest (as_env svc) (as_keys svc) ACCESS_DIGEST_PURPOSE (ti_access_token issue) = Ok ad"
    "keyed_digest (as_env svc) (as_keys svc) REFRESH_DIGEST_PURPOSE (ti_refresh_token issue) = Ok rd"
    "rotate_oauth_refresh_token ctx (rt_id old)
       (issued_token svc aid (rt_family old) (ti_access_token issue) ad now ACCESS_TOKEN_LIFETIME
          (Some (local_oauth_scopes_json granted)))
       (issued_token svc rid (rt_family old) (ti_refresh_token issue) rd now REFRESH_TOKEN_LIFETIME
          (Some (local_oauth_scopes_json granted))) now (aw_db w1) = Ok ((), aw_db w')"
proof -
  from assms(2) obtain u w1 where w1: "ensure_persistent_master_key svc w = (Ok u, w1)"
    by (auto simp: refresh_local_oauth_token_at_def bind_x_Ok_conv)
  have alone: "aw_others w1 = []" using ensure_persistent_alone [OF assms(1) w1] by simp
  show thesis
    using assms(2) w1 unfolding refresh_local_oauth_token_at_def Let_def try_x_def
    apply (clarsimp simp: bind_x_Ok_conv split: if_split_asm option.split_asm)
    apply (frule find_refresh_token_alone [OF alone])
    apply (clarsimp simp: bind_x_Ok_conv)
    apply (frule live_client_alone [OF alone])
    apply (clarsimp simp: bind_x_Ok_conv)
    apply (frule live_user_alone [OF alone])
    by (clarsimp simp: repo_alone [OF alone] rotation_refused_fails split: sum.split_asm) (rule that; simp)
qed

lemma key_unique: "distinct (map k rows) \<Longrightarrow> a \<in> set rows \<Longrightarrow> b \<in> set rows \<Longrightarrow> k a = k b \<Longrightarrow> a = b"
  by (auto simp: distinct_map dest: inj_onD)

lemma issued_rows_narrow:
  assumes "coalesce_scopes t (ts_scopes src) = Some vs" "ts_scopes src = Some ws" "set vs \<subseteq> set ws"
  shows "narrows (access_source (access_row t src)) src" "narrows (refresh_source (refresh_row t src)) src"
  using assms by (simp_all add: narrows_def access_source_def access_row_def refresh_source_def refresh_row_def)

lemma pair_issuedI:
  assumes "access_row a src \<in> set (ad_access db)" "refresh_row f src \<in> set (ad_refresh db)"
    and "coalesce_scopes a (ts_scopes src) = Some vs" "coalesce_scopes f (ts_scopes src) = Some vs"
    and "ts_scopes src = Some ws" "set vs \<subseteq> set ws" "nt_family a = family" "nt_family f = family"
    and "keyed_digest (as_env svc) (as_keys svc) ACCESS_DIGEST_PURPOSE (ti_access_token issue) = Ok (nt_digest a)"
    and "keyed_digest (as_env svc) (as_keys svc) REFRESH_DIGEST_PURPOSE (ti_refresh_token issue) = Ok (nt_digest f)"
  shows "pair_issued svc issue src family db"
  unfolding pair_issued_def
  using assms issued_rows_narrow(1) [OF assms(3,5,6)] issued_rows_narrow(2) [OF assms(4,5,6)]
  by (intro bexI [OF _ assms(1)] bexI [OF _ assms(2)]) (simp add: access_row_def refresh_row_def)

lemma pair_copiedI:
  assumes "access_row a src \<in> set (ad_access db)" "refresh_row f src \<in> set (ad_refresh db)"
    and "coalesce_scopes a (ts_scopes src) = ts_scopes src" "coalesce_scopes f (ts_scopes src) = ts_scopes src"
    and "nt_family a = family" "nt_family f = family"
    and "keyed_digest (as_env svc) (as_keys svc) ACCESS_DIGEST_PURPOSE (ti_access_token issue) = Ok (nt_digest a)"
    and "keyed_digest (as_env svc) (as_keys svc) REFRESH_DIGEST_PURPOSE (ti_refresh_token issue) = Ok (nt_digest f)"
  shows "pair_copied svc issue src family db"
  unfolding pair_copied_def
  using assms(3-)
  by (intro bexI [OF _ assms(1)] bexI [OF _ assms(2)])
    (simp add: access_row_def refresh_row_def access_source_def)

text \<open>
  C13: a refresh issues a narrower copy of the grant it redeems. If the operation returns, the
  presented token is the one the Vault stored for this client and resource, unrotated, unrevoked and
  unexpired, and its login is enabled and still allows the scopes; the new access and refresh token
  belong to the same client, user, Vault, resource and family, their scopes are among the old
  token's, and the old token is spent.
\<close>

theorem refresh_token_lineage:
  assumes alone: "aw_others w = []" and keys: "oauth_keys (aw_db w)"
    and run: "refresh_local_oauth_token_at svc ctx input now aid rid arand rrand w = (Ok issue, w')"
  shows "\<exists>old \<in> set (ad_refresh (aw_db w)).
      (rt_digest_key_version old, rt_token_digest old)
        \<in> token_digests svc REFRESH_DIGEST_PURPOSE (re_refresh_token input) \<and>
      parse_client_id (as_env svc) (re_client_id input) = Ok (rt_client old) \<and>
      rt_vault old = ctx_id ctx \<and> rt_resource old = re_resource input \<and>
      rt_rotated_at old = None \<and> rt_revoked_at old = None \<and> rt_expires_at old > now \<and>
      login_allows (ctx_id ctx) (rt_user old) (ti_scopes issue) (aw_db w) \<and>
      pair_issued svc issue (refresh_source old) (rt_family old) (aw_db w') \<and>
      spent_refresh (rt_id old) (aw_db w')"
  using alone run
proof (cases rule: refresh_run)
  case (1 w1 old user granted original allowed ad rd)
  obtain checks where w1: "aw_others w1 = []" "aw_db w1 = (aw_db w)\<lparr>ad_key_checks := checks\<rparr>"
    using ensure_persistent_alone [OF alone 1(1)] by auto
  note found = find_refresh_token_alone [OF w1(1) 1(2)] and login = live_user_alone [OF w1(1) 1(8)]
  have dist: "distinct (map rt_id (ad_refresh (aw_db w1)))" using keys w1(2) by (simp add: oauth_keys_def)
  obtain ws where ws: "rt_scopes old = Some ws" "set (local_oauth_scopes_json granted) \<subseteq> set ws"
    using parse_local_scopes_mem [OF 1(9)] refresh_scopes_narrow [OF 1(10)] by auto
  show ?thesis
  proof (rule rotate_tx [OF 1(16) dist])
    fix c
    assume c: "c \<in> set (ad_refresh (aw_db w1))" "rt_id c = rt_id old"
      and rows: "access_row (issued_token svc aid (rt_family old) (ti_access_token issue) ad now ACCESS_TOKEN_LIFETIME
          (Some (local_oauth_scopes_json granted))) (refresh_source c) \<in> set (ad_access (aw_db w'))"
        "refresh_row (issued_token svc rid (rt_family old) (ti_refresh_token issue) rd now REFRESH_TOKEN_LIFETIME
          (Some (local_oauth_scopes_json granted))) (refresh_source c) \<in> set (ad_refresh (aw_db w'))"
      and spent: "\<forall>d \<in> set (ad_refresh (aw_db w')). rt_id d = rt_id old \<longrightarrow> rt_rotated_at d \<noteq> None"
    have old: "c = old" using key_unique [OF dist c(1) _ c(2)] found by simp
    have "pair_issued svc issue (refresh_source old) (rt_family old) (aw_db w')"
      by (rule pair_issuedI [OF rows [unfolded old], of "local_oauth_scopes_json granted" ws])
        (use 1(14,15) ws in \<open>simp_all add: issued_token_def coalesce_scopes_def refresh_source_def\<close>)
    moreover have "login_allows (ctx_id ctx) (rt_user old) (ti_scopes issue) (aw_db w)"
      unfolding login_allows_def using login 1 w1(2) by (intro bexI [of _ user]) (auto simp: new_token_issue_def)
    ultimately show ?thesis
      using found 1 spent w1(2) by (intro bexI [of _ old]) (auto simp: spent_refresh_def)
  qed
qed

lemma exchange_run:
  assumes "aw_others w = []"
    and "exchange_local_oauth_code svc ctx input now fam aid rid arand rrand w = (Ok issue, w')"
  obtains w1 code user granted allowed ad rd where
    "ensure_persistent_master_key svc w = (Ok (), w1)"
    "find_authorization_code svc ctx (ce_code input) w1 = (Ok (Some code), w1)"
    "parse_client_id (as_env svc) (ce_client_id input) = Ok (co_client code)"
    "co_consumed_at code = None" "co_resource code = ce_resource input" "co_expires_at code > now"
    "co_redirect_uri code = ce_redirect_uri input"
    "pkce_matches (as_env svc) (ce_code_verifier input) (co_code_challenge code)"
    "live_user OAuthTokenInvalid (\<lambda>u. lu_id u = co_user code) ctx w1 = (Ok user, w1)"
    "parse_local_oauth_scopes (co_scopes code) = Ok granted"
    "parse_scopes (lu_scopes user) = Ok allowed" "set (gs_application granted) \<subseteq> set allowed"
    "issue = new_token_issue (as_env svc) granted arand rrand"
    "keyed_digest (as_env svc) (as_keys svc) ACCESS_DIGEST_PURPOSE (ti_access_token issue) = Ok ad"
    "keyed_digest (as_env svc) (as_keys svc) REFRESH_DIGEST_PURPOSE (ti_refresh_token issue) = Ok rd"
    "consume_oauth_code_and_insert_tokens ctx (co_id code)
       (issued_token svc aid fam (ti_access_token issue) ad now ACCESS_TOKEN_LIFETIME None)
       (issued_token svc rid fam (ti_refresh_token issue) rd now REFRESH_TOKEN_LIFETIME None) now (aw_db w1)
     = Ok ((), aw_db w')"
proof -
  from assms(2) obtain u w1 where w1: "ensure_persistent_master_key svc w = (Ok u, w1)"
    by (auto simp: exchange_local_oauth_code_def bind_x_Ok_conv)
  have alone: "aw_others w1 = []" using ensure_persistent_alone [OF assms(1) w1] by simp
  show thesis
    using assms(2) w1 unfolding exchange_local_oauth_code_def Let_def
    apply (clarsimp simp: bind_x_Ok_conv split: if_split_asm option.split_asm)
    apply (frule find_authorization_code_alone [OF alone])
    apply (clarsimp simp: bind_x_Ok_conv)
    apply (frule live_client_alone [OF alone])
    apply (clarsimp simp: bind_x_Ok_conv)
    apply (frule live_user_alone [OF alone])
    by (clarsimp simp: repo_alone [OF alone] split: sum.split_asm) (rule that; simp)
qed

text \<open>
  C14: a code exchange is bound to what the user consented to. If the operation returns, the presented
  code is one the Vault issued to this client for this redirect URI and resource, unspent and
  unexpired, the verifier hashes to the challenge of the request, and the login is enabled and allows
  the scopes; both issued tokens have exactly the code's client, user, Vault, resource and scopes and
  the new family, the scopes reported to the client are the application scopes of the code, and the
  code is spent.
\<close>

theorem exchange_code_bound:
  assumes alone: "aw_others w = []" and keys: "oauth_keys (aw_db w)"
    and run: "exchange_local_oauth_code svc ctx input now fam aid rid arand rrand w = (Ok issue, w')"
  shows "\<exists>code \<in> set (ad_codes (aw_db w)).
      (co_digest_key_version code, co_digest code) \<in> token_digests svc CODE_DIGEST_PURPOSE (ce_code input) \<and>
      parse_client_id (as_env svc) (ce_client_id input) = Ok (co_client code) \<and>
      co_vault code = ctx_id ctx \<and> co_redirect_uri code = ce_redirect_uri input \<and>
      co_resource code = ce_resource input \<and> co_consumed_at code = None \<and> co_expires_at code > now \<and>
      co_code_challenge code = ae_base64 (as_env svc) (ae_sha256 (as_env svc) (ce_code_verifier input)) \<and>
      login_allows (ctx_id ctx) (co_user code) (ti_scopes issue) (aw_db w) \<and>
      pair_copied svc issue \<lparr>ts_client = co_client code, ts_user = co_user code, ts_vault = co_vault code,
        ts_resource = co_resource code, ts_scopes = co_scopes code\<rparr> fam (aw_db w') \<and>
      (\<exists>granted. parse_local_oauth_scopes (co_scopes code) = Ok granted \<and> ti_scopes issue = gs_application granted) \<and>
      spent_code (co_id code) (aw_db w')"
  using alone run
proof (cases rule: exchange_run)
  case (1 w1 code user granted allowed ad rd)
  obtain checks where w1: "aw_others w1 = []" "aw_db w1 = (aw_db w)\<lparr>ad_key_checks := checks\<rparr>"
    using ensure_persistent_alone [OF alone 1(1)] by auto
  note found = find_authorization_code_alone [OF w1(1) 1(2)] and login = live_user_alone [OF w1(1) 1(9)]
  have dist: "distinct (map co_id (ad_codes (aw_db w1)))" using keys w1(2) by (simp add: oauth_keys_def)
  show ?thesis
  proof (rule consume_tx [OF 1(16) dist])
    fix c
    assume c: "c \<in> set (ad_codes (aw_db w1))" "co_id c = co_id code"
      and rows: "access_row (issued_token svc aid fam (ti_access_token issue) ad now ACCESS_TOKEN_LIFETIME None)
          (code_source c) \<in> set (ad_access (aw_db w'))"
        "refresh_row (issued_token svc rid fam (ti_refresh_token issue) rd now REFRESH_TOKEN_LIFETIME None)
          (code_source c) \<in> set (ad_refresh (aw_db w'))"
      and spent: "\<forall>d \<in> set (ad_codes (aw_db w')). co_id d = co_id code \<longrightarrow> co_consumed_at d \<noteq> None"
    have code: "c = code" using key_unique [OF dist c(1) _ c(2)] found by simp
    have "pair_copied svc issue \<lparr>ts_client = co_client code, ts_user = co_user code, ts_vault = co_vault code,
        ts_resource = co_resource code, ts_scopes = co_scopes code\<rparr> fam (aw_db w')"
      by (rule pair_copiedI [OF rows [unfolded code code_source_def]])
        (use 1(14,15) in \<open>simp_all add: issued_token_def coalesce_scopes_def\<close>)
    moreover have "ti_scopes issue = gs_application granted" by (simp add: 1(13) new_token_issue_def)
    moreover have "login_allows (ctx_id ctx) (co_user code) (ti_scopes issue) (aw_db w)"
      unfolding login_allows_def using login 1 w1(2) by (intro bexI [of _ user]) (auto simp: new_token_issue_def)
    ultimately show ?thesis
      using found 1 spent w1(2) by (intro bexI [of _ code]) (auto simp: spent_code_def pkce_matches_def)
  qed
qed

section \<open>Replays\<close>

lemma find_refresh_token_context:
  assumes "aw_others w = []" "find_refresh_token svc ctx token w = (Ok (Some r), w')"
  shows "ensure_vault_context ctx (aw_db w) = Ok ()"
  using assms
  by (auto simp: find_refresh_token_def alone_simps find_oauth_refresh_token_def
      split: if_split_asm dest!: find_versions_Ok)

text \<open>
  C15: a replayed refresh token is refused, and a late replay costs the family. Presenting a token
  that was already rotated fails; within a minute of the rotation nothing changes, so a client that
  retried keeps the pair it got, and after that every access and refresh token of the family is
  revoked.
\<close>

theorem late_replay_revokes_family:
  assumes alone: "aw_others w = []" and ready: "ensure_persistent_master_key svc w = (Ok (), w)"
    and found: "find_refresh_token svc ctx (re_refresh_token input) w = (Ok (Some old), w)"
    and client: "parse_client_id (as_env svc) (re_client_id input) = Ok (rt_client old)"
    and old: "rt_resource old = re_resource input" "rt_revoked_at old = None" "rt_rotated_at old = Some t"
  shows "\<exists>w'. refresh_local_oauth_token_at svc ctx input now aid rid arand rrand w = (Err OAuthTokenInvalid, w') \<and>
      (if sat_i64 (now - t) > 60000 then family_dead (ctx_id ctx) (rt_family old) (aw_db w') else w' = w)"
proof -
  let ?late = "revoke_refresh_family_if_replay_is_late ctx (rt_family old) t now"
  have run: "refresh_local_oauth_token_at svc ctx input now aid rid arand rrand w
      = bind_x ?late (\<lambda>_. throw_x OAuthTokenInvalid) w"
    unfolding refresh_local_oauth_token_at_def by (simp add: bind_x_def ready client found old)
  have late: "refresh_replay_is_outside_grace t now \<longleftrightarrow> sat_i64 (now - t) > 60000"
    by (simp add: refresh_replay_is_outside_grace_def REFRESH_TOKEN_REUSE_GRACE_def)
  obtain db where db: "revoke_oauth_token_family ctx (rt_family old) now (aw_db w) = Ok ((), db)"
    using find_refresh_token_context [OF alone found] by (simp add: revoke_oauth_token_family_def)
  show ?thesis
    using revoke_family_dead [OF db]
    by (cases "sat_i64 (now - t) > 60000") (simp_all add: run revoke_refresh_family_if_replay_is_late_def late bind_x_def repo_alone [OF alone] db)
qed

section \<open>Lockout\<close>

definition login_keys :: "auth_db \<Rightarrow> (vault_id \<times> uuid) list" where
  "login_keys db = map (\<lambda>r. (lu_vault r, lu_id r)) (ad_local_users db)"

definition login_is :: "vault_id \<Rightarrow> uuid \<Rightarrow> auth_db \<Rightarrow> bool" where
  "login_is v u db \<longleftrightarrow> {i. (v, i) \<in> set (login_keys db)} = {u}"

lemma login_keys_step:
  assumes "oauth_apply tx db = Ok db'"
  shows "login_keys db' = login_keys db \<or> (\<exists>v i. login_keys db' = login_keys db @ [(v, i)] \<and> v \<notin> fst ` set (login_keys db))"
proof (cases tx)
  case (TxUpsertUser now ctx i name hash scopes)
  with assms show ?thesis
    by (auto simp: login_keys_def upsert_local_oauth_user_def get_local_oauth_row_def find_row_None bind_r_Ok_conv
        Let_def revoke_user_state_def map_update_rows split: if_split_asm option.split_asm) blast
next
  case (TxDisableUser now ctx)
  with assms show ?thesis
    by (auto simp: login_keys_def disable_local_oauth_user_row_def bind_r_Ok_conv revoke_user_state_def
        map_update_rows split: option.split_asm)
qed (use assms in \<open>auto simp: login_keys_def insert_oauth_client_def insert_oauth_authorization_request_def
    complete_oauth_authorization_request_def consume_oauth_code_and_insert_tokens_def touch_oauth_access_token_def
    rotate_oauth_refresh_token_def revoke_oauth_token_family_def cleanup_local_oauth_def delete_clients_def
    bind_r_Ok_conv Let_def dest!: insert_access_Ok insert_refresh_Ok split: if_split_asm option.split_asm\<close>)

lemma login_is_step:
  assumes "login_is v u db" "oauth_apply tx db = Ok db'"
  shows "login_is v u db'"
  using login_keys_step [OF assms(2)]
proof
  assume "login_keys db' = login_keys db"
  with assms(1) show ?thesis by (simp add: login_is_def)
next
  assume "\<exists>v i. login_keys db' = login_keys db @ [(v, i)] \<and> v \<notin> fst ` set (login_keys db)"
  then obtain w i where w: "login_keys db' = login_keys db @ [(w, i)]" "w \<notin> fst ` set (login_keys db)" by blast
  have "(v, u) \<in> set (login_keys db)" using assms(1) by (auto simp: login_is_def)
  with w(2) have "w \<noteq> v" by force
  with assms(1) w(1) show ?thesis by (simp add: login_is_def)
qed

lemma login_isD:
  assumes "login_is v u db" "x \<in> set (ad_local_users db)" "lu_vault x = v"
  shows "lu_id x = u"
proof -
  have "lu_id x \<in> {i. (v, i) \<in> set (login_keys db)}" using assms(2,3) by (force simp: login_keys_def)
  with assms(1) show ?thesis by (simp add: login_is_def)
qed

text \<open>
  The state after a login was replaced, kept by every transaction of the other requests until an
  authorization request of the Vault starts.
\<close>

definition locked_out :: "vault_id \<Rightarrow> uuid \<Rightarrow> auth_db \<Rightarrow> bool" where
  "locked_out v u db \<longleftrightarrow> oauth_keys db \<and> user_dead v u db \<and> login_is v u db"

definition no_new_request :: "vault_id \<Rightarrow> auth_world \<Rightarrow> bool" where
  "no_new_request v w \<longleftrightarrow>
     (\<forall>f \<in> set (aw_others w). \<exists>txs. f = oauth_run txs \<and> (\<forall>tx \<in> set txs. requested_vault tx \<noteq> Some v))"

lemma locked_out_run:
  assumes "locked_out v u db" "\<forall>tx \<in> set txs. requested_vault tx \<noteq> Some v"
  shows "locked_out v u (oauth_run txs db)"
proof (rule oauth_run_invariant)
  fix tx d d'
  assume "tx \<in> set txs" "locked_out v u d" "oauth_apply tx d = Ok d'"
  with assms(2) show "locked_out v u d'"
    unfolding locked_out_def using oauth_keys_Ok user_dead_step login_is_step by blast
qed (use assms(1) in \<open>simp_all add: locked_out_def\<close>)

text \<open>
  Interference: a condition on the world that the transactions of the other requests keep, and what
  follows for an operation's own repository calls.
\<close>

locale stable_world =
  fixes J :: "auth_world \<Rightarrow> bool"
  assumes stable: "J w \<Longrightarrow> J (interfere w)"
begin

lemma hoare_repo:
  assumes "\<And>w a db. J w \<Longrightarrow> f (aw_db w) = Ok (a, db) \<Longrightarrow> Q a (w\<lparr>aw_db := db\<rparr>)"
  shows "hoare J (repo f) Q (\<lambda>_. True)"
  using assms stable unfolding hoare_iff by (auto simp: repo_def Let_def split: sum.splits prod.splits)

lemma hoare_repo_read:
  assumes "\<And>w a. J w \<Longrightarrow> f (aw_db w) = Ok a \<Longrightarrow> P a"
  shows "hoare J (repo_read f) (\<lambda>a w. J w \<and> P a) (\<lambda>_. True)"
  unfolding repo_read_def by (rule hoare_repo) (auto simp: bind_r_Ok_conv intro: assms)

lemma hoare_find_versions:
  assumes "\<And>v. hoare J (f v) (\<lambda>r w. J w \<and> (\<forall>x. r = Some x \<longrightarrow> P x)) (\<lambda>_. True)"
  shows "hoare J (find_versions f vs) (\<lambda>r w. J w \<and> (\<forall>x. r = Some x \<longrightarrow> P x)) (\<lambda>_. True)"
proof (induction vs)
  case Nil
  show ?case unfolding find_versions.simps by (rule hoare_return) simp
next
  case (Cons v vs)
  have "hoare (\<lambda>w. J w \<and> (\<forall>x. r = Some x \<longrightarrow> P x))
      (case r of Some x \<Rightarrow> return_x (Some x) | None \<Rightarrow> find_versions f vs)
      (\<lambda>r w. J w \<and> (\<forall>x. r = Some x \<longrightarrow> P x)) (\<lambda>_. True)" for r
  proof (cases r)
    case None
    then show ?thesis using hoare_pre [OF Cons.IH] by simp
  next
    case (Some x)
    then show ?thesis unfolding Some option.case by (intro hoare_return) simp
  qed
  with assms [of v] show ?case unfolding find_versions.simps by (rule hoare_bind)
qed

end

definition locked_world :: "vault_id \<Rightarrow> uuid \<Rightarrow> auth_world \<Rightarrow> bool" where
  "locked_world v u w \<longleftrightarrow> locked_out v u (aw_db w) \<and> no_new_request v w"

lemma interfere_locked:
  assumes "locked_world v u w"
  shows "locked_world v u (interfere w)"
proof (cases "aw_others w")
  case (Cons f fs)
  then obtain txs where "f = oauth_run txs" "\<forall>tx \<in> set txs. requested_vault tx \<noteq> Some v"
    using assms by (auto simp: locked_world_def no_new_request_def)
  then show ?thesis using assms Cons locked_out_run by (auto simp: locked_world_def interfere_def no_new_request_def)
qed (use assms in \<open>simp add: interfere_def\<close>)

interpretation locked: stable_world "locked_world v u" for v u
  by unfold_locales (rule interfere_locked)

lemma hoare_locked_read:
  assumes "\<And>db a. locked_out v u db \<Longrightarrow> f db = Ok a \<Longrightarrow> P a"
  shows "hoare (locked_world v u) (repo_read f) (\<lambda>a w. locked_world v u w \<and> P a) (\<lambda>_. True)"
  by (rule locked.hoare_repo_read) (auto simp: locked_world_def intro: assms)

lemma locked_access_token:
  "hoare (locked_world (ctx_id ctx) u) (find_access_token svc ctx token)
     (\<lambda>r w. locked_world (ctx_id ctx) u w \<and> (\<forall>x. r = Some x \<longrightarrow> ax_user x = u \<longrightarrow> ax_revoked_at x \<noteq> None)) (\<lambda>_. True)"
  unfolding find_access_token_def
proof (rule hoare_splits(1))
  assume "\<not> prefix ACCESS_LABEL token"
  show "hoare (locked_world (ctx_id ctx) u) (return_x None)
      (\<lambda>r w. locked_world (ctx_id ctx) u w \<and> (\<forall>x. r = Some x \<longrightarrow> ax_user x = u \<longrightarrow> ax_revoked_at x \<noteq> None)) (\<lambda>_. True)"
    by (rule hoare_return) simp
qed (rule locked.hoare_find_versions, rule hoare_bind [OF hoare_lift [of _ _ "\<lambda>_. locked_world (ctx_id ctx) u"]],
    assumption, simp, rule hoare_locked_read, auto simp: find_oauth_access_token_def bind_r_Ok_conv locked_out_def user_dead_def
      dest!: find_row_Some)

lemma locked_live_user:
  "hoare (locked_world (ctx_id ctx) u) (live_user e (\<lambda>r. lu_id r = i) ctx) (\<lambda>_ _. i = u) (\<lambda>_. True)"
proof -
  have read: "hoare (locked_world (ctx_id ctx) u) (repo_read (get_local_oauth_user ctx))
      (\<lambda>a w. locked_world (ctx_id ctx) u w \<and> (\<forall>x. a = Some x \<longrightarrow> lu_id x = u)) (\<lambda>_. True)"
    by (rule hoare_locked_read)
      (auto simp: get_local_oauth_user_def get_local_oauth_row_def bind_r_Ok_conv locked_out_def
        dest!: find_row_Some intro: login_isD)
  show ?thesis
    unfolding live_user_def
    by (rule hoare_bind [OF read], intro hoare_splits hoare_throw hoare_return) auto
qed

lemma locked_refused:
  assumes "locked_world (ctx_id ctx) u w"
  shows "\<exists>e. fst (authenticate_local_oauth svc ctx token expected_resource required now w) = Err e"
proof -
  let ?I = "locked_world (ctx_id ctx) u"
  have some: "hoare (\<lambda>w. ?I w \<and> (\<forall>x. r = Some x \<longrightarrow> ax_user x = u \<longrightarrow> ax_revoked_at x \<noteq> None))
      (lift_x (ok_or InvalidCredential r)) (\<lambda>x w. ?I w \<and> (ax_user x = u \<longrightarrow> ax_revoked_at x \<noteq> None)) (\<lambda>_. True)" for r
    by (rule hoare_lift) auto
  have absurd: "hoare (\<lambda>_. i = u) m (\<lambda>_ _. False) (\<lambda>_. True)" if "i \<noteq> u" for i and m :: "auth_principal auth"
    using that by (simp add: hoare_def)
  have user: "hoare (\<lambda>w. ?I w \<and> (ax_user x = u \<longrightarrow> ax_revoked_at x \<noteq> None))
      (bind_x (live_user InvalidCredential (\<lambda>r. lu_id r = ax_user x) ctx) f) (\<lambda>_ _. False) (\<lambda>_. True)"
    if "ax_revoked_at x = None" for x and f :: "oauth_local_user_record \<Rightarrow> auth_principal auth"
  proof (cases "ax_user x = u")
    case True
    with that show ?thesis by (simp add: hoare_def)
  next
    case False
    then show ?thesis
      by (rule_tac hoare_pre [OF hoare_bind [OF locked_live_user absurd]]) auto
  qed
  have "hoare ?I (authenticate_local_oauth svc ctx token expected_resource required now) (\<lambda>_ _. False) (\<lambda>_. True)"
    unfolding authenticate_local_oauth_def
    by (rule hoare_bind [OF locked_access_token], rule hoare_bind [OF some], rule hoare_splits(1))
      (rule hoare_throw, simp, rule user, simp)
  with assms show ?thesis
    by (cases "fst (authenticate_local_oauth svc ctx token expected_resource required now w)") (auto simp: hoare_iff)
qed

text \<open>Before the login is replaced, any transactions may run.\<close>

definition oauth_tables_ok :: "auth_db \<Rightarrow> bool" where
  "oauth_tables_ok db \<longleftrightarrow> oauth_keys db \<and> distinct (map fst (login_keys db))"

definition only_oauth_runs :: "auth_world \<Rightarrow> bool" where
  "only_oauth_runs w \<longleftrightarrow> (\<forall>f \<in> set (aw_others w). \<exists>txs. f = oauth_run txs)"

lemma oauth_tables_ok_run:
  assumes "oauth_tables_ok db"
  shows "oauth_tables_ok (oauth_run txs db)"
proof (rule oauth_run_invariant)
  fix tx d d'
  assume d: "oauth_keys d" "oauth_tables_ok d" "oauth_apply tx d = Ok d'"
  then have "oauth_keys d'" using oauth_keys_Ok by blast
  with d(2) login_keys_step [OF d(3)] show "oauth_tables_ok d'" by (auto simp: oauth_tables_ok_def)
qed (use assms in \<open>simp_all add: oauth_tables_ok_def\<close>)

definition sound_world :: "auth_world \<Rightarrow> bool" where
  "sound_world w \<longleftrightarrow> oauth_tables_ok (aw_db w) \<and> only_oauth_runs w"

lemma interfere_sound: "sound_world w \<Longrightarrow> sound_world (interfere w)"
  using oauth_tables_ok_run
  by (fastforce simp: sound_world_def interfere_def only_oauth_runs_def split: list.split)

interpretation sound: stable_world sound_world
  by unfold_locales (rule interfere_sound)

lemma ensure_persistent_sound: "hoare sound_world (ensure_persistent_master_key svc) (\<lambda>_. sound_world) (\<lambda>_. True)"
  unfolding ensure_persistent_master_key_def repo_read_def
  by (intro hoare_splits(1) hoare_throw hoare_bind [OF hoare_lift [of _ _ "\<lambda>_. sound_world"]]
      hoare_bind [OF sound.hoare_repo [of _ "\<lambda>_. sound_world"]])
    (auto simp: sound_world_def oauth_tables_ok_def oauth_keys_def login_keys_def only_oauth_runs_def when_x_def
      insert_installation_key_check_if_absent_def bind_r_Ok_conv hoare_def split: if_split_asm)

lemma upsert_locks:
  assumes "oauth_tables_ok db" "upsert_local_oauth_user now ctx i name hash scopes db = Ok (usr, db1)"
  shows "locked_out (ctx_id ctx) (lu_id usr) db1"
proof -
  have keys: "oauth_keys db1" "distinct (map fst (login_keys db1))"
    using oauth_tables_ok_run [OF assms(1), of "[TxUpsertUser now ctx i name hash scopes]"] assms(2)
    by (simp_all add: oauth_tables_ok_def oauth_next_def discard_def)
  have "find_row (\<lambda>u. lu_vault u = ctx_id ctx) (ad_local_users db1) = Some usr"
    using assms(2) by (auto simp: upsert_local_oauth_user_def bind_r_Ok_conv Let_def get_local_oauth_row_def
        revoke_user_state_def split: if_split_asm option.split_asm)
  then have "(ctx_id ctx, lu_id usr) \<in> set (login_keys db1)"
    by (force simp: login_keys_def dest!: find_row_Some)
  with keys(2) have "login_is (ctx_id ctx) (lu_id usr) db1"
    unfolding login_is_def by (auto dest: eq_key_imp_eq_value)
  with keys(1) upsert_user_dead [OF assms(2)] show ?thesis by (simp add: locked_out_def)
qed

text \<open>
  C12: a replaced login locks out every token. Once the Vault's OAuth login was replaced, and until
  someone starts a new authorization request in the Vault, no access token is accepted, whichever
  transactions of other requests run before the replacement, and before and between the steps of
  the check.
\<close>

theorem replaced_login_locks_out:
  assumes "sound_world w"
    and "configure_local_oauth_user svc ctx username password scopes salt i now w = (Ok view, w1)"
    and "no_new_request (ctx_id ctx) w1"
  shows "\<exists>e. fst (authenticate_local_oauth svc ctx token expected_resource required now' w1) = Err e"
proof -
  have "hoare sound_world (configure_local_oauth_user svc ctx username password scopes salt i now)
      (\<lambda>_ w1. \<exists>u. locked_out (ctx_id ctx) u (aw_db w1)) (\<lambda>_. True)"
    unfolding configure_local_oauth_user_def
    by (rule hoare_bind [OF ensure_persistent_sound], rule hoare_bind [OF hoare_lift [of _ _ "\<lambda>_. sound_world"]],
        assumption, simp, rule hoare_splits(1), rule hoare_throw, simp,
        rule hoare_bind [OF hoare_lift [of _ _ "\<lambda>_. sound_world"]], assumption, simp,
        rule hoare_bind [OF sound.hoare_repo [of _ "\<lambda>u w1. locked_out (ctx_id ctx) (lu_id u) (aw_db w1)"]])
      (auto simp: sound_world_def intro: upsert_locks hoare_lift)
  from hoareD [OF this assms(1,2)] obtain u where "locked_out (ctx_id ctx) u (aw_db w1)" by auto
  with assms(3) show ?thesis by (intro locked_refused) (simp add: locked_world_def)
qed

section \<open>An example\<close>

text \<open>Stand-ins for the primitives, one client, one code and one refresh token.\<close>

definition oauth_example_env :: auth_env where
  "oauth_example_env =
     \<lparr>ae_hmac = (\<lambda>k m. take 32 (rev m @ replicate 32 CHR ''.'')), ae_sha256 = (\<lambda>m. m), ae_base64 = (\<lambda>m. m),
      ae_seal = (\<lambda>k n a m. Some m), ae_open = (\<lambda>k n a m. Some m), ae_phc = (\<lambda>salt v. Some v),
      ae_phc_verify = (\<lambda>h v. Some (h = v)), ae_phc_stale = (\<lambda>h. False), ae_uuid = (\<lambda>_. ''id''),
      ae_parse_uuid = (\<lambda>v. if v = ''9'' then Some 9 else None), ae_parse_url = (\<lambda>_. None)\<rparr>"

definition oauth_example_svc :: auth_service where
  "oauth_example_svc =
     \<lparr>as_env = oauth_example_env,
      as_keys = \<lparr>kr_keys = [(1, replicate 32 CHR ''k'')], kr_current = 1, kr_persistent = True\<rparr>,
      as_minimum_bytes = 12, as_idle_timeout = 1800000, as_absolute_timeout = 43200000, as_dummy_hash = ''d''\<rparr>"

definition oauth_example_digest :: "string \<Rightarrow> string \<Rightarrow> blob" where
  "oauth_example_digest purpose token = ae_hmac oauth_example_env (replicate 32 CHR ''k'') (framed [purpose, token])"

definition oauth_example_token_row :: oauth_refresh_record where
  "oauth_example_token_row =
     (hd (ad_refresh oauth_example_db))\<lparr>rt_token_prefix := take_chars 20 ''mcpv_refresh_old'',
       rt_token_digest := oauth_example_digest REFRESH_DIGEST_PURPOSE ''mcpv_refresh_old''\<rparr>"

definition oauth_example_world :: "oauth_refresh_record \<Rightarrow> auth_world" where
  "oauth_example_world r =
     \<lparr>aw_db = oauth_example_db\<lparr>
        ad_key_checks := [(1, oauth_example_digest ''mcp-vault-installation-key-check-v1'' ''installation-key-verifier'')],
        ad_clients := [\<lparr>cl_id = 9, cl_name = ''c'', cl_redirect_uris = Some [''u''], cl_grant_types = Some required_grants,
          cl_response_types = Some [''code''], cl_auth_method = ''none'', cl_created_at = 1, cl_last_used_at = None,
          cl_revoked_at = None\<rparr>],
        ad_codes := map (\<lambda>c. c\<lparr>co_digest := oauth_example_digest CODE_DIGEST_PURPOSE ''mcpv_oauth_code_x'',
          co_code_challenge := replicate 43 CHR ''v''\<rparr>) (ad_codes oauth_example_db),
        ad_refresh := [r]\<rparr>,
      aw_limiter = [], aw_others = []\<rparr>"

definition oauth_example_refresh_input :: refresh_exchange where
  "oauth_example_refresh_input = \<lparr>re_refresh_token = ''mcpv_refresh_old'', re_client_id = ''9'', re_resource = ''r'',
     re_scope = None\<rparr>"

definition oauth_example_code_input :: code_exchange where
  "oauth_example_code_input = \<lparr>ce_code = ''mcpv_oauth_code_x'', ce_client_id = ''9'', ce_redirect_uri = ''u'',
     ce_code_verifier = replicate 43 CHR ''v'', ce_resource = ''r''\<rparr>"

definition run_refresh :: "oauth_refresh_record \<Rightarrow> int \<Rightarrow> (auth_error + token_issue) \<times> auth_world" where
  "run_refresh r now =
     refresh_local_oauth_token_at oauth_example_svc oauth_example_ctx oauth_example_refresh_input now 70 71 ''A'' ''B''
       (oauth_example_world r)"

definition run_exchange :: "(auth_error + token_issue) \<times> auth_world" where
  "run_exchange =
     exchange_local_oauth_code oauth_example_svc oauth_example_ctx oauth_example_code_input 50 8 70 71 ''A'' ''B''
       (oauth_example_world oauth_example_token_row)"

lemma be32_code [code]:
  "be32 n = (if n < 256 then [char_of (0 :: nat), char_of (0 :: nat), char_of (0 :: nat), char_of n]
     else map (\<lambda>k. char_of ((n mod 2 ^ 32) div 2 ^ k mod 256)) [24, 16, 8, 0])"
  by (simp add: be32_def)

lemma ok_run: "is_ok (fst p) \<Longrightarrow> \<exists>x w. p = (Ok x, w)"
  by (cases p) (auto simp: is_ok_iff)

lemma run_refresh_ok: "is_ok (fst (run_refresh oauth_example_token_row 60))"
  by code_simp

lemma run_exchange_ok: "is_ok (fst run_exchange)"
  by code_simp

lemma oauth_example_world_ok: "aw_others (oauth_example_world r) = []" "oauth_keys (aw_db (oauth_example_world r))"
  by (simp_all add: oauth_example_world_def oauth_example_defs oauth_keys_def)

theorem refresh_token_lineage_witness:
  "\<exists>issue w'. run_refresh oauth_example_token_row 60 = (Ok issue, w') \<and>
     (\<exists>old \<in> set (ad_refresh (aw_db (oauth_example_world oauth_example_token_row))).
        pair_issued oauth_example_svc issue (refresh_source old) (rt_family old) (aw_db w') \<and>
        spent_refresh (rt_id old) (aw_db w'))"
proof -
  obtain issue w' where run: "run_refresh oauth_example_token_row 60 = (Ok issue, w')"
    using ok_run [OF run_refresh_ok] by blast
  with refresh_token_lineage [OF oauth_example_world_ok run [unfolded run_refresh_def]] show ?thesis by blast
qed

theorem exchange_code_bound_witness:
  "\<exists>issue w'. run_exchange = (Ok issue, w') \<and>
     (\<exists>code \<in> set (ad_codes (aw_db (oauth_example_world oauth_example_token_row))).
        pair_copied oauth_example_svc issue \<lparr>ts_client = co_client code, ts_user = co_user code, ts_vault = co_vault code,
          ts_resource = co_resource code, ts_scopes = co_scopes code\<rparr> 8 (aw_db w') \<and> spent_code (co_id code) (aw_db w'))"
proof -
  obtain issue w' where run: "run_exchange = (Ok issue, w')" using ok_run [OF run_exchange_ok] by blast
  with exchange_code_bound [OF oauth_example_world_ok run [unfolded run_exchange_def]] show ?thesis by blast
qed

definition oauth_example_token_rotated :: oauth_refresh_record where
  "oauth_example_token_rotated = oauth_example_token_row\<lparr>rt_rotated_at := Some 10\<rparr>"

lemma ensure_persistent_present:
  assumes "aw_others w = []" "get_installation_key_check (kr_current (as_keys svc)) (aw_db w) \<noteq> None"
    and "fst (ensure_persistent_master_key svc w) = Ok u"
  shows "ensure_persistent_master_key svc w = (Ok (), w)"
proof -
  obtain w' where w': "ensure_persistent_master_key svc w = (Ok u, w')" using assms(3) by (metis prod.collapse)
  then have "w' = w"
    using assms(1,2)
    by (auto simp: ensure_persistent_master_key_def alone_simps insert_installation_key_check_if_absent_def
        split: if_split_asm)
  with w' show ?thesis by simp
qed

theorem late_replay_revokes_family_witness:
  "(\<exists>w'. run_refresh oauth_example_token_rotated 60011 = (Err OAuthTokenInvalid, w') \<and> family_dead 7 5 (aw_db w')) \<and>
   run_refresh oauth_example_token_rotated 60010 = (Err OAuthTokenInvalid, oauth_example_world oauth_example_token_rotated)"
proof -
  let ?w = "oauth_example_world oauth_example_token_rotated"
  let ?find = "find_refresh_token oauth_example_svc oauth_example_ctx (re_refresh_token oauth_example_refresh_input) ?w"
  have ready: "ensure_persistent_master_key oauth_example_svc ?w = (Ok (), ?w)"
    by (rule ensure_persistent_present [OF oauth_example_world_ok(1), of _ _ "()"]) code_simp+
  have "fst ?find = Ok (Some oauth_example_token_rotated)" by code_simp
  then have "?find = (Ok (Some oauth_example_token_rotated), snd ?find)" by (metis prod.collapse)
  with find_refresh_token_alone [OF oauth_example_world_ok(1)]
  have found: "?find = (Ok (Some oauth_example_token_rotated), ?w)" by metis
  have facts: "parse_client_id (as_env oauth_example_svc) (re_client_id oauth_example_refresh_input) = Ok (rt_client oauth_example_token_rotated)"
    "rt_resource oauth_example_token_rotated = re_resource oauth_example_refresh_input"
    "rt_revoked_at oauth_example_token_rotated = None" "rt_rotated_at oauth_example_token_rotated = Some 10"
    by code_simp+
  have ids: "ctx_id oauth_example_ctx = 7" "rt_family oauth_example_token_rotated = 5" by code_simp+
  note replay = late_replay_revokes_family [OF oauth_example_world_ok(1) ready found facts, folded run_refresh_def, unfolded ids]
  from replay [of 60011 70 71 "''A''" "''B''"] replay [of 60010 70 71 "''A''" "''B''"]
  show ?thesis by (simp add: run_refresh_def sat_i64_def)
qed

theorem replaced_login_locks_out_witness:
  "\<exists>view w1 e. configure_local_oauth_user oauth_example_svc oauth_example_ctx ''owner'' ''a-new-password'' [VaultRead]
       ''s'' 2 70 (oauth_example_world oauth_example_token_row) = (Ok view, w1) \<and>
     fst (authenticate_local_oauth oauth_example_svc oauth_example_ctx ''mcpv_oauth_x'' ''r'' [] 80 w1) = Err e"
proof -
  let ?w = "oauth_example_world oauth_example_token_row"
  let ?run = "configure_local_oauth_user oauth_example_svc oauth_example_ctx ''owner'' ''a-new-password'' [VaultRead]
       ''s'' 2 70 ?w"
  have sound: "sound_world ?w"
    by (simp add: sound_world_def oauth_tables_ok_def only_oauth_runs_def oauth_example_world_ok(1) login_keys_def oauth_keys_def
        oauth_example_world_def oauth_example_defs)
  have "is_ok (fst ?run)" by code_simp
  then obtain view w1 where run: "?run = (Ok view, w1)" using ok_run by blast
  have "length (aw_others (snd ?run)) = 0" by code_simp
  then have "no_new_request (ctx_id oauth_example_ctx) w1" using run by (simp add: no_new_request_def)
  from replaced_login_locks_out [OF sound run this] run show ?thesis by blast
qed

end
