(* ===== verification/Auth_Service.thy ===== *)
theory Auth_Service
  imports OAuth_Security
begin

text \<open>
  The rest of the authentication service (crates/auth/src/service.rs, origin.rs): reversible secrets,
  administrators and their sessions, WebDAV app passwords and MCP tokens. As in the authorization
  server, clock readings, fresh identifiers and random bytes are arguments of the operation that
  draws them, and transactions of other requests run before each repository call.
\<close>

section \<open>Secrets\<close>

record secret_metadata =
  sm_id :: uuid
  sm_purpose :: string
  sm_owner_type :: string
  sm_owner_id :: "string option"
  sm_key_version :: nat
  sm_hint :: "string option"

definition secret_metadata_of :: "encrypted_secret_record \<Rightarrow> secret_metadata" where
  "secret_metadata_of r =
     \<lparr>sm_id = es_id r, sm_purpose = es_purpose r, sm_owner_type = es_owner_type r, sm_owner_id = es_owner_id r,
      sm_key_version = es_key_version r, sm_hint = es_hint r\<rparr>"

function utf8_chars :: "string \<Rightarrow> string list" where
  \<comment> \<open>\<open>value.chars()\<close>: every character with its continuation bytes\<close>
  "utf8_chars [] = []"
| "utf8_chars (c # cs) =
     (c # takeWhile (\<lambda>d. 128 \<le> byte_of d \<and> byte_of d < 192) cs)
       # utf8_chars (dropWhile (\<lambda>d. 128 \<le> byte_of d \<and> byte_of d < 192) cs)"
  by pat_completeness auto

termination by (relation "measure length") (auto simp: le_imp_less_Suc length_dropWhile_le)

definition BULLETS :: string where \<comment> \<open>four U+2022\<close>
  "BULLETS = concat (replicate 4 (map char_of [0xE2, 0x80, 0xA2 :: nat]))"

definition ELLIPSIS :: string where \<comment> \<open>U+2026\<close>
  "ELLIPSIS = map char_of [0xE2, 0x80, 0xA6 :: nat]"

definition mask_hint :: "string \<Rightarrow> string" where
  "mask_hint value =
     (let chars = utf8_chars value in
      if length chars \<le> 6 then BULLETS
      else concat (take 3 chars) @ ELLIPSIS @ concat (rev (take 3 (rev chars))))"

definition put_secret_record ::
  "auth_service \<Rightarrow> string \<Rightarrow> string \<Rightarrow> string option \<Rightarrow> string \<Rightarrow> blob \<Rightarrow> uuid \<Rightarrow> int \<Rightarrow> secret_metadata auth" where
  "put_secret_record svc purpose owner_type owner_id secret nonce i now =
     bind_x (ensure_persistent_master_key svc) (\<lambda>_.
     bind_x (lift_x (validate_public_label purpose)) (\<lambda>_.
     bind_x (lift_x (validate_public_label owner_type)) (\<lambda>_.
     bind_x (lift_x (ring_encrypt (as_env svc) (as_keys svc) nonce purpose owner_type owner_id secret)) (\<lambda>payload.
     bind_x (repo (insert_secret now i purpose owner_type owner_id (ep_key_version payload) (ep_nonce payload)
         (ep_ciphertext payload) (Some (mask_hint secret)))) (\<lambda>r.
       return_x (secret_metadata_of r))))))"

definition put_vault_secret ::
  "auth_service \<Rightarrow> vault_context \<Rightarrow> string \<Rightarrow> string \<Rightarrow> string \<Rightarrow> blob \<Rightarrow> uuid \<Rightarrow> int \<Rightarrow> secret_metadata auth" where
  "put_vault_secret svc ctx purpose owner_type secret nonce i now =
     bind_x (repo_read (ensure_vault_context ctx)) (\<lambda>_.
       put_secret_record svc purpose owner_type (Some (ae_uuid (as_env svc) (ctx_id ctx))) secret nonce i now)"

definition put_installation_secret ::
  "auth_service \<Rightarrow> string \<Rightarrow> string \<Rightarrow> string option \<Rightarrow> string \<Rightarrow> blob \<Rightarrow> uuid \<Rightarrow> int \<Rightarrow> secret_metadata auth" where
  "put_installation_secret svc purpose owner_type owner_id secret nonce i now =
     put_secret_record svc purpose owner_type owner_id secret nonce i now"

definition read_secret_record ::
  "auth_service \<Rightarrow> (blob \<Rightarrow> bool) \<Rightarrow> uuid \<Rightarrow> string \<Rightarrow> string \<Rightarrow> string option \<Rightarrow> string auth" where
  \<comment> \<open>\<open>utf8\<close>: the validation of \<open>String::from_utf8\<close>\<close>
  "read_secret_record svc utf8 i purpose owner_type owner_id =
     bind_x (repo_read (\<lambda>db. Ok (get_secret i db))) (\<lambda>found.
     bind_x (lift_x (ok_or SecretUnavailable found)) (\<lambda>r.
       if es_purpose r \<noteq> purpose \<or> es_owner_type r \<noteq> owner_type \<or> es_owner_id r \<noteq> owner_id
       then throw_x SecretUnavailable
       else
         bind_x (lift_x (ring_decrypt (as_env svc) (as_keys svc) (es_key_version r) (es_nonce r) (es_ciphertext r)
             (es_purpose r) (es_owner_type r) (es_owner_id r))) (\<lambda>plaintext.
           if utf8 plaintext then return_x plaintext else throw_x SecretUnavailable)))"

definition read_vault_secret ::
  "auth_service \<Rightarrow> (blob \<Rightarrow> bool) \<Rightarrow> vault_context \<Rightarrow> uuid \<Rightarrow> string \<Rightarrow> string \<Rightarrow> string auth" where
  "read_vault_secret svc utf8 ctx i purpose owner_type =
     bind_x (repo_read (ensure_vault_context ctx)) (\<lambda>_.
       read_secret_record svc utf8 i purpose owner_type (Some (ae_uuid (as_env svc) (ctx_id ctx))))"

definition read_installation_secret ::
  "auth_service \<Rightarrow> (blob \<Rightarrow> bool) \<Rightarrow> uuid \<Rightarrow> string \<Rightarrow> string \<Rightarrow> string option \<Rightarrow> string auth" where
  "read_installation_secret svc utf8 i purpose owner_type owner_id =
     read_secret_record svc utf8 i purpose owner_type owner_id"

fun rotate_records ::
  "auth_service \<Rightarrow> master_key_ring \<Rightarrow> (uuid \<Rightarrow> blob) \<Rightarrow> int \<Rightarrow> encrypted_secret_record list \<Rightarrow> nat \<Rightarrow> nat auth" where
  \<comment> \<open>the loop of \<open>rotate_secrets\<close>; \<open>nonce\<close> are the bytes drawn for each record\<close>
  "rotate_records svc next nonce now [] rotated = return_x rotated"
| "rotate_records svc next nonce now (r # rs) rotated =
     (if es_key_version r = kr_current next then rotate_records svc next nonce now rs rotated
      else
        bind_x (lift_x (ring_decrypt (as_env svc) (as_keys svc) (es_key_version r) (es_nonce r) (es_ciphertext r)
            (es_purpose r) (es_owner_type r) (es_owner_id r))) (\<lambda>plaintext.
        bind_x (lift_x (ring_encrypt (as_env svc) next (nonce (es_id r)) (es_purpose r) (es_owner_type r)
            (es_owner_id r) plaintext)) (\<lambda>encrypted.
        bind_x (repo (update_secret_ciphertext now (es_id r) (ep_key_version encrypted) (ep_nonce encrypted)
            (ep_ciphertext encrypted) (es_hint r))) (\<lambda>_.
          rotate_records svc next nonce now rs (rotated + 1)))))"

definition rotate_secrets ::
  "auth_service \<Rightarrow> master_key_ring \<Rightarrow> (uuid \<Rightarrow> blob) \<Rightarrow> int \<Rightarrow> nat auth" where
  "rotate_secrets svc next nonce now =
     bind_x (repo_read (\<lambda>db. Ok (list_secrets db))) (\<lambda>records. rotate_records svc next nonce now records 0)"

section \<open>Origins (origin.rs)\<close>

type_synonym header_map = "(string \<times> string option) list"
  \<comment> \<open>lower-case names; a value that is not visible ASCII is \<open>None\<close>\<close>

datatype cookie_security = SecureCookie | InsecureCookie

definition is_safe_method :: "string \<Rightarrow> bool" where
  "is_safe_method m \<longleftrightarrow> m \<in> {''GET'', ''HEAD'', ''OPTIONS'', ''TRACE''}"

definition single_header :: "header_map \<Rightarrow> string \<Rightarrow> auth_error + string option" where
  "single_header headers name =
     (case filter (\<lambda>(n, _). n = name) headers of
        [] \<Rightarrow> Ok None
      | [(_, Some v)] \<Rightarrow> Ok (Some v)
      | _ \<Rightarrow> Err OriginRejected)"

fun decimal :: "nat \<Rightarrow> string" where
  "decimal n = (if n < 10 then [char_of (48 + n)] else decimal (n div 10) @ [char_of (48 + n mod 10)])"

definition canonical_origin_url :: "url_view \<Rightarrow> auth_error + string" where
  "canonical_origin_url url =
     (case uv_host url of
        None \<Rightarrow> Err OriginRejected
      | Some host \<Rightarrow>
          if uv_scheme url \<notin> {''http'', ''https''} \<or> uv_username url \<noteq> [] \<or> uv_password url \<noteq> None
          then Err OriginRejected
          else
            (let scheme = ascii_lowercase (uv_scheme url);
                 base = scheme @ ''://'' @ ascii_lowercase host
             in Ok (case uv_port url of
                      None \<Rightarrow> base
                    | Some p \<Rightarrow>
                        if (p = 80 \<and> scheme = ''http'') \<or> (p = 443 \<and> scheme = ''https'') then base
                        else base @ '':'' @ decimal p)))"

definition canonical_origin :: "auth_env \<Rightarrow> string \<Rightarrow> auth_error + string" where
  "canonical_origin env value =
     (if value = ''null'' then Err OriginRejected
      else bind_r (ok_or OriginRejected (ae_parse_url env value)) (\<lambda>url.
        if uv_path url \<notin> {'''', ''/''} \<or> uv_query url \<noteq> None \<or> uv_fragment url \<noteq> None then Err OriginRejected
        else canonical_origin_url url))"

fun origin_policy_new :: "auth_env \<Rightarrow> string list \<Rightarrow> auth_error + string list" where
  \<comment> \<open>the \<open>BTreeSet\<close> of allowed origins, as a list\<close>
  "origin_policy_new env [] = Ok []"
| "origin_policy_new env (v # vs) =
     bind_r (canonical_origin env v) (\<lambda>o'. bind_r (origin_policy_new env vs) (\<lambda>os. Ok (o' # os)))"

definition validate_optional :: "auth_env \<Rightarrow> string list \<Rightarrow> header_map \<Rightarrow> auth_error + unit" where
  "validate_optional env allowed headers =
     bind_r (single_header headers ''origin'') (\<lambda>origin.
       case origin of
         None \<Rightarrow> Ok ()
       | Some v \<Rightarrow> bind_r (canonical_origin env v) (\<lambda>c. if c \<in> set allowed then Ok () else Err OriginRejected))"

definition request_origin :: "auth_env \<Rightarrow> header_map \<Rightarrow> auth_error + string" where
  "request_origin env headers =
     bind_r (single_header headers ''origin'') (\<lambda>origin.
       case origin of
         Some v \<Rightarrow> canonical_origin env v
       | None \<Rightarrow>
           bind_r (single_header headers ''referer'') (\<lambda>referer.
           bind_r (ok_or OriginRejected referer) (\<lambda>v.
           bind_r (ok_or OriginRejected (ae_parse_url env v)) (\<lambda>url.
             map_err (\<lambda>_. OriginRejected) (canonical_origin_url url)))))"

definition admin_cookie_security :: "auth_env \<Rightarrow> string list \<Rightarrow> header_map \<Rightarrow> auth_error + cookie_security" where
  "admin_cookie_security env allowed headers =
     bind_r (request_origin env headers) (\<lambda>canonical.
       if canonical \<notin> set allowed then Err OriginRejected
       else Ok (if prefix ''https://'' canonical then SecureCookie else InsecureCookie))"

definition validate_admin_request :: "auth_env \<Rightarrow> string list \<Rightarrow> header_map \<Rightarrow> string \<Rightarrow> auth_error + unit" where
  "validate_admin_request env allowed headers m =
     (if is_safe_method m then Ok ()
      else bind_r (admin_cookie_security env allowed headers) (\<lambda>_. Ok ()))"

section \<open>Labels, inputs and results\<close>

definition PAT_LABEL :: string where "PAT_LABEL = ''mcpv_pat_''"
definition SESSION_LABEL :: string where "SESSION_LABEL = ''mcpv_session_''"
definition CSRF_LABEL :: string where "CSRF_LABEL = ''mcpv_csrf_''"
definition SESSION_COOKIE_NAME :: string where "SESSION_COOKIE_NAME = ''mcp_vault_session''"
definition CSRF_COOKIE_NAME :: string where "CSRF_COOKIE_NAME = ''mcp_vault_csrf''"
definition PAT_DIGEST_PURPOSE :: string where "PAT_DIGEST_PURPOSE = ''mcp-pat-digest''"
definition SESSION_DIGEST_PURPOSE :: string where "SESSION_DIGEST_PURPOSE = ''admin-session-digest''"
definition CSRF_DIGEST_PURPOSE :: string where "CSRF_DIGEST_PURPOSE = ''admin-csrf-digest''"

record prepared_admin_setup =
  ps_username :: string
  ps_password_hash :: string
  ps_limiter_key :: string

record admin_login =
  al_user_id :: uuid
  al_username :: string
  al_session_id :: uuid
  al_session_token :: string
  al_csrf_token :: string
  al_expires_at :: int

record admin_principal =
  an_actor :: actor
  an_user_id :: uuid
  an_username :: string

record webdav_credential_issue =
  wi_credential_id :: credential_id
  wi_username :: string
  wi_password :: string
  wi_permissions :: "permission list"
  wi_expires_at :: "int option"

record pat_issue =
  pi_credential_id :: credential_id
  pi_token_prefix :: string
  pi_token :: string
  pi_scopes :: scope_set
  pi_expires_at :: "int option"

definition duration_millis :: "int \<Rightarrow> auth_error + int" where
  \<comment> \<open>\<open>i64::try_from(duration.as_millis())\<close>\<close>
  "duration_millis d = (if d > 2 ^ 63 - 1 then Err AuthInvalidInput else Ok d)"

definition NUL :: char where "NUL = char_of (0 :: nat)"

definition source_or_unknown :: "string option \<Rightarrow> string" where
  "source_or_unknown source_ip = (case source_ip of None \<Rightarrow> ''unknown'' | Some ip \<Rightarrow> ip)"

section \<open>Administrators\<close>

definition admin_setup_available :: "bool auth" where
  "admin_setup_available = repo_read (\<lambda>db. Ok (\<not> has_admin_users db))"

definition prepare_admin_setup ::
  "auth_service \<Rightarrow> string \<Rightarrow> string \<Rightarrow> string option \<Rightarrow> int \<Rightarrow> blob \<Rightarrow> prepared_admin_setup auth" where
  "prepare_admin_setup svc username password source_ip now salt =
     bind_x (repo_read (\<lambda>db. Ok (has_admin_users db))) (\<lambda>taken.
       if taken then throw_x SetupUnavailable
       else
         bind_x (lift_x (normalize_username username)) (\<lambda>username.
         let key = ''setup'' @ NUL # source_or_unknown source_ip
         in bind_x (limit_check key now) (\<lambda>_.
         bind_x (limit_failure key now) (\<lambda>_.
         bind_x (lift_x (password_hash (as_env svc) (as_minimum_bytes svc) salt password)) (\<lambda>hash.
           return_x \<lparr>ps_username = username, ps_password_hash = hash, ps_limiter_key = key\<rparr>)))))"

definition commit_admin_setup :: "prepared_admin_setup \<Rightarrow> uuid \<Rightarrow> int \<Rightarrow> admin_user_record auth" where
  "commit_admin_setup prepared i state_now =
     bind_x (repo (insert_first_admin_user state_now i (ps_username prepared) (ps_password_hash prepared))) (\<lambda>inserted.
     bind_x (lift_x (ok_or SetupUnavailable inserted)) (\<lambda>user.
     bind_x (limit_success (ps_limiter_key prepared)) (\<lambda>_. return_x user)))"

definition setup_admin ::
  "auth_service \<Rightarrow> string \<Rightarrow> string \<Rightarrow> int \<Rightarrow> blob \<Rightarrow> uuid \<Rightarrow> int \<Rightarrow> admin_user_record auth" where
  "setup_admin svc username password now salt i state_now =
     bind_x (prepare_admin_setup svc username password None now salt) (\<lambda>prepared.
       commit_admin_setup prepared i state_now)"

text \<open>What one login draws: four clock readings, the rehash salt, the session id and two tokens.\<close>

record login_draws =
  ld_checked_at :: int
  ld_failed_at :: int
  ld_state_now :: int
  ld_now :: int
  ld_salt :: blob
  ld_session_id :: uuid
  ld_session_random :: blob
  ld_csrf_random :: blob

definition open_admin_session ::
  "auth_service \<Rightarrow> admin_user_record \<Rightarrow> string option \<Rightarrow> string option \<Rightarrow> login_draws \<Rightarrow> admin_login auth" where
  \<comment> \<open>the end of \<open>login_admin\<close>, after the credential was accepted\<close>
  "open_admin_session svc user source_ip user_agent d =
     (let session_token = generate_bearer_token (as_env svc) SESSION_LABEL (ld_session_random d);
          csrf_token = generate_bearer_token (as_env svc) CSRF_LABEL (ld_csrf_random d)
      in
      bind_x (repo (revoke_admin_sessions (ld_state_now d) (us_id user))) (\<lambda>_.
      bind_x (lift_x (duration_millis (as_absolute_timeout svc))) (\<lambda>timeout.
      let expires_at = sat_i64 (ld_now d + timeout) in
      bind_x (lift_x (keyed_digest (as_env svc) (as_keys svc) SESSION_DIGEST_PURPOSE session_token)) (\<lambda>token_digest.
      bind_x (lift_x (keyed_digest (as_env svc) (as_keys svc) CSRF_DIGEST_PURPOSE csrf_token)) (\<lambda>csrf_digest.
      bind_x (lift_x (safe_metadata source_ip 128)) (\<lambda>source_ip.
      bind_x (repo (insert_admin_session (ld_session_id d) (us_id user) token_digest csrf_digest
          (kr_current (as_keys svc)) (ld_now d) expires_at source_ip
          (map_option (ae_sha256 (as_env svc)) user_agent))) (\<lambda>_.
        return_x \<lparr>al_user_id = us_id user, al_username = us_username user, al_session_id = ld_session_id d,
          al_session_token = session_token, al_csrf_token = csrf_token, al_expires_at = expires_at\<rparr>)))))))"

definition login_admin ::
  "auth_service \<Rightarrow> string \<Rightarrow> string \<Rightarrow> string option \<Rightarrow> string option \<Rightarrow> login_draws \<Rightarrow> admin_login auth" where
  "login_admin svc username password source_ip user_agent d =
     bind_x (lift_x (normalize_username username)) (\<lambda>username.
     let key = source_or_unknown source_ip @ NUL # username
     in bind_x (limit_check key (ld_checked_at d)) (\<lambda>_.
     bind_x (repo_read (\<lambda>db. Ok (find_admin_user_by_username username db))) (\<lambda>found.
     let hash = (case found of Some u \<Rightarrow> us_password_hash u | None \<Rightarrow> as_dummy_hash svc)
     in bind_x (lift_x (password_verify (as_env svc) hash password)) (\<lambda>verification.
     case found of
       None \<Rightarrow> bind_x (limit_failure key (ld_failed_at d)) (\<lambda>_. throw_x InvalidCredential)
     | Some user \<Rightarrow>
         if us_disabled user \<or> \<not> fst verification
         then bind_x (limit_failure key (ld_failed_at d)) (\<lambda>_.
                throw_x (if us_disabled user then Revoked else InvalidCredential))
         else
           bind_x (limit_success key) (\<lambda>_.
           bind_x (if snd verification
                   then bind_x (lift_x (password_hash (as_env svc) (as_minimum_bytes svc) (ld_salt d) password))
                          (\<lambda>new_hash. repo (update_admin_password (ld_state_now d) (us_id user) new_hash))
                   else return_x ()) (\<lambda>_.
             open_admin_session svc user source_ip user_agent d))))))"

definition find_session_optional :: "auth_service \<Rightarrow> string \<Rightarrow> admin_session_record option auth" where
  "find_session_optional svc token =
     (if \<not> prefix SESSION_LABEL token then return_x None
      else find_versions (\<lambda>v.
        bind_x (lift_x (keyed_digest_for (as_env svc) (as_keys svc) v SESSION_DIGEST_PURPOSE token)) (\<lambda>digest.
        bind_x (repo_read (\<lambda>db. Ok (find_admin_session digest db))) (\<lambda>found.
          return_x (case found of
              Some s \<Rightarrow> if se_digest_key_version s = v then Some s else None
            | None \<Rightarrow> None)))) (ring_versions (as_keys svc)))"

definition find_session :: "auth_service \<Rightarrow> string \<Rightarrow> admin_session_record auth" where
  "find_session svc token =
     bind_x (find_session_optional svc token) (\<lambda>found. lift_x (ok_or InvalidCredential found))"

definition csrf_check :: "auth_service \<Rightarrow> string option \<Rightarrow> admin_session_record \<Rightarrow> auth_error + unit" where
  "csrf_check svc csrf_token session =
     bind_r (ok_or CsrfRejected csrf_token) (\<lambda>token.
     bind_r (keyed_digest_for (as_env svc) (as_keys svc) (se_digest_key_version session) CSRF_DIGEST_PURPOSE token)
       (\<lambda>digest. if digest \<noteq> se_csrf_secret_digest session then Err CsrfRejected else Ok ()))"

definition authenticate_admin_session ::
  "auth_service \<Rightarrow> string \<Rightarrow> string option \<Rightarrow> header_map \<Rightarrow> string \<Rightarrow> string list \<Rightarrow> int \<Rightarrow> int \<Rightarrow>
     admin_principal auth" where
  "authenticate_admin_session svc session_token csrf_token headers m allowed now state_now =
     bind_x (lift_x (validate_admin_request (as_env svc) allowed headers m)) (\<lambda>_.
     bind_x (find_session svc session_token) (\<lambda>session.
       if se_revoked_at session \<noteq> None \<or> se_expires_at session \<le> now then throw_x SessionExpired
       else
         bind_x (lift_x (duration_millis (as_idle_timeout svc))) (\<lambda>idle.
           if sat_i64 (now - se_last_seen_at session) > idle
           then bind_x (repo (revoke_admin_session state_now (se_id session))) (\<lambda>_. throw_x SessionExpired)
           else
             bind_x (if is_safe_method m then return_x () else lift_x (csrf_check svc csrf_token session)) (\<lambda>_.
             bind_x (repo_read (\<lambda>db. Ok (get_admin_user (se_user_id session) db))) (\<lambda>found.
             bind_x (lift_x (ok_or InvalidCredential found)) (\<lambda>user.
               if us_disabled user then throw_x Revoked
               else
                 bind_x (repo (touch_admin_session (se_id session) now)) (\<lambda>_.
                 bind_x (lift_x (map_err AuthDomain (actor_id_new (ae_uuid (as_env svc) (us_id user))))) (\<lambda>actor.
                   return_x \<lparr>an_actor = actor_identified ActorAdmin actor, an_user_id = us_id user,
                     an_username = us_username user\<rparr>))))))))"

definition logout_admin :: "auth_service \<Rightarrow> string \<Rightarrow> int \<Rightarrow> unit auth" where
  "logout_admin svc session_token state_now =
     bind_x (find_session_optional svc session_token) (\<lambda>found.
       case found of
         None \<Rightarrow> return_x ()
       | Some session \<Rightarrow> repo (revoke_admin_session state_now (se_id session)))"

definition change_admin_password ::
  "auth_service \<Rightarrow> uuid \<Rightarrow> string \<Rightarrow> string \<Rightarrow> blob \<Rightarrow> int \<Rightarrow> unit auth" where
  "change_admin_password svc user_id current_password new_password salt state_now =
     bind_x (repo_read (\<lambda>db. Ok (get_admin_user user_id db))) (\<lambda>found.
     bind_x (lift_x (ok_or InvalidCredential found)) (\<lambda>user.
     bind_x (lift_x (password_verify (as_env svc) (us_password_hash user) current_password)) (\<lambda>verified.
       if \<not> fst verified then throw_x InvalidCredential
       else
         bind_x (lift_x (password_hash (as_env svc) (as_minimum_bytes svc) salt new_password)) (\<lambda>new_hash.
         bind_x (repo (update_admin_password state_now user_id new_hash)) (\<lambda>_.
           repo (revoke_admin_sessions state_now user_id))))))"

definition reauthenticate_admin :: "auth_service \<Rightarrow> uuid \<Rightarrow> string \<Rightarrow> unit auth" where
  "reauthenticate_admin svc user_id password =
     bind_x (repo_read (\<lambda>db. Ok (get_admin_user user_id db))) (\<lambda>found.
     bind_x (lift_x (ok_or InvalidCredential found)) (\<lambda>user.
       if us_disabled user then throw_x Revoked
       else
         bind_x (lift_x (password_verify (as_env svc) (us_password_hash user) password)) (\<lambda>verification.
           if fst verification then return_x () else throw_x InvalidCredential)))"

section \<open>WebDAV app passwords\<close>

definition validate_webdav_permissions :: "permission list \<Rightarrow> auth_error + unit" where
  "validate_webdav_permissions permissions =
     (if \<exists>p \<in> set permissions. p \<notin> {DiscoverVault, ReadVault, WriteVault, DeleteVault}
      then Err ScopeDenied else Ok ())"

definition issue_webdav_credential ::
  "auth_service \<Rightarrow> vault_context \<Rightarrow> string \<Rightarrow> string \<Rightarrow> string \<Rightarrow> permission list \<Rightarrow> int option \<Rightarrow>
     blob \<Rightarrow> credential_id \<Rightarrow> int \<Rightarrow> webdav_credential_issue auth" where
  "issue_webdav_credential svc ctx name username password permissions expires_at salt i state_now =
     bind_x (lift_x (validate_public_label name)) (\<lambda>_.
     bind_x (lift_x (normalize_username username)) (\<lambda>username.
     bind_x (lift_x (validate_webdav_permissions permissions)) (\<lambda>_.
     bind_x (lift_x (password_hash (as_env svc) (as_minimum_bytes svc) salt password)) (\<lambda>hash.
     bind_x (repo (insert_webdav_credential state_now ctx i name username hash permissions expires_at)) (\<lambda>_.
     bind_x (repo_read (find_webdav_credential ctx username)) (\<lambda>found.
     bind_x (lift_x (ok_or AuthInvalidInput found)) (\<lambda>r.
       return_x \<lparr>wi_credential_id = wd_id r, wi_username = username, wi_password = password,
         wi_permissions = permissions, wi_expires_at = expires_at\<rparr>)))))))"

definition authenticate_webdav ::
  "auth_service \<Rightarrow> vault_context \<Rightarrow> string \<Rightarrow> string \<Rightarrow> int \<Rightarrow> auth_principal auth" where
  "authenticate_webdav svc ctx username password current =
     bind_x (lift_x (normalize_username username)) (\<lambda>username.
     bind_x (repo_read (find_webdav_credential ctx username)) (\<lambda>found.
     let hash = (case found of Some r \<Rightarrow> wd_password_hash r | None \<Rightarrow> as_dummy_hash svc)
     in bind_x (lift_x (password_verify (as_env svc) hash password)) (\<lambda>verification.
     bind_x (lift_x (ok_or InvalidCredential found)) (\<lambda>r.
       if \<not> fst verification \<or> wd_revoked_at r \<noteq> None then throw_x InvalidCredential
       else if (case wd_expires_at r of None \<Rightarrow> False | Some t \<Rightarrow> t \<le> current) then throw_x InvalidCredential
       else
         bind_x (lift_x (ok_or InvalidCredential (wd_permissions r))) (\<lambda>permissions.
         bind_x (repo (touch_webdav_credential ctx (wd_id r) current)) (\<lambda>_.
         bind_x (lift_x (map_err AuthDomain (actor_id_new (ae_uuid (as_env svc) (wd_id r))))) (\<lambda>actor.
           return_x \<lparr>pr_actor = actor_identified ActorWebDavCredential actor, pr_vault = Some (ctx_id ctx),
             pr_credential = Some (wd_id r), pr_permissions = permissions, pr_scopes = []\<rparr>)))))))"

definition revoke_webdav_credential :: "vault_context \<Rightarrow> credential_id \<Rightarrow> int \<Rightarrow> unit auth" where
  "revoke_webdav_credential ctx i state_now = repo (revoke_webdav_credential_row state_now ctx i)"

definition update_webdav_credential ::
  "vault_context \<Rightarrow> credential_id \<Rightarrow> string \<Rightarrow> permission list \<Rightarrow> int option \<Rightarrow> unit auth" where
  "update_webdav_credential ctx i name permissions expires_at =
     bind_x (lift_x (validate_public_label name)) (\<lambda>_.
     bind_x (lift_x (validate_webdav_permissions permissions)) (\<lambda>_.
       repo (update_webdav_credential_row ctx i name permissions expires_at)))"

section \<open>MCP tokens\<close>

definition issue_pat ::
  "auth_service \<Rightarrow> vault_context \<Rightarrow> string \<Rightarrow> scope_set \<Rightarrow> int option \<Rightarrow> blob \<Rightarrow> credential_id \<Rightarrow> int \<Rightarrow> pat_issue auth" where
  "issue_pat svc ctx name scopes expires_at random i state_now =
     bind_x (ensure_persistent_master_key svc) (\<lambda>_.
     bind_x (lift_x (validate_public_label name)) (\<lambda>_.
       if scopes = [] then throw_x ScopeDenied
       else
         (let token = generate_bearer_token (as_env svc) PAT_LABEL random
          in bind_x (lift_x (keyed_digest (as_env svc) (as_keys svc) PAT_DIGEST_PURPOSE token)) (\<lambda>digest.
             bind_x (repo (insert_mcp_token state_now ctx i name (take_chars 16 token) digest
                 (kr_current (as_keys svc)) (scopes_json scopes) expires_at)) (\<lambda>_.
               return_x \<lparr>pi_credential_id = i, pi_token_prefix = take_chars 16 token, pi_token = token,
                 pi_scopes = scopes, pi_expires_at = expires_at\<rparr>)))))"

definition find_pat :: "auth_service \<Rightarrow> vault_context \<Rightarrow> string \<Rightarrow> mcp_token_record option auth" where
  \<comment> \<open>the lookup loop of \<open>authenticate_pat\<close>\<close>
  "find_pat svc ctx token =
     find_versions (\<lambda>v.
       bind_x (lift_x (keyed_digest_for (as_env svc) (as_keys svc) v PAT_DIGEST_PURPOSE token)) (\<lambda>digest.
       bind_x (repo_read (find_mcp_token ctx (take_chars 16 token) digest)) (\<lambda>found.
         return_x (case found of
             Some r \<Rightarrow> if mt_digest_key_version r = v then Some r else None
           | None \<Rightarrow> None)))) (ring_versions (as_keys svc))"

definition authenticate_pat ::
  "auth_service \<Rightarrow> vault_context \<Rightarrow> string \<Rightarrow> scope list \<Rightarrow> int \<Rightarrow> auth_principal auth" where
  "authenticate_pat svc ctx token required current =
     (if \<not> prefix PAT_LABEL token then throw_x InvalidCredential
      else
        bind_x (find_pat svc ctx token) (\<lambda>found.
        bind_x (lift_x (ok_or InvalidCredential found)) (\<lambda>r.
          if mt_revoked_at r \<noteq> None \<or> (case mt_expires_at r of None \<Rightarrow> False | Some t \<Rightarrow> t \<le> current)
          then throw_x InvalidCredential
          else
            bind_x (lift_x (map_err (\<lambda>_. InvalidCredential) (parse_scopes (mt_scopes r)))) (\<lambda>scopes.
              if \<exists>s \<in> set required. \<not> scopeset_contains scopes s then throw_x ScopeDenied
              else
                bind_x (repo (touch_mcp_token ctx (mt_id r) current)) (\<lambda>_.
                bind_x (lift_x (map_err AuthDomain (actor_id_new (ae_uuid (as_env svc) (mt_id r))))) (\<lambda>actor.
                  return_x \<lparr>pr_actor = actor_identified ActorMcpPat actor, pr_vault = Some (ctx_id ctx),
                    pr_credential = Some (mt_id r), pr_permissions = scopeset_permissions scopes,
                    pr_scopes = scopes\<rparr>))))))"

definition revoke_pat :: "vault_context \<Rightarrow> credential_id \<Rightarrow> int \<Rightarrow> unit auth" where
  "revoke_pat ctx i state_now = repo (revoke_mcp_token state_now ctx i)"

definition rotate_pat ::
  "auth_service \<Rightarrow> vault_context \<Rightarrow> credential_id \<Rightarrow> string \<Rightarrow> scope_set \<Rightarrow> int option \<Rightarrow>
     int \<Rightarrow> blob \<Rightarrow> credential_id \<Rightarrow> int \<Rightarrow> pat_issue auth" where
  "rotate_pat svc ctx old name scopes expires_at revoke_now random i state_now =
     bind_x (repo (revoke_mcp_token revoke_now ctx old)) (\<lambda>_.
       issue_pat svc ctx name scopes expires_at random i state_now)"

definition require_permission :: "auth_principal \<Rightarrow> permission \<Rightarrow> auth_error + unit" where
  "require_permission who p = (if permissions_contain (pr_permissions who) p then Ok () else Err ScopeDenied)"

definition require_secure_basic_auth :: "bool \<Rightarrow> bool \<Rightarrow> auth_error + unit" where
  "require_secure_basic_auth is_tls peer_is_loopback =
     (if is_tls \<or> peer_is_loopback then Ok () else Err InvalidCredential)"

section \<open>Cookies\<close>

definition secure_attribute :: "cookie_security \<Rightarrow> string" where
  "secure_attribute security = (case security of SecureCookie \<Rightarrow> '' Secure;'' | InsecureCookie \<Rightarrow> [])"

definition session_cookie_header :: "string \<Rightarrow> nat \<Rightarrow> cookie_security \<Rightarrow> string" where
  "session_cookie_header token max_age security =
     SESSION_COOKIE_NAME @ ''='' @ token @ ''; Path=/; Max-Age='' @ decimal max_age @ '';''
       @ secure_attribute security @ '' HttpOnly; SameSite=Strict''"

definition csrf_cookie_header :: "string \<Rightarrow> nat \<Rightarrow> cookie_security \<Rightarrow> string" where
  "csrf_cookie_header token max_age security =
     CSRF_COOKIE_NAME @ ''='' @ token @ ''; Path=/; Max-Age='' @ decimal max_age @ '';''
       @ secure_attribute security @ '' SameSite=Strict''"

definition clear_session_cookie_header :: "cookie_security \<Rightarrow> string" where
  "clear_session_cookie_header security =
     ''mcp_vault_session=; Path=/; Max-Age=0;'' @ secure_attribute security @ '' HttpOnly; SameSite=Strict''"

definition clear_csrf_cookie_header :: "cookie_security \<Rightarrow> string" where
  "clear_csrf_cookie_header security =
     ''mcp_vault_csrf=; Path=/; Max-Age=0;'' @ secure_attribute security @ '' SameSite=Strict''"

fun session_cookie_parts :: "string list \<Rightarrow> string option \<Rightarrow> auth_error + string option" where
  "session_cookie_parts [] found = Ok found"
| "session_cookie_parts (part # parts) found =
     (let (name, v) = split_once_at (CHR ''='') (trim part); value = (case v of None \<Rightarrow> [] | Some v \<Rightarrow> v)
      in if name = SESSION_COOKIE_NAME
         then (if found \<noteq> None \<or> value = [] \<or> any_control value then Err InvalidCredential
               else session_cookie_parts parts (Some value))
         else session_cookie_parts parts found)"

definition parse_session_cookie :: "string \<Rightarrow> auth_error + string" where
  "parse_session_cookie header =
     bind_r (session_cookie_parts (split_on (CHR '';'') header) None) (\<lambda>found. ok_or InvalidCredential found)"

end
