(* ===== verification/OAuth_Resource.thy ===== *)
theory OAuth_Resource
  imports Auth_Service
begin

text \<open>
  Access tokens of external issuers (crates/auth/src/oauth.rs and the issuer and grant operations of
  service.rs): the cached key set, the JWT checks and the Vault-bound grant. JSON, base64 and RSA of
  other crates are the fields of \<open>jwt_env\<close>.
\<close>

section \<open>Keys and claims\<close>

record json_web_key =
  jk_kty :: string
  jk_kid :: "string option"
  jk_alg :: "string option"
  jk_use :: "string option"
  jk_k :: "string option"
  jk_n :: "string option"
  jk_e :: "string option"

type_synonym json_web_key_set = "json_web_key list"

record jwt_header =
  jh_alg :: string
  jh_kid :: "string option"

datatype claim_value = ClaimString string | ClaimStrings "string list"

record jwt_claims =
  jc_iss :: string
  jc_sub :: string
  jc_aud :: claim_value
  jc_exp :: int
  jc_nbf :: "int option"
  jc_resource :: "claim_value option"
  jc_scope :: "string option"
  jc_scp :: "claim_value option"

record jwt_env =
  je_decode64 :: "string \<Rightarrow> blob option" \<comment> \<open>\<open>URL_SAFE_NO_PAD.decode\<close>\<close>
  je_header :: "blob \<Rightarrow> jwt_header option"
  je_claims :: "blob \<Rightarrow> jwt_claims option"
  je_jwks :: "string \<Rightarrow> json_web_key_set option"
  je_print_jwks :: "json_web_key_set \<Rightarrow> string"
  je_rsa_key :: "blob \<Rightarrow> blob \<Rightarrow> bool" \<comment> \<open>\<open>RsaPublicKey::new\<close> accepts modulus and exponent\<close>
  je_rsa_verify :: "blob \<Rightarrow> blob \<Rightarrow> blob \<Rightarrow> blob \<Rightarrow> bool" \<comment> \<open>modulus, exponent, signed bytes, signature\<close>

definition CLOCK_SKEW_SECONDS :: int where "CLOCK_SKEW_SECONDS = 30"

fun claim_values :: "claim_value \<Rightarrow> string list" where
  "claim_values (ClaimString v) = [v]"
| "claim_values (ClaimStrings vs) = vs"

definition decode_base64 :: "jwt_env \<Rightarrow> string \<Rightarrow> auth_error + blob" where
  "decode_base64 je v = ok_or OAuthTokenInvalid (je_decode64 je v)"

definition decode_jwk_base64 :: "jwt_env \<Rightarrow> string \<Rightarrow> auth_error + blob" where
  "decode_jwk_base64 je v = ok_or OAuthConfiguration (je_decode64 je v)"

definition validate_shape :: "jwt_env \<Rightarrow> json_web_key \<Rightarrow> auth_error + unit" where
  "validate_shape je key =
     (if jk_kty key = ''RSA'' \<and> jk_k key = None then
        (if jk_n key = None \<or> jk_e key = None \<or> (case jk_alg key of None \<Rightarrow> False | Some a \<Rightarrow> a \<noteq> ''RS256'')
         then Err OAuthConfiguration
         else
           bind_r (ok_or OAuthConfiguration (jk_n key)) (\<lambda>n.
           bind_r (decode_jwk_base64 je n) (\<lambda>modulus.
             if length modulus < 256 then Err OAuthConfiguration
             else
               bind_r (ok_or OAuthConfiguration (jk_e key)) (\<lambda>e.
               bind_r (decode_jwk_base64 je e) (\<lambda>exponent.
                 if \<not> je_rsa_key je modulus exponent then Err OAuthConfiguration
                 else if (case jk_use key of None \<Rightarrow> False | Some u \<Rightarrow> u \<noteq> ''sig'') then Err OAuthConfiguration
                 else Ok ())))))
      else Err OAuthConfiguration)"

fun validate_shapes :: "jwt_env \<Rightarrow> json_web_key_set \<Rightarrow> auth_error + unit" where
  "validate_shapes je [] = Ok ()"
| "validate_shapes je (k # ks) = bind_r (validate_shape je k) (\<lambda>_. validate_shapes je ks)"

definition jwks_from_json :: "jwt_env \<Rightarrow> string \<Rightarrow> auth_error + json_web_key_set" where
  "jwks_from_json je value =
     bind_r (ok_or OAuthConfiguration (je_jwks je value)) (\<lambda>keys.
       if keys = [] \<or> length keys > 32 then Err OAuthConfiguration
       else bind_r (validate_shapes je keys) (\<lambda>_. Ok keys))"

definition jwks_to_public_json :: "jwt_env \<Rightarrow> json_web_key_set \<Rightarrow> string" where
  \<comment> \<open>the symmetric member \<open>k\<close> is never serialized\<close>
  "jwks_to_public_json je keys = je_print_jwks je (map (\<lambda>k. k\<lparr>jk_k := None\<rparr>) keys)"

definition jwks_candidates :: "json_web_key_set \<Rightarrow> string \<Rightarrow> string option \<Rightarrow> json_web_key list" where
  "jwks_candidates keys algorithm kid =
     filter (\<lambda>k. jk_alg k = None \<or> jk_alg k = Some algorithm) (filter (\<lambda>k. kid = None \<or> jk_kid k = kid) keys)"

definition jwks_verify ::
  "jwt_env \<Rightarrow> json_web_key_set \<Rightarrow> string \<Rightarrow> string option \<Rightarrow> blob \<Rightarrow> blob \<Rightarrow> auth_error + unit" where
  "jwks_verify je keys algorithm kid signing_input signature =
     (case jwks_candidates keys algorithm kid of
        [key] \<Rightarrow>
          (if algorithm = ''RS256'' \<and> jk_kty key = ''RSA'' then
             bind_r (ok_or OAuthConfiguration (jk_n key)) (\<lambda>n.
             bind_r (decode_base64 je n) (\<lambda>modulus.
             bind_r (ok_or OAuthConfiguration (jk_e key)) (\<lambda>e.
             bind_r (decode_base64 je e) (\<lambda>exponent.
               if \<not> je_rsa_key je modulus exponent then Err OAuthConfiguration
               else if je_rsa_verify je modulus exponent signing_input signature then Ok ()
               else Err OAuthTokenInvalid))))
           else Err OAuthTokenInvalid)
      | _ \<Rightarrow> Err OAuthTokenInvalid)"

section \<open>Access tokens\<close>

record parsed_jwt =
  pj_header :: jwt_header
  pj_claims :: jwt_claims
  pj_signing_input :: string
  pj_signature :: blob

definition parse_jwt :: "jwt_env \<Rightarrow> string \<Rightarrow> auth_error + parsed_jwt" where
  "parse_jwt je token =
     (case split_on (CHR ''.'') token of
        [h, p, s] \<Rightarrow>
          (if h = [] \<or> p = [] \<or> s = [] then Err OAuthTokenInvalid
           else
             bind_r (decode_base64 je h) (\<lambda>hb.
             bind_r (ok_or OAuthTokenInvalid (je_header je hb)) (\<lambda>header.
             bind_r (decode_base64 je p) (\<lambda>pb.
             bind_r (ok_or OAuthTokenInvalid (je_claims je pb)) (\<lambda>claims.
             bind_r (decode_base64 je s) (\<lambda>signature.
               Ok \<lparr>pj_header = header, pj_claims = claims, pj_signing_input = h @ ''.'' @ p,
                   pj_signature = signature\<rparr>))))))
      | _ \<Rightarrow> Err OAuthTokenInvalid)"

definition parse_claim_scopes :: "jwt_claims \<Rightarrow> auth_error + scope_set" where
  "parse_claim_scopes claims =
     bind_r (case jc_scope claims of
               None \<Rightarrow> Ok []
             | Some s \<Rightarrow> parse_scope_values OAuthTokenInvalid (split_ascii_whitespace s) []) (\<lambda>scopes.
       case jc_scp claims of
         None \<Rightarrow> Ok scopes
       | Some scp \<Rightarrow> parse_scope_values OAuthTokenInvalid (claim_values scp) scopes)"

definition token_identity :: "jwt_env \<Rightarrow> string \<Rightarrow> auth_error + string \<times> string" where
  "token_identity je token =
     bind_r (parse_jwt je token) (\<lambda>jwt.
       let claims = pj_claims jwt in
       if jc_iss claims = [] \<or> jc_sub claims = [] then Err OAuthTokenInvalid
       else Ok (jc_iss claims, jc_sub claims))"

record oauth_principal =
  op_actor :: actor
  op_issuer_id :: uuid
  op_subject :: string
  op_scopes :: scope_set
  op_permissions :: "permission list"

definition claims_current :: "oauth_issuer_record \<Rightarrow> jwt_claims \<Rightarrow> int \<Rightarrow> bool" where
  \<comment> \<open>the negation of the second guard of \<open>validate_access_token\<close>\<close>
  "claims_current issuer claims now_seconds \<longleftrightarrow>
     jc_iss claims = oi_issuer_url issuer \<and> jc_sub claims \<noteq> [] \<and>
     \<not> jc_exp claims < now_seconds - CLOCK_SKEW_SECONDS \<and>
     (case jc_nbf claims of None \<Rightarrow> True | Some nbf \<Rightarrow> \<not> nbf > now_seconds + CLOCK_SKEW_SECONDS) \<and>
     oi_audience issuer \<in> set (claim_values (jc_aud claims))"

definition resource_claimed :: "string \<Rightarrow> jwt_claims \<Rightarrow> bool" where
  "resource_claimed expected claims \<longleftrightarrow>
     expected \<in> set (claim_values (jc_aud claims)) \<or>
     (case jc_resource claims of None \<Rightarrow> False | Some r \<Rightarrow> expected \<in> set (claim_values r))"

definition validate_access_token ::
  "auth_env \<Rightarrow> jwt_env \<Rightarrow> string \<Rightarrow> oauth_issuer_record \<Rightarrow> oauth_grant_record \<Rightarrow> vault_context \<Rightarrow> scope list \<Rightarrow> int \<Rightarrow>
     auth_error + oauth_principal" where
  "validate_access_token env je token issuer grant ctx required now_seconds =
     (if \<not> oi_enabled issuer \<or> (case oi_resource issuer of None \<Rightarrow> True | Some r \<Rightarrow> r = [])
         \<or> og_revoked_at grant \<noteq> None \<or> og_vault grant \<noteq> ctx_id ctx
      then Err OAuthTokenInvalid
      else
        bind_r (ok_or OAuthConfiguration (oi_jwks_cache issuer)) (\<lambda>jwks_json.
        bind_r (jwks_from_json je jwks_json) (\<lambda>jwks.
        bind_r (parse_jwt je token) (\<lambda>jwt.
          if jh_alg (pj_header jwt) \<noteq> ''RS256'' then Err OAuthTokenInvalid
          else
            bind_r (jwks_verify je jwks (jh_alg (pj_header jwt)) (jh_kid (pj_header jwt))
                (pj_signing_input jwt) (pj_signature jwt)) (\<lambda>_.
              if \<not> claims_current issuer (pj_claims jwt) now_seconds then Err OAuthTokenInvalid
              else
                bind_r (ok_or OAuthConfiguration (oi_resource issuer)) (\<lambda>expected.
                  if \<not> resource_claimed expected (pj_claims jwt) then Err OAuthTokenInvalid
                  else
                    bind_r (parse_claim_scopes (pj_claims jwt)) (\<lambda>token_scopes.
                    bind_r (parse_scopes (og_scopes grant)) (\<lambda>grant_scopes.
                    let effective = filter (scopeset_contains grant_scopes) token_scopes in
                    if \<exists>s \<in> set required. \<not> scopeset_contains effective s then Err ScopeDenied
                    else
                      bind_r (map_err AuthDomain (actor_id_new
                          (ae_uuid env (oi_id issuer) @ '':'' @ jc_sub (pj_claims jwt)))) (\<lambda>actor.
                        Ok \<lparr>op_actor = actor_identified ActorMcpOAuthSubject actor, op_issuer_id = oi_id issuer,
                            op_subject = jc_sub (pj_claims jwt), op_scopes = effective,
                            op_permissions = scopeset_permissions effective\<rparr>)))))))))"

definition auth_principal_from_oauth :: "vault_context \<Rightarrow> oauth_principal \<Rightarrow> auth_principal" where
  "auth_principal_from_oauth ctx p =
     \<lparr>pr_actor = op_actor p, pr_vault = Some (ctx_id ctx), pr_credential = None,
      pr_permissions = op_permissions p, pr_scopes = op_scopes p\<rparr>"

definition authenticate_oauth ::
  "auth_service \<Rightarrow> jwt_env \<Rightarrow> vault_context \<Rightarrow> string \<Rightarrow> scope list \<Rightarrow> int \<Rightarrow> auth_principal auth" where
  "authenticate_oauth svc je ctx token required now_seconds =
     bind_x (lift_x (token_identity je token)) (\<lambda>(issuer_url, subject).
     bind_x (repo_read (\<lambda>db. Ok (find_oauth_issuer issuer_url db))) (\<lambda>found.
     bind_x (lift_x (ok_or OAuthTokenInvalid found)) (\<lambda>issuer.
     bind_x (repo_read (find_oauth_grant ctx (oi_id issuer) subject)) (\<lambda>found.
     bind_x (lift_x (ok_or OAuthTokenInvalid found)) (\<lambda>grant.
     bind_x (lift_x (validate_access_token (as_env svc) je token issuer grant ctx required now_seconds)) (\<lambda>p.
       return_x (auth_principal_from_oauth ctx p)))))))"

section \<open>Issuers and grants\<close>

record oauth_issuer_input =
  ii_name :: string
  ii_issuer_url :: string
  ii_discovery_url :: "string option"
  ii_audience :: string
  ii_resource :: string
  ii_jwks_cache_json :: string
  ii_enabled :: bool

definition validate_url :: "auth_env \<Rightarrow> string \<Rightarrow> auth_error + unit" where
  "validate_url env value =
     bind_r (ok_or OAuthConfiguration (ae_parse_url env value)) (\<lambda>url.
       if uv_scheme url \<notin> {''http'', ''https''} \<or> uv_host url = None \<or> uv_username url \<noteq> []
          \<or> uv_password url \<noteq> None \<or> uv_query url \<noteq> None \<or> uv_fragment url \<noteq> None
       then Err OAuthConfiguration else Ok ())"

definition configure_oauth_issuer ::
  "auth_service \<Rightarrow> jwt_env \<Rightarrow> oauth_issuer_input \<Rightarrow> uuid \<Rightarrow> int \<Rightarrow> oauth_issuer_record auth" where
  "configure_oauth_issuer svc je input i state_now =
     bind_x (lift_x (validate_public_label (ii_name input))) (\<lambda>_.
     bind_x (lift_x (validate_url (as_env svc) (ii_issuer_url input))) (\<lambda>_.
     bind_x (lift_x (validate_url (as_env svc) (ii_resource input))) (\<lambda>_.
     bind_x (lift_x (case ii_discovery_url input of None \<Rightarrow> Ok () | Some u \<Rightarrow> validate_url (as_env svc) u)) (\<lambda>_.
       if ii_audience input = [] \<or> any_control (ii_audience input) then throw_x OAuthConfiguration
       else
         bind_x (lift_x (jwks_from_json je (ii_jwks_cache_json input))) (\<lambda>jwks.
         let fields = \<lparr>if_name = ii_name input, if_issuer_url = ii_issuer_url input,
               if_discovery_url = ii_discovery_url input, if_audience = ii_audience input,
               if_resource = Some (ii_resource input), if_jwks_cache = Some (jwks_to_public_json je jwks),
               if_enabled = ii_enabled input\<rparr>
         in bind_x (repo_read (\<lambda>db. Ok (find_oauth_issuer (ii_issuer_url input) db))) (\<lambda>found.
            case found of
              Some existing \<Rightarrow> repo (update_oauth_issuer state_now (oi_id existing) fields)
            | None \<Rightarrow> repo (insert_oauth_issuer state_now i fields)))))))"

definition discoverable :: "oauth_issuer_record \<Rightarrow> string option" where
  \<comment> \<open>the resource an issuer is listed under\<close>
  "discoverable issuer =
     (case oi_resource issuer of
        None \<Rightarrow> None
      | Some r \<Rightarrow> if r \<noteq> [] \<and> oi_enabled issuer \<and> oi_jwks_cache issuer \<noteq> None then Some r else None)"

definition oauth_resource_servers :: "(string \<times> string list) list auth" where
  \<comment> \<open>a \<open>BTreeMap\<close> of \<open>BTreeSet\<close>s: resources and issuers in increasing order, each once\<close>
  "oauth_resource_servers =
     bind_x (repo_read (list_oauth_issuers 1000)) (\<lambda>issuers.
       return_x (map (\<lambda>r. (r, sort (remdups (map oi_issuer_url (filter (\<lambda>i. discoverable i = Some r) issuers)))))
         (sort (remdups (List.map_filter discoverable issuers)))))"

definition grant_oauth_subject ::
  "vault_context \<Rightarrow> uuid \<Rightarrow> string \<Rightarrow> scope_set \<Rightarrow> uuid \<Rightarrow> int \<Rightarrow> oauth_grant_record auth" where
  "grant_oauth_subject ctx issuer_id subject scopes i state_now =
     (if subject = [] \<or> length subject > 512 \<or> any_control subject then throw_x AuthInvalidInput
      else if scopes = [] then throw_x ScopeDenied
      else repo (insert_oauth_grant state_now ctx i issuer_id subject (scopes_json scopes)))"

definition oauth_grants :: "vault_context \<Rightarrow> bool \<Rightarrow> nat \<Rightarrow> oauth_grant_record list auth" where
  "oauth_grants ctx include_revoked limit = repo_read (list_oauth_grants ctx include_revoked limit)"

definition revoke_oauth_subject_grant :: "vault_context \<Rightarrow> uuid \<Rightarrow> int \<Rightarrow> unit auth" where
  "revoke_oauth_subject_grant ctx i state_now = repo (revoke_oauth_grant state_now ctx i)"

end
