(* ===== verification/Auth_Safety.thy ===== *)
theory Auth_Safety
  imports OAuth_Resource
begin

text \<open>
  What the authentication service promises: a master-key rotation that stops anywhere loses no
  secret, a changed password and a new login end the sessions before them, a session, a personal
  token and an external access token are accepted only under the conditions of the code, and the
  framing of what is authenticated is unambiguous.
\<close>

section \<open>Key rotation\<close>

definition ring_plaintext :: "auth_env \<Rightarrow> master_key_ring \<Rightarrow> encrypted_secret_record \<Rightarrow> auth_error + blob" where
  "ring_plaintext env ring r =
     ring_decrypt env ring (es_key_version r) (es_nonce r) (es_ciphertext r) (es_purpose r) (es_owner_type r) (es_owner_id r)"

lemma map_of_ring_insert: "map_of (ring_insert v k ks) = (map_of ks)(v \<mapsto> k)"
  by (induction v k ks rule: ring_insert.induct) (auto simp: fun_eq_iff)

lemma rotated_key:
  assumes "with_rotated_key ring v bytes = Ok next"
  shows "kr_current next = v" "map_of (kr_keys next) = (map_of (kr_keys ring))(v \<mapsto> bytes)"
  using assms by (auto simp: with_rotated_key_def map_of_ring_insert split: if_split_asm)

lemma ring_decrypt_Ok:
  "ring_decrypt env ring v n c p ot oi = Ok m \<longleftrightarrow>
     length n = 24 \<and> (\<exists>key. map_of (kr_keys ring) v = Some key \<and> ae_open env key n (associated_data p ot oi) c = Some m)"
  by (auto simp: ring_decrypt_def bind_r_Ok_conv)

lemma ring_encrypt_Ok:
  "ring_encrypt env ring n p ot oi m = Ok x \<longleftrightarrow>
     (\<exists>key c. map_of (kr_keys ring) (kr_current ring) = Some key \<and>
        ae_seal env key n (associated_data p ot oi) m = Some c \<and>
        x = \<lparr>ep_key_version = kr_current ring, ep_nonce = n, ep_ciphertext = c\<rparr>)"
  by (auto simp: ring_encrypt_def bind_r_Ok_conv)

definition rewritten :: "int \<Rightarrow> encrypted_secret_payload \<Rightarrow> string option \<Rightarrow> encrypted_secret_record \<Rightarrow> encrypted_secret_record" where
  "rewritten now e h r = r\<lparr>es_key_version := ep_key_version e, es_nonce := ep_nonce e,
     es_ciphertext := ep_ciphertext e, es_hint := h, es_updated_at := now\<rparr>"

lemma update_secret_Ok:
  assumes "update_secret_ciphertext now j (ep_key_version e) (ep_nonce e) (ep_ciphertext e) h db = Ok (x, db')"
  shows "map es_id (ad_secrets db') = map es_id (ad_secrets db)"
    and "get_secret i db' = (if i = j then map_option (rewritten now e h) (get_secret j db) else get_secret i db)"
proof -
  have db': "db' = db\<lparr>ad_secrets := update_rows (\<lambda>r. es_id r = j) (rewritten now e h) (ad_secrets db)\<rparr>"
    using assms
    by (auto simp: update_secret_ciphertext_def Let_def rewritten_def [abs_def] split: if_split_asm option.split_asm)
  then show "map es_id (ad_secrets db') = map es_id (ad_secrets db)"
    by (simp add: map_update_rows rewritten_def)
  show "get_secret i db' = (if i = j then map_option (rewritten now e h) (get_secret j db) else get_secret i db)"
    unfolding db' get_secret_def by (simp add: find_row_update rewritten_def)
qed

text \<open>
  Other requests may insert secrets at any time, but they keep the stored ones as they are: the
  rotation is the only operation that rewrites a secret.
\<close>

definition keeps_secrets :: "(auth_db \<Rightarrow> auth_db) \<Rightarrow> bool" where
  "keeps_secrets f \<longleftrightarrow> (\<forall>db. distinct (map es_id (ad_secrets db)) \<longrightarrow>
     distinct (map es_id (ad_secrets (f db))) \<and> (\<forall>i r. get_secret i db = Some r \<longrightarrow> get_secret i (f db) = Some r))"

definition secret_bound :: "encrypted_secret_record \<Rightarrow> string \<times> string \<times> string option" where
  "secret_bound r = (es_purpose r, es_owner_type r, es_owner_id r)"

definition secret_kept ::
  "auth_env \<Rightarrow> master_key_ring \<Rightarrow> encrypted_secret_record \<Rightarrow> blob \<Rightarrow> auth_world \<Rightarrow> bool" where
  "secret_kept env next r p w \<longleftrightarrow>
     (\<forall>f \<in> set (aw_others w). keeps_secrets f) \<and> distinct (map es_id (ad_secrets (aw_db w))) \<and>
     (\<exists>r'. get_secret (es_id r) (aw_db w) = Some r' \<and> secret_bound r' = secret_bound r \<and>
        ring_plaintext env next r' = Ok p)"

definition rotation_pending ::
  "auth_env \<Rightarrow> master_key_ring \<Rightarrow> encrypted_secret_record \<Rightarrow> blob \<Rightarrow> encrypted_secret_record list \<Rightarrow> auth_world \<Rightarrow> bool" where
  \<comment> \<open>\<open>rs\<close> are the records the loop has still to visit\<close>
  "rotation_pending env next r p rs w \<longleftrightarrow>
     secret_kept env next r p w \<and> distinct (map es_id rs) \<and>
     (\<forall>x \<in> set rs. get_secret (es_id x) (aw_db w) = Some x) \<and>
     (es_id r \<in> es_id ` set rs \<or>
        (\<exists>r'. get_secret (es_id r) (aw_db w) = Some r' \<and> es_key_version r' = kr_current next))"

lemma keeps_secretsD:
  assumes "keeps_secrets f" "distinct (map es_id (ad_secrets db))"
  shows "distinct (map es_id (ad_secrets (f db)))" "get_secret i db = Some r \<Longrightarrow> get_secret i (f db) = Some r"
  using assms by (auto simp: keeps_secrets_def)

lemma rotation_pending_stable: "rotation_pending env next r p rs w \<Longrightarrow> rotation_pending env next r p rs (interfere w)"
  by (cases "aw_others w")
    (auto simp: rotation_pending_def secret_kept_def interfere_def dest: keeps_secretsD)

interpretation rotation: stable_world "rotation_pending env next r p rs" for env "next" r p rs
  by unfold_locales (rule rotation_pending_stable)

context stable_world
begin

lemma hoare_repo_all:
  assumes "\<And>w a db. J w \<Longrightarrow> f (aw_db w) = Ok (a, db) \<Longrightarrow> Q a (w\<lparr>aw_db := db\<rparr>)" and "\<And>w. J w \<Longrightarrow> E w"
  shows "hoare J (repo f) Q E"
  using assms stable unfolding hoare_iff by (auto simp: repo_def Let_def split: sum.splits prod.splits)

end

text \<open>What \<open>XChaCha20-Poly1305\<close> promises: what was sealed opens to the same bytes.\<close>

definition aead_roundtrip :: "auth_env \<Rightarrow> bool" where
  "aead_roundtrip env \<longleftrightarrow> (\<forall>k n a m c. ae_seal env k n a m = Some c \<longrightarrow> ae_open env k n a c = Some m)"

lemma rewritten_readable:
  assumes "aead_roundtrip env" "length n = 24"
    and "ring_encrypt env next n (es_purpose r) (es_owner_type r) (es_owner_id r) m = Ok e"
  shows "ring_plaintext env next (rewritten now e h r) = Ok m" "es_key_version (rewritten now e h r) = kr_current next"
    "secret_bound (rewritten now e h r) = secret_bound r" "es_id (rewritten now e h r) = es_id r"
  using assms
  by (auto simp: ring_plaintext_def rewritten_def ring_decrypt_Ok ring_encrypt_Ok aead_roundtrip_def secret_bound_def)

lemma old_key_same:
  assumes "with_rotated_key ring v bytes = Ok next" "es_key_version x \<noteq> kr_current next"
  shows "ring_plaintext env next x = ring_plaintext env ring x"
  using assms(2) rotated_key [OF assms(1)] by (simp add: ring_plaintext_def ring_decrypt_def)

lemma rotation_step:
  assumes aead: "aead_roundtrip env" "length n = 24" and rot: "with_rotated_key ring v bytes = Ok next"
    and pend: "rotation_pending env next r p (x # rs) w" and old: "es_key_version x \<noteq> kr_current next"
    and m: "ring_plaintext env ring x = Ok m"
    and e: "ring_encrypt env next n (es_purpose x) (es_owner_type x) (es_owner_id x) m = Ok e"
    and upd: "update_secret_ciphertext now (es_id x) (ep_key_version e) (ep_nonce e) (ep_ciphertext e) h (aw_db w) = Ok (y, db)"
  shows "rotation_pending env next r p rs (w\<lparr>aw_db := db\<rparr>)"
proof -
  note new = rewritten_readable [OF aead e, of now h] and get = update_secret_Ok(2) [OF upd]
  obtain r' where r': "get_secret (es_id r) (aw_db w) = Some r'" "secret_bound r' = secret_bound r"
      "ring_plaintext env next r' = Ok p"
    using pend by (auto simp: rotation_pending_def secret_kept_def)
  have x: "get_secret (es_id x) (aw_db w) = Some x" using pend by (simp add: rotation_pending_def)
  have mine: "r' = x \<and> p = m" if "es_id r = es_id x"
    using that r' x m old_key_same [OF rot old, of env] by simp
  have rest: "es_id z \<noteq> es_id x" if "z \<in> set rs" for z
    using pend that by (force simp: rotation_pending_def)
  have kept: "secret_kept env next r p (w\<lparr>aw_db := db\<rparr>)"
    using pend update_secret_Ok(1) [OF upd] r' mine new x
    by (cases "es_id r = es_id x") (simp_all add: rotation_pending_def secret_kept_def get)
  moreover have "es_id r \<in> es_id ` set rs \<or>
      (\<exists>r'. get_secret (es_id r) db = Some r' \<and> es_key_version r' = kr_current next)"
    using pend new x by (cases "es_id r = es_id x") (simp_all add: rotation_pending_def get)
  ultimately show ?thesis
    using pend rest by (simp add: rotation_pending_def get)
qed

lemma rotate_records_keeps:
  assumes aead: "aead_roundtrip (as_env svc)" "\<And>i. length (nonce i) = 24"
    and rot: "with_rotated_key (as_keys svc) v bytes = Ok next"
  shows "hoare (rotation_pending (as_env svc) next r p rs) (rotate_records svc next nonce now rs k)
    (\<lambda>_ w. rotation_pending (as_env svc) next r p [] w) (secret_kept (as_env svc) next r p)"
proof (induction rs arbitrary: k)
  case Nil
  show ?case unfolding rotate_records.simps by (rule hoare_return)
next
  case (Cons x rs)
  let ?env = "as_env svc" and ?P = "rotation_pending (as_env svc) next r p"
  have kept: "secret_kept ?env next r p w" if "?P ys w" for ys w using that by (simp add: rotation_pending_def)
  show ?case
  proof (cases "es_key_version x = kr_current next")
    case True
    then have "?P rs w" if "?P (x # rs) w" for w
      using that by (auto simp: rotation_pending_def)
    then show ?thesis unfolding rotate_records.simps if_P [OF True] by (rule hoare_pre [OF Cons.IH])
  next
    case old: False
    show ?thesis
      unfolding rotate_records.simps if_not_P [OF old]
    proof (intro hoare_bind_lift kept)
      fix m e
      assume m: "ring_decrypt ?env (as_keys svc) (es_key_version x) (es_nonce x) (es_ciphertext x) (es_purpose x)
          (es_owner_type x) (es_owner_id x) = Ok m"
        and e: "ring_encrypt ?env next (nonce (es_id x)) (es_purpose x) (es_owner_type x) (es_owner_id x) m = Ok e"
      have "hoare (?P (x # rs)) (repo (update_secret_ciphertext now (es_id x) (ep_key_version e) (ep_nonce e)
          (ep_ciphertext e) (es_hint x))) (\<lambda>_. ?P rs) (secret_kept ?env next r p)"
        using rotation_step [OF aead rot _ old _ e] m kept by (intro rotation.hoare_repo_all) (auto simp: ring_plaintext_def)
      from hoare_bind [OF this Cons.IH]
      show "hoare (?P (x # rs)) (bind_x (repo (update_secret_ciphertext now (es_id x) (ep_key_version e) (ep_nonce e)
          (ep_ciphertext e) (es_hint x))) (\<lambda>_. rotate_records svc next nonce now rs (k + 1)))
          (\<lambda>_ w. ?P [] w) (secret_kept ?env next r p)" .
    qed
  qed
qed

text \<open>
  C16: a master-key rotation loses no secret, wherever it stops. Take a secret that can be read with the
  old key ring or with the next one, whose key version is new. However \<open>rotate_secrets\<close> ends, after
  an error in the middle too, the secret is still stored for the same purpose and owner and the next
  ring decrypts it to the same bytes; if the rotation returned, the secret is encrypted under the
  new key, so that the old keys can be retired. Other requests may insert secrets meanwhile.
\<close>

theorem rotate_secrets_lose_nothing:
  assumes aead: "aead_roundtrip (as_env svc)" and nonce: "\<forall>i. length (nonce i) = 24"
    and rot: "with_rotated_key (as_keys svc) version bytes = Ok next"
    and fresh: "version \<notin> set (ring_versions (as_keys svc))"
    and others: "\<forall>f \<in> set (aw_others w). keeps_secrets f"
    and ids: "distinct (map es_id (ad_secrets (aw_db w)))"
    and r: "get_secret i (aw_db w) = Some r"
      "ring_plaintext (as_env svc) (as_keys svc) r = Ok p \<or> ring_plaintext (as_env svc) next r = Ok p"
    and run: "rotate_secrets svc next nonce now w = (res, w')"
  shows "\<exists>r'. get_secret i (aw_db w') = Some r' \<and> secret_bound r' = secret_bound r \<and>
      ring_plaintext (as_env svc) next r' = Ok p \<and> (\<forall>n. res = Ok n \<longrightarrow> es_key_version r' = version)"
proof -
  have i: "es_id r = i" using find_row_Some [OF r(1) [unfolded get_secret_def]] by simp
  have "map_of (kr_keys (as_keys svc)) version = None"
    using fresh by (simp add: ring_versions_def map_of_eq_None_iff)
  then have "es_key_version r \<noteq> kr_current next" if "ring_plaintext (as_env svc) (as_keys svc) r = Ok p"
    using that rotated_key(1) [OF rot] by (auto simp: ring_plaintext_def ring_decrypt_Ok)
  with r(2) have p: "ring_plaintext (as_env svc) next r = Ok p" using old_key_same [OF rot, of r] by metis
  have listed: "rotation_pending (as_env svc) next r p (list_secrets (aw_db w1)) w1"
    if "rotation_pending (as_env svc) next r p [r] w1" for w1
  proof -
    have ids: "distinct (map es_id (ad_secrets (aw_db w1)))" and r1: "get_secret (es_id r) (aw_db w1) = Some r"
      using that by (auto simp: rotation_pending_def secret_kept_def)
    have "distinct (map es_id (list_secrets (aw_db w1)))" using ids by (simp add: list_secrets_def distinct_map)
    moreover have "get_secret (es_id x) (aw_db w1) = Some x" if "x \<in> set (list_secrets (aw_db w1))" for x
      using that find_row_key_unique [OF ids] by (auto simp: list_secrets_def get_secret_def)
    moreover have "r \<in> set (list_secrets (aw_db w1))"
      using find_row_Some [OF r1 [unfolded get_secret_def]] by (simp add: list_secrets_def)
    ultimately show ?thesis using that by (simp add: rotation_pending_def)
  qed
  have "hoare (rotation_pending (as_env svc) next r p [r]) (rotate_secrets svc next nonce now)
      (\<lambda>_. rotation_pending (as_env svc) next r p []) (secret_kept (as_env svc) next r p)"
    unfolding rotate_secrets_def repo_read_def
    by (rule hoare_bind [OF rotation.hoare_repo_all rotate_records_keeps [OF aead _ rot]])
      (use listed nonce in \<open>auto simp: rotation_pending_def\<close>)
  from hoareD [OF this _ run] show ?thesis
    using others ids r(1) p i rotated_key(1) [OF rot]
    by (auto simp: rotation_pending_def secret_kept_def split: sum.splits)
qed

section \<open>The transactions of the auth repository\<close>

datatype auth_tx =
    TxKeyCheck nat blob
  | TxInsertSecret int uuid string string "string option" nat blob blob "string option"
  | TxUpdateSecret int uuid nat blob blob "string option"
  | TxInsertUser int uuid string string
  | TxFirstUser int uuid string string
  | TxPassword int uuid string
  | TxInsertSession uuid uuid blob blob nat int int "string option" "blob option"
  | TxTouchSession uuid int
  | TxRevokeSession int uuid
  | TxRevokeSessions int uuid
  | TxInsertWebdav int vault_context credential_id string string string "permission list" "int option"
  | TxTouchWebdav vault_context credential_id int
  | TxUpdateWebdav vault_context credential_id string "permission list" "int option"
  | TxRevokeWebdav int vault_context credential_id
  | TxInsertToken int vault_context credential_id string string blob nat "string list" "int option"
  | TxTouchToken vault_context credential_id int
  | TxRevokeToken int vault_context credential_id
  | TxInsertIssuer int uuid issuer_fields
  | TxUpdateIssuer int uuid issuer_fields
  | TxInsertGrant int vault_context uuid uuid string "string list"
  | TxRevokeGrant int vault_context uuid
  | TxLocalOAuth oauth_tx

fun auth_apply :: "auth_tx \<Rightarrow> auth_db \<Rightarrow> state_error + auth_db" where
  "auth_apply (TxKeyCheck version digest) db = discard (insert_installation_key_check_if_absent version digest db)"
| "auth_apply (TxInsertSecret now i purpose otype oid version nonce ciphertext hint) db =
     discard (insert_secret now i purpose otype oid version nonce ciphertext hint db)"
| "auth_apply (TxUpdateSecret now i version nonce ciphertext hint) db =
     discard (update_secret_ciphertext now i version nonce ciphertext hint db)"
| "auth_apply (TxInsertUser now i name hash) db = discard (insert_admin_user now i name hash db)"
| "auth_apply (TxFirstUser now i name hash) db = discard (insert_first_admin_user now i name hash db)"
| "auth_apply (TxPassword now i hash) db = discard (update_admin_password now i hash db)"
| "auth_apply (TxInsertSession i user digest csrf version created expires ip agent) db =
     discard (insert_admin_session i user digest csrf version created expires ip agent db)"
| "auth_apply (TxTouchSession i seen) db = discard (touch_admin_session i seen db)"
| "auth_apply (TxRevokeSession now i) db = discard (revoke_admin_session now i db)"
| "auth_apply (TxRevokeSessions now user) db = discard (revoke_admin_sessions now user db)"
| "auth_apply (TxInsertWebdav now ctx i name username hash permissions expires) db =
     discard (insert_webdav_credential now ctx i name username hash permissions expires db)"
| "auth_apply (TxTouchWebdav ctx i used) db = discard (touch_webdav_credential ctx i used db)"
| "auth_apply (TxUpdateWebdav ctx i name permissions expires) db =
     discard (update_webdav_credential_row ctx i name permissions expires db)"
| "auth_apply (TxRevokeWebdav now ctx i) db = discard (revoke_webdav_credential_row now ctx i db)"
| "auth_apply (TxInsertToken now ctx i name pre digest version scopes expires) db =
     discard (insert_mcp_token now ctx i name pre digest version scopes expires db)"
| "auth_apply (TxTouchToken ctx i used) db = discard (touch_mcp_token ctx i used db)"
| "auth_apply (TxRevokeToken now ctx i) db = discard (revoke_mcp_token now ctx i db)"
| "auth_apply (TxInsertIssuer now i f) db = discard (insert_oauth_issuer now i f db)"
| "auth_apply (TxUpdateIssuer now i f) db = discard (update_oauth_issuer now i f db)"
| "auth_apply (TxInsertGrant now ctx i issuer subject scopes) db =
     discard (insert_oauth_grant now ctx i issuer subject scopes db)"
| "auth_apply (TxRevokeGrant now ctx i) db = discard (revoke_oauth_grant now ctx i db)"
| "auth_apply (TxLocalOAuth tx) db = oauth_apply tx db"

definition auth_next :: "auth_tx \<Rightarrow> auth_db \<Rightarrow> auth_db" where
  \<comment> \<open>a transaction that fails is rolled back\<close>
  "auth_next tx db = (case auth_apply tx db of Err _ \<Rightarrow> db | Ok db' \<Rightarrow> db')"

definition auth_run :: "auth_tx list \<Rightarrow> auth_db \<Rightarrow> auth_db" where
  "auth_run txs db = fold auth_next txs db"

fun opened_session :: "auth_tx \<Rightarrow> uuid option" where
  "opened_session (TxInsertSession i user digest csrf version created expires ip agent) = Some user"
| "opened_session _ = None"

section \<open>Admin sessions\<close>

definition sessions_ended :: "uuid \<Rightarrow> auth_db \<Rightarrow> bool" where
  "sessions_ended u db \<longleftrightarrow> (\<forall>s \<in> set (ad_sessions db). se_user_id s = u \<longrightarrow> se_revoked_at s \<noteq> None)"

definition no_login :: "uuid \<Rightarrow> auth_world \<Rightarrow> bool" where
  \<comment> \<open>the other requests run any transactions of the repository but the opening of a session for \<open>u\<close>\<close>
  "no_login u w \<longleftrightarrow>
     (\<forall>f \<in> set (aw_others w). \<exists>txs. f = auth_run txs \<and> (\<forall>tx \<in> set txs. opened_session tx \<noteq> Some u))"

lemma insert_session_Ok:
  assumes "insert_admin_session i v d c k t e ip agent db = Ok (y, db')"
  shows "y = \<lparr>se_id = i, se_user_id = v, se_token_digest = d, se_csrf_secret_digest = c,
      se_digest_key_version = k, se_created_at = t, se_last_seen_at = t,
      se_expires_at = e, se_source_ip = ip, se_user_agent_hash = agent, se_revoked_at = None\<rparr>"
    "db' = db\<lparr>ad_sessions := ad_sessions db @ [y]\<rparr>" "find_admin_session_by_id i db = None" "find_admin_session d db = None"
    "get_admin_user v db \<noteq> None"
  using assms unfolding insert_admin_session_def Let_def by (simp_all split: if_split_asm) blast

text \<open>Of the repository's operations on sessions, only the insertion for this user opens one.\<close>

lemma sessions_ended_ops:
  "sessions_ended u db \<Longrightarrow> touch_admin_session i t db = Ok (x, db') \<Longrightarrow> sessions_ended u db'"
  "sessions_ended u db \<Longrightarrow> revoke_admin_session t i db = Ok (x, db') \<Longrightarrow> sessions_ended u db'"
  "sessions_ended u db \<Longrightarrow> revoke_admin_sessions t v db = Ok (x, db') \<Longrightarrow> sessions_ended u db'"
  subgoal by (auto simp: sessions_ended_def touch_admin_session_def set_update_rows)
  subgoal by (auto simp: sessions_ended_def revoke_admin_session_def set_update_rows coalesce_at_def)
  subgoal by (auto simp: sessions_ended_def revoke_admin_sessions_def set_update_rows coalesce_at_def)
  done

lemma sessions_ended_insert:
  assumes "sessions_ended u db" "v \<noteq> u" "insert_admin_session i v d c k t e ip agent db = Ok (y, db')"
  shows "sessions_ended u db'"
  using assms(1,2) insert_session_Ok(1,2) [OF assms(3)] by (simp add: sessions_ended_def)

lemma oauth_keeps_sessions:
  assumes "oauth_apply tx db = Ok db'"
  shows "ad_sessions db' = ad_sessions db"
  using assms
  by (cases tx)
    (auto simp: upsert_local_oauth_user_def disable_local_oauth_user_row_def insert_oauth_client_def
      insert_oauth_authorization_request_def complete_oauth_authorization_request_def
      consume_oauth_code_and_insert_tokens_def touch_oauth_access_token_def rotate_oauth_refresh_token_def
      revoke_oauth_token_family_def cleanup_local_oauth_def insert_access_def insert_refresh_def
      revoke_user_state_def delete_clients_def bind_r_Ok_conv Let_def
      split: if_split_asm option.split_asm sum.split_asm)

fun session_tx :: "auth_tx \<Rightarrow> bool" where
  "session_tx (TxInsertSession i user digest csrf version created expires ip agent) = True"
| "session_tx (TxTouchSession i seen) = True"
| "session_tx (TxRevokeSession now i) = True"
| "session_tx (TxRevokeSessions now user) = True"
| "session_tx _ = False"

lemma other_tx_keeps_sessions:
  assumes "\<not> session_tx tx" "auth_apply tx db = Ok db'"
  shows "ad_sessions db' = ad_sessions db"
  using assms
proof (cases tx)
  case (TxLocalOAuth otx)
  then show ?thesis using assms(2) oauth_keeps_sessions by simp
qed (auto simp: insert_installation_key_check_if_absent_def insert_secret_def update_secret_ciphertext_def
      insert_admin_user_def insert_first_admin_user_def update_admin_password_def insert_webdav_credential_def
      touch_webdav_credential_def update_webdav_credential_row_def revoke_webdav_credential_row_def
      insert_mcp_token_def touch_mcp_token_def revoke_mcp_token_def insert_oauth_issuer_def
      update_oauth_issuer_def insert_oauth_grant_def revoke_oauth_grant_def update_webdav_def
      update_mcp_def bind_r_Ok_conv Let_def split: if_split_asm option.split_asm)

lemma auth_keeps_ended:
  assumes ended: "sessions_ended u db" and tx: "opened_session tx \<noteq> Some u" "auth_apply tx db = Ok db'"
  shows "sessions_ended u db'"
proof (cases "session_tx tx")
  case True
  then show ?thesis using tx sessions_ended_ops(1-3) [OF ended] sessions_ended_insert [OF ended] by (cases tx) auto
next
  case False
  then show ?thesis using other_tx_keeps_sessions [OF False tx(2)] ended by (simp add: sessions_ended_def)
qed

lemma auth_run_ended:
  assumes "sessions_ended u db" "\<forall>tx \<in> set txs. opened_session tx \<noteq> Some u"
  shows "sessions_ended u (auth_run txs db)"
  unfolding auth_run_def using assms
proof (induction txs arbitrary: db)
  case (Cons tx txs)
  then show ?case by (auto simp: auth_next_def intro: auth_keeps_ended split: sum.split)
qed simp

lemma revoke_ends:
  assumes "revoke_admin_sessions t u db = Ok (x, db')"
  shows "sessions_ended u db'"
proof -
  have "ad_sessions db' = update_rows (\<lambda>s. se_user_id s = u \<and> se_revoked_at s = None)
      (\<lambda>s. s\<lparr>se_revoked_at := coalesce_at (se_revoked_at s) t\<rparr>) (ad_sessions db)"
    using assms by (auto simp: revoke_admin_sessions_def)
  then show ?thesis unfolding sessions_ended_def by (simp only:, intro update_rows_all) (simp_all add: coalesce_at_def)
qed

definition ended_world :: "uuid \<Rightarrow> auth_world \<Rightarrow> bool" where
  "ended_world u w \<longleftrightarrow> sessions_ended u (aw_db w) \<and> no_login u w"

lemma ended_world_stable: "ended_world u w \<Longrightarrow> ended_world u (interfere w)"
  by (cases "aw_others w") (auto simp: ended_world_def interfere_def no_login_def intro: auth_run_ended)

interpretation ended: stable_world "ended_world u" for u
  by unfold_locales (rule ended_world_stable)

lemma repo_read_Ok: "repo_read f w = (Ok a, w') \<longleftrightarrow> f (aw_db w') = Ok a \<and> w' = interfere w"
  by (auto simp: repo_read_def repo_def Let_def bind_r_def split: sum.splits)

lemma repo_Ok: "repo f w = (Ok a, w') \<longleftrightarrow> (\<exists>db. f (aw_db (interfere w)) = Ok (a, db) \<and> w' = (interfere w)\<lparr>aw_db := db\<rparr>)"
  by (auto simp: repo_def Let_def split: sum.splits)

lemma ended_find_session:
  "hoare (ended_world u) (find_session svc token)
     (\<lambda>s w. ended_world u w \<and> (se_user_id s = u \<longrightarrow> se_revoked_at s \<noteq> None)) (\<lambda>_. True)"
proof -
  have "hoare (ended_world u) (find_session_optional svc token)
      (\<lambda>r w. ended_world u w \<and> (\<forall>s. r = Some s \<longrightarrow> se_user_id s = u \<longrightarrow> se_revoked_at s \<noteq> None)) (\<lambda>_. True)"
    unfolding find_session_optional_def
    apply (intro hoare_splits(1) hoare_return ended.hoare_find_versions hoare_bind_lift)
      apply simp_all
    apply (rule hoare_bind [OF ended.hoare_repo_read [where P = "\<lambda>r. \<forall>s. r = Some s \<longrightarrow> se_user_id s = u \<longrightarrow> se_revoked_at s \<noteq> None"]])
     apply (auto simp: find_admin_session_def ended_world_def sessions_ended_def hoare_def split: option.splits
        dest!: find_row_Some)
    done
  from hoare_bind [OF this hoare_lift] show ?thesis
    unfolding find_session_def by (rule hoare_conseq) auto
qed

lemma admin_session_run:
  assumes "authenticate_admin_session svc token csrf headers m allowed now t w = (Ok p, w')"
  obtains s w1 usr idle where
    "find_session svc token w = (Ok s, w1)" "se_revoked_at s = None"
    "get_admin_user (se_user_id s) (aw_db (interfere w1)) = Some usr" "an_user_id p = us_id usr"
    "validate_admin_request (as_env svc) allowed headers m = Ok ()" "now < se_expires_at s"
    "duration_millis (as_idle_timeout svc) = Ok idle" "sat_i64 (now - se_last_seen_at s) \<le> idle"
    "is_safe_method m \<or> csrf_check svc csrf s = Ok ()" "\<not> us_disabled usr" "an_username p = us_username usr"
    "repo (touch_admin_session (se_id s) now) (interfere w1) = (Ok (), w')"
  using assms unfolding authenticate_admin_session_def
  by (clarsimp simp: bind_x_Ok_conv repo_read_Ok split: if_split_asm)

text \<open>
  C17: a changed password ends every session of the administrator. Once \<open>change_admin_password\<close> has
  returned, and as long as no session is opened for this user, no request is authenticated as this
  user, whichever token, headers and method it carries and whatever transactions of the auth
  repository other requests run before and between the steps of the check: any finite sequence of
  the writes of auth.rs and auth/local_oauth.rs, touching and revoking sessions of this user and
  opening sessions of others included.
\<close>

theorem password_change_ends_sessions:
  assumes change: "change_admin_password svc u current new salt t w = (Ok (), w1)"
    and others: "no_login u w1"
    and auth: "authenticate_admin_session svc token csrf headers m allowed now t' w1 = (Ok p, w2)"
  shows "an_user_id p \<noteq> u"
proof -
  have "ended_world u w1"
    using change others revoke_ends by (auto simp: change_admin_password_def bind_x_Ok_conv repo_Ok ended_world_def split: if_split_asm)
  from auth obtain s w3 usr where s: "find_session svc token w1 = (Ok s, w3)" "se_revoked_at s = None"
    and user: "get_admin_user (se_user_id s) (aw_db (interfere w3)) = Some usr" "an_user_id p = us_id usr"
    by (rule admin_session_run)
  have "se_user_id s \<noteq> u" using hoareD [OF ended_find_session \<open>ended_world u w1\<close> s(1)] s(2) by auto
  with user show ?thesis by (auto simp: get_admin_user_def dest!: find_row_Some)
qed

text \<open>The transactions that run during an operation are the first ones of its world.\<close>

definition fewer_others :: "auth_world \<Rightarrow> auth_world \<Rightarrow> bool" where
  "fewer_others w w' \<longleftrightarrow> set (aw_others w') \<subseteq> set (aw_others w)"

lemma interfere_fewer: "fewer_others w (interfere w)"
  by (cases "aw_others w") (auto simp: fewer_others_def interfere_def)

lemma repo_fewer: "repo f w = (r, w') \<Longrightarrow> fewer_others w w'"
  using interfere_fewer [of w] by (auto simp: repo_def Let_def fewer_others_def split: sum.split_asm)

lemma open_session_run:
  assumes "open_admin_session svc user ip agent d w = (Ok l, w')"
  obtains w1 timeout td cd ip' y where
    "repo (revoke_admin_sessions (ld_state_now d) (us_id user)) w = (Ok (), w1)"
    "duration_millis (as_absolute_timeout svc) = Ok timeout"
    "keyed_digest (as_env svc) (as_keys svc) SESSION_DIGEST_PURPOSE (al_session_token l) = Ok td"
    "keyed_digest (as_env svc) (as_keys svc) CSRF_DIGEST_PURPOSE (al_csrf_token l) = Ok cd"
    "repo (insert_admin_session (al_session_id l) (us_id user) td cd (kr_current (as_keys svc)) (ld_now d)
       (al_expires_at l) ip' (map_option (ae_sha256 (as_env svc)) agent)) w1 = (Ok y, w')"
    "al_user_id l = us_id user" "al_username l = us_username user"
    "prefix SESSION_LABEL (al_session_token l)" "al_expires_at l = sat_i64 (ld_now d + timeout)"
  using assms unfolding open_admin_session_def Let_def
  by (clarsimp simp: bind_x_Ok_conv generate_bearer_token_def)

lemma limit_check_keeps: "limit_check key now w = (r, w') \<Longrightarrow> aw_db w' = aw_db w \<and> aw_others w' = aw_others w"
  by (auto simp: limit_check_def split: prod.splits)

lemma login_run:
  assumes "login_admin svc username password ip agent d w = (Ok l, w')"
  obtains name user w0 w1 stale where
    "normalize_username username = Ok name" "aw_db w0 = aw_db (interfere w)" "aw_others w0 = aw_others (interfere w)"
    "find_admin_user_by_username name (aw_db w0) = Some user" "\<not> us_disabled user"
    "password_verify (as_env svc) (us_password_hash user) password = Ok (True, stale)"
    "if stale then \<exists>hash. repo (update_admin_password (ld_state_now d) (us_id user) hash) w0 = (Ok (), w1) else w1 = w0"
    "open_admin_session svc user ip agent d w1 = (Ok l, w')"
proof -
  have inter: "aw_db (interfere a) = aw_db (interfere b) \<and> aw_others (interfere a) = aw_others (interfere b)"
    if "aw_db a = aw_db b" "aw_others a = aw_others b" for a b
    using that by (simp add: interfere_def split: list.split)
  obtain name wl user w1 v where run: "normalize_username username = Ok name"
    "limit_check (source_or_unknown ip @ NUL # name) (ld_checked_at d) w = (Ok (), wl)"
    "find_admin_user_by_username name (aw_db (interfere wl)) = Some user"
    "password_verify (as_env svc) (us_password_hash user) password = Ok v"
    "\<not> us_disabled user" "fst v"
    "(if snd v then bind_x (lift_x (password_hash (as_env svc) (as_minimum_bytes svc) (ld_salt d) password))
        (\<lambda>new_hash. repo (update_admin_password (ld_state_now d) (us_id user) new_hash)) else return_x ())
       ((interfere wl)\<lparr>aw_limiter := limiter_success (source_or_unknown ip @ NUL # name) (aw_limiter (interfere wl))\<rparr>) = (Ok (), w1)"
    "open_admin_session svc user ip agent d w1 = (Ok l, w')"
    using assms unfolding login_admin_def Let_def
    by (clarsimp simp: bind_x_Ok_conv repo_read_Ok limit_failure_def limit_success_def
        split: option.split_asm if_split_asm)
  have v: "v = (True, snd v)" using run(6) by (simp add: prod_eq_iff)
  show thesis
    by (rule that [of name "(interfere wl)\<lparr>aw_limiter := limiter_success (source_or_unknown ip @ NUL # name) (aw_limiter (interfere wl))\<rparr>"
          user "snd v" w1])
      (use run v inter [of wl w] limit_check_keeps [OF run(2)] in \<open>auto simp: bind_x_Ok_conv split: if_split_asm\<close>)
qed

text \<open>
  A login leaves the user exactly one open session, the one it returns. If \<open>login_admin\<close> returns
  while the other requests open no session for this user, every session of the user that is not
  revoked is the new one: it has the returned identifier and expiry, and its row holds the keyed
  digests of the returned session and CSRF tokens.
\<close>

theorem login_opens_only_session:
  assumes login: "login_admin svc username password ip agent d w = (Ok l, w')"
    and others: "no_login (al_user_id l) w"
  shows "\<exists>s. filter (\<lambda>s. se_user_id s = al_user_id l \<and> se_revoked_at s = None) (ad_sessions (aw_db w')) = [s] \<and>
      se_id s = al_session_id l \<and> se_expires_at s = al_expires_at l \<and>
      keyed_digest (as_env svc) (as_keys svc) SESSION_DIGEST_PURPOSE (al_session_token l) = Ok (se_token_digest s) \<and>
      keyed_digest (as_env svc) (as_keys svc) CSRF_DIGEST_PURPOSE (al_csrf_token l) = Ok (se_csrf_secret_digest s)"
proof -
  obtain name user w0 w1 stale where run: "aw_others w0 = aw_others (interfere w)"
    "if stale then \<exists>hash. repo (update_admin_password (ld_state_now d) (us_id user) hash) w0 = (Ok (), w1) else w1 = w0"
    "open_admin_session svc user ip agent d w1 = (Ok l, w')"
    using login by (rule login_run)
  from run(3) obtain w2 timeout td cd ip' y where
    revoke: "repo (revoke_admin_sessions (ld_state_now d) (us_id user)) w1 = (Ok (), w2)" and
    digests: "keyed_digest (as_env svc) (as_keys svc) SESSION_DIGEST_PURPOSE (al_session_token l) = Ok td"
      "keyed_digest (as_env svc) (as_keys svc) CSRF_DIGEST_PURPOSE (al_csrf_token l) = Ok cd" and
    insert: "repo (insert_admin_session (al_session_id l) (us_id user) td cd (kr_current (as_keys svc)) (ld_now d)
       (al_expires_at l) ip' (map_option (ae_sha256 (as_env svc)) agent)) w2 = (Ok y, w')" and
    user: "al_user_id l = us_id user"
    by (rule open_session_run)
  have "fewer_others w w0" using run(1) interfere_fewer [of w] by (simp add: fewer_others_def)
  moreover have "fewer_others w0 w1" using run(2) by (cases stale) (auto simp: fewer_others_def dest!: repo_fewer)
  ultimately have "fewer_others w w2" using repo_fewer [OF revoke] by (auto simp: fewer_others_def)
  then have "ended_world (us_id user) w2"
    using revoke others user by (auto simp: ended_world_def no_login_def fewer_others_def repo_Ok intro: revoke_ends)
  then have ended: "sessions_ended (us_id user) (aw_db (interfere w2))"
    using ended_world_stable by (auto simp: ended_world_def)
  obtain db where ins: "insert_admin_session (al_session_id l) (us_id user) td cd (kr_current (as_keys svc)) (ld_now d)
       (al_expires_at l) ip' (map_option (ae_sha256 (as_env svc)) agent) (aw_db (interfere w2)) = Ok (y, db)"
     "w' = (interfere w2)\<lparr>aw_db := db\<rparr>"
    using insert by (auto simp: repo_Ok)
  note row = insert_session_Ok(1,2) [OF ins(1)]
  have "filter (\<lambda>s. se_user_id s = us_id user \<and> se_revoked_at s = None) (ad_sessions (aw_db (interfere w2))) = []"
    using ended by (auto simp: sessions_ended_def filter_empty_conv)
  then show ?thesis using row ins(2) digests user by (intro exI [of _ y]) simp
qed

lemma find_versions_hit:
  assumes "v \<in> set vs" "f v w = (Ok (Some x), w)" "\<And>u. u \<in> set vs \<Longrightarrow> u \<noteq> v \<Longrightarrow> f u w = (Ok None, w)"
  shows "find_versions f vs w = (Ok (Some x), w)"
  using assms
proof (induction vs)
  case (Cons u us)
  then show ?case by (cases "u = v") (auto simp: bind_x_def)
qed simp

lemma repo_read_alone: "aw_others w = [] \<Longrightarrow> repo_read (\<lambda>db. Ok (g db)) w = (Ok (g (aw_db w)), w)"
  by (simp add: repo_read_def repo_def interfere_def)

lemma keyed_version: "v \<in> set (ring_versions ring) \<Longrightarrow> \<exists>d. keyed_digest_for env ring v purpose token = Ok d"
  unfolding keyed_digest_for_def ring_versions_def
  by (cases "map_of (kr_keys ring) v") (auto simp: map_of_eq_None_iff image_iff)

lemma keyed_current: "keyed_digest env ring purpose token = Ok d \<Longrightarrow> kr_current ring \<in> set (ring_versions ring)"
  by (auto simp: keyed_digest_def keyed_digest_for_def bind_r_Ok_conv ring_versions_def dest!: map_of_SomeD intro: rev_image_eqI)

text \<open>A token resolves to its row when no older key gives the digest of another stored row.\<close>

lemma find_new_session:
  assumes "aw_others w = []" "prefix SESSION_LABEL token"
    and "keyed_digest (as_env svc) (as_keys svc) SESSION_DIGEST_PURPOSE token = Ok (se_token_digest s)"
    and "find_admin_session (se_token_digest s) (aw_db w) = Some s" "se_digest_key_version s = kr_current (as_keys svc)"
    and older: "\<And>v dg x. v \<in> set (ring_versions (as_keys svc)) \<Longrightarrow> v \<noteq> kr_current (as_keys svc) \<Longrightarrow>
      keyed_digest_for (as_env svc) (as_keys svc) v SESSION_DIGEST_PURPOSE token = Ok dg \<Longrightarrow>
      find_admin_session dg (aw_db w) = Some x \<Longrightarrow> se_digest_key_version x \<noteq> v"
  shows "find_session svc token w = (Ok s, w)"
proof -
  have "find_session_optional svc token w = (Ok (Some s), w)"
    unfolding find_session_optional_def using assms(2)
  proof (simp only: not_True_eq_False if_False, intro find_versions_hit [OF keyed_current [OF assms(3)]])
    fix v assume v: "v \<in> set (ring_versions (as_keys svc))" "v \<noteq> kr_current (as_keys svc)"
    obtain dg where dg: "keyed_digest_for (as_env svc) (as_keys svc) v SESSION_DIGEST_PURPOSE token = Ok dg"
      using keyed_version [OF v(1)] by blast
    show "bind_x (lift_x (keyed_digest_for (as_env svc) (as_keys svc) v SESSION_DIGEST_PURPOSE token)) (\<lambda>digest.
        bind_x (repo_read (\<lambda>db. Ok (find_admin_session digest db))) (\<lambda>found.
          return_x (case found of Some s \<Rightarrow> if se_digest_key_version s = v then Some s else None | None \<Rightarrow> None))) w = (Ok None, w)"
      using older [OF v dg] by (simp add: dg bind_x_def repo_read_alone [OF assms(1)] split: option.split)
  qed (use assms in \<open>simp add: keyed_digest_def bind_x_def repo_read_alone\<close>)
  then show ?thesis by (simp add: find_session_def bind_x_def)
qed

lemma login_user_alone:
  assumes alone: "aw_others w = []" and ids: "distinct (map us_id (ad_users (aw_db w)))"
    and login: "login_admin svc username password ip agent d w = (Ok l, w')"
  obtains user w1 usr where "aw_others w1 = []" "ad_sessions (aw_db w1) = ad_sessions (aw_db w)"
    "get_admin_user (us_id user) (aw_db w1) = Some usr" "\<not> us_disabled usr" "us_id usr = us_id user"
    "us_username usr = us_username user" "open_admin_session svc user ip agent d w1 = (Ok l, w')"
proof -
  obtain name user w0 w1 stale where run: "aw_db w0 = aw_db (interfere w)" "aw_others w0 = aw_others (interfere w)"
    "find_admin_user_by_username name (aw_db w0) = Some user" "\<not> us_disabled user"
    "if stale then \<exists>hash. repo (update_admin_password (ld_state_now d) (us_id user) hash) w0 = (Ok (), w1) else w1 = w0"
    "open_admin_session svc user ip agent d w1 = (Ok l, w')"
    using login by (rule login_run)
  have w0: "aw_db w0 = aw_db w" "aw_others w0 = []" using run(1,2) alone by (simp_all add: interfere_def)
  have user: "get_admin_user (us_id user) (aw_db w) = Some user"
    using run(3) w0(1) find_row_key_unique [OF ids]
    by (auto simp: find_admin_user_by_username_def get_admin_user_def dest!: find_row_Some)
  show thesis
  proof (cases stale)
    case True
    then obtain hash where "repo (update_admin_password (ld_state_now d) (us_id user) hash) w0 = (Ok (), w1)"
      using run(5) by auto
    then show thesis using that [of w1 user] run(4,6) user w0
      by (auto simp: repo_Ok_alone update_admin_password_def get_admin_user_def find_row_update split: if_split_asm)
  next
    case False
    then show thesis using that [of w1 user user] run(4-6) user w0 by simp
  qed
qed

lemma login_state_alone:
  assumes alone: "aw_others w = []" and ids: "distinct (map us_id (ad_users (aw_db w)))"
    and login: "login_admin svc username password ip agent d w = (Ok l, w')"
  obtains s usr where
    "aw_others w' = []" "find_admin_session (se_token_digest s) (aw_db w') = Some s"
    "\<forall>dg x. find_admin_session dg (aw_db w') = Some x \<longrightarrow> x = s \<or> find_admin_session dg (aw_db w) \<noteq> None"
    "keyed_digest (as_env svc) (as_keys svc) SESSION_DIGEST_PURPOSE (al_session_token l) = Ok (se_token_digest s)"
    "keyed_digest (as_env svc) (as_keys svc) CSRF_DIGEST_PURPOSE (al_csrf_token l) = Ok (se_csrf_secret_digest s)"
    "se_user_id s = al_user_id l" "se_revoked_at s = None" "se_expires_at s = al_expires_at l"
    "se_last_seen_at s = ld_now d" "se_digest_key_version s = kr_current (as_keys svc)"
    "prefix SESSION_LABEL (al_session_token l)"
    "get_admin_user (al_user_id l) (aw_db w') = Some usr" "\<not> us_disabled usr" "us_id usr = al_user_id l"
    "us_username usr = al_username l"
proof -
  obtain user w1 usr where w1: "aw_others w1 = []" "ad_sessions (aw_db w1) = ad_sessions (aw_db w)"
    and usr: "get_admin_user (us_id user) (aw_db w1) = Some usr" "\<not> us_disabled usr" "us_id usr = us_id user"
    "us_username usr = us_username user" and opened: "open_admin_session svc user ip agent d w1 = (Ok l, w')"
    using alone ids login by (rule login_user_alone)
  from opened obtain w2 timeout td cd ip' y where
    revoke: "repo (revoke_admin_sessions (ld_state_now d) (us_id user)) w1 = (Ok (), w2)" and
    digests: "keyed_digest (as_env svc) (as_keys svc) SESSION_DIGEST_PURPOSE (al_session_token l) = Ok td"
      "keyed_digest (as_env svc) (as_keys svc) CSRF_DIGEST_PURPOSE (al_csrf_token l) = Ok cd" and
    ins: "repo (insert_admin_session (al_session_id l) (us_id user) td cd (kr_current (as_keys svc)) (ld_now d)
       (al_expires_at l) ip' (map_option (ae_sha256 (as_env svc)) agent)) w2 = (Ok y, w')" and
    l: "al_user_id l = us_id user" "al_username l = us_username user" "prefix SESSION_LABEL (al_session_token l)"
    by (rule open_session_run)
  have w2: "aw_others w2 = []" "ad_users (aw_db w2) = ad_users (aw_db w1)"
      "find_admin_session dg (aw_db w2) = None \<longleftrightarrow> find_admin_session dg (aw_db w) = None" for dg
    using revoke w1 by (auto simp: repo_Ok_alone revoke_admin_sessions_def find_admin_session_def find_row_update_keep)
  obtain db where db: "insert_admin_session (al_session_id l) (us_id user) td cd (kr_current (as_keys svc)) (ld_now d)
       (al_expires_at l) ip' (map_option (ae_sha256 (as_env svc)) agent) (aw_db w2) = Ok (y, db)" "w' = w2\<lparr>aw_db := db\<rparr>"
    using ins w2(1) by (auto simp: repo_Ok_alone)
  note row = insert_session_Ok [OF db(1)]
  have find: "find_admin_session dg db = (case find_admin_session dg (aw_db w2) of Some x \<Rightarrow> Some x
      | None \<Rightarrow> if td = dg then Some y else None)" for dg
    using row(1,2) by (simp add: find_admin_session_def find_row_append split: option.split)
  show thesis
  proof (rule that [of y usr])
    show "\<forall>dg x. find_admin_session dg (aw_db w') = Some x \<longrightarrow> x = y \<or> find_admin_session dg (aw_db w) \<noteq> None"
      unfolding w2(3) [symmetric] by (auto simp: db(2) find split: option.split_asm if_split_asm)
    have "se_token_digest y = td" using row(1) by simp
    then show "find_admin_session (se_token_digest y) (aw_db w') = Some y" using find [of td] row(4) by (simp add: db(2))
  qed (use row db(2) w2(1,2) l digests usr in \<open>simp_all add: get_admin_user_def\<close>)
qed

text \<open>
  The requests of one browser after a login, each with the time it is checked at and the previous
  contact with the session.
\<close>

record admin_request =
  rq_headers :: header_map
  rq_method :: string
  rq_now :: int
  rq_state_now :: int

fun request_series ::
  "auth_service \<Rightarrow> admin_login \<Rightarrow> string list \<Rightarrow> admin_request list \<Rightarrow> auth_world \<Rightarrow>
     (auth_error + admin_principal) list" where
  "request_series svc l allowed [] w = []"
| "request_series svc l allowed (rq # rqs) w =
     (let (r, w') = authenticate_admin_session svc (al_session_token l) (Some (al_csrf_token l)) (rq_headers rq)
            (rq_method rq) allowed (rq_now rq) (rq_state_now rq) w
      in r # request_series svc l allowed rqs w')"

fun in_time :: "int \<Rightarrow> int \<Rightarrow> int \<Rightarrow> admin_request list \<Rightarrow> bool" where
  \<comment> \<open>before the expiry, and never idle for longer than the limit since the request before\<close>
  "in_time idle expires seen [] \<longleftrightarrow> True"
| "in_time idle expires seen (rq # rqs) \<longleftrightarrow>
     rq_now rq < expires \<and> sat_i64 (rq_now rq - seen) \<le> idle \<and> in_time idle expires (rq_now rq) rqs"

definition live_session :: "auth_service \<Rightarrow> admin_login \<Rightarrow> int \<Rightarrow> auth_world \<Rightarrow> bool" where
  "live_session svc l seen w \<longleftrightarrow> aw_others w = [] \<and> prefix SESSION_LABEL (al_session_token l) \<and>
     (\<exists>s usr. find_admin_session (se_token_digest s) (aw_db w) = Some s \<and>
        keyed_digest (as_env svc) (as_keys svc) SESSION_DIGEST_PURPOSE (al_session_token l) = Ok (se_token_digest s) \<and>
        keyed_digest (as_env svc) (as_keys svc) CSRF_DIGEST_PURPOSE (al_csrf_token l) = Ok (se_csrf_secret_digest s) \<and>
        se_user_id s = al_user_id l \<and> se_revoked_at s = None \<and> se_expires_at s = al_expires_at l \<and>
        se_last_seen_at s = seen \<and> se_digest_key_version s = kr_current (as_keys svc) \<and>
        get_admin_user (al_user_id l) (aw_db w) = Some usr \<and> \<not> us_disabled usr \<and> us_id usr = al_user_id l \<and>
        us_username usr = al_username l) \<and>
     (\<forall>v dg x. v \<in> set (ring_versions (as_keys svc)) \<longrightarrow> v \<noteq> kr_current (as_keys svc) \<longrightarrow>
        keyed_digest_for (as_env svc) (as_keys svc) v SESSION_DIGEST_PURPOSE (al_session_token l) = Ok dg \<longrightarrow>
        find_admin_session dg (aw_db w) = Some x \<longrightarrow> se_digest_key_version x \<noteq> v)"

lemma login_live:
  assumes alone: "aw_others w = []" and ids: "distinct (map us_id (ad_users (aw_db w)))"
    and login: "login_admin svc username password ip agent d w = (Ok l, w')"
    and older: "\<And>v dg. v \<in> set (ring_versions (as_keys svc)) \<Longrightarrow> v \<noteq> kr_current (as_keys svc) \<Longrightarrow>
      keyed_digest_for (as_env svc) (as_keys svc) v SESSION_DIGEST_PURPOSE (al_session_token l) = Ok dg \<Longrightarrow>
      find_admin_session dg (aw_db w) = None"
  shows "live_session svc l (ld_now d) w'"
proof -
  obtain s usr where w': "aw_others w' = []" "find_admin_session (se_token_digest s) (aw_db w') = Some s"
    and others: "\<forall>dg x. find_admin_session dg (aw_db w') = Some x \<longrightarrow> x = s \<or> find_admin_session dg (aw_db w) \<noteq> None"
    and digests: "keyed_digest (as_env svc) (as_keys svc) SESSION_DIGEST_PURPOSE (al_session_token l) = Ok (se_token_digest s)"
      "keyed_digest (as_env svc) (as_keys svc) CSRF_DIGEST_PURPOSE (al_csrf_token l) = Ok (se_csrf_secret_digest s)"
    and s: "se_user_id s = al_user_id l" "se_revoked_at s = None" "se_expires_at s = al_expires_at l"
      "se_last_seen_at s = ld_now d" "se_digest_key_version s = kr_current (as_keys svc)"
      "prefix SESSION_LABEL (al_session_token l)"
    and usr: "get_admin_user (al_user_id l) (aw_db w') = Some usr" "\<not> us_disabled usr" "us_id usr = al_user_id l"
      "us_username usr = al_username l"
    using alone ids login by (rule login_state_alone)
  have "se_digest_key_version x \<noteq> v"
    if "v \<in> set (ring_versions (as_keys svc))" "v \<noteq> kr_current (as_keys svc)"
      "keyed_digest_for (as_env svc) (as_keys svc) v SESSION_DIGEST_PURPOSE (al_session_token l) = Ok dg"
      "find_admin_session dg (aw_db w') = Some x" for v dg x
    using older [OF that(1-3)] others [rule_format, OF that(4)] that(2) s(5) by auto
  then show ?thesis unfolding live_session_def using w' digests s usr by blast
qed

lemma live_request:
  assumes live: "live_session svc l seen w"
    and idle: "duration_millis (as_idle_timeout svc) = Ok idle" "sat_i64 (now - seen) \<le> idle" "now < al_expires_at l"
    and origin: "validate_admin_request (as_env svc) allowed headers m = Ok ()"
    and actor: "actor_id_new (ae_uuid (as_env svc) (al_user_id l)) = Ok a"
  shows "\<exists>w2. authenticate_admin_session svc (al_session_token l) (Some (al_csrf_token l)) headers m allowed now t w =
      (Ok \<lparr>an_actor = actor_identified ActorAdmin a, an_user_id = al_user_id l, an_username = al_username l\<rparr>, w2) \<and>
      live_session svc l now w2"
proof -
  obtain s usr where w: "aw_others w = []" "prefix SESSION_LABEL (al_session_token l)"
      "find_admin_session (se_token_digest s) (aw_db w) = Some s"
    and digests: "keyed_digest (as_env svc) (as_keys svc) SESSION_DIGEST_PURPOSE (al_session_token l) = Ok (se_token_digest s)"
      "keyed_digest (as_env svc) (as_keys svc) CSRF_DIGEST_PURPOSE (al_csrf_token l) = Ok (se_csrf_secret_digest s)"
    and s: "se_user_id s = al_user_id l" "se_revoked_at s = None" "se_expires_at s = al_expires_at l"
      "se_last_seen_at s = seen" "se_digest_key_version s = kr_current (as_keys svc)"
    and usr: "get_admin_user (al_user_id l) (aw_db w) = Some usr" "\<not> us_disabled usr" "us_id usr = al_user_id l"
      "us_username usr = al_username l"
    using live unfolding live_session_def by blast
  have older: "se_digest_key_version x \<noteq> v"
    if "v \<in> set (ring_versions (as_keys svc))" "v \<noteq> kr_current (as_keys svc)"
      "keyed_digest_for (as_env svc) (as_keys svc) v SESSION_DIGEST_PURPOSE (al_session_token l) = Ok dg"
      "find_admin_session dg (aw_db w) = Some x" for v dg x
    using live that unfolding live_session_def by blast
  let ?touch = "\<lambda>x. if se_id x = se_id s then x\<lparr>se_last_seen_at := now\<rparr> else x"
  let ?db2 = "(aw_db w)\<lparr>ad_sessions := update_rows (\<lambda>x. se_id x = se_id s) (\<lambda>x. x\<lparr>se_last_seen_at := now\<rparr>)
      (ad_sessions (aw_db w))\<rparr>"
  let ?w2 = "w\<lparr>aw_db := ?db2\<rparr>"
  have found: "find_session svc (al_session_token l) w = (Ok s, w)"
    using older by (intro find_new_session [OF w(1,2) digests(1) w(3) s(5)])
  have csrf: "csrf_check svc (Some (al_csrf_token l)) s = Ok ()"
    using digests(2) s(5) by (simp add: csrf_check_def keyed_digest_def)
  have run: "authenticate_admin_session svc (al_session_token l) (Some (al_csrf_token l)) headers m allowed now t w =
      (Ok \<lparr>an_actor = actor_identified ActorAdmin a, an_user_id = al_user_id l, an_username = al_username l\<rparr>, ?w2)"
    using origin found csrf idle s usr actor w(1)
    by (simp add: authenticate_admin_session_def bind_x_def repo_read_alone repo_alone touch_admin_session_def)
  have touched: "find_admin_session dg ?db2 = map_option ?touch (find_admin_session dg (aw_db w))" for dg
    by (simp add: find_admin_session_def find_row_update_keep)
  have "live_session svc l now ?w2"
    unfolding live_session_def
  proof (intro conjI exI [of _ "?touch s"] exI [of _ usr] allI impI)
    fix v dg x
    assume v: "v \<in> set (ring_versions (as_keys svc))" "v \<noteq> kr_current (as_keys svc)"
      "keyed_digest_for (as_env svc) (as_keys svc) v SESSION_DIGEST_PURPOSE (al_session_token l) = Ok dg"
      and x: "find_admin_session dg (aw_db ?w2) = Some x"
    obtain y where "find_admin_session dg (aw_db w) = Some y" "se_digest_key_version x = se_digest_key_version y"
      using x by (auto simp: touched split: if_split_asm)
    then show "se_digest_key_version x \<noteq> v" using older [OF v] by simp
  qed (use w digests s usr in \<open>simp_all add: touched get_admin_user_def\<close>)
  with run show ?thesis by blast
qed

lemma live_series:
  assumes idle: "duration_millis (as_idle_timeout svc) = Ok idle"
    and actor: "actor_id_new (ae_uuid (as_env svc) (al_user_id l)) = Ok a"
    and "live_session svc l seen w" "in_time idle (al_expires_at l) seen rqs"
    and "\<And>rq. rq \<in> set rqs \<Longrightarrow> validate_admin_request (as_env svc) allowed (rq_headers rq) (rq_method rq) = Ok ()"
  shows "request_series svc l allowed rqs w = replicate (length rqs)
      (Ok \<lparr>an_actor = actor_identified ActorAdmin a, an_user_id = al_user_id l, an_username = al_username l\<rparr>)"
  using assms(3-)
proof (induction rqs arbitrary: seen w)
  case (Cons rq rqs)
  from Cons.prems(2) have t: "sat_i64 (rq_now rq - seen) \<le> idle" "rq_now rq < al_expires_at l"
    "in_time idle (al_expires_at l) (rq_now rq) rqs" by simp_all
  obtain w2 where "authenticate_admin_session svc (al_session_token l) (Some (al_csrf_token l)) (rq_headers rq)
      (rq_method rq) allowed (rq_now rq) (rq_state_now rq) w =
      (Ok \<lparr>an_actor = actor_identified ActorAdmin a, an_user_id = al_user_id l, an_username = al_username l\<rparr>, w2)"
    "live_session svc l (rq_now rq) w2"
    using live_request [OF Cons.prems(1) idle t(1,2) Cons.prems(3) actor] by auto
  then show ?case using Cons.IH [OF _ t(3) Cons.prems(3)] by simp
qed simp

text \<open>
  C19: what a login returns authenticates the requests that follow. After a login that returned, every
  request of a series with the returned session and CSRF tokens is accepted as this administrator,
  whatever its method, as long as each comes from an allowed origin, is checked before the session
  expires and finds it idle for no longer than the limit since the request before (since the login,
  for the first). Nothing else writes to the database meanwhile, and no older key gives the new token
  the digest of a stored session.
\<close>

theorem login_authenticates:
  assumes alone: "aw_others w = []" and ids: "distinct (map us_id (ad_users (aw_db w)))"
    and login: "login_admin svc username password ip agent d w = (Ok l, w')"
    and older: "\<forall>v dg. v \<in> set (ring_versions (as_keys svc)) \<longrightarrow> v \<noteq> kr_current (as_keys svc) \<longrightarrow>
      keyed_digest_for (as_env svc) (as_keys svc) v SESSION_DIGEST_PURPOSE (al_session_token l) = Ok dg \<longrightarrow>
      find_admin_session dg (aw_db w) = None"
    and idle: "duration_millis (as_idle_timeout svc) = Ok idle" "in_time idle (al_expires_at l) (ld_now d) rqs"
    and origin: "\<forall>rq \<in> set rqs. validate_admin_request (as_env svc) allowed (rq_headers rq) (rq_method rq) = Ok ()"
    and actor: "actor_id_new (ae_uuid (as_env svc) (al_user_id l)) = Ok a"
  shows "request_series svc l allowed rqs w' = replicate (length rqs)
      (Ok \<lparr>an_actor = actor_identified ActorAdmin a, an_user_id = al_user_id l, an_username = al_username l\<rparr>)"
  using login_live [OF alone ids login] older origin
  by (intro live_series [OF idle(1) actor _ idle(2)]) blast+

lemma find_session_alone:
  assumes "aw_others w = []" "find_session svc token w = (Ok s, w')"
  shows "w' = w \<and> s \<in> set (ad_sessions (aw_db w)) \<and>
    (se_digest_key_version s, se_token_digest s) \<in> token_digests svc SESSION_DIGEST_PURPOSE token"
proof -
  have "find_session_optional svc token w = (Ok (Some s), w')"
    using assms(2) by (auto simp: find_session_def bind_x_Ok_conv)
  then show ?thesis
    using assms(1)
    by (auto simp: find_session_optional_def token_digests_def alone_simps find_admin_session_def
        split: if_split_asm option.split_asm dest!: find_versions_Ok find_row_Some)
qed

text \<open>
  C18: what an accepted admin request has shown. If \<open>authenticate_admin_session\<close> returns a principal,
  the token is the one of a stored session that is neither revoked, nor expired, nor idle for too
  long, its user exists and is enabled and is the one returned; and unless the method is safe, the
  request came from an allowed origin and carried the CSRF token of the same session.
\<close>

theorem admin_request_guarded:
  assumes alone: "aw_others w = []"
    and run: "authenticate_admin_session svc token csrf headers m allowed now t w = (Ok p, w')"
  shows "\<exists>s \<in> set (ad_sessions (aw_db w)). \<exists>usr \<in> set (ad_users (aw_db w)).
      (se_digest_key_version s, se_token_digest s) \<in> token_digests svc SESSION_DIGEST_PURPOSE token \<and>
      se_revoked_at s = None \<and> now < se_expires_at s \<and> sat_i64 (now - se_last_seen_at s) \<le> as_idle_timeout svc \<and>
      us_id usr = se_user_id s \<and> \<not> us_disabled usr \<and> an_user_id p = us_id usr \<and> an_username p = us_username usr \<and>
      (m \<notin> {''GET'', ''HEAD'', ''OPTIONS'', ''TRACE''} \<longrightarrow>
        (\<exists>origin. request_origin (as_env svc) headers = Ok origin \<and> origin \<in> set allowed) \<and>
        (\<exists>c. csrf = Some c \<and> keyed_digest_for (as_env svc) (as_keys svc) (se_digest_key_version s) CSRF_DIGEST_PURPOSE c
           = Ok (se_csrf_secret_digest s)))"
  using run
proof (cases rule: admin_session_run)
  case (1 s w1 usr idle)
  note s = find_session_alone [OF alone 1(1)]
  have "usr \<in> set (ad_users (aw_db w)) \<and> us_id usr = se_user_id s"
    using 1(3) s alone by (auto simp: get_admin_user_def interfere_def dest!: find_row_Some)
  moreover have "\<exists>origin. request_origin (as_env svc) headers = Ok origin \<and> origin \<in> set allowed" if "\<not> is_safe_method m"
    using 1(5) that by (auto simp: validate_admin_request_def admin_cookie_security_def bind_r_Ok_conv split: if_split_asm)
  moreover have "\<exists>c. csrf = Some c \<and> keyed_digest_for (as_env svc) (as_keys svc) (se_digest_key_version s) CSRF_DIGEST_PURPOSE c
      = Ok (se_csrf_secret_digest s)" if "\<not> is_safe_method m"
    using 1(9) that by (auto simp: csrf_check_def bind_r_Ok_conv split: if_split_asm)
  moreover have "idle = as_idle_timeout svc" using 1(7) by (auto simp: duration_millis_def split: if_split_asm)
  ultimately show ?thesis
    using s 1 by (intro bexI [of _ s] bexI [of _ usr]) (auto simp: is_safe_method_def)
qed

section \<open>Personal access tokens\<close>

lemma find_pat_alone:
  assumes "aw_others w = []" "find_pat svc ctx token w = (Ok (Some r), w')"
  shows "w' = w \<and> r \<in> set (ad_mcp_tokens (aw_db w)) \<and> mt_vault r = ctx_id ctx \<and>
    (mt_digest_key_version r, mt_token_digest r) \<in> token_digests svc PAT_DIGEST_PURPOSE token"
  using assms
  by (auto simp: find_pat_def token_digests_def alone_simps find_mcp_token_def find_mcp_row_def
      split: if_split_asm option.split_asm dest!: find_versions_Ok find_row_Some)

lemma parse_scope_values_set:
  assumes "parse_scope_values e vs acc = Ok acc'"
  shows "set acc' = set acc \<union> {s. scope_display s \<in> set vs}"
  using assms
proof (induction vs arbitrary: acc)
  case (Cons v vs)
  then obtain s where s: "scope_from_str v = Ok s" "parse_scope_values e vs (snd (scopeset_insert acc s)) = Ok acc'"
    by (auto split: sum.splits)
  have "scope_display x = v \<longleftrightarrow> x = s" for x
    using s(1) scope_label.as_str_parse scope_label.parse_as_str by (metis Inr_inject)
  with Cons.IH [OF s(2)] show ?case by (auto simp: scopeset_insert_set)
qed simp

text \<open>
  A personal token acts only in its Vault and within its scopes. If \<open>authenticate_pat\<close> returns a
  principal, the token is stored for this Vault, not revoked and not expired; the principal is bound
  to this Vault and this credential, its permissions are exactly those of the stored scopes, and the
  required scopes are among them.
\<close>

theorem pat_bound_to_vault:
  assumes alone: "aw_others w = []"
    and run: "authenticate_pat svc ctx token required now w = (Ok p, w')"
  shows "\<exists>r \<in> set (ad_mcp_tokens (aw_db w)).
      (mt_digest_key_version r, mt_token_digest r) \<in> token_digests svc PAT_DIGEST_PURPOSE token \<and>
      mt_vault r = ctx_id ctx \<and> mt_revoked_at r = None \<and> (\<forall>e. mt_expires_at r = Some e \<longrightarrow> now < e) \<and>
      pr_vault p = Some (ctx_id ctx) \<and> pr_credential p = Some (mt_id r) \<and>
      (\<exists>vs. mt_scopes r = Some vs \<and> set (pr_scopes p) = {s. scope_display s \<in> set vs}) \<and>
      set required \<subseteq> set (pr_scopes p) \<and> set (pr_permissions p) = scope_permission ` set (pr_scopes p)"
proof -
  from run obtain r w1 where r: "find_pat svc ctx token w = (Ok (Some r), w1)" "mt_revoked_at r = None"
      "\<forall>e. mt_expires_at r = Some e \<longrightarrow> now < e" "parse_scopes (mt_scopes r) = Ok (pr_scopes p)"
      "set required \<subseteq> set (pr_scopes p)" "pr_permissions p = scopeset_permissions (pr_scopes p)"
      "pr_vault p = Some (ctx_id ctx)" "pr_credential p = Some (mt_id r)"
    unfolding authenticate_pat_def
    by (clarsimp simp: bind_x_Ok_conv scopeset_contains_def map_err_def subset_iff split: if_split_asm sum.split_asm option.split_asm)
  then show ?thesis
    using find_pat_alone [OF alone r(1)]
    by (intro bexI [of _ r]) (auto simp: parse_scopes_def bind_r_Ok_conv scopeset_permissions_def dest!: parse_scope_values_set)
qed

section \<open>Access tokens of external issuers\<close>

lemma validate_shapes_mem: "validate_shapes je keys = Ok () \<Longrightarrow> k \<in> set keys \<Longrightarrow> validate_shape je k = Ok ()"
  by (induction keys) (auto simp: bind_r_Ok_conv)

text \<open>The signature check: one key of the set, RSA of at least 2048 bits, without symmetric material.\<close>

definition signed_by_issuer :: "jwt_env \<Rightarrow> string \<Rightarrow> parsed_jwt \<Rightarrow> bool" where
  "signed_by_issuer je cache jwt \<longleftrightarrow>
     (\<exists>keys key n e modulus exponent. je_jwks je cache = Some keys \<and> key \<in> set keys \<and>
        jk_kty key = ''RSA'' \<and> jk_k key = None \<and> jk_n key = Some n \<and> jk_e key = Some e \<and>
        (jh_kid (pj_header jwt) = None \<or> jk_kid key = jh_kid (pj_header jwt)) \<and>
        je_decode64 je n = Some modulus \<and> je_decode64 je e = Some exponent \<and> length modulus \<ge> 256 \<and>
        je_rsa_verify je modulus exponent (pj_signing_input jwt) (pj_signature jwt))"

lemma verified_signature:
  assumes "jwks_from_json je cache = Ok keys"
    and "jwks_verify je keys alg (jh_kid (pj_header jwt)) (pj_signing_input jwt) (pj_signature jwt) = Ok ()"
  shows "signed_by_issuer je cache jwt"
proof -
  obtain key where key: "jwks_candidates keys alg (jh_kid (pj_header jwt)) = [key]"
    using assms(2) by (auto simp: jwks_verify_def split: list.split_asm)
  then have "key \<in> set (jwks_candidates keys alg (jh_kid (pj_header jwt)))" by simp
  then have mem: "key \<in> set keys" "jh_kid (pj_header jwt) = None \<or> jk_kid key = jh_kid (pj_header jwt)"
    by (auto simp: jwks_candidates_def)
  have keys: "je_jwks je cache = Some keys" "validate_shapes je keys = Ok ()"
    using assms(1) by (auto simp: jwks_from_json_def bind_r_Ok_conv split: if_split_asm)
  have "jk_k key = None \<and> (\<forall>n m. jk_n key = Some n \<longrightarrow> je_decode64 je n = Some m \<longrightarrow> 256 \<le> length m)"
    using validate_shapes_mem [OF keys(2) mem(1)]
    by (auto simp: validate_shape_def bind_r_Ok_conv decode_jwk_base64_def split: if_split_asm)
  then show ?thesis
    unfolding signed_by_issuer_def using assms(2) mem keys(1) key
    by (auto simp: jwks_verify_def bind_r_Ok_conv decode_base64_def split: if_split_asm)
qed

lemma filter_contains: "set (filter (scopeset_contains grant) token) = set token \<inter> set grant"
  by (auto simp: scopeset_contains_def)

text \<open>
  C20: an external access token is accepted only with a valid signature and only within its grant. If
  \<open>authenticate_oauth\<close> returns a principal, the token is a JWT signed with RS256 by a key of the enabled
  issuer that it names (an RSA key of at least 2048 bits), it is current up to 30 seconds of clock
  skew, it names the issuer's audience and resource, and its subject holds an unrevoked grant in this
  Vault; the scopes of the principal are those that both the token and the grant list, and the
  required scopes are among them. Nothing is written.
\<close>

theorem external_token_bound:
  assumes alone: "aw_others w = []"
    and run: "authenticate_oauth svc je ctx token required now w = (Ok p, w')"
  shows "w' = w \<and> (\<exists>issuer \<in> set (ad_issuers (aw_db w)). \<exists>grant \<in> set (ad_grants (aw_db w)). \<exists>jwt cache resource.
      parse_jwt je token = Ok jwt \<and> jh_alg (pj_header jwt) = ''RS256'' \<and>
      oi_enabled issuer \<and> oi_issuer_url issuer = jc_iss (pj_claims jwt) \<and>
      oi_jwks_cache issuer = Some cache \<and> signed_by_issuer je cache jwt \<and>
      jc_exp (pj_claims jwt) \<ge> now - 30 \<and> (\<forall>nbf. jc_nbf (pj_claims jwt) = Some nbf \<longrightarrow> nbf \<le> now + 30) \<and>
      oi_audience issuer \<in> set (claim_values (jc_aud (pj_claims jwt))) \<and>
      oi_resource issuer = Some resource \<and> resource_claimed resource (pj_claims jwt) \<and>
      og_issuer_id grant = oi_id issuer \<and> og_subject grant = jc_sub (pj_claims jwt) \<and>
      og_vault grant = ctx_id ctx \<and> og_revoked_at grant = None \<and> pr_vault p = Some (ctx_id ctx) \<and>
      (\<exists>ts gs. parse_claim_scopes (pj_claims jwt) = Ok ts \<and> parse_scopes (og_scopes grant) = Ok gs \<and>
         set (pr_scopes p) = set ts \<inter> set gs) \<and>
      set required \<subseteq> set (pr_scopes p) \<and> set (pr_permissions p) = scope_permission ` set (pr_scopes p))"
proof -
  from run obtain jwt issuer grant op where w': "w' = w"
    and jwt: "parse_jwt je token = Ok jwt"
    and issuer: "find_oauth_issuer (jc_iss (pj_claims jwt)) (aw_db w) = Some issuer"
    and grant: "find_oauth_grant ctx (oi_id issuer) (jc_sub (pj_claims jwt)) (aw_db w) = Ok (Some grant)"
    and op: "validate_access_token (as_env svc) je token issuer grant ctx required now = Ok op"
      "p = auth_principal_from_oauth ctx op"
    using alone by (auto simp: authenticate_oauth_def alone_simps token_identity_def Let_def split: if_split_asm)
  have rows: "issuer \<in> set (ad_issuers (aw_db w))" "grant \<in> set (ad_grants (aw_db w))"
      "og_issuer_id grant = oi_id issuer" "og_subject grant = jc_sub (pj_claims jwt)"
    using issuer grant
    by (auto simp: find_oauth_issuer_def find_oauth_grant_def find_grant_row_def bind_r_Ok_conv dest!: find_row_Some)
  from op(1) jwt obtain cache keys resource ts gs where valid: "oi_enabled issuer" "og_revoked_at grant = None"
      "og_vault grant = ctx_id ctx" "oi_jwks_cache issuer = Some cache" "jwks_from_json je cache = Ok keys"
      "jh_alg (pj_header jwt) = ''RS256''"
      "jwks_verify je keys ''RS256'' (jh_kid (pj_header jwt)) (pj_signing_input jwt) (pj_signature jwt) = Ok ()"
      "claims_current issuer (pj_claims jwt) now" "oi_resource issuer = Some resource"
      "resource_claimed resource (pj_claims jwt)" "parse_claim_scopes (pj_claims jwt) = Ok ts"
      "parse_scopes (og_scopes grant) = Ok gs"
    and scopes: "op_scopes op = filter (scopeset_contains gs) ts" "set required \<subseteq> set (op_scopes op)"
      "op_permissions op = scopeset_permissions (op_scopes op)"
    by (clarsimp simp: validate_access_token_def bind_r_Ok_conv Let_def scopeset_contains_def subset_iff split: if_split_asm)
  note signed = verified_signature [OF valid(5,7)]
  show ?thesis
    using w' jwt valid signed scopes op(2) rows filter_contains [of gs ts]
    by (intro conjI bexI [of _ issuer] bexI [of _ grant] exI [of _ jwt] exI [of _ cache] exI [of _ resource])
      (auto simp: claims_current_def CLOCK_SKEW_SECONDS_def auth_principal_from_oauth_def scopeset_permissions_def
        not_less split: option.split_asm)
qed

section \<open>Framing\<close>

definition from_digits :: "nat list \<Rightarrow> nat" where
  "from_digits ds = foldl (\<lambda>acc d. acc * 256 + d) 0 ds"

lemma be32_digits:
  fixes n :: nat
  assumes "n < 2 ^ 32"
  shows "from_digits (map of_char (be32 n)) = n"
proof -
  define a b c where "a = n div 256" and "b = a div 256" and "c = b div 256"
  then have "n = 256 * a + n mod 256" "a = 256 * b + a mod 256" "b = 256 * c + b mod 256" by simp_all
  moreover have "c mod 256 = c" using assms by (simp add: a_def b_def c_def less_mult_imp_div_less flip: div_mult2_eq)
  moreover have "from_digits (map of_char (be32 n)) =
      ((c mod 256 * 256 + b mod 256) * 256 + a mod 256) * 256 + n mod 256"
    using assms by (simp add: be32_def from_digits_def a_def b_def c_def flip: div_mult2_eq)
  moreover have "((k * 256 + z) * 256 + y) * 256 + x = l" if "l = 256 * i + x" "i = 256 * j + y" "j = 256 * k + z"
    for x y z i j k l :: nat
    using that by simp
  ultimately show ?thesis by metis
qed

lemma be32_inject: "m < 2 ^ 32 \<Longrightarrow> n < 2 ^ 32 \<Longrightarrow> be32 m = be32 n \<Longrightarrow> m = n"
  by (metis be32_digits)

text \<open>
  What is authenticated is framed without ambiguity. Two lists of parts with the same framing are
  the same list (parts below 4 GiB), so a digest or an encrypted secret of one purpose and owner is
  never one of another.
\<close>

theorem framed_inject:
  assumes "framed ps = framed qs" and "\<forall>p \<in> set ps \<union> set qs. length p < 2 ^ 32"
  shows "ps = qs"
  using assms
proof (induction ps arbitrary: qs)
  case Nil
  then show ?case by (cases qs) (auto simp: framed_def be32_def)
next
  case (Cons p ps)
  then obtain q qs' where qs: "qs = q # qs'" by (cases qs) (auto simp: framed_def be32_def)
  have "length (be32 n) = 4" for n by (simp add: be32_def)
  with Cons.prems(1) qs have "be32 (length p) = be32 (length q)" "p @ framed ps = q @ framed qs'"
    by (simp_all add: framed_def append_eq_append_conv)
  moreover from this(1) have "length p = length q" using Cons.prems(2) qs by (intro be32_inject) auto
  ultimately have "p = q" "framed ps = framed qs'" by simp_all
  with Cons.IH [of qs'] Cons.prems(2) qs show ?case by simp
qed

section \<open>An example\<close>

text \<open>Two administrators with a session each, one secret, one personal token and one external issuer.\<close>

definition admin_example_svc :: auth_service where
  "admin_example_svc = oauth_example_svc\<lparr>
     as_env := oauth_example_env\<lparr>ae_parse_url := (\<lambda>_. Some \<lparr>uv_scheme = ''https'', uv_host = Some ''H'', uv_port = None,
       uv_username = [], uv_password = None, uv_path = ''/'', uv_query = None, uv_fragment = None\<rparr>)\<rparr>,
     as_keys := \<lparr>kr_keys = [(1, replicate 32 CHR ''k''), (2, replicate 32 CHR ''l'')], kr_current = 2, kr_persistent = True\<rparr>\<rparr>"

definition admin_example_user :: "uuid \<Rightarrow> string \<Rightarrow> admin_user_record" where
  "admin_example_user i name = \<lparr>us_id = i, us_username = name, us_password_hash = ''correct horse battery'',
     us_disabled = False, us_password_changed_at = 1, us_created_at = 1, us_updated_at = 1\<rparr>"

definition admin_example_session :: "uuid \<Rightarrow> uuid \<Rightarrow> string \<Rightarrow> admin_session_record" where
  "admin_example_session i u name = \<lparr>se_id = i, se_user_id = u,
     se_token_digest = oauth_example_digest SESSION_DIGEST_PURPOSE (''mcpv_session_'' @ name),
     se_csrf_secret_digest = oauth_example_digest CSRF_DIGEST_PURPOSE (''mcpv_csrf_'' @ name), se_digest_key_version = 1,
     se_created_at = 1, se_last_seen_at = 1, se_expires_at = 1000, se_source_ip = None, se_user_agent_hash = None,
     se_revoked_at = None\<rparr>"

definition admin_example_secret :: encrypted_secret_record where
  "admin_example_secret = \<lparr>es_id = 3, es_purpose = ''p'', es_owner_type = ''o'', es_owner_id = None, es_key_version = 1,
     es_nonce = replicate 24 CHR ''x'', es_ciphertext = ''secret'', es_hint = None, es_created_at = 1, es_updated_at = 1\<rparr>"

definition admin_example_world :: auth_world where
  "admin_example_world = \<lparr>aw_db = oauth_example_db\<lparr>
     ad_secrets := [admin_example_secret],
     ad_users := [admin_example_user 1 ''admin'', admin_example_user 2 ''other''],
     ad_sessions := [admin_example_session 11 1 ''one'', admin_example_session 12 2 ''two''],
     ad_mcp_tokens := [\<lparr>mt_id = 21, mt_vault = ctx_id oauth_example_ctx, mt_name = ''t'',
       mt_token_prefix = ''mcpv_pat_abcdefg'', mt_token_digest = oauth_example_digest PAT_DIGEST_PURPOSE ''mcpv_pat_abcdefghi'',
       mt_digest_key_version = 1, mt_scopes = Some [''vault:read''], mt_created_at = 1, mt_last_used_at = None,
       mt_expires_at = Some 500, mt_revoked_at = None\<rparr>],
     ad_issuers := [\<lparr>oi_id = 31, oi_name = ''i'', oi_issuer_url = ''iss'', oi_discovery_url = None, oi_audience = ''aud'',
       oi_resource = Some ''res'', oi_jwks_cache = Some ''jwks'', oi_jwks_cached_at = None, oi_enabled = True,
       oi_created_at = 1, oi_updated_at = 1\<rparr>],
     ad_grants := [\<lparr>og_id = 41, og_issuer_id = 31, og_subject = ''sub'', og_vault = ctx_id oauth_example_ctx,
       og_scopes = Some [''vault:read'', ''vault:write''], og_created_at = 1, og_updated_at = 1, og_revoked_at = None\<rparr>]\<rparr>,
   aw_limiter = [], aw_others = []\<rparr>"

definition admin_example_draws :: login_draws where
  "admin_example_draws = \<lparr>ld_checked_at = 50, ld_failed_at = 51, ld_state_now = 52, ld_now = 53, ld_salt = ''s'',
     ld_session_id = 13, ld_session_random = ''new'', ld_csrf_random = ''fresh''\<rparr>"

definition admin_example_headers :: header_map where
  "admin_example_headers = [(''origin'', Some ''https://h'')]"

definition admin_example_jwt :: jwt_env where
  "admin_example_jwt = \<lparr>je_decode64 = Some, je_header = (\<lambda>_. Some \<lparr>jh_alg = ''RS256'', jh_kid = None\<rparr>),
     je_claims = (\<lambda>_. Some \<lparr>jc_iss = ''iss'', jc_sub = ''sub'', jc_aud = ClaimStrings [''aud'', ''res''], jc_exp = 40,
       jc_nbf = None, jc_resource = None, jc_scope = Some ''vault:read memory:read'', jc_scp = None\<rparr>),
     je_jwks = (\<lambda>_. Some [\<lparr>jk_kty = ''RSA'', jk_kid = None, jk_alg = None, jk_use = None, jk_k = None,
       jk_n = Some (replicate 256 CHR ''m''), jk_e = Some ''e''\<rparr>]),
     je_print_jwks = (\<lambda>_. []), je_rsa_key = (\<lambda>_ _. True), je_rsa_verify = (\<lambda>_ _ _ s. s = ''sig'')\<rparr>"

definition run_login :: "(auth_error + admin_login) \<times> auth_world" where
  "run_login = login_admin admin_example_svc '' Admin'' ''correct horse battery'' None None admin_example_draws admin_example_world"

definition run_request :: "string \<Rightarrow> string \<Rightarrow> auth_world \<Rightarrow> (auth_error + admin_principal) \<times> auth_world" where
  "run_request name m =
     authenticate_admin_session admin_example_svc (''mcpv_session_'' @ name) (Some (''mcpv_csrf_'' @ name))
       admin_example_headers m [''https://h''] 60 61"

text \<open>
  Other requests run three empty sequences of transactions during the change; after it they touch a session of
  the changed user, open one for another user, and touch the old one again.
\<close>

definition busy_requests :: "auth_tx list list" where
  "busy_requests = [[], [], [], [TxTouchSession 11 56, TxInsertSession 14 2 ''d'' ''c'' 1 56 900 None None],
     [TxTouchSession 11 57, TxTouchSession 12 57]]"

definition run_change :: "(auth_error + unit) \<times> auth_world" where
  "run_change = change_admin_password admin_example_svc 1 ''correct horse battery'' ''another long phrase'' ''s'' 55
     (admin_example_world\<lparr>aw_others := map auth_run busy_requests\<rparr>)"

lemma admin_example_alone: "aw_others admin_example_world = []" "distinct (map us_id (ad_users (aw_db admin_example_world)))"
  by (simp_all add: admin_example_world_def admin_example_user_def)

lemma run_request_ok: "is_ok (fst (run_request ''two'' ''POST'' admin_example_world))"
  by code_simp

lemma run_change_ok: "is_ok (fst run_change)" "is_ok (fst (run_request ''two'' ''POST'' (snd run_change)))"
  by code_simp+

lemma interfere_others [simp]: "aw_others (interfere w) = tl (aw_others w)"
  by (cases "aw_others w") (simp_all add: interfere_def)

lemma change_others:
  assumes "change_admin_password svc u current new salt t w = (Ok (), w1)"
  shows "aw_others w1 = tl (tl (tl (aw_others w)))"
  using assms by (auto simp: change_admin_password_def bind_x_Ok_conv repo_Ok repo_read_Ok split: if_split_asm)

lemma run_login_ok:
  "case fst run_login of Inl _ \<Rightarrow> False
   | Inr l \<Rightarrow> al_session_token l = ''mcpv_session_new'' \<and> al_csrf_token l = ''mcpv_csrf_fresh'' \<and> al_user_id l = 1 \<and> 3500000 < al_expires_at l"
  by code_simp

definition admin_example_ring :: master_key_ring where
  "admin_example_ring = (as_keys admin_example_svc)\<lparr>
     kr_keys := kr_keys (as_keys admin_example_svc) @ [(3, replicate 32 CHR ''n'')], kr_current := 3\<rparr>"

definition run_rotation :: "(auth_error + nat) \<times> auth_world" where
  "run_rotation = rotate_secrets admin_example_svc admin_example_ring (\<lambda>_. replicate 24 CHR ''y'') 70 admin_example_world"

lemma run_rotation_ok: "is_ok (fst run_rotation)"
  "ring_plaintext (as_env admin_example_svc) (as_keys admin_example_svc) admin_example_secret = Ok ''secret''"
  "get_secret 3 (aw_db admin_example_world) = Some admin_example_secret"
  by code_simp+

theorem rotate_secrets_lose_nothing_witness:
  "\<exists>n w' r'. run_rotation = (Ok n, w') \<and> get_secret 3 (aw_db w') = Some r' \<and>
     ring_plaintext (as_env admin_example_svc) admin_example_ring r' = Ok ''secret'' \<and> es_key_version r' = 3"
proof -
  obtain n w' where run: "run_rotation = (Ok n, w')" using ok_run [OF run_rotation_ok(1)] by blast
  have "\<exists>r'. get_secret 3 (aw_db w') = Some r' \<and> secret_bound r' = secret_bound admin_example_secret \<and>
      ring_plaintext (as_env admin_example_svc) admin_example_ring r' = Ok ''secret'' \<and>
      (\<forall>m. (Ok n :: auth_error + nat) = Ok m \<longrightarrow> es_key_version r' = 3)"
  proof (rule rotate_secrets_lose_nothing [OF _ _ _ _ _ _ run_rotation_ok(3) _ run [unfolded run_rotation_def]])
    show "with_rotated_key (as_keys admin_example_svc) 3 (replicate 32 CHR ''n'') = Ok admin_example_ring"
      by (simp add: with_rotated_key_def admin_example_ring_def admin_example_svc_def MASTER_KEY_BYTES_def)
  qed (use run_rotation_ok in \<open>simp_all add: aead_roundtrip_def admin_example_svc_def oauth_example_env_def
      ring_versions_def admin_example_world_def\<close>)
  with run show ?thesis by auto
qed

theorem password_change_ends_sessions_witness:
  "\<exists>w1 p w2. run_change = (Ok (), w1) \<and> length (aw_others w1) = 2 \<and>
     run_request ''two'' ''POST'' w1 = (Ok p, w2) \<and> an_user_id p \<noteq> 1"
proof -
  obtain w1 where w1: "run_change = (Ok (), w1)" using ok_run [OF run_change_ok(1)] by auto
  obtain p w2 where run: "run_request ''two'' ''POST'' w1 = (Ok p, w2)"
    using ok_run [OF run_change_ok(2) [unfolded w1 snd_conv]] by blast
  have others: "aw_others w1 = map auth_run (drop 3 busy_requests)"
    using change_others [OF w1 [unfolded run_change_def]] by (simp add: busy_requests_def)
  moreover have "\<forall>txs \<in> set (drop 3 busy_requests). \<forall>tx \<in> set txs. opened_session tx \<noteq> Some 1"
    by (simp add: busy_requests_def)
  ultimately have "no_login 1 w1" unfolding no_login_def by auto
  from password_change_ends_sessions [OF w1 [unfolded run_change_def] this run [unfolded run_request_def]] w1 run others
  show ?thesis by (auto simp: busy_requests_def)
qed

lemma run_login_Ok:
  obtains l w' where "run_login = (Ok l, w')" "al_session_token l = ''mcpv_session_new''"
    "al_csrf_token l = ''mcpv_csrf_fresh''" "al_user_id l = 1" "3500000 < al_expires_at l"
proof (cases "fst run_login")
  case (Inr l)
  then have "run_login = (Ok l, snd run_login)" by (simp add: prod_eq_iff)
  moreover have "al_session_token l = ''mcpv_session_new'' \<and> al_csrf_token l = ''mcpv_csrf_fresh'' \<and>
      al_user_id l = 1 \<and> 3500000 < al_expires_at l" using run_login_ok Inr by simp
  ultimately show thesis using that by blast
qed (use run_login_ok in simp)

theorem login_opens_only_session_witness:
  "\<exists>l w' s. run_login = (Ok l, w') \<and>
     filter (\<lambda>s. se_user_id s = al_user_id l \<and> se_revoked_at s = None) (ad_sessions (aw_db w')) = [s] \<and>
     se_id s = al_session_id l"
proof -
  obtain l w' where run: "run_login = (Ok l, w')" by (rule run_login_Ok)
  from login_opens_only_session [OF run [unfolded run_login_def]] run show ?thesis
    by (auto simp: admin_example_alone no_login_def)
qed

lemma admin_example_older:
  "case keyed_digest_for (as_env admin_example_svc) (as_keys admin_example_svc) 1 SESSION_DIGEST_PURPOSE ''mcpv_session_new'' of
     Inl _ \<Rightarrow> True | Inr dg \<Rightarrow> find_admin_session dg (aw_db admin_example_world) = None"
  "\<forall>m \<in> set [''POST'', ''GET'', ''DELETE'']. validate_admin_request (as_env admin_example_svc) [''https://h''] admin_example_headers m = Ok ()"
  "sat_i64 (60 - ld_now admin_example_draws) \<le> 1800000"
  "is_ok (actor_id_new (ae_uuid (as_env admin_example_svc) 1))"
  by code_simp+

definition admin_example_series :: "admin_request list" where
  "admin_example_series =
     [\<lparr>rq_headers = admin_example_headers, rq_method = ''POST'', rq_now = 60, rq_state_now = 61\<rparr>,
      \<lparr>rq_headers = admin_example_headers, rq_method = ''GET'', rq_now = 1800000, rq_state_now = 1800001\<rparr>,
      \<lparr>rq_headers = admin_example_headers, rq_method = ''DELETE'', rq_now = 3500000, rq_state_now = 3500001\<rparr>]"

theorem login_authenticates_witness:
  "\<exists>l w' p. run_login = (Ok l, w') \<and>
     request_series admin_example_svc l [''https://h''] admin_example_series w' = [Ok p, Ok p, Ok p] \<and> an_user_id p = 1"
proof -
  obtain l w' where run: "run_login = (Ok l, w')" and l: "al_session_token l = ''mcpv_session_new''"
    "al_user_id l = 1" "3500000 < al_expires_at l" by (rule run_login_Ok)
  obtain a where a: "actor_id_new (ae_uuid (as_env admin_example_svc) (al_user_id l)) = Ok a"
    using admin_example_older(4) l(2) by (auto simp: is_ok_iff)
  let ?p = "\<lparr>an_actor = actor_identified ActorAdmin a, an_user_id = al_user_id l, an_username = al_username l\<rparr>"
  have "request_series admin_example_svc l [''https://h''] admin_example_series w' =
      replicate (length admin_example_series) (Ok ?p)"
  proof (rule login_authenticates [OF admin_example_alone run [unfolded run_login_def] _ _ _ _ a])
    show "in_time 1800000 (al_expires_at l) (ld_now admin_example_draws) admin_example_series"
      using l(3) by (simp add: admin_example_series_def admin_example_draws_def sat_i64_def)
  qed (use admin_example_older(1,2) in \<open>auto simp: l admin_example_svc_def oauth_example_svc_def ring_versions_def
      duration_millis_def admin_example_series_def\<close>)
  then show ?thesis using run l(2) by (intro exI [of _ l] exI [of _ w'] exI [of _ ?p])
      (simp add: admin_example_series_def)
qed

theorem admin_request_guarded_witness:
  "\<exists>p w'. run_request ''two'' ''POST'' admin_example_world = (Ok p, w') \<and>
     (\<exists>s \<in> set (ad_sessions (aw_db admin_example_world)). se_revoked_at s = None \<and> se_user_id s = an_user_id p)"
proof -
  obtain p w' where run: "run_request ''two'' ''POST'' admin_example_world = (Ok p, w')"
    using ok_run [OF run_request_ok] by blast
  from admin_request_guarded [OF admin_example_alone(1) run [unfolded run_request_def]] run show ?thesis by force
qed

definition run_pat :: "(auth_error + auth_principal) \<times> auth_world" where
  "run_pat = authenticate_pat admin_example_svc oauth_example_ctx ''mcpv_pat_abcdefghi'' [VaultRead] 60 admin_example_world"

definition run_external :: "(auth_error + auth_principal) \<times> auth_world" where
  "run_external = authenticate_oauth admin_example_svc admin_example_jwt oauth_example_ctx ''head.body.sig'' [VaultRead] 60
     admin_example_world"

lemma run_tokens_ok: "is_ok (fst run_pat)" "is_ok (fst run_external)"
  by code_simp+

theorem pat_bound_to_vault_witness:
  "\<exists>p w'. run_pat = (Ok p, w') \<and> pr_vault p = Some (ctx_id oauth_example_ctx) \<and> VaultRead \<in> set (pr_scopes p)"
proof -
  obtain p w' where run: "run_pat = (Ok p, w')" using ok_run [OF run_tokens_ok(1)] by blast
  from pat_bound_to_vault [OF admin_example_alone(1) run [unfolded run_pat_def]] run show ?thesis by auto
qed

theorem external_token_bound_witness:
  "\<exists>p. run_external = (Ok p, admin_example_world) \<and> VaultRead \<in> set (pr_scopes p)"
proof -
  obtain p w' where run: "run_external = (Ok p, w')" using ok_run [OF run_tokens_ok(2)] by blast
  from external_token_bound [OF admin_example_alone(1) run [unfolded run_external_def]] run show ?thesis by auto
qed

theorem framed_inject_witness:
  "framed [''ab'', ''c''] = framed (rev [''c'', ''ab'']) \<and> [''ab'', ''c''] = rev [''c'', ''ab''] \<and>
   framed [''a'', ''bc''] \<noteq> framed [''ab'', ''c'']"
  using framed_inject [of "[''ab'', ''c'']" "rev [''c'', ''ab'']"] framed_inject [of "[''a'', ''bc'']" "[''ab'', ''c'']"] by auto

text \<open>
  A login that verified the old password before a password change, and stored its session after it,
  leaves that session open: the two operations are not one transaction.
\<close>

definition racing_change :: "auth_db \<Rightarrow> auth_db" where
  "racing_change db = aw_db (snd (change_admin_password admin_example_svc 1 ''correct horse battery'' ''another long phrase''
     ''s'' 55 \<lparr>aw_db = db, aw_limiter = [], aw_others = []\<rparr>))"

lemma login_races_password_change:
  "case login_admin admin_example_svc ''admin'' ''correct horse battery'' None None admin_example_draws
       (admin_example_world\<lparr>aw_others := [\<lambda>db. db, \<lambda>db. db, racing_change]\<rparr>) of
     (Inl _, _) \<Rightarrow> False
   | (Inr l, w') \<Rightarrow> map_option us_password_hash (get_admin_user 1 (aw_db w')) = Some ''another long phrase'' \<and>
       is_ok (fst (authenticate_admin_session admin_example_svc (al_session_token l) (Some (al_csrf_token l))
         admin_example_headers ''POST'' [''https://h''] 60 61 w'))"
  by code_simp

end
