(* ===== verification/Note_Index.thy ===== *)
theory Note_Index
  imports Auth_Service
begin

text \<open>
  The pure core of the indexer (crates/indexer/src/lib.rs): glob patterns of a taxonomy, the quoting of
  full-text queries, retrieval scopes, and the split of a note into embedding chunks. Text is UTF-8 bytes.
\<close>

section \<open>Globs\<close>

function skip_stars :: "string \<Rightarrow> nat \<Rightarrow> nat" where
  "skip_stars p i = (if i < length p \<and> p ! i = CHR ''*'' then skip_stars p (i + 1) else i)"
  by pat_completeness auto

termination by (relation "measure (\<lambda>(p, i). length p - i)") auto

declare skip_stars.simps [simp del]

partial_function (option) glob_loop ::
  "string \<Rightarrow> string \<Rightarrow> nat \<Rightarrow> nat \<Rightarrow> nat option \<Rightarrow> nat \<Rightarrow> bool option" where
  \<comment> \<open>\<open>pi\<close> and \<open>vi\<close> the two indices, \<open>star\<close> the last star of the pattern and \<open>svi\<close> where it stands in the value\<close>
  "glob_loop p v pi vi star svi =
     (if vi < length v then
        (if pi < length p \<and> (p ! pi = v ! vi \<or> p ! pi = CHR ''?'')
         then glob_loop p v (pi + 1) (vi + 1) star svi
         else if pi < length p \<and> p ! pi = CHR ''*''
         then glob_loop p v (pi + 1) vi (Some pi) vi
         else (case star of
                 Some s \<Rightarrow> glob_loop p v (s + 1) (svi + 1) star (svi + 1)
               | None \<Rightarrow> Some False))
      else Some (skip_stars p pi = length p))"

declare glob_loop.simps [code]

definition glob_matches :: "string \<Rightarrow> string \<Rightarrow> bool option" where
  "glob_matches pattern value = glob_loop pattern value 0 0 None 0"

section \<open>Full-text queries\<close>

text \<open>The error of the query functions.\<close>

datatype index_error = IndexInvalidInput string

definition is_ascii_punctuation :: "char \<Rightarrow> bool" where
  "is_ascii_punctuation c \<longleftrightarrow>
     (let b = byte_of c in (33 \<le> b \<and> b \<le> 47) \<or> (58 \<le> b \<and> b \<le> 64) \<or> (91 \<le> b \<and> b \<le> 96) \<or> (123 \<le> b \<and> b \<le> 126))"

definition trim_punctuation :: "string \<Rightarrow> string" where
  "trim_punctuation s = rev (dropWhile is_ascii_punctuation (rev (dropWhile is_ascii_punctuation s)))"

definition DQUOTE :: char where "DQUOTE = char_of (34 :: nat)"

definition escape_quotes :: "string \<Rightarrow> string" where
  "escape_quotes s = concat (map (\<lambda>c. if c = DQUOTE then [DQUOTE, DQUOTE] else [c]) s)"

fun join_str :: "string \<Rightarrow> string list \<Rightarrow> string" where
  "join_str sep [] = []"
| "join_str sep [t] = t"
| "join_str sep (t # ts) = t @ sep @ join_str sep ts"

definition fts_terms :: "string \<Rightarrow> string list" where
  "fts_terms query = filter (\<lambda>t. t \<noteq> []) (map trim_punctuation (split_whitespace query))"

definition quote_fts_query_with :: "string \<Rightarrow> string \<Rightarrow> index_error + string" where
  "quote_fts_query_with query separator =
     (let terms = fts_terms query in
      if terms = [] \<or> length terms > 64 then Err (IndexInvalidInput ''search query is empty or too broad'')
      else Ok (join_str separator (map (\<lambda>t. DQUOTE # escape_quotes t @ [DQUOTE]) terms)))"

definition quote_fts_query :: "string \<Rightarrow> index_error + string" where
  "quote_fts_query query = quote_fts_query_with query '' AND ''"

definition quote_fts_query_any :: "string \<Rightarrow> index_error + string" where
  "quote_fts_query_any query = quote_fts_query_with query '' OR ''"

section \<open>Retrieval scopes\<close>

text \<open>Of a search record and of an embedding source, the fields that the functions below read.\<close>

record note_search_record =
  ns_path :: vault_path
  ns_updated_at :: int
  ns_tags :: "string list"
  ns_topic_ids :: "string list"

record note_retrieval_scope =
  sc_source_path :: "string option"
  sc_path_prefix :: "string option"
  sc_modified_after :: "int option"
  sc_modified_before :: "int option"
  sc_tags :: "string list"
  sc_topic_ids :: "string list"

definition normalize_tag :: "(string \<Rightarrow> string) \<Rightarrow> string \<Rightarrow> string" where
  \<comment> \<open>\<open>lower\<close> is the Unicode lower case of the standard library\<close>
  "normalize_tag lower value = lower (dropWhile (\<lambda>c. c = CHR ''#'') (trim value))"

definition note_matches_scope :: "(string \<Rightarrow> string) \<Rightarrow> note_search_record \<Rightarrow> note_retrieval_scope \<Rightarrow> bool" where
  "note_matches_scope lower note scope \<longleftrightarrow>
     (let path = path_text (ns_path note) in
      if (case sc_source_path scope of None \<Rightarrow> False | Some p \<Rightarrow> path \<noteq> p) then False
      else if (case sc_path_prefix scope of None \<Rightarrow> False | Some p \<Rightarrow> \<not> prefix p path)
           \<or> (case sc_modified_after scope of None \<Rightarrow> False | Some t \<Rightarrow> ns_updated_at note < t)
           \<or> (case sc_modified_before scope of None \<Rightarrow> False | Some t \<Rightarrow> ns_updated_at note > t) then False
      else (let tags = map (normalize_tag lower) (ns_tags note) in
            if \<exists>t \<in> set (map (normalize_tag lower) (sc_tags scope)). t \<notin> set tags then False
            else \<forall>t \<in> set (sc_topic_ids scope). t \<in> set (ns_topic_ids note)))"

section \<open>Embedding chunks\<close>

definition NOTE_EMBEDDING_MAX_INPUT_BYTES :: nat where "NOTE_EMBEDDING_MAX_INPUT_BYTES = 2048"
definition NOTE_EMBEDDING_CONTEXT_MAX_BYTES :: nat where "NOTE_EMBEDDING_CONTEXT_MAX_BYTES = 512"
definition NOTE_EMBEDDING_CHUNK_OVERLAP_BYTES :: nat where "NOTE_EMBEDDING_CHUNK_OVERLAP_BYTES = 256"
definition NOTE_EMBEDDING_BOUNDARY_LOOKBACK_BYTES :: nat where "NOTE_EMBEDDING_BOUNDARY_LOOKBACK_BYTES = 192"
definition MAX_NOTE_EMBEDDING_CHUNKS :: nat where "MAX_NOTE_EMBEDDING_CHUNKS = 8192"
definition NOTE_EMBEDDING_CHUNK_PROFILE :: string where "NOTE_EMBEDDING_CHUNK_PROFILE = ''text-v3''"

record note_embedding_source =
  nes_path :: vault_path
  nes_revision :: nat
  nes_title :: "string option"
  nes_headings :: "string list"
  nes_plain_text :: string

record note_section_match =
  nsm_chunk_key :: string
  nsm_heading_path :: "string list"
  nsm_start :: nat
  nsm_end :: nat
  nsm_revision :: nat

record note_embedding_chunk =
  nec_section :: note_section_match
  nec_key :: string
  nec_text :: string
  nec_snippet :: string
  nec_content_hash :: string

definition continuation :: "char \<Rightarrow> bool" where
  "continuation c \<longleftrightarrow> 128 \<le> byte_of c \<and> byte_of c < 192"

definition is_char_boundary :: "string \<Rightarrow> nat \<Rightarrow> bool" where
  "is_char_boundary s i \<longleftrightarrow> i = 0 \<or> i = length s \<or> (i < length s \<and> \<not> continuation (s ! i))"

fun floor_from :: "string \<Rightarrow> nat \<Rightarrow> nat" where
  "floor_from s 0 = 0"
| "floor_from s (Suc i) = (if \<not> is_char_boundary s (Suc i) then floor_from s i else Suc i)"

definition floor_char_boundary :: "string \<Rightarrow> nat \<Rightarrow> nat" where
  "floor_char_boundary s i = floor_from s (min i (length s))"

function ceil_from :: "string \<Rightarrow> nat \<Rightarrow> nat" where
  "ceil_from s i = (if i < length s \<and> \<not> is_char_boundary s i then ceil_from s (i + 1) else i)"
  by pat_completeness auto

termination by (relation "measure (\<lambda>(s, i). length s - i)") auto

declare ceil_from.simps [simp del]

definition ceil_char_boundary :: "string \<Rightarrow> nat \<Rightarrow> nat" where
  "ceil_char_boundary s i = ceil_from s (min i (length s))"

definition truncate_utf8_bytes :: "string \<Rightarrow> nat \<Rightarrow> string" where
  "truncate_utf8_bytes s max_bytes = take (floor_char_boundary s max_bytes) s"

definition text_slice :: "string \<Rightarrow> nat \<Rightarrow> nat \<Rightarrow> string" where
  \<comment> \<open>\<open>&s[a..b]\<close>\<close>
  "text_slice s a b = take (b - a) (drop a s)"

fun find_sub :: "string \<Rightarrow> string \<Rightarrow> nat option" where
  \<comment> \<open>\<open>str::find\<close>\<close>
  "find_sub pat [] = (if pat = [] then Some 0 else None)"
| "find_sub pat (c # cs) = (if prefix pat (c # cs) then Some 0 else map_option Suc (find_sub pat cs))"

fun rfind_sub :: "string \<Rightarrow> string \<Rightarrow> nat option" where
  \<comment> \<open>\<open>str::rfind\<close>\<close>
  "rfind_sub pat [] = (if pat = [] then Some 0 else None)"
| "rfind_sub pat (c # cs) =
     (case rfind_sub pat cs of Some i \<Rightarrow> Some (Suc i) | None \<Rightarrow> if prefix pat (c # cs) then Some 0 else None)"

fun after_last :: "(string \<Rightarrow> bool) \<Rightarrow> string list \<Rightarrow> nat option" where
  \<comment> \<open>the end of the last character that satisfies the predicate: \<open>char_indices().rev().find(..)\<close>\<close>
  "after_last P [] = None"
| "after_last P (ch # chs) =
     (case after_last P chs of
        Some i \<Rightarrow> Some (length ch + i)
      | None \<Rightarrow> if P ch then Some (length ch) else None)"

definition sentence_end :: "string \<Rightarrow> bool" where
  \<comment> \<open>full stop, exclamation and question mark, semicolon, and their full-width forms\<close>
  "sentence_end ch \<longleftrightarrow> ch \<in> {''.'', ''!'', ''?'', '';''} \<or>
     map byte_of ch \<in> {[0xE3, 0x80, 0x82], [0xEF, 0xBC, 0x81], [0xEF, 0xBC, 0x9F], [0xEF, 0xBC, 0x9B]}"

definition or_else :: "'a option \<Rightarrow> 'a option \<Rightarrow> 'a option" where
  "or_else a b = (case a of Some x \<Rightarrow> Some x | None \<Rightarrow> b)"

definition tail_boundary :: "string \<Rightarrow> nat option" where
  "tail_boundary tail =
     or_else (map_option (\<lambda>i. i + 2) (rfind_sub [newline, newline] tail))
       (or_else (map_option (\<lambda>i. i + 1) (rfind_sub [newline] tail))
         (or_else (after_last sentence_end (utf8_chars tail))
           (after_last (\<lambda>ch. white_space_len ch \<noteq> 0) (utf8_chars tail))))"

definition preferred_semantic_chunk_end :: "string \<Rightarrow> nat \<Rightarrow> nat \<Rightarrow> nat" where
  "preferred_semantic_chunk_end body start hard_end =
     (if hard_end = length body then hard_end
      else
        (let lookback = max (ceil_char_boundary body (hard_end - NOTE_EMBEDDING_BOUNDARY_LOOKBACK_BYTES)) start
         in case tail_boundary (text_slice body lookback hard_end) of
              None \<Rightarrow> hard_end
            | Some offset \<Rightarrow> if lookback + offset > start then lookback + offset else hard_end))"

fun local_heading_offsets :: "string \<Rightarrow> nat \<Rightarrow> string list \<Rightarrow> (nat \<times> string) list" where
  "local_heading_offsets body cursor [] = []"
| "local_heading_offsets body cursor (h # hs) =
     (case find_sub h (drop cursor body) of
        None \<Rightarrow> local_heading_offsets body cursor hs
      | Some relative \<Rightarrow>
          (let offset = cursor + relative
           in (offset, h) # local_heading_offsets body (min (offset + length h) (length body)) hs))"

definition last_heading :: "(nat \<times> string) list \<Rightarrow> nat \<Rightarrow> string option" where
  "last_heading offsets limit = map_option snd (find (\<lambda>(offset, _). offset \<le> limit) (rev offsets))"

definition note_embedding_context :: "note_embedding_source \<Rightarrow> string option \<Rightarrow> string" where
  "note_embedding_context source local_heading =
     truncate_utf8_bytes
       (join_str [newline]
         ([''Path: '' @ path_text (nes_path source)]
          @ (case nes_title source of None \<Rightarrow> [] | Some t \<Rightarrow> [''Title: '' @ t])
          @ (case local_heading of None \<Rightarrow> [] | Some h \<Rightarrow> [''Heading: '' @ h])))
       NOTE_EMBEDDING_CONTEXT_MAX_BYTES"

definition chunk_key :: "nat \<Rightarrow> string" where
  "chunk_key ordinal =
     NOTE_EMBEDDING_CHUNK_PROFILE @ '':'' @ replicate (4 - length (decimal ordinal)) (CHR ''0'') @ decimal ordinal"

definition BODY_LIMIT :: nat where
  "BODY_LIMIT = NOTE_EMBEDDING_MAX_INPUT_BYTES - NOTE_EMBEDDING_CONTEXT_MAX_BYTES - 2"

definition note_chunk ::
  "(string \<Rightarrow> string) \<Rightarrow> note_embedding_source \<Rightarrow> string \<Rightarrow> (nat \<times> string) list \<Rightarrow> nat \<Rightarrow> nat \<Rightarrow> nat \<Rightarrow> note_embedding_chunk" where
  \<comment> \<open>\<open>hash\<close> is \<open>content_hash\<close>: the hexadecimal SHA-256 behind its prefix\<close>
  "note_chunk hash source body offsets ordinal start e =
     (let context = note_embedding_context source (last_heading offsets e);
          pre = (if context = [] then [] else context @ [newline, newline]);
          body_chunk = text_slice body start e;
          text = pre @ body_chunk
      in \<lparr>nec_section = \<lparr>nsm_chunk_key = chunk_key ordinal,
             nsm_heading_path = (case last_heading offsets start of None \<Rightarrow> [] | Some h \<Rightarrow> [h]),
             nsm_start = start, nsm_end = e, nsm_revision = nes_revision source\<rparr>,
          nec_key = chunk_key ordinal, nec_text = text, nec_snippet = take_chars 280 body_chunk,
          nec_content_hash = hash text\<rparr>)"

definition chunk_end :: "string \<Rightarrow> nat \<Rightarrow> nat" where
  "chunk_end body start =
     preferred_semantic_chunk_end body start (floor_char_boundary body (min (start + BODY_LIMIT) (length body)))"

partial_function (option) chunk_loop ::
  "(string \<Rightarrow> string) \<Rightarrow> note_embedding_source \<Rightarrow> string \<Rightarrow> (nat \<times> string) list \<Rightarrow> note_embedding_chunk list \<Rightarrow> nat \<Rightarrow>
     note_embedding_chunk list option" where
  "chunk_loop hash source body offsets chunks start =
     (if start < length body then
        (let e = chunk_end body start;
             chunks' = chunks @ [note_chunk hash source body offsets (length chunks) start e]
         in if e = length body then Some chunks'
            else chunk_loop hash source body offsets chunks'
              (ceil_char_boundary body (e - NOTE_EMBEDDING_CHUNK_OVERLAP_BYTES)))
      else Some chunks)"

declare chunk_loop.simps [code]

definition note_embedding_chunks ::
  "(string \<Rightarrow> string) \<Rightarrow> note_embedding_source \<Rightarrow> note_embedding_chunk list option" where
  "note_embedding_chunks hash source =
     (let body = trim (nes_plain_text source) in
      if body = [] then
        (let context = note_embedding_context source None in
         if context = [] then Some []
         else Some [\<lparr>nec_section = \<lparr>nsm_chunk_key = NOTE_EMBEDDING_CHUNK_PROFILE @ '':0000'',
                 nsm_heading_path = (case nes_title source of None \<Rightarrow> [] | Some t \<Rightarrow> [t]),
                 nsm_start = 0, nsm_end = 0, nsm_revision = nes_revision source\<rparr>,
               nec_key = NOTE_EMBEDDING_CHUNK_PROFILE @ '':0000'', nec_text = context,
               nec_snippet = (case nes_title source of Some t \<Rightarrow> t | None \<Rightarrow> path_text (nes_path source)),
               nec_content_hash = hash context\<rparr>])
      else chunk_loop hash source body (local_heading_offsets body 0 (nes_headings source)) [] 0)"

definition note_evaluation_inputs :: "(string \<Rightarrow> string) \<Rightarrow> note_embedding_source \<Rightarrow> string list option" where
  "note_evaluation_inputs hash source = map_option (map nec_text) (note_embedding_chunks hash source)"

definition note_evaluation_query :: "string \<Rightarrow> string" where
  "note_evaluation_query query = truncate_utf8_bytes query NOTE_EMBEDDING_MAX_INPUT_BYTES"

section \<open>Glob patterns, declaratively\<close>

inductive globs :: "string \<Rightarrow> string \<Rightarrow> bool" where
  globs_Nil: "globs [] []"
| globs_star: "globs p v \<Longrightarrow> globs (CHR ''*'' # p) (u @ v)"
| globs_char: "c \<noteq> CHR ''*'' \<Longrightarrow> c = CHR ''?'' \<or> c = d \<Longrightarrow> globs p v \<Longrightarrow> globs (c # p) (d # v)"

inductive_simps globs_Nil_iff: "globs [] v"
inductive_simps globs_end_iff: "globs (c # p) []"

lemma globs_char_iff: "c \<noteq> CHR ''*'' \<Longrightarrow> globs (c # p) (d # v) \<longleftrightarrow> (c = CHR ''?'' \<or> c = d) \<and> globs p v"
  by (auto intro: globs_char elim: globs.cases)

lemma globs_star_iff: "globs (CHR ''*'' # p) v \<longleftrightarrow> (\<exists>u w. v = u @ w \<and> globs p w)"
proof
  assume "globs (CHR ''*'' # p) v"
  then show "\<exists>u w. v = u @ w \<and> globs p w" by cases auto
qed (auto intro: globs_star)

lemma globs_star_extend: "globs (CHR ''*'' # p) v \<Longrightarrow> globs (CHR ''*'' # p) (u @ v)"
  by (metis append.assoc globs_star_iff)

lemma globs_star_step: "\<not> globs p (d # v) \<Longrightarrow> globs (CHR ''*'' # p) (d # v) \<longleftrightarrow> globs (CHR ''*'' # p) v"
  by (auto simp: globs_star_iff Cons_eq_append_conv)

text \<open>A run of the pattern without a star fits exactly one stretch of the value.\<close>

definition fits :: "string \<Rightarrow> string \<Rightarrow> bool" where
  "fits q u \<longleftrightarrow> CHR ''*'' \<notin> set q \<and> list_all2 (\<lambda>c d. c = CHR ''?'' \<or> c = d) q u"

lemma list_all2_snoc: "list_all2 P (xs @ [x]) (ys @ [y]) \<longleftrightarrow> list_all2 P xs ys \<and> P x y"
proof (induction xs arbitrary: ys)
  case Nil
  then show ?case by (cases ys) auto
next
  case (Cons a xs)
  then show ?case by (cases ys) auto
qed

lemma fits_snoc: "fits (q @ [c]) (u @ [d]) \<longleftrightarrow> fits q u \<and> c \<noteq> CHR ''*'' \<and> (c = CHR ''?'' \<or> c = d)"
  by (auto simp: fits_def list_all2_snoc)

lemma globs_run: "CHR ''*'' \<notin> set q \<Longrightarrow> globs (q @ p) v \<longleftrightarrow> (\<exists>u w. v = u @ w \<and> fits q u \<and> globs p w)"
proof (induction q arbitrary: v)
  case (Cons c q)
  have head: "globs (c # q @ p) v \<longleftrightarrow> (\<exists>d v'. v = d # v' \<and> (c = CHR ''?'' \<or> c = d) \<and> globs (q @ p) v')"
    using Cons.prems by (cases v) (auto simp: globs_char_iff globs_end_iff)
  show ?case
  proof
    assume "globs ((c # q) @ p) v"
    then obtain d v' where v: "v = d # v'" "c = CHR ''?'' \<or> c = d" "globs (q @ p) v'" using head by auto
    then obtain u w where "v' = u @ w" "fits q u" "globs p w" using Cons by auto
    then show "\<exists>u w. v = u @ w \<and> fits (c # q) u \<and> globs p w"
      using v Cons.prems by (intro exI [of _ "d # u"] exI [of _ w]) (auto simp: fits_def)
  next
    assume "\<exists>u w. v = u @ w \<and> fits (c # q) u \<and> globs p w"
    then obtain u w where u: "v = u @ w" "fits (c # q) u" "globs p w" by blast
    then obtain d u' where "u = d # u'" "c = CHR ''?'' \<or> c = d" "fits q u'" by (cases u) (auto simp: fits_def)
    then show "globs ((c # q) @ p) v" using head Cons u by auto
  qed
qed (simp add: fits_def)

text \<open>Taking the leftmost place for a run before a star loses nothing.\<close>

lemma globs_leftmost:
  assumes "fits q u"
  shows "globs (CHR ''*'' # q @ CHR ''*'' # p) (u @ w) \<longleftrightarrow> globs (CHR ''*'' # p) w"
proof
  assume "globs (CHR ''*'' # q @ CHR ''*'' # p) (u @ w)"
  then obtain a r where r: "u @ w = a @ r" "globs (q @ CHR ''*'' # p) r" unfolding globs_star_iff [of "q @ _"] by blast
  then obtain b c where "r = b @ c" "fits q b" "globs (CHR ''*'' # p) c" using assms globs_run [of q] by (auto simp: fits_def)
  with r(1) have abc: "u @ w = a @ b @ c" "fits q b" "globs (CHR ''*'' # p) c" by simp_all
  then have "length u \<le> length (a @ b)" using assms by (auto simp: fits_def dest!: list_all2_lengthD)
  then obtain x where "w = x @ c" using abc(1) by (metis append.assoc append_eq_append_conv_if append_take_drop_id)
  then show "globs (CHR ''*'' # p) w" using abc(3) globs_star_extend by simp
next
  assume "globs (CHR ''*'' # p) w"
  then have "globs (q @ CHR ''*'' # p) (u @ w)" using assms globs_run [of q] by (auto simp: fits_def)
  then show "globs (CHR ''*'' # q @ CHR ''*'' # p) (u @ w)" using globs_star [of _ _ "[]"] by simp
qed

lemma globs_exhausted:
  assumes "fits q u"
  shows "globs (CHR ''*'' # q @ p) u \<longleftrightarrow> globs p []"
proof
  assume "globs (CHR ''*'' # q @ p) u"
  then obtain a r where r: "u = a @ r" "globs (q @ p) r" unfolding globs_star_iff [of "q @ _"] by blast
  then obtain b c where "r = b @ c" "fits q b" "globs p c" using assms globs_run [of q] by (auto simp: fits_def)
  with r(1) have abc: "u = a @ b @ c" "fits q b" "globs p c" by simp_all
  then have "c = []" using assms by (auto simp: fits_def dest!: list_all2_lengthD)
  with abc(3) show "globs p []" by simp
next
  assume "globs p []"
  then have "globs (q @ p) u" using assms globs_run [of q] by (auto simp: fits_def)
  then show "globs (CHR ''*'' # q @ p) u" using globs_star [of _ _ "[]"] by simp
qed

lemma globs_stars_end: "i \<le> length p \<Longrightarrow> globs (drop i p) [] \<longleftrightarrow> skip_stars p i = length p"
proof (induction p i rule: skip_stars.induct)
  case (1 p i)
  show ?case
  proof (cases "i < length p")
    case True
    then have d: "drop i p = p ! i # drop (Suc i) p" by (simp add: Cons_nth_drop_Suc)
    show ?thesis
    proof (cases "p ! i = CHR ''*''")
      case star: True
      have "globs (drop i p) [] \<longleftrightarrow> globs (drop (Suc i) p) []" by (simp add: d star globs_star_iff)
      with 1 True star show ?thesis by (subst skip_stars.simps) simp
    next
      case False
      then show ?thesis using True by (subst skip_stars.simps) (simp add: d globs_end_iff)
    qed
  next
    case False
    with 1 show ?thesis by (subst skip_stars.simps) (simp add: globs_Nil)
  qed
qed

section \<open>The matcher is right\<close>

definition glob_inv :: "string \<Rightarrow> string \<Rightarrow> nat \<Rightarrow> nat \<Rightarrow> nat option \<Rightarrow> nat \<Rightarrow> bool" where
  "glob_inv p v pi vi star svi \<longleftrightarrow> pi \<le> length p \<and> vi \<le> length v \<and>
     (case star of
        None \<Rightarrow> globs p v \<longleftrightarrow> globs (drop pi p) (drop vi v)
      | Some s \<Rightarrow> s < pi \<and> p ! s = CHR ''*'' \<and> svi \<le> vi \<and> (globs p v \<longleftrightarrow> globs (drop s p) (drop svi v)) \<and>
          fits (text_slice p (Suc s) pi) (text_slice v svi vi))"

lemma slice_split: "a \<le> b \<Longrightarrow> drop a s = text_slice s a b @ drop b s"
  by (simp add: text_slice_def) (metis append_take_drop_id drop_drop le_add_diff_inverse2)

lemma slice_snoc: "a \<le> b \<Longrightarrow> b < length s \<Longrightarrow> text_slice s a (Suc b) = text_slice s a b @ [s ! b]"
  by (simp add: text_slice_def Suc_diff_le take_Suc_conv_app_nth)

lemma globs_stuck:
  assumes "vi < length v" "\<not> (pi < length p \<and> (p ! pi = v ! vi \<or> p ! pi = CHR ''?''))"
    "\<not> (pi < length p \<and> p ! pi = CHR ''*'')"
  shows "\<not> globs (drop pi p) (drop vi v)"
proof (cases "pi < length p")
  case True
  then have "drop pi p = p ! pi # drop (Suc pi) p" "drop vi v = v ! vi # drop (Suc vi) v"
    using assms(1) by (simp_all add: Cons_nth_drop_Suc)
  with assms True show ?thesis by (simp add: globs_char_iff)
qed (use assms(1) in \<open>simp add: globs_Nil_iff\<close>)

lemma glob_inv_match:
  assumes "glob_inv p v pi vi star svi" "CHR ''*'' \<notin> set v" "vi < length v" "pi < length p"
    "p ! pi = v ! vi \<or> p ! pi = CHR ''?''"
  shows "glob_inv p v (Suc pi) (Suc vi) star svi"
proof -
  have ns: "p ! pi \<noteq> CHR ''*''" using assms(2,5) nth_mem [OF assms(3)] by auto
  have "drop pi p = p ! pi # drop (Suc pi) p" "drop vi v = v ! vi # drop (Suc vi) v"
    using assms(3,4) by (simp_all add: Cons_nth_drop_Suc)
  with ns assms(5) have "globs (drop pi p) (drop vi v) \<longleftrightarrow> globs (drop (Suc pi) p) (drop (Suc vi) v)"
    by (auto simp: globs_char_iff)
  with assms ns show ?thesis
    by (auto simp: glob_inv_def slice_snoc fits_snoc split: option.split)
qed

lemma glob_inv_star:
  assumes "glob_inv p v pi vi star svi" "pi < length p" "p ! pi = CHR ''*''"
  shows "glob_inv p v (Suc pi) vi (Some pi) vi"
proof -
  have "globs p v \<longleftrightarrow> globs (drop pi p) (drop vi v)"
  proof (cases star)
    case (Some s)
    then have s: "s < pi" "p ! s = CHR ''*''" "svi \<le> vi" "globs p v \<longleftrightarrow> globs (drop s p) (drop svi v)"
      "fits (text_slice p (Suc s) pi) (text_slice v svi vi)" using assms(1) by (auto simp: glob_inv_def)
    have "drop s p = CHR ''*'' # text_slice p (Suc s) pi @ CHR ''*'' # drop (Suc pi) p"
      using s(1,2) assms(2,3) slice_split [of "Suc s" pi p] by (metis Cons_nth_drop_Suc Suc_leI order.strict_trans)
    moreover have "drop pi p = CHR ''*'' # drop (Suc pi) p" using assms(2,3) by (metis Cons_nth_drop_Suc)
    ultimately show ?thesis using s(4) globs_leftmost [OF s(5)] slice_split [OF s(3), of v] by simp
  qed (use assms(1) in \<open>simp add: glob_inv_def\<close>)
  then show ?thesis using assms by (simp add: glob_inv_def text_slice_def fits_def)
qed

lemma glob_inv_back:
  assumes "glob_inv p v pi vi (Some s) svi" "vi < length v" "\<not> globs (drop pi p) (drop vi v)"
  shows "glob_inv p v (Suc s) (Suc svi) (Some s) (Suc svi)"
proof -
  have s: "s < pi" "pi \<le> length p" "p ! s = CHR ''*''" "svi \<le> vi" "globs p v \<longleftrightarrow> globs (drop s p) (drop svi v)"
      "fits (text_slice p (Suc s) pi) (text_slice v svi vi)" using assms(1) by (auto simp: glob_inv_def)
  have q: "drop (Suc s) p = text_slice p (Suc s) pi @ drop pi p" using s(1) slice_split [of "Suc s" pi p] by simp
  have nm: "\<not> globs (drop (Suc s) p) (drop svi v)"
  proof
    assume "globs (drop (Suc s) p) (drop svi v)"
    then obtain u w where u: "drop svi v = u @ w" "fits (text_slice p (Suc s) pi) u" "globs (drop pi p) w"
      using s(6) globs_run [of "text_slice p (Suc s) pi" "drop pi p"] q by (auto simp: fits_def)
    then have "length u = length (text_slice v svi vi)" using s(6) by (auto simp: fits_def dest!: list_all2_lengthD)
    then have "w = drop vi v" using u(1) slice_split [OF s(4), of v] by (metis append_eq_append_conv)
    with u(3) assms(3) show False by simp
  qed
  have d: "drop s p = CHR ''*'' # drop (Suc s) p" "drop svi v = v ! svi # drop (Suc svi) v"
    using s assms(2) by (metis Cons_nth_drop_Suc order.strict_trans2, metis Cons_nth_drop_Suc order.strict_trans1)
  have "globs (drop s p) (drop svi v) \<longleftrightarrow> globs (drop s p) (drop (Suc svi) v)"
    unfolding d(1) using nm globs_star_step [of "drop (Suc s) p" "v ! svi" "drop (Suc svi) v"] by (simp add: d(2))
  then show ?thesis using s assms(2) by (simp add: glob_inv_def text_slice_def fits_def)
qed

lemma glob_inv_end:
  assumes "glob_inv p v pi vi star svi" "\<not> vi < length v"
  shows "globs p v \<longleftrightarrow> skip_stars p pi = length p"
proof -
  have "globs p v \<longleftrightarrow> globs (drop pi p) []"
  proof (cases star)
    case (Some s)
    then have s: "s < pi" "pi \<le> length p" "p ! s = CHR ''*''" "svi \<le> vi" "globs p v \<longleftrightarrow> globs (drop s p) (drop svi v)"
      "fits (text_slice p (Suc s) pi) (text_slice v svi vi)" using assms(1) by (auto simp: glob_inv_def)
    have "drop s p = CHR ''*'' # text_slice p (Suc s) pi @ drop pi p"
      using s(1-3) slice_split [of "Suc s" pi p] by (metis Cons_nth_drop_Suc Suc_leI order.strict_trans2)
    moreover have "drop svi v = text_slice v svi vi" using slice_split [OF s(4), of v] assms(2) by simp
    ultimately show ?thesis using s(5) globs_exhausted [OF s(6)] by simp
  qed (use assms in \<open>simp add: glob_inv_def\<close>)
  with globs_stars_end assms(1) show ?thesis by (simp add: glob_inv_def)
qed

definition star_place :: "nat option \<Rightarrow> nat" where
  "star_place star = (case star of None \<Rightarrow> 0 | Some s \<Rightarrow> Suc s)"

lemma glob_loop_correct:
  assumes "CHR ''*'' \<notin> set v" "glob_inv p v pi vi star svi"
  shows "glob_loop p v pi vi star svi = Some (globs p v)"
  using assms(2)
proof (induction "(pi, vi, star, svi)" arbitrary: pi vi star svi
    rule: wf_induct_rule [OF wf_measures [of "[\<lambda>(pi, vi, star, svi). length p - star_place star,
      \<lambda>(pi, vi, star, svi). length v - svi, \<lambda>(pi, vi, star, svi). length v - vi]"], case_names less])
  case less
  note inv = less.prems and IH = less.hyps
  have s: "s < pi" "svi \<le> vi" if "star = Some s" for s using inv that by (auto simp: glob_inv_def)
  have pi: "pi \<le> length p" using inv by (simp add: glob_inv_def)
  show ?case
  proof (cases "vi < length v")
    case vi: True
    consider (char) "pi < length p" "p ! pi = v ! vi \<or> p ! pi = CHR ''?''"
      | (star) "\<not> (pi < length p \<and> (p ! pi = v ! vi \<or> p ! pi = CHR ''?''))" "pi < length p" "p ! pi = CHR ''*''"
      | (stuck) "\<not> (pi < length p \<and> (p ! pi = v ! vi \<or> p ! pi = CHR ''?''))" "\<not> (pi < length p \<and> p ! pi = CHR ''*'')"
      by blast
    then show ?thesis
    proof cases
      case char
      then have "glob_loop p v (Suc pi) (Suc vi) star svi = Some (globs p v)"
        using vi by (intro IH glob_inv_match [OF inv assms(1)]) auto
      with char vi show ?thesis by (subst glob_loop.simps) simp
    next
      case star
      then have "glob_loop p v (Suc pi) vi (Some pi) vi = Some (globs p v)"
        using s by (intro IH glob_inv_star [OF inv]) (auto simp: star_place_def split: option.split)
      with star vi show ?thesis by (subst glob_loop.simps) auto
    next
      case stuck
      note nm = globs_stuck [OF vi stuck]
      show ?thesis
      proof (cases star)
        case None
        then have "\<not> globs p v" using inv nm by (simp add: glob_inv_def)
        with stuck vi None show ?thesis by (subst glob_loop.simps) auto
      next
        case (Some x)
        then have "glob_loop p v (Suc x) (Suc svi) star (Suc svi) = Some (globs p v)"
          using s vi glob_inv_back [OF inv [unfolded Some] vi nm] by (intro IH) (auto simp: Some)
        with stuck vi Some show ?thesis by (subst glob_loop.simps) auto
      qed
    qed
  next
    case False
    with glob_inv_end [OF inv False] show ?thesis by (subst glob_loop.simps) simp
  qed
qed

lemma path_without_star:
  assumes "wf_path p"
  shows "CHR ''*'' \<notin> set (path_text p)"
proof (cases "is_root p")
  case True
  then show ?thesis by (simp add: is_root_def)
next
  case False
  then have "\<forall>s \<in> set (split_on (CHR ''/'') (path_text p)). CHR ''*'' \<notin> set s"
    using assms valid_segment_facts(8) by (fastforce simp: wf_path_def platform_invalid_def)
  then show ?thesis using set_join_with [of "CHR ''/''" "split_on (CHR ''/'') (path_text p)"] by (auto simp: join_split)
qed

text \<open>
  C27: the backtracking glob matcher ends and decides the glob language. On the path of any note, and
  on any value without a star character, \<open>glob_matches\<close> returns, and it returns true exactly if the
  pattern matches: \<open>?\<close> stands for one byte, \<open>*\<close> for any stretch, every other byte for itself.
\<close>

theorem glob_matches_correct:
  assumes "CHR ''*'' \<notin> set value \<or> (\<exists>path. wf_path path \<and> value = path_text path)"
  shows "glob_matches pattern value = Some (globs pattern value)"
  unfolding glob_matches_def
  by (rule glob_loop_correct) (use assms path_without_star in \<open>auto simp: glob_inv_def\<close>)

theorem glob_matches_correct_witness:
  "glob_matches ''notes/*/r??.md'' ''notes/a/b/r01.md'' = Some True \<and> globs ''notes/*/r??.md'' ''notes/a/b/r01.md''"
proof -
  have "glob_matches ''notes/*/r??.md'' ''notes/a/b/r01.md'' = Some True" by code_simp
  with glob_matches_correct [of "''notes/a/b/r01.md''" "''notes/*/r??.md''"] show ?thesis by simp
qed

text \<open>On a value with a star the matcher takes the pattern's star for that byte and does not try again.\<close>

lemma glob_literal_star: "globs ''*'' ''*a'' \<and> glob_matches ''*'' ''*a'' = Some False"
proof -
  have "globs ''*'' (''*a'' @ [])" by (rule globs_star) (rule globs_Nil)
  moreover have "glob_matches ''*'' ''*a'' = Some False" by code_simp
  ultimately show ?thesis by simp
qed

section \<open>Chunks cover the note\<close>

text \<open>What the code relies on of the UTF-8 text of a \<open>str\<close>: at most three continuation bytes follow a
  leading byte, and none follows an ASCII byte.\<close>

definition utf8_text :: "string \<Rightarrow> bool" where
  "utf8_text s \<longleftrightarrow> (\<forall>i < length s. \<exists>j \<le> i. i \<le> j + 3 \<and> \<not> continuation (s ! j)) \<and>
     (\<forall>i. Suc i < length s \<longrightarrow> byte_of (s ! i) < 128 \<longrightarrow> \<not> continuation (s ! Suc i))"

lemma floor_from_le: "floor_from s i \<le> i"
  by (induction i) auto

lemma floor_from_boundary: "is_char_boundary s (floor_from s i)"
  by (induction i) (auto simp: is_char_boundary_def)

lemma floor_from_max: "is_char_boundary s j \<Longrightarrow> j \<le> i \<Longrightarrow> j \<le> floor_from s i"
  by (induction i) (auto simp: le_Suc_eq)

lemma floor_from_id: "is_char_boundary s i \<Longrightarrow> floor_from s i = i"
  by (cases i) auto

lemma floor_near:
  assumes "utf8_text s" "i \<le> length s"
  shows "i \<le> floor_char_boundary s i + 3"
proof (cases "i = length s")
  case True
  then show ?thesis by (simp add: floor_char_boundary_def floor_from_id is_char_boundary_def)
next
  case False
  then have "i < length s" using assms(2) by simp
  then obtain j where "j \<le> i" "i \<le> j + 3" "\<not> continuation (s ! j)" using assms(1) unfolding utf8_text_def by blast
  moreover have "j \<le> floor_from s i"
    using calculation False assms(2) by (intro floor_from_max) (auto simp: is_char_boundary_def)
  ultimately show ?thesis using assms(2) by (simp add: floor_char_boundary_def)
qed

lemma ceil_from_ge: "i \<le> ceil_from s i"
proof (induction s i rule: ceil_from.induct)
  case (1 s i)
  then show ?case by (subst ceil_from.simps) (auto simp: ceil_from.simps [of s i])
qed

lemma ceil_from_min: "is_char_boundary s j \<Longrightarrow> i \<le> j \<Longrightarrow> ceil_from s i \<le> j"
proof (induction s i rule: ceil_from.induct)
  case (1 s i)
  show ?case
  proof (cases "i < length s \<and> \<not> is_char_boundary s i")
    case True
    then have "i \<noteq> j" using 1(2) by auto
    with 1 True show ?thesis by (subst ceil_from.simps) simp
  next
    case False
    with 1 show ?thesis by (subst ceil_from.simps) auto
  qed
qed

lemma ceil_from_boundary: "i \<le> length s \<Longrightarrow> is_char_boundary s (ceil_from s i)"
proof (induction s i rule: ceil_from.induct)
  case (1 s i)
  then show ?case by (subst ceil_from.simps) (auto simp: is_char_boundary_def)
qed

lemma ceil_props:
  assumes "is_char_boundary s e" "e \<le> length s" "i \<le> e"
  shows "i \<le> ceil_char_boundary s i" "ceil_char_boundary s i \<le> e" "is_char_boundary s (ceil_char_boundary s i)"
  using assms ceil_from_ge [of i s] ceil_from_min [of s e i] ceil_from_boundary [of i s]
  by (simp_all add: ceil_char_boundary_def)

lemma rfind_sub_Some: "rfind_sub pat s = Some i \<Longrightarrow> i + length pat \<le> length s \<and> prefix pat (drop i s)"
proof (induction s arbitrary: i)
  case (Cons c cs)
  then show ?case by (auto split: option.split_asm if_split_asm dest: prefix_length_le)
qed (simp split: if_split_asm)

lemma after_last_chars:
  "after_last P (utf8_chars s) = Some k \<Longrightarrow> 0 < k \<and> k \<le> length s \<and> (k < length s \<longrightarrow> \<not> continuation (s ! k))"
proof (induction s arbitrary: k rule: utf8_chars.induct)
  case (2 c cs)
  let ?cont = "\<lambda>d. 128 \<le> byte_of d \<and> byte_of d < 192"
  show ?case
  proof (cases "after_last P (utf8_chars (dropWhile ?cont cs))")
    case None
    then have k: "k = Suc (length (takeWhile ?cont cs))" using 2(2) by (auto split: if_split_asm)
    have "\<not> continuation (cs ! length (takeWhile ?cont cs))" if "length (takeWhile ?cont cs) < length cs"
      using nth_length_takeWhile [OF that] by (auto simp: continuation_def)
    with k show ?thesis by (auto simp: length_takeWhile_le)
  next
    case (Some i)
    then have k: "k = Suc (length (takeWhile ?cont cs)) + i" using 2(2) by auto
    have "length (takeWhile ?cont cs @ dropWhile ?cont cs) = length (takeWhile ?cont cs) + length (dropWhile ?cont cs)"
      "(takeWhile ?cont cs @ dropWhile ?cont cs) ! (length (takeWhile ?cont cs) + i) = dropWhile ?cont cs ! i"
      by (rule length_append, rule nth_append_length_plus)
    note len = this [unfolded takeWhile_dropWhile_id]
    with 2(1) [OF Some] k len show ?thesis by auto
  qed
qed simp

lemma tail_boundary_Some:
  assumes "tail_boundary t = Some k"
  shows "0 < k \<and> k \<le> length t \<and> (k < length t \<longrightarrow> \<not> continuation (t ! k) \<or> byte_of (t ! (k - 1)) < 128)"
proof -
  have nl: "byte_of (t ! i) = 10" if "prefix (newline # p) (drop i t)" for i p
    using that by (cases "drop i t") (auto simp: nth_via_drop)
  have nl2: "byte_of (t ! Suc i) = 10" if "prefix [newline, newline] (drop i t)" "i + 2 \<le> length t" for i
  proof -
    have "drop (Suc i) t = tl (drop i t)" by (simp add: tl_drop drop_Suc)
    with that(1) have "prefix [newline] (drop (Suc i) t)" by (cases "drop i t") auto
    then show ?thesis by (rule nl)
  qed
  show ?thesis
    using assms
    by (auto simp: tail_boundary_def or_else_def split: option.split_asm
        dest!: rfind_sub_Some after_last_chars dest: nl nl2)
qed

lemma chunk_limits: "BODY_LIMIT = 1534" "NOTE_EMBEDDING_BOUNDARY_LOOKBACK_BYTES = 192"
  "NOTE_EMBEDDING_CHUNK_OVERLAP_BYTES = 256" "NOTE_EMBEDDING_CONTEXT_MAX_BYTES = 512" "NOTE_EMBEDDING_MAX_INPUT_BYTES = 2048"
  by (simp_all add: BODY_LIMIT_def NOTE_EMBEDDING_BOUNDARY_LOOKBACK_BYTES_def NOTE_EMBEDDING_CHUNK_OVERLAP_BYTES_def
      NOTE_EMBEDDING_CONTEXT_MAX_BYTES_def NOTE_EMBEDDING_MAX_INPUT_BYTES_def)

lemma preferred_end:
  assumes utf8: "utf8_text body" and h: "is_char_boundary body h" "h < length body" "start + 1531 \<le> h"
  shows "is_char_boundary body (preferred_semantic_chunk_end body start h) \<and>
    preferred_semantic_chunk_end body start h \<le> h \<and> h < preferred_semantic_chunk_end body start h + 192"
proof -
  let ?l = "ceil_char_boundary body (h - 192)"
  have l: "h - 192 \<le> ?l" "?l \<le> h" using ceil_props [OF h(1), of "h - 192"] h(2) by simp_all
  then have lb: "max ?l start = ?l" using h(3) by simp
  have len: "length (text_slice body ?l h) = h - ?l" using h(2) by (simp add: text_slice_def)
  show ?thesis
  proof (cases "tail_boundary (text_slice body ?l h)")
    case None
    then have "preferred_semantic_chunk_end body start h = h"
      unfolding preferred_semantic_chunk_end_def chunk_limits Let_def lb by simp
    then show ?thesis using h(1) by simp
  next
    case (Some k)
    note k = tail_boundary_Some [OF Some]
    have "start < ?l + k" using l(1) h(3) k by linarith
    then have e: "preferred_semantic_chunk_end body start h = ?l + k"
      unfolding preferred_semantic_chunk_end_def chunk_limits Let_def lb Some using h(2) by simp
    have nth: "text_slice body ?l h ! i = body ! (?l + i)" if "?l + i < h" for i
      using that h(2) by (simp add: text_slice_def)
    have "is_char_boundary body (?l + k)"
    proof (cases "?l + k = h")
      case False
      moreover have "k \<le> h - ?l" using k len by simp
      ultimately have lt: "?l + k < h" using l(2) by linarith
      then have "\<not> continuation (body ! (?l + k)) \<or> byte_of (body ! (?l + k - 1)) < 128"
        using k len nth [of k] nth [of "k - 1"] by auto
      moreover have "Suc (?l + k - 1) = ?l + k" using k by simp
      ultimately have "\<not> continuation (body ! (?l + k))"
        using utf8 lt h(2) unfolding utf8_text_def by (metis order.strict_trans)
      then show ?thesis using lt h(2) by (simp add: is_char_boundary_def)
    qed (use h(1) in simp)
    moreover have "0 < k" "k \<le> h - ?l" using k len by simp_all
    then have "?l + k \<le> h" "h < ?l + k + 192" using l by linarith+
    ultimately show ?thesis unfolding e by blast
  qed
qed

lemma chunk_end_props:
  assumes utf8: "utf8_text body" and start: "start < length body"
  shows "is_char_boundary body (chunk_end body start)" "start < chunk_end body start" "chunk_end body start \<le> length body"
    "chunk_end body start \<le> start + 1534" "chunk_end body start \<noteq> length body \<Longrightarrow> start + 1340 \<le> chunk_end body start"
proof -
  let ?h = "floor_char_boundary body (min (start + 1534) (length body))"
  have le: "?h \<le> min (start + 1534) (length body)"
    using floor_from_le [of body "min (start + 1534) (length body)"] by (simp add: floor_char_boundary_def min.assoc)
  have b: "is_char_boundary body ?h" by (simp add: floor_char_boundary_def floor_from_boundary)
  have near: "min (start + 1534) (length body) \<le> ?h + 3" using utf8 by (intro floor_near) simp_all
  have e: "chunk_end body start = preferred_semantic_chunk_end body start ?h" by (simp add: chunk_end_def chunk_limits)
  have "is_char_boundary body (chunk_end body start) \<and> start < chunk_end body start \<and> chunk_end body start \<le> length body \<and>
    chunk_end body start \<le> start + 1534 \<and> (chunk_end body start \<noteq> length body \<longrightarrow> start + 1340 \<le> chunk_end body start)"
  proof (cases "length body \<le> start + 1534")
    case True
    then have "?h = length body"
      by (simp add: min_absorb2 floor_char_boundary_def floor_from_id is_char_boundary_def)
    then have "chunk_end body start = length body" by (simp add: e preferred_semantic_chunk_end_def)
    then show ?thesis using start True by (simp add: is_char_boundary_def)
  next
    case False
    then have h: "?h < length body" "start + 1531 \<le> ?h" "?h \<le> start + 1534" using le near by auto
    show ?thesis using preferred_end [OF utf8 b h(1,2)] h unfolding e by auto
  qed
  then show "is_char_boundary body (chunk_end body start)" "start < chunk_end body start" "chunk_end body start \<le> length body"
    "chunk_end body start \<le> start + 1534" "chunk_end body start \<noteq> length body \<Longrightarrow> start + 1340 \<le> chunk_end body start"
    by blast+
qed

lemma truncate_bounded: "length (truncate_utf8_bytes s n) \<le> n"
  using floor_from_le [of s "min n (length s)"] by (simp add: truncate_utf8_bytes_def floor_char_boundary_def)

lemma context_bounded: "length (note_embedding_context source h) \<le> 512"
  by (simp add: note_embedding_context_def chunk_limits truncate_bounded)

definition good_chunk :: "string \<Rightarrow> note_embedding_chunk \<Rightarrow> bool" where
  "good_chunk body c \<longleftrightarrow>
     (let a = nsm_start (nec_section c); b = nsm_end (nec_section c)
      in a < b \<and> b \<le> length body \<and> is_char_boundary body a \<and> is_char_boundary body b \<and>
         suffix (text_slice body a b) (nec_text c) \<and> length (nec_text c) \<le> 2048)"

definition in_chunk :: "nat \<Rightarrow> note_embedding_chunk \<Rightarrow> bool" where
  "in_chunk i c \<longleftrightarrow> nsm_start (nec_section c) \<le> i \<and> i < nsm_end (nec_section c)"

lemma note_chunk_good:
  assumes "utf8_text body" "start < length body" "is_char_boundary body start"
  shows "good_chunk body (note_chunk hash source body offsets n start (chunk_end body start))"
  using chunk_end_props [OF assms(1,2)] assms(2,3) context_bounded [of source "last_heading offsets (chunk_end body start)"]
  by (auto simp: good_chunk_def note_chunk_def Let_def text_slice_def suffix_def)

lemma chunk_loop_covers:
  assumes "utf8_text body" "start < length body" "is_char_boundary body start"
  shows "\<exists>new. chunk_loop hash source body offsets chunks start = Some (chunks @ new) \<and> new \<noteq> [] \<and>
    (\<forall>i. start \<le> i \<longrightarrow> i < length body \<longrightarrow> (\<exists>c \<in> set new. in_chunk i c)) \<and>
    (\<forall>c \<in> set new. good_chunk body c) \<and> 1084 * (length new - 1) < length body - start"
  using assms
proof (induction "length body - start" arbitrary: chunks start rule: less_induct)
  case less
  let ?e = "chunk_end body start" and ?c = "note_chunk hash source body offsets (length chunks) start (chunk_end body start)"
  note e = chunk_end_props [OF less.prems(1,2)] and good = note_chunk_good [OF less.prems]
  have mine: "in_chunk i ?c" if "start \<le> i" "i < ?e" for i using that by (simp add: in_chunk_def note_chunk_def Let_def)
  show ?case
  proof (cases "?e = length body")
    case True
    then have "chunk_loop hash source body offsets chunks start = Some (chunks @ [?c])"
      using less.prems(2) by (subst chunk_loop.simps) (simp add: Let_def)
    with True mine good less.prems(2) show ?thesis by (intro exI [of _ "[?c]"]) auto
  next
    case False
    let ?s = "ceil_char_boundary body (?e - 256)"
    have s: "?e - 256 \<le> ?s" "?s \<le> ?e" "is_char_boundary body ?s" using ceil_props [OF e(1,3), of "?e - 256"] by simp_all
    have lt: "?s < length body" "start + 1084 \<le> ?s" using s(1,2) e(3,5) False by auto
    have "length body - ?s < length body - start" using lt by linarith
    from less.hyps [OF this less.prems(1) lt(1) s(3), of "chunks @ [?c]"]
    obtain new where new: "chunk_loop hash source body offsets (chunks @ [?c]) ?s = Some ((chunks @ [?c]) @ new)" "new \<noteq> []"
      "\<forall>i. ?s \<le> i \<longrightarrow> i < length body \<longrightarrow> (\<exists>c \<in> set new. in_chunk i c)" "\<forall>c \<in> set new. good_chunk body c"
      "1084 * (length new - 1) < length body - ?s" by blast
    have "chunk_loop hash source body offsets chunks start = Some (chunks @ ?c # new)"
      using new(1) less.prems(2) False by (subst chunk_loop.simps) (simp add: Let_def chunk_limits)
    moreover have "\<exists>c \<in> set (?c # new). in_chunk i c" if "start \<le> i" "i < length body" for i
      using that mine [of i] new(3) s(2) by (cases "i < ?e") auto
    moreover have "1084 * (length (?c # new) - 1) < length body - start"
    proof -
      have "1084 * length new = 1084 * (length new - 1) + 1084" using new(2) by (cases new) simp_all
      then show ?thesis using new(5) lt by simp
    qed
    ultimately show ?thesis using good new(4) by (intro exI [of _ "?c # new"]) auto
  qed
qed

text \<open>
  C26: the split of a note into embedding chunks ends and loses nothing. For the UTF-8 text of a note,
  \<open>note_embedding_chunks\<close> returns; every byte of the trimmed text is in some chunk; every chunk is a
  stretch of the text that starts and ends between characters (so that no slice panics), its input
  is at most 2048 bytes and ends with that stretch; and each chunk but the last advances by at least
  1084 bytes, so that a note of at most 8 MiB has fewer than 8192 chunks.
\<close>

theorem note_chunks_cover:
  assumes body: "body = trim (nes_plain_text source)" "body \<noteq> []" "utf8_text body"
  shows "\<exists>chunks. note_embedding_chunks hash source = Some chunks \<and>
      (\<forall>i < length body. \<exists>c \<in> set chunks. in_chunk i c) \<and> (\<forall>c \<in> set chunks. good_chunk body c) \<and>
      1084 * (length chunks - 1) < length body \<and>
      (length body \<le> 8 * 1024 * 1024 \<longrightarrow> length chunks < MAX_NOTE_EMBEDDING_CHUNKS)"
proof -
  have "0 < length body" "is_char_boundary body 0" using body(2) by (simp_all add: is_char_boundary_def)
  from chunk_loop_covers [OF body(3) this, of hash source "local_heading_offsets body 0 (nes_headings source)" "[]"]
  obtain chunks where "note_embedding_chunks hash source = Some chunks" and
    c: "\<forall>i < length body. \<exists>c \<in> set chunks. in_chunk i c" "\<forall>c \<in> set chunks. good_chunk body c"
      "1084 * (length chunks - 1) < length body"
    using body(1,2) by (auto simp: note_embedding_chunks_def Let_def)
  moreover have "length chunks < MAX_NOTE_EMBEDDING_CHUNKS" if "length body \<le> 8 * 1024 * 1024"
    using c(3) that by (simp add: MAX_NOTE_EMBEDDING_CHUNKS_def)
  ultimately show ?thesis by blast
qed

lemma split_whitespace_word: "cur \<noteq> [] \<Longrightarrow> split_whitespace_from cur s \<noteq> []"
  by (induction cur s rule: split_whitespace_from.induct) (simp_all add: Let_def)

lemma trim_start_word: "(\<And>s. white_space_len (c # s) = 0) \<Longrightarrow> trim_start (replicate n c) = replicate n c"
  by (cases n) simp_all

lemma trim_end_word: "(\<And>s. white_space_len (c # s) = 0) \<Longrightarrow> trim_end (replicate n c) = replicate n c"
  by (induction n) (simp_all add: split_whitespace_def split_whitespace_word)

theorem note_chunks_cover_witness:
  "\<exists>chunks. note_embedding_chunks rev \<lparr>nes_path = VaultPath ''a.md'', nes_revision = 1, nes_title = None,
      nes_headings = [], nes_plain_text = replicate 3000 CHR ''a''\<rparr> = Some chunks \<and>
    (\<forall>i < 3000. \<exists>c \<in> set chunks. in_chunk i c) \<and> (\<forall>c \<in> set chunks. length (nec_text c) \<le> 2048) \<and>
    length chunks < MAX_NOTE_EMBEDDING_CHUNKS"
proof -
  let ?n = "\<lparr>nes_path = VaultPath ''a.md'', nes_revision = 1, nes_title = None,
      nes_headings = [], nes_plain_text = replicate 3000 CHR ''a''\<rparr>"
  have w: "white_space_len (CHR ''a'' # s) = 0" for s by (simp add: white_space_len_def bytes_at_def)
  have t: "replicate 3000 CHR ''a'' = trim (nes_plain_text ?n)"
    by (simp add: trim_def trim_start_word [OF w] trim_end_word [OF w])
  have u: "utf8_text (replicate 3000 CHR ''a'')" by (auto simp: utf8_text_def continuation_def)
  obtain chunks where "note_embedding_chunks rev ?n = Some chunks" "\<forall>i < 3000. \<exists>c \<in> set chunks. in_chunk i c"
    "\<forall>c \<in> set chunks. good_chunk (replicate 3000 CHR ''a'') c" "length chunks < MAX_NOTE_EMBEDDING_CHUNKS"
    using note_chunks_cover [OF t _ u, of rev] by auto
  then show ?thesis by (auto simp: good_chunk_def Let_def)
qed

section \<open>Quoted queries contain only the terms\<close>

text \<open>How the full-text engine reads a query: a double quote opens a string, two in a row inside it are
  one quote of its text, a single one closes it; everything else is query syntax.\<close>

datatype fts_token = Phrase string | Syntax char

fun fts_lex :: "string option \<Rightarrow> string \<Rightarrow> fts_token list option" where
  "fts_lex None [] = Some []"
| "fts_lex None (c # cs) =
     (if c = DQUOTE then fts_lex (Some []) cs else map_option (Cons (Syntax c)) (fts_lex None cs))"
| "fts_lex (Some acc) [] = None"
| "fts_lex (Some acc) [c] = (if c = DQUOTE then Some [Phrase acc] else None)"
| "fts_lex (Some acc) (c # d # cs) =
     (if c \<noteq> DQUOTE then fts_lex (Some (acc @ [c])) (d # cs)
      else if d = DQUOTE then fts_lex (Some (acc @ [DQUOTE])) cs
      else map_option (Cons (Phrase acc)) (fts_lex None (d # cs)))"

fun fts_tokens :: "string \<Rightarrow> string list \<Rightarrow> fts_token list" where
  "fts_tokens sep [] = []"
| "fts_tokens sep [t] = [Phrase t]"
| "fts_tokens sep (t # ts) = Phrase t # map Syntax sep @ fts_tokens sep ts"

lemma escape_quotes_simps [simp]:
  "escape_quotes [] = []"
  "escape_quotes (c # cs) = (if c = DQUOTE then [DQUOTE, DQUOTE] else [c]) @ escape_quotes cs"
  by (simp_all add: escape_quotes_def)

lemma fts_lex_phrase:
  assumes "rest = [] \<or> hd rest \<noteq> DQUOTE"
  shows "fts_lex (Some acc) (escape_quotes t @ DQUOTE # rest) = map_option (Cons (Phrase (acc @ t))) (fts_lex None rest)"
proof (induction t arbitrary: acc)
  case Nil
  then show ?case using assms by (cases rest) auto
next
  case (Cons c t)
  then show ?case
    by (cases "escape_quotes t @ DQUOTE # rest") (auto simp: append_eq_Cons_conv)
qed

lemma fts_lex_syntax:
  "DQUOTE \<notin> set sep \<Longrightarrow> fts_lex None (sep @ s) = map_option (\<lambda>x. map Syntax sep @ x) (fts_lex None s)"
  by (induction sep; cases "fts_lex None s") auto

lemma fts_lex_join:
  assumes "sep \<noteq> []" "DQUOTE \<notin> set sep"
  shows "fts_lex None (join_str sep (map (\<lambda>t. DQUOTE # escape_quotes t @ [DQUOTE]) ts)) = Some (fts_tokens sep ts)"
proof (induction ts)
  case (Cons t ts)
  have "hd (sep @ w) \<noteq> DQUOTE" for w using assms by (cases sep) auto
  then show ?case
    using Cons by (cases ts) (simp_all add: fts_lex_phrase fts_lex_syntax [OF assms(2)])
qed simp

text \<open>
  C28: a search text reaches the full-text engine as data, never as query syntax. Whatever the text,
  either \<open>quote_fts_query_with\<close> refuses it, which happens exactly when it has no term or more than 64,
  or the query it builds reads back as the terms of the text, each one a quoted phrase with the text of the
  term, with nothing between them but the connective.
\<close>

theorem fts_query_is_quoted:
  assumes "sep \<noteq> []" "DQUOTE \<notin> set sep"
  shows "(case quote_fts_query_with query sep of
      Inr q \<Rightarrow> fts_lex None q = Some (fts_tokens sep (fts_terms query)) \<and> fts_terms query \<noteq> [] \<and> length (fts_terms query) \<le> 64
    | Inl e \<Rightarrow> fts_terms query = [] \<or> 64 < length (fts_terms query))"
  using fts_lex_join [OF assms] by (auto simp: quote_fts_query_with_def Let_def)

theorem fts_query_is_quoted_witness:
  "(case quote_fts_query (''say '' @ [DQUOTE] @ ''x OR y'') of
      Inr q \<Rightarrow> fts_lex None q = Some (fts_tokens '' AND '' [''say'', ''x'', ''OR'', ''y'']) | Inl e \<Rightarrow> False)"
proof -
  have t: "fts_terms (''say '' @ [DQUOTE] @ ''x OR y'') = [''say'', ''x'', ''OR'', ''y'']"
    by code_simp
  have s: "'' AND '' \<noteq> []" "DQUOTE \<notin> set '' AND ''" by (simp, code_simp)
  show ?thesis using fts_query_is_quoted [OF s, of "''say '' @ [DQUOTE] @ ''x OR y''", unfolded t]
    by (auto simp: quote_fts_query_def split: sum.splits)
qed

end
