(* ===== verification/Provider_Policy.thy ===== *)
theory Provider_Policy
  imports Note_Index
begin

text \<open>
  Provider configuration and the privacy policy of provider requests: the error type with its retry
  classification and its diagnostic codes (crates/providers/src/error.rs), the provider and model
  settings, the compatibility presets, and which network addresses a Vault may talk to
  (crates/providers/src/policy.rs). IPv4 addresses are four octets, IPv6 addresses 128-bit words.
\<close>

unbundle bit_operations_syntax

section \<open>Errors (error.rs)\<close>

datatype strict_function_call_issue =
    NoToolCall | WrongFinishReason | MissingToolCallId | InvalidChoice | MixedMessageContent
  | WrongToolName | MissingArguments | MultipleToolCalls | InconsistentToolCallId
  | InvalidToolDelta | InvalidStreamEvent | InvalidFinishSequence

datatype structured_json_parser_category = JsonSyntax | JsonEof | JsonData | JsonIo

datatype structured_json_parse_issue =
    TrailingComma | ExpectedValue | ExpectedKey | ExpectedColon | ExpectedCommaOrEnd | TrailingCharacters
  | InvalidEscape | InvalidUnicode | JsonControlCharacter | InvalidNumber | NumberOutOfRange
  | UnexpectedEof | GenericSyntax

datatype structured_json_finish_reason =
    FinishStop | FinishLength | FinishContentFilter | FinishRepetitionTruncation | FinishToolCalls | FinishUnknown

record structured_json_diagnostic =
  sd_parser_category :: structured_json_parser_category
  sd_issue :: structured_json_parse_issue
  sd_line :: nat
  sd_column :: nat
  sd_content_bytes :: nat
  sd_parsed_bytes :: nat
  sd_fence_detected :: bool
  sd_finish_reason :: "structured_json_finish_reason option"

datatype provider_error =
    PeInvalidConfiguration string
  | PeNotFound
  | PeModelNotFound
  | PeModelDisabled
  | PeModelCapabilityMismatch string
  | PeDisabled
  | PePrivacyDenied
  | PeRequestBudgetExhausted
  | PeRuntimeConfigurationDrift
  | PeEndpointDenied
  | PeTransport (pe_transport_code: string) bool \<comment> \<open>code, retryable\<close>
  | PeHttpStatus nat bool \<comment> \<open>status, retryable\<close>
  | PeResponseTooLarge
  | PeInvalidResponse string
  | PeStrictFunctionCallInvalid strict_function_call_issue
  | PeStructuredJsonInvalid structured_json_diagnostic
  | PeSchemaValidation string string \<comment> \<open>issue, path\<close>
  | PeDimensionMismatch
  | PeCapabilityUnavailable
  | PeTemporarilyUnavailable
  | PeState state_error
  | PeAuth auth_error
  | PeUrl

fun pe_retryable :: "provider_error \<Rightarrow> bool" where
  "pe_retryable (PeTransport code retryable) = retryable"
| "pe_retryable (PeHttpStatus status retryable) = retryable"
| "pe_retryable PeTemporarilyUnavailable = True"
| "pe_retryable _ = False"

definition http_status_code :: "nat \<Rightarrow> string" where
  "http_status_code status =
     (if status = 401 \<or> status = 403 then ''provider_auth_failed''
      else if status = 408 then ''provider_timeout''
      else if status = 429 then ''provider_rate_limited''
      else if 500 \<le> status \<and> status \<le> 599 then ''provider_server_error''
      else ''provider_http_error'')"

definition invalid_response_code :: "string \<Rightarrow> string" where
  "invalid_response_code reason =
     (if reason = ''provider content type is not JSON'' then ''provider_response_content_type_invalid''
      else if reason = ''response is not JSON'' then ''provider_response_json_invalid''
      else if reason = ''provider final content is missing'' then ''provider_final_content_missing''
      else if reason = ''structured output is not JSON'' then ''provider_structured_json_invalid''
      else if reason = ''provider output reached token limit'' then ''provider_output_truncated''
      else if reason = ''provider output was filtered'' then ''provider_output_filtered''
      else if reason = ''provider output repetition was truncated'' then ''provider_output_repetition_truncated''
      else if reason = ''provider response was incomplete'' then ''provider_response_incomplete''
      else ''provider_response_invalid'')"

fun pe_code :: "provider_error \<Rightarrow> string" where
  "pe_code (PeInvalidConfiguration _) = ''provider_config_invalid''"
| "pe_code PeNotFound = ''provider_not_found''"
| "pe_code PeModelNotFound = ''model_not_found''"
| "pe_code PeModelDisabled = ''model_disabled''"
| "pe_code (PeModelCapabilityMismatch _) = ''model_capability_mismatch''"
| "pe_code PeDisabled = ''provider_disabled''"
| "pe_code PePrivacyDenied = ''provider_privacy_denied''"
| "pe_code PeRequestBudgetExhausted = ''provider_request_budget_exhausted''"
| "pe_code PeRuntimeConfigurationDrift = ''provider_runtime_configuration_drift''"
| "pe_code PeEndpointDenied = ''provider_endpoint_denied''"
| "pe_code (PeTransport code _) = code"
| "pe_code (PeHttpStatus status _) = http_status_code status"
| "pe_code PeResponseTooLarge = ''provider_response_too_large''"
| "pe_code (PeInvalidResponse reason) = invalid_response_code reason"
| "pe_code (PeStructuredJsonInvalid _) = ''provider_structured_json_invalid''"
| "pe_code (PeStrictFunctionCallInvalid _) = ''provider_response_invalid''"
| "pe_code (PeSchemaValidation _ _) = ''provider_schema_invalid''"
| "pe_code PeDimensionMismatch = ''embedding_dimension_mismatch''"
| "pe_code PeCapabilityUnavailable = ''provider_capability_unavailable''"
| "pe_code PeTemporarilyUnavailable = ''provider_temporarily_unavailable''"
| "pe_code (PeState _) = ''provider_state_error''"
| "pe_code (PeAuth _) = ''provider_secret_unavailable''"
| "pe_code PeUrl = ''provider_url_invalid''"

fun is_generation_output_failure :: "provider_error \<Rightarrow> bool" where
  "is_generation_output_failure (PeSchemaValidation _ _) = True"
| "is_generation_output_failure (PeStructuredJsonInvalid _) = True"
| "is_generation_output_failure PeResponseTooLarge = True"
| "is_generation_output_failure (PeStrictFunctionCallInvalid _) = True"
| "is_generation_output_failure (PeInvalidResponse reason) =
     (reason \<in> {''provider final content is missing'', ''structured output is not JSON'',
        ''provider output reached token limit'', ''provider output was filtered'',
        ''provider output repetition was truncated''})"
| "is_generation_output_failure _ = False"

section \<open>Kinds, modes and settings (policy.rs)\<close>

datatype provider_kind =
    OpenAiResponses | OpenAiCompatible | DeepSeek | XiaomiMimo | ZhipuGlm | MoonshotKimi
  | GoogleGemini | AlibabaQwen | AnthropicMessages | EmbeddingHttp | FastEmbedLocal

fun provider_kind_as_str :: "provider_kind \<Rightarrow> string" where
  "provider_kind_as_str OpenAiResponses = ''openai_responses''"
| "provider_kind_as_str OpenAiCompatible = ''openai_compatible''"
| "provider_kind_as_str DeepSeek = ''deepseek''"
| "provider_kind_as_str XiaomiMimo = ''xiaomi_mimo''"
| "provider_kind_as_str ZhipuGlm = ''zhipu_glm''"
| "provider_kind_as_str MoonshotKimi = ''moonshot_kimi''"
| "provider_kind_as_str GoogleGemini = ''google_gemini''"
| "provider_kind_as_str AlibabaQwen = ''alibaba_qwen''"
| "provider_kind_as_str AnthropicMessages = ''anthropic_messages''"
| "provider_kind_as_str EmbeddingHttp = ''embedding_http''"
| "provider_kind_as_str FastEmbedLocal = ''fastembed_local''"

definition uses_openai_chat :: "provider_kind \<Rightarrow> bool" where
  "uses_openai_chat k \<longleftrightarrow>
     k \<in> {OpenAiCompatible, DeepSeek, XiaomiMimo, ZhipuGlm, MoonshotKimi, GoogleGemini, AlibabaQwen}"

definition provider_kind_try_from :: "string \<Rightarrow> provider_error + provider_kind" where
  "provider_kind_try_from value =
     (if value = ''openai_responses'' then Ok OpenAiResponses
      else if value = ''openai_compatible'' then Ok OpenAiCompatible
      else if value = ''deepseek'' then Ok DeepSeek
      else if value = ''xiaomi_mimo'' then Ok XiaomiMimo
      else if value = ''zhipu_glm'' then Ok ZhipuGlm
      else if value = ''moonshot_kimi'' then Ok MoonshotKimi
      else if value = ''google_gemini'' then Ok GoogleGemini
      else if value = ''alibaba_qwen'' then Ok AlibabaQwen
      else if value = ''anthropic_messages'' then Ok AnthropicMessages
      else if value = ''embedding_http'' then Ok EmbeddingHttp
      else if value = ''fastembed_local'' then Ok FastEmbedLocal
      else Err (PeInvalidConfiguration ''provider type is unsupported''))"

datatype provider_mode = ModeDisabled | LocalOnly | RemoteAllowed

record provider_settings =
  ps_timeout_ms :: nat
  ps_stream_first_event_timeout_ms :: nat
  ps_stream_idle_timeout_ms :: nat
  ps_stream_total_timeout_ms :: nat
  ps_connect_timeout_ms :: nat
  ps_max_retries :: nat
  ps_max_concurrency :: nat
  ps_max_request_bytes :: nat
  ps_max_response_bytes :: nat
  ps_allow_private_networks :: bool
  ps_headers :: "(string \<times> string) list"
  ps_organization :: "string option"
  ps_model_cache_dir :: "string option"

definition default_provider_settings :: provider_settings where
  "default_provider_settings =
     \<lparr>ps_timeout_ms = 30000, ps_stream_first_event_timeout_ms = 120000, ps_stream_idle_timeout_ms = 120000,
      ps_stream_total_timeout_ms = 600000, ps_connect_timeout_ms = 5000, ps_max_retries = 2,
      ps_max_concurrency = 4, ps_max_request_bytes = 2 * 1024 * 1024, ps_max_response_bytes = 4 * 1024 * 1024,
      ps_allow_private_networks = False, ps_headers = [], ps_organization = None, ps_model_cache_dir = None\<rparr>"

definition provider_settings_validate :: "provider_settings \<Rightarrow> provider_error + unit" where
  "provider_settings_validate s =
     (if ps_timeout_ms s = 0 \<or> ps_timeout_ms s > 10 * 60 * 1000
        \<or> ps_stream_first_event_timeout_ms s = 0 \<or> ps_stream_idle_timeout_ms s = 0
        \<or> ps_stream_total_timeout_ms s = 0 \<or> ps_stream_total_timeout_ms s > 30 * 60 * 1000
        \<or> ps_stream_first_event_timeout_ms s > ps_stream_total_timeout_ms s
        \<or> ps_stream_idle_timeout_ms s > ps_stream_total_timeout_ms s
        \<or> ps_connect_timeout_ms s = 0 \<or> ps_connect_timeout_ms s > ps_timeout_ms s
        \<or> ps_max_retries s > 8 \<or> ps_max_concurrency s = 0 \<or> ps_max_concurrency s > 64
        \<or> ps_max_request_bytes s = 0 \<or> ps_max_request_bytes s > 16 * 1024 * 1024
        \<or> ps_max_response_bytes s = 0 \<or> ps_max_response_bytes s > 32 * 1024 * 1024
      then Err (PeInvalidConfiguration ''provider resource limits are invalid'')
      else if length (ps_headers s) > 32
        \<or> (\<exists>(key, value) \<in> set (ps_headers s). key = [] \<or> length key > 128 \<or> length value > 1024)
      then Err (PeInvalidConfiguration ''provider headers are invalid'')
      else Ok ())"

section \<open>Models\<close>

record model_capabilities =
  mc_structured_output :: bool
  mc_embeddings :: bool
  mc_reranking :: bool
  mc_dimension :: "nat option"
  mc_context_window :: "nat option"
  mc_max_output_tokens :: "nat option"

definition is_some_and :: "'a option \<Rightarrow> ('a \<Rightarrow> bool) \<Rightarrow> bool" where
  "is_some_and v P \<longleftrightarrow> (case v of None \<Rightarrow> False | Some x \<Rightarrow> P x)"

definition model_capabilities_validate :: "model_capabilities \<Rightarrow> provider_error + unit" where
  "model_capabilities_validate c =
     (if is_some_and (mc_dimension c) (\<lambda>v. v = 0 \<or> v > 1000000)
        \<or> is_some_and (mc_context_window c) (\<lambda>v. v = 0 \<or> v > 100000000)
        \<or> is_some_and (mc_max_output_tokens c) (\<lambda>v. v = 0 \<or> v > 10000000)
      then Err (PeInvalidConfiguration ''model capability limits are invalid'')
      else if mc_dimension c \<noteq> None \<and> \<not> mc_embeddings c
      then Err (PeInvalidConfiguration ''embedding dimension requires embedding capability'')
      else Ok ())"

datatype openai_compatibility_preset =
    PresetAuto | PresetGeneric | PresetDeepSeek | PresetXiaomiMimo | PresetZhipuGlm | PresetMoonshotKimi
  | PresetGoogleGemini | PresetAlibabaQwen

definition from_provider_host :: "string option \<Rightarrow> openai_compatibility_preset" where
  "from_provider_host provider_host =
     (case provider_host of
        None \<Rightarrow> PresetGeneric
      | Some h \<Rightarrow>
          (let host = ascii_lowercase h in
           if host = ''api.deepseek.com'' then PresetDeepSeek
           else if host = ''api.xiaomimimo.com'' then PresetXiaomiMimo
           else if host = ''open.bigmodel.cn'' then PresetZhipuGlm
           else if host = ''api.moonshot.ai'' \<or> host = ''api.moonshot.cn'' then PresetMoonshotKimi
           else if host = ''generativelanguage.googleapis.com'' then PresetGoogleGemini
           else if host = ''dashscope.aliyuncs.com'' \<or> host = ''dashscope-intl.aliyuncs.com''
             \<or> suffix ''.dashscope.aliyuncs.com'' host \<or> suffix ''.maas.aliyuncs.com'' host
           then PresetAlibabaQwen
           else PresetGeneric))"

definition preset_resolve ::
  "openai_compatibility_preset \<Rightarrow> provider_kind \<Rightarrow> string option \<Rightarrow> openai_compatibility_preset" where
  "preset_resolve preset kind host =
     (if preset \<noteq> PresetAuto then preset
      else (case kind of
              DeepSeek \<Rightarrow> PresetDeepSeek
            | XiaomiMimo \<Rightarrow> PresetXiaomiMimo
            | ZhipuGlm \<Rightarrow> PresetZhipuGlm
            | MoonshotKimi \<Rightarrow> PresetMoonshotKimi
            | GoogleGemini \<Rightarrow> PresetGoogleGemini
            | AlibabaQwen \<Rightarrow> PresetAlibabaQwen
            | OpenAiCompatible \<Rightarrow> from_provider_host host
            | _ \<Rightarrow> PresetGeneric))"

definition uses_thinking_object :: "openai_compatibility_preset \<Rightarrow> bool" where
  "uses_thinking_object p \<longleftrightarrow> p \<in> {PresetDeepSeek, PresetXiaomiMimo, PresetZhipuGlm, PresetMoonshotKimi}"

datatype openai_structured_output_mode = OutputAuto | StrictJsonSchema | JsonObject | PromptOnly

definition output_mode_resolve ::
  "openai_structured_output_mode \<Rightarrow> openai_compatibility_preset \<Rightarrow> openai_structured_output_mode" where
  "output_mode_resolve m preset =
     (if m = OutputAuto then
        (if preset \<in> {PresetDeepSeek, PresetXiaomiMimo, PresetZhipuGlm, PresetAlibabaQwen}
         then JsonObject else StrictJsonSchema)
      else m)"

datatype openai_thinking_mode = ThinkingAuto | ThinkingEnabled | ThinkingDisabled

fun thinking_as_str :: "openai_thinking_mode \<Rightarrow> string option" where
  "thinking_as_str ThinkingAuto = None"
| "thinking_as_str ThinkingEnabled = Some ''enabled''"
| "thinking_as_str ThinkingDisabled = Some ''disabled''"

fun thinking_as_bool :: "openai_thinking_mode \<Rightarrow> bool option" where
  "thinking_as_bool ThinkingAuto = None"
| "thinking_as_bool ThinkingEnabled = Some True"
| "thinking_as_bool ThinkingDisabled = Some False"

definition DEFAULT_REASONING_GENERATION_TOKENS :: nat where "DEFAULT_REASONING_GENERATION_TOKENS = 32768"

datatype openai_token_limit_field = LimitAuto | MaxTokens | MaxCompletionTokens

definition token_field_resolve ::
  "openai_token_limit_field \<Rightarrow> openai_compatibility_preset \<Rightarrow> openai_token_limit_field" where
  "token_field_resolve f preset =
     (if f = LimitAuto then
        (if preset \<in> {PresetXiaomiMimo, PresetMoonshotKimi, PresetAlibabaQwen} then MaxCompletionTokens else MaxTokens)
      else f)"

record model_settings =
  ms_preset :: openai_compatibility_preset
  ms_output_mode :: openai_structured_output_mode
  ms_token_field :: openai_token_limit_field
  ms_thinking :: openai_thinking_mode
  ms_generation_token_limit :: "nat option"

definition contains_sub :: "string \<Rightarrow> string \<Rightarrow> bool" where
  \<comment> \<open>\<open>s.contains(pat)\<close>\<close>
  "contains_sub s pat \<longleftrightarrow> find_sub pat s \<noteq> None"

definition validate_for_model ::
  "model_settings \<Rightarrow> provider_kind \<Rightarrow> string option \<Rightarrow> string \<Rightarrow> provider_error + unit" where
  "validate_for_model s kind host external_model_id =
     (if \<not> uses_openai_chat kind \<and>
         (ms_preset s \<noteq> PresetAuto \<or> ms_output_mode s \<noteq> OutputAuto \<or> ms_token_field s \<noteq> LimitAuto \<or> ms_thinking s \<noteq> ThinkingAuto)
      then Err (PeInvalidConfiguration ''OpenAI compatibility settings do not match provider type'')
      else if is_some_and (ms_generation_token_limit s) (\<lambda>limit. limit = 0 \<or> limit > 1048576)
      then Err (PeInvalidConfiguration ''model generation-token limit is invalid'')
      else
        (let preset = preset_resolve (ms_preset s) kind host; model = ascii_lowercase external_model_id in
         if ms_thinking s \<noteq> ThinkingAuto \<and> preset = PresetGeneric
         then Err (PeInvalidConfiguration ''thinking control requires a provider compatibility preset'')
         else if ms_thinking s = ThinkingDisabled \<and> preset = PresetMoonshotKimi \<and>
           (prefix ''kimi-k3'' model \<or> prefix ''kimi-k2.7-code'' model \<or> contains_sub model ''/kimi-k3''
            \<or> contains_sub model ''/kimi-k2.7-code'')
         then Err (PeInvalidConfiguration ''selected Kimi model cannot disable thinking'')
         else if ms_thinking s = ThinkingDisabled \<and> preset = PresetGoogleGemini \<and>
           (prefix ''gemini-3'' model \<or> prefix ''gemini-2.5-pro'' model)
         then Err (PeInvalidConfiguration ''selected Gemini model cannot disable thinking'')
         else Ok ()))"

definition effective_generation_token_limit ::
  "model_settings \<Rightarrow> provider_kind \<Rightarrow> string option \<Rightarrow> model_capabilities \<Rightarrow> nat \<Rightarrow> nat" where
  "effective_generation_token_limit s kind host capabilities requested =
     (let preset = preset_resolve (ms_preset s) kind host;
          default =
            (if preset \<in> {PresetDeepSeek, PresetXiaomiMimo, PresetMoonshotKimi, PresetGoogleGemini, PresetAlibabaQwen}
             then max requested DEFAULT_REASONING_GENERATION_TOKENS else requested);
          configured = (case ms_generation_token_limit s of Some limit \<Rightarrow> limit | None \<Rightarrow> default)
      in case mc_max_output_tokens capabilities of None \<Rightarrow> configured | Some limit \<Rightarrow> min limit configured)"

section \<open>Network addresses\<close>

datatype ip_addr = IpV4 "8 word" "8 word" "8 word" "8 word" | IpV6 "128 word"

definition first_segment :: "128 word \<Rightarrow> 16 word" where
  "first_segment a = ucast (drop_bit 112 a)"

fun is_unspecified :: "ip_addr \<Rightarrow> bool" where
  "is_unspecified (IpV4 a b c d) \<longleftrightarrow> a = 0 \<and> b = 0 \<and> c = 0 \<and> d = 0"
| "is_unspecified (IpV6 a) \<longleftrightarrow> a = 0"

fun is_multicast :: "ip_addr \<Rightarrow> bool" where
  "is_multicast (IpV4 a b c d) \<longleftrightarrow> 224 \<le> a \<and> a \<le> 239"
| "is_multicast (IpV6 a) \<longleftrightarrow> first_segment a AND 0xff00 = 0xff00"

fun is_link_local :: "ip_addr \<Rightarrow> bool" where
  "is_link_local (IpV4 a b c d) \<longleftrightarrow> a = 169 \<and> b = 254"
| "is_link_local (IpV6 a) \<longleftrightarrow> first_segment a AND 0xffc0 = 0xfe80"

fun is_loopback :: "ip_addr \<Rightarrow> bool" where
  "is_loopback (IpV4 a b c d) \<longleftrightarrow> a = 127"
| "is_loopback (IpV6 a) \<longleftrightarrow> a = 1"

fun is_private_address :: "ip_addr \<Rightarrow> bool" where
  "is_private_address (IpV4 a b c d) \<longleftrightarrow>
     (a = 10 \<or> (a = 172 \<and> 16 \<le> b \<and> b \<le> 31) \<or> (a = 192 \<and> b = 168)) \<or> (a = 100 \<and> 64 \<le> b \<and> b \<le> 127)"
| "is_private_address (IpV6 a) \<longleftrightarrow> first_segment a AND 0xfe00 = 0xfc00"

fun is_metadata_address :: "ip_addr \<Rightarrow> bool" where
  "is_metadata_address (IpV4 a b c d) \<longleftrightarrow>
     (a = 169 \<and> b = 254 \<and> c = 169 \<and> d = 254) \<or> (a = 100 \<and> b = 100 \<and> c = 100 \<and> d = 200)"
| "is_metadata_address (IpV6 a) \<longleftrightarrow> a = 0xfd000ec2000000000000000000000254"

definition endpoint_ip_allowed :: "ip_addr \<Rightarrow> provider_mode \<Rightarrow> bool \<Rightarrow> bool" where
  "endpoint_ip_allowed ip mode allow_private_networks =
     (if is_unspecified ip \<or> is_multicast ip \<or> is_link_local ip then False
      else if is_metadata_address ip then False
      else
        (let private = is_private_address ip \<or> is_loopback ip
         in case mode of
              ModeDisabled \<Rightarrow> False
            | LocalOnly \<Rightarrow> private
            | RemoteAllowed \<Rightarrow> \<not> private \<or> allow_private_networks))"

section \<open>Labels and limits\<close>

interpretation provider_kind_label: label_codec provider_kind_as_str provider_kind_try_from
proof unfold_locales
  show "provider_kind_try_from (provider_kind_as_str x) = Ok x" for x
    by (cases x) (simp_all add: provider_kind_try_from_def)
  show "provider_kind_as_str x = s" if "provider_kind_try_from s = Ok x" for s x
    using that by (auto simp: provider_kind_try_from_def split: if_split_asm)
qed

lemma effective_limit_bounded:
  assumes "model_capabilities_validate c = Ok ()" "validate_for_model s kind host model = Ok ()" "0 < requested"
  shows "0 < effective_generation_token_limit s kind host c requested"
    and "mc_max_output_tokens c = Some limit \<Longrightarrow> effective_generation_token_limit s kind host c requested \<le> limit"
    and "ms_generation_token_limit s = Some limit \<Longrightarrow> effective_generation_token_limit s kind host c requested \<le> limit"
proof -
  have c: "0 < l" if "mc_max_output_tokens c = Some l" for l
    using assms(1) that by (cases l) (simp_all add: model_capabilities_validate_def is_some_and_def)
  have g: "0 < l" if "ms_generation_token_limit s = Some l" for l
    using assms(2) that by (cases l) (simp_all add: validate_for_model_def is_some_and_def split: if_split_asm)
  show "0 < effective_generation_token_limit s kind host c requested"
    using c g assms(3)
    by (cases "ms_generation_token_limit s"; cases "mc_max_output_tokens c") (auto simp: effective_generation_token_limit_def Let_def)
qed (auto simp: effective_generation_token_limit_def Let_def split: option.split)

section \<open>The address policy as a list of blocks\<close>

text \<open>The reference: CIDR blocks, as the value of an address of the family and a prefix length.\<close>

fun ip_value :: "ip_addr \<Rightarrow> nat" where
  "ip_value (IpV4 a b c d) = ((unat a * 256 + unat b) * 256 + unat c) * 256 + unat d"
| "ip_value (IpV6 a) = unat a"

fun ip_bits :: "ip_addr \<Rightarrow> nat" where
  "ip_bits (IpV4 _ _ _ _) = 32"
| "ip_bits (IpV6 _) = 128"

definition in_block :: "ip_addr \<Rightarrow> ip_addr \<times> nat \<Rightarrow> bool" where
  "in_block ip blk \<longleftrightarrow>
     (case blk of (net, len) \<Rightarrow>
        ip_bits ip = ip_bits net \<and> ip_value ip div 2 ^ (ip_bits net - len) = ip_value net div 2 ^ (ip_bits net - len))"

definition never_blocks :: "(ip_addr \<times> nat) list" where
  \<comment> \<open>unspecified, multicast, link-local and cloud metadata addresses\<close>
  "never_blocks =
     [(IpV4 0 0 0 0, 32), (IpV4 224 0 0 0, 4), (IpV4 169 254 0 0, 16), (IpV4 100 100 100 200, 32),
      (IpV6 0, 128), (IpV6 0xff000000000000000000000000000000, 8), (IpV6 0xfe800000000000000000000000000000, 10),
      (IpV6 0xfd000ec2000000000000000000000254, 128)]"

definition local_blocks :: "(ip_addr \<times> nat) list" where
  \<comment> \<open>loopback, RFC 1918, carrier-grade NAT and unique local addresses\<close>
  "local_blocks =
     [(IpV4 127 0 0 0, 8), (IpV4 10 0 0 0, 8), (IpV4 172 16 0 0, 12), (IpV4 192 168 0 0, 16),
      (IpV4 100 64 0 0, 10), (IpV6 1, 128), (IpV6 0xfc000000000000000000000000000000, 7)]"

lemma v4_value_div:
  fixes a b c d :: "8 word"
  defines "v \<equiv> ((unat a * 256 + unat b) * 256 + unat c) * 256 + unat d"
  shows "v div 2 ^ 28 = unat a div 16" "v div 2 ^ 24 = unat a" "v div 2 ^ 22 = unat a * 4 + unat b div 64"
    "v div 2 ^ 20 = unat a * 16 + unat b div 16" "v div 2 ^ 16 = unat a * 256 + unat b"
proof -
  have "unat a < 256" "unat b < 256" "unat c < 256" "unat d < 256"
    using unsigned_less [of a, where ?'a = nat] unsigned_less [of b, where ?'a = nat]
      unsigned_less [of c, where ?'a = nat] unsigned_less [of d, where ?'a = nat] by simp_all
  then show "v div 2 ^ 28 = unat a div 16" "v div 2 ^ 24 = unat a" "v div 2 ^ 22 = unat a * 4 + unat b div 64"
    "v div 2 ^ 20 = unat a * 16 + unat b div 16" "v div 2 ^ 16 = unat a * 256 + unat b"
    unfolding v_def by (simp_all; linarith)+
qed

lemma word_and_high:
  fixes s :: "16 word"
  shows "unat (s AND NOT (mask n)) = unat s div 2 ^ n * 2 ^ n"
proof -
  have "s AND NOT (mask n) = push_bit n (drop_bit n s)"
    by (rule bit_word_eqI) (auto simp: bit_simps)
  then have "unat (s AND NOT (mask n)) = take_bit 16 (push_bit n (drop_bit n (unat s)))"
    by (simp only: unsigned_push_bit_eq unat_drop_bit_eq) simp
  then have "unat (s AND NOT (mask n)) = (unat s div 2 ^ n * 2 ^ n) mod 2 ^ 16"
    by (simp only: drop_bit_eq_div push_bit_eq_mult take_bit_eq_mod)
  moreover have "unat s div 2 ^ n * 2 ^ n < 2 ^ 16"
    using order.strict_trans1 [OF div_times_less_eq_dividend unsigned_less [of s, where ?'a = nat]] by simp
  ultimately show ?thesis by (metis mod_less)
qed

lemma unat_first_segment: "unat (first_segment a) = unat a div 2 ^ 112"
proof -
  have "unat a div 2 ^ 112 < 2 ^ 16" using unsigned_less [of a, where ?'a = nat] by (simp add: less_mult_imp_div_less)
  then show ?thesis
    unfolding first_segment_def unsigned_ucast_eq unat_drop_bit_eq by (simp add: drop_bit_eq_div take_bit_eq_mod)
qed

lemma first_segment_blocks:
  "first_segment a AND 0xff00 = 0xff00 \<longleftrightarrow> unat a div 2 ^ 120 = 0xff"
  "first_segment a AND 0xffc0 = 0xfe80 \<longleftrightarrow> unat a div 2 ^ 118 = 0x3fa"
  "first_segment a AND 0xfe00 = 0xfc00 \<longleftrightarrow> unat a div 2 ^ 121 = 0x7e"
proof -
  have m: "(0xff00 :: 16 word) = NOT (mask 8)" "(0xffc0 :: 16 word) = NOT (mask 6)" "(0xfe00 :: 16 word) = NOT (mask 9)"
    by (simp_all add: mask_eq_exp_minus_1)
  have d: "unat a div 2 ^ 112 div 2 ^ k = unat a div 2 ^ (112 + k)" for k by (simp add: div_mult2_eq power_add)
  show "first_segment a AND 0xff00 = 0xff00 \<longleftrightarrow> unat a div 2 ^ 120 = 0xff"
    unfolding word_unat_eq_iff word_and_high [where n = 8, folded m(1)] unat_first_segment d by simp
  show "first_segment a AND 0xffc0 = 0xfe80 \<longleftrightarrow> unat a div 2 ^ 118 = 0x3fa"
    unfolding word_unat_eq_iff word_and_high [where n = 6, folded m(2)] unat_first_segment d by simp
  show "first_segment a AND 0xfe00 = 0xfc00 \<longleftrightarrow> unat a div 2 ^ 121 = 0x7e"
    unfolding word_unat_eq_iff word_and_high [where n = 9, folded m(3)] unat_first_segment d by simp
qed

lemma digit:
  fixes x y x' y' m :: nat
  assumes "y < m" "y' < m"
  shows "x * m + y = x' * m + y' \<longleftrightarrow> x = x' \<and> y = y'"
proof
  assume eq: "x * m + y = x' * m + y'"
  show "x = x' \<and> y = y'"
    using arg_cong [OF eq, of "\<lambda>n. n div m"] arg_cong [OF eq, of "\<lambda>n. n mod m"] assms by simp
qed simp

lemma v4_value_eq:
  "ip_value (IpV4 a b c d) = ip_value (IpV4 a' b' c' d') \<longleftrightarrow> a = a' \<and> b = b' \<and> c = c' \<and> d = d'"
proof -
  have "unat x < 256" for x :: "8 word" using unsigned_less [of x, where ?'a = nat] by simp
  note lt = this [of a] this [of b] this [of c] this [of d] this [of a'] this [of b'] this [of c'] this [of d']
  show ?thesis
    unfolding ip_value.simps digit [OF lt(4,8)] digit [OF lt(3,7)] digit [OF lt(2,6)] by (auto simp: word_unat_eq_iff)
qed

lemma v4_blocks:
  "in_block (IpV4 a b c d) (IpV4 a' b' c' d', 32) \<longleftrightarrow> a = a' \<and> b = b' \<and> c = c' \<and> d = d'"
  "in_block (IpV4 a b c d) (IpV4 224 0 0 0, 4) \<longleftrightarrow> 224 \<le> a \<and> a \<le> 239"
  "in_block (IpV4 a b c d) (IpV4 a' 0 0 0, 8) \<longleftrightarrow> a = a'"
  "in_block (IpV4 a b c d) (IpV4 a' b' 0 0, 16) \<longleftrightarrow> a = a' \<and> b = b'"
  "in_block (IpV4 a b c d) (IpV4 172 16 0 0, 12) \<longleftrightarrow> a = 172 \<and> 16 \<le> b \<and> b \<le> 31"
  "in_block (IpV4 a b c d) (IpV4 100 64 0 0, 10) \<longleftrightarrow> a = 100 \<and> 64 \<le> b \<and> b \<le> 127"
proof -
  have lt: "unat x < 256" for x :: "8 word" using unsigned_less [of x, where ?'a = nat] by simp
  have n: "32 - 4 = (28 :: nat)" "32 - 8 = (24 :: nat)" "32 - 10 = (22 :: nat)" "32 - 12 = (20 :: nat)" "32 - 16 = (16 :: nat)"
    by simp_all
  have v: "in_block (IpV4 a b c d) (IpV4 a' b' c' d', 4) \<longleftrightarrow> unat a div 16 = unat a' div 16"
    "in_block (IpV4 a b c d) (IpV4 a' b' c' d', 8) \<longleftrightarrow> unat a = unat a'"
    "in_block (IpV4 a b c d) (IpV4 a' b' c' d', 10) \<longleftrightarrow> unat a * 4 + unat b div 64 = unat a' * 4 + unat b' div 64"
    "in_block (IpV4 a b c d) (IpV4 a' b' c' d', 12) \<longleftrightarrow> unat a * 16 + unat b div 16 = unat a' * 16 + unat b' div 16"
    "in_block (IpV4 a b c d) (IpV4 a' b' c' d', 16) \<longleftrightarrow> unat a * 256 + unat b = unat a' * 256 + unat b'"
    for a' b' c' d'
    by (simp_all only: in_block_def prod.case ip_bits.simps ip_value.simps n v4_value_div simp_thms)
  show "in_block (IpV4 a b c d) (IpV4 a' b' c' d', 32) \<longleftrightarrow> a = a' \<and> b = b' \<and> c = c' \<and> d = d'"
    using v4_value_eq [of a b c d a' b' c' d'] by (simp add: in_block_def)
  show "in_block (IpV4 a b c d) (IpV4 224 0 0 0, 4) \<longleftrightarrow> 224 \<le> a \<and> a \<le> 239"
    unfolding v word_le_nat_alt by simp linarith
  show "in_block (IpV4 a b c d) (IpV4 a' 0 0 0, 8) \<longleftrightarrow> a = a'" unfolding v by (simp add: word_unat_eq_iff)
  show "in_block (IpV4 a b c d) (IpV4 a' b' 0 0, 16) \<longleftrightarrow> a = a' \<and> b = b'"
    unfolding v digit [OF lt lt] by (simp add: word_unat_eq_iff)
  have q: "unat x div 16 < 16" "unat x div 64 < 4" for x :: "8 word" using lt [of x] by linarith+
  show "in_block (IpV4 a b c d) (IpV4 172 16 0 0, 12) \<longleftrightarrow> a = 172 \<and> 16 \<le> b \<and> b \<le> 31"
    unfolding v digit [OF q(1) q(1)] word_unat_eq_iff word_le_nat_alt by simp linarith
  show "in_block (IpV4 a b c d) (IpV4 100 64 0 0, 10) \<longleftrightarrow> a = 100 \<and> 64 \<le> b \<and> b \<le> 127"
    unfolding v digit [OF q(2) q(2)] word_unat_eq_iff word_le_nat_alt by simp linarith
qed

lemma other_family [simp]: "\<not> in_block (IpV4 a b c d) (IpV6 x, n)" "\<not> in_block (IpV6 x) (IpV4 a b c d, n)"
  by (simp_all add: in_block_def)

lemma v6_blocks:
  "in_block (IpV6 a) (IpV6 b, 128) \<longleftrightarrow> a = b"
  "in_block (IpV6 a) (IpV6 0xff000000000000000000000000000000, 8) \<longleftrightarrow> first_segment a AND 0xff00 = 0xff00"
  "in_block (IpV6 a) (IpV6 0xfe800000000000000000000000000000, 10) \<longleftrightarrow> first_segment a AND 0xffc0 = 0xfe80"
  "in_block (IpV6 a) (IpV6 0xfc000000000000000000000000000000, 7) \<longleftrightarrow> first_segment a AND 0xfe00 = 0xfc00"
  unfolding first_segment_blocks by (simp_all add: in_block_def word_unat_eq_iff)

lemma in_never_blocks:
  "list_ex (in_block ip) never_blocks \<longleftrightarrow>
     is_unspecified ip \<or> is_multicast ip \<or> is_link_local ip \<or> is_metadata_address ip"
  by (cases ip) (auto simp: never_blocks_def v4_blocks v6_blocks)

lemma in_local_blocks: "list_ex (in_block ip) local_blocks \<longleftrightarrow> is_private_address ip \<or> is_loopback ip"
  by (cases ip) (auto simp: local_blocks_def v4_blocks v6_blocks)

lemma allowed_blocks:
  "endpoint_ip_allowed ip mode allow \<longleftrightarrow>
     \<not> list_ex (in_block ip) never_blocks \<and>
     (case mode of
        ModeDisabled \<Rightarrow> False
      | LocalOnly \<Rightarrow> list_ex (in_block ip) local_blocks
      | RemoteAllowed \<Rightarrow> allow \<or> \<not> list_ex (in_block ip) local_blocks)"
  unfolding in_never_blocks in_local_blocks by (cases mode) (auto simp: endpoint_ip_allowed_def Let_def)

lemma low_v6_remote:
  fixes w :: "128 word"
  assumes "2 \<le> unat w" "unat w < 2 ^ 48"
  shows "endpoint_ip_allowed (IpV6 w) RemoteAllowed allow \<and> \<not> endpoint_ip_allowed (IpV6 w) LocalOnly allow"
proof -
  have z: "unat w div 2 ^ k = 0" if "48 \<le> k" for k
    using order.strict_trans2 [OF assms(2) power_increasing [OF that]] by simp
  have d: "unat w div 2 ^ 120 \<noteq> 0xff" "unat w div 2 ^ 118 \<noteq> 0x3fa" "unat w div 2 ^ 121 \<noteq> 0x7e"
    using z [of 120] z [of 118] z [of 121] by simp_all
  have "w \<noteq> 0" "w \<noteq> 1" "w \<noteq> 0xfd000ec2000000000000000000000254"
    using assms by (auto simp: word_unat_eq_iff)
  with d show ?thesis unfolding first_segment_blocks [symmetric] by (simp add: endpoint_ip_allowed_def Let_def)
qed

definition mapped_ipv6 :: "ip_addr \<Rightarrow> ip_addr" where
  \<comment> \<open>\<open>::ffff:a.b.c.d\<close>\<close>
  "mapped_ipv6 ip = IpV6 (of_nat (0xffff * 2 ^ 32 + ip_value ip))"

text \<open>
  The policy does not look through an IPv4-mapped IPv6 address. Every address \<open>::ffff:a.b.c.d\<close> is reachable
  for a Vault with remote providers, also when the IPv4 address it stands for is refused: loopback,
  private, link-local and metadata addresses alike. In local-only mode none of them is reachable.
\<close>

lemma mapped_addresses_pass:
  "endpoint_ip_allowed (mapped_ipv6 (IpV4 a b c d)) RemoteAllowed allow \<and>
   \<not> endpoint_ip_allowed (mapped_ipv6 (IpV4 a b c d)) LocalOnly allow \<and>
   \<not> endpoint_ip_allowed (IpV4 127 b c d) RemoteAllowed False \<and>
   \<not> endpoint_ip_allowed (IpV4 169 254 169 254) RemoteAllowed allow"
proof -
  have o: "unat x < 256" for x :: "8 word" using unsigned_less [of x, where ?'a = nat] by simp
  have lt: "ip_value (IpV4 a b c d) < 2 ^ 32" using o [of a] o [of b] o [of c] o [of d] by simp
  have u: "unat (of_nat m :: 128 word) = m" if "m < 2 ^ 48" for m
    using that by (simp add: unsigned_of_nat take_bit_eq_mod)
  let ?n = "0xffff * 2 ^ 32 + ip_value (IpV4 a b c d)"
  have n: "2 \<le> ?n" "?n < 2 ^ 48" using lt by simp_all
  then have "2 \<le> unat (of_nat ?n :: 128 word)" "unat (of_nat ?n :: 128 word) < 2 ^ 48" unfolding u [OF n(2)] by blast+
  note low_v6_remote [OF this, of allow]
  moreover have "\<not> endpoint_ip_allowed (IpV4 127 b c d) RemoteAllowed False"
    "\<not> endpoint_ip_allowed (IpV4 169 254 169 254) RemoteAllowed allow" by (simp_all add: endpoint_ip_allowed_def)
  ultimately show ?thesis unfolding mapped_ipv6_def by blast
qed



end
