(* ===== verification/Provider_Stream.thy ===== *)
theory Provider_Stream
  imports Provider_Policy
begin

text \<open>
  The bounded decoder of server-sent events (crates/providers/src/sse.rs) with the UTF-8 check it
  makes. Bytes are a \<open>string\<close>; an error ends the request and drops the decoder with it, so that an operation
  returns either the error or the events and the new state.
\<close>

section \<open>UTF-8 (std::str::from_utf8)\<close>

definition second_of_three :: "nat \<Rightarrow> nat \<Rightarrow> bool" where
  "second_of_three x y \<longleftrightarrow>
     (x = 0xE0 \<and> 0xA0 \<le> y \<and> y \<le> 0xBF) \<or> (0xE1 \<le> x \<and> x \<le> 0xEC \<and> 0x80 \<le> y \<and> y \<le> 0xBF)
     \<or> (x = 0xED \<and> 0x80 \<le> y \<and> y \<le> 0x9F) \<or> (0xEE \<le> x \<and> x \<le> 0xEF \<and> 0x80 \<le> y \<and> y \<le> 0xBF)"

definition second_of_four :: "nat \<Rightarrow> nat \<Rightarrow> bool" where
  "second_of_four x y \<longleftrightarrow>
     (x = 0xF0 \<and> 0x90 \<le> y \<and> y \<le> 0xBF) \<or> (0xF1 \<le> x \<and> x \<le> 0xF3 \<and> 0x80 \<le> y \<and> y \<le> 0xBF)
     \<or> (x = 0xF4 \<and> 0x80 \<le> y \<and> y \<le> 0x8F)"

fun valid_utf8 :: "string \<Rightarrow> bool" where
  "valid_utf8 [] = True"
| "valid_utf8 (a # s) =
     (let x = byte_of a in
      if x < 128 then valid_utf8 s
      else (case s of [] \<Rightarrow> False | b # s1 \<Rightarrow>
        if 0xC2 \<le> x \<and> x \<le> 0xDF then continuation b \<and> valid_utf8 s1
        else (case s1 of [] \<Rightarrow> False | c # s2 \<Rightarrow>
          if second_of_three x (byte_of b) then continuation c \<and> valid_utf8 s2
          else (case s2 of [] \<Rightarrow> False | d # s3 \<Rightarrow>
            second_of_four x (byte_of b) \<and> continuation c \<and> continuation d \<and> valid_utf8 s3))))"

section \<open>The decoder (sse.rs)\<close>

record sse_event =
  se_event :: "string option"
  se_id :: "string option"
  se_data :: string

record sse_decoder =
  sd_buffer :: string
  sd_event :: "string option"
  sd_id :: "string option"
  sd_data :: "string list"
  sd_max_event_bytes :: nat
  sd_finished :: bool

definition sse_new :: "nat \<Rightarrow> provider_error + sse_decoder" where
  "sse_new max_event_bytes =
     (if max_event_bytes = 0 then Err (PeInvalidConfiguration ''SSE event limit is zero'')
      else Ok \<lparr>sd_buffer = [], sd_event = None, sd_id = None, sd_data = [],
               sd_max_event_bytes = max_event_bytes, sd_finished = False\<rparr>)"

fun find_line_end_from :: "nat \<Rightarrow> string \<Rightarrow> (nat \<times> nat) option" where
  "find_line_end_from index [] = None"
| "find_line_end_from index (byte # rest) =
     (if byte = newline then Some (index + 1, 1)
      else if byte = carriage_return then
        (case rest of
           [] \<Rightarrow> None
         | next # _ \<Rightarrow> if next = newline then Some (index + 2, 2) else Some (index + 1, 1))
      else find_line_end_from (index + 1) rest)"

definition find_line_end :: "string \<Rightarrow> (nat \<times> nat) option" where
  "find_line_end buffer = find_line_end_from 0 buffer"

definition DONE :: string where "DONE = ''[DONE]''"

definition dispatch :: "sse_decoder \<Rightarrow> sse_event \<times> sse_decoder" where
  "dispatch d =
     (let event = \<lparr>se_event = sd_event d, se_id = sd_id d, se_data = join_str [newline] (sd_data d)\<rparr>;
          d' = d\<lparr>sd_event := None, sd_id := None, sd_data := []\<rparr>
      in (event, if se_data event = DONE then d'\<lparr>sd_finished := True\<rparr> else d'))"

definition split_field :: "string \<Rightarrow> string \<times> string" where
  "split_field line =
     (case find_sub '':'' line of
        Some i \<Rightarrow> (take i line,
          (let rest = drop (i + 1) line in case strip_prefix '' '' rest of Some v \<Rightarrow> v | None \<Rightarrow> rest))
      | None \<Rightarrow> (line, []))"

definition consume_line :: "string \<Rightarrow> sse_decoder \<Rightarrow> provider_error + (sse_event list \<times> sse_decoder)" where
  "consume_line line d =
     (if sd_finished d \<and> line \<noteq> [] then Err (PeInvalidResponse ''SSE data after DONE'')
      else if line = [] then
        (if sd_data d \<noteq> [] then (let (event, d') = dispatch d in Ok ([event], d')) else Ok ([], d))
      else if hd line = CHR '':'' then Ok ([], d)
      else
        (let (field, value) = split_field line in
         if \<not> valid_utf8 field then Err (PeInvalidResponse ''SSE field is not UTF-8'')
         else if \<not> valid_utf8 value then Err (PeInvalidResponse ''SSE value is not UTF-8'')
         else if field = ''event'' then Ok ([], d\<lparr>sd_event := Some value\<rparr>)
         else if field = ''id'' then Ok ([], d\<lparr>sd_id := Some value\<rparr>)
         else if field = ''data'' then
           (let d' = d\<lparr>sd_data := sd_data d @ [value]\<rparr> in
            if sum_list (map length (sd_data d')) > sd_max_event_bytes d then Err PeResponseTooLarge else Ok ([], d'))
         else Ok ([], d)))"

lemma find_line_end_from_bounds:
  "find_line_end_from i s = Some (e, n) \<Longrightarrow> i < e \<and> e \<le> i + length s \<and> n \<le> e"
  by (induction i s rule: find_line_end_from.induct) (auto split: if_split_asm list.split_asm)

lemma find_line_end_pos: "find_line_end s = Some (e, n) \<Longrightarrow> 0 < e \<and> e \<le> length s \<and> s \<noteq> []"
  using find_line_end_from_bounds [of 0 s e n] by (auto simp: find_line_end_def)

lemma dispatch_frame: "sd_buffer (snd (dispatch d)) = sd_buffer d"
  "sd_max_event_bytes (snd (dispatch d)) = sd_max_event_bytes d"
  by (simp_all add: dispatch_def Let_def)

lemma consume_line_frame:
  "consume_line line d = Ok (evs, d') \<Longrightarrow> sd_buffer d' = sd_buffer d \<and> sd_max_event_bytes d' = sd_max_event_bytes d"
  using dispatch_frame [of d]
  by (auto simp: consume_line_def Let_def split_beta split: if_split_asm)

function sse_drain :: "sse_decoder \<Rightarrow> sse_event list \<Rightarrow> provider_error + (sse_event list \<times> sse_decoder)" where
  "sse_drain d events =
     (case find_line_end (sd_buffer d) of
        None \<Rightarrow> Ok (events, d)
      | Some (e, newline_len) \<Rightarrow>
          (case consume_line (take (e - newline_len) (sd_buffer d)) (d\<lparr>sd_buffer := drop e (sd_buffer d)\<rparr>) of
             Err err \<Rightarrow> Err err
           | Ok (evs, d') \<Rightarrow> sse_drain d' (events @ evs)))"
  by pat_completeness auto

termination
  by (relation "measure (\<lambda>(d, _). length (sd_buffer d))") (auto dest!: consume_line_frame find_line_end_pos)

declare sse_drain.simps [simp del]

definition sse_push :: "string \<Rightarrow> sse_decoder \<Rightarrow> provider_error + (sse_event list \<times> sse_decoder)" where
  "sse_push bytes d =
     (if sd_finished d then Err (PeInvalidResponse ''SSE data after DONE'')
      else bind_r (sse_drain (d\<lparr>sd_buffer := sd_buffer d @ bytes\<rparr>) []) (\<lambda>(events, d').
        if length (sd_buffer d') > sd_max_event_bytes d' then Err PeResponseTooLarge else Ok (events, d')))"

definition sse_finish :: "sse_decoder \<Rightarrow> provider_error + (sse_event list \<times> sse_decoder)" where
  "sse_finish d =
     (if sd_finished d then Ok ([], d)
      else bind_r (if sd_buffer d \<noteq> [] then consume_line (sd_buffer d) (d\<lparr>sd_buffer := []\<rparr>) else Ok ([], d))
        (\<lambda>(events, d').
          if sd_data d' \<noteq> [] then (let (event, d'') = dispatch d' in Ok (events @ [event], d'')) else Ok (events, d')))"

section \<open>Where the network cuts the stream does not matter\<close>

lemma find_line_end_from_append:
  "find_line_end_from i s = Some r \<Longrightarrow> find_line_end_from i (s @ t) = Some r"
  by (induction i s rule: find_line_end_from.induct) (auto split: if_split_asm list.split_asm)

lemma find_line_end_append: "find_line_end s = Some r \<Longrightarrow> find_line_end (s @ t) = Some r"
  by (simp add: find_line_end_def find_line_end_from_append)

definition rebuffer :: "string \<Rightarrow> sse_decoder \<Rightarrow> sse_decoder" where
  "rebuffer b d = d\<lparr>sd_buffer := b\<rparr>"

lemma rebuffer_simps [simp]:
  "sd_buffer (rebuffer b d) = b" "sd_data (rebuffer b d) = sd_data d" "sd_event (rebuffer b d) = sd_event d"
  "sd_id (rebuffer b d) = sd_id d" "sd_finished (rebuffer b d) = sd_finished d"
  "sd_max_event_bytes (rebuffer b d) = sd_max_event_bytes d" "rebuffer b (rebuffer c d) = rebuffer b d"
  "rebuffer (sd_buffer d) d = d"
  by (simp_all add: rebuffer_def)

lemma dispatch_rebuffer: "dispatch (rebuffer b d) = map_prod id (rebuffer b) (dispatch d)"
  by (simp add: dispatch_def rebuffer_def Let_def)

lemma consume_line_rebuffer:
  "consume_line line d = Ok (evs, d') \<Longrightarrow> consume_line line (rebuffer b d) = Ok (evs, rebuffer b d')"
  using dispatch_rebuffer [of b d]
  by (auto simp: consume_line_def Let_def split_beta rebuffer_def split: if_split_asm)

lemma sse_drain_append:
  "sse_drain d events = Ok (evs, d') \<Longrightarrow>
   sse_drain (rebuffer (sd_buffer d @ rest) d) events = sse_drain (rebuffer (sd_buffer d' @ rest) d') evs"
proof (induction d events rule: sse_drain.induct)
  case (1 d events)
  show ?case
  proof (cases "find_line_end (sd_buffer d)")
    case None
    with 1(2) have "evs = events" "d' = d" by (simp_all add: sse_drain.simps [of d])
    then show ?thesis by simp
  next
    case (Some p)
    obtain e n where p: "p = (e, n)" by (cases p)
    let ?line = "take (e - n) (sd_buffer d)" and ?d = "d\<lparr>sd_buffer := drop e (sd_buffer d)\<rparr>"
    obtain evs1 d1 where c: "consume_line ?line ?d = Ok (evs1, d1)" and r: "sse_drain d1 (events @ evs1) = Ok (evs, d')"
      using 1(2) Some p by (subst (asm) sse_drain.simps) (auto split: sum.split_asm)
    have len: "e \<le> length (sd_buffer d)" using Some p find_line_end_pos by auto
    have b: "sd_buffer d1 = drop e (sd_buffer d)" using consume_line_frame [OF c] by simp
    have "consume_line ?line (rebuffer (drop e (sd_buffer d) @ rest) d) = Ok (evs1, rebuffer (sd_buffer d1 @ rest) d1)"
      using consume_line_rebuffer [OF c, of "drop e (sd_buffer d) @ rest"] b by (simp add: rebuffer_def)
    then have "sse_drain (rebuffer (sd_buffer d @ rest) d) events = sse_drain (rebuffer (sd_buffer d1 @ rest) d1) (events @ evs1)"
      using find_line_end_append [OF Some] p len
      by (subst sse_drain.simps) (simp add: rebuffer_def [of _ d])
    also have "\<dots> = sse_drain (rebuffer (sd_buffer d' @ rest) d') evs"
      using 1(1) [OF Some [unfolded p] refl c refl r] .
    finally show ?thesis .
  qed
qed

lemma sse_drain_acc:
  "sse_drain d (pre @ events) = bind_r (sse_drain d events) (\<lambda>(evs, d'). Ok (pre @ evs, d'))"
proof (induction d events rule: sse_drain.induct)
  case (1 d events)
  show ?case
    by (subst (1 2) sse_drain.simps) (auto simp: 1 split: option.split sum.split)
qed

fun sse_push_all :: "string list \<Rightarrow> sse_decoder \<Rightarrow> provider_error + (sse_event list \<times> sse_decoder)" where
  "sse_push_all [] d = Ok ([], d)"
| "sse_push_all (c # cs) d =
     bind_r (sse_push c d) (\<lambda>(evs, d'). bind_r (sse_push_all cs d') (\<lambda>(rest, d''). Ok (evs @ rest, d'')))"

lemma sse_push_append:
  assumes "sse_push a d = Ok (evs1, d1)" "sse_push b d1 = Ok (evs2, d2)"
  shows "sse_push (a @ b) d = Ok (evs1 @ evs2, d2)"
proof -
  have f: "\<not> sd_finished d" "\<not> sd_finished d1" using assms by (auto simp: sse_push_def split: if_split_asm)
  have p: "sse_drain (rebuffer (sd_buffer d @ a) d) [] = Ok (evs1, d1)"
    using assms(1) f(1) by (auto simp: sse_push_def rebuffer_def bind_r_Ok_conv split: if_split_asm)
  have q: "sse_drain (rebuffer (sd_buffer d1 @ b) d1) [] = Ok (evs2, d2)" "length (sd_buffer d2) \<le> sd_max_event_bytes d2"
    using assms(2) f(2) by (auto simp: sse_push_def rebuffer_def bind_r_Ok_conv split: if_split_asm)
  have "sse_drain (rebuffer (sd_buffer d @ a @ b) d) [] = sse_drain (rebuffer (sd_buffer d1 @ b) d1) (evs1 @ [])"
    using sse_drain_append [OF p, of b] by simp
  also have "\<dots> = Ok (evs1 @ evs2, d2)" unfolding sse_drain_acc q(1) by simp
  finally show ?thesis using f(1) q(2) by (simp add: sse_push_def rebuffer_def)
qed

lemma sse_push_all_concat:
  "cs \<noteq> [] \<Longrightarrow> sse_push_all cs d = Ok (evs, d') \<Longrightarrow> sse_push (concat cs) d = Ok (evs, d')"
proof (induction cs arbitrary: d evs rule: list_nonempty_induct)
  case (single c)
  then show ?case by (auto simp: bind_r_Ok_conv)
next
  case (cons c cs)
  then show ?case by (auto simp: bind_r_Ok_conv intro: sse_push_append)
qed

lemma sse_push_fresh: "sse_new limit = Ok d \<Longrightarrow> sse_push [] d = Ok ([], d)"
  by (auto simp: sse_new_def sse_push_def sse_drain.simps find_line_end_def split: if_split_asm)

text \<open>
  The other direction: a cut adds two errors. An unfinished line that is longer than the limit is
  refused when a piece ends in it, and any further piece is refused after \<open>[DONE]\<close>.
\<close>

lemma consume_line_unbuffer:
  assumes "consume_line line (rebuffer b d) = Ok (evs, d')"
  shows "consume_line line d = Ok (evs, rebuffer (sd_buffer d) d')"
  using consume_line_rebuffer [OF assms, of "sd_buffer d"] by simp

lemma sse_drain_prefix:
  "sse_drain (rebuffer (sd_buffer d @ rest) d) events = Ok r \<Longrightarrow> \<exists>r'. sse_drain d events = Ok r'"
proof (induction d events rule: sse_drain.induct)
  case (1 d events)
  show ?case
  proof (cases "find_line_end (sd_buffer d)")
    case None
    then show ?thesis by (simp add: sse_drain.simps [of d])
  next
    case (Some p)
    obtain e n where p: "p = (e, n)" by (cases p)
    let ?line = "take (e - n) (sd_buffer d)" and ?d = "d\<lparr>sd_buffer := drop e (sd_buffer d)\<rparr>"
    have len: "e \<le> length (sd_buffer d)" using Some p find_line_end_pos by auto
    obtain evs1 d1 where c: "consume_line ?line (rebuffer (drop e (sd_buffer d) @ rest) ?d) = Ok (evs1, d1)"
      and r: "sse_drain d1 (events @ evs1) = Ok r"
      using 1(2) find_line_end_append [OF Some, of rest] p len
      by (subst (asm) sse_drain.simps) (auto simp: rebuffer_def split: sum.split_asm)
    note c' = consume_line_unbuffer [OF c]
    have "rebuffer (sd_buffer (rebuffer (drop e (sd_buffer d)) d1) @ rest) (rebuffer (drop e (sd_buffer d)) d1) = d1"
      using consume_line_frame [OF c] rebuffer_simps(8) [of d1] by simp
    with r have "\<exists>r'. sse_drain (rebuffer (drop e (sd_buffer d)) d1) (events @ evs1) = Ok r'"
      using 1(1) [OF Some [unfolded p] refl c' refl] by simp
    then show ?thesis using Some p c' by (subst sse_drain.simps) simp
  qed
qed

lemma sse_push_split:
  assumes "sse_push (a @ b) d = Ok (evs, d')"
  shows "sse_push a d = Err PeResponseTooLarge \<or>
    (\<exists>evs1 d1. sse_push a d = Ok (evs1, d1) \<and>
       (sd_finished d1 \<or> (\<exists>evs2. evs = evs1 @ evs2 \<and> sse_push b d1 = Ok (evs2, d'))))"
proof -
  have f: "\<not> sd_finished d" and w: "sse_drain (rebuffer (sd_buffer d @ a @ b) d) [] = Ok (evs, d')"
    and l: "length (sd_buffer d') \<le> sd_max_event_bytes d'"
    using assms by (auto simp: sse_push_def rebuffer_def bind_r_Ok_conv split: if_split_asm)
  obtain evs1 d1 where p: "sse_drain (rebuffer (sd_buffer d @ a) d) [] = Ok (evs1, d1)"
    using sse_drain_prefix [of "rebuffer (sd_buffer d @ a) d" b "[]"] w by auto
  have "sse_drain (rebuffer (sd_buffer d1 @ b) d1) (evs1 @ []) = Ok (evs, d')"
    using sse_drain_append [OF p, of b] w by simp
  then obtain evs2 where q: "sse_drain (rebuffer (sd_buffer d1 @ b) d1) [] = Ok (evs2, d')" "evs = evs1 @ evs2"
    unfolding sse_drain_acc by (auto simp: bind_r_Ok_conv)
  show ?thesis
    using f p q l by (auto simp: sse_push_def rebuffer_def)
qed

lemma sse_push_all_cut:
  "cs \<noteq> [] \<Longrightarrow> sse_push (concat cs) d = Ok r \<Longrightarrow>
   sse_push_all cs d \<in> {Ok r, Err PeResponseTooLarge, Err (PeInvalidResponse ''SSE data after DONE'')}"
proof (induction cs arbitrary: d r rule: list_nonempty_induct)
  case (single c)
  then show ?case by (cases r) simp
next
  case (cons c cs)
  obtain evs d' where r: "r = (evs, d')" by (cases r)
  have "sse_push (c @ concat cs) d = Ok (evs, d')" using cons.prems r by simp
  from sse_push_split [OF this] show ?case
  proof (elim disjE exE conjE)
    fix evs1 d1
    assume c: "sse_push c d = Ok (evs1, d1)" and fin: "sd_finished d1"
    obtain c' cs' where "cs = c' # cs'" using cons.hyps by (cases cs) auto
    then show ?thesis using c fin by (simp add: sse_push_def [of c'])
  next
    fix evs1 d1 evs2
    assume c: "sse_push c d = Ok (evs1, d1)" and e: "evs = evs1 @ evs2" and "sse_push (concat cs) d1 = Ok (evs2, d')"
    from cons.IH [OF this(3)] c e r show ?thesis by auto
  qed simp
qed

section \<open>What the decoder keeps is bounded\<close>

abbreviation data_bytes :: "sse_decoder \<Rightarrow> nat" where
  "data_bytes d \<equiv> sum_list (map length (sd_data d))"

abbreviation visible_bytes :: "sse_event \<Rightarrow> nat" where
  "visible_bytes e \<equiv> length (filter (\<lambda>c. c \<noteq> newline) (se_data e))"

lemma join_visible: "length (filter (\<lambda>c. c \<noteq> newline) (join_str [newline] ts)) \<le> sum_list (map length ts)"
proof (induction "[newline]" ts rule: join_str.induct)
  case (3 t u ts)
  show ?case using add_mono [OF length_filter_le [of "\<lambda>c. c \<noteq> newline" t] 3] by simp
qed simp_all

lemma dispatch_bounded:
  "data_bytes d \<le> sd_max_event_bytes d \<Longrightarrow> visible_bytes (fst (dispatch d)) \<le> sd_max_event_bytes d"
  "sd_data (snd (dispatch d)) = []"
  using join_visible [of "sd_data d"] by (simp_all add: dispatch_def Let_def)

lemma consume_line_cases:
  assumes "consume_line line d = Ok (evs, d')"
  shows "evs = [] \<and> sd_data d' = sd_data d \<or> evs = [] \<and> data_bytes d' \<le> sd_max_event_bytes d \<or>
    evs = [fst (dispatch d)] \<and> d' = snd (dispatch d)"
  using assms by (auto simp: consume_line_def Let_def split_beta split: if_split_asm)

lemma consume_line_bounded:
  assumes "consume_line line d = Ok (evs, d')" "data_bytes d \<le> sd_max_event_bytes d"
  shows "data_bytes d' \<le> sd_max_event_bytes d' \<and> (\<forall>e \<in> set evs. visible_bytes e \<le> sd_max_event_bytes d)"
  using consume_line_cases [OF assms(1)] consume_line_frame [OF assms(1)] dispatch_bounded [of d] assms(2) by auto

lemma sse_drain_bounded:
  "sse_drain d events = Ok (evs, d') \<Longrightarrow> data_bytes d \<le> sd_max_event_bytes d \<Longrightarrow>
   \<forall>e \<in> set events. visible_bytes e \<le> sd_max_event_bytes d \<Longrightarrow>
   sd_max_event_bytes d' = sd_max_event_bytes d \<and> data_bytes d' \<le> sd_max_event_bytes d \<and>
   (\<forall>e \<in> set evs. visible_bytes e \<le> sd_max_event_bytes d)"
proof (induction d events rule: sse_drain.induct)
  case (1 d events)
  show ?case
  proof (cases "find_line_end (sd_buffer d)")
    case None
    with 1(2-) show ?thesis by (simp add: sse_drain.simps [of d])
  next
    case (Some p)
    obtain e n where p: "p = (e, n)" by (cases p)
    let ?line = "take (e - n) (sd_buffer d)" and ?d = "d\<lparr>sd_buffer := drop e (sd_buffer d)\<rparr>"
    obtain evs1 d1 where c: "consume_line ?line ?d = Ok (evs1, d1)" and r: "sse_drain d1 (events @ evs1) = Ok (evs, d')"
      using 1(2) Some p by (subst (asm) sse_drain.simps) (auto split: sum.split_asm)
    have k: "data_bytes d1 \<le> sd_max_event_bytes d1" "sd_max_event_bytes d1 = sd_max_event_bytes d"
      "\<forall>e \<in> set (events @ evs1). visible_bytes e \<le> sd_max_event_bytes d1"
      using consume_line_bounded [OF c] consume_line_frame [OF c] 1(3,4) by auto
    show ?thesis using 1(1) [OF Some [unfolded p] refl c refl r k(1,3)] k(2) by simp
  qed
qed

lemma sse_push_bounded:
  assumes "sse_push b d = Ok (evs, d')" "data_bytes d \<le> sd_max_event_bytes d"
  shows "sd_max_event_bytes d' = sd_max_event_bytes d \<and> data_bytes d' \<le> sd_max_event_bytes d \<and>
    length (sd_buffer d') \<le> sd_max_event_bytes d \<and> (\<forall>e \<in> set evs. visible_bytes e \<le> sd_max_event_bytes d)"
  using assms sse_drain_bounded [of "d\<lparr>sd_buffer := sd_buffer d @ b\<rparr>" "[]" evs d']
  by (auto simp: sse_push_def bind_r_Ok_conv split: if_split_asm)

text \<open>
  C23: what the decoder reads does not depend on where the network cuts the stream. If the pieces of a
  response are all accepted, a decoder that gets the whole response at once accepts it, with the same
  events and the same state (so that \<open>finish\<close> agrees too), whichever the cuts, through lines,
  \<open>CR LF\<close> pairs and characters alike; so all cuts that are accepted agree. Acceptance itself can
  depend on the cuts, in two ways only: when the whole is accepted, the pieces are too, or a piece
  ends in an unfinished line that is longer than the limit, or a piece comes after \<open>[DONE]\<close>. Once the
  whole is accepted, at most \<open>max_event_bytes\<close> bytes are buffered, the data lines of the open
  event have at most as many bytes, and so has the data of every event read, its newlines apart;
  event names, identifiers and the number of empty data lines have no bound of their own.
\<close>

theorem sse_cuts_irrelevant:
  assumes "sse_new limit = Ok d"
  shows "(sse_push_all pieces d = Ok r \<longrightarrow> sse_push (concat pieces) d = Ok r) \<and>
    (sse_push (concat pieces) d = Ok r \<longrightarrow>
       sse_push_all pieces d \<in> {Ok r, Err PeResponseTooLarge, Err (PeInvalidResponse ''SSE data after DONE'')}) \<and>
    (sse_push (concat pieces) d = Ok (evs, d') \<longrightarrow>
       length (sd_buffer d') \<le> limit \<and> data_bytes d' \<le> limit \<and> (\<forall>e \<in> set evs. visible_bytes e \<le> limit))"
proof (intro conjI impI)
  show "sse_push (concat pieces) d = Ok r" if "sse_push_all pieces d = Ok r"
    using that sse_push_all_concat [of pieces d "fst r" "snd r"] sse_push_fresh [OF assms] by (cases "pieces = []") auto
  show "sse_push_all pieces d \<in> {Ok r, Err PeResponseTooLarge, Err (PeInvalidResponse ''SSE data after DONE'')}"
    if "sse_push (concat pieces) d = Ok r"
    using that sse_push_all_cut [of pieces d r] sse_push_fresh [OF assms] by (cases "pieces = []") auto
  show "length (sd_buffer d') \<le> limit" "data_bytes d' \<le> limit" "\<forall>e \<in> set evs. visible_bytes e \<le> limit"
    if "sse_push (concat pieces) d = Ok (evs, d')"
    using sse_push_bounded [OF that] assms by (auto simp: sse_new_def split: if_split_asm)
qed

definition sample_decoder :: sse_decoder where
  "sample_decoder = \<lparr>sd_buffer = [], sd_event = None, sd_id = None, sd_data = [], sd_max_event_bytes = 100, sd_finished = False\<rparr>"

definition sample_pieces :: "string list" where
  "sample_pieces = [''data: a'' @ [carriage_return], [newline] @ ''da'', ''ta: b'' @ [newline, carriage_return], [newline] @ ''id'']"

theorem sse_cuts_irrelevant_witness:
  "sse_push_all sample_pieces sample_decoder = sse_push (concat sample_pieces) sample_decoder \<and>
   map_sum id fst (sse_push (concat sample_pieces) sample_decoder) =
     Ok [\<lparr>se_event = None, se_id = None, se_data = ''a'' @ [newline] @ ''b''\<rparr>]"
proof -
  have n: "sse_new 100 = Ok sample_decoder" by (simp add: sse_new_def sample_decoder_def)
  have p: "sse_push_all sample_pieces sample_decoder =
      Ok ([\<lparr>se_event = None, se_id = None, se_data = ''a'' @ [newline] @ ''b''\<rparr>], sample_decoder\<lparr>sd_buffer := ''id''\<rparr>)"
    by code_simp
  show ?thesis unfolding p sse_cuts_irrelevant [OF n, THEN conjunct1, rule_format, OF p] by simp
qed

text \<open>The same bytes, refused or accepted by where they are cut: a long comment, and a line end after \<open>[DONE]\<close>.\<close>

lemma sse_cuts_can_refuse:
  "is_ok (sse_push ('':'' @ replicate 120 CHR ''x'' @ [newline]) sample_decoder)"
  "sse_push_all ['':'' @ replicate 120 CHR ''x'', [newline]] sample_decoder = Err PeResponseTooLarge"
  "is_ok (sse_push (''data: [DONE]'' @ [newline, newline, newline]) sample_decoder)"
  "sse_push_all [''data: [DONE]'' @ [newline, newline], [newline]] sample_decoder =
     Err (PeInvalidResponse ''SSE data after DONE'')"
  by code_simp+

text \<open>At the end of a stream the decoder does not strip a carriage return from the last line: \<open>finish\<close> passes the
  buffered bytes on as they are, and a final \<open>[DONE]\<close> that ends in \<open>CR\<close> alone is not recognised.\<close>

lemma finish_keeps_carriage_return:
  "bind_r (sse_push (''data: [DONE]'' @ [carriage_return]) sample_decoder) (\<lambda>(_, d). map_sum id (map se_data \<circ> fst) (sse_finish d)) =
   Ok [DONE @ [carriage_return]]"
  by code_simp

end
