(* ===== verification/Provider_Aggregate.thy ===== *)
theory Provider_Aggregate
  imports Provider_Stream
begin

text \<open>
  The aggregators of streamed responses: the events of the chat protocol
  (crates/providers/src/stream_response.rs) and of the responses and messages protocols (native_stream.rs) become one
  ordinary response body, and the callbacks of the adapters that feed them (adapter.rs). A JSON number is
  kept as what \<open>as_u64\<close> makes of it; the JSON parser is the parameter \<open>parse\<close>. A panic is \<open>None\<close>.
\<close>

section \<open>JSON values\<close>

datatype json_value =
    VNull | VBool bool | VNumber "nat option" | VString string
  | VArray "json_value list" | VObject "(string \<times> json_value) list"

fun as_object :: "json_value \<Rightarrow> (string \<times> json_value) list option" where
  "as_object (VObject kvs) = Some kvs"
| "as_object _ = None"

fun as_array :: "json_value \<Rightarrow> json_value list option" where
  "as_array (VArray vs) = Some vs"
| "as_array _ = None"

fun as_str :: "json_value \<Rightarrow> string option" where
  "as_str (VString s) = Some s"
| "as_str _ = None"

fun as_u64 :: "json_value \<Rightarrow> nat option" where
  "as_u64 (VNumber n) = n"
| "as_u64 _ = None"

definition get :: "string \<Rightarrow> json_value \<Rightarrow> json_value option" where
  "get k v = Option.bind (as_object v) (\<lambda>kvs. map_of kvs k)"

definition get_str :: "string \<Rightarrow> json_value \<Rightarrow> string option" where
  "get_str k v = Option.bind (get k v) as_str"

definition get_u64 :: "string \<Rightarrow> json_value \<Rightarrow> nat option" where
  "get_u64 k v = Option.bind (get k v) as_u64"

definition get_or_self :: "string \<Rightarrow> json_value \<Rightarrow> json_value" where
  \<comment> \<open>\<open>data.get(k).unwrap_or(data)\<close>\<close>
  "get_or_self k v = (case get k v of Some x \<Rightarrow> x | None \<Rightarrow> v)"

fun obj_insert :: "string \<Rightarrow> json_value \<Rightarrow> (string \<times> json_value) list \<Rightarrow> (string \<times> json_value) list" where
  "obj_insert k v [] = [(k, v)]"
| "obj_insert k v ((j, w) # kvs) = (if j = k then (k, v) # kvs else (j, w) # obj_insert k v kvs)"

fun set_key :: "string \<Rightarrow> json_value \<Rightarrow> json_value \<Rightarrow> json_value option" where
  \<comment> \<open>\<open>target[k] = v\<close>: a panic unless the target is an object or null\<close>
  "set_key k v (VObject kvs) = Some (VObject (obj_insert k v kvs))"
| "set_key k v VNull = Some (VObject [(k, v)])"
| "set_key k v _ = None"

definition with_field :: "string \<Rightarrow> json_value option \<Rightarrow> (string \<times> json_value) list \<Rightarrow> (string \<times> json_value) list" where
  "with_field k v kvs = (case v of None \<Rightarrow> kvs | Some x \<Rightarrow> obj_insert k x kvs)"

fun fold_r :: "('a \<Rightarrow> 's \<Rightarrow> 'e + 's) \<Rightarrow> 'a list \<Rightarrow> 's \<Rightarrow> 'e + 's" where
  \<comment> \<open>a \<open>for\<close> loop whose body may return an error\<close>
  "fold_r f [] st = Ok st"
| "fold_r f (x # xs) st = bind_r (f x st) (fold_r f xs)"

section \<open>The responses protocol (native\_stream.rs)\<close>

record responses_aggregator =
  ra_completed :: "json_value option"
  ra_text :: string

definition ra_new :: responses_aggregator where
  "ra_new = \<lparr>ra_completed = None, ra_text = []\<rparr>"

definition ra_push_event :: "string \<Rightarrow> json_value \<Rightarrow> responses_aggregator \<Rightarrow> provider_error + responses_aggregator" where
  "ra_push_event event data st =
     (if event \<in> {''response.failed'', ''response.incomplete'', ''error''}
      then Err (PeInvalidResponse ''native stream response failed'')
      else if event = ''response.output_text.delta'' then
        Ok (case get_str ''delta'' data of None \<Rightarrow> st | Some text \<Rightarrow> st\<lparr>ra_text := ra_text st @ text\<rparr>)
      else if event = ''response.completed'' then
        Ok (st\<lparr>ra_completed := Some (get_or_self ''response'' data)\<rparr>)
      else Ok st)"

definition ra_finish :: "responses_aggregator \<Rightarrow> (provider_error + json_value) option" where
  "ra_finish st =
     (case ra_completed st of
        None \<Rightarrow> Some (Err (PeInvalidResponse ''native stream ended without response.completed''))
      | Some response \<Rightarrow>
          Option.bind
            (if get_str ''output_text'' response = None \<and> ra_text st \<noteq> []
             then set_key ''output_text'' (VString (ra_text st)) response else Some response)
            (\<lambda>response.
              if get_str ''output_text'' response = None
              then Some (Err (PeInvalidResponse ''provider final content is missing''))
              else if is_some_and (get_str ''status'' response) (\<lambda>status. status \<noteq> ''completed'')
              then Some (Err (PeInvalidResponse ''native stream response incomplete''))
              else Some (Ok response)))"

section \<open>The messages protocol (native\_stream.rs)\<close>

record anthropic_aggregator =
  aa_id :: "string option"
  aa_model :: "string option"
  aa_content :: string
  aa_usage :: "json_value option"
  aa_stopped :: bool
  aa_stop_reason :: "string option"
  aa_started :: bool
  aa_open_blocks :: "(nat \<times> string) list" \<comment> \<open>index and type\<close>
  aa_closed_blocks :: "nat list"

definition aa_new :: anthropic_aggregator where
  "aa_new = \<lparr>aa_id = None, aa_model = None, aa_content = [], aa_usage = None, aa_stopped = False,
     aa_stop_reason = None, aa_started = False, aa_open_blocks = [], aa_closed_blocks = []\<rparr>"

definition merge_usage :: "json_value option \<Rightarrow> json_value \<Rightarrow> json_value option" where
  "merge_usage target update =
     (case (target, update) of
        (Some (VObject existing), VObject new_values) \<Rightarrow>
          Some (VObject (fold (\<lambda>(k, v). obj_insert k v) new_values existing))
      | _ \<Rightarrow> Some update)"

abbreviation aa_err :: "string \<Rightarrow> provider_error + 'a" where
  "aa_err reason \<equiv> Err (PeInvalidResponse reason)"

definition aa_message_start :: "json_value \<Rightarrow> anthropic_aggregator \<Rightarrow> provider_error + anthropic_aggregator" where
  "aa_message_start data st =
     (if aa_started st then aa_err ''duplicate anthropic message_start''
      else
        (let message = get_or_self ''message'' data;
             st' = st\<lparr>aa_started := True, aa_id := get_str ''id'' message, aa_model := get_str ''model'' message\<rparr>
         in Ok (case get ''usage'' message of None \<Rightarrow> st' | Some usage \<Rightarrow> st'\<lparr>aa_usage := Some usage\<rparr>)))"

definition aa_block_start :: "json_value \<Rightarrow> anthropic_aggregator \<Rightarrow> provider_error + anthropic_aggregator" where
  "aa_block_start data st =
     bind_r (ok_or (PeInvalidResponse ''anthropic block index is missing'') (get_u64 ''index'' data)) (\<lambda>index.
       if index \<in> fst ` set (aa_open_blocks st) \<or> index \<in> set (aa_closed_blocks st)
       then aa_err ''anthropic block index is reused''
       else bind_r (ok_or (PeInvalidResponse ''anthropic block type is missing'')
           (Option.bind (get ''content_block'' data) (get_str ''type''))) (\<lambda>kind.
         if kind \<notin> {''text'', ''thinking''} then aa_err ''anthropic block type is unsupported''
         else Ok (st\<lparr>aa_open_blocks := (index, kind) # aa_open_blocks st\<rparr>)))"

definition aa_block_delta :: "json_value \<Rightarrow> anthropic_aggregator \<Rightarrow> provider_error + anthropic_aggregator" where
  "aa_block_delta data st =
     bind_r (ok_or (PeInvalidResponse ''anthropic block index is missing'') (get_u64 ''index'' data)) (\<lambda>index.
     bind_r (ok_or (PeInvalidResponse ''anthropic block index is unknown'') (map_of (aa_open_blocks st) index)) (\<lambda>kind.
       let delta = get_or_self ''delta'' data in
       if get_str ''type'' delta = Some ''text_delta'' then
         (if kind \<noteq> ''text'' then aa_err ''anthropic text delta targets non-text block''
          else Ok (case get_str ''text'' delta of None \<Rightarrow> st | Some text \<Rightarrow> st\<lparr>aa_content := aa_content st @ text\<rparr>))
       else Ok st))"

definition aa_block_stop :: "json_value \<Rightarrow> anthropic_aggregator \<Rightarrow> provider_error + anthropic_aggregator" where
  "aa_block_stop data st =
     bind_r (ok_or (PeInvalidResponse ''anthropic block index is missing'') (get_u64 ''index'' data)) (\<lambda>index.
       if index \<notin> fst ` set (aa_open_blocks st) then aa_err ''anthropic block stop is unknown''
       else Ok (st\<lparr>aa_open_blocks := filter (\<lambda>(i, _). i \<noteq> index) (aa_open_blocks st),
                   aa_closed_blocks := index # aa_closed_blocks st\<rparr>))"

definition aa_message_delta :: "json_value \<Rightarrow> anthropic_aggregator \<Rightarrow> anthropic_aggregator" where
  "aa_message_delta data st =
     (let st' = st\<lparr>aa_stop_reason := get_str ''stop_reason'' (get_or_self ''delta'' data)\<rparr>
      in case get ''usage'' data of None \<Rightarrow> st' | Some usage \<Rightarrow> st'\<lparr>aa_usage := merge_usage (aa_usage st') usage\<rparr>)"

definition aa_push_event :: "string \<Rightarrow> json_value \<Rightarrow> anthropic_aggregator \<Rightarrow> provider_error + anthropic_aggregator" where
  "aa_push_event event data st =
     (if event = ''error'' then aa_err ''anthropic stream error''
      else if event = ''message_start'' then aa_message_start data st
      else if event = ''content_block_start'' then aa_block_start data st
      else if event = ''content_block_delta'' then aa_block_delta data st
      else if event = ''content_block_stop'' then aa_block_stop data st
      else if event = ''message_delta'' then Ok (aa_message_delta data st)
      else if event = ''message_stop'' then
        (if aa_stopped st \<or> aa_open_blocks st \<noteq> [] then aa_err ''anthropic message stopped with open block''
         else Ok (st\<lparr>aa_stopped := True\<rparr>))
      else Ok st)"

definition aa_finish :: "anthropic_aggregator \<Rightarrow> provider_error + json_value" where
  "aa_finish st =
     (if \<not> aa_started st then aa_err ''anthropic stream missing message_start''
      else if \<not> aa_stopped st then aa_err ''anthropic stream ended without message_stop''
      else if aa_stop_reason st \<noteq> Some ''end_turn'' then aa_err ''anthropic stream stop reason is unsupported''
      else if aa_content st = [] then aa_err ''provider final content is missing''
      else Ok (VObject (with_field ''usage'' (aa_usage st)
        (with_field ''model'' (map_option VString (aa_model st))
          (with_field ''id'' (map_option VString (aa_id st))
            [(''content'', VArray [VObject [(''type'', VString ''text''), (''text'', VString (aa_content st))]]),
             (''stop_reason'', VString ''end_turn'')])))))"

section \<open>The chat protocol (stream\_response.rs)\<close>

definition MAX_FUNCTION_ARGUMENT_BYTES :: nat where "MAX_FUNCTION_ARGUMENT_BYTES = 1024 * 1024"
definition MAX_FUNCTION_NAME_BYTES :: nat where "MAX_FUNCTION_NAME_BYTES = 64"
definition MAX_FUNCTION_ID_BYTES :: nat where "MAX_FUNCTION_ID_BYTES = 128"
definition MAX_FUNCTION_CALL_FRAGMENTS :: nat where "MAX_FUNCTION_CALL_FRAGMENTS = 16384"

record stream_aggregator =
  sa_id :: "string option"
  sa_model :: "string option"
  sa_usage :: "json_value option"
  sa_content :: string
  sa_finish_reason :: "string option"
  sa_saw_done :: bool
  sa_reasoning_bytes :: nat
  sa_expected_tool_name :: "string option"
  sa_tool_name :: string
  sa_tool_arguments :: string
  sa_tool_call_id :: "string option"
  sa_saw_tool_call :: bool
  sa_fragments :: nat

definition sa_new :: stream_aggregator where
  "sa_new = \<lparr>sa_id = None, sa_model = None, sa_usage = None, sa_content = [], sa_finish_reason = None,
     sa_saw_done = False, sa_reasoning_bytes = 0, sa_expected_tool_name = None, sa_tool_name = [],
     sa_tool_arguments = [], sa_tool_call_id = None, sa_saw_tool_call = False, sa_fragments = 0\<rparr>"

definition saturating_add :: "nat \<Rightarrow> nat \<Rightarrow> nat" where
  "saturating_add a b = min (a + b) USIZE_MAX"

definition strict_issue :: "stream_aggregator \<Rightarrow> strict_function_call_issue \<Rightarrow> string \<Rightarrow> provider_error" where
  "strict_issue st issue fallback =
     (if sa_expected_tool_name st \<noteq> None then PeStrictFunctionCallInvalid issue else PeInvalidResponse fallback)"

definition sa_tool_id :: "json_value \<Rightarrow> stream_aggregator \<Rightarrow> provider_error + stream_aggregator" where
  "sa_tool_id call st =
     (case get_str ''id'' call of
        None \<Rightarrow> Ok st
      | Some ident \<Rightarrow>
          if length ident > MAX_FUNCTION_ID_BYTES then Err PeResponseTooLarge
          else if is_some_and (sa_tool_call_id st) (\<lambda>current. current \<noteq> ident)
          then Err (strict_issue st InconsistentToolCallId ''multiple provider tool call IDs are unsupported'')
          else Ok (st\<lparr>sa_tool_call_id := Some ident\<rparr>))"

definition sa_tool_fn_name :: "json_value \<Rightarrow> stream_aggregator \<Rightarrow> provider_error + stream_aggregator" where
  "sa_tool_fn_name function st =
     (case get ''name'' function of
        None \<Rightarrow> Ok st
      | Some name \<Rightarrow>
          bind_r (ok_or (strict_issue st InvalidToolDelta ''provider function name is invalid'') (as_str name)) (\<lambda>s.
            let st' = st\<lparr>sa_tool_name := sa_tool_name st @ s\<rparr> in
            if length (sa_tool_name st') > MAX_FUNCTION_NAME_BYTES then Err PeResponseTooLarge else Ok st'))"

definition sa_tool_args :: "json_value \<Rightarrow> stream_aggregator \<Rightarrow> provider_error + stream_aggregator" where
  "sa_tool_args function st =
     (case get ''arguments'' function of
        None \<Rightarrow> Ok st
      | Some arguments \<Rightarrow>
          bind_r (ok_or (strict_issue st InvalidToolDelta ''provider function arguments are invalid'') (as_str arguments)) (\<lambda>s.
            let st' = st\<lparr>sa_tool_arguments := sa_tool_arguments st @ s\<rparr> in
            if length (sa_tool_arguments st') > MAX_FUNCTION_ARGUMENT_BYTES then Err PeResponseTooLarge else Ok st'))"

definition sa_tool_call :: "json_value \<Rightarrow> stream_aggregator \<Rightarrow> provider_error + stream_aggregator" where
  "sa_tool_call call st0 =
     (let st = st0\<lparr>sa_fragments := saturating_add (sa_fragments st0) 1\<rparr> in
      if sa_fragments st > MAX_FUNCTION_CALL_FRAGMENTS then Err PeResponseTooLarge
      else
        bind_r (ok_or (strict_issue st InvalidToolDelta ''stream tool call index is missing'') (get_u64 ''index'' call)) (\<lambda>index.
        if index \<noteq> 0 then Err (strict_issue st MultipleToolCalls ''multiple provider tool calls are unsupported'')
        else if is_some_and (get ''type'' call) (\<lambda>t. as_str t \<noteq> Some ''function'')
        then Err (strict_issue st InvalidToolDelta ''provider tool call type is unsupported'')
        else
          bind_r (sa_tool_id call st) (\<lambda>st.
          bind_r (ok_or (strict_issue st InvalidToolDelta ''provider function payload is missing'')
              (Option.bind (get ''function'' call) as_object)) (\<lambda>function.
          bind_r (sa_tool_fn_name (VObject function) st) (\<lambda>st.
          bind_r (sa_tool_args (VObject function) st) (\<lambda>st.
            Ok (st\<lparr>sa_saw_tool_call := True\<rparr>)))))))"

definition sa_delta_content :: "json_value \<Rightarrow> stream_aggregator \<Rightarrow> provider_error + stream_aggregator" where
  "sa_delta_content delta st =
     (case get ''content'' delta of
        None \<Rightarrow> Ok st
      | Some content \<Rightarrow>
          if content = VNull then Ok st
          else bind_r (ok_or (strict_issue st InvalidToolDelta ''stream content is not a string'') (as_str content)) (\<lambda>s.
            Ok (st\<lparr>sa_content := sa_content st @ s\<rparr>)))"

definition sa_delta_reasoning :: "json_value \<Rightarrow> stream_aggregator \<Rightarrow> provider_error + stream_aggregator" where
  "sa_delta_reasoning delta st =
     (case get ''reasoning_content'' delta of
        None \<Rightarrow> Ok st
      | Some reasoning \<Rightarrow>
          if reasoning = VNull then Ok st
          else bind_r (ok_or (strict_issue st InvalidStreamEvent ''stream reasoning is not a string'') (as_str reasoning)) (\<lambda>s.
            Ok (st\<lparr>sa_reasoning_bytes := saturating_add (sa_reasoning_bytes st) (length s)\<rparr>)))"

definition sa_delta_tools :: "json_value \<Rightarrow> stream_aggregator \<Rightarrow> provider_error + stream_aggregator" where
  "sa_delta_tools delta st =
     (case get ''tool_calls'' delta of
        None \<Rightarrow> Ok st
      | Some tool_calls \<Rightarrow>
          bind_r (ok_or (strict_issue st InvalidToolDelta ''stream tool calls are not an array'') (as_array tool_calls)) (\<lambda>calls.
            if sa_expected_tool_name st = None \<and> calls \<noteq> [] then Err (PeInvalidResponse ''unexpected provider tool call'')
            else fold_r sa_tool_call calls st))"

definition sa_delta :: "json_value \<Rightarrow> stream_aggregator \<Rightarrow> provider_error + stream_aggregator" where
  "sa_delta delta st =
     bind_r (sa_delta_content delta st) (\<lambda>st. bind_r (sa_delta_reasoning delta st) (sa_delta_tools delta))"

definition sa_set_finish :: "json_value \<Rightarrow> stream_aggregator \<Rightarrow> provider_error + stream_aggregator" where
  "sa_set_finish choice st =
     (case get_str ''finish_reason'' choice of
        None \<Rightarrow> Ok st
      | Some reason \<Rightarrow>
          if sa_finish_reason st \<noteq> None
          then Err (strict_issue st InvalidFinishSequence ''stream finish reason was repeated'')
          else Ok (st\<lparr>sa_finish_reason := Some reason\<rparr>))"

definition sa_choice :: "json_value \<Rightarrow> stream_aggregator \<Rightarrow> provider_error + stream_aggregator" where
  "sa_choice choice st =
     (if sa_finish_reason st \<noteq> None
      then Err (strict_issue st InvalidFinishSequence ''stream data followed finish reason'')
      else if sa_expected_tool_name st \<noteq> None \<and> get_u64 ''index'' choice = None
      then Err (strict_issue st InvalidChoice ''stream choice index is missing'')
      else if (case get_u64 ''index'' choice of None \<Rightarrow> 0 | Some i \<Rightarrow> i) \<noteq> 0
      then Err (strict_issue st InvalidChoice ''stream choice index is unsupported'')
      else
        bind_r (case Option.bind (get ''delta'' choice) as_object of
                  None \<Rightarrow> Ok st
                | Some delta \<Rightarrow> sa_delta (VObject delta) st)
          (sa_set_finish choice))"

definition sa_header :: "json_value \<Rightarrow> stream_aggregator \<Rightarrow> stream_aggregator" where
  "sa_header value st =
     (let st1 = (case get_str ''id'' value of None \<Rightarrow> st | Some i \<Rightarrow> st\<lparr>sa_id := Some i\<rparr>);
          st2 = (case get_str ''model'' value of None \<Rightarrow> st1 | Some m \<Rightarrow> st1\<lparr>sa_model := Some m\<rparr>)
      in case get ''usage'' value of
           None \<Rightarrow> st2
         | Some usage \<Rightarrow> if usage = VNull then st2 else st2\<lparr>sa_usage := Some usage\<rparr>)"

definition sa_choices :: "json_value list \<Rightarrow> stream_aggregator \<Rightarrow> provider_error + stream_aggregator" where
  "sa_choices choices st =
     (if sa_expected_tool_name st \<noteq> None \<and> length choices > 1
      then Err (strict_issue st InvalidChoice ''multiple stream choices are unsupported'')
      else fold_r sa_choice choices st)"

definition sa_push_value :: "json_value \<Rightarrow> stream_aggregator \<Rightarrow> provider_error + stream_aggregator" where
  "sa_push_value value st =
     (case Option.bind (get ''choices'' value) as_array of
        None \<Rightarrow> Ok (sa_header value st)
      | Some choices \<Rightarrow> sa_choices choices (sa_header value st))"

definition sa_push_data ::
  "(string \<Rightarrow> json_value option) \<Rightarrow> string \<Rightarrow> stream_aggregator \<Rightarrow> provider_error + stream_aggregator" where
  "sa_push_data parse data st =
     (if data = DONE then Ok (st\<lparr>sa_saw_done := True\<rparr>)
      else if sa_saw_done st then Err (strict_issue st InvalidStreamEvent ''stream data after done'')
      else bind_r (ok_or (strict_issue st InvalidStreamEvent ''stream event is not JSON'') (parse data)) (\<lambda>value.
        sa_push_value value st))"

definition sa_output :: "stream_aggregator \<Rightarrow> provider_error + string" where
  "sa_output st =
     (case sa_expected_tool_name st of
        Some expected \<Rightarrow>
          if \<not> sa_saw_tool_call st then Err (strict_issue st NoToolCall ''provider did not return a completed function tool call'')
          else if trim (sa_content st) \<noteq> [] then Err (strict_issue st MixedMessageContent ''provider mixed tool call and message content'')
          else if sa_finish_reason st \<noteq> Some ''tool_calls''
          then Err (strict_issue st WrongFinishReason ''provider did not return a completed function tool call'')
          else if sa_tool_name st \<noteq> expected then Err (strict_issue st WrongToolName ''provider function tool name does not match'')
          else if sa_tool_arguments st = [] then Err (strict_issue st MissingArguments ''provider function arguments are missing'')
          else if sa_tool_call_id st = None then Err (strict_issue st MissingToolCallId ''provider function call ID is missing'')
          else Ok (sa_tool_arguments st)
      | None \<Rightarrow>
          if sa_content st = [] then Err (PeInvalidResponse ''provider final content is missing'') else Ok (sa_content st))"

definition sa_check_finish :: "stream_aggregator \<Rightarrow> provider_error + unit" where
  "sa_check_finish st =
     (case sa_finish_reason st of
        None \<Rightarrow> Err (PeInvalidResponse ''stream finish reason is invalid'')
      | Some reason \<Rightarrow>
          if reason = ''stop'' then Ok ()
          else if reason = ''length'' then Err (PeInvalidResponse ''provider output reached token limit'')
          else if reason = ''content_filter'' then Err (PeInvalidResponse ''provider output was filtered'')
          else if reason = ''repetition_truncation'' then Err (PeInvalidResponse ''provider output repetition was truncated'')
          else if reason = ''tool_calls'' then
            (if sa_expected_tool_name st \<noteq> None then Ok () else Err (PeInvalidResponse ''provider tool calls are unsupported''))
          else Err (PeInvalidResponse ''stream finish reason is invalid''))"

definition sa_finish :: "stream_aggregator \<Rightarrow> provider_error + json_value" where
  "sa_finish st =
     bind_r (sa_output st) (\<lambda>output.
     bind_r (sa_check_finish st) (\<lambda>_.
       Ok (VObject (with_field ''usage'' (sa_usage st)
         (with_field ''model'' (map_option VString (sa_model st))
           (with_field ''id'' (map_option VString (sa_id st))
             [(''choices'', VArray [VObject [(''message'', VObject [(''content'', VString output)]),
                                             (''finish_reason'', VString ''stop'')]])]))))))"

section \<open>The adapters' callbacks (adapter.rs)\<close>

datatype sse_event_action = Ignore | Progress | Terminal

text \<open>A callback returns the action with the aggregator and the completed body, or the error; \<open>None\<close> is a panic.\<close>

definition responses_on_event ::
  "(string \<Rightarrow> json_value option) \<Rightarrow> sse_event \<Rightarrow> responses_aggregator \<Rightarrow>
     (provider_error + sse_event_action \<times> json_value option \<times> responses_aggregator) option" where
  "responses_on_event parse event st =
     (let name = (case se_event event of None \<Rightarrow> [] | Some e \<Rightarrow> e);
          pushed = bind_r (ok_or (PeInvalidResponse ''native stream event is not JSON'') (parse (se_data event)))
                     (\<lambda>value. ra_push_event name value st)
      in if se_event event = Some ''response.completed'' then
           (case pushed of
              Err e \<Rightarrow> Some (Err e)
            | Ok st' \<Rightarrow> map_option (\<lambda>r. bind_r r (\<lambda>body. Ok (Terminal, Some body, ra_new))) (ra_finish st'))
         else if se_event event \<in> Some ` {''response.output_text.delta'', ''response.reasoning_summary_text.delta'',
             ''response.output_item.added'', ''response.output_item.done'', ''response.content_part.added'',
             ''response.content_part.done''} then
           Some (bind_r pushed (\<lambda>st'. Ok (Progress, None, st')))
         else Some (Ok (Ignore, None, st)))"

definition chat_on_event ::
  "(string \<Rightarrow> json_value option) \<Rightarrow> sse_event \<Rightarrow> stream_aggregator \<Rightarrow>
     provider_error + sse_event_action \<times> json_value option \<times> stream_aggregator" where
  "chat_on_event parse event st =
     bind_r (sa_push_data parse (se_data event) st) (\<lambda>st'.
       if se_data event = DONE then bind_r (sa_finish st') (\<lambda>body. Ok (Terminal, Some body, sa_new))
       else Ok (Progress, None, st'))"

definition anthropic_on_event ::
  "(string \<Rightarrow> json_value option) \<Rightarrow> sse_event \<Rightarrow> anthropic_aggregator \<Rightarrow>
     provider_error + sse_event_action \<times> json_value option \<times> anthropic_aggregator" where
  "anthropic_on_event parse event st =
     bind_r (ok_or (PeInvalidResponse ''native stream event is not JSON'') (parse (se_data event))) (\<lambda>value.
     bind_r (aa_push_event (case se_event event of None \<Rightarrow> [] | Some e \<Rightarrow> e) value st) (\<lambda>st'.
       if se_event event = Some ''message_stop'' then bind_r (aa_finish st') (\<lambda>body. Ok (Terminal, Some body, aa_new))
       else if se_event event \<in> Some ` {''message_start'', ''content_block_start'', ''content_block_delta'',
           ''content_block_stop'', ''message_delta''} then Ok (Progress, None, st')
       else Ok (Ignore, None, st')))"

section \<open>Reasoning is not retained\<close>

text \<open>The same events with the text of every reasoning delta erased.\<close>

fun on_key :: "string \<Rightarrow> (json_value \<Rightarrow> json_value) \<Rightarrow> json_value \<Rightarrow> json_value" where
  "on_key k f (VObject kvs) = VObject (map (\<lambda>(j, v). (j, if j = k then f v else v)) kvs)"
| "on_key k f v = v"

fun on_items :: "(json_value \<Rightarrow> json_value) \<Rightarrow> json_value \<Rightarrow> json_value" where
  "on_items f (VArray vs) = VArray (map f vs)"
| "on_items f v = v"

fun erase_text :: "json_value \<Rightarrow> json_value" where
  "erase_text (VString _) = VString []"
| "erase_text v = v"

abbreviation erase_delta :: "json_value \<Rightarrow> json_value" where
  "erase_delta \<equiv> on_key ''reasoning_content'' erase_text"

abbreviation erase_choice :: "json_value \<Rightarrow> json_value" where
  "erase_choice \<equiv> on_key ''delta'' erase_delta"

definition erase_reasoning :: "json_value \<Rightarrow> json_value" where
  "erase_reasoning = on_key ''choices'' (on_items erase_choice)"

lemma map_of_on_key:
  "map_of (map (\<lambda>(j, v). (j, if j = k then f v else v)) kvs) i =
   (if i = k then map_option f (map_of kvs i) else map_of kvs i)"
  by (induction kvs) auto

lemma as_object_on_key: "as_object (on_key k f v) = map_option (map (\<lambda>(j, w). (j, if j = k then f w else w))) (as_object v)"
  by (cases v) simp_all

lemma get_on_key: "get i (on_key k f v) = (if i = k then map_option f (get i v) else get i v)"
  by (cases v) (simp_all add: get_def map_of_on_key)

lemma as_array_on_items: "as_array (on_items f v) = map_option (map f) (as_array v)"
  by (cases v) simp_all

abbreviation rb :: "nat \<Rightarrow> stream_aggregator \<Rightarrow> stream_aggregator" where
  "rb n st \<equiv> st\<lparr>sa_reasoning_bytes := n\<rparr>"

lemma strict_issue_rb: "strict_issue (rb n st) = strict_issue st"
  by (simp add: strict_issue_def fun_eq_iff)

lemma bind_map_sum: "bind_r (map_sum id f r) g = bind_r r (g \<circ> f)"
  by (cases r) simp_all

lemma map_sum_bind: "map_sum id f (bind_r r g) = bind_r r (map_sum id f \<circ> g)"
  by (cases r) simp_all

lemma fold_r_rb:
  assumes "\<And>x st. f x (rb n st) = map_sum id (rb n) (f x st)"
  shows "fold_r f xs (rb n st) = map_sum id (rb n) (fold_r f xs st)"
proof (induction xs arbitrary: st)
  case (Cons x xs)
  then show ?case by (cases "f x st") (simp_all add: assms)
qed simp

lemma rb_out:
  "(rb n st)\<lparr>sa_fragments := k\<rparr> = rb n (st\<lparr>sa_fragments := k\<rparr>)"
  "(rb n st)\<lparr>sa_tool_call_id := i\<rparr> = rb n (st\<lparr>sa_tool_call_id := i\<rparr>)"
  "(rb n st)\<lparr>sa_tool_name := s\<rparr> = rb n (st\<lparr>sa_tool_name := s\<rparr>)"
  "(rb n st)\<lparr>sa_tool_arguments := s\<rparr> = rb n (st\<lparr>sa_tool_arguments := s\<rparr>)"
  "(rb n st)\<lparr>sa_saw_tool_call := b\<rparr> = rb n (st\<lparr>sa_saw_tool_call := b\<rparr>)"
  "(rb n st)\<lparr>sa_content := s\<rparr> = rb n (st\<lparr>sa_content := s\<rparr>)"
  "(rb n st)\<lparr>sa_finish_reason := i\<rparr> = rb n (st\<lparr>sa_finish_reason := i\<rparr>)"
  "(rb n st)\<lparr>sa_id := i\<rparr> = rb n (st\<lparr>sa_id := i\<rparr>)"
  "(rb n st)\<lparr>sa_model := i\<rparr> = rb n (st\<lparr>sa_model := i\<rparr>)"
  "(rb n st)\<lparr>sa_usage := u\<rparr> = rb n (st\<lparr>sa_usage := u\<rparr>)"
  by simp_all

lemma ok_or_bind_rb:
  "(\<And>x. f x = map_sum id h (g x)) \<Longrightarrow> bind_r (ok_or e v) f = map_sum id h (bind_r (ok_or e v) g)"
  by (cases v) simp_all

lemma step_rb:
  assumes "r = map_sum id (rb n) r'" "\<And>st. f (rb n st) = map_sum id (rb n) (g st)"
  shows "bind_r r f = map_sum id (rb n) (bind_r r' g)"
  using assms by (cases r') simp_all

lemma sa_tool_id_rb: "sa_tool_id call (rb n st) = map_sum id (rb n) (sa_tool_id call st)"
  by (simp add: sa_tool_id_def strict_issue_rb rb_out split: option.split)

lemma sa_tool_fn_name_rb: "sa_tool_fn_name f (rb n st) = map_sum id (rb n) (sa_tool_fn_name f st)"
  by (simp add: sa_tool_fn_name_def strict_issue_rb rb_out Let_def split: option.split) (intro allI impI ok_or_bind_rb; simp)

lemma sa_tool_args_rb: "sa_tool_args f (rb n st) = map_sum id (rb n) (sa_tool_args f st)"
  by (simp add: sa_tool_args_def strict_issue_rb rb_out Let_def split: option.split) (intro allI impI ok_or_bind_rb; simp)

lemma sa_tool_call_rb: "sa_tool_call call (rb n st) = map_sum id (rb n) (sa_tool_call call st)"
  unfolding sa_tool_call_def Let_def
  by (auto simp: strict_issue_rb rb_out intro!: ok_or_bind_rb step_rb sa_tool_id_rb sa_tool_fn_name_rb sa_tool_args_rb)

lemma sa_delta_content_rb: "sa_delta_content d (rb n st) = map_sum id (rb n) (sa_delta_content d st)"
  by (simp add: sa_delta_content_def strict_issue_rb rb_out split: option.split) (intro allI impI ok_or_bind_rb; simp)

lemma sa_delta_tools_rb: "sa_delta_tools d (rb n st) = map_sum id (rb n) (sa_delta_tools d st)"
  by (simp add: sa_delta_tools_def strict_issue_rb split: option.split)
    (intro allI impI ok_or_bind_rb; simp add: fold_r_rb sa_tool_call_rb)

definition same_but_reasoning :: "'e + stream_aggregator \<Rightarrow> 'e + stream_aggregator \<Rightarrow> bool" where
  "same_but_reasoning r r' \<longleftrightarrow> (\<exists>m. r = map_sum id (rb m) r')"

lemma same_step:
  assumes "same_but_reasoning r r'" "\<And>m st. same_but_reasoning (f (rb m st)) (g st)"
  shows "same_but_reasoning (bind_r r f) (bind_r r' g)"
  using assms by (cases r') (auto simp: same_but_reasoning_def)

lemma same_intros:
  "same_but_reasoning (Err e) (Err e)" "same_but_reasoning (Ok (rb n st)) (Ok st)"
  "r = map_sum id (rb n) r' \<Longrightarrow> same_but_reasoning r r'"
  by (auto simp: same_but_reasoning_def)

lemma same_fold:
  assumes "\<And>x m st. x \<in> set xs \<Longrightarrow> same_but_reasoning (f (h x) (rb m st)) (f x st)"
  shows "same_but_reasoning (fold_r f (map h xs) (rb n st)) (fold_r f xs st)"
  using assms
proof (induction xs arbitrary: n st)
  case (Cons x xs)
  then show ?case by (auto intro!: same_step)
qed (simp add: same_intros)

lemma delta_same:
  "same_but_reasoning (sa_delta_reasoning (erase_delta d) (rb n st)) (sa_delta_reasoning d st)"
proof (cases "get ''reasoning_content'' d")
  case (Some v)
  then show ?thesis
    by (cases v) (auto simp: sa_delta_reasoning_def get_on_key strict_issue_rb same_but_reasoning_def)
qed (simp add: sa_delta_reasoning_def get_on_key same_intros)

lemma delta_unchanged:
  "sa_delta_content (erase_delta d) = sa_delta_content d" "sa_delta_tools (erase_delta d) = sa_delta_tools d"
  by (simp_all add: sa_delta_content_def sa_delta_tools_def get_on_key fun_eq_iff)

lemma sa_delta_same: "same_but_reasoning (sa_delta (erase_delta d) (rb n st)) (sa_delta d st)"
  unfolding sa_delta_def delta_unchanged
  by (intro same_step delta_same same_intros(3) [OF sa_delta_content_rb] same_intros(3) [OF sa_delta_tools_rb])

lemma sa_set_finish_same: "same_but_reasoning (sa_set_finish (erase_choice c) (rb n st)) (sa_set_finish c st)"
  by (auto simp: sa_set_finish_def get_str_def get_on_key strict_issue_rb rb_out intro!: same_intros split: option.split)

lemma choice_same: "same_but_reasoning (sa_choice (erase_choice c) (rb n st)) (sa_choice c st)"
proof -
  let ?E = "map (\<lambda>(j, v). (j, if j = ''reasoning_content'' then erase_text v else v))"
  have o: "Option.bind (get ''delta'' (erase_choice c)) as_object = map_option ?E (Option.bind (get ''delta'' c) as_object)"
    by (cases "get ''delta'' c") (simp_all add: get_on_key as_object_on_key)
  have D: "same_but_reasoning
      (case map_option ?E x of None \<Rightarrow> Ok (rb n st) | Some d \<Rightarrow> sa_delta (VObject d) (rb n st))
      (case x of None \<Rightarrow> Ok st | Some d \<Rightarrow> sa_delta (VObject d) st)" for x
    using sa_delta_same [of "VObject _"] by (cases x) (simp_all add: same_intros)
  have step: "same_but_reasoning
      (bind_r (case map_option ?E x of None \<Rightarrow> Ok (rb n st) | Some d \<Rightarrow> sa_delta (VObject d) (rb n st)) (sa_set_finish (erase_choice c)))
      (bind_r (case x of None \<Rightarrow> Ok st | Some d \<Rightarrow> sa_delta (VObject d) st) (sa_set_finish c))" for x
    by (rule same_step [OF D]) (rule sa_set_finish_same)
  have u: "get_u64 ''index'' (erase_choice c) = get_u64 ''index'' c" by (simp add: get_u64_def get_on_key)
  show ?thesis
    unfolding sa_choice_def o u strict_issue_rb
    using step [of "Option.bind (get ''delta'' c) as_object"] by (simp add: same_intros)
qed

lemma sa_header_rb: "sa_header v (rb n st) = rb n (sa_header v st)"
  by (simp add: sa_header_def rb_out split: option.split)

lemma sa_choices_same: "same_but_reasoning (sa_choices (map erase_choice cs) (rb n st)) (sa_choices cs st)"
  by (auto simp: sa_choices_def strict_issue_rb same_intros intro: same_fold choice_same)

lemma push_same: "same_but_reasoning (sa_push_value (erase_reasoning v) (rb n st)) (sa_push_value v st)"
proof -
  have "get_str k (erase_reasoning v) = get_str k v" "get k (erase_reasoning v) = get k v" if "k \<noteq> ''choices''" for k
    using that by (simp_all add: erase_reasoning_def get_str_def get_on_key)
  then have h: "sa_header (erase_reasoning v) = sa_header v" by (simp add: sa_header_def fun_eq_iff)
  have c: "Option.bind (get ''choices'' (erase_reasoning v)) as_array =
      map_option (map erase_choice) (Option.bind (get ''choices'' v) as_array)"
    by (cases "get ''choices'' v") (simp_all add: erase_reasoning_def get_on_key as_array_on_items)
  show ?thesis
    unfolding sa_push_value_def h c sa_header_rb
    by (cases "Option.bind (get ''choices'' v) as_array") (simp_all add: same_intros sa_choices_same)
qed

lemma sa_finish_rb: "sa_finish (rb n st) = sa_finish st"
proof -
  have "sa_output (rb n st) = sa_output st"
    by (cases "sa_expected_tool_name st") (simp_all add: sa_output_def strict_issue_rb)
  moreover have "sa_check_finish (rb n st) = sa_check_finish st" 
    by (cases "sa_expected_tool_name st") (simp_all add: sa_check_finish_def)
  ultimately show ?thesis by (simp add: sa_finish_def)
qed

text \<open>
  C25: what a model thinks before it answers is never retained. For every sequence of events of the chat
  protocol, the aggregated response is the same as for the events with the text of each reasoning delta erased:
  the same body with the same content, model and usage, or the same error.
\<close>

theorem reasoning_not_retained:
  "bind_r (fold_r sa_push_value (map erase_reasoning vs) sa_new) sa_finish =
   bind_r (fold_r sa_push_value vs sa_new) sa_finish"
proof -
  have "rb 0 sa_new = sa_new" by (simp add: sa_new_def)
  with same_fold [of vs sa_push_value erase_reasoning 0 sa_new] push_same
  have "same_but_reasoning (fold_r sa_push_value (map erase_reasoning vs) sa_new) (fold_r sa_push_value vs sa_new)"
    by simp
  then obtain m where m: "fold_r sa_push_value (map erase_reasoning vs) sa_new = map_sum id (rb m) (fold_r sa_push_value vs sa_new)"
    unfolding same_but_reasoning_def by blast
  show ?thesis unfolding m by (cases "fold_r sa_push_value vs sa_new") (simp_all add: sa_finish_rb)
qed

section \<open>A returned message is complete\<close>

definition text_of :: "string \<times> json_value \<Rightarrow> string" where
  "text_of ev =
     (if fst ev = ''content_block_delta'' then
        (let delta = get_or_self ''delta'' (snd ev) in
         if get_str ''type'' delta = Some ''text_delta''
         then (case get_str ''text'' delta of None \<Rightarrow> [] | Some text \<Rightarrow> text) else [])
      else [])"

definition block_indices :: "string \<Rightarrow> (string \<times> json_value) list \<Rightarrow> nat list" where
  "block_indices name evs = List.map_filter (\<lambda>(event, data). if event = name then get_u64 ''index'' data else None) evs"

abbreviation named :: "string \<Rightarrow> string \<times> json_value \<Rightarrow> bool" where
  "named name ev \<equiv> fst ev = name"

definition aa_push :: "string \<times> json_value \<Rightarrow> anthropic_aggregator \<Rightarrow> provider_error + anthropic_aggregator" where
  "aa_push ev st = aa_push_event (fst ev) (snd ev) st"

definition aa_inv :: "(string \<times> json_value) list \<Rightarrow> anthropic_aggregator \<Rightarrow> bool" where
  "aa_inv evs st \<longleftrightarrow>
     aa_content st = concat (map text_of evs) \<and>
     length (filter (named ''message_start'') evs) = (if aa_started st then 1 else 0) \<and>
     length (filter (named ''message_stop'') evs) = (if aa_stopped st then 1 else 0) \<and>
     set (block_indices ''content_block_start'' evs) = fst ` set (aa_open_blocks st) \<union> set (aa_closed_blocks st) \<and>
     set (block_indices ''content_block_stop'' evs) = set (aa_closed_blocks st) \<and>
     fst ` set (aa_open_blocks st) \<inter> set (aa_closed_blocks st) = {}"

lemma block_indices_append [simp]: "block_indices name (evs @ evs') = block_indices name evs @ block_indices name evs'"
  by (simp add: block_indices_def map_filter_def)

lemma block_indices_one:
  "block_indices name [ev] = (if fst ev = name then (case get_u64 ''index'' (snd ev) of None \<Rightarrow> [] | Some i \<Rightarrow> [i]) else [])"
  by (cases ev) (auto simp: block_indices_def map_filter_def split: option.split)

lemma aa_message_start_Ok:
  "aa_message_start data st = Ok st' \<Longrightarrow> \<not> aa_started st \<and> aa_started st' \<and> aa_stopped st' = aa_stopped st \<and>
     aa_content st' = aa_content st \<and> aa_open_blocks st' = aa_open_blocks st \<and> aa_closed_blocks st' = aa_closed_blocks st"
  by (auto simp: aa_message_start_def Let_def split: if_split_asm option.split_asm)

lemma aa_block_start_Ok:
  "aa_block_start data st = Ok st' \<Longrightarrow> \<exists>i kind. get_u64 ''index'' data = Some i \<and> i \<notin> fst ` set (aa_open_blocks st) \<and>
     i \<notin> set (aa_closed_blocks st) \<and> st' = st\<lparr>aa_open_blocks := (i, kind) # aa_open_blocks st\<rparr>"
  by (auto simp: aa_block_start_def bind_r_Ok_conv split: if_split_asm)

lemma aa_block_delta_Ok:
  "aa_block_delta data st = Ok st' \<Longrightarrow> st' = st\<lparr>aa_content := aa_content st @ text_of (''content_block_delta'', data)\<rparr>"
  by (auto simp: aa_block_delta_def text_of_def Let_def bind_r_Ok_conv split: if_split_asm option.split)

lemma aa_block_stop_Ok:
  "aa_block_stop data st = Ok st' \<Longrightarrow> \<exists>i. get_u64 ''index'' data = Some i \<and> i \<in> fst ` set (aa_open_blocks st) \<and>
     st' = st\<lparr>aa_open_blocks := filter (\<lambda>(j, _). j \<noteq> i) (aa_open_blocks st), aa_closed_blocks := i # aa_closed_blocks st\<rparr>"
  by (auto simp: aa_block_stop_def bind_r_Ok_conv split: if_split_asm)

lemma aa_message_delta_frame:
  "aa_started (aa_message_delta data st) = aa_started st" "aa_stopped (aa_message_delta data st) = aa_stopped st"
  "aa_content (aa_message_delta data st) = aa_content st" "aa_open_blocks (aa_message_delta data st) = aa_open_blocks st"
  "aa_closed_blocks (aa_message_delta data st) = aa_closed_blocks st"
  by (simp_all add: aa_message_delta_def Let_def split: option.split)

lemma fst_filter_other: "fst ` set (filter (\<lambda>(j, _). j \<noteq> i) kvs) = fst ` set kvs - {i}"
  by force

lemma aa_push_inv:
  assumes "aa_inv evs st" "aa_push ev st = Ok st'"
  shows "aa_inv (evs @ [ev]) st'"
proof -
  obtain event data where ev: "ev = (event, data)" by (cases ev)
  note simps = aa_inv_def block_indices_one text_of_def ev
  note push = assms(2) [unfolded aa_push_def ev aa_push_event_def fst_conv snd_conv]
  have ne: "event \<noteq> ''error''" using push by auto
  let ?other = "event \<noteq> ''message_start'' \<and> event \<noteq> ''content_block_start'' \<and> event \<noteq> ''content_block_delta'' \<and>
    event \<noteq> ''content_block_stop'' \<and> event \<noteq> ''message_delta'' \<and> event \<noteq> ''message_stop''"
  have "event = ''message_start'' \<or> event = ''content_block_start'' \<or> event = ''content_block_delta'' \<or>
    event = ''content_block_stop'' \<or> event = ''message_delta'' \<or> event = ''message_stop'' \<or> ?other" by argo
  then show ?thesis
  proof (elim disjE)
    assume e: "event = ''message_start''"
    with push have "aa_message_start data st = Ok st'" by simp
    from aa_message_start_Ok [OF this] show ?thesis using assms(1) e by (simp add: simps)
  next
    assume e: "event = ''content_block_start''"
    with push have "aa_block_start data st = Ok st'" by simp
    from aa_block_start_Ok [OF this] obtain i kind where "get_u64 ''index'' data = Some i" "i \<notin> fst ` set (aa_open_blocks st)"
      "i \<notin> set (aa_closed_blocks st)" "st' = st\<lparr>aa_open_blocks := (i, kind) # aa_open_blocks st\<rparr>" by blast
    with e show ?thesis using assms(1) by (simp add: simps) 
  next
    assume e: "event = ''content_block_delta''"
    with push have "aa_block_delta data st = Ok st'" by simp
    from aa_block_delta_Ok [OF this] e show ?thesis using assms(1) by (simp add: aa_inv_def block_indices_one ev)
  next
    assume e: "event = ''content_block_stop''"
    with push have "aa_block_stop data st = Ok st'" by simp
    from aa_block_stop_Ok [OF this] obtain i where "get_u64 ''index'' data = Some i" "i \<in> fst ` set (aa_open_blocks st)"
      "st' = st\<lparr>aa_open_blocks := filter (\<lambda>(j, _). j \<noteq> i) (aa_open_blocks st), aa_closed_blocks := i # aa_closed_blocks st\<rparr>"
      by blast
    with e show ?thesis
      using assms(1) by (simp add: simps fst_filter_other del: set_filter) blast
  next
    assume e: "event = ''message_delta''"
    with push have "st' = aa_message_delta data st" by simp
    with e show ?thesis using assms(1) by (simp add: simps aa_message_delta_frame)
  next
    assume e: "event = ''message_stop''"
    with push have "\<not> aa_stopped st" "st' = st\<lparr>aa_stopped := True\<rparr>" by (simp_all split: if_split_asm)
    with e show ?thesis using assms(1) by (simp add: simps)
  next
    assume e: ?other
    with push ne have "st' = st" by simp
    with e show ?thesis using assms(1) by (simp add: simps)
  qed
qed

lemma aa_fold_inv: "fold_r aa_push evs' st = Ok st' \<Longrightarrow> aa_inv evs st \<Longrightarrow> aa_inv (evs @ evs') st'"
proof (induction evs' arbitrary: evs st)
  case (Cons ev evs')
  then obtain st1 where "aa_push ev st = Ok st1" "fold_r aa_push evs' st1 = Ok st'" by (auto simp: bind_r_Ok_conv)
  with Cons.IH [of st1 "evs @ [ev]"] aa_push_inv [OF Cons.prems(2)] show ?case by simp
qed simp

lemma aa_inv_new: "aa_inv [] aa_new"
  by (simp add: aa_inv_def aa_new_def block_indices_def map_filter_def)

lemma fold_r_append: "fold_r f (xs @ ys) st = bind_r (fold_r f xs st) (fold_r f ys)"
  by (induction xs arbitrary: st) (auto simp: bind_r_def split: sum.split)

definition message_text :: "json_value \<Rightarrow> string option" where
  \<comment> \<open>\<open>body["content"][0]["text"]\<close>\<close>
  "message_text body =
     (case Option.bind (get ''content'' body) as_array of Some (v # _) \<Rightarrow> get_str ''text'' v | _ \<Rightarrow> None)"

lemma map_of_obj_insert: "map_of (obj_insert k v kvs) j = (if j = k then Some v else map_of kvs j)"
  by (induction kvs) auto

lemma map_of_with_field: "j \<noteq> k \<Longrightarrow> map_of (with_field k v kvs) j = map_of kvs j"
  by (simp add: with_field_def map_of_obj_insert split: option.split)

lemma aa_finish_Ok:
  assumes "aa_finish st = Ok body"
  shows "aa_started st \<and> aa_stopped st \<and> aa_content st \<noteq> [] \<and> message_text body = Some (aa_content st)"
  using assms
  by (auto simp: aa_finish_def message_text_def get_def get_str_def map_of_with_field split: if_split_asm)

text \<open>
  C24: a message that is returned is a whole message. If the aggregator accepts the events of a
  stream and returns a body, the stream had exactly one \<open>message_start\<close> and one \<open>message_stop\<close>, each content block that was
  opened before the stop was closed before it, and the text of the body is, in order, exactly the text deltas
  of the stream: nothing of a thinking block and nothing missing.
\<close>

theorem anthropic_message_complete:
  assumes "fold_r aa_push evs aa_new = Ok st" "aa_finish st = Ok body"
  shows "message_text body = Some (concat (map text_of evs)) \<and> concat (map text_of evs) \<noteq> [] \<and>
    length (filter (named ''message_start'') evs) = 1 \<and> length (filter (named ''message_stop'') evs) = 1 \<and>
    (\<exists>pre stop post. evs = pre @ stop # post \<and> named ''message_stop'' stop \<and>
      set (block_indices ''content_block_start'' pre) = set (block_indices ''content_block_stop'' pre))"
proof -
  have inv: "aa_inv evs st" using aa_fold_inv [OF assms(1) aa_inv_new] by simp
  note f = aa_finish_Ok [OF assms(2)]
  have one: "length (filter (named ''message_stop'') evs) = 1" using inv f by (simp add: aa_inv_def)
  then have "filter (named ''message_stop'') evs \<noteq> []" by auto
  then obtain stop where "stop \<in> set evs" "named ''message_stop'' stop" unfolding filter_empty_conv by blast
  then obtain pre post where evs: "evs = pre @ stop # post" by (meson split_list)
  obtain st1 st2 where st1: "fold_r aa_push pre aa_new = Ok st1" "aa_push stop st1 = Ok st2"
    using assms(1) unfolding evs by (auto simp: fold_r_append bind_r_Ok_conv)
  have "aa_inv pre st1" using aa_fold_inv [OF st1(1) aa_inv_new] by simp
  moreover have "aa_open_blocks st1 = []"
    using st1(2) \<open>named ''message_stop'' stop\<close> by (simp add: aa_push_def aa_push_event_def split: if_split_asm)
  ultimately have "set (block_indices ''content_block_start'' pre) = set (block_indices ''content_block_stop'' pre)"
    by (simp add: aa_inv_def)
  with evs \<open>named ''message_stop'' stop\<close>
  have blocks: "\<exists>pre stop post. evs = pre @ stop # post \<and> named ''message_stop'' stop \<and>
      set (block_indices ''content_block_start'' pre) = set (block_indices ''content_block_stop'' pre)" by blast
  have c: "aa_content st = concat (map text_of evs)" and start: "length (filter (named ''message_start'') evs) = 1"
    using inv f by (simp_all add: aa_inv_def)
  show ?thesis using f [unfolded c] start one blocks by blast
qed

definition sample_message :: "(string \<times> json_value) list" where
  "sample_message =
     [(''message_start'', VObject [(''message'', VObject [(''id'', VString ''m'')])]),
      (''content_block_start'', VObject [(''index'', VNumber (Some 0)), (''content_block'', VObject [(''type'', VString ''thinking'')])]),
      (''content_block_delta'', VObject [(''index'', VNumber (Some 0)), (''delta'', VObject [(''type'', VString ''thinking_delta''), (''text'', VString ''private'')])]),
      (''content_block_stop'', VObject [(''index'', VNumber (Some 0))]),
      (''content_block_start'', VObject [(''index'', VNumber (Some 1)), (''content_block'', VObject [(''type'', VString ''text'')])]),
      (''content_block_delta'', VObject [(''index'', VNumber (Some 1)), (''delta'', VObject [(''type'', VString ''text_delta''), (''text'', VString ''hi'')])]),
      (''content_block_stop'', VObject [(''index'', VNumber (Some 1))]),
      (''message_delta'', VObject [(''delta'', VObject [(''stop_reason'', VString ''end_turn'')])]),
      (''message_stop'', VObject [])]"

theorem anthropic_message_complete_witness:
  "\<exists>body. bind_r (fold_r aa_push sample_message aa_new) aa_finish = Ok body \<and> message_text body = Some ''hi''"
proof -
  have "is_ok (bind_r (fold_r aa_push sample_message aa_new) aa_finish)" by code_simp
  then obtain st body where r: "fold_r aa_push sample_message aa_new = Ok st" "aa_finish st = Ok body"
    by (auto simp: is_ok_def bind_r_def split: sum.split_asm)
  have "concat (map text_of sample_message) = ''hi''" by code_simp
  with anthropic_message_complete [OF r] r show ?thesis by simp
qed

text \<open>
  When the responses aggregator panics. Finishing a stream panics exactly when text deltas came but
  the \<open>response\<close> of the completion event is a JSON value that is neither an object nor null, because the code then
  assigns a key of it; every other stream ends in a body or in an error.
\<close>

theorem responses_finish_panics:
  "ra_finish st = None \<longleftrightarrow>
   (\<exists>response. ra_completed st = Some response \<and> ra_text st \<noteq> [] \<and> response \<noteq> VNull \<and> as_object response = None)"
proof (cases "ra_completed st")
  case (Some response)
  have "set_key k v response = None \<longleftrightarrow> response \<noteq> VNull \<and> as_object response = None" for k v
    by (cases response) simp_all
  moreover have "get_str k response = None" if "as_object response = None" for k
    using that by (simp add: get_str_def get_def)
  ultimately show ?thesis
    using Some by (auto simp: ra_finish_def Option.bind_eq_None_conv split: if_split_asm)
qed (simp add: ra_finish_def)

text \<open>The failure events of the protocol never reach the aggregator: the adapter ignores every event that it does not list.\<close>

lemma responses_failure_ignored:
  "se_event event \<in> Some ` {''response.failed'', ''response.incomplete'', ''error''} \<Longrightarrow>
   responses_on_event parse event st = Some (Ok (Ignore, None, st))"
  by (auto simp: responses_on_event_def Let_def)

end
