(* ===== verification/Provider_Transport.thy ===== *)
theory Provider_Transport
  imports Provider_Aggregate
begin

text \<open>
  The bounded HTTP transport of the provider adapters (crates/providers/src/transport.rs). The network is
  a schedule: for each attempt, what DNS answered, whether a permit and a client were had, what the budget
  said, and what came back. Durations and instants are milliseconds. What is sent and what is reserved is
  kept as a log, one list per attempt. The JSON codec, the header checks of the \<open>http\<close> crate and
  \<open>Url::set_path\<close> are parameters.
\<close>

section \<open>Requests\<close>

datatype auth_style = Bearer | AnthropicAuth | NoAuth

record request_options =
  ro_secret :: "string option"
  ro_auth_style :: auth_style
  ro_timeout :: "nat option"

record json_response =
  jr_status :: nat
  jr_body :: json_value

record sse_response =
  sr_status :: nat
  sr_event_count :: nat
  sr_terminal :: bool

type_synonym socket_addr = "ip_addr \<times> nat"

record transport_env =
  te_to_vec :: "json_value \<Rightarrow> string option" \<comment> \<open>\<open>serde_json::to_vec\<close>\<close>
  te_from_slice :: "string \<Rightarrow> json_value option" \<comment> \<open>\<open>serde_json::from_slice\<close>\<close>
  te_header_name :: "string \<Rightarrow> bool" \<comment> \<open>\<open>HeaderName::from_bytes\<close> accepts it\<close>
  te_header_value :: "string \<Rightarrow> bool" \<comment> \<open>\<open>HeaderValue::from_str\<close> accepts it\<close>
  te_to_str :: "string \<Rightarrow> string option" \<comment> \<open>\<open>HeaderValue::to_str\<close>\<close>
  te_port :: "url_view \<Rightarrow> nat option" \<comment> \<open>\<open>Url::port_or_known_default\<close>\<close>
  te_set_path :: "string \<Rightarrow> url_view \<Rightarrow> url_view" \<comment> \<open>\<open>Url::set_path\<close>\<close>

datatype send_outcome =
    SendError bool bool \<comment> \<open>timeout, connect\<close>
  | Responded nat "string option" "nat option" "(bool + string) list"
      \<comment> \<open>status, content type, content length, then chunks; \<open>Inl t\<close> is a read error, a timeout or not\<close>

record attempt_env =
  at_addresses :: "socket_addr list option" \<comment> \<open>\<open>lookup_host\<close>\<close>
  at_permit :: bool
  at_client :: bool
  at_budget :: "(provider_error + unit) option" \<comment> \<open>\<open>None\<close>: no budget attached\<close>
  at_send :: send_outcome

datatype transport_event = Reserved nat | Sent string socket_addr "(string \<times> string) list" string

definition endpoint_url :: "transport_env \<Rightarrow> url_view \<Rightarrow> string \<Rightarrow> provider_error + url_view" where
  "endpoint_url env base sfx =
     (if sfx = [] \<or> hd sfx = CHR ''/'' \<or> contains_sub sfx ''..'' \<or> any_control sfx
      then Err (PeInvalidConfiguration ''provider endpoint suffix is invalid'')
      else
        (let path = rev (dropWhile (\<lambda>c. c = CHR ''/'') (rev (uv_path base)));
             path' = (if path = [] then ''/v1/'' @ sfx else path @ ''/'' @ sfx)
         in Ok ((te_set_path env path' base)\<lparr>uv_query := None, uv_fragment := None\<rparr>)))"

definition validated_socket ::
  "transport_env \<Rightarrow> url_view \<Rightarrow> provider_mode \<Rightarrow> provider_settings \<Rightarrow> socket_addr list option \<Rightarrow>
     provider_error + (string \<times> socket_addr)" where
  "validated_socket env endpoint mode settings looked_up =
     (if uv_username endpoint \<noteq> [] \<or> uv_password endpoint \<noteq> None \<or> uv_query endpoint \<noteq> None \<or> uv_fragment endpoint \<noteq> None
      then Err PeEndpointDenied
      else if uv_scheme endpoint \<noteq> ''http'' \<and> uv_scheme endpoint \<noteq> ''https'' then Err PeEndpointDenied
      else
        bind_r (ok_or PeEndpointDenied (uv_host endpoint)) (\<lambda>host.
        bind_r (ok_or PeEndpointDenied (te_port env endpoint)) (\<lambda>port.
        if uv_scheme endpoint = ''http'' \<and> mode = RemoteAllowed then Err PeEndpointDenied
        else
          bind_r (ok_or (PeTransport ''provider_dns_failed'' True) looked_up) (\<lambda>addresses.
          if addresses = [] \<or> (\<exists>a \<in> set addresses. \<not> endpoint_ip_allowed (fst a) mode (ps_allow_private_networks settings))
          then Err PeEndpointDenied
          else (let socket = hd addresses in
            if is_unspecified (fst socket) then Err PeEndpointDenied else Ok (host, socket))))))"

definition eq_ignore_case :: "string \<Rightarrow> string \<Rightarrow> bool" where
  "eq_ignore_case a b \<longleftrightarrow> ascii_lowercase a = ascii_lowercase b"

definition protected_header :: "string \<Rightarrow> bool" where
  "protected_header name \<longleftrightarrow>
     eq_ignore_case name ''authorization'' \<or> eq_ignore_case name ''x-api-key'' \<or> eq_ignore_case name ''host''
     \<or> eq_ignore_case name ''content-length''"

fun configured_headers :: "transport_env \<Rightarrow> (string \<times> string) list \<Rightarrow> provider_error + (string \<times> string) list" where
  "configured_headers env [] = Ok []"
| "configured_headers env ((name, value) # rest) =
     (if protected_header name then Err (PeInvalidConfiguration ''provider settings contain a protected header'')
      else if \<not> te_header_name env name then Err (PeInvalidConfiguration ''provider header name is invalid'')
      else if \<not> te_header_value env value then Err (PeInvalidConfiguration ''provider header value is invalid'')
      else bind_r (configured_headers env rest) (\<lambda>hs. Ok ((name, value) # hs)))"

definition authenticated_request ::
  "transport_env \<Rightarrow> provider_settings \<Rightarrow> (string \<times> string) list \<Rightarrow> request_options \<Rightarrow>
     provider_error + (string \<times> string) list" where
  \<comment> \<open>the headers of the request; \<open>pre\<close> are those it already had\<close>
  "authenticated_request env settings pre options =
     bind_r (configured_headers env (ps_headers settings)) (\<lambda>configured.
       Ok (pre @ [(''content-type'', ''application/json'')] @ configured
         @ (if ro_auth_style options = AnthropicAuth then [(''anthropic-version'', ''2023-06-01'')] else [])
         @ (case ro_secret options of
              None \<Rightarrow> []
            | Some secret \<Rightarrow>
                (case ro_auth_style options of
                   Bearer \<Rightarrow> [(''authorization'', ''Bearer '' @ secret)]
                 | AnthropicAuth \<Rightarrow> [(''x-api-key'', secret)]
                 | NoAuth \<Rightarrow> []))))"

definition response_read_error :: "bool \<Rightarrow> provider_error" where
  "response_read_error timeout =
     PeTransport (if timeout then ''provider_response_timeout'' else ''provider_response_incomplete'') False"

definition retryable_status :: "nat \<Rightarrow> bool" where
  "retryable_status status \<longleftrightarrow> status = 408 \<or> status = 429 \<or> status \<ge> 500"

fun read_chunks :: "nat \<Rightarrow> string \<Rightarrow> (bool + string) list \<Rightarrow> provider_error + string" where
  "read_chunks limit bytes [] = Ok bytes"
| "read_chunks limit bytes (Inl timeout # _) = Err (response_read_error timeout)"
| "read_chunks limit bytes (Inr chunk # rest) =
     (if saturating_add (length bytes) (length chunk) > limit then Err PeResponseTooLarge
      else read_chunks limit (bytes @ chunk) rest)"

definition json_answer :: "transport_env \<Rightarrow> provider_settings \<Rightarrow> send_outcome \<Rightarrow> provider_error + json_response" where
  "json_answer env settings outcome =
     (case outcome of
        SendError timeout connect \<Rightarrow>
          Err (PeTransport (if timeout then ''provider_timeout'' else if connect then ''provider_connect_failed''
                            else ''provider_request_failed'') (timeout \<or> connect))
      | Responded status content_type content_length chunks \<Rightarrow>
          if 300 \<le> status \<and> status < 400 then Err PeEndpointDenied
          else if \<not> (200 \<le> status \<and> status < 300) then Err (PeHttpStatus status (retryable_status status))
          else if (case content_type of None \<Rightarrow> False | Some raw \<Rightarrow>
              (let text = (case te_to_str env raw of None \<Rightarrow> [] | Some t \<Rightarrow> t)
               in \<not> prefix ''application/json'' text \<and> \<not> contains_sub text ''+json''))
          then Err (PeInvalidResponse ''provider content type is not JSON'')
          else if is_some_and content_length (\<lambda>n. n > ps_max_response_bytes settings) then Err PeResponseTooLarge
          else
            bind_r (read_chunks (ps_max_response_bytes settings) [] chunks) (\<lambda>bytes.
            bind_r (ok_or (PeInvalidResponse ''response is not JSON'') (te_from_slice env bytes)) (\<lambda>body.
              Ok \<lparr>jr_status = status, jr_body = body\<rparr>)))"

definition prepare_request ::
  "transport_env \<Rightarrow> provider_settings \<Rightarrow> (string \<times> string) list \<Rightarrow> url_view \<Rightarrow> provider_mode \<Rightarrow> request_options \<Rightarrow> attempt_env \<Rightarrow>
     provider_error + (string \<times> socket_addr \<times> (string \<times> string) list)" where
  \<comment> \<open>everything before the budget: the socket, the permit, the client and the headers\<close>
  "prepare_request env settings pre endpoint mode options att =
     (if mode = ModeDisabled then Err PePrivacyDenied
      else
        bind_r (validated_socket env endpoint mode settings (at_addresses att)) (\<lambda>(host, socket).
        if \<not> at_permit att then Err (PeTransport ''provider_concurrency_closed'' True)
        else if \<not> at_client att then Err (PeTransport ''provider_client_build_failed'' False)
        else bind_r (authenticated_request env settings pre options) (\<lambda>headers. Ok (host, socket, headers))))"

definition request_once ::
  "transport_env \<Rightarrow> provider_settings \<Rightarrow> url_view \<Rightarrow> provider_mode \<Rightarrow> string \<Rightarrow> request_options \<Rightarrow> attempt_env \<Rightarrow>
     (provider_error + json_response) \<times> transport_event list" where
  "request_once env settings endpoint mode body options att =
     (case prepare_request env settings [] endpoint mode options att of
        Err e \<Rightarrow> (Err e, [])
      | Ok (host, socket, headers) \<Rightarrow>
          (case at_budget att of
             Some (Err e) \<Rightarrow> (Err e, [])
           | budget \<Rightarrow>
               (json_answer env settings (at_send att),
                (if budget = None then [] else [Reserved (length body)]) @ [Sent host socket headers body])))"

definition U64_MAX :: nat where "U64_MAX = 2 ^ 64 - 1"

definition retry_delay :: "nat \<Rightarrow> nat" where
  "retry_delay attempt = min (100 * min (2 ^ min attempt 6) U64_MAX) U64_MAX"

function request_loop ::
  "transport_env \<Rightarrow> provider_settings \<Rightarrow> url_view \<Rightarrow> provider_mode \<Rightarrow> string \<Rightarrow> request_options \<Rightarrow> (nat \<Rightarrow> attempt_env) \<Rightarrow> nat \<Rightarrow>
     (provider_error + json_response) \<times> transport_event list list \<times> nat list" where
  "request_loop env settings endpoint mode body options atts attempt =
     (case request_once env settings endpoint mode body options (atts attempt) of
        (Ok response, log) \<Rightarrow> (Ok response, [log], [])
      | (Err e, log) \<Rightarrow>
          if pe_retryable e \<and> attempt < ps_max_retries settings then
            (let (r, logs, delays) = request_loop env settings endpoint mode body options atts (attempt + 1)
             in (r, log # logs, retry_delay attempt # delays))
          else (Err e, [log], []))"
  by pat_completeness auto

termination
  by (relation "measure (\<lambda>(_, settings, _, _, _, _, _, attempt). ps_max_retries settings - attempt)") auto

declare request_loop.simps [simp del]

definition serialized_request :: "transport_env \<Rightarrow> provider_settings \<Rightarrow> json_value \<Rightarrow> provider_error + string" where
  "serialized_request env settings body =
     bind_r (ok_or (PeInvalidConfiguration ''request JSON is invalid'') (te_to_vec env body)) (\<lambda>serialized.
       if length serialized > ps_max_request_bytes settings
       then Err (PeInvalidConfiguration ''provider request is too large'') else Ok serialized)"

definition request_json ::
  "transport_env \<Rightarrow> provider_settings \<Rightarrow> url_view \<Rightarrow> provider_mode \<Rightarrow> json_value \<Rightarrow> request_options \<Rightarrow> (nat \<Rightarrow> attempt_env) \<Rightarrow>
     (provider_error + json_response) \<times> transport_event list list \<times> nat list" where
  "request_json env settings endpoint mode body options atts =
     (case serialized_request env settings body of
        Err e \<Rightarrow> (Err e, [], [])
      | Ok serialized \<Rightarrow> request_loop env settings endpoint mode serialized options atts 0)"

definition request_json_once ::
  "transport_env \<Rightarrow> provider_settings \<Rightarrow> url_view \<Rightarrow> provider_mode \<Rightarrow> json_value \<Rightarrow> request_options \<Rightarrow> attempt_env \<Rightarrow>
     (provider_error + json_response) \<times> transport_event list" where
  "request_json_once env settings endpoint mode body options att =
     (case serialized_request env settings body of
        Err e \<Rightarrow> (Err e, [])
      | Ok serialized \<Rightarrow> request_once env settings endpoint mode serialized options att)"

section \<open>Streamed requests\<close>

datatype stream_item = ChunkElapsed | ChunkError bool | Chunk string
  \<comment> \<open>the deadline passed first; a read error (timeout or not); bytes\<close>

datatype sse_send_outcome =
    SseElapsed
  | SseSendError bool bool bool \<comment> \<open>timeout, connect, already past the total deadline\<close>
  | SseResponded nat "string option" "nat option" "stream_item list" \<comment> \<open>the stream ends after the items\<close>

record deadlines =
  dl_first :: nat
  dl_total :: nat
  dl_idle :: nat

definition stream_timeout_error :: "string \<Rightarrow> provider_error" where
  "stream_timeout_error code = PeTransport code False"

definition next_sse_deadline :: "nat option \<Rightarrow> deadlines \<Rightarrow> nat \<times> string" where
  "next_sse_deadline last_event dl =
     (case last_event of
        None \<Rightarrow> (dl_first dl, if dl_first dl = dl_total dl then ''provider_stream_total_timeout''
                           else ''provider_stream_first_event_timeout'')
      | Some prev \<Rightarrow>
          if prev + dl_idle dl \<le> dl_total dl then (prev + dl_idle dl, ''provider_stream_idle_timeout'')
          else (dl_total dl, ''provider_stream_total_timeout''))"

definition stream_response_read_error :: "bool \<Rightarrow> provider_error" where
  "stream_response_read_error timeout =
     (if timeout then stream_timeout_error ''provider_stream_total_timeout'' else response_read_error timeout)"

type_synonym 's callback = "'s \<Rightarrow> sse_event \<Rightarrow> 's \<times> (provider_error + sse_event_action) option"
  \<comment> \<open>\<open>None\<close>: the deadline passed before it returned\<close>

fun sse_deliver ::
  "'s callback \<Rightarrow> (nat option \<Rightarrow> string) \<Rightarrow> (nat \<Rightarrow> nat option \<Rightarrow> nat option) \<Rightarrow> sse_event list \<Rightarrow> 's \<Rightarrow> nat \<Rightarrow> nat option \<Rightarrow>
     's \<times> (provider_error + (nat \<times> nat option \<times> bool))" where
  \<comment> \<open>the timeout code of the deadline in force, and what progress makes of the last event's time; returns
    the event count, the last event and whether the adapter ended the stream\<close>
  "sse_deliver cb code progress [] s count prev = (s, Ok (count, prev, False))"
| "sse_deliver cb code progress (ev # evs) s count prev =
     (let count' = saturating_add count 1 in
      case cb s ev of
        (s', None) \<Rightarrow> (s', Err (stream_timeout_error (code prev)))
      | (s', Some (Err e)) \<Rightarrow> (s', Err e)
      | (s', Some (Ok Ignore)) \<Rightarrow> sse_deliver cb code progress evs s' count' prev
      | (s', Some (Ok Progress)) \<Rightarrow> sse_deliver cb code progress evs s' count' (progress count' prev)
      | (s', Some (Ok Terminal)) \<Rightarrow> (s', Ok (count', prev, True)))"

fun sse_loop ::
  "'s callback \<Rightarrow> (nat \<Rightarrow> nat) \<Rightarrow> deadlines \<Rightarrow> nat \<Rightarrow> nat \<Rightarrow> stream_item list \<Rightarrow> sse_decoder \<Rightarrow> nat \<Rightarrow> 's \<Rightarrow> nat \<Rightarrow> nat option \<Rightarrow>
     's \<times> (provider_error + sse_response)" where
  \<comment> \<open>\<open>now n\<close> is the instant after the callback of event \<open>n\<close>\<close>
  "sse_loop cb now dl status limit [] d bytes s count prev =
     (case sse_finish d of
        Err e \<Rightarrow> (s, Err e)
      | Ok (events, _) \<Rightarrow>
          (case sse_deliver cb (\<lambda>_. ''provider_stream_total_timeout'') (\<lambda>_ l. l) events s count prev of
             (s', Err e) \<Rightarrow> (s', Err e)
           | (s', Ok (count', _, terminal)) \<Rightarrow>
               (s', Ok \<lparr>sr_status = status, sr_event_count = count', sr_terminal = terminal\<rparr>)))"
| "sse_loop cb now dl status limit (ChunkElapsed # _) d bytes s count prev =
     (s, Err (stream_timeout_error (snd (next_sse_deadline prev dl))))"
| "sse_loop cb now dl status limit (ChunkError timeout # _) d bytes s count prev =
     (s, Err (stream_response_read_error timeout))"
| "sse_loop cb now dl status limit (Chunk chunk # items) d bytes s count prev =
     (let bytes' = saturating_add bytes (length chunk) in
      if bytes' > limit then (s, Err PeResponseTooLarge)
      else
        (case sse_push chunk d of
           Err e \<Rightarrow> (s, Err e)
         | Ok (events, d') \<Rightarrow>
             (case sse_deliver cb (\<lambda>l. snd (next_sse_deadline l dl)) (\<lambda>n _. Some (now n)) events s count prev of
                (s', Err e) \<Rightarrow> (s', Err e)
              | (s', Ok (count', prev', terminal)) \<Rightarrow>
                  if terminal then (s', Ok \<lparr>sr_status = status, sr_event_count = count', sr_terminal = True\<rparr>)
                  else sse_loop cb now dl status limit items d' bytes' s' count' prev')))"

definition media_type :: "string \<Rightarrow> string" where
  \<comment> \<open>\<open>content_type.split(';').next().unwrap_or_default().trim()\<close>\<close>
  "media_type content_type = trim (hd (split_on CHR '';'' content_type))"

definition sse_answer ::
  "transport_env \<Rightarrow> provider_settings \<Rightarrow> deadlines \<Rightarrow> 's callback \<Rightarrow> (nat \<Rightarrow> nat) \<Rightarrow> sse_send_outcome \<Rightarrow> 's \<Rightarrow>
     's \<times> (provider_error + sse_response)" where
  "sse_answer env settings dl cb now outcome s =
     (case outcome of
        SseElapsed \<Rightarrow> (s, Err (stream_timeout_error (snd (next_sse_deadline None dl))))
      | SseSendError timeout connect past_total \<Rightarrow>
          (s, Err (if timeout then
                     stream_timeout_error (if past_total then ''provider_stream_total_timeout''
                                           else ''provider_stream_first_event_timeout'')
                   else PeTransport (if connect then ''provider_connect_failed'' else ''provider_request_failed'') False))
      | SseResponded status content_type content_length items \<Rightarrow>
          if 300 \<le> status \<and> status < 400 then (s, Err PeEndpointDenied)
          else if \<not> (200 \<le> status \<and> status < 300) then (s, Err (PeHttpStatus status False))
          else if \<not> eq_ignore_case
              (media_type (case Option.bind content_type (te_to_str env) of None \<Rightarrow> [] | Some t \<Rightarrow> t)) ''text/event-stream''
          then (s, Err (PeInvalidResponse ''provider content type is not SSE''))
          else if is_some_and content_length (\<lambda>n. n > ps_max_response_bytes settings) then (s, Err PeResponseTooLarge)
          else
            (case sse_new (ps_max_response_bytes settings) of
               Err e \<Rightarrow> (s, Err e)
             | Ok decoder \<Rightarrow> sse_loop cb now dl status (ps_max_response_bytes settings) items decoder 0 s 0 None))"

definition stream_deadlines :: "provider_settings \<Rightarrow> request_options \<Rightarrow> nat \<Rightarrow> deadlines" where
  "stream_deadlines settings options started =
     (let total = started + (case ro_timeout options of Some t \<Rightarrow> t | None \<Rightarrow> ps_stream_total_timeout_ms settings)
      in \<lparr>dl_first = min total (started + ps_stream_first_event_timeout_ms settings), dl_total = total,
          dl_idle = ps_stream_idle_timeout_ms settings\<rparr>)"

definition request_sse ::
  "transport_env \<Rightarrow> provider_settings \<Rightarrow> url_view \<Rightarrow> provider_mode \<Rightarrow> json_value \<Rightarrow> request_options \<Rightarrow> 's callback \<Rightarrow>
     attempt_env \<Rightarrow> nat \<Rightarrow> (nat \<Rightarrow> nat) \<Rightarrow> sse_send_outcome \<Rightarrow> 's \<Rightarrow>
     's \<times> (provider_error + sse_response) \<times> transport_event list" where
  "request_sse env settings endpoint mode body options cb att started now outcome s =
     (case serialized_request env settings body of
        Err e \<Rightarrow> (s, Err e, [])
      | Ok serialized \<Rightarrow>
          (case prepare_request env settings [(''accept'', ''text/event-stream'')] endpoint mode options att of
             Err e \<Rightarrow> (s, Err e, [])
           | Ok (host, socket, headers) \<Rightarrow>
               (case at_budget att of
                  Some (Err e) \<Rightarrow> (s, Err e, [])
                | budget \<Rightarrow>
                    (let (s', r) = sse_answer env settings (stream_deadlines settings options started) cb now outcome s
                     in (s', r, (if budget = None then [] else [Reserved (length serialized)])
                           @ [Sent host socket headers serialized])))))"

section \<open>What a request may do\<close>

text \<open>The one thing an attempt may put on the wire: the request to a permitted address of the endpoint,
  after its reservation when a budget is attached.\<close>

definition permitted_log ::
  "provider_settings \<Rightarrow> url_view \<Rightarrow> provider_mode \<Rightarrow> string \<Rightarrow> attempt_env \<Rightarrow> transport_event list \<Rightarrow> bool" where
  "permitted_log settings endpoint mode body att log \<longleftrightarrow>
     (\<exists>host socket headers.
        log = (if at_budget att = None then [] else [Reserved (length body)]) @ [Sent host socket headers body] \<and>
        uv_host endpoint = Some host \<and> uv_username endpoint = [] \<and> uv_password endpoint = None \<and>
        uv_scheme endpoint \<in> (if mode = RemoteAllowed then {''https''} else {''http'', ''https''}) \<and>
        mode \<noteq> ModeDisabled \<and> at_budget att \<in> {None, Some (Ok ())} \<and>
        (\<exists>addresses. at_addresses att = Some addresses \<and> socket \<in> set addresses \<and>
          (\<forall>a \<in> set addresses. endpoint_ip_allowed (fst a) mode (ps_allow_private_networks settings))))"

fun may_retry :: "send_outcome \<Rightarrow> bool" where
  "may_retry (SendError timeout connect) \<longleftrightarrow> timeout \<or> connect"
| "may_retry (Responded status _ _ _) \<longleftrightarrow> status = 408 \<or> status = 429 \<or> status \<ge> 500"

lemma validated_socket_Ok:
  assumes "validated_socket env endpoint mode settings looked_up = Ok (host, socket)"
  shows "uv_host endpoint = Some host \<and> uv_username endpoint = [] \<and> uv_password endpoint = None \<and>
    uv_scheme endpoint \<in> (if mode = RemoteAllowed then {''https''} else {''http'', ''https''}) \<and>
    (\<exists>addresses. looked_up = Some addresses \<and> socket \<in> set addresses \<and>
      (\<forall>a \<in> set addresses. endpoint_ip_allowed (fst a) mode (ps_allow_private_networks settings)))"
  using assms by (auto simp: validated_socket_def bind_r_Ok_conv Let_def split: if_split_asm)

lemma prepare_request_Ok:
  assumes "prepare_request env settings pre endpoint mode options att = Ok (host, socket, headers)"
  shows "mode \<noteq> ModeDisabled \<and> validated_socket env endpoint mode settings (at_addresses att) = Ok (host, socket)"
  using assms by (auto simp: prepare_request_def bind_r_Ok_conv split: if_split_asm)

lemma permittedI:
  assumes "prepare_request env settings pre endpoint mode options att = Ok (host, socket, headers)"
    "at_budget att \<in> {None, Some (Ok ())}"
  shows "permitted_log settings endpoint mode body att
    ((if at_budget att = None then [] else [Reserved (length body)]) @ [Sent host socket headers body])"
  unfolding permitted_log_def
  using prepare_request_Ok [OF assms(1)] validated_socket_Ok [of env endpoint mode settings "at_addresses att" host socket]
    assms(2) by blast

lemma request_once_log:
  assumes "request_once env settings endpoint mode body options att = (r, log)"
  shows "log = [] \<or> permitted_log settings endpoint mode body att log \<and> r = json_answer env settings (at_send att)"
proof (cases "prepare_request env settings [] endpoint mode options att")
  case (Inl e)
  with assms show ?thesis by (simp add: request_once_def)
next
  case (Inr p)
  obtain host socket headers where p: "p = (host, socket, headers)" by (cases p)
  consider e where "at_budget att = Some (Err e)" | "at_budget att \<in> {None, Some (Ok ())}"
    by (cases "at_budget att") (auto elim: sumE)
  then show ?thesis
  proof cases
    case 1
    with assms Inr p show ?thesis by (simp add: request_once_def)
  next
    case 2
    with assms Inr p permittedI [OF Inr [unfolded p] 2, of body] show ?thesis by (auto simp: request_once_def)
  qed
qed

lemma json_answer_retryable:
  "json_answer env settings outcome = Err e \<Longrightarrow> pe_retryable e \<Longrightarrow> may_retry outcome"
proof (cases outcome)
  case (Responded status ct cl chunks)
  have "\<not> pe_retryable e'" if "read_chunks limit bytes chunks' = Err e'" for limit bytes chunks' e'
    using that by (induction limit bytes chunks' rule: read_chunks.induct) (auto simp: response_read_error_def split: if_split_asm)
  moreover assume "json_answer env settings outcome = Err e" "pe_retryable e"
  ultimately show ?thesis
    using Responded by (auto simp: json_answer_def retryable_status_def bind_r_def ok_or_def split: if_split_asm sum.split_asm option.split_asm)
qed (auto simp: json_answer_def)

lemma request_loop_props:
  assumes "request_loop env settings endpoint mode body options atts attempt = (r, logs, delays)"
    "attempt \<le> ps_max_retries settings"
  shows "attempt + length logs \<le> ps_max_retries settings + 1 \<and> logs \<noteq> [] \<and>
    delays = map retry_delay [attempt..<attempt + length logs - 1] \<and>
    (\<forall>k < length logs. logs ! k = [] \<or> permitted_log settings endpoint mode body (atts (attempt + k)) (logs ! k)) \<and>
    (\<forall>k. Suc k < length logs \<longrightarrow> logs ! k \<noteq> [] \<longrightarrow> may_retry (at_send (atts (attempt + k))))"
  using assms
proof (induction env settings endpoint mode body options atts attempt arbitrary: r logs delays rule: request_loop.induct)
  case (1 env settings endpoint mode body options atts attempt)
  obtain r1 log where once: "request_once env settings endpoint mode body options (atts attempt) = (r1, log)"
    by fastforce
  note log = request_once_log [OF once]
  show ?case
  proof (cases "\<exists>e. r1 = Err e \<and> pe_retryable e \<and> attempt < ps_max_retries settings")
    case False
    then have "logs = [log]" "delays = []"
      using 1(2) once by (subst (asm) request_loop.simps; force split: sum.split_asm if_split_asm)+
    then show ?thesis using log 1(3) by auto
  next
    case True
    then obtain e where e: "r1 = Err e" "pe_retryable e" "attempt < ps_max_retries settings" by blast
    obtain r2 logs2 delays2 where rest: "request_loop env settings endpoint mode body options atts (attempt + 1) = (r2, logs2, delays2)"
      using prod_cases3 by blast
    have eq: "logs = log # logs2" "delays = retry_delay attempt # delays2"
      using 1(2) once e rest by (subst (asm) request_loop.simps; force)+
    have le: "attempt + 1 \<le> ps_max_retries settings" using e(3) by simp
    note ih = 1(1) [OF once [symmetric] e(1) conjI [OF e(2,3)] rest le]
    have retry: "may_retry (at_send (atts attempt))" if "log \<noteq> []"
      using log that json_answer_retryable [of env settings "at_send (atts attempt)" e] e(1,2) by simp
    have "delays = map retry_delay [attempt..<attempt + length logs - 1]"
      using ih unfolding eq by (simp add: upt_conv_Cons [of attempt "attempt + length logs2"])
    moreover have "logs ! k = [] \<or> permitted_log settings endpoint mode body (atts (attempt + k)) (logs ! k)"
      if "k < length logs" for k using that ih log unfolding eq by (cases k) auto
    moreover have "may_retry (at_send (atts (attempt + k)))" if "Suc k < length logs" "logs ! k \<noteq> []" for k
      using that ih retry unfolding eq by (cases k) auto
    ultimately show ?thesis using ih unfolding eq by auto
  qed
qed

lemma retry_delays_bounded: "n \<le> 8 \<Longrightarrow> sum_list (map retry_delay [0..<n]) \<le> 19100"
proof -
  assume "n \<le> 8"
  then have "[0..<8] = [0..<n] @ [n..<8]" using upt_add_eq_append [of 0 n "8 - n"] by simp
  then have "sum_list (map retry_delay [0..<n]) \<le> sum_list (map retry_delay [0..<8])" by simp
  also have "[0..<8] = [0, 1, 2, 3, 4, 5, 6, 7 :: nat]" by code_simp
  also have "sum_list (map retry_delay \<dots>) = 19100" by (simp add: retry_delay_def U64_MAX_def)
  finally show ?thesis .
qed

text \<open>
  C21: what a JSON request to a provider may do, whatever the network answers. With valid
  settings it makes at most \<open>max_retries + 1\<close> attempts and waits at most 19.1 seconds between them. Each attempt sends
  nothing, or exactly one request, of at most \<open>max_request_bytes\<close>, to an address that was among the answers of DNS
  for the endpoint's host, all of which the Vault's mode permits, over HTTPS in remote mode and never
  in a disabled Vault; a budget was charged for it first. A request is repeated only when it failed
  in time or on connecting or got status 408, 429 or 5xx: never after a successful status, when the
  provider may have done the work.
\<close>

theorem provider_request_guarded:
  assumes "request_json env settings endpoint mode body options atts = (r, logs, delays)"
    "provider_settings_validate settings = Ok ()"
  shows "length logs \<le> ps_max_retries settings + 1 \<and> length logs \<le> 9 \<and> sum_list delays \<le> 19100 \<and>
    (\<forall>k < length logs. logs ! k = [] \<or>
      (\<exists>serialized. te_to_vec env body = Some serialized \<and> length serialized \<le> ps_max_request_bytes settings \<and>
        permitted_log settings endpoint mode serialized (atts k) (logs ! k))) \<and>
    (\<forall>k. Suc k < length logs \<longrightarrow> logs ! k \<noteq> [] \<longrightarrow> may_retry (at_send (atts k)))"
proof (cases "serialized_request env settings body")
  case (Inl e)
  with assms(1) show ?thesis by (simp add: request_json_def)
next
  case (Inr serialized)
  have max: "ps_max_retries settings \<le> 8" using assms(2) by (auto simp: provider_settings_validate_def split: if_split_asm)
  have ser: "te_to_vec env body = Some serialized" "length serialized \<le> ps_max_request_bytes settings"
    using Inr by (auto simp: serialized_request_def bind_r_Ok_conv split: if_split_asm)
  have "request_loop env settings endpoint mode serialized options atts 0 = (r, logs, delays)"
    using assms(1) Inr by (simp add: request_json_def)
  note p = request_loop_props [OF this le0]
  have "sum_list delays \<le> 19100" using p retry_delays_bounded [of "length logs - 1"] max by auto
  with p ser max show ?thesis by auto
qed

section \<open>What an adapter sees of a stream\<close>

definition record_events :: "sse_event list callback" where
  \<comment> \<open>an adapter that takes every event as progress and keeps it\<close>
  "record_events s ev = (s @ [ev], Some (Ok Progress))"

lemma deliver_records:
  "\<exists>count' prev'. sse_deliver record_events code progress evs s count prev = (s @ evs, Ok (count', prev', False))"
proof (induction evs arbitrary: s count prev)
  case (Cons ev evs)
  from Cons [of "s @ [ev]"] show ?case by (simp add: record_events_def Let_def)
qed simp

lemma sse_loop_records:
  assumes "sse_loop record_events now dl status limit (map Chunk pieces) d bytes s count prev = (s', Ok resp)" "limit < USIZE_MAX"
  shows "\<exists>evs d' fin d''. sse_push_all pieces d = Ok (evs, d') \<and> sse_finish d' = Ok (fin, d'') \<and> s' = s @ evs @ fin \<and>
    \<not> sr_terminal resp \<and> (pieces = [] \<or> bytes + length (concat pieces) \<le> limit)"
  using assms(1)
proof (induction pieces arbitrary: d bytes s count prev)
  case Nil
  then obtain fin d'' where f: "sse_finish d = Ok (fin, d'')" by (cases "sse_finish d") (auto split: prod.split_asm)
  from deliver_records [of "\<lambda>_. ''provider_stream_total_timeout''" "\<lambda>_ l. l" fin s count prev]
  show ?case using Nil f by auto
next
  case (Cons c cs)
  obtain evs1 d1 where p: "sse_push c d = Ok (evs1, d1)"
    using Cons.prems by (cases "sse_push c d") (auto simp: Let_def split: if_split_asm)
  have b: "bytes + length c \<le> limit" using Cons.prems assms(2) by (auto simp: Let_def saturating_add_def min_def split: if_split_asm)
  obtain count1 prev1 where
    "sse_deliver record_events (\<lambda>l. snd (next_sse_deadline l dl)) (\<lambda>n _. Some (now n)) evs1 s count prev = (s @ evs1, Ok (count1, prev1, False))"
    using deliver_records by blast
  then have "sse_loop record_events now dl status limit (map Chunk cs) d1 (bytes + length c) (s @ evs1) count1 prev1 = (s', Ok resp)"
    using Cons.prems p b assms(2) by (simp add: Let_def saturating_add_def min_def split: if_split_asm)
  from Cons.IH [OF this] show ?case using p b by auto
qed

lemma sse_loop_accepts:
  assumes "sse_push_all pieces d = Ok (evs, d')" "sse_finish d' = Ok (fin, d'')" "bytes + length (concat pieces) \<le> limit" "limit < USIZE_MAX"
  shows "\<exists>resp. sse_loop record_events now dl status limit (map Chunk pieces) d bytes s count prev = (s @ evs @ fin, Ok resp)"
  using assms(1,3)
proof (induction pieces arbitrary: d bytes s count prev evs)
  case Nil
  then show ?case
    using deliver_records [of "\<lambda>_. ''provider_stream_total_timeout''" "\<lambda>_ l. l" fin s count prev] assms(2) by auto
next
  case (Cons c cs)
  obtain evs1 d1 evs2 where p: "sse_push c d = Ok (evs1, d1)" "sse_push_all cs d1 = Ok (evs2, d')" "evs = evs1 @ evs2"
    using Cons.prems(1) by (auto simp: bind_r_Ok_conv)
  obtain count1 prev1 where
    d: "sse_deliver record_events (\<lambda>l. snd (next_sse_deadline l dl)) (\<lambda>n _. Some (now n)) evs1 s count prev = (s @ evs1, Ok (count1, prev1, False))"
    using deliver_records by blast
  have "bytes + length c + length (concat cs) \<le> limit" using Cons.prems(2) by simp
  from Cons.IH [OF p(2) this, of "s @ evs1" count1 prev1] show ?case
    using Cons.prems(2) assms(4) p d by (simp add: Let_def saturating_add_def min_def)
qed

text \<open>
  What an adapter is given of a streamed response is the events of the response, whatever the
  pieces the network delivered. If the request succeeds, the events in order are those that one decoder reads from
  the concatenation of the pieces, followed by what it finishes with, and the response was no longer than the
  limit; and if the decoder accepts the pieces and the end and the response is no longer than the limit, the
  request does succeed with those events.
\<close>

theorem adapter_sees_whole_stream:
  assumes "sse_new limit = Ok d" "limit < USIZE_MAX"
  shows "(\<forall>seen resp. sse_loop record_events now dl status limit (map Chunk pieces) d 0 [] 0 None = (seen, Ok resp) \<longrightarrow>
      (\<exists>evs d' fin d''. sse_push (concat pieces) d = Ok (evs, d') \<and> sse_finish d' = Ok (fin, d'') \<and> seen = evs @ fin \<and>
        length (concat pieces) \<le> limit)) \<and>
    (\<forall>evs d' fin d''. sse_push_all pieces d = Ok (evs, d') \<longrightarrow> sse_finish d' = Ok (fin, d'') \<longrightarrow> length (concat pieces) \<le> limit \<longrightarrow>
      (\<exists>resp. sse_loop record_events now dl status limit (map Chunk pieces) d 0 [] 0 None = (evs @ fin, Ok resp)))"
proof (intro conjI allI impI)
  fix seen resp
  assume "sse_loop record_events now dl status limit (map Chunk pieces) d 0 [] 0 None = (seen, Ok resp)"
  from sse_loop_records [OF this assms(2)]
  obtain evs d' fin d'' where r: "sse_push_all pieces d = Ok (evs, d')" "sse_finish d' = Ok (fin, d'')" "seen = evs @ fin"
    "pieces = [] \<or> length (concat pieces) \<le> limit" by auto
  have "sse_push (concat pieces) d = Ok (evs, d')"
    using sse_push_all_concat [OF _ r(1)] sse_push_fresh [OF assms(1)] r(1) by (cases "pieces = []") simp_all
  with r show "\<exists>evs d' fin d''. sse_push (concat pieces) d = Ok (evs, d') \<and> sse_finish d' = Ok (fin, d'') \<and> seen = evs @ fin \<and>
        length (concat pieces) \<le> limit" by auto
qed (use sse_loop_accepts [of pieces d _ _ _ _ 0 limit now dl status "[]" 0 None] assms(2) in simp)

definition sample_deadlines :: deadlines where
  "sample_deadlines = \<lparr>dl_first = 5, dl_total = 9, dl_idle = 3\<rparr>"

theorem adapter_sees_whole_stream_witness:
  "\<exists>resp. sse_loop record_events id sample_deadlines 200 100 (map Chunk sample_pieces) sample_decoder 0 [] 0 None =
     ([\<lparr>se_event = None, se_id = None, se_data = ''a'' @ [newline] @ ''b''\<rparr>], Ok resp)"
proof -
  have n: "sse_new 100 = Ok sample_decoder" by (simp add: sse_new_def sample_decoder_def)
  have p: "sse_push_all sample_pieces sample_decoder =
      Ok ([\<lparr>se_event = None, se_id = None, se_data = ''a'' @ [newline] @ ''b''\<rparr>], sample_decoder\<lparr>sd_buffer := ''id''\<rparr>)"
    by code_simp
  have f: "sse_finish (sample_decoder\<lparr>sd_buffer := ''id''\<rparr>) = Ok ([], sample_decoder\<lparr>sd_id := Some []\<rparr>)" by code_simp
  have l: "length (concat sample_pieces) \<le> 100" by (simp add: sample_pieces_def)
  have u: "(100 :: nat) < USIZE_MAX" by (simp add: USIZE_MAX_def)
  show ?thesis
    using adapter_sees_whole_stream [OF n u, THEN conjunct2, rule_format, OF p f l, of id sample_deadlines 200] by simp
qed

section \<open>A request, run\<close>

definition sample_env :: transport_env where
  "sample_env = \<lparr>te_to_vec = (\<lambda>_. Some ''{}''), te_from_slice = (\<lambda>_. Some VNull), te_header_name = (\<lambda>_. True),
     te_header_value = (\<lambda>_. True), te_to_str = Some, te_port = uv_port, te_set_path = (\<lambda>p u. u\<lparr>uv_path := p\<rparr>)\<rparr>"

definition sample_endpoint :: url_view where
  "sample_endpoint = \<lparr>uv_scheme = ''https'', uv_host = Some ''api'', uv_port = Some 443, uv_username = [], uv_password = None,
     uv_path = ''/v1/embeddings'', uv_query = None, uv_fragment = None\<rparr>"

definition sample_attempts :: "nat \<Rightarrow> attempt_env" where
  "sample_attempts k = \<lparr>at_addresses = Some [(IpV4 8 8 8 8, 443)], at_permit = True, at_client = True, at_budget = Some (Ok ()),
     at_send = Responded (if k = 0 then 429 else 200) None None [Inr ''null'']\<rparr>"

lemma sample_request_runs:
  "request_json sample_env default_provider_settings sample_endpoint RemoteAllowed VNull
     \<lparr>ro_secret = None, ro_auth_style = Bearer, ro_timeout = None\<rparr> sample_attempts =
   (Ok \<lparr>jr_status = 200, jr_body = VNull\<rparr>,
    replicate 2 [Reserved 2, Sent ''api'' (IpV4 8 8 8 8, 443) [(''content-type'', ''application/json'')] ''{}''], [100])"
proof -
  have ip: "endpoint_ip_allowed (IpV4 8 8 8 8) RemoteAllowed allow" for allow
    by (simp add: endpoint_ip_allowed_def Let_def)
  have v: "validated_socket sample_env sample_endpoint RemoteAllowed default_provider_settings (at_addresses (sample_attempts k)) =
      Ok (''api'', (IpV4 8 8 8 8, 443))" for k
    by (simp add: validated_socket_def sample_endpoint_def sample_env_def sample_attempts_def ip Let_def)
  have once: "request_once sample_env default_provider_settings sample_endpoint RemoteAllowed ''{}''
      \<lparr>ro_secret = None, ro_auth_style = Bearer, ro_timeout = None\<rparr> (sample_attempts k) =
    (if k = 0 then Err (PeHttpStatus 429 True) else Ok \<lparr>jr_status = 200, jr_body = VNull\<rparr>,
     [Reserved 2, Sent ''api'' (IpV4 8 8 8 8, 443) [(''content-type'', ''application/json'')] ''{}''])" for k
    unfolding request_once_def prepare_request_def v
    by (simp add: sample_attempts_def authenticated_request_def default_provider_settings_def json_answer_def
        retryable_status_def is_some_and_def sample_env_def saturating_add_def USIZE_MAX_def)
  have "serialized_request sample_env default_provider_settings VNull = Ok ''{}''"
    by (simp add: serialized_request_def sample_env_def default_provider_settings_def)
  moreover have "ps_max_retries default_provider_settings = 2" by (simp add: default_provider_settings_def)
  moreover have "retry_delay 0 = 100" by (simp add: retry_delay_def U64_MAX_def)
  ultimately show ?thesis by (simp add: request_json_def request_loop.simps once numeral_2_eq_2)
qed

theorem provider_request_guarded_witness:
  "\<exists>logs. fst (snd (request_json sample_env default_provider_settings sample_endpoint RemoteAllowed VNull
     \<lparr>ro_secret = None, ro_auth_style = Bearer, ro_timeout = None\<rparr> sample_attempts)) = logs \<and>
   length logs = 2 \<and> may_retry (at_send (sample_attempts 0)) \<and>
   permitted_log default_provider_settings sample_endpoint RemoteAllowed ''{}'' (sample_attempts 1) (logs ! 1)"
proof -
  have v: "provider_settings_validate default_provider_settings = Ok ()"
    by (simp add: provider_settings_validate_def default_provider_settings_def)
  have s: "te_to_vec sample_env VNull = Some ''{}''" by (simp add: sample_env_def)
  note p = provider_request_guarded [OF sample_request_runs v]
  have "permitted_log default_provider_settings sample_endpoint RemoteAllowed ''{}'' (sample_attempts 1)
      [Reserved 2, Sent ''api'' (IpV4 8 8 8 8, 443) [(''content-type'', ''application/json'')] ''{}'']"
    "may_retry (at_send (sample_attempts 0))"
    using p [THEN conjunct2, THEN conjunct2, THEN conjunct2, THEN conjunct1, rule_format, of 1]
      p [THEN conjunct2, THEN conjunct2, THEN conjunct2, THEN conjunct2, rule_format, of 0] s by auto
  then show ?thesis unfolding sample_request_runs by simp
qed

end
