(* ===== verification/Spec2Isabelle.thy ===== *)
theory Spec2Isabelle
  imports Maintenance Patch File_Repository History Locks Job_Lifecycle Scan_Checkpoints Recovery_Completion
    Auth_Safety Provider_Transport
begin

text \<open>
  A verification library for MCP Vault (the Rust crates under \<^verbatim>\<open>src/crates\<close>), a self-hosted store of Markdown
  files that is served over WebDAV, MCP and an admin API.

  \<^bold>\<open>The program.\<close> A Vault is a directory of files. The mutation service (\<^verbatim>\<open>vault-core\<close>) is the only writer: it
  admits an operation at the maintenance gate (\<^verbatim>\<open>domain\<close>), takes the locks of the paths, journals the intention in
  SQLite (\<^verbatim>\<open>state\<close>), replaces the file atomically and stores the old and new bytes in a content-addressed
  history (\<^verbatim>\<open>storage-fs\<close>), and commits file row, revision, audit row and outbox event in one transaction.
  After a crash, recovery settles every open journal entry against the file system, and reconciliation
  imports what was edited outside. Outbox and job queue hand the changes to workers, which index notes
  (\<^verbatim>\<open>indexer\<close>) and call language-model providers (\<^verbatim>\<open>providers\<close>). Requests of users, administrators and MCP
  clients are authenticated by \<^verbatim>\<open>auth\<close>, with a built-in OAuth authorization server.

  \<^bold>\<open>How code becomes definitions.\<close> A struct is a record, an enum a datatype, \<open>Result<T, E>\<close> the sum
  \<open>'e + 'a\<close> with \<open>Err\<close> and \<open>Ok\<close>; stateful code is a program \<open>('s, 'e, 'a) prog\<close> that returns the result with the new state.
  Strings are UTF-8 bytes, revisions 64-bit words, IPv6 addresses 128-bit words, other integers naturals or
  integers with their bounds and saturation written out. A table is the list of its rows; a statement
  returns the new tables or the database error of the violated constraint. A panic is an error or \<open>None\<close>.

  What the code cannot control is a schedule, over which the theorems quantify: which system call fails or
  is the last before a crash (\<open>Host_FS\<close>), which transactions of other requests run between the steps of
  an operation (\<open>Auth_World\<close>), how tasks interleave (\<open>Maintenance\<close>, \<open>Locks\<close>, \<open>Job_Lifecycle\<close>), what the network
  answers (\<open>Provider_Transport\<close>). Code of other crates is a parameter: Unicode normalisation and lower case, percent
  decoding, HMAC, SHA-256, AEAD, Argon2, RSA, base64, URL, JSON and HTTP header parsing. Clock readings, random bytes
  and fresh identifiers are arguments of the operation that draws them. What a theorem needs of a
  parameter is a named hypothesis, and its witness instantiates it.

  \<^bold>\<open>Where the model is coarser than the code.\<close> A repository call of the auth crate is one atomic step that does
  not fail with I/O errors of the database (\<open>Auth_World\<close>); the calls of the mutation service do, at any point (\<open>db_call\<close>).
  A transition of the maintenance gate is one step, because it holds the transition mutex and writes the only
  cell that others read once (\<open>Maintenance\<close>). Reconciliation lists the directory before it compares
  entries, where the code compares each entry as the scanner finds it (\<open>Reconcile\<close>). The cleanup that dropping a staged
  upload spawns is an operation of its own, which runs at any later time without an admission (\<open>staged_cleanup\<close>).

  \<^bold>\<open>Shared theories.\<close>
  \<^item> \<open>Vault_Prelude\<close>: results, programs, rows and strings; the locales \<open>step_order\<close> (a reflexive, transitive
    relation that programs respect, with one rule for each program combinator) and \<open>inductive_invariant\<close>.
  \<^item> \<open>Program_Logic\<close>: triples for programs that may fail.

  \<^bold>\<open>The domain crate.\<close>
  \<^item> \<open>Domain_Types\<close> (error.rs, id.rs and their siblings): value types and labels. The locale \<open>label_codec\<close>, printing and
    parsing of labels, is interpreted for every stored label.
  \<^item> \<open>Vault_Paths\<close> (path.rs): parsing of paths, the reserved namespace, the entry policy; a parsed path cannot leave
    the content root.
  \<^item> \<open>Maintenance\<close> (maintenance.rs): the gate as a step relation over its atomics. Offline and drained means that
    nothing runs; one lease at a time.

  \<^bold>\<open>Files.\<close>
  \<^item> \<open>Host_FS\<close>, \<open>Storage\<close>, \<open>Storage_Scan\<close>, \<open>History\<close> (storage-fs): directory trees with descriptor-relative calls
    under faults and crashes, atomic writes, moves, deletions, scans, the history store. \<open>Storage_Safety\<close> and
    \<open>Storage_Entries\<close>: a write and a move happen wholly or not at all under every schedule, and succeed on a healthy host.
  \<^item> \<open>Patch\<close> (patch.rs): unified diffs and heading edits, equal to splicing the hunks into the lines.
  \<^item> \<open>Locks\<close> (lock.rs): both lock managers (locale \<open>lock_manager\<close>) and any number of tasks: exclusion, and progress
    from the order of acquisition (locale \<open>ordered_waiting\<close>).

  \<^bold>\<open>State.\<close>
  \<^item> \<open>File_State\<close>, \<open>File_Repository\<close> (files.rs): every transaction, the rows a commit writes in each table, the invariant of
    the tables, and that history only grows.
  \<^item> \<open>Outbox\<close>, \<open>Job_Queue\<close>, \<open>Job_Lifecycle\<close>, \<open>Scan_Checkpoints\<close> (background.rs): leases (locale \<open>lease_queue\<close>, interpreted
    for both queues), the refinement of the job table by an abstract life cycle, fairness of claims.

  \<^bold>\<open>The mutation service\<close> (vault-core/src/lib.rs).
  \<^item> \<open>Core_World\<close>, \<open>Vault_Core\<close>, \<open>Recovery\<close>, \<open>Reconcile\<close>: the whole service over one world of host, database and gate.
  \<^item> \<open>Core_Frame\<close>: the locales \<open>recovery_frame\<close> and \<open>service_frame\<close> list the elementary effects of the service, and what
    respects them is proved once. Their interpretations give the refinement of the service by the
    repository and the release of the gate on all exits.
  \<^item> \<open>Core_Writes\<close>: the write-ahead order of content mutations, with the bytes in the canonical file and a blob of
    their digest in the history store before a revision names them. \<open>Core_Recovery\<close>, \<open>Recovery_Completion\<close>: recovery records only
    what the file system proves, and closes every entry when it returns.

  \<^bold>\<open>Authentication.\<close>
  \<^item> \<open>Auth_Store\<close>, \<open>OAuth_Store\<close> (state/src/auth.rs, auth/local\_oauth.rs): the tables and their transactions.
    \<open>OAuth_Lifecycle\<close>: codes and refresh tokens are spent once in every interleaving.
  \<^item> \<open>Auth_World\<close>, \<open>OAuth_Service\<close>, \<open>Auth_Service\<close>, \<open>OAuth_Resource\<close> (auth/src): key ring, authorization server, administrators,
    credentials, external tokens.
  \<^item> \<open>OAuth_Security\<close>, \<open>Auth_Safety\<close>: what a token or session is bound to and what revokes it, while others act in between:
    sequences of the write transactions of the repository (\<open>oauth_tx\<close>, \<open>auth_tx\<close>).
    The locale \<open>stable_world\<close> carries an assertion through foreign transactions.

  \<^bold>\<open>Notes and providers.\<close>
  \<^item> \<open>Note_Index\<close> (indexer/src/lib.rs): globs, full-text quoting, retrieval scopes, embedding chunks. The matcher agrees with
    the declarative meaning of patterns; queries are data; chunks cover the note within their limits.
  \<^item> \<open>Provider_Policy\<close> (error.rs, policy.rs): settings, presets, the address policy as CIDR blocks, with the mapped
    addresses that pass it.
  \<^item> \<open>Provider_Stream\<close> (sse.rs), \<open>Provider_Aggregate\<close> (native\_stream.rs, stream\_response.rs, callbacks of adapter.rs),
    \<open>Provider_Transport\<close> (transport.rs): accepted cuts of the stream give the same events, a returned message
    is whole, reasoning text is not retained, and a request is bounded, permitted and not replayed after success.

  \<^bold>\<open>Termination and bounds.\<close> Loops are structural or have a measure, except the glob matcher and the chunk loop,
  which are partial functions into \<open>option\<close> and are proved to return. Retry loops are bounded by the settings
  (at most 9 attempts); scans and paged queries by the limits of the code.

  \<^bold>\<open>Not modelled.\<close> The connection pool, migrations, the vault registry, settings, audit, search, provider and
  semantic-memory tables (SQL access without own logic beyond the modelled repositories); backup archives (file and SQLite
  I/O); Markdown and YAML analysis and ranking in floating-point numbers; the semantic-memory pipelines, the
  provider service and request bodies of the adapters, which orchestrate calls of external models; protocol adapters (WebDAV,
  MCP, admin API), process set-up and the evaluation tools. Of storage-fs, the exchange of whole directories and
  the portable fallback backend are left out.
\<close>

end
